(* ===== verification/Prelude.thy ===== *)
theory Prelude
  imports Main "HOL-Library.Word" "HOL-Library.Monad_Syntax"
begin

text \<open>
  The vocabulary the component theories share: the machine integers of the C code as words,
  \<open>memcpy\<close> with its bounds made explicit, and circular reads and writes over a list.

  C code that would read or write outside an object has undefined behaviour; here such a step
  is \<^const>\<open>None\<close>, so that \<open>f x = Some y\<close> says both that the call is memory safe and what it
  returns.
\<close>

type_synonym byte = "8 word"
type_synonym u16 = "16 word"
type_synonym u32 = "32 word"
type_synonym u64 = "64 word"

named_theorems ring_simps "evaluation of circular reads and writes"
named_theorems word_nat "words of the model read as natural numbers"

unbundle bit_operations_syntax

section \<open>Bounded copies\<close>

text \<open>\<open>memcpy(dst + off, src, n)\<close>.\<close>

definition blit :: "'a list \<Rightarrow> nat \<Rightarrow> 'a list \<Rightarrow> nat \<Rightarrow> 'a list option" where
  "blit dst off src n =
     (if off + n \<le> length dst \<and> n \<le> length src
      then Some (take off dst @ take n src @ drop (off + n) dst) else None)"

text \<open>The bytes \<open>src[off], \<dots>, src[off + n - 1]\<close>.\<close>

definition subarray :: "'a list \<Rightarrow> nat \<Rightarrow> nat \<Rightarrow> 'a list option" where
  "subarray src off n = (if off + n \<le> length src then Some (take n (drop off src)) else None)"

text \<open>The element \<open>src[i]\<close>.\<close>

definition byte_at :: "'a list \<Rightarrow> nat \<Rightarrow> 'a option" where
  "byte_at src i = (if i < length src then Some (src ! i) else None)"

lemma blit_in_bounds [simp]:
  "off + n \<le> length dst \<Longrightarrow> n \<le> length src \<Longrightarrow>
   blit dst off src n = Some (take off dst @ take n src @ drop (off + n) dst)"
  by (simp add: blit_def)

lemma blit_length: "blit dst off src n = Some d \<Longrightarrow> length d = length dst"
  by (auto simp: blit_def split: if_splits)

lemma subarray_in_bounds [simp]:
  "off + n \<le> length src \<Longrightarrow> subarray src off n = Some (take n (drop off src))"
  by (simp add: subarray_def)

lemma byte_at_in_bounds [simp]: "i < length src \<Longrightarrow> byte_at src i = Some (src ! i)"
  by (simp add: byte_at_def)

lemma byte_at_eq_Some [simp]: "byte_at src i = Some b \<longleftrightarrow> i < length src \<and> src ! i = b"
  by (auto simp: byte_at_def)

section \<open>Circular reads and writes\<close>

definition ring_read :: "'a list \<Rightarrow> nat \<Rightarrow> nat \<Rightarrow> 'a list" where
  "ring_read buf s n = map (\<lambda>i. buf ! ((s + i) mod length buf)) [0..<n]"

definition ring_write :: "'a list \<Rightarrow> nat \<Rightarrow> 'a list \<Rightarrow> 'a list" where
  "ring_write buf s xs =
     map (\<lambda>j. let k = (j + length buf - s mod length buf) mod length buf
               in if k < length xs then xs ! k else buf ! j) [0..<length buf]"

lemma length_ring_read [simp]: "length (ring_read buf s n) = n"
  by (simp add: ring_read_def)

lemma length_ring_write [simp]: "length (ring_write buf s xs) = length buf"
  by (simp add: ring_write_def)

lemma nth_ring_read [simp]: "i < n \<Longrightarrow> ring_read buf s n ! i = buf ! ((s + i) mod length buf)"
  by (simp add: ring_read_def)

lemma ring_read_0 [simp]: "ring_read buf s 0 = []"
  by (simp add: ring_read_def)

lemma ring_read_mod [ring_simps]: "ring_read buf (s mod length buf) n = ring_read buf s n"
  by (simp add: ring_read_def mod_simps)

lemma ring_write_mod [ring_simps]: "ring_write buf (s mod length buf) xs = ring_write buf s xs"
  by (simp add: ring_write_def)

lemma ring_read_add: "ring_read buf s (m + n) = ring_read buf s m @ ring_read buf (s + m) n"
  by (rule nth_equalityI) (auto simp: nth_append add.assoc)

lemma take_ring_read: "k \<le> n \<Longrightarrow> take k (ring_read buf s n) = ring_read buf s k"
  by (rule nth_equalityI) auto

lemma drop_ring_read: "k \<le> n \<Longrightarrow> drop k (ring_read buf s n) = ring_read buf (s + k) (n - k)"
  by (rule nth_equalityI) (auto simp: add.assoc)

lemma ring_read_linear:
  "s + n \<le> length buf \<Longrightarrow> ring_read buf s n = take n (drop s buf)"
  by (rule nth_equalityI) auto

lemma ring_read_wrapped:
  assumes "s < length buf" and "n \<le> length buf" and "length buf \<le> s + n"
  shows "ring_read buf s n = drop s buf @ take (s + n - length buf) buf"
proof -
  have split: "n = (length buf - s) + (s + n - length buf)"
    using assms by simp
  have "ring_read buf s n =
    ring_read buf s (length buf - s) @ ring_read buf (s + (length buf - s)) (s + n - length buf)"
    by (subst split) (rule ring_read_add)
  moreover have "ring_read buf s (length buf - s) = drop s buf"
    using assms by (simp add: ring_read_linear)
  moreover have "ring_read buf (s + (length buf - s)) (s + n - length buf) =
    ring_read buf 0 (s + n - length buf)"
    using assms ring_read_mod [of buf "length buf" "s + n - length buf"] by simp
  moreover have "ring_read buf 0 (s + n - length buf) = take (s + n - length buf) buf"
    using assms by (subst ring_read_linear) auto
  ultimately show ?thesis by simp
qed

text \<open>The offset of position \<open>(s + i) mod L\<close> from the start \<open>s\<close> of a write is \<open>i\<close>.\<close>

lemma ring_offset:
  assumes "i < (L::nat)"
  shows "((s + i) mod L + L - s mod L) mod L = i"
proof -
  have "s mod L < L" using assms by simp
  then consider "s mod L + i < L" | "L \<le> s mod L + i" "s mod L + i < 2 * L"
    using assms by linarith
  then show ?thesis
  proof cases
    case 1
    then have "(s + i) mod L = s mod L + i"
      by (metis mod_add_left_eq mod_less)
    then show ?thesis using assms by simp
  next
    case 2
    then have "(s + i) mod L = s mod L + i - L"
      by (metis mod_add_left_eq le_mod_geq mod_less less_diff_conv2 mult_2)
    then show ?thesis using assms 2 by simp
  qed
qed

lemma nth_ring_write:
  assumes "i < length buf"
  shows "ring_write buf s xs ! ((s + i) mod length buf) =
    (if i < length xs then xs ! i else buf ! ((s + i) mod length buf))"
proof -
  have "0 < length buf" using assms by linarith
  then have "(s + i) mod length buf < length buf" by simp
  with assms show ?thesis by (simp add: ring_write_def Let_def ring_offset)
qed

lemma ring_read_write_same:
  "length xs \<le> length buf \<Longrightarrow> ring_read (ring_write buf s xs) s (length xs) = xs"
  by (rule nth_equalityI) (auto simp: nth_ring_write)

lemma ring_read_write_before:
  assumes "m + length xs \<le> length buf"
  shows "ring_read (ring_write buf (s + m) xs) s m = ring_read buf s m"
proof (rule nth_equalityI)
  fix i assume i: "i < length (ring_read (ring_write buf (s + m) xs) s m)"
  let ?j = "i + length buf - m"
  have pos: "(s + m + ?j) mod length buf = (s + i) mod length buf"
    using i assms mod_add_self2 [of "s + i" "length buf"] by (simp add: ac_simps)
  have "?j < length buf" and "\<not> ?j < length xs" using i assms by auto
  then have "ring_write buf (s + m) xs ! ((s + m + ?j) mod length buf) =
    buf ! ((s + m + ?j) mod length buf)"
    by (subst nth_ring_write) auto
  with i show "ring_read (ring_write buf (s + m) xs) s m ! i = ring_read buf s m ! i"
    by (simp add: pos)
qed simp

lemma ring_append:
  assumes "m + length xs \<le> length buf"
  shows "ring_read (ring_write buf (s + m) xs) s (m + length xs) = ring_read buf s m @ xs"
  using assms by (simp add: ring_read_add ring_read_write_before ring_read_write_same)

text \<open>A write that stays below the end of the buffer is one copy; one that passes it is two.\<close>

lemma ring_write_linear:
  assumes "s + length xs \<le> length buf" "s < length buf"
  shows "ring_write buf s xs = take s buf @ xs @ drop (s + length xs) buf"
proof (rule nth_equalityI)
  fix i assume "i < length (ring_write buf s xs)"
  then have i: "i < length buf" by simp
  show "ring_write buf s xs ! i = (take s buf @ xs @ drop (s + length xs) buf) ! i"
  proof (cases "i < s")
    case True
    with i assms have "(i + length buf - s mod length buf) mod length buf = i + length buf - s"
      by simp
    moreover have "\<not> i + length buf - s < length xs" using True i assms by simp
    ultimately show ?thesis using True i assms
      by (simp add: ring_write_def Let_def nth_append)
  next
    case False
    with i assms have "(i + length buf - s mod length buf) mod length buf = i - s"
      by (simp add: le_mod_geq)
    with False i assms show ?thesis by (simp add: ring_write_def Let_def nth_append)
  qed
qed (use assms in simp)

lemma ring_write_wrapped:
  assumes "s < length buf" "length xs \<le> length buf" "length buf \<le> s + length xs"
  shows "ring_write buf s xs =
    drop (length buf - s) xs @ drop (s + length xs - length buf) (take s buf) @
      take (length buf - s) xs"
proof (rule nth_equalityI)
  fix i assume "i < length (ring_write buf s xs)"
  then have i: "i < length buf" by simp
  show "ring_write buf s xs ! i =
    (drop (length buf - s) xs @ drop (s + length xs - length buf) (take s buf) @
      take (length buf - s) xs) ! i"
  proof (cases "i < s")
    case True
    with i assms have "(i + length buf - s mod length buf) mod length buf = i + length buf - s"
      by simp
    with True i assms show ?thesis by (auto simp: ring_write_def Let_def nth_append add.commute)
  next
    case False
    with i assms have "(i + length buf - s mod length buf) mod length buf = i - s"
      by (simp add: le_mod_geq)
    with False i assms show ?thesis by (auto simp: ring_write_def Let_def nth_append)
  qed
qed (use assms in simp)

text \<open>
  The two-copy idiom of the C code: \<open>l\<close> bytes up to the end of the buffer, the others at its
  start. It is a circular write, and a circular read.
\<close>

lemma two_blits_write:
  assumes "p < length buf" "n \<le> length buf" "n \<le> length src" "l = min n (length buf - p)"
  shows "do { b \<leftarrow> blit buf p src l; r \<leftarrow> subarray src l (n - l); blit b 0 r (n - l) } =
    Some (ring_write buf p (take n src))"
proof (cases "n \<le> length buf - p")
  case True
  with assms show ?thesis by (simp add: ring_write_linear)
next
  case False
  define k where "k = length buf - p"
  from False assms have l: "l = k" by (simp add: k_def)
  have p: "p = length buf - k" "k \<le> length buf" and k: "k \<le> n" using assms False by (auto simp: k_def)
  have "ring_write buf p (take n src) =
      drop k (take n src) @ drop (n - k) (take p buf) @ take k (take n src)"
    using assms False ring_write_wrapped [of p buf "take n src"]
    by (simp add: k_def min_def add.commute)
  moreover have "blit buf p src l = Some (take p buf @ take k src)"
    using assms p k l by simp
  moreover have "subarray src l (n - l) = Some (drop k (take n src))"
    using assms k l by (simp add: drop_take)
  moreover have "blit (take p buf @ take k src) 0 (drop k (take n src)) (n - l) =
      Some (drop k (take n src) @ drop (n - k) (take p buf) @ take k src)"
    using assms p k l by simp
  ultimately show ?thesis using k by (simp add: min_def)
qed

lemma two_blits_read:
  assumes "p < length buf" "n \<le> length buf" "n \<le> length dst" "l = min n (length buf - p)"
  shows "do { h \<leftarrow> subarray buf p l; d \<leftarrow> blit dst 0 h l; t \<leftarrow> subarray buf 0 (n - l);
              blit d l t (n - l) } =
    Some (ring_read buf p n @ drop n dst)"
proof (cases "n \<le> length buf - p")
  case True
  with assms show ?thesis by (simp add: ring_read_linear)
next
  case False
  with assms have l: "l = length buf - p" by simp
  have "ring_read buf p n = drop p buf @ take (p + n - length buf) buf"
    using assms False by (intro ring_read_wrapped) auto
  moreover have "p + n - length buf = n - (length buf - p)" using assms by simp
  ultimately show ?thesis using assms False l by simp
qed

section \<open>Words as natural numbers\<close>

text \<open>Masking with \<open>2 ^ k - 1\<close> is the remainder modulo \<open>2 ^ k\<close>.\<close>

lemma unat_and_mask [word_nat]:
  fixes w :: "'a::len word"
  assumes "unat sz = 2 ^ k"
  shows "unat (w AND (sz - 1)) = unat w mod unat sz"
proof -
  have "unat sz < 2 ^ LENGTH('a)" by (rule unsigned_less)
  with assms have k: "k < LENGTH('a)" by simp
  have "of_nat (2 ^ k) = sz"
    unfolding of_nat_eq using assms by (intro exI [of _ 0]) simp
  then have "sz = 2 ^ k" by simp
  then have "w AND (sz - 1) = take_bit k w"
    by (simp add: take_bit_eq_mask mask_eq_exp_minus_1)
  then have "unat (w AND (sz - 1)) = take_bit k (unat w)"
    by (simp add: unsigned_take_bit_eq del: take_bit_eq_mod)
  then show ?thesis
    using assms by (simp add: take_bit_eq_mod)
qed

text \<open>A field of \<open>m\<close> bits at bit \<open>n\<close>.\<close>

lemma and_field:
  "w AND push_bit n (mask m) = push_bit n (take_bit m (drop_bit n w))" for w :: "'a::len word"
  by (rule bit_word_eqI) (auto simp: bit_simps)

lemma unat_drop_field: "unat (drop_bit n w) = unat w div 2 ^ n" for w :: "'a::len word"
proof -
  have "drop_bit n (take_bit LENGTH('a) (unat w)) = unat w div 2 ^ n"
    using unsigned_less [of w, where 'a = nat]
    by (simp only: drop_bit_eq_div take_bit_eq_mod mod_less)
  then show ?thesis by (simp only: unsigned_drop_bit_eq)
qed

lemma unat_and_field:
  fixes w :: "'a::len word"
  assumes "f = push_bit n (mask m)" "n + m \<le> LENGTH('a)"
  shows "unat (w AND f) = 2 ^ n * (unat w div 2 ^ n mod 2 ^ m)"
proof -
  have "unat w div 2 ^ n mod 2 ^ m < 2 ^ m" by simp
  then have "2 ^ n * (unat w div 2 ^ n mod 2 ^ m) < 2 ^ n * 2 ^ m" by simp
  also have "(2 :: nat) ^ n * 2 ^ m \<le> 2 ^ LENGTH('a)"
    using assms(2) by (simp flip: power_add)
  finally have less: "2 ^ n * (unat w div 2 ^ n mod 2 ^ m) < 2 ^ LENGTH('a)" .
  have "unat (w AND f) = take_bit LENGTH('a) (push_bit n (take_bit m (unat (drop_bit n w))))"
    unfolding assms(1) and_field by (simp only: unsigned_push_bit_eq unsigned_take_bit_eq)
  also have "\<dots> = 2 ^ n * (unat w div 2 ^ n mod 2 ^ m)"
    unfolding unat_drop_field
    using less by (simp only: push_bit_eq_mult take_bit_eq_mod mult.commute mod_less)
  finally show ?thesis .
qed

lemma dvd_mod_pow: "k \<le> n \<Longrightarrow> (m :: nat) mod 2 ^ n mod 2 ^ k = m mod 2 ^ k"
  by (simp add: le_imp_power_dvd mod_mod_cancel)

lemma unat_sub_le [word_nat]: "b \<le> a \<Longrightarrow> unat (a - b) = unat a - unat (b :: 'a::len word)"
  by (rule unat_sub)

text \<open>A length returned as \<open>int\<close> is itself when it is below \<open>2 ^ 31\<close>.\<close>

lemma sint_small [word_nat]: "unat (n :: u32) < 2147483648 \<Longrightarrow> sint n = int (unat n)"
proof -
  assume "unat n < 2147483648"
  then have "int (unat n) < 2147483648" by linarith
  then have "uint n < 2147483648" by simp
  then have "signed_take_bit 31 (uint n) = uint n"
    by (intro signed_take_bit_int_eq_self) (auto intro: order_trans [of _ 0])
  then show "sint n = int (unat n)" by (simp add: sint_uint)
qed

text \<open>The ranges of the fixed-width types.\<close>

lemma unat_u8_less: "unat (x :: byte) < 256"
  using unsigned_less [of x, where 'a = nat] by simp

lemma unat_u16_less: "unat (x :: u16) < 65536"
  using unsigned_less [of x, where 'a = nat] by simp

lemma unat_u32_less: "unat (x :: u32) < 4294967296"
  using unsigned_less [of x, where 'a = nat] by simp

lemmas unat_width = unat_u8_less unat_u16_less unat_u32_less

section \<open>A 32-bit word in memory\<close>

text \<open>The four bytes of a word, lowest first, and the word the first four bytes of a list make.\<close>

definition le32 :: "u32 \<Rightarrow> byte list" where
  "le32 w = [ucast w, ucast (drop_bit 8 w), ucast (drop_bit 16 w), ucast (drop_bit 24 w)]"

lemma length_le32 [simp]: "length (le32 w) = 4"
  by (simp add: le32_def)

fun get_le32 :: "byte list \<Rightarrow> u32" where
  "get_le32 (a # b # c # d # _) = ucast a OR push_bit 8 (ucast b) OR push_bit 16 (ucast c) OR push_bit 24 (ucast d)"
| "get_le32 _ = 0"

lemma get_le32_le32 [simp]: "get_le32 (le32 w @ bs) = w"
proof (rule bit_word_eqI)
  fix n assume "n < LENGTH(32)"
  then have n: "n < 32" by simp
  consider "n < 8" | "8 \<le> n" "n < 16" | "16 \<le> n" "n < 24" | "24 \<le> n" by linarith
  then show "bit (get_le32 (le32 w @ bs)) n = bit w n"
    by cases (use n in \<open>auto simp: le32_def bit_or_iff bit_push_bit_iff bit_ucast_iff bit_drop_bit_eq\<close>)
qed

section \<open>A 16-bit word in memory, phases of the start\<close>

text \<open>16-bit fields are stored low byte first.\<close>

definition put_u16 :: "u16 \<Rightarrow> byte list" where
  "put_u16 w = [ucast w, ucast (drop_bit 8 w)]"

definition get_u16 :: "byte list \<Rightarrow> nat \<Rightarrow> u16 option" where
  "get_u16 msg i = do {
     lo \<leftarrow> byte_at msg i;
     hi \<leftarrow> byte_at msg (i + 1);
     Some (ucast lo OR push_bit 8 (ucast hi)) }"

lemma length_put_u16 [simp]: "length (put_u16 w) = 2"
  by (simp add: put_u16_def)

lemma get_put_u16: "get_u16 (pre @ put_u16 w @ post) (length pre) = Some w"
proof -
  have "ucast (ucast w :: byte) OR push_bit 8 (ucast (ucast (drop_bit 8 w) :: byte)) = w"
    by (rule bit_word_eqI) (auto simp: bit_simps)
  then show ?thesis by (simp add: get_u16_def put_u16_def nth_append)
qed

text \<open>The phases in which the initialisation of each part is called.\<close>

datatype INIT_PHASE = INIT_PHASE_INSIDE | INIT_PHASE_RESTORE | INIT_PHASE_OUTSIDE

end
