(* ===== verification/Fifo.thy ===== *)
theory Fifo
  imports Prelude
begin

text \<open>
  The queue contract. Three components of the program keep first-in-first-out storage in a
  circular array and are used through it: the byte ring of \<open>mid/ringbuffer/ring_buffer.c\<close>
  (by the SPI transport), the per-module body queue of \<open>app/base/tcom/tcom_main.c\<close> (by the
  inter-thread messages) and the AT command queue of \<open>app/base/at/at_queue.c\<close>. The locale
  states what a client may rely on: the elements held, in order, the room left, and what a
  push or a pull does to them. The providers discharge it on the model of their code.
\<close>

locale bounded_fifo =
  fixes invar :: "'q \<Rightarrow> bool"
    and contents :: "'q \<Rightarrow> 'a list"
    and capacity :: "'q \<Rightarrow> nat"
    and push :: "'a list \<Rightarrow> 'q \<Rightarrow> 'q option"
    and pull :: "nat \<Rightarrow> 'q \<Rightarrow> ('a list \<times> 'q) option"
  assumes contents_bounded: "invar q \<Longrightarrow> length (contents q) \<le> capacity q"
    and push_fits: "invar q \<Longrightarrow> length (contents q) + length xs \<le> capacity q \<Longrightarrow>
      \<exists>q'. push xs q = Some q' \<and> invar q' \<and> contents q' = contents q @ xs
        \<and> capacity q' = capacity q"
    and pull_available: "invar q \<Longrightarrow> n \<le> length (contents q) \<Longrightarrow>
      \<exists>q'. pull n q = Some (take n (contents q), q') \<and> invar q'
        \<and> contents q' = drop n (contents q) \<and> capacity q' = capacity q"

text \<open>A run of a queue: pushes of chunks and pulls of counts, collecting what was pulled.\<close>

datatype 'a fifo_op = Push "'a list" | Pull nat

fun fifo_run ::
  "('a list \<Rightarrow> 'q \<Rightarrow> 'q option) \<Rightarrow> (nat \<Rightarrow> 'q \<Rightarrow> ('a list \<times> 'q) option) \<Rightarrow>
   'a fifo_op list \<Rightarrow> 'q \<Rightarrow> ('a list \<times> 'q) option" where
  "fifo_run push pull [] q = Some ([], q)"
| "fifo_run push pull (Push xs # ops) q = do { q' \<leftarrow> push xs q; fifo_run push pull ops q' }"
| "fifo_run push pull (Pull n # ops) q = do {
     (out, q') \<leftarrow> pull n q;
     (outs, q'') \<leftarrow> fifo_run push pull ops q';
     Some (out @ outs, q'') }"

text \<open>
  The same run on the abstract queue, a list with \<open>c\<close> places: \<^const>\<open>None\<close> when a push does not fit
  or a pull asks for more than there is.
\<close>

fun list_run :: "nat \<Rightarrow> 'a fifo_op list \<Rightarrow> 'a list \<Rightarrow> ('a list \<times> 'a list) option" where
  "list_run c [] xs = Some ([], xs)"
| "list_run c (Push ys # ops) xs =
     (if length xs + length ys \<le> c then list_run c ops (xs @ ys) else None)"
| "list_run c (Pull n # ops) xs =
     (if n \<le> length xs
      then map_option (\<lambda>(outs, rest). (take n xs @ outs, rest)) (list_run c ops (drop n xs))
      else None)"

fun pushed :: "'a fifo_op list \<Rightarrow> 'a list" where
  "pushed [] = []"
| "pushed (Push xs # ops) = xs @ pushed ops"
| "pushed (Pull n # ops) = pushed ops"

text \<open>On the abstract queue, what comes out followed by what is left is what went in.\<close>

lemma list_run_order:
  "list_run c ops xs = Some (outs, rest) \<Longrightarrow> outs @ rest = xs @ pushed ops"
proof (induction ops arbitrary: xs outs rest)
  case Nil
  then show ?case by simp
next
  case (Cons op ops)
  show ?case
  proof (cases op)
    case (Push ys)
    with Cons show ?thesis by (fastforce split: if_splits)
  next
    case (Pull n)
    with Cons.prems obtain outs' where "list_run c ops (drop n xs) = Some (outs', rest)"
      and "outs = take n xs @ outs'" by (auto split: if_splits)
    with Cons.IH [of "drop n xs" outs' rest] Pull show ?thesis
      by (metis append.assoc append_take_drop_id pushed.simps(3))
  qed
qed

context bounded_fifo begin

text \<open>Refinement: wherever the abstract queue runs, the circular array runs with the same output.\<close>

lemma run_refines:
  "invar q \<Longrightarrow> list_run (capacity q) ops (contents q) = Some (outs, rest) \<Longrightarrow>
   \<exists>q'. fifo_run push pull ops q = Some (outs, q') \<and> invar q' \<and> contents q' = rest
     \<and> capacity q' = capacity q"
proof (induction ops arbitrary: q outs)
  case Nil
  then show ?case by simp
next
  case (Cons op ops)
  show ?case
  proof (cases op)
    case (Push ys)
    with Cons.prems have fits: "length (contents q) + length ys \<le> capacity q"
      and run: "list_run (capacity q) ops (contents q @ ys) = Some (outs, rest)"
      by (auto split: if_splits)
    from push_fits [OF Cons.prems(1) fits] obtain q' where "push ys q = Some q'" "invar q'"
      "contents q' = contents q @ ys" "capacity q' = capacity q" by blast
    with Cons.IH [of q' outs] run Push show ?thesis by simp
  next
    case (Pull n)
    with Cons.prems obtain outs' where n: "n \<le> length (contents q)"
      and run: "list_run (capacity q) ops (drop n (contents q)) = Some (outs', rest)"
      and outs: "outs = take n (contents q) @ outs'" by (auto split: if_splits)
    from pull_available [OF Cons.prems(1) n] obtain q' where
      "pull n q = Some (take n (contents q), q')" "invar q'"
      "contents q' = drop n (contents q)" "capacity q' = capacity q" by blast
    with Cons.IH [of q' outs'] run outs Pull show ?thesis by auto
  qed
qed

lemma run_fifo:
  assumes "invar q" and "list_run (capacity q) ops (contents q) = Some (outs, rest)"
  shows "\<exists>q'. fifo_run push pull ops q = Some (outs, q') \<and> invar q'
    \<and> outs @ contents q' = contents q @ pushed ops"
  using run_refines [OF assms] list_run_order [OF assms(2)] by auto

end

end
