(* ===== verification/RingBuffer.thy ===== *)
theory RingBuffer
  imports Fifo
begin

text \<open>
  \<open>mid/ringbuffer/ring_buffer.c\<close>: the byte ring under the SPI transport. \<open>in\<close> and \<open>out\<close> are
  free-running 32-bit counters, masked with \<open>size - 1\<close> on access; the buffer size is a power
  of two. The destination and source buffers of a call are lists (\<^const>\<open>None\<close> for a NULL
  pointer); a call whose copies leave a buffer is \<^const>\<open>None\<close>.
\<close>

record ring_buffer =
  rb_buffer :: "byte list"
  rb_size :: u32
  rb_in_pos :: u32
  rb_out_pos :: u32

definition is_power_of_2 :: "u32 \<Rightarrow> bool" where
  "is_power_of_2 x \<longleftrightarrow> x \<noteq> 0 \<and> x AND (x - 1) = 0"

definition rb_init :: "ring_buffer \<Rightarrow> byte list \<Rightarrow> u32 \<Rightarrow> int \<times> ring_buffer" where
  "rb_init rb buffer sz =
     (if \<not> is_power_of_2 sz then (-1, rb)
      else (0, \<lparr>rb_buffer = buffer, rb_size = sz, rb_in_pos = 0, rb_out_pos = 0\<rparr>))"

definition rb_used_len :: "ring_buffer \<Rightarrow> u32" where
  "rb_used_len rb = rb_in_pos rb - rb_out_pos rb"

definition rb_unused_len :: "ring_buffer \<Rightarrow> u32" where
  "rb_unused_len rb = rb_size rb - rb_in_pos rb + rb_out_pos rb"

definition rb_empty :: "ring_buffer \<Rightarrow> bool" where
  "rb_empty rb \<longleftrightarrow> rb_in_pos rb = rb_out_pos rb"

text \<open>The two copies out of the ring that \<open>rb_out\<close> and \<open>rb_get\<close> make, from the masked position \<open>pos\<close>.\<close>

definition ring_copy_out :: "ring_buffer \<Rightarrow> u32 \<Rightarrow> byte list \<Rightarrow> u32 \<Rightarrow> byte list option" where
  "ring_copy_out rb pos dst n = do {
     let len = min n (rb_size rb - pos);
     head \<leftarrow> subarray (rb_buffer rb) (unat pos) (unat len);
     dst' \<leftarrow> blit dst 0 head (unat len);
     tail \<leftarrow> subarray (rb_buffer rb) 0 (unat (n - len));
     blit dst' (unat len) tail (unat (n - len)) }"

definition rb_out ::
  "ring_buffer \<Rightarrow> byte list option \<Rightarrow> u32 \<Rightarrow> (int \<times> ring_buffer \<times> byte list option) option" where
  "rb_out rb buffer sz = (case buffer of
     None \<Rightarrow> Some (-1, rb, None)
   | Some dst \<Rightarrow> do {
       let n = min sz (rb_in_pos rb - rb_out_pos rb);
       dst' \<leftarrow> ring_copy_out rb (rb_out_pos rb AND (rb_size rb - 1)) dst n;
       let out' = rb_out_pos rb + n;
       let rb' = (if rb_in_pos rb = out' then rb\<lparr>rb_in_pos := 0, rb_out_pos := 0\<rparr>
                  else rb\<lparr>rb_out_pos := out'\<rparr>);
       Some (sint n, rb', Some dst') })"

definition rb_get ::
  "ring_buffer \<Rightarrow> byte list option \<Rightarrow> u32 \<Rightarrow> u32 \<Rightarrow> (int \<times> byte list option) option" where
  "rb_get rb buffer offset sz = (case buffer of
     None \<Rightarrow> Some (-1, None)
   | Some dst \<Rightarrow> do {
       let out = (rb_out_pos rb + offset) AND (rb_size rb - 1);
       let n = min sz (rb_in_pos rb - out);
       dst' \<leftarrow> ring_copy_out rb (out AND (rb_size rb - 1)) dst n;
       Some (sint n, Some dst') })"

text \<open>The two copies into the ring that \<open>rb_in\<close> makes.\<close>

definition ring_copy_in :: "ring_buffer \<Rightarrow> u32 \<Rightarrow> byte list \<Rightarrow> u32 \<Rightarrow> byte list option" where
  "ring_copy_in rb pos src n = do {
     let len = min n (rb_size rb - pos);
     buf \<leftarrow> blit (rb_buffer rb) (unat pos) src (unat len);
     rest \<leftarrow> subarray src (unat len) (unat (n - len));
     blit buf 0 rest (unat (n - len)) }"

definition rb_in ::
  "ring_buffer \<Rightarrow> byte list option \<Rightarrow> u32 \<Rightarrow> (int \<times> ring_buffer) option" where
  "rb_in rb buffer sz = (case buffer of
     None \<Rightarrow> Some (-1, rb)
   | Some src \<Rightarrow> do {
       let n = min sz (rb_size rb - rb_in_pos rb + rb_out_pos rb);
       buf' \<leftarrow> ring_copy_in rb (rb_in_pos rb AND (rb_size rb - 1)) src n;
       Some (sint n, rb\<lparr>rb_buffer := buf', rb_in_pos := rb_in_pos rb + n\<rparr>) })"

definition rb_clean :: "ring_buffer \<Rightarrow> ring_buffer" where
  "rb_clean rb = rb\<lparr>rb_buffer := replicate (unat (rb_size rb)) 0 @ drop (unat (rb_size rb)) (rb_buffer rb),
                    rb_in_pos := 0, rb_out_pos := 0\<rparr>"

section \<open>The invariant and the bytes held\<close>

definition rb_wf :: "ring_buffer \<Rightarrow> bool" where
  "rb_wf rb \<longleftrightarrow> is_power_of_2 (rb_size rb) \<and> length (rb_buffer rb) = unat (rb_size rb)
     \<and> rb_used_len rb \<le> rb_size rb"

definition rb_contents :: "ring_buffer \<Rightarrow> byte list" where
  "rb_contents rb = ring_read (rb_buffer rb) (unat (rb_out_pos rb)) (unat (rb_used_len rb))"

definition rb_capacity :: "ring_buffer \<Rightarrow> nat" where
  "rb_capacity rb = unat (rb_size rb)"

text \<open>A word with \<open>x AND (x - 1) = 0\<close> is a power of two.\<close>

lemma nat_and_div_2: "(m AND n) div 2 = (m div 2) AND (n div 2 :: nat)"
  using drop_bit_and [of 1 m n] by (simp add: drop_bit_eq_div)

lemma nat_power_of_2: "a \<noteq> 0 \<Longrightarrow> a AND (a - 1) = (0::nat) \<Longrightarrow> \<exists>k. a = 2 ^ k"
proof (induction a rule: less_induct)
  case (less a)
  show ?case
  proof (cases "even a")
    case True
    then obtain b where a: "a = 2 * b" by blast
    with less.prems have b: "b \<noteq> 0" "b < a" by auto
    have "(a AND (a - 1)) div 2 = b AND (a - 1) div 2"
      using a by (simp add: nat_and_div_2)
    moreover have "(a - 1) div 2 = b - 1" using a b by presburger
    ultimately have "b AND (b - 1) = 0" using less.prems by simp
    with less.IH b obtain k where "b = 2 ^ k" by blast
    then have "a = 2 ^ Suc k" by (simp add: a)
    then show ?thesis ..
  next
    case False
    then obtain b where a: "a = 2 * b + 1" by (auto elim: oddE)
    have "(a AND (a - 1)) div 2 = b AND b"
      using a by (simp add: nat_and_div_2)
    with less.prems have "b = 0" by simp
    then have "a = 2 ^ 0" by (simp add: a)
    then show ?thesis ..
  qed
qed

lemma power_of_2_nat:
  assumes "is_power_of_2 x"
  obtains k where "unat x = 2 ^ k"
proof -
  have x: "x \<noteq> 0" "x AND (x - 1) = 0" using assms by (auto simp: is_power_of_2_def)
  have "unat x AND (unat x - 1) = unat (x AND (x - 1))"
    using x(1) by (simp add: unsigned_and_eq unat_minus_one)
  with x nat_power_of_2 [of "unat x"] that show thesis
    by (auto simp: unat_eq_0)
qed

text \<open>Positions: masking a counter is the remainder modulo the buffer length.\<close>

lemma rb_wf_mask:
  assumes "rb_wf rb"
  shows "unat (w AND (rb_size rb - 1)) = unat w mod length (rb_buffer rb)"
proof -
  from assms obtain k where "unat (rb_size rb) = 2 ^ k"
    by (auto simp: rb_wf_def elim: power_of_2_nat)
  with assms show ?thesis by (simp add: unat_and_mask rb_wf_def)
qed

lemma rb_wf_wrap:
  assumes "rb_wf rb"
  shows "unat (a + b :: u32) mod length (rb_buffer rb) = (unat a + unat b) mod length (rb_buffer rb)"
proof -
  from assms obtain k where k: "unat (rb_size rb) = 2 ^ k"
    by (auto simp: rb_wf_def elim: power_of_2_nat)
  moreover have "unat (rb_size rb) < 2 ^ 32" using unat_u32_less [of "rb_size rb"] by simp
  ultimately have "k \<le> 32" using power_strict_increasing_iff [of "2::nat" k 32] by simp
  with k assms show ?thesis
    using dvd_mod_pow [of k 32 "unat a + unat b"] by (simp add: rb_wf_def unat_word_ariths)
qed

lemma rb_wf_size_pos: "rb_wf rb \<Longrightarrow> 0 < length (rb_buffer rb)"
  by (auto simp: rb_wf_def is_power_of_2_def unat_gt_0)

lemma rb_wf_in_pos:
  assumes "rb_wf rb"
  shows "unat (rb_in_pos rb) mod length (rb_buffer rb) =
    (unat (rb_out_pos rb) + unat (rb_used_len rb)) mod length (rb_buffer rb)"
  using rb_wf_wrap [OF assms, of "rb_out_pos rb" "rb_used_len rb"] by (simp add: rb_used_len_def)

lemma length_rb_contents [simp]: "length (rb_contents rb) = unat (rb_used_len rb)"
  by (simp add: rb_contents_def)

lemma rb_wf_used: "rb_wf rb \<Longrightarrow> unat (rb_used_len rb) \<le> length (rb_buffer rb)"
  by (simp add: rb_wf_def word_le_nat_alt)

lemma rb_unused_eq: "rb_unused_len rb = rb_size rb - rb_used_len rb"
  by (simp add: rb_unused_len_def rb_used_len_def)

lemma rb_wf_unused:
  "rb_wf rb \<Longrightarrow> unat (rb_unused_len rb) = length (rb_buffer rb) - unat (rb_used_len rb)"
  by (simp add: rb_unused_eq rb_wf_def unat_sub)

section \<open>Reading\<close>

text \<open>The two copies deliver the circular read, provided the destination has room.\<close>

lemma ring_copy_out_reads:
  assumes wf: "rb_wf rb" and n: "unat n \<le> length (rb_buffer rb)" and room: "unat n \<le> length dst"
    and pos: "unat pos < length (rb_buffer rb)"
  shows "ring_copy_out rb pos dst n =
    Some (ring_read (rb_buffer rb) (unat pos) (unat n) @ drop (unat n) dst)"
proof -
  let ?L = "length (rb_buffer rb)" and ?p = "unat pos" and ?n = "unat n"
  let ?len = "min n (rb_size rb - pos)"
  have L: "unat (rb_size rb) = ?L" using wf by (simp add: rb_wf_def)
  then have "unat (rb_size rb - pos) = ?L - ?p"
    using pos by (simp add: unat_sub word_le_nat_alt)
  then have len: "unat ?len = min ?n (?L - ?p)"
    by (simp add: min_def word_le_nat_alt)
  have rest: "unat (n - ?len) = ?n - unat ?len"
    by (rule unat_sub) simp
  show ?thesis
    unfolding ring_copy_out_def Let_def rest by (rule two_blits_read [OF pos n room len])
qed

text \<open>\<open>rb_out\<close> takes the oldest bytes, as many as are asked for and there are.\<close>

lemma rb_out_takes:
  assumes wf: "rb_wf rb" and room: "unat sz \<le> length dst"
  defines "n \<equiv> min sz (rb_used_len rb)"
  shows "\<exists>rb'. rb_out rb (Some dst) sz =
      Some (sint n, rb', Some (take (unat n) (rb_contents rb) @ drop (unat n) dst))
    \<and> rb_wf rb' \<and> rb_contents rb' = drop (unat n) (rb_contents rb)
    \<and> rb_size rb' = rb_size rb"
proof -
  let ?buf = "rb_buffer rb" and ?out = "rb_out_pos rb"
  let ?pos = "?out AND (rb_size rb - 1)"
  have n_le: "unat n \<le> unat (rb_used_len rb)" "unat n \<le> unat sz"
    by (auto simp: n_def min_def word_le_nat_alt)
  have pos: "unat ?pos = unat ?out mod length ?buf" by (rule rb_wf_mask [OF wf])
  then have "ring_copy_out rb ?pos dst n =
      Some (ring_read ?buf (unat ?out) (unat n) @ drop (unat n) dst)"
    using rb_wf_used [OF wf] rb_wf_size_pos [OF wf] n_le room
    by (subst ring_copy_out_reads [OF wf]) (auto simp: ring_read_mod)
  moreover have "ring_read ?buf (unat ?out) (unat n) = take (unat n) (rb_contents rb)"
    using n_le by (simp add: rb_contents_def take_ring_read)
  ultimately have copy: "ring_copy_out rb ?pos dst n =
      Some (take (unat n) (rb_contents rb) @ drop (unat n) dst)" by simp
  let ?rb' = "if rb_in_pos rb = ?out + n then rb\<lparr>rb_in_pos := 0, rb_out_pos := 0\<rparr>
              else rb\<lparr>rb_out_pos := ?out + n\<rparr>"
  have used: "unat (rb_used_len rb - n) = unat (rb_used_len rb) - unat n"
    by (rule unat_sub) (simp add: n_def)
  have "rb_out rb (Some dst) sz =
      Some (sint n, ?rb', Some (take (unat n) (rb_contents rb) @ drop (unat n) dst))"
    using copy by (simp add: rb_out_def Let_def n_def rb_used_len_def)
  moreover have "rb_wf ?rb' \<and> rb_contents ?rb' = drop (unat n) (rb_contents rb)
    \<and> rb_size ?rb' = rb_size rb"
  proof (cases "rb_in_pos rb = ?out + n")
    case True
    then have "unat n = unat (rb_used_len rb)" by (simp add: rb_used_len_def)
    with True wf show ?thesis
      by (simp add: rb_wf_def rb_contents_def rb_used_len_def)
  next
    case False
    have u: "rb_in_pos rb - (?out + n) = rb_used_len rb - n"
      by (simp add: rb_used_len_def)
    have "ring_read ?buf (unat (?out + n)) m = ring_read ?buf (unat ?out + unat n) m" for m
      using rb_wf_wrap [OF wf, of ?out n] by (metis ring_read_mod)
    then have "rb_contents (rb\<lparr>rb_out_pos := ?out + n\<rparr>) = drop (unat n) (rb_contents rb)"
      using n_le used by (simp add: rb_contents_def rb_used_len_def u drop_ring_read)
    moreover have "rb_used_len rb - n \<le> rb_size rb"
      using used wf by (auto simp: rb_wf_def word_le_nat_alt intro: le_trans [OF diff_le_self])
    ultimately show ?thesis
      using False wf by (simp add: rb_wf_def rb_used_len_def u)
  qed
  ultimately show ?thesis by blast
qed

section \<open>Writing\<close>

lemma ring_copy_in_writes:
  assumes wf: "rb_wf rb" and n: "unat n \<le> length (rb_buffer rb)" and src: "unat n \<le> length src"
    and pos: "unat pos < length (rb_buffer rb)"
  shows "ring_copy_in rb pos src n =
    Some (ring_write (rb_buffer rb) (unat pos) (take (unat n) src))"
proof -
  let ?len = "min n (rb_size rb - pos)"
  have L: "unat (rb_size rb) = length (rb_buffer rb)" using wf by (simp add: rb_wf_def)
  then have "unat (rb_size rb - pos) = length (rb_buffer rb) - unat pos"
    using pos by (simp add: unat_sub word_le_nat_alt)
  then have len: "unat ?len = min (unat n) (length (rb_buffer rb) - unat pos)"
    by (simp add: min_def word_le_nat_alt)
  have rest: "unat (n - ?len) = unat n - unat ?len"
    by (rule unat_sub) simp
  show ?thesis
    unfolding ring_copy_in_def Let_def rest by (rule two_blits_write [OF pos n src len])
qed

text \<open>\<open>rb_in\<close> appends the bytes that fit and drops the others.\<close>

lemma rb_in_appends:
  assumes wf: "rb_wf rb" and src: "unat sz \<le> length src"
  defines "n \<equiv> min sz (rb_unused_len rb)"
  shows "\<exists>rb'. rb_in rb (Some src) sz = Some (sint n, rb')
    \<and> rb_wf rb' \<and> rb_contents rb' = rb_contents rb @ take (unat n) src
    \<and> rb_size rb' = rb_size rb"
proof -
  let ?buf = "rb_buffer rb" and ?xs = "take (unat n) src"
  let ?pos = "rb_in_pos rb AND (rb_size rb - 1)" and ?L = "length (rb_buffer rb)"
  have L: "unat (rb_size rb) = ?L" using wf by (simp add: rb_wf_def)
  have n_le: "unat n \<le> unat sz" "unat n \<le> ?L - unat (rb_used_len rb)"
    using rb_wf_unused [OF wf] by (auto simp: n_def min_def word_le_nat_alt)
  then have xs: "length ?xs = unat n" using src by simp
  have pos: "unat ?pos = unat (rb_in_pos rb) mod ?L" by (rule rb_wf_mask [OF wf])
  then have pos_less: "unat ?pos < ?L" using rb_wf_size_pos [OF wf] by simp
  let ?buf' = "ring_write ?buf (unat ?pos) ?xs"
  have "ring_copy_in rb ?pos src n = Some ?buf'"
    using n_le src pos_less by (intro ring_copy_in_writes [OF wf]) auto
  then have "rb_in rb (Some src) sz =
      Some (sint n, rb\<lparr>rb_buffer := ?buf', rb_in_pos := rb_in_pos rb + n\<rparr>)"
    by (simp add: rb_in_def Let_def n_def rb_unused_len_def)
  moreover
  let ?rb' = "rb\<lparr>rb_buffer := ?buf', rb_in_pos := rb_in_pos rb + n\<rparr>"
  have used': "rb_used_len (rb\<lparr>rb_buffer := b, rb_in_pos := rb_in_pos rb + n\<rparr>) = rb_used_len rb + n" for b
    by (simp add: rb_used_len_def)
  have fits: "unat (rb_used_len rb) + unat n \<le> ?L"
    using n_le rb_wf_used [OF wf] by simp
  then have used_nat: "unat (rb_used_len rb + n) = unat (rb_used_len rb) + unat n"
    using L unat_u32_less [of "rb_size rb"] by (simp add: unat_word_ariths)
  have "?buf' = ring_write ?buf (unat (rb_out_pos rb) + unat (rb_used_len rb)) ?xs"
    using rb_wf_in_pos [OF wf] pos by (metis ring_write_mod mod_mod_trivial)
  then have "rb_contents ?rb' = rb_contents rb @ ?xs"
    using fits xs ring_append [of "unat (rb_used_len rb)" ?xs ?buf "unat (rb_out_pos rb)"]
    by (simp add: rb_contents_def used' used_nat)
  moreover have "rb_wf ?rb'"
    using wf fits L by (simp add: rb_wf_def used' used_nat word_le_nat_alt)
  ultimately show ?thesis by auto
qed

text \<open>
  \<open>rb_get\<close> reads without removing. It masks the read position but not \<open>in\<close>, so it is right only
  while the position it reads from has not passed the end of the buffer.
\<close>

lemma rb_get_reads:
  assumes wf: "rb_wf rb" and room: "unat sz \<le> length dst"
    and off: "offset \<le> rb_used_len rb"
    and low: "unat (rb_out_pos rb) + unat offset < length (rb_buffer rb)"
  defines "n \<equiv> min sz (rb_used_len rb - offset)"
  shows "rb_get rb (Some dst) offset sz = Some (sint n,
    Some (take (unat n) (drop (unat offset) (rb_contents rb)) @ drop (unat n) dst))"
proof -
  let ?out = "(rb_out_pos rb + offset) AND (rb_size rb - 1)"
  have L: "length (rb_buffer rb) < 2 ^ 32"
    using wf unat_u32_less [of "rb_size rb"] by (simp add: rb_wf_def)
  have sum: "unat (rb_out_pos rb + offset) = unat (rb_out_pos rb) + unat offset"
    using low L by (simp add: unat_word_ariths)
  have out_nat: "unat ?out = unat (rb_out_pos rb) + unat offset"
    using rb_wf_mask [OF wf, of "rb_out_pos rb + offset"] sum low by simp
  then have out: "?out = rb_out_pos rb + offset"
    using sum by (simp add: word_unat_eq_iff)
  have n: "n = min sz (rb_in_pos rb - ?out)"
    unfolding out n_def by (simp add: rb_used_len_def algebra_simps)
  have idem: "?out AND (rb_size rb - 1) = ?out" by (simp add: and.assoc)
  have sub: "unat (rb_used_len rb - offset) = unat (rb_used_len rb) - unat offset"
    by (rule unat_sub [OF off])
  have n_le: "unat n \<le> unat (rb_used_len rb) - unat offset" "unat n \<le> unat sz"
    using sub by (auto simp: n_def min_def word_le_nat_alt)
  then have bound: "unat n \<le> length (rb_buffer rb)"
    using rb_wf_used [OF wf] by simp
  have "ring_copy_out rb ?out dst n =
      Some (ring_read (rb_buffer rb) (unat ?out) (unat n) @ drop (unat n) dst)"
    using bound room n_le low out_nat by (intro ring_copy_out_reads [OF wf]) auto
  moreover have "ring_read (rb_buffer rb) (unat ?out) (unat n) =
      take (unat n) (drop (unat offset) (rb_contents rb))"
    using off n_le by (simp add: rb_contents_def drop_ring_read take_ring_read out_nat
      word_le_nat_alt)
  ultimately show ?thesis
    using n idem by (simp add: rb_get_def Let_def)
qed

lemma rb_clean_empties:
  assumes "rb_wf rb"
  shows "rb_wf (rb_clean rb)" and "rb_contents (rb_clean rb) = []"
    and "rb_size (rb_clean rb) = rb_size rb"
  using assms by (auto simp: rb_clean_def rb_wf_def rb_contents_def rb_used_len_def)

lemma rb_init_wf:
  "is_power_of_2 sz \<Longrightarrow> length buffer = unat sz \<Longrightarrow>
   fst (rb_init rb buffer sz) = 0 \<and> rb_wf (snd (rb_init rb buffer sz))
     \<and> rb_contents (snd (rb_init rb buffer sz)) = []"
  by (simp add: rb_init_def rb_wf_def rb_contents_def rb_used_len_def)

lemma rb_empty_iff: "rb_empty rb \<longleftrightarrow> rb_contents rb = []"
  by (auto simp: rb_empty_def rb_contents_def rb_used_len_def ring_read_def unat_eq_0)

section \<open>The ring buffer is a bounded queue\<close>

definition rb_push :: "byte list \<Rightarrow> ring_buffer \<Rightarrow> ring_buffer option" where
  "rb_push xs rb = map_option snd (rb_in rb (Some xs) (word_of_nat (length xs)))"

definition rb_pull :: "nat \<Rightarrow> ring_buffer \<Rightarrow> (byte list \<times> ring_buffer) option" where
  "rb_pull n rb = do {
     (_, rb', dst) \<leftarrow> rb_out rb (Some (replicate n 0)) (word_of_nat n);
     map_option (\<lambda>d. (d, rb')) dst }"

lemma rb_fits_word:
  assumes "rb_wf rb" "n \<le> length (rb_buffer rb)"
  shows "unat (word_of_nat n :: u32) = n"
proof -
  have "unat (rb_size rb) < 2 ^ 32" using unat_u32_less [of "rb_size rb"] by simp
  with assms show ?thesis by (simp add: rb_wf_def unat_of_nat)
qed

lemma rb_push_fits:
  assumes wf: "rb_wf rb" and fits: "length (rb_contents rb) + length xs \<le> rb_capacity rb"
  shows "\<exists>rb'. rb_push xs rb = Some rb' \<and> rb_wf rb' \<and> rb_contents rb' = rb_contents rb @ xs
    \<and> rb_capacity rb' = rb_capacity rb"
proof -
  have cap: "rb_capacity rb = length (rb_buffer rb)"
    using wf by (simp add: rb_capacity_def rb_wf_def)
  then have word: "unat (word_of_nat (length xs) :: u32) = length xs"
    using fits by (intro rb_fits_word [OF wf]) simp
  then have "word_of_nat (length xs) \<le> rb_unused_len rb"
    using fits cap rb_wf_unused [OF wf] by (simp add: word_le_nat_alt)
  then show ?thesis
    using rb_in_appends [OF wf, of "word_of_nat (length xs)" xs] word
    by (auto simp: rb_push_def rb_capacity_def min_def)
qed

lemma rb_pull_available:
  assumes wf: "rb_wf rb" and n: "n \<le> length (rb_contents rb)"
  shows "\<exists>rb'. rb_pull n rb = Some (take n (rb_contents rb), rb') \<and> rb_wf rb'
    \<and> rb_contents rb' = drop n (rb_contents rb) \<and> rb_capacity rb' = rb_capacity rb"
proof -
  have word: "unat (word_of_nat n :: u32) = n"
    using n rb_wf_used [OF wf] by (intro rb_fits_word [OF wf]) simp
  then have "word_of_nat n \<le> rb_used_len rb" using n by (simp add: word_le_nat_alt)
  then show ?thesis
    using rb_out_takes [OF wf, of "word_of_nat n" "replicate n 0"] word
    by (auto simp: rb_pull_def rb_capacity_def min_def)
qed

interpretation ring: bounded_fifo rb_wf rb_contents rb_capacity rb_push rb_pull
proof unfold_locales
  show "length (rb_contents q) \<le> rb_capacity q" if "rb_wf q" for q
    using that by (simp add: rb_capacity_def rb_wf_def word_le_nat_alt)
qed (use rb_push_fits rb_pull_available in blast)+

section \<open>Properties\<close>

text \<open>
  \<^bold>\<open>C40\<close>. The ring is a FIFO of \<open>size\<close> bytes: any sequence of writes that fit and reads of
  bytes that are there runs to its end, and the bytes read followed by the bytes left are the
  bytes held at first followed by the bytes written. The 32-bit counters may wrap on the way.
\<close>

theorem ring_buffer_fifo:
  assumes "rb_wf rb"
    and "list_run (rb_capacity rb) ops (rb_contents rb) = Some (outs, rest)"
  shows "\<exists>rb'. fifo_run rb_push rb_pull ops rb = Some (outs, rb') \<and> rb_wf rb'
    \<and> outs @ rb_contents rb' = rb_contents rb @ pushed ops"
  by (rule ring.run_fifo [OF assms])

text \<open>A ring of four bytes whose counters are about to wrap.\<close>

definition wrapping_ring :: ring_buffer where
  "wrapping_ring = \<lparr>rb_buffer = [10, 11, 12, 13], rb_size = 4, rb_in_pos = 0, rb_out_pos = 4294967294\<rparr>"

lemma wrapping_ring_facts [simp]:
  "rb_wf wrapping_ring" "rb_contents wrapping_ring = [12, 13]" "rb_capacity wrapping_ring = 4"
  "rb_unused_len wrapping_ring = 2" "rb_used_len wrapping_ring = 2"
  by (simp_all add: wrapping_ring_def rb_wf_def is_power_of_2_def rb_used_len_def rb_unused_len_def
    rb_contents_def rb_capacity_def ring_read_def upt_rec)

theorem ring_buffer_fifo_witness:
  "\<exists>rb'. fifo_run rb_push rb_pull [Push [1, 2], Pull 3, Push [3]] wrapping_ring = Some ([12, 13, 1], rb')
    \<and> rb_wf rb' \<and> [12, 13, 1] @ rb_contents rb' = [12, 13, 1, 2, 3]"
  using ring_buffer_fifo [of wrapping_ring "[Push [1, 2], Pull 3, Push [3]]" "[12, 13, 1]" "[2, 3]"]
  by simp

text \<open>
  What does not fit: \<open>rb_in\<close> writes the bytes there is room for and returns their
  number; \<open>rb_out\<close> takes the oldest bytes, at most as many as there are, and leaves the rest of
  the destination as it was. Both keep the ring well formed.
\<close>

theorem ring_buffer_partial_transfers:
  assumes "rb_wf rb" and "unat sz \<le> length xs"
  shows "(let n = min sz (rb_unused_len rb) in
      \<exists>rb'. rb_in rb (Some xs) sz = Some (sint n, rb') \<and> rb_wf rb'
        \<and> rb_contents rb' = rb_contents rb @ take (unat n) xs)
    \<and> (let n = min sz (rb_used_len rb) in
      \<exists>rb'. rb_out rb (Some xs) sz =
          Some (sint n, rb', Some (take (unat n) (rb_contents rb) @ drop (unat n) xs))
        \<and> rb_wf rb' \<and> rb_contents rb' = drop (unat n) (rb_contents rb))"
  using rb_in_appends [OF assms] rb_out_takes [OF assms] by (auto simp: Let_def)

theorem ring_buffer_partial_transfers_witness:
  "\<exists>rb'. rb_in wrapping_ring (Some [1, 2, 3]) 3 = Some (2, rb') \<and> rb_wf rb'
        \<and> rb_contents rb' = [12, 13, 1, 2]"
  using ring_buffer_partial_transfers [of wrapping_ring 3 "[1, 2, 3]"]
  by (simp add: Let_def min_def)

text \<open>
  \<open>rb_get\<close> reads at an offset without consuming, correctly as long as the position it
  reads from is inside the buffer.
\<close>

theorem rb_get_peeks:
  assumes "rb_wf rb" and "unat sz \<le> length dst" and "offset \<le> rb_used_len rb"
    and "unat (rb_out_pos rb) + unat offset < length (rb_buffer rb)"
  shows "rb_get rb (Some dst) offset sz =
    (let n = min sz (rb_used_len rb - offset) in Some (sint n,
      Some (take (unat n) (drop (unat offset) (rb_contents rb)) @ drop (unat n) dst)))"
  using rb_get_reads [OF assms] by (simp add: Let_def)

theorem rb_get_peeks_witness:
  "rb_get \<lparr>rb_buffer = [10, 11, 12, 13], rb_size = 4, rb_in_pos = 5, rb_out_pos = 2\<rparr>
     (Some [0, 0, 0, 0]) 1 3 = Some (2, Some [13, 10, 0, 0])"
proof -
  let ?rb = "\<lparr>rb_buffer = [10, 11, 12, 13], rb_size = 4, rb_in_pos = 5, rb_out_pos = 2\<rparr>"
  have "rb_wf ?rb" "rb_contents ?rb = [12, 13, 10]" "rb_used_len ?rb = 3"
    by code_simp+
  then show ?thesis
    using rb_get_peeks [of ?rb 3 "[0, 0, 0, 0]" 1] by (simp add: Let_def min_def)
qed

text \<open>
  Past the end of the buffer \<open>rb_get\<close> masks the read position and not \<open>in\<close>: a
  well-formed four-byte ring that holds two bytes, read from offset 1, where one byte is left,
  hands out five.
\<close>

theorem rb_get_overreads:
  "let rb = \<lparr>rb_buffer = [10, 11, 12, 13], rb_size = 4, rb_in_pos = 5, rb_out_pos = 3\<rparr>
   in rb_wf rb \<and> rb_contents rb = [13, 10]
     \<and> rb_get rb (Some (replicate 8 0)) 1 8 = Some (5, Some [10, 11, 12, 13, 10, 0, 0, 0])"
  by code_simp

end
