(* ===== verification/MsgParse.thy ===== *)
theory MsgParse
  imports Prelude
begin

text \<open>
  \<open>mid/msg/msg_parse.c\<close>: the byte-stuffed framing of the SPI link. A frame is a marker, the
  escaped message with its XOR checksum, and a marker. The encoder writes at most \<open>olen\<close> bytes;
  the decoder scans a receive buffer that several reads fill, in place, and hands every message
  whose checksum is right to a callback.

  The decoder is proved to implement an automaton over the bytes received, from which it follows
  that the messages delivered do not depend on how the stream is cut into reads, and that a
  stream of encoded frames delivers exactly the messages encoded.
\<close>

definition DCCP_PKG_MARKER :: byte where "DCCP_PKG_MARKER = 0x7E"
definition DCCP_PKG_ESC :: byte where "DCCP_PKG_ESC = 0x7D"
definition DCCP_PKG_MARKER_SIZE :: nat where "DCCP_PKG_MARKER_SIZE = 1"
definition DCCP_PKG_CS_SIZE :: nat where "DCCP_PKG_CS_SIZE = 1"

lemmas dccp_defs = DCCP_PKG_MARKER_def DCCP_PKG_ESC_def DCCP_PKG_MARKER_SIZE_def
  DCCP_PKG_CS_SIZE_def

datatype msg_seg = FIRST_SEG | MIDDLE_SEG | LAST_SEG

section \<open>The code\<close>

text \<open>
  \<open>msg_checksum\<close>: with no bytes to sum the result is 0, not the running value.
\<close>

definition msg_checksum :: "byte list \<Rightarrow> int \<Rightarrow> byte \<Rightarrow> byte" where
  "msg_checksum buf len cs =
     (if len \<le> 0 then 0 else foldl (XOR) cs (take (nat len) buf))"

text \<open>
  The loop of \<open>msg_convert\<close>: the bytes it writes, and whether it got to the end of the source;
  \<open>room\<close> is what is left of \<open>dst_len\<close>.
\<close>

fun convert_loop :: "byte \<Rightarrow> byte \<Rightarrow> int \<Rightarrow> byte list \<Rightarrow> bool \<times> byte list" where
  "convert_loop marker esc room [] = (True, [])"
| "convert_loop marker esc room (b # bs) =
     (if room \<le> 0 then (False, [])
      else if b = marker then
        (if 1 < room then map_prod id (\<lambda>out. esc # 0x02 # out) (convert_loop marker esc (room - 2) bs)
         else (False, []))
      else if b = esc then
        (if 1 < room then map_prod id (\<lambda>out. esc # 0x01 # out) (convert_loop marker esc (room - 2) bs)
         else (False, []))
      else map_prod id ((#) b) (convert_loop marker esc (room - 1) bs))"

definition msg_convert :: "byte list option \<Rightarrow> int \<Rightarrow> byte \<Rightarrow> byte \<Rightarrow> int \<times> byte list" where
  "msg_convert src dst_len marker esc = (case src of
     None \<Rightarrow> (-1, [])
   | Some bs \<Rightarrow> (let (done, out) = convert_loop marker esc dst_len bs
                in (if done then int (length out) else -1, out)))"

text \<open>
  The loop of \<open>msg_reverse\<close>. It works in place, with the write position never past the read
  position, so it reads the original bytes. After an escape that is the last byte of the
  message it reads the byte behind the message, \<open>nxt\<close>.
\<close>

fun reverse_loop :: "byte \<Rightarrow> byte \<Rightarrow> byte option \<Rightarrow> byte list \<Rightarrow> (bool \<times> byte list) option" where
  "reverse_loop marker esc nxt [] = Some (True, [])"
| "reverse_loop marker esc nxt (b # bs) =
     (if b \<noteq> esc then map_option (map_prod id ((#) b)) (reverse_loop marker esc nxt bs)
      else (case bs of
        [] \<Rightarrow> map_option (\<lambda>c. if c = 0x01 then (True, [esc]) else if c = 0x02 then (True, [marker])
                             else (False, [])) nxt
      | c # cs \<Rightarrow>
          (if c = 0x01 then map_option (map_prod id ((#) esc)) (reverse_loop marker esc nxt cs)
           else if c = 0x02 then map_option (map_prod id ((#) marker)) (reverse_loop marker esc nxt cs)
           else Some (False, []))))"

definition msg_reverse :: "byte list \<Rightarrow> int \<Rightarrow> byte \<Rightarrow> byte \<Rightarrow> (int \<times> byte list) option" where
  "msg_reverse buf len marker esc =
     (if len \<le> 0 then Some (-1, buf)
      else do {
        src \<leftarrow> subarray buf 0 (nat len);
        (done, out) \<leftarrow> reverse_loop marker esc (byte_at buf (nat len)) src;
        Some (if done then int (length out) else -1, out @ drop (length out) buf) })"

text \<open>\<open>msg_check\<close> on the bytes from \<open>off\<close>: the return value, the buffer and \<open>*len\<close> afterwards.\<close>

definition msg_check :: "byte list \<Rightarrow> nat \<Rightarrow> int \<Rightarrow> (int \<times> byte list \<times> int) option" where
  "msg_check buf off len = do {
     (ilen, view) \<leftarrow> msg_reverse (drop off buf) len DCCP_PKG_MARKER DCCP_PKG_ESC;
     let buf' = take off buf @ view;
     if ilen < int DCCP_PKG_CS_SIZE then Some (-1, buf', ilen)
     else do {
       cs' \<leftarrow> byte_at view (nat ilen - DCCP_PKG_CS_SIZE);
       if msg_checksum view (ilen - int DCCP_PKG_CS_SIZE) 0 \<noteq> cs' then Some (-1, buf', ilen)
       else Some (0, buf', ilen) } }"

text \<open>\<open>msg_find_dccp\<close>: the index of the first marker, \<^const>\<open>None\<close> for -1.\<close>

fun msg_find_dccp :: "byte list \<Rightarrow> nat option" where
  "msg_find_dccp [] = None"
| "msg_find_dccp (b # bs) =
     (if b = DCCP_PKG_MARKER then Some 0 else map_option Suc (msg_find_dccp bs))"

text \<open>
  \<open>msg_encode\<close> returns its result, the bytes written at \<open>omsg\<close> and the running checksum. \<open>olen\<close>
  is below \<open>2 ^ 31\<close> at every call, so the code's mix of \<open>int\<close> and \<open>unsigned\<close> is exact
  arithmetic here. The first marker is written without looking at \<open>olen\<close>.
\<close>

definition msg_encode ::
  "byte list option \<Rightarrow> nat \<Rightarrow> msg_seg \<Rightarrow> byte \<Rightarrow> (int \<times> byte list \<times> byte) option" where
  "msg_encode imsg olen flag base_cs =
     (if flag = FIRST_SEG \<and> olen = 0 then None else
      let cs0 = (if flag = FIRST_SEG then 0 else base_cs);
          start = (if flag = FIRST_SEG then [DCCP_PKG_MARKER] else []);
          offset = length start;
          (ret1, body, cs1) =
            (case imsg of
               Some (b # bs) \<Rightarrow>
                 (let (r, out) = msg_convert imsg (int olen - int offset) DCCP_PKG_MARKER DCCP_PKG_ESC
                  in (r, out, msg_checksum (b # bs) (int (length (b # bs))) cs0))
             | _ \<Rightarrow> (0, [], cs0))
      in if ret1 = -1 then Some (-1, start @ body, cs0)
         else let data = start @ body; data_len = int (length data)
         in if flag = LAST_SEG then
              (let (ret2, tail) = msg_convert (Some [cs1]) (int olen - data_len - int DCCP_PKG_MARKER_SIZE)
                                    DCCP_PKG_MARKER DCCP_PKG_ESC
               in if ret2 = -1 then Some (-1, data @ tail, cs1)
                  else let omsg = data @ tail @ [DCCP_PKG_MARKER]
                       in Some (int (length omsg), omsg, cs1))
            else Some (data_len, data, cs1))"

text \<open>
  The loop of \<open>msg_decode\<close>. \<open>start\<close> is the static \<open>start_pos\<close> (\<^const>\<open>None\<close> for -1), \<open>r\<close> and \<open>w\<close> the
  read and write positions. A delivery is the buffer from the message on, which is what the
  callback's pointer reaches, and the length passed.
\<close>

type_synonym delivery = "byte list \<times> int"

function msg_decode_loop ::
  "nat option \<Rightarrow> nat \<Rightarrow> nat \<Rightarrow> byte list \<Rightarrow> (delivery list \<times> nat option \<times> nat \<times> byte list) option"
where
  "msg_decode_loop start r w buf =
     (if r < w then
        (case msg_find_dccp (take (w - r) (drop r buf)) of
           None \<Rightarrow> msg_decode_loop start w w buf
         | Some k \<Rightarrow>
             (case start of
                None \<Rightarrow> msg_decode_loop (Some (r + k)) (r + k + 1) w buf
              | Some st \<Rightarrow>
                  (case msg_check buf (st + 1) (int (r + k) - int st - 1) of
                     None \<Rightarrow> None
                   | Some (ret, buf', len) \<Rightarrow>
                       if ret = 0 then
                         map_option (map_prod ((#) (drop (st + 1) buf', len - 1)) id)
                           (msg_decode_loop None (r + k + 1) w buf')
                       else msg_decode_loop (Some (r + k)) (r + k + 1) w buf')))
      else Some ([], start, r, buf))"
  by pat_completeness auto
termination
  by (relation "measure (\<lambda>(start, r, w, buf). w - r)") auto

declare msg_decode_loop.simps [simp del]

text \<open>
  \<open>msg_decode\<close>. The guard for an over-long buffer compares with \<open>sizeof(msg) - 16\<close>, where \<open>msg\<close> is
  a pointer of the 32-bit target: 4 - 16 wraps to 4294967284. The overlapping \<open>memcpy\<close> that
  moves the unfinished frame to the front is taken as the move it is meant to be.
\<close>

record decoder =
  dec_start :: "nat option"
  dec_r :: nat
  dec_w :: nat
  dec_buf :: "byte list"

definition LONG_BUFFER :: nat where "LONG_BUFFER = 4294967284"

definition msg_decode :: "decoder \<Rightarrow> (delivery list \<times> decoder) option" where
  "msg_decode d = do {
     (out, start, r, buf) \<leftarrow> msg_decode_loop (dec_start d) (dec_r d) (dec_w d) (dec_buf d);
     Some (out, (case start of
         None \<Rightarrow> d\<lparr>dec_start := None, dec_r := 0, dec_w := 0, dec_buf := buf\<rparr>
       | Some st \<Rightarrow>
           if LONG_BUFFER \<le> r - st \<or> r \<le> st
           then d\<lparr>dec_start := None, dec_r := 0, dec_w := 0, dec_buf := buf\<rparr>
           else let len = dec_w d - st
                in d\<lparr>dec_start := Some 0, dec_r := len, dec_w := len,
                     dec_buf := take len (drop st buf) @ drop len buf\<rparr>)) }"

text \<open>
  \<open>msg_decodex\<close>, the decoder over a caller's buffer \<open>MSG_RX\<close>, used by the assistant port. It
  has no static state: each call scans the bytes held from the first one, and what is kept
  afterwards is the unfinished frame with its marker. An empty message is refused before
  \<open>msg_check\<close> is called.
\<close>

record MSG_RX =
  mrx_used :: nat
  mrx_size :: int
  mrx_data :: "byte list"

definition msg_init_rx :: "byte list \<Rightarrow> int \<Rightarrow> MSG_RX" where
  "msg_init_rx buf sz =
     \<lparr>mrx_used = 0, mrx_size = sz, mrx_data = replicate (nat sz) 0 @ drop (nat sz) buf\<rparr>"

function msg_decodex_loop ::
  "nat option \<Rightarrow> nat \<Rightarrow> nat \<Rightarrow> byte list \<Rightarrow> (delivery list \<times> nat option \<times> nat \<times> byte list) option"
where
  "msg_decodex_loop start r used buf =
     (if r < used then
        (case msg_find_dccp (take (used - r) (drop r buf)) of
           None \<Rightarrow> msg_decodex_loop start used used buf
         | Some k \<Rightarrow>
             (case start of
                None \<Rightarrow> msg_decodex_loop (Some (r + k)) (r + k + 1) used buf
              | Some st \<Rightarrow>
                  (let len = int (r + k) - int st - int DCCP_PKG_CS_SIZE in
                   if len \<le> 0 then msg_decodex_loop (Some (r + k)) (r + k + 1) used buf
                   else case msg_check buf (st + DCCP_PKG_MARKER_SIZE) len of
                     None \<Rightarrow> None
                   | Some (ret, buf', len') \<Rightarrow>
                       if ret \<noteq> 0 then msg_decodex_loop (Some (r + k)) (r + k + 1) used buf'
                       else map_option
                         (map_prod ((#) (drop (st + DCCP_PKG_MARKER_SIZE) buf', len' - int DCCP_PKG_CS_SIZE)) id)
                         (msg_decodex_loop None (r + k + 1) used buf'))))
      else Some ([], start, r, buf))"
  by pat_completeness auto
termination
  by (relation "measure (\<lambda>(start, r, used, buf). used - r)") auto

declare msg_decodex_loop.simps [simp del]

definition msg_decodex :: "MSG_RX \<Rightarrow> (delivery list \<times> MSG_RX) option" where
  "msg_decodex rx = do {
     (out, start, r, buf) \<leftarrow> msg_decodex_loop None 0 (mrx_used rx) (mrx_data rx);
     Some (out, (case start of
         None \<Rightarrow> rx\<lparr>mrx_used := 0, mrx_data := buf\<rparr>
       | Some st \<Rightarrow>
           if mrx_size rx - 16 \<le> int r - int st then rx\<lparr>mrx_used := 0, mrx_data := buf\<rparr>
           else let len = mrx_used rx - st
                in rx\<lparr>mrx_used := len, mrx_data := take len (drop st buf) @ drop len buf\<rparr>)) }"

section \<open>Escaping\<close>

definition esc_byte :: "byte \<Rightarrow> byte list" where
  "esc_byte b = (if b = DCCP_PKG_MARKER then [DCCP_PKG_ESC, 0x02]
                 else if b = DCCP_PKG_ESC then [DCCP_PKG_ESC, 0x01] else [b])"

definition escape :: "byte list \<Rightarrow> byte list" where
  "escape bs = concat (map esc_byte bs)"

fun unescape :: "byte list \<Rightarrow> byte list option" where
  "unescape [] = Some []"
| "unescape (b # bs) =
     (if b \<noteq> DCCP_PKG_ESC then map_option ((#) b) (unescape bs)
      else (case bs of [] \<Rightarrow> None
        | c # cs \<Rightarrow> if c = 0x01 then map_option ((#) DCCP_PKG_ESC) (unescape cs)
                   else if c = 0x02 then map_option ((#) DCCP_PKG_MARKER) (unescape cs)
                   else None))"

definition xor_sum :: "byte list \<Rightarrow> byte" where
  "xor_sum bs = foldl (XOR) 0 bs"

lemma escape_simps [simp]:
  "escape [] = []"
  "escape (b # bs) = esc_byte b @ escape bs"
  "escape (xs @ ys) = escape xs @ escape ys"
  by (auto simp: escape_def)

lemma length_esc_byte: "1 \<le> length (esc_byte b) \<and> length (esc_byte b) \<le> 2"
  by (simp add: esc_byte_def)

lemma length_escape: "length bs \<le> length (escape bs) \<and> length (escape bs) \<le> 2 * length bs"
proof (induction bs)
  case (Cons b bs)
  then show ?case using length_esc_byte [of b] by simp
qed simp

lemma marker_not_in_escape: "DCCP_PKG_MARKER \<notin> set (escape bs)"
  by (auto simp: escape_def esc_byte_def dccp_defs)

lemma unescape_escape: "unescape (escape bs) = Some bs"
  by (induction bs) (auto simp: esc_byte_def dccp_defs)

lemma length_unescape: "unescape bs = Some out \<Longrightarrow> length out \<le> length bs"
proof (induction bs arbitrary: out rule: unescape.induct)
  case (2 b bs)
  then show ?case
    by (fastforce split: if_splits list.splits)
qed simp

lemma convert_loop_fits:
  "int (length (escape bs)) \<le> room \<Longrightarrow>
   convert_loop DCCP_PKG_MARKER DCCP_PKG_ESC room bs = (True, escape bs)"
  by (induction bs arbitrary: room) (auto simp: esc_byte_def dccp_defs)

lemma convert_loop_overflow:
  "room < int (length (escape bs)) \<Longrightarrow> bs \<noteq> [] \<Longrightarrow>
   \<not> fst (convert_loop DCCP_PKG_MARKER DCCP_PKG_ESC room bs)"
proof (induction bs arbitrary: room)
  case (Cons b bs)
  show ?case
  proof (cases "bs = []")
    case True
    with Cons.prems show ?thesis by (auto simp: esc_byte_def dccp_defs split: if_splits)
  next
    case False
    with Cons show ?thesis by (auto simp: esc_byte_def dccp_defs split: if_splits)
  qed
qed simp

lemma convert_loop_room:
  "0 \<le> room \<Longrightarrow>
   int (length (snd (convert_loop marker esc room bs))) \<le> room"
proof (induction bs arbitrary: room)
  case (Cons b bs)
  from Cons.IH [of "room - 1"] Cons.IH [of "room - 2"] Cons.prems show ?case
    by auto
qed simp

lemma msg_convert_fits:
  "int (length (escape bs)) \<le> room \<Longrightarrow>
   msg_convert (Some bs) room DCCP_PKG_MARKER DCCP_PKG_ESC = (int (length (escape bs)), escape bs)"
  by (simp add: msg_convert_def convert_loop_fits)

lemma msg_convert_overflow:
  "room < int (length (escape bs)) \<Longrightarrow> bs \<noteq> [] \<Longrightarrow>
   fst (msg_convert (Some bs) room DCCP_PKG_MARKER DCCP_PKG_ESC) = -1"
  using convert_loop_overflow [of room bs]
  by (auto simp: msg_convert_def split: prod.splits)

lemma msg_convert_bound:
  assumes "msg_convert (Some bs) room marker esc = (r, out)" "bs \<noteq> []" "r \<noteq> -1"
  shows "int (length out) \<le> room \<and> r = int (length out)"
proof (cases "0 \<le> room")
  case True
  with assms convert_loop_room [OF True, of marker esc bs] show ?thesis
    by (auto simp: msg_convert_def split: prod.splits if_splits)
next
  case False
  with assms show ?thesis by (cases bs) (auto simp: msg_convert_def)
qed

lemma msg_checksum_xor [simp]:
  "msg_checksum [] 0 cs = 0"
  "msg_checksum (b # bs) (1 + int (length bs)) cs = foldl (XOR) (cs XOR b) bs"
  by (auto simp: msg_checksum_def nat_add_distrib)

section \<open>Encoding a frame\<close>

text \<open>
  The transport sends a frame as a \<open>FIRST_SEG\<close> with the header and a \<open>LAST_SEG\<close> with the data.
\<close>

definition frame :: "byte list \<Rightarrow> byte list" where
  "frame msg = DCCP_PKG_MARKER # escape (msg @ [xor_sum msg]) @ [DCCP_PKG_MARKER]"

definition opt_bytes :: "byte list option \<Rightarrow> byte list" where
  "opt_bytes = case_option [] id"

lemma msg_encode_first:
  assumes "hdr \<noteq> []" and "1 + length (escape hdr) \<le> olen"
  shows "msg_encode (Some hdr) olen FIRST_SEG cs =
    Some (int (1 + length (escape hdr)), DCCP_PKG_MARKER # escape hdr, xor_sum hdr)"
  using assms by (cases hdr)
    (simp_all add: msg_encode_def Let_def msg_convert_fits xor_sum_def)

lemma msg_encode_last:
  assumes "length (escape (opt_bytes data)) + length (esc_byte (foldl (XOR) cs (opt_bytes data))) + 1
      \<le> olen"
  shows "msg_encode data olen LAST_SEG cs =
    (let tail = escape (opt_bytes data @ [foldl (XOR) cs (opt_bytes data)]) @ [DCCP_PKG_MARKER]
     in Some (int (length tail), tail, foldl (XOR) cs (opt_bytes data)))"
proof (cases "opt_bytes data")
  case Nil
  then have "data = None \<or> data = Some []" by (auto simp: opt_bytes_def split: option.splits)
  with assms show ?thesis
    by (auto simp: msg_encode_def Let_def opt_bytes_def msg_convert_fits DCCP_PKG_MARKER_SIZE_def)
next
  case (Cons b bs)
  then have "data = Some (b # bs)" by (auto simp: opt_bytes_def split: option.splits)
  with assms show ?thesis
    by (simp add: msg_encode_def Let_def opt_bytes_def msg_convert_fits DCCP_PKG_MARKER_SIZE_def)
qed

text \<open>Whatever the room, what is written stays inside it, the first marker included.\<close>

lemma msg_encode_bounded:
  assumes enc: "msg_encode imsg olen flag cs = Some (ret, out, cs')" and "0 \<le> ret"
  shows "length out \<le> olen \<and> ret = int (length out)"
proof (cases "\<exists>b bs. imsg = Some (b # bs)")
  case True
  then obtain b bs where "imsg = Some (b # bs)" by auto
  with assms show ?thesis
    by (cases flag)
      (auto simp: msg_encode_def Let_def DCCP_PKG_MARKER_SIZE_def split: prod.splits if_splits
        dest!: msg_convert_bound)
next
  case False
  then have "imsg = None \<or> imsg = Some []" by (metis list.exhaust option.exhaust)
  with assms show ?thesis
    by (cases flag)
      (auto simp: msg_encode_def Let_def DCCP_PKG_MARKER_SIZE_def split: prod.splits if_splits
        dest!: msg_convert_bound)
qed

section \<open>The byte automaton\<close>

text \<open>
  The specification of the decoder: outside a frame (\<^const>\<open>None\<close>) everything but a marker is
  skipped; inside, the bytes since the marker are kept. A closing marker ends the frame when
  the bytes are a message with its checksum; otherwise it is taken as an opening one.
\<close>

definition frame_payload :: "byte list \<Rightarrow> byte list option" where
  "frame_payload acc = (case unescape acc of
     None \<Rightarrow> None
   | Some out \<Rightarrow> if out \<noteq> [] \<and> xor_sum (butlast out) = last out then Some (butlast out) else None)"

fun deframe :: "byte list option \<Rightarrow> byte list \<Rightarrow> byte list list \<times> byte list option" where
  "deframe st [] = ([], st)"
| "deframe None (b # bs) = deframe (if b = DCCP_PKG_MARKER then Some [] else None) bs"
| "deframe (Some acc) (b # bs) =
     (if b \<noteq> DCCP_PKG_MARKER then deframe (Some (acc @ [b])) bs
      else case frame_payload acc of
        None \<Rightarrow> deframe (Some []) bs
      | Some p \<Rightarrow> map_prod ((#) p) id (deframe None bs))"

lemma deframe_append:
  "deframe st (xs @ ys) =
     (let (out, st') = deframe st xs; (out', st'') = deframe st' ys in (out @ out', st''))"
  by (induction st xs rule: deframe.induct) (auto split: option.splits prod.splits simp: Let_def)

lemma deframe_no_marker [simp]:
  "DCCP_PKG_MARKER \<notin> set xs \<Longrightarrow> deframe None xs = ([], None)"
  "DCCP_PKG_MARKER \<notin> set xs \<Longrightarrow> deframe (Some acc) xs = ([], Some (acc @ xs))"
  by (induction xs arbitrary: acc) auto

lemma frame_payload_escape [simp]: "frame_payload (escape (msg @ [xor_sum msg])) = Some msg"
  unfolding frame_payload_def unescape_escape by simp

lemma deframe_frame: "deframe None (frame msg) = ([msg], None)"
  using marker_not_in_escape [of "msg @ [xor_sum msg]"]
  by (simp add: frame_def deframe_append del: escape_simps)

lemma deframe_frames: "deframe None (concat (map frame msgs)) = (msgs, None)"
  by (induction msgs) (simp_all add: deframe_append deframe_frame)

section \<open>The decoder implements the automaton\<close>

text \<open>What a callback reads of its pointer and length.\<close>

definition delivered :: "delivery \<Rightarrow> byte list" where
  "delivered d = take (nat (snd d)) (fst d)"

text \<open>
  In front of a marker, \<open>msg_reverse\<close> is the unescaping: an escape that is the last byte of the
  message is followed by the marker, which is no escape code.
\<close>

lemma reverse_loop_unescape:
  "\<exists>ok out. reverse_loop DCCP_PKG_MARKER DCCP_PKG_ESC (Some DCCP_PKG_MARKER) bs = Some (ok, out)
     \<and> length out \<le> length bs
     \<and> (case unescape bs of None \<Rightarrow> \<not> ok | Some out' \<Rightarrow> ok \<and> out = out')"
proof (induction bs rule: unescape.induct)
  case (2 b bs)
  show ?case
  proof (cases "b = DCCP_PKG_ESC")
    case False
    with 2(1) show ?thesis by (auto split: option.splits)
  next
    case b: True
    show ?thesis
    proof (cases bs)
      case Nil
      with b show ?thesis by (auto simp: dccp_defs intro: exI [of _ False])
    next
      case (Cons c cs)
      consider "c = 1" | "c \<noteq> 1" "c = 2" | "c \<noteq> 1" "c \<noteq> 2" by blast
      then show ?thesis
      proof cases
        case 1
        with b Cons 2(2) [of c cs] show ?thesis by (auto split: option.splits)
      next
        case 2
        with b Cons "2.IH"(3) [of c cs] show ?thesis by (auto split: option.splits)
      next
        case 3
        with b Cons show ?thesis by (auto intro: exI [of _ False])
      qed
    qed
  qed
qed (auto intro: exI [of _ True])

lemma msg_reverse_unescape:
  assumes "0 < n" "n < length view" "view ! n = DCCP_PKG_MARKER"
  shows "\<exists>ret view'. msg_reverse view (int n) DCCP_PKG_MARKER DCCP_PKG_ESC = Some (ret, view')
    \<and> length view' = length view \<and> drop n view' = drop n view \<and> ret \<le> int n
    \<and> (case unescape (take n view) of None \<Rightarrow> ret = -1
       | Some out \<Rightarrow> ret = int (length out) \<and> take (length out) view' = out)"
proof -
  obtain ok out where rev: "reverse_loop DCCP_PKG_MARKER DCCP_PKG_ESC (Some DCCP_PKG_MARKER)
      (take n view) = Some (ok, out)" and len: "length out \<le> n"
    and spec: "case unescape (take n view) of None \<Rightarrow> \<not> ok | Some out' \<Rightarrow> ok \<and> out = out'"
    using reverse_loop_unescape [of "take n view"] assms by auto
  have "byte_at view n = Some DCCP_PKG_MARKER" using assms by simp
  with rev len assms have "msg_reverse view (int n) DCCP_PKG_MARKER DCCP_PKG_ESC =
      Some (if ok then int (length out) else -1, out @ drop (length out) view)"
    by (simp add: msg_reverse_def)
  with len spec assms show ?thesis by (auto split: option.splits)
qed

lemma msg_check_payload:
  assumes n: "off + n < length buf" and closing: "buf ! (off + n) = DCCP_PKG_MARKER"
  shows "\<exists>ret buf' len. msg_check buf off (int n) = Some (ret, buf', len)
    \<and> length buf' = length buf \<and> drop (off + n) buf' = drop (off + n) buf
    \<and> (case frame_payload (take n (drop off buf)) of None \<Rightarrow> ret \<noteq> 0
       | Some p \<Rightarrow> ret = 0 \<and> len - 1 = int (length p) \<and> take (length p) (drop off buf') = p)"
proof (cases "n = 0")
  case True
  with n show ?thesis
    by (auto simp: msg_check_def msg_reverse_def frame_payload_def DCCP_PKG_CS_SIZE_def)
next
  case False
  let ?view = "drop off buf"
  have pre: "0 < n" "n < length ?view" "?view ! n = DCCP_PKG_MARKER"
    using False n closing by auto
  obtain ret view where rev: "msg_reverse ?view (int n) DCCP_PKG_MARKER DCCP_PKG_ESC = Some (ret, view)"
    and view: "length view = length ?view" "drop n view = drop n ?view" "ret \<le> int n"
    and spec: "case unescape (take n ?view) of None \<Rightarrow> ret = -1
       | Some out \<Rightarrow> ret = int (length out) \<and> take (length out) view = out"
    using msg_reverse_unescape [OF pre] by blast
  let ?buf = "take off buf @ view"
  have buf: "length ?buf = length buf" "drop (off + n) ?buf = drop (off + n) buf"
    using view n by (auto simp: add.commute)
  show ?thesis
  proof (cases "unescape (take n ?view)")
    case None
    with spec rev buf show ?thesis
      by (simp add: msg_check_def frame_payload_def DCCP_PKG_CS_SIZE_def Let_def)
  next
    case (Some out)
    with spec have ret: "ret = int (length out)" and out: "take (length out) view = out" by auto
    show ?thesis
    proof (cases "out = []")
      case True
      with Some rev buf ret show ?thesis
        by (simp add: msg_check_def frame_payload_def DCCP_PKG_CS_SIZE_def Let_def)
    next
      case False
      define k where "k = length out - 1"
      have k: "length out = Suc k" using False by (simp add: k_def)
      have in_view: "k < length view" using k ret view n by simp
      have last: "view ! k = last out" and init: "take k view = butlast out"
        using out k in_view by (metis lessI nth_take last_conv_nth False diff_Suc_1)
          (metis out k butlast_take in_view Suc_leI diff_Suc_1)
      have "msg_checksum view (int k) 0 = xor_sum (butlast out)"
        unfolding init [symmetric] by (simp add: msg_checksum_def xor_sum_def)
      then have "msg_check buf off (int n) =
          Some (if xor_sum (butlast out) = last out then 0 else -1, ?buf, ret)"
        using rev ret k in_view last
        by (simp add: msg_check_def DCCP_PKG_CS_SIZE_def Let_def nat_add_distrib)
      with Some False buf ret k init show ?thesis
        using n by (auto simp: frame_payload_def min_def)
    qed
  qed
qed

text \<open>The automaton state of a decoder that has read \<open>r\<close> bytes of its buffer.\<close>

definition dec_state :: "nat option \<Rightarrow> nat \<Rightarrow> byte list \<Rightarrow> byte list option" where
  "dec_state start r buf = map_option (\<lambda>st. take (r - (st + 1)) (drop (st + 1) buf)) start"

lemma msg_find_dccp_None: "msg_find_dccp xs = None \<longleftrightarrow> DCCP_PKG_MARKER \<notin> set xs"
  by (induction xs) auto

lemma msg_find_dccp_Some:
  "msg_find_dccp xs = Some k \<Longrightarrow> k < length xs \<and> xs ! k = DCCP_PKG_MARKER
     \<and> DCCP_PKG_MARKER \<notin> set (take k xs)"
  by (induction xs arbitrary: k) (auto split: if_splits)

lemma subarray_split:
  "a \<le> b \<Longrightarrow> b \<le> c \<Longrightarrow> take (c - a) (drop a xs) = take (b - a) (drop a xs) @ take (c - b) (drop b xs)"
  using take_add [of "b - a" "c - b" "drop a xs"] by simp

lemma take_drop_Suc:
  "k < w \<Longrightarrow> w \<le> length xs \<Longrightarrow> take (w - k) (drop k xs) = xs ! k # take (w - Suc k) (drop (Suc k) xs)"
  using Cons_nth_drop_Suc [of k xs] Suc_diff_Suc [of k w]
  by (metis less_le_trans take_Suc_Cons)

text \<open>
  The decoding loop from position \<open>r\<close> to \<open>w\<close>: it never leaves the buffer, it keeps the bytes it
  has not read, and it delivers what the automaton delivers.
\<close>

definition loop_ok :: "nat \<Rightarrow> byte list \<Rightarrow> nat option \<Rightarrow> nat \<Rightarrow> bool" where
  "loop_ok w buf start r \<longleftrightarrow> r \<le> w \<and> w \<le> length buf \<and> (\<forall>st. start = Some st \<longrightarrow> st < r \<and> buf ! st = DCCP_PKG_MARKER)"

lemma msg_decode_loop_deframe:
  "loop_ok w buf start r \<Longrightarrow>
   \<exists>out start' buf'. msg_decode_loop start r w buf = Some (out, start', w, buf')
     \<and> deframe (dec_state start r buf) (take (w - r) (drop r buf)) =
         (map delivered out, dec_state start' w buf')
     \<and> loop_ok w buf' start' w \<and> length buf' = length buf"
proof (induction "w - r" arbitrary: start r buf rule: less_induct)
  case less
  note IH = less.hyps and ok = less.prems
  let ?xs = "take (w - r) (drop r buf)"
  show ?case
  proof (cases "r < w")
    case False
    with ok show ?thesis
      by (subst msg_decode_loop.simps) (auto simp: loop_ok_def)
  next
    case lt: True
    show ?thesis
    proof (cases "msg_find_dccp ?xs")
      case None
      then have "DCCP_PKG_MARKER \<notin> set ?xs" by (simp add: msg_find_dccp_None)
      moreover have "loop_ok w buf start w" using ok by (auto simp: loop_ok_def)
      moreover have "dec_state start w buf = map_option (\<lambda>acc. acc @ ?xs) (dec_state start r buf)"
      proof (cases start)
        case (Some st)
        with ok show ?thesis
          using subarray_split [of "st + 1" r w buf] by (simp add: dec_state_def loop_ok_def)
      qed (simp add: dec_state_def)
      moreover have "msg_decode_loop start w w buf = Some ([], start, w, buf)"
        by (subst msg_decode_loop.simps) simp
      then have "msg_decode_loop start r w buf = Some ([], start, w, buf)"
        using lt None by (subst msg_decode_loop.simps) simp
      ultimately show ?thesis
        by (cases "dec_state start r buf") auto
    next
      case (Some k)
      define m where "m = r + k"
      have m: "m < w" "buf ! m = DCCP_PKG_MARKER" "r \<le> m"
        and skip: "DCCP_PKG_MARKER \<notin> set (take k (drop r buf))"
      proof -
        have "k < w - r" using msg_find_dccp_Some [OF Some] by simp
        with msg_find_dccp_Some [OF Some] ok show "m < w" "buf ! m = DCCP_PKG_MARKER" "r \<le> m"
          "DCCP_PKG_MARKER \<notin> set (take k (drop r buf))"
          by (simp_all add: m_def loop_ok_def min_def)
      qed
      have xs: "?xs = take k (drop r buf) @ DCCP_PKG_MARKER # take (w - Suc m) (drop (Suc m) buf)"
        using subarray_split [of r m w buf] take_drop_Suc [of m w buf] m ok
        by (simp add: m_def loop_ok_def)
      show ?thesis
      proof (cases start)
        case None
        have "w - Suc m < w - r" "loop_ok w buf (Some m) (Suc m)"
          using ok m by (auto simp: loop_ok_def)
        from IH [OF this] obtain out start' buf' where
          rec: "msg_decode_loop (Some m) (Suc m) w buf = Some (out, start', w, buf')"
            "deframe (dec_state (Some m) (Suc m) buf) (take (w - Suc m) (drop (Suc m) buf)) =
               (map delivered out, dec_state start' w buf')"
            "loop_ok w buf' start' w" "length buf' = length buf"
          by blast
        have "msg_decode_loop start r w buf = msg_decode_loop (Some m) (Suc m) w buf"
          using lt Some None by (subst msg_decode_loop.simps) (simp add: m_def)
        moreover have "deframe (dec_state start r buf) ?xs =
            deframe (Some []) (take (w - Suc m) (drop (Suc m) buf))"
          using None skip unfolding xs by (simp add: deframe_append dec_state_def)
        ultimately show ?thesis using rec by (simp add: dec_state_def)
      next
        case start: (Some st)
        have st: "st < r" "st < m" using ok start m by (auto simp: loop_ok_def)
        define n where "n = m - Suc st"
        have n: "st + 1 + n = m" using st by (simp add: n_def)
        have acc: "take (r - (st + 1)) (drop (st + 1) buf) @ take k (drop r buf) =
            take n (drop (st + 1) buf)"
          using subarray_split [of "st + 1" r m buf] st m by (simp add: m_def n_def)
        have len: "int (r + k) - int st - 1 = int n" using st by (simp add: m_def n_def)
        obtain ret buf' l where chk: "msg_check buf (st + 1) (int n) = Some (ret, buf', l)"
          and buf': "length buf' = length buf" "drop m buf' = drop m buf"
          and spec: "case frame_payload (take n (drop (st + 1) buf)) of None \<Rightarrow> ret \<noteq> 0
             | Some p \<Rightarrow> ret = 0 \<and> l - 1 = int (length p) \<and> take (length p) (drop (st + 1) buf') = p"
          using msg_check_payload [of "st + 1" n buf] n m ok by (auto simp: loop_ok_def)
        have rest: "drop (Suc m) buf' = drop (Suc m) buf"
          using arg_cong [OF buf'(2), of tl] by (simp add: drop_Suc tl_drop)
        have "buf' ! m = buf ! m"
          using arg_cong [OF buf'(2), of "\<lambda>xs. xs ! 0"] buf'(1) m ok by (simp add: loop_ok_def)
        then have ok': "loop_ok w buf' (Some m) (Suc m)" "loop_ok w buf' None (Suc m)"
          using ok m buf' by (auto simp: loop_ok_def)
        have df: "deframe (dec_state start r buf) ?xs =
          (case frame_payload (take n (drop (st + 1) buf)) of
             None \<Rightarrow> deframe (Some []) (take (w - Suc m) (drop (Suc m) buf'))
           | Some p \<Rightarrow> map_prod ((#) p) id (deframe None (take (w - Suc m) (drop (Suc m) buf'))))"
          using start skip acc unfolding xs rest
          by (simp add: dec_state_def deframe_append split: option.splits prod.splits)
        have step: "msg_decode_loop start r w buf =
          (if ret = 0 then map_option (map_prod ((#) (drop (st + 1) buf', l - 1)) id)
             (msg_decode_loop None (Suc m) w buf')
           else msg_decode_loop (Some m) (Suc m) w buf')"
          using lt Some start chk len unfolding m_def [symmetric]
          by (subst msg_decode_loop.simps) (simp add: m_def)
        define start1 where "start1 = (if ret = 0 then None else Some m)"
        have "w - Suc m < w - r" "loop_ok w buf' start1 (Suc m)"
          using m ok' by (auto simp: start1_def)
        from IH [OF this] obtain out start' buf'' where
          rec: "msg_decode_loop start1 (Suc m) w buf' = Some (out, start', w, buf'')"
            "deframe (dec_state start1 (Suc m) buf') (take (w - Suc m) (drop (Suc m) buf')) =
               (map delivered out, dec_state start' w buf'')"
            "loop_ok w buf'' start' w" "length buf'' = length buf'"
          by blast
        show ?thesis
          using spec step rec df buf'(1)
          by (auto simp: start1_def dec_state_def delivered_def split: option.splits)
      qed
    qed
  qed
qed


section \<open>Feeding the decoder\<close>

text \<open>
  The receive loop of \<open>scom_main\<close>: a read from the SPI device lands behind the bytes held and
  \<open>msg_decode\<close> runs over them.
\<close>

definition dec_init :: "byte list \<Rightarrow> decoder" where
  "dec_init buf = \<lparr>dec_start = None, dec_r = 0, dec_w = 0, dec_buf = buf\<rparr>"

definition dec_feed :: "decoder \<Rightarrow> byte list \<Rightarrow> (delivery list \<times> decoder) option" where
  "dec_feed d bytes = do {
     buf \<leftarrow> blit (dec_buf d) (dec_w d) bytes (length bytes);
     msg_decode (d\<lparr>dec_buf := buf, dec_w := dec_w d + length bytes\<rparr>) }"

fun dec_run :: "decoder \<Rightarrow> byte list list \<Rightarrow> (byte list list \<times> decoder) option" where
  "dec_run d [] = Some ([], d)"
| "dec_run d (c # cs) = do {
     (out, d') \<leftarrow> dec_feed d c;
     (outs, d'') \<leftarrow> dec_run d' cs;
     Some (map delivered out @ outs, d'') }"

text \<open>Between two reads: nothing held, or the marker of the unfinished frame and its bytes.\<close>

definition dec_ok :: "decoder \<Rightarrow> bool" where
  "dec_ok d \<longleftrightarrow> dec_w d \<le> length (dec_buf d) \<and> dec_r d = dec_w d \<and> length (dec_buf d) < LONG_BUFFER
     \<and> (case dec_start d of None \<Rightarrow> dec_w d = 0 | Some st \<Rightarrow> st = 0 \<and> 0 < dec_w d \<and> dec_buf d ! 0 = DCCP_PKG_MARKER)"

definition dec_partial :: "decoder \<Rightarrow> byte list option" where
  "dec_partial d = dec_state (dec_start d) (dec_w d) (dec_buf d)"

lemma dec_ok_w: "dec_ok d \<Longrightarrow> dec_w d = (case dec_partial d of None \<Rightarrow> 0 | Some acc \<Rightarrow> Suc (length acc))"
  by (auto simp: dec_ok_def dec_partial_def dec_state_def split: option.splits)

lemma msg_decode_deframe:
  assumes ok: "loop_ok (dec_w d) (dec_buf d) (dec_start d) (dec_r d)"
    and len: "length (dec_buf d) < LONG_BUFFER"
  shows "\<exists>out d'. msg_decode d = Some (out, d')
    \<and> deframe (dec_state (dec_start d) (dec_r d) (dec_buf d))
        (take (dec_w d - dec_r d) (drop (dec_r d) (dec_buf d))) = (map delivered out, dec_partial d')
    \<and> dec_ok d' \<and> length (dec_buf d') = length (dec_buf d)"
proof -
  obtain out start buf where
    loop: "msg_decode_loop (dec_start d) (dec_r d) (dec_w d) (dec_buf d) = Some (out, start, dec_w d, buf)"
    and spec: "deframe (dec_state (dec_start d) (dec_r d) (dec_buf d))
        (take (dec_w d - dec_r d) (drop (dec_r d) (dec_buf d))) =
      (map delivered out, dec_state start (dec_w d) buf)"
    and ok': "loop_ok (dec_w d) buf start (dec_w d)" "length buf = length (dec_buf d)"
    using msg_decode_loop_deframe [OF ok] by blast
  show ?thesis
  proof (cases start)
    case None
    with loop spec ok' len show ?thesis
      by (simp add: msg_decode_def dec_ok_def dec_partial_def dec_state_def)
  next
    case (Some st)
    with ok' len have st: "st < dec_w d" "dec_w d \<le> length buf" "buf ! st = DCCP_PKG_MARKER" "\<not> LONG_BUFFER \<le> dec_w d - st"
      by (auto simp: loop_ok_def)
    with Some loop spec ok' len show ?thesis
      by (simp add: msg_decode_def dec_ok_def dec_partial_def dec_state_def drop_take Let_def nth_append)
  qed
qed

text \<open>The room an unfinished frame takes in the buffer; it grows by what is received at most.\<close>

definition held :: "byte list option \<Rightarrow> nat" where
  "held st = (case st of None \<Rightarrow> 0 | Some acc \<Rightarrow> Suc (length acc))"

lemma held_simps [simp]: "held None = 0" "held (Some acc) = Suc (length acc)"
  by (simp_all add: held_def)

lemma deframe_held: "held (snd (deframe st bytes)) \<le> held st + length bytes"
proof (induction st bytes rule: deframe.induct)
  case (3 acc b bs)
  then show ?case by (cases "frame_payload acc") auto
qed auto

lemma dec_feed_deframe:
  assumes ok: "dec_ok d" and room: "dec_w d + length bytes \<le> length (dec_buf d)"
  shows "\<exists>out d'. dec_feed d bytes = Some (out, d')
    \<and> deframe (dec_partial d) bytes = (map delivered out, dec_partial d')
    \<and> dec_ok d' \<and> length (dec_buf d') = length (dec_buf d)"
proof -
  let ?buf = "take (dec_w d) (dec_buf d) @ bytes @ drop (dec_w d + length bytes) (dec_buf d)"
  let ?d = "d\<lparr>dec_buf := ?buf, dec_w := dec_w d + length bytes\<rparr>"
  have len: "length ?buf = length (dec_buf d)" using room by simp
  have "loop_ok (dec_w ?d) (dec_buf ?d) (dec_start ?d) (dec_r ?d)"
    using ok room by (auto simp: loop_ok_def dec_ok_def nth_append split: option.splits)
  moreover have "length (dec_buf ?d) < LONG_BUFFER"
    using ok len by (simp add: dec_ok_def)
  ultimately obtain out d' where dec: "msg_decode ?d = Some (out, d')"
    "deframe (dec_state (dec_start ?d) (dec_r ?d) (dec_buf ?d))
        (take (dec_w ?d - dec_r ?d) (drop (dec_r ?d) (dec_buf ?d))) = (map delivered out, dec_partial d')"
    "dec_ok d'" "length (dec_buf d') = length (dec_buf ?d)"
    using msg_decode_deframe [of ?d] by blast
  have "take (dec_w ?d - dec_r ?d) (drop (dec_r ?d) (dec_buf ?d)) = bytes"
    using ok room by (simp add: dec_ok_def)
  moreover have "dec_state (dec_start ?d) (dec_r ?d) (dec_buf ?d) = dec_partial d"
    using ok room by (auto simp: dec_ok_def dec_partial_def dec_state_def drop_take min_def
      split: option.splits)
  ultimately show ?thesis using dec room len by (simp add: dec_feed_def)
qed

lemma dec_run_deframe:
  "dec_ok d \<Longrightarrow> dec_run d chunks = Some (outs, d') \<Longrightarrow>
   deframe (dec_partial d) (concat chunks) = (outs, dec_partial d') \<and> dec_ok d'"
proof (induction chunks arbitrary: d outs)
  case (Cons c cs)
  show ?case
  proof (cases "dec_w d + length c \<le> length (dec_buf d)")
    case True
    obtain out d1 where "dec_feed d c = Some (out, d1)"
      "deframe (dec_partial d) c = (map delivered out, dec_partial d1)" "dec_ok d1"
      using dec_feed_deframe [OF Cons.prems(1) True] by blast
    with Cons show ?thesis
      by (fastforce simp: deframe_append split: bind_splits)
  next
    case False
    with Cons.prems show ?thesis by (simp add: dec_feed_def blit_def)
  qed
qed simp

text \<open>Reads that fit: each chunk finds room behind what an unfinished frame may occupy.\<close>

lemma dec_run_fits:
  "dec_ok d \<Longrightarrow> dec_w d + length (concat chunks) \<le> length (dec_buf d) \<Longrightarrow>
   \<exists>outs d'. dec_run d chunks = Some (outs, d')"
proof (induction chunks arbitrary: d)
  case (Cons c cs)
  then obtain out d1 where feed: "dec_feed d c = Some (out, d1)"
    "deframe (dec_partial d) c = (map delivered out, dec_partial d1)" "dec_ok d1"
    "length (dec_buf d1) = length (dec_buf d)"
    using dec_feed_deframe [of d c] by auto
  have "dec_w d1 \<le> dec_w d + length c"
    using deframe_held [of "dec_partial d" c] feed dec_ok_w [of d] dec_ok_w [of d1] Cons.prems
    by (simp add: held_def)
  with Cons.prems feed show ?case using Cons.IH [of d1] by fastforce
qed simp

section \<open>\<open>msg_decodex\<close> scans as \<open>msg_decode\<close> does\<close>

lemma msg_check_empty: "off \<le> length buf \<Longrightarrow> msg_check buf off 0 = Some (-1, buf, -1)"
  by (simp add: msg_check_def msg_reverse_def DCCP_PKG_CS_SIZE_def)

lemma msg_decodex_loop_eq:
  "r \<le> w \<Longrightarrow> w \<le> length buf \<Longrightarrow> (\<forall>st. start = Some st \<longrightarrow> st < r) \<Longrightarrow>
   msg_decodex_loop start r w buf = msg_decode_loop start r w buf"
proof (induction "w - r" arbitrary: start r buf rule: less_induct)
  case less
  show ?case
  proof (cases "r < w")
    case False
    then show ?thesis by (subst msg_decode_loop.simps, subst msg_decodex_loop.simps) simp
  next
    case lt: True
    show ?thesis
    proof (cases "msg_find_dccp (take (w - r) (drop r buf))")
      case None
      moreover have "msg_decodex_loop start w w buf = msg_decode_loop start w w buf"
        by (subst msg_decode_loop.simps, subst msg_decodex_loop.simps) simp
      ultimately show ?thesis
        using lt by (subst msg_decode_loop.simps, subst msg_decodex_loop.simps) simp
    next
      case (Some k)
      have "k < w - r" using msg_find_dccp_Some [OF Some] by simp
      then have k: "r + k < w" by simp
      have IH: "msg_decodex_loop start' (Suc (r + k)) w buf' = msg_decode_loop start' (Suc (r + k)) w buf'"
        if "start' = None \<or> start' = Some (r + k)" "length buf' = length buf" for start' buf'
        using that k less.prems by (intro less.hyps) auto
      show ?thesis
      proof (cases start)
        case None
        with Some lt IH show ?thesis
          by (subst msg_decode_loop.simps, subst msg_decodex_loop.simps) simp
      next
        case start: (Some st)
        define n where "n = r + k - Suc st"
        have n: "int (r + k) - int st - 1 = int n" "st + 1 + n = r + k"
          using start less.prems by (auto simp: n_def)
        have closing: "buf ! (st + 1 + n) = DCCP_PKG_MARKER" "st + 1 + n < length buf"
          using msg_find_dccp_Some [OF Some] n k less.prems by (auto simp: min_def)
        obtain ret buf' l where chk: "msg_check buf (st + 1) (int n) = Some (ret, buf', l)"
          and len: "length buf' = length buf"
          using msg_check_payload [OF closing(2) closing(1)] by auto
        have "int n \<le> 0 \<Longrightarrow> ret \<noteq> 0 \<and> buf' = buf"
          using msg_check_empty [of "st + 1" buf] chk closing by auto
        with Some start lt IH chk len show ?thesis
          by (subst msg_decode_loop.simps, subst msg_decodex_loop.simps)
            (auto simp: n(1) Let_def DCCP_PKG_CS_SIZE_def DCCP_PKG_MARKER_SIZE_def simp del: of_nat_le_0_iff of_nat_add)
      qed
    qed
  qed
qed

lemma msg_decodex_deframe:
  assumes "mrx_used rx \<le> length (mrx_data rx)"
  shows "\<exists>out rx'. msg_decodex rx = Some (out, rx')
    \<and> map delivered out = fst (deframe None (take (mrx_used rx) (mrx_data rx)))
    \<and> length (mrx_data rx') = length (mrx_data rx)
    \<and> (case snd (deframe None (take (mrx_used rx) (mrx_data rx))) of
         None \<Rightarrow> mrx_used rx' = 0
       | Some acc \<Rightarrow>
           if mrx_size rx - 16 \<le> int (Suc (length acc)) then mrx_used rx' = 0
           else mrx_used rx' = Suc (length acc)
             \<and> take (mrx_used rx') (mrx_data rx') = DCCP_PKG_MARKER # acc)"
proof -
  let ?w = "mrx_used rx" and ?buf = "mrx_data rx"
  have "loop_ok ?w ?buf None 0" using assms by (simp add: loop_ok_def)
  from msg_decode_loop_deframe [OF this] obtain out start buf where
    loop: "msg_decode_loop None 0 ?w ?buf = Some (out, start, ?w, buf)"
    and spec: "deframe None (take ?w ?buf) = (map delivered out, dec_state start ?w buf)"
    and ok: "loop_ok ?w buf start ?w" "length buf = length ?buf"
    by (auto simp: dec_state_def)
  have x: "msg_decodex_loop None 0 ?w ?buf = Some (out, start, ?w, buf)"
    using loop assms by (simp add: msg_decodex_loop_eq)
  show ?thesis
  proof (cases start)
    case None
    with x spec ok show ?thesis by (simp add: msg_decodex_def dec_state_def)
  next
    case (Some st)
    then have st: "st < ?w" "?w \<le> length buf" "buf ! st = DCCP_PKG_MARKER"
      using ok by (auto simp: loop_ok_def)
    then have "take (?w - st) (drop st buf) =
        DCCP_PKG_MARKER # take (?w - Suc st) (drop (Suc st) buf)"
      using take_drop_Suc [of st ?w buf] by simp
    moreover have "?w - st = Suc (?w - Suc st)" using st by simp
    ultimately show ?thesis
      using st Some x spec ok
      by (auto simp: msg_decodex_def dec_state_def Let_def)
  qed
qed

section \<open>Streams of frames\<close>

lemma length_frame: "length (frame msg) = length (escape (msg @ [xor_sum msg])) + 2"
  by (simp add: frame_def)

lemma length_frame_le: "length (frame msg) \<le> 2 * length msg + 4"
  using length_escape [of "msg @ [xor_sum msg]"] by (simp add: length_frame del: escape_simps)

text \<open>In the middle of a stream of frames the decoder holds less than the longest of them.\<close>

lemma deframe_frame_prefix:
  assumes "frame msg = p @ q" "q \<noteq> []"
  shows "held (snd (deframe None p)) < length (frame msg)"
proof (cases p)
  case (Cons b p')
  with assms have b: "b = DCCP_PKG_MARKER" and
    tl: "escape (msg @ [xor_sum msg]) @ [DCCP_PKG_MARKER] = p' @ q"
    by (auto simp: frame_def)
  from \<open>q \<noteq> []\<close> tl have "p' @ butlast q = escape (msg @ [xor_sum msg])"
    by (metis butlast_append butlast_snoc)
  then have "DCCP_PKG_MARKER \<notin> set p'"
    using marker_not_in_escape by (metis Un_iff set_append)
  with b Cons have "held (snd (deframe None p)) = length p" by simp
  also have "length p < length (frame msg)" using assms by simp
  finally show ?thesis .
qed (simp add: length_frame)

lemma deframe_stream_held:
  "\<forall>m\<in>set msgs. length (frame m) \<le> n \<Longrightarrow> concat (map frame msgs) = p @ q \<Longrightarrow>
   held (snd (deframe None p)) \<le> n"
proof (induction msgs arbitrary: p)
  case (Cons m ms)
  from Cons.prems(2) have "frame m @ concat (map frame ms) = p @ q" by simp
  then obtain us where "frame m = p @ us \<and> us @ concat (map frame ms) = q
      \<or> frame m @ us = p \<and> concat (map frame ms) = us @ q"
    unfolding append_eq_append_conv2 by blast
  then consider (behind) p' where "p = frame m @ p'" "concat (map frame ms) = p' @ q"
    | (inside) q' where "frame m = p @ q'" "q' \<noteq> []"
    by (metis append_Nil append_Nil2)
  then show ?case
  proof cases
    case behind
    with Cons have "held (snd (deframe None p')) \<le> n" by simp
    with behind show ?thesis
      by (cases "deframe None p'") (simp add: deframe_append deframe_frame)
  next
    case inside
    from deframe_frame_prefix [OF this] Cons.prems(1) show ?thesis by fastforce
  qed
qed simp

lemma dec_run_stream:
  assumes frames: "\<forall>m\<in>set msgs. length (frame m) \<le> n" and fits: "n + k \<le> length (dec_buf d)"
  shows "dec_ok d \<Longrightarrow> \<forall>c\<in>set chunks. length c \<le> k \<Longrightarrow>
    concat (map frame msgs) = p @ concat chunks \<Longrightarrow> dec_partial d = snd (deframe None p) \<Longrightarrow>
    \<exists>outs d'. dec_run d chunks = Some (outs, d')"
  using fits
proof (induction chunks arbitrary: d p)
  case (Cons c cs)
  have "held (dec_partial d) \<le> n"
    using deframe_stream_held [OF frames Cons.prems(3)] Cons.prems(4) by simp
  then have room: "dec_w d + length c \<le> length (dec_buf d)"
    using dec_ok_w [OF Cons.prems(1)] Cons.prems by (auto simp: held_def)
  obtain out d1 where feed: "dec_feed d c = Some (out, d1)"
    "deframe (dec_partial d) c = (map delivered out, dec_partial d1)" "dec_ok d1"
    "length (dec_buf d1) = length (dec_buf d)"
    using dec_feed_deframe [OF Cons.prems(1) room] by blast
  have "dec_partial d1 = snd (deframe None (p @ c))"
    using feed Cons.prems(4) by (cases "deframe None p") (simp add: deframe_append)
  then have "\<exists>outs d'. dec_run d1 cs = Some (outs, d')"
    using feed Cons.prems by (intro Cons.IH [of d1 "p @ c"]) auto
  with feed show ?case by auto
qed simp

lemma dec_run_frames:
  assumes "\<forall>m\<in>set msgs. length (frame m) \<le> n" and "\<forall>c\<in>set chunks. length c \<le> k"
    and "n + k \<le> length buf" and "length buf < LONG_BUFFER"
    and "concat chunks = concat (map frame msgs)"
  shows "\<exists>d. dec_run (dec_init buf) chunks = Some (msgs, d) \<and> dec_start d = None \<and> dec_w d = 0"
proof -
  have init: "dec_ok (dec_init buf)" "dec_partial (dec_init buf) = None"
    using assms by (simp_all add: dec_init_def dec_ok_def dec_partial_def dec_state_def)
  obtain outs d where run: "dec_run (dec_init buf) chunks = Some (outs, d)"
    using dec_run_stream [of msgs n k "dec_init buf" chunks "[]"] assms init
    by (auto simp: dec_init_def)
  with dec_run_deframe [OF init(1) run] init assms(5) have "outs = msgs" "dec_partial d = None" "dec_ok d"
    by (simp_all add: deframe_frames)
  with run show ?thesis
    by (auto simp: dec_ok_def dec_partial_def dec_state_def split: option.splits)
qed

section \<open>Properties\<close>

text \<open>
  Frames over the SPI link: however the stream of encoded frames is cut into reads of
  at most \<open>k\<close> bytes, a receive buffer with room for the longest frame and one read never
  overflows, every message is delivered once, in order and byte for byte, and the buffer is
  empty after the last frame.
\<close>

theorem spi_frames_delivered:
  assumes "\<forall>m\<in>set msgs. length (frame m) \<le> n" and "\<forall>c\<in>set chunks. length c \<le> k"
    and "n + k \<le> length buf" and "length buf < LONG_BUFFER"
    and "concat chunks = concat (map frame msgs)"
  shows "\<exists>d. dec_run (dec_init buf) chunks = Some (msgs, d) \<and> dec_start d = None \<and> dec_w d = 0"
  by (rule dec_run_frames [OF assms])

theorem spi_frames_delivered_witness:
  "\<exists>d. dec_run (dec_init (replicate 20 0)) [[0x7E, 1], [0x7D], [2, 0x7F], [0x7E, 0x7E], [5, 5, 0x7E]] =
     Some ([[1, 0x7E], [5]], d) \<and> dec_start d = None \<and> dec_w d = 0"
  by (rule spi_frames_delivered [of _ 8 _ 3])
    (auto simp: frame_def xor_sum_def esc_byte_def dccp_defs LONG_BUFFER_def)

text \<open>
  \<^bold>\<open>C24\<close>. The in-place decoder against its specification: from any state between two reads,
  on any bytes that fit (noise, broken frames, markers inside a frame), one pass of
  \<open>msg_decode\<close> stays inside the buffer, delivers what the byte automaton delivers, and leaves a
  state from which the next pass goes on, the unfinished frame moved to the front.
\<close>

theorem msg_decode_refines_automaton:
  assumes "dec_ok d" and "dec_w d + length bytes \<le> length (dec_buf d)"
  shows "\<exists>out d'. dec_feed d bytes = Some (out, d')
    \<and> deframe (dec_partial d) bytes = (map delivered out, dec_partial d')
    \<and> dec_ok d' \<and> length (dec_buf d') = length (dec_buf d)"
  by (rule dec_feed_deframe [OF assms])

theorem msg_decode_refines_automaton_witness:
  "\<exists>out d'. dec_feed (dec_init (replicate 9 0)) [9, 0x7E, 0x7E, 3, 3, 0x7E, 4] = Some (out, d')
    \<and> deframe None [9, 0x7E, 0x7E, 3, 3, 0x7E, 4] = (map delivered out, dec_partial d')
    \<and> dec_ok d' \<and> length (dec_buf d') = 9"
  using msg_decode_refines_automaton [of "dec_init (replicate 9 0)" "[9, 0x7E, 0x7E, 3, 3, 0x7E, 4]"]
  by (simp add: dec_init_def dec_ok_def dec_partial_def dec_state_def LONG_BUFFER_def)

text \<open>
  \<open>msg_decodex\<close> delivers the messages the automaton finds in the bytes held, and keeps
  exactly the unfinished frame with its marker, or nothing when that frame has come within 16
  bytes of the buffer size.
\<close>

theorem msg_decodex_keeps_partial_frame:
  assumes "mrx_used rx \<le> length (mrx_data rx)"
  shows "\<exists>out rx'. msg_decodex rx = Some (out, rx')
    \<and> map delivered out = fst (deframe None (take (mrx_used rx) (mrx_data rx)))
    \<and> length (mrx_data rx') = length (mrx_data rx)
    \<and> (case snd (deframe None (take (mrx_used rx) (mrx_data rx))) of
         None \<Rightarrow> mrx_used rx' = 0
       | Some acc \<Rightarrow>
           if mrx_size rx - 16 \<le> int (Suc (length acc)) then mrx_used rx' = 0
           else mrx_used rx' = Suc (length acc)
             \<and> take (mrx_used rx') (mrx_data rx') = DCCP_PKG_MARKER # acc)"
  by (rule msg_decodex_deframe [OF assms])

theorem msg_decodex_keeps_partial_frame_witness:
  "\<exists>out rx'. msg_decodex \<lparr>mrx_used = 5, mrx_size = 30, mrx_data = [0x7E, 3, 3, 0x7E, 0x7E]\<rparr> = Some (out, rx')
    \<and> map delivered out = [[3]] \<and> mrx_used rx' = 1 \<and> take 1 (mrx_data rx') = [0x7E]"
  using msg_decodex_keeps_partial_frame
    [of "\<lparr>mrx_used = 5, mrx_size = 30, mrx_data = [0x7E, 3, 3, 0x7E, 0x7E]\<rparr>"]
  by (auto simp: frame_payload_def xor_sum_def dccp_defs)

text \<open>
  The encoder never writes past \<open>olen\<close>, and a header sent as \<open>FIRST_SEG\<close> followed by its
  data as \<open>LAST_SEG\<close>, each with enough room, is exactly the frame of the two together.
\<close>

theorem msg_encode_frame:
  assumes "hdr \<noteq> []" and "1 + length (escape hdr) \<le> olen"
    and "length (escape (opt_bytes data)) + 3 \<le> olen'"
  shows "(\<exists>r1 o1 cs1 r2 o2 cs2. msg_encode (Some hdr) olen FIRST_SEG cs = Some (r1, o1, cs1)
      \<and> msg_encode data olen' LAST_SEG cs1 = Some (r2, o2, cs2)
      \<and> o1 @ o2 = frame (hdr @ opt_bytes data) \<and> r1 = int (length o1) \<and> r2 = int (length o2)
      \<and> length o1 \<le> olen \<and> length o2 \<le> olen')"
proof -
  have "length (esc_byte (foldl (XOR) (xor_sum hdr) (opt_bytes data))) \<le> 2"
    using length_esc_byte by blast
  with assms show ?thesis
    by (simp add: msg_encode_first msg_encode_last Let_def frame_def xor_sum_def del: foldl_append)
      (simp add: xor_sum_def)
qed

theorem msg_encode_frame_witness:
  "\<exists>r1 o1 cs1 r2 o2 cs2. msg_encode (Some [1, 0x7E]) 10 FIRST_SEG 7 = Some (r1, o1, cs1)
      \<and> msg_encode (Some [0x7D]) 10 LAST_SEG cs1 = Some (r2, o2, cs2)
      \<and> o1 @ o2 = frame [1, 0x7E, 0x7D] \<and> r1 = int (length o1) \<and> r2 = int (length o2)
      \<and> length o1 \<le> 10 \<and> length o2 \<le> 10"
  using msg_encode_frame [of "[1, 0x7E]" 10 "Some [0x7D]" 10 7]
  by (simp add: opt_bytes_def esc_byte_def dccp_defs)

end
