(* ===== verification/ScomTl.thy ===== *)
theory ScomTl
  imports RingBuffer MsgParse
begin

text \<open>
  \<open>app/base/scom/scom_tl.c\<close> and \<open>scom_tl.h\<close>: the transport layer of the SPI link between the
  application processor and the vehicle MCU. It connects the two sides, sends single messages,
  serves an image to the peer frame by frame (the MCU upgrade) and downloads one from it.

  The static variables of the file are the record \<open>scom_tl\<close>. What a function does to the
  outside, in order, is a list of effects: the bytes given to the registered send function, the
  resend timer started or stopped, a message handed to the function registered for its channel.
  A received message is the receive buffer from the message on, which is what the pointer of
  the code reaches; a read behind that buffer is \<^const>\<open>None\<close>. Logging is left out.
\<close>

definition SCOM_TL_FRAME_LEN :: nat where "SCOM_TL_FRAME_LEN = 242"
definition SCOM_TL_TX_SIZE :: u32 where "SCOM_TL_TX_SIZE = 524288"
definition SCOM_TL_RX_SIZE :: u32 where "SCOM_TL_RX_SIZE = 2048"
definition SCOM_TL_OMSG_SIZE :: nat where "SCOM_TL_OMSG_SIZE = 512"
definition SCOM_TL_HDR_SIZE :: nat where "SCOM_TL_HDR_SIZE = 6"
definition SCOM_TL_CHN_NUM :: nat where "SCOM_TL_CHN_NUM = 10"

datatype SCOM_TL_STATE =
  SCOM_TL_STATE_DISCONNECTED | SCOM_TL_STATE_CONNECTING | SCOM_TL_STATE_IDLE
| SCOM_TL_STATE_SERVER_STARTED | SCOM_TL_STATE_CLIENT_STARTED

text \<open>The order of the enumeration, which the code compares with.\<close>

fun scom_state_no :: "SCOM_TL_STATE \<Rightarrow> nat" where
  "scom_state_no SCOM_TL_STATE_DISCONNECTED = 0"
| "scom_state_no SCOM_TL_STATE_CONNECTING = 1"
| "scom_state_no SCOM_TL_STATE_IDLE = 2"
| "scom_state_no SCOM_TL_STATE_SERVER_STARTED = 3"
| "scom_state_no SCOM_TL_STATE_CLIENT_STARTED = 4"

definition SCOM_TL_SINGLE_FRAME :: byte where "SCOM_TL_SINGLE_FRAME = 0"
definition SCOM_TL_START_FRAME :: byte where "SCOM_TL_START_FRAME = 1"
definition SCOM_TL_MIDDLE_FRAME :: byte where "SCOM_TL_MIDDLE_FRAME = 2"
definition SCOM_TL_LAST_FRAME :: byte where "SCOM_TL_LAST_FRAME = 3"

definition SCOM_TL_CMD_CON_REQ :: byte where "SCOM_TL_CMD_CON_REQ = 0"
definition SCOM_TL_CMD_CON_RES :: byte where "SCOM_TL_CMD_CON_RES = 1"
definition SCOM_TL_DATA_REQ :: byte where "SCOM_TL_DATA_REQ = 2"
definition SCOM_TL_DATA_OK_RES :: byte where "SCOM_TL_DATA_OK_RES = 3"
definition SCOM_TL_DATA_NG_RES :: byte where "SCOM_TL_DATA_NG_RES = 4"
definition SCOM_TL_CMD_GET_TIME :: byte where "SCOM_TL_CMD_GET_TIME = 0x34"

definition SCOM_TL_RET_SERVER_NOT_START :: u16 where "SCOM_TL_RET_SERVER_NOT_START = 3"
definition SCOM_TL_RET_DATA_UNAVAILABLE :: u16 where "SCOM_TL_RET_DATA_UNAVAILABLE = 4"
definition SCOM_TL_RET_INVALID_FNO :: u16 where "SCOM_TL_RET_INVALID_FNO = 5"

lemmas scom_const_defs = SCOM_TL_FRAME_LEN_def SCOM_TL_TX_SIZE_def SCOM_TL_RX_SIZE_def
  SCOM_TL_OMSG_SIZE_def SCOM_TL_HDR_SIZE_def SCOM_TL_CHN_NUM_def
  SCOM_TL_SINGLE_FRAME_def SCOM_TL_START_FRAME_def SCOM_TL_MIDDLE_FRAME_def SCOM_TL_LAST_FRAME_def
  SCOM_TL_CMD_CON_REQ_def SCOM_TL_CMD_CON_RES_def SCOM_TL_DATA_REQ_def SCOM_TL_DATA_OK_RES_def
  SCOM_TL_DATA_NG_RES_def SCOM_TL_CMD_GET_TIME_def SCOM_TL_RET_SERVER_NOT_START_def
  SCOM_TL_RET_DATA_UNAVAILABLE_def SCOM_TL_RET_INVALID_FNO_def

record SCOM_TL_RX_CTL =
  rx_used :: u32
  rx_len :: u32
  rx_ftype :: u32
  rx_flen :: u32
  rx_fno :: int
  req_fno :: u32
  req_fcnt :: u32

record scom_tl =
  scom_tl_status :: SCOM_TL_STATE
  scom_tl_tx_rb :: ring_buffer
  scom_tl_rx_rb :: ring_buffer
  scom_tl_rx_data_ctl :: SCOM_TL_RX_CTL
  scom_tl_tx_fun :: bool
  scom_tl_proc_fun :: "bool list"
  scom_tl_get_time :: byte

datatype scom_effect =
  Tx "byte list"
| ResendStart nat
| ResendStop
| AppProc nat "byte list" nat

type_synonym 'a scom_result = "('a \<times> scom_tl \<times> scom_effect list) option"

section \<open>Message layout\<close>

record SCOM_TL_MSG_HDR =
  hdr_msg_type :: byte
  hdr_ftype :: byte
  hdr_fno :: u16
  hdr_flen :: u16

definition put_hdr :: "SCOM_TL_MSG_HDR \<Rightarrow> byte list" where
  "put_hdr h = [hdr_msg_type h, hdr_ftype h] @ put_u16 (hdr_fno h) @ put_u16 (hdr_flen h)"

definition get_hdr :: "byte list \<Rightarrow> SCOM_TL_MSG_HDR option" where
  "get_hdr msg = do {
     t \<leftarrow> byte_at msg 0;
     ft \<leftarrow> byte_at msg 1;
     fno \<leftarrow> get_u16 msg 2;
     flen \<leftarrow> get_u16 msg 4;
     Some \<lparr>hdr_msg_type = t, hdr_ftype = ft, hdr_fno = fno, hdr_flen = flen\<rparr> }"

section \<open>Initialisation\<close>

definition rx_ctl_init :: SCOM_TL_RX_CTL where
  "rx_ctl_init = \<lparr>rx_used = 0, rx_len = 0, rx_ftype = 0, rx_flen = 0, rx_fno = -1,
                  req_fno = 0, req_fcnt = 0\<rparr>"

text \<open>\<open>INIT_PHASE_INSIDE\<close> of \<open>scom_tl_init\<close>.\<close>

definition scom_tl_init_inside :: "scom_tl \<Rightarrow> scom_tl" where
  "scom_tl_init_inside s = s\<lparr>
     scom_tl_tx_rb := snd (rb_init (scom_tl_tx_rb s) (replicate (unat SCOM_TL_TX_SIZE) 0) SCOM_TL_TX_SIZE),
     scom_tl_rx_data_ctl := rx_ctl_init,
     scom_tl_rx_rb := snd (rb_init (scom_tl_rx_rb s) (replicate (unat SCOM_TL_RX_SIZE) 0) SCOM_TL_RX_SIZE),
     scom_tl_tx_fun := False,
     scom_tl_proc_fun := replicate SCOM_TL_CHN_NUM False\<rparr>"

definition scom_tl_reg_tx_fun :: "scom_tl \<Rightarrow> scom_tl" where
  "scom_tl_reg_tx_fun s = s\<lparr>scom_tl_tx_fun := True\<rparr>"

definition scom_tl_reg_proc_fun :: "nat \<Rightarrow> scom_tl \<Rightarrow> int \<times> scom_tl" where
  "scom_tl_reg_proc_fun chn s =
     (if SCOM_TL_CHN_NUM \<le> chn then (-1, s)
      else (0, s\<lparr>scom_tl_proc_fun := (scom_tl_proc_fun s)[chn := True]\<rparr>))"

definition scom_tl_get_state :: "scom_tl \<Rightarrow> SCOM_TL_STATE" where
  "scom_tl_get_state s = scom_tl_status s"

section \<open>Sending\<close>

definition scom_tl_send_frame ::
  "byte \<Rightarrow> byte \<Rightarrow> u16 \<Rightarrow> byte list option \<Rightarrow> scom_tl \<Rightarrow> int scom_result"
where
  "scom_tl_send_frame msg_type frame_type frame_no data s = do {
     let len = (case data of None \<Rightarrow> 0 | Some d \<Rightarrow> length d);
     let hdr = \<lparr>hdr_msg_type = msg_type, hdr_ftype = frame_type, hdr_fno = frame_no,
                hdr_flen = word_of_nat len\<rparr>;
     (ret1, omsg1, cs) \<leftarrow> msg_encode (Some (put_hdr hdr)) SCOM_TL_OMSG_SIZE FIRST_SEG 0;
     if ret1 \<le> 0 then Some (-1, s, [])
     else do {
       (ret2, omsg2, _) \<leftarrow> msg_encode data (SCOM_TL_OMSG_SIZE - nat ret1) LAST_SEG cs;
       if ret2 \<le> 0 then Some (-1, s, [])
       else Some (0, s, if scom_tl_tx_fun s then [Tx (omsg1 @ omsg2)] else []) } }"

text \<open>The calls whose result the code only logs.\<close>

definition and_then ::
  "'a scom_result \<Rightarrow> (scom_tl \<Rightarrow> 'b scom_result) \<Rightarrow> 'b scom_result"
where
  "and_then r f = do {
     (_, s, eff) \<leftarrow> r;
     (x, s', eff') \<leftarrow> f s;
     Some (x, s', eff @ eff') }"

definition effect :: "scom_effect \<Rightarrow> scom_tl \<Rightarrow> unit scom_result" where
  "effect e s = Some ((), s, [e])"

definition finish :: "'a \<Rightarrow> scom_tl \<Rightarrow> 'a scom_result" where
  "finish x s = Some (x, s, [])"

definition scom_tl_send_con_req :: "scom_tl \<Rightarrow> unit scom_result" where
  "scom_tl_send_con_req s =
     and_then (scom_tl_send_frame SCOM_TL_CMD_CON_REQ SCOM_TL_SINGLE_FRAME 0 None s) (\<lambda>s.
     and_then (effect (ResendStart 1000) s) (\<lambda>s.
     finish () (s\<lparr>scom_tl_status := SCOM_TL_STATE_CONNECTING\<rparr>)))"

definition scom_tl_send_con_res :: "scom_tl \<Rightarrow> unit scom_result" where
  "scom_tl_send_con_res s =
     and_then (scom_tl_send_frame SCOM_TL_CMD_CON_RES SCOM_TL_SINGLE_FRAME 0 None s) (finish ())"

definition scom_tl_proc_con_req :: "scom_tl \<Rightarrow> unit scom_result" where
  "scom_tl_proc_con_req s =
     and_then (scom_tl_send_con_res s) (\<lambda>s.
       let s' = (if scom_state_no (scom_tl_status s) < scom_state_no SCOM_TL_STATE_IDLE
                 then s\<lparr>scom_tl_status := SCOM_TL_STATE_IDLE\<rparr> else s)
       in if scom_tl_get_time s' \<noteq> 0 then
            and_then (scom_tl_send_frame SCOM_TL_CMD_GET_TIME SCOM_TL_SINGLE_FRAME 0 None s') (\<lambda>s.
            finish () (s\<lparr>scom_tl_get_time := scom_tl_get_time s - 1\<rparr>))
          else finish () s')"

definition scom_tl_proc_con_res :: "scom_tl \<Rightarrow> unit scom_result" where
  "scom_tl_proc_con_res s =
     (if scom_state_no (scom_tl_status s) \<le> scom_state_no SCOM_TL_STATE_IDLE then
        and_then (effect ResendStop s) (\<lambda>s.
        and_then (scom_tl_send_frame SCOM_TL_CMD_GET_TIME SCOM_TL_SINGLE_FRAME 0 None
                    (s\<lparr>scom_tl_status := SCOM_TL_STATE_IDLE\<rparr>)) (finish ()))
      else finish () s)"

definition scom_tl_send_msg :: "byte \<Rightarrow> byte list option \<Rightarrow> scom_tl \<Rightarrow> int scom_result" where
  "scom_tl_send_msg msg_type data s =
     (if SCOM_TL_FRAME_LEN < (case data of None \<Rightarrow> 0 | Some d \<Rightarrow> length d) then Some (-1, s, [])
      else scom_tl_send_frame msg_type SCOM_TL_SINGLE_FRAME 0 data s)"

definition scom_tl_send_data_req :: "scom_tl \<Rightarrow> unit scom_result" where
  "scom_tl_send_data_req s =
     (if rx_ftype (scom_tl_rx_data_ctl s) = ucast SCOM_TL_LAST_FRAME then finish () s
      else let unused = rb_unused_len (scom_tl_rx_rb s) in
        if word_of_nat SCOM_TL_FRAME_LEN \<le> unused then
          (let fno = (word_of_int (rx_fno (scom_tl_rx_data_ctl s) + 1) :: u16);
               fcnt = (ucast (unused div word_of_nat SCOM_TL_FRAME_LEN) :: u16);
               fcnt' = (if 5 < fcnt then 5 else fcnt);
               s' = s\<lparr>scom_tl_rx_data_ctl := (scom_tl_rx_data_ctl s)\<lparr>req_fcnt := ucast fcnt',
                                                                     req_fno := ucast fno\<rparr>\<rparr>
           in and_then (scom_tl_send_frame SCOM_TL_DATA_REQ SCOM_TL_SINGLE_FRAME 0
                          (Some (put_u16 fno @ put_u16 fcnt')) s') (\<lambda>s.
              and_then (effect (ResendStart 1000) s) (finish ())))
        else finish () s)"

text \<open>
  The three phases of \<open>scom_tl_init\<close>; \<open>tm_ret\<close> is what creating the resend timer returns.
\<close>

definition scom_tl_init :: "INIT_PHASE \<Rightarrow> int \<Rightarrow> scom_tl \<Rightarrow> int scom_result" where
  "scom_tl_init phase tm_ret s = (case phase of
     INIT_PHASE_INSIDE \<Rightarrow> finish 0 (scom_tl_init_inside s)
   | INIT_PHASE_RESTORE \<Rightarrow> finish 0 s
   | INIT_PHASE_OUTSIDE \<Rightarrow>
       if tm_ret \<noteq> 0 then finish tm_ret s else and_then (scom_tl_send_con_req s) (finish 0))"

section \<open>Serving an image\<close>

definition scom_tl_start_server :: "byte list \<Rightarrow> scom_tl \<Rightarrow> int scom_result" where
  "scom_tl_start_server data s =
     (if scom_tl_status s = SCOM_TL_STATE_SERVER_STARTED then finish (-1) s
      else let s' = s\<lparr>scom_tl_tx_rb := rb_clean (scom_tl_tx_rb s)\<rparr> in
        if unat (rb_unused_len (scom_tl_tx_rb s')) < length data then finish (-1) s'
        else do {
          (_, rb) \<leftarrow> rb_in (scom_tl_tx_rb s') (Some data) (word_of_nat (length data));
          finish 0 (s'\<lparr>scom_tl_tx_rb := rb, scom_tl_status := SCOM_TL_STATE_SERVER_STARTED\<rparr>) })"

definition scom_tl_stop_server :: "scom_tl \<Rightarrow> scom_tl" where
  "scom_tl_stop_server s =
     s\<lparr>scom_tl_tx_rb := rb_clean (scom_tl_tx_rb s), scom_tl_status := SCOM_TL_STATE_IDLE\<rparr>"

definition send_ng_res :: "u16 \<Rightarrow> u16 \<Rightarrow> scom_tl \<Rightarrow> int scom_result" where
  "send_ng_res result reason s =
     and_then (scom_tl_send_msg SCOM_TL_DATA_NG_RES (Some (put_u16 result @ put_u16 reason)) s)
       (finish (-1))"

definition server_max_fno :: "scom_tl \<Rightarrow> u16" where
  "server_max_fno s =
     (let used = rb_used_len (scom_tl_tx_rb s); flen = word_of_nat SCOM_TL_FRAME_LEN
      in if used mod flen \<noteq> 0 then ucast (used div flen) else ucast (used div flen - 1))"

definition server_ftype :: "nat \<Rightarrow> nat \<Rightarrow> byte" where
  "server_ftype max_fno fno =
     (if fno = 0 then (if max_fno = 0 then SCOM_TL_SINGLE_FRAME else SCOM_TL_START_FRAME)
      else if max_fno = fno then SCOM_TL_LAST_FRAME else SCOM_TL_MIDDLE_FRAME)"

text \<open>
  The sending loop of \<open>scom_tl_proc_data_req\<close>, \<open>n\<close> frames from \<open>fno\<close> on; the branch of the code
  for a frame number past the last one cannot be reached under the loop's guard.
\<close>

fun server_send_frames :: "nat \<Rightarrow> nat \<Rightarrow> nat \<Rightarrow> scom_tl \<Rightarrow> int scom_result" where
  "server_send_frames 0 fno max_fno s = finish 0 s"
| "server_send_frames (Suc n) fno max_fno s =
     (if max_fno < fno then finish 0 s
      else do {
        (ret, frame) \<leftarrow> rb_get (scom_tl_tx_rb s) (Some (replicate SCOM_TL_FRAME_LEN 0))
                         (word_of_nat (fno * SCOM_TL_FRAME_LEN)) (word_of_nat SCOM_TL_FRAME_LEN);
        if ret \<le> 0 then finish (-1) s
        else and_then (scom_tl_send_frame SCOM_TL_DATA_OK_RES (server_ftype max_fno fno)
                         (word_of_nat fno) (map_option (take (nat ret)) frame) s) (\<lambda>s.
             server_send_frames n (Suc fno) max_fno s) })"

definition scom_tl_proc_data_req :: "byte list \<Rightarrow> scom_tl \<Rightarrow> int scom_result" where
  "scom_tl_proc_data_req msg s =
     (if scom_tl_status s \<noteq> SCOM_TL_STATE_SERVER_STARTED then
        send_ng_res SCOM_TL_RET_SERVER_NOT_START 0 s
      else if rb_empty (scom_tl_tx_rb s) then send_ng_res SCOM_TL_RET_DATA_UNAVAILABLE 0 s
      else do {
        let max_fno = server_max_fno s;
        fno \<leftarrow> get_u16 msg SCOM_TL_HDR_SIZE;
        if max_fno < fno then send_ng_res SCOM_TL_RET_INVALID_FNO max_fno s
        else do {
          fcnt \<leftarrow> get_u16 msg (SCOM_TL_HDR_SIZE + 2);
          server_send_frames (unat fcnt) (unat fno) (unat max_fno) s } })"

section \<open>Downloading an image\<close>

definition scom_tl_start_client :: "scom_tl \<Rightarrow> int scom_result" where
  "scom_tl_start_client s =
     (if scom_tl_status s = SCOM_TL_STATE_CLIENT_STARTED then finish (-1) s
      else and_then (scom_tl_send_data_req
             (s\<lparr>scom_tl_rx_rb := rb_clean (scom_tl_rx_rb s), scom_tl_rx_data_ctl := rx_ctl_init\<rparr>)) (\<lambda>s.
           finish 0 (s\<lparr>scom_tl_status := SCOM_TL_STATE_CLIENT_STARTED\<rparr>)))"

definition scom_tl_stop_client :: "scom_tl \<Rightarrow> scom_tl" where
  "scom_tl_stop_client s =
     s\<lparr>scom_tl_rx_rb := rb_clean (scom_tl_rx_rb s), scom_tl_rx_data_ctl := rx_ctl_init,
       scom_tl_status := SCOM_TL_STATE_IDLE\<rparr>"

definition scom_tl_proc_data_ok_res :: "byte list \<Rightarrow> scom_tl \<Rightarrow> unit scom_result" where
  "scom_tl_proc_data_ok_res msg s = do {
     fno \<leftarrow> get_u16 msg 2;
     let ctl = scom_tl_rx_data_ctl s;
     if uint fno \<noteq> rx_fno ctl + 1 then finish () s
     else do {
       hdr \<leftarrow> get_hdr msg;
       let ctl' = ctl\<lparr>rx_used := 1, rx_fno := uint (hdr_fno hdr), rx_flen := ucast (hdr_flen hdr),
                      rx_ftype := ucast (hdr_ftype hdr), rx_len := rx_len ctl + ucast (hdr_flen hdr)\<rparr>;
       (_, rb) \<leftarrow> rb_in (scom_tl_rx_rb s) (Some (drop SCOM_TL_HDR_SIZE msg)) (ucast (hdr_flen hdr));
       let s' = s\<lparr>scom_tl_rx_data_ctl := ctl', scom_tl_rx_rb := rb\<rparr>;
       if hdr_ftype hdr = SCOM_TL_LAST_FRAME then effect ResendStop s'
       else if ucast (hdr_fno hdr) = req_fno ctl' + req_fcnt ctl'
       then and_then (effect ResendStop s') scom_tl_send_data_req
       else finish () s' } }"

text \<open>The failure code and reason are read only to be logged.\<close>

definition scom_tl_proc_data_ng_res :: "byte list \<Rightarrow> scom_tl \<Rightarrow> unit scom_result" where
  "scom_tl_proc_data_ng_res msg s = do {
     _ \<leftarrow> get_u16 msg SCOM_TL_HDR_SIZE;
     _ \<leftarrow> get_u16 msg (SCOM_TL_HDR_SIZE + 2);
     effect ResendStop s }"

text \<open>\<open>scom_tl_get_data\<close>: the return value, the bytes stored at \<open>buffer\<close> and \<open>*fin\<close>.\<close>

definition scom_tl_get_data :: "byte list \<Rightarrow> u32 \<Rightarrow> scom_tl \<Rightarrow> (int \<times> byte list \<times> bool) scom_result" where
  "scom_tl_get_data buffer len s =
     (if scom_tl_status s \<noteq> SCOM_TL_STATE_CLIENT_STARTED then finish (-1, buffer, True) s
      else if rb_empty (scom_tl_rx_rb s) then
        finish (0, buffer, rx_ftype (scom_tl_rx_data_ctl s) = ucast SCOM_TL_LAST_FRAME) s
      else do {
        (ret, rb, dst) \<leftarrow> rb_out (scom_tl_rx_rb s) (Some buffer) len;
        let buffer' = (case dst of None \<Rightarrow> buffer | Some d \<Rightarrow> d);
        let s' = s\<lparr>scom_tl_rx_rb := rb\<rparr>;
        if ret \<le> 0 then finish (0, buffer', False) s'
        else and_then (if rx_ftype (scom_tl_rx_data_ctl s') \<noteq> ucast SCOM_TL_LAST_FRAME
                       then scom_tl_send_data_req s' else finish () s') (\<lambda>s.
          if rx_ftype (scom_tl_rx_data_ctl s) = ucast SCOM_TL_LAST_FRAME \<and> rb_empty (scom_tl_rx_rb s)
          then finish (ret, buffer', True) (scom_tl_stop_client s)
          else finish (ret, buffer', False) s) })"

section \<open>Dispatch\<close>

definition unit_result :: "'a scom_result \<Rightarrow> unit scom_result" where
  "unit_result r = and_then r (finish ())"

definition scom_tl_msg_proc :: "byte list \<Rightarrow> nat \<Rightarrow> scom_tl \<Rightarrow> unit scom_result" where
  "scom_tl_msg_proc msg len s = do {
     t \<leftarrow> byte_at msg 0;
     if t = SCOM_TL_DATA_REQ then unit_result (scom_tl_proc_data_req msg s)
     else if t = SCOM_TL_DATA_OK_RES then scom_tl_proc_data_ok_res msg s
     else if t = SCOM_TL_DATA_NG_RES then scom_tl_proc_data_ng_res msg s
     else if t = SCOM_TL_CMD_CON_REQ then scom_tl_proc_con_req s
     else if t = SCOM_TL_CMD_CON_RES then scom_tl_proc_con_res s
     else let chn = unat (drop_bit 4 (t AND 0xF0)) in
       if SCOM_TL_CHN_NUM \<le> chn then finish () s
       else if scom_tl_proc_fun s ! chn then effect (AppProc chn msg len) s
       else finish () s }"

definition scom_tl_timeout_proc :: "scom_tl \<Rightarrow> unit scom_result" where
  "scom_tl_timeout_proc s =
     (if scom_tl_status s = SCOM_TL_STATE_DISCONNECTED \<or> scom_tl_status s = SCOM_TL_STATE_CONNECTING
      then scom_tl_send_con_req s else finish () s)"

section \<open>What is sent\<close>

lemma and_then_Some [simp]:
  "and_then (Some (x, s, eff)) f = map_option (\<lambda>(y, s', eff'). (y, s', eff @ eff')) (f s)"
  by (cases "f s") (auto simp: and_then_def)

lemma and_then_effect [simp]: "and_then (effect e s) f = map_option (\<lambda>(y, s', eff). (y, s', e # eff)) (f s)"
  by (simp add: effect_def)

lemma finish_simp [simp]: "finish x s = Some (x, s, [])"
  by (simp add: finish_def)

text \<open>Every frame of at most \<^const>\<open>SCOM_TL_FRAME_LEN\<close> data bytes fits the 512 bytes of \<open>omsg\<close>.\<close>

definition tl_frame :: "byte \<Rightarrow> byte \<Rightarrow> u16 \<Rightarrow> byte list \<Rightarrow> byte list" where
  "tl_frame t ft fno data =
     frame (put_hdr \<lparr>hdr_msg_type = t, hdr_ftype = ft, hdr_fno = fno,
                     hdr_flen = word_of_nat (length data)\<rparr> @ data)"

definition transmit :: "scom_tl \<Rightarrow> byte list \<Rightarrow> scom_effect list" where
  "transmit s bytes = (if scom_tl_tx_fun s then [Tx bytes] else [])"

lemma length_put_hdr [simp]: "length (put_hdr h) = 6"
  by (simp add: put_hdr_def)

lemma opt_bytes_simps [simp]: "opt_bytes None = []" "opt_bytes (Some xs) = xs"
  by (simp_all add: opt_bytes_def)

lemma scom_tl_send_frame_fits:
  assumes "length (opt_bytes data) \<le> SCOM_TL_FRAME_LEN"
  shows "scom_tl_send_frame t ft fno data s = Some (0, s, transmit s (tl_frame t ft fno (opt_bytes data)))"
proof -
  define hdr where "hdr = put_hdr \<lparr>hdr_msg_type = t, hdr_ftype = ft, hdr_fno = fno,
      hdr_flen = word_of_nat (length (opt_bytes data))\<rparr>"
  let ?cs = "foldl (XOR) (xor_sum hdr) (opt_bytes data)"
  have len: "(case data of None \<Rightarrow> 0 | Some d \<Rightarrow> length d) = length (opt_bytes data)"
    by (cases data) simp_all
  have "length hdr = 6" by (simp add: hdr_def)
  then have hdr: "hdr \<noteq> []" "length (escape hdr) \<le> 12"
    using length_escape [of hdr] by auto
  have "length (escape (opt_bytes data)) \<le> 484"
    using length_escape [of "opt_bytes data"] assms by (simp add: scom_const_defs)
  then have fit: "length (escape (opt_bytes data)) + length (esc_byte ?cs) + 1
      \<le> SCOM_TL_OMSG_SIZE - nat (int (1 + length (escape hdr)))"
    using hdr(2) conjunct2 [OF length_esc_byte, of ?cs] by (simp add: scom_const_defs nat_add_distrib)
  have "1 + length (escape hdr) \<le> SCOM_TL_OMSG_SIZE"
    using hdr(2) by (simp add: scom_const_defs)
  note enc = msg_encode_first [OF hdr(1) this] msg_encode_last [OF fit]
  have "frame (hdr @ opt_bytes data) = (DCCP_PKG_MARKER # escape hdr) @
      escape (opt_bytes data @ [?cs]) @ [DCCP_PKG_MARKER]"
    by (simp add: frame_def xor_sum_def)
  then show ?thesis
    using enc unfolding hdr_def
    by (simp add: scom_tl_send_frame_def len Let_def tl_frame_def transmit_def)
qed

lemmas send_short [simp] =
  scom_tl_send_frame_fits [where data = None, simplified]

lemma scom_tl_send_msg_fits:
  "length (opt_bytes data) \<le> SCOM_TL_FRAME_LEN \<Longrightarrow>
   scom_tl_send_msg t data s = Some (0, s, transmit s (tl_frame t SCOM_TL_SINGLE_FRAME 0 (opt_bytes data)))"
  by (cases data) (auto simp: scom_tl_send_msg_def scom_tl_send_frame_fits)

lemma send_ng_res_sends:
  "send_ng_res result reason s = Some (-1, s,
     transmit s (tl_frame SCOM_TL_DATA_NG_RES SCOM_TL_SINGLE_FRAME 0 (put_u16 result @ put_u16 reason)))"
  by (simp add: send_ng_res_def scom_tl_send_msg_fits scom_const_defs)

text \<open>A header read back from the bytes it was written to.\<close>

lemma get_put_hdr: "get_hdr (put_hdr h @ data) = Some h"
  using get_put_u16 [of "[hdr_msg_type h, hdr_ftype h]" "hdr_fno h" "put_u16 (hdr_flen h) @ data"]
    get_put_u16 [of "[hdr_msg_type h, hdr_ftype h] @ put_u16 (hdr_fno h)" "hdr_flen h" data]
  by (simp add: get_hdr_def put_hdr_def byte_at_def nth_append eval_nat_numeral)

section \<open>The image server\<close>

text \<open>Frame \<open>i\<close> of an image, and the number of the last one.\<close>

definition image_slice :: "byte list \<Rightarrow> nat \<Rightarrow> byte list" where
  "image_slice img i = take SCOM_TL_FRAME_LEN (drop (i * SCOM_TL_FRAME_LEN) img)"

definition image_last :: "byte list \<Rightarrow> nat" where
  "image_last img = (length img - 1) div SCOM_TL_FRAME_LEN"

definition image_frame :: "byte list \<Rightarrow> nat \<Rightarrow> byte list" where
  "image_frame img i =
     tl_frame SCOM_TL_DATA_OK_RES (server_ftype (image_last img) i) (word_of_nat i) (image_slice img i)"

definition serving :: "byte list \<Rightarrow> scom_tl \<Rightarrow> bool" where
  "serving img s \<longleftrightarrow> scom_tl_status s = SCOM_TL_STATE_SERVER_STARTED \<and> img \<noteq> []
     \<and> rb_wf (scom_tl_tx_rb s) \<and> rb_contents (scom_tl_tx_rb s) = img
     \<and> rb_out_pos (scom_tl_tx_rb s) = 0 \<and> rb_size (scom_tl_tx_rb s) = SCOM_TL_TX_SIZE"

lemma slices_cover:
  "concat (map (\<lambda>i. take k (drop (i * k) xs)) [0..<n]) = take (n * k) xs"
proof (induction n)
  case (Suc n)
  have "take (Suc n * k) xs = take (n * k) xs @ take k (drop (n * k) xs)"
    using take_add [of "n * k" k xs] by (simp add: add.commute)
  with Suc show ?case by simp
qed simp

lemma image_slices: "concat (map (image_slice img) [0..<Suc (image_last img)]) = img"
proof -
  have "length img \<le> Suc (image_last img) * SCOM_TL_FRAME_LEN"
    unfolding image_last_def SCOM_TL_FRAME_LEN_def by simp
  then show ?thesis
    using slices_cover [of SCOM_TL_FRAME_LEN img "Suc (image_last img)"]
    unfolding image_slice_def by simp
qed

lemma image_last_slice: "img \<noteq> [] \<Longrightarrow> i \<le> image_last img \<Longrightarrow> i * SCOM_TL_FRAME_LEN < length img"
  by (cases img) (auto simp: image_last_def SCOM_TL_FRAME_LEN_def)

lemma serving_length:
  assumes "serving img s"
  shows "length img \<le> 524288" "length img = unat (rb_used_len (scom_tl_tx_rb s))"
    "length (rb_buffer (scom_tl_tx_rb s)) = 524288"
  using assms rb_wf_used [of "scom_tl_tx_rb s"] length_rb_contents [of "scom_tl_tx_rb s"]
  by (auto simp: serving_def rb_wf_def scom_const_defs)

lemma last_index:
  assumes "0 < (n::nat)" "0 < k"
  shows "n mod k = 0 \<Longrightarrow> 0 < n div k \<and> (n - 1) div k = n div k - 1"
    and "n mod k \<noteq> 0 \<Longrightarrow> (n - 1) div k = n div k"
proof -
  assume "n mod k = 0"
  then obtain q where n: "n = k * q" by blast
  with assms obtain p where "q = Suc p" by (cases q) auto
  moreover have "(k * Suc p - 1) div k = p"
    using assms by (intro div_nat_eqI) (auto simp: algebra_simps)
  ultimately show "0 < n div k \<and> (n - 1) div k = n div k - 1"
    using n assms by simp
next
  assume "n mod k \<noteq> 0"
  then show "(n - 1) div k = n div k"
    using assms mult_div_mod_eq [of k n] mod_less_divisor [OF assms(2), of n]
    by (intro div_nat_eqI; (subst mult_Suc_right)?; linarith)
qed

lemma server_max_fno_last:
  assumes "serving img s"
  shows "unat (server_max_fno s) = image_last img"
proof -
  let ?used = "rb_used_len (scom_tl_tx_rb s)"
  define n where "n = length img"
  have n: "unat ?used = n" "n \<le> 524288" "0 < n"
    using serving_length [OF assms] assms by (auto simp: n_def serving_def simp flip: length_greater_0_conv)
  have d: "unat (?used div 242) = n div 242" "unat (?used mod 242) = n mod 242"
    using n by (simp_all add: unat_div unat_mod)
  show ?thesis
  proof (cases "n mod 242 = 0")
    case True
    then have "?used mod 242 = 0" using d by (simp add: unat_eq_0)
    moreover have "0 < n div 242 \<and> (n - 1) div 242 = n div 242 - 1"
      using last_index(1) [OF n(3) _ True] by simp
    moreover from this have "unat (?used div 242 - 1) = n div 242 - 1"
      using d by (subst unat_sub) (auto simp: word_le_nat_alt)
    ultimately show ?thesis
      using n by (simp add: server_max_fno_def scom_const_defs image_last_def n_def [symmetric]
        unsigned_ucast_eq take_bit_nat_def)
  next
    case False
    then have "?used mod 242 \<noteq> 0" using d by (metis unat_0)
    moreover have "(n - 1) div 242 = n div 242" using last_index(2) [OF n(3) _ False] by simp
    ultimately show ?thesis
      using n d by (simp add: server_max_fno_def scom_const_defs image_last_def n_def [symmetric]
        unsigned_ucast_eq take_bit_nat_def)
  qed
qed

lemma length_image_slice: "length (image_slice img i) = min SCOM_TL_FRAME_LEN (length img - i * SCOM_TL_FRAME_LEN)"
  by (simp add: image_slice_def min.commute)

lemma length_image_frame: "length (image_frame img i) \<le> 500"
proof -
  have "length (image_slice img i) \<le> 242"
    by (simp add: length_image_slice SCOM_TL_FRAME_LEN_def)
  then show ?thesis
    unfolding image_frame_def tl_frame_def
    by (intro order_trans [OF length_frame_le]) simp
qed

text \<open>Reading frame \<open>i\<close> out of the ring of a server.\<close>

lemma serving_rb_get:
  assumes srv: "serving img s" and i: "i \<le> image_last img"
  shows "\<exists>ret fr. rb_get (scom_tl_tx_rb s) (Some (replicate SCOM_TL_FRAME_LEN 0))
      (word_of_nat (i * SCOM_TL_FRAME_LEN)) (word_of_nat SCOM_TL_FRAME_LEN) = Some (ret, Some fr)
    \<and> 0 < ret \<and> take (nat ret) fr = image_slice img i"
proof -
  let ?rb = "scom_tl_tx_rb s" and ?off = "word_of_nat (i * SCOM_TL_FRAME_LEN) :: u32"
    and ?sz = "word_of_nat SCOM_TL_FRAME_LEN :: u32"
  have wf: "rb_wf ?rb" and out: "rb_out_pos ?rb = 0" and img: "rb_contents ?rb = img" "img \<noteq> []"
    using srv by (auto simp: serving_def)
  note len = serving_length [OF srv]
  have less: "i * SCOM_TL_FRAME_LEN < length img" by (rule image_last_slice [OF img(2) i])
  then have off: "unat ?off = i * SCOM_TL_FRAME_LEN"
    using len by (simp add: unat_of_nat del: of_nat_mult)
  have sz: "unat ?sz = SCOM_TL_FRAME_LEN" by (simp add: SCOM_TL_FRAME_LEN_def)
  define n where "n = min ?sz (rb_used_len ?rb - ?off)"
  have le: "?off \<le> rb_used_len ?rb" using less off len by (simp add: word_le_nat_alt)
  then have "unat (rb_used_len ?rb - ?off) = length img - i * SCOM_TL_FRAME_LEN"
    using off len by (simp add: unat_sub)
  then have n: "unat n = length (image_slice img i)"
    using sz by (simp add: n_def length_image_slice min_def word_le_nat_alt)
  then have n_pos: "0 < unat n" "unat n \<le> 242"
    using less by (simp_all add: length_image_slice SCOM_TL_FRAME_LEN_def)
  have sint: "sint n = int (unat n)"
    using n_pos by (simp add: sint_small)
  have "rb_get ?rb (Some (replicate SCOM_TL_FRAME_LEN 0)) ?off ?sz = Some (sint n,
      Some (take (unat n) (drop (unat ?off) (rb_contents ?rb)) @ drop (unat n) (replicate SCOM_TL_FRAME_LEN 0)))"
    unfolding n_def using wf sz le out off less len by (intro rb_get_reads) simp_all
  moreover have "take (unat n) (drop (unat ?off) (rb_contents ?rb)) = image_slice img i"
    unfolding n length_image_slice off image_slice_def img(1) by (simp add: min_def)
  ultimately show ?thesis
    using sint n_pos n by auto
qed

lemma server_send_frames_images:
  assumes srv: "serving img s"
  shows "fno \<le> Suc (image_last img) \<Longrightarrow> server_send_frames n fno (image_last img) s = Some (0, s,
    concat (map (\<lambda>i. transmit s (image_frame img i)) [fno..<min (fno + n) (Suc (image_last img))]))"
proof (induction n arbitrary: fno)
  case (Suc n)
  show ?case
  proof (cases "image_last img < fno")
    case True
    with Suc.prems show ?thesis by simp
  next
    case False
    then obtain ret fr where get: "rb_get (scom_tl_tx_rb s) (Some (replicate SCOM_TL_FRAME_LEN 0))
        (word_of_nat (fno * SCOM_TL_FRAME_LEN)) (word_of_nat SCOM_TL_FRAME_LEN) = Some (ret, Some fr)"
      "0 < ret" "take (nat ret) fr = image_slice img fno"
      using serving_rb_get [OF srv, of fno] by auto
    have "[fno..<min (fno + Suc n) (Suc (image_last img))] =
        fno # [Suc fno..<min (Suc fno + n) (Suc (image_last img))]"
      using False by (subst upt_conv_Cons) (auto simp: min_def)
    moreover have "length (image_slice img fno) \<le> SCOM_TL_FRAME_LEN"
      by (simp add: length_image_slice)
    ultimately show ?thesis
      using False get Suc.IH [of "Suc fno"]
      by (simp add: scom_tl_send_frame_fits image_frame_def)
  qed
qed simp

text \<open>A message of the link: its header and its data, whatever lies behind it in the buffer.\<close>

definition data_req_msg :: "u16 \<Rightarrow> u16 \<Rightarrow> byte list \<Rightarrow> byte list" where
  "data_req_msg fno fcnt post =
     put_hdr \<lparr>hdr_msg_type = SCOM_TL_DATA_REQ, hdr_ftype = SCOM_TL_SINGLE_FRAME, hdr_fno = 0, hdr_flen = 4\<rparr>
       @ put_u16 fno @ put_u16 fcnt @ post"

lemma data_req_fields:
  "get_u16 (data_req_msg fno fcnt post) SCOM_TL_HDR_SIZE = Some fno"
  "get_u16 (data_req_msg fno fcnt post) (SCOM_TL_HDR_SIZE + 2) = Some fcnt"
proof -
  let ?h = "put_hdr \<lparr>hdr_msg_type = SCOM_TL_DATA_REQ, hdr_ftype = SCOM_TL_SINGLE_FRAME, hdr_fno = 0, hdr_flen = 4\<rparr>"
  show "get_u16 (data_req_msg fno fcnt post) SCOM_TL_HDR_SIZE = Some fno"
    using get_put_u16 [of ?h fno "put_u16 fcnt @ post"]
    by (simp add: data_req_msg_def SCOM_TL_HDR_SIZE_def)
  show "get_u16 (data_req_msg fno fcnt post) (SCOM_TL_HDR_SIZE + 2) = Some fcnt"
    using get_put_u16 [of "?h @ put_u16 fno" fcnt post]
    by (simp add: data_req_msg_def SCOM_TL_HDR_SIZE_def)
qed

lemma scom_tl_proc_data_req_serves:
  assumes srv: "serving img s" and fno: "unat fno \<le> image_last img"
  shows "scom_tl_proc_data_req (data_req_msg fno fcnt post) s = Some (0, s,
    concat (map (\<lambda>i. transmit s (image_frame img i))
      [unat fno..<min (unat fno + unat fcnt) (Suc (image_last img))]))"
proof -
  have "\<not> rb_empty (scom_tl_tx_rb s)" using srv by (auto simp: rb_empty_iff serving_def)
  moreover have "\<not> server_max_fno s < fno"
    using server_max_fno_last [OF srv] fno by (simp add: word_less_nat_alt)
  ultimately show ?thesis
    using srv fno server_send_frames_images [OF srv, of "unat fno" "unat fcnt"]
    by (simp add: scom_tl_proc_data_req_def data_req_fields data_req_fields(2) [simplified] server_max_fno_last [OF srv] Let_def)
      (simp add: serving_def)
qed

section \<open>The invariant of the transport layer\<close>

text \<open>
  The transmit ring is only ever filled from empty, so its read position stays 0: \<open>rb_get\<close> is
  inside the range where it is right.
\<close>

definition scom_wf :: "scom_tl \<Rightarrow> bool" where
  "scom_wf s \<longleftrightarrow> rb_wf (scom_tl_tx_rb s) \<and> rb_size (scom_tl_tx_rb s) = SCOM_TL_TX_SIZE
     \<and> rb_out_pos (scom_tl_tx_rb s) = 0
     \<and> rb_wf (scom_tl_rx_rb s) \<and> rb_size (scom_tl_rx_rb s) = SCOM_TL_RX_SIZE
     \<and> length (scom_tl_proc_fun s) = SCOM_TL_CHN_NUM"

lemma serving_iff:
  "scom_wf s \<Longrightarrow> serving img s \<longleftrightarrow> scom_tl_status s = SCOM_TL_STATE_SERVER_STARTED
     \<and> img \<noteq> [] \<and> img = rb_contents (scom_tl_tx_rb s)"
  by (auto simp: scom_wf_def serving_def)

text \<open>What a call may change: \<open>keeps_tx\<close> says it leaves the served image and the server state.\<close>

definition keeps_tx :: "scom_tl \<Rightarrow> scom_tl \<Rightarrow> bool" where
  "keeps_tx s s' \<longleftrightarrow> scom_tl_tx_rb s' = scom_tl_tx_rb s \<and> scom_tl_tx_fun s' = scom_tl_tx_fun s
     \<and> scom_tl_proc_fun s' = scom_tl_proc_fun s
     \<and> (scom_tl_status s = SCOM_TL_STATE_SERVER_STARTED \<longrightarrow> scom_tl_status s' = SCOM_TL_STATE_SERVER_STARTED)"

definition runs_keeping_tx :: "'a scom_result \<Rightarrow> scom_tl \<Rightarrow> bool" where
  "runs_keeping_tx r s \<longleftrightarrow> (\<exists>x s' eff. r = Some (x, s', eff) \<and> scom_wf s' \<and> keeps_tx s s')"

lemma send_con_req_result:
  "scom_tl_send_con_req s = Some ((), s\<lparr>scom_tl_status := SCOM_TL_STATE_CONNECTING\<rparr>,
     transmit s (tl_frame SCOM_TL_CMD_CON_REQ SCOM_TL_SINGLE_FRAME 0 []) @ [ResendStart 1000])"
  by (simp add: scom_tl_send_con_req_def)

lemma proc_con_req_result:
  "scom_tl_proc_con_req s = Some ((),
     s\<lparr>scom_tl_status := (if scom_state_no (scom_tl_status s) < 2 then SCOM_TL_STATE_IDLE else scom_tl_status s),
       scom_tl_get_time := (if scom_tl_get_time s = 0 then 0 else scom_tl_get_time s - 1)\<rparr>,
     transmit s (tl_frame SCOM_TL_CMD_CON_RES SCOM_TL_SINGLE_FRAME 0 []) @
       (if scom_tl_get_time s = 0 then []
        else transmit s (tl_frame SCOM_TL_CMD_GET_TIME SCOM_TL_SINGLE_FRAME 0 [])))"
  by (simp add: scom_tl_proc_con_req_def scom_tl_send_con_res_def Let_def transmit_def)

lemma proc_con_res_result:
  "scom_tl_proc_con_res s = Some ((),
     (if scom_state_no (scom_tl_status s) \<le> 2 then s\<lparr>scom_tl_status := SCOM_TL_STATE_IDLE\<rparr> else s),
     (if scom_state_no (scom_tl_status s) \<le> 2
      then ResendStop # transmit s (tl_frame SCOM_TL_CMD_GET_TIME SCOM_TL_SINGLE_FRAME 0 []) else []))"
  by (simp add: scom_tl_proc_con_res_def transmit_def)

text \<open>The frames a client asks for: the one after the last received, as many as fit, 5 at most.\<close>

definition req_count :: "scom_tl \<Rightarrow> u16" where
  "req_count s = (let n = (ucast (rb_unused_len (scom_tl_rx_rb s) div 242) :: u16) in if 5 < n then 5 else n)"

lemma send_data_req_result:
  "scom_tl_send_data_req s =
     (let fno = (word_of_int (rx_fno (scom_tl_rx_data_ctl s) + 1) :: u16) in
      if rx_ftype (scom_tl_rx_data_ctl s) = 3 \<or> rb_unused_len (scom_tl_rx_rb s) < 242
      then Some ((), s, [])
      else Some ((), s\<lparr>scom_tl_rx_data_ctl := (scom_tl_rx_data_ctl s)
                         \<lparr>req_fcnt := ucast (req_count s), req_fno := ucast fno\<rparr>\<rparr>,
        transmit s (tl_frame SCOM_TL_DATA_REQ SCOM_TL_SINGLE_FRAME 0
          (put_u16 fno @ put_u16 (req_count s))) @ [ResendStart 1000]))"
  by (simp add: scom_tl_send_data_req_def Let_def scom_tl_send_frame_fits req_count_def
    SCOM_TL_FRAME_LEN_def SCOM_TL_LAST_FRAME_def transmit_def not_less)

lemma send_data_req_keeps:
  "scom_wf s \<Longrightarrow> runs_keeping_tx (scom_tl_send_data_req s) s"
  by (simp add: send_data_req_result runs_keeping_tx_def Let_def scom_wf_def keeps_tx_def)

text \<open>A received message with all the bytes its header announces.\<close>

definition msg_complete :: "byte list \<Rightarrow> bool" where
  "msg_complete msg \<longleftrightarrow> 10 \<le> length msg
     \<and> (\<forall>hdr. get_hdr msg = Some hdr \<longrightarrow> 6 + unat (hdr_flen hdr) \<le> length msg)"

lemma get_u16_in_bounds: "i + 1 < length msg \<Longrightarrow> \<exists>w. get_u16 msg i = Some w"
  by (simp add: get_u16_def)

lemma get_hdr_in_bounds:
  assumes "6 \<le> length msg"
  shows "\<exists>hdr. get_hdr msg = Some hdr"
proof -
  obtain fno flen where "get_u16 msg 2 = Some fno" "get_u16 msg 4 = Some flen"
    using get_u16_in_bounds [of 2 msg] get_u16_in_bounds [of 4 msg] assms by auto
  moreover have "0 < length msg" "Suc 0 < length msg" using assms by auto
  ultimately show ?thesis by (simp add: get_hdr_def byte_at_def)
qed

lemma server_send_frames_keeps:
  assumes "scom_wf s" "serving img s" "fno \<le> Suc (image_last img)"
  shows "runs_keeping_tx (server_send_frames n fno (image_last img) s) s"
  using assms server_send_frames_images [of img s fno n]
  by (auto simp: runs_keeping_tx_def keeps_tx_def)

lemma proc_data_req_keeps:
  assumes wf: "scom_wf s" and msg: "msg_complete msg"
  shows "runs_keeping_tx (scom_tl_proc_data_req msg s) s"
proof (cases "scom_tl_status s = SCOM_TL_STATE_SERVER_STARTED \<and> \<not> rb_empty (scom_tl_tx_rb s)")
  case False
  with wf show ?thesis
    by (auto simp: scom_tl_proc_data_req_def send_ng_res_sends runs_keeping_tx_def keeps_tx_def)
next
  case True
  define img where "img = rb_contents (scom_tl_tx_rb s)"
  have srv: "serving img s"
    using True wf by (auto simp: serving_iff img_def rb_empty_iff)
  obtain fno fcnt where get: "get_u16 msg 6 = Some fno" "get_u16 msg 8 = Some fcnt"
    using get_u16_in_bounds [of 6 msg] get_u16_in_bounds [of 8 msg] msg
    by (auto simp: msg_complete_def)
  show ?thesis
  proof (cases "server_max_fno s < fno")
    case True
    with \<open>scom_tl_status s = _ \<and> _\<close> get wf show ?thesis
      by (simp add: scom_tl_proc_data_req_def SCOM_TL_HDR_SIZE_def Let_def send_ng_res_sends
        runs_keeping_tx_def keeps_tx_def)
  next
    case False
    then have "unat fno \<le> Suc (image_last img)"
      using server_max_fno_last [OF srv] by (simp add: not_less word_le_nat_alt)
    from server_send_frames_keeps [OF wf srv this, of "unat fcnt"] True False get show ?thesis
      by (simp add: scom_tl_proc_data_req_def SCOM_TL_HDR_SIZE_def Let_def server_max_fno_last [OF srv])
  qed
qed

lemma proc_data_ok_res_keeps:
  assumes wf: "scom_wf s" and msg: "msg_complete msg"
  shows "runs_keeping_tx (scom_tl_proc_data_ok_res msg s) s"
proof -
  obtain hdr where hdr: "get_hdr msg = Some hdr" and len: "6 + unat (hdr_flen hdr) \<le> length msg"
    using get_hdr_in_bounds [of msg] msg by (auto simp: msg_complete_def)
  then have fno: "get_u16 msg 2 = Some (hdr_fno hdr)"
    by (auto simp: get_hdr_def split: bind_splits)
  have rx: "rb_wf (scom_tl_rx_rb s)" using wf by (simp add: scom_wf_def)
  have "unat (ucast (hdr_flen hdr) :: u32) \<le> length (drop SCOM_TL_HDR_SIZE msg)"
    using len unat_u16_less [of "hdr_flen hdr"] by (simp add: SCOM_TL_HDR_SIZE_def unsigned_ucast_eq take_bit_nat_eq_self)
  from rb_in_appends [OF rx this] obtain rb' r where
    rb: "rb_in (scom_tl_rx_rb s) (Some (drop SCOM_TL_HDR_SIZE msg)) (ucast (hdr_flen hdr)) = Some (r, rb')"
    "rb_wf rb'" "rb_size rb' = rb_size (scom_tl_rx_rb s)"
    by blast
  define ctl where "ctl = (scom_tl_rx_data_ctl s)\<lparr>rx_used := 1, rx_fno := uint (hdr_fno hdr),
    rx_flen := ucast (hdr_flen hdr), rx_ftype := ucast (hdr_ftype hdr),
    rx_len := rx_len (scom_tl_rx_data_ctl s) + ucast (hdr_flen hdr)\<rparr>"
  let ?s' = "s\<lparr>scom_tl_rx_data_ctl := ctl, scom_tl_rx_rb := rb'\<rparr>"
  have s': "scom_wf ?s'" "keeps_tx s ?s'" using wf rb by (simp_all add: scom_wf_def keeps_tx_def)
  from send_data_req_keeps [OF s'(1)] obtain s2 eff where
    "scom_tl_send_data_req ?s' = Some ((), s2, eff)" "scom_wf s2" "keeps_tx ?s' s2"
    by (auto simp: runs_keeping_tx_def)
  moreover from this s' have "keeps_tx s s2" by (simp add: keeps_tx_def)
  ultimately show ?thesis
    using hdr fno rb s' wf unfolding ctl_def
    by (auto simp: scom_tl_proc_data_ok_res_def Let_def runs_keeping_tx_def effect_def keeps_tx_def)
qed

text \<open>
  Any message from the peer with its announced bytes is processed inside the buffers, keeps the
  invariant, and leaves the image being served alone.
\<close>

lemma msg_proc_keeps:
  assumes wf: "scom_wf s" and msg: "msg_complete msg"
  shows "runs_keeping_tx (scom_tl_msg_proc msg len s) s"
proof -
  have same: "runs_keeping_tx (Some ((), s, eff)) s" for eff
    using wf by (simp add: runs_keeping_tx_def keeps_tx_def)
  have req: "runs_keeping_tx (unit_result (scom_tl_proc_data_req msg s)) s"
    using proc_data_req_keeps [OF wf msg] by (auto simp: runs_keeping_tx_def unit_result_def)
  have "\<exists>a b. get_u16 msg 6 = Some a \<and> get_u16 msg 8 = Some b"
    using get_u16_in_bounds [of 6 msg] get_u16_in_bounds [of 8 msg] msg by (auto simp: msg_complete_def)
  then have ng: "runs_keeping_tx (scom_tl_proc_data_ng_res msg s) s"
    using same by (auto simp: scom_tl_proc_data_ng_res_def SCOM_TL_HDR_SIZE_def effect_def)
  have con: "runs_keeping_tx (scom_tl_proc_con_req s) s" "runs_keeping_tx (scom_tl_proc_con_res s) s"
    using wf by (auto simp: proc_con_req_result proc_con_res_result runs_keeping_tx_def keeps_tx_def scom_wf_def)
  have "0 < length msg" using msg by (auto simp: msg_complete_def)
  then show ?thesis
    using same req ng con proc_data_ok_res_keeps [OF wf msg]
    by (simp add: scom_tl_msg_proc_def Let_def effect_def)
qed

lemma timeout_keeps: "scom_wf s \<Longrightarrow> runs_keeping_tx (scom_tl_timeout_proc s) s"
  by (auto simp: scom_tl_timeout_proc_def send_con_req_result runs_keeping_tx_def keeps_tx_def scom_wf_def)

lemma rb_in_out_pos: "rb_in rb b n = Some (r, rb') \<Longrightarrow> rb_out_pos rb' = rb_out_pos rb"
  by (auto simp: rb_in_def Let_def split: option.splits bind_splits)

lemma rb_clean_unused: "rb_unused_len (rb_clean rb) = rb_size rb"
  by (simp add: rb_unused_len_def rb_clean_def)

lemma start_server_result:
  assumes wf: "scom_wf s" and st: "scom_tl_status s \<noteq> SCOM_TL_STATE_SERVER_STARTED"
  shows "if length data \<le> 524288
    then \<exists>s'. scom_tl_start_server data s = Some (0, s', []) \<and> scom_wf s'
      \<and> scom_tl_status s' = SCOM_TL_STATE_SERVER_STARTED \<and> rb_contents (scom_tl_tx_rb s') = data
      \<and> scom_tl_tx_fun s' = scom_tl_tx_fun s
    else \<exists>s'. scom_tl_start_server data s = Some (-1, s', []) \<and> scom_wf s'
      \<and> scom_tl_status s' = scom_tl_status s \<and> rb_contents (scom_tl_tx_rb s') = []"
proof -
  let ?rb = "rb_clean (scom_tl_tx_rb s)"
  have clean: "rb_wf ?rb" "rb_contents ?rb = []" "rb_size ?rb = SCOM_TL_TX_SIZE" "rb_out_pos ?rb = 0"
    "unat (rb_unused_len ?rb) = 524288"
    using wf rb_clean_empties [of "scom_tl_tx_rb s"]
    by (simp_all add: scom_wf_def rb_clean_unused SCOM_TL_TX_SIZE_def) (simp add: rb_clean_def)
  show ?thesis
  proof (cases "length data \<le> 524288")
    case False
    with clean st wf show ?thesis
      by (simp add: scom_tl_start_server_def Let_def scom_wf_def)
  next
    case True
    then have len: "unat (word_of_nat (length data) :: u32) = length data"
      by (simp add: unat_of_nat)
    obtain r rb where rb: "rb_in ?rb (Some data) (word_of_nat (length data)) = Some (r, rb)"
      "rb_wf rb" "rb_contents rb = data" "rb_size rb = SCOM_TL_TX_SIZE"
      using rb_in_appends [OF clean(1), of "word_of_nat (length data)" data] True clean len
      by (auto simp: min_def word_le_nat_alt)
    with rb_in_out_pos [OF rb(1)] clean True st wf show ?thesis
      by (simp add: scom_tl_start_server_def Let_def scom_wf_def)
  qed
qed

lemma start_client_wf:
  assumes "scom_wf s"
  shows "\<exists>r s' eff. scom_tl_start_client s = Some (r, s', eff) \<and> scom_wf s'"
  using assms rb_clean_empties [of "scom_tl_rx_rb s"]
  by (auto simp: scom_tl_start_client_def send_data_req_result Let_def scom_wf_def)

lemma stop_client_wf: "scom_wf s \<Longrightarrow> scom_wf (scom_tl_stop_client s)"
  using rb_clean_empties [of "scom_tl_rx_rb s"] by (simp add: scom_tl_stop_client_def scom_wf_def)

lemma stop_server_wf: "scom_wf s \<Longrightarrow> scom_wf (scom_tl_stop_server s)"
  using rb_clean_empties [of "scom_tl_tx_rb s"]
  by (simp add: scom_tl_stop_server_def scom_wf_def) (simp add: rb_clean_def)

lemma get_data_wf:
  assumes wf: "scom_wf s" and room: "unat len \<le> length buffer"
  shows "\<exists>r s' eff. scom_tl_get_data buffer len s = Some (r, s', eff) \<and> scom_wf s'"
proof -
  obtain r rb d where out: "rb_out (scom_tl_rx_rb s) (Some buffer) len = Some (r, rb, Some d)"
    "rb_wf rb" "rb_size rb = rb_size (scom_tl_rx_rb s)"
    using rb_out_takes [OF _ room, of "scom_tl_rx_rb s"] wf by (auto simp: scom_wf_def)
  let ?s = "s\<lparr>scom_tl_rx_rb := rb\<rparr>"
  have wf': "scom_wf ?s" using wf out by (simp add: scom_wf_def)
  from send_data_req_keeps [OF this] obtain s2 eff where
    "scom_tl_send_data_req ?s = Some ((), s2, eff)" "scom_wf s2"
    by (auto simp: runs_keeping_tx_def)
  with wf wf' out show ?thesis
    by (auto simp: scom_tl_get_data_def Let_def stop_client_wf)
qed

section \<open>Reachable states\<close>

text \<open>
  What can happen to the transport layer: a message from the peer with its announced bytes, the
  resend timer, and the calls of the application.
\<close>

datatype scom_event =
  Peer "byte list" nat
| ResendTimeout
| StartServer "byte list"
| StopServer
| StartClient
| StopClient
| GetData "byte list" u32
| RegTx
| RegProc nat

inductive scom_step :: "scom_tl \<Rightarrow> scom_event \<Rightarrow> scom_effect list \<Rightarrow> scom_tl \<Rightarrow> bool" where
  peer: "msg_complete msg \<Longrightarrow> scom_tl_msg_proc msg len s = Some ((), s', eff) \<Longrightarrow>
    scom_step s (Peer msg len) eff s'"
| timeout: "scom_tl_timeout_proc s = Some ((), s', eff) \<Longrightarrow> scom_step s ResendTimeout eff s'"
| start_server: "scom_tl_start_server data s = Some (r, s', eff) \<Longrightarrow> scom_step s (StartServer data) eff s'"
| stop_server: "scom_step s StopServer [] (scom_tl_stop_server s)"
| start_client: "scom_tl_start_client s = Some (r, s', eff) \<Longrightarrow> scom_step s StartClient eff s'"
| stop_client: "scom_step s StopClient [] (scom_tl_stop_client s)"
| get_data: "unat len \<le> length buffer \<Longrightarrow> scom_tl_get_data buffer len s = Some (r, s', eff) \<Longrightarrow>
    scom_step s (GetData buffer len) eff s'"
| reg_tx: "scom_step s RegTx [] (scom_tl_reg_tx_fun s)"
| reg_proc: "scom_step s (RegProc chn) [] (snd (scom_tl_reg_proc_fun chn s))"

inductive_cases scom_step_peerE: "scom_step s (Peer msg len) eff s'"

inductive scom_reach :: "scom_tl \<Rightarrow> bool" where
  init: "scom_reach (scom_tl_init_inside s)"
| step: "scom_reach s \<Longrightarrow> scom_step s e eff s' \<Longrightarrow> scom_reach s'"

lemma init_inside_wf: "scom_wf (scom_tl_init_inside s)"
  using rb_init_wf [of SCOM_TL_TX_SIZE "replicate (unat SCOM_TL_TX_SIZE) 0" "scom_tl_tx_rb s"]
    rb_init_wf [of SCOM_TL_RX_SIZE "replicate (unat SCOM_TL_RX_SIZE) 0" "scom_tl_rx_rb s"]
  by (simp add: scom_tl_init_inside_def scom_wf_def is_power_of_2_def rb_init_def
    SCOM_TL_TX_SIZE_def SCOM_TL_RX_SIZE_def)

lemma scom_step_wf: "scom_step s e eff s' \<Longrightarrow> scom_wf s \<Longrightarrow> scom_wf s'"
proof (induction rule: scom_step.induct)
  case (peer msg len s s' eff)
  then show ?case using msg_proc_keeps [of s msg len] by (auto simp: runs_keeping_tx_def)
next
  case (timeout s s' eff)
  then show ?case using timeout_keeps [of s] by (auto simp: runs_keeping_tx_def)
next
  case (start_server data s r s' eff)
  then show ?case
    using start_server_result [of s data]
    by (cases "scom_tl_status s = SCOM_TL_STATE_SERVER_STARTED")
      (auto simp: scom_tl_start_server_def split: if_splits)
next
  case (start_client s r s' eff)
  then show ?case using start_client_wf [of s] by auto
next
  case (get_data len buffer s r s' eff)
  then show ?case using get_data_wf [of s len buffer] by auto
next
  case (reg_tx s)
  then show ?case by (simp add: scom_wf_def scom_tl_reg_tx_fun_def)
next
  case (reg_proc s chn)
  then show ?case by (simp add: scom_wf_def scom_tl_reg_proc_fun_def)
qed (simp_all add: stop_server_wf stop_client_wf)

lemma scom_reach_wf: "scom_reach s \<Longrightarrow> scom_wf s"
  by (induction rule: scom_reach.induct) (auto intro: init_inside_wf scom_step_wf)

text \<open>The status under one step: a connection once made is never lost.\<close>

lemma send_data_req_status: "scom_tl_send_data_req s = Some (u, s', eff) \<Longrightarrow> scom_tl_status s' = scom_tl_status s"
  by (auto simp: send_data_req_result Let_def split: if_splits)

lemma data_req_unchanged: "server_send_frames n fno m s = Some (r, s', eff) \<Longrightarrow> scom_tl_status s' = scom_tl_status s"
proof (induction n arbitrary: fno s eff)
  case (Suc n)
  have "s1 = s" if "scom_tl_send_frame t ft no d s = Some (r1, s1, e1)" for t ft no d r1 s1 e1
    using that by (auto simp: scom_tl_send_frame_def Let_def split: bind_splits if_splits prod.splits)
  with Suc show ?case
    by (fastforce simp: and_then_def split: if_splits bind_splits prod.splits)
qed simp

lemma msg_proc_status:
  assumes "scom_tl_msg_proc msg len s = Some ((), s', eff)" and "2 \<le> scom_state_no (scom_tl_status s)"
  shows "scom_tl_status s' = scom_tl_status s"
proof -
  have ok: "scom_tl_proc_data_ok_res msg s = Some (u, s', eff) \<Longrightarrow> scom_tl_status s' = scom_tl_status s" for u
    by (auto simp: scom_tl_proc_data_ok_res_def Let_def effect_def split: bind_splits if_splits
      dest!: send_data_req_status)
  have req: "unit_result (scom_tl_proc_data_req msg s) = Some (u, s', eff) \<Longrightarrow>
      scom_tl_status s' = scom_tl_status s" for u
    by (auto simp: unit_result_def and_then_def scom_tl_proc_data_req_def send_ng_res_sends Let_def
      split: bind_splits if_splits dest: data_req_unchanged)
  have idle: "scom_tl_status s = SCOM_TL_STATE_IDLE" if "scom_state_no (scom_tl_status s) \<le> 2"
    using that assms(2) by (cases "scom_tl_status s") auto
  have ng: "scom_tl_proc_data_ng_res msg s = Some (u, s', eff) \<Longrightarrow> s' = s" for u
    by (auto simp: scom_tl_proc_data_ng_res_def effect_def split: bind_splits)
  show ?thesis
    using assms ok req ng idle
    by (auto simp: scom_tl_msg_proc_def Let_def effect_def proc_con_req_result proc_con_res_result
      split: bind_splits if_splits)
qed

lemma scom_step_connected:
  "scom_step s e eff s' \<Longrightarrow> 2 \<le> scom_state_no (scom_tl_status s) \<Longrightarrow> 2 \<le> scom_state_no (scom_tl_status s')"
proof (induction rule: scom_step.induct)
  case (peer msg len s s' eff)
  then show ?case by (simp add: msg_proc_status)
next
  case (timeout s s' eff)
  then show ?case by (auto simp: scom_tl_timeout_proc_def split: if_splits)
next
  case (start_server data s r s' eff)
  then show ?case by (auto simp: scom_tl_start_server_def Let_def split: if_splits bind_splits)
next
  case (start_client s r s' eff)
  then show ?case by (auto simp: scom_tl_start_client_def send_data_req_result Let_def split: if_splits)
next
  case (get_data len buffer s r s' eff)
  then show ?case
    by (auto simp: scom_tl_get_data_def Let_def and_then_def scom_tl_stop_client_def
      split: if_splits bind_splits option.splits dest!: send_data_req_status)
qed (auto simp: scom_tl_stop_server_def scom_tl_stop_client_def scom_tl_reg_tx_fun_def scom_tl_reg_proc_fun_def)

section \<open>A client whose window never ends\<close>

text \<open>A data frame as the receiver sees it, \<open>post\<close> being what lies behind it in the buffer.\<close>

definition data_msg :: "byte \<Rightarrow> u16 \<Rightarrow> byte list \<Rightarrow> byte list \<Rightarrow> byte list" where
  "data_msg ft fno data post =
     put_hdr \<lparr>hdr_msg_type = SCOM_TL_DATA_OK_RES, hdr_ftype = ft, hdr_fno = fno,
              hdr_flen = word_of_nat (length data)\<rparr> @ data @ post"

lemma get_hdr_fno: "get_hdr msg = Some hdr \<Longrightarrow> get_u16 msg 2 = Some (hdr_fno hdr)"
  by (auto simp: get_hdr_def split: bind_splits)

lemma data_ok_res_inside_window:
  assumes wf: "scom_wf s" and len: "length data < 65536"
    and last: "ft \<noteq> SCOM_TL_LAST_FRAME"
    and win: "ucast fno \<noteq> req_fno (scom_tl_rx_data_ctl s) + req_fcnt (scom_tl_rx_data_ctl s)"
  shows "\<exists>s'. scom_tl_proc_data_ok_res (data_msg ft fno data post) s = Some ((), s', [])"
proof -
  let ?msg = "data_msg ft fno data post"
  let ?hdr = "\<lparr>hdr_msg_type = SCOM_TL_DATA_OK_RES, hdr_ftype = ft, hdr_fno = fno,
              hdr_flen = word_of_nat (length data)\<rparr>"
  have hdr: "get_hdr ?msg = Some ?hdr" by (simp add: data_msg_def get_put_hdr)
  have "unat (ucast (hdr_flen ?hdr) :: u32) \<le> length (drop SCOM_TL_HDR_SIZE ?msg)"
    using len by (simp add: data_msg_def SCOM_TL_HDR_SIZE_def unsigned_ucast_eq unat_of_nat
      take_bit_nat_eq_self)
  from rb_in_appends [OF _ this, of "scom_tl_rx_rb s"] wf obtain r rb where
    "rb_in (scom_tl_rx_rb s) (Some (drop SCOM_TL_HDR_SIZE ?msg)) (ucast (hdr_flen ?hdr)) = Some (r, rb)"
    by (auto simp: scom_wf_def)
  with get_hdr_fno [OF hdr] hdr last win show ?thesis
    by (auto simp: scom_tl_proc_data_ok_res_def Let_def)
qed

section \<open>Properties\<close>

text \<open>
  The image server: while an image is served, a request for \<open>fcnt\<close> frames from an
  existing frame \<open>fno\<close> on is answered with exactly those frames that exist, each with its
  type (single, start, middle, last), its number and its 242-byte slice, and the state is
  left as it was.
\<close>

theorem server_answers_request:
  assumes "serving img s" and "scom_tl_tx_fun s" and "unat fno \<le> image_last img"
  shows "scom_tl_proc_data_req (data_req_msg fno fcnt post) s = Some (0, s,
    map (\<lambda>i. Tx (tl_frame SCOM_TL_DATA_OK_RES (server_ftype (image_last img) i) (word_of_nat i)
                   (take 242 (drop (i * 242) img))))
      [unat fno..<min (unat fno + unat fcnt) (Suc (image_last img))])"
proof -
  have "concat (map (\<lambda>i. transmit s (image_frame img i)) is) =
      map (\<lambda>i. Tx (tl_frame SCOM_TL_DATA_OK_RES (server_ftype (image_last img) i) (word_of_nat i)
                   (take 242 (drop (i * 242) img)))) is" for "is"
    using assms(2) by (induction "is")
      (simp_all add: transmit_def image_frame_def image_slice_def SCOM_TL_FRAME_LEN_def)
  with scom_tl_proc_data_req_serves [OF assms(1,3)] show ?thesis by simp
qed

text \<open>A server of a small image, for the witnesses.\<close>

definition demo_image :: "byte list" where
  "demo_image = replicate 300 7"

definition demo_server :: scom_tl where
  "demo_server = \<lparr>scom_tl_status = SCOM_TL_STATE_SERVER_STARTED,
     scom_tl_tx_rb = \<lparr>rb_buffer = demo_image @ replicate 523988 0, rb_size = SCOM_TL_TX_SIZE,
                      rb_in_pos = 300, rb_out_pos = 0\<rparr>,
     scom_tl_rx_rb = \<lparr>rb_buffer = replicate 2048 0, rb_size = SCOM_TL_RX_SIZE,
                      rb_in_pos = 0, rb_out_pos = 0\<rparr>,
     scom_tl_rx_data_ctl = rx_ctl_init, scom_tl_tx_fun = True,
     scom_tl_proc_fun = replicate SCOM_TL_CHN_NUM False, scom_tl_get_time = 50\<rparr>"

lemma demo_server_wf: "scom_wf demo_server"
  by (simp add: demo_server_def demo_image_def scom_wf_def rb_wf_def is_power_of_2_def
    rb_used_len_def SCOM_TL_TX_SIZE_def SCOM_TL_RX_SIZE_def)

lemma demo_serving: "serving demo_image demo_server"
proof -
  have "rb_contents (scom_tl_tx_rb demo_server) = demo_image"
    by (simp add: demo_server_def rb_contents_def rb_used_len_def ring_read_linear demo_image_def)
  moreover have "demo_image \<noteq> []" by (simp add: demo_image_def)
  ultimately show ?thesis
    using demo_server_wf by (simp add: serving_iff) (simp add: demo_server_def)
qed

lemma demo_tx: "scom_tl_tx_fun demo_server"
  by (simp add: demo_server_def)

lemma demo_last: "image_last demo_image = 1"
  by (simp add: image_last_def demo_image_def SCOM_TL_FRAME_LEN_def)

theorem server_answers_request_witness:
  "scom_tl_proc_data_req (data_req_msg 1 5 []) demo_server = Some (0, demo_server,
     [Tx (tl_frame SCOM_TL_DATA_OK_RES SCOM_TL_LAST_FRAME 1 (replicate 58 7))])"
  using server_answers_request [OF demo_serving, of 1 5 "[]"]
  by (simp add: demo_last server_ftype_def) (simp add: demo_server_def demo_image_def)

text \<open>
  \<^bold>\<open>C1\<close>. Image transfer from end to end: the bytes a server sends when all its frames are
  asked for, cut into reads in any way, decode on the other side to messages whose data
  parts, in order, are the image, byte for byte, whatever bytes it holds.
\<close>

theorem image_transfer:
  assumes "serving img s" and "scom_tl_tx_fun s"
    and "\<forall>c\<in>set chunks. length c \<le> 1024" and "length buf = 4096"
    and "concat chunks = concat (map (image_frame img) [0..<Suc (image_last img)])"
  shows "scom_tl_proc_data_req (data_req_msg 0 65535 post) s =
      Some (0, s, map (\<lambda>i. Tx (image_frame img i)) [0..<Suc (image_last img)])
    \<and> (\<exists>msgs d. dec_run (dec_init buf) chunks = Some (msgs, d)
        \<and> map get_hdr msgs = map (\<lambda>i. Some \<lparr>hdr_msg_type = SCOM_TL_DATA_OK_RES,
              hdr_ftype = server_ftype (image_last img) i, hdr_fno = word_of_nat i,
              hdr_flen = word_of_nat (length (image_slice img i))\<rparr>) [0..<Suc (image_last img)]
        \<and> concat (map (drop SCOM_TL_HDR_SIZE) msgs) = img)"
proof -
  let ?is = "[0..<Suc (image_last img)]"
  define msg where "msg i = put_hdr \<lparr>hdr_msg_type = SCOM_TL_DATA_OK_RES,
      hdr_ftype = server_ftype (image_last img) i, hdr_fno = word_of_nat i,
      hdr_flen = word_of_nat (length (image_slice img i))\<rparr> @ image_slice img i" for i
  have frame: "image_frame img i = frame (msg i)" for i
    by (simp add: image_frame_def tl_frame_def msg_def)
  have len: "length (frame (msg i)) \<le> 500" for i
    using length_image_frame [of img i] by (simp add: frame)
  have "\<exists>d. dec_run (dec_init buf) chunks = Some (map msg ?is, d)"
  proof -
    have "concat chunks = concat (map frame (map msg ?is))"
      unfolding assms(5) map_map comp_def frame ..
    moreover have "\<forall>m\<in>set (map msg ?is). length (frame m) \<le> 500" using len by simp
    ultimately show ?thesis
      using dec_run_frames [of "map msg ?is" 500 chunks 1024 buf] assms(3,4)
      by (auto simp: LONG_BUFFER_def simp del: upt_Suc map_map)
  qed
  moreover have "map get_hdr (map msg ?is) = map (\<lambda>i. Some \<lparr>hdr_msg_type = SCOM_TL_DATA_OK_RES,
              hdr_ftype = server_ftype (image_last img) i, hdr_fno = word_of_nat i,
              hdr_flen = word_of_nat (length (image_slice img i))\<rparr>) ?is"
    unfolding msg_def by (simp only: map_map comp_def get_put_hdr)
  moreover have "concat (map (drop SCOM_TL_HDR_SIZE) (map msg ?is)) = img"
  proof -
    have "map (drop SCOM_TL_HDR_SIZE) (map msg ?is) = map (image_slice img) ?is"
      unfolding map_map by (rule map_cong) (simp_all add: msg_def SCOM_TL_HDR_SIZE_def)
    then show ?thesis using image_slices [of img] by metis
  qed
  moreover have "Suc (image_last img) \<le> 65535"
    using serving_length(1) [OF assms(1)] by (simp add: image_last_def SCOM_TL_FRAME_LEN_def)
  then have "scom_tl_proc_data_req (data_req_msg 0 65535 post) s =
      Some (0, s, map (\<lambda>i. Tx (image_frame img i)) ?is)"
    using scom_tl_proc_data_req_serves [OF assms(1), of 0 65535 post] assms(2)
    by (simp add: transmit_def concat_map_singleton min_def del: upt_Suc)
  ultimately show ?thesis by blast
qed

theorem image_transfer_witness:
  "\<exists>msgs d. dec_run (dec_init (replicate 4096 0)) [image_frame demo_image 0, image_frame demo_image 1] = Some (msgs, d)
     \<and> concat (map (drop SCOM_TL_HDR_SIZE) msgs) = demo_image"
proof -
  have "length (image_frame demo_image i) \<le> 1024" for i
    using length_image_frame [of demo_image i] by simp
  then show ?thesis
    using image_transfer [OF demo_serving demo_tx,
      of "[image_frame demo_image 0, image_frame demo_image 1]" "replicate 4096 0" "[]"]
    by (simp add: demo_last del: dec_run.simps) blast
qed

text \<open>
  Every reachable state of the transport layer is well formed (both rings, the
  transmit ring read from position 0, the ten channels), and in it every message that carries
  the bytes its header announces, every timeout and every read into a buffer of its size is
  processed without leaving a buffer. A peer message leaves the image being served alone.
\<close>

theorem scom_reachable_safe:
  assumes "scom_reach s"
  shows "scom_wf s
    \<and> (\<forall>msg len. msg_complete msg \<longrightarrow> (\<exists>s' eff. scom_step s (Peer msg len) eff s'
          \<and> (\<forall>img. serving img s \<longrightarrow> serving img s')))
    \<and> (\<exists>s' eff. scom_step s ResendTimeout eff s')
    \<and> (\<forall>buffer len. unat len \<le> length buffer \<longrightarrow> (\<exists>s' eff. scom_step s (GetData buffer len) eff s'))"
proof -
  have wf: "scom_wf s" by (rule scom_reach_wf [OF assms])
  have "\<exists>s' eff. scom_step s (Peer msg len) eff s' \<and> (\<forall>img. serving img s \<longrightarrow> serving img s')"
    if "msg_complete msg" for msg len
  proof -
    from msg_proc_keeps [OF wf that, of len] obtain s' eff where
      run: "scom_tl_msg_proc msg len s = Some ((), s', eff)" "scom_wf s'" "keeps_tx s s'"
      by (auto simp: runs_keeping_tx_def)
    from run wf have "\<forall>img. serving img s \<longrightarrow> serving img s'"
      by (auto simp: serving_iff keeps_tx_def)
    with run that show ?thesis by (blast intro: scom_step.peer)
  qed
  moreover have "\<exists>s' eff. scom_step s ResendTimeout eff s'"
    using timeout_keeps [OF wf] by (auto simp: runs_keeping_tx_def intro: scom_step.timeout)
  moreover have "\<exists>s' eff. scom_step s (GetData buffer len) eff s'" if "unat len \<le> length buffer" for buffer len
    using get_data_wf [OF wf that] that by (auto intro: scom_step.get_data)
  ultimately show ?thesis using wf by blast
qed

theorem scom_reachable_safe_witness:
  "\<exists>s' eff. scom_step (scom_tl_init_inside demo_server) ResendTimeout eff s'"
  using scom_reachable_safe [OF scom_reach.init [of demo_server]] by blast

text \<open>
  The connection: in a state that is not connected the resend timer sends the connect
  request again and restarts itself; a connect request or response from the peer connects;
  and no event of any kind ever leaves the connected states again.
\<close>

theorem scom_connection:
  "(scom_tl_status s \<in> {SCOM_TL_STATE_DISCONNECTED, SCOM_TL_STATE_CONNECTING} \<longrightarrow>
      scom_tl_timeout_proc s = Some ((), s\<lparr>scom_tl_status := SCOM_TL_STATE_CONNECTING\<rparr>,
        transmit s (tl_frame SCOM_TL_CMD_CON_REQ SCOM_TL_SINGLE_FRAME 0 []) @ [ResendStart 1000])
      \<and> (\<exists>s' eff. scom_tl_proc_con_req s = Some ((), s', eff) \<and> scom_tl_status s' = SCOM_TL_STATE_IDLE)
      \<and> (\<exists>s' eff. scom_tl_proc_con_res s = Some ((), s', ResendStop # eff) \<and> scom_tl_status s' = SCOM_TL_STATE_IDLE))
    \<and> (2 \<le> scom_state_no (scom_tl_status s) \<longrightarrow>
      (\<forall>e eff s'. scom_step s e eff s' \<longrightarrow> 2 \<le> scom_state_no (scom_tl_status s')))"
  by (auto simp: scom_tl_timeout_proc_def send_con_req_result proc_con_req_result proc_con_res_result
    dest: scom_step_connected)

theorem scom_connection_witness:
  "scom_tl_timeout_proc (demo_server\<lparr>scom_tl_status := SCOM_TL_STATE_DISCONNECTED\<rparr>) \<noteq> None
   \<and> 2 \<le> scom_state_no (scom_tl_status (scom_tl_stop_client demo_server))"
  using scom_connection [of "demo_server\<lparr>scom_tl_status := SCOM_TL_STATE_DISCONNECTED\<rparr>"]
    scom_connection [of demo_server] scom_step.stop_client [of demo_server]
  by (auto simp: demo_server_def)

text \<open>
  A download does not get past its first window. A client that has asked for \<open>fcnt\<close>
  frames from \<open>fno\<close> on is sent those frames by a server (\<open>server_answers_request\<close>); none of
  them makes it ask for more, because it waits for frame \<open>fno + fcnt\<close>, which it has not asked
  for.
\<close>

theorem download_window_stalls:
  assumes "scom_wf client" and "req_fno (scom_tl_rx_data_ctl client) = ucast fno"
    and "req_fcnt (scom_tl_rx_data_ctl client) = ucast fcnt"
    and "i \<in> set [unat fno..<min (unat (fno :: u16) + unat (fcnt :: u16)) (image_last img)]" and "image_last img < 65536"
  shows "\<exists>client'. scom_tl_proc_data_ok_res
    (data_msg (server_ftype (image_last img) i) (word_of_nat i) (image_slice img i) post) client =
      Some ((), client', [])"
proof (rule data_ok_res_inside_window [OF assms(1)])
  show "length (image_slice img i) < 65536"
    by (simp add: length_image_slice SCOM_TL_FRAME_LEN_def min_def)
  show "server_ftype (image_last img) i \<noteq> SCOM_TL_LAST_FRAME"
    using assms(4) by (auto simp: server_ftype_def scom_const_defs)
  have "unat (ucast (word_of_nat i :: u16) :: u32) = i"
    using assms(4,5) by (simp add: unsigned_ucast_eq unat_of_nat take_bit_nat_eq_self)
  moreover have "unat (ucast fno + ucast fcnt :: u32) = unat fno + unat fcnt"
    using unat_u16_less [of fno] unat_u16_less [of fcnt]
    by (simp add: unat_word_ariths unsigned_ucast_eq take_bit_nat_eq_self)
  ultimately show "ucast (word_of_nat i :: u16) \<noteq>
      req_fno (scom_tl_rx_data_ctl client) + req_fcnt (scom_tl_rx_data_ctl client)"
    using assms(2-4) by auto
qed

text \<open>The five frames of the first window of a 2000-byte image, received one after the other.\<close>

definition demo_client :: scom_tl where
  "demo_client = demo_server\<lparr>scom_tl_status := SCOM_TL_STATE_CLIENT_STARTED,
     scom_tl_rx_data_ctl := rx_ctl_init\<lparr>req_fno := 0, req_fcnt := 5\<rparr>\<rparr>"

theorem download_window_stalls_witness:
  "\<exists>client'. scom_tl_proc_data_ok_res
    (data_msg SCOM_TL_MIDDLE_FRAME 4 (replicate 242 1) []) (demo_client\<lparr>scom_tl_rx_data_ctl :=
       (scom_tl_rx_data_ctl demo_client)\<lparr>rx_fno := 3\<rparr>\<rparr>) = Some ((), client', [])"
proof -
  let ?c = "demo_client\<lparr>scom_tl_rx_data_ctl := (scom_tl_rx_data_ctl demo_client)\<lparr>rx_fno := 3\<rparr>\<rparr>"
  have "scom_wf ?c" using demo_server_wf by (simp add: demo_client_def scom_wf_def)
  moreover have "image_last (replicate 2000 1) = 8"
    by (simp add: image_last_def SCOM_TL_FRAME_LEN_def)
  moreover have "image_slice (replicate 2000 1) 4 = replicate 242 1"
    by (simp add: image_slice_def SCOM_TL_FRAME_LEN_def)
  ultimately show ?thesis
    using download_window_stalls [of ?c 0 5 4 "replicate 2000 1" "[]"]
    by (simp add: demo_client_def server_ftype_def rx_ctl_init_def)
qed

end
