(* ===== verification/UdsCore.thy ===== *)
theory UdsCore
  imports ScomTl
begin

text \<open>
  The core of the diagnostic protocol module \<open>app/base/uds\<close>: \<open>uds_define.h\<close>, the timers of
  \<open>uds_timer.c\<close>, the requests and responses of \<open>uds_request.c\<close>, and the static variables of the
  whole module.

  The globals and statics of the module's files are the record \<open>uds_state\<close>; what the module does
  to the outside is appended to its field \<open>uds_out\<close> in the order the code does it: the effects of
  the SPI transport layer, kernel timers started and deleted, the client callback, events to the
  power manager, records saved. A function that returns \<^const>\<open>None\<close> has undefined behaviour.

  Some replies are built in an array of one or two bytes whose third byte the code reads
  afterwards. That read is given the field \<open>stack_byte\<close>, which is arbitrary, and leaves an
  \<open>Overread\<close> in \<open>uds_out\<close>.
\<close>

definition UDS_TYPE_CLIENT :: byte where "UDS_TYPE_CLIENT = 1"
definition UDS_TYPE_SERVER :: byte where "UDS_TYPE_SERVER = 2"
definition UDS_SERVER_MAX_BYTE :: nat where "UDS_SERVER_MAX_BYTE = 4096"

definition SESSION_TYPE_DEFAULT :: byte where "SESSION_TYPE_DEFAULT = 1"
definition SESSION_TYPE_PROGRAM :: byte where "SESSION_TYPE_PROGRAM = 2"
definition SESSION_TYPE_EXTENDED :: byte where "SESSION_TYPE_EXTENDED = 3"

definition SecurityAccess_LEVEL0 :: byte where "SecurityAccess_LEVEL0 = 0"
definition SecurityAccess_LEVEL1 :: byte where "SecurityAccess_LEVEL1 = 1"
definition SecurityAccess_LEVEL2 :: byte where "SecurityAccess_LEVEL2 = 2"

definition POS_RESPOND_SID_MASK :: byte where "POS_RESPOND_SID_MASK = 0x40"
definition SID_TestPresent :: byte where "SID_TestPresent = 0x3E"
definition SID_NegativeResponse :: byte where "SID_NegativeResponse = 0x7F"
definition suppressPosRspMsgIndicationBit :: byte where "suppressPosRspMsgIndicationBit = 0x80"
definition suppressPosRspMsgIndicationBitMask :: byte where "suppressPosRspMsgIndicationBitMask = 0x7F"

definition NRC_ServiceNotSupported :: byte where "NRC_ServiceNotSupported = 0x11"
definition NRC_SubFuncationNotSupported :: byte where "NRC_SubFuncationNotSupported = 0x12"
definition NRC_IncorrectMessageLengthOrInvailFormat :: byte where
  "NRC_IncorrectMessageLengthOrInvailFormat = 0x13"
definition NRC_ConditionsNotCorrect :: byte where "NRC_ConditionsNotCorrect = 0x22"
definition NRC_RequstSequenceError :: byte where "NRC_RequstSequenceError = 0x24"
definition NRC_RequestOutOfRange :: byte where "NRC_RequestOutOfRange = 0x31"
definition NRC_SecurityAccessDenied :: byte where "NRC_SecurityAccessDenied = 0x33"
definition NRC_InvalidKey :: byte where "NRC_InvalidKey = 0x35"
definition NRC_ExceedNumberOfAttempts :: byte where "NRC_ExceedNumberOfAttempts = 0x36"
definition NRC_RequiredTimeDelayNotExpired :: byte where "NRC_RequiredTimeDelayNotExpired = 0x37"
definition NRC_GeneralProgrammingFailure :: byte where "NRC_GeneralProgrammingFailure = 0x72"
definition NRC_RequestCorrectlyReceivedResponsePending :: byte where
  "NRC_RequestCorrectlyReceivedResponsePending = 0x78"
definition NRC_ServiceNotSupportedInActiveSession :: byte where
  "NRC_ServiceNotSupportedInActiveSession = 0x7F"

lemmas uds_const_defs = UDS_TYPE_CLIENT_def UDS_TYPE_SERVER_def UDS_SERVER_MAX_BYTE_def
  SESSION_TYPE_DEFAULT_def SESSION_TYPE_PROGRAM_def SESSION_TYPE_EXTENDED_def
  SecurityAccess_LEVEL0_def SecurityAccess_LEVEL1_def SecurityAccess_LEVEL2_def
  POS_RESPOND_SID_MASK_def SID_TestPresent_def SID_NegativeResponse_def
  suppressPosRspMsgIndicationBit_def suppressPosRspMsgIndicationBitMask_def

lemmas nrc_defs = NRC_ServiceNotSupported_def NRC_SubFuncationNotSupported_def
  NRC_IncorrectMessageLengthOrInvailFormat_def NRC_ConditionsNotCorrect_def
  NRC_RequstSequenceError_def NRC_RequestOutOfRange_def NRC_SecurityAccessDenied_def
  NRC_InvalidKey_def NRC_ExceedNumberOfAttempts_def NRC_RequiredTimeDelayNotExpired_def
  NRC_GeneralProgrammingFailure_def NRC_RequestCorrectlyReceivedResponsePending_def
  NRC_ServiceNotSupportedInActiveSession_def

text \<open>The timers, in the order of the enumeration \<open>UDS_TIMER_E\<close>.\<close>

datatype UDS_TIMER_E =
  P2SERVER | P2CLINT | P2EXT_SERVER | P2EXT_CLIENT | S3SERVER | S3CLIENT | SERVER_SET | CLIENT_SET

fun timer_no :: "UDS_TIMER_E \<Rightarrow> nat" where
  "timer_no P2SERVER = 0"
| "timer_no P2CLINT = 1"
| "timer_no P2EXT_SERVER = 2"
| "timer_no P2EXT_CLIENT = 3"
| "timer_no S3SERVER = 4"
| "timer_no S3CLIENT = 5"
| "timer_no SERVER_SET = 6"
| "timer_no CLIENT_SET = 7"

definition MSG_ID_UDS_SET_S :: byte where "MSG_ID_UDS_SET_S = 0xF1"
definition MSG_ID_UDS_SET_C :: byte where "MSG_ID_UDS_SET_C = 0xF2"
definition MSG_ID_UDS_REQ :: byte where "MSG_ID_UDS_REQ = 0xF3"
definition MSG_ID_UDS_IND :: byte where "MSG_ID_UDS_IND = 0xF4"
definition MSG_ID_UDS_CFM :: byte where "MSG_ID_UDS_CFM = 0xF5"
definition MSG_ID_UDS_S_ACK :: byte where "MSG_ID_UDS_S_ACK = 0xF7"
definition MSG_ID_UDS_C_ACK :: byte where "MSG_ID_UDS_C_ACK = 0xF8"
definition SCOM_TL_CMD_UDS_MSG :: byte where "SCOM_TL_CMD_UDS_MSG = 0x70"

lemmas msg_id_defs = MSG_ID_UDS_SET_S_def MSG_ID_UDS_SET_C_def MSG_ID_UDS_REQ_def
  MSG_ID_UDS_IND_def MSG_ID_UDS_CFM_def MSG_ID_UDS_S_ACK_def MSG_ID_UDS_C_ACK_def
  SCOM_TL_CMD_UDS_MSG_def

section \<open>State\<close>

text \<open>\<open>tm_live\<close> says that \<open>tm\<close> holds a kernel timer, that is, differs from -1.\<close>

record uds_timer_t =
  tm_live :: bool
  tm_idx :: u16
  tm_seq :: u16

record UDS_TIMER_T =
  timer_fd :: uds_timer_t
  timer_switch :: byte
  timer_value :: u32

record UDS_T =
  u_mode :: byte
  u_canport :: byte
  u_sid :: byte
  u_nrc :: byte
  u_can_id_phy :: u32
  u_can_id_fun :: u32
  u_can_id_req :: u32
  u_can_id_res :: u32
  u_timer_t :: "UDS_TIMER_T list"

record TRANSFERDATACOFIG =
  ProgrammemoryAddress :: u32
  ProgrammemorySize :: u32
  ErasememoryAddress :: u32
  ErasememorySize :: u32
  blockSequenceCounter :: byte
  TransferStatus :: nat
  transfer_data :: "byte list"
  datasize :: u32

datatype uds_effect =
  Spi "scom_effect list"
| TimerDelete nat
| TimerStart nat u16 int
| Overread
| ClientCb int u32 "byte list"
| PmRestart4G
| PmRestartApp
| RdsUpdate "byte list"
| TuKeyRequest
| DidSet u16 "byte list"
| CfgSetPower byte
| J1939Timeout u32
| PwdgFeed

text \<open>
  The prefixes \<open>sa\<close>, \<open>comm\<close> and \<open>rbi\<close> mark the statics of \<open>UDS_SRV_SecrityAcess\<close>,
  \<open>UDS_SRV_CommunicationControl\<close> and \<open>UDS_SRV_ReadDataByID\<close>; its statics \<open>key1\<close> and \<open>key2\<close> are
  always written before they are read and are local in the model. \<open>diag_counter\<close>, \<open>diag_offset\<close>
  and \<open>diag_len\<close> are the members of \<open>diag_table\<close> that change; \<open>diag_offset\<close> also stands for the
  pointer \<open>confirmed\<close>, which \<open>uds_diag_init\<close> sets to that offset of \<open>uds_diag_item_buf\<close>.
\<close>

record uds_state =
  uds_server :: UDS_T
  uds_client :: UDS_T
  g_u8CurrentSessionType :: byte
  g_u8SecurityAccess :: byte
  g_u8suppressFlag :: byte
  g_u32DiagID :: u32
  uds_client_cb :: bool
  uds_hold_mode :: int
  DTCSwitch :: byte
  g_TxFlag :: byte
  g_RxFlag :: byte
  comm_i :: byte
  sa_flag :: byte
  sa_counter :: byte
  SecrityAccessFailCounter :: u32
  sa_time :: u32
  sa_seed :: u32
  sa_attempt :: u32
  sa_current_time :: u32
  TransferDataConfig :: TRANSFERDATACOFIG
  erasememoryflag :: u32
  tu_key_check_flag_finish :: byte
  diag_counter :: "u32 list"
  diag_offset :: "nat list"
  diag_len :: "nat list"
  uds_diag_item_buf :: "byte list"
  rbi_buf :: "byte list"
  DTC_index :: "u32 list"
  uds_msgbuf :: "byte list"
  uds_is_ready_sleep :: byte
  uds_scom :: scom_tl
  stack_byte :: byte
  uds_out :: "uds_effect list"

definition emit :: "uds_effect \<Rightarrow> uds_state \<Rightarrow> uds_state" where
  "emit e s = s\<lparr>uds_out := uds_out s @ [e]\<rparr>"

text \<open>The pointer \<open>UDS_T *uds\<close> of the code points to one of two objects.\<close>

datatype uds_ptr = Server | Client

fun uds_get :: "uds_ptr \<Rightarrow> uds_state \<Rightarrow> UDS_T" where
  "uds_get Server s = uds_server s"
| "uds_get Client s = uds_client s"

fun uds_upd :: "uds_ptr \<Rightarrow> (UDS_T \<Rightarrow> UDS_T) \<Rightarrow> uds_state \<Rightarrow> uds_state" where
  "uds_upd Server f s = s\<lparr>uds_server := f (uds_server s)\<rparr>"
| "uds_upd Client f s = s\<lparr>uds_client := f (uds_client s)\<rparr>"

text \<open>
  The variables before the module is initialised. \<open>scom\<close> is the state of the transport layer and
  \<open>b\<close> the arbitrary byte of \<open>stack_byte\<close>.
\<close>

definition zero_timer :: UDS_TIMER_T where
  "zero_timer = \<lparr>timer_fd = \<lparr>tm_live = True, tm_idx = 0, tm_seq = 0\<rparr>, timer_switch = 0, timer_value = 0\<rparr>"

definition zero_uds_t :: UDS_T where
  "zero_uds_t = \<lparr>u_mode = 0, u_canport = 0, u_sid = 0, u_nrc = 0, u_can_id_phy = 0, u_can_id_fun = 0,
     u_can_id_req = 0, u_can_id_res = 0, u_timer_t = replicate 8 zero_timer\<rparr>"

definition zero_transfer :: TRANSFERDATACOFIG where
  "zero_transfer = \<lparr>ProgrammemoryAddress = 0, ProgrammemorySize = 0, ErasememoryAddress = 0,
     ErasememorySize = 0, blockSequenceCounter = 0, TransferStatus = 0,
     transfer_data = replicate (80 * 1024) 0, datasize = 0\<rparr>"

definition uds_statics :: "scom_tl \<Rightarrow> byte \<Rightarrow> uds_state" where
  "uds_statics scom b = \<lparr>uds_server = zero_uds_t, uds_client = zero_uds_t,
     g_u8CurrentSessionType = SESSION_TYPE_DEFAULT, g_u8SecurityAccess = SecurityAccess_LEVEL0,
     g_u8suppressFlag = 0, g_u32DiagID = 0, uds_client_cb = False, uds_hold_mode = 0,
     DTCSwitch = 1, g_TxFlag = 1, g_RxFlag = 1, comm_i = 0,
     sa_flag = 0, sa_counter = 0, SecrityAccessFailCounter = 0, sa_time = 0, sa_seed = 0,
     sa_attempt = 0, sa_current_time = 0, TransferDataConfig = zero_transfer,
     erasememoryflag = 0, tu_key_check_flag_finish = 0,
     diag_counter = replicate 17 0, diag_offset = replicate 17 0, diag_len = replicate 17 0,
     uds_diag_item_buf = replicate 1024 0, rbi_buf = replicate 2000 0, DTC_index = replicate 17 0,
     uds_msgbuf = replicate 2048 0, uds_is_ready_sleep = 1,
     uds_scom = scom, stack_byte = b, uds_out = []\<rparr>"

section \<open>Timers\<close>

definition next_seq :: "u16 \<Rightarrow> u16" where
  "next_seq q = (if q + 1 = 0 then 1 else q + 1)"

text \<open>
  \<open>uds_timer_create\<close> and \<open>uds_timer_settime\<close>. Creating the kernel timer is taken to succeed; the
  callers ignore the result. The value the timer carries is \<open>idx | seq << 16\<close>.
\<close>

definition uds_timer_create :: "nat \<Rightarrow> uds_timer_t" where
  "uds_timer_create idx = \<lparr>tm_live = False, tm_idx = word_of_nat idx, tm_seq = 0\<rparr>"

definition uds_timer_settime :: "uds_timer_t \<Rightarrow> int \<Rightarrow> uds_timer_t \<times> uds_effect list" where
  "uds_timer_settime tm time =
     (let del = (if tm_live tm then [TimerDelete (unat (tm_idx tm))] else []);
          tm' = tm\<lparr>tm_live := False, tm_seq := next_seq (tm_seq tm)\<rparr>
      in if 0 < time then (tm'\<lparr>tm_live := True\<rparr>, del @ [TimerStart (unat (tm_idx tm')) (tm_seq tm') time])
         else (tm', del))"

definition uds_set_timer :: "uds_ptr \<Rightarrow> UDS_TIMER_E \<Rightarrow> byte \<Rightarrow> uds_state \<Rightarrow> uds_state" where
  "uds_set_timer uds name switch_value s =
     (let t = u_timer_t (uds_get uds s) ! timer_no name;
          (fd, eff) = uds_timer_settime (timer_fd t) (if switch_value = 1 then sint (timer_value t) else 0);
          t' = t\<lparr>timer_switch := switch_value, timer_fd := fd\<rparr>
      in (uds_upd uds (\<lambda>u. u\<lparr>u_timer_t := (u_timer_t u)[timer_no name := t']\<rparr>) s)
           \<lparr>uds_out := uds_out s @ eff\<rparr>)"

text \<open>What the expiry of a kernel timer sends to the module's own thread: the timer and its number.\<close>

definition uds_timer_notify :: "u32 \<Rightarrow> u16 \<times> u16" where
  "uds_timer_notify sival = (ucast (sival AND 0xffff), ucast (drop_bit 16 sival))"

section \<open>Requests and responses\<close>

definition uds_data_request ::
  "uds_ptr \<Rightarrow> byte \<Rightarrow> u32 \<Rightarrow> byte list \<Rightarrow> u16 \<Rightarrow> uds_state \<Rightarrow> (int \<times> uds_state) option"
where
  "uds_data_request uds msg_id can_id pdu_data pdu_dlc s = do {
     let m = u_mode (uds_get uds s);
     let hdr = (if msg_id \<noteq> MSG_ID_UDS_SET_S \<and> msg_id \<noteq> MSG_ID_UDS_SET_C
                then (if m = UDS_TYPE_SERVER then le32 can_id @ put_u16 pdu_dlc
                      else if m = UDS_TYPE_CLIENT then le32 can_id @ put_u16 pdu_dlc else [])
                else []);
     body \<leftarrow> subarray pdu_data 0 (unat pdu_dlc);
     let data = msg_id # hdr @ body;
     if UDS_SERVER_MAX_BYTE div 2 < length data then None
     else do {
       sid \<leftarrow> byte_at pdu_data 0;
       let s1 = uds_upd uds (\<lambda>u. u\<lparr>u_sid := sid, u_can_id_req := can_id\<rparr>) s;
       (ret, scom, eff) \<leftarrow> scom_tl_send_frame SCOM_TL_CMD_UDS_MSG SCOM_TL_SINGLE_FRAME 0 (Some data)
                            (uds_scom s1);
       Some (ret, emit (Spi eff) (s1\<lparr>uds_scom := scom\<rparr>)) } }"

text \<open>\<open>pdu_data[2]\<close>, which may lie behind a short array.\<close>

definition third_byte :: "byte list \<Rightarrow> uds_state \<Rightarrow> byte \<times> uds_state" where
  "third_byte pdu_data s =
     (if 2 < length pdu_data then (pdu_data ! 2, s) else (stack_byte s, emit Overread s))"

definition uds_positive_response ::
  "uds_ptr \<Rightarrow> u32 \<Rightarrow> u16 \<Rightarrow> byte list \<Rightarrow> uds_state \<Rightarrow> (int \<times> uds_state) option"
where
  "uds_positive_response uds can_id pdu_dlc pdu_data s =
     (if u_mode (uds_get uds s) = UDS_TYPE_SERVER then
        (if unat pdu_dlc \<le> UDS_SERVER_MAX_BYTE then do {
           b0 \<leftarrow> byte_at pdu_data 0;
           if b0 \<noteq> SID_NegativeResponse \<and> g_u8suppressFlag s = 1
           then Some (0, s\<lparr>g_u8suppressFlag := 0\<rparr>)
           else do {
             let (drop_it, s1) =
               (if g_u32DiagID s = u_can_id_phy (uds_get uds s) \<and> b0 = SID_NegativeResponse
                then (let (b2, s') = third_byte pdu_data s
                      in (b2 \<in> {NRC_ServiceNotSupported, NRC_SubFuncationNotSupported,
                                NRC_RequestOutOfRange}, s'))
                else (False, s));
             if drop_it then Some (0, s1\<lparr>g_u8suppressFlag := 0\<rparr>)
             else do {
               (ret, s2) \<leftarrow> uds_data_request uds MSG_ID_UDS_REQ can_id pdu_data pdu_dlc s1;
               if ret = 0 then do {
                 let (b2, s3) = third_byte pdu_data s2;
                 let s4 = uds_upd uds (\<lambda>u. u\<lparr>u_sid := b0, u_nrc := b2\<rparr>) s3;
                 let s5 = (if b2 = NRC_RequestCorrectlyReceivedResponsePending
                           then uds_set_timer uds P2EXT_SERVER 1 s4 else s4);
                 Some (ret, s5\<lparr>g_u8suppressFlag := 0\<rparr>) }
               else Some (ret, s2\<lparr>g_u8suppressFlag := 0\<rparr>) } } }
         else Some (0, s))
      else Some (0, s))"

definition uds_negative_response ::
  "uds_ptr \<Rightarrow> byte \<Rightarrow> byte \<Rightarrow> uds_state \<Rightarrow> (int \<times> uds_state) option"
where
  "uds_negative_response uds srv_id nrc s =
     uds_positive_response uds (u_can_id_res (uds_get uds s)) 3 [SID_NegativeResponse, srv_id, nrc] s"

text \<open>The callers that ignore the result.\<close>

definition neg :: "byte \<Rightarrow> byte \<Rightarrow> uds_state \<Rightarrow> uds_state option" where
  "neg srv_id nrc s = map_option snd (uds_negative_response Server srv_id nrc s)"

definition pos :: "byte list \<Rightarrow> u16 \<Rightarrow> uds_state \<Rightarrow> uds_state option" where
  "pos pdu_data dlc s =
     map_option snd (uds_positive_response Server (u_can_id_res (uds_server s)) dlc pdu_data s)"

text \<open>
  A positive response built in a local array of \<open>n\<close> bytes of which the code fills the first.
\<close>

definition stack_array :: "nat \<Rightarrow> byte list \<Rightarrow> uds_state \<Rightarrow> byte list option" where
  "stack_array n bytes s =
     (if length bytes \<le> n then Some (bytes @ replicate (n - length bytes) (stack_byte s)) else None)"

definition respond :: "nat \<Rightarrow> byte list \<Rightarrow> uds_state \<Rightarrow> uds_state option" where
  "respond n bytes s = do {
     arr \<leftarrow> stack_array n bytes s;
     pos arr (word_of_nat (length bytes)) s }"

definition set_suppress :: "byte \<Rightarrow> uds_state \<Rightarrow> uds_state" where
  "set_suppress sub s =
     (if sub AND suppressPosRspMsgIndicationBit \<noteq> 0 then s\<lparr>g_u8suppressFlag := 1\<rparr> else s)"

section \<open>What a response does\<close>

text \<open>The bytes given to the link among a list of effects.\<close>

fun spi_of :: "uds_effect list \<Rightarrow> scom_effect list" where
  "spi_of [] = []"
| "spi_of (Spi xs # es) = xs @ spi_of es"
| "spi_of (_ # es) = spi_of es"

definition uds_frame :: "u32 \<Rightarrow> byte list \<Rightarrow> byte list" where
  "uds_frame can_id pdu = tl_frame SCOM_TL_CMD_UDS_MSG SCOM_TL_SINGLE_FRAME 0
     (MSG_ID_UDS_REQ # le32 can_id @ put_u16 (word_of_nat (length pdu)) @ pdu)"

definition same_side :: "UDS_T \<Rightarrow> UDS_T \<Rightarrow> bool" where
  "same_side u u' \<longleftrightarrow> u_mode u' = u_mode u \<and> u_canport u' = u_canport u \<and>
     u_can_id_phy u' = u_can_id_phy u \<and> u_can_id_fun u' = u_can_id_fun u \<and>
     u_can_id_res u' = u_can_id_res u \<and>
     map timer_value (u_timer_t u') = map timer_value (u_timer_t u)"

text \<open>
  \<open>reply pdus s s'\<close>: between the two states exactly the diagnostic messages \<open>pdus\<close> were given to
  the link, and apart from that only the record of the last response, the timers and the
  suppress flag, now clear, may differ.
\<close>

definition reply :: "byte list list \<Rightarrow> uds_state \<Rightarrow> uds_state \<Rightarrow> bool" where
  "reply pdus s s' \<longleftrightarrow> (\<exists>u eff.
     s' = s\<lparr>uds_server := u, g_u8suppressFlag := 0, uds_out := uds_out s @ eff\<rparr> \<and>
     same_side (uds_server s) u \<and>
     spi_of eff = concat (map (\<lambda>p. transmit (uds_scom s) (uds_frame (u_can_id_res (uds_server s)) p)) pdus))"

definition uds_wf :: "uds_state \<Rightarrow> bool" where
  "uds_wf s \<longleftrightarrow> u_mode (uds_server s) = UDS_TYPE_SERVER \<and> u_can_id_phy (uds_server s) = 0x782 \<and>
     u_can_id_fun (uds_server s) = 0x7DF \<and> u_can_id_res (uds_server s) = 0x78A \<and>
     map timer_value (u_timer_t (uds_server s)) = [50, 0, 2000, 0, 5000, 0, 1000, 0] \<and>
     length (u_timer_t (uds_client s)) = 8 \<and> g_u32DiagID s = 0"

lemma spi_of_append [simp]: "spi_of (xs @ ys) = spi_of xs @ spi_of ys"
  by (induction xs rule: spi_of.induct) simp_all

lemma same_side_refl [simp]: "same_side u u"
  by (simp add: same_side_def)

lemma same_side_trans: "same_side u v \<Longrightarrow> same_side v w \<Longrightarrow> same_side u w"
  by (simp add: same_side_def)

lemma timer_no_less [simp]: "timer_no t < 8"
  by (cases t) simp_all

lemma spi_of_settime [simp]: "spi_of (snd (uds_timer_settime tm t)) = []"
  by (simp add: uds_timer_settime_def Let_def)

lemma uds_wf_timers: "uds_wf s \<Longrightarrow> length (u_timer_t (uds_server s)) = 8"
  by (auto simp: uds_wf_def dest: map_eq_imp_length_eq arg_cong [where f = length])

lemma uds_set_timer_server:
  "uds_set_timer Server name sw s = s\<lparr>
     uds_server := (uds_server s)\<lparr>u_timer_t := (u_timer_t (uds_server s))[timer_no name :=
        (u_timer_t (uds_server s) ! timer_no name)\<lparr>timer_switch := sw, timer_fd :=
          fst (uds_timer_settime (timer_fd (u_timer_t (uds_server s) ! timer_no name))
            (if sw = 1 then sint (timer_value (u_timer_t (uds_server s) ! timer_no name)) else 0))\<rparr>]\<rparr>,
     uds_out := uds_out s @ snd (uds_timer_settime (timer_fd (u_timer_t (uds_server s) ! timer_no name))
            (if sw = 1 then sint (timer_value (u_timer_t (uds_server s) ! timer_no name)) else 0))\<rparr>"
  by (simp add: uds_set_timer_def Let_def split: prod.splits)

lemma same_side_set_timer:
  "same_side u (u\<lparr>u_timer_t := (u_timer_t u)[i := (u_timer_t u ! i)\<lparr>timer_switch := sw, timer_fd := fd\<rparr>]\<rparr>)"
  by (cases "i < length (u_timer_t u)") (simp_all add: same_side_def map_update list_update_same_conv
    list_update_beyond)

lemma set_timer_reply:
  assumes "g_u8suppressFlag s = 0"
  shows "reply [] s (uds_set_timer Server name sw s)"
  unfolding reply_def uds_set_timer_server
  using assms by (intro exI [of _ "(uds_server s)\<lparr>u_timer_t := (u_timer_t (uds_server s))[timer_no name :=
        (u_timer_t (uds_server s) ! timer_no name)\<lparr>timer_switch := sw, timer_fd :=
          fst (uds_timer_settime (timer_fd (u_timer_t (uds_server s) ! timer_no name))
            (if sw = 1 then sint (timer_value (u_timer_t (uds_server s) ! timer_no name)) else 0))\<rparr>]\<rparr>"]
       exI [of _ "snd (uds_timer_settime (timer_fd (u_timer_t (uds_server s) ! timer_no name))
            (if sw = 1 then sint (timer_value (u_timer_t (uds_server s) ! timer_no name)) else 0))"])
     (simp add: same_side_set_timer)


lemma reply_trans [trans]:
  assumes "reply ps s t" and "reply qs t r"
  shows "reply (ps @ qs) s r"
proof -
  from assms(1) obtain u eff where t: "t = s\<lparr>uds_server := u, g_u8suppressFlag := 0, uds_out := uds_out s @ eff\<rparr>"
    and u: "same_side (uds_server s) u" and eff: "spi_of eff =
      concat (map (\<lambda>p. transmit (uds_scom s) (uds_frame (u_can_id_res (uds_server s)) p)) ps)"
    unfolding reply_def by auto
  from assms(2) obtain v eff' where r: "r = t\<lparr>uds_server := v, g_u8suppressFlag := 0, uds_out := uds_out t @ eff'\<rparr>"
    and v: "same_side (uds_server t) v" and eff': "spi_of eff' =
      concat (map (\<lambda>p. transmit (uds_scom t) (uds_frame (u_can_id_res (uds_server t)) p)) qs)"
    unfolding reply_def by auto
  have "same_side (uds_server s) v" using u v by (simp add: t same_side_trans)
  moreover have "u_can_id_res u = u_can_id_res (uds_server s)" using u by (simp add: same_side_def)
  ultimately show ?thesis
    unfolding reply_def
    by (intro exI [of _ v] exI [of _ "eff @ eff'"]) (use eff eff' in \<open>simp add: r t\<close>)
qed

lemma reply_wf: "reply ps s s' \<Longrightarrow> uds_wf s \<Longrightarrow> uds_wf s'"
  by (auto simp: reply_def uds_wf_def same_side_def)

lemma reply_fields:
  assumes "reply ps s s'"
  shows "g_u8CurrentSessionType s' = g_u8CurrentSessionType s" "g_u8SecurityAccess s' = g_u8SecurityAccess s"
    "g_u8suppressFlag s' = 0" "DTCSwitch s' = DTCSwitch s" "uds_scom s' = uds_scom s"
    "u_can_id_res (uds_server s') = u_can_id_res (uds_server s)"
    "sa_flag s' = sa_flag s" "sa_attempt s' = sa_attempt s" "sa_seed s' = sa_seed s"
    "SecrityAccessFailCounter s' = SecrityAccessFailCounter s"
    "diag_counter s' = diag_counter s" "uds_diag_item_buf s' = uds_diag_item_buf s"
    "length (DTC_index s') = length (DTC_index s)"
    "TransferDataConfig s' = TransferDataConfig s" "uds_client s' = uds_client s"
    "g_TxFlag s' = g_TxFlag s" "g_RxFlag s' = g_RxFlag s"
  using assms by (auto simp: reply_def same_side_def)

lemma data_request_sends:
  assumes "u_mode (uds_server s) = UDS_TYPE_SERVER" and "0 < unat dlc" and "unat dlc \<le> length arr"
    and "unat dlc \<le> 235"
  shows "uds_data_request Server MSG_ID_UDS_REQ can_id arr dlc s = Some (0,
     emit (Spi (transmit (uds_scom s) (uds_frame can_id (take (unat dlc) arr))))
       (s\<lparr>uds_server := (uds_server s)\<lparr>u_sid := arr ! 0, u_can_id_req := can_id\<rparr>\<rparr>))"
proof -
  have "0 < length arr" using assms by linarith
  then show ?thesis
    using assms
    by (simp add: uds_data_request_def Let_def msg_id_defs uds_const_defs scom_tl_send_frame_fits
        SCOM_TL_FRAME_LEN_def uds_frame_def)
qed

lemma server_reply:
  assumes wf: "uds_wf s" and dlc: "0 < unat dlc" "unat dlc \<le> length arr" "unat dlc \<le> 235"
    and "arr ! 0 = SID_NegativeResponse \<or> g_u8suppressFlag s \<noteq> 1"
  shows "\<exists>ret s'. uds_positive_response Server (u_can_id_res (uds_server s)) dlc arr s = Some (ret, s') \<and>
    reply [take (unat dlc) arr] s s'"
proof -
  have arr: "0 < length arr" using dlc by linarith
  have mode: "u_mode (uds_server s) = UDS_TYPE_SERVER" and id: "g_u32DiagID s \<noteq> u_can_id_phy (uds_server s)"
    using wf by (auto simp: uds_wf_def)
  define s2 where "s2 = emit (Spi (transmit (uds_scom s) (uds_frame (u_can_id_res (uds_server s)) (take (unat dlc) arr))))
       (s\<lparr>uds_server := (uds_server s)\<lparr>u_sid := arr ! 0, u_can_id_req := u_can_id_res (uds_server s)\<rparr>\<rparr>)"
  obtain b2 s3 where third: "third_byte arr s2 = (b2, s3)" by fastforce
  then have s3: "\<exists>eff. s3 = s2\<lparr>uds_out := uds_out s2 @ eff\<rparr> \<and> spi_of eff = []"
    by (auto simp: third_byte_def emit_def split: if_splits intro: exI [of _ "[]"] exI [of _ "[Overread]"])
  define s4 where "s4 = uds_upd Server (\<lambda>u. u\<lparr>u_sid := arr ! 0, u_nrc := b2\<rparr>) s3"
  define s5 where "s5 = (if b2 = NRC_RequestCorrectlyReceivedResponsePending
                         then uds_set_timer Server P2EXT_SERVER 1 s4 else s4)"
  have "uds_positive_response Server (u_can_id_res (uds_server s)) dlc arr s =
      Some (0, s5\<lparr>g_u8suppressFlag := 0\<rparr>)"
    using assms(5) dlc arr mode id third data_request_sends [OF mode dlc, of "u_can_id_res (uds_server s)"]
    by (auto simp: uds_positive_response_def Let_def UDS_SERVER_MAX_BYTE_def s2_def s4_def s5_def)
  moreover have "reply [take (unat dlc) arr] s (s4\<lparr>g_u8suppressFlag := 0\<rparr>)"
  proof -
    from s3 obtain eff where "s3 = s2\<lparr>uds_out := uds_out s2 @ eff\<rparr>" "spi_of eff = []" by auto
    then show ?thesis
      unfolding reply_def s4_def s2_def emit_def
      by (intro exI [of _ "(uds_server s)\<lparr>u_sid := arr ! 0, u_nrc := b2,
              u_can_id_req := u_can_id_res (uds_server s)\<rparr>"]
            exI [of _ "Spi (transmit (uds_scom s) (uds_frame (u_can_id_res (uds_server s)) (take (unat dlc) arr))) # eff"])
         (simp add: same_side_def)
  qed
  moreover have "reply [] (s4\<lparr>g_u8suppressFlag := 0\<rparr>) (s5\<lparr>g_u8suppressFlag := 0\<rparr>)"
  proof -
    have "reply [] (s4\<lparr>g_u8suppressFlag := 0\<rparr>) (uds_set_timer Server P2EXT_SERVER 1 (s4\<lparr>g_u8suppressFlag := 0\<rparr>))"
      by (rule set_timer_reply) simp
    moreover have "uds_set_timer Server P2EXT_SERVER 1 (s4\<lparr>g_u8suppressFlag := 0\<rparr>) =
        (uds_set_timer Server P2EXT_SERVER 1 s4)\<lparr>g_u8suppressFlag := 0\<rparr>"
      by (simp add: uds_set_timer_server)
    moreover have "reply [] r r" if "g_u8suppressFlag r = 0" for r :: uds_state
      unfolding reply_def using that by (intro exI [of _ "uds_server r"] exI [of _ "[]"]) simp
    ultimately show ?thesis by (simp add: s5_def)
  qed
  ultimately show ?thesis
    using reply_trans [of "[take (unat dlc) arr]" s _ "[]"] by fastforce
qed

lemma pos_reply:
  assumes "uds_wf s" "0 < unat dlc" "unat dlc \<le> length arr" "unat dlc \<le> 235" "g_u8suppressFlag s = 0"
  shows "\<exists>s'. pos arr dlc s = Some s' \<and> reply [take (unat dlc) arr] s s'"
  using server_reply [OF assms(1-4)] assms(5) by (auto simp: pos_def)

lemma neg_reply:
  assumes "uds_wf s"
  shows "\<exists>s'. neg srv nrc s = Some s' \<and> reply [[SID_NegativeResponse, srv, nrc]] s s'"
  using server_reply [OF assms, of 3 "[SID_NegativeResponse, srv, nrc]"]
  by (auto simp: neg_def uds_negative_response_def)

text \<open>A suppressed positive response only clears the flag.\<close>

lemma pos_suppressed:
  assumes "uds_wf s" "arr \<noteq> []" "unat dlc \<le> UDS_SERVER_MAX_BYTE" "arr ! 0 \<noteq> SID_NegativeResponse"
    "g_u8suppressFlag s = 1"
  shows "pos arr dlc s = Some (s\<lparr>g_u8suppressFlag := 0\<rparr>)"
  using assms by (simp add: pos_def uds_positive_response_def uds_wf_def)

lemma respond_reply:
  assumes "uds_wf s" "bytes \<noteq> []" "length bytes \<le> n" "length bytes \<le> 235" "g_u8suppressFlag s = 0"
  shows "\<exists>s'. respond n bytes s = Some s' \<and> reply [bytes] s s'"
proof -
  have "unat (word_of_nat (length bytes) :: u16) = length bytes"
    using assms(4) by (simp add: unat_of_nat)
  then show ?thesis
    using assms pos_reply [of s "word_of_nat (length bytes)" "bytes @ replicate (n - length bytes) (stack_byte s)"]
    by (simp add: respond_def stack_array_def)
qed

lemma respond_suppressed:
  assumes "uds_wf s" "bytes \<noteq> []" "length bytes \<le> n" "length bytes \<le> 235" "g_u8suppressFlag s = 1"
    "hd bytes \<noteq> SID_NegativeResponse"
  shows "respond n bytes s = Some (s\<lparr>g_u8suppressFlag := 0\<rparr>)"
proof -
  have "unat (word_of_nat (length bytes) :: u16) = length bytes"
    using assms(4) by (simp add: unat_of_nat)
  then show ?thesis
    using assms by (simp add: respond_def stack_array_def pos_suppressed nth_append hd_conv_nth UDS_SERVER_MAX_BYTE_def)
qed

section \<open>Stale expiry messages\<close>

lemma next_seq_nat: "unat (next_seq q) = unat q mod 65535 + 1"
proof (cases "q = -1")
  case False
  then have ne: "q + 1 \<noteq> 0" by (simp add: eq_neg_iff_add_eq_0)
  then have "unat (q + 1) = unat q + 1"
    using unatSuc [of q] by (simp add: add.commute)
  moreover have "unat (q + 1) < 65536" by (rule unat_u16_less)
  moreover note ne
  ultimately show ?thesis by (simp add: next_seq_def)
qed (simp add: next_seq_def unsigned_minus_1_eq_mask mask_eq_exp_minus_1)

lemma next_seq_pow_nat:
  "0 < k \<Longrightarrow> unat ((next_seq ^^ k) q) = (unat q + k - 1) mod 65535 + 1"
proof (induction k)
  case (Suc k)
  show ?case
  proof (cases "k = 0")
    case False
    then have "unat ((next_seq ^^ Suc k) q) = ((unat q + k - 1) mod 65535 + 1) mod 65535 + 1"
      using Suc by (simp add: next_seq_nat)
    also have "\<dots> = (unat q + k - 1 + 1) mod 65535 + 1" by (simp add: mod_simps)
    finally show ?thesis using False by simp
  qed (simp add: next_seq_nat)
qed simp

lemma next_seq_fresh:
  assumes "0 < k" and "k < 65535"
  shows "(next_seq ^^ k) q \<noteq> q"
proof
  assume "(next_seq ^^ k) q = q"
  then have e: "(unat q + k - 1) mod 65535 + 1 = unat q"
    using next_seq_pow_nat [OF assms(1), of q] by simp
  define x where "x = unat q - 1"
  have q: "unat q = x + 1" using e by (simp add: x_def)
  then have "x < 65535" using unat_u16_less [of q] by simp
  moreover have "(x + k) mod 65535 = x" using e by (simp add: q)
  ultimately have "(x + k) mod 65535 = x mod 65535" by simp
  then have "65535 dvd k" by (metis diff_add_inverse le_add1 mod_eq_dvd_iff_nat)
  with assms show False by (auto dest: dvd_imp_le)
qed

text \<open>Starting and stopping one timer of an object any number of times.\<close>

definition timer_of :: "uds_ptr \<Rightarrow> UDS_TIMER_E \<Rightarrow> uds_state \<Rightarrow> UDS_TIMER_T" where
  "timer_of uds name s = u_timer_t (uds_get uds s) ! timer_no name"

lemma set_timer_seq:
  assumes "length (u_timer_t (uds_get uds s)) = 8"
  shows "tm_seq (timer_fd (timer_of uds name (uds_set_timer uds name sw s))) =
           next_seq (tm_seq (timer_fd (timer_of uds name s)))"
    and "length (u_timer_t (uds_get uds (uds_set_timer uds name sw s))) = 8"
  using assms
  by (cases uds; auto simp: timer_of_def uds_set_timer_def uds_timer_settime_def Let_def split: prod.splits)+

lemma set_timers_seq:
  "length (u_timer_t (uds_get uds s)) = 8 \<Longrightarrow>
   tm_seq (timer_fd (timer_of uds name (fold (uds_set_timer uds name) sws s))) =
     (next_seq ^^ length sws) (tm_seq (timer_fd (timer_of uds name s)))"
proof (induction sws arbitrary: s)
  case (Cons sw sws)
  then show ?case
    using set_timer_seq [of uds s name sw] by (simp add: funpow_swap1)
qed simp

lemma timer_notify_parts:
  "uds_timer_notify (ucast idx OR push_bit 16 (ucast seq)) = (idx, seq)"
proof -
  have "ucast ((ucast (idx :: u16) OR push_bit 16 (ucast (seq :: u16)) :: u32) AND 0xffff) = idx"
  proof -
    have "x AND 0xffff = take_bit 16 x" for x :: u32
      by (simp add: take_bit_eq_mask mask_eq_exp_minus_1)
    then show ?thesis
      by (simp only:) (rule bit_word_eqI, auto simp: bit_simps)
  qed
  moreover have "ucast (drop_bit 16 (ucast idx OR push_bit 16 (ucast seq) :: u32)) = seq"
    by (rule bit_word_eqI) (auto simp: bit_simps dest: bit_imp_le_length)
  ultimately show ?thesis by (simp add: uds_timer_notify_def)
qed

end
