(* ===== verification/UdsDiag.thy ===== *)
theory UdsDiag
  imports UdsCore "HOL-Library.Sublist"
begin

text \<open>
  The self diagnosis of the box, \<open>app/base/uds/server/uds_diag.c\<close> with the tables of
  \<open>server/foton/uds_diag_def.h\<close>: tests that count up to a threshold before a trouble code is
  confirmed, the record of confirmed codes, and the data identifiers a tester reads and writes.

  The functions the tables point to, which ask other parts of the system, are parameters:
  \<open>diag_fun id\<close> is the result of the test of an item, \<open>did_get did dst\<close> the result of the reading
  function of an identifier and what it leaves of the destination, \<open>did_set did value\<close> the result
  of the writing function.
\<close>

definition DIAG_MAX_DID_CNT :: nat where "DIAG_MAX_DID_CNT = 17"
definition DIAG_ITEM_BUF_LEN :: nat where "DIAG_ITEM_BUF_LEN = 1024"
definition DIAG_ITEM_NUM :: nat where "DIAG_ITEM_NUM = 17"
definition DID_INVALID :: u16 where "DID_INVALID = 0xFFFF"
definition UDS_INVALID_PARA :: int where "UDS_INVALID_PARA = 0x0C000001"
definition UDS_PARA_OVERFLOW :: int where "UDS_PARA_OVERFLOW = 0x0C000003"

datatype DIAG_DATA_TYPE =
  DIAG_DATA_UINT | DIAG_DATA_USHORT | DIAG_DATA_UCHAR | DIAG_DATA_STRING | DIAG_DATA_DOUBLE
| DIAG_DATA_TIME | DIAG_DATA_INVALID

text \<open>\<open>did_settable\<close> says that the member \<open>set\<close> is not the null pointer.\<close>

record DIAG_ITEM_DID =
  did_id :: u16
  did_type :: DIAG_DATA_TYPE
  did_len :: nat
  did_settable :: bool

record DIAG_ITEM_INFO =
  item_dtc :: string
  item_thsd :: u32
  item_freeze :: "u16 list"

definition did_attr :: "u16 \<Rightarrow> DIAG_DATA_TYPE \<Rightarrow> nat \<Rightarrow> bool \<Rightarrow> DIAG_ITEM_DID" where
  "did_attr d ty len settable =
     \<lparr>did_id = d, did_type = ty, did_len = len, did_settable = settable\<rparr>"

definition diag_did_table :: "DIAG_ITEM_DID list" where
  "diag_did_table =
    [did_attr 0xF18C DIAG_DATA_STRING 8 False, did_attr 0xF1EE DIAG_DATA_STRING 14 False,
     did_attr 0xF1EF DIAG_DATA_STRING 10 False, did_attr 0xF18A DIAG_DATA_STRING 5 False,
     did_attr 0xF198 DIAG_DATA_STRING 10 False, did_attr 0xF187 DIAG_DATA_STRING 13 False,
     did_attr 0xF190 DIAG_DATA_STRING 17 True, did_attr 0xF199 DIAG_DATA_STRING 4 True,
     did_attr 0xF197 DIAG_DATA_STRING 14 False, did_attr 0xF193 DIAG_DATA_STRING 14 False,
     did_attr 0xF195 DIAG_DATA_STRING 14 False, did_attr 0xF184 DIAG_DATA_STRING 14 False,
     did_attr 0x4600 DIAG_DATA_STRING 64 True, did_attr 0x4601 DIAG_DATA_STRING 32 True,
     did_attr 0x4602 DIAG_DATA_STRING 32 True, did_attr 0x4603 DIAG_DATA_STRING 64 True,
     did_attr 0x4604 DIAG_DATA_STRING 32 True, did_attr 0x4605 DIAG_DATA_STRING 32 True,
     did_attr 0x4606 DIAG_DATA_STRING 32 True, did_attr 0x4607 DIAG_DATA_STRING 32 True,
     did_attr 0x4608 DIAG_DATA_STRING 6 True, did_attr 0x4609 DIAG_DATA_STRING 16 True,
     did_attr 0x460A DIAG_DATA_STRING 15 False, did_attr 0x460B DIAG_DATA_STRING 20 False,
     did_attr 0x460C DIAG_DATA_STRING 15 False, did_attr 0x460D DIAG_DATA_STRING 15 False,
     did_attr 0x460E DIAG_DATA_UCHAR 1 True, did_attr 0x09FF DIAG_DATA_UCHAR 1 True,
     did_attr 0x09FE DIAG_DATA_UCHAR 1 False]"

text \<open>Every item of the table has an empty freeze frame: the identifier in it is commented out.\<close>

definition diag_item :: "string \<Rightarrow> u32 \<Rightarrow> DIAG_ITEM_INFO" where
  "diag_item dtc thsd = \<lparr>item_dtc = dtc, item_thsd = thsd,
     item_freeze = DID_INVALID # replicate (DIAG_MAX_DID_CNT - 1) 0\<rparr>"

definition diag_table :: "DIAG_ITEM_INFO list" where
  "diag_table =
    [diag_item ''9C0071'' 45, diag_item ''9C0111'' 4, diag_item ''9C0112'' 4, diag_item ''9C0113'' 4,
     diag_item ''9C0231'' 4, diag_item ''9C0311'' 4, diag_item ''9C0312'' 4, diag_item ''9C0313'' 12,
     diag_item ''9C0431'' 60, diag_item ''9C0511'' 4, diag_item ''9C0600'' 60, diag_item ''9C0716'' 10,
     diag_item ''9C0717'' 10, diag_item ''9C0801'' 10, diag_item ''9C0931'' 4, diag_item ''9C1017'' 1,
     diag_item ''9C1116'' 1]"

lemmas diag_const_defs = DIAG_MAX_DID_CNT_def DIAG_ITEM_BUF_LEN_def DIAG_ITEM_NUM_def
  DID_INVALID_def UDS_INVALID_PARA_def UDS_PARA_OVERFLOW_def

text \<open>The linear search all functions make for an identifier.\<close>

definition find_did :: "u16 \<Rightarrow> DIAG_ITEM_DID option" where
  "find_did did = find (\<lambda>a. did_id a = did) diag_did_table"

definition uds_diag_para_check :: "DIAG_DATA_TYPE \<Rightarrow> nat \<Rightarrow> int" where
  "uds_diag_para_check type len = (case type of
     DIAG_DATA_UINT \<Rightarrow> if len \<noteq> 4 then UDS_INVALID_PARA else 0
   | DIAG_DATA_USHORT \<Rightarrow> if len \<noteq> 2 then UDS_INVALID_PARA else 0
   | DIAG_DATA_UCHAR \<Rightarrow> if len \<noteq> 1 then UDS_INVALID_PARA else 0
   | DIAG_DATA_DOUBLE \<Rightarrow> if len \<noteq> 8 then UDS_INVALID_PARA else 0
   | DIAG_DATA_STRING \<Rightarrow> if len \<le> 1 then UDS_INVALID_PARA else 0
   | DIAG_DATA_TIME \<Rightarrow> if len \<noteq> 6 then UDS_INVALID_PARA else 0
   | DIAG_DATA_INVALID \<Rightarrow> UDS_INVALID_PARA)"

section \<open>Layout and initialisation\<close>

text \<open>The inner loops of \<open>uds_diag_init\<close>: the size of one freeze frame.\<close>

fun freeze_size :: "u16 list \<Rightarrow> nat \<Rightarrow> nat option" where
  "freeze_size [] sz = Some sz"
| "freeze_size (d # ds) sz =
     (if d = DID_INVALID then Some sz
      else case find_did d of None \<Rightarrow> None | Some a \<Rightarrow> freeze_size ds (sz + did_len a))"

text \<open>
  The outer loop: the offset and length of each item, and whether it reached the end. When an
  identifier is unknown the items from there on keep what they had, which is 0.
\<close>

fun diag_layout :: "DIAG_ITEM_INFO list \<Rightarrow> nat \<Rightarrow> (nat \<times> nat) list \<times> bool" where
  "diag_layout [] off = ([], True)"
| "diag_layout (it # its) off = (case freeze_size (item_freeze it) 0 of
     None \<Rightarrow> (replicate (Suc (length its)) (0, 0), False)
   | Some sz \<Rightarrow> (let (rest, ok) = diag_layout its (off + (sz + 4)) in ((off, sz + 4) # rest, ok)))"

text \<open>
  \<open>uds_diag_init\<close>. \<open>stored\<close> is what \<open>rds_get\<close> leaves in the buffer it is given, which is cleared:
  the record of the last run, or the buffer unchanged when there is none.
\<close>

definition uds_diag_init :: "(byte list \<Rightarrow> byte list) \<Rightarrow> uds_state \<Rightarrow> int \<times> uds_state" where
  "uds_diag_init stored s =
     (let (lay, ok) = diag_layout diag_table 0;
          buf = replicate DIAG_ITEM_BUF_LEN 0;
          s1 = s\<lparr>uds_diag_item_buf := buf, diag_offset := map fst lay, diag_len := map snd lay\<rparr>
      in if \<not> ok then (UDS_INVALID_PARA, s1)
         else if DIAG_ITEM_BUF_LEN < fst (last lay) + snd (last lay) then (UDS_PARA_OVERFLOW, s1)
         else (0, s1\<lparr>uds_diag_item_buf := stored buf\<rparr>))"

section \<open>Testing\<close>

text \<open>The 32-bit flag a pointer \<open>confirmed\<close> points to, stored low byte first.\<close>

definition confirmed :: "nat \<Rightarrow> uds_state \<Rightarrow> u32 option" where
  "confirmed i s = do {
     off \<leftarrow> byte_at (diag_offset s) i;
     b \<leftarrow> subarray (uds_diag_item_buf s) off 4;
     Some (ucast (b ! 0) OR push_bit 8 (ucast (b ! 1)) OR push_bit 16 (ucast (b ! 2))
             OR push_bit 24 (ucast (b ! 3))) }"

definition set_confirmed :: "nat \<Rightarrow> uds_state \<Rightarrow> uds_state option" where
  "set_confirmed i s = do {
     off \<leftarrow> byte_at (diag_offset s) i;
     buf \<leftarrow> blit (uds_diag_item_buf s) off (le32 1) 4;
     Some (s\<lparr>uds_diag_item_buf := buf\<rparr>) }"

text \<open>
  The loop of \<open>uds_diag_gen_freeze\<close>: the offset is set anew for every identifier, so each one is
  read to the start of the frame.
\<close>

fun gen_freeze_loop ::
  "(u16 \<Rightarrow> byte list \<Rightarrow> int \<times> byte list) \<Rightarrow> u16 list \<Rightarrow> nat \<Rightarrow> byte list \<Rightarrow> byte list option"
where
  "gen_freeze_loop did_get [] off buf = Some buf"
| "gen_freeze_loop did_get (d # ds) off buf =
     (if d = DID_INVALID then Some buf
      else case find_did d of
        None \<Rightarrow> gen_freeze_loop did_get ds off buf
      | Some a \<Rightarrow> do {
          dst \<leftarrow> subarray buf off (did_len a);
          buf' \<leftarrow> blit buf off (snd (did_get d dst)) (did_len a);
          gen_freeze_loop did_get ds off buf' })"

definition uds_diag_gen_freeze ::
  "(u16 \<Rightarrow> byte list \<Rightarrow> int \<times> byte list) \<Rightarrow> nat \<Rightarrow> uds_state \<Rightarrow> uds_state option"
where
  "uds_diag_gen_freeze did_get i s = do {
     off \<leftarrow> byte_at (diag_offset s) i;
     it \<leftarrow> byte_at diag_table i;
     buf \<leftarrow> gen_freeze_loop did_get (item_freeze it) (off + 4) (uds_diag_item_buf s);
     Some (s\<lparr>uds_diag_item_buf := buf\<rparr>) }"

definition uds_diag_one_device ::
  "(u16 \<Rightarrow> byte list \<Rightarrow> int \<times> byte list) \<Rightarrow> (nat \<Rightarrow> byte) \<Rightarrow> nat \<Rightarrow> uds_state \<Rightarrow> uds_state option"
where
  "uds_diag_one_device did_get diag_fun i s =
     (if DIAG_ITEM_NUM \<le> i then Some s
      else do {
        counter \<leftarrow> byte_at (diag_counter s) i;
        it \<leftarrow> byte_at diag_table i;
        if diag_fun i = 0 then Some (s\<lparr>diag_counter := (diag_counter s)[i := 0]\<rparr>)
        else if counter < item_thsd it then Some (s\<lparr>diag_counter := (diag_counter s)[i := counter + 1]\<rparr>)
        else do {
          c \<leftarrow> confirmed i s;
          if c = 0 then do { s1 \<leftarrow> set_confirmed i s; uds_diag_gen_freeze did_get i s1 }
          else Some s } })"

definition UDS_GetDTCSetting :: "uds_state \<Rightarrow> u32" where
  "UDS_GetDTCSetting s = ucast (DTCSwitch s)"

text \<open>The loop of \<open>uds_diag_all_devices\<close>, with \<open>is_gen_freeze\<close>.\<close>

fun diag_all_loop ::
  "(u16 \<Rightarrow> byte list \<Rightarrow> int \<times> byte list) \<Rightarrow> (nat \<Rightarrow> byte) \<Rightarrow> nat list \<Rightarrow> bool \<Rightarrow> uds_state \<Rightarrow>
   (bool \<times> uds_state) option"
where
  "diag_all_loop did_get diag_fun [] gen s = Some (gen, s)"
| "diag_all_loop did_get diag_fun (i # is) gen s = do {
     pre \<leftarrow> confirmed i s;
     s1 \<leftarrow> uds_diag_one_device did_get diag_fun i s;
     post \<leftarrow> confirmed i s1;
     diag_all_loop did_get diag_fun is (gen \<or> pre = 0 \<and> post = 1) s1 }"

definition uds_diag_all_devices ::
  "(u16 \<Rightarrow> byte list \<Rightarrow> int \<times> byte list) \<Rightarrow> (nat \<Rightarrow> byte) \<Rightarrow> uds_state \<Rightarrow> uds_state option"
where
  "uds_diag_all_devices did_get diag_fun s =
     (if UDS_GetDTCSetting s = 0 then Some s
      else do {
        (gen, s1) \<leftarrow> diag_all_loop did_get diag_fun [0..<DIAG_ITEM_NUM] False s;
        Some (if gen then emit (RdsUpdate (uds_diag_item_buf s1)) s1 else s1) })"

section \<open>Queries\<close>

definition uds_diag_is_cfm_dtc_valid :: "nat \<Rightarrow> uds_state \<Rightarrow> u32 option" where
  "uds_diag_is_cfm_dtc_valid i s = confirmed i s"

definition uds_diag_is_uncfm_dtc_valid :: "nat \<Rightarrow> uds_state \<Rightarrow> u32 option" where
  "uds_diag_is_uncfm_dtc_valid i s = do {
     counter \<leftarrow> byte_at (diag_counter s) i;
     Some (if 0 < counter then 1 else 0) }"

fun count_items :: "(nat \<Rightarrow> bool option) \<Rightarrow> nat list \<Rightarrow> nat \<Rightarrow> nat option" where
  "count_items p [] counter = Some counter"
| "count_items p (i # is) counter = do {
     b \<leftarrow> p i;
     count_items p is (if b then Suc counter else counter) }"

definition uds_diag_get_dtc_num :: "uds_state \<Rightarrow> nat option" where
  "uds_diag_get_dtc_num s = count_items (\<lambda>i. do {
     c \<leftarrow> confirmed i s;
     counter \<leftarrow> byte_at (diag_counter s) i;
     Some (c \<noteq> 0 \<or> 0 < counter) }) [0..<DIAG_ITEM_NUM] 0"

definition uds_diag_get_cfm_dtc_num :: "uds_state \<Rightarrow> nat option" where
  "uds_diag_get_cfm_dtc_num s =
     count_items (\<lambda>i. map_option (\<lambda>c. c \<noteq> 0) (confirmed i s)) [0..<DIAG_ITEM_NUM] 0"

definition uds_diag_get_uncfm_dtc_num :: "uds_state \<Rightarrow> nat option" where
  "uds_diag_get_uncfm_dtc_num s =
     count_items (\<lambda>i. map_option (\<lambda>c. 0 < c) (byte_at (diag_counter s) i)) [0..<DIAG_ITEM_NUM] 0"

definition uds_diag_get_dtc :: "nat \<Rightarrow> string option" where
  "uds_diag_get_dtc i = map_option item_dtc (byte_at diag_table i)"

definition uds_diag_dtc_clear :: "uds_state \<Rightarrow> uds_state" where
  "uds_diag_dtc_clear s =
     (let buf = replicate DIAG_ITEM_BUF_LEN 0
      in emit (RdsUpdate buf) (s\<lparr>uds_diag_item_buf := buf,
                                 diag_counter := replicate (length diag_table) 0\<rparr>))"

section \<open>Data identifiers\<close>

text \<open>
  The reordering of 16- and 32-bit values, with the right shifts of the code: the bytes are
  \<open>int\<close>, so shifting them right by 8 or more gives 0.
\<close>

definition convert_value :: "DIAG_DATA_TYPE \<Rightarrow> byte list \<Rightarrow> byte list option" where
  "convert_value type value =
     (if type = DIAG_DATA_USHORT then do {
        b0 \<leftarrow> byte_at value 0; b1 \<leftarrow> byte_at value 1;
        blit value 0 (put_u16 (drop_bit 8 (ucast b0) + ucast b1)) 2 }
      else if type = DIAG_DATA_UINT then do {
        b0 \<leftarrow> byte_at value 0; b1 \<leftarrow> byte_at value 1; b2 \<leftarrow> byte_at value 2; b3 \<leftarrow> byte_at value 3;
        blit value 0 (le32 (drop_bit 24 (ucast b0) + drop_bit 16 (ucast b1) + drop_bit 8 (ucast b2)
                            + ucast b3)) 4 }
      else Some value)"

text \<open>
  The result, the destination and \<open>*len\<close> afterwards. \<open>value\<close> is the destination with the \<open>*len\<close>
  bytes it has room for.
\<close>

definition uds_diag_get_did_value ::
  "(u16 \<Rightarrow> byte list \<Rightarrow> int \<times> byte list) \<Rightarrow> u16 \<Rightarrow> byte list \<Rightarrow> (int \<times> byte list \<times> nat) option"
where
  "uds_diag_get_did_value did_get did value = (case find_did did of
     None \<Rightarrow> Some (UDS_INVALID_PARA, value, length value)
   | Some a \<Rightarrow>
       if length value < did_len a then Some (UDS_INVALID_PARA, value, length value)
       else (let (ret, out) = did_get did value in
         if length out \<noteq> length value then None
         else if ret \<noteq> 0 then Some (ret, out, length value)
         else do { out' \<leftarrow> convert_value (did_type a) out; Some (0, out', did_len a) }))"

text \<open>Calling the writing function of an identifier that has none jumps to address 0.\<close>

definition uds_diag_set_did_value ::
  "(u16 \<Rightarrow> byte list \<Rightarrow> int) \<Rightarrow> u16 \<Rightarrow> byte list \<Rightarrow> uds_state \<Rightarrow> (byte \<times> uds_state) option"
where
  "uds_diag_set_did_value did_set did value s = (case find_did did of
     None \<Rightarrow> Some (NRC_RequestOutOfRange, s)
   | Some a \<Rightarrow>
       if length value \<noteq> did_len a then Some (NRC_IncorrectMessageLengthOrInvailFormat, s)
       else do {
         value' \<leftarrow> convert_value (did_type a) value;
         if \<not> did_settable a then None
         else if did_set did value' \<noteq> 0
         then Some (NRC_IncorrectMessageLengthOrInvailFormat, emit (DidSet did value') s)
         else Some (0, emit (DidSet did value') s) })"

text \<open>
  The loop of \<open>uds_diag_get_freeze\<close>: the return value, the destination, and the number of
  identifiers. Like the code it copies the start of the frame for every identifier.
\<close>

fun get_freeze_loop ::
  "byte list \<Rightarrow> nat \<Rightarrow> nat \<Rightarrow> u16 list \<Rightarrow> byte list \<Rightarrow> nat \<Rightarrow> nat \<Rightarrow> (int \<times> byte list \<times> nat) option"
where
  "get_freeze_loop item_buf item_off room [] freeze off cnt = Some (0, freeze, cnt)"
| "get_freeze_loop item_buf item_off room (d # ds) freeze off cnt =
     (if d = DID_INVALID then Some (0, freeze, cnt)
      else do {
        f1 \<leftarrow> blit freeze off [ucast (drop_bit 8 d), ucast d] 2;
        case find_did d of
          None \<Rightarrow> Some (uint NRC_RequestOutOfRange, f1, Suc cnt)
        | Some a \<Rightarrow>
            if room < did_len a + (off + 2) then Some (uint NRC_RequestOutOfRange, f1, Suc cnt)
            else do {
              src \<leftarrow> subarray item_buf (item_off + 4) (did_len a);
              f2 \<leftarrow> blit f1 (off + 2) src (did_len a);
              get_freeze_loop item_buf item_off room ds f2 (off + 2 + did_len a) (Suc cnt) } })"

text \<open>The return value, the destination, \<open>*len\<close> and \<open>*did_num\<close> afterwards.\<close>

definition uds_diag_get_freeze ::
  "nat \<Rightarrow> byte list \<Rightarrow> nat \<Rightarrow> uds_state \<Rightarrow> (int \<times> byte list \<times> nat \<times> nat) option"
where
  "uds_diag_get_freeze i freeze len s = do {
     it \<leftarrow> byte_at diag_table i;
     off \<leftarrow> byte_at (diag_offset s) i;
     ilen \<leftarrow> byte_at (diag_len s) i;
     d0 \<leftarrow> byte_at (item_freeze it) 0;
     if d0 = DID_INVALID then Some (0, freeze, 0, 0)
     else do {
       (ret, freeze', cnt) \<leftarrow> get_freeze_loop (uds_diag_item_buf s) off len (item_freeze it) freeze 0 0;
       if ret \<noteq> 0 then Some (ret, freeze', len, 0)
       else Some (0, freeze', ilen - 4 + cnt * 2, cnt) } }"


section \<open>The record of trouble codes\<close>

definition diag_wf :: "uds_state \<Rightarrow> bool" where
  "diag_wf s \<longleftrightarrow> diag_offset s = map (\<lambda>i. 4 * i) [0..<17] \<and> diag_len s = replicate 17 4 \<and>
     length (uds_diag_item_buf s) = 1024 \<and> length (diag_counter s) = 17"

definition item_flag :: "nat \<Rightarrow> byte list \<Rightarrow> u32" where
  "item_flag i buf = ucast (buf ! (4 * i)) OR push_bit 8 (ucast (buf ! (4 * i + 1)))
     OR push_bit 16 (ucast (buf ! (4 * i + 2))) OR push_bit 24 (ucast (buf ! (4 * i + 3)))"

definition set_flag :: "nat \<Rightarrow> byte list \<Rightarrow> byte list" where
  "set_flag i buf = take (4 * i) buf @ le32 1 @ drop (4 * i + 4) buf"

text \<open>The counter and the confirmed flag of an item, and what one test does to them.\<close>

definition item_state :: "uds_state \<Rightarrow> nat \<Rightarrow> u32 \<times> u32" where
  "item_state s i = (diag_counter s ! i, item_flag i (uds_diag_item_buf s))"

fun test_item :: "bool \<Rightarrow> u32 \<Rightarrow> u32 \<times> u32 \<Rightarrow> u32 \<times> u32" where
  "test_item fault thsd (counter, flag) =
     (if \<not> fault then (0, flag)
      else if counter < thsd then (counter + 1, flag)
      else (counter, if flag = 0 then 1 else flag))"

definition item_threshold :: "nat \<Rightarrow> u32" where
  "item_threshold i = item_thsd (diag_table ! i)"

lemma length_diag_table [simp]: "length diag_table = 17"
  by (simp add: diag_table_def)

lemma item_freeze_table:
  assumes "i < 17" shows "item_freeze (diag_table ! i) = DID_INVALID # replicate 16 0"
proof -
  have "list_all (\<lambda>it. item_freeze it = DID_INVALID # replicate 16 0) diag_table"
    by (simp add: diag_table_def diag_item_def DIAG_MAX_DID_CNT_def)
  with assms show ?thesis by (simp add: list_all_length)
qed

lemma length_set_flag [simp]: "4 * i + 4 \<le> length buf \<Longrightarrow> length (set_flag i buf) = length buf"
  by (simp add: set_flag_def)

lemma item_flag_set:
  assumes "4 * i + 4 \<le> length buf" "4 * j + 4 \<le> length buf"
  shows "item_flag j (set_flag i buf) = (if j = i then 1 else item_flag j buf)"
proof -
  have nth: "set_flag i buf ! k = (if k < 4 * i then buf ! k else if k < 4 * i + 4 then le32 1 ! (k - 4 * i)
      else buf ! k)" if "k < length buf" for k
    using assms(1) that by (auto simp: set_flag_def nth_append)
  show ?thesis
  proof (cases "j = i")
    case True
    then show ?thesis using assms by (simp add: item_flag_def nth le32_def)
  next
    case False
    then have far: "k < 4 * i \<or> 4 * i + 4 \<le> k" if "4 * j \<le> k" "k < 4 * j + 4" for k
      using that by presburger
    have "set_flag i buf ! k = buf ! k" if k: "4 * j \<le> k" "k < 4 * j + 4" for k
      using k far [OF k] assms nth [of k] by auto
    with False show ?thesis by (simp add: item_flag_def)
  qed
qed

lemma diag_offset_at [simp]:
  "diag_wf s \<Longrightarrow> i < 17 \<Longrightarrow> byte_at (diag_offset s) i = Some (4 * i)"
  by (simp add: diag_wf_def)

lemma confirmed_wf:
  assumes "diag_wf s" "i < 17"
  shows "confirmed i s = Some (item_flag i (uds_diag_item_buf s))"
proof -
  have "4 * i + 4 \<le> length (uds_diag_item_buf s)" using assms by (simp add: diag_wf_def)
  with assms show ?thesis
    by (simp add: confirmed_def item_flag_def add.commute)
qed

lemma one_device_wf:
  assumes "diag_wf s" "i < 17"
  shows "\<exists>s'. uds_diag_one_device did_get diag_fun i s = Some s' \<and>
    s' = s\<lparr>diag_counter := diag_counter s', uds_diag_item_buf := uds_diag_item_buf s'\<rparr> \<and> diag_wf s' \<and>
    (\<forall>j<17. item_state s' j =
       (if j = i then test_item (diag_fun i \<noteq> 0) (item_threshold i) (item_state s i) else item_state s j))"
proof -
  have len: "4 * j + 4 \<le> length (uds_diag_item_buf s)" if "j < 17" for j
    using assms(1) that by (simp add: diag_wf_def)
  have counter: "byte_at (diag_counter s) i = Some (diag_counter s ! i)"
    using assms by (simp add: diag_wf_def)
  have gen: "uds_diag_gen_freeze did_get i t = Some t" if "diag_wf t" for t
    using that assms(2) by (simp add: uds_diag_gen_freeze_def item_freeze_table)
  have set: "set_confirmed i s = Some (s\<lparr>uds_diag_item_buf := set_flag i (uds_diag_item_buf s)\<rparr>)"
    using assms len by (simp add: set_confirmed_def set_flag_def)
  have wf': "diag_wf (s\<lparr>uds_diag_item_buf := set_flag i (uds_diag_item_buf s)\<rparr>)"
    using assms len [OF assms(2)] by (simp add: diag_wf_def)
  show ?thesis
    using assms len wf' gen [OF wf']
    by (auto simp: uds_diag_one_device_def DIAG_ITEM_NUM_def counter confirmed_wf set item_state_def
        item_threshold_def item_flag_set diag_wf_def nth_list_update)
qed

lemma diag_all_loop_wf:
  assumes "diag_wf s" "distinct is" "set is \<subseteq> {..<17}"
  shows "\<exists>gen' s'. diag_all_loop did_get diag_fun is gen s = Some (gen', s') \<and>
    s' = s\<lparr>diag_counter := diag_counter s', uds_diag_item_buf := uds_diag_item_buf s'\<rparr> \<and> diag_wf s' \<and>
    (\<forall>j<17. item_state s' j =
       (if j \<in> set is then test_item (diag_fun j \<noteq> 0) (item_threshold j) (item_state s j) else item_state s j)) \<and>
    (gen' \<longleftrightarrow> gen \<or> (\<exists>j\<in>set is. snd (item_state s j) = 0 \<and> snd (item_state s' j) = 1))"
  using assms
proof (induction "is" arbitrary: gen s)
  case (Cons i "is")
  from Cons.prems have i: "i < 17" by simp
  from one_device_wf [OF Cons.prems(1) i, of did_get diag_fun] obtain s1 where
    s1: "uds_diag_one_device did_get diag_fun i s = Some s1"
      "s1 = s\<lparr>diag_counter := diag_counter s1, uds_diag_item_buf := uds_diag_item_buf s1\<rparr>" "diag_wf s1"
    and st1: "\<forall>j<17. item_state s1 j =
       (if j = i then test_item (diag_fun i \<noteq> 0) (item_threshold i) (item_state s i) else item_state s j)"
    by auto
  define gen1 where "gen1 = (gen \<or> snd (item_state s i) = 0 \<and> snd (item_state s1 i) = 1)"
  from Cons.IH [OF s1(3), of gen1] Cons.prems obtain gen' s' where
    s': "diag_all_loop did_get diag_fun is gen1 s1 = Some (gen', s')"
      "s' = s1\<lparr>diag_counter := diag_counter s', uds_diag_item_buf := uds_diag_item_buf s'\<rparr>" "diag_wf s'"
    and st': "\<forall>j<17. item_state s' j =
       (if j \<in> set is then test_item (diag_fun j \<noteq> 0) (item_threshold j) (item_state s1 j) else item_state s1 j)"
    and g': "gen' \<longleftrightarrow> gen1 \<or> (\<exists>j\<in>set is. snd (item_state s1 j) = 0 \<and> snd (item_state s' j) = 1)"
    by auto
  have "diag_all_loop did_get diag_fun (i # is) gen s = Some (gen', s')"
    using s1(1,3) s'(1) i Cons.prems(1)
    by (simp add: confirmed_wf gen1_def item_state_def)
  moreover have "s' = s\<lparr>diag_counter := diag_counter s', uds_diag_item_buf := uds_diag_item_buf s'\<rparr>"
    by (subst s'(2), subst s1(2)) simp
  moreover have other: "item_state s1 j = item_state s j" if "j \<in> set is" for j
    using st1 that Cons.prems by auto
  moreover have this_item: "item_state s' i = item_state s1 i"
    using st' i Cons.prems by simp
  moreover have "\<forall>j<17. item_state s' j =
       (if j \<in> set (i # is) then test_item (diag_fun j \<noteq> 0) (item_threshold j) (item_state s j) else item_state s j)"
    using st1 st' other this_item i by auto
  moreover have "gen' \<longleftrightarrow> gen \<or> (\<exists>j\<in>set (i # is). snd (item_state s j) = 0 \<and> snd (item_state s' j) = 1)"
    using g' other this_item by (auto simp: gen1_def)
  ultimately show ?case
    using s'(3) by (intro exI [of _ gen'] exI [of _ s']) blast
qed simp

lemma all_devices_wf:
  assumes "diag_wf s"
  shows "\<exists>s' eff. uds_diag_all_devices did_get diag_fun s = Some s' \<and> diag_wf s' \<and>
    s' = s\<lparr>diag_counter := diag_counter s', uds_diag_item_buf := uds_diag_item_buf s', uds_out := uds_out s @ eff\<rparr> \<and>
    (\<forall>j<17. item_state s' j = (if DTCSwitch s = 0 then item_state s j
       else test_item (diag_fun j \<noteq> 0) (item_threshold j) (item_state s j))) \<and>
    eff = (if \<exists>j<17. snd (item_state s j) = 0 \<and> snd (item_state s' j) = 1
           then [RdsUpdate (uds_diag_item_buf s')] else [])"
proof (cases "DTCSwitch s = 0")
  case True
  then show ?thesis
    using assms by (auto simp: uds_diag_all_devices_def UDS_GetDTCSetting_def)
next
  case False
  moreover have "unat (UDS_GetDTCSetting s) = unat (DTCSwitch s)"
    using unat_u8_less [of "DTCSwitch s"]
    by (simp add: UDS_GetDTCSetting_def unsigned_ucast_eq take_bit_nat_eq_self)
  ultimately have "UDS_GetDTCSetting s \<noteq> 0" by (auto simp: unat_eq_0)
  moreover have sub: "set [0..<17::nat] \<subseteq> {..<17}" by auto
  moreover from diag_all_loop_wf [OF assms distinct_upt sub, of did_get diag_fun False] obtain gen' s' where
    s': "diag_all_loop did_get diag_fun [0..<17] False s = Some (gen', s')"
      "s' = s\<lparr>diag_counter := diag_counter s', uds_diag_item_buf := uds_diag_item_buf s'\<rparr>" "diag_wf s'"
      and st: "\<forall>j<17. item_state s' j = (if j \<in> set [0..<17]
         then test_item (diag_fun j \<noteq> 0) (item_threshold j) (item_state s j) else item_state s j)"
      and gen: "gen' \<longleftrightarrow> False \<or> (\<exists>j\<in>set [0..<17]. snd (item_state s j) = 0 \<and> snd (item_state s' j) = 1)"
    by blast
  have gen: "gen' \<longleftrightarrow> (\<exists>j<17. snd (item_state s j) = 0 \<and> snd (item_state s' j) = 1)"
    using gen by (auto simp: Bex_def)
  have st: "\<forall>j<17. item_state s' j = test_item (diag_fun j \<noteq> 0) (item_threshold j) (item_state s j)"
    using st by auto
  have out: "uds_out s' = uds_out s" by (subst s'(2)) simp
  define eff where "eff = (if gen' then [RdsUpdate (uds_diag_item_buf s')] else [])"
  define t where "t = s'\<lparr>uds_out := uds_out s @ eff\<rparr>"
  have "uds_diag_all_devices did_get diag_fun s = Some t"
    using calculation s'(1) out
    by (simp add: uds_diag_all_devices_def DIAG_ITEM_NUM_def emit_def t_def eff_def)
  moreover have "diag_wf t" using s'(3) by (simp add: t_def diag_wf_def)
  moreover have "t = s\<lparr>diag_counter := diag_counter t, uds_diag_item_buf := uds_diag_item_buf t,
      uds_out := uds_out s @ eff\<rparr>"
    unfolding t_def by (subst s'(2)) simp
  moreover have same: "item_state t j = item_state s' j" for j by (simp add: t_def item_state_def)
  moreover have "eff = (if \<exists>j<17. snd (item_state s j) = 0 \<and> snd (item_state t j) = 1
           then [RdsUpdate (uds_diag_item_buf t)] else [])"
    unfolding same eff_def gen by (simp add: t_def)
  ultimately show ?thesis
    using st False by (intro exI [of _ t] exI [of _ eff]) simp
qed

section \<open>When a code is confirmed\<close>

lemma sublist_snoc: "sublist xs (ys @ [y]) \<longleftrightarrow> sublist xs ys \<or> suffix xs (ys @ [y])"
  using sublist_rev [of xs "ys @ [y]"] sublist_rev [of xs ys] suffix_to_prefix [of xs "ys @ [y]"]
    sublist_Cons_right [of "rev xs" y "rev ys"] by auto

text \<open>The last \<open>n\<close> tests failed; some \<open>n\<close> tests in a row failed.\<close>

definition failing_now :: "nat \<Rightarrow> bool list \<Rightarrow> bool" where
  "failing_now n bs \<longleftrightarrow> suffix (replicate n True) bs"

definition failed_in_a_row :: "nat \<Rightarrow> bool list \<Rightarrow> bool" where
  "failed_in_a_row n bs \<longleftrightarrow> sublist (replicate n True) bs"

lemma failing_now_0: "failing_now 0 bs"
  by (simp add: failing_now_def)

lemma failing_now_snoc: "failing_now (Suc n) (bs @ [b]) \<longleftrightarrow> b \<and> failing_now n bs"
  unfolding failing_now_def by (metis replicate_append_same replicate_Suc snoc_suffix_snoc)

lemma failing_now_mono: "failing_now m bs \<Longrightarrow> n \<le> m \<Longrightarrow> failing_now n bs"
  unfolding failing_now_def by (metis le_add_diff_inverse2 replicate_add suffix_appendD)

lemma failed_in_a_row_snoc:
  "failed_in_a_row n (bs @ [b]) \<longleftrightarrow> failed_in_a_row n bs \<or> failing_now n (bs @ [b])"
  by (simp only: failed_in_a_row_def failing_now_def sublist_snoc)

definition test_run :: "u32 \<Rightarrow> bool list \<Rightarrow> u32 \<times> u32" where
  "test_run thsd bs = fold (\<lambda>b. test_item b thsd) bs (0, 0)"

lemma test_run_counts:
  "test_run thsd bs = (c, f) \<Longrightarrow> unat c \<le> unat thsd \<and> failing_now (unat c) bs \<and>
     (unat c < unat thsd \<longrightarrow> \<not> failing_now (Suc (unat c)) bs) \<and>
     f = (if failed_in_a_row (Suc (unat thsd)) bs then 1 else 0)"
proof (induction bs arbitrary: c f rule: rev_induct)
  case Nil
  then show ?case
    by (simp add: test_run_def failing_now_def failed_in_a_row_def)
next
  case (snoc b bs)
  obtain c0 f0 where cf: "test_run thsd bs = (c0, f0)" by fastforce
  note IH = snoc.IH [OF cf]
  have run: "(c, f) = test_item b thsd (c0, f0)"
    using snoc.prems cf by (simp add: test_run_def)
  consider "\<not> b" | "b" "unat c0 < unat thsd" | "b" "c0 = thsd"
    using IH by (auto simp: word_unat_eq_iff le_less)
  then show ?case
  proof cases
    case 1
    then show ?thesis
      using IH run by (auto simp: failed_in_a_row_snoc failing_now_snoc failing_now_0)
  next
    case 2
    then have "c0 \<noteq> -1"
      using word_order.extremum_strict [of thsd] by (auto simp: word_less_nat_alt)
    then have "c0 + 1 \<noteq> 0" by (simp add: eq_neg_iff_add_eq_0)
    then have "unat (c0 + 1) = Suc (unat c0)"
      using unatSuc [of c0] by (simp add: add.commute)
    moreover have "c = c0 + 1" "f = f0" using 2 run by (simp_all add: word_less_nat_alt)
    moreover have "\<not> failing_now (unat thsd) bs"
      using 2 IH failing_now_mono [of "unat thsd" bs "Suc (unat c0)"] by auto
    ultimately show ?thesis
      using 2 IH by (auto simp: failed_in_a_row_snoc failing_now_snoc)
  next
    case 3
    then have "c = thsd" "f = (if f0 = 0 then 1 else f0)" using run by simp_all
    then show ?thesis
      using 3 IH failing_now_mono [of "Suc (unat thsd)" "bs @ [True]" "unat thsd"]
      by (auto simp: failed_in_a_row_snoc failing_now_snoc)
  qed
qed

text \<open>The rounds of the timer: one call of \<open>uds_diag_all_devices\<close> with the test results of each.\<close>

fun diag_rounds ::
  "(u16 \<Rightarrow> byte list \<Rightarrow> int \<times> byte list) \<Rightarrow> (nat \<Rightarrow> byte) list \<Rightarrow> uds_state \<Rightarrow> uds_state option"
where
  "diag_rounds did_get [] s = Some s"
| "diag_rounds did_get (f # fs) s = do {
     s1 \<leftarrow> uds_diag_all_devices did_get f s;
     diag_rounds did_get fs s1 }"

lemma diag_rounds_wf:
  assumes "diag_wf s" "DTCSwitch s \<noteq> 0" "i < 17"
  shows "\<exists>s'. diag_rounds did_get fs s = Some s' \<and> diag_wf s' \<and>
    item_state s' i = fold (\<lambda>b. test_item b (item_threshold i)) (map (\<lambda>f. f i \<noteq> 0) fs) (item_state s i)"
  using assms
proof (induction fs arbitrary: s)
  case (Cons f fs)
  from all_devices_wf [OF Cons.prems(1), of did_get f] obtain s1 eff where
    s1: "uds_diag_all_devices did_get f s = Some s1" "diag_wf s1"
      "s1 = s\<lparr>diag_counter := diag_counter s1, uds_diag_item_buf := uds_diag_item_buf s1, uds_out := uds_out s @ eff\<rparr>"
      "\<forall>j<17. item_state s1 j = (if DTCSwitch s = 0 then item_state s j
         else test_item (f j \<noteq> 0) (item_threshold j) (item_state s j))"
    by blast
  have "DTCSwitch s1 = DTCSwitch s" by (subst s1(3)) simp
  with Cons.IH [OF s1(2)] Cons.prems s1 show ?case by auto
qed simp

lemma confirmed_iff_persistent:
  assumes "diag_wf s" "DTCSwitch s \<noteq> 0" "i < 17" "item_state s i = (0, 0)"
  shows "\<exists>s'. diag_rounds did_get fs s = Some s' \<and>
    confirmed i s' = Some (if failed_in_a_row (Suc (unat (item_threshold i))) (map (\<lambda>f. f i \<noteq> 0) fs)
                           then 1 else 0)"
proof -
  from diag_rounds_wf [OF assms(1-3)] obtain s' where
    s': "diag_rounds did_get fs s = Some s'" "diag_wf s'"
      "item_state s' i = test_run (item_threshold i) (map (\<lambda>f. f i \<noteq> 0) fs)"
    by (auto simp: test_run_def assms(4))
  obtain c f where cf: "test_run (item_threshold i) (map (\<lambda>f. f i \<noteq> 0) fs) = (c, f)" by fastforce
  show ?thesis
    using s' test_run_counts [OF cf] cf assms(3)
    by (auto simp: confirmed_wf item_state_def)
qed

section \<open>Properties\<close>

lemma diag_layout_table: "diag_layout diag_table 0 = (map (\<lambda>i. (4 * i, 4)) [0..<17], True)"
  by (simp add: diag_table_def diag_item_def upt_rec)

lemma diag_init_wf:
  assumes "\<And>buf. length (stored buf) = length buf" and "length (diag_counter s) = 17"
  shows "fst (uds_diag_init stored s) = 0 \<and> diag_wf (snd (uds_diag_init stored s))"
proof -
  have "last (map (\<lambda>i. (4 * i, 4)) [0..<17]) = (64 :: nat, 4 :: nat)"
    by (simp add: upt_rec)
  moreover have "replicate 17 (4 :: nat) = map (\<lambda>_. 4) [0..<17::nat]"
    by (simp add: map_replicate_const)
  ultimately show ?thesis
    using assms by (simp add: uds_diag_init_def diag_layout_table diag_wf_def DIAG_ITEM_BUF_LEN_def
        comp_def del: upt_Suc)
qed

text \<open>
  : a trouble code is confirmed exactly when its test failed too often in a row. From a
  state with the item's counter and flag clear and the recording of codes on, after any rounds of
  tests the code is confirmed if and only if somewhere in them one more than its threshold of
  consecutive tests failed; every test in between that passes starts the count again, and the tests
  of the other items do not matter.
\<close>

theorem dtc_confirmed_iff_persistent:
  assumes "diag_wf s" "DTCSwitch s \<noteq> 0" "i < 17" "item_state s i = (0, 0)"
  shows "\<exists>s'. diag_rounds did_get fs s = Some s' \<and>
    uds_diag_is_cfm_dtc_valid i s' =
      Some (if failed_in_a_row (Suc (unat (item_threshold i))) (map (\<lambda>f. f i \<noteq> 0) fs) then 1 else 0)"
  unfolding uds_diag_is_cfm_dtc_valid_def using assms by (rule confirmed_iff_persistent)

definition sample_diag :: "scom_tl \<Rightarrow> uds_state" where
  "sample_diag scom = snd (uds_diag_init id (uds_statics scom 0))"

lemma sample_diag_state:
  "diag_wf (sample_diag scom)" "DTCSwitch (sample_diag scom) = 1" "i < 17 \<Longrightarrow> item_state (sample_diag scom) i = (0, 0)"
proof -
  show "diag_wf (sample_diag scom)"
    unfolding sample_diag_def by (rule conjunct2 [OF diag_init_wf]) (simp_all add: uds_statics_def)
  show "DTCSwitch (sample_diag scom) = 1"
    by (simp add: sample_diag_def uds_diag_init_def diag_layout_table Let_def uds_statics_def upt_rec)
  show "item_state (sample_diag scom) i = (0, 0)" if "i < 17"
    using that by (simp add: sample_diag_def uds_diag_init_def diag_layout_table Let_def uds_statics_def
        item_state_def item_flag_def DIAG_ITEM_BUF_LEN_def upt_rec)
qed

text \<open>The supply voltage tests have the threshold 1: two failures in a row confirm the code.\<close>

theorem dtc_confirmed_iff_persistent_witness:
  "\<exists>s'. diag_rounds (\<lambda>_ dst. (0, dst)) [\<lambda>_. 1, \<lambda>_. 0, \<lambda>_. 1, \<lambda>_. 1] (sample_diag undefined) = Some s' \<and>
    uds_diag_is_cfm_dtc_valid 15 s' = Some 1"
proof -
  have "failed_in_a_row 2 [True, False, True, True]"
    by (simp add: failed_in_a_row_def sublist_def numeral_2_eq_2)
      (metis append_Cons append_Nil append_Nil2)
  moreover have "item_threshold 15 = 1"
    by (simp add: item_threshold_def diag_table_def diag_item_def)
  ultimately show ?thesis
    using dtc_confirmed_iff_persistent [of "sample_diag undefined" 15 "\<lambda>_ dst. (0, dst)"
        "[\<lambda>_. 1, \<lambda>_. 0, \<lambda>_. 1, \<lambda>_. 1]"] sample_diag_state
    by (simp add: numeral_2_eq_2)
qed

text \<open>
  : a round of tests refines the counting of single items and saves what it finds. With the
  recording on, each of the 17 items makes the step of the counting automaton for its own test and
  nothing else, with it off nothing changes; and the record of codes is written to persistent
  storage, in its state after the round, exactly when a code was newly confirmed.
\<close>

theorem diag_round_refines_counting:
  assumes "diag_wf s"
  shows "\<exists>s' eff. uds_diag_all_devices did_get diag_fun s = Some s' \<and> diag_wf s' \<and>
    s' = s\<lparr>diag_counter := diag_counter s', uds_diag_item_buf := uds_diag_item_buf s', uds_out := uds_out s @ eff\<rparr> \<and>
    (\<forall>j<17. item_state s' j = (if DTCSwitch s = 0 then item_state s j
       else test_item (diag_fun j \<noteq> 0) (item_threshold j) (item_state s j))) \<and>
    eff = (if \<exists>j<17. snd (item_state s j) = 0 \<and> snd (item_state s' j) = 1
           then [RdsUpdate (uds_diag_item_buf s')] else [])"
  using assms by (rule all_devices_wf)

theorem diag_round_refines_counting_witness:
  "\<exists>s'. uds_diag_all_devices (\<lambda>_ dst. (0, dst)) (\<lambda>_. 1) (sample_diag undefined) = Some s' \<and>
     item_state s' 3 = (1, 0)"
proof -
  have "item_threshold 3 = 4"
    by (simp add: item_threshold_def diag_table_def diag_item_def)
  then show ?thesis
    using diag_round_refines_counting [of "sample_diag undefined" "\<lambda>_ dst. (0, dst)" "\<lambda>_. 1"]
      sample_diag_state by auto
qed

lemma find_did_read_only:
  assumes "did \<in> {0xF18C, 0xF1EE, 0xF1EF, 0xF18A, 0xF198, 0xF187, 0xF197, 0xF193, 0xF195, 0xF184,
                  0x460A, 0x460B, 0x460C, 0x460D, 0x09FE}"
  shows "\<exists>a. find_did did = Some a \<and> \<not> did_settable a \<and> did_type a \<noteq> DIAG_DATA_USHORT \<and>
    did_type a \<noteq> DIAG_DATA_UINT"
  using assms by (auto simp: find_did_def diag_did_table_def did_attr_def)

lemma write_read_only_undefined:
  assumes "did \<in> {0xF18C, 0xF1EE, 0xF1EF, 0xF18A, 0xF198, 0xF187, 0xF197, 0xF193, 0xF195, 0xF184,
                  0x460A, 0x460B, 0x460C, 0x460D, 0x09FE}"
    and "map_option did_len (find_did did) = Some (length value)"
  shows "uds_diag_set_did_value did_set did value s = None"
  using find_did_read_only [OF assms(1)] assms(2)
  by (auto simp: uds_diag_set_did_value_def convert_value_def)

text \<open>
  : writing a read-only identifier calls a null pointer. For each of the 15 identifiers of the
  table without a writing function, a write of the right length has undefined behaviour: the code
  checks the identifier and the length but not the pointer.
\<close>

theorem read_only_did_write_undefined:
  "did \<in> {0xF18C, 0xF1EE, 0xF1EF, 0xF18A, 0xF198, 0xF187, 0xF197, 0xF193, 0xF195, 0xF184,
          0x460A, 0x460B, 0x460C, 0x460D, 0x09FE} \<Longrightarrow>
   map_option did_len (find_did did) = Some (length value) \<Longrightarrow>
   uds_diag_set_did_value did_set did value s = None"
  by (rule write_read_only_undefined)

theorem read_only_did_write_undefined_witness:
  "uds_diag_set_did_value (\<lambda>_ _. 0) 0xF18A [1, 2, 3, 4, 5] (sample_diag undefined) = None"
  by (rule read_only_did_write_undefined)
    (simp_all add: find_did_def diag_did_table_def did_attr_def)

end
