(* ===== verification/UdsServices.thy ===== *)
theory UdsServices
  imports UdsDiag
begin

text \<open>
  The diagnostic services, one group of definitions per file of \<open>app/base/uds/server\<close>: session
  control, reset, clearing, reading and switching trouble codes, tester present, communication
  control, reading and writing identifiers, security access with \<open>foton/key_access.c\<close>, routines,
  and the download services.

  A handler gets the request as the receive buffer from its first byte on, which is what the
  pointer of the code reaches, and the length of the request; the buffer is longer than the
  request, and the code reads what an earlier message left there where it does not check the
  length. The clock, the random numbers and the functions of the tables are parameters.
\<close>

definition sub_of :: "byte \<Rightarrow> byte" where
  "sub_of b = b AND suppressPosRspMsgIndicationBitMask"

section \<open>Session control\<close>

definition UDS_SetDTCOn :: "uds_state \<Rightarrow> uds_state" where
  "UDS_SetDTCOn s = s\<lparr>DTCSwitch := 1\<rparr>"

definition UDS_SRV_DiagSessionCtrl :: "byte list \<Rightarrow> nat \<Rightarrow> uds_state \<Rightarrow> uds_state option" where
  "UDS_SRV_DiagSessionCtrl p dlc s = do {
     p0 \<leftarrow> byte_at p 0;
     if dlc \<noteq> 2 then neg p0 NRC_IncorrectMessageLengthOrInvailFormat s
     else do {
       p1 \<leftarrow> byte_at p 1;
       let done = (\<lambda>s. do {
         let u = uds_server s;
         let p2 = timer_value (u_timer_t u ! timer_no P2SERVER);
         let p2e = timer_value (u_timer_t u ! timer_no P2EXT_SERVER);
         respond 6 [p0 + POS_RESPOND_SID_MASK, p1, ucast (drop_bit 8 p2), ucast p2,
                    ucast (drop_bit 8 p2e), ucast p2e] (set_suppress p1 s) });
       if sub_of p1 = SESSION_TYPE_DEFAULT then
         done (UDS_SetDTCOn (s\<lparr>g_u8CurrentSessionType := SESSION_TYPE_DEFAULT,
                              g_u8SecurityAccess := SecurityAccess_LEVEL0\<rparr>))
       else if sub_of p1 = SESSION_TYPE_PROGRAM then
         (if g_u8CurrentSessionType s \<noteq> SESSION_TYPE_DEFAULT
          then done (s\<lparr>g_u8CurrentSessionType := SESSION_TYPE_PROGRAM\<rparr>)
          else neg p0 NRC_ConditionsNotCorrect s)
       else if sub_of p1 = SESSION_TYPE_EXTENDED then
         (if g_u8CurrentSessionType s \<noteq> SESSION_TYPE_PROGRAM
          then done (s\<lparr>g_u8CurrentSessionType := SESSION_TYPE_EXTENDED\<rparr>)
          else neg p0 NRC_ConditionsNotCorrect s)
       else neg p0 NRC_SubFuncationNotSupported s } }"

section \<open>Reset\<close>

definition UDS_SRV_EcuReset :: "byte list \<Rightarrow> nat \<Rightarrow> uds_state \<Rightarrow> uds_state option" where
  "UDS_SRV_EcuReset p dlc s = do {
     p0 \<leftarrow> byte_at p 0;
     if dlc \<noteq> 2 then neg p0 NRC_IncorrectMessageLengthOrInvailFormat s
     else do {
       p1 \<leftarrow> byte_at p 1;
       if sub_of p1 = 0x01 then
         map_option (emit PmRestart4G) (respond 6 [p0 + POS_RESPOND_SID_MASK, p1] (set_suppress p1 s))
       else if sub_of p1 = 0x03 then
         map_option (emit PmRestartApp) (respond 6 [p0 + POS_RESPOND_SID_MASK, p1] (set_suppress p1 s))
       else neg p0 NRC_SubFuncationNotSupported s } }"

section \<open>Trouble codes\<close>

definition UDS_SRV_ClearDTC :: "byte list \<Rightarrow> nat \<Rightarrow> uds_state \<Rightarrow> uds_state option" where
  "UDS_SRV_ClearDTC p dlc s = do {
     p0 \<leftarrow> byte_at p 0;
     if dlc = 4 then do {
       p1 \<leftarrow> byte_at p 1; p2 \<leftarrow> byte_at p 2; p3 \<leftarrow> byte_at p 3;
       let grp = (ucast p1 OR push_bit 8 (ucast p2) OR push_bit 16 (ucast p3) :: u32);
       if grp = 0xFFFFFF then do {
         s1 \<leftarrow> neg p0 NRC_RequestCorrectlyReceivedResponsePending s;
         respond 1 [p0 + POS_RESPOND_SID_MASK] (uds_diag_dtc_clear s1) }
       else neg p0 NRC_RequestOutOfRange s }
     else neg p0 NRC_IncorrectMessageLengthOrInvailFormat s }"

definition UDS_SRV_ControlDTCSetting :: "byte list \<Rightarrow> nat \<Rightarrow> uds_state \<Rightarrow> uds_state option" where
  "UDS_SRV_ControlDTCSetting p dlc s = do {
     p0 \<leftarrow> byte_at p 0;
     if dlc \<noteq> 2 then neg p0 NRC_IncorrectMessageLengthOrInvailFormat s
     else do {
       p1 \<leftarrow> byte_at p 1;
       let done = (\<lambda>s. respond 6 [p0 + POS_RESPOND_SID_MASK, p1] (set_suppress p1 s));
       if sub_of p1 = 0x01 then done (s\<lparr>DTCSwitch := 1\<rparr>)
       else if sub_of p1 = 0x02 then done (s\<lparr>DTCSwitch := 0\<rparr>)
       else neg p0 NRC_SubFuncationNotSupported s } }"

text \<open>\<open>strtoul("0x" dtc, 0, 16)\<close>: the value of the hexadecimal digits up to the first other character.\<close>

definition hex_digit :: "char \<Rightarrow> nat option" where
  "hex_digit c = (let n = (of_char c :: nat) in
     if 48 \<le> n \<and> n \<le> 57 then Some (n - 48)
     else if 65 \<le> n \<and> n \<le> 70 then Some (n - 55)
     else if 97 \<le> n \<and> n \<le> 102 then Some (n - 87) else None)"

fun strtoul16 :: "string \<Rightarrow> nat \<Rightarrow> nat" where
  "strtoul16 [] acc = acc"
| "strtoul16 (c # cs) acc = (case hex_digit c of None \<Rightarrow> acc | Some d \<Rightarrow> strtoul16 cs (16 * acc + d))"

definition ChangeDTCtoInt :: "string \<Rightarrow> u32" where
  "ChangeDTCtoInt dtc = word_of_nat (strtoul16 dtc 0)"

definition statusOfDTC_testfail :: byte where "statusOfDTC_testfail = 1"
definition statusOfDTC_ConfirmedDTC :: byte where "statusOfDTC_ConfirmedDTC = 8"
definition statusOfDTC_both :: byte where
  "statusOfDTC_both = statusOfDTC_testfail OR statusOfDTC_ConfirmedDTC"

definition ReportNumberOfDTCByStatusMask :: "byte list \<Rightarrow> nat \<Rightarrow> uds_state \<Rightarrow> uds_state option" where
  "ReportNumberOfDTCByStatusMask p dlc s = do {
     p0 \<leftarrow> byte_at p 0;
     if dlc \<noteq> 3 then neg p0 NRC_IncorrectMessageLengthOrInvailFormat s
     else do {
       p1 \<leftarrow> byte_at p 1; p2 \<leftarrow> byte_at p 2;
       n \<leftarrow> (if p2 AND statusOfDTC_both = statusOfDTC_both then uds_diag_get_dtc_num s
             else if p2 AND statusOfDTC_testfail \<noteq> 0 then uds_diag_get_uncfm_dtc_num s
             else if p2 AND statusOfDTC_ConfirmedDTC \<noteq> 0 then uds_diag_get_cfm_dtc_num s
             else Some 0);
       let c = (word_of_nat n :: u16);
       respond 6 [p0 + POS_RESPOND_SID_MASK, p1, statusOfDTC_both, 0, ucast (drop_bit 8 c), ucast c] s } }"

text \<open>The four bytes of a code and its status, which three of the reports append for an item.\<close>

definition dtc_bytes :: "nat \<Rightarrow> byte list option" where
  "dtc_bytes j = do {
     dtc \<leftarrow> uds_diag_get_dtc j;
     let v = ChangeDTCtoInt dtc;
     Some [ucast (drop_bit 16 v), ucast (drop_bit 8 v), ucast v] }"

definition dtc_status :: "nat \<Rightarrow> uds_state \<Rightarrow> byte option" where
  "dtc_status j s = do {
     c \<leftarrow> uds_diag_is_cfm_dtc_valid j s;
     u \<leftarrow> uds_diag_is_uncfm_dtc_valid j s;
     Some ((if c \<noteq> 0 then statusOfDTC_ConfirmedDTC else 0) OR (if u \<noteq> 0 then statusOfDTC_testfail else 0)) }"

text \<open>The loops over the items, with the condition \<open>sel\<close> under which an item is reported.\<close>

fun report_items ::
  "(nat \<Rightarrow> bool option) \<Rightarrow> (nat \<Rightarrow> byte list option) \<Rightarrow> nat list \<Rightarrow> byte list option"
where
  "report_items sel entry [] = Some []"
| "report_items sel entry (j # js) = do {
     b \<leftarrow> sel j;
     here \<leftarrow> (if b then entry j else Some []);
     rest \<leftarrow> report_items sel entry js;
     Some (here @ rest) }"

definition code_and_status :: "uds_state \<Rightarrow> nat \<Rightarrow> byte list option" where
  "code_and_status s j = do { d \<leftarrow> dtc_bytes j; st \<leftarrow> dtc_status j s; Some (d @ [st]) }"

definition is_cfm :: "uds_state \<Rightarrow> nat \<Rightarrow> bool option" where
  "is_cfm s j = map_option (\<lambda>c. c \<noteq> 0) (uds_diag_is_cfm_dtc_valid j s)"

definition is_uncfm :: "uds_state \<Rightarrow> nat \<Rightarrow> bool option" where
  "is_uncfm s j = map_option (\<lambda>c. c \<noteq> 0) (uds_diag_is_uncfm_dtc_valid j s)"

definition ReportDTC_testfail_Or_Confirmed :: "byte list \<Rightarrow> uds_state \<Rightarrow> uds_state option" where
  "ReportDTC_testfail_Or_Confirmed p s = do {
     p0 \<leftarrow> byte_at p 0; p1 \<leftarrow> byte_at p 1;
     items \<leftarrow> report_items (\<lambda>j. do { c \<leftarrow> is_cfm s j; u \<leftarrow> is_uncfm s j; Some (c \<or> u) })
               (code_and_status s) [0..<DIAG_ITEM_NUM];
     respond 200 ([p0 + POS_RESPOND_SID_MASK, p1, statusOfDTC_both] @ items) s }"

definition ReportDTC_testfail :: "byte list \<Rightarrow> uds_state \<Rightarrow> uds_state option" where
  "ReportDTC_testfail p s = do {
     p0 \<leftarrow> byte_at p 0; p1 \<leftarrow> byte_at p 1;
     items \<leftarrow> report_items (is_uncfm s) (code_and_status s) [0..<DIAG_ITEM_NUM];
     respond 200 ([p0 + POS_RESPOND_SID_MASK, p1, statusOfDTC_both] @ items) s }"

definition ReportDTC__Confirmed :: "byte list \<Rightarrow> uds_state \<Rightarrow> uds_state option" where
  "ReportDTC__Confirmed p s = do {
     p0 \<leftarrow> byte_at p 0; p1 \<leftarrow> byte_at p 1;
     items \<leftarrow> report_items (is_cfm s) (code_and_status s) [0..<DIAG_ITEM_NUM];
     respond 200 ([p0 + POS_RESPOND_SID_MASK, p1, statusOfDTC_both] @ items) s }"

definition ReportDTCByStatusMask :: "byte list \<Rightarrow> nat \<Rightarrow> uds_state \<Rightarrow> uds_state option" where
  "ReportDTCByStatusMask p dlc s = do {
     p0 \<leftarrow> byte_at p 0;
     if dlc \<noteq> 3 then neg p0 NRC_IncorrectMessageLengthOrInvailFormat s
     else do {
       p1 \<leftarrow> byte_at p 1; p2 \<leftarrow> byte_at p 2;
       if p2 AND statusOfDTC_both = 0 then respond 3 [p0 + POS_RESPOND_SID_MASK, p1, statusOfDTC_both] s
       else if p2 AND statusOfDTC_both = statusOfDTC_both then ReportDTC_testfail_Or_Confirmed p s
       else if p2 AND statusOfDTC_testfail \<noteq> 0 then ReportDTC_testfail p s
       else if p2 AND statusOfDTC_ConfirmedDTC \<noteq> 0 then ReportDTC__Confirmed p s
       else Some s } }"

text \<open>\<open>GetDTCSnapshotRecordNumber\<close> numbers the confirmed items from 1.\<close>

fun number_items :: "(nat \<Rightarrow> bool option) \<Rightarrow> nat list \<Rightarrow> u32 \<Rightarrow> u32 list option" where
  "number_items sel [] start_index = Some []"
| "number_items sel (j # js) start_index = do {
     b \<leftarrow> sel j;
     rest \<leftarrow> number_items sel js (if b then start_index + 1 else start_index);
     Some ((if b then start_index else 0xFFFFFFFF) # rest) }"

definition GetDTCSnapshotRecordNumber :: "uds_state \<Rightarrow> uds_state option" where
  "GetDTCSnapshotRecordNumber s = do {
     idx \<leftarrow> number_items (is_cfm s) [0..<DIAG_ITEM_NUM] 1;
     Some (s\<lparr>DTC_index := idx\<rparr>) }"

definition ReportDTCSnapshotIdentification :: "byte list \<Rightarrow> nat \<Rightarrow> uds_state \<Rightarrow> uds_state option" where
  "ReportDTCSnapshotIdentification p dlc s = do {
     p0 \<leftarrow> byte_at p 0;
     if dlc \<noteq> 2 then neg p0 NRC_IncorrectMessageLengthOrInvailFormat s
     else do {
       p1 \<leftarrow> byte_at p 1;
       s1 \<leftarrow> GetDTCSnapshotRecordNumber s;
       items \<leftarrow> report_items (is_cfm s1)
         (\<lambda>j. do { d \<leftarrow> dtc_bytes j; x \<leftarrow> byte_at (DTC_index s1) j; Some (d @ [ucast x]) })
         [0..<DIAG_ITEM_NUM];
       respond 200 ([p0 + POS_RESPOND_SID_MASK, p1] @ items) s1 } }"

text \<open>
  The search of \<open>DTCSnapshotRecordNumberAndDTCRecordIsValid\<close>: \<^const>\<open>None\<close> inside for its result
  -1, otherwise the record number, the frame, its length and its number of identifiers.
\<close>

fun find_record ::
  "u32 \<Rightarrow> u32 \<Rightarrow> byte list \<Rightarrow> nat \<Rightarrow> nat list \<Rightarrow> uds_state \<Rightarrow>
   ((u32 \<times> byte list \<times> nat \<times> nat) option \<times> uds_state) option"
where
  "find_record number rec DIDptr len [] s = Some (None, s)"
| "find_record number rec DIDptr len (j # js) s = do {
     c \<leftarrow> is_cfm s j;
     if \<not> c then find_record number rec DIDptr len js s
     else do {
       dtc \<leftarrow> uds_diag_get_dtc j;
       x \<leftarrow> byte_at (DTC_index s) j;
       if ChangeDTCtoInt dtc = rec \<and> (x = number \<or> number = 0xFF) then do {
         (number', s1) \<leftarrow> (if number = 0xFF
            then do { t \<leftarrow> GetDTCSnapshotRecordNumber s; y \<leftarrow> byte_at (DTC_index t) j; Some (y, t) }
            else Some (number, s));
         (_, frz, len', n) \<leftarrow> uds_diag_get_freeze j DIDptr len s1;
         Some (Some (number', frz, len', n), s1) }
       else find_record number rec DIDptr len js s } }"

definition ReportDTCSnapshotRecordByDTCNumber :: "byte list \<Rightarrow> nat \<Rightarrow> uds_state \<Rightarrow> uds_state option" where
  "ReportDTCSnapshotRecordByDTCNumber p dlc s = do {
     p0 \<leftarrow> byte_at p 0;
     if dlc \<noteq> 6 then neg p0 NRC_IncorrectMessageLengthOrInvailFormat s
     else do {
       p1 \<leftarrow> byte_at p 1; p2 \<leftarrow> byte_at p 2; p3 \<leftarrow> byte_at p 3; p4 \<leftarrow> byte_at p 4; p5 \<leftarrow> byte_at p 5;
       let rec = push_bit 16 (ucast p2) + push_bit 8 (ucast p3) + ucast p4;
       (found, s1) \<leftarrow> find_record (ucast p5) rec (replicate 200 (stack_byte s)) 200 [0..<DIAG_ITEM_NUM] s;
       (case found of
         None \<Rightarrow> neg p0 NRC_RequestOutOfRange s1
       | Some (number, frz, len, n) \<Rightarrow> do {
           frame \<leftarrow> subarray frz 0 len;
           respond 200 ([p0 + POS_RESPOND_SID_MASK, p1, p2, p3, p4, statusOfDTC_both, ucast number,
                         word_of_nat n] @ frame) s1 }) } }"

definition ReadSupportedDTCs :: "byte list \<Rightarrow> nat \<Rightarrow> uds_state \<Rightarrow> uds_state option" where
  "ReadSupportedDTCs p dlc s = do {
     p0 \<leftarrow> byte_at p 0;
     if dlc \<noteq> 2 then neg p0 NRC_IncorrectMessageLengthOrInvailFormat s
     else do {
       p1 \<leftarrow> byte_at p 1;
       items \<leftarrow> report_items (\<lambda>_. Some True) (code_and_status s) [0..<DIAG_ITEM_NUM];
       respond 200 ([p0 + POS_RESPOND_SID_MASK, p1, statusOfDTC_both] @ items) s } }"

definition UDS_SRV_ReadDTC :: "byte list \<Rightarrow> nat \<Rightarrow> uds_state \<Rightarrow> uds_state option" where
  "UDS_SRV_ReadDTC p dlc s = do {
     p0 \<leftarrow> byte_at p 0;
     if dlc < 2 then neg p0 NRC_IncorrectMessageLengthOrInvailFormat s
     else do {
       p1 \<leftarrow> byte_at p 1;
       if p1 = 0x01 then ReportNumberOfDTCByStatusMask p dlc s
       else if p1 = 0x02 then ReportDTCByStatusMask p dlc s
       else if p1 = 0x03 then ReportDTCSnapshotIdentification p dlc s
       else if p1 = 0x04 then ReportDTCSnapshotRecordByDTCNumber p dlc s
       else if p1 = 0x0A then ReadSupportedDTCs p dlc s
       else neg p0 NRC_SubFuncationNotSupported s } }"

section \<open>Tester present and communication control\<close>

definition UDS_SRV_TesterPresent :: "byte list \<Rightarrow> nat \<Rightarrow> uds_state \<Rightarrow> uds_state option" where
  "UDS_SRV_TesterPresent p dlc s = do {
     p0 \<leftarrow> byte_at p 0;
     if dlc \<noteq> 2 then neg p0 NRC_IncorrectMessageLengthOrInvailFormat s
     else do {
       p1 \<leftarrow> byte_at p 1;
       if sub_of p1 = 0 then respond 2 [p0 + POS_RESPOND_SID_MASK, p1] (set_suppress p1 s)
       else neg p0 NRC_SubFuncationNotSupported s } }"

definition UDS_RecoverCANTxRxDefaultStatus :: "uds_state \<Rightarrow> uds_state" where
  "UDS_RecoverCANTxRxDefaultStatus s = s\<lparr>g_TxFlag := 1, g_RxFlag := 1\<rparr>"

definition UDS_DisableCANTxRx :: "uds_state \<Rightarrow> uds_state" where
  "UDS_DisableCANTxRx s = s\<lparr>g_TxFlag := 0, g_RxFlag := 0\<rparr>"

text \<open>The branches behind \<open>if (1)\<close>, which cannot be reached, are left out.\<close>

definition UDS_SRV_CommunicationControl :: "byte list \<Rightarrow> nat \<Rightarrow> uds_state \<Rightarrow> uds_state option" where
  "UDS_SRV_CommunicationControl p dlc s = do {
     p0 \<leftarrow> byte_at p 0;
     if dlc \<noteq> 3 then neg p0 NRC_IncorrectMessageLengthOrInvailFormat s
     else do {
       p1 \<leftarrow> byte_at p 1; p2 \<leftarrow> byte_at p 2;
       let normal = (p2 = 0x01);
       let done = (\<lambda>s. if normal then respond 2 [p0 + POS_RESPOND_SID_MASK, p1] (set_suppress p1 s)
                       else neg p0 NRC_RequestOutOfRange s);
       if sub_of p1 = 0x00 then done (if normal then s\<lparr>g_TxFlag := 1, g_RxFlag := 1\<rparr> else s)
       else if sub_of p1 = 0x01 then done (if normal then s\<lparr>g_RxFlag := 1, g_TxFlag := 0\<rparr> else s)
       else if sub_of p1 = 0x02 then done (if normal then s\<lparr>g_RxFlag := 0, g_TxFlag := 1\<rparr> else s)
       else if sub_of p1 = 0x03 then
         done ((if normal then s\<lparr>g_RxFlag := 0, g_TxFlag := 0\<rparr> else s)\<lparr>comm_i := 0\<rparr>)
       else neg p0 NRC_SubFuncationNotSupported s } }"

section \<open>Data identifiers\<close>

text \<open>The reply is built in the static array \<open>rbi_buf\<close>, in which the value is read in place.\<close>

definition UDS_SRV_ReadDataByID ::
  "(u16 \<Rightarrow> byte list \<Rightarrow> int \<times> byte list) \<Rightarrow> byte list \<Rightarrow> nat \<Rightarrow> uds_state \<Rightarrow> uds_state option"
where
  "UDS_SRV_ReadDataByID did_get p dlc s = do {
     p0 \<leftarrow> byte_at p 0;
     if dlc \<noteq> 3 \<or> dlc mod 2 = 0 then neg p0 NRC_IncorrectMessageLengthOrInvailFormat s
     else do {
       p1 \<leftarrow> byte_at p 1; p2 \<leftarrow> byte_at p 2;
       let did = (push_bit 8 (ucast p1) + ucast p2 :: u16);
       buf \<leftarrow> blit (rbi_buf s) 0 [p0 + POS_RESPOND_SID_MASK, ucast (drop_bit 8 did), ucast did] 3;
       (ret, out, len) \<leftarrow> uds_diag_get_did_value did_get did (drop 3 buf);
       let s1 = s\<lparr>rbi_buf := take 3 buf @ out\<rparr>;
       if ret \<noteq> 0 then neg p0 NRC_RequestOutOfRange s1
       else pos (rbi_buf s1) (word_of_nat (3 + len)) s1 } }"

definition UDS_SRV_WriteDataByID ::
  "(u16 \<Rightarrow> byte list \<Rightarrow> int) \<Rightarrow> byte list \<Rightarrow> nat \<Rightarrow> uds_state \<Rightarrow> uds_state option"
where
  "UDS_SRV_WriteDataByID did_set p dlc s = do {
     p0 \<leftarrow> byte_at p 0;
     if dlc < 3 then neg p0 NRC_IncorrectMessageLengthOrInvailFormat s
     else do {
       p1 \<leftarrow> byte_at p 1; p2 \<leftarrow> byte_at p 2;
       let did = (push_bit 8 (ucast p1) + ucast p2 :: u16);
       s1 \<leftarrow> neg p0 NRC_RequestCorrectlyReceivedResponsePending s;
       value \<leftarrow> subarray p 3 (dlc - 3);
       (ret, s2) \<leftarrow> uds_diag_set_did_value did_set did value s1;
       if ret \<noteq> 0 then neg p0 ret s2
       else respond 3 [p0 + POS_RESPOND_SID_MASK, p1, p2] s2 } }"

section \<open>Security access\<close>

definition wconst1 :: u32 where "wconst1 = 0x0949a2b1"
definition wconst2 :: u32 where "wconst2 = 0x5f3b08de"

text \<open>
  The products are computed as \<open>int\<close>, where they do not overflow, and cut to a byte, which is
  arithmetic on bytes.
\<close>

definition saGetKey :: "u32 \<Rightarrow> byte \<Rightarrow> u32" where
  "saGetKey wSeed mode =
     (if mode \<noteq> 2 \<and> mode \<noteq> 4 then 0
      else let wConst = (if mode = 2 then wconst1 else wconst2);
        s0 = ucast (drop_bit 24 (wSeed AND 0xff000000)) :: byte;
        s1 = ucast (drop_bit 16 (wSeed AND 0x00ff0000)) :: byte;
        s2 = ucast (drop_bit 8 (wSeed AND 0x0000ff00)) :: byte;
        s3 = ucast (wSeed AND 0x000000ff) :: byte;
        c3 = ucast (drop_bit 24 (wConst AND 0xff000000)) :: byte;
        c2 = ucast (drop_bit 16 (wConst AND 0x00ff0000)) :: byte;
        c1 = ucast (drop_bit 8 (wConst AND 0x0000ff00)) :: byte;
        c0 = ucast (wConst AND 0x000000ff) :: byte;
        k0 = c0 * (s0 * s0) + c1 * (s1 * s1) + c2 * (s0 * s1);
        k1 = c0 * s0 + c1 * s1 + c3 * (s0 * s1);
        k2 = c0 * (s2 * s3) + c1 * (s3 * s3) + c2 * (s2 * s3);
        k3 = c0 * (s2 * s3) + c1 * s3 + c3 * (s2 * s3)
      in (ucast k3 AND 0x000000ff) + (push_bit 8 (ucast k2) AND 0x0000ff00)
         + (push_bit 16 (ucast k1) AND 0x00ff0000) + (push_bit 24 (ucast k0) AND 0xff000000))"

text \<open>A request for a seed, the code of the first two cases.\<close>

definition sa_fail :: "uds_state \<Rightarrow> uds_state" where
  "sa_fail s = (let n = SecrityAccessFailCounter s + 1
     in s\<lparr>SecrityAccessFailCounter := n, sa_time := (if n = 3 then sa_current_time s else sa_time s)\<rparr>)"

definition sa_request_seed ::
  "(u32 \<Rightarrow> u32) \<Rightarrow> byte \<Rightarrow> byte \<Rightarrow> nat \<Rightarrow> uds_state \<Rightarrow> uds_state option"
where
  "sa_request_seed rand p0 p1 dlc s =
     (if dlc \<noteq> 2 then neg p0 NRC_IncorrectMessageLengthOrInvailFormat s
      else let s1 =
          (if sa_flag s = 1 then sa_fail s
           else let arg = sa_current_time s + ucast (sa_counter s);
                    t = s\<lparr>sa_counter := sa_counter s + 1\<rparr>
             in if g_u8SecurityAccess t = SecurityAccess_LEVEL0
                then t\<lparr>sa_seed := rand arg, sa_flag := 1\<rparr>
                else t\<lparr>sa_seed := 0\<rparr>);
          sd = sa_seed s1
        in respond 10 [p0 + POS_RESPOND_SID_MASK, p1, ucast (drop_bit 24 sd), ucast (drop_bit 16 sd),
                       ucast (drop_bit 8 sd), ucast sd] (set_suppress p1 s1))"

text \<open>
  A key, the code of the cases for level 1 and 2. \<open>mode\<close> selects the key constants; the level is
  set when the whole byte \<open>p1\<close>, suppress bit included, equals \<open>unlock\<close>.
\<close>

definition sa_check_key ::
  "byte \<Rightarrow> byte \<Rightarrow> byte \<Rightarrow> byte list \<Rightarrow> byte \<Rightarrow> byte \<Rightarrow> nat \<Rightarrow> uds_state \<Rightarrow> uds_state option"
where
  "sa_check_key mode unlock level p p0 p1 dlc s =
     (if dlc \<noteq> 6 then neg p0 NRC_IncorrectMessageLengthOrInvailFormat s
      else if sa_flag s = 0 then neg p0 NRC_RequstSequenceError s
      else if 3 \<le> sa_attempt s then neg p0 NRC_ExceedNumberOfAttempts (s\<lparr>sa_flag := 0\<rparr>)
      else do {
        p2 \<leftarrow> byte_at p 2; p3 \<leftarrow> byte_at p 3; p4 \<leftarrow> byte_at p 4; p5 \<leftarrow> byte_at p 5;
        let key1 = push_bit 24 (ucast p2) + push_bit 16 (ucast p3) + push_bit 8 (ucast p4) + ucast p5;
        let key2 = saGetKey (sa_seed s) mode;
        if key1 = key2 then
          (let s1 = s\<lparr>sa_flag := 0\<rparr>;
               s2 = (if p1 = unlock then s1\<lparr>g_u8SecurityAccess := level, SecrityAccessFailCounter := 0\<rparr>
                     else s1)
           in respond 10 [p0 + POS_RESPOND_SID_MASK, p1] (set_suppress p1 s2))
        else do {
          s1 \<leftarrow> neg p0 NRC_InvalidKey s;
          let s2 = sa_fail s1;
          Some (s2\<lparr>sa_attempt := sa_attempt s2 + 1\<rparr>) } })"

text \<open>\<open>now\<close> and \<open>now'\<close> are what the two calls of \<open>tm_get_time\<close> return, in milliseconds.\<close>

definition UDS_SRV_SecrityAcess ::
  "u64 \<Rightarrow> u64 \<Rightarrow> (u32 \<Rightarrow> u32) \<Rightarrow> byte list \<Rightarrow> nat \<Rightarrow> uds_state \<Rightarrow> uds_state option"
where
  "UDS_SRV_SecrityAcess now now' rand p dlc s = do {
     p0 \<leftarrow> byte_at p 0;
     if dlc < 2 then neg p0 NRC_IncorrectMessageLengthOrInvailFormat s
     else if now < 900 then neg p0 NRC_RequiredTimeDelayNotExpired s
     else do {
       let s1 = s\<lparr>sa_current_time := ucast (now' div 1000)\<rparr>;
       if 3 \<le> SecrityAccessFailCounter s1 \<and> sa_current_time s1 - sa_time s1 < 10
       then neg p0 NRC_RequiredTimeDelayNotExpired s1
       else do {
         let s2 = (if 3 \<le> SecrityAccessFailCounter s1
                   then s1\<lparr>SecrityAccessFailCounter := SecrityAccessFailCounter s1 - 1\<rparr> else s1);
         p1 \<leftarrow> byte_at p 1;
         if sub_of p1 = 0x01 \<or> sub_of p1 = 0x03 then sa_request_seed rand p0 p1 dlc s2
         else if sub_of p1 = 0x02 then sa_check_key 2 0x02 SecurityAccess_LEVEL1 p p0 p1 dlc s2
         else if sub_of p1 = 0x04 then sa_check_key 4 0x12 SecurityAccess_LEVEL2 p p0 p1 dlc s2
         else neg p0 NRC_SubFuncationNotSupported s2 } } }"

section \<open>Routines\<close>

text \<open>
  The loops of the routine \<open>EraseMemory\<close>: step \<open>i\<close> shifts the value by \<open>i * 8\<close> and puts in the next
  byte of the request. A shift of 32 or more is undefined.
\<close>

fun erase_loop :: "nat \<Rightarrow> nat \<Rightarrow> nat \<Rightarrow> byte list \<Rightarrow> u32 \<Rightarrow> u32 option" where
  "erase_loop 0 i k p v = Some v"
| "erase_loop (Suc n) i k p v =
     (if 32 \<le> i * 8 then None
      else do { b \<leftarrow> byte_at p k; erase_loop n (Suc i) (Suc k) p (push_bit (i * 8) v OR ucast b) })"

text \<open>
  The waiting loop of the routine \<open>CheckLeanTuKey\<close>. Each element of \<open>polls\<close> is one pass: what the
  first call of \<open>tm_get_time\<close> returns, the flag another thread sets, and what the second call
  returns. A list that ends before the loop does is not a run of it and gives \<^const>\<open>None\<close>.
\<close>

fun tukey_loop :: "byte \<Rightarrow> u64 \<Rightarrow> (u64 \<times> byte \<times> u64) list \<Rightarrow> uds_state \<Rightarrow> uds_state option" where
  "tukey_loop p0 start [] s = None"
| "tukey_loop p0 start ((t, flag, t') # polls) s =
     (let s1 = s\<lparr>tu_key_check_flag_finish := flag\<rparr>
      in if 5000 < t - start \<or> flag = 1 then Some s1
         else if (t' - start) mod 20 = 0 then do {
           s2 \<leftarrow> neg p0 NRC_RequestCorrectlyReceivedResponsePending s1;
           tukey_loop p0 start polls s2 }
         else tukey_loop p0 start polls s1)"

text \<open>
  \<open>t0\<close> is the result of the call of \<open>tm_get_time\<close> before the loop, kept in an \<open>int\<close>, and so cut to
  32 bits and extended with its sign when it is subtracted.
\<close>

definition UDS_SRV_RoutineControl ::
  "u64 \<Rightarrow> (u64 \<times> byte \<times> u64) list \<Rightarrow> byte list \<Rightarrow> nat \<Rightarrow> uds_state \<Rightarrow> uds_state option"
where
  "UDS_SRV_RoutineControl t0 polls p dlc s = do {
     p0 \<leftarrow> byte_at p 0;
     if dlc < 4 then neg p0 NRC_IncorrectMessageLengthOrInvailFormat s
     else do {
       p1 \<leftarrow> byte_at p 1;
       if p1 \<noteq> 0x01 then neg p0 NRC_SubFuncationNotSupported s
       else do {
         p2 \<leftarrow> byte_at p 2; p3 \<leftarrow> byte_at p 3;
         let funvalue = (push_bit 8 (ucast p2) + ucast p3 :: u32);
         let hd4 = [p0 + POS_RESPOND_SID_MASK, p1, p2, p3];
         if funvalue = 0x0202 then
           respond 6 (hd4 @ [stack_byte s]) (s\<lparr>TransferDataConfig := zero_transfer\<rparr>)
         else if funvalue = 0x0203 then respond 6 hd4 s
         else if funvalue = 0xFF00 then
           (if erasememoryflag s = 0 then neg p0 NRC_GeneralProgrammingFailure s
            else do {
              p4 \<leftarrow> byte_at p 4;
              let alen = unat (p4 AND 0x0f);
              let slen = unat (drop_bit 4 p4 AND 0x0f);
              let cfg = TransferDataConfig s;
              addr \<leftarrow> erase_loop alen 0 5 p (ErasememoryAddress cfg);
              sz \<leftarrow> erase_loop slen 0 (5 + alen) p (ErasememorySize cfg);
              respond 6 (hd4 @ [0]) (s\<lparr>TransferDataConfig :=
                cfg\<lparr>ErasememoryAddress := addr, ErasememorySize := sz\<rparr>\<rparr>) })
         else if funvalue = 0xFF01 then
           (if erasememoryflag s = 1 then respond 6 (hd4 @ [0]) (s\<lparr>erasememoryflag := 0\<rparr>)
            else respond 6 (hd4 @ [1]) s)
         else if funvalue = 0xA400 then do {
           s1 \<leftarrow> neg p0 NRC_RequestCorrectlyReceivedResponsePending s;
           s2 \<leftarrow> tukey_loop p0 (scast (ucast t0 :: u32)) polls (emit TuKeyRequest s1);
           respond 6 (hd4 @ [tu_key_check_flag_finish s2]) (s2\<lparr>tu_key_check_flag_finish := 0\<rparr>) }
         else neg p0 NRC_RequestOutOfRange s } } }"

section \<open>Download\<close>

text \<open>
  The functions of the three download services. The dispatch table does not lead to them but to
  empty functions.
\<close>

definition maxNumberOfBlockLength :: u32 where "maxNumberOfBlockLength = 0x0402"

fun shift_in :: "nat \<Rightarrow> nat \<Rightarrow> byte list \<Rightarrow> u32 \<Rightarrow> u32 option" where
  "shift_in 0 k p v = Some v"
| "shift_in (Suc n) k p v = do { b \<leftarrow> byte_at p k; shift_in n (Suc k) p (push_bit 8 v OR ucast b) }"

definition UDS_SRV_RequestDownload :: "byte list \<Rightarrow> nat \<Rightarrow> uds_state \<Rightarrow> uds_state option" where
  "UDS_SRV_RequestDownload p dlc s = do {
     p0 \<leftarrow> byte_at p 0; p1 \<leftarrow> byte_at p 1; p2 \<leftarrow> byte_at p 2;
     let alen = unat (p2 AND 0x0f);
     let slen = unat (drop_bit 4 p2 AND 0x0f);
     if dlc \<noteq> 3 + alen + slen then neg p0 NRC_IncorrectMessageLengthOrInvailFormat s
     else if p1 \<noteq> 0 then neg p0 NRC_RequestOutOfRange s
     else do {
       let cfg = TransferDataConfig s;
       addr \<leftarrow> shift_in alen 3 p (ProgrammemoryAddress cfg);
       sz \<leftarrow> shift_in slen (3 + alen) p (ProgrammemorySize cfg);
       respond 6 [p0 + POS_RESPOND_SID_MASK, 0x20, ucast (drop_bit 8 maxNumberOfBlockLength),
                  ucast maxNumberOfBlockLength]
         (s\<lparr>TransferDataConfig := cfg\<lparr>ProgrammemoryAddress := addr, ProgrammemorySize := sz,
                                     blockSequenceCounter := 1, TransferStatus := 0\<rparr>\<rparr>) } }"

definition UDS_SRV_TransferData :: "byte list \<Rightarrow> nat \<Rightarrow> uds_state \<Rightarrow> uds_state option" where
  "UDS_SRV_TransferData p dlc s = do {
     p0 \<leftarrow> byte_at p 0;
     if unat maxNumberOfBlockLength < dlc then neg p0 NRC_IncorrectMessageLengthOrInvailFormat s
     else do {
       p1 \<leftarrow> byte_at p 1;
       let cfg = TransferDataConfig s;
       if blockSequenceCounter cfg \<noteq> p1 then
         (if p1 \<le> blockSequenceCounter cfg then respond 6 [p0 + POS_RESPOND_SID_MASK, p1] s
          else neg p0 0x73 s)
       else if dlc < 2 then None
       else do {
         block \<leftarrow> subarray p 2 (dlc - 2);
         d \<leftarrow> blit (transfer_data cfg) (unat (datasize cfg)) block (dlc - 2);
         respond 6 [p0 + POS_RESPOND_SID_MASK, p1]
           (s\<lparr>TransferDataConfig := cfg\<lparr>blockSequenceCounter := blockSequenceCounter cfg + 1,
              transfer_data := d, datasize := datasize cfg + word_of_nat (dlc - 2)\<rparr>\<rparr>) } } }"

definition UDS_SRV_RequestTransferExit :: "nat \<Rightarrow> byte list \<Rightarrow> uds_state \<Rightarrow> uds_state option" where
  "UDS_SRV_RequestTransferExit dlc p s = do {
     let s1 = s\<lparr>TransferDataConfig := (TransferDataConfig s)\<lparr>blockSequenceCounter := 1, TransferStatus := 1\<rparr>\<rparr>;
     p0 \<leftarrow> byte_at p 0;
     if dlc \<noteq> 1 then neg p0 NRC_IncorrectMessageLengthOrInvailFormat s1
     else respond 2 [p0 + POS_RESPOND_SID_MASK] s1 }"

section \<open>The invariant of the module\<close>

lemma pos_replies:
  assumes "uds_wf s" "0 < unat dlc" "unat dlc \<le> length arr" "unat dlc \<le> 235"
  shows "\<exists>s'. pos arr dlc s = Some s' \<and>
    reply (if g_u8suppressFlag s = 1 \<and> arr ! 0 \<noteq> SID_NegativeResponse then [] else [take (unat dlc) arr]) s s'"
proof (cases "g_u8suppressFlag s = 1 \<and> arr ! 0 \<noteq> SID_NegativeResponse")
  case True
  moreover have "arr \<noteq> []" using assms(2,3) by auto
  moreover have "reply [] s (s\<lparr>g_u8suppressFlag := 0\<rparr>)"
    unfolding reply_def by (intro exI [of _ "uds_server s"] exI [of _ "[]"]) simp
  ultimately show ?thesis
    using assms pos_suppressed [of s arr dlc] by (auto simp: UDS_SERVER_MAX_BYTE_def)
next
  case False
  then show ?thesis using server_reply [OF assms] by (auto simp: pos_def)
qed

lemma respond_replies:
  assumes "uds_wf s" "bytes \<noteq> []" "length bytes \<le> n" "length bytes \<le> 235"
  shows "\<exists>s'. respond n bytes s = Some s' \<and>
    reply (if g_u8suppressFlag s = 1 \<and> hd bytes \<noteq> SID_NegativeResponse then [] else [bytes]) s s'"
proof -
  have len: "unat (word_of_nat (length bytes) :: u16) = length bytes"
    using assms(4) by (simp add: unat_of_nat)
  have arr: "(bytes @ replicate (n - length bytes) (stack_byte s)) ! 0 = hd bytes"
    "take (length bytes) (bytes @ replicate (n - length bytes) (stack_byte s)) = bytes"
    using assms(2) by (simp_all add: nth_append hd_conv_nth)
  have "respond n bytes s = pos (bytes @ replicate (n - length bytes) (stack_byte s)) (word_of_nat (length bytes)) s"
    using assms(3) by (simp add: respond_def stack_array_def)
  then show ?thesis
    using pos_replies [of s "word_of_nat (length bytes)" "bytes @ replicate (n - length bytes) (stack_byte s)",
        OF assms(1), unfolded len arr] assms by simp
qed

text \<open>
  What holds between the steps of the module: the configuration of the server, the layout of the
  record of codes, the sizes of the buffers, and of the access state that a session is one of
  three, the security level is 0 or 1, the default session has level 0, and no memory is marked
  as erased.
\<close>

definition access_ok :: "uds_state \<Rightarrow> bool" where
  "access_ok s \<longleftrightarrow>
     g_u8CurrentSessionType s \<in> {SESSION_TYPE_DEFAULT, SESSION_TYPE_PROGRAM, SESSION_TYPE_EXTENDED} \<and>
     g_u8SecurityAccess s \<in> {SecurityAccess_LEVEL0, SecurityAccess_LEVEL1} \<and>
     (g_u8CurrentSessionType s = SESSION_TYPE_DEFAULT \<longrightarrow> g_u8SecurityAccess s = SecurityAccess_LEVEL0)"

definition uds_ok :: "uds_state \<Rightarrow> bool" where
  "uds_ok s \<longleftrightarrow> uds_wf s \<and> diag_wf s \<and> access_ok s \<and> erasememoryflag s = 0 \<and>
     length (DTC_index s) = 17 \<and> length (rbi_buf s) = 2000 \<and> length (uds_msgbuf s) = 2048"

definition runs :: "uds_state option \<Rightarrow> bool" where
  "runs r \<longleftrightarrow> (\<exists>s'. r = Some s' \<and> uds_ok s' \<and> g_u8suppressFlag s' = 0)"

lemma reply_ok:
  assumes "reply ps s s'" "uds_ok s"
  shows "uds_ok s' \<and> g_u8suppressFlag s' = 0"
  using assms reply_wf [OF assms(1)]
  by (auto simp: uds_ok_def reply_def diag_wf_def access_ok_def)

lemma neg_runs: "uds_ok s \<Longrightarrow> runs (neg a b s)"
  using neg_reply [of s a b] reply_ok by (fastforce simp: runs_def uds_ok_def)

lemma respond_runs:
  "uds_ok s \<Longrightarrow> bytes \<noteq> [] \<Longrightarrow> length bytes \<le> n \<Longrightarrow> length bytes \<le> 235 \<Longrightarrow> runs (respond n bytes s)"
  using respond_replies [of s bytes n] reply_ok by (fastforce simp: runs_def uds_ok_def)

lemma pos_runs:
  "uds_ok s \<Longrightarrow> 0 < unat dlc \<Longrightarrow> unat dlc \<le> length arr \<Longrightarrow> unat dlc \<le> 235 \<Longrightarrow> runs (pos arr dlc s)"
  using pos_replies [of s dlc arr] reply_ok by (fastforce simp: runs_def uds_ok_def)

lemma runs_emit: "runs r \<Longrightarrow> runs (map_option (emit e) r)"
  by (auto simp: runs_def emit_def uds_ok_def uds_wf_def diag_wf_def access_ok_def)

lemma runs_bind:
  "runs r \<Longrightarrow> (\<And>s'. uds_ok s' \<Longrightarrow> g_u8suppressFlag s' = 0 \<Longrightarrow> runs (f s')) \<Longrightarrow> runs (r \<bind> f)"
  by (auto simp: runs_def)

text \<open>Changes of the state that keep the invariant.\<close>

lemma uds_ok_simps [simp]:
  "uds_ok (s\<lparr>g_u8suppressFlag := v1\<rparr>) = uds_ok s"
  "uds_ok (s\<lparr>DTCSwitch := v2\<rparr>) = uds_ok s"
  "uds_ok (s\<lparr>g_TxFlag := v3\<rparr>) = uds_ok s"
  "uds_ok (s\<lparr>g_RxFlag := v4\<rparr>) = uds_ok s"
  "uds_ok (s\<lparr>comm_i := v5\<rparr>) = uds_ok s"
  "uds_ok (s\<lparr>sa_flag := v6\<rparr>) = uds_ok s"
  "uds_ok (s\<lparr>sa_counter := v7\<rparr>) = uds_ok s"
  "uds_ok (s\<lparr>SecrityAccessFailCounter := v8\<rparr>) = uds_ok s"
  "uds_ok (s\<lparr>sa_time := v9\<rparr>) = uds_ok s"
  "uds_ok (s\<lparr>sa_seed := v10\<rparr>) = uds_ok s"
  "uds_ok (s\<lparr>sa_attempt := v11\<rparr>) = uds_ok s"
  "uds_ok (s\<lparr>sa_current_time := v12\<rparr>) = uds_ok s"
  "uds_ok (s\<lparr>TransferDataConfig := v13\<rparr>) = uds_ok s"
  "uds_ok (s\<lparr>tu_key_check_flag_finish := v14\<rparr>) = uds_ok s"
  "uds_ok (emit e s) = uds_ok s"
  by (simp_all add: uds_ok_def uds_wf_def diag_wf_def access_ok_def emit_def)

lemma emit_suppress [simp]: "g_u8suppressFlag (emit e s) = g_u8suppressFlag s"
  by (simp add: emit_def)

lemma uds_ok_set_suppress [simp]: "uds_ok (set_suppress b s) = uds_ok s"
  by (simp add: set_suppress_def)

lemma uds_ok_session:
  "uds_ok s \<Longrightarrow> v \<in> {SESSION_TYPE_PROGRAM, SESSION_TYPE_EXTENDED} \<Longrightarrow> uds_ok (s\<lparr>g_u8CurrentSessionType := v\<rparr>)"
  by (auto simp: uds_ok_def uds_wf_def diag_wf_def access_ok_def uds_const_defs)

lemma uds_ok_default:
  "uds_ok s \<Longrightarrow> uds_ok (s\<lparr>g_u8CurrentSessionType := SESSION_TYPE_DEFAULT, g_u8SecurityAccess := SecurityAccess_LEVEL0\<rparr>)"
  by (auto simp: uds_ok_def uds_wf_def diag_wf_def access_ok_def uds_const_defs)

lemma uds_ok_level1:
  "uds_ok s \<Longrightarrow> g_u8CurrentSessionType s \<noteq> SESSION_TYPE_DEFAULT \<Longrightarrow>
   uds_ok (s\<lparr>g_u8SecurityAccess := SecurityAccess_LEVEL1\<rparr>)"
  by (auto simp: uds_ok_def uds_wf_def diag_wf_def access_ok_def)

lemma uds_ok_rbi: "uds_ok s \<Longrightarrow> length b = 2000 \<Longrightarrow> uds_ok (s\<lparr>rbi_buf := b\<rparr>)"
  by (simp add: uds_ok_def uds_wf_def diag_wf_def access_ok_def)

lemma uds_ok_index: "uds_ok s \<Longrightarrow> length b = 17 \<Longrightarrow> uds_ok (s\<lparr>DTC_index := b\<rparr>)"
  by (simp add: uds_ok_def uds_wf_def diag_wf_def access_ok_def)

section \<open>Every handler runs and keeps the invariant\<close>

definition buffer_ok :: "byte list \<Rightarrow> nat \<Rightarrow> bool" where
  "buffer_ok p dlc \<longleftrightarrow> 40 \<le> length p \<and> dlc \<le> length p"

lemma buffer_byte [simp]: "buffer_ok p dlc \<Longrightarrow> i < 40 \<Longrightarrow> byte_at p i = Some (p ! i)"
  by (simp add: buffer_ok_def)

lemmas handler_runs = neg_runs respond_runs runs_emit uds_ok_session uds_ok_default

lemma session_types_distinct [simp]:
  "SESSION_TYPE_DEFAULT \<noteq> SESSION_TYPE_PROGRAM" "SESSION_TYPE_PROGRAM \<noteq> SESSION_TYPE_DEFAULT"
  "SESSION_TYPE_DEFAULT \<noteq> SESSION_TYPE_EXTENDED" "SESSION_TYPE_EXTENDED \<noteq> SESSION_TYPE_DEFAULT"
  "SESSION_TYPE_PROGRAM \<noteq> SESSION_TYPE_EXTENDED" "SESSION_TYPE_EXTENDED \<noteq> SESSION_TYPE_PROGRAM"
  by (simp_all add: uds_const_defs)

lemma session_control_runs:
  assumes "uds_ok s" "buffer_ok p dlc"
  shows "runs (UDS_SRV_DiagSessionCtrl p dlc s)"
  using assms
  by (auto simp: UDS_SRV_DiagSessionCtrl_def Let_def UDS_SetDTCOn_def intro!: handler_runs)

lemma ecu_reset_runs:
  assumes "uds_ok s" "buffer_ok p dlc"
  shows "runs (UDS_SRV_EcuReset p dlc s)"
  using assms
  by (auto simp: UDS_SRV_EcuReset_def intro!: handler_runs)

lemma control_dtc_runs:
  assumes "uds_ok s" "buffer_ok p dlc"
  shows "runs (UDS_SRV_ControlDTCSetting p dlc s)"
  using assms
  by (auto simp: UDS_SRV_ControlDTCSetting_def Let_def intro!: handler_runs)

lemma tester_present_runs:
  assumes "uds_ok s" "buffer_ok p dlc"
  shows "runs (UDS_SRV_TesterPresent p dlc s)"
  using assms
  by (auto simp: UDS_SRV_TesterPresent_def intro!: handler_runs)

lemma communication_control_runs:
  assumes "uds_ok s" "buffer_ok p dlc"
  shows "runs (UDS_SRV_CommunicationControl p dlc s)"
  using assms
  by (auto simp: UDS_SRV_CommunicationControl_def Let_def intro!: handler_runs)

lemma dtc_clear_ok: "uds_ok s \<Longrightarrow> uds_ok (uds_diag_dtc_clear s)"
  by (simp add: uds_diag_dtc_clear_def Let_def)
    (simp add: uds_ok_def uds_wf_def diag_wf_def access_ok_def DIAG_ITEM_BUF_LEN_def)

lemma clear_dtc_runs:
  assumes "uds_ok s" "buffer_ok p dlc"
  shows "runs (UDS_SRV_ClearDTC p dlc s)"
  using assms
  by (auto simp: UDS_SRV_ClearDTC_def Let_def dtc_clear_ok intro!: handler_runs runs_bind)


lemma uds_ok_diag: "uds_ok s \<Longrightarrow> diag_wf s"
  by (simp add: uds_ok_def)

lemma count_items_total:
  "(\<And>i. i \<in> set is \<Longrightarrow> \<exists>b. p i = Some b) \<Longrightarrow> \<exists>n. count_items p is c = Some n"
proof (induction "is" arbitrary: c)
  case (Cons i "is")
  then obtain b where "p i = Some b" by fastforce
  with Cons show ?case by simp
qed simp

lemma diag_queries_total:
  assumes "diag_wf s" "i < 17"
  shows "\<exists>b. is_cfm s i = Some b" "\<exists>b. is_uncfm s i = Some b"
    "\<exists>st. dtc_status i s = Some st" "\<exists>d. dtc_bytes i = Some d \<and> length d = 3"
    "byte_at (diag_counter s) i = Some (diag_counter s ! i)"
  using assms
  by (simp_all add: is_cfm_def is_uncfm_def uds_diag_is_cfm_dtc_valid_def uds_diag_is_uncfm_dtc_valid_def
      confirmed_wf diag_wf_def dtc_status_def dtc_bytes_def uds_diag_get_dtc_def Let_def)

lemma dtc_counts_total:
  assumes "diag_wf s"
  shows "\<exists>n. uds_diag_get_dtc_num s = Some n" "\<exists>n. uds_diag_get_cfm_dtc_num s = Some n"
    "\<exists>n. uds_diag_get_uncfm_dtc_num s = Some n"
  unfolding uds_diag_get_dtc_num_def uds_diag_get_cfm_dtc_num_def uds_diag_get_uncfm_dtc_num_def
  using assms
  by (intro count_items_total; simp add: DIAG_ITEM_NUM_def confirmed_wf diag_queries_total)+

lemma report_items_total:
  assumes "\<And>j. j \<in> set js \<Longrightarrow> \<exists>b. sel j = Some b" "\<And>j. j \<in> set js \<Longrightarrow> \<exists>e. entry j = Some e \<and> length e \<le> 4"
  shows "\<exists>xs. report_items sel entry js = Some xs \<and> length xs \<le> 4 * length js"
  using assms
proof (induction js)
  case (Cons j js)
  from Cons.prems(1) [of j] obtain b where "sel j = Some b" by auto
  moreover from Cons.prems(2) [of j] obtain e where "entry j = Some e" "length e \<le> 4" by auto
  moreover from Cons obtain xs where "report_items sel entry js = Some xs" "length xs \<le> 4 * length js" by fastforce
  ultimately show ?case by (cases b) auto
qed simp

lemma code_and_status_total:
  assumes "diag_wf s" "j < 17"
  shows "\<exists>e. code_and_status s j = Some e \<and> length e \<le> 4"
  using diag_queries_total(3,4) [OF assms] by (auto simp: code_and_status_def)

lemma report_runs:
  assumes "uds_ok s" "\<And>j. j < 17 \<Longrightarrow> \<exists>b. sel j = Some b" "\<And>j. j < 17 \<Longrightarrow> \<exists>e. entry j = Some e \<and> length e \<le> 4"
    "bytes \<noteq> []" "length bytes \<le> 3"
  shows "runs (report_items sel entry [0..<DIAG_ITEM_NUM] \<bind> (\<lambda>items. respond 200 (bytes @ items) s))"
proof -
  from report_items_total [of "[0..<DIAG_ITEM_NUM]" sel entry] assms(2,3) obtain xs where
    "report_items sel entry [0..<DIAG_ITEM_NUM] = Some xs" "length xs \<le> 68"
    by (auto simp: DIAG_ITEM_NUM_def)
  with assms show ?thesis by (simp add: respond_runs)
qed

lemma number_items_total:
  "(\<And>j. j \<in> set js \<Longrightarrow> \<exists>b. sel j = Some b) \<Longrightarrow> \<exists>xs. number_items sel js n = Some xs \<and> length xs = length js"
proof (induction js arbitrary: n)
  case (Cons j js)
  then obtain b where b: "sel j = Some b" by fastforce
  from Cons obtain xs where "number_items sel js (if b then n + 1 else n) = Some xs" "length xs = length js"
    by (metis list.set_intros(2))
  with b show ?case by simp
qed simp

lemma GetDTCSnapshotRecordNumber_total:
  assumes "uds_ok s"
  shows "\<exists>idx. GetDTCSnapshotRecordNumber s = Some (s\<lparr>DTC_index := idx\<rparr>) \<and> length idx = 17"
  using number_items_total [of "[0..<DIAG_ITEM_NUM]" "is_cfm s" 1]
    diag_queries_total(1) [OF uds_ok_diag [OF assms]]
  by (auto simp: GetDTCSnapshotRecordNumber_def DIAG_ITEM_NUM_def)

lemma get_freeze_empty:
  assumes "diag_wf s" "j < 17"
  shows "uds_diag_get_freeze j frz len s = Some (0, frz, 0, 0)"
  using assms by (simp add: uds_diag_get_freeze_def item_freeze_table diag_wf_def)

lemma find_record_total:
  assumes "uds_ok s" "set js \<subseteq> {..<17}"
  shows "\<exists>r idx. find_record number rec frz len js s = Some (r, s\<lparr>DTC_index := idx\<rparr>) \<and> length idx = 17 \<and>
    (\<forall>number' frz' len' n. r = Some (number', frz', len', n) \<longrightarrow> frz' = frz \<and> len' = 0 \<and> n = 0)"
  using assms
proof (induction js)
  case Nil
  then show ?case
    by (intro exI [of _ None] exI [of _ "DTC_index s"]) (simp add: uds_ok_def)
next
  case (Cons j js)
  then have j: "j < 17" by simp
  obtain b where b: "is_cfm s j = Some b" using diag_queries_total(1) [OF uds_ok_diag [OF Cons.prems(1)] j] by auto
  have x: "byte_at (DTC_index s) j = Some (DTC_index s ! j)"
    using Cons.prems j by (simp add: uds_ok_def)
  have d: "uds_diag_get_dtc j = Some (item_dtc (diag_table ! j))" using j by (simp add: uds_diag_get_dtc_def)
  from GetDTCSnapshotRecordNumber_total [OF Cons.prems(1)] obtain idx where
    idx: "GetDTCSnapshotRecordNumber s = Some (s\<lparr>DTC_index := idx\<rparr>)" "length idx = 17" by auto
  have frz: "uds_diag_get_freeze j frz len (s\<lparr>DTC_index := i\<rparr>) = Some (0, frz, 0, 0)" for i
    by (rule get_freeze_empty) (use Cons.prems j in \<open>simp_all add: uds_ok_def diag_wf_def\<close>)
  have same: "s = s\<lparr>DTC_index := DTC_index s\<rparr>" by simp
  show ?case
  proof (cases "b \<and> ChangeDTCtoInt (item_dtc (diag_table ! j)) = rec \<and> (DTC_index s ! j = number \<or> number = 0xFF)")
    case True
    show ?thesis
    proof (cases "number = 0xFF")
      case True
      with \<open>b \<and> _\<close> show ?thesis using b x d idx frz [of idx] j
        by (intro exI [of _ "Some (idx ! j, frz, 0, 0)"] exI [of _ idx]) simp
    next
      case False
      with \<open>b \<and> _\<close> show ?thesis using b x d frz [of "DTC_index s"] Cons.prems
        by (intro exI [of _ "Some (number, frz, 0, 0)"] exI [of _ "DTC_index s"]) (simp add: uds_ok_def)
    qed
  next
    case False
    then show ?thesis using Cons b x d by auto
  qed
qed

lemma read_dtc_runs:
  assumes "uds_ok s" "buffer_ok p dlc"
  shows "runs (UDS_SRV_ReadDTC p dlc s)"
proof -
  note q = diag_queries_total [OF uds_ok_diag [OF assms(1)]]
    code_and_status_total [OF uds_ok_diag [OF assms(1)]]
  have report: "runs (report_items sel (code_and_status s) [0..<DIAG_ITEM_NUM] \<bind>
      (\<lambda>items. respond 200 ([a, b, c] @ items) s))" if "\<And>j. j < 17 \<Longrightarrow> \<exists>b. sel j = Some b" for sel a b c
    using report_runs [of s sel "code_and_status s" "[a, b, c]"] assms(1) that q by simp
  have sel: "\<exists>b. (is_cfm s j \<bind> (\<lambda>c. is_uncfm s j \<bind> (\<lambda>u. Some (c \<or> u)))) = Some b" if "j < 17" for j
    using q(1,2) [OF that] by auto
  have number: "runs (ReportNumberOfDTCByStatusMask p dlc s)"
    using assms dtc_counts_total [OF uds_ok_diag [OF assms(1)]]
    by (auto simp: ReportNumberOfDTCByStatusMask_def Let_def intro!: handler_runs)
  have bits: "x AND statusOfDTC_both = (x AND statusOfDTC_testfail) OR (x AND statusOfDTC_ConfirmedDTC)" for x
    by (simp add: statusOfDTC_both_def bit.conj_disj_distrib)
  have mask: "runs (ReportDTCByStatusMask p dlc s)"
    using assms report q(1,2) sel bits
    by (auto simp: ReportDTCByStatusMask_def ReportDTC_testfail_Or_Confirmed_def ReportDTC_testfail_def
        ReportDTC__Confirmed_def Let_def simp flip: append_Cons intro!: handler_runs)
  have ident: "runs (ReportDTCSnapshotIdentification p dlc s)"
  proof (cases "dlc = 2")
    case True
    from GetDTCSnapshotRecordNumber_total [OF assms(1)] obtain idx where
      idx: "GetDTCSnapshotRecordNumber s = Some (s\<lparr>DTC_index := idx\<rparr>)" "length idx = 17" by auto
    let ?s = "s\<lparr>DTC_index := idx\<rparr>"
    have ok: "uds_ok ?s" using assms(1) idx(2) by (rule uds_ok_index)
    have "runs (report_items (is_cfm ?s)
        (\<lambda>j. dtc_bytes j \<bind> (\<lambda>d. byte_at (DTC_index ?s) j \<bind> (\<lambda>x. Some (d @ [ucast x]))))
        [0..<DIAG_ITEM_NUM] \<bind> (\<lambda>items. respond 200 ([p ! 0 + POS_RESPOND_SID_MASK, p ! 1] @ items) ?s))"
      using diag_queries_total(1,4) [OF uds_ok_diag [OF ok]] idx(2)
      by (intro report_runs ok) fastforce+
    then show ?thesis
      using assms(2) True idx(1) by (simp add: ReportDTCSnapshotIdentification_def)
  qed (use assms in \<open>simp add: ReportDTCSnapshotIdentification_def neg_runs\<close>)
  have snapshot: "runs (ReportDTCSnapshotRecordByDTCNumber p dlc s)"
  proof (cases "dlc = 6")
    case True
    let ?rec = "push_bit 16 (ucast (p ! 2)) + push_bit 8 (ucast (p ! 3)) + ucast (p ! 4) :: u32"
    have sub: "set [0..<DIAG_ITEM_NUM] \<subseteq> {..<17}" by (auto simp: DIAG_ITEM_NUM_def)
    from find_record_total [OF assms(1) sub, of "ucast (p ! 5)" ?rec "replicate 200 (stack_byte s)" 200]
      obtain r idx where r: "find_record (ucast (p ! 5)) ?rec (replicate 200 (stack_byte s)) 200
        [0..<DIAG_ITEM_NUM] s = Some (r, s\<lparr>DTC_index := idx\<rparr>)" "length idx = 17"
      and len: "\<And>number' frz' len' n. r = Some (number', frz', len', n) \<Longrightarrow> len' = 0"
      by blast
    have ok: "uds_ok (s\<lparr>DTC_index := idx\<rparr>)" using assms(1) r(2) by (rule uds_ok_index)
    show ?thesis
    proof (cases r)
      case None
      then show ?thesis using True r assms(2) neg_runs [OF ok]
        by (simp add: ReportDTCSnapshotRecordByDTCNumber_def)
    next
      case (Some res)
      then obtain a b c where "res = (a, b, 0, c)" using len by (cases res) auto
      then show ?thesis using True r assms(2) Some respond_runs [OF ok]
        by (simp add: ReportDTCSnapshotRecordByDTCNumber_def)
    qed
  qed (use assms in \<open>simp add: ReportDTCSnapshotRecordByDTCNumber_def neg_runs\<close>)
  have supported: "runs (ReadSupportedDTCs p dlc s)"
    using assms report by (auto simp: ReadSupportedDTCs_def simp flip: append_Cons intro!: handler_runs report)
  show ?thesis
    using assms number mask ident snapshot supported
    by (auto simp: UDS_SRV_ReadDTC_def intro!: handler_runs)
qed


lemma find_did_table:
  assumes "find_did did = Some a"
  shows "did_len a \<le> 64 \<and> did_type a \<noteq> DIAG_DATA_USHORT \<and> did_type a \<noteq> DIAG_DATA_UINT \<and> did_id a = did"
proof -
  have "list_all (\<lambda>a. did_len a \<le> 64 \<and> did_type a \<noteq> DIAG_DATA_USHORT \<and> did_type a \<noteq> DIAG_DATA_UINT)
    diag_did_table"
    by (simp add: diag_did_table_def did_attr_def)
  moreover have "a \<in> set diag_did_table" "did_id a = did"
    using assms by (auto simp: find_did_def find_Some_iff)
  ultimately show ?thesis by (auto simp: list_all_iff)
qed

lemma convert_value_table:
  "find_did did = Some a \<Longrightarrow> convert_value (did_type a) value = Some value"
  using find_did_table [of did a] by (simp add: convert_value_def)

text \<open>The reading functions write inside the destination.\<close>

definition did_get_ok :: "(u16 \<Rightarrow> byte list \<Rightarrow> int \<times> byte list) \<Rightarrow> bool" where
  "did_get_ok did_get \<longleftrightarrow> (\<forall>did dst. length (snd (did_get did dst)) = length dst)"

lemma read_did_runs:
  assumes "uds_ok s" "buffer_ok p dlc" "did_get_ok did_get"
  shows "runs (UDS_SRV_ReadDataByID did_get p dlc s)"
proof (cases "dlc = 3")
  case True
  define did where "did = (push_bit 8 (ucast (p ! Suc 0)) + ucast (p ! 2) :: u16)"
  define buf where "buf = [p ! 0 + POS_RESPOND_SID_MASK, ucast (drop_bit 8 did), ucast did] @ drop 3 (rbi_buf s)"
  have len: "length (rbi_buf s) = 2000" "length buf = 2000"
    using assms(1) by (simp_all add: uds_ok_def buf_def)
  have blit: "blit (rbi_buf s) 0 [p ! 0 + POS_RESPOND_SID_MASK, ucast (drop_bit 8 did), ucast did] 3 = Some buf"
    using len by (simp add: buf_def)
  have "\<exists>ret out n. uds_diag_get_did_value did_get did (drop 3 buf) = Some (ret, out, n) \<and>
    length out = 1997 \<and> (ret = 0 \<longrightarrow> n \<le> 64)"
  proof (cases "find_did did")
    case None
    then show ?thesis using len by (simp add: uds_diag_get_did_value_def UDS_INVALID_PARA_def)
  next
    case (Some a)
    obtain r out where r: "did_get did (drop 3 buf) = (r, out)" by fastforce
    then have "length out = 1997"
      using assms(3) [unfolded did_get_ok_def, rule_format, of did "drop 3 buf"] len by simp
    with Some r show ?thesis
      using len find_did_table [OF Some] convert_value_table [OF Some, of out]
      by (simp add: uds_diag_get_did_value_def)
  qed
  then obtain ret out n where get: "uds_diag_get_did_value did_get did (drop 3 buf) = Some (ret, out, n)"
    and out: "length out = 1997" and n: "ret = 0 \<longrightarrow> n \<le> 64"
    by blast
  have ok: "uds_ok (s\<lparr>rbi_buf := take 3 buf @ out\<rparr>)"
    using assms(1) by (rule uds_ok_rbi) (simp add: len out)
  have "unat (word_of_nat (3 + n) :: u16) = 3 + n" if "ret = 0"
    using n that by (simp add: unat_of_nat del: of_nat_add of_nat_numeral)
  then have "runs (pos (take 3 buf @ out) (word_of_nat (3 + n)) (s\<lparr>rbi_buf := take 3 buf @ out\<rparr>))" if "ret = 0"
    using that n by (intro pos_runs ok) (simp_all add: len out del: of_nat_add of_nat_numeral)
  then show ?thesis
    using True assms(2) neg_runs [OF ok] blit get
    by (auto simp: UDS_SRV_ReadDataByID_def Let_def simp flip: did_def)
qed (use assms in \<open>simp add: UDS_SRV_ReadDataByID_def neg_runs\<close>)

text \<open>A write that does not hit a read-only identifier with the right length.\<close>

definition write_ok :: "byte list \<Rightarrow> nat \<Rightarrow> bool" where
  "write_ok p dlc \<longleftrightarrow> (\<forall>a. find_did (push_bit 8 (ucast (p ! 1)) + ucast (p ! 2)) = Some a \<longrightarrow>
     did_settable a \<or> did_len a \<noteq> dlc - 3)"

lemma write_did_runs:
  assumes "uds_ok s" "buffer_ok p dlc" "write_ok p dlc"
  shows "runs (UDS_SRV_WriteDataByID did_set p dlc s)"
proof (cases "dlc < 3")
  case False
  define did where "did = (push_bit 8 (ucast (p ! Suc 0)) + ucast (p ! 2) :: u16)"
  define v where "v = take (dlc - 3) (drop 3 p)"
  have val: "subarray p 3 (dlc - 3) = Some v" "length v = dlc - 3"
    using False assms(2) by (auto simp: v_def buffer_ok_def)
  have set: "\<exists>ret s2. uds_diag_set_did_value did_set did v s1 = Some (ret, s2) \<and> uds_ok s2" if "uds_ok s1" for s1
    using that assms(3) val convert_value_table [of did]
    by (cases "find_did did") (auto simp: uds_diag_set_did_value_def write_ok_def simp flip: did_def)
  have "runs (uds_diag_set_did_value did_set did v s1 \<bind> (\<lambda>(ret, s2).
      if ret \<noteq> 0 then neg (p ! 0) ret s2 else respond 3 [p ! 0 + POS_RESPOND_SID_MASK, p ! Suc 0, p ! 2] s2))"
    if "uds_ok s1" for s1
    using set [OF that] by (auto intro!: handler_runs)
  then have "runs (neg (p ! 0) NRC_RequestCorrectlyReceivedResponsePending s \<bind> (\<lambda>s1.
      uds_diag_set_did_value did_set did v s1 \<bind> (\<lambda>(ret, s2).
      if ret \<noteq> 0 then neg (p ! 0) ret s2 else respond 3 [p ! 0 + POS_RESPOND_SID_MASK, p ! Suc 0, p ! 2] s2)))"
    using assms(1) by (intro runs_bind neg_runs)
  with False assms(2) val show ?thesis
    by (simp add: UDS_SRV_WriteDataByID_def flip: did_def)
qed (use assms in \<open>simp add: UDS_SRV_WriteDataByID_def neg_runs\<close>)

lemma sa_fail_ok [simp]: "uds_ok (sa_fail s) = uds_ok s" "g_u8suppressFlag (sa_fail s) = g_u8suppressFlag s"
  by (simp_all add: sa_fail_def Let_def uds_ok_def uds_wf_def diag_wf_def access_ok_def)

lemma request_seed_runs:
  "uds_ok s \<Longrightarrow> runs (sa_request_seed rand p0 p1 dlc s)"
  by (auto simp: sa_request_seed_def Let_def intro!: handler_runs)

lemma check_key_runs:
  assumes "uds_ok s" "buffer_ok p dlc" "g_u8CurrentSessionType s \<noteq> SESSION_TYPE_DEFAULT"
    and "p1 = unlock \<Longrightarrow> level = SecurityAccess_LEVEL1"
  shows "runs (sa_check_key mode unlock level p p0 p1 dlc s)"
proof -
  have "runs (neg p0 NRC_InvalidKey s \<bind> (\<lambda>s1. Some (sa_fail s1\<lparr>sa_attempt := sa_attempt (sa_fail s1) + 1\<rparr>)))"
    by (intro runs_bind neg_runs assms(1)) (simp add: runs_def)
  moreover have "uds_ok (s\<lparr>sa_flag := 0, g_u8SecurityAccess := SecurityAccess_LEVEL1, SecrityAccessFailCounter := 0\<rparr>)"
    using assms(1,3) by (simp add: uds_ok_def uds_wf_def diag_wf_def access_ok_def)
  ultimately show ?thesis
    using assms by (auto simp: sa_check_key_def Let_def intro!: handler_runs)
qed

lemma security_access_runs:
  assumes "uds_ok s" "buffer_ok p dlc" "g_u8CurrentSessionType s \<noteq> SESSION_TYPE_DEFAULT"
  shows "runs (UDS_SRV_SecrityAcess now now' rand p dlc s)"
proof -
  have "\<not> (sub_of b = 4 \<and> b = 0x12)" for b
    by (auto simp: sub_of_def uds_const_defs)
  with assms show ?thesis
    by (auto simp: UDS_SRV_SecrityAcess_def Let_def intro!: handler_runs request_seed_runs check_key_runs)
qed

definition tukey_ends :: "u64 \<Rightarrow> (u64 \<times> byte \<times> u64) list \<Rightarrow> bool" where
  "tukey_ends start polls \<longleftrightarrow> (\<exists>(t, flag, t') \<in> set polls. 5000 < t - start \<or> flag = 1)"

lemma tukey_runs:
  "uds_ok s \<Longrightarrow> g_u8suppressFlag s = 0 \<Longrightarrow> tukey_ends start polls \<Longrightarrow> runs (tukey_loop p0 start polls s)"
proof (induction polls arbitrary: s)
  case (Cons poll polls)
  obtain t flag t' where poll: "poll = (t, flag, t')" by (cases poll)
  show ?case
  proof (cases "5000 < t - start \<or> flag = 1")
    case True
    then show ?thesis using Cons.prems by (simp add: poll runs_def)
  next
    case False
    then have "tukey_ends start polls" using Cons.prems by (auto simp: tukey_ends_def poll)
    then show ?thesis using Cons.prems False
      by (auto simp: poll Let_def intro!: runs_bind neg_runs Cons.IH)
  qed
qed (simp add: tukey_ends_def)

lemma routine_control_runs:
  assumes "uds_ok s" "buffer_ok p dlc" "tukey_ends (scast (ucast t0 :: u32)) polls"
  shows "runs (UDS_SRV_RoutineControl t0 polls p dlc s)"
proof -
  have "erasememoryflag s = 0" using assms(1) by (simp add: uds_ok_def)
  moreover have "runs (neg (p ! 0) NRC_RequestCorrectlyReceivedResponsePending s \<bind> (\<lambda>s1.
      tukey_loop (p ! 0) (scast (ucast t0 :: u32)) polls (emit TuKeyRequest s1) \<bind> (\<lambda>s2.
      respond 6 ([p ! 0 + POS_RESPOND_SID_MASK, p ! 1, p ! 2, p ! 3] @ [tu_key_check_flag_finish s2])
        (s2\<lparr>tu_key_check_flag_finish := 0\<rparr>))))"
    using assms by (intro runs_bind neg_runs tukey_runs respond_runs) simp_all
  ultimately show ?thesis
    using assms by (auto simp: UDS_SRV_RoutineControl_def Let_def intro!: handler_runs)
qed

section \<open>What the handlers leave alone\<close>

text \<open>The identifiers written, among the effects.\<close>

fun did_writes :: "uds_effect list \<Rightarrow> (u16 \<times> byte list) list" where
  "did_writes [] = []"
| "did_writes (DidSet did v # es) = (did, v) # did_writes es"
| "did_writes (_ # es) = did_writes es"

text \<open>
  The access state: session, security level, the state of the security access service, and the
  identifiers written so far.
\<close>

definition access ::
  "uds_state \<Rightarrow> byte \<times> byte \<times> byte \<times> u32 \<times> u32 \<times> (u16 \<times> byte list) list"
where
  "access s = (g_u8CurrentSessionType s, g_u8SecurityAccess s, sa_flag s, sa_attempt s, sa_seed s,
               did_writes (uds_out s))"

lemma did_writes_append [simp]: "did_writes (xs @ ys) = did_writes xs @ did_writes ys"
  by (induction xs rule: did_writes.induct) simp_all

lemma did_writes_settime [simp]: "did_writes (snd (uds_timer_settime tm t)) = []"
  by (simp add: uds_timer_settime_def Let_def)

lemma access_simps [simp]:
  "access (s\<lparr>uds_server := v1\<rparr>) = access s"
  "access (s\<lparr>uds_client := v2\<rparr>) = access s"
  "access (s\<lparr>uds_scom := v3\<rparr>) = access s"
  "access (s\<lparr>g_u8suppressFlag := v4\<rparr>) = access s"
  "access (s\<lparr>DTCSwitch := v5\<rparr>) = access s"
  "access (s\<lparr>g_TxFlag := v6\<rparr>) = access s"
  "access (s\<lparr>g_RxFlag := v7\<rparr>) = access s"
  "access (s\<lparr>comm_i := v8\<rparr>) = access s"
  "access (s\<lparr>sa_counter := v9\<rparr>) = access s"
  "access (s\<lparr>SecrityAccessFailCounter := v10\<rparr>) = access s"
  "access (s\<lparr>sa_time := v11\<rparr>) = access s"
  "access (s\<lparr>sa_current_time := v12\<rparr>) = access s"
  "access (s\<lparr>TransferDataConfig := v13\<rparr>) = access s"
  "access (s\<lparr>erasememoryflag := v14\<rparr>) = access s"
  "access (s\<lparr>tu_key_check_flag_finish := v15\<rparr>) = access s"
  "access (s\<lparr>diag_counter := v16\<rparr>) = access s"
  "access (s\<lparr>uds_diag_item_buf := v17\<rparr>) = access s"
  "access (s\<lparr>rbi_buf := v18\<rparr>) = access s"
  "access (s\<lparr>DTC_index := v19\<rparr>) = access s"
  "access (s\<lparr>uds_client_cb := v20\<rparr>) = access s"
  "access (s\<lparr>uds_hold_mode := v21\<rparr>) = access s"
  "access (s\<lparr>uds_msgbuf := v22\<rparr>) = access s"
  "access (s\<lparr>uds_is_ready_sleep := v23\<rparr>) = access s"
  by (simp_all add: access_def)

lemma access_emit [simp]: "(\<And>did v. e \<noteq> DidSet did v) \<Longrightarrow> access (emit e s) = access s"
  by (cases e) (auto simp: access_def emit_def)

lemma access_set_suppress [simp]: "access (set_suppress b s) = access s"
  by (simp add: set_suppress_def)

lemma access_upd [simp]: "access (uds_upd uds f s) = access s"
  by (cases uds) simp_all

lemma access_out:
  "did_writes eff = [] \<Longrightarrow> access (s\<lparr>uds_out := uds_out s @ eff\<rparr>) = access s"
  by (simp add: access_def)

lemma access_set_timer [simp]: "access (uds_set_timer uds name sw s) = access s"
proof -
  define t where "t = u_timer_t (uds_get uds s) ! timer_no name"
  obtain fd eff where e: "uds_timer_settime (timer_fd t) (if sw = 1 then sint (timer_value t) else 0) = (fd, eff)"
    by fastforce
  define s1 where "s1 = uds_upd uds (\<lambda>u. u\<lparr>u_timer_t := (u_timer_t u)[timer_no name :=
      t\<lparr>timer_switch := sw, timer_fd := fd\<rparr>]\<rparr>) s"
  have "did_writes eff = []" using did_writes_settime e by (metis snd_conv)
  moreover have "uds_out s1 = uds_out s" unfolding s1_def by (cases uds) simp_all
  ultimately have "access (s1\<lparr>uds_out := uds_out s @ eff\<rparr>) = access s1"
    using access_out [of eff s1] by simp
  moreover have "uds_set_timer uds name sw s = s1\<lparr>uds_out := uds_out s @ eff\<rparr>"
    by (simp only: uds_set_timer_def Let_def t_def [symmetric] e s1_def prod.case)
  ultimately show ?thesis by (simp add: s1_def)
qed

lemma access_data_request:
  "uds_data_request uds i can_id p dlc s = Some (ret, s') \<Longrightarrow> access s' = access s"
  by (auto simp: uds_data_request_def Let_def bind_eq_Some_conv split: if_splits prod.splits)

lemma access_third_byte: "third_byte p s = (b, s') \<Longrightarrow> access s' = access s"
  by (auto simp: third_byte_def split: if_splits)

lemma access_positive_response:
  "uds_positive_response uds can_id dlc p s = Some (ret, s') \<Longrightarrow> access s' = access s"
  by (auto simp: uds_positive_response_def Let_def bind_eq_Some_conv dest!: access_data_request access_third_byte
      split: if_splits prod.splits)

lemma access_pos: "pos p dlc s = Some s' \<Longrightarrow> access s' = access s"
  by (auto simp: pos_def dest: access_positive_response)

lemma access_neg: "neg a b s = Some s' \<Longrightarrow> access s' = access s"
  by (auto simp: neg_def uds_negative_response_def dest: access_positive_response)

lemma access_respond: "respond n bytes s = Some s' \<Longrightarrow> access s' = access s"
  by (auto simp: respond_def bind_eq_Some_conv dest: access_pos)

lemmas access_dests = access_neg access_respond access_pos

lemma access_ecu_reset: "UDS_SRV_EcuReset p dlc s = Some s' \<Longrightarrow> access s' = access s"
  by (auto simp: UDS_SRV_EcuReset_def bind_eq_Some_conv split: if_splits dest!: access_dests)

lemma access_clear_dtc: "UDS_SRV_ClearDTC p dlc s = Some s' \<Longrightarrow> access s' = access s"
  by (auto simp: UDS_SRV_ClearDTC_def uds_diag_dtc_clear_def Let_def bind_eq_Some_conv split: if_splits
      dest!: access_dests)

lemma access_control_dtc: "UDS_SRV_ControlDTCSetting p dlc s = Some s' \<Longrightarrow> access s' = access s"
  by (auto simp: UDS_SRV_ControlDTCSetting_def Let_def bind_eq_Some_conv split: if_splits dest!: access_dests)

lemma access_tester_present: "UDS_SRV_TesterPresent p dlc s = Some s' \<Longrightarrow> access s' = access s"
  by (auto simp: UDS_SRV_TesterPresent_def bind_eq_Some_conv split: if_splits dest!: access_dests)

lemma access_communication_control: "UDS_SRV_CommunicationControl p dlc s = Some s' \<Longrightarrow> access s' = access s"
  by (auto simp: UDS_SRV_CommunicationControl_def Let_def bind_eq_Some_conv split: if_splits dest!: access_dests)

lemma access_read_did: "UDS_SRV_ReadDataByID g p dlc s = Some s' \<Longrightarrow> access s' = access s"
  by (auto simp: UDS_SRV_ReadDataByID_def Let_def bind_eq_Some_conv split: if_splits dest!: access_dests)

lemma access_snapshot_number: "GetDTCSnapshotRecordNumber s = Some s' \<Longrightarrow> access s' = access s"
  by (auto simp: GetDTCSnapshotRecordNumber_def bind_eq_Some_conv)

lemma access_find_record: "find_record a b frz len js s = Some (r, s') \<Longrightarrow> access s' = access s"
  by (induction js) (auto simp: bind_eq_Some_conv split: if_splits dest: access_snapshot_number)

lemma access_read_dtc: "UDS_SRV_ReadDTC p dlc s = Some s' \<Longrightarrow> access s' = access s"
  by (auto simp: UDS_SRV_ReadDTC_def ReportNumberOfDTCByStatusMask_def ReportDTCByStatusMask_def
      ReportDTC_testfail_Or_Confirmed_def ReportDTC_testfail_def ReportDTC__Confirmed_def
      ReportDTCSnapshotIdentification_def ReportDTCSnapshotRecordByDTCNumber_def ReadSupportedDTCs_def
      Let_def bind_eq_Some_conv split: if_splits option.splits
      dest!: access_dests access_snapshot_number access_find_record)

lemma access_tukey: "tukey_loop p0 start polls s = Some s' \<Longrightarrow> access s' = access s"
  by (induction polls arbitrary: s rule: list.induct)
    (auto simp: Let_def bind_eq_Some_conv split: if_splits dest!: access_neg)

lemma access_routine: "UDS_SRV_RoutineControl t0 polls p dlc s = Some s' \<Longrightarrow> access s' = access s"
  by (auto simp: UDS_SRV_RoutineControl_def Let_def bind_eq_Some_conv split: if_splits
      dest!: access_dests access_tukey)

text \<open>The two services that change the access state.\<close>

lemma access_write_did:
  assumes "UDS_SRV_WriteDataByID did_set p dlc s = Some s'"
  shows "\<exists>w. access s' = (g_u8CurrentSessionType s, g_u8SecurityAccess s, sa_flag s, sa_attempt s, sa_seed s,
           did_writes (uds_out s) @ w)"
proof -
  have set: "\<exists>w. access s2 = (g_u8CurrentSessionType s1, g_u8SecurityAccess s1, sa_flag s1, sa_attempt s1,
      sa_seed s1, did_writes (uds_out s1) @ w)"
    if "uds_diag_set_did_value did_set did v s1 = Some (ret, s2)" for did v s1 ret s2
    using that by (auto simp: uds_diag_set_did_value_def bind_eq_Some_conv access_def emit_def
        split: option.splits if_splits)
  show ?thesis
    using assms
    by (auto simp: UDS_SRV_WriteDataByID_def Let_def bind_eq_Some_conv split: if_splits
        dest!: access_dests set) (auto simp: access_def)
qed

text \<open>The key a request carries.\<close>

definition key_of :: "byte list \<Rightarrow> u32" where
  "key_of p = push_bit 24 (ucast (p ! 2)) + push_bit 16 (ucast (p ! 3)) + push_bit 8 (ucast (p ! 4))
     + ucast (p ! 5)"

lemma access_eqD:
  assumes "access s' = access s"
  shows "g_u8CurrentSessionType s' = g_u8CurrentSessionType s" "g_u8SecurityAccess s' = g_u8SecurityAccess s"
    "sa_flag s' = sa_flag s" "sa_attempt s' = sa_attempt s" "sa_seed s' = sa_seed s"
    "did_writes (uds_out s') = did_writes (uds_out s)"
  using assms by (simp_all add: access_def)

lemma access_sa_fail [simp]: "access (sa_fail s) = access s"
  by (simp add: sa_fail_def Let_def)

lemma sa_check_key_cases:
  assumes "40 \<le> length p"
  shows "dlc \<noteq> 6 \<Longrightarrow> sa_check_key mode unlock level p p0 p1 dlc s =
      neg p0 NRC_IncorrectMessageLengthOrInvailFormat s"
    "dlc = 6 \<Longrightarrow> sa_flag s = 0 \<Longrightarrow> sa_check_key mode unlock level p p0 p1 dlc s =
      neg p0 NRC_RequstSequenceError s"
    "dlc = 6 \<Longrightarrow> sa_flag s \<noteq> 0 \<Longrightarrow> 3 \<le> sa_attempt s \<Longrightarrow> sa_check_key mode unlock level p p0 p1 dlc s =
      neg p0 NRC_ExceedNumberOfAttempts (s\<lparr>sa_flag := 0\<rparr>)"
    "dlc = 6 \<Longrightarrow> sa_flag s \<noteq> 0 \<Longrightarrow> \<not> 3 \<le> sa_attempt s \<Longrightarrow> key_of p = saGetKey (sa_seed s) mode \<Longrightarrow>
      sa_check_key mode unlock level p p0 p1 dlc s =
      respond 10 [p0 + POS_RESPOND_SID_MASK, p1] (set_suppress p1
        (if p1 = unlock then s\<lparr>sa_flag := 0, g_u8SecurityAccess := level, SecrityAccessFailCounter := 0\<rparr>
         else s\<lparr>sa_flag := 0\<rparr>))"
    "dlc = 6 \<Longrightarrow> sa_flag s \<noteq> 0 \<Longrightarrow> \<not> 3 \<le> sa_attempt s \<Longrightarrow> key_of p \<noteq> saGetKey (sa_seed s) mode \<Longrightarrow>
      sa_check_key mode unlock level p p0 p1 dlc s =
      neg p0 NRC_InvalidKey s \<bind>
        (\<lambda>s1. Some (sa_fail s1\<lparr>sa_attempt := sa_attempt (sa_fail s1) + 1\<rparr>))"
  using assms by (simp_all add: sa_check_key_def key_of_def Let_def)

lemma access_check_key:
  assumes "sa_check_key mode unlock level p p0 p1 dlc s = Some s'" "40 \<le> length p"
  shows "g_u8CurrentSessionType s' = g_u8CurrentSessionType s \<and> did_writes (uds_out s') = did_writes (uds_out s) \<and>
    (3 \<le> sa_attempt s \<longrightarrow> sa_attempt s' = sa_attempt s) \<and>
    (g_u8SecurityAccess s' = g_u8SecurityAccess s \<or>
     p1 = unlock \<and> dlc = 6 \<and> sa_flag s \<noteq> 0 \<and> \<not> 3 \<le> sa_attempt s \<and>
     key_of p = saGetKey (sa_seed s) mode \<and> g_u8SecurityAccess s' = level)"
proof -
  note eqs = sa_check_key_cases [OF assms(2)]
  let ?ok = "key_of p = saGetKey (sa_seed s) mode"
  consider (length) "dlc \<noteq> 6" | (seq) "dlc = 6" "sa_flag s = 0" | (locked) "dlc = 6" "sa_flag s \<noteq> 0" "3 \<le> sa_attempt s"
    | (right) "dlc = 6" "sa_flag s \<noteq> 0" "\<not> 3 \<le> sa_attempt s" "?ok"
    | (wrong) "dlc = 6" "sa_flag s \<noteq> 0" "\<not> 3 \<le> sa_attempt s" "\<not> ?ok" by blast
  then show ?thesis
  proof cases
    case length
    from access_eqD [OF access_neg [OF assms(1) [unfolded eqs(1) [OF length]]]] show ?thesis by simp
  next
    case seq
    from access_eqD [OF access_neg [OF assms(1) [unfolded eqs(2) [OF seq]]]] show ?thesis by simp
  next
    case locked
    from access_eqD [OF access_neg [OF assms(1) [unfolded eqs(3) [OF locked]]]] show ?thesis by simp
  next
    case right
    from access_eqD [OF access_respond [OF assms(1) [unfolded eqs(4) [OF right]]]] right show ?thesis
      by (simp add: set_suppress_def split: if_splits)
  next
    case wrong
    from assms(1) [unfolded eqs(5) [OF wrong]] obtain s1 where s1: "neg p0 NRC_InvalidKey s = Some s1"
      "s' = sa_fail s1\<lparr>sa_attempt := sa_attempt (sa_fail s1) + 1\<rparr>" by (auto simp: bind_eq_Some_conv)
    have "access (sa_fail s1) = access s" using access_neg [OF s1(1)] by simp
    from access_eqD [OF this] wrong show ?thesis by (simp add: s1(2))
  qed
qed

lemma access_request_seed:
  assumes "sa_request_seed rand p0 p1 dlc s = Some s'"
  shows "g_u8CurrentSessionType s' = g_u8CurrentSessionType s \<and> did_writes (uds_out s') = did_writes (uds_out s) \<and>
    sa_attempt s' = sa_attempt s \<and> g_u8SecurityAccess s' = g_u8SecurityAccess s"
proof -
  from assms obtain t where "access s' = access t"
    "g_u8CurrentSessionType t = g_u8CurrentSessionType s" "did_writes (uds_out t) = did_writes (uds_out s)"
    "sa_attempt t = sa_attempt s" "g_u8SecurityAccess t = g_u8SecurityAccess s"
    using access_eqD [OF access_sa_fail [of s]]
    by (auto simp: sa_request_seed_def Let_def split: if_splits dest!: access_dests)
  with access_eqD [of s' t] show ?thesis by simp
qed

lemma access_security:
  assumes "UDS_SRV_SecrityAcess now now' rand p dlc s = Some s'" "40 \<le> length p"
  shows "g_u8CurrentSessionType s' = g_u8CurrentSessionType s \<and> did_writes (uds_out s') = did_writes (uds_out s) \<and>
    (3 \<le> sa_attempt s \<longrightarrow> sa_attempt s' = sa_attempt s) \<and>
    (g_u8SecurityAccess s' = g_u8SecurityAccess s \<or>
     p ! 1 = 0x02 \<and> dlc = 6 \<and> sa_flag s \<noteq> 0 \<and> \<not> 3 \<le> sa_attempt s \<and>
     key_of p = saGetKey (sa_seed s) 2 \<and> g_u8SecurityAccess s' = SecurityAccess_LEVEL1)"
proof -
  have b: "byte_at p 0 = Some (p ! 0)" "byte_at p 1 = Some (p ! 1)" using assms(2) by auto
  define s1 where "s1 = s\<lparr>sa_current_time := ucast (now' div 1000)\<rparr>"
  define s2 where "s2 = (if 3 \<le> SecrityAccessFailCounter s1
     then s1\<lparr>SecrityAccessFailCounter := SecrityAccessFailCounter s1 - 1\<rparr> else s1)"
  have acc: "access s1 = access s" "access s2 = access s" by (simp_all add: s1_def s2_def)
  have no: "\<not> (sub_of (p ! 1) = 4 \<and> p ! 1 = 0x12)" by (auto simp: sub_of_def uds_const_defs)
  consider (neg) t a c where "neg a c t = Some s'" "access t = access s"
    | (seed) "sa_request_seed rand (p ! 0) (p ! 1) dlc s2 = Some s'"
    | (key1) "sa_check_key 2 0x02 SecurityAccess_LEVEL1 p (p ! 0) (p ! 1) dlc s2 = Some s'"
    | (key2) "sub_of (p ! 1) = 4" "sa_check_key 4 0x12 SecurityAccess_LEVEL2 p (p ! 0) (p ! 1) dlc s2 = Some s'"
    using assms(1) acc b unfolding UDS_SRV_SecrityAcess_def Let_def s1_def [symmetric] s2_def [symmetric]
    by (simp split: if_splits)
  then show ?thesis
  proof cases
    case neg
    then have "access s' = access s" using access_neg [OF neg(1)] by simp
    from access_eqD [OF this] show ?thesis by simp
  next
    case seed
    then show ?thesis using access_request_seed [OF seed] access_eqD [OF acc(2)] by simp
  next
    case key1
    then show ?thesis using access_check_key [OF key1 assms(2)] access_eqD [OF acc(2)] by auto
  next
    case key2
    then show ?thesis using access_check_key [OF key2(2) assms(2)] access_eqD [OF acc(2)] no by auto
  qed
qed

text \<open>A positive response that the suppress bit of the request's second byte holds back.\<close>

definition unless_suppressed :: "byte \<Rightarrow> byte list \<Rightarrow> byte list list" where
  "unless_suppressed sub pdu = (if sub AND suppressPosRspMsgIndicationBit \<noteq> 0 then [] else [pdu])"

lemma reply_suppress: "reply ps (s\<lparr>g_u8suppressFlag := v\<rparr>) s' = reply ps s s'"
  by (simp add: reply_def)

lemma respond_answers:
  assumes "uds_wf s" "g_u8suppressFlag s = 0" "bytes \<noteq> []" "length bytes \<le> n" "length bytes \<le> 235"
    "hd bytes \<noteq> SID_NegativeResponse"
  shows "\<exists>s'. respond n bytes (set_suppress sub s) = Some s' \<and> reply (unless_suppressed sub bytes) s s'"
proof -
  have "uds_wf (set_suppress sub s)" using assms(1) by (simp add: set_suppress_def uds_wf_def)
  from respond_replies [OF this assms(3-5)] assms(2,6) show ?thesis
    by (auto simp: set_suppress_def unless_suppressed_def reply_suppress)
qed

section \<open>Properties\<close>

text \<open>The session a request leads to, or the negative response code.\<close>

definition session_next :: "byte \<Rightarrow> byte \<Rightarrow> byte + byte" where
  "session_next cur sub =
     (if sub = SESSION_TYPE_DEFAULT then Inr SESSION_TYPE_DEFAULT
      else if sub = SESSION_TYPE_PROGRAM then
        (if cur = SESSION_TYPE_DEFAULT then Inl NRC_ConditionsNotCorrect else Inr SESSION_TYPE_PROGRAM)
      else if sub = SESSION_TYPE_EXTENDED then
        (if cur = SESSION_TYPE_PROGRAM then Inl NRC_ConditionsNotCorrect else Inr SESSION_TYPE_EXTENDED)
      else Inl NRC_SubFuncationNotSupported)"

definition enter_session :: "byte \<Rightarrow> uds_state \<Rightarrow> uds_state" where
  "enter_session t s =
     (if t = SESSION_TYPE_DEFAULT
      then s\<lparr>g_u8CurrentSessionType := t, g_u8SecurityAccess := SecurityAccess_LEVEL0, DTCSwitch := 1\<rparr>
      else s\<lparr>g_u8CurrentSessionType := t\<rparr>)"

lemma wf_timer_values:
  assumes "uds_wf s"
  shows "timer_value (u_timer_t (uds_server s) ! 0) = 50" "timer_value (u_timer_t (uds_server s) ! 2) = 2000"
    "timer_value (u_timer_t (uds_server s) ! 4) = 5000" "timer_value (u_timer_t (uds_server s) ! 6) = 1000"
proof -
  have "map timer_value (u_timer_t (uds_server s)) = [50, 0, 2000, 0, 5000, 0, 1000, 0]"
    and len: "length (u_timer_t (uds_server s)) = 8"
    using assms uds_wf_timers by (simp_all add: uds_wf_def)
  then have "timer_value (u_timer_t (uds_server s) ! i) = [50, 0, 2000, 0, 5000, 0, 1000, 0] ! i" if "i < 8" for i
    using that by (metis nth_map)
  from this [of 0] this [of 2] this [of 4] this [of 6] show
    "timer_value (u_timer_t (uds_server s) ! 0) = 50" "timer_value (u_timer_t (uds_server s) ! 2) = 2000"
    "timer_value (u_timer_t (uds_server s) ! 4) = 5000" "timer_value (u_timer_t (uds_server s) ! 6) = 1000"
    by simp_all
qed

lemma uds_ok_wf: "uds_ok s \<Longrightarrow> uds_wf s"
  by (simp add: uds_ok_def)

lemma session_control_spec:
  assumes "uds_ok s" "g_u8suppressFlag s = 0" "buffer_ok p 2" "p ! 0 = 0x10"
  shows "\<exists>s'. UDS_SRV_DiagSessionCtrl p 2 s = Some s' \<and>
    (case session_next (g_u8CurrentSessionType s) (sub_of (p ! 1)) of
       Inl nrc \<Rightarrow> reply [[SID_NegativeResponse, 0x10, nrc]] s s'
     | Inr t \<Rightarrow> reply (unless_suppressed (p ! 1) [0x50, p ! 1, 0x00, 0x32, 0x07, 0xD0]) (enter_session t s) s')"
proof -
  have wf: "uds_wf (enter_session t s)" "g_u8suppressFlag (enter_session t s) = 0" for t
    using uds_ok_wf [OF assms(1)] assms(2) by (simp_all add: enter_session_def uds_wf_def)
  have srv: "uds_server (enter_session t s) = uds_server s" for t by (simp add: enter_session_def)
  have resp: "\<exists>s'. respond 6 [0x50, p ! Suc 0, 0x00, 0x32, 0x07, 0xD0] (set_suppress (p ! Suc 0) (enter_session t s)) = Some s' \<and>
      reply (unless_suppressed (p ! Suc 0) [0x50, p ! Suc 0, 0x00, 0x32, 0x07, 0xD0]) (enter_session t s) s'" for t
    by (rule respond_answers) (simp_all add: wf uds_const_defs)
  have vals: "ucast (drop_bit 8 (50 :: u32)) = (0 :: byte)" "ucast (50 :: u32) = (0x32 :: byte)"
    "ucast (drop_bit 8 (2000 :: u32)) = (0x07 :: byte)" "ucast (2000 :: u32) = (0xD0 :: byte)" "(2000 :: byte) = 0xD0"
    by simp_all
  have es: "enter_session SESSION_TYPE_DEFAULT s = UDS_SetDTCOn (s\<lparr>g_u8CurrentSessionType := SESSION_TYPE_DEFAULT,
      g_u8SecurityAccess := SecurityAccess_LEVEL0\<rparr>)"
    "enter_session SESSION_TYPE_PROGRAM s = s\<lparr>g_u8CurrentSessionType := SESSION_TYPE_PROGRAM\<rparr>"
    "enter_session SESSION_TYPE_EXTENDED s = s\<lparr>g_u8CurrentSessionType := SESSION_TYPE_EXTENDED\<rparr>"
    by (simp_all add: enter_session_def UDS_SetDTCOn_def)
  have dones: "\<exists>s'. (let u = uds_server t; p2 = timer_value (u_timer_t u ! timer_no P2SERVER);
       p2e = timer_value (u_timer_t u ! timer_no P2EXT_SERVER)
     in respond 6 [0x10 + POS_RESPOND_SID_MASK, p ! Suc 0, ucast (drop_bit 8 p2), ucast p2,
                    ucast (drop_bit 8 p2e), ucast p2e] (set_suppress (p ! Suc 0) t)) = Some s' \<and>
     reply (unless_suppressed (p ! Suc 0) [0x50, p ! Suc 0, 0x00, 0x32, 0x07, 0xD0]) t s'"
    if "t = enter_session x s" for t x
    using resp [of x] wf_timer_values [OF wf(1), of x] by (simp add: that Let_def vals POS_RESPOND_SID_MASK_def)
  show ?thesis
    using assms(3,4) neg_reply [OF uds_ok_wf [OF assms(1)]] dones [OF es(1) [symmetric]]
      dones [OF es(2) [symmetric]] dones [OF es(3) [symmetric]]
    by (simp add: UDS_SRV_DiagSessionCtrl_def session_next_def es)
qed


lemma report_items_eq:
  "(\<And>j. j \<in> set js \<Longrightarrow> sel j = Some (P j)) \<Longrightarrow> (\<And>j. j \<in> set js \<Longrightarrow> entry j = Some (E j)) \<Longrightarrow>
   report_items sel entry js = Some (concat (map E (filter P js)))"
  by (induction js) auto

text \<open>The bytes of an item in a report: its code, high byte first, and its status.\<close>

definition item_status :: "uds_state \<Rightarrow> nat \<Rightarrow> byte" where
  "item_status s j = (if snd (item_state s j) \<noteq> 0 then statusOfDTC_ConfirmedDTC else 0)
     OR (if 0 < fst (item_state s j) then statusOfDTC_testfail else 0)"

definition item_report :: "uds_state \<Rightarrow> nat \<Rightarrow> byte list" where
  "item_report s j = (let v = ChangeDTCtoInt (item_dtc (diag_table ! j))
     in [ucast (drop_bit 16 v), ucast (drop_bit 8 v), ucast v, item_status s j])"

text \<open>The items a status mask asks for.\<close>

definition mask_selects :: "byte \<Rightarrow> uds_state \<Rightarrow> nat \<Rightarrow> bool" where
  "mask_selects m s j \<longleftrightarrow> m AND item_status s j \<noteq> 0"

lemma diag_queries_wf:
  assumes "diag_wf s" "j < 17"
  shows "is_cfm s j = Some (snd (item_state s j) \<noteq> 0)" "is_uncfm s j = Some (0 < fst (item_state s j))"
    "code_and_status s j = Some (item_report s j)"
proof -
  have "byte_at (diag_counter s) j = Some (diag_counter s ! j)" using assms by (simp add: diag_wf_def)
  then show cfm: "is_cfm s j = Some (snd (item_state s j) \<noteq> 0)" and un: "is_uncfm s j = Some (0 < fst (item_state s j))"
    using assms by (simp_all add: is_cfm_def is_uncfm_def uds_diag_is_cfm_dtc_valid_def
      uds_diag_is_uncfm_dtc_valid_def confirmed_wf item_state_def)
  show "code_and_status s j = Some (item_report s j)"
    using assms \<open>byte_at (diag_counter s) j = _\<close>
    by (simp add: code_and_status_def dtc_bytes_def dtc_status_def uds_diag_get_dtc_def item_report_def
      item_status_def uds_diag_is_cfm_dtc_valid_def uds_diag_is_uncfm_dtc_valid_def confirmed_wf item_state_def
      Let_def)
qed

lemma status_bits:
  "statusOfDTC_testfail AND statusOfDTC_ConfirmedDTC = 0" "statusOfDTC_testfail \<noteq> 0" "statusOfDTC_ConfirmedDTC \<noteq> 0"
  by (simp_all add: statusOfDTC_testfail_def statusOfDTC_ConfirmedDTC_def)

lemma bit_8_byte: "bit (8 :: byte) n \<longleftrightarrow> n = 3"
  by (auto simp add: bit_numeral_rec bit_1_iff numeral_eq_Suc split: nat.splits)

lemma and_8_byte: "(m :: byte) AND 8 = (if bit m 3 then 8 else 0)"
proof (rule bit_word_eqI)
  fix n
  show "bit (m AND 8) n = bit (if bit m 3 then 8 else 0 :: byte) n"
    by (cases "bit m 3"; cases "n = 3")
      (simp_all only: bit_and_iff bit_8_byte if_True if_False bit_0_eq bot_apply simp_thms, simp_all)
qed

lemma and_status:
  "m AND statusOfDTC_both = (m AND statusOfDTC_testfail) OR (m AND statusOfDTC_ConfirmedDTC)"
  "m AND statusOfDTC_testfail = (if bit m 0 then statusOfDTC_testfail else 0)"
  "m AND statusOfDTC_ConfirmedDTC = (if bit m 3 then statusOfDTC_ConfirmedDTC else 0)"
proof -
  show "m AND statusOfDTC_both = (m AND statusOfDTC_testfail) OR (m AND statusOfDTC_ConfirmedDTC)"
    by (simp add: statusOfDTC_both_def bit.conj_disj_distrib)
  show "m AND statusOfDTC_testfail = (if bit m 0 then statusOfDTC_testfail else 0)"
    by (rule bit_word_eqI) (auto simp: statusOfDTC_testfail_def bit_simps bit_1_iff intro: gr0I)
  show "m AND statusOfDTC_ConfirmedDTC = (if bit m 3 then statusOfDTC_ConfirmedDTC else 0)"
    unfolding statusOfDTC_ConfirmedDTC_def by (rule and_8_byte)
qed

lemma mask_selects_iff:
  "mask_selects m s j \<longleftrightarrow> bit m 0 \<and> 0 < fst (item_state s j) \<or> bit m 3 \<and> snd (item_state s j) \<noteq> 0"
  unfolding mask_selects_def item_status_def
  by (auto simp: bit.conj_disj_distrib and_status status_bits) (simp_all add: statusOfDTC_testfail_def statusOfDTC_ConfirmedDTC_def)

lemma report_by_mask:
  assumes "uds_ok s" "g_u8suppressFlag s = 0" "buffer_ok p 3" "p ! 0 = 0x19" "p ! 1 = 0x02"
  shows "\<exists>s'. UDS_SRV_ReadDTC p 3 s = Some s' \<and>
    reply [[0x59, 0x02, 0x09] @ concat (map (item_report s) (filter (mask_selects (p ! 2) s) [0..<17]))] s s'"
proof -
  let ?items = "concat (map (item_report s) (filter (mask_selects (p ! 2) s) [0..<17]))"
  have len: "length ?items \<le> 68"
  proof -
    have "length ?items = 4 * length (filter (mask_selects (p ! 2) s) [0..<17])"
      by (simp add: length_concat comp_def item_report_def Let_def sum_list_triv)
    also have "\<dots> \<le> 4 * length [0..<17::nat]" using length_filter_le mult_le_mono2 by blast
    finally show ?thesis by simp
  qed
  have both: "statusOfDTC_both = 0x09" by (simp add: statusOfDTC_both_def statusOfDTC_testfail_def statusOfDTC_ConfirmedDTC_def)
  have wf: "uds_wf s" "diag_wf s" using assms(1) by (simp_all add: uds_ok_def)
  have p1: "p ! Suc 0 = 2" using assms(5) by simp
  have rep: "report_items sel (code_and_status s) [0..<DIAG_ITEM_NUM] = Some ?items"
    if "\<And>j. j < 17 \<Longrightarrow> sel j = Some (mask_selects (p ! 2) s j)" for sel
    unfolding DIAG_ITEM_NUM_def
    by (rule report_items_eq) (use that diag_queries_wf(3) [OF wf(2)] in \<open>auto simp: DIAG_ITEM_NUM_def\<close>)
  have ans: "\<exists>s'. respond 200 ([0x59, 0x02, 0x09] @ ?items) s = Some s' \<and> reply [[0x59, 0x02, 0x09] @ ?items] s s'"
    by (rule respond_reply) (use wf len assms(2) in simp_all)
  have sid: "(0x19 :: byte) + POS_RESPOND_SID_MASK = 0x59" by (simp add: POS_RESPOND_SID_MASK_def)
  have call: "UDS_SRV_ReadDTC p 3 s = ReportDTCByStatusMask p 3 s"
    using assms(3-5) by (simp add: UDS_SRV_ReadDTC_def)
  consider "\<not> bit (p ! 2) 0" "\<not> bit (p ! 2) 3" | "bit (p ! 2) 0" "bit (p ! 2) 3"
    | "bit (p ! 2) 0" "\<not> bit (p ! 2) 3" | "\<not> bit (p ! 2) 0" "bit (p ! 2) 3" by blast
  then show ?thesis
  proof cases
    case 1
    then have none: "?items = []" by (simp add: mask_selects_iff)
    have "\<exists>s'. respond 3 [0x59, 0x02, 0x09] s = Some s' \<and> reply [[0x59, 0x02, 0x09]] s s'"
      by (rule respond_reply) (use wf assms(2) in simp_all)
    moreover have "p ! 2 AND statusOfDTC_both = 0" using 1 by (simp add: and_status)
    ultimately show ?thesis
      using assms(3,4) p1 unfolding call none by (simp add: ReportDTCByStatusMask_def sid both)
  next
    case 2
    then have "report_items (\<lambda>j. do { c \<leftarrow> is_cfm s j; u \<leftarrow> is_uncfm s j; Some (c \<or> u) })
        (code_and_status s) [0..<DIAG_ITEM_NUM] = Some ?items"
      by (intro rep) (auto simp: diag_queries_wf [OF wf(2)] mask_selects_iff)
    moreover have "p ! 2 AND statusOfDTC_both = statusOfDTC_both" "p ! 2 AND statusOfDTC_both \<noteq> 0"
      using 2 by (simp_all only: and_status if_True) (simp_all add: statusOfDTC_both_def statusOfDTC_testfail_def
        statusOfDTC_ConfirmedDTC_def)
    ultimately show ?thesis
      using assms(3,4) ans p1 unfolding call
      by (simp add: ReportDTCByStatusMask_def ReportDTC_testfail_Or_Confirmed_def sid both)
  next
    case 3
    then have "report_items (is_uncfm s) (code_and_status s) [0..<DIAG_ITEM_NUM] = Some ?items"
      by (intro rep) (auto simp: diag_queries_wf [OF wf(2)] mask_selects_iff)
    moreover have "p ! 2 AND statusOfDTC_both = 1" "p ! 2 AND statusOfDTC_testfail = 1"
      using 3 by (simp_all only: and_status if_True if_False) (simp_all add: statusOfDTC_testfail_def)
    ultimately show ?thesis
      using assms(3,4) ans p1 unfolding call
      by (simp add: ReportDTCByStatusMask_def ReportDTC_testfail_def sid both)
  next
    case 4
    then have "report_items (is_cfm s) (code_and_status s) [0..<DIAG_ITEM_NUM] = Some ?items"
      by (intro rep) (auto simp: diag_queries_wf [OF wf(2)] mask_selects_iff)
    moreover have "p ! 2 AND statusOfDTC_both = 8" "p ! 2 AND statusOfDTC_testfail = 0" "p ! 2 AND statusOfDTC_ConfirmedDTC = 8"
      using 4 by (simp_all only: and_status if_True if_False) (simp_all add: statusOfDTC_ConfirmedDTC_def)
    ultimately show ?thesis
      using assms(3,4) ans p1 unfolding call
      by (simp add: ReportDTCByStatusMask_def ReportDTC__Confirmed_def sid both)
  qed
qed

lemma join_bytes:
  "ucast (drop_bit 8 (push_bit 8 (ucast (a :: byte)) + ucast (b :: byte) :: u16)) = a"
  "ucast (push_bit 8 (ucast (a :: byte)) + ucast (b :: byte) :: u16) = b"
proof -
  have plus: "push_bit 8 (ucast a) + ucast b = (push_bit 8 (ucast a) OR ucast b :: u16)"
    by (rule disjunctive_add) (auto simp: bit_simps dest: bit_imp_le_length)
  show "ucast (drop_bit 8 (push_bit 8 (ucast a) + ucast b :: u16)) = a"
    unfolding plus by (rule bit_word_eqI) (auto simp: bit_simps dest: bit_imp_le_length)
  show "ucast (push_bit 8 (ucast a) + ucast b :: u16) = b"
    unfolding plus by (rule bit_word_eqI) (auto simp: bit_simps dest: bit_imp_le_length)
qed

lemma read_did_spec:
  assumes ok: "uds_ok s" and supp: "g_u8suppressFlag s = 0" and p: "buffer_ok p 3" "p ! 0 = 0x22"
    and get: "did_get_ok did_get"
    and did: "did = push_bit 8 (ucast (p ! 1)) + ucast (p ! 2)"
    and call: "did_get did (drop 3 (rbi_buf s)) = (ret, out)"
  shows "\<exists>s'. UDS_SRV_ReadDataByID did_get p 3 s = Some s' \<and>
    reply [case find_did did of
        Some a \<Rightarrow> if ret = 0 then [0x62, p ! 1, p ! 2] @ take (did_len a) out else [SID_NegativeResponse, 0x22, 0x31]
      | None \<Rightarrow> [SID_NegativeResponse, 0x22, 0x31]] (s\<lparr>rbi_buf := rbi_buf s'\<rparr>) s'"
proof -
  have len: "length (rbi_buf s) = 2000" using ok by (simp add: uds_ok_def)
  define buf where "buf = [0x62, p ! 1, p ! 2] @ drop 3 (rbi_buf s)"
  have bytes: "ucast (drop_bit 8 did) = p ! 1" "ucast did = p ! 2" using did join_bytes by auto
  have blit: "blit (rbi_buf s) 0 [p ! 0 + POS_RESPOND_SID_MASK, ucast (drop_bit 8 did), ucast did] 3 = Some buf"
    using len p(2) by (simp add: buf_def bytes POS_RESPOND_SID_MASK_def)
  have buf: "drop 3 buf = drop 3 (rbi_buf s)" "take 3 buf = [0x62, p ! 1, p ! 2]" by (simp_all add: buf_def)
  have out: "length out = 1997"
    using get [unfolded did_get_ok_def, rule_format, of did "drop 3 (rbi_buf s)"] len by (simp add: call)
  have run: "UDS_SRV_ReadDataByID did_get p 3 s =
    uds_diag_get_did_value did_get did (drop 3 (rbi_buf s)) \<bind> (\<lambda>(ret, out, len).
      if ret \<noteq> 0 then neg 0x22 NRC_RequestOutOfRange (s\<lparr>rbi_buf := take 3 buf @ out\<rparr>)
      else pos (take 3 buf @ out) (word_of_nat (3 + len)) (s\<lparr>rbi_buf := take 3 buf @ out\<rparr>))"
    using p blit [unfolded did] by (simp add: UDS_SRV_ReadDataByID_def did Let_def buf cong: if_cong)
  have fail: "\<exists>s'. neg 0x22 NRC_RequestOutOfRange (s\<lparr>rbi_buf := b\<rparr>) = Some s' \<and>
      reply [[SID_NegativeResponse, 0x22, 0x31]] (s\<lparr>rbi_buf := rbi_buf s'\<rparr>) s'" if "length b = 2000" for b
  proof -
    from neg_reply [of "s\<lparr>rbi_buf := b\<rparr>"] uds_ok_rbi [OF ok that] obtain s' where
      s': "neg 0x22 NRC_RequestOutOfRange (s\<lparr>rbi_buf := b\<rparr>) = Some s'"
        "reply [[SID_NegativeResponse, 0x22, 0x31]] (s\<lparr>rbi_buf := b\<rparr>) s'"
      by (auto simp: uds_ok_def NRC_RequestOutOfRange_def)
    then have "rbi_buf s' = b" by (auto simp: reply_def)
    with s' show ?thesis by auto
  qed
  show ?thesis
  proof (cases "find_did did")
    case None
    then show ?thesis
      using fail [of "take 3 buf @ drop 3 (rbi_buf s)"] len
      by (simp add: run uds_diag_get_did_value_def UDS_INVALID_PARA_def buf)
  next
    case (Some a)
    note a = find_did_table [OF Some] convert_value_table [OF Some]
    have val: "uds_diag_get_did_value did_get did (drop 3 (rbi_buf s)) =
        Some (if ret \<noteq> 0 then (ret, out, 1997) else (0, out, did_len a))"
      using Some a len out call by (simp add: uds_diag_get_did_value_def)
    show ?thesis
    proof (cases "ret = 0")
      case False
      then show ?thesis using fail [of "take 3 buf @ out"] Some out by (simp add: run val buf)
    next
      case True
      let ?b = "take 3 buf @ out"
      have n: "unat (word_of_nat (3 + did_len a) :: u16) = 3 + did_len a"
        using a by (simp add: unat_of_nat del: of_nat_add of_nat_numeral)
      have "uds_wf (s\<lparr>rbi_buf := ?b\<rparr>)"
        using uds_ok_rbi [OF ok, of ?b] out by (simp add: uds_ok_def buf)
      from pos_reply [OF this, of "word_of_nat (3 + did_len a)" ?b] supp a out obtain s' where
        s': "pos ?b (word_of_nat (3 + did_len a)) (s\<lparr>rbi_buf := ?b\<rparr>) = Some s'"
          "reply [take (3 + did_len a) ?b] (s\<lparr>rbi_buf := ?b\<rparr>) s'"
        by (auto simp: n buf simp del: of_nat_add of_nat_numeral)
      then have "rbi_buf s' = ?b" by (auto simp: reply_def)
      moreover have "take (3 + did_len a) ?b = [0x62, p ! 1, p ! 2] @ take (did_len a) out"
        unfolding buf(2) by (simp add: numeral_3_eq_3)
      ultimately show ?thesis using s' Some True by (simp add: run val buf del: of_nat_add of_nat_numeral)
    qed
  qed
qed

text \<open>The service of the seed in the normal case, and the key that answers it.\<close>

lemma access_times:
  assumes "900 \<le> now" "\<not> 3 \<le> SecrityAccessFailCounter s" "40 \<le> length p" "p ! 0 = p0" "p ! 1 = p1" "2 \<le> dlc"
  shows "UDS_SRV_SecrityAcess now now' rand p dlc s =
     (let s1 = s\<lparr>sa_current_time := ucast (now' div 1000)\<rparr>
      in if sub_of p1 = 0x01 \<or> sub_of p1 = 0x03 then sa_request_seed rand p0 p1 dlc s1
         else if sub_of p1 = 0x02 then sa_check_key 2 0x02 SecurityAccess_LEVEL1 p p0 p1 dlc s1
         else if sub_of p1 = 0x04 then sa_check_key 4 0x12 SecurityAccess_LEVEL2 p p0 p1 dlc s1
         else neg p0 NRC_SubFuncationNotSupported s1)"
proof -
  have "byte_at p 0 = Some p0" "byte_at p 1 = Some p1" "\<not> now < 900" "\<not> dlc < 2"
    using assms by auto
  with assms(2) show ?thesis by (simp add: UDS_SRV_SecrityAcess_def Let_def cong: if_cong)
qed

text \<open>A reply in an array of one or two bytes.\<close>

lemma set_timer_out:
  "\<exists>eff. uds_out (uds_set_timer Server name sw s) = uds_out s @ eff"
  "u_nrc (uds_server (uds_set_timer Server name sw s)) = u_nrc (uds_server s)"
  by (simp_all add: uds_set_timer_server)

lemma short_reply_overreads:
  assumes wf: "uds_wf s" and supp: "g_u8suppressFlag s \<noteq> 1" and len: "bytes \<noteq> []" "length bytes \<le> n" "n \<le> 2"
    and "hd bytes \<noteq> SID_NegativeResponse" and run: "respond n bytes s = Some s'"
  shows "Overread \<in> set (drop (length (uds_out s)) (uds_out s')) \<and> u_nrc (uds_server s') = stack_byte s"
proof -
  define arr where "arr = bytes @ replicate (n - length bytes) (stack_byte s)"
  have dlc: "unat (word_of_nat (length bytes) :: u16) = length bytes"
    using len by (simp add: unat_of_nat)
  have mode: "u_mode (uds_server s) = UDS_TYPE_SERVER" using wf by (simp add: uds_wf_def)
  have arr: "arr ! 0 = hd bytes" "arr \<noteq> []" "length arr \<le> 2" "\<not> 2 < length arr" "length bytes \<le> length arr"
    using len by (auto simp: arr_def nth_append hd_conv_nth)
  define s2 where "s2 = emit (Spi (transmit (uds_scom s) (uds_frame (u_can_id_res (uds_server s)) (take (length bytes) arr))))
       (s\<lparr>uds_server := (uds_server s)\<lparr>u_sid := arr ! 0, u_can_id_req := u_can_id_res (uds_server s)\<rparr>\<rparr>)"
  define s4 where "s4 = uds_upd Server (\<lambda>u. u\<lparr>u_sid := arr ! 0, u_nrc := stack_byte s\<rparr>) (emit Overread s2)"
  have third: "third_byte arr s2 = (stack_byte s, emit Overread s2)"
    using arr by (simp add: third_byte_def s2_def emit_def)
  have "uds_data_request Server MSG_ID_UDS_REQ (u_can_id_res (uds_server s)) arr (word_of_nat (length bytes)) s = Some (0, s2)"
    using data_request_sends [OF mode, of "word_of_nat (length bytes)" arr] dlc len arr
    by (simp add: s2_def)
  then have "s' = (if stack_byte s = NRC_RequestCorrectlyReceivedResponsePending
      then uds_set_timer Server P2EXT_SERVER 1 s4 else s4)\<lparr>g_u8suppressFlag := 0\<rparr>"
    using run assms(6) supp dlc len arr third mode
    by (simp add: respond_def stack_array_def pos_def uds_positive_response_def Let_def s4_def
        UDS_SERVER_MAX_BYTE_def flip: arr_def) (auto split: if_splits)
  moreover have "uds_out s4 = uds_out s @ [Spi (transmit (uds_scom s)
      (uds_frame (u_can_id_res (uds_server s)) (take (length bytes) arr))), Overread]"
    "u_nrc (uds_server s4) = stack_byte s"
    by (simp_all add: s4_def s2_def emit_def)
  ultimately show ?thesis
    using set_timer_out [of P2EXT_SERVER 1 s4] by (auto split: if_splits)
qed

end
