(* ===== verification/Tcom.thy ===== *)
theory Tcom
  imports Fifo "HOL-Library.Sublist"
begin

text \<open>
  \<open>app/base/tcom/tcom_main.c\<close>, \<open>tcom.h\<close>, \<open>include/tcom_api.h\<close> and \<open>include/mid_def.h\<close>: the
  messages between the threads of the application. Every module has a pipe for message headers
  and a circular byte queue for message bodies. A sender hands its message to the channel of
  the TCOM thread, which moves it to the channel of the receiver; the receiver reads the header
  from its pipe and the body from its queue.

  A pipe is the list of the headers written and not yet read; a header is written whole, since
  it is shorter than \<open>PIPE_BUF\<close>. What \<open>dev_write\<close> returns on the non-blocking write end is an
  argument. \<^const>\<open>None\<close> is a copy outside a buffer, or a read of an empty pipe, which does not
  return. The mutexes make every operation on one channel atomic.
\<close>

definition MAIN_MID_MASK :: u16 where "MAIN_MID_MASK = 0x3f00"
definition CPUID_MASK :: u16 where "CPUID_MASK = 0xc000"
definition CPUID_MAIN_MID_MASK :: u16 where "CPUID_MAIN_MID_MASK = 0xff00"
definition MPU_MID_TIMER :: u16 where "MPU_MID_TIMER = 0x0100"
definition MPU_MID_TCOM :: u16 where "MPU_MID_TCOM = 0x0700"
definition MPU_MID_PM :: u16 where "MPU_MID_PM = 0x0800"
definition MPU_MID_MID_PWDG :: u32 where "MPU_MID_MID_PWDG = 0x3f06"
definition MPU_MAX_MID :: u16 where "MPU_MAX_MID = 0x1400"
definition MPU_APP_MID_COUNT :: nat where "MPU_APP_MID_COUNT = 20"
definition TCOM_QUEUE_BUF_SIZE :: nat where "TCOM_QUEUE_BUF_SIZE = 102400"
definition TCOM_MAX_MSG_LEN :: nat where "TCOM_MAX_MSG_LEN = 2048"

text \<open>The error codes; the first is \<open>(MPU_MID_TCOM << 16) & 0x01\<close>.\<close>

definition TCOM_INVALID_PARAMETER :: int where
  "TCOM_INVALID_PARAMETER = sint (push_bit 16 (ucast MPU_MID_TCOM) AND 1 :: u32)"
definition TCOM_QUEUE_OVERFLOW :: int where "TCOM_QUEUE_OVERFLOW = TCOM_INVALID_PARAMETER + 1"
definition TCOM_QUEUE_UNDERFLOW :: int where "TCOM_QUEUE_UNDERFLOW = TCOM_INVALID_PARAMETER + 2"
definition TCOM_RECV_MSG_FAILED :: int where "TCOM_RECV_MSG_FAILED = TCOM_INVALID_PARAMETER + 3"
definition TCOM_CREATE_PIPE_FAILED :: int where "TCOM_CREATE_PIPE_FAILED = TCOM_INVALID_PARAMETER + 5"
definition TCOM_SET_PIPE_FAILED :: int where "TCOM_SET_PIPE_FAILED = TCOM_INVALID_PARAMETER + 6"

text \<open>\<open>MID_TO_INDEX\<close>.\<close>

definition mid_to_index :: "u16 \<Rightarrow> int" where
  "mid_to_index mid = uint (drop_bit 8 (mid AND MAIN_MID_MASK)) - 1"

record TCOM_MSG_HEADER =
  msg_sender :: u16
  msg_receiver :: u16
  msg_msgid :: u32
  msg_msglen :: u32

record TCOM_QUEUE =
  tq_head :: nat
  tq_tail :: nat
  tq_buf :: "byte list"

record tcom_chan =
  tc_pipe :: "TCOM_MSG_HEADER list"
  tc_queue :: TCOM_QUEUE

type_synonym tcom = "tcom_chan list"

section \<open>The body queue\<close>

definition tcom_push_data :: "TCOM_QUEUE \<Rightarrow> byte list \<Rightarrow> nat \<Rightarrow> TCOM_QUEUE option" where
  "tcom_push_data q data datalen =
     map_option (\<lambda>buf. q\<lparr>tq_buf := buf\<rparr>)
      (if tq_head q \<le> tq_tail q then
         if datalen \<le> TCOM_QUEUE_BUF_SIZE - tq_tail q then blit (tq_buf q) (tq_tail q) data datalen
         else do {
           let part1_size = TCOM_QUEUE_BUF_SIZE - tq_tail q;
           buf \<leftarrow> blit (tq_buf q) (tq_tail q) data part1_size;
           let part2_size = datalen - part1_size;
           rest \<leftarrow> subarray data part1_size part2_size;
           blit buf 0 rest part2_size }
       else blit (tq_buf q) (tq_tail q) data datalen)"

definition tcom_pull_data :: "TCOM_QUEUE \<Rightarrow> byte list \<Rightarrow> nat \<Rightarrow> byte list option" where
  "tcom_pull_data q data datalen =
     (if tq_tail q \<le> tq_head q then
        if datalen \<le> TCOM_QUEUE_BUF_SIZE - tq_head q then do {
          src \<leftarrow> subarray (tq_buf q) (tq_head q) datalen;
          blit data 0 src datalen }
        else do {
          let part1_size = TCOM_QUEUE_BUF_SIZE - tq_head q;
          src1 \<leftarrow> subarray (tq_buf q) (tq_head q) part1_size;
          data' \<leftarrow> blit data 0 src1 part1_size;
          let part2_size = datalen - part1_size;
          src2 \<leftarrow> subarray (tq_buf q) 0 part2_size;
          blit data' part1_size src2 part2_size }
      else do {
        src \<leftarrow> subarray (tq_buf q) (tq_head q) datalen;
        blit data 0 src datalen })"

definition tcom_enqueue_msg ::
  "TCOM_QUEUE \<Rightarrow> TCOM_MSG_HEADER \<Rightarrow> byte list \<Rightarrow> (int \<times> TCOM_QUEUE) option"
where
  "tcom_enqueue_msg q hdr body =
     (let len = unat (msg_msglen hdr) in
      if len = 0 then Some (0, q)
      else let idle = (tq_head q + TCOM_QUEUE_BUF_SIZE - 1 - tq_tail q) mod TCOM_QUEUE_BUF_SIZE in
        if idle < len then Some (TCOM_QUEUE_OVERFLOW, q)
        else do {
          q' \<leftarrow> tcom_push_data q body len;
          Some (0, q'\<lparr>tq_tail := (tq_tail q' + len) mod TCOM_QUEUE_BUF_SIZE\<rparr>) })"

definition tcom_dequeue_msg ::
  "TCOM_QUEUE \<Rightarrow> TCOM_MSG_HEADER \<Rightarrow> byte list \<Rightarrow> (int \<times> TCOM_QUEUE \<times> byte list) option"
where
  "tcom_dequeue_msg q hdr body =
     (let len = unat (msg_msglen hdr) in
      if len = 0 then Some (0, q, body)
      else let used = (tq_tail q + TCOM_QUEUE_BUF_SIZE - tq_head q) mod TCOM_QUEUE_BUF_SIZE in
        if used < len then Some (TCOM_QUEUE_UNDERFLOW, q, body)
        else do {
          body' \<leftarrow> tcom_pull_data q body len;
          Some (0, q\<lparr>tq_head := (tq_head q + len) mod TCOM_QUEUE_BUF_SIZE\<rparr>, body') })"

definition tcom_init_queue :: "TCOM_QUEUE \<Rightarrow> TCOM_QUEUE" where
  "tcom_init_queue q = q\<lparr>tq_head := 0, tq_tail := 0\<rparr>"

section \<open>Channels\<close>

text \<open>
  \<open>tcom_forward\<close>. \<open>wr\<close> is what \<open>dev_write\<close> returns for the header: 0 when it is in the pipe.
  An index outside the tables is \<^const>\<open>None\<close>.
\<close>

definition tcom_forward ::
  "tcom \<Rightarrow> TCOM_MSG_HEADER \<Rightarrow> u16 \<Rightarrow> byte list \<Rightarrow> int \<Rightarrow> (int \<times> tcom) option"
where
  "tcom_forward tc hdr receiver body wr =
     (let index = mid_to_index receiver in
      if index < 0 \<or> int (length tc) \<le> index then None
      else do {
        let i = nat index;
        let c = tc ! i;
        (ret, q) \<leftarrow> (if msg_msglen hdr \<noteq> 0 then tcom_enqueue_msg (tc_queue c) hdr body
                    else Some (0, tc_queue c));
        if ret \<noteq> 0 then Some (-1, tc)
        else if wr \<noteq> 0 then
          Some (wr, tc[i := c\<lparr>tc_queue := (if 0 < msg_msglen hdr then
            q\<lparr>tq_tail := (tq_tail q + TCOM_QUEUE_BUF_SIZE - unat (msg_msglen hdr)) mod TCOM_QUEUE_BUF_SIZE\<rparr>
            else q)\<rparr>])
        else Some (0, tc[i := c\<lparr>tc_pipe := tc_pipe c @ [hdr], tc_queue := q\<rparr>]) })"

text \<open>\<open>tcom_recv_msg\<close>: the return value, the header read, the body buffer, the channels.\<close>

definition tcom_recv_msg ::
  "tcom \<Rightarrow> u16 \<Rightarrow> byte list option \<Rightarrow> (int \<times> TCOM_MSG_HEADER \<times> byte list option \<times> tcom) option"
where
  "tcom_recv_msg tc main_mid body =
     (let index = mid_to_index main_mid in
      if index < 0 \<or> int (length tc) \<le> index then None
      else let i = nat index; c = tc ! i in
        case tc_pipe c of
          [] \<Rightarrow> None
        | hdr # rest \<Rightarrow>
            let c1 = c\<lparr>tc_pipe := rest\<rparr> in
            if msg_msglen hdr = 0 then Some (0, hdr, body, tc[i := c1])
            else case body of
              None \<Rightarrow> Some (TCOM_INVALID_PARAMETER, hdr, None, tc[i := c1])
            | Some dst \<Rightarrow> do {
                (ret, q, dst') \<leftarrow> tcom_dequeue_msg (tc_queue c) hdr dst;
                if ret \<noteq> 0 then Some (ret, hdr, Some dst', tc[i := c1\<lparr>tc_queue := tcom_init_queue q\<rparr>])
                else Some (0, hdr, Some dst', tc[i := c1\<lparr>tc_queue := q\<rparr>]) })"

text \<open>
  \<open>tcom_send_msg\<close>. The header is given; \<^const>\<open>None\<close> as a header or body is a NULL pointer.
\<close>

definition tcom_send_msg ::
  "tcom \<Rightarrow> TCOM_MSG_HEADER option \<Rightarrow> byte list option \<Rightarrow> int \<Rightarrow> (int \<times> tcom) option"
where
  "tcom_send_msg tc msghdr msgbody wr = (case msghdr of
     None \<Rightarrow> Some (TCOM_INVALID_PARAMETER, tc)
   | Some hdr \<Rightarrow>
       if msg_sender hdr AND CPUID_MASK \<noteq> 0 \<or> msg_receiver hdr AND CPUID_MASK \<noteq> 0
       then Some (TCOM_INVALID_PARAMETER, tc)
       else if MPU_MAX_MID < msg_sender hdr AND CPUID_MAIN_MID_MASK
         \<or> MPU_MAX_MID < msg_receiver hdr AND CPUID_MAIN_MID_MASK
       then Some (TCOM_INVALID_PARAMETER, tc)
       else if msg_sender hdr AND CPUID_MAIN_MID_MASK = 0 \<or> msg_receiver hdr AND CPUID_MAIN_MID_MASK = 0
       then Some (TCOM_INVALID_PARAMETER, tc)
       else if msg_msglen hdr \<noteq> 0 \<and> msgbody = None then Some (TCOM_INVALID_PARAMETER, tc)
       else if TCOM_MAX_MSG_LEN < unat (msg_msglen hdr) then Some (TCOM_INVALID_PARAMETER, tc)
       else tcom_forward tc hdr MPU_MID_TCOM (case msgbody of None \<Rightarrow> [] | Some b \<Rightarrow> b) wr)"

text \<open>\<open>tcom_proc_msg\<close>; \<open>buf\<close> is the static \<open>tcom_msgbuf\<close>.\<close>

definition tcom_proc_msg :: "tcom \<Rightarrow> byte list \<Rightarrow> int \<Rightarrow> (int \<times> byte list \<times> tcom) option" where
  "tcom_proc_msg tc buf wr = do {
     (ret, hdr, buf', tc') \<leftarrow> tcom_recv_msg tc MPU_MID_TCOM (Some buf);
     let buf1 = (case buf' of None \<Rightarrow> buf | Some b \<Rightarrow> b);
     if ret \<noteq> 0 then Some (TCOM_RECV_MSG_FAILED, buf1, tc')
     else if msg_receiver hdr AND CPUID_MAIN_MID_MASK \<noteq> MPU_MID_TCOM then do {
       (ret', tc'') \<leftarrow> tcom_forward tc' hdr (msg_receiver hdr) buf1 wr;
       Some (ret', buf1, tc'') }
     else Some (0, buf1, tc') }"

text \<open>\<open>tcom_get_read_fd\<close>: \<open>Inr\<close> the index of the pipe whose read end is returned.\<close>

definition tcom_get_read_fd :: "u16 \<Rightarrow> int + int" where
  "tcom_get_read_fd main_mid =
     (if drop_bit 8 main_mid = 0 \<or> MPU_MAX_MID < main_mid AND CPUID_MAIN_MID_MASK
      then Inl TCOM_INVALID_PARAMETER
      else if main_mid AND CPUID_MAIN_MID_MASK = MPU_MID_TCOM then Inl TCOM_INVALID_PARAMETER
      else Inr (mid_to_index main_mid))"

text \<open>
  \<open>tcom_init\<close> in its inner phase: the pipes are created one after the other, \<open>pipe_ret\<close> and
  \<open>fcntl_ret\<close> being what the system calls return for each.
\<close>

fun tcom_init_loop :: "(nat \<Rightarrow> int) \<Rightarrow> (nat \<Rightarrow> int) \<Rightarrow> nat \<Rightarrow> tcom \<Rightarrow> int \<times> tcom" where
  "tcom_init_loop pipe_ret fcntl_ret i [] = (0, [])"
| "tcom_init_loop pipe_ret fcntl_ret i (c # cs) =
     (if pipe_ret i \<noteq> 0 then (TCOM_CREATE_PIPE_FAILED, c # cs)
      else if fcntl_ret i < 0 then (TCOM_SET_PIPE_FAILED, c\<lparr>tc_pipe := []\<rparr> # cs)
      else let (ret, cs') = tcom_init_loop pipe_ret fcntl_ret (Suc i) cs
           in (ret, c\<lparr>tc_pipe := [], tc_queue := tcom_init_queue (tc_queue c)\<rparr> # cs'))"

definition tcom_init_inside :: "(nat \<Rightarrow> int) \<Rightarrow> (nat \<Rightarrow> int) \<Rightarrow> tcom \<Rightarrow> int \<times> tcom" where
  "tcom_init_inside pipe_ret fcntl_ret tc = tcom_init_loop pipe_ret fcntl_ret 0 tc"

section \<open>The body queue is a bounded FIFO\<close>

abbreviation QSIZE :: nat where "QSIZE \<equiv> TCOM_QUEUE_BUF_SIZE"

lemma QSIZE_pos [simp]: "0 < QSIZE"
  by (simp add: TCOM_QUEUE_BUF_SIZE_def)

definition tq_ok :: "TCOM_QUEUE \<Rightarrow> bool" where
  "tq_ok q \<longleftrightarrow> length (tq_buf q) = QSIZE \<and> tq_head q < QSIZE \<and> tq_tail q < QSIZE"

definition tq_used :: "TCOM_QUEUE \<Rightarrow> nat" where
  "tq_used q = (tq_tail q + QSIZE - tq_head q) mod QSIZE"

definition tq_contents :: "TCOM_QUEUE \<Rightarrow> byte list" where
  "tq_contents q = ring_read (tq_buf q) (tq_head q) (tq_used q)"

definition tq_capacity :: "TCOM_QUEUE \<Rightarrow> nat" where
  "tq_capacity q = QSIZE - 1"

lemma length_tq_contents [simp]: "length (tq_contents q) = tq_used q"
  by (simp add: tq_contents_def)

lemma tq_used_less: "tq_used q < QSIZE"
  by (simp add: tq_used_def)

lemma tq_used_cases:
  "tq_ok q \<Longrightarrow> tq_used q = (if tq_head q \<le> tq_tail q then tq_tail q - tq_head q
                          else tq_tail q + QSIZE - tq_head q)"
  by (auto simp: tq_used_def tq_ok_def le_mod_geq)

lemma tq_idle:
  "tq_ok q \<Longrightarrow> (tq_head q + QSIZE - 1 - tq_tail q) mod QSIZE = QSIZE - 1 - tq_used q"
  by (auto simp: tq_used_cases tq_ok_def mod_if)

lemma tq_tail_pos: "tq_ok q \<Longrightarrow> tq_tail q = (tq_head q + tq_used q) mod QSIZE"
  by (auto simp: tq_used_cases tq_ok_def le_mod_geq)

lemma tcom_push_writes:
  assumes ok: "tq_ok q" and n: "n \<le> QSIZE - 1 - tq_used q" "n \<le> length data"
  shows "tcom_push_data q data n =
    Some (q\<lparr>tq_buf := ring_write (tq_buf q) (tq_tail q) (take n data)\<rparr>)"
proof (cases "tq_tail q + n \<le> QSIZE")
  case True
  then show ?thesis
    using ok n by (auto simp: tcom_push_data_def tq_ok_def ring_write_linear)
next
  case False
  then have head: "tq_head q \<le> tq_tail q" "\<not> n \<le> QSIZE - tq_tail q"
    using ok n by (auto simp: tq_used_cases tq_ok_def split: if_splits)
  have "do { b \<leftarrow> blit (tq_buf q) (tq_tail q) data (QSIZE - tq_tail q);
             r \<leftarrow> subarray data (QSIZE - tq_tail q) (n - (QSIZE - tq_tail q));
             blit b 0 r (n - (QSIZE - tq_tail q)) } =
      Some (ring_write (tq_buf q) (tq_tail q) (take n data))"
    using ok n False by (intro two_blits_write) (auto simp: tq_ok_def)
  with head show ?thesis by (simp add: tcom_push_data_def Let_def)
qed

lemma tcom_pull_reads:
  assumes ok: "tq_ok q" and n: "n \<le> tq_used q" "n \<le> length dst"
  shows "tcom_pull_data q dst n = Some (ring_read (tq_buf q) (tq_head q) n @ drop n dst)"
proof (cases "tq_head q + n \<le> QSIZE")
  case True
  then show ?thesis
    using ok n by (auto simp: tcom_pull_data_def tq_ok_def ring_read_linear)
next
  case False
  then have head: "tq_tail q \<le> tq_head q" "\<not> n \<le> QSIZE - tq_head q"
    using ok n by (auto simp: tq_used_cases tq_ok_def split: if_splits)
  have "do { h \<leftarrow> subarray (tq_buf q) (tq_head q) (QSIZE - tq_head q);
             d \<leftarrow> blit dst 0 h (QSIZE - tq_head q);
             t \<leftarrow> subarray (tq_buf q) 0 (n - (QSIZE - tq_head q));
             blit d (QSIZE - tq_head q) t (n - (QSIZE - tq_head q)) } =
      Some (ring_read (tq_buf q) (tq_head q) n @ drop n dst)"
    using ok n False tq_used_less [of q] by (intro two_blits_read) (auto simp: tq_ok_def)
  with head show ?thesis by (simp add: tcom_pull_data_def Let_def)
qed

text \<open>The queue after \<open>n\<close> bytes more, and after \<open>n\<close> bytes less.\<close>

lemma tq_append:
  assumes ok: "tq_ok q" and fits: "tq_used q + length xs < QSIZE"
  defines "q' \<equiv> q\<lparr>tq_buf := ring_write (tq_buf q) (tq_tail q) xs,
                   tq_tail := (tq_tail q + length xs) mod QSIZE\<rparr>"
  shows "tq_ok q'" and "tq_used q' = tq_used q + length xs"
    and "tq_contents q' = tq_contents q @ xs"
proof -
  show ok': "tq_ok q'" using ok by (simp add: tq_ok_def q'_def)
  have "tq_tail q' = (tq_head q + (tq_used q + length xs)) mod QSIZE"
    using tq_tail_pos [OF ok] by (simp add: q'_def mod_simps add.assoc)
  moreover have "tq_head q' = tq_head q" by (simp add: q'_def)
  ultimately show used: "tq_used q' = tq_used q + length xs"
    using ring_offset [OF fits, of "tq_head q"] ok by (simp add: tq_used_def tq_ok_def)
  have "ring_write (tq_buf q) (tq_tail q) xs = ring_write (tq_buf q) (tq_head q + tq_used q) xs"
    using tq_tail_pos [OF ok] ok by (metis ring_write_mod tq_ok_def)
  then show "tq_contents q' = tq_contents q @ xs"
    using ok fits ring_append [of "tq_used q" xs "tq_buf q" "tq_head q"]
    unfolding tq_contents_def used by (simp add: q'_def tq_ok_def)
qed

lemma tq_remove:
  assumes ok: "tq_ok q" and n: "n \<le> tq_used q"
  defines "q' \<equiv> q\<lparr>tq_head := (tq_head q + n) mod QSIZE\<rparr>"
  shows "tq_ok q'" and "tq_used q' = tq_used q - n"
    and "tq_contents q' = drop n (tq_contents q)"
proof -
  show ok': "tq_ok q'" using ok by (simp add: tq_ok_def q'_def)
  have "tq_used q - n < QSIZE" using tq_used_less [of q] by simp
  note off = ring_offset [OF this, of "tq_head q + n"]
  have tail: "(tq_head q + n + (tq_used q - n)) mod QSIZE = tq_tail q"
    using tq_tail_pos [OF ok] n by simp
  show used: "tq_used q' = tq_used q - n"
    using off unfolding tail by (simp add: tq_used_def q'_def)
  have "ring_read (tq_buf q) ((tq_head q + n) mod QSIZE) m = ring_read (tq_buf q) (tq_head q + n) m" for m
    using ok by (metis ring_read_mod tq_ok_def)
  then show "tq_contents q' = drop n (tq_contents q)"
    using n unfolding tq_contents_def used by (simp add: q'_def drop_ring_read)
qed

text \<open>A pushed message taken back: what the roll back of \<open>tcom_forward\<close> does.\<close>

lemma tq_rollback:
  assumes ok: "tq_ok q" and fits: "tq_used q + length xs < QSIZE"
  defines "q' \<equiv> q\<lparr>tq_buf := ring_write (tq_buf q) (tq_tail q) xs,
                   tq_tail := (tq_tail q + length xs) mod QSIZE\<rparr>"
  defines "q'' \<equiv> q'\<lparr>tq_tail := (tq_tail q' + QSIZE - length xs) mod QSIZE\<rparr>"
  shows "tq_ok q''" and "tq_contents q'' = tq_contents q"
proof -
  show ok'': "tq_ok q''" using ok by (simp add: tq_ok_def q'_def q''_def)
  have "tq_tail q'' = tq_tail q"
    using ok fits by (auto simp: q''_def q'_def tq_ok_def mod_if)
  then have used: "tq_used q'' = tq_used q"
    by (simp add: tq_used_def q''_def q'_def)
  have "tq_contents q'' = take (tq_used q) (tq_contents q')"
    unfolding tq_contents_def used
    using tq_append(2) [OF ok fits] by (simp add: q''_def q'_def take_ring_read)
  then show "tq_contents q'' = tq_contents q"
    using tq_append(3) [OF ok fits] by (simp add: q'_def)
qed

text \<open>What \<open>tcom_enqueue_msg\<close> and \<open>tcom_dequeue_msg\<close> do to the bytes held.\<close>

lemma tcom_error_codes [simp]:
  "TCOM_INVALID_PARAMETER = 0" "TCOM_QUEUE_OVERFLOW = 1" "TCOM_QUEUE_UNDERFLOW = 2"
  by (simp_all add: TCOM_INVALID_PARAMETER_def TCOM_QUEUE_OVERFLOW_def TCOM_QUEUE_UNDERFLOW_def
    MPU_MID_TCOM_def)

lemma enqueue_overflow:
  "tq_ok q \<Longrightarrow> QSIZE - 1 - tq_used q < unat (msg_msglen hdr) \<Longrightarrow>
   tcom_enqueue_msg q hdr body = Some (TCOM_QUEUE_OVERFLOW, q)"
  using tq_idle [of q] by (auto simp: tcom_enqueue_msg_def Let_def)

lemma enqueue_fits:
  assumes ok: "tq_ok q" and fits: "tq_used q + unat (msg_msglen hdr) < QSIZE"
    and body: "unat (msg_msglen hdr) \<le> length body"
  shows "\<exists>q'. tcom_enqueue_msg q hdr body = Some (0, q') \<and> tq_ok q'
    \<and> tq_used q' = tq_used q + unat (msg_msglen hdr)
    \<and> tq_contents q' = tq_contents q @ take (unat (msg_msglen hdr)) body
    \<and> (let q'' = q'\<lparr>tq_tail := (tq_tail q' + QSIZE - unat (msg_msglen hdr)) mod QSIZE\<rparr>
       in tq_ok q'' \<and> tq_contents q'' = tq_contents q \<and> tq_used q'' = tq_used q)"
proof -
  let ?n = "unat (msg_msglen hdr)" and ?xs = "take (unat (msg_msglen hdr)) body"
  have xs: "length ?xs = ?n" using body by simp
  show ?thesis
  proof (cases "?n = 0")
    case True
    with ok show ?thesis
      by (auto simp: tcom_enqueue_msg_def Let_def tq_ok_def tq_contents_def tq_used_def le_mod_geq)
  next
    case False
    have idle: "\<not> (tq_head q + QSIZE - 1 - tq_tail q) mod QSIZE < ?n"
      using fits tq_idle [OF ok] by linarith
    have push: "tcom_push_data q body ?n =
        Some (q\<lparr>tq_buf := ring_write (tq_buf q) (tq_tail q) ?xs\<rparr>)"
      using fits body by (intro tcom_push_writes [OF ok]) auto
    define q' where "q' = q\<lparr>tq_buf := ring_write (tq_buf q) (tq_tail q) ?xs,
                            tq_tail := (tq_tail q + length ?xs) mod QSIZE\<rparr>"
    have "tcom_enqueue_msg q hdr body = Some (0, q')"
      using False idle push xs by (simp add: tcom_enqueue_msg_def Let_def q'_def)
    moreover have fits': "tq_used q + length ?xs < QSIZE" using fits xs by simp
    note app = tq_append [OF ok fits', folded q'_def] and undo = tq_rollback [OF ok fits', folded q'_def]
    moreover have "tq_used (q'\<lparr>tq_tail := (tq_tail q' + QSIZE - length ?xs) mod QSIZE\<rparr>) = tq_used q"
      using undo(2) by (metis length_tq_contents)
    ultimately show ?thesis using xs app undo by (auto simp: Let_def)
  qed
qed

lemma dequeue_available:
  assumes ok: "tq_ok q" and n: "unat (msg_msglen hdr) \<le> tq_used q" "unat (msg_msglen hdr) \<le> length dst"
  shows "\<exists>q' dst'. tcom_dequeue_msg q hdr dst = Some (0, q', dst') \<and> tq_ok q'
    \<and> tq_used q' = tq_used q - unat (msg_msglen hdr) \<and> length dst' = length dst
    \<and> take (unat (msg_msglen hdr)) dst' = take (unat (msg_msglen hdr)) (tq_contents q)
    \<and> tq_contents q' = drop (unat (msg_msglen hdr)) (tq_contents q)"
proof (cases "unat (msg_msglen hdr) = 0")
  case True
  with ok show ?thesis by (simp add: tcom_dequeue_msg_def)
next
  case False
  let ?n = "unat (msg_msglen hdr)"
  have "\<not> (tq_tail q + QSIZE - tq_head q) mod QSIZE < ?n"
    using n(1) by (simp add: tq_used_def)
  then show ?thesis
    using False tcom_pull_reads [OF ok n] tq_remove [OF ok n(1)] n
    by (simp add: tcom_dequeue_msg_def Let_def tq_contents_def take_ring_read)
qed

definition body_hdr :: "nat \<Rightarrow> TCOM_MSG_HEADER" where
  "body_hdr n = \<lparr>msg_sender = 0, msg_receiver = 0, msg_msgid = 0, msg_msglen = word_of_nat n\<rparr>"

definition tq_push :: "byte list \<Rightarrow> TCOM_QUEUE \<Rightarrow> TCOM_QUEUE option" where
  "tq_push xs q = do {
     (ret, q') \<leftarrow> tcom_enqueue_msg q (body_hdr (length xs)) xs;
     if ret = 0 then Some q' else None }"

definition tq_pull :: "nat \<Rightarrow> TCOM_QUEUE \<Rightarrow> (byte list \<times> TCOM_QUEUE) option" where
  "tq_pull n q = do {
     (ret, q', dst) \<leftarrow> tcom_dequeue_msg q (body_hdr n) (replicate n 0);
     if ret = 0 then Some (dst, q') else None }"

lemma body_hdr_len: "n < QSIZE \<Longrightarrow> unat (msg_msglen (body_hdr n)) = n"
  by (simp add: body_hdr_def unat_of_nat TCOM_QUEUE_BUF_SIZE_def)

interpretation bodies: bounded_fifo tq_ok tq_contents tq_capacity tq_push tq_pull
proof unfold_locales
  show "length (tq_contents q) \<le> tq_capacity q" for q
    using tq_used_less [of q] by (simp add: tq_capacity_def)
next
  fix q :: TCOM_QUEUE and xs :: "byte list"
  assume ok: "tq_ok q" and "length (tq_contents q) + length xs \<le> tq_capacity q"
  then have fits: "tq_used q + length xs < QSIZE"
    using QSIZE_pos unfolding tq_capacity_def length_tq_contents by linarith
  from body_hdr_len [of "length xs"] fits have "unat (msg_msglen (body_hdr (length xs))) = length xs"
    by simp
  with enqueue_fits [OF ok, of "body_hdr (length xs)" xs] fits
  show "\<exists>q'. tq_push xs q = Some q' \<and> tq_ok q' \<and> tq_contents q' = tq_contents q @ xs
      \<and> tq_capacity q' = tq_capacity q"
    by (auto simp: tq_push_def tq_capacity_def)
next
  fix q :: TCOM_QUEUE and n
  assume ok: "tq_ok q" and n: "n \<le> length (tq_contents q)"
  then have "unat (msg_msglen (body_hdr n)) = n"
    using body_hdr_len [of n] tq_used_less [of q] by simp
  with dequeue_available [OF ok, of "body_hdr n" "replicate n 0"] n
  show "\<exists>q'. tq_pull n q = Some (take n (tq_contents q), q') \<and> tq_ok q'
      \<and> tq_contents q' = drop n (tq_contents q) \<and> tq_capacity q' = tq_capacity q"
    by (auto simp: tq_pull_def tq_capacity_def)
qed

section \<open>Channels as queues of messages\<close>

type_synonym tcom_msg = "TCOM_MSG_HEADER \<times> byte list"

definition msg_len :: "TCOM_MSG_HEADER \<Rightarrow> nat" where
  "msg_len h = unat (msg_msglen h)"

fun cut :: "TCOM_MSG_HEADER list \<Rightarrow> byte list \<Rightarrow> tcom_msg list" where
  "cut [] bytes = []"
| "cut (h # hs) bytes = (h, take (msg_len h) bytes) # cut hs (drop (msg_len h) bytes)"

definition chan_msgs :: "tcom_chan \<Rightarrow> tcom_msg list" where
  "chan_msgs c = cut (tc_pipe c) (tq_contents (tc_queue c))"

definition chan_ok :: "tcom_chan \<Rightarrow> bool" where
  "chan_ok c \<longleftrightarrow> tq_ok (tc_queue c) \<and> sum_list (map msg_len (tc_pipe c)) = tq_used (tc_queue c)"

lemma cut_append:
  "sum_list (map msg_len hs) = length bytes \<Longrightarrow>
   cut (hs @ [h]) (bytes @ xs) = cut hs bytes @ [(h, take (msg_len h) xs)]"
  by (induction hs arbitrary: bytes) auto

lemma map_fst_cut [simp]: "map fst (cut hs bytes) = hs"
  by (induction hs arbitrary: bytes) auto

text \<open>Whether \<open>tcom_forward\<close> takes the message.\<close>

definition chan_room :: "tcom_chan \<Rightarrow> TCOM_MSG_HEADER \<Rightarrow> bool" where
  "chan_room c h \<longleftrightarrow> tq_used (tc_queue c) + msg_len h < QSIZE"

text \<open>
  A message is appended to the channel, or the channel holds what it held and the result is not
  0: a full queue changes nothing, and a full pipe takes the body back.
\<close>

lemma tcom_forward_result:
  assumes idx: "mid_to_index mid = int i" "i < length tc" and ok: "chan_ok (tc ! i)"
    and body: "msg_len hdr \<le> length body"
  shows "if chan_room (tc ! i) hdr \<and> wr = 0
    then \<exists>c. tcom_forward tc hdr mid body wr = Some (0, tc[i := c]) \<and> chan_ok c
      \<and> chan_msgs c = chan_msgs (tc ! i) @ [(hdr, take (msg_len hdr) body)]
    else \<exists>c ret. tcom_forward tc hdr mid body wr = Some (ret, tc[i := c]) \<and> ret \<noteq> 0 \<and> chan_ok c
      \<and> chan_msgs c = chan_msgs (tc ! i)"
proof -
  let ?c = "tc ! i" and ?q = "tc_queue (tc ! i)"
  have q: "tq_ok ?q" using ok by (simp add: chan_ok_def)
  have in_tc: "\<not> (int i < 0 \<or> int (length tc) \<le> int i)" using idx by simp
  show ?thesis
  proof (cases "chan_room ?c hdr")
    case False
    then have "QSIZE - 1 - tq_used ?q < unat (msg_msglen hdr)"
      using tq_used_less [of ?q] by (simp add: chan_room_def msg_len_def)
    from enqueue_overflow [OF q this] have "tcom_enqueue_msg ?q hdr body = Some (1, ?q)" by simp
    moreover have "msg_msglen hdr \<noteq> 0"
      using False tq_used_less [of ?q] by (auto simp: chan_room_def msg_len_def)
    ultimately have "tcom_forward tc hdr mid body wr = Some (-1, tc[i := ?c])"
      using idx in_tc by (simp add: tcom_forward_def)
    with False ok show ?thesis by (auto intro!: exI [of _ ?c])
  next
    case True
    then have fits: "tq_used ?q + unat (msg_msglen hdr) < QSIZE"
      by (simp add: chan_room_def msg_len_def)
    obtain q' where enq: "tcom_enqueue_msg ?q hdr body = Some (0, q')"
      and q': "tq_ok q'" "tq_used q' = tq_used ?q + msg_len hdr"
        "tq_contents q' = tq_contents ?q @ take (msg_len hdr) body"
      and undo: "let q'' = q'\<lparr>tq_tail := (tq_tail q' + QSIZE - unat (msg_msglen hdr)) mod QSIZE\<rparr>
       in tq_ok q'' \<and> tq_contents q'' = tq_contents ?q \<and> tq_used q'' = tq_used ?q"
      using enqueue_fits [OF q fits] body by (auto simp: msg_len_def)
    have call: "(if msg_msglen hdr \<noteq> 0 then tcom_enqueue_msg ?q hdr body else Some (0, ?q)) = Some (0, q')"
      using enq by (auto simp: tcom_enqueue_msg_def)
    show ?thesis
    proof (cases "wr = 0")
      case True
      then have "tcom_forward tc hdr mid body wr =
          Some (0, tc[i := ?c\<lparr>tc_pipe := tc_pipe ?c @ [hdr], tc_queue := q'\<rparr>])"
        using idx in_tc call by (simp add: tcom_forward_def Let_def)
      moreover have "chan_ok (?c\<lparr>tc_pipe := tc_pipe ?c @ [hdr], tc_queue := q'\<rparr>)"
        using q' ok by (simp add: chan_ok_def)
      moreover have "chan_msgs (?c\<lparr>tc_pipe := tc_pipe ?c @ [hdr], tc_queue := q'\<rparr>) =
          chan_msgs ?c @ [(hdr, take (msg_len hdr) body)]"
        using q' ok by (simp add: chan_msgs_def chan_ok_def cut_append)
      ultimately show ?thesis using True \<open>chan_room ?c hdr\<close> by auto
    next
      case False
      let ?q2 = "if 0 < msg_msglen hdr then
          q'\<lparr>tq_tail := (tq_tail q' + QSIZE - unat (msg_msglen hdr)) mod QSIZE\<rparr> else q'"
      have "tcom_forward tc hdr mid body wr = Some (wr, tc[i := ?c\<lparr>tc_queue := ?q2\<rparr>])"
        using idx in_tc call False by (simp add: tcom_forward_def Let_def)
      moreover have "msg_msglen hdr = 0 \<Longrightarrow> q' = ?q" using call by simp
      then have "tq_ok ?q2 \<and> tq_contents ?q2 = tq_contents ?q \<and> tq_used ?q2 = tq_used ?q"
        using undo q by (auto simp: Let_def word_gt_0)
      then have "chan_ok (?c\<lparr>tc_queue := ?q2\<rparr>)" "chan_msgs (?c\<lparr>tc_queue := ?q2\<rparr>) = chan_msgs ?c"
        using ok by (simp_all add: chan_ok_def chan_msgs_def)
      ultimately show ?thesis using False by auto
    qed
  qed
qed

lemma tcom_recv_result:
  assumes idx: "mid_to_index mid = int i" "i < length tc" and ok: "chan_ok (tc ! i)"
    and msgs: "chan_msgs (tc ! i) = (h, b) # rest" and dst: "msg_len h \<le> length dst"
  shows "\<exists>c dst'. tcom_recv_msg tc mid (Some dst) = Some (0, h, Some dst', tc[i := c]) \<and> chan_ok c
    \<and> chan_msgs c = rest \<and> take (msg_len h) dst' = b \<and> length dst' = length dst"
proof -
  let ?c = "tc ! i" and ?q = "tc_queue (tc ! i)"
  have q: "tq_ok ?q" using ok by (simp add: chan_ok_def)
  obtain hs where pipe: "tc_pipe ?c = h # hs"
    and b: "b = take (msg_len h) (tq_contents ?q)" and rest: "rest = cut hs (drop (msg_len h) (tq_contents ?q))"
    using msgs by (cases "tc_pipe ?c") (auto simp: chan_msgs_def)
  have used: "tq_used ?q = msg_len h + sum_list (map msg_len hs)"
    using ok pipe by (simp add: chan_ok_def)
  have in_tc: "\<not> (int i < 0 \<or> int (length tc) \<le> int i)" using idx by simp
  obtain q' dst' where deq: "tcom_dequeue_msg ?q h dst = Some (0, q', dst')"
    and q': "tq_ok q'" "tq_used q' = tq_used ?q - msg_len h" "length dst' = length dst"
      "take (msg_len h) dst' = take (msg_len h) (tq_contents ?q)"
      "tq_contents q' = drop (msg_len h) (tq_contents ?q)"
    using dequeue_available [OF q, of h dst] used dst by (auto simp: msg_len_def)
  have same: "msg_msglen h = 0 \<Longrightarrow> q' = ?q \<and> dst' = dst"
    using deq by (simp add: tcom_dequeue_msg_def)
  let ?c' = "?c\<lparr>tc_pipe := hs, tc_queue := q'\<rparr>"
  have "tcom_recv_msg tc mid (Some dst) = Some (0, h, Some dst', tc[i := ?c'])"
    using idx in_tc pipe deq same by (auto simp: tcom_recv_msg_def Let_def)
  moreover have "chan_ok ?c'" using q' used by (simp add: chan_ok_def)
  moreover have "chan_msgs ?c' = rest" using q' rest by (simp add: chan_msgs_def)
  ultimately show ?thesis using q' b by blast
qed

section \<open>The threads and their messages\<close>

text \<open>A header that \<open>tcom_send_msg\<close> accepts.\<close>

definition hdr_valid :: "TCOM_MSG_HEADER \<Rightarrow> bool" where
  "hdr_valid h \<longleftrightarrow> msg_sender h AND CPUID_MASK = 0 \<and> msg_receiver h AND CPUID_MASK = 0
     \<and> msg_sender h AND CPUID_MAIN_MID_MASK \<le> MPU_MAX_MID
     \<and> msg_receiver h AND CPUID_MAIN_MID_MASK \<le> MPU_MAX_MID
     \<and> msg_sender h AND CPUID_MAIN_MID_MASK \<noteq> 0 \<and> msg_receiver h AND CPUID_MAIN_MID_MASK \<noteq> 0
     \<and> msg_len h \<le> TCOM_MAX_MSG_LEN"

definition receiver_index :: "TCOM_MSG_HEADER \<Rightarrow> nat" where
  "receiver_index h = nat (mid_to_index (msg_receiver h))"

text \<open>The module number of an id, bits 8 to 13, and what the guards of \<open>tcom_send_msg\<close> leave of it.\<close>

definition mid_no :: "u16 \<Rightarrow> nat" where
  "mid_no mid = unat mid div 256"

lemma main_mid_no: "unat (mid AND CPUID_MAIN_MID_MASK) = 256 * mid_no mid"
proof -
  have "unat mid div 256 < 256" using unat_u16_less [of mid] by simp
  then show ?thesis
    using unat_and_field [of CPUID_MAIN_MID_MASK 8 8 mid]
    by (simp add: CPUID_MAIN_MID_MASK_def mid_no_def mask_eq_exp_minus_1)
qed

lemma mid_to_index_no: "mid_to_index mid = int (mid_no mid mod 64) - 1"
proof -
  have "unat (drop_bit 8 (mid AND MAIN_MID_MASK)) = mid_no mid mod 64"
    using unat_and_field [of MAIN_MID_MASK 8 6 mid] unfolding unat_drop_field
    by (simp add: MAIN_MID_MASK_def mid_no_def mask_eq_exp_minus_1)
  then have "uint (drop_bit 8 (mid AND MAIN_MID_MASK)) = int (mid_no mid mod 64)"
    by (metis uint_nat)
  then show ?thesis by (simp add: mid_to_index_def)
qed

lemma hdr_valid_index:
  assumes "hdr_valid h"
  shows "mid_to_index (msg_receiver h) = int (receiver_index h)" "receiver_index h < 20"
    "receiver_index h = 6 \<longleftrightarrow> msg_receiver h AND CPUID_MAIN_MID_MASK = MPU_MID_TCOM"
proof -
  let ?n = "mid_no (msg_receiver h)"
  have "unat (msg_receiver h AND CPUID_MAIN_MID_MASK) \<le> 5120"
    "unat (msg_receiver h AND CPUID_MAIN_MID_MASK) \<noteq> 0"
    using assms by (auto simp: hdr_valid_def MPU_MAX_MID_def word_le_nat_alt unat_eq_0)
  then have n: "?n \<le> 20" "?n \<noteq> 0" by (auto simp: main_mid_no)
  then have idx: "mid_to_index (msg_receiver h) = int (?n - 1)" "receiver_index h = ?n - 1"
    by (auto simp: mid_to_index_no receiver_index_def)
  then show "mid_to_index (msg_receiver h) = int (receiver_index h)" "receiver_index h < 20"
    using n by auto
  have "msg_receiver h AND CPUID_MAIN_MID_MASK = MPU_MID_TCOM \<longleftrightarrow> 256 * ?n = 1792"
    by (simp add: word_unat_eq_iff main_mid_no MPU_MID_TCOM_def)
  then show "receiver_index h = 6 \<longleftrightarrow> msg_receiver h AND CPUID_MAIN_MID_MASK = MPU_MID_TCOM"
    using idx n by auto
qed

lemma tcom_index: "mid_to_index MPU_MID_TCOM = 6"
  by (simp add: mid_to_index_no mid_no_def MPU_MID_TCOM_def)

lemma send_msg_valid:
  "hdr_valid h \<Longrightarrow> msg_len h \<le> length body \<Longrightarrow>
   tcom_send_msg tc (Some h) (Some body) wr = tcom_forward tc h MPU_MID_TCOM body wr"
  by (auto simp: tcom_send_msg_def hdr_valid_def msg_len_def not_less)

lemma send_msg_invalid:
  "\<not> hdr_valid h \<Longrightarrow> tcom_send_msg tc (Some h) body wr = Some (0, tc)"
  by (auto simp: tcom_send_msg_def hdr_valid_def msg_len_def not_less)

text \<open>
  The system: the channels, the buffer of the TCOM thread, and three logs: the messages
  accepted by \<open>tcom_send_msg\<close> in that order, what each module has received, and the modules
  for which the TCOM thread has had to drop a message.
\<close>

record tcom_sys =
  sys_tc :: tcom
  sys_buf :: "byte list"
  sys_sent :: "tcom_msg list"
  sys_recv :: "nat \<Rightarrow> tcom_msg list"
  sys_lost :: "nat set"

inductive tcom_step :: "tcom_sys \<Rightarrow> tcom_sys \<Rightarrow> bool" where
  send_ok: "hdr_valid h \<Longrightarrow> msg_len h \<le> length body \<Longrightarrow>
    tcom_send_msg (sys_tc s) (Some h) (Some body) wr = Some (0, tc) \<Longrightarrow>
    tcom_step s (s\<lparr>sys_tc := tc, sys_sent := sys_sent s @ [(h, take (msg_len h) body)]\<rparr>)"
| send_failed: "hdr_valid h \<Longrightarrow> msg_len h \<le> length body \<Longrightarrow>
    tcom_send_msg (sys_tc s) (Some h) (Some body) wr = Some (ret, tc) \<Longrightarrow> ret \<noteq> 0 \<Longrightarrow>
    tcom_step s (s\<lparr>sys_tc := tc\<rparr>)"
| send_refused: "\<not> hdr_valid h \<Longrightarrow> tcom_send_msg (sys_tc s) (Some h) body wr = Some (ret, tc) \<Longrightarrow>
    tcom_step s (s\<lparr>sys_tc := tc\<rparr>)"
| proc: "tc_pipe (sys_tc s ! 6) = h # hs \<Longrightarrow>
    tcom_proc_msg (sys_tc s) (sys_buf s) wr = Some (ret, buf, tc) \<Longrightarrow>
    tcom_step s (s\<lparr>sys_tc := tc, sys_buf := buf,
      sys_lost := (if ret = 0 then sys_lost s else insert (receiver_index h) (sys_lost s))\<rparr>)"
| recv: "mid_to_index mid = int i \<Longrightarrow> i < 20 \<Longrightarrow> i \<noteq> 6 \<Longrightarrow> length dst = TCOM_MAX_MSG_LEN \<Longrightarrow>
    tcom_recv_msg (sys_tc s) mid (Some dst) = Some (ret, h, Some dst', tc) \<Longrightarrow>
    tcom_step s (s\<lparr>sys_tc := tc, sys_recv := (sys_recv s)(i := sys_recv s i @ [(h, take (msg_len h) dst')])\<rparr>)"

definition sys_init :: "tcom_sys" where
  "sys_init = \<lparr>sys_tc = replicate MPU_APP_MID_COUNT \<lparr>tc_pipe = [], tc_queue =
       \<lparr>tq_head = 0, tq_tail = 0, tq_buf = replicate TCOM_QUEUE_BUF_SIZE 0\<rparr>\<rparr>,
     sys_buf = replicate TCOM_MAX_MSG_LEN 0, sys_sent = [], sys_recv = (\<lambda>_. []), sys_lost = {}\<rparr>"

inductive tcom_reach :: "tcom_sys \<Rightarrow> bool" where
  init: "tcom_reach sys_init"
| step: "tcom_reach s \<Longrightarrow> tcom_step s s' \<Longrightarrow> tcom_reach s'"

text \<open>What is on its way to module \<open>i\<close>: in its channel, then in the TCOM channel.\<close>

definition in_flight :: "tcom_sys \<Rightarrow> nat \<Rightarrow> tcom_msg list" where
  "in_flight s i = chan_msgs (sys_tc s ! i) @ filter (\<lambda>m. receiver_index (fst m) = i) (chan_msgs (sys_tc s ! 6))"

definition sys_ok :: "tcom_sys \<Rightarrow> bool" where
  "sys_ok s \<longleftrightarrow> length (sys_tc s) = 20 \<and> length (sys_buf s) = TCOM_MAX_MSG_LEN
     \<and> (\<forall>i<20. chan_ok (sys_tc s ! i) \<and> (\<forall>h\<in>set (tc_pipe (sys_tc s ! i)). hdr_valid h))
     \<and> (\<forall>i<20. i \<noteq> 6 \<longrightarrow>
          subseq (sys_recv s i @ in_flight s i) (filter (\<lambda>m. receiver_index (fst m) = i) (sys_sent s))
          \<and> (i \<notin> sys_lost s \<longrightarrow>
             sys_recv s i @ in_flight s i = filter (\<lambda>m. receiver_index (fst m) = i) (sys_sent s)))"

lemma chan_pipe: "tc_pipe c = map fst (chan_msgs c)"
  by (simp add: chan_msgs_def)

text \<open>The log of module \<open>i\<close> against what was sent to it.\<close>

definition fifo_to :: "tcom_sys \<Rightarrow> nat \<Rightarrow> bool" where
  "fifo_to s i \<longleftrightarrow>
     subseq (sys_recv s i @ in_flight s i) (filter (\<lambda>m. receiver_index (fst m) = i) (sys_sent s))
     \<and> (i \<notin> sys_lost s \<longrightarrow>
        sys_recv s i @ in_flight s i = filter (\<lambda>m. receiver_index (fst m) = i) (sys_sent s))"

definition chans_ok :: "tcom \<Rightarrow> bool" where
  "chans_ok tc \<longleftrightarrow> length tc = 20
     \<and> (\<forall>i<20. chan_ok (tc ! i) \<and> (\<forall>m\<in>set (chan_msgs (tc ! i)). hdr_valid (fst m)))"

lemma sys_ok_iff:
  "sys_ok s \<longleftrightarrow> chans_ok (sys_tc s) \<and> length (sys_buf s) = TCOM_MAX_MSG_LEN \<and> (\<forall>i<20. i \<noteq> 6 \<longrightarrow> fifo_to s i)"
  by (auto simp: sys_ok_def chans_ok_def fifo_to_def chan_pipe)

lemma chans_okD:
  assumes "chans_ok tc" "i < 20"
  shows "i < length tc" "chan_ok (tc ! i)" "\<forall>m\<in>set (chan_msgs (tc ! i)). hdr_valid (fst m)"
  using assms by (simp_all add: chans_ok_def)

lemma chans_ok_update:
  "chans_ok tc \<Longrightarrow> i < 20 \<Longrightarrow> chan_ok c \<Longrightarrow> \<forall>m\<in>set (chan_msgs c). hdr_valid (fst m) \<Longrightarrow> chans_ok (tc[i := c])"
  by (auto simp: chans_ok_def nth_list_update)

lemma send_step:
  assumes ok: "chans_ok tc" and h: "hdr_valid h" and body: "msg_len h \<le> length body"
    and send: "tcom_send_msg tc (Some h) (Some body) wr = Some (ret, tc')"
  shows "\<exists>c. tc' = tc[6 := c] \<and> chans_ok tc'
    \<and> chan_msgs c = chan_msgs (tc ! 6) @ (if ret = 0 then [(h, take (msg_len h) body)] else [])"
proof -
  have idx: "mid_to_index MPU_MID_TCOM = int 6" "6 < length tc" and c6: "chan_ok (tc ! 6)"
    and valid: "\<forall>m\<in>set (chan_msgs (tc ! 6)). hdr_valid (fst m)"
    using chans_okD [OF ok, of 6] by (auto simp: tcom_index)
  have fwd: "tcom_forward tc h MPU_MID_TCOM body wr = Some (ret, tc')"
    using send send_msg_valid [OF h body] by simp
  from tcom_forward_result [OF idx c6 body, of wr] fwd
  obtain c where c: "tc' = tc[6 := c]" "chan_ok c"
    "chan_msgs c = chan_msgs (tc ! 6) @ (if ret = 0 then [(h, take (msg_len h) body)] else [])"
    by (fastforce split: if_splits)
  then have "chans_ok tc'"
    using valid h by (auto intro!: chans_ok_update [OF ok])
  with c show ?thesis by blast
qed

lemma proc_step:
  assumes ok: "chans_ok tc" and pipe: "tc_pipe (tc ! 6) = h # hs"
    and buf: "length buf = TCOM_MAX_MSG_LEN"
    and run: "tcom_proc_msg tc buf wr = Some (ret, buf', tc')"
  shows "chans_ok tc' \<and> length buf' = TCOM_MAX_MSG_LEN \<and> (\<exists>b rest.
    chan_msgs (tc ! 6) = (h, b) # rest \<and> chan_msgs (tc' ! 6) = rest
    \<and> (\<forall>i<20. i \<noteq> 6 \<longrightarrow> chan_msgs (tc' ! i) =
        chan_msgs (tc ! i) @ (if i = receiver_index h \<and> ret = 0 then [(h, b)] else []))
    \<and> (ret \<noteq> 0 \<longrightarrow> receiver_index h \<noteq> 6))"
proof -
  obtain b rest where msgs: "chan_msgs (tc ! 6) = (h, b) # rest"
    using pipe by (simp add: chan_msgs_def)
  have idx: "mid_to_index MPU_MID_TCOM = int 6" "6 < length tc" and c6: "chan_ok (tc ! 6)"
    and valid: "\<forall>m\<in>set (chan_msgs (tc ! 6)). hdr_valid (fst m)"
    using chans_okD [OF ok, of 6] by (auto simp: tcom_index)
  have len: "length tc = 20" using ok by (simp add: chans_ok_def)
  have h: "hdr_valid h" using valid msgs by simp
  then have small: "msg_len h \<le> length buf" using buf by (simp add: hdr_valid_def)
  obtain c dst where recv: "tcom_recv_msg tc MPU_MID_TCOM (Some buf) = Some (0, h, Some dst, tc[6 := c])"
    and c: "chan_ok c" "chan_msgs c = rest" and b: "take (msg_len h) dst = b" "length dst = length buf"
    using tcom_recv_result [OF idx c6 msgs small] by blast
  let ?tc = "tc[6 := c]"
  have ok1: "chans_ok ?tc" using c valid msgs by (intro chans_ok_update [OF ok]) auto
  let ?r = "receiver_index h"
  note r = hdr_valid_index [OF h]
  show ?thesis
  proof (cases "?r = 6")
    case True
    then have "ret = 0" "buf' = dst" "tc' = ?tc"
      using run recv r(3) by (simp_all add: tcom_proc_msg_def)
    with ok1 msgs c b buf len True show ?thesis by auto
  next
    case False
    have cr: "chan_ok (?tc ! ?r)" "\<forall>m\<in>set (chan_msgs (?tc ! ?r)). hdr_valid (fst m)"
      using ok1 r(2) by (auto simp: chans_ok_def)
    have fwd: "tcom_forward ?tc h (msg_receiver h) dst wr = Some (ret, tc')" "buf' = dst"
      using run recv r(3) False by (auto simp: tcom_proc_msg_def split: bind_splits)
    have small': "msg_len h \<le> length dst" using small b by simp
    have rlen: "?r < length ?tc" using r(2) len by simp
    from tcom_forward_result [OF r(1) rlen cr(1) small', of wr] fwd(1)
    obtain c2 where c2: "tc' = ?tc[?r := c2]" "chan_ok c2"
      "chan_msgs c2 = chan_msgs (?tc ! ?r) @ (if ret = 0 then [(h, b)] else [])"
      using b(1) by (fastforce split: if_splits)
    have "chans_ok tc'"
      using c2 cr h r(2) by (auto intro!: chans_ok_update [OF ok1])
    moreover have "chan_msgs (tc' ! i) =
        chan_msgs (tc ! i) @ (if i = ?r \<and> ret = 0 then [(h, b)] else [])" if "i < 20" "i \<noteq> 6" for i
      using that c2 len False r(2) by (cases "i = ?r") simp_all
    moreover have "chan_msgs (tc' ! 6) = rest" using c2 c len False by simp
    ultimately show ?thesis using msgs b buf fwd False by auto
  qed
qed

lemma fifo_to_weaken:
  assumes "fifo_to s i" and "sys_sent s' = sys_sent s" and "sys_lost s \<subseteq> sys_lost s'"
    and "subseq (sys_recv s' i @ in_flight s' i) (sys_recv s i @ in_flight s i)"
    and "i \<notin> sys_lost s' \<Longrightarrow> sys_recv s' i @ in_flight s' i = sys_recv s i @ in_flight s i"
  shows "fifo_to s' i"
  using assms by (auto simp: fifo_to_def intro: subseq_order.trans)

lemma tcom_step_ok: "tcom_step s s' \<Longrightarrow> sys_ok s \<Longrightarrow> sys_ok s'"
proof (induction rule: tcom_step.induct)
  case (send_ok h body s wr tc)
  then have chans: "chans_ok (sys_tc s)" and len: "length (sys_tc s) = 20" by (auto simp: sys_ok_iff chans_ok_def)
  from send_step [OF chans send_ok(1-3)] obtain c where c: "tc = (sys_tc s)[6 := c]" "chans_ok tc"
    "chan_msgs c = chan_msgs (sys_tc s ! 6) @ [(h, take (msg_len h) body)]" by auto
  with send_ok.prems len show ?case
    by (auto simp: sys_ok_iff fifo_to_def in_flight_def simp flip: append_assoc intro: list_emb_append_mono)
next
  case (send_failed h body s wr ret tc)
  then have chans: "chans_ok (sys_tc s)" and len: "length (sys_tc s) = 20" by (auto simp: sys_ok_iff chans_ok_def)
  from send_step [OF chans send_failed(1-3)] send_failed(4) obtain c where c: "tc = (sys_tc s)[6 := c]"
    "chans_ok tc" "chan_msgs c = chan_msgs (sys_tc s ! 6)" by auto
  with send_failed.prems len show ?case
    by (auto simp: sys_ok_iff fifo_to_def in_flight_def)
next
  case (send_refused h s body wr ret tc)
  then have "tc = sys_tc s" by (auto simp: send_msg_invalid)
  with send_refused.prems show ?case by (simp add: sys_ok_iff fifo_to_def in_flight_def)
next
  case (proc s h hs wr ret buf tc)
  then have chans: "chans_ok (sys_tc s)" and buf: "length (sys_buf s) = TCOM_MAX_MSG_LEN"
    by (auto simp: sys_ok_iff)
  from proc_step [OF chans proc(1) buf proc(2)] obtain b rest where
    ok: "chans_ok tc" "length buf = TCOM_MAX_MSG_LEN"
    and m: "chan_msgs (sys_tc s ! 6) = (h, b) # rest" "chan_msgs (tc ! 6) = rest"
      "\<And>i. i < 20 \<Longrightarrow> i \<noteq> 6 \<Longrightarrow> chan_msgs (tc ! i) =
        chan_msgs (sys_tc s ! i) @ (if i = receiver_index h \<and> ret = 0 then [(h, b)] else [])"
    by blast
  let ?s' = "s\<lparr>sys_tc := tc, sys_buf := buf,
      sys_lost := (if ret = 0 then sys_lost s else insert (receiver_index h) (sys_lost s))\<rparr>"
  have "fifo_to ?s' i" if "i < 20" "i \<noteq> 6" for i
  proof (rule fifo_to_weaken [of s])
    show "fifo_to s i" using proc.prems that by (simp add: sys_ok_iff)
    show "subseq (sys_recv ?s' i @ in_flight ?s' i) (sys_recv s i @ in_flight s i)"
      using m that by (auto simp: in_flight_def intro: list_emb_append_mono)
    show "sys_recv ?s' i @ in_flight ?s' i = sys_recv s i @ in_flight s i" if "i \<notin> sys_lost ?s'"
      using m \<open>i < 20\<close> \<open>i \<noteq> 6\<close> that by (auto simp: in_flight_def split: if_splits)
  qed auto
  with ok show ?case by (simp add: sys_ok_iff)
next
  case (recv mid i dst s ret h dst' tc)
  then have chans: "chans_ok (sys_tc s)" and i: "i < length (sys_tc s)"
    and ci: "chan_ok (sys_tc s ! i)" "\<forall>m\<in>set (chan_msgs (sys_tc s ! i)). hdr_valid (fst m)"
    by (auto simp: sys_ok_iff chans_ok_def)
  have "tc_pipe (sys_tc s ! i) \<noteq> []"
    using recv(1,5) i by (auto simp: tcom_recv_msg_def)
  then obtain h1 b rest where m: "chan_msgs (sys_tc s ! i) = (h1, b) # rest"
    by (cases "tc_pipe (sys_tc s ! i)") (auto simp: chan_msgs_def)
  have "msg_len h1 \<le> length dst" using ci m recv(4) by (simp add: hdr_valid_def)
  from tcom_recv_result [OF recv(1) i ci(1) m this] recv(5) obtain c where
    c: "tc = (sys_tc s)[i := c]" "h = h1" "chan_ok c" "chan_msgs c = rest" "take (msg_len h) dst' = b"
    by auto
  have "chans_ok tc" using c ci m recv(2) by (auto intro!: chans_ok_update [OF chans])
  with recv.prems recv(2,3) c m i show ?case
    by (auto simp: sys_ok_iff fifo_to_def in_flight_def nth_list_update)
qed

lemma sys_init_chan:
  assumes "i < 20"
  shows "i < length (sys_tc sys_init)" "chan_ok (sys_tc sys_init ! i)" "chan_msgs (sys_tc sys_init ! i) = []"
    "tq_used (tc_queue (sys_tc sys_init ! i)) = 0"
  using assms
  by (simp_all add: sys_init_def MPU_APP_MID_COUNT_def chan_ok_def tq_ok_def tq_used_def chan_msgs_def)

lemma sys_init_ok: "sys_ok sys_init"
  using sys_init_chan
  by (auto simp: sys_ok_iff chans_ok_def fifo_to_def in_flight_def)
    (simp_all add: sys_init_def MPU_APP_MID_COUNT_def)

lemma tcom_reach_ok: "tcom_reach s \<Longrightarrow> sys_ok s"
  by (induction rule: tcom_reach.induct) (auto intro: sys_init_ok tcom_step_ok)

section \<open>Properties\<close>

text \<open>
  \<^bold>\<open>C22\<close>. First in, first out between threads: in every state the message system can reach,
  what a module has received, followed by what waits in its channel and by what the TCOM thread
  still has to move to it, is a subsequence of the messages accepted for it, in the order they
  were sent and with the bodies they were sent with; and it is all of them unless the TCOM
  thread has found that module's queue or pipe full.
\<close>

theorem tcom_delivers_in_order:
  assumes "tcom_reach s" and "i < 20" and "i \<noteq> 6"
  defines "to_i \<equiv> filter (\<lambda>m. receiver_index (fst m) = i) (sys_sent s)"
  shows "subseq (sys_recv s i @ in_flight s i) to_i
    \<and> (i \<notin> sys_lost s \<longrightarrow> sys_recv s i @ in_flight s i = to_i)"
  using tcom_reach_ok [OF assms(1)] assms(2,3) unfolding to_i_def
  by (simp add: sys_ok_iff fifo_to_def)

definition demo_hdr :: TCOM_MSG_HEADER where
  "demo_hdr = \<lparr>msg_sender = 0x0B00, msg_receiver = 0x0800, msg_msgid = 1, msg_msglen = 2\<rparr>"

lemma demo_hdr_valid: "hdr_valid demo_hdr" "msg_len demo_hdr = 2" "receiver_index demo_hdr = 7"
  by (simp_all add: hdr_valid_def demo_hdr_def msg_len_def receiver_index_def mid_to_index_def
    CPUID_MASK_def CPUID_MAIN_MID_MASK_def MPU_MAX_MID_def TCOM_MAX_MSG_LEN_def MAIN_MID_MASK_def)

theorem tcom_delivers_in_order_witness:
  "\<exists>s. tcom_reach s \<and> sys_sent s = [(demo_hdr, [5, 6])]
    \<and> subseq (sys_recv s 7 @ in_flight s 7) [(demo_hdr, [5, 6])]
    \<and> (7 \<notin> sys_lost s \<longrightarrow> sys_recv s 7 @ in_flight s 7 = [(demo_hdr, [5, 6])])"
proof -
  have room: "chan_room (sys_tc sys_init ! 6) demo_hdr" "6 < length (sys_tc sys_init)"
    "chan_ok (sys_tc sys_init ! 6)"
    using demo_hdr_valid sys_init_chan [of 6] by (auto simp: chan_room_def TCOM_QUEUE_BUF_SIZE_def)
  then obtain tc where "tcom_forward (sys_tc sys_init) demo_hdr MPU_MID_TCOM [5, 6] 0 = Some (0, tc)"
    using tcom_forward_result [of MPU_MID_TCOM 6 "sys_tc sys_init" demo_hdr "[5, 6]" 0]
    by (auto simp: tcom_index demo_hdr_valid)
  then have "tcom_step sys_init (sys_init\<lparr>sys_tc := tc, sys_sent := sys_sent sys_init @
      [(demo_hdr, take (msg_len demo_hdr) [5, 6])]\<rparr>)"
    by (intro tcom_step.send_ok [where wr = 0]) (simp_all add: demo_hdr_valid send_msg_valid)
  then have reach: "tcom_reach (sys_init\<lparr>sys_tc := tc, sys_sent := [(demo_hdr, [5, 6])]\<rparr>)"
    using tcom_reach.step [OF tcom_reach.init] by (simp add: demo_hdr_valid sys_init_def)
  with tcom_delivers_in_order [OF reach, of 7] show ?thesis
    by (intro exI [of _ "sys_init\<lparr>sys_tc := tc, sys_sent := [(demo_hdr, [5, 6])]\<rparr>"])
      (simp add: demo_hdr_valid)
qed

text \<open>
  Sending is all or nothing: with the queue and the pipe taking it, the message is
  appended to the receiver's channel; otherwise, the body already written being taken back
  when only the pipe refuses, the channel holds exactly the messages it held, and the caller
  gets an error.
\<close>

theorem tcom_forward_atomic:
  assumes "mid_to_index mid = int i" and "i < length tc" and "chan_ok (tc ! i)"
    and "msg_len hdr \<le> length body"
  shows "if chan_room (tc ! i) hdr \<and> wr = 0
    then \<exists>c. tcom_forward tc hdr mid body wr = Some (0, tc[i := c]) \<and> chan_ok c
      \<and> chan_msgs c = chan_msgs (tc ! i) @ [(hdr, take (msg_len hdr) body)]
    else \<exists>c ret. tcom_forward tc hdr mid body wr = Some (ret, tc[i := c]) \<and> ret \<noteq> 0 \<and> chan_ok c
      \<and> chan_msgs c = chan_msgs (tc ! i)"
  by (rule tcom_forward_result [OF assms])

theorem tcom_forward_atomic_witness:
  "\<exists>c. tcom_forward (sys_tc sys_init) demo_hdr 0x0800 [5, 6] (-1) = Some (-1, (sys_tc sys_init)[7 := c])
     \<and> chan_msgs c = []"
proof -
  have idx: "mid_to_index 0x0800 = int 7"
    by (simp add: mid_to_index_def MAIN_MID_MASK_def)
  have c: "chan_ok (sys_tc sys_init ! 7)" "chan_msgs (sys_tc sys_init ! 7) = []" "7 < length (sys_tc sys_init)"
    using sys_init_chan [of 7] by auto
  obtain cc ret where "tcom_forward (sys_tc sys_init) demo_hdr 0x0800 [5, 6] (-1) = Some (ret, (sys_tc sys_init)[7 := cc])"
      "ret \<noteq> 0" "chan_msgs cc = []"
    using tcom_forward_atomic [OF idx c(3,1), of demo_hdr "[5, 6]" "-1"] c
    by (auto simp: demo_hdr_valid)
  moreover from this(1) have "ret = -1"
    using idx c(3) by (auto simp: tcom_forward_def Let_def split: bind_splits if_splits)
  ultimately show ?thesis by blast
qed

text \<open>
  The body queues keep the queue contract: any run of pushes that leave one byte free
  and of pulls of what is there succeeds, and the bytes out are the bytes in, in order.
\<close>

theorem tcom_queue_fifo:
  assumes "tq_ok q" and "list_run (tq_capacity q) ops (tq_contents q) = Some (outs, rest)"
  shows "\<exists>q'. fifo_run tq_push tq_pull ops q = Some (outs, q') \<and> tq_ok q'
    \<and> outs @ tq_contents q' = tq_contents q @ pushed ops"
  by (rule bodies.run_fifo [OF assms])

theorem tcom_queue_fifo_witness:
  "\<exists>q'. fifo_run tq_push tq_pull [Push [1, 2, 3], Pull 2]
      \<lparr>tq_head = 0, tq_tail = 0, tq_buf = replicate TCOM_QUEUE_BUF_SIZE 0\<rparr> = Some ([1, 2], q')
    \<and> tq_ok q' \<and> tq_contents q' = [3]"
proof -
  let ?q = "\<lparr>tq_head = 0, tq_tail = 0, tq_buf = replicate TCOM_QUEUE_BUF_SIZE 0\<rparr>"
  have "tq_ok ?q" "tq_contents ?q = []" "tq_capacity ?q = 102399"
    by (simp_all add: tq_ok_def tq_contents_def tq_used_def tq_capacity_def TCOM_QUEUE_BUF_SIZE_def)
  then show ?thesis
    using tcom_queue_fifo [of ?q "[Push [1, 2, 3], Pull 2]" "[1, 2]" "[3]"] by simp
qed

text \<open>
  A message with an invalid sender, receiver or length is refused, and refused with
  the result 0 that the callers take for success, since the first error code is 0.
\<close>

theorem tcom_send_refused_returns_0:
  assumes "\<not> hdr_valid h \<or> (msg_msglen h \<noteq> 0 \<and> body = None)"
  shows "tcom_send_msg tc (Some h) body wr = Some (0, tc)"
  using assms by (auto simp: tcom_send_msg_def hdr_valid_def msg_len_def not_less)

theorem tcom_send_refused_returns_0_witness:
  "tcom_send_msg (sys_tc sys_init) (Some (demo_hdr\<lparr>msg_receiver := 0x3f00\<rparr>)) (Some [1, 2]) 0 =
     Some (0, sys_tc sys_init)"
  by (rule tcom_send_refused_returns_0)
    (simp add: hdr_valid_def demo_hdr_def CPUID_MASK_def CPUID_MAIN_MID_MASK_def MPU_MAX_MID_def)

end
