(* ===== verification/Pm.thy ===== *)
theory Pm
  imports Tcom
begin

text \<open>
  Power management: \<open>src/app/base/pm/pm_ctl.c\<close>, \<open>pm_state.c\<close> and \<open>pm_main.c\<close>. The record
  \<open>pm\<close> holds the statics of the three files, those local to a function included. What the code
  asks of the outside during one event (the two files that show the USB and MCU lines, the settings,
  the sleep handlers of the other modules, results of sends) is read from \<open>pm_env\<close>; what it does
  to the outside is appended to \<open>pm_log\<close>. \<open>wake_lock\<close> is the kernel's wake lock
  the file \<open>pm_sleep_fd\<close> stands for. The call of a NULL handler is \<^const>\<open>None\<close>.
\<close>

section \<open>Data\<close>

definition MPU_MID_AT :: u16 where "MPU_MID_AT = 0x0400"
definition AT_MSG_ID_RING :: u32 where "AT_MSG_ID_RING = 0x0404"
definition PM_MSG_OFF :: u32 where "PM_MSG_OFF = 0x0800"
definition PM_MSG_SLEEP :: u32 where "PM_MSG_SLEEP = 0x0801"
definition PM_MSG_EMERGENCY :: u32 where "PM_MSG_EMERGENCY = 0x0802"
definition PM_MSG_RUNNING :: u32 where "PM_MSG_RUNNING = 0x0803"
definition PM_MSG_RTC_WAKEUP :: u32 where "PM_MSG_RTC_WAKEUP = 0x0804"
definition PM_MSG_ID_EVT :: u32 where "PM_MSG_ID_EVT = 0x0805"
definition PM_MSG_ID_CHECK_TIMER :: u32 where "PM_MSG_ID_CHECK_TIMER = 0x0806"
definition PM_MSG_ID_RTC_TIMER :: u32 where "PM_MSG_ID_RTC_TIMER = 0x0807"
definition PM_MSG_ID_FOTA_UPDATE :: u32 where "PM_MSG_ID_FOTA_UPDATE = 0x0808"
definition PM_INVALID_PARA :: int where "PM_INVALID_PARA = 0x08000001"
definition PM_TABLE_OVERFLOW :: int where "PM_TABLE_OVERFLOW = 0x08000003"
definition PM_MAX_REG_ITEM_NUM :: nat where "PM_MAX_REG_ITEM_NUM = 16"

lemmas pm_ids = MPU_MID_AT_def AT_MSG_ID_RING_def PM_MSG_OFF_def PM_MSG_SLEEP_def PM_MSG_EMERGENCY_def
  PM_MSG_RUNNING_def PM_MSG_RTC_WAKEUP_def PM_MSG_ID_EVT_def PM_MSG_ID_CHECK_TIMER_def
  PM_MSG_ID_RTC_TIMER_def PM_MSG_ID_FOTA_UPDATE_def MPU_MID_PM_def MPU_MID_MID_PWDG_def

datatype PM_STATE = PM_ST_NORMAL | PM_ST_MCK_SLEEP | PM_ST_MCK_POWER_OFF | PM_ST_MCK_EMERGENCY
  | PM_ST_SLEEP | PM_ST_MCK_RESTART_APP | PM_ST_MCK_RESTART_4G | PM_ST_MCK_FOTA_UPDATE

datatype PM_EVENT = PM_EVT_RING | PM_EVT_RTC | PM_EVT_RUNNING | PM_EVT_TIMEOUT | PM_EVT_EMERGENCY
  | PM_EVT_POWER_OFF | PM_EVT_SLEEP_REQ | PM_EVT_RESTART_APP_REQ | PM_EVT_RESTART_4G_REQ
  | PM_EVT_FOTA_UPDATE_REQ

fun evt_no :: "PM_EVENT \<Rightarrow> nat" where
  "evt_no PM_EVT_RING = 0" | "evt_no PM_EVT_RTC = 1" | "evt_no PM_EVT_RUNNING = 2"
| "evt_no PM_EVT_TIMEOUT = 3" | "evt_no PM_EVT_EMERGENCY = 4" | "evt_no PM_EVT_POWER_OFF = 5"
| "evt_no PM_EVT_SLEEP_REQ = 6" | "evt_no PM_EVT_RESTART_APP_REQ = 7"
| "evt_no PM_EVT_RESTART_4G_REQ = 8" | "evt_no PM_EVT_FOTA_UPDATE_REQ = 9"

datatype PM_MODE = PM_RUNNING_MODE | PM_EMERGENCY_MODE | PM_LISTEN_MODE | PM_SLEEP_MODE
  | PM_DEEP_SLEEP_MODE | PM_OFF_MODE

definition pm_mode_of :: "byte \<Rightarrow> PM_MODE" where
  "pm_mode_of b = (if b = 0 then PM_RUNNING_MODE else if b = 1 then PM_EMERGENCY_MODE
     else if b = 2 then PM_LISTEN_MODE else if b = 3 then PM_SLEEP_MODE
     else if b = 4 then PM_DEEP_SLEEP_MODE else PM_OFF_MODE)"

text \<open>A handler is known by its number; \<^const>\<open>None\<close> is the NULL pointer.\<close>

record PM_REG_ITEM =
  reg_mid :: u16
  reg_handler :: "nat option"

datatype PM_GPIO = GPIO_EN5_CTRL | GPIO_BT_RST | GPIO_WAKEUP_MCU

datatype pm_effect =
  PmSend TCOM_MSG_HEADER "byte list"
| GpioInit PM_GPIO
| GpioSet PM_GPIO bool
| ForbidInd int
| WakeLock
| WakeUnlock
| Autosleep
| SetAppSleep byte
| StopRtcTimer
| StartRtcTimer u32
| StartPeriodTimer u32
| Powerdown
| KillApp
| SetUpgIdle
| RemoveFotaCache
| RemoveUpgDir
| FeedPwdg
| ScomSleepReq
| ScomWakeTime u32
| SetSleepMode byte
| SetRtcTime u32

record pm =
  pm_state :: PM_STATE
  pm_ring_status :: int
  pm_check_cnt :: int
  s5_cnt :: int
  s6_cnt :: int
  s7_cnt :: int
  s7_error_cnt :: int
  pm_mode :: PM_MODE
  used_num :: nat
  pmtbl :: "PM_REG_ITEM list"
  pm_msgbuf :: "byte list"
  wake_lock :: bool
  pm_log :: "pm_effect list"

text \<open>
  \<open>env_usb\<close>, \<open>env_mcu\<close>: the result of \<open>file_read\<close> and the byte read. \<open>env_pm_mode\<close>: \<open>st_get\<close>
  and the mode. \<open>env_rtc_time\<close>: what \<open>cfg_get_para\<close> leaves in \<open>time\<close>. \<open>env_send\<close>: the result of the
  \<open>i\<close>-th send of the event. \<open>env_handler\<close>: the answer of a handler to an event.
\<close>

record pm_env =
  env_usb :: "int \<times> byte"
  env_mcu :: "int \<times> byte"
  env_pm_mode :: "int \<times> byte"
  env_rtc_time :: u32
  env_sock :: int
  env_fota_status :: byte
  env_cache_exists :: bool
  env_send :: "nat \<Rightarrow> int"
  env_handler :: "nat \<Rightarrow> u32 \<Rightarrow> int"

definition pm_emit :: "pm_effect list \<Rightarrow> pm \<Rightarrow> pm" where
  "pm_emit es s = s\<lparr>pm_log := pm_log s @ es\<rparr>"

definition pm_hdr :: "u16 \<Rightarrow> u32 \<Rightarrow> u32 \<Rightarrow> TCOM_MSG_HEADER" where
  "pm_hdr receiver msgid len =
     \<lparr>msg_sender = MPU_MID_PM, msg_receiver = receiver, msg_msgid = msgid, msg_msglen = len\<rparr>"

section \<open>The register of modules\<close>

definition pm_init_para :: "pm \<Rightarrow> pm" where
  "pm_init_para s = s\<lparr>used_num := 0,
     pmtbl := replicate PM_MAX_REG_ITEM_NUM \<lparr>reg_mid = 0, reg_handler = None\<rparr>\<rparr>"

definition pm_reg_handler :: "u16 \<Rightarrow> nat option \<Rightarrow> pm \<Rightarrow> int \<times> pm" where
  "pm_reg_handler mid handler s =
     (if handler = None then (PM_INVALID_PARA, s)
      else if PM_MAX_REG_ITEM_NUM \<le> used_num s then (PM_TABLE_OVERFLOW, s)
      else (0, s\<lparr>pmtbl := (pmtbl s)[used_num s := \<lparr>reg_mid = mid, reg_handler = handler\<rparr>],
                 used_num := used_num s + 1\<rparr>))"

text \<open>The loop of \<open>pm_notify_moudle\<close> over the entries from number \<open>i\<close> on.\<close>

fun notify_loop :: "pm_env \<Rightarrow> u32 \<Rightarrow> nat \<Rightarrow> PM_REG_ITEM list \<Rightarrow> pm \<Rightarrow> int \<times> pm" where
  "notify_loop env msgid i [] s = (0, s)"
| "notify_loop env msgid i (it # its) s =
     (let s' = pm_emit [PmSend (pm_hdr (reg_mid it) msgid 0) []] s; ret = env_send env i
      in if ret \<noteq> 0 then (ret, s') else notify_loop env msgid (Suc i) its s')"

definition pm_notify_moudle :: "pm_env \<Rightarrow> u32 \<Rightarrow> pm \<Rightarrow> int \<times> pm" where
  "pm_notify_moudle env msgid s = notify_loop env msgid 0 (take (used_num s) (pmtbl s)) s"

fun ready_count :: "pm_env \<Rightarrow> u32 \<Rightarrow> PM_REG_ITEM list \<Rightarrow> nat option" where
  "ready_count env i [] = Some 0"
| "ready_count env i (it # its) = (case reg_handler it of
     None \<Rightarrow> None
   | Some h \<Rightarrow> do {
       n \<leftarrow> ready_count env i its;
       Some (if env_handler env h i = 1 then Suc n else n) })"

definition pm_is_sleep_ready :: "pm_env \<Rightarrow> u32 \<Rightarrow> pm \<Rightarrow> int option" where
  "pm_is_sleep_ready env i s = do {
     count \<leftarrow> ready_count env i (take (used_num s) (pmtbl s));
     Some (if count = used_num s then 1 else 0) }"

definition pm_line_status :: "int \<times> byte \<Rightarrow> int" where
  "pm_line_status r = (if fst r \<noteq> 0 then -1
     else if snd r = 0x31 then 0 else if snd r = 0x30 then 1 else -1)"

definition pm_usb_wakeup_check :: "pm_env \<Rightarrow> int" where
  "pm_usb_wakeup_check env = pm_line_status (env_usb env)"

definition pm_mcu_wakeup_check :: "pm_env \<Rightarrow> int" where
  "pm_mcu_wakeup_check env = pm_line_status (env_mcu env)"

text \<open>\<open>is_allow |= usb; is_allow |= (mcu << 1)\<close> from 0; \<open>-1 << 1\<close> is -2 as the compiler has it.\<close>

definition is_allow :: "int \<Rightarrow> int \<Rightarrow> int" where
  "is_allow usb mcu = (0 OR usb) OR push_bit 1 mcu"

section \<open>Wake-ups\<close>

definition pm_init_state :: "pm \<Rightarrow> pm" where
  "pm_init_state s = s\<lparr>pm_state := PM_ST_NORMAL\<rparr>"

definition pm_vote_oppose :: "pm \<Rightarrow> pm" where
  "pm_vote_oppose s = (pm_emit [ForbidInd 0, WakeLock] s)\<lparr>wake_lock := True\<rparr>"

definition pm_vote_agree :: "pm \<Rightarrow> pm" where
  "pm_vote_agree s = (pm_emit [GpioSet GPIO_BT_RST False, ForbidInd 1, WakeUnlock] s)\<lparr>wake_lock := False\<rparr>"

definition pm_set_state :: "PM_STATE \<Rightarrow> pm \<Rightarrow> pm" where
  "pm_set_state st s = s\<lparr>pm_state := st\<rparr>"

text \<open>\<open>pm_set_state(st); pm_notify_moudle(msgid);\<close>\<close>

definition enter :: "pm_env \<Rightarrow> PM_STATE \<Rightarrow> u32 \<Rightarrow> pm \<Rightarrow> pm" where
  "enter env st msgid s = snd (pm_notify_moudle env msgid (pm_set_state st s))"

definition pm_wakeup_low :: "pm \<Rightarrow> pm" where
  "pm_wakeup_low s = (pm_emit [GpioSet GPIO_WAKEUP_MCU False] s)\<lparr>pm_ring_status := 0\<rparr>"

definition pm_wakeup_high :: "pm \<Rightarrow> pm" where
  "pm_wakeup_high s = (pm_emit [GpioSet GPIO_WAKEUP_MCU True] s)\<lparr>pm_ring_status := 1\<rparr>"

definition pm_st_ignore :: "pm_env \<Rightarrow> pm \<Rightarrow> pm option" where
  "pm_st_ignore env s = Some s"

definition pm_mcu_wakeup :: "pm_env \<Rightarrow> pm \<Rightarrow> pm option" where
  "pm_mcu_wakeup env s =
     Some (pm_emit [SetAppSleep 0, GpioSet GPIO_EN5_CTRL True]
       (enter env PM_ST_NORMAL PM_MSG_RUNNING (pm_vote_oppose s)))"

definition pm_ring_wakeup :: "pm_env \<Rightarrow> pm \<Rightarrow> pm option" where
  "pm_ring_wakeup env s =
     Some (if pm_state s \<noteq> PM_ST_NORMAL
       then pm_wakeup_high (pm_emit [GpioSet GPIO_EN5_CTRL True]
              (enter env PM_ST_NORMAL PM_MSG_RUNNING (pm_vote_oppose s)))
       else if pm_mcu_wakeup_check env = 0 then pm_wakeup_high s else s)"

definition pm_rtc_wakeup :: "pm_env \<Rightarrow> pm \<Rightarrow> pm option" where
  "pm_rtc_wakeup env s = Some (snd (pm_notify_moudle env PM_MSG_RTC_WAKEUP (pm_vote_oppose s)))"

section \<open>The handlers of the state table\<close>

definition pm_st_s0e3 :: "pm_env \<Rightarrow> pm \<Rightarrow> pm option" where
  "pm_st_s0e3 env s = Some (
     let allow = is_allow (pm_usb_wakeup_check env) (pm_mcu_wakeup_check env) in
     if 1 \<le> allow then
       (let s1 = s\<lparr>pm_check_cnt := 0\<rparr> in if pm_ring_status s1 \<noteq> 0 then pm_wakeup_low s1 else s1)
     else
       (let s1 = s\<lparr>pm_check_cnt := pm_check_cnt s + 1\<rparr> in
        if 10 \<le> pm_check_cnt s1 then
          (let (ret, mode) = env_pm_mode env in
           if ret \<noteq> 0 then s1
           else if mode = 3 \<or> mode = 4 \<or> mode = 5
           then (enter env PM_ST_MCK_POWER_OFF PM_MSG_OFF s1)\<lparr>pm_check_cnt := 0\<rparr>
           else (enter env PM_ST_MCK_SLEEP PM_MSG_SLEEP s1)\<lparr>pm_check_cnt := 0\<rparr>)
        else s1))"

definition pm_st_s0e4 :: "pm_env \<Rightarrow> pm \<Rightarrow> pm option" where
  "pm_st_s0e4 env s = Some (enter env PM_ST_MCK_EMERGENCY PM_MSG_EMERGENCY s)"

definition pm_st_s0e5 :: "pm_env \<Rightarrow> pm \<Rightarrow> pm option" where
  "pm_st_s0e5 env s = Some (enter env PM_ST_MCK_POWER_OFF PM_MSG_OFF s)"

definition pm_st_s0e6 :: "pm_env \<Rightarrow> pm \<Rightarrow> pm option" where
  "pm_st_s0e6 env s = Some (enter env PM_ST_MCK_SLEEP PM_MSG_SLEEP s)"

definition pm_st_s0e7 :: "pm_env \<Rightarrow> pm \<Rightarrow> pm option" where
  "pm_st_s0e7 env s = Some (enter env PM_ST_MCK_RESTART_APP PM_MSG_OFF s)"

definition pm_st_s0e8 :: "pm_env \<Rightarrow> pm \<Rightarrow> pm option" where
  "pm_st_s0e8 env s = Some (enter env PM_ST_MCK_RESTART_4G PM_MSG_OFF s)"

definition pm_st_s0e9 :: "pm_env \<Rightarrow> pm \<Rightarrow> pm option" where
  "pm_st_s0e9 env s = Some (enter env PM_ST_MCK_FOTA_UPDATE PM_MSG_OFF s)"

definition pm_st_s1e3 :: "pm_env \<Rightarrow> pm \<Rightarrow> pm option" where
  "pm_st_s1e3 env s =
     (let allow = is_allow (pm_usb_wakeup_check env) (pm_mcu_wakeup_check env) in
      if 1 \<le> allow then do { s1 \<leftarrow> pm_mcu_wakeup env s; Some (pm_wakeup_low s1) }
      else do {
        ready \<leftarrow> pm_is_sleep_ready env PM_MSG_SLEEP s;
        if ready = 1 \<and> pm_ring_status s = 0 then
          (let s1 = pm_set_state PM_ST_SLEEP s; time = env_rtc_time env;
               s2 = (if time \<noteq> 0 then pm_emit [StopRtcTimer, StartRtcTimer (time * 1000)] s1 else s1)
           in Some (pm_vote_agree s2))
        else Some s })"

definition pm_st_s1e4 :: "pm_env \<Rightarrow> pm \<Rightarrow> pm option" where
  "pm_st_s1e4 env s = Some (enter env PM_ST_MCK_EMERGENCY PM_MSG_EMERGENCY s)"

definition pm_st_s2e3 :: "pm_env \<Rightarrow> pm \<Rightarrow> pm option" where
  "pm_st_s2e3 env s =
     (let usb = (if pm_mode s \<noteq> PM_OFF_MODE \<and> pm_mode s \<noteq> PM_DEEP_SLEEP_MODE
                 then pm_usb_wakeup_check env else 0);
          allow = is_allow usb (pm_mcu_wakeup_check env) in
      if 1 \<le> allow then do { s1 \<leftarrow> pm_mcu_wakeup env s; Some (pm_wakeup_low s1) }
      else do {
        ready \<leftarrow> pm_is_sleep_ready env PM_MSG_OFF s;
        Some (if ready = 1 \<and> pm_ring_status s = 0 then pm_emit [Powerdown] s else s) })"

definition pm_st_s3e3 :: "pm_env \<Rightarrow> pm \<Rightarrow> pm option" where
  "pm_st_s3e3 env s = do {
     let s1 = pm_wakeup_low s;
     ready \<leftarrow> pm_is_sleep_ready env PM_MSG_EMERGENCY s1;
     Some (if ready = 1 then pm_emit [SetAppSleep 1] s1 else s1) }"

definition pm_st_s3e5 :: "pm_env \<Rightarrow> pm \<Rightarrow> pm option" where
  "pm_st_s3e5 env s = Some (enter env PM_ST_MCK_POWER_OFF PM_MSG_OFF s)"

definition pm_st_s4e1 :: "pm_env \<Rightarrow> pm \<Rightarrow> pm option" where
  "pm_st_s4e1 env s = do { s1 \<leftarrow> pm_rtc_wakeup env s; Some (pm_set_state PM_ST_MCK_SLEEP s1) }"

definition pm_st_s4e3 :: "pm_env \<Rightarrow> pm \<Rightarrow> pm option" where
  "pm_st_s4e3 env s =
     (let allow = is_allow (pm_usb_wakeup_check env) (pm_mcu_wakeup_check env) in
      if 1 \<le> allow then do { s1 \<leftarrow> pm_mcu_wakeup env s; Some (pm_wakeup_low s1) }
      else if 0 \<le> env_sock env then pm_ring_wakeup env s else Some s)"

definition pm_st_s5e3 :: "pm_env \<Rightarrow> pm \<Rightarrow> pm option" where
  "pm_st_s5e3 env s = do {
     ready \<leftarrow> pm_is_sleep_ready env PM_MSG_OFF s;
     Some (if ready = 1 \<or> 5 < s5_cnt s then pm_emit [KillApp] s else s\<lparr>s5_cnt := s5_cnt s + 1\<rparr>) }"

definition pm_st_s6e3 :: "pm_env \<Rightarrow> pm \<Rightarrow> pm option" where
  "pm_st_s6e3 env s = do {
     ready \<leftarrow> pm_is_sleep_ready env PM_MSG_OFF s;
     Some (if ready = 1 \<or> 5 < s6_cnt s then pm_emit [Powerdown] s else s\<lparr>s6_cnt := s6_cnt s + 1\<rparr>) }"

text \<open>The last part of \<open>pm_st_s7e3\<close>: the order to install the downloaded image.\<close>

definition s7_install :: "pm_env \<Rightarrow> pm \<Rightarrow> pm" where
  "s7_install env s = pm_emit ((if env_cache_exists env then [RemoveFotaCache] else []) @
     [PmSend (pm_hdr MPU_MID_AT PM_MSG_ID_FOTA_UPDATE 0) []]) s"

definition pm_st_s7e3 :: "pm_env \<Rightarrow> pm \<Rightarrow> pm option" where
  "pm_st_s7e3 env s = do {
     ready \<leftarrow> pm_is_sleep_ready env PM_MSG_OFF s;
     let s1 = (if ready = 1 then s else s\<lparr>s7_cnt := s7_cnt s + 1\<rparr>);
     let allow = (ready = 1 \<or> 10 < s7_cnt s1);
     let fota_status = env_fota_status env;
     if fota_status = 2 \<or> fota_status = 1 then Some s1
     else
       (let s2 = (if fota_status = 3 then s1\<lparr>s7_error_cnt := s7_error_cnt s1 + 1\<rparr> else s1) in
        if fota_status = 3 \<and> 3 < s7_error_cnt s2 then
          Some (pm_emit ((if env_cache_exists env then [RemoveFotaCache] else []) @ [RemoveUpgDir])
            (enter env PM_ST_NORMAL PM_MSG_RUNNING ((pm_emit [SetUpgIdle] s2)\<lparr>s7_error_cnt := 0\<rparr>)))
        else Some (if allow then s7_install env s2 else s2)) }"

text \<open>The rows of \<open>state_tbl\<close>, by event number.\<close>

fun state_tbl :: "PM_STATE \<Rightarrow> (pm_env \<Rightarrow> pm \<Rightarrow> pm option) list" where
  "state_tbl PM_ST_NORMAL = [pm_ring_wakeup, pm_st_ignore, pm_st_ignore, pm_st_s0e3, pm_st_s0e4,
     pm_st_s0e5, pm_st_s0e6, pm_st_s0e7, pm_st_s0e8, pm_st_s0e9]"
| "state_tbl PM_ST_MCK_SLEEP = [pm_ring_wakeup, pm_rtc_wakeup, pm_mcu_wakeup, pm_st_s1e3, pm_st_s1e4,
     pm_st_ignore, pm_st_ignore, pm_st_ignore, pm_st_ignore, pm_st_ignore]"
| "state_tbl PM_ST_MCK_POWER_OFF = [pm_ring_wakeup, pm_st_ignore, pm_mcu_wakeup, pm_st_s2e3, pm_st_ignore,
     pm_st_ignore, pm_st_ignore, pm_st_ignore, pm_st_ignore, pm_st_ignore]"
| "state_tbl PM_ST_MCK_EMERGENCY = [pm_st_ignore, pm_st_ignore, pm_mcu_wakeup, pm_st_s3e3, pm_st_ignore,
     pm_st_s3e5, pm_st_ignore, pm_st_ignore, pm_st_ignore, pm_st_ignore]"
| "state_tbl PM_ST_SLEEP = [pm_ring_wakeup, pm_st_s4e1, pm_st_ignore, pm_st_s4e3, pm_st_ignore,
     pm_st_ignore, pm_st_ignore, pm_st_ignore, pm_st_ignore, pm_st_ignore]"
| "state_tbl PM_ST_MCK_RESTART_APP = [pm_st_ignore, pm_st_ignore, pm_st_ignore, pm_st_s5e3, pm_st_ignore,
     pm_st_ignore, pm_st_ignore, pm_st_ignore, pm_st_ignore, pm_st_ignore]"
| "state_tbl PM_ST_MCK_RESTART_4G = [pm_st_ignore, pm_st_ignore, pm_st_ignore, pm_st_s6e3, pm_st_ignore,
     pm_st_ignore, pm_st_ignore, pm_st_ignore, pm_st_ignore, pm_st_ignore]"
| "state_tbl PM_ST_MCK_FOTA_UPDATE = [pm_st_ignore, pm_st_ignore, pm_st_ignore, pm_st_s7e3, pm_st_ignore,
     pm_st_ignore, pm_st_ignore, pm_st_ignore, pm_st_ignore, pm_st_ignore]"

definition pm_evt_proc :: "pm_env \<Rightarrow> u32 \<Rightarrow> pm \<Rightarrow> pm option" where
  "pm_evt_proc env evt s = (if 10 \<le> evt then Some s else (state_tbl (pm_state s) ! unat evt) env s)"

section \<open>Events and messages\<close>

definition pm_evt_bytes :: "PM_EVENT \<Rightarrow> byte list" where
  "pm_evt_bytes evt = [word_of_nat (evt_no evt), 0, 0, 0]"

definition pm_send_evt :: "pm_env \<Rightarrow> PM_EVENT \<Rightarrow> pm \<Rightarrow> int \<times> pm" where
  "pm_send_evt env evt s =
     (env_send env 0, pm_emit [PmSend (pm_hdr MPU_MID_PM PM_MSG_ID_EVT 4) (pm_evt_bytes evt)] s)"

definition pm_mode_proc :: "pm_env \<Rightarrow> byte \<Rightarrow> pm \<Rightarrow> int \<times> pm" where
  "pm_mode_proc env new_mode s =
     (if 5 < new_mode then (-1, s)
      else let mode = pm_mode_of new_mode; s1 = s\<lparr>pm_mode := mode\<rparr> in
        case mode of
          PM_RUNNING_MODE \<Rightarrow> (0, snd (pm_send_evt env PM_EVT_RUNNING s1))
        | PM_EMERGENCY_MODE \<Rightarrow> (0, snd (pm_send_evt env PM_EVT_EMERGENCY s1))
        | PM_LISTEN_MODE \<Rightarrow> (0, snd (pm_send_evt env PM_EVT_SLEEP_REQ s1))
        | _ \<Rightarrow> pm_send_evt env PM_EVT_POWER_OFF s1)"

definition pm_shutdown :: "pm_env \<Rightarrow> pm \<Rightarrow> int \<times> pm" where
  "pm_shutdown env s = pm_send_evt env PM_EVT_SLEEP_REQ (pm_emit [ScomSleepReq] s)"

text \<open>The shell commands with an argument; \<open>n\<close> is what \<open>atoi\<close> reads, \<open>ret\<close> the result of the call.\<close>

definition pm_timer_wake :: "int \<Rightarrow> string list \<Rightarrow> u32 \<Rightarrow> pm \<Rightarrow> int \<times> pm" where
  "pm_timer_wake ret args n s =
     (if length args \<noteq> 1 then (-1, s)
      else (if ret \<noteq> 0 then ret else 0, pm_emit [ScomWakeTime n] s))"

definition pm_restart :: "pm_env \<Rightarrow> string list \<Rightarrow> pm \<Rightarrow> int \<times> pm" where
  "pm_restart env args s =
     (if length args \<noteq> 1 then (-1, s)
      else if take 3 (args ! 0) = ''app'' then (0, snd (pm_send_evt env PM_EVT_RESTART_APP_REQ s))
      else if take 2 (args ! 0) = ''4g'' then (0, snd (pm_send_evt env PM_EVT_RESTART_4G_REQ s))
      else (0, s))"

definition pm_set_rtc_time :: "int \<Rightarrow> string list \<Rightarrow> u32 \<Rightarrow> pm \<Rightarrow> int \<times> pm" where
  "pm_set_rtc_time ret args n s =
     (if length args \<noteq> 1 then (PM_INVALID_PARA, s)
      else (if ret \<noteq> 0 then ret else 0, pm_emit [SetRtcTime n] s))"

definition pm_kill_handler :: "pm_env \<Rightarrow> pm \<Rightarrow> pm" where
  "pm_kill_handler env s = snd (pm_send_evt env PM_EVT_RESTART_APP_REQ s)"

text \<open>The statics before the program runs.\<close>

definition pm_statics :: pm where
  "pm_statics = \<lparr>pm_state = PM_ST_NORMAL, pm_ring_status = 0, pm_check_cnt = 0, s5_cnt = 0, s6_cnt = 0,
     s7_cnt = 0, s7_error_cnt = 0, pm_mode = PM_RUNNING_MODE, used_num = 0,
     pmtbl = replicate PM_MAX_REG_ITEM_NUM \<lparr>reg_mid = 0, reg_handler = None\<rparr>,
     pm_msgbuf = replicate TCOM_MAX_MSG_LEN 0, wake_lock = False, pm_log = []\<rparr>"

definition pm_init_inside :: "pm \<Rightarrow> pm" where
  "pm_init_inside s = pm_emit [GpioInit GPIO_EN5_CTRL, GpioInit GPIO_BT_RST, GpioInit GPIO_WAKEUP_MCU]
     (pm_init_state (pm_init_para s))"

text \<open>
  \<open>INIT_PHASE_OUTSIDE\<close> of \<open>pm_init\<close>: the results of \<open>tm_create\<close>, of \<open>cfg_get_para\<close> with the
  sleep mode it reads (3 is \<open>PM_AUTO\<close>), and of \<open>cfg_set_para_im\<close>.
\<close>

definition pm_init_outside :: "int \<Rightarrow> int \<times> byte \<Rightarrow> int \<Rightarrow> pm \<Rightarrow> int \<times> pm" where
  "pm_init_outside tm_ret cfg set_ret s =
     (if tm_ret \<noteq> 0 then (tm_ret, s)
      else let (ret, mode) = cfg in
        if ret \<noteq> 0 then (ret, s)
        else if 3 < mode then (set_ret, pm_emit [SetSleepMode 3] s)
        else (0, s))"

text \<open>
  The part of \<open>pm_main\<close> before its loop: the numbers of the pipe, of the netlink socket and of the
  wake lock. \<^const>\<open>None\<close>: the thread ends before the loop.
\<close>

definition pm_main_start :: "int \<Rightarrow> int \<Rightarrow> pm \<Rightarrow> pm option" where
  "pm_main_start msg_fd sleep_fd s =
     (if msg_fd < 0 then None else if sleep_fd < 0 then None
      else Some (pm_emit [Autosleep, StartPeriodTimer 1000] (pm_vote_oppose s)))"

text \<open>
  One pass of the loop for a message: \<open>tcom_recv_msg\<close> has put the body into the start of
  \<open>pm_msgbuf\<close>. An event is the little-endian number in its first four bytes.
\<close>

definition get_evt :: "byte list \<Rightarrow> u32" where
  "get_evt buf = word_rcat (rev (take 4 buf))"

definition pm_main_step :: "pm_env \<Rightarrow> TCOM_MSG_HEADER \<Rightarrow> byte list \<Rightarrow> pm \<Rightarrow> pm option" where
  "pm_main_step env hdr body s0 = do {
     buf \<leftarrow> blit (pm_msgbuf s0) 0 body (length body);
     let s = s0\<lparr>pm_msgbuf := buf\<rparr>;
     let msgid = msg_msgid hdr;
     if msgid = AT_MSG_ID_RING then Some (snd (pm_send_evt env PM_EVT_RING s))
     else if msgid = PM_MSG_ID_EVT then pm_evt_proc env (get_evt buf) s
     else if msgid = PM_MSG_ID_RTC_TIMER then Some (snd (pm_send_evt env PM_EVT_RTC s))
     else if msgid = PM_MSG_ID_CHECK_TIMER then pm_evt_proc env (word_of_nat (evt_no PM_EVT_TIMEOUT)) s
     else if msgid = MPU_MID_MID_PWDG then Some (pm_emit [FeedPwdg] s)
     else Some s }"

text \<open>One pass for the netlink socket: at most 20 bytes into a buffer of zeros; ``re_modem''.\<close>

definition pm_netlink_step :: "pm_env \<Rightarrow> byte list \<Rightarrow> pm \<Rightarrow> pm" where
  "pm_netlink_step env data s =
     (if take 9 (take 20 data @ replicate 20 0) = [0x72, 0x65, 0x5f, 0x6d, 0x6f, 0x64, 0x65, 0x6d, 0]
      then snd (pm_send_evt env PM_EVT_RESTART_4G_REQ s) else s)"

section \<open>The step relation\<close>

text \<open>What other threads and the signal handler call.\<close>

datatype pm_call =
  ModeProc byte
| RegHandler u16 "nat option"
| Shutdown
| TimerWake int "string list" u32
| Restart "string list"
| SetRtc int "string list" u32
| Killed

fun pm_call_step :: "pm_env \<Rightarrow> pm_call \<Rightarrow> pm \<Rightarrow> pm" where
  "pm_call_step env (ModeProc b) s = snd (pm_mode_proc env b s)"
| "pm_call_step env (RegHandler mid h) s = snd (pm_reg_handler mid h s)"
| "pm_call_step env Shutdown s = snd (pm_shutdown env s)"
| "pm_call_step env (TimerWake ret args n) s = snd (pm_timer_wake ret args n s)"
| "pm_call_step env (Restart args) s = snd (pm_restart env args s)"
| "pm_call_step env (SetRtc ret args n) s = snd (pm_set_rtc_time ret args n s)"
| "pm_call_step env Killed s = pm_kill_handler env s"

inductive pm_step :: "pm_env \<Rightarrow> pm \<Rightarrow> pm \<Rightarrow> bool" where
  pm_message: "length body \<le> TCOM_MAX_MSG_LEN \<Longrightarrow> pm_main_step env hdr body s = Some s' \<Longrightarrow> pm_step env s s'"
| pm_netlink: "pm_step env s (pm_netlink_step env data s)"
| pm_called: "pm_step env s (pm_call_step env c s)"

inductive_cases pm_stepE: "pm_step env s s'"

inductive pm_reach :: "pm \<Rightarrow> bool" where
  pm_started: "pm_main_start msg_fd sleep_fd (snd (pm_init_outside t cfg c (pm_init_inside pm_statics))) = Some s
     \<Longrightarrow> pm_reach s"
| pm_stepped: "pm_reach s \<Longrightarrow> pm_step env s s' \<Longrightarrow> pm_reach s'"

section \<open>What a notification does\<close>

fun notify_sends :: "pm_env \<Rightarrow> u32 \<Rightarrow> nat \<Rightarrow> PM_REG_ITEM list \<Rightarrow> pm_effect list" where
  "notify_sends env msgid i [] = []"
| "notify_sends env msgid i (it # its) = PmSend (pm_hdr (reg_mid it) msgid 0) [] #
     (if env_send env i \<noteq> 0 then [] else notify_sends env msgid (Suc i) its)"

definition notified :: "pm_env \<Rightarrow> u32 \<Rightarrow> pm \<Rightarrow> pm_effect list" where
  "notified env msgid s = notify_sends env msgid 0 (take (used_num s) (pmtbl s))"

lemma emit_emit [simp]: "pm_emit fs (pm_emit es s) = pm_emit (es @ fs) s"
  by (simp add: pm_emit_def)

lemma emit_Nil [simp]: "pm_emit [] s = s"
  by (simp add: pm_emit_def)

lemma notify_loop_emits: "snd (notify_loop env msgid i its s) = pm_emit (notify_sends env msgid i its) s"
  by (induction its arbitrary: i s) (simp_all add: Let_def)

lemma notify_emits [simp]: "snd (pm_notify_moudle env msgid s) = pm_emit (notified env msgid s) s"
  by (simp add: pm_notify_moudle_def notify_loop_emits notified_def)

lemma notify_all:
  "\<forall>i. env_send env i = 0 \<Longrightarrow> notify_sends env msgid i its = map (\<lambda>it. PmSend (pm_hdr (reg_mid it) msgid 0) []) its"
  by (induction its arbitrary: i) simp_all

lemma notify_sends_only: "e \<in> set (notify_sends env msgid i its) \<Longrightarrow> \<exists>h. e = PmSend h []"
  by (induction its arbitrary: i) (auto split: if_splits)

lemma notified_only:
  "Powerdown \<notin> set (notified env msgid s)" "KillApp \<notin> set (notified env msgid s)"
  "WakeUnlock \<notin> set (notified env msgid s)"
  using notify_sends_only unfolding notified_def by blast+

lemma enter_emits:
  "enter env st msgid s = (pm_emit (notified env msgid s) s)\<lparr>pm_state := st\<rparr>"
  by (simp add: enter_def pm_set_state_def pm_emit_def notified_def)

lemma notified_update [simp]:
  "notified env m (s\<lparr>pm_state := a\<rparr>) = notified env m s" "notified env m (s\<lparr>pm_check_cnt := n\<rparr>) = notified env m s"
  "notified env m (s\<lparr>wake_lock := b\<rparr>) = notified env m s" "notified env m (s\<lparr>s7_cnt := n\<rparr>) = notified env m s"
  "notified env m (s\<lparr>s7_error_cnt := n\<rparr>) = notified env m s" "notified env m (pm_emit es s) = notified env m s"
  "notified env m (s\<lparr>pm_log := l\<rparr>) = notified env m s"
  by (simp_all add: notified_def pm_emit_def)

section \<open>Readiness and the lines\<close>

definition all_ready :: "pm_env \<Rightarrow> u32 \<Rightarrow> pm \<Rightarrow> bool" where
  "all_ready env i s \<longleftrightarrow>
     (\<forall>it \<in> set (take (used_num s) (pmtbl s)). env_handler env (the (reg_handler it)) i = 1)"

text \<open>A line shows activity and neither line is unreadable.\<close>

definition lines_active :: "int \<Rightarrow> int \<Rightarrow> bool" where
  "lines_active usb mcu \<longleftrightarrow> 0 \<le> usb \<and> 0 \<le> mcu \<and> (usb = 1 \<or> mcu = 1)"

definition awake :: "pm_env \<Rightarrow> bool" where
  "awake env \<longleftrightarrow> lines_active (pm_usb_wakeup_check env) (pm_mcu_wakeup_check env)"

lemma line_status_cases: "pm_line_status r = -1 \<or> pm_line_status r = 0 \<or> pm_line_status r = 1"
  by (simp add: pm_line_status_def)

lemma is_allow_lines:
  assumes "usb = -1 \<or> usb = 0 \<or> usb = 1" "mcu = -1 \<or> mcu = 0 \<or> mcu = 1"
  shows "1 \<le> is_allow usb mcu \<longleftrightarrow> lines_active usb mcu"
  using assms by (elim disjE) (simp_all add: is_allow_def lines_active_def push_bit_eq_mult)

lemma is_allow_awake [simp]: "1 \<le> is_allow (pm_usb_wakeup_check env) (pm_mcu_wakeup_check env) \<longleftrightarrow> awake env"
  unfolding awake_def pm_usb_wakeup_check_def pm_mcu_wakeup_check_def
  by (rule is_allow_lines [OF line_status_cases line_status_cases])

definition off_awake :: "pm_env \<Rightarrow> pm \<Rightarrow> bool" where
  "off_awake env s \<longleftrightarrow> lines_active (if pm_mode s \<noteq> PM_OFF_MODE \<and> pm_mode s \<noteq> PM_DEEP_SLEEP_MODE
     then pm_usb_wakeup_check env else 0) (pm_mcu_wakeup_check env)"

lemma is_allow_off [simp]:
  "1 \<le> is_allow (if pm_mode s \<noteq> PM_OFF_MODE \<and> pm_mode s \<noteq> PM_DEEP_SLEEP_MODE
     then pm_usb_wakeup_check env else 0) (pm_mcu_wakeup_check env) \<longleftrightarrow> off_awake env s"
  unfolding off_awake_def pm_usb_wakeup_check_def pm_mcu_wakeup_check_def
  by (rule is_allow_lines) (use line_status_cases in auto)

section \<open>The invariant\<close>

definition tbl_ok :: "pm \<Rightarrow> bool" where
  "tbl_ok s \<longleftrightarrow> length (pmtbl s) = PM_MAX_REG_ITEM_NUM \<and> used_num s \<le> PM_MAX_REG_ITEM_NUM \<and>
     (\<forall>it \<in> set (take (used_num s) (pmtbl s)). reg_handler it \<noteq> None)"

definition pm_ok :: "pm \<Rightarrow> bool" where
  "pm_ok s \<longleftrightarrow> tbl_ok s \<and> length (pm_msgbuf s) = TCOM_MAX_MSG_LEN \<and>
     (wake_lock s \<longleftrightarrow> pm_state s \<noteq> PM_ST_SLEEP) \<and> pm_ring_status s \<in> {0, 1} \<and>
     s5_cnt s \<in> {0..6} \<and> s6_cnt s \<in> {0..6} \<and> s7_error_cnt s \<in> {0..3} \<and> 0 \<le> pm_check_cnt s \<and> 0 \<le> s7_cnt s"

lemma ready_count_total:
  "\<forall>it \<in> set its. reg_handler it \<noteq> None \<Longrightarrow>
   ready_count env i its = Some (length (filter (\<lambda>it. env_handler env (the (reg_handler it)) i = 1) its))"
  by (induction its) auto

lemma filter_length_all: "length (filter P xs) = length xs \<longleftrightarrow> (\<forall>x \<in> set xs. P x)"
  by (metis filter_True length_filter_less less_irrefl)

lemma pm_sleep_ready [simp]:
  assumes "tbl_ok s"
  shows "pm_is_sleep_ready env i s = Some (if all_ready env i s then 1 else 0)"
proof -
  have "length (take (used_num s) (pmtbl s)) = used_num s"
    using assms by (simp add: tbl_ok_def)
  then show ?thesis
    using assms filter_length_all [of "\<lambda>it. env_handler env (the (reg_handler it)) i = 1" "take (used_num s) (pmtbl s)"]
    by (auto simp: pm_is_sleep_ready_def tbl_ok_def ready_count_total all_ready_def)
qed

lemma pm_tbl_ok_update [simp]:
  "tbl_ok (s\<lparr>pm_state := a\<rparr>) = tbl_ok s" "tbl_ok (s\<lparr>pm_check_cnt := n\<rparr>) = tbl_ok s"
  "tbl_ok (s\<lparr>wake_lock := b\<rparr>) = tbl_ok s" "tbl_ok (s\<lparr>s7_cnt := n\<rparr>) = tbl_ok s"
  "tbl_ok (s\<lparr>s7_error_cnt := n\<rparr>) = tbl_ok s" "tbl_ok (pm_emit es s) = tbl_ok s"
  "tbl_ok (s\<lparr>pm_ring_status := n\<rparr>) = tbl_ok s" "tbl_ok (s\<lparr>s5_cnt := n\<rparr>) = tbl_ok s"
  "tbl_ok (s\<lparr>s6_cnt := n\<rparr>) = tbl_ok s" "tbl_ok (s\<lparr>pm_msgbuf := buf\<rparr>) = tbl_ok s"
  "tbl_ok (s\<lparr>pm_mode := md\<rparr>) = tbl_ok s" "tbl_ok (s\<lparr>pm_log := l\<rparr>) = tbl_ok s"
  by (simp_all add: tbl_ok_def pm_emit_def)

section \<open>One event\<close>

lemmas pm_handlers = pm_st_ignore_def pm_ring_wakeup_def pm_rtc_wakeup_def pm_mcu_wakeup_def
  pm_st_s0e3_def pm_st_s0e4_def pm_st_s0e5_def pm_st_s0e6_def pm_st_s0e7_def pm_st_s0e8_def pm_st_s0e9_def
  pm_st_s1e3_def pm_st_s1e4_def pm_st_s2e3_def pm_st_s3e3_def pm_st_s3e5_def pm_st_s4e1_def pm_st_s4e3_def
  pm_st_s5e3_def pm_st_s6e3_def pm_st_s7e3_def

lemmas pm_acts = enter_emits pm_vote_oppose_def pm_vote_agree_def pm_wakeup_low_def pm_wakeup_high_def
  pm_set_state_def s7_install_def

lemma pm_evt_cases:
  fixes evt :: u32
  obtains "10 \<le> evt" | e where "evt = word_of_nat (evt_no e)"
proof -
  have *: "evt = word_of_nat (unat evt)" by simp
  have e: "\<exists>e. n = evt_no e" if "n < 10" for n :: nat
  proof -
    have "n \<in> {0, 1, 2, 3, 4, 5, 6, 7, 8, 9}" using that by auto
    then show ?thesis
      by (elim insertE emptyE) (metis evt_no.simps)+
  qed
  show ?thesis
  proof (cases "10 \<le> evt")
    case False
    then have "unat evt < 10" by (simp add: word_le_nat_alt)
    then show ?thesis using e * that(2) by metis
  qed (rule that(1))
qed

lemma evt_no_bound: "evt_no e < 10"
  by (cases e) simp_all

lemma evt_proc_no: "pm_evt_proc env (word_of_nat (evt_no e)) s = (state_tbl (pm_state s) ! evt_no e) env s"
  by (cases e) (simp_all add: pm_evt_proc_def word_le_nat_alt)

definition pm_guard :: "pm_env \<Rightarrow> pm \<Rightarrow> pm \<Rightarrow> bool" where
  "pm_guard env s s' \<longleftrightarrow> used_num s \<le> used_num s' \<and> take (used_num s) (pmtbl s') = take (used_num s) (pmtbl s) \<and>
     (\<exists>es. pm_log s' = pm_log s @ es \<and>
     (Powerdown \<in> set es \<longrightarrow>
        pm_state s = PM_ST_MCK_POWER_OFF \<and> all_ready env PM_MSG_OFF s \<and> pm_ring_status s = 0 \<and> \<not> off_awake env s
        \<or> pm_state s = PM_ST_MCK_RESTART_4G \<and> (all_ready env PM_MSG_OFF s \<or> 5 < s6_cnt s)) \<and>
     (KillApp \<in> set es \<longrightarrow>
        pm_state s = PM_ST_MCK_RESTART_APP \<and> (all_ready env PM_MSG_OFF s \<or> 5 < s5_cnt s)) \<and>
     (WakeUnlock \<in> set es \<or> pm_state s' = PM_ST_SLEEP \<and> pm_state s \<noteq> PM_ST_SLEEP \<longrightarrow>
        pm_state s = PM_ST_MCK_SLEEP \<and> all_ready env PM_MSG_SLEEP s \<and> pm_ring_status s = 0 \<and> \<not> awake env
        \<and> pm_state s' = PM_ST_SLEEP))"

definition pm_runs :: "pm_env \<Rightarrow> pm \<Rightarrow> pm option \<Rightarrow> bool" where
  "pm_runs env s r \<longleftrightarrow> (case r of None \<Rightarrow> False | Some s' \<Rightarrow> pm_ok s' \<and> pm_guard env s s')"

lemma pm_guard_refl [simp]: "pm_guard env s s"
  by (auto simp: pm_guard_def)

lemma s0_runs:
  assumes "pm_ok s" "pm_state s = PM_ST_NORMAL"
  shows "pm_runs env s ((state_tbl (pm_state s) ! evt_no e) env s)"
  using assms by (cases e) (auto simp: pm_handlers pm_acts pm_runs_def pm_ok_def Let_def pm_emit_def
      pm_guard_def notified_only split: prod.splits)

lemma s1_runs:
  assumes "pm_ok s" "pm_state s = PM_ST_MCK_SLEEP"
  shows "pm_runs env s ((state_tbl (pm_state s) ! evt_no e) env s)"
  using assms by (cases e) (auto simp: pm_handlers pm_acts pm_runs_def pm_ok_def Let_def pm_emit_def
      pm_guard_def notified_only)

lemma s2_runs:
  assumes "pm_ok s" "pm_state s = PM_ST_MCK_POWER_OFF"
  shows "pm_runs env s ((state_tbl (pm_state s) ! evt_no e) env s)"
  using assms by (cases e) (auto simp: pm_handlers pm_acts pm_runs_def pm_ok_def Let_def pm_emit_def
      pm_guard_def notified_only)

lemma s3_runs:
  assumes "pm_ok s" "pm_state s = PM_ST_MCK_EMERGENCY"
  shows "pm_runs env s ((state_tbl (pm_state s) ! evt_no e) env s)"
  using assms by (cases e) (auto simp: pm_handlers pm_acts pm_runs_def pm_ok_def Let_def pm_emit_def
      pm_guard_def notified_only)

lemma s4_runs:
  assumes "pm_ok s" "pm_state s = PM_ST_SLEEP"
  shows "pm_runs env s ((state_tbl (pm_state s) ! evt_no e) env s)"
  using assms by (cases e) (auto simp: pm_handlers pm_acts pm_runs_def pm_ok_def Let_def pm_emit_def
      pm_guard_def notified_only)

lemma s567_runs:
  assumes "pm_ok s" "pm_state s = PM_ST_MCK_RESTART_APP \<or> pm_state s = PM_ST_MCK_RESTART_4G
    \<or> pm_state s = PM_ST_MCK_FOTA_UPDATE"
  shows "pm_runs env s ((state_tbl (pm_state s) ! evt_no e) env s)"
  using assms by (cases e) (auto simp: pm_handlers pm_acts pm_runs_def pm_ok_def Let_def pm_emit_def
      pm_guard_def notified_only)

lemma pm_evt_runs:
  assumes "pm_ok s"
  shows "pm_runs env s (pm_evt_proc env evt s)"
proof (cases rule: pm_evt_cases [of evt])
  case 1
  then show ?thesis using assms by (simp add: pm_evt_proc_def pm_runs_def)
next
  case (2 e)
  then show ?thesis
    unfolding 2 evt_proc_no
    using assms s0_runs s1_runs s2_runs s3_runs s4_runs s567_runs by (cases "pm_state s") metis+
qed

section \<open>Steps and reachable states\<close>

lemma pm_ok_emit [simp]: "pm_ok (pm_emit es s) = pm_ok s"
  by (simp add: pm_ok_def) (simp add: pm_emit_def)

lemma pm_ok_msgbuf: "pm_ok s \<Longrightarrow> length buf = TCOM_MAX_MSG_LEN \<Longrightarrow> pm_ok (s\<lparr>pm_msgbuf := buf\<rparr>)"
  by (simp add: pm_ok_def)

lemma send_evt [simp]:
  "pm_send_evt env evt s =
     (env_send env 0, pm_emit [PmSend (pm_hdr MPU_MID_PM PM_MSG_ID_EVT 4) (pm_evt_bytes evt)] s)"
  by (simp add: pm_send_evt_def)

lemma pm_guard_emit:
  "{Powerdown, KillApp, WakeUnlock} \<inter> set es = {} \<Longrightarrow> pm_guard env s (pm_emit es s)"
  by (auto simp: pm_guard_def pm_emit_def)

lemma pm_guard_msgbuf: "pm_guard env (s\<lparr>pm_msgbuf := buf\<rparr>) s' \<longleftrightarrow> pm_guard env s s'"
  by (simp add: pm_guard_def all_ready_def off_awake_def)

lemma pm_runs_emit:
  "pm_ok s \<Longrightarrow> {Powerdown, KillApp, WakeUnlock} \<inter> set es = {} \<Longrightarrow> pm_runs env s (Some (pm_emit es s))"
  by (simp add: pm_runs_def pm_guard_emit)

lemma pm_runs_same: "pm_ok s \<Longrightarrow> pm_runs env s (Some s)"
  by (simp add: pm_runs_def)

lemma pm_main_runs:
  assumes "pm_ok s" "length body \<le> TCOM_MAX_MSG_LEN"
  shows "pm_runs env s (pm_main_step env hdr body s)"
proof -
  have len: "length (pm_msgbuf s) = TCOM_MAX_MSG_LEN" using assms(1) by (simp add: pm_ok_def)
  define buf where "buf = body @ drop (length body) (pm_msgbuf s)"
  have ok: "pm_ok (s\<lparr>pm_msgbuf := buf\<rparr>)"
    using assms len by (simp add: pm_ok_msgbuf buf_def)
  have to_s: "pm_runs env s r" if "pm_runs env (s\<lparr>pm_msgbuf := buf\<rparr>) r" for r
    using that by (simp add: pm_runs_def pm_guard_msgbuf split: option.splits)
  show ?thesis
    using assms len ok
    by (simp add: pm_main_step_def Let_def split del: if_split flip: buf_def)
      (rule to_s, simp add: pm_evt_runs pm_runs_emit pm_runs_same)
qed

lemma pm_netlink_runs: "pm_ok s \<Longrightarrow> pm_runs env s (Some (pm_netlink_step env data s))"
  by (auto simp: pm_netlink_step_def intro!: pm_runs_emit)
    (simp add: pm_runs_def)

lemma reg_table:
  assumes "tbl_ok s" "h \<noteq> None" "used_num s < PM_MAX_REG_ITEM_NUM"
  shows "tbl_ok (s\<lparr>pmtbl := (pmtbl s)[used_num s := \<lparr>reg_mid = mid, reg_handler = h\<rparr>], used_num := Suc (used_num s)\<rparr>)"
  using assms by (auto simp: tbl_ok_def take_Suc_conv_app_nth)

lemma pm_call_runs: "pm_ok s \<Longrightarrow> pm_runs env s (Some (pm_call_step env c s))"
proof (cases c)
  case (ModeProc b)
  moreover assume "pm_ok s"
  moreover have "pm_ok (s\<lparr>pm_mode := md\<rparr>)" for md using \<open>pm_ok s\<close> by (simp add: pm_ok_def)
  ultimately show ?thesis
    by (auto simp: pm_runs_def pm_mode_proc_def Let_def pm_guard_def pm_emit_def pm_ok_def split: PM_MODE.splits)
next
  case (RegHandler mid h)
  moreover assume "pm_ok s"
  ultimately show ?thesis
    using reg_table [of s h mid]
    by (auto simp: pm_runs_def pm_reg_handler_def pm_guard_def pm_ok_def)
qed (auto simp: pm_shutdown_def pm_timer_wake_def pm_restart_def pm_set_rtc_time_def pm_kill_handler_def
    intro!: pm_runs_emit, simp_all add: pm_runs_def)

lemma pm_step_runs: "pm_step env s s' \<Longrightarrow> pm_ok s \<Longrightarrow> pm_ok s' \<and> pm_guard env s s'"
proof (elim pm_stepE)
  fix body hdr
  assume "pm_ok s" "length body \<le> TCOM_MAX_MSG_LEN" "pm_main_step env hdr body s = Some s'"
  then show ?thesis using pm_main_runs [of s body env hdr] by (simp add: pm_runs_def)
qed (use pm_netlink_runs [of s env] pm_call_runs [of s env] in \<open>simp_all add: pm_runs_def\<close>)

lemma pm_reach_ok: "pm_reach s \<Longrightarrow> pm_ok s"
proof (induction rule: pm_reach.induct)
  case (pm_started msg_fd sleep_fd t cfg c s)
  then show ?case
    by (auto simp: pm_main_start_def pm_init_outside_def pm_init_inside_def pm_init_state_def pm_init_para_def
        pm_statics_def pm_vote_oppose_def pm_emit_def pm_ok_def tbl_ok_def split: prod.splits if_splits)
qed (simp add: pm_step_runs)

end
