(* ===== verification/UdsServer.thy ===== *)
theory UdsServer
  imports UdsServices Pm
begin

text \<open>
  The diagnostic server around its services: the dispatch tables and \<open>uds_server_proc\<close> of
  \<open>server/uds_server.c\<close>, the proxy between the SPI link and the server and client of
  \<open>uds_proxy.c\<close>, and the module's initialisation and message loop of \<open>uds_main.c\<close>.

  One step of the module is one message taken from its inter-thread channel, or one call another
  module makes. What a step asks of the outside is collected in \<open>uds_env\<close>.
\<close>

record uds_env =
  env_now :: u64
  env_now' :: u64
  env_rand :: "u32 \<Rightarrow> u32"
  env_polls :: "(u64 \<times> byte \<times> u64) list"
  env_did_get :: "u16 \<Rightarrow> byte list \<Rightarrow> int \<times> byte list"
  env_did_set :: "u16 \<Rightarrow> byte list \<Rightarrow> int"
  env_diag_fun :: "nat \<Rightarrow> byte"
  env_diag_available :: bool
  env_j1939_save :: byte

section \<open>Dispatch\<close>

definition uds_index_mask :: "nat list" where
  "uds_index_mask =
    [0,  0,  0,  0,  0,  0,  0,  0,  0,  0,  0,  0,  0,  0,  0,   0,
     1,  2,  0,  0,  3,  0,  0,  0,  0,  4,  0,  0,  0,  0,  0,   0,
     0,  0,  5,  0,  0,  0,  0,  6,  7,  0,  0,  0,  0,  0,  8,   9,
     0,  10, 0,  0,  13, 0,  14, 15, 0,  0,  0,  0,  0,  0,  11,  0,
     0,  0,  0,  0,  0,  12, 0,  0,  0,  0,  0,  0,  0,  0,  0,   0]"

definition server_supper_table :: "byte list" where
  "server_supper_table =
    [0x00, 0x00, 0x00, 0x00, 0x00, 0x00, 0x00, 0x00, 0x00, 0x00, 0x00, 0x00, 0x00, 0x00, 0x00, 0x00,
     0xFF, 0xFF, 0x00, 0x00, 0xEF, 0x00, 0x00, 0x00, 0x00, 0xEF, 0x00, 0x00, 0x00, 0x00, 0x00, 0x00,
     0x00, 0x00, 0xEF, 0x00, 0x00, 0x00, 0x00, 0xF9, 0xFB, 0x00, 0x00, 0x00, 0x00, 0x00, 0x69, 0x00,
     0x00, 0xF9, 0x00, 0x00, 0x31, 0x00, 0x31, 0x31, 0x00, 0x00, 0x00, 0x00, 0x00, 0x00, 0xFF, 0x00,
     0x00, 0x00, 0x00, 0x00, 0x00, 0xEB, 0x00, 0x00, 0x00, 0x00, 0x00, 0x00, 0x00, 0x00, 0x00, 0x00]"

text \<open>\<open>uds_appl_table\<close>, whose entries for the services 0x2F, 0x34, 0x36 and 0x37 are empty functions.\<close>

fun uds_appl :: "uds_env \<Rightarrow> nat \<Rightarrow> byte list \<Rightarrow> nat \<Rightarrow> uds_state \<Rightarrow> uds_state option" where
  "uds_appl env i p dlc s =
     (if i = 0 then do { p0 \<leftarrow> byte_at p 0; neg p0 NRC_ServiceNotSupported s }
      else if i = 1 then UDS_SRV_DiagSessionCtrl p dlc s
      else if i = 2 then UDS_SRV_EcuReset p dlc s
      else if i = 3 then UDS_SRV_ClearDTC p dlc s
      else if i = 4 then UDS_SRV_ReadDTC p dlc s
      else if i = 5 then UDS_SRV_ReadDataByID (env_did_get env) p dlc s
      else if i = 6 then UDS_SRV_SecrityAcess (env_now env) (env_now' env) (env_rand env) p dlc s
      else if i = 7 then UDS_SRV_CommunicationControl p dlc s
      else if i = 8 then UDS_SRV_WriteDataByID (env_did_set env) p dlc s
      else if i = 10 then UDS_SRV_RoutineControl (env_now env) (env_polls env) p dlc s
      else if i = 11 then UDS_SRV_TesterPresent p dlc s
      else if i = 12 then UDS_SRV_ControlDTCSetting p dlc s
      else Some s)"

definition uds_get_table_index :: "byte \<Rightarrow> nat" where
  "uds_get_table_index sid =
     (let h4bit = sid AND 0xF0
      in if h4bit = 0x00 \<or> h4bit = 0x10 \<or> h4bit = 0x20 \<or> h4bit = 0x30 then unat (h4bit + (sid AND 0x0F))
         else if h4bit = 0x80 then unat (0x40 + (sid AND 0x0F))
         else 79)"

definition session_mask :: "byte \<Rightarrow> byte \<Rightarrow> byte \<Rightarrow> byte" where
  "session_mask session m addr =
     (if session = SESSION_TYPE_DEFAULT then m AND 0x04
      else if session = SESSION_TYPE_PROGRAM then m AND 0x10
      else if session = SESSION_TYPE_EXTENDED then m AND 0x08 else addr)"

definition security_mask :: "byte \<Rightarrow> byte \<Rightarrow> byte \<Rightarrow> byte" where
  "security_mask level m sess =
     (if level = SecurityAccess_LEVEL0 then m AND 0x80
      else if level = SecurityAccess_LEVEL1 then m AND 0x40
      else if level = SecurityAccess_LEVEL2 then m AND 0x20 else sess)"

definition uds_server_proc ::
  "uds_env \<Rightarrow> u32 \<Rightarrow> byte list \<Rightarrow> nat \<Rightarrow> uds_state \<Rightarrow> uds_state option"
where
  "uds_server_proc env can_id p lenth s = do {
     p0 \<leftarrow> byte_at p 0;
     let table_index = uds_get_table_index p0;
     sid_index \<leftarrow> byte_at uds_index_mask table_index;
     m \<leftarrow> byte_at server_supper_table table_index;
     if sid_index = 0 then neg p0 NRC_ServiceNotSupported s
     else do {
       let addr = (if u_can_id_phy (uds_server s) = can_id then m AND 0x01 else m AND 0x02);
       if addr = 0 then neg p0 NRC_ConditionsNotCorrect s
       else do {
         let sess = session_mask (g_u8CurrentSessionType s) m addr;
         if sess = 0 then neg p0 NRC_ServiceNotSupportedInActiveSession s
         else do {
           let sal = security_mask (g_u8SecurityAccess s) m sess;
           if sal = 0 then neg p0 NRC_SecurityAccessDenied s
           else if sid_index < 16 then uds_appl env sid_index p lenth s
           else neg p0 NRC_ServiceNotSupported s } } } }"

section \<open>Setting up server and client\<close>

definition set_ids :: "byte \<Rightarrow> byte \<Rightarrow> u32 \<Rightarrow> u32 \<Rightarrow> u32 \<Rightarrow> UDS_T \<Rightarrow> UDS_T" where
  "set_ids m port phy fun res u = u\<lparr>u_mode := m, u_canport := port, u_can_id_phy := phy,
     u_can_id_fun := fun, u_can_id_res := res\<rparr>"

definition set_value :: "UDS_TIMER_E \<Rightarrow> u32 \<Rightarrow> UDS_T \<Rightarrow> UDS_T" where
  "set_value name v u = u\<lparr>u_timer_t := (u_timer_t u)[timer_no name :=
     (u_timer_t u ! timer_no name)\<lparr>timer_value := v\<rparr>]\<rparr>"

definition create_timer :: "UDS_TIMER_E \<Rightarrow> UDS_T \<Rightarrow> UDS_T" where
  "create_timer name u = u\<lparr>u_timer_t := (u_timer_t u)[timer_no name :=
     (u_timer_t u ! timer_no name)\<lparr>timer_fd := uds_timer_create (timer_no name)\<rparr>]\<rparr>"

definition uds_proxy_init :: "uds_state \<Rightarrow> uds_state" where
  "uds_proxy_init s = s\<lparr>
     uds_server := (create_timer SERVER_SET \<circ> create_timer S3SERVER \<circ> create_timer P2EXT_SERVER \<circ>
       create_timer P2SERVER \<circ> set_value SERVER_SET 1000 \<circ> set_value S3SERVER 5000 \<circ>
       set_value P2EXT_SERVER 2000 \<circ> set_value P2SERVER 50 \<circ>
       set_ids UDS_TYPE_SERVER 1 0x782 0x7DF 0x78A) zero_uds_t,
     uds_client := (create_timer CLIENT_SET \<circ> create_timer S3CLIENT \<circ> create_timer P2EXT_CLIENT \<circ>
       create_timer P2CLINT \<circ> set_value CLIENT_SET 1000 \<circ> set_value S3CLIENT 4000 \<circ>
       set_value P2EXT_CLIENT 5000 \<circ> set_value P2CLINT 150 \<circ>
       set_ids UDS_TYPE_CLIENT 0 0 0 0) zero_uds_t\<rparr>"

text \<open>The packed structure \<open>UDS_TL_CFG_T\<close>, 20 bytes.\<close>

definition tl_cfg ::
  "byte \<Rightarrow> byte \<Rightarrow> byte \<Rightarrow> byte \<Rightarrow> u16 \<Rightarrow> u16 \<Rightarrow> u32 \<Rightarrow> u32 \<Rightarrow> u32 \<Rightarrow> byte list"
where
  "tl_cfg port fill stmin bs n_bs n_cr phy fun res =
     [port, fill, stmin, bs] @ put_u16 n_bs @ put_u16 n_cr @ le32 phy @ le32 fun @ le32 res"

definition uds_set_server :: "uds_state \<Rightarrow> uds_state option" where
  "uds_set_server s = map_option snd
     (uds_data_request Server MSG_ID_UDS_SET_S 0 (tl_cfg 1 0xff 10 0 150 150 0x782 0x7DF 0x78A) 20
       (uds_set_timer Server SERVER_SET 1
         (uds_upd Server (set_ids UDS_TYPE_SERVER 1 0x782 0x7DF 0x78A) s)))"

definition uds_set_client_ex :: "byte \<Rightarrow> u32 \<Rightarrow> u32 \<Rightarrow> u32 \<Rightarrow> bool \<Rightarrow> uds_state \<Rightarrow> uds_state option" where
  "uds_set_client_ex port pid fid rid cb s = map_option snd
     (uds_data_request Client MSG_ID_UDS_SET_C 0 (tl_cfg port 0 50 8 150 150 pid fid rid) 20
       (uds_set_timer Client CLIENT_SET 1
         ((uds_upd Client (set_ids UDS_TYPE_CLIENT port pid fid rid) s)\<lparr>uds_client_cb := cb\<rparr>)))"

definition uds_set_client :: "uds_state \<Rightarrow> uds_state option" where
  "uds_set_client s = map_option snd
     (uds_data_request Client MSG_ID_UDS_SET_C 0 (tl_cfg 0 0 50 8 150 150 0 0 0) 20
       (uds_set_timer Client CLIENT_SET 1
         (uds_upd Client (set_ids UDS_TYPE_CLIENT 0 0 0 0) s)))"

definition uds_clr_client :: "uds_state \<Rightarrow> uds_state" where
  "uds_clr_client s =
     (uds_set_timer Client P2EXT_CLIENT 0 (uds_set_timer Client P2CLINT 0
       (uds_set_timer Client CLIENT_SET 0 s)))\<lparr>uds_client_cb := False\<rparr>"

definition uds_hold_client :: "int \<Rightarrow> uds_state \<Rightarrow> uds_state" where
  "uds_hold_client en s = s\<lparr>uds_hold_mode := en\<rparr>"

section \<open>Expired timers\<close>

definition client_cb :: "int \<Rightarrow> u32 \<Rightarrow> byte list \<Rightarrow> uds_state \<Rightarrow> uds_state" where
  "client_cb msg_id can_id data s =
     (if uds_client_cb s then emit (ClientCb msg_id can_id data) s else s)"

definition server_timers :: "UDS_TIMER_E set" where
  "server_timers = {P2SERVER, P2EXT_SERVER, S3SERVER, SERVER_SET}"

definition uds_timeout :: "UDS_TIMER_E \<Rightarrow> u16 \<Rightarrow> uds_state \<Rightarrow> uds_state option" where
  "uds_timeout timer_id sq s =
     (let uds = (if timer_id \<in> server_timers then Server else Client)
      in if tm_seq (timer_fd (u_timer_t (uds_get uds s) ! timer_no timer_id)) \<noteq> sq then Some s
         else case timer_id of
           S3SERVER \<Rightarrow> Some (UDS_SetDTCOn (s\<lparr>g_u8CurrentSessionType := SESSION_TYPE_DEFAULT,
                                        g_u8SecurityAccess := SecurityAccess_LEVEL0\<rparr>))
         | SERVER_SET \<Rightarrow> uds_set_server s
         | CLIENT_SET \<Rightarrow> Some (client_cb (-1) 0 [] s)
         | P2CLINT \<Rightarrow> Some (client_cb (-1) 0 [] s)
         | P2EXT_CLIENT \<Rightarrow> Some (client_cb (-1) 0 [] s)
         | _ \<Rightarrow> Some s)"

section \<open>The proxy\<close>

definition uds_confirm :: "uds_ptr \<Rightarrow> byte \<Rightarrow> uds_state \<Rightarrow> uds_state" where
  "uds_confirm uds result s =
     (if result = 1 then
        (if u_mode (uds_get uds s) = UDS_TYPE_CLIENT then uds_set_timer uds P2CLINT 1 s
         else if u_mode (uds_get uds s) = UDS_TYPE_SERVER then
           (let s1 = uds_set_timer uds P2SERVER 0 s
            in if u_sid (uds_get uds s1) \<noteq> SID_NegativeResponse
               then uds_set_timer uds P2EXT_SERVER 0 s1 else s1)
         else s)
      else s)"

definition get_u32 :: "byte list \<Rightarrow> nat \<Rightarrow> u32 option" where
  "get_u32 msg i = do {
     b0 \<leftarrow> byte_at msg i; b1 \<leftarrow> byte_at msg (i + 1); b2 \<leftarrow> byte_at msg (i + 2); b3 \<leftarrow> byte_at msg (i + 3);
     Some (ucast b0 OR push_bit 8 (ucast b1) OR push_bit 16 (ucast b2) OR push_bit 24 (ucast b3)) }"

text \<open>
  \<open>uds_proxy\<close> on the receive buffer \<open>msg\<close> and the length of the message. The length a message
  announces is \<open>msg[4] + msg[5] * 0xff\<close> of the code, with the bytes behind the identifier.
\<close>

definition uds_proxy :: "uds_env \<Rightarrow> byte list \<Rightarrow> nat \<Rightarrow> uds_state \<Rightarrow> uds_state option" where
  "uds_proxy env buf length1 s =
     (if length1 < 1 then Some s
      else do {
        msg_id \<leftarrow> byte_at buf 0;
        let msg = drop 1 buf;
        let len = length1 - 1;
        if msg_id = MSG_ID_UDS_S_ACK then Some (uds_set_timer Server SERVER_SET 0 s)
        else if msg_id = MSG_ID_UDS_C_ACK then
          Some (client_cb (uint msg_id) 0 [] (uds_set_timer Client CLIENT_SET 0 s))
        else if msg_id = MSG_ID_UDS_CFM then
          (if len < 5 then Some s
           else do {
             can_id \<leftarrow> get_u32 msg 0;
             result \<leftarrow> byte_at msg 4;
             if can_id = u_can_id_res (uds_server s) then Some (uds_confirm Server result s)
             else if can_id = u_can_id_req (uds_client s) then Some (uds_confirm Client result s)
             else Some s })
        else if msg_id = MSG_ID_UDS_IND then
          (if len < 6 then Some s
           else do {
             lo \<leftarrow> byte_at msg 4; hi \<leftarrow> byte_at msg 5;
             if len - 6 \<noteq> unat lo + unat hi * 0xff then Some s
             else do {
               can_id \<leftarrow> get_u32 msg 0;
               let pdu = drop 6 msg;
               if can_id = u_can_id_fun (uds_server s) \<or> can_id = u_can_id_phy (uds_server s) then
                 uds_server_proc env can_id pdu (len - 6)
                   (uds_set_timer Server S3SERVER 1 (uds_set_timer Server P2SERVER 1 s))
               else do {
                 b0 \<leftarrow> byte_at pdu 0;
                 srv_id \<leftarrow> (if b0 = SID_NegativeResponse then byte_at pdu 1
                            else Some (b0 - POS_RESPOND_SID_MASK));
                 if srv_id = u_sid (uds_client s) \<and> srv_id \<noteq> SID_TestPresent then do {
                   let s1 = uds_set_timer Client P2CLINT 0 s;
                   pending \<leftarrow> (if b0 = SID_NegativeResponse
                     then map_option (\<lambda>b. b = NRC_RequestCorrectlyReceivedResponsePending) (byte_at pdu 2)
                     else Some False);
                   data \<leftarrow> subarray pdu 0 (len - 6);
                   Some (client_cb (uint msg_id) can_id data
                     (uds_set_timer Client P2EXT_CLIENT (if pending then 1 else 0) s1)) }
                 else Some s } } })
        else Some s })"

section \<open>The module\<close>

definition MPU_MID_SCOM :: u16 where "MPU_MID_SCOM = 0x0B00"
definition MPU_MID_UDS :: u16 where "MPU_MID_UDS = 0x0C00"
definition UDS_SCOM_MSG_IND :: u32 where "UDS_SCOM_MSG_IND = 0x0C00"

lemmas mid_defs = MPU_MID_TIMER_def MPU_MID_PM_def MPU_MID_SCOM_def MPU_MID_UDS_def
  UDS_SCOM_MSG_IND_def MPU_MID_MID_PWDG_def PM_MSG_OFF_def PM_MSG_SLEEP_def

definition uds_sleep_available :: "u32 \<Rightarrow> uds_state \<Rightarrow> int" where
  "uds_sleep_available i s =
     (if i = PM_MSG_SLEEP \<or> i = PM_MSG_OFF then (if uds_is_ready_sleep s \<noteq> 0 then 0 else 1) else 1)"

text \<open>
  \<open>uds_scom_msg_proc\<close>: the return value, and the body forwarded to the module's own channel.
\<close>

definition uds_scom_msg_proc :: "byte list \<Rightarrow> nat \<Rightarrow> (int \<times> byte list option) option" where
  "uds_scom_msg_proc msg len =
     (if len < SCOM_TL_HDR_SIZE then Some (-1, None)
      else do {
        t \<leftarrow> byte_at msg 0;
        if drop_bit 4 (t AND 0xf0) \<noteq> 7 then Some (-1, None)
        else if t = SCOM_TL_CMD_UDS_MSG then do {
          body \<leftarrow> subarray msg SCOM_TL_HDR_SIZE (len - SCOM_TL_HDR_SIZE);
          Some (0, Some body) }
        else Some (0, None) })"

text \<open>
  \<open>INIT_PHASE_OUTSIDE\<close> of \<open>uds_init\<close>. The parameters after \<open>stored\<close> are the results of
  \<open>tm_create\<close>, \<open>pm_reg_handler\<close>, \<open>scom_tl_reg_proc_fun\<close> and \<open>cfg_get_para\<close> with the value it reads.
\<close>

definition uds_init_outside ::
  "(byte list \<Rightarrow> byte list) \<Rightarrow> int \<Rightarrow> int \<Rightarrow> int \<Rightarrow> int \<times> byte \<Rightarrow> uds_state \<Rightarrow> int \<times> uds_state"
where
  "uds_init_outside stored tm_ret pm_ret scom_ret cfg s =
     (let s1 = snd (uds_diag_init stored (uds_proxy_init s))
      in if tm_ret \<noteq> 0 then (tm_ret, s1)
         else if pm_ret \<noteq> 0 then (pm_ret, s1)
         else if scom_ret \<noteq> 0 then (scom_ret, s1)
         else if fst cfg \<noteq> 0 then (fst cfg, s1)
         else if snd cfg \<noteq> 24 \<and> snd cfg \<noteq> 12 then (0, emit (CfgSetPower 12) s1)
         else (0, s1))"

definition timer_of_no :: "nat \<Rightarrow> UDS_TIMER_E" where
  "timer_of_no n = (if n = 0 then P2SERVER else if n = 1 then P2CLINT else if n = 2 then P2EXT_SERVER
     else if n = 3 then P2EXT_CLIENT else if n = 4 then S3SERVER else if n = 5 then S3CLIENT
     else if n = 6 then SERVER_SET else CLIENT_SET)"

text \<open>
  One pass of the loop of \<open>uds_main\<close>: \<open>tcom_recv_msg\<close> has put the body into the start of
  \<open>uds_msgbuf\<close>, whose other bytes stay.
\<close>

definition uds_main_step ::
  "uds_env \<Rightarrow> TCOM_MSG_HEADER \<Rightarrow> byte list \<Rightarrow> uds_state \<Rightarrow> uds_state option"
where
  "uds_main_step env hdr body s0 = do {
     buf \<leftarrow> blit (uds_msgbuf s0) 0 body (length body);
     let s = s0\<lparr>uds_msgbuf := buf\<rparr>;
     let sender = msg_sender hdr;
     let msgid = msg_msgid hdr;
     if sender = MPU_MID_SCOM then
       (if msgid = UDS_SCOM_MSG_IND then uds_proxy env buf (unat (ucast (msg_msglen hdr) :: u16)) s
        else if msgid = MPU_MID_MID_PWDG then Some (emit PwdgFeed s)
        else Some s)
     else if sender = MPU_MID_PM then
       (if msgid = PM_MSG_SLEEP \<or> msgid = PM_MSG_OFF then Some (s\<lparr>uds_is_ready_sleep := env_j1939_save env\<rparr>)
        else Some s)
     else if sender = MPU_MID_TIMER then
       (if msgid = 8 then
          (if env_diag_available env then uds_diag_all_devices (env_did_get env) (env_diag_fun env) s
           else Some s)
        else if 8 < msgid then Some (emit (J1939Timeout msgid) s)
        else Some s)
     else if sender = MPU_MID_UDS then
       (if msgid < 8 then do {
          b0 \<leftarrow> byte_at buf 0; b1 \<leftarrow> byte_at buf 1;
          uds_timeout (timer_of_no (unat msgid)) (ucast b0 + ucast b1 * 256) s }
        else Some s)
     else Some s }"

text \<open>The calls of other modules.\<close>

datatype uds_call =
  SetClient
| SetClientEx byte u32 u32 u32 bool
| ClrClient
| HoldClient int
| ClientRequest u32 "byte list"
| TuKeyFinish byte
| EnableTxRx
| DisableTxRx

fun uds_call_step :: "uds_call \<Rightarrow> uds_state \<Rightarrow> uds_state option" where
  "uds_call_step SetClient s = uds_set_client s"
| "uds_call_step (SetClientEx port pid fid rid cb) s = uds_set_client_ex port pid fid rid cb s"
| "uds_call_step ClrClient s = Some (uds_clr_client s)"
| "uds_call_step (HoldClient en) s = Some (uds_hold_client en s)"
| "uds_call_step (ClientRequest can_id pdu) s =
     map_option snd (uds_data_request Client MSG_ID_UDS_REQ can_id pdu (word_of_nat (length pdu)) s)"
| "uds_call_step (TuKeyFinish b) s = Some (s\<lparr>tu_key_check_flag_finish := b\<rparr>)"
| "uds_call_step EnableTxRx s = Some (UDS_RecoverCANTxRxDefaultStatus s)"
| "uds_call_step DisableTxRx s = Some (UDS_DisableCANTxRx s)"

end
