(* ===== verification/UdsRuns.thy ===== *)
theory UdsRuns
  imports UdsServer
begin

text \<open>
  The diagnostic server as a whole: the access gates in front of the services, the invariant of
  every reachable state, and what the states can become: who may write an identifier, who raises
  the security level, what ends a session.
\<close>

section \<open>The gates in front of the services\<close>

text \<open>The services the tables know.\<close>

definition known_sids :: "byte list" where
  "known_sids = [0x10, 0x11, 0x14, 0x19, 0x22, 0x27, 0x28, 0x2E, 0x2F, 0x31, 0x34, 0x36, 0x37, 0x3E, 0x85]"

text \<open>
  The rules the tables encode, written out: which service needs which addressing, session and
  security level. The result is the negative response code, if any.
\<close>

definition service_refusal :: "byte \<Rightarrow> bool \<Rightarrow> byte \<Rightarrow> byte \<Rightarrow> byte option" where
  "service_refusal sid physical session level =
     (if sid \<notin> set known_sids then Some NRC_ServiceNotSupported
      else if sid = 0x2F \<or> \<not> physical \<and> sid \<in> set [0x27, 0x2E, 0x31, 0x34, 0x36, 0x37]
      then Some NRC_ConditionsNotCorrect
      else if session = SESSION_TYPE_DEFAULT \<and> sid \<in> set [0x27, 0x28, 0x2E, 0x31, 0x34, 0x36, 0x37, 0x85]
        \<or> session = SESSION_TYPE_PROGRAM \<and> sid \<in> set [0x14, 0x19, 0x22, 0x2E, 0x85]
        \<or> session = SESSION_TYPE_EXTENDED \<and> sid \<in> set [0x34, 0x36, 0x37]
      then Some NRC_ServiceNotSupportedInActiveSession
      else if level = SecurityAccess_LEVEL0 \<and> sid \<in> set [0x2E, 0x34, 0x36, 0x37]
        \<or> level = SecurityAccess_LEVEL1 \<and> sid \<in> set [0x34, 0x36, 0x37]
      then Some NRC_SecurityAccessDenied
      else None)"

text \<open>The same in terms of the tables, as \<open>uds_server_proc\<close> computes it.\<close>

definition gate_code :: "byte \<Rightarrow> bool \<Rightarrow> byte \<Rightarrow> byte \<Rightarrow> byte option" where
  "gate_code sid physical session level =
     (let k = uds_get_table_index sid; m = server_supper_table ! k;
          addr = (if physical then m AND 0x01 else m AND 0x02);
          sess = session_mask session m addr
      in if uds_index_mask ! k = 0 then Some NRC_ServiceNotSupported
         else if addr = 0 then Some NRC_ConditionsNotCorrect
         else if sess = 0 then Some NRC_ServiceNotSupportedInActiveSession
         else if security_mask level m sess = 0 then Some NRC_SecurityAccessDenied
         else None)"



lemma nibbles: "(sid AND 0xF0) + (sid AND 0x0F) = (sid :: byte)"
proof -
  have f0: "(0xF0 :: byte) = NOT 0x0F" by simp
  have "(sid AND NOT 0x0F) OR (sid AND 0x0F) = sid" "(sid AND NOT 0x0F) AND (sid AND 0x0F) = 0"
    by (rule bit_word_eqI, auto simp: bit_simps)+
  then show ?thesis
    using word_plus_and_or [of "sid AND NOT 0x0F" "sid AND 0x0F"] by (simp only: f0 add_0_left)
qed

lemma low_nibble: "unat (sid AND 0x0F :: byte) < 16"
  using word_and_le1 [of sid "0x0F"] by (simp add: word_le_nat_alt)

lemma index_entries:
  "list_all (\<lambda>k. uds_index_mask ! k \<noteq> 0 \<longrightarrow>
     k \<noteq> 79 \<and> (if k < 64 then word_of_nat k else 0x80 + word_of_nat (k - 64)) \<in> set known_sids) [0..<80]"
  by code_simp

lemma gates_known:
  "list_all (\<lambda>sid. uds_index_mask ! uds_get_table_index sid \<noteq> 0 \<and> list_all (\<lambda>(ph, se, le).
     gate_code sid ph se le = service_refusal sid ph se le)
     [(ph, se, le). ph \<leftarrow> [True, False], se \<leftarrow> [1, 2, 3], le \<leftarrow> [0, 1]]) known_sids"
  by code_simp

lemma table_index:
  "uds_get_table_index sid < 80 \<and>
   (uds_get_table_index sid \<noteq> 79 \<longrightarrow>
      sid = (if uds_get_table_index sid < 64 then word_of_nat (uds_get_table_index sid)
             else 0x80 + word_of_nat (uds_get_table_index sid - 64)))"
proof -
  let ?h = "sid AND 0xF0" and ?l = "sid AND 0x0F"
  note sum = nibbles [of sid] and low = low_nibble [of sid]
  consider "?h \<in> set [0x00, 0x10, 0x20, 0x30]" | "?h = 0x80" | "?h \<notin> set [0x00, 0x10, 0x20, 0x30, 0x80]"
    by auto
  then show ?thesis
  proof cases
    case 1
    then have "unat ?h \<le> 48" by auto
    then have "unat sid < 64"
      using unat_plus_if_size [of ?h ?l] low sum by (auto split: if_splits)
    then show ?thesis
      using 1 sum by (auto simp: uds_get_table_index_def Let_def)
  next
    case 2
    then have "unat (0x40 + ?l) = 64 + unat ?l"
      using low by (simp add: unat_word_ariths)
    then show ?thesis
      using 2 sum low by (simp add: uds_get_table_index_def Let_def)
  next
    case 3
    then show ?thesis by (simp add: uds_get_table_index_def Let_def)
  qed
qed

lemma known_sid:
  assumes "uds_index_mask ! uds_get_table_index sid \<noteq> 0"
  shows "sid \<in> set known_sids"
proof -
  let ?k = "uds_get_table_index sid"
  from table_index [of sid] have k: "?k \<in> set [0..<80]" by simp
  from bspec [OF index_entries [unfolded list_all_iff] k] assms
  have "?k \<noteq> 79 \<and> (if ?k < 64 then word_of_nat ?k else 0x80 + word_of_nat (?k - 64)) \<in> set known_sids"
    by blast
  then show ?thesis using table_index [of sid] by metis
qed

lemma gates_agree:
  assumes "session \<in> {1, 2, 3}" "level \<in> {0, 1}"
  shows "gate_code sid ph session level = service_refusal sid ph session level"
proof (cases "sid \<in> set known_sids")
  case True
  then show ?thesis
    using bspec [OF gates_known [unfolded list_all_iff] True] assms by (cases ph) auto
next
  case False
  then have "uds_index_mask ! uds_get_table_index sid = 0"
    using known_sid by blast
  then show ?thesis
    using False by (simp add: gate_code_def service_refusal_def known_sids_def Let_def)
qed

lemma table_entries:
  "k < 80 \<Longrightarrow> byte_at uds_index_mask k = Some (uds_index_mask ! k)"
  "k < 80 \<Longrightarrow> byte_at server_supper_table k = Some (server_supper_table ! k)"
  by (simp_all add: uds_index_mask_def server_supper_table_def)

lemma index_bound: "list_all (\<lambda>i. i < 16) uds_index_mask"
  by (simp add: uds_index_mask_def)

lemma server_proc_gate:
  assumes "access_ok s" "p \<noteq> []"
  shows "uds_server_proc env can_id p dlc s =
    (case service_refusal (p ! 0) (can_id = u_can_id_phy (uds_server s)) (g_u8CurrentSessionType s)
            (g_u8SecurityAccess s) of
       Some nrc \<Rightarrow> neg (p ! 0) nrc s
     | None \<Rightarrow> uds_appl env (uds_index_mask ! uds_get_table_index (p ! 0)) p dlc s)"
proof -
  let ?k = "uds_get_table_index (p ! 0)"
  have k: "?k < 80" using table_index by simp
  then have "uds_index_mask ! ?k < 16"
    using index_bound by (simp add: list_all_length uds_index_mask_def)
  moreover have "gate_code (p ! 0) (can_id = u_can_id_phy (uds_server s)) (g_u8CurrentSessionType s)
      (g_u8SecurityAccess s) = service_refusal (p ! 0) (can_id = u_can_id_phy (uds_server s))
      (g_u8CurrentSessionType s) (g_u8SecurityAccess s)"
    using assms(1) by (intro gates_agree) (auto simp: access_ok_def uds_const_defs)
  ultimately show ?thesis
    using assms(2) table_entries [OF k]
    by (simp add: uds_server_proc_def flip: \<open>gate_code _ _ _ _ = _\<close>)
      (simp add: gate_code_def Let_def eq_commute [of can_id])
qed

section \<open>Every step runs and keeps the invariant\<close>

definition ready :: "uds_state \<Rightarrow> bool" where
  "ready s \<longleftrightarrow> uds_ok s \<and> g_u8suppressFlag s = 0"

lemma runs_ready: "runs r \<longleftrightarrow> (\<exists>s'. r = Some s' \<and> ready s')"
  by (auto simp: runs_def ready_def)

text \<open>What a step asks of the outside, and of a request that writes an identifier.\<close>

definition env_ok :: "uds_env \<Rightarrow> bool" where
  "env_ok env \<longleftrightarrow> did_get_ok (env_did_get env) \<and> tukey_ends (scast (ucast (env_now env) :: u32)) (env_polls env)"

definition request_ok :: "byte list \<Rightarrow> nat \<Rightarrow> bool" where
  "request_ok p dlc \<longleftrightarrow> buffer_ok p dlc \<and> (p ! 0 = 0x2E \<longrightarrow> write_ok p dlc)"

lemma index_table:
  "list_all (\<lambda>k. (uds_index_mask ! k = 6 \<longleftrightarrow> k = 0x27) \<and> (uds_index_mask ! k = 8 \<longleftrightarrow> k = 0x2E)) [0..<80]"
  by code_simp

lemma index_sid:
  "uds_index_mask ! uds_get_table_index sid = 6 \<longleftrightarrow> sid = 0x27"
  "uds_index_mask ! uds_get_table_index sid = 8 \<longleftrightarrow> sid = 0x2E"
proof -
  let ?k = "uds_get_table_index sid"
  have k: "?k \<in> set [0..<80]" using table_index [of sid] by simp
  have "uds_get_table_index 0x27 = 0x27" "uds_get_table_index 0x2E = 0x2E"
    by (simp_all add: uds_get_table_index_def)
  moreover have "sid = 0x27" if "?k = 0x27" using table_index [of sid] that by simp
  moreover have "sid = 0x2E" if "?k = 0x2E" using table_index [of sid] that by simp
  ultimately show
    "uds_index_mask ! uds_get_table_index sid = 6 \<longleftrightarrow> sid = 0x27"
    "uds_index_mask ! uds_get_table_index sid = 8 \<longleftrightarrow> sid = 0x2E"
    using bspec [OF index_table [unfolded list_all_iff] k] by auto
qed

lemma appl_runs:
  assumes "ready s" "env_ok env" "buffer_ok p dlc" "i = 6 \<Longrightarrow> g_u8CurrentSessionType s \<noteq> SESSION_TYPE_DEFAULT"
    "i = 8 \<Longrightarrow> write_ok p dlc"
  shows "runs (uds_appl env i p dlc s)"
proof -
  have s: "uds_ok s" "runs (Some s)" and env: "did_get_ok (env_did_get env)"
    "tukey_ends (scast (ucast (env_now env) :: u32)) (env_polls env)" and p0: "byte_at p 0 = Some (p ! 0)"
    using assms by (auto simp: ready_def env_ok_def runs_def buffer_ok_def)
  note runs = neg_runs [OF s(1)] session_control_runs [OF s(1) assms(3)] ecu_reset_runs [OF s(1) assms(3)]
    clear_dtc_runs [OF s(1) assms(3)] read_dtc_runs [OF s(1) assms(3)] read_did_runs [OF s(1) assms(3) env(1)]
    security_access_runs [OF s(1) assms(3)] communication_control_runs [OF s(1) assms(3)]
    write_did_runs [OF s(1) assms(3)] routine_control_runs [OF s(1) assms(3) env(2)]
    tester_present_runs [OF s(1) assms(3)] control_dtc_runs [OF s(1) assms(3)]
  show ?thesis using assms(4,5) by (simp add: p0 if_distrib [of runs] runs s(2) split del: if_split cong: if_cong)
qed

lemma server_proc_runs:
  assumes "ready s" "env_ok env" "request_ok p dlc"
  shows "runs (uds_server_proc env can_id p dlc s)"
proof -
  let ?ref = "service_refusal (p ! 0) (can_id = u_can_id_phy (uds_server s)) (g_u8CurrentSessionType s)
    (g_u8SecurityAccess s)"
  have ok: "uds_ok s" "access_ok s" "p \<noteq> []" "buffer_ok p dlc"
    using assms by (auto simp: ready_def uds_ok_def request_ok_def buffer_ok_def)
  show ?thesis
  proof (cases ?ref)
    case None
    then have "g_u8CurrentSessionType s \<noteq> SESSION_TYPE_DEFAULT" if "p ! 0 = 0x27"
      using that by (auto simp: service_refusal_def known_sids_def split: if_splits)
    then show ?thesis
      using assms unfolding server_proc_gate [OF ok(2,3)] None option.case
      by (intro appl_runs) (simp_all add: index_sid request_ok_def)
  qed (simp add: server_proc_gate ok neg_runs)
qed

lemma ready_set_timer: "ready s \<Longrightarrow> ready (uds_set_timer uds name sw s)"
proof (cases uds)
  case Server
  assume "ready s"
  then have "uds_ok s" "reply [] s (uds_set_timer Server name sw s)"
    by (simp_all add: ready_def set_timer_reply)
  then show ?thesis using reply_ok by (auto simp: Server ready_def)
next
  case Client
  assume "ready s"
  then show ?thesis
    by (simp add: Client ready_def uds_set_timer_def Let_def uds_ok_def uds_wf_def diag_wf_def access_ok_def
        split: prod.splits)
qed

lemma send_frame_total:
  "\<exists>ret eff. scom_tl_send_frame t ft fno data s = Some (ret, s, eff)"
proof -
  have "msg_encode m n LAST_SEG cs \<noteq> None" for m n cs
    by (simp add: msg_encode_def Let_def split: prod.split)
  moreover have "msg_encode m SCOM_TL_OMSG_SIZE FIRST_SEG 0 \<noteq> None" for m
    by (simp add: msg_encode_def SCOM_TL_OMSG_SIZE_def Let_def split: prod.split)
  moreover define h where "h = Some (put_hdr \<lparr>hdr_msg_type = t, hdr_ftype = ft, hdr_fno = fno,
    hdr_flen = word_of_nat (case data of None \<Rightarrow> 0 | Some d \<Rightarrow> length d)\<rparr>)"
  ultimately obtain r1 o1 c1 where 1: "msg_encode h SCOM_TL_OMSG_SIZE FIRST_SEG 0 = Some (r1, o1, c1)"
    and "msg_encode data (SCOM_TL_OMSG_SIZE - nat r1) LAST_SEG c1 \<noteq> None"
    by (metis not_Some_eq prod_cases3)
  then obtain r2 o2 c2 where "msg_encode data (SCOM_TL_OMSG_SIZE - nat r1) LAST_SEG c1 = Some (r2, o2, c2)"
    by (metis not_Some_eq prod_cases3)
  with 1 show ?thesis by (simp add: scom_tl_send_frame_def Let_def flip: h_def)
qed

lemma data_request_runs:
  assumes "ready s" "pdu \<noteq> []" "unat dlc \<le> length pdu" "unat dlc \<le> 2041"
  shows "\<exists>ret s'. uds_data_request uds mid can_id pdu dlc s = Some (ret, s') \<and> ready s'"
proof -
  define hdr where "hdr = (if mid \<noteq> MSG_ID_UDS_SET_S \<and> mid \<noteq> MSG_ID_UDS_SET_C
    then (if u_mode (uds_get uds s) = UDS_TYPE_SERVER then le32 can_id @ put_u16 dlc
          else if u_mode (uds_get uds s) = UDS_TYPE_CLIENT then le32 can_id @ put_u16 dlc else []) else [])"
  define s1 where "s1 = uds_upd uds (\<lambda>u. u\<lparr>u_sid := pdu ! 0, u_can_id_req := can_id\<rparr>) s"
  have "length hdr \<le> 6" by (simp add: hdr_def)
  then have "length (mid # hdr @ take (unat dlc) pdu) \<le> UDS_SERVER_MAX_BYTE div 2"
    using assms(3,4) by (simp add: UDS_SERVER_MAX_BYTE_def)
  moreover have "uds_scom s1 = uds_scom s" by (cases uds) (simp_all add: s1_def)
  moreover have "ready (emit e (s1\<lparr>uds_scom := uds_scom s1\<rparr>))" for e
    using assms(1) by (cases uds)
      (simp_all add: s1_def ready_def emit_def uds_ok_def uds_wf_def diag_wf_def access_ok_def)
  ultimately show ?thesis
    using assms(2,3) send_frame_total [of SCOM_TL_CMD_UDS_MSG SCOM_TL_SINGLE_FRAME 0
        "Some (mid # hdr @ take (unat dlc) pdu)" "uds_scom s"]
    by (auto simp: uds_data_request_def Let_def simp flip: hdr_def s1_def)
qed

lemma length_tl_cfg [simp]: "length (tl_cfg port fill stmin bs n_bs n_cr phy fun res) = 20"
  by (simp add: tl_cfg_def)

lemma ready_ids:
  "ready s \<Longrightarrow> ready (uds_upd Server (set_ids UDS_TYPE_SERVER 1 0x782 0x7DF 0x78A) s)"
  "ready s \<Longrightarrow> ready ((uds_upd Client (set_ids m port a b c) s)\<lparr>uds_client_cb := cb\<rparr>)"
  "ready s \<Longrightarrow> ready (uds_upd Client (set_ids m port a b c) s)"
  by (simp_all add: ready_def set_ids_def uds_ok_def uds_wf_def diag_wf_def access_ok_def)

lemma config_sent:
  assumes "ready s"
  shows "runs (map_option snd (uds_data_request uds mid 0
    (tl_cfg port fill stmin bs n_bs n_cr phy fun res) 20 (uds_set_timer uds name 1 s)))"
proof -
  have "tl_cfg port fill stmin bs n_bs n_cr phy fun res \<noteq> []" by (simp add: tl_cfg_def)
  from data_request_runs [OF ready_set_timer [OF assms] this, of 20 uds mid 0 uds name 1] show ?thesis
    by (auto simp: runs_ready)
qed

lemma set_server_runs: "ready s \<Longrightarrow> runs (uds_set_server s)"
  unfolding uds_set_server_def by (intro config_sent ready_ids)

lemma set_client_runs: "ready s \<Longrightarrow> runs (uds_set_client s)"
  unfolding uds_set_client_def by (intro config_sent ready_ids)

lemma set_client_ex_runs: "ready s \<Longrightarrow> runs (uds_set_client_ex port pid fid rid cb s)"
  unfolding uds_set_client_ex_def by (intro config_sent ready_ids)

lemma ready_client_cb: "ready s \<Longrightarrow> ready (client_cb a b c s)"
  by (simp add: client_cb_def ready_def)

lemma ready_s3:
  "ready s \<Longrightarrow> ready (UDS_SetDTCOn (s\<lparr>g_u8CurrentSessionType := SESSION_TYPE_DEFAULT,
                                        g_u8SecurityAccess := SecurityAccess_LEVEL0\<rparr>))"
  using uds_ok_default [of s] by (simp add: ready_def UDS_SetDTCOn_def)

lemma timeout_runs:
  assumes "ready s"
  shows "runs (uds_timeout t sq s)"
  using assms set_server_runs [OF assms] ready_s3 [OF assms] ready_client_cb [OF assms]
  by (cases t) (auto simp: uds_timeout_def Let_def runs_ready)

lemma confirm_ready: "ready s \<Longrightarrow> ready (uds_confirm uds result s)"
  by (simp add: uds_confirm_def Let_def ready_set_timer)

lemma get_u32_total: "i + 4 \<le> length msg \<Longrightarrow> \<exists>v. get_u32 msg i = Some v"
  by (simp add: get_u32_def)

text \<open>A message for the proxy: it fits the buffer, and a write in it is one the table can take.\<close>

definition proxy_ok :: "byte list \<Rightarrow> nat \<Rightarrow> bool" where
  "proxy_ok buf n \<longleftrightarrow> length buf = 2048 \<and> n \<le> 2048 \<and> (7 \<le> n \<longrightarrow> buf ! 7 = 0x2E \<longrightarrow> write_ok (drop 7 buf) (n - 7))"

lemma proxy_runs:
  assumes "ready s" "env_ok env" "proxy_ok buf n"
  shows "runs (uds_proxy env buf n s)"
proof -
  have len: "length buf = 2048" "n \<le> 2048" using assms(3) by (simp_all add: proxy_ok_def)
  obtain v where v: "get_u32 (drop (Suc 0) buf) 0 = Some v"
    using get_u32_total [of 0 "drop (Suc 0) buf"] len by auto
  have ind: "runs (uds_server_proc env v (drop 7 buf) (n - 7)
      (uds_set_timer Server S3SERVER 1 (uds_set_timer Server P2SERVER 1 s)))" if "\<not> n - Suc 0 < 6"
    using assms(3) that
    by (intro server_proc_runs ready_set_timer assms) (auto simp: request_ok_def proxy_ok_def buffer_ok_def)
  have c: "runs (Some (client_cb a b d (uds_set_timer Client P2EXT_CLIENT x (uds_set_timer Client P2CLINT 0 s))))"
    "runs (Some s)" "runs (Some (client_cb a b d (uds_set_timer Client CLIENT_SET 0 s)))"
    "runs (Some (uds_confirm Server r s))" "runs (Some (uds_confirm Client r s))"
    "runs (Some (uds_set_timer Server SERVER_SET 0 s))" for a b d x r
    by (auto simp: runs_ready intro!: ready_client_cb ready_set_timer assms(1) confirm_ready)
  have if_bind: "(if P then x else y) \<bind> f = (if P then x \<bind> f else y \<bind> f)"
    for P and x y :: "'a option" and f :: "'a \<Rightarrow> uds_state option"
    by simp
  have sub: "subarray (drop 7 buf) 0 k = Some (take k (drop 7 buf))" if "n - 7 = k" for k
    using that len by (simp add: subarray_def)
  show ?thesis
    unfolding uds_proxy_def Let_def
    by (simp add: v c len ind sub if_distrib [of runs] if_bind split del: if_split cong: if_cong)
qed

lemma one_round_runs:
  assumes "ready s"
  shows "runs (uds_diag_all_devices did_get diag_fun s)"
proof -
  have "diag_wf s" using assms by (simp add: ready_def uds_ok_def)
  from all_devices_wf [OF this, of did_get diag_fun] obtain s' eff where
    s': "uds_diag_all_devices did_get diag_fun s = Some s'" "diag_wf s'"
      "s' = s\<lparr>diag_counter := diag_counter s', uds_diag_item_buf := uds_diag_item_buf s', uds_out := uds_out s @ eff\<rparr>"
    by blast
  have "ready (s\<lparr>diag_counter := c, uds_diag_item_buf := b, uds_out := out\<rparr>)"
    if "diag_wf (s\<lparr>diag_counter := c, uds_diag_item_buf := b, uds_out := out\<rparr>)" for c b out
    using that assms by (simp add: ready_def uds_ok_def uds_wf_def access_ok_def)
  then have "ready s'" using s'(2,3) by metis
  with s'(1) show ?thesis by (simp add: runs_ready)
qed

text \<open>A message of the channel: it fits the buffer, and the header carries its length.\<close>

definition message_ok :: "TCOM_MSG_HEADER \<Rightarrow> byte list \<Rightarrow> uds_state \<Rightarrow> bool" where
  "message_ok hdr body s \<longleftrightarrow> length body \<le> 2048 \<and> unat (msg_msglen hdr) = length body \<and>
     (msg_sender hdr = MPU_MID_SCOM \<longrightarrow> msg_msgid hdr = UDS_SCOM_MSG_IND \<longrightarrow>
        proxy_ok (body @ drop (length body) (uds_msgbuf s)) (length body))"

lemma main_step_runs:
  assumes "ready s" "env_ok env" "message_ok hdr body s"
  shows "runs (uds_main_step env hdr body s)"
proof -
  define buf where "buf = body @ drop (length body) (uds_msgbuf s)"
  have len: "length buf = 2048" "length body \<le> 2048" "length (uds_msgbuf s) = 2048"
    using assms by (simp_all add: buf_def message_ok_def ready_def uds_ok_def)
  have "blit (uds_msgbuf s) 0 body (length body) = Some buf"
    using len by (simp add: buf_def)
  moreover have "unat (ucast (msg_msglen hdr) :: u16) = length body"
    using assms(3) by (simp add: message_ok_def unsigned_ucast_eq take_bit_nat_eq_self)
  moreover have r: "ready (s\<lparr>uds_msgbuf := buf\<rparr>)"
    using assms(1) len by (simp add: ready_def uds_ok_def uds_wf_def diag_wf_def access_ok_def)
  moreover have "ready (s\<lparr>uds_msgbuf := buf, uds_is_ready_sleep := b\<rparr>)" for b
    using assms(1) len by (simp add: ready_def uds_ok_def uds_wf_def diag_wf_def access_ok_def)
  moreover have "runs (Some t)" if "ready t" for t using that by (simp add: runs_ready)
  moreover have "ready (emit e t)" if "ready t" for e t using that by (simp add: ready_def)
  ultimately show ?thesis
    using assms(2,3) len proxy_runs [OF r assms(2)] timeout_runs [OF r] one_round_runs [OF r]
    by (simp add: uds_main_step_def Let_def message_ok_def if_distrib [of runs] flip: buf_def
        split del: if_split cong: if_cong)
qed

lemma call_runs:
  assumes "ready s" "case c of ClientRequest _ pdu \<Rightarrow> pdu \<noteq> [] \<and> length pdu \<le> 2041 | _ \<Rightarrow> True"
  shows "runs (uds_call_step c s)"
proof (cases c)
  case (ClientRequest can_id pdu)
  then have "unat (word_of_nat (length pdu) :: u16) = length pdu"
    using assms(2) by (simp add: unat_of_nat)
  then show ?thesis
    using ClientRequest assms data_request_runs [OF assms(1), of pdu "word_of_nat (length pdu)" Client MSG_ID_UDS_REQ can_id]
    by (auto simp: runs_ready)
next
  case ClrClient
  have "ready (t\<lparr>uds_client_cb := b\<rparr>)" if "ready t" for t b
    using that by (simp add: ready_def uds_ok_def uds_wf_def diag_wf_def access_ok_def)
  then show ?thesis using ClrClient assms(1) by (simp add: uds_clr_client_def runs_ready ready_set_timer)
next
  case (HoldClient en)
  have "ready (s\<lparr>uds_hold_mode := en\<rparr>)"
    using assms(1) by (simp add: ready_def uds_ok_def uds_wf_def diag_wf_def access_ok_def)
  then show ?thesis using HoldClient by (simp add: uds_hold_client_def runs_ready)
qed (use assms(1) set_client_runs [OF assms(1)] set_client_ex_runs [OF assms(1)] in \<open>simp_all add: runs_ready ready_def
    UDS_RecoverCANTxRxDefaultStatus_def UDS_DisableCANTxRx_def\<close>)

section \<open>Reachable states\<close>

definition call_ok :: "uds_call \<Rightarrow> bool" where
  "call_ok c \<longleftrightarrow> (case c of ClientRequest _ pdu \<Rightarrow> pdu \<noteq> [] \<and> length pdu \<le> 2041 | _ \<Rightarrow> True)"

inductive uds_step :: "uds_state \<Rightarrow> uds_state \<Rightarrow> bool" where
  uds_message: "uds_main_step env hdr body s = Some s' \<Longrightarrow> env_ok env \<Longrightarrow> message_ok hdr body s \<Longrightarrow> uds_step s s'"
| uds_called: "uds_call_step c s = Some s' \<Longrightarrow> call_ok c \<Longrightarrow> uds_step s s'"

inductive_cases uds_stepE: "uds_step s s'"

text \<open>What \<open>uds_init\<close> leaves: the record of codes read from storage has the size of its buffer.\<close>

inductive uds_reach :: "uds_state \<Rightarrow> bool" where
  uds_started: "uds_init_outside stored 0 0 0 cfg (uds_statics scom b) = (ret, s) \<Longrightarrow>
     (\<And>buf. length (stored buf) = length buf) \<Longrightarrow> uds_reach s"
| uds_stepped: "uds_reach s \<Longrightarrow> uds_step s s' \<Longrightarrow> uds_reach s'"

lemma init_ready:
  assumes "\<And>buf. length (stored buf) = length buf"
  shows "ready (snd (uds_init_outside stored t p c cfg (uds_statics scom b)))"
proof -
  define s0 where "s0 = uds_proxy_init (uds_statics scom b)"
  define s1 where "s1 = snd (uds_diag_init stored s0)"
  have d: "diag_wf s1"
    unfolding s1_def
    by (rule conjunct2 [OF diag_init_wf]) (simp_all add: assms s0_def uds_proxy_init_def uds_statics_def)
  have e: "uds_server s1 = uds_server s0" "uds_client s1 = uds_client s0" "g_u32DiagID s1 = g_u32DiagID s0"
    "access s1 = access s0" "erasememoryflag s1 = erasememoryflag s0" "DTC_index s1 = DTC_index s0"
    "rbi_buf s1 = rbi_buf s0" "uds_msgbuf s1 = uds_msgbuf s0" "g_u8suppressFlag s1 = g_u8suppressFlag s0"
    by (simp_all add: s1_def uds_diag_init_def diag_layout_table Let_def access_def)
  have "uds_wf s0"
    by (simp add: uds_wf_def s0_def uds_proxy_init_def uds_statics_def set_ids_def set_value_def create_timer_def
        zero_uds_t_def zero_timer_def numeral_eq_Suc)
  then have "ready s1"
    using d access_eqD [OF e(4)]
    by (simp add: ready_def uds_ok_def uds_wf_def access_ok_def e)
      (simp add: s0_def uds_proxy_init_def uds_statics_def)
  then show ?thesis
    by (simp add: uds_init_outside_def Let_def ready_def flip: s0_def s1_def)
qed

lemma step_ready:
  assumes "uds_step s s'" "ready s"
  shows "ready s'"
  using assms(1)
proof (cases rule: uds_step.cases)
  case (uds_message env hdr body)
  then show ?thesis using main_step_runs [OF assms(2) uds_message(2,3)] by (auto simp: runs_ready)
next
  case (uds_called c)
  then show ?thesis using call_runs [OF assms(2), of c] by (simp add: runs_ready call_ok_def)
qed

lemma reach_ready: "uds_reach s \<Longrightarrow> ready s"
proof (induction rule: uds_reach.induct)
  case (uds_started stored cfg scom b ret s)
  then show ?case using init_ready [of stored 0 0 0 cfg scom b] by simp
qed (rule step_ready)

section \<open>Changes of the access state\<close>

lemma access_client_cb [simp]: "access (client_cb a b c s) = access s"
  by (simp add: client_cb_def)

lemma access_confirm [simp]: "access (uds_confirm uds r s) = access s"
  by (simp add: uds_confirm_def Let_def)

lemma proxy_cases:
  assumes "uds_proxy env buf n s = Some s'"
  shows "access s' = access s \<or>
    (\<exists>can_id. 7 \<le> n \<and> get_u32 (drop 1 buf) 0 = Some can_id \<and>
       uds_server_proc env can_id (drop 7 buf) (n - 7)
         (uds_set_timer Server S3SERVER 1 (uds_set_timer Server P2SERVER 1 s)) = Some s')"
  using assms
  by (auto simp: uds_proxy_def Let_def bind_eq_Some_conv split: if_splits)

lemma access_one_round:
  assumes "diag_wf s" "uds_diag_all_devices did_get diag_fun s = Some s'"
  shows "access s' = access s"
proof -
  from all_devices_wf [OF assms(1), of did_get diag_fun] obtain t eff where
    t: "uds_diag_all_devices did_get diag_fun s = Some t"
      "t = s\<lparr>diag_counter := diag_counter t, uds_diag_item_buf := uds_diag_item_buf t, uds_out := uds_out s @ eff\<rparr>"
    and eff: "eff = (if \<exists>j<17. snd (item_state s j) = 0 \<and> snd (item_state t j) = 1
       then [RdsUpdate (uds_diag_item_buf t)] else [])"
    by blast
  have s': "t = s'" using t(1) assms(2) by simp
  have "did_writes eff = []" by (simp add: eff)
  then have "access (s\<lparr>diag_counter := c, uds_diag_item_buf := d, uds_out := uds_out s @ eff\<rparr>) = access s" for c d
    by (simp add: access_def)
  then show ?thesis using t(2) unfolding s' by metis
qed

text \<open>
  A step of the module either leaves the access state alone, or handles the expiry of the session
  timer, or handles a request to the server in a state that differs in the receive buffer and the
  timers only.
\<close>

lemma main_step_cases:
  assumes "uds_main_step env hdr body s = Some s'" "ready s" "message_ok hdr body s"
  shows "access s' = access s \<or>
    (msg_sender hdr = MPU_MID_UDS \<and> msg_msgid hdr = 4 \<and>
       s' = UDS_SetDTCOn (s\<lparr>uds_msgbuf := body @ drop (length body) (uds_msgbuf s),
              g_u8CurrentSessionType := SESSION_TYPE_DEFAULT, g_u8SecurityAccess := SecurityAccess_LEVEL0\<rparr>)) \<or>
    (\<exists>can_id t. msg_sender hdr = MPU_MID_SCOM \<and> msg_msgid hdr = UDS_SCOM_MSG_IND \<and> 7 \<le> length body \<and>
       get_u32 (drop 1 body) 0 = Some can_id \<and> access t = access s \<and> ready t \<and>
       uds_server_proc env can_id (drop 7 body @ drop (length body) (uds_msgbuf s)) (length body - 7) t = Some s')"
proof -
  define buf where "buf = body @ drop (length body) (uds_msgbuf s)"
  define s0 where "s0 = s\<lparr>uds_msgbuf := buf\<rparr>"
  have len: "length buf = 2048" "length body \<le> 2048" "length (uds_msgbuf s) = 2048"
    using assms by (simp_all add: buf_def message_ok_def ready_def uds_ok_def)
  have r: "ready s0" "access s0 = access s"
    using assms(2) len by (simp_all add: s0_def ready_def uds_ok_def uds_wf_def diag_wf_def access_ok_def)
  have blit: "blit (uds_msgbuf s) 0 body (length body) = Some buf"
    using len by (simp add: buf_def)
  have n: "unat (ucast (msg_msglen hdr) :: u16) = length body"
    using assms(3) by (simp add: message_ok_def unsigned_ucast_eq take_bit_nat_eq_self)
  consider (scom) "msg_sender hdr = MPU_MID_SCOM" "msg_msgid hdr = UDS_SCOM_MSG_IND"
      "uds_proxy env buf (length body) s0 = Some s'"
    | (timer) b0 b1 :: byte where "msg_sender hdr = MPU_MID_UDS" "msg_msgid hdr < 8"
      "uds_timeout (timer_of_no (unat (msg_msgid hdr))) (ucast b0 + ucast b1 * 256) s0 = Some s'"
    | (diag) "uds_diag_all_devices (env_did_get env) (env_diag_fun env) s0 = Some s'"
    | "access s' = access s"
    using assms(1) blit n r(2)
    by (auto simp: uds_main_step_def Let_def s0_def len split: if_splits)
  then show ?thesis
  proof cases
    case scom
    from proxy_cases [OF scom(3)] consider "access s' = access s0"
      | can_id where "7 \<le> length body" "get_u32 (drop 1 buf) 0 = Some can_id"
       "uds_server_proc env can_id (drop 7 buf) (length body - 7)
         (uds_set_timer Server S3SERVER 1 (uds_set_timer Server P2SERVER 1 s0)) = Some s'"
      by blast
    then show ?thesis
    proof cases
      case 2
      have "get_u32 (drop 1 body) 0 = Some can_id" "drop 7 buf = drop 7 body @ drop (length body) (uds_msgbuf s)"
        using 2(1,2) by (auto simp: get_u32_def buf_def nth_append)
      with 2 have "7 \<le> length body \<and> get_u32 (drop 1 body) 0 = Some can_id \<and>
        access (uds_set_timer Server S3SERVER 1 (uds_set_timer Server P2SERVER 1 s0)) = access s \<and>
        ready (uds_set_timer Server S3SERVER 1 (uds_set_timer Server P2SERVER 1 s0)) \<and>
        uds_server_proc env can_id (drop 7 body @ drop (length body) (uds_msgbuf s)) (length body - 7)
          (uds_set_timer Server S3SERVER 1 (uds_set_timer Server P2SERVER 1 s0)) = Some s'"
        using r by (simp add: ready_set_timer)
      then show ?thesis using scom(1,2) by blast
    qed (simp add: r)
  next
    case timer
    have "access s' = access s0 \<or> timer_of_no (unat (msg_msgid hdr)) = S3SERVER \<and>
       s' = UDS_SetDTCOn (s0\<lparr>g_u8CurrentSessionType := SESSION_TYPE_DEFAULT, g_u8SecurityAccess := SecurityAccess_LEVEL0\<rparr>)"
      using timer(3)
      by (auto simp: uds_timeout_def Let_def uds_set_server_def dest!: access_data_request split: if_splits UDS_TIMER_E.splits)
    moreover have "timer_of_no n = S3SERVER \<Longrightarrow> n = 4" for n
      by (simp add: timer_of_no_def split: if_splits)
    moreover have "msg_msgid hdr = 4" if "unat (msg_msgid hdr) = 4"
      using that by (simp add: word_unat_eq_iff)
    ultimately show ?thesis using timer r(2) by (auto simp: s0_def buf_def)
  next
    case diag
    have "diag_wf s0" using r(1) by (simp add: ready_def uds_ok_def)
    from access_one_round [OF this diag] have "access s' = access s0" .
    then show ?thesis using r(2) by simp
  qed simp
qed

lemma session_control_cases:
  assumes "40 \<le> length p"
  shows "\<exists>pdu. UDS_SRV_DiagSessionCtrl p dlc s =
    (if dlc \<noteq> 2 then neg (p ! 0) NRC_IncorrectMessageLengthOrInvailFormat s
     else case session_next (g_u8CurrentSessionType s) (sub_of (p ! 1)) of
        Inl nrc \<Rightarrow> neg (p ! 0) nrc s
      | Inr x \<Rightarrow> respond 6 pdu (set_suppress (p ! 1) (enter_session x s)))"
proof -
  have b: "byte_at p 0 = Some (p ! 0)" "byte_at p (Suc 0) = Some (p ! Suc 0)" using assms by auto
  show ?thesis
    by (intro exI [of _ "[p ! 0 + POS_RESPOND_SID_MASK, p ! 1,
        ucast (drop_bit 8 (timer_value (u_timer_t (uds_server s) ! 0))), ucast (timer_value (u_timer_t (uds_server s) ! 0)),
        ucast (drop_bit 8 (timer_value (u_timer_t (uds_server s) ! 2))), ucast (timer_value (u_timer_t (uds_server s) ! 2))]"])
      (simp add: UDS_SRV_DiagSessionCtrl_def b Let_def session_next_def enter_session_def UDS_SetDTCOn_def)
qed

lemma access_session_control:
  assumes "UDS_SRV_DiagSessionCtrl p dlc s = Some s'" "40 \<le> length p"
  shows "access s' = access s \<or> (\<exists>x. session_next (g_u8CurrentSessionType s) (sub_of (p ! 1)) = Inr x \<and>
    access s' = access (enter_session x s))"
  using assms(1) session_control_cases [OF assms(2), of dlc s]
  by (auto split: if_splits sum.splits dest: access_neg [OF sym] access_respond [OF sym])

lemma appl_others:
  assumes "uds_appl env i p dlc s = Some s'" "i \<noteq> 1" "i \<noteq> 6" "i \<noteq> 8"
  shows "access s' = access s"
  using assms access_ecu_reset access_clear_dtc access_read_dtc access_read_did access_communication_control
    access_routine access_tester_present access_control_dtc
  by (auto simp: bind_eq_Some_conv split: if_splits dest!: access_neg)

lemma gate_session: "service_refusal sid ph session level = None \<Longrightarrow> sid = 0x27 \<Longrightarrow> ph \<and> session \<noteq> SESSION_TYPE_DEFAULT"
  by (auto simp: service_refusal_def known_sids_def split: if_splits)

lemma gate_write:
  "service_refusal 0x2E ph session level = None \<Longrightarrow>
   session \<in> {SESSION_TYPE_DEFAULT, SESSION_TYPE_PROGRAM, SESSION_TYPE_EXTENDED} \<Longrightarrow>
   level \<in> {SecurityAccess_LEVEL0, SecurityAccess_LEVEL1} \<Longrightarrow>
   ph \<and> session = SESSION_TYPE_EXTENDED \<and> level = SecurityAccess_LEVEL1"
  by (auto simp: service_refusal_def known_sids_def split: if_splits)

lemma server_proc_cases:
  assumes "uds_server_proc env can_id p dlc t = Some s'" "ready t" "40 \<le> length p"
  shows "access s' = access t \<or>
    (\<exists>x. session_next (g_u8CurrentSessionType t) (sub_of (p ! 1)) = Inr x \<and> access s' = access (enter_session x t)) \<or>
    (p ! 0 = 0x27 \<and> can_id = 0x782 \<and> g_u8CurrentSessionType t \<noteq> SESSION_TYPE_DEFAULT \<and>
       UDS_SRV_SecrityAcess (env_now env) (env_now' env) (env_rand env) p dlc t = Some s') \<or>
    (p ! 0 = 0x2E \<and> can_id = 0x782 \<and> g_u8CurrentSessionType t = SESSION_TYPE_EXTENDED \<and>
       g_u8SecurityAccess t = SecurityAccess_LEVEL1 \<and>
       UDS_SRV_WriteDataByID (env_did_set env) p dlc t = Some s')"
proof -
  let ?ref = "service_refusal (p ! 0) (can_id = u_can_id_phy (uds_server t)) (g_u8CurrentSessionType t)
    (g_u8SecurityAccess t)"
  let ?i = "uds_index_mask ! uds_get_table_index (p ! 0)"
  have ok: "access_ok t" "p \<noteq> []" "u_can_id_phy (uds_server t) = 0x782"
    using assms(2,3) by (auto simp: ready_def uds_ok_def uds_wf_def)
  show ?thesis
  proof (cases ?ref)
    case None
    then have run: "uds_appl env ?i p dlc t = Some s'"
      using assms(1) by (simp only: server_proc_gate [OF ok(1,2)] option.case)
    consider "?i = 1" | "?i = 6" | "?i = 8" | "?i \<noteq> 1" "?i \<noteq> 6" "?i \<noteq> 8" by blast
    then show ?thesis
    proof cases
      case 1
      then have "UDS_SRV_DiagSessionCtrl p dlc t = Some s'" using run by simp
      from access_session_control [OF this assms(3)] show ?thesis by blast
    next
      case 2
      then have "p ! 0 = 0x27" "UDS_SRV_SecrityAcess (env_now env) (env_now' env) (env_rand env) p dlc t = Some s'"
        using run [unfolded 2] by (simp_all add: index_sid)
      with gate_session [OF None] ok(3) show ?thesis by simp
    next
      case 3
      then have "p ! 0 = 0x2E" "UDS_SRV_WriteDataByID (env_did_set env) p dlc t = Some s'"
        using run [unfolded 3] by (simp_all add: index_sid)
      with gate_write [OF None [unfolded this(1)]] ok show ?thesis by (auto simp: access_ok_def)
    next
      case 4
      from appl_others [OF run this] show ?thesis by blast
    qed
  next
    case (Some nrc)
    then have "neg (p ! 0) nrc t = Some s'"
      using assms(1) by (simp only: server_proc_gate [OF ok(1,2)] option.case)
    from access_neg [OF this] show ?thesis by blast
  qed
qed

lemma write_short: "UDS_SRV_WriteDataByID did_set p dlc s = Some s' \<Longrightarrow> dlc < 3 \<Longrightarrow> access s' = access s"
  by (auto simp: UDS_SRV_WriteDataByID_def bind_eq_Some_conv dest: access_neg)

text \<open>
  The whole step, in terms of the message: \<open>request_of\<close> is the request it carries, as the handlers
  see it in the receive buffer.
\<close>

definition request_of :: "byte list \<Rightarrow> uds_state \<Rightarrow> byte list" where
  "request_of body s = drop 7 body @ drop (length body) (uds_msgbuf s)"

lemma access_enter_session: "access t = access s \<Longrightarrow> access (enter_session x t) = access (enter_session x s)"
  by (simp add: access_def enter_session_def)

lemma step_access:
  assumes "uds_main_step env hdr body s = Some s'" "ready s" "message_ok hdr body s"
  shows "access s' = access s \<or>
    (\<exists>x. access s' = access (enter_session x s) \<and>
       (msg_sender hdr = MPU_MID_UDS \<and> msg_msgid hdr = 4 \<and> x = SESSION_TYPE_DEFAULT \<or>
        msg_sender hdr = MPU_MID_SCOM \<and>
          session_next (g_u8CurrentSessionType s) (sub_of (request_of body s ! 1)) = Inr x)) \<or>
    (msg_sender hdr = MPU_MID_SCOM \<and> get_u32 (drop 1 body) 0 = Some 0x782 \<and> request_of body s ! 0 = 0x27 \<and>
       g_u8CurrentSessionType s \<noteq> SESSION_TYPE_DEFAULT \<and>
       g_u8CurrentSessionType s' = g_u8CurrentSessionType s \<and> did_writes (uds_out s') = did_writes (uds_out s) \<and>
       (3 \<le> sa_attempt s \<longrightarrow> sa_attempt s' = sa_attempt s) \<and>
       (g_u8SecurityAccess s' = g_u8SecurityAccess s \<or>
        request_of body s ! 1 = 0x02 \<and> length body = 13 \<and> sa_flag s \<noteq> 0 \<and> sa_attempt s < 3 \<and>
        key_of (request_of body s) = saGetKey (sa_seed s) 2 \<and> g_u8SecurityAccess s' = SecurityAccess_LEVEL1)) \<or>
    (msg_sender hdr = MPU_MID_SCOM \<and> get_u32 (drop 1 body) 0 = Some 0x782 \<and> 10 \<le> length body \<and>
       request_of body s ! 0 = 0x2E \<and>
       g_u8CurrentSessionType s = SESSION_TYPE_EXTENDED \<and> g_u8SecurityAccess s = SecurityAccess_LEVEL1 \<and>
       (\<exists>w. access s' = (g_u8CurrentSessionType s, g_u8SecurityAccess s, sa_flag s, sa_attempt s, sa_seed s,
           did_writes (uds_out s) @ w)))"
proof -
  have len: "40 \<le> length (request_of body s)"
    using assms by (simp add: request_of_def message_ok_def ready_def uds_ok_def)
  from main_step_cases [OF assms] consider "access s' = access s"
    | (s3) "msg_sender hdr = MPU_MID_UDS" "msg_msgid hdr = 4"
       "s' = UDS_SetDTCOn (s\<lparr>uds_msgbuf := body @ drop (length body) (uds_msgbuf s),
              g_u8CurrentSessionType := SESSION_TYPE_DEFAULT, g_u8SecurityAccess := SecurityAccess_LEVEL0\<rparr>)"
    | (req) can_id t where "msg_sender hdr = MPU_MID_SCOM" "7 \<le> length body" "get_u32 (drop 1 body) 0 = Some can_id"
       "access t = access s" "ready t"
       "uds_server_proc env can_id (request_of body s) (length body - 7) t = Some s'"
    unfolding request_of_def by blast
  then show ?thesis
  proof cases
    case s3
    then have "access s' = access (enter_session SESSION_TYPE_DEFAULT s)"
      by (simp add: access_def enter_session_def UDS_SetDTCOn_def)
    with s3 show ?thesis by blast
  next
    case req
    note same = access_eqD [OF req(4)]
    from server_proc_cases [OF req(6,5) len] consider "access s' = access s"
      | (session) x where "session_next (g_u8CurrentSessionType s) (sub_of (request_of body s ! 1)) = Inr x"
         "access s' = access (enter_session x s)"
      | (security) "request_of body s ! 0 = 0x27" "can_id = 0x782" "g_u8CurrentSessionType s \<noteq> SESSION_TYPE_DEFAULT"
         "UDS_SRV_SecrityAcess (env_now env) (env_now' env) (env_rand env) (request_of body s) (length body - 7) t = Some s'"
      | (writing) "request_of body s ! 0 = 0x2E" "can_id = 0x782" "g_u8CurrentSessionType s = SESSION_TYPE_EXTENDED"
         "g_u8SecurityAccess s = SecurityAccess_LEVEL1"
         "UDS_SRV_WriteDataByID (env_did_set env) (request_of body s) (length body - 7) t = Some s'"
      using req(4) access_enter_session [OF req(4)] unfolding same by metis
    then show ?thesis
    proof cases
      case session
      with req(1) show ?thesis by blast
    next
      case security
      from access_security [OF security(4) len] show ?thesis
        using req security(1-3) unfolding same by auto
    next
      case writing
      show ?thesis
      proof (cases "length body - 7 < 3")
        case True
        from write_short [OF writing(5) this] req(4) show ?thesis by simp
      next
        case False
        from access_write_did [OF writing(5)] show ?thesis
          using req writing(1-4) False unfolding same by auto
      qed
    qed simp
  qed simp
qed

lemma call_access: "uds_call_step c s = Some s' \<Longrightarrow> access s' = access s"
  by (cases c) (auto simp: uds_set_client_def uds_set_client_ex_def uds_clr_client_def uds_hold_client_def
    UDS_RecoverCANTxRxDefaultStatus_def UDS_DisableCANTxRx_def dest!: access_data_request)

end
