(* ===== verification/UdsProps.thy ===== *)
theory UdsProps
  imports UdsRuns
begin

text \<open>
  The properties of the diagnostic server: that every reachable state is safe, which requests are
  let through and what they answer, who may write an identifier and who raises the security level,
  and what ends a session.
\<close>

section \<open>From the link to the server\<close>

text \<open>A request of the link's message \<open>MSG_ID_UDS_IND\<close>, and the header it comes with.\<close>

definition request_msg :: "u32 \<Rightarrow> byte list \<Rightarrow> byte list" where
  "request_msg can_id pdu = MSG_ID_UDS_IND # le32 can_id @ put_u16 (word_of_nat (length pdu)) @ pdu"

definition request_hdr :: "byte list \<Rightarrow> TCOM_MSG_HEADER" where
  "request_hdr pdu = \<lparr>msg_sender = MPU_MID_SCOM, msg_receiver = MPU_MID_UDS, msg_msgid = UDS_SCOM_MSG_IND,
     msg_msglen = word_of_nat (length pdu + 7)\<rparr>"

definition timers_started :: "byte list \<Rightarrow> uds_state \<Rightarrow> uds_state" where
  "timers_started body s = uds_set_timer Server S3SERVER 1 (uds_set_timer Server P2SERVER 1
     (s\<lparr>uds_msgbuf := body @ drop (length body) (uds_msgbuf s)\<rparr>))"

lemma get_u32_le32: "get_u32 (le32 w @ xs) 0 = Some w"
proof -
  have "ucast (ucast w :: byte) OR push_bit 8 (ucast (ucast (drop_bit 8 w) :: byte)) OR
      push_bit 16 (ucast (ucast (drop_bit 16 w) :: byte)) OR push_bit 24 (ucast (ucast (drop_bit 24 w) :: byte)) = w"
    (is "?x = w")
  proof (rule bit_word_eqI)
    fix n assume "n < LENGTH(32)"
    then show "bit ?x n = bit w n"
      by (cases "n < 8"; cases "n < 16"; cases "n < 24") (auto simp: bit_simps)
  qed
  then show ?thesis by (simp add: get_u32_def le32_def numeral_eq_Suc)
qed

lemma length_bytes:
  assumes "n < 65536"
  shows "n = unat (ucast (word_of_nat n :: u16) :: byte) + unat (ucast (drop_bit 8 (word_of_nat n :: u16)) :: byte) * 256"
proof -
  have "unat (ucast (word_of_nat n :: u16) :: byte) = n mod 256"
    using assms by (simp add: unsigned_ucast_eq unat_of_nat take_bit_eq_mod)
  moreover have "unat (ucast (drop_bit 8 (word_of_nat n :: u16)) :: byte) = n div 256"
    using assms by (simp add: unsigned_ucast_eq unat_of_nat take_bit_eq_mod drop_bit_eq_div unat_div_distrib)
  ultimately show ?thesis by simp
qed

lemma request_step:
  assumes s: "ready s" and pdu: "length pdu \<le> 2041" and id: "can_id \<in> {0x782, 0x7DF}"
  shows "uds_main_step env (request_hdr pdu) (request_msg can_id pdu) s =
    (if length pdu < 256
     then uds_server_proc env can_id (pdu @ drop (length pdu + 7) (uds_msgbuf s)) (length pdu)
            (timers_started (request_msg can_id pdu) s)
     else Some (s\<lparr>uds_msgbuf := request_msg can_id pdu @ drop (length pdu + 7) (uds_msgbuf s)\<rparr>))"
proof -
  let ?n = "length pdu"
  define lo hi where "lo = (ucast (word_of_nat ?n :: u16) :: byte)" and
    "hi = (ucast (drop_bit 8 (word_of_nat ?n :: u16)) :: byte)"
  define rest where "rest = drop (?n + 7) (uds_msgbuf s)"
  have n: "?n = unat lo + unat hi * 256" using length_bytes [of ?n] pdu by (simp add: lo_def hi_def)
  have lo: "unat lo < 256" using unsigned_less [of lo] by simp
  have "?n = unat lo + unat hi * 255 \<longleftrightarrow> unat hi = 0" using n by simp
  also have "\<dots> \<longleftrightarrow> ?n < 256" using n lo by auto
  finally have announced: "?n = unat lo + unat hi * 255 \<longleftrightarrow> ?n < 256" .
  define msg where "msg = request_msg can_id pdu"
  have msg: "length msg = ?n + 7" by (simp add: msg_def request_msg_def put_u16_def)
  define buf where "buf = msg @ rest"
  have len: "length (uds_msgbuf s) = 2048" using s by (simp add: ready_def uds_ok_def)
  have blit: "blit (uds_msgbuf s) 0 msg (length msg) = Some buf"
    using len pdu by (simp add: msg buf_def rest_def add.commute)
  have hdr: "msg_sender (request_hdr pdu) = MPU_MID_SCOM" "msg_msgid (request_hdr pdu) = UDS_SCOM_MSG_IND"
    "unat (ucast (msg_msglen (request_hdr pdu)) :: u16) = ?n + 7"
    using pdu by (simp_all add: request_hdr_def unsigned_ucast_eq unat_of_nat take_bit_nat_eq_self
        del: of_nat_add of_nat_numeral)
  have buf: "buf = MSG_ID_UDS_IND # le32 can_id @ [lo, hi] @ pdu @ rest"
    by (simp add: buf_def msg_def request_msg_def put_u16_def lo_def hi_def)
  have b: "byte_at buf 0 = Some MSG_ID_UDS_IND" "drop (Suc 0) buf = le32 can_id @ [lo, hi] @ pdu @ rest"
    "byte_at (le32 can_id @ [lo, hi] @ pdu @ rest) 4 = Some lo"
    "byte_at (le32 can_id @ [lo, hi] @ pdu @ rest) 5 = Some hi"
    "drop 6 (le32 can_id @ [lo, hi] @ pdu @ rest) = pdu @ rest"
    by (simp_all add: buf nth_append)
  note b = b [simplified]
  define s0 where "s0 = s\<lparr>uds_msgbuf := buf\<rparr>"
  have srv: "can_id = u_can_id_fun (uds_server s0) \<or> can_id = u_can_id_phy (uds_server s0)"
    using s id by (auto simp: s0_def ready_def uds_ok_def uds_wf_def)
  have "uds_main_step env (request_hdr pdu) msg s = uds_proxy env buf (?n + 7) s0"
    using hdr by (simp add: uds_main_step_def Let_def blit s0_def)
  also have "\<dots> = (if ?n < 256 then uds_server_proc env can_id (pdu @ rest) ?n
      (uds_set_timer Server S3SERVER 1 (uds_set_timer Server P2SERVER 1 s0)) else Some s0)"
    using announced srv
    by (simp add: uds_proxy_def Let_def b get_u32_le32 msg_id_defs) 
  finally show ?thesis
    by (simp add: timers_started_def s0_def buf_def msg rest_def flip: msg_def)
qed

lemma ready_timers_started:
  assumes "ready s" "length body \<le> 2048"
  shows "ready (timers_started body s)"
proof -
  have "ready (s\<lparr>uds_msgbuf := body @ drop (length body) (uds_msgbuf s)\<rparr>)"
    using assms by (simp add: ready_def uds_ok_def uds_wf_def diag_wf_def access_ok_def)
  then show ?thesis by (simp add: timers_started_def ready_set_timer)
qed

lemma timers_started_fields [simp]:
  "access (timers_started body s) = access s"
  "g_u8CurrentSessionType (timers_started body s) = g_u8CurrentSessionType s"
  "g_u8SecurityAccess (timers_started body s) = g_u8SecurityAccess s"
  "sa_flag (timers_started body s) = sa_flag s" "sa_attempt (timers_started body s) = sa_attempt s"
  "sa_seed (timers_started body s) = sa_seed s" "sa_counter (timers_started body s) = sa_counter s"
  "SecrityAccessFailCounter (timers_started body s) = SecrityAccessFailCounter s"
  "rbi_buf (timers_started body s) = rbi_buf s" "DTCSwitch (timers_started body s) = DTCSwitch s"
  by (simp_all add: timers_started_def) (simp_all add: uds_set_timer_server)

text \<open>The memory a request of the link leaves for the handlers.\<close>

lemma request_buffer:
  assumes "ready s" "length pdu \<le> 2001"
  shows "buffer_ok (pdu @ drop (length pdu + 7) (uds_msgbuf s)) (length pdu)"
  using assms by (simp add: buffer_ok_def ready_def uds_ok_def)

section \<open>Unlocking and writing\<close>

lemma seed_spec:
  assumes ok: "uds_ok s" and supp: "g_u8suppressFlag s = 0"
    and locked: "g_u8SecurityAccess s = SecurityAccess_LEVEL0" "sa_flag s = 0" "SecrityAccessFailCounter s < 3"
    and now: "900 \<le> now"
    and p: "buffer_ok p 2" "p ! 0 = 0x27" "p ! 1 = 0x01"
    and seed: "seed = rand (ucast (now' div 1000) + ucast (sa_counter s))"
  shows "\<exists>s'. UDS_SRV_SecrityAcess now now' rand p 2 s = Some s' \<and>
    reply [[0x67, 0x01, ucast (drop_bit 24 seed), ucast (drop_bit 16 seed), ucast (drop_bit 8 seed), ucast seed]]
      (s\<lparr>sa_current_time := ucast (now' div 1000), sa_counter := sa_counter s + 1, sa_seed := seed, sa_flag := 1\<rparr>) s'"
proof -
  define t where "t = s\<lparr>sa_current_time := ucast (now' div 1000), sa_counter := sa_counter s + 1,
    sa_seed := seed, sa_flag := 1\<rparr>"
  have wft: "uds_wf t" "g_u8suppressFlag t = 0" using ok supp by (simp_all add: t_def uds_ok_def uds_wf_def)
  have sub: "sub_of 1 = 1" "unless_suppressed 1 x = [x]" for x
    by (simp_all add: sub_of_def unless_suppressed_def uds_const_defs)
  have "UDS_SRV_SecrityAcess now now' rand p 2 s =
    respond 10 [0x67, 0x01, ucast (drop_bit 24 seed), ucast (drop_bit 16 seed), ucast (drop_bit 8 seed), ucast seed]
      (set_suppress 1 t)"
    using locked now p by (simp add: access_times [OF _ _ _ p(2,3)] buffer_ok_def sub not_le
        sa_request_seed_def seed t_def Let_def uds_const_defs)
  with respond_answers [OF wft, of "[0x67, 0x01, ucast (drop_bit 24 seed), ucast (drop_bit 16 seed),
      ucast (drop_bit 8 seed), ucast seed]" 10 1] show ?thesis
    by (simp add: sub uds_const_defs flip: t_def)
qed

lemma key_spec:
  assumes ok: "uds_ok s" and supp: "g_u8suppressFlag s = 0"
    and asked: "sa_flag s \<noteq> 0" "sa_attempt s < 3" "SecrityAccessFailCounter s < 3"
    and now: "900 \<le> now"
    and q: "buffer_ok q 6" "q ! 0 = 0x27" "q ! 1 = 0x02" "key_of q = saGetKey (sa_seed s) 2"
  shows "\<exists>s'. UDS_SRV_SecrityAcess now now' rand q 6 s = Some s' \<and>
    reply [[0x67, 0x02]]
      (s\<lparr>sa_current_time := ucast (now' div 1000), sa_flag := 0, g_u8SecurityAccess := SecurityAccess_LEVEL1,
          SecrityAccessFailCounter := 0\<rparr>) s'"
proof -
  let ?t = "s\<lparr>sa_current_time := ucast (now' div 1000)\<rparr>"
  define u where "u = ?t\<lparr>sa_flag := 0, g_u8SecurityAccess := SecurityAccess_LEVEL1, SecrityAccessFailCounter := 0\<rparr>"
  have wfu: "uds_wf u" "g_u8suppressFlag u = 0" using ok supp by (simp_all add: u_def uds_ok_def uds_wf_def)
  have q40: "40 \<le> length q" using q(1) by (simp add: buffer_ok_def)
  have sub: "sub_of 2 = 2" "unless_suppressed 2 x = [x]" for x
    by (simp_all add: sub_of_def unless_suppressed_def uds_const_defs)
  have "UDS_SRV_SecrityAcess now now' rand q 6 s =
    sa_check_key 2 0x02 SecurityAccess_LEVEL1 q 0x27 0x02 6 ?t"
    using asked(3) now q40 by (simp add: access_times [OF _ _ _ q(2,3)] sub not_le)
  also have "\<dots> = respond 10 [0x27 + POS_RESPOND_SID_MASK, 0x02] (set_suppress 2 u)"
    using sa_check_key_cases(4) [OF q40, where dlc = 6 and s = ?t and mode = 2 and unlock = 2
        and level = SecurityAccess_LEVEL1 and ?p0.0 = "0x27" and ?p1.0 = "2"] asked q(4)
    by (simp add: u_def not_le)
  also have "\<dots> = respond 10 [0x67, 0x02] (set_suppress 2 u)" by (simp add: uds_const_defs)
  finally show ?thesis
    using respond_answers [OF wfu, of "[0x67, 0x02]" 10 2] by (simp add: sub uds_const_defs u_def)
qed

lemma wrong_key_spec:
  assumes ok: "uds_ok s"
    and asked: "sa_flag s \<noteq> 0" "sa_attempt s < 3" "SecrityAccessFailCounter s < 3"
    and now: "900 \<le> now"
    and q: "buffer_ok q 6" "q ! 0 = 0x27" "q ! 1 = 0x02" "key_of q \<noteq> saGetKey (sa_seed s) 2"
  shows "\<exists>s1 s'. UDS_SRV_SecrityAcess now now' rand q 6 s = Some s' \<and>
    reply [[SID_NegativeResponse, 0x27, NRC_InvalidKey]] (s\<lparr>sa_current_time := ucast (now' div 1000)\<rparr>) s1 \<and>
    s' = sa_fail s1\<lparr>sa_attempt := sa_attempt s + 1\<rparr>"
proof -
  let ?t = "s\<lparr>sa_current_time := ucast (now' div 1000)\<rparr>"
  have q40: "40 \<le> length q" using q(1) by (simp add: buffer_ok_def)
  have sub: "sub_of 2 = 2" by (simp add: sub_of_def uds_const_defs)
  have "uds_wf ?t" using ok by (simp add: uds_ok_def uds_wf_def)
  from neg_reply [OF this] obtain s1 where s1: "neg 0x27 NRC_InvalidKey ?t = Some s1"
    "reply [[SID_NegativeResponse, 0x27, NRC_InvalidKey]] ?t s1" by blast
  have "UDS_SRV_SecrityAcess now now' rand q 6 s =
    sa_check_key 2 0x02 SecurityAccess_LEVEL1 q 0x27 0x02 6 ?t"
    using asked(3) now q40 by (simp add: access_times [OF _ _ _ q(2,3)] sub not_le)
  also have "\<dots> = Some (sa_fail s1\<lparr>sa_attempt := sa_attempt (sa_fail s1) + 1\<rparr>)"
    using sa_check_key_cases(5) [OF q40, where dlc = 6 and s = ?t and mode = 2 and unlock = 2
        and level = SecurityAccess_LEVEL1 and ?p0.0 = "0x27" and ?p1.0 = "2"] asked q(4) s1(1)
    by (simp add: not_le)
  also have "sa_attempt (sa_fail s1) = sa_attempt s"
    using reply_fields(8) [OF s1(2)] by (simp add: sa_fail_def Let_def)
  finally show ?thesis using s1(2) by blast
qed

text \<open>A request of the link that the gates let through.\<close>

lemma link_request:
  assumes "ready s" "length pdu < 256" "pdu \<noteq> []" "can_id \<in> {0x782, 0x7DF}"
  shows "uds_main_step env (request_hdr pdu) (request_msg can_id pdu) s =
    (let t = timers_started (request_msg can_id pdu) s; p = pdu @ drop (length pdu + 7) (uds_msgbuf s)
     in case service_refusal (pdu ! 0) (can_id = 0x782) (g_u8CurrentSessionType s) (g_u8SecurityAccess s) of
          Some nrc \<Rightarrow> neg (pdu ! 0) nrc t
        | None \<Rightarrow> uds_appl env (uds_index_mask ! uds_get_table_index (pdu ! 0)) p (length pdu) t)"
proof -
  let ?t = "timers_started (request_msg can_id pdu) s"
  let ?p = "pdu @ drop (length pdu + 7) (uds_msgbuf s)"
  have "ready ?t"
    using assms by (intro ready_timers_started) (simp_all add: request_msg_def put_u16_def)
  then have acc: "access_ok ?t" "u_can_id_phy (uds_server ?t) = 0x782"
    by (simp_all add: ready_def uds_ok_def uds_wf_def)
  have p: "?p \<noteq> []" "?p ! 0 = pdu ! 0" using assms(3) by (simp_all add: nth_append)
  show ?thesis
    using request_step [OF assms(1) _ assms(4), of pdu env] assms(2)
    unfolding server_proc_gate [OF acc(1) p(1)] acc(2) p(2) Let_def by simp
qed

lemma security_request:
  assumes "ready s" "g_u8CurrentSessionType s \<noteq> SESSION_TYPE_DEFAULT" "length pdu < 256" "pdu \<noteq> []" "pdu ! 0 = 0x27"
  shows "uds_main_step env (request_hdr pdu) (request_msg 0x782 pdu) s =
    UDS_SRV_SecrityAcess (env_now env) (env_now' env) (env_rand env)
      (pdu @ drop (length pdu + 7) (uds_msgbuf s)) (length pdu) (timers_started (request_msg 0x782 pdu) s)"
proof -
  have none: "service_refusal 0x27 True (g_u8CurrentSessionType s) level = None" for level
    using assms(2) by (auto simp: service_refusal_def known_sids_def uds_const_defs)
  have i: "uds_index_mask ! uds_get_table_index 0x27 = 6" by (simp only: index_sid)
  have appl: "uds_appl env 6 p n t = UDS_SRV_SecrityAcess (env_now env) (env_now' env) (env_rand env) p n t" for p n t
    by simp
  show ?thesis
    using link_request [OF assms(1,3,4), of "0x782" env] unfolding assms(5) i appl by (simp add: none)
qed

lemma asks_seed:
  assumes ready: "ready s" and session: "g_u8CurrentSessionType s \<noteq> SESSION_TYPE_DEFAULT"
    and locked: "g_u8SecurityAccess s = SecurityAccess_LEVEL0" "sa_flag s = 0" "SecrityAccessFailCounter s < 3"
    and now: "900 \<le> env_now env"
    and seed: "seed = env_rand env (ucast (env_now' env div 1000) + ucast (sa_counter s))"
  shows "\<exists>s1. uds_main_step env (request_hdr [0x27, 0x01]) (request_msg 0x782 [0x27, 0x01]) s = Some s1 \<and> ready s1 \<and>
    (\<exists>t. access t = access s \<and>
       reply [[0x67, 0x01, ucast (drop_bit 24 seed), ucast (drop_bit 16 seed), ucast (drop_bit 8 seed), ucast seed]]
         (t\<lparr>sa_seed := seed, sa_flag := 1\<rparr>) s1) \<and>
    g_u8CurrentSessionType s1 = g_u8CurrentSessionType s \<and> g_u8SecurityAccess s1 = SecurityAccess_LEVEL0 \<and>
    sa_flag s1 = 1 \<and> sa_seed s1 = seed \<and> sa_attempt s1 = sa_attempt s \<and>
    SecrityAccessFailCounter s1 = SecrityAccessFailCounter s"
proof -
  let ?p = "[0x27, 0x01] @ drop (length [0x27, 0x01 :: byte] + 7) (uds_msgbuf s)"
  let ?t = "timers_started (request_msg 0x782 [0x27, 0x01]) s"
  have t: "ready ?t" by (rule ready_timers_started [OF ready]) (simp add: request_msg_def put_u16_def)
  have "buffer_ok ?p 2" using request_buffer [OF ready, of "[0x27, 0x01]"] by (simp add: numeral_2_eq_2)
  then have "\<exists>s1. UDS_SRV_SecrityAcess (env_now env) (env_now' env) (env_rand env) ?p 2 ?t = Some s1 \<and>
    reply [[0x67, 0x01, ucast (drop_bit 24 seed), ucast (drop_bit 16 seed), ucast (drop_bit 8 seed), ucast seed]]
      (?t\<lparr>sa_current_time := ucast (env_now' env div 1000), sa_counter := sa_counter ?t + 1, sa_seed := seed, sa_flag := 1\<rparr>) s1"
    using t locked now seed by (intro seed_spec) (simp_all add: ready_def)
  then obtain s1 where s1: "UDS_SRV_SecrityAcess (env_now env) (env_now' env) (env_rand env) ?p 2 ?t = Some s1"
    and r1: "reply [[0x67, 0x01, ucast (drop_bit 24 seed), ucast (drop_bit 16 seed), ucast (drop_bit 8 seed), ucast seed]]
      (?t\<lparr>sa_current_time := ucast (env_now' env div 1000), sa_counter := sa_counter ?t + 1, sa_seed := seed, sa_flag := 1\<rparr>) s1"
    by blast
  have "ready s1" using reply_ok [OF r1] t by (simp add: ready_def)
  moreover have "uds_main_step env (request_hdr [0x27, 0x01]) (request_msg 0x782 [0x27, 0x01]) s = Some s1"
    using security_request [OF ready session, of "[0x27, 0x01]" env] s1 by (simp add: numeral_2_eq_2)
  moreover have "\<exists>t. access t = access s \<and>
      reply [[0x67, 0x01, ucast (drop_bit 24 seed), ucast (drop_bit 16 seed), ucast (drop_bit 8 seed), ucast seed]]
        (t\<lparr>sa_seed := seed, sa_flag := 1\<rparr>) s1"
    by (rule exI [of _ "?t\<lparr>sa_current_time := ucast (env_now' env div 1000), sa_counter := sa_counter ?t + 1\<rparr>"])
      (use r1 in simp)
  ultimately show ?thesis
    using locked(1) reply_fields [OF r1, simplified] by (intro exI [of _ s1]) simp
qed

lemma gives_key:
  assumes ready: "ready s" and session: "g_u8CurrentSessionType s \<noteq> SESSION_TYPE_DEFAULT"
    and asked: "sa_flag s \<noteq> 0" "sa_attempt s < 3" "SecrityAccessFailCounter s < 3" and now: "900 \<le> env_now env"
    and q: "q = [0x27, 0x02, k0, k1, k2, k3]" "key_of q = saGetKey (sa_seed s) 2"
  shows "\<exists>s'. uds_main_step env (request_hdr q) (request_msg 0x782 q) s = Some s' \<and> ready s' \<and>
    g_u8SecurityAccess s' = SecurityAccess_LEVEL1 \<and> g_u8CurrentSessionType s' = g_u8CurrentSessionType s"
proof -
  let ?q = "q @ drop (length q + 7) (uds_msgbuf s)"
  let ?u = "timers_started (request_msg 0x782 q) s"
  have u: "ready ?u" by (rule ready_timers_started [OF ready]) (simp add: q request_msg_def put_u16_def)
  have bq: "buffer_ok ?q 6" "?q ! 0 = 0x27" "?q ! 1 = 0x02" "key_of ?q = key_of q"
    using request_buffer [OF ready, of q] by (simp_all add: q(1) key_of_def numeral_eq_Suc)
  then have "\<exists>s'. UDS_SRV_SecrityAcess (env_now env) (env_now' env) (env_rand env) ?q 6 ?u = Some s' \<and>
    reply [[0x67, 0x02]] (?u\<lparr>sa_current_time := ucast (env_now' env div 1000), sa_flag := 0,
      g_u8SecurityAccess := SecurityAccess_LEVEL1, SecrityAccessFailCounter := 0\<rparr>) s'"
    using u asked now q(2) by (intro key_spec) (simp_all add: ready_def)
  then obtain s' where s': "UDS_SRV_SecrityAcess (env_now env) (env_now' env) (env_rand env) ?q 6 ?u = Some s'"
    and r: "reply [[0x67, 0x02]] (?u\<lparr>sa_current_time := ucast (env_now' env div 1000), sa_flag := 0,
      g_u8SecurityAccess := SecurityAccess_LEVEL1, SecrityAccessFailCounter := 0\<rparr>) s'"
    by blast
  have "runs (Some s')"
    using security_access_runs [of ?u ?q 6 "env_now env" "env_now' env" "env_rand env"] u bq session s'
    by (simp add: ready_def)
  moreover have "uds_main_step env (request_hdr q) (request_msg 0x782 q) s = Some s'"
    using security_request [OF ready session, of q env] s' by (simp add: q(1) numeral_eq_Suc)
  ultimately show ?thesis
    using reply_fields(1,2) [OF r, simplified] by (simp add: runs_ready)
qed

lemma unlocks:
  assumes "ready s" and session: "g_u8CurrentSessionType s \<noteq> SESSION_TYPE_DEFAULT"
    and locked: "g_u8SecurityAccess s = SecurityAccess_LEVEL0" "sa_flag s = 0" "sa_attempt s < 3"
      "SecrityAccessFailCounter s < 3"
    and now: "900 \<le> env_now e1" "900 \<le> env_now e2"
    and seed: "seed = env_rand e1 (ucast (env_now' e1 div 1000) + ucast (sa_counter s))"
    and q: "q = [0x27, 0x02, k0, k1, k2, k3]" "key_of q = saGetKey seed 2"
  shows "\<exists>s1 s2. uds_main_step e1 (request_hdr [0x27, 0x01]) (request_msg 0x782 [0x27, 0x01]) s = Some s1 \<and>
    (\<exists>t. access t = access s \<and>
       reply [[0x67, 0x01, ucast (drop_bit 24 seed), ucast (drop_bit 16 seed), ucast (drop_bit 8 seed), ucast seed]]
         (t\<lparr>sa_seed := seed, sa_flag := 1\<rparr>) s1) \<and>
    uds_main_step e2 (request_hdr q) (request_msg 0x782 q) s1 = Some s2 \<and> ready s1 \<and> ready s2 \<and>
    g_u8SecurityAccess s2 = SecurityAccess_LEVEL1 \<and> g_u8CurrentSessionType s2 = g_u8CurrentSessionType s"
proof -
  from asks_seed [OF assms(1) session locked(1,2,4) now(1) seed] obtain s1 where
    s1: "uds_main_step e1 (request_hdr [0x27, 0x01]) (request_msg 0x782 [0x27, 0x01]) s = Some s1" "ready s1"
      "\<exists>t. access t = access s \<and>
       reply [[0x67, 0x01, ucast (drop_bit 24 seed), ucast (drop_bit 16 seed), ucast (drop_bit 8 seed), ucast seed]]
         (t\<lparr>sa_seed := seed, sa_flag := 1\<rparr>) s1"
      "g_u8CurrentSessionType s1 = g_u8CurrentSessionType s" "sa_flag s1 = 1" "sa_seed s1 = seed"
      "sa_attempt s1 = sa_attempt s" "SecrityAccessFailCounter s1 = SecrityAccessFailCounter s"
    by blast
  with gives_key [OF s1(2), of e2 q k0 k1 k2 k3] assms show ?thesis by auto
qed

lemma wrong_key:
  assumes ready: "ready s" and session: "g_u8CurrentSessionType s \<noteq> SESSION_TYPE_DEFAULT"
    and asked: "sa_flag s \<noteq> 0" "sa_attempt s < 3" "SecrityAccessFailCounter s < 3" and now: "900 \<le> env_now env"
    and q: "q = [0x27, 0x02, k0, k1, k2, k3]" "key_of q \<noteq> saGetKey (sa_seed s) 2"
  shows "\<exists>s'. uds_main_step env (request_hdr q) (request_msg 0x782 q) s = Some s' \<and> ready s' \<and>
    g_u8CurrentSessionType s' = g_u8CurrentSessionType s \<and> g_u8SecurityAccess s' = g_u8SecurityAccess s \<and>
    sa_flag s' = sa_flag s \<and> sa_seed s' = sa_seed s \<and> sa_attempt s' = sa_attempt s + 1 \<and>
    SecrityAccessFailCounter s' = SecrityAccessFailCounter s + 1"
proof -
  let ?q = "q @ drop (length q + 7) (uds_msgbuf s)"
  let ?u = "timers_started (request_msg 0x782 q) s"
  have u: "ready ?u" by (rule ready_timers_started [OF ready]) (simp add: q request_msg_def put_u16_def)
  have bq: "buffer_ok ?q 6" "?q ! 0 = 0x27" "?q ! 1 = 0x02" "key_of ?q = key_of q"
    using request_buffer [OF ready, of q] by (simp_all add: q(1) key_of_def numeral_eq_Suc)
  have "\<exists>s1 s'. UDS_SRV_SecrityAcess (env_now env) (env_now' env) (env_rand env) ?q 6 ?u = Some s' \<and>
    reply [[SID_NegativeResponse, 0x27, NRC_InvalidKey]] (?u\<lparr>sa_current_time := ucast (env_now' env div 1000)\<rparr>) s1 \<and>
    s' = sa_fail s1\<lparr>sa_attempt := sa_attempt ?u + 1\<rparr>"
    using u bq asked now q(2) by (intro wrong_key_spec) (simp_all add: ready_def)
  then obtain s1 s' where s': "UDS_SRV_SecrityAcess (env_now env) (env_now' env) (env_rand env) ?q 6 ?u = Some s'"
    "reply [[SID_NegativeResponse, 0x27, NRC_InvalidKey]] (?u\<lparr>sa_current_time := ucast (env_now' env div 1000)\<rparr>) s1"
    "s' = sa_fail s1\<lparr>sa_attempt := sa_attempt s + 1\<rparr>"
    by auto
  have "runs (Some s')"
    using security_access_runs [of ?u ?q 6 "env_now env" "env_now' env" "env_rand env"] u bq session s'(1)
    by (simp add: ready_def)
  moreover have "uds_main_step env (request_hdr q) (request_msg 0x782 q) s = Some s'"
    using security_request [OF ready session, of q env] s'(1) by (simp add: q(1) numeral_eq_Suc)
  ultimately show ?thesis
    using reply_fields [OF s'(2), simplified] by (simp add: runs_ready s'(3) sa_fail_def Let_def)
qed

text \<open>Writing an identifier: the pending message, the call of the writing function, the answer.\<close>

lemma write_did_spec:
  assumes ok: "uds_ok s" and supp: "g_u8suppressFlag s = 0" and p: "buffer_ok p dlc" "p ! 0 = 0x2E" "3 \<le> dlc"
    and did: "did = push_bit 8 (ucast (p ! 1)) + ucast (p ! 2)"
    and attr: "find_did did = Some a" "did_settable a" "did_len a = dlc - 3"
    and v: "v = take (dlc - 3) (drop 3 p)"
  shows "\<exists>s1 s'. UDS_SRV_WriteDataByID did_set p dlc s = Some s' \<and>
    reply [[SID_NegativeResponse, 0x2E, NRC_RequestCorrectlyReceivedResponsePending]] s s1 \<and>
    reply [if did_set did v = 0 then [0x6E, p ! 1, p ! 2]
           else [SID_NegativeResponse, 0x2E, NRC_IncorrectMessageLengthOrInvailFormat]] (emit (DidSet did v) s1) s'"
proof -
  from neg_reply [OF uds_ok_wf [OF ok]] obtain s1 where
    s1: "neg 0x2E NRC_RequestCorrectlyReceivedResponsePending s = Some s1"
      "reply [[SID_NegativeResponse, 0x2E, NRC_RequestCorrectlyReceivedResponsePending]] s s1"
    by blast
  have ok1: "uds_wf (emit (DidSet did v) s1)" "g_u8suppressFlag (emit (DidSet did v) s1) = 0"
    using reply_ok [OF s1(2) ok] by (simp_all add: uds_ok_def uds_wf_def emit_def)
  have len: "length v = dlc - 3" "subarray p 3 (dlc - 3) = Some v"
    using p v by (auto simp: buffer_ok_def)
  have set: "uds_diag_set_did_value did_set did v s1 =
      Some (if did_set did v = 0 then 0 else NRC_IncorrectMessageLengthOrInvailFormat, emit (DidSet did v) s1)"
    using attr len convert_value_table [OF attr(1)] by (simp add: uds_diag_set_did_value_def)
  have run: "UDS_SRV_WriteDataByID did_set p dlc s =
    (if did_set did v \<noteq> 0 then neg 0x2E NRC_IncorrectMessageLengthOrInvailFormat (emit (DidSet did v) s1)
     else respond 3 [0x6E, p ! 1, p ! 2] (emit (DidSet did v) s1))"
    using p s1(1) len(2) set [unfolded did]
    by (simp add: UDS_SRV_WriteDataByID_def Let_def did uds_const_defs nrc_defs)
  show ?thesis
  proof (cases "did_set did v = 0")
    case True
    have "\<exists>s'. respond 3 [0x6E, p ! 1, p ! 2] (emit (DidSet did v) s1) = Some s' \<and>
      reply [[0x6E, p ! 1, p ! 2]] (emit (DidSet did v) s1) s'"
      by (rule respond_reply) (use ok1 in simp_all)
    then show ?thesis using True s1(2) run by auto
  next
    case False
    then show ?thesis
      using s1(2) run neg_reply [OF ok1(1), of "0x2E" NRC_IncorrectMessageLengthOrInvailFormat] by auto
  qed
qed

section \<open>Expired timers\<close>

text \<open>The message of an expired timer, as \<open>uds_timer_notify\<close> sends it to the module.\<close>

definition expiry_hdr :: "UDS_TIMER_E \<Rightarrow> TCOM_MSG_HEADER" where
  "expiry_hdr name = \<lparr>msg_sender = MPU_MID_UDS, msg_receiver = MPU_MID_UDS, msg_msgid = word_of_nat (timer_no name),
     msg_msglen = 2\<rparr>"

definition side_of :: "UDS_TIMER_E \<Rightarrow> uds_ptr" where
  "side_of name = (if name \<in> server_timers then Server else Client)"

definition current_seq :: "UDS_TIMER_E \<Rightarrow> uds_state \<Rightarrow> u16" where
  "current_seq name s = tm_seq (timer_fd (timer_of (side_of name) name s))"

lemma timer_of_timer_no [simp]: "timer_of_no (timer_no name) = name"
  by (cases name) (simp_all add: timer_of_no_def)

lemma join_u16: "ucast (ucast w :: byte) + ucast (ucast (drop_bit 8 w) :: byte) * 256 = (w :: u16)"
proof -
  have "unat w < 65536" by (rule unat_u16_less)
  then show ?thesis
    by (simp add: word_unat_eq_iff unat_word_ariths unsigned_ucast_eq unsigned_drop_bit_eq take_bit_eq_mod drop_bit_eq_div)
qed

lemma expiry_step:
  assumes "ready s"
  shows "uds_main_step env (expiry_hdr name) (put_u16 sq) s =
    uds_timeout name sq (s\<lparr>uds_msgbuf := put_u16 sq @ drop 2 (uds_msgbuf s)\<rparr>)"
proof -
  have len: "length (uds_msgbuf s) = 2048" using assms by (simp add: ready_def uds_ok_def)
  define lo hi where "lo = (ucast sq :: byte)" and "hi = (ucast (drop_bit 8 sq) :: byte)"
  define buf where "buf = lo # hi # drop 2 (uds_msgbuf s)"
  have body: "put_u16 sq = [lo, hi]" "ucast lo + ucast hi * 256 = sq"
    by (simp_all add: put_u16_def lo_def hi_def join_u16)
  have n: "word_of_nat (timer_no name) < (8 :: u32)" "unat (word_of_nat (timer_no name) :: u32) = timer_no name"
    by (cases name; simp)+
  have blit: "blit (uds_msgbuf s) 0 [lo, hi] (length [lo, hi]) = Some buf"
    using len by (simp add: buf_def numeral_2_eq_2)
  have hdr: "msg_sender (expiry_hdr name) = MPU_MID_UDS" "msg_msgid (expiry_hdr name) = word_of_nat (timer_no name)"
    by (simp_all add: expiry_hdr_def)
  have "MPU_MID_UDS \<noteq> MPU_MID_SCOM" "MPU_MID_UDS \<noteq> MPU_MID_PM" "MPU_MID_UDS \<noteq> MPU_MID_TIMER"
    by (simp_all add: mid_defs)
  then have "uds_main_step env (expiry_hdr name) [lo, hi] s = uds_timeout name sq (s\<lparr>uds_msgbuf := buf\<rparr>)"
    unfolding uds_main_step_def blit hdr Let_def by (simp add: n body buf_def)
  then show ?thesis by (simp add: body buf_def numeral_2_eq_2)
qed

lemma session_expiry:
  assumes "uds_reach s"
  shows "uds_main_step env (expiry_hdr S3SERVER) (put_u16 (current_seq S3SERVER s)) s =
    Some (s\<lparr>uds_msgbuf := put_u16 (current_seq S3SERVER s) @ drop 2 (uds_msgbuf s),
      g_u8CurrentSessionType := SESSION_TYPE_DEFAULT, g_u8SecurityAccess := SecurityAccess_LEVEL0, DTCSwitch := 1\<rparr>)"
  unfolding expiry_step [OF reach_ready [OF assms]]
  by (simp add: uds_timeout_def Let_def server_timers_def current_seq_def side_of_def timer_of_def UDS_SetDTCOn_def)

lemma set_timers_ready: "ready s \<Longrightarrow> ready (fold (uds_set_timer uds name) sws s)"
  by (induction sws arbitrary: s) (simp_all add: ready_set_timer)

lemma stale_expiry:
  assumes "uds_reach s" "sws \<noteq> []" "length sws < 65535"
    and "t = fold (uds_set_timer (side_of name) name) sws s"
  shows "uds_main_step env (expiry_hdr name) (put_u16 (current_seq name s)) t =
    Some (t\<lparr>uds_msgbuf := put_u16 (current_seq name s) @ drop 2 (uds_msgbuf t)\<rparr>)"
proof -
  have ready: "ready s" "ready t" using reach_ready [OF assms(1)] by (simp_all add: assms(4) set_timers_ready)
  have len: "length (u_timer_t (uds_get (side_of name) s)) = 8"
    using ready(1) uds_wf_timers by (auto simp: ready_def uds_ok_def side_of_def uds_wf_def)
  have "tm_seq (timer_fd (timer_of (side_of name) name t)) = (next_seq ^^ length sws) (current_seq name s)"
    unfolding assms(4) current_seq_def by (rule set_timers_seq [OF len])
  moreover have "(next_seq ^^ length sws) (current_seq name s) \<noteq> current_seq name s"
    using assms(2,3) by (intro next_seq_fresh) auto
  ultimately show ?thesis
    unfolding expiry_step [OF ready(2)]
    by (cases "name \<in> server_timers") (simp_all add: uds_timeout_def Let_def side_of_def timer_of_def)
qed

section \<open>Runs of the module\<close>

text \<open>A step that accepts a key: the request it carries and the state it finds.\<close>

definition key_accepted :: "uds_state \<Rightarrow> uds_state \<Rightarrow> bool" where
  "key_accepted s s' \<longleftrightarrow> (\<exists>env hdr body. env_ok env \<and> message_ok hdr body s \<and>
     uds_main_step env hdr body s = Some s' \<and> length body = 13 \<and> get_u32 (drop 1 body) 0 = Some 0x782 \<and>
     body ! 7 = 0x27 \<and> body ! 8 = 0x02 \<and> key_of (drop 7 body) = saGetKey (sa_seed s) 2 \<and>
     sa_flag s \<noteq> 0 \<and> sa_attempt s < 3 \<and> g_u8CurrentSessionType s \<noteq> SESSION_TYPE_DEFAULT)"

lemma enter_session_fields [simp]:
  "g_u8SecurityAccess (enter_session x s) = (if x = SESSION_TYPE_DEFAULT then SecurityAccess_LEVEL0 else g_u8SecurityAccess s)"
  "g_u8CurrentSessionType (enter_session x s) = x"
  "sa_attempt (enter_session x s) = sa_attempt s" "uds_out (enter_session x s) = uds_out s"
  by (simp_all add: enter_session_def)

lemma levels_distinct [simp]: "SecurityAccess_LEVEL0 \<noteq> SecurityAccess_LEVEL1" "SecurityAccess_LEVEL1 \<noteq> SecurityAccess_LEVEL0"
  by (simp_all add: uds_const_defs)

lemma level_raised:
  assumes "uds_step s s'" "ready s" "g_u8SecurityAccess s = SecurityAccess_LEVEL0"
    "g_u8SecurityAccess s' \<noteq> SecurityAccess_LEVEL0"
  shows "key_accepted s s'"
  using assms(1)
proof (cases rule: uds_step.cases)
  case (uds_message env hdr body)
  note req = request_of_def [of body s]
  from step_access [OF uds_message(1) assms(2) uds_message(3)] show ?thesis
  proof (elim disjE exE conjE)
    assume a: "get_u32 (drop 1 body) 0 = Some 0x782" "request_of body s ! 0 = 0x27" "request_of body s ! 1 = 0x02"
      "length body = 13" "sa_flag s \<noteq> 0" "sa_attempt s < 3" "key_of (request_of body s) = saGetKey (sa_seed s) 2"
      "g_u8CurrentSessionType s \<noteq> SESSION_TYPE_DEFAULT"
    then have "body ! 7 = 0x27" "body ! 8 = 0x02" "key_of (drop 7 body) = saGetKey (sa_seed s) 2"
      by (simp_all add: req key_of_def nth_append)
    with a uds_message show ?thesis unfolding key_accepted_def by blast
  qed (use assms(3,4) in \<open>auto simp: access_def split: if_splits\<close>)
next
  case (uds_called c)
  from access_eqD [OF call_access [OF uds_called(1)]] assms(3,4) show ?thesis by simp
qed

lemma steps_ready: "uds_step\<^sup>*\<^sup>* s t \<Longrightarrow> ready s \<Longrightarrow> ready t"
  by (induction rule: rtranclp_induct) (auto intro: step_ready)

lemma unlocked_by_key:
  assumes "uds_step\<^sup>*\<^sup>* s t" "ready s" "g_u8SecurityAccess s = SecurityAccess_LEVEL0"
    "g_u8SecurityAccess t \<noteq> SecurityAccess_LEVEL0"
  shows "\<exists>u v. uds_step\<^sup>*\<^sup>* s u \<and> key_accepted u v \<and> uds_step\<^sup>*\<^sup>* v t"
  using assms(1,4)
proof (induction rule: rtranclp_induct)
  case (step u t)
  show ?case
  proof (cases "g_u8SecurityAccess u = SecurityAccess_LEVEL0")
    case True
    with level_raised [OF step(2) steps_ready [OF step(1) assms(2)]] step show ?thesis by blast
  next
    case False
    with step show ?thesis by (meson rtranclp.rtrancl_into_rtrancl)
  qed
qed (use assms(3) in simp)

lemma locked_out_step:
  assumes "uds_step s s'" "ready s" "g_u8SecurityAccess s = SecurityAccess_LEVEL0" "3 \<le> sa_attempt s"
  shows "g_u8SecurityAccess s' = SecurityAccess_LEVEL0 \<and> sa_attempt s' = sa_attempt s \<and>
    did_writes (uds_out s') = did_writes (uds_out s)"
  using assms(1)
proof (cases rule: uds_step.cases)
  case (uds_message env hdr body)
  from step_access [OF uds_message(1) assms(2) uds_message(3)] show ?thesis
    using assms(3,4) by (elim disjE exE conjE) (auto simp: access_def split: if_splits)
next
  case (uds_called c)
  from access_eqD [OF call_access [OF uds_called(1)]] assms(3) show ?thesis by simp
qed

lemma locked_out:
  assumes "uds_step\<^sup>*\<^sup>* s t" "ready s" "g_u8SecurityAccess s = SecurityAccess_LEVEL0" "3 \<le> sa_attempt s"
  shows "g_u8SecurityAccess t = SecurityAccess_LEVEL0 \<and> sa_attempt t = sa_attempt s \<and>
    did_writes (uds_out t) = did_writes (uds_out s)"
  using assms(1)
proof (induction rule: rtranclp_induct)
  case (step u t)
  then show ?case
    using locked_out_step [OF step(2) steps_ready [OF step(1) assms(2)]] assms(4) by simp
qed (use assms in simp)

section \<open>A sample run\<close>

definition sample_uds :: "scom_tl \<Rightarrow> uds_state" where
  "sample_uds scom = snd (uds_init_outside id 0 0 0 (0, 12) (uds_statics scom 0))"

definition sample_env :: uds_env where
  "sample_env = \<lparr>env_now = 1000, env_now' = 1000, env_rand = (\<lambda>_. 0x11223344), env_polls = [(0, 1, 0)],
     env_did_get = (\<lambda>_ dst. (0, dst)), env_did_set = (\<lambda>_ _. 0), env_diag_fun = (\<lambda>_. 0),
     env_diag_available = True, env_j1939_save = 1\<rparr>"

lemma sample_env_ok: "env_ok sample_env"
  by (simp add: env_ok_def sample_env_def did_get_ok_def tukey_ends_def)

lemma sample_uds_reach: "uds_reach (sample_uds scom)"
  by (rule uds_started [of id "(0, 12)" scom 0 "fst (uds_init_outside id 0 0 0 (0, 12) (uds_statics scom 0))"])
    (simp_all add: sample_uds_def)

lemma sample_uds_ready: "ready (sample_uds scom)"
  by (rule reach_ready [OF sample_uds_reach])

lemma sample_uds_fields:
  "g_u8CurrentSessionType (sample_uds scom) = SESSION_TYPE_DEFAULT"
  "g_u8SecurityAccess (sample_uds scom) = SecurityAccess_LEVEL0"
  "sa_flag (sample_uds scom) = 0" "sa_attempt (sample_uds scom) = 0" "sa_counter (sample_uds scom) = 0"
  "SecrityAccessFailCounter (sample_uds scom) = 0" "uds_msgbuf (sample_uds scom) = replicate 2048 0"
  "DTCSwitch (sample_uds scom) = 1" "diag_counter (sample_uds scom) = replicate 17 0"
  "uds_diag_item_buf (sample_uds scom) = replicate DIAG_ITEM_BUF_LEN 0"
  by (simp_all add: sample_uds_def uds_init_outside_def uds_diag_init_def diag_layout_table Let_def
      DIAG_ITEM_BUF_LEN_def uds_proxy_init_def uds_statics_def upt_rec)

text \<open>A request through the link keeps the step within the assumptions on messages.\<close>

lemma request_message_ok:
  assumes "ready s" "pdu \<noteq> []" "length pdu < 256" "pdu ! 0 \<noteq> 0x2E"
  shows "message_ok (request_hdr pdu) (request_msg can_id pdu) s"
proof -
  have len: "length (uds_msgbuf s) = 2048" using assms(1) by (simp add: ready_def uds_ok_def)
  define pre where "pre = MSG_ID_UDS_IND # le32 can_id @ put_u16 (word_of_nat (length pdu))"
  have msg: "request_msg can_id pdu = pre @ pdu" "length pre = 7"
    by (simp_all add: request_msg_def pre_def put_u16_def)
  then have "(request_msg can_id pdu @ xs) ! 7 = pdu ! 0" for xs
    using assms(2) by (simp add: nth_append)
  moreover have "unat (msg_msglen (request_hdr pdu)) = length pdu + 7"
    using assms(3) by (simp add: request_hdr_def unat_of_nat del: of_nat_add of_nat_numeral)
  ultimately show ?thesis
    using assms(3,4) len msg by (simp add: message_ok_def proxy_ok_def)
qed

lemma session_by_link:
  assumes "ready s" "g_u8CurrentSessionType s = SESSION_TYPE_DEFAULT"
  shows "\<exists>s'. uds_main_step env (request_hdr [0x10, 0x03]) (request_msg 0x782 [0x10, 0x03]) s = Some s' \<and> ready s' \<and>
    g_u8CurrentSessionType s' = SESSION_TYPE_EXTENDED \<and> g_u8SecurityAccess s' = g_u8SecurityAccess s \<and>
    sa_flag s' = sa_flag s \<and> sa_attempt s' = sa_attempt s \<and> SecrityAccessFailCounter s' = SecrityAccessFailCounter s"
proof -
  let ?t = "timers_started (request_msg 0x782 [0x10, 0x03]) s"
  let ?p = "[0x10, 0x03] @ drop (Suc (Suc 0) + 7) (uds_msgbuf s)"
  have t: "ready ?t" by (rule ready_timers_started [OF assms(1)]) (simp add: request_msg_def put_u16_def)
  have p: "buffer_ok ?p 2" using request_buffer [OF assms(1), of "[0x10, 0x03]"] by (simp add: numeral_2_eq_2)
  have sub: "sub_of 3 = SESSION_TYPE_EXTENDED" by (simp add: sub_of_def uds_const_defs)
  from session_control_spec [of ?t ?p] t p obtain s' where
    s': "UDS_SRV_DiagSessionCtrl ?p 2 ?t = Some s'"
      "reply (unless_suppressed 3 [0x50, 3, 0x00, 0x32, 0x07, 0xD0]) (enter_session SESSION_TYPE_EXTENDED ?t) s'"
    using assms(2) by (auto simp: ready_def session_next_def sub)
  have ok: "uds_ok (enter_session SESSION_TYPE_EXTENDED ?t)"
    using t uds_ok_session [of ?t SESSION_TYPE_EXTENDED] by (simp add: ready_def enter_session_def)
  have "uds_index_mask ! uds_get_table_index 0x10 = 1"
    by (simp add: uds_get_table_index_def uds_index_mask_def)
  moreover have "service_refusal 0x10 True SESSION_TYPE_DEFAULT level = None" for level
    by (simp add: service_refusal_def known_sids_def uds_const_defs)
  ultimately have "uds_main_step env (request_hdr [0x10, 0x03]) (request_msg 0x782 [0x10, 0x03]) s = Some s'"
    using link_request [OF assms(1), of "[0x10, 0x03]" "0x782" env] s'(1) assms(2)
    by (simp add: Let_def numeral_2_eq_2)
  then show ?thesis
    using reply_ok [OF s'(2) ok] reply_fields [OF s'(2)] by (simp add: ready_def enter_session_def)
qed

lemma sample_unlocked:
  "\<exists>s t. uds_step (sample_uds scom) s \<and> uds_step\<^sup>*\<^sup>* s t \<and> ready s \<and> ready t \<and>
     g_u8CurrentSessionType s = SESSION_TYPE_EXTENDED \<and> g_u8SecurityAccess s = SecurityAccess_LEVEL0 \<and>
     sa_flag s = 0 \<and> sa_attempt s = 0 \<and> SecrityAccessFailCounter s = 0 \<and>
     g_u8CurrentSessionType t = SESSION_TYPE_EXTENDED \<and> g_u8SecurityAccess t = SecurityAccess_LEVEL1"
proof -
  let ?m = "\<lambda>pdu. request_msg 0x782 pdu"
  define k where "k = saGetKey 0x11223344 2"
  define q :: "byte list" where "q = [0x27, 0x02, ucast (drop_bit 24 k), ucast (drop_bit 16 k), ucast (drop_bit 8 k), ucast k]"
  have "k = saGetKey 0x11223344 2 \<and> key_of q = k"
    by (simp add: q_def k_def) code_simp
  then have key: "key_of q = saGetKey 0x11223344 2" by simp
  from session_by_link [OF sample_uds_ready, of scom sample_env] obtain s where
    s: "uds_main_step sample_env (request_hdr [0x10, 0x03]) (?m [0x10, 0x03]) (sample_uds scom) = Some s" "ready s"
      "g_u8CurrentSessionType s = SESSION_TYPE_EXTENDED" "g_u8SecurityAccess s = SecurityAccess_LEVEL0"
      "sa_flag s = 0" "sa_attempt s = 0" "SecrityAccessFailCounter s = 0"
    by (auto simp: sample_uds_fields)
  have "\<exists>s1 s2. uds_main_step sample_env (request_hdr [0x27, 0x01]) (?m [0x27, 0x01]) s = Some s1 \<and>
    (\<exists>t. access t = access s \<and>
       reply [[0x67, 0x01, ucast (drop_bit 24 (0x11223344 :: u32)), ucast (drop_bit 16 (0x11223344 :: u32)),
               ucast (drop_bit 8 (0x11223344 :: u32)), ucast (0x11223344 :: u32)]]
         (t\<lparr>sa_seed := 0x11223344, sa_flag := 1\<rparr>) s1) \<and>
    uds_main_step sample_env (request_hdr q) (?m q) s1 = Some s2 \<and> ready s1 \<and> ready s2 \<and>
    g_u8SecurityAccess s2 = SecurityAccess_LEVEL1 \<and> g_u8CurrentSessionType s2 = g_u8CurrentSessionType s"
    by (rule unlocks [OF s(2) _ s(4,5) _ _ _ _ _ q_def key]) (simp_all add: s sample_env_def)
  then obtain s1 s2 where
    s12: "uds_main_step sample_env (request_hdr [0x27, 0x01]) (?m [0x27, 0x01]) s = Some s1"
      "uds_main_step sample_env (request_hdr q) (?m q) s1 = Some s2" "ready s1" "ready s2"
      "g_u8SecurityAccess s2 = SecurityAccess_LEVEL1" "g_u8CurrentSessionType s2 = SESSION_TYPE_EXTENDED"
    unfolding s(3) by blast
  have "uds_step (sample_uds scom) s"
    by (rule uds_step.uds_message [OF s(1) sample_env_ok]) (rule request_message_ok [OF sample_uds_ready], simp_all)
  moreover have "uds_step s s1"
    by (rule uds_step.uds_message [OF s12(1) sample_env_ok]) (rule request_message_ok [OF s(2)], simp_all)
  moreover have "uds_step s1 s2"
    by (rule uds_step.uds_message [OF s12(2) sample_env_ok]) (rule request_message_ok [OF s12(3)], simp_all add: q_def)
  ultimately show ?thesis using s s12 by (meson converse_rtranclp_into_rtranclp rtranclp.rtrancl_refl)
qed

section \<open>Properties\<close>

lemma reachable_safe:
  assumes "uds_reach s"
  shows "uds_ok s \<and>
    (\<forall>env hdr body. env_ok env \<and> message_ok hdr body s \<longrightarrow>
       (\<exists>s'. uds_main_step env hdr body s = Some s' \<and> uds_ok s')) \<and>
    (\<forall>c. call_ok c \<longrightarrow> (\<exists>s'. uds_call_step c s = Some s' \<and> uds_ok s'))"
proof -
  note ready = reach_ready [OF assms]
  have "\<exists>s'. uds_main_step env hdr body s = Some s' \<and> uds_ok s'" if "env_ok env" "message_ok hdr body s" for env hdr body
    using main_step_runs [OF ready that] by (auto simp: runs_def)
  moreover have "\<exists>s'. uds_call_step c s = Some s' \<and> uds_ok s'" if "call_ok c" for c
    using call_runs [OF ready, of c] that by (auto simp: runs_def call_ok_def)
  ultimately show ?thesis using ready by (simp add: ready_def)
qed

text \<open>What is asked of a write is needed: once the server is unlocked, any other write jumps to address 0.\<close>

lemma read_only_write_jumps:
  assumes "uds_reach s" "g_u8CurrentSessionType s = SESSION_TYPE_EXTENDED" "g_u8SecurityAccess s = SecurityAccess_LEVEL1"
    "pdu ! 0 = 0x2E" "3 \<le> length pdu" "length pdu < 256" "\<not> write_ok pdu (length pdu)"
  shows "uds_main_step env (request_hdr pdu) (request_msg 0x782 pdu) s = None"
proof -
  let ?t = "timers_started (request_msg 0x782 pdu) s" and ?p = "pdu @ drop (length pdu + 7) (uds_msgbuf s)"
  let ?did = "push_bit 8 (ucast (pdu ! 1)) + ucast (pdu ! 2) :: u16"
  have r: "service_refusal 0x2E True SESSION_TYPE_EXTENDED SecurityAccess_LEVEL1 = None" by code_simp
  have ne: "pdu \<noteq> []" using assms(5) by auto
  have "uds_main_step env (request_hdr pdu) (request_msg 0x782 pdu) s =
      uds_appl env (uds_index_mask ! uds_get_table_index 0x2E) ?p (length pdu) ?t"
    using link_request [where can_id = "0x782" and env = env, OF reach_ready [OF assms(1)] assms(6) ne] r assms(2-4) by (simp add: Let_def)
  moreover have "uds_index_mask ! uds_get_table_index 0x2E = 8" by (simp add: index_sid)
  moreover have "uds_appl env 8 ?p (length pdu) ?t = UDS_SRV_WriteDataByID (env_did_set env) ?p (length pdu) ?t"
    by simp
  moreover have "UDS_SRV_WriteDataByID did_set ?p (length pdu) ?t = None" for did_set
  proof -
    have b: "byte_at ?p 0 = Some (pdu ! 0)" "byte_at ?p 1 = Some (pdu ! 1)" "byte_at ?p 2 = Some (pdu ! 2)"
      using assms(5) ne by (auto simp: nth_append)
    have v: "subarray ?p 3 (length pdu - 3) = Some (drop 3 pdu)" using assms(5) by (simp add: subarray_def)
    obtain a where a: "find_did ?did = Some a" "\<not> did_settable a" "did_len a = length pdu - 3"
      using assms(7) by (auto simp: write_ok_def)
    have "uds_diag_set_did_value did_set ?did (drop 3 pdu) x = None" for x
      using a by (cases "convert_value (did_type a) (drop 3 pdu)") (simp_all add: uds_diag_set_did_value_def)
    then show ?thesis using b v assms(5) by (simp add: UDS_SRV_WriteDataByID_def Let_def bind_eq_None_conv)
  qed
  ultimately show ?thesis by simp
qed



text \<open>
  \<^bold>\<open>C28\<close>: the gates of the services are the rules written out in \<open>service_refusal\<close>. In every
  reachable state a request of up to 255 bytes that the link delivers reaches the server, which
  answers it with the first refusal that applies (unknown service, addressing, session, security
  level) and otherwise calls the service's handler once, on exactly the bytes of the request and
  with the response and session timers started.
\<close>

theorem service_gates:
  assumes "uds_reach s" "length pdu < 256" "pdu \<noteq> []" "can_id \<in> {0x782, 0x7DF}"
  shows "uds_main_step env (request_hdr pdu) (request_msg can_id pdu) s =
    (let t = timers_started (request_msg can_id pdu) s; p = pdu @ drop (length pdu + 7) (uds_msgbuf s)
     in case service_refusal (pdu ! 0) (can_id = 0x782) (g_u8CurrentSessionType s) (g_u8SecurityAccess s) of
          Some nrc \<Rightarrow> neg (pdu ! 0) nrc t
        | None \<Rightarrow> uds_appl env (uds_index_mask ! uds_get_table_index (pdu ! 0)) p (length pdu) t)"
  using reach_ready [OF assms(1)] assms(2-4) by (rule link_request)

theorem service_gates_witness:
  "uds_main_step sample_env (request_hdr [0x34, 0x00]) (request_msg 0x7DF [0x34, 0x00]) (sample_uds undefined) =
     neg 0x34 NRC_ConditionsNotCorrect (timers_started (request_msg 0x7DF [0x34, 0x00]) (sample_uds undefined))"
  using service_gates [OF sample_uds_reach, of "[0x34, 0x00]" "0x7DF", where env = sample_env]
  by (simp add: service_refusal_def known_sids_def Let_def)

lemma long_requests:
  assumes "uds_reach s" "256 \<le> length pdu" "length pdu \<le> 2041" "can_id \<in> {0x782, 0x7DF}"
  shows "uds_main_step env (request_hdr pdu) (request_msg can_id pdu) s =
    Some (s\<lparr>uds_msgbuf := request_msg can_id pdu @ drop (length pdu + 7) (uds_msgbuf s)\<rparr>)"
  using request_step [OF reach_ready [OF assms(1)] assms(3,4), of env] assms(2) by simp

text \<open>
  : a request of 256 bytes or more is dropped. The proxy computes the announced length as
  \<open>msg[4] + msg[5] * 0xff\<close>, with 0xff for 0x100, so a correctly announced longer request never
  matches: nothing is answered, no timer is started, only the receive buffer changes.
\<close>

theorem long_requests_dropped:
  assumes "uds_reach s" "256 \<le> length pdu" "length pdu \<le> 2041" "can_id \<in> {0x782, 0x7DF}"
  shows "uds_main_step env (request_hdr pdu) (request_msg can_id pdu) s =
    Some (s\<lparr>uds_msgbuf := request_msg can_id pdu @ drop (length pdu + 7) (uds_msgbuf s)\<rparr>)"
  using assms by (rule long_requests)

theorem long_requests_dropped_witness:
  "uds_main_step sample_env (request_hdr (0x36 # replicate 256 0)) (request_msg 0x782 (0x36 # replicate 256 0))
     (sample_uds undefined) =
   Some ((sample_uds undefined)\<lparr>uds_msgbuf := request_msg 0x782 (0x36 # replicate 256 0) @
     drop 264 (uds_msgbuf (sample_uds undefined))\<rparr>)"
  using long_requests_dropped [OF sample_uds_reach, of "0x36 # replicate 256 0" "0x782", where env = sample_env] by simp

lemma did_write_unlocked:
  assumes "uds_reach s" "message_ok hdr body s" "uds_main_step env hdr body s = Some s'"
  shows "did_writes (uds_out s') = did_writes (uds_out s) \<or>
    g_u8CurrentSessionType s = SESSION_TYPE_EXTENDED \<and> g_u8SecurityAccess s = SecurityAccess_LEVEL1 \<and>
    msg_sender hdr = MPU_MID_SCOM \<and> get_u32 (drop 1 body) 0 = Some 0x782 \<and> 10 \<le> length body \<and> body ! 7 = 0x2E"
  using step_access [OF assms(3) reach_ready [OF assms(1)] assms(2)]
proof (elim disjE exE conjE)
  assume "get_u32 (drop 1 body) 0 = Some 0x782" "10 \<le> length body" "request_of body s ! 0 = 0x2E"
    "g_u8CurrentSessionType s = SESSION_TYPE_EXTENDED" "g_u8SecurityAccess s = SecurityAccess_LEVEL1"
    "msg_sender hdr = MPU_MID_SCOM"
  then show ?thesis by (simp add: request_of_def nth_append)
qed (simp_all add: access_def)

text \<open>
  \<^bold>\<open>C30\<close>: an identifier is written only by an unlocked tester. Whatever message a reachable state
  processes, either no identifier's writing function is called, or the session is the extended one,
  the security level is 1, and the message is a write request sent to the physical address.
\<close>

theorem did_write_needs_unlock:
  assumes "uds_reach s" "message_ok hdr body s" "uds_main_step env hdr body s = Some s'"
  shows "did_writes (uds_out s') = did_writes (uds_out s) \<or>
    g_u8CurrentSessionType s = SESSION_TYPE_EXTENDED \<and> g_u8SecurityAccess s = SecurityAccess_LEVEL1 \<and>
    msg_sender hdr = MPU_MID_SCOM \<and> get_u32 (drop 1 body) 0 = Some 0x782 \<and> 10 \<le> length body \<and> body ! 7 = 0x2E"
  using assms by (rule did_write_unlocked)

lemma write_request_ok:
  assumes "ready s" "pdu = [0x2E, 0xF1, 0x90] @ vin" "length vin = 17"
  shows "message_ok (request_hdr pdu) (request_msg can_id pdu) s"
proof -
  have len: "length (uds_msgbuf s) = 2048" using assms(1) by (simp add: ready_def uds_ok_def)
  define pre where "pre = MSG_ID_UDS_IND # le32 can_id @ put_u16 (word_of_nat (length pdu))"
  have msg: "request_msg can_id pdu = pre @ pdu" "length pre = 7"
    by (simp_all add: request_msg_def pre_def put_u16_def)
  have "find_did 0xF190 = Some a \<Longrightarrow> did_settable a" for a
    by (auto simp: find_did_def diag_did_table_def did_attr_def)
  then have "write_ok (pdu @ xs) 20" for xs
    by (simp add: write_ok_def assms(2))
  moreover have "unat (msg_msglen (request_hdr pdu)) = length pdu + 7"
    using assms(2,3) by (simp add: request_hdr_def unat_of_nat del: of_nat_add of_nat_numeral)
  ultimately show ?thesis
    using len msg assms(2,3) by (simp add: message_ok_def proxy_ok_def)
qed

text \<open>In the default session a write of the vehicle number calls nothing.\<close>

theorem did_write_needs_unlock_witness:
  "\<exists>s'. uds_main_step sample_env (request_hdr ([0x2E, 0xF1, 0x90] @ replicate 17 0x41))
       (request_msg 0x782 ([0x2E, 0xF1, 0x90] @ replicate 17 0x41)) (sample_uds undefined) = Some s' \<and>
     did_writes (uds_out s') = did_writes (uds_out (sample_uds undefined))"
proof -
  have m: "message_ok (request_hdr ([0x2E, 0xF1, 0x90] @ replicate 17 0x41))
      (request_msg 0x782 ([0x2E, 0xF1, 0x90] @ replicate 17 0x41)) (sample_uds undefined)"
    by (rule write_request_ok [OF sample_uds_ready refl]) simp
  from main_step_runs [OF sample_uds_ready sample_env_ok this] obtain s' where
    s': "uds_main_step sample_env (request_hdr ([0x2E, 0xF1, 0x90] @ replicate 17 0x41))
       (request_msg 0x782 ([0x2E, 0xF1, 0x90] @ replicate 17 0x41)) (sample_uds undefined) = Some s'"
    by (auto simp: runs_def)
  with did_write_needs_unlock [OF sample_uds_reach m s'] show ?thesis
    by (auto simp: sample_uds_fields)
qed

text \<open>
  : the security level is raised only by the right key. On every run from a reachable state of
  level 0 to a state of another level there is a step that processes a key request of exactly six
  bytes, sent to the physical address outside the default session, after a seed was requested, with
  fewer than three failures before it, whose key is the one computed from the seed sent.
\<close>

theorem unlock_needs_key:
  assumes "uds_reach s" "uds_step\<^sup>*\<^sup>* s t" "g_u8SecurityAccess s = SecurityAccess_LEVEL0"
    "g_u8SecurityAccess t \<noteq> SecurityAccess_LEVEL0"
  shows "\<exists>u v. uds_step\<^sup>*\<^sup>* s u \<and> key_accepted u v \<and> uds_step\<^sup>*\<^sup>* v t"
  using assms(2) reach_ready [OF assms(1)] assms(3,4) by (rule unlocked_by_key)

theorem unlock_needs_key_witness: "\<exists>u v. uds_step\<^sup>*\<^sup>* (sample_uds undefined) u \<and> key_accepted u v"
proof -
  from sample_unlocked [of undefined] obtain s t where
    "uds_step (sample_uds undefined) s" "uds_step\<^sup>*\<^sup>* s t" "g_u8SecurityAccess t = SecurityAccess_LEVEL1"
    by blast
  then have "uds_step\<^sup>*\<^sup>* (sample_uds undefined) t" "g_u8SecurityAccess t \<noteq> SecurityAccess_LEVEL0"
    by (simp_all add: converse_rtranclp_into_rtranclp)
  with unlock_needs_key [OF sample_uds_reach, of undefined t] show ?thesis
    by (auto simp: sample_uds_fields)
qed

text \<open>
  : a tester with the right key gets in. Outside the default session, with level 0, fewer than
  three failures and the start-up delay over, the seed request is answered with the seed and the
  key request that carries the key computed from it raises the level to 1 and keeps the session.
\<close>

theorem right_key_unlocks:
  assumes "uds_reach s" and "g_u8CurrentSessionType s \<noteq> SESSION_TYPE_DEFAULT"
    and "g_u8SecurityAccess s = SecurityAccess_LEVEL0" "sa_flag s = 0" "sa_attempt s < 3"
      "SecrityAccessFailCounter s < 3"
    and "900 \<le> env_now e1" "900 \<le> env_now e2"
    and "seed = env_rand e1 (ucast (env_now' e1 div 1000) + ucast (sa_counter s))"
    and "q = [0x27, 0x02, k0, k1, k2, k3]" "key_of q = saGetKey seed 2"
  shows "\<exists>s1 s2. uds_main_step e1 (request_hdr [0x27, 0x01]) (request_msg 0x782 [0x27, 0x01]) s = Some s1 \<and>
    (\<exists>t. access t = access s \<and>
       reply [[0x67, 0x01, ucast (drop_bit 24 seed), ucast (drop_bit 16 seed), ucast (drop_bit 8 seed), ucast seed]]
         (t\<lparr>sa_seed := seed, sa_flag := 1\<rparr>) s1) \<and>
    uds_main_step e2 (request_hdr q) (request_msg 0x782 q) s1 = Some s2 \<and> ready s1 \<and> ready s2 \<and>
    g_u8SecurityAccess s2 = SecurityAccess_LEVEL1 \<and> g_u8CurrentSessionType s2 = g_u8CurrentSessionType s"
  using reach_ready [OF assms(1)] assms(2-11) by (rule unlocks)

theorem right_key_unlocks_witness:
  "\<exists>s s1 s2. uds_reach s \<and>
     uds_main_step sample_env (request_hdr [0x27, 0x01]) (request_msg 0x782 [0x27, 0x01]) s = Some s1 \<and>
     uds_main_step sample_env (request_hdr [0x27, 0x02, 0x2B, 0x97, 0xD8, 0xC0])
       (request_msg 0x782 [0x27, 0x02, 0x2B, 0x97, 0xD8, 0xC0]) s1 = Some s2 \<and>
     g_u8SecurityAccess s2 = SecurityAccess_LEVEL1"
proof -
  have key: "key_of [0x27, 0x02, 0x2B, 0x97, 0xD8, 0xC0] = saGetKey 0x11223344 2" by code_simp
  from sample_unlocked [of undefined] obtain s where s: "uds_step (sample_uds undefined) s"
    "g_u8CurrentSessionType s = SESSION_TYPE_EXTENDED" "g_u8SecurityAccess s = SecurityAccess_LEVEL0"
    "sa_flag s = 0" "sa_attempt s = 0" "SecrityAccessFailCounter s = 0"
    by blast
  have r: "uds_reach s" by (rule uds_stepped [OF sample_uds_reach s(1)])
  have "\<exists>s1 s2. uds_main_step sample_env (request_hdr [0x27, 0x01]) (request_msg 0x782 [0x27, 0x01]) s = Some s1 \<and>
    (\<exists>t. access t = access s \<and>
       reply [[0x67, 0x01, ucast (drop_bit 24 (0x11223344 :: u32)), ucast (drop_bit 16 (0x11223344 :: u32)),
               ucast (drop_bit 8 (0x11223344 :: u32)), ucast (0x11223344 :: u32)]]
         (t\<lparr>sa_seed := 0x11223344, sa_flag := 1\<rparr>) s1) \<and>
    uds_main_step sample_env (request_hdr [0x27, 0x02, 0x2B, 0x97, 0xD8, 0xC0])
      (request_msg 0x782 [0x27, 0x02, 0x2B, 0x97, 0xD8, 0xC0]) s1 = Some s2 \<and> ready s1 \<and> ready s2 \<and>
    g_u8SecurityAccess s2 = SecurityAccess_LEVEL1 \<and> g_u8CurrentSessionType s2 = g_u8CurrentSessionType s"
    by (rule right_key_unlocks [OF r _ s(3,4) _ _ _ _ _ refl key]) (simp_all add: s sample_env_def)
  with r show ?thesis by blast
qed

text \<open>
  : three wrong keys lock the tester out for good. The number of failed attempts is never
  reset, so from a reachable state of level 0 with three of them no run reaches level 1 again and
  none writes an identifier, whatever time passes and whatever keys are sent.
\<close>

theorem lockout_is_permanent:
  assumes "uds_reach s" "uds_step\<^sup>*\<^sup>* s t" "g_u8SecurityAccess s = SecurityAccess_LEVEL0" "3 \<le> sa_attempt s"
  shows "g_u8SecurityAccess t = SecurityAccess_LEVEL0 \<and> sa_attempt t = sa_attempt s \<and>
    did_writes (uds_out t) = did_writes (uds_out s)"
  using assms(2) reach_ready [OF assms(1)] assms(3,4) by (rule locked_out)

lemma sample_locked_out:
  "\<exists>t. uds_reach t \<and> g_u8SecurityAccess t = SecurityAccess_LEVEL0 \<and> sa_attempt t = 3"
proof -
  let ?q = "[0x27, 0x02, 0, 0, 0, 0] :: byte list" and ?m = "\<lambda>pdu. request_msg 0x782 pdu"
  have wrong: "key_of ?q \<noteq> saGetKey 0x11223344 2" by code_simp
  let ?S = "\<lambda>n s. uds_reach s \<and> g_u8CurrentSessionType s \<noteq> SESSION_TYPE_DEFAULT \<and>
    g_u8SecurityAccess s = SecurityAccess_LEVEL0 \<and> sa_flag s \<noteq> 0 \<and> sa_seed s = 0x11223344 \<and>
    sa_attempt s = n \<and> SecrityAccessFailCounter s = n"
  have next_try: "\<exists>t. ?S (n + 1) t" if "?S n s" "n < 3" for n s
  proof -
    have r: "ready s" using that reach_ready by blast
    from wrong_key [OF r, of sample_env ?q 0 0 0 0] that wrong obtain t where
      t: "uds_main_step sample_env (request_hdr ?q) (?m ?q) s = Some t" "g_u8CurrentSessionType t = g_u8CurrentSessionType s"
        "g_u8SecurityAccess t = g_u8SecurityAccess s" "sa_flag t = sa_flag s" "sa_seed t = sa_seed s"
        "sa_attempt t = n + 1" "SecrityAccessFailCounter t = n + 1"
      by (auto simp: sample_env_def)
    have "uds_step s t"
      by (rule uds_step.uds_message [OF t(1) sample_env_ok]) (rule request_message_ok [OF r], simp_all)
    then have "uds_reach t" using that(1) uds_stepped by blast
    with t that(1) show ?thesis by auto
  qed
  from sample_unlocked [of undefined] obtain s where s: "uds_step (sample_uds undefined) s" "ready s"
    "g_u8CurrentSessionType s = SESSION_TYPE_EXTENDED" "g_u8SecurityAccess s = SecurityAccess_LEVEL0"
    "sa_flag s = 0" "sa_attempt s = 0" "SecrityAccessFailCounter s = 0"
    by blast
  have "\<exists>t. ?S 0 t"
  proof -
    have "900 \<le> env_now sample_env" "0x11223344 = env_rand sample_env (ucast (env_now' sample_env div 1000) + ucast (sa_counter s))"
      by (simp_all add: sample_env_def)
    from asks_seed [OF s(2) _ s(4,5) _ this] s obtain t where
      t: "uds_main_step sample_env (request_hdr [0x27, 0x01]) (?m [0x27, 0x01]) s = Some t"
        "g_u8CurrentSessionType t = SESSION_TYPE_EXTENDED" "g_u8SecurityAccess t = SecurityAccess_LEVEL0"
        "sa_flag t = 1" "sa_seed t = 0x11223344" "sa_attempt t = 0" "SecrityAccessFailCounter t = 0"
      by auto
    have "uds_step s t"
      by (rule uds_step.uds_message [OF t(1) sample_env_ok]) (rule request_message_ok [OF s(2)], simp_all)
    then have "uds_reach t" using s(1) sample_uds_reach uds_stepped by blast
    with t show ?thesis by auto
  qed
  then obtain t1 where "?S 1 t1" using next_try [of _ 0] by fastforce
  then obtain t2 where "?S 2 t2" using next_try [of t1 1] by auto
  then show ?thesis using next_try [of t2 2] by auto
qed

theorem lockout_is_permanent_witness:
  "\<exists>s. uds_reach s \<and> (\<forall>t. uds_step\<^sup>*\<^sup>* s t \<longrightarrow> g_u8SecurityAccess t = SecurityAccess_LEVEL0)"
proof -
  from sample_locked_out obtain s where "uds_reach s" "g_u8SecurityAccess s = SecurityAccess_LEVEL0" "3 \<le> sa_attempt s"
    by auto
  with lockout_is_permanent [of s] show ?thesis by blast
qed

text \<open>
  : a session ends when its timer expires. In every reachable state the expiry of the running
  session timer leads to the default session with the security level 0 and the recording of trouble
  codes switched on again, and changes nothing else.
\<close>

theorem session_times_out:
  assumes "uds_reach s"
  shows "uds_main_step env (expiry_hdr S3SERVER) (put_u16 (current_seq S3SERVER s)) s =
    Some (s\<lparr>uds_msgbuf := put_u16 (current_seq S3SERVER s) @ drop 2 (uds_msgbuf s),
      g_u8CurrentSessionType := SESSION_TYPE_DEFAULT, g_u8SecurityAccess := SecurityAccess_LEVEL0, DTCSwitch := 1\<rparr>)"
  using assms by (rule session_expiry)

theorem session_times_out_witness:
  "\<exists>s s'. uds_reach s \<and> g_u8SecurityAccess s = SecurityAccess_LEVEL1 \<and>
     uds_main_step sample_env (expiry_hdr S3SERVER) (put_u16 (current_seq S3SERVER s)) s = Some s' \<and>
     g_u8SecurityAccess s' = SecurityAccess_LEVEL0"
proof -
  from sample_unlocked [of undefined] obtain s t where
    st: "uds_step (sample_uds undefined) s" "uds_step\<^sup>*\<^sup>* s t" "g_u8SecurityAccess t = SecurityAccess_LEVEL1"
    by blast
  have "uds_reach t"
    using st(2) uds_stepped [OF sample_uds_reach st(1)]
    by (induction rule: rtranclp_induct) (auto intro: uds_stepped)
  with session_times_out [OF this, of sample_env] st(3) show ?thesis by auto
qed

text \<open>
  : an expiry that was on its way when its timer was stopped or started again is ignored. For
  each of the eight timers, after any sequence of one to 65534 starts and stops the message of the
  earlier expiry changes nothing but the receive buffer, since it carries the number of the timer at
  the time; after 65535 the number is the same again.
\<close>

theorem stale_expiry_ignored:
  assumes "uds_reach s" "sws \<noteq> []" "length sws < 65535"
    and "t = fold (uds_set_timer (side_of name) name) sws s"
  shows "uds_main_step env (expiry_hdr name) (put_u16 (current_seq name s)) t =
    Some (t\<lparr>uds_msgbuf := put_u16 (current_seq name s) @ drop 2 (uds_msgbuf t)\<rparr>)"
  using assms by (rule stale_expiry)

theorem stale_expiry_ignored_witness:
  "\<exists>t s'. t = uds_set_timer Server S3SERVER 1 (sample_uds undefined) \<and>
     uds_main_step sample_env (expiry_hdr S3SERVER) (put_u16 (current_seq S3SERVER (sample_uds undefined))) t = Some s' \<and>
     g_u8CurrentSessionType s' = g_u8CurrentSessionType t"
  using stale_expiry_ignored [OF sample_uds_reach, of "[1]" _ S3SERVER undefined sample_env]
  by (simp add: side_of_def server_timers_def)

lemma downloads_refused:
  assumes "uds_reach s" "sid \<in> {0x2F, 0x34, 0x36, 0x37}"
  shows "\<exists>nrc. service_refusal sid physical (g_u8CurrentSessionType s) (g_u8SecurityAccess s) = Some nrc"
  using reach_ready [OF assms(1)] assms(2)
  by (auto simp: ready_def uds_ok_def access_ok_def service_refusal_def)

text \<open>
  : the download services are never run. The table asks level 2 for them and no state of level 2
  is reachable, so in every reachable state a request for the services 0x34, 0x36 and 0x37, and for
  the inert service 0x2F, is refused whoever sends it.
\<close>

theorem downloads_unreachable:
  assumes "uds_reach s" "sid \<in> {0x2F, 0x34, 0x36, 0x37}"
  shows "\<exists>nrc. service_refusal sid physical (g_u8CurrentSessionType s) (g_u8SecurityAccess s) = Some nrc"
  using assms by (rule downloads_refused)

theorem downloads_unreachable_witness:
  "\<exists>nrc. service_refusal 0x34 True SESSION_TYPE_DEFAULT SecurityAccess_LEVEL0 = Some nrc"
  using downloads_unreachable [OF sample_uds_reach, of "0x34" True undefined] by (simp add: sample_uds_fields)

text \<open>
  : session control is the state machine \<open>session_next\<close>. The default session is entered from
  everywhere, the programming session not from the default one, the extended session not from the
  programming one; the answer carries the timing values, unless the request suppresses it, and the
  default session resets the security level and the recording of trouble codes. A refused change
  answers with its code and changes no session.
\<close>

theorem session_control:
  assumes "uds_ok s" "g_u8suppressFlag s = 0" "buffer_ok p 2" "p ! 0 = 0x10"
  shows "\<exists>s'. UDS_SRV_DiagSessionCtrl p 2 s = Some s' \<and>
    (case session_next (g_u8CurrentSessionType s) (sub_of (p ! 1)) of
       Inl nrc \<Rightarrow> reply [[SID_NegativeResponse, 0x10, nrc]] s s'
     | Inr t \<Rightarrow> reply (unless_suppressed (p ! 1) [0x50, p ! 1, 0x00, 0x32, 0x07, 0xD0]) (enter_session t s) s')"
  using assms by (rule session_control_spec)

lemma sample_uds_ok: "uds_ok (sample_uds scom)" "g_u8suppressFlag (sample_uds scom) = 0"
  using sample_uds_ready by (simp_all add: ready_def)

text \<open>The programming session is not entered from the default one.\<close>

theorem session_control_witness:
  "\<exists>s'. UDS_SRV_DiagSessionCtrl (0x10 # 0x02 # replicate 38 0) 2 (sample_uds undefined) = Some s' \<and>
     reply [[0x7F, 0x10, 0x22]] (sample_uds undefined) s'"
proof -
  have "sub_of 2 = SESSION_TYPE_PROGRAM" by (simp add: sub_of_def uds_const_defs)
  then show ?thesis
    using session_control [OF sample_uds_ok, of "0x10 # 0x02 # replicate 38 0" undefined]
    by (simp add: buffer_ok_def session_next_def sample_uds_fields SID_NegativeResponse_def NRC_ConditionsNotCorrect_def)
qed

text \<open>
  : reading an identifier answers with its bytes. For an identifier of the table whose reading
  function succeeds the answer is the identifier and as many bytes of what was read as the table
  says; for an unknown identifier, or when reading fails, it is the refusal 0x31.
\<close>

theorem did_read:
  assumes "uds_ok s" "g_u8suppressFlag s = 0" "buffer_ok p 3" "p ! 0 = 0x22" "did_get_ok did_get"
    and "did = push_bit 8 (ucast (p ! 1)) + ucast (p ! 2)"
    and "did_get did (drop 3 (rbi_buf s)) = (ret, out)"
  shows "\<exists>s'. UDS_SRV_ReadDataByID did_get p 3 s = Some s' \<and>
    reply [case find_did did of
        Some a \<Rightarrow> if ret = 0 then [0x62, p ! 1, p ! 2] @ take (did_len a) out else [SID_NegativeResponse, 0x22, 0x31]
      | None \<Rightarrow> [SID_NegativeResponse, 0x22, 0x31]] (s\<lparr>rbi_buf := rbi_buf s'\<rparr>) s'"
  using assms by (rule read_did_spec)

theorem did_read_witness:
  "\<exists>s'. UDS_SRV_ReadDataByID (\<lambda>_ dst. (0, replicate (length dst) 0x41)) (0x22 # 0xF1 # 0x8A # replicate 37 0) 3
       (sample_uds undefined) = Some s' \<and>
     reply [[0x62, 0xF1, 0x8A, 0x41, 0x41, 0x41, 0x41, 0x41]] ((sample_uds undefined)\<lparr>rbi_buf := rbi_buf s'\<rparr>) s'"
proof -
  have rbi: "length (rbi_buf (sample_uds undefined)) = 2000" using sample_uds_ok(1) by (simp add: uds_ok_def)
  have attr: "find_did 0xF18A = Some (did_attr 0xF18A DIAG_DATA_STRING 5 False)"
    by (simp add: find_did_def diag_did_table_def did_attr_def)
  have "take 5 (replicate 1997 0x41) = [0x41, 0x41, 0x41, 0x41, 0x41 :: byte]"
    by (simp add: numeral_eq_Suc)
  then show ?thesis
    using did_read [OF sample_uds_ok, of "0x22 # 0xF1 # 0x8A # replicate 37 0" "\<lambda>_ dst. (0, replicate (length dst) 0x41)"
        "0xF18A" undefined 0 "replicate 1997 0x41"] rbi
    by (simp add: buffer_ok_def did_get_ok_def attr) (simp add: did_attr_def)
qed

text \<open>
  : writing an identifier. For a writable identifier and the length the table asks for, the
  service first sends the message that the answer is pending, then calls the writing function once
  with the bytes of the request, and answers by its result.
\<close>

theorem did_written:
  assumes "uds_ok s" "g_u8suppressFlag s = 0" "buffer_ok p dlc" "p ! 0 = 0x2E" "3 \<le> dlc"
    and "did = push_bit 8 (ucast (p ! 1)) + ucast (p ! 2)"
    and "find_did did = Some a" "did_settable a" "did_len a = dlc - 3"
    and "v = take (dlc - 3) (drop 3 p)"
  shows "\<exists>s1 s'. UDS_SRV_WriteDataByID did_set p dlc s = Some s' \<and>
    reply [[SID_NegativeResponse, 0x2E, NRC_RequestCorrectlyReceivedResponsePending]] s s1 \<and>
    reply [if did_set did v = 0 then [0x6E, p ! 1, p ! 2]
           else [SID_NegativeResponse, 0x2E, NRC_IncorrectMessageLengthOrInvailFormat]] (emit (DidSet did v) s1) s'"
  using assms by (rule write_did_spec)

theorem did_written_witness:
  "\<exists>s1 s'. UDS_SRV_WriteDataByID (\<lambda>_ _. 0) (0x2E # 0x46 # 0x0E # 0x07 # replicate 36 0) 4 (sample_uds undefined) = Some s' \<and>
     reply [[0x6E, 0x46, 0x0E]] (emit (DidSet 0x460E [0x07]) s1) s'"
proof -
  have attr: "find_did 0x460E = Some (did_attr 0x460E DIAG_DATA_UCHAR 1 True)"
    by (simp add: find_did_def diag_did_table_def did_attr_def)
  then show ?thesis
    using did_written [OF sample_uds_ok [of undefined], of "0x2E # 0x46 # 0x0E # 0x07 # replicate 36 0" 4 "0x460E"
        "did_attr 0x460E DIAG_DATA_UCHAR 1 True" "[0x07]", where did_set = "\<lambda>_ _. 0"]
    by (simp add: buffer_ok_def did_attr_def) blast
qed

text \<open>
  : the report of trouble codes by status mask lists exactly the items the mask selects. The
  answer to the subfunction 2 is its header and then, in the order of the table, the code and status
  of every item with a status bit in the mask: bit 0 while its test fails, bit 3 when it is confirmed.
\<close>

theorem dtc_report_by_mask:
  assumes "uds_ok s" "g_u8suppressFlag s = 0" "buffer_ok p 3" "p ! 0 = 0x19" "p ! 1 = 0x02"
  shows "\<exists>s'. UDS_SRV_ReadDTC p 3 s = Some s' \<and>
    reply [[0x59, 0x02, 0x09] @ concat (map (item_report s) (filter (mask_selects (p ! 2) s) [0..<17]))] s s'"
  using assms by (rule report_by_mask)

text \<open>A counter of item 15, a supply voltage test, above 0.\<close>

theorem dtc_report_by_mask_witness:
  "\<exists>s'. UDS_SRV_ReadDTC (0x19 # 0x02 # 0x01 # replicate 37 0) 3
       ((sample_uds undefined)\<lparr>diag_counter := (replicate 17 0)[15 := 1]\<rparr>) = Some s' \<and>
     reply [[0x59, 0x02, 0x09] @ item_report ((sample_uds undefined)\<lparr>diag_counter := (replicate 17 0)[15 := 1]\<rparr>) 15]
       ((sample_uds undefined)\<lparr>diag_counter := (replicate 17 0)[15 := 1]\<rparr>) s'"
proof -
  let ?s = "(sample_uds undefined)\<lparr>diag_counter := (replicate 17 0)[15 := 1]\<rparr>"
  have ok: "uds_ok ?s" "g_u8suppressFlag ?s = 0"
    using sample_uds_ok [of undefined] by (simp_all add: uds_ok_def uds_wf_def diag_wf_def access_ok_def)
  have "mask_selects 1 ?s j \<longleftrightarrow> j = 15" if "j < 17" for j
  proof -
    have "bit (1 :: byte) 0" "\<not> bit (1 :: byte) 3" by (simp_all add: bit_1_iff)
    then show ?thesis
      unfolding mask_selects_iff item_state_def using that by (simp add: nth_list_update)
  qed
  then have "filter (mask_selects 1 ?s) [0..<17] = filter (\<lambda>j. j = 15) [0..<17]"
    by (intro filter_cong) simp_all
  also have "\<dots> = [15]" by (simp add: upt_rec)
  finally show ?thesis
    using dtc_report_by_mask [OF ok, of "0x19 # 0x02 # 0x01 # replicate 37 0"]
    by (simp add: buffer_ok_def)
qed

text \<open>
  : a positive response of one or two bytes is followed by a read behind its array. The code
  records \<open>pdu_data[2]\<close> after sending: for a response in an array of at most two bytes this is a
  byte of the stack, which becomes the recorded code and can start the extended response timer.
\<close>

theorem short_response_overreads:
  assumes "uds_wf s" "g_u8suppressFlag s \<noteq> 1" "bytes \<noteq> []" "length bytes \<le> n" "n \<le> 2"
    and "hd bytes \<noteq> SID_NegativeResponse" "respond n bytes s = Some s'"
  shows "Overread \<in> set (drop (length (uds_out s)) (uds_out s')) \<and> u_nrc (uds_server s') = stack_byte s"
  using assms by (rule short_reply_overreads)

text \<open>The answer to a tester present request.\<close>

theorem short_response_overreads_witness:
  "\<exists>s'. UDS_SRV_TesterPresent (0x3E # replicate 39 0) 2 (sample_uds undefined) = Some s' \<and>
     Overread \<in> set (drop (length (uds_out (sample_uds undefined))) (uds_out s'))"
proof -
  let ?s = "sample_uds undefined"
  have wf: "uds_wf ?s" "g_u8suppressFlag ?s \<noteq> 1" using sample_uds_ok [of undefined] by (simp_all add: uds_ok_def)
  have run: "UDS_SRV_TesterPresent (0x3E # replicate 39 0) 2 ?s = respond 2 [0x7E, 0] ?s"
    by (simp add: UDS_SRV_TesterPresent_def set_suppress_def uds_const_defs sub_of_def)
  from respond_reply [OF wf(1), of "[0x7E, 0]" 2] sample_uds_ok [of undefined] obtain s' where
    s': "respond 2 [0x7E, 0] ?s = Some s'" by auto
  with short_response_overreads [OF wf _ _ _ _ s'] run show ?thesis by (simp add: SID_NegativeResponse_def)
qed

end
