(* ===== verification/PmProps.thy ===== *)
theory PmProps
  imports Pm
begin

text \<open>
  The properties of power management: when it may sleep, cut the power or restart, how it leaves
  the normal state, how it wakes.
\<close>

section \<open>Runs of the check timer\<close>

lemma tick_tbl: "pm_evt_proc e 3 s = (state_tbl (pm_state s) ! 3) e s"
  using evt_proc_no [of e PM_EVT_TIMEOUT s] by simp

fun pm_ticks :: "pm_env list \<Rightarrow> pm \<Rightarrow> pm option" where
  "pm_ticks [] s = Some s"
| "pm_ticks (e # es) s = do { s1 \<leftarrow> pm_evt_proc e 3 s; pm_ticks es s1 }"

text \<open>The same while the module stays in the normal state.\<close>

fun normal_ticks :: "pm_env list \<Rightarrow> pm \<Rightarrow> pm option" where
  "normal_ticks [] s = (if pm_state s = PM_ST_NORMAL then Some s else None)"
| "normal_ticks (e # es) s = (if pm_state s \<noteq> PM_ST_NORMAL then None
     else do { s1 \<leftarrow> pm_evt_proc e 3 s; normal_ticks es s1 })"

definition idle_run :: "pm_env list \<Rightarrow> nat" where
  "idle_run es = length (takeWhile (\<lambda>e. \<not> awake e) (rev es))"

lemma idle_run_Cons:
  "idle_run (e # es) = (if \<forall>e \<in> set es. \<not> awake e then (if awake e then length es else Suc (length es))
     else idle_run es)"
  by (auto simp: idle_run_def takeWhile_append)

lemma idle_run_all: "\<forall>e \<in> set es. \<not> awake e \<Longrightarrow> idle_run es = length es"
  by (simp add: idle_run_def takeWhile_eq_all_conv [THEN iffD2])

lemma normal_tick:
  "pm_state s = PM_ST_NORMAL \<Longrightarrow> pm_evt_proc e 3 s = pm_st_s0e3 e s"
  by (simp add: tick_tbl)

lemma s0e3_cnt:
  assumes "pm_st_s0e3 e s = Some s1" "pm_state s = PM_ST_NORMAL" "pm_state s1 = PM_ST_NORMAL"
  shows "pm_check_cnt s1 = (if awake e then 0 else pm_check_cnt s + 1)"
  using assms by (auto simp: pm_st_s0e3_def Let_def pm_acts pm_emit_def split: prod.splits if_splits)

lemma s0e3_leaves:
  assumes "pm_st_s0e3 e s = Some s1" "pm_state s = PM_ST_NORMAL"
  shows "pm_state s1 = (if \<not> awake e \<and> 9 \<le> pm_check_cnt s \<and> fst (env_pm_mode e) = 0
     then (if snd (env_pm_mode e) \<in> {3, 4, 5} then PM_ST_MCK_POWER_OFF else PM_ST_MCK_SLEEP)
     else PM_ST_NORMAL)"
  using assms by (auto simp: pm_st_s0e3_def Let_def pm_acts pm_emit_def split: prod.splits if_splits)

lemma normal_ticks_state: "normal_ticks es s = Some s1 \<Longrightarrow> pm_state s = PM_ST_NORMAL \<and> pm_state s1 = PM_ST_NORMAL"
  by (induction es arbitrary: s) (auto split: if_splits bind_splits)

lemma normal_ticks_cnt:
  "normal_ticks es s = Some s1 \<Longrightarrow>
   pm_check_cnt s1 = int (idle_run es) + (if \<forall>e \<in> set es. \<not> awake e then pm_check_cnt s else 0)"
proof (induction es arbitrary: s)
  case Nil
  then show ?case by (simp add: idle_run_def split: if_splits)
next
  case (Cons e es)
  then obtain s0 where s0: "pm_st_s0e3 e s = Some s0" "normal_ticks es s0 = Some s1" "pm_state s = PM_ST_NORMAL"
    by (auto simp: normal_tick split: if_splits bind_splits)
  then have "pm_check_cnt s0 = (if awake e then 0 else pm_check_cnt s + 1)"
    using s0e3_cnt normal_ticks_state by blast
  then show ?case
    using Cons.IH [OF s0(2)] by (auto simp: idle_run_Cons idle_run_all)
qed

lemma normal_left:
  assumes "pm_state s = PM_ST_NORMAL" "pm_check_cnt s = 0" "normal_ticks es s = Some s1"
    "pm_evt_proc e 3 s1 = Some s2"
  shows "pm_state s2 = (if \<not> awake e \<and> 9 \<le> idle_run es \<and> fst (env_pm_mode e) = 0
     then (if snd (env_pm_mode e) \<in> {3, 4, 5} then PM_ST_MCK_POWER_OFF else PM_ST_MCK_SLEEP)
     else PM_ST_NORMAL)"
proof -
  have n: "pm_state s1 = PM_ST_NORMAL" using normal_ticks_state [OF assms(3)] by simp
  have "pm_check_cnt s1 = int (idle_run es)" using normal_ticks_cnt [OF assms(3)] assms(2) by simp
  then show ?thesis
    using s0e3_leaves [of e s1 s2] assms(4) n by (simp add: normal_tick)
qed

section \<open>Restarts\<close>

lemma restart_app_tick:
  assumes "pm_ok s" "pm_state s = PM_ST_MCK_RESTART_APP"
  shows "pm_evt_proc e 3 s = Some (if all_ready e PM_MSG_OFF s \<or> 5 < s5_cnt s
     then pm_emit [KillApp] s else s\<lparr>s5_cnt := s5_cnt s + 1\<rparr>)"
  using assms by (simp add: tick_tbl pm_st_s5e3_def pm_ok_def)

lemma restart_4g_tick:
  assumes "pm_ok s" "pm_state s = PM_ST_MCK_RESTART_4G"
  shows "pm_evt_proc e 3 s = Some (if all_ready e PM_MSG_OFF s \<or> 5 < s6_cnt s
     then pm_emit [Powerdown] s else s\<lparr>s6_cnt := s6_cnt s + 1\<rparr>)"
  using assms by (simp add: tick_tbl pm_st_s6e3_def pm_ok_def)

definition emitted :: "pm \<Rightarrow> pm \<Rightarrow> pm_effect list" where
  "emitted s s' = drop (length (pm_log s)) (pm_log s')"

lemma tick_ok: "pm_ok s \<Longrightarrow> \<exists>s'. pm_evt_proc e evt s = Some s' \<and> pm_ok s' \<and> (\<exists>es. pm_log s' = pm_log s @ es)"
  using pm_evt_runs [of s e evt] by (auto simp: pm_runs_def pm_guard_def split: option.splits)

lemma ticks_ok:
  "pm_ok s \<Longrightarrow> \<exists>s'. pm_ticks es s = Some s' \<and> pm_ok s' \<and> (\<exists>fs. pm_log s' = pm_log s @ fs)"
proof (induction es arbitrary: s)
  case (Cons e es)
  then obtain s1 fs where "pm_evt_proc e 3 s = Some s1" "pm_ok s1"
    "pm_log s1 = pm_log s @ fs" using tick_ok by blast
  then show ?case using Cons.IH [of s1] by auto
qed simp

lemma ticks_emitted_Cons:
  assumes "pm_evt_proc e 3 s = Some s1" "pm_log s1 = pm_log s @ fs"
    "pm_ok s1" "pm_ticks es s1 = Some s'"
  shows "emitted s s' = fs @ emitted s1 s'"
  using assms ticks_ok [of s1 es] by (auto simp: emitted_def)

text \<open>
  A check that either does \<open>ef\<close> or counts up to six, does \<open>ef\<close> at the seventh time at the latest.
\<close>

lemma bounded_retry:
  assumes tick: "\<And>s e. pm_ok s \<Longrightarrow> P s \<Longrightarrow> pm_evt_proc e 3 s = Some (pm_emit [ef] s) \<or>
      (\<exists>s'. pm_evt_proc e 3 s = Some s' \<and> pm_ok s' \<and> P s' \<and> pm_log s' = pm_log s \<and> cnt s' = cnt s + (1 :: int) \<and> cnt s \<le> 5)"
  shows "pm_ok s \<Longrightarrow> P s \<Longrightarrow> 7 \<le> int (length es) + cnt s \<Longrightarrow> es \<noteq> [] \<Longrightarrow>
    \<exists>s'. pm_ticks es s = Some s' \<and> ef \<in> set (emitted s s')"
proof (induction es arbitrary: s)
  case (Cons e es)
  from tick [OF Cons.prems(1,2), of e] show ?case
  proof (elim disjE exE conjE)
    assume t: "pm_evt_proc e 3 s = Some (pm_emit [ef] s)"
    obtain s' where s': "pm_ticks es (pm_emit [ef] s) = Some s'"
      using ticks_ok [of "pm_emit [ef] s"] Cons.prems(1) by auto
    have "emitted s s' = [ef] @ emitted (pm_emit [ef] s) s'"
      by (rule ticks_emitted_Cons [OF t _ _ s']) (simp_all add: Cons.prems(1), simp add: pm_emit_def)
    then show ?thesis using t s' by simp
  next
    fix s1
    assume t: "pm_evt_proc e 3 s = Some s1" "pm_ok s1" "P s1" "pm_log s1 = pm_log s" "cnt s1 = cnt s + 1" "cnt s \<le> 5"
    then have "es \<noteq> []" using Cons.prems(3) by auto
    then obtain s' where s': "pm_ticks es s1 = Some s'" "ef \<in> set (emitted s1 s')"
      using Cons.IH [OF t(2,3)] Cons.prems t(5) by auto
    then show ?thesis using t by (auto simp: emitted_def)
  qed
qed simp

lemma restart_app:
  assumes "pm_ok s" "pm_state s = PM_ST_MCK_RESTART_APP" "length es = 7"
  shows "\<exists>s'. pm_ticks es s = Some s' \<and> KillApp \<in> set (emitted s s')"
  by (rule bounded_retry [where P = "\<lambda>s. pm_state s = PM_ST_MCK_RESTART_APP" and cnt = s5_cnt])
    (use assms in \<open>auto simp: restart_app_tick pm_ok_def\<close>)

lemma restart_4g:
  assumes "pm_ok s" "pm_state s = PM_ST_MCK_RESTART_4G" "length es = 7"
  shows "\<exists>s'. pm_ticks es s = Some s' \<and> Powerdown \<in> set (emitted s s')"
  by (rule bounded_retry [where P = "\<lambda>s. pm_state s = PM_ST_MCK_RESTART_4G" and cnt = s6_cnt])
    (use assms in \<open>auto simp: restart_4g_tick pm_ok_def\<close>)

section \<open>Sleep and wake\<close>

text \<open>What the wake-up by the MCU or USB line makes of the state.\<close>

definition woken :: "pm_env \<Rightarrow> pm \<Rightarrow> pm" where
  "woken env s = pm_emit (ForbidInd 0 # WakeLock # notified env PM_MSG_RUNNING s @
      [SetAppSleep 0, GpioSet GPIO_EN5_CTRL True, GpioSet GPIO_WAKEUP_MCU False])
     (s\<lparr>wake_lock := True, pm_state := PM_ST_NORMAL, pm_ring_status := 0\<rparr>)"

text \<open>The wake-up by data from the network, which also raises the line that wakes the MCU.\<close>

definition woken_by_data :: "pm_env \<Rightarrow> pm \<Rightarrow> pm" where
  "woken_by_data env s = pm_emit (ForbidInd 0 # WakeLock # notified env PM_MSG_RUNNING s @
      [GpioSet GPIO_EN5_CTRL True, GpioSet GPIO_WAKEUP_MCU True])
     (s\<lparr>wake_lock := True, pm_state := PM_ST_NORMAL, pm_ring_status := 1\<rparr>)"

text \<open>The way to sleep.\<close>

definition asleep :: "pm_env \<Rightarrow> pm \<Rightarrow> pm" where
  "asleep env s = pm_emit ((if env_rtc_time env \<noteq> 0 then [StopRtcTimer, StartRtcTimer (env_rtc_time env * 1000)] else []) @
      [GpioSet GPIO_BT_RST False, ForbidInd 1, WakeUnlock])
     (s\<lparr>wake_lock := False, pm_state := PM_ST_SLEEP\<rparr>)"

lemma sleep_check:
  assumes "pm_ok s" "pm_state s = PM_ST_MCK_SLEEP"
  shows "pm_evt_proc e 3 s = Some (if awake e then woken e s
     else if all_ready e PM_MSG_SLEEP s \<and> pm_ring_status s = 0 then asleep e s else s)"
  using assms by (auto simp: tick_tbl pm_st_s1e3_def pm_mcu_wakeup_def pm_acts woken_def asleep_def pm_ok_def Let_def
      pm_emit_def)

lemma wake_check:
  assumes "pm_ok s" "pm_state s = PM_ST_SLEEP"
  shows "pm_evt_proc e 3 s = Some (if awake e then woken e s else if 0 \<le> env_sock e then woken_by_data e s else s)"
  using assms by (auto simp: tick_tbl pm_st_s4e3_def pm_mcu_wakeup_def pm_ring_wakeup_def pm_acts woken_def
      woken_by_data_def Let_def pm_emit_def)


section \<open>A module on a bench\<close>

text \<open>Both lines quiet, every handler ready; one registered module, number 0, with the id of UDS.\<close>

definition idle_env :: pm_env where
  "idle_env = \<lparr>env_usb = (0, 0x31), env_mcu = (0, 0x31), env_pm_mode = (0, 0), env_rtc_time = 60, env_sock = -1,
     env_fota_status = 0, env_cache_exists = False, env_send = \<lambda>_. 0, env_handler = \<lambda>_ _. 1\<rparr>"

definition bench_started :: pm where
  "bench_started = pm_emit [Autosleep, StartPeriodTimer 1000] (pm_vote_oppose (pm_init_inside pm_statics))"

definition bench :: pm where
  "bench = pm_call_step idle_env (RegHandler 0x0C00 (Some 0)) bench_started"

definition bench_in :: "PM_STATE \<Rightarrow> u32 \<Rightarrow> PM_EVENT \<Rightarrow> pm" where
  "bench_in st msgid evt = enter idle_env st msgid (bench\<lparr>pm_msgbuf := pm_evt_bytes evt @ replicate 2044 0\<rparr>)"

lemma get_evt_bytes [simp]: "get_evt (pm_evt_bytes e @ xs) = word_of_nat (evt_no e)"
  by (cases e) (simp_all add: get_evt_def pm_evt_bytes_def word_rcat_def)

lemma length_evt_bytes [simp]: "length (pm_evt_bytes e) = 4"
  by (simp add: pm_evt_bytes_def)

lemma bench_started_reach: "pm_reach bench_started"
proof (rule pm_started [where msg_fd = 3 and sleep_fd = 4 and t = 0 and cfg = "(0, 0)" and c = 0])
qed (simp add: pm_main_start_def pm_init_outside_def bench_started_def)

lemma bench_reach: "pm_reach bench"
  unfolding bench_def by (rule pm_stepped [OF bench_started_reach pm_called])

lemmas bench_simps = bench_def bench_started_def pm_reg_handler_def pm_init_inside_def pm_init_state_def pm_init_para_def
  pm_statics_def pm_emit_def pm_vote_oppose_def PM_MAX_REG_ITEM_NUM_def

lemma bench_table: "take (used_num bench) (pmtbl bench) = [\<lparr>reg_mid = 0x0C00, reg_handler = Some 0\<rparr>]"
  by (simp add: bench_simps numeral_eq_Suc)

lemma bench_fields:
  "pm_state bench = PM_ST_NORMAL" "pm_ring_status bench = 0" "pm_msgbuf bench = replicate 2048 0"
  "pm_check_cnt bench = 0" "s5_cnt bench = 0" "s6_cnt bench = 0" "wake_lock bench" "pm_mode bench = PM_RUNNING_MODE"
  by (simp_all add: bench_simps TCOM_MAX_MSG_LEN_def)

lemma notified_cong: "env_send env = env_send env' \<Longrightarrow> notified env m s = notified env' m s"
proof -
  have "notify_sends env m i its = notify_sends env' m i its" if "env_send env = env_send env'" for i its
    using that by (induction its arbitrary: i) simp_all
  then show "env_send env = env_send env' \<Longrightarrow> notified env m s = notified env' m s"
    by (simp add: notified_def)
qed

lemma bench_in_step:
  assumes "(state_tbl PM_ST_NORMAL ! evt_no e) = (\<lambda>env s. Some (enter env st msgid s))" "env_send env = env_send idle_env"
  shows "pm_step env bench (bench_in st msgid e)"
proof -
  have "enter env st msgid s = enter idle_env st msgid s" for s
    using notified_cong [OF assms(2)] by (simp add: enter_emits)
  then have "pm_main_step env (pm_hdr MPU_MID_PM PM_MSG_ID_EVT 4) (pm_evt_bytes e) bench = Some (bench_in st msgid e)"
    using assms(1) by (simp add: pm_main_step_def bench_fields pm_hdr_def pm_ids evt_proc_no bench_in_def)
  then show ?thesis
    by (intro pm_message [where body = "pm_evt_bytes e"]) (simp_all add: TCOM_MAX_MSG_LEN_def)
qed

lemma bench_in_reach:
  "(state_tbl PM_ST_NORMAL ! evt_no e) = (\<lambda>env s. Some (enter env st msgid s)) \<Longrightarrow> pm_reach (bench_in st msgid e)"
  by (rule pm_stepped [OF bench_reach bench_in_step]) simp_all

lemma bench_in_fields:
  "pm_state (bench_in st msgid e) = st" "pm_ring_status (bench_in st msgid e) = 0"
  "s5_cnt (bench_in st msgid e) = 0" "s6_cnt (bench_in st msgid e) = 0"
  by (simp_all add: bench_in_def enter_emits) (simp_all add: pm_emit_def bench_fields)

lemma idle_ready: "all_ready idle_env i s"
  by (simp add: all_ready_def idle_env_def)

lemma idle_quiet: "\<not> awake idle_env"
  by (simp add: awake_def idle_env_def pm_usb_wakeup_check_def pm_mcu_wakeup_check_def pm_line_status_def
      lines_active_def)


section \<open>The properties\<close>

lemma guard_sleep:
  assumes "pm_guard env s s'" "pm_state s \<noteq> PM_ST_SLEEP" "pm_state s' = PM_ST_SLEEP"
  shows "pm_state s = PM_ST_MCK_SLEEP \<and> all_ready env PM_MSG_SLEEP s \<and> pm_ring_status s = 0 \<and> \<not> awake env"
  using assms by (auto simp: pm_guard_def)

lemma sleep_entry:
  assumes "pm_reach s" "pm_step env s s'" "pm_state s \<noteq> PM_ST_SLEEP" "pm_state s' = PM_ST_SLEEP"
  shows "pm_state s = PM_ST_MCK_SLEEP \<and> all_ready env PM_MSG_SLEEP s \<and> pm_ring_status s = 0 \<and> \<not> awake env"
  using pm_step_runs [OF assms(2) pm_reach_ok [OF assms(1)]] guard_sleep assms(3,4) by blast


lemma bench_sleeps:
  defines "s \<equiv> bench_in PM_ST_MCK_SLEEP PM_MSG_SLEEP PM_EVT_SLEEP_REQ"
  assumes "\<not> awake env" "all_ready env PM_MSG_SLEEP s"
  shows "pm_step env s ((asleep env s)\<lparr>pm_msgbuf := pm_msgbuf s\<rparr>)"
proof -
  have r: "pm_reach s"
    unfolding s_def by (rule bench_in_reach) (simp add: fun_eq_iff pm_st_s0e6_def)
  have "pm_main_step env (pm_hdr MPU_MID_PM PM_MSG_ID_CHECK_TIMER 0) [] s = pm_evt_proc env 3 s"
    by (simp add: pm_main_step_def pm_hdr_def pm_ids)
  also have "\<dots> = Some ((asleep env s)\<lparr>pm_msgbuf := pm_msgbuf s\<rparr>)"
    using sleep_check [OF pm_reach_ok [OF r], of env] assms(2,3)
    by (simp add: s_def bench_in_fields) (simp add: asleep_def pm_emit_def)
  finally show "pm_step env s ((asleep env s)\<lparr>pm_msgbuf := pm_msgbuf s\<rparr>)"
    by (intro pm_message [where body = "[]"]) simp_all
qed

lemma bench_checking_reach: "pm_reach (bench_in PM_ST_MCK_SLEEP PM_MSG_SLEEP PM_EVT_SLEEP_REQ)"
  by (rule bench_in_reach) (simp add: fun_eq_iff pm_st_s0e6_def)

lemmas bench_falls_asleep = bench_checking_reach bench_sleeps [OF idle_quiet idle_ready]

lemma asleep_state: "pm_state ((asleep env s)\<lparr>pm_msgbuf := buf\<rparr>) = PM_ST_SLEEP"
  by (simp add: asleep_def pm_emit_def)


text \<open>\<^bold>\<open>C31\<close>
  In every reachable state each message that fits is processed: no entry of the table of modules
  without a handler is called and no buffer is left. The wake lock is held afterwards exactly when the
  module is not asleep.\<close>

theorem pm_runs_awake_locked:
  assumes "pm_reach s" "length body \<le> TCOM_MAX_MSG_LEN"
  shows "\<exists>s'. pm_main_step env hdr body s = Some s' \<and> pm_reach s' \<and>
    (wake_lock s' \<longleftrightarrow> pm_state s' \<noteq> PM_ST_SLEEP) \<and>
    length (pmtbl s') = PM_MAX_REG_ITEM_NUM \<and> used_num s' \<le> PM_MAX_REG_ITEM_NUM \<and>
    (\<forall>it \<in> set (take (used_num s') (pmtbl s')). reg_handler it \<noteq> None)"
  using pm_main_runs [OF pm_reach_ok [OF assms(1)] assms(2), of env hdr]
  by (auto simp: pm_runs_def pm_ok_def tbl_ok_def intro: pm_stepped [OF assms(1) pm_message [OF assms(2)]]
      split: option.splits)

theorem pm_runs_awake_locked_witness:
  "\<exists>s'. pm_main_step idle_env (pm_hdr MPU_MID_PM PM_MSG_ID_EVT 4) [6, 0, 0, 0] bench = Some s' \<and> pm_reach s' \<and>
    (wake_lock s' \<longleftrightarrow> pm_state s' \<noteq> PM_ST_SLEEP)"
  using pm_runs_awake_locked [OF bench_reach, of "[6, 0, 0, 0]" idle_env "pm_hdr MPU_MID_PM PM_MSG_ID_EVT 4"]
  by (auto simp: TCOM_MAX_MSG_LEN_def)

text \<open>\<^bold>\<open>C32\<close>
  A step adds to what has been done before. It cuts the power only when every module has agreed,
  with no ring pending and no activity, in the state that checks for power off, or in the state that
  restarts the module after its modules have agreed or have had six refusals; it kills the
  application only in the state that restarts it, after the same; it releases the wake lock only on
  the way to sleep.\<close>

theorem pm_power_guarded:
  assumes "pm_reach s" "pm_step env s s'"
  shows "\<exists>es. pm_log s' = pm_log s @ es \<and>
     (Powerdown \<in> set es \<longrightarrow>
        pm_state s = PM_ST_MCK_POWER_OFF \<and> all_ready env PM_MSG_OFF s \<and> pm_ring_status s = 0 \<and> \<not> off_awake env s
        \<or> pm_state s = PM_ST_MCK_RESTART_4G \<and> (all_ready env PM_MSG_OFF s \<or> s6_cnt s = 6)) \<and>
     (KillApp \<in> set es \<longrightarrow>
        pm_state s = PM_ST_MCK_RESTART_APP \<and> (all_ready env PM_MSG_OFF s \<or> s5_cnt s = 6)) \<and>
     (WakeUnlock \<in> set es \<longrightarrow> pm_state s = PM_ST_MCK_SLEEP \<and> pm_state s' = PM_ST_SLEEP)"
proof -
  have six: "5 < s6_cnt s \<longleftrightarrow> s6_cnt s = 6" "5 < s5_cnt s \<longleftrightarrow> s5_cnt s = 6"
    using pm_reach_ok [OF assms(1)] by (auto simp: pm_ok_def)
  have "pm_guard env s s'"
    using pm_step_runs [OF assms(2) pm_reach_ok [OF assms(1)]] by simp
  then show ?thesis
    unfolding pm_guard_def six by blast
qed

theorem pm_power_guarded_witness:
  "\<exists>s s' es. pm_reach s \<and> pm_step idle_env s s' \<and> pm_log s' = pm_log s @ es \<and> WakeUnlock \<in> set es \<and>
     pm_state s = PM_ST_MCK_SLEEP"
proof -
  define s where "s = bench_in PM_ST_MCK_SLEEP PM_MSG_SLEEP PM_EVT_SLEEP_REQ"
  note b = bench_falls_asleep [folded s_def]
  obtain es where es: "pm_log ((asleep idle_env s)\<lparr>pm_msgbuf := pm_msgbuf s\<rparr>) = pm_log s @ es"
    "WakeUnlock \<in> set es \<longrightarrow> pm_state s = PM_ST_MCK_SLEEP"
    using pm_power_guarded [OF b] by blast
  moreover have "WakeUnlock \<in> set es"
    using es(1) by (auto simp: asleep_def pm_emit_def)
  ultimately show ?thesis using b by blast
qed

text \<open>From the normal state, its counter at 0, after checks that did not leave it, a check leaves it
  if and only if it and the nine before it in a row found the lines idle and the mode can be read;
  then it goes to the check for power off in the modes sleep, deep sleep and off, and to the check
  for sleep otherwise.\<close>

theorem pm_leaves_normal:
  assumes "pm_state s = PM_ST_NORMAL" "pm_check_cnt s = 0" "normal_ticks es s = Some s1"
    "pm_evt_proc e (word_of_nat (evt_no PM_EVT_TIMEOUT)) s1 = Some s2"
  shows "pm_state s2 =
    (if \<not> awake e \<and> 9 \<le> length (takeWhile (\<lambda>e. \<not> awake e) (rev es)) \<and> fst (env_pm_mode e) = 0
     then (if snd (env_pm_mode e) \<in> {3, 4, 5} then PM_ST_MCK_POWER_OFF else PM_ST_MCK_SLEEP)
     else PM_ST_NORMAL)"
  using normal_left [OF assms(1-3)] assms(4) by (simp only: evt_no.simps idle_run_def) simp

lemma bench_nine:
  "pm_ok s \<Longrightarrow> pm_state s = PM_ST_NORMAL \<Longrightarrow> int n + pm_check_cnt s < 10 \<Longrightarrow>
   normal_ticks (replicate n idle_env) s = Some (s\<lparr>pm_check_cnt := pm_check_cnt s + int n\<rparr>)"
proof (induction n arbitrary: s)
  case (Suc n)
  have "pm_evt_proc idle_env 3 s = Some (s\<lparr>pm_check_cnt := pm_check_cnt s + 1\<rparr>)"
    using Suc.prems by (simp add: normal_tick pm_st_s0e3_def idle_quiet Let_def)
  then show ?case using Suc.IH [of "s\<lparr>pm_check_cnt := pm_check_cnt s + 1\<rparr>"] Suc.prems
    by (simp add: pm_ok_def ac_simps)
qed simp

theorem pm_leaves_normal_witness:
  "\<exists>s2. pm_evt_proc idle_env 3 (bench\<lparr>pm_check_cnt := 9\<rparr>) = Some s2 \<and> pm_state s2 = PM_ST_MCK_SLEEP"
proof -
  obtain s2 where s2: "pm_evt_proc idle_env 3 (bench\<lparr>pm_check_cnt := 9\<rparr>) = Some s2"
    by (simp add: normal_tick bench_fields pm_st_s0e3_def)
  have "normal_ticks (replicate 9 idle_env) bench = Some (bench\<lparr>pm_check_cnt := 9\<rparr>)"
    using bench_nine [OF pm_reach_ok [OF bench_reach], of 9] by (simp add: bench_fields)
  then have "pm_state s2 = PM_ST_MCK_SLEEP"
    using pm_leaves_normal [OF bench_fields(1) bench_fields(4), of "replicate 9 idle_env" _ idle_env s2] s2
    by (simp add: idle_quiet) (simp add: idle_env_def)
  then show ?thesis using s2 by blast
qed

text \<open>A restart of the application or of the module that has been asked for happens: whatever the modules
  answer, within seven checks the application is killed, or the power cut.\<close>

theorem pm_restart_bounded:
  assumes "pm_reach s" "pm_state s = PM_ST_MCK_RESTART_APP \<or> pm_state s = PM_ST_MCK_RESTART_4G" "length es = 7"
  shows "\<exists>s'. pm_ticks es s = Some s' \<and>
    (if pm_state s = PM_ST_MCK_RESTART_APP then KillApp else Powerdown) \<in> set (emitted s s')"
  using restart_app [OF pm_reach_ok [OF assms(1)] _ assms(3)] restart_4g [OF pm_reach_ok [OF assms(1)] _ assms(3)] assms(2)
  by auto

theorem pm_restart_bounded_witness:
  "\<exists>s s'. pm_state s = PM_ST_MCK_RESTART_4G \<and>
     pm_ticks (replicate 7 (idle_env\<lparr>env_handler := \<lambda>_ _. 0\<rparr>)) s = Some s' \<and> Powerdown \<in> set (emitted s s')"
proof -
  define s where "s = bench_in PM_ST_MCK_RESTART_4G PM_MSG_OFF PM_EVT_RESTART_4G_REQ"
  have r: "pm_reach s" unfolding s_def by (rule bench_in_reach) (simp add: fun_eq_iff pm_st_s0e8_def)
  have st: "pm_state s = PM_ST_MCK_RESTART_4G" by (simp add: s_def bench_in_fields)
  show ?thesis
    using pm_restart_bounded [OF r, of "replicate 7 (idle_env\<lparr>env_handler := \<lambda>_ _. 0\<rparr>)"] st by auto
qed

text \<open>
  The check while asleep wakes the module when a line shows activity, both being readable, or data
  has come: the wake lock is taken, the state is normal and the registered modules, up to the first
  that cannot be reached, are told that the module runs. Otherwise it changes nothing.\<close>

theorem pm_wakes:
  assumes "pm_reach s" "pm_state s = PM_ST_SLEEP"
  shows "pm_evt_proc env (word_of_nat (evt_no PM_EVT_TIMEOUT)) s = Some (
    if awake env then pm_emit (ForbidInd 0 # WakeLock # notified env PM_MSG_RUNNING s @
        [SetAppSleep 0, GpioSet GPIO_EN5_CTRL True, GpioSet GPIO_WAKEUP_MCU False])
      (s\<lparr>wake_lock := True, pm_state := PM_ST_NORMAL, pm_ring_status := 0\<rparr>)
    else if 0 \<le> env_sock env then pm_emit (ForbidInd 0 # WakeLock # notified env PM_MSG_RUNNING s @
        [GpioSet GPIO_EN5_CTRL True, GpioSet GPIO_WAKEUP_MCU True])
      (s\<lparr>wake_lock := True, pm_state := PM_ST_NORMAL, pm_ring_status := 1\<rparr>)
    else s)"
  using wake_check [OF pm_reach_ok [OF assms(1)] assms(2), of env] by (simp add: woken_def woken_by_data_def)

theorem pm_wakes_witness:
  "\<exists>s. pm_reach s \<and> pm_state s = PM_ST_SLEEP \<and> pm_evt_proc idle_env 3 s = Some s"
proof -
  define s where "s = bench_in PM_ST_MCK_SLEEP PM_MSG_SLEEP PM_EVT_SLEEP_REQ"
  define s' where "s' = (asleep idle_env s)\<lparr>pm_msgbuf := pm_msgbuf s\<rparr>"
  note b = bench_falls_asleep [folded s_def]
  have r: "pm_reach s'" unfolding s'_def by (rule pm_stepped [OF b])
  have st: "pm_state s' = PM_ST_SLEEP" unfolding s'_def by (rule asleep_state)
  have "pm_evt_proc idle_env 3 s' = Some s'"
    using pm_wakes [OF r st, of idle_env] by (simp add: idle_quiet) (simp add: idle_env_def)
  then show ?thesis using r st by blast
qed

end
