(* ===== verification/Sleep.thy ===== *)
theory Sleep
  imports UdsProps PmProps
begin

text \<open>
  Power management and a module that takes part in it: what a registered module's sleep handler must
  promise so that the system does not sleep while the module is busy, that the diagnostic module's
  handler promises it, and the two modules running beside each other.
\<close>

section \<open>The contract of a sleep handler\<close>

definition registered :: "nat \<Rightarrow> pm \<Rightarrow> bool" where
  "registered h p \<longleftrightarrow> (\<exists>it \<in> set (take (used_num p) (pmtbl p)). reg_handler it = Some h)"

locale sleep_voter =
  fixes vote :: "u32 \<Rightarrow> 's \<Rightarrow> int" and busy :: "'s \<Rightarrow> bool"
  assumes no_sleep: "busy s \<Longrightarrow> vote PM_MSG_SLEEP s \<noteq> 1"
    and no_off: "busy s \<Longrightarrow> vote PM_MSG_OFF s \<noteq> 1"
begin

lemma not_busy:
  assumes "registered h p" "all_ready env i p" "env_handler env h i = vote i s" "i = PM_MSG_SLEEP \<or> i = PM_MSG_OFF"
  shows "\<not> busy s"
proof -
  have "vote i s = 1" using assms(1-3) by (auto simp: registered_def all_ready_def)
  then show ?thesis using assms(4) no_sleep no_off by auto
qed

lemma sleeps_when_idle:
  assumes "pm_reach p" "pm_step env p p'" "pm_state p \<noteq> PM_ST_SLEEP" "pm_state p' = PM_ST_SLEEP"
    "registered h p" "env_handler env h PM_MSG_SLEEP = vote PM_MSG_SLEEP s"
  shows "\<not> busy s"
  using sleep_entry [OF assms(1-4)] not_busy assms(5,6) by blast

lemma powers_off_when_idle:
  assumes "pm_reach p" "pm_step env p p'" "pm_state p = PM_ST_MCK_POWER_OFF" "Powerdown \<in> set (emitted p p')"
    "registered h p" "env_handler env h PM_MSG_OFF = vote PM_MSG_OFF s"
  shows "\<not> busy s"
proof -
  have "pm_guard env p p'" using pm_step_runs [OF assms(2) pm_reach_ok [OF assms(1)]] by simp
  then have "all_ready env PM_MSG_OFF p"
    using assms(3,4) by (auto simp: pm_guard_def emitted_def)
  then show ?thesis using not_busy assms(5,6) by blast
qed

end

interpretation uds_votes: sleep_voter uds_sleep_available "\<lambda>s. uds_is_ready_sleep s \<noteq> 0"
  by unfold_locales (simp_all add: uds_sleep_available_def)

lemma registered_step:
  assumes "pm_step env p p'" "pm_ok p" "registered h p"
  shows "registered h p'"
proof -
  have "used_num p \<le> used_num p'" "take (used_num p) (pmtbl p') = take (used_num p) (pmtbl p)"
    using pm_step_runs [OF assms(1,2)] by (simp_all add: pm_guard_def)
  then have "set (take (used_num p) (pmtbl p)) \<subseteq> set (take (used_num p') (pmtbl p'))"
    using set_take_subset_set_take by metis
  then show ?thesis using assms(3) by (auto simp: registered_def)
qed

section \<open>Who writes the sleep flag of the diagnostic module\<close>

abbreviation kept :: "uds_state \<Rightarrow> uds_state \<Rightarrow> bool" where
  "kept s s' \<equiv> uds_is_ready_sleep s' = uds_is_ready_sleep s"

lemma kept_emit [simp]: "uds_is_ready_sleep (emit e s) = uds_is_ready_sleep s"
  by (simp add: emit_def)

lemma kept_set_suppress [simp]: "uds_is_ready_sleep (set_suppress b s) = uds_is_ready_sleep s"
  by (simp add: set_suppress_def)

lemma kept_upd [simp]: "uds_is_ready_sleep (uds_upd uds f s) = uds_is_ready_sleep s"
  by (cases uds) simp_all

lemma kept_set_timer [simp]: "uds_is_ready_sleep (uds_set_timer uds name sw s) = uds_is_ready_sleep s"
  by (simp add: uds_set_timer_def Let_def split: prod.split)

lemma kept_data_request: "uds_data_request uds i can_id p dlc s = Some (ret, s') \<Longrightarrow> kept s s'"
  by (auto simp: uds_data_request_def Let_def bind_eq_Some_conv split: if_splits prod.splits)

lemma kept_third_byte: "third_byte p s = (b, s') \<Longrightarrow> kept s s'"
  by (auto simp: third_byte_def split: if_splits)

lemma kept_positive_response: "uds_positive_response uds can_id dlc p s = Some (ret, s') \<Longrightarrow> kept s s'"
  by (auto simp: uds_positive_response_def Let_def bind_eq_Some_conv dest!: kept_data_request kept_third_byte
      split: if_splits prod.splits)

lemma kept_pos: "pos p dlc s = Some s' \<Longrightarrow> kept s s'"
  by (auto simp: pos_def dest: kept_positive_response)

lemma kept_neg: "neg a b s = Some s' \<Longrightarrow> kept s s'"
  by (auto simp: neg_def uds_negative_response_def dest: kept_positive_response)

lemma kept_respond: "respond n bytes s = Some s' \<Longrightarrow> kept s s'"
  by (auto simp: respond_def bind_eq_Some_conv dest: kept_pos)

lemmas kept_dests = kept_neg kept_respond kept_pos

lemma kept_session: "UDS_SRV_DiagSessionCtrl p dlc s = Some s' \<Longrightarrow> kept s s'"
  by (auto simp: UDS_SRV_DiagSessionCtrl_def UDS_SetDTCOn_def Let_def bind_eq_Some_conv split: if_splits dest!: kept_dests)

lemma kept_ecu_reset: "UDS_SRV_EcuReset p dlc s = Some s' \<Longrightarrow> kept s s'"
  by (auto simp: UDS_SRV_EcuReset_def bind_eq_Some_conv split: if_splits dest!: kept_dests)

lemma kept_clear_dtc: "UDS_SRV_ClearDTC p dlc s = Some s' \<Longrightarrow> kept s s'"
  by (auto simp: UDS_SRV_ClearDTC_def uds_diag_dtc_clear_def Let_def bind_eq_Some_conv split: if_splits
      dest!: kept_dests)

lemma kept_control_dtc: "UDS_SRV_ControlDTCSetting p dlc s = Some s' \<Longrightarrow> kept s s'"
  by (auto simp: UDS_SRV_ControlDTCSetting_def Let_def bind_eq_Some_conv split: if_splits dest!: kept_dests)

lemma kept_tester_present: "UDS_SRV_TesterPresent p dlc s = Some s' \<Longrightarrow> kept s s'"
  by (auto simp: UDS_SRV_TesterPresent_def bind_eq_Some_conv split: if_splits dest!: kept_dests)

lemma kept_communication_control: "UDS_SRV_CommunicationControl p dlc s = Some s' \<Longrightarrow> kept s s'"
  by (auto simp: UDS_SRV_CommunicationControl_def Let_def bind_eq_Some_conv split: if_splits dest!: kept_dests)

lemma kept_read_did: "UDS_SRV_ReadDataByID g p dlc s = Some s' \<Longrightarrow> kept s s'"
  by (auto simp: UDS_SRV_ReadDataByID_def Let_def bind_eq_Some_conv split: if_splits dest!: kept_dests)

lemma kept_snapshot_number: "GetDTCSnapshotRecordNumber s = Some s' \<Longrightarrow> kept s s'"
  by (auto simp: GetDTCSnapshotRecordNumber_def bind_eq_Some_conv)

lemma kept_find_record: "find_record a b frz len js s = Some (r, s') \<Longrightarrow> kept s s'"
  by (induction js) (auto simp: bind_eq_Some_conv split: if_splits dest: kept_snapshot_number)

lemma kept_read_dtc: "UDS_SRV_ReadDTC p dlc s = Some s' \<Longrightarrow> kept s s'"
  by (auto simp: UDS_SRV_ReadDTC_def ReportNumberOfDTCByStatusMask_def ReportDTCByStatusMask_def
      ReportDTC_testfail_Or_Confirmed_def ReportDTC_testfail_def ReportDTC__Confirmed_def
      ReportDTCSnapshotIdentification_def ReportDTCSnapshotRecordByDTCNumber_def ReadSupportedDTCs_def
      Let_def bind_eq_Some_conv split: if_splits option.splits
      dest!: kept_dests kept_snapshot_number kept_find_record)

lemma kept_tukey: "tukey_loop p0 start polls s = Some s' \<Longrightarrow> kept s s'"
  by (induction polls arbitrary: s rule: list.induct)
    (auto simp: Let_def bind_eq_Some_conv split: if_splits dest!: kept_neg)

lemma kept_routine: "UDS_SRV_RoutineControl t0 polls p dlc s = Some s' \<Longrightarrow> kept s s'"
  by (auto simp: UDS_SRV_RoutineControl_def Let_def bind_eq_Some_conv split: if_splits
      dest!: kept_dests kept_tukey)

lemma kept_set_did: "uds_diag_set_did_value did_set did v s = Some (ret, s') \<Longrightarrow> kept s s'"
  by (auto simp: uds_diag_set_did_value_def bind_eq_Some_conv split: option.splits if_splits)

lemma kept_write_did: "UDS_SRV_WriteDataByID did_set p dlc s = Some s' \<Longrightarrow> kept s s'"
  by (auto simp: UDS_SRV_WriteDataByID_def Let_def bind_eq_Some_conv split: if_splits
        dest!: kept_dests kept_set_did)

lemma kept_sa_fail [simp]: "uds_is_ready_sleep (sa_fail s) = uds_is_ready_sleep s"
  by (simp add: sa_fail_def Let_def)

lemma kept_check_key: "sa_check_key mode unlock level p p0 p1 dlc s = Some s' \<Longrightarrow> kept s s'"
  by (auto simp: sa_check_key_def Let_def bind_eq_Some_conv split: if_splits dest!: kept_dests)

lemma kept_request_seed: "sa_request_seed rand p0 p1 dlc s = Some s' \<Longrightarrow> kept s s'"
  by (auto simp: sa_request_seed_def Let_def bind_eq_Some_conv split: if_splits dest!: kept_dests)

lemma kept_security: "UDS_SRV_SecrityAcess now now' rand p dlc s = Some s' \<Longrightarrow> kept s s'"
  by (auto simp: UDS_SRV_SecrityAcess_def Let_def bind_eq_Some_conv split: if_splits
      dest!: kept_dests kept_check_key kept_request_seed)

lemma kept_appl: "uds_appl env i p dlc s = Some s' \<Longrightarrow> kept s s'"
  by (auto simp: bind_eq_Some_conv split: if_splits dest: kept_neg kept_session kept_ecu_reset kept_clear_dtc kept_read_dtc
      kept_read_did kept_security kept_communication_control kept_write_did kept_routine kept_tester_present kept_control_dtc)

lemma kept_server_proc: "uds_server_proc env can_id p n s = Some s' \<Longrightarrow> kept s s'"
  by (auto simp: uds_server_proc_def Let_def bind_eq_Some_conv simp del: uds_appl.simps split: if_splits
      dest!: kept_neg kept_appl)

lemma kept_client_cb [simp]: "uds_is_ready_sleep (client_cb a b c s) = uds_is_ready_sleep s"
  by (simp add: client_cb_def)

lemma kept_confirm [simp]: "uds_is_ready_sleep (uds_confirm uds r s) = uds_is_ready_sleep s"
  by (simp add: uds_confirm_def Let_def)

lemma kept_proxy: "uds_proxy env buf n s = Some s' \<Longrightarrow> kept s s'"
  by (auto simp: uds_proxy_def Let_def bind_eq_Some_conv split: if_splits dest!: kept_server_proc)

lemma kept_timeout: "uds_timeout timer_id sq s = Some s' \<Longrightarrow> kept s s'"
  by (auto simp: uds_timeout_def Let_def uds_set_server_def UDS_SetDTCOn_def dest!: kept_data_request
      split: if_splits UDS_TIMER_E.splits)

lemma kept_one_device: "uds_diag_one_device did_get diag_fun i s = Some s' \<Longrightarrow> kept s s'"
  by (auto simp: uds_diag_one_device_def set_confirmed_def uds_diag_gen_freeze_def Let_def bind_eq_Some_conv
      split: if_splits)

lemma kept_all_loop: "diag_all_loop did_get diag_fun is gen s = Some (g, s') \<Longrightarrow> kept s s'"
  by (induction "is" arbitrary: gen s) (auto simp: bind_eq_Some_conv dest!: kept_one_device)

lemma kept_all_devices: "uds_diag_all_devices did_get diag_fun s = Some s' \<Longrightarrow> kept s s'"
  by (auto simp: uds_diag_all_devices_def bind_eq_Some_conv split: if_splits dest!: kept_all_loop)

text \<open>The message that makes the module save its records.\<close>

definition save_order :: "TCOM_MSG_HEADER \<Rightarrow> bool" where
  "save_order hdr \<longleftrightarrow> msg_sender hdr = MPU_MID_PM \<and> (msg_msgid hdr = PM_MSG_SLEEP \<or> msg_msgid hdr = PM_MSG_OFF)"

lemma main_step_flag:
  "uds_main_step env hdr body s = Some s' \<Longrightarrow>
   uds_is_ready_sleep s' = (if save_order hdr then env_j1939_save env else uds_is_ready_sleep s)"
  by (auto simp: uds_main_step_def save_order_def Let_def bind_eq_Some_conv mid_defs split: if_splits
      dest!: kept_proxy kept_timeout kept_all_devices)

lemma call_step_flag: "uds_call_step c s = Some s' \<Longrightarrow> kept s s'"
  by (cases c) (auto simp: uds_set_client_def uds_set_client_ex_def uds_clr_client_def uds_hold_client_def
    UDS_RecoverCANTxRxDefaultStatus_def UDS_DisableCANTxRx_def dest!: kept_data_request)

lemma init_flag: "uds_is_ready_sleep (snd (uds_init_outside stored t p c cfg (uds_statics scom b))) = 1"
  by (simp add: uds_init_outside_def uds_diag_init_def uds_proxy_init_def uds_statics_def Let_def split: prod.split)

section \<open>The two modules together\<close>

text \<open>
  \<open>tb_saved\<close> records that the diagnostic module has carried out an order to save with success.
  A message from power management reaches the diagnostic module only if it was sent; it may come
  late, more than once or not at all.
\<close>

record tbox =
  tb_pm :: pm
  tb_uds :: uds_state
  tb_saved :: bool

inductive tbox_step :: "nat \<Rightarrow> tbox \<Rightarrow> tbox \<Rightarrow> bool" for h where
  tb_pm_moves: "pm_step env (tb_pm t) p \<Longrightarrow> (\<And>i. env_handler env h i = uds_sleep_available i (tb_uds t)) \<Longrightarrow>
     tbox_step h t (t\<lparr>tb_pm := p\<rparr>)"
| tb_uds_message: "uds_main_step env hdr body (tb_uds t) = Some u \<Longrightarrow> env_ok env \<Longrightarrow> message_ok hdr body (tb_uds t) \<Longrightarrow>
     (msg_sender hdr = MPU_MID_PM \<Longrightarrow> msg_receiver hdr = MPU_MID_UDS \<and> PmSend hdr body \<in> set (pm_log (tb_pm t))) \<Longrightarrow>
     tbox_step h t (t\<lparr>tb_uds := u, tb_saved := tb_saved t \<or> save_order hdr \<and> env_j1939_save env = 0\<rparr>)"
| tb_uds_called: "uds_call_step c (tb_uds t) = Some u \<Longrightarrow> call_ok c \<Longrightarrow> tbox_step h t (t\<lparr>tb_uds := u\<rparr>)"

inductive_cases tbox_stepE: "tbox_step h t t'"

inductive tbox_reach :: "nat \<Rightarrow> tbox \<Rightarrow> bool" for h where
  tb_started: "pm_reach p \<Longrightarrow> pm_reg_handler MPU_MID_UDS (Some h) p = (0, p') \<Longrightarrow>
     uds_init_outside stored 0 0 0 cfg (uds_statics scom b) = (ret, u) \<Longrightarrow>
     (\<And>buf. length (stored buf) = length buf) \<Longrightarrow>
     tbox_reach h \<lparr>tb_pm = p', tb_uds = u, tb_saved = False\<rparr>"
| tb_stepped: "tbox_reach h t \<Longrightarrow> tbox_step h t t' \<Longrightarrow> tbox_reach h t'"

definition ordered :: "pm \<Rightarrow> bool" where
  "ordered p \<longleftrightarrow> (\<exists>hdr body. PmSend hdr body \<in> set (pm_log p) \<and> msg_receiver hdr = MPU_MID_UDS \<and>
     (msg_msgid hdr = PM_MSG_SLEEP \<or> msg_msgid hdr = PM_MSG_OFF))"

definition tbox_ok :: "nat \<Rightarrow> tbox \<Rightarrow> bool" where
  "tbox_ok h t \<longleftrightarrow> pm_reach (tb_pm t) \<and> registered h (tb_pm t) \<and>
     (uds_is_ready_sleep (tb_uds t) = 0 \<longrightarrow> tb_saved t) \<and> (tb_saved t \<longrightarrow> ordered (tb_pm t))"

lemma reg_handler_registers:
  "pm_reg_handler mid (Some h) p = (0, p') \<Longrightarrow> pm_ok p \<Longrightarrow> registered h p'"
  by (auto simp: pm_reg_handler_def registered_def pm_ok_def tbl_ok_def PM_TABLE_OVERFLOW_def take_Suc_conv_app_nth
      split: if_splits)

lemma tbox_step_ok:
  assumes "tbox_step h t t'" "tbox_ok h t"
  shows "tbox_ok h t'"
  using assms(1)
proof (cases rule: tbox_step.cases)
  case (tb_pm_moves env p)
  have "\<exists>es. pm_log p = pm_log (tb_pm t) @ es"
    using pm_step_runs [OF tb_pm_moves(2)] assms(2) pm_reach_ok by (auto simp: tbox_ok_def pm_guard_def)
  then show ?thesis
    using tb_pm_moves assms(2) registered_step [OF tb_pm_moves(2)] pm_reach_ok pm_stepped
    by (fastforce simp: tbox_ok_def ordered_def)
next
  case (tb_uds_message env hdr body u)
  then show ?thesis
    using main_step_flag [OF tb_uds_message(2)] assms(2)
    by (auto simp: tbox_ok_def ordered_def save_order_def split: if_splits)
next
  case (tb_uds_called c u)
  then show ?thesis using call_step_flag assms(2) by (auto simp: tbox_ok_def)
qed

lemma tbox_reach_ok: "tbox_reach h t \<Longrightarrow> tbox_ok h t"
proof (induction rule: tbox_reach.induct)
  case (tb_started p p' stored cfg scom b ret u)
  have "pm_reach p'"
    using pm_stepped [OF tb_started(1) pm_called [of undefined p "RegHandler MPU_MID_UDS (Some h)"]] tb_started(2) by simp
  moreover have "registered h p'"
    using reg_handler_registers [OF tb_started(2) pm_reach_ok [OF tb_started(1)]] .
  moreover have "uds_is_ready_sleep u = 1" using init_flag [of stored 0 0 0 cfg scom b] tb_started(3) by simp
  ultimately show ?case by (simp add: tbox_ok_def)
qed (rule tbox_step_ok)

text \<open>
  Only an order from power management writes the flag, so after a wake-up it still says that the
  records are saved.
\<close>

lemma running_keeps_flag:
  "uds_main_step env hdr body s = Some s' \<Longrightarrow> msg_msgid hdr = PM_MSG_RUNNING \<Longrightarrow> kept s s'"
  using main_step_flag [of env hdr body s s'] by (simp add: save_order_def pm_ids)

section \<open>The property\<close>

lemma tbox_sleep_entry:
  assumes "tbox_reach h t" "tbox_step h t t'" "pm_state (tb_pm t) \<noteq> PM_ST_SLEEP" "pm_state (tb_pm t') = PM_ST_SLEEP"
  shows "uds_is_ready_sleep (tb_uds t) = 0"
  using assms(2)
proof (cases rule: tbox_step.cases)
  case (tb_pm_moves env p)
  then show ?thesis
    using tbox_reach_ok [OF assms(1)] assms(3,4) uds_votes.sleeps_when_idle [of "tb_pm t" env p h "tb_uds t"]
    by (simp add: tbox_ok_def)
qed (use assms(3,4) in simp_all)

text \<open>\<^bold>\<open>C4\<close>
  With the diagnostic module registered, the system goes to sleep only after power management has
  sent that module the order to prepare for sleep or power off and the module has carried out such an
  order and saved its fault records with success.\<close>

theorem sleep_after_faults_saved:
  assumes "tbox_reach h t" "tbox_step h t t'" "pm_state (tb_pm t) \<noteq> PM_ST_SLEEP" "pm_state (tb_pm t') = PM_ST_SLEEP"
  shows "tb_saved t \<and> (\<exists>hdr body. PmSend hdr body \<in> set (pm_log (tb_pm t)) \<and> msg_receiver hdr = MPU_MID_UDS \<and>
     (msg_msgid hdr = PM_MSG_SLEEP \<or> msg_msgid hdr = PM_MSG_OFF))"
  using tbox_reach_ok [OF assms(1)] tbox_sleep_entry [OF assms] by (simp add: tbox_ok_def ordered_def)

lemma bench_order: "PmSend (pm_hdr MPU_MID_UDS PM_MSG_SLEEP 0) [] \<in> set (pm_log (bench_in PM_ST_MCK_SLEEP PM_MSG_SLEEP e))"
  by (simp add: bench_in_def enter_emits)
    (simp add: pm_emit_def notified_def bench_table MPU_MID_UDS_def)

lemma bench_saves:
  "uds_main_step (sample_env\<lparr>env_j1939_save := 0\<rparr>) (pm_hdr MPU_MID_UDS PM_MSG_SLEEP 0) [] (sample_uds scom) =
   Some ((sample_uds scom)\<lparr>uds_is_ready_sleep := 0\<rparr>)"
  by (simp add: uds_main_step_def pm_hdr_def mid_defs)

theorem sleep_after_faults_saved_witness:
  "\<exists>t t'. tbox_step 0 t t' \<and> pm_state (tb_pm t) = PM_ST_MCK_SLEEP \<and> pm_state (tb_pm t') = PM_ST_SLEEP \<and> tb_saved t"
proof -
  define u where "u = sample_uds undefined"
  define u' where "u' = u\<lparr>uds_is_ready_sleep := 0\<rparr>"
  define p where "p = bench_in PM_ST_MCK_SLEEP PM_MSG_SLEEP PM_EVT_SLEEP_REQ"
  define e where "e v = idle_env\<lparr>env_handler := \<lambda>_ i. uds_sleep_available i v\<rparr>" for v
  define t0 where "t0 = \<lparr>tb_pm = bench, tb_uds = u, tb_saved = False\<rparr>"
  define t1 where "t1 = t0\<lparr>tb_pm := p\<rparr>"
  define t2 where "t2 = t1\<lparr>tb_uds := u', tb_saved := True\<rparr>"
  define t3 where "t3 = t2\<lparr>tb_pm := (asleep (e u') p)\<lparr>pm_msgbuf := pm_msgbuf p\<rparr>\<rparr>"
  have "tbox_reach 0 t0"
    unfolding t0_def
    by (rule tb_started [OF bench_started_reach, where stored = id and cfg = "(0, 12)" and scom = undefined and b = 0])
      (simp_all add: bench_def u_def sample_uds_def MPU_MID_UDS_def prod_eq_iff,
       simp add: bench_simps)
  moreover have "tbox_step 0 t0 t1"
    unfolding t1_def
    by (rule tb_pm_moves [where env = "e u"])
      (use bench_in_step [of PM_EVT_SLEEP_REQ PM_ST_MCK_SLEEP PM_MSG_SLEEP "e u"] in
        \<open>simp_all add: t0_def p_def e_def fun_eq_iff pm_st_s0e6_def\<close>)
  ultimately have r1: "tbox_reach 0 t1" by (rule tb_stepped)
  have "tbox_step 0 t1 t2"
    using tb_uds_message [of "sample_env\<lparr>env_j1939_save := 0\<rparr>" "pm_hdr MPU_MID_UDS PM_MSG_SLEEP 0" "[]" t1 u' 0]
      bench_order bench_saves [of undefined] sample_env_ok
    by (simp add: t2_def t1_def t0_def u_def [symmetric] u'_def [symmetric] save_order_def pm_hdr_def message_ok_def
        mid_defs env_ok_def p_def)
  with r1 have r2: "tbox_reach 0 t2" by (rule tb_stepped)
  have "\<not> awake (e u')"
    using idle_quiet by (simp add: e_def awake_def pm_usb_wakeup_check_def pm_mcu_wakeup_check_def)
  moreover have "all_ready (e u') PM_MSG_SLEEP p"
    by (simp add: all_ready_def e_def uds_sleep_available_def u'_def)
  ultimately have "tbox_step 0 t2 t3"
    unfolding t3_def p_def
    by (intro tb_pm_moves [where env = "e u'"]) (simp_all add: t2_def t1_def t0_def e_def p_def bench_sleeps)
  moreover have "pm_state (tb_pm t2) = PM_ST_MCK_SLEEP" "pm_state (tb_pm t3) = PM_ST_SLEEP"
    using asleep_state by (simp_all add: t3_def t2_def t1_def p_def bench_in_fields)
  ultimately show ?thesis
    using sleep_after_faults_saved [OF r2, of t3] by auto
qed

end
