(* ===== verification/J1939.thy ===== *)
theory J1939
  imports Prelude
begin

text \<open>
  The faults other control units report on the vehicle bus: \<open>src/app/base/uds/J1939/J1939.c\<close>. The
  record \<open>j1939\<close> holds the statics of the file. Reports come as single frames or through the
  transport protocol in frames of seven bytes, which are collected per sender in \<open>dtc_buff\<close>; the
  faults named in a report are kept in the 256 entries of \<open>dtc_table\<close>.

  The clock, the date, the answers of the registered modules and the result of a save are read from
  \<open>j_env\<close>, the clock once per call. What the code does to the outside is appended to \<open>j_out\<close>. An
  access outside an array is \<^const>\<open>None\<close>.
\<close>

section \<open>Data\<close>

definition VEHI_FAULT_TABLE_NUM :: nat where "VEHI_FAULT_TABLE_NUM = 256"
definition DTC_TIMEOUT :: u64 where "DTC_TIMEOUT = 60000"
definition J1939_HEART_TIMER :: u32 where "J1939_HEART_TIMER = 9"
definition J1939_REQ_TIMER :: u32 where "J1939_REQ_TIMER = 10"
definition J1939_DM2_IDLE :: byte where "J1939_DM2_IDLE = 0"
definition J1939_DM2_BUSY :: byte where "J1939_DM2_BUSY = 1"
definition VF_NULL :: byte where "VF_NULL = 0"
definition VF_START :: byte where "VF_START = 1"
definition VF_END :: byte where "VF_END = 2"
definition J1939_DM1_MAX_REG :: nat where "J1939_DM1_MAX_REG = 4"
definition J_INVALID_PARA :: u32 where "J_INVALID_PARA = 0x0C000001"
definition J_PARA_OVERFLOW :: u32 where "J_PARA_OVERFLOW = 0x0C000003"

lemmas j1939_defs = VEHI_FAULT_TABLE_NUM_def J1939_HEART_TIMER_def J1939_REQ_TIMER_def J1939_DM2_IDLE_def
  J1939_DM2_BUSY_def VF_NULL_def VF_START_def VF_END_def

record DTC_T =
  spn :: u32
  fmi :: byte
  oc :: byte
  cm :: byte
  dtc_sa :: byte
  dtc_port :: byte

record VEHI_FAULT_DATA_T =
  vf_status :: byte
  startTime :: "byte list"
  endTime :: "byte list"
  update_time :: u64
  vf_dtc :: DTC_T

record DTC_MF_T =
  total_size :: u16
  mf_no :: byte
  total_no :: byte
  mf_buff :: "byte list"

record CAN_MSG =
  can_type :: byte
  can_len :: byte
  can_port :: byte
  MsgID :: u32
  can_data :: "byte list"

record RTCTIME =
  rtc_msec :: u16
  rtc_sec :: byte
  rtc_min :: byte
  rtc_hour :: byte
  rtc_mday :: byte
  rtc_mon :: byte
  rtc_week :: byte
  rtc_year :: u16

datatype j1939_effect =
  FaultNotify nat VEHI_FAULT_DATA_T
| JTimerStop u32
| JTimerStart u32 u32
| SaveFaults "VEHI_FAULT_DATA_T list"
| Dm2Answer nat "byte list" byte

record j1939 =
  dm2_da :: byte
  dm2_status :: byte
  dm2_func :: "nat option"
  dm1_used_num :: nat
  dm1_changed :: "nat option list"
  j_timer_switch :: "byte list"
  j_timer_value :: "u32 list"
  is_need_save :: byte
  dtc_buff :: "DTC_MF_T list"
  dtc_table :: "VEHI_FAULT_DATA_T list"
  start_misc :: u32
  end_misc :: u32
  scan_cnt :: int
  j_out :: "j1939_effect list"

record j_env =
  j_now :: u64
  j_abstime :: RTCTIME
  j_notify :: "nat \<Rightarrow> VEHI_FAULT_DATA_T \<Rightarrow> int"

definition j_emit :: "j1939_effect list \<Rightarrow> j1939 \<Rightarrow> j1939" where
  "j_emit es s = s\<lparr>j_out := j_out s @ es\<rparr>"

definition zero_dtc :: DTC_T where
  "zero_dtc = \<lparr>spn = 0, fmi = 0, oc = 0, cm = 0, dtc_sa = 0, dtc_port = 0\<rparr>"

definition zero_fault :: VEHI_FAULT_DATA_T where
  "zero_fault = \<lparr>vf_status = VF_NULL, startTime = replicate 5 0, endTime = replicate 5 0, update_time = 0,
     vf_dtc = zero_dtc\<rparr>"

definition zero_mf :: DTC_MF_T where
  "zero_mf = \<lparr>total_size = 0, mf_no = 0, total_no = 0, mf_buff = replicate 1792 0\<rparr>"

section \<open>Timers and the query of a unit\<close>

definition J1939_set_timer :: "u32 \<Rightarrow> byte \<Rightarrow> j1939 \<Rightarrow> j1939" where
  "J1939_set_timer i sw s =
     (if J1939_HEART_TIMER \<le> i then
        (let k = unat (i - J1939_HEART_TIMER); s1 = s\<lparr>j_timer_switch := (j_timer_switch s)[k := sw]\<rparr>
         in if sw = 1 then j_emit [JTimerStop i, JTimerStart i (j_timer_value s ! k)] s1
            else j_emit [JTimerStop i] s1)
      else s)"

text \<open>\<open>J1939_request\<close>, whose send is commented out.\<close>

definition J1939_request :: "byte list \<Rightarrow> u16 \<Rightarrow> j1939 \<Rightarrow> u32 \<times> j1939" where
  "J1939_request data len s = (0, s)"

definition J1939_dm2_request :: "byte \<Rightarrow> byte \<Rightarrow> nat option \<Rightarrow> j1939 \<Rightarrow> u32 \<times> j1939" where
  "J1939_dm2_request port da callback s =
     (if dm2_status s = J1939_DM2_BUSY then (ucast J1939_DM2_BUSY, s)
      else let buff = [0xF2, port, 0xff, da, 0xEA, 0, 3, 0, 0x00, 0xEA, 0x00];
               s1 = s\<lparr>dm2_da := da, dm2_status := J1939_DM2_BUSY, dm2_func := callback\<rparr>
           in J1939_request buff 11 (J1939_set_timer J1939_REQ_TIMER 1 s1))"

definition J1939_dm1_register :: "nat option \<Rightarrow> j1939 \<Rightarrow> u32 \<times> j1939" where
  "J1939_dm1_register callback s =
     (if callback = None then (J_INVALID_PARA, s)
      else if J1939_DM1_MAX_REG \<le> dm1_used_num s then (J_PARA_OVERFLOW, s)
      else (0, s\<lparr>dm1_changed := (dm1_changed s)[dm1_used_num s := callback], dm1_used_num := dm1_used_num s + 1\<rparr>))"

section \<open>The table of faults\<close>

text \<open>The bit fields of \<open>VEHI_FAULT_TIME_T\<close>, four bytes in memory.\<close>

definition vf_time :: "RTCTIME \<Rightarrow> byte list" where
  "vf_time t =
     (let w = ((ucast (rtc_sec t AND 0x3f) :: u32) OR push_bit 6 (ucast (rtc_min t AND 0x3f))
            OR push_bit 12 (ucast (rtc_hour t AND 0x1f)) OR push_bit 17 (ucast (rtc_mday t AND 0x1f))
            OR push_bit 22 (ucast (rtc_mon t AND 0xf)) OR push_bit 26 (ucast (rtc_year t AND 0x3f)))
      in [ucast w, ucast (drop_bit 8 w), ucast (drop_bit 16 w), ucast (drop_bit 24 w)])"

definition stamp :: "j_env \<Rightarrow> u32 \<Rightarrow> byte list" where
  "stamp env misc = (if rtc_year (j_abstime env) \<le> 2000 then replicate 4 0 else vf_time (j_abstime env)) @ [ucast misc]"

definition J1939_vehi_fault_start :: "j_env \<Rightarrow> DTC_T \<Rightarrow> nat \<Rightarrow> j1939 \<Rightarrow> j1939" where
  "J1939_vehi_fault_start env d i s =
     (let misc = (if 100 \<le> start_misc s then 0 else start_misc s)
      in s\<lparr>dtc_table := (dtc_table s)[i := \<lparr>vf_status = VF_START, startTime = stamp env misc,
             endTime = replicate 5 0, update_time = j_now env, vf_dtc = d\<rparr>],
           start_misc := misc + 1\<rparr>)"

definition J1939_vehi_fault_end :: "j_env \<Rightarrow> nat \<Rightarrow> j1939 \<Rightarrow> j1939" where
  "J1939_vehi_fault_end env i s =
     (let misc = (if 100 \<le> end_misc s then 0 else end_misc s)
      in s\<lparr>dtc_table := (dtc_table s)[i := (dtc_table s ! i)\<lparr>vf_status := VF_END, endTime := stamp env misc\<rparr>],
           end_misc := misc + 1\<rparr>)"

text \<open>The loops that tell the modules of an entry; the one of the scan stops at the first failure.\<close>

definition dm1_modules :: "j1939 \<Rightarrow> nat list" where
  "dm1_modules s = map the (take (dm1_used_num s) (dm1_changed s))"

definition notify_changed :: "nat \<Rightarrow> j1939 \<Rightarrow> j1939" where
  "notify_changed i s = j_emit (map (\<lambda>f. FaultNotify f (dtc_table s ! i)) (dm1_modules s)) s"

fun notify_until :: "j_env \<Rightarrow> VEHI_FAULT_DATA_T \<Rightarrow> nat list \<Rightarrow> j1939 \<Rightarrow> j1939" where
  "notify_until env e [] s = s"
| "notify_until env e (f # fs) s =
     (let s1 = j_emit [FaultNotify f e] s in if j_notify env f e \<noteq> 0 then s1 else notify_until env e fs s1)"

definition J1939_fault_save :: "j1939 \<Rightarrow> j1939" where
  "J1939_fault_save s = j_emit [SaveFaults (dtc_table s)] s"

fun scan_loop :: "j_env \<Rightarrow> nat list \<Rightarrow> j1939 \<Rightarrow> j1939" where
  "scan_loop env [] s = s"
| "scan_loop env (i # is) s =
     scan_loop env is
       (if vf_status (dtc_table s ! i) = VF_START \<and> DTC_TIMEOUT < j_now env - update_time (dtc_table s ! i)
        then (let s1 = J1939_vehi_fault_end env i s in notify_until env (dtc_table s1 ! i) (dm1_modules s1) s1)
        else s)"

definition J1939_vehi_fault_scan :: "j_env \<Rightarrow> j1939 \<Rightarrow> j1939" where
  "J1939_vehi_fault_scan env s =
     (let s1 = scan_loop env [0..<VEHI_FAULT_TABLE_NUM] s; s2 = s1\<lparr>scan_cnt := scan_cnt s1 + 1\<rparr>
      in if 5 \<le> scan_cnt s2 \<and> is_need_save s2 \<noteq> 0
         then J1939_fault_save (s2\<lparr>scan_cnt := 0, is_need_save := 0\<rparr>) else s2)"

definition J1939_timeout :: "j_env \<Rightarrow> u32 \<Rightarrow> j1939 \<Rightarrow> j1939" where
  "J1939_timeout env i s = (if i = J1939_HEART_TIMER then J1939_vehi_fault_scan env s else s)"

text \<open>The first index of an entry with a property, as the loops with a break find it.\<close>

fun first_index :: "('a \<Rightarrow> bool) \<Rightarrow> 'a list \<Rightarrow> nat option" where
  "first_index P [] = None"
| "first_index P (x # xs) = (if P x then Some 0 else map_option Suc (first_index P xs))"

definition dm1_one :: "j_env \<Rightarrow> DTC_T \<Rightarrow> j1939 \<Rightarrow> j1939" where
  "dm1_one env d s =
     (case first_index (\<lambda>e. spn (vf_dtc e) = spn d \<and> vf_status e = VF_START) (dtc_table s) of
        Some j \<Rightarrow>
          if fmi (vf_dtc (dtc_table s ! j)) \<noteq> fmi d then
            (let s1 = notify_changed j (J1939_vehi_fault_end env j s);
                 s2 = notify_changed j (J1939_vehi_fault_start env d j s1)
             in s2\<lparr>is_need_save := 1\<rparr>)
          else s\<lparr>dtc_table := (dtc_table s)[j := (dtc_table s ! j)\<lparr>update_time := j_now env\<rparr>]\<rparr>
      | None \<Rightarrow>
          (case first_index (\<lambda>e. vf_status e \<noteq> VF_START) (dtc_table s) of
             Some k \<Rightarrow> notify_changed k ((J1939_vehi_fault_start env d k s)\<lparr>is_need_save := 1\<rparr>)
           | None \<Rightarrow> s))"

definition J1939_dm1_pro :: "j_env \<Rightarrow> DTC_T list \<Rightarrow> j1939 \<Rightarrow> j1939" where
  "J1939_dm1_pro env ds s = fold (dm1_one env) ds s"

section \<open>Frames\<close>

definition dtc_of :: "byte \<Rightarrow> byte \<Rightarrow> byte \<Rightarrow> byte \<Rightarrow> byte \<Rightarrow> byte \<Rightarrow> DTC_T" where
  "dtc_of port sa b0 b1 b2 b3 =
     \<lparr>spn = ucast b0 + ucast b1 * 256 + ucast (drop_bit 5 b2) * 256 * 256, fmi = b2 AND 0x1f,
      oc = b3 AND 0x7f, cm = drop_bit 7 b3, dtc_sa = sa, dtc_port = port\<rparr>"

text \<open>
  The loop of \<open>J1939_add_dm_data\<close> from number \<open>i\<close> on, with \<open>temp_dtc\<close> of 256 entries; \<open>n\<close> is the number
  of codes left.
\<close>

fun parse_dtcs :: "byte \<Rightarrow> byte \<Rightarrow> byte list \<Rightarrow> nat \<Rightarrow> nat \<Rightarrow> DTC_T list option" where
  "parse_dtcs port sa buff i 0 = Some []"
| "parse_dtcs port sa buff i (Suc n) =
     (if 256 \<le> i then None
      else do {
        b0 \<leftarrow> byte_at buff (i * 4); b1 \<leftarrow> byte_at buff (i * 4 + 1);
        b2 \<leftarrow> byte_at buff (i * 4 + 2); b3 \<leftarrow> byte_at buff (i * 4 + 3);
        ds \<leftarrow> parse_dtcs port sa buff (Suc i) n;
        Some (dtc_of port sa b0 b1 b2 b3 # ds) })"

definition J1939_add_dm_data :: "j_env \<Rightarrow> byte \<Rightarrow> byte \<Rightarrow> byte list \<Rightarrow> nat \<Rightarrow> j1939 \<Rightarrow> j1939 option" where
  "J1939_add_dm_data env port sa data len s =
     (if len \<le> 2 then Some s
      else do {
        ds \<leftarrow> parse_dtcs port sa (drop 2 data) 0 ((len - 2) div 4);
        Some (if ds \<noteq> [] then J1939_dm1_pro env ds s else s) })"

definition upd_mf :: "byte \<Rightarrow> (DTC_MF_T \<Rightarrow> DTC_MF_T) \<Rightarrow> j1939 \<Rightarrow> j1939" where
  "upd_mf sa f s = s\<lparr>dtc_buff := (dtc_buff s)[unat sa := f (dtc_buff s ! unat sa)]\<rparr>"

definition J1939_msg_decode :: "j_env \<Rightarrow> u32 \<Rightarrow> byte \<Rightarrow> byte list \<Rightarrow> byte \<Rightarrow> j1939 \<Rightarrow> j1939 option" where
  "J1939_msg_decode env canid port data dlc s =
     (let sa = (ucast canid :: byte); pgn = drop_bit 8 canid AND 0x3ffff; mf = dtc_buff s ! unat sa in
      if pgn = 0xFECA then J1939_add_dm_data env port sa data (unat dlc) s
      else if pgn = 0xECFF then do {
        d1 \<leftarrow> byte_at data 1; d2 \<leftarrow> byte_at data 2; d3 \<leftarrow> byte_at data 3;
        Some (upd_mf sa (\<lambda>m. m\<lparr>total_size := push_bit 8 (ucast d2) OR ucast d1, total_no := d3, mf_no := 0\<rparr>) s) }
      else if pgn = 0xEBFF then do {
        cur_no \<leftarrow> byte_at data 0;
        if total_no mf < cur_no \<or> unat cur_no \<noteq> unat (mf_no mf) + 1
        then Some (upd_mf sa (\<lambda>m. m\<lparr>mf_no := 0, total_no := 0, total_size := 0\<rparr>) s)
        else do {
          part \<leftarrow> subarray data 1 7;
          buff \<leftarrow> blit (mf_buff mf) (7 * (unat cur_no - 1)) part 7;
          let s1 = upd_mf sa (\<lambda>m. m\<lparr>mf_no := cur_no, mf_buff := buff\<rparr>) s;
          if cur_no = total_no mf then do {
            s2 \<leftarrow> J1939_add_dm_data env port sa buff (unat (total_size mf)) s1;
            Some (upd_mf sa (\<lambda>m. m\<lparr>total_size := 0, total_no := 0, mf_no := 0\<rparr>) s2) }
          else Some s1 } }
      else if pgn = 0xFECB then
        (let s1 = J1939_set_timer J1939_REQ_TIMER 0 (s\<lparr>dm2_status := J1939_DM2_IDLE\<rparr>)
         in Some (case dm2_func s1 of None \<Rightarrow> s1 | Some f \<Rightarrow> j_emit [Dm2Answer f data dlc] s1))
      else Some s)"

fun can_msgs :: "j_env \<Rightarrow> CAN_MSG list \<Rightarrow> j1939 \<Rightarrow> j1939 option" where
  "can_msgs env [] s = Some s"
| "can_msgs env (m # ms) s = do {
     s1 \<leftarrow> (if can_type m \<noteq> 0x54 \<and> bit (MsgID m) 31
            then J1939_msg_decode env (MsgID m) (can_port m) (can_data m) (can_len m) s else Some s);
     can_msgs env ms s1 }"

definition J1939_can_callback :: "j_env \<Rightarrow> u32 \<Rightarrow> CAN_MSG list \<Rightarrow> j1939 \<Rightarrow> j1939 option" where
  "J1939_can_callback env event ms s = (if event = 1 then can_msgs env ms s else Some s)"

section \<open>Initialisation\<close>

definition J1939_statics :: j1939 where
  "J1939_statics = \<lparr>dm2_da = 0, dm2_status = 0, dm2_func = None, dm1_used_num = 0, dm1_changed = replicate 4 None,
     j_timer_switch = replicate 3 0, j_timer_value = replicate 3 0, is_need_save = 0, dtc_buff = replicate 256 zero_mf,
     dtc_table = replicate 256 zero_fault, start_misc = 0, end_misc = 0, scan_cnt = 0, j_out = []\<rparr>"

definition J1939_init_inside :: "j1939 \<Rightarrow> j1939" where
  "J1939_init_inside s = s\<lparr>dm2_da := 0, dm2_status := 0, dm2_func := None, dm1_used_num := 0,
     dm1_changed := replicate 4 None, j_timer_value := [60000, 3000, 1000]\<rparr>"

text \<open>\<open>INIT_PHASE_RESTORE\<close>: the result of \<open>rds_get\<close> and the table it leaves.\<close>

definition J1939_init_restore :: "int \<Rightarrow> VEHI_FAULT_DATA_T list \<Rightarrow> j1939 \<Rightarrow> int \<times> j1939" where
  "J1939_init_restore ret table s =
     (ret, s\<lparr>dtc_table := (if ret \<noteq> 0 then replicate VEHI_FAULT_TABLE_NUM zero_fault else table)\<rparr>)"

text \<open>\<open>INIT_PHASE_OUTSIDE\<close>: the disjunction of the results of the two timers and the registration.\<close>

definition J1939_init_outside :: "int \<Rightarrow> j1939 \<Rightarrow> int \<times> j1939" where
  "J1939_init_outside ret s =
     (if ret \<noteq> 0 then (ret, s) else (ret, j_emit [JTimerStart J1939_HEART_TIMER (j_timer_value s ! 0)] s))"


section \<open>The table as a map from faults to their last report\<close>

definition started :: "u32 \<Rightarrow> VEHI_FAULT_DATA_T \<Rightarrow> bool" where
  "started p e \<longleftrightarrow> spn (vf_dtc e) = p \<and> vf_status e = VF_START"

definition report_of :: "VEHI_FAULT_DATA_T \<Rightarrow> byte \<times> u64" where
  "report_of e = (fmi (vf_dtc e), update_time e)"

definition reports :: "VEHI_FAULT_DATA_T list \<Rightarrow> u32 \<rightharpoonup> byte \<times> u64" where
  "reports t p = map_option (\<lambda>i. report_of (t ! i)) (first_index (started p) t)"

text \<open>No fault has two entries that run.\<close>

definition uniq :: "VEHI_FAULT_DATA_T list \<Rightarrow> bool" where
  "uniq t \<longleftrightarrow> (\<forall>p. \<forall>i < length t. \<forall>j < length t. started p (t ! i) \<longrightarrow> started p (t ! j) \<longrightarrow> i = j)"

lemma first_index_Some:
  "first_index P xs = Some i \<Longrightarrow> i < length xs \<and> P (xs ! i)"
  by (induction xs arbitrary: i) (auto split: if_splits)

lemma first_index_None: "first_index P xs = None \<longleftrightarrow> (\<forall>i < length xs. \<not> P (xs ! i))"
  by (induction xs) (auto simp: nth_Cons split: nat.splits)

lemma reports_Some:
  assumes "uniq t"
  shows "reports t p = Some r \<longleftrightarrow> (\<exists>i < length t. started p (t ! i) \<and> report_of (t ! i) = r)"
proof
  assume "reports t p = Some r"
  then show "\<exists>i < length t. started p (t ! i) \<and> report_of (t ! i) = r"
    unfolding reports_def using first_index_Some by blast
next
  assume "\<exists>i < length t. started p (t ! i) \<and> report_of (t ! i) = r"
  then obtain i where i: "i < length t" "started p (t ! i)" "report_of (t ! i) = r" by blast
  then obtain j where j: "first_index (started p) t = Some j"
    using first_index_None [of "started p" t] by (cases "first_index (started p) t") auto
  then have "j = i" using first_index_Some [OF j] i assms unfolding uniq_def by blast
  then show "reports t p = Some r" using j i(3) by (simp add: reports_def)
qed

lemma option_eqI: "(\<And>r. a = Some r \<longleftrightarrow> b = Some r) \<Longrightarrow> a = b"
  by (metis option.exhaust)

lemma reports_update:
  assumes "uniq t" "i < length t" "\<forall>q j. started q e \<longrightarrow> j < length t \<longrightarrow> j \<noteq> i \<longrightarrow> \<not> started q (t ! j)"
  shows "uniq (t[i := e])"
    "reports (t[i := e]) p = (if started p e then Some (report_of e) else if started p (t ! i) then None else reports t p)"
proof -
  show u: "uniq (t[i := e])"
    unfolding uniq_def
  proof (intro allI impI)
    fix p j k
    assume jk: "j < length (t[i := e])" "k < length (t[i := e])" "started p (t[i := e] ! j)" "started p (t[i := e] ! k)"
    show "j = k"
    proof (cases "j = i \<or> k = i")
      case True
      then have e: "started p e" using jk assms(2) by auto
      have "\<not> started p (t ! m)" if "m < length t" "m \<noteq> i" for m using assms(3) e that by blast
      then show ?thesis using jk by (metis length_list_update nth_list_update_neq)
    next
      case False
      then have "started p (t ! j)" "started p (t ! k)" "j < length t" "k < length t" using jk by auto
      then show ?thesis using assms(1) unfolding uniq_def by blast
    qed
  qed
  have *: "reports (t[i := e]) p = Some r \<longleftrightarrow>
      (if started p e then Some (report_of e) else if started p (t ! i) then None else reports t p) = Some r" for r
  proof (cases "started p e")
    case True
    have "\<not> started p (t[i := e] ! j)" if "j < length t" "j \<noteq> i" for j
      using that assms(3) True by simp
    then have "(\<exists>j < length (t[i := e]). started p (t[i := e] ! j) \<and> report_of (t[i := e] ! j) = r) \<longleftrightarrow> report_of e = r"
      using True assms(2) by (metis length_list_update nth_list_update_eq)
    then show ?thesis using True reports_Some [OF u] by simp
  next
    case False
    show ?thesis
    proof (cases "started p (t ! i)")
      case True
      have "\<not> started p (t ! j)" if "j < length t" "j \<noteq> i" for j
        using that True assms(1,2) unfolding uniq_def by blast
      then have "\<not> (\<exists>j < length (t[i := e]). started p (t[i := e] ! j) \<and> report_of (t[i := e] ! j) = r)"
        using False assms(2) by (auto simp: nth_list_update split: if_splits)
      then show ?thesis using False True reports_Some [OF u] by simp
    next
      case not_i: False
      have "(\<exists>j < length (t[i := e]). started p (t[i := e] ! j) \<and> report_of (t[i := e] ! j) = r) \<longleftrightarrow>
          (\<exists>j < length t. started p (t ! j) \<and> report_of (t ! j) = r)"
        using False not_i by (metis length_list_update nth_list_update_eq nth_list_update_neq)
      then show ?thesis using False not_i reports_Some [OF u] reports_Some [OF assms(1)] by simp
    qed
  qed
  then show "reports (t[i := e]) p = (if started p e then Some (report_of e)
     else if started p (t ! i) then None else reports t p)" by (rule option_eqI)
qed

lemma dom_reports: "p \<in> dom (reports t) \<longleftrightarrow> (\<exists>i < length t. started p (t ! i))"
  using first_index_None [of "started p" t] by (auto simp: reports_def dom_def)

text \<open>A table in which fewer faults run than it has entries has a free one.\<close>

lemma free_entry:
  assumes "uniq t" "card (dom (reports t)) < length t"
  shows "first_index (\<lambda>e. vf_status e \<noteq> VF_START) t \<noteq> None"
proof
  assume "first_index (\<lambda>e. vf_status e \<noteq> VF_START) t = None"
  then have all: "\<forall>i < length t. vf_status (t ! i) = VF_START" by (simp add: first_index_None)
  have inj: "inj_on (\<lambda>i. spn (vf_dtc (t ! i))) {..<length t}"
    using assms(1) all unfolding inj_on_def uniq_def started_def by simp
  have "(\<lambda>i. spn (vf_dtc (t ! i))) ` {..<length t} \<subseteq> dom (reports t)"
    using all by (intro image_subsetI) (simp only: dom_reports started_def, blast)
  then have "card ((\<lambda>i. spn (vf_dtc (t ! i))) ` {..<length t}) \<le> card (dom (reports t))"
    by (intro card_mono) simp_all
  then show False using card_image [OF inj] assms(2) by simp
qed

section \<open>Reports\<close>

lemma table_emit [simp]: "dtc_table (j_emit es s) = dtc_table s"
  by (simp add: j_emit_def)

lemma table_notify [simp]: "dtc_table (notify_changed i s) = dtc_table s"
  by (simp add: notify_changed_def)

lemma table_start [simp]: "dtc_table (J1939_vehi_fault_start env d i s) = (dtc_table s)[i :=
    \<lparr>vf_status = VF_START, startTime = stamp env (if 100 \<le> start_misc s then 0 else start_misc s),
     endTime = replicate 5 0, update_time = j_now env, vf_dtc = d\<rparr>]"
  by (simp add: J1939_vehi_fault_start_def Let_def)

lemma table_end [simp]: "dtc_table (J1939_vehi_fault_end env i s) = (dtc_table s)[i :=
    (dtc_table s ! i)\<lparr>vf_status := VF_END, endTime := stamp env (if 100 \<le> end_misc s then 0 else end_misc s)\<rparr>]"
  by (simp add: J1939_vehi_fault_end_def Let_def)

text \<open>An entry of the fault takes the place \<open>i\<close>.\<close>

lemma entry_placed:
  assumes "uniq t" "i < length t" "started (spn d) e" "report_of e = (fmi d, now)"
    "started (spn d) (t ! i) \<or> vf_status (t ! i) \<noteq> VF_START \<and> reports t (spn d) = None"
  shows "uniq (t[i := e])" "reports (t[i := e]) = (reports t)(spn d \<mapsto> (fmi d, now))"
proof -
  have only: "\<forall>q. started q e \<longrightarrow> q = spn d" using assms(3) by (simp add: started_def)
  have "\<not> started (spn d) (t ! j)" if "j < length t" "j \<noteq> i" for j
    using assms(1,2,5) that unfolding uniq_def reports_def by (auto simp: first_index_None)
  then have others: "\<forall>q j. started q e \<longrightarrow> j < length t \<longrightarrow> j \<noteq> i \<longrightarrow> \<not> started q (t ! j)"
    using only by blast
  show "uniq (t[i := e])" by (rule reports_update(1) [OF assms(1,2) others])
  show "reports (t[i := e]) = (reports t)(spn d \<mapsto> (fmi d, now))"
  proof
    fix p
    have "started p (t ! i) \<Longrightarrow> p = spn d" using assms(5) by (auto simp: started_def)
    then have "\<not> started p e \<and> \<not> started p (t ! i)" if "p \<noteq> spn d" using only that by blast
    then show "reports (t[i := e]) p = ((reports t)(spn d \<mapsto> (fmi d, now))) p"
      using reports_update(2) [OF assms(1,2) others, of p] assms(3,4) by (cases "p = spn d") simp_all
  qed
qed

lemma dm1_one_reports:
  assumes "uniq (dtc_table s)" "length (dtc_table s) = 256"
  shows "uniq (dtc_table (dm1_one env d s)) \<and> length (dtc_table (dm1_one env d s)) = 256 \<and>
    (spn d \<in> dom (reports (dtc_table s)) \<or> card (dom (reports (dtc_table s))) < 256 \<longrightarrow>
     reports (dtc_table (dm1_one env d s)) = (reports (dtc_table s))(spn d \<mapsto> (fmi d, j_now env)))"
proof -
  let ?t = "dtc_table s"
  have P: "(\<lambda>e. spn (vf_dtc e) = spn d \<and> vf_status e = VF_START) = started (spn d)"
    by (simp add: fun_eq_iff started_def)
  show ?thesis
  proof (cases "first_index (started (spn d)) ?t")
    case None
    then have n: "reports ?t (spn d) = None" by (simp add: reports_def)
    show ?thesis
    proof (cases "first_index (\<lambda>e. vf_status e \<noteq> VF_START) ?t")
      case None': None
      then have "\<not> card (dom (reports ?t)) < 256" using free_entry [OF assms(1)] assms(2) by auto
      then show ?thesis using None None' n assms by (simp add: dm1_one_def P dom_def)
    next
      case (Some k)
      note k = first_index_Some [OF Some]
      let ?e = "\<lparr>vf_status = VF_START, startTime = stamp env (if 100 \<le> start_misc s then 0 else start_misc s),
        endTime = replicate 5 0, update_time = j_now env, vf_dtc = d\<rparr>"
      have e: "started (spn d) ?e" "report_of ?e = (fmi d, j_now env)" by (simp_all add: started_def report_of_def)
      have "dtc_table (dm1_one env d s) = ?t[k := ?e]" using None Some by (simp add: dm1_one_def P)
      then show ?thesis using entry_placed [OF assms(1) _ e] k n assms(2) by simp
    qed
  next
    case (Some j)
    note j = first_index_Some [OF Some]
    show ?thesis
    proof (cases "fmi (vf_dtc (?t ! j)) = fmi d")
      case True
      let ?e = "(?t ! j)\<lparr>update_time := j_now env\<rparr>"
      have e: "started (spn d) ?e" "report_of ?e = (fmi d, j_now env)"
        using j True by (simp_all add: started_def report_of_def)
      have "dtc_table (dm1_one env d s) = ?t[j := ?e]" using Some True by (simp add: dm1_one_def P)
      then show ?thesis using entry_placed [OF assms(1) _ e] j assms(2) by simp
    next
      case False
      let ?e = "\<lparr>vf_status = VF_START, startTime = stamp env (if 100 \<le> start_misc s then 0 else start_misc s),
        endTime = replicate 5 0, update_time = j_now env, vf_dtc = d\<rparr>"
      have e: "started (spn d) ?e" "report_of ?e = (fmi d, j_now env)" by (simp_all add: started_def report_of_def)
      have "start_misc (notify_changed j (J1939_vehi_fault_end env j s)) = start_misc s"
        by (simp add: notify_changed_def j_emit_def J1939_vehi_fault_end_def Let_def)
      then have "dtc_table (dm1_one env d s) = ?t[j := ?e]" using Some False by (simp add: dm1_one_def P Let_def)
      then show ?thesis using entry_placed [OF assms(1) _ e] j assms(2) by simp
    qed
  qed
qed

lemma dm1_pro_reports:
  assumes "uniq (dtc_table s)" "length (dtc_table s) = 256"
  shows "uniq (dtc_table (J1939_dm1_pro env ds s)) \<and> length (dtc_table (J1939_dm1_pro env ds s)) = 256 \<and>
    (card (dom (reports (dtc_table s)) \<union> spn ` set ds) \<le> 256 \<longrightarrow>
     reports (dtc_table (J1939_dm1_pro env ds s)) =
       fold (\<lambda>d m. m(spn d \<mapsto> (fmi d, j_now env))) ds (reports (dtc_table s)))"
  unfolding J1939_dm1_pro_def using assms
proof (induction ds arbitrary: s)
  case (Cons d ds)
  let ?m = "reports (dtc_table s)" and ?s = "dm1_one env d s"
  note one = dm1_one_reports [OF Cons.prems, of env d]
  have room: "spn d \<in> dom ?m \<or> card (dom ?m) < 256" if "card (dom ?m \<union> spn ` set (d # ds)) \<le> 256"
  proof (rule disjCI)
    assume "\<not> card (dom ?m) < 256"
    moreover have "card (insert (spn d) (dom ?m)) \<le> card (dom ?m \<union> spn ` set (d # ds))" by (intro card_mono) auto
    ultimately show "spn d \<in> dom ?m" using that by (auto simp: card_insert_if split: if_splits)
  qed
  define n where "n = reports (dtc_table ?s)"
  have IH: "uniq (dtc_table (fold (dm1_one env) ds ?s)) \<and> length (dtc_table (fold (dm1_one env) ds ?s)) = 256 \<and>
     (card (dom n \<union> spn ` set ds) \<le> 256 \<longrightarrow>
      reports (dtc_table (fold (dm1_one env) ds ?s)) = fold (\<lambda>d m. m(spn d \<mapsto> (fmi d, j_now env))) ds n)"
    unfolding n_def using Cons.IH [of ?s] one by blast
  have nm: "n = ?m(spn d \<mapsto> (fmi d, j_now env)) \<and> dom n \<union> spn ` set ds = dom ?m \<union> spn ` set (d # ds)"
    if "card (dom ?m \<union> spn ` set (d # ds)) \<le> 256"
  proof -
    have "n = ?m(spn d \<mapsto> (fmi d, j_now env))" unfolding n_def using one room [OF that] by blast
    then show ?thesis by auto
  qed
  have "reports (dtc_table (fold (dm1_one env) ds ?s)) =
      fold (\<lambda>d m. m(spn d \<mapsto> (fmi d, j_now env))) ds (?m(spn d \<mapsto> (fmi d, j_now env)))"
    if c: "card (dom ?m \<union> spn ` set (d # ds)) \<le> 256"
  proof -
    have "card (dom n \<union> spn ` set ds) \<le> 256" using nm [OF c] c by argo
    then have "reports (dtc_table (fold (dm1_one env) ds ?s)) = fold (\<lambda>d m. m(spn d \<mapsto> (fmi d, j_now env))) ds n"
      using IH by blast
    then show ?thesis using nm [OF c] by argo
  qed
  then show ?case using IH unfolding fold_simps by blast
qed simp

section \<open>The scan\<close>

definition expired :: "j_env \<Rightarrow> VEHI_FAULT_DATA_T \<Rightarrow> bool" where
  "expired env e \<longleftrightarrow> vf_status e = VF_START \<and> DTC_TIMEOUT < j_now env - update_time e"

lemma table_notify_until [simp]: "dtc_table (notify_until env e fs s) = dtc_table s"
  by (induction fs arbitrary: s) (simp_all add: Let_def)

lemma scan_loop_table:
  assumes "distinct is" "set is \<subseteq> {..<length (dtc_table s)}"
  shows "length (dtc_table (scan_loop env is s)) = length (dtc_table s) \<and>
    (\<forall>i < length (dtc_table s).
       (if i \<in> set is \<and> expired env (dtc_table s ! i)
        then \<exists>x. dtc_table (scan_loop env is s) ! i = (dtc_table s ! i)\<lparr>vf_status := VF_END, endTime := x\<rparr>
        else dtc_table (scan_loop env is s) ! i = dtc_table s ! i))"
  using assms
proof (induction "is" arbitrary: s)
  case (Cons k ks)
  define s1 where "s1 = (if vf_status (dtc_table s ! k) = VF_START \<and> DTC_TIMEOUT < j_now env - update_time (dtc_table s ! k)
        then (let s1 = J1939_vehi_fault_end env k s in notify_until env (dtc_table s1 ! k) (dm1_modules s1) s1)
        else s)"
  have t: "dtc_table s1 = (if expired env (dtc_table s ! k) then (dtc_table s)[k :=
      (dtc_table s ! k)\<lparr>vf_status := VF_END, endTime := stamp env (if 100 \<le> end_misc s then 0 else end_misc s)\<rparr>]
      else dtc_table s)"
    by (simp add: s1_def expired_def Let_def)
  then have len: "length (dtc_table s1) = length (dtc_table s)" by simp
  have nth: "dtc_table s1 ! i = (if i = k \<and> expired env (dtc_table s ! k)
      then (dtc_table s ! k)\<lparr>vf_status := VF_END, endTime := stamp env (if 100 \<le> end_misc s then 0 else end_misc s)\<rparr>
      else dtc_table s ! i)" if "i < length (dtc_table s)" for i
    using that by (simp add: t)
  have IH: "length (dtc_table (scan_loop env ks s1)) = length (dtc_table s) \<and>
    (\<forall>i < length (dtc_table s).
       (if i \<in> set ks \<and> expired env (dtc_table s1 ! i)
        then \<exists>x. dtc_table (scan_loop env ks s1) ! i = (dtc_table s1 ! i)\<lparr>vf_status := VF_END, endTime := x\<rparr>
        else dtc_table (scan_loop env ks s1) ! i = dtc_table s1 ! i))"
    using Cons.IH [of s1] Cons.prems unfolding len by simp
  have k: "k \<notin> set ks" using Cons.prems(1) by simp
  show ?case
    unfolding scan_loop.simps s1_def [symmetric]
  proof (intro conjI allI impI)
    fix i assume i: "i < length (dtc_table s)"
    show "if i \<in> set (k # ks) \<and> expired env (dtc_table s ! i)
      then \<exists>x. dtc_table (scan_loop env ks s1) ! i = (dtc_table s ! i)\<lparr>vf_status := VF_END, endTime := x\<rparr>
      else dtc_table (scan_loop env ks s1) ! i = dtc_table s ! i"
    proof (cases "i = k")
      case True
      then show ?thesis using IH i k nth [OF i] by auto
    next
      case False
      then show ?thesis using IH i nth [OF i] by auto
    qed
  qed (use IH in simp)
qed simp

text \<open>A report survives the scan unless it is more than a minute old.\<close>

definition fresh :: "j_env \<Rightarrow> byte \<times> u64 \<Rightarrow> bool" where
  "fresh env r \<longleftrightarrow> j_now env - snd r \<le> DTC_TIMEOUT"

definition keep_fresh :: "j_env \<Rightarrow> (u32 \<rightharpoonup> byte \<times> u64) \<Rightarrow> u32 \<rightharpoonup> byte \<times> u64" where
  "keep_fresh env m p = (case m p of Some r \<Rightarrow> if fresh env r then Some r else None | None \<Rightarrow> None)"

lemma scan_table:
  assumes "length (dtc_table s) = 256"
  shows "length (dtc_table (J1939_vehi_fault_scan env s)) = 256 \<and>
    (\<forall>i < 256. if expired env (dtc_table s ! i)
       then \<exists>x. dtc_table (J1939_vehi_fault_scan env s) ! i = (dtc_table s ! i)\<lparr>vf_status := VF_END, endTime := x\<rparr>
       else dtc_table (J1939_vehi_fault_scan env s) ! i = dtc_table s ! i)"
proof -
  have "dtc_table (J1939_vehi_fault_scan env s) = dtc_table (scan_loop env [0..<256] s)"
    by (simp add: J1939_vehi_fault_scan_def J1939_fault_save_def Let_def VEHI_FAULT_TABLE_NUM_def)
  moreover have "set [0..<256] \<subseteq> {..<length (dtc_table s)}" using assms by auto
  ultimately show ?thesis
    using scan_loop_table [of "[0..<256]" s env] assms by simp
qed

lemma scan_reports:
  assumes "uniq (dtc_table s)" "length (dtc_table s) = 256"
  shows "uniq (dtc_table (J1939_vehi_fault_scan env s))"
    "reports (dtc_table (J1939_vehi_fault_scan env s)) = keep_fresh env (reports (dtc_table s))"
proof -
  let ?t = "dtc_table s" and ?u = "dtc_table (J1939_vehi_fault_scan env s)"
  note u = scan_table [OF assms(2), of env]
  have st: "started p (?u ! i) \<longleftrightarrow> started p (?t ! i) \<and> \<not> expired env (?t ! i)"
    and same: "started p (?u ! i) \<Longrightarrow> ?u ! i = ?t ! i" if "i < 256" for i p
    using u that by (auto simp: started_def VF_END_def VF_START_def split: if_splits)
  show un: "uniq ?u"
    using assms u st unfolding uniq_def by metis
  have fr: "fresh env (report_of e) \<longleftrightarrow> \<not> expired env e" if "started p e" for p e
    using that by (auto simp: fresh_def report_of_def expired_def started_def not_le)
  have eq: "reports ?u p = Some r \<longleftrightarrow> reports ?t p = Some r \<and> fresh env r" for p r
    unfolding reports_Some [OF un] reports_Some [OF assms(1)] assms(2) u [THEN conjunct1]
    using st same fr by metis
  show "reports ?u = keep_fresh env (reports ?t)"
  proof
    fix p
    show "reports ?u p = keep_fresh env (reports ?t) p"
      by (rule option_eqI) (auto simp: eq keep_fresh_def split: option.splits)
  qed
qed

section \<open>The invariant\<close>

definition j_ok :: "j1939 \<Rightarrow> bool" where
  "j_ok s \<longleftrightarrow> uniq (dtc_table s) \<and> length (dtc_table s) = 256 \<and> length (dtc_buff s) = 256 \<and>
     (\<forall>m \<in> set (dtc_buff s). length (mf_buff m) = 1792) \<and>
     dm1_used_num s \<le> 4 \<and> length (dm1_changed s) = 4 \<and>
     (\<forall>f \<in> set (take (dm1_used_num s) (dm1_changed s)). f \<noteq> None) \<and>
     length (j_timer_value s) = 3 \<and> length (j_timer_switch s) = 3"

lemmas dm1_one_cases = dm1_one_def notify_changed_def j_emit_def J1939_vehi_fault_start_def J1939_vehi_fault_end_def

lemma dm1_one_frame [simp]:
  "dtc_buff (dm1_one env d s) = dtc_buff s" "dm1_used_num (dm1_one env d s) = dm1_used_num s"
  "dm1_changed (dm1_one env d s) = dm1_changed s" "j_timer_value (dm1_one env d s) = j_timer_value s"
  "j_timer_switch (dm1_one env d s) = j_timer_switch s" "dm2_status (dm1_one env d s) = dm2_status s"
  by (simp_all add: dm1_one_cases Let_def split: option.split)

lemma dm1_pro_frame [simp]:
  "dtc_buff (J1939_dm1_pro env ds s) = dtc_buff s" "dm1_used_num (J1939_dm1_pro env ds s) = dm1_used_num s"
  "dm1_changed (J1939_dm1_pro env ds s) = dm1_changed s" "j_timer_value (J1939_dm1_pro env ds s) = j_timer_value s"
  "j_timer_switch (J1939_dm1_pro env ds s) = j_timer_switch s" "dm2_status (J1939_dm1_pro env ds s) = dm2_status s"
  unfolding J1939_dm1_pro_def by (induction ds arbitrary: s) simp_all

lemma dm1_modules_buff [simp]: "dm1_modules (s\<lparr>dtc_buff := b\<rparr>) = dm1_modules s"
  by (simp add: dm1_modules_def)

lemma dm1_one_buff: "dm1_one env d (s\<lparr>dtc_buff := b\<rparr>) = (dm1_one env d s)\<lparr>dtc_buff := b\<rparr>"
  by (simp add: dm1_one_cases dm1_modules_def Let_def split: option.split)

lemma dm1_pro_buff: "J1939_dm1_pro env ds (s\<lparr>dtc_buff := b\<rparr>) = (J1939_dm1_pro env ds s)\<lparr>dtc_buff := b\<rparr>"
  unfolding J1939_dm1_pro_def by (induction ds arbitrary: s) (simp_all add: dm1_one_buff)

lemma dm1_pro_ok: "j_ok s \<Longrightarrow> j_ok (J1939_dm1_pro env ds s)"
  using dm1_pro_reports [of s env ds] by (simp add: j_ok_def)

lemma upd_mf_ok:
  "j_ok s \<Longrightarrow> length (mf_buff (f (dtc_buff s ! unat sa))) = 1792 \<Longrightarrow> j_ok (upd_mf sa f s)"
  by (auto simp: j_ok_def upd_mf_def dest!: set_update_subset_insert [THEN subsetD])

lemma buff_length: "j_ok s \<Longrightarrow> length (mf_buff (dtc_buff s ! unat (sa :: byte))) = 1792"
  using unat_u8_less [of sa] by (simp add: j_ok_def)

section \<open>Frames\<close>

definition code_at :: "byte \<Rightarrow> byte \<Rightarrow> byte list \<Rightarrow> nat \<Rightarrow> DTC_T" where
  "code_at port sa buff k = dtc_of port sa (buff ! (k * 4)) (buff ! (k * 4 + 1)) (buff ! (k * 4 + 2)) (buff ! (k * 4 + 3))"

text \<open>The trouble codes of a message: four bytes each, behind the two of the lamps.\<close>

definition codes :: "byte \<Rightarrow> byte \<Rightarrow> byte list \<Rightarrow> DTC_T list" where
  "codes port sa msg = map (code_at port sa (drop 2 msg)) [0..<(length msg - 2) div 4]"

lemma parse_dtcs_all:
  "i + n \<le> 256 \<Longrightarrow> 4 * (i + n) \<le> length buff \<Longrightarrow>
   parse_dtcs port sa buff i n = Some (map (code_at port sa buff) [i..<i + n])"
proof (induction n arbitrary: i)
  case (Suc n)
  then show ?case using Suc.IH [of "Suc i"] by (simp add: code_at_def upt_conv_Cons del: upt_Suc)
qed simp

lemma code_at_take: "4 * k + 4 \<le> n \<Longrightarrow> code_at port sa (take n buff) k = code_at port sa buff k"
  by (simp add: code_at_def)

lemma add_dm_data:
  assumes "len \<le> 1029" "len \<le> length data"
  shows "J1939_add_dm_data env port sa data len s = Some (J1939_dm1_pro env (codes port sa (take len data)) s)"
proof (cases "len \<le> 2")
  case True
  then show ?thesis by (simp add: J1939_add_dm_data_def codes_def J1939_dm1_pro_def)
next
  case False
  define n where "n = (len - 2) div 4"
  have n: "n \<le> 256" "4 * n \<le> len - 2" "4 * n \<le> length (drop 2 data)" using assms False by (auto simp: n_def)
  have "parse_dtcs port sa (drop 2 data) 0 n = Some (map (code_at port sa (drop 2 data)) [0..<n])"
    using parse_dtcs_all [of 0 n "drop 2 data" port sa] n by simp
  moreover have "codes port sa (take len data) = map (code_at port sa (drop 2 data)) [0..<n]"
    using assms(2) n(2) by (simp add: codes_def drop_take code_at_take flip: n_def)
  ultimately show ?thesis
    using False by (simp add: J1939_add_dm_data_def J1939_dm1_pro_def flip: n_def)
qed

end
