(* ===== verification/J1939Props.thy ===== *)
theory J1939Props
  imports J1939
begin

text \<open>
  The properties of the vehicle fault module: the table as a map of last reports, reassembly of long
  reports, what every reachable state withstands, and the two ways it fails.
\<close>

section \<open>One frame\<close>

abbreviation pgn_of :: "u32 \<Rightarrow> u32" where
  "pgn_of canid \<equiv> drop_bit 8 canid AND 0x3ffff"

definition announced :: "byte list \<Rightarrow> u16" where
  "announced data = push_bit 8 (ucast (data ! 2)) OR ucast (data ! 1)"

text \<open>No report announced has more than 256 trouble codes.\<close>

definition sizes_ok :: "j1939 \<Rightarrow> bool" where
  "sizes_ok s \<longleftrightarrow> (\<forall>m \<in> set (dtc_buff s). unat (total_size m) \<le> 1029)"

lemma upd_mf_upd [simp]: "length (dtc_buff s) = 256 \<Longrightarrow> upd_mf sa f (upd_mf sa g s) = upd_mf sa (f \<circ> g) s"
  using unat_u8_less [of sa] by (simp add: upd_mf_def)

lemma upd_mf_nth [simp]: "length (dtc_buff s) = 256 \<Longrightarrow> dtc_buff (upd_mf sa f s) ! unat sa = f (dtc_buff s ! unat sa)"
  using unat_u8_less [of sa] by (simp add: upd_mf_def)

lemma upd_mf_length [simp]: "length (dtc_buff (upd_mf sa f s)) = length (dtc_buff s)"
  by (simp add: upd_mf_def)

lemma upd_mf_sizes:
  "sizes_ok s \<Longrightarrow> unat (total_size (f (dtc_buff s ! unat sa))) \<le> 1029 \<Longrightarrow> sizes_ok (upd_mf sa f s)"
  by (auto simp: sizes_ok_def upd_mf_def dest!: set_update_subset_insert [THEN subsetD])

lemma size_at: "j_ok s \<Longrightarrow> sizes_ok s \<Longrightarrow> unat (total_size (dtc_buff s ! unat (sa :: byte))) \<le> 1029"
  using unat_u8_less [of sa] by (simp add: j_ok_def sizes_ok_def)

lemma set_timer_ok: "j_ok s \<Longrightarrow> j_ok (J1939_set_timer i sw s)"
  by (simp add: J1939_set_timer_def j_emit_def j_ok_def Let_def)

lemma set_timer_frame [simp]:
  "dtc_buff (J1939_set_timer i sw s) = dtc_buff s" "dtc_table (J1939_set_timer i sw s) = dtc_table s"
  "dm2_status (J1939_set_timer i sw s) = dm2_status s" "dm2_func (J1939_set_timer i sw s) = dm2_func s"
  by (simp_all add: J1939_set_timer_def j_emit_def Let_def)

lemma emit_ok [simp]: "j_ok (j_emit es s) = j_ok s" "sizes_ok (j_emit es s) = sizes_ok s"
  by (simp_all add: j_ok_def sizes_ok_def) (simp_all add: j_emit_def)

definition frame_fits :: "byte list \<Rightarrow> byte \<Rightarrow> bool" where
  "frame_fits data dlc \<longleftrightarrow> length data = 8 \<and> dlc \<le> 8"

text \<open>A data frame that is the next one expected puts its seven bytes behind those collected.\<close>

definition with_part :: "DTC_MF_T \<Rightarrow> byte list \<Rightarrow> DTC_MF_T" where
  "with_part m data = m\<lparr>mf_no := data ! 0, mf_buff := take (7 * unat (mf_no m)) (mf_buff m) @ take 7 (drop 1 data) @
     drop (7 * unat (mf_no m) + 7) (mf_buff m)\<rparr>"

definition mf_clear :: "DTC_MF_T \<Rightarrow> DTC_MF_T" where
  "mf_clear m = m\<lparr>total_size := 0, total_no := 0, mf_no := 0\<rparr>"

lemma mf_clear_reset: "m\<lparr>mf_no := 0, total_no := 0, total_size := 0\<rparr> = mf_clear m"
  by (cases m) (simp add: mf_clear_def)

lemma decode_data:
  fixes sa :: byte
  assumes "pgn_of canid = 0xEBFF" "ucast canid = sa" "length data = 8"
    "length (mf_buff (dtc_buff s ! unat sa)) = 1792" "length (dtc_buff s) = 256"
    "data ! 0 \<le> total_no (dtc_buff s ! unat sa)" "unat (data ! 0) = unat (mf_no (dtc_buff s ! unat sa)) + 1"
  shows "J1939_msg_decode env canid port data dlc s =
    (let s1 = upd_mf sa (\<lambda>m. with_part m data) s; m = dtc_buff s1 ! unat sa
     in if data ! 0 = total_no m then
          J1939_add_dm_data env port sa (mf_buff m) (unat (total_size m)) s1 \<bind> (\<lambda>s2. Some (upd_mf sa mf_clear s2))
        else Some s1)"
proof -
  define mf where "mf = dtc_buff s ! unat sa"
  define k where "k = 7 * unat (mf_no mf)"
  define buff where "buff = take k (mf_buff mf) @ take 7 (drop 1 data) @ drop (k + 7) (mf_buff mf)"
  have k: "k + 7 \<le> 1792" "7 * (unat (data ! 0) - 1) = k"
    using unat_u8_less [of "data ! 0"] assms(7) by (simp_all add: k_def mf_def)
  then have b: "blit (mf_buff mf) (7 * (unat (data ! 0) - 1)) (take 7 (drop 1 data)) 7 = Some buff"
    using assms(3,4) by (simp add: buff_def mf_def)
  have part: "upd_mf sa (\<lambda>m. with_part m data) s = upd_mf sa (\<lambda>m. m\<lparr>mf_no := data ! 0, mf_buff := buff\<rparr>) s"
    using assms(5) by (simp add: upd_mf_def with_part_def buff_def k_def mf_def)
  have "\<not> (total_no mf < data ! 0 \<or> unat (data ! 0) \<noteq> unat (mf_no mf) + 1)"
    using assms(6,7) by (simp add: mf_def)
  then show ?thesis
    using assms(1-3,5) b unfolding part mf_clear_def [abs_def]
    by (simp add: J1939_msg_decode_def Let_def flip: mf_def)
qed

lemma with_part_length: "length (mf_buff m) = 1792 \<Longrightarrow> length data = 8 \<Longrightarrow> unat (mf_no m) < 255 \<Longrightarrow>
  length (mf_buff (with_part m data)) = 1792"
  by (simp add: with_part_def)

lemma with_part_fields [simp]: "total_size (with_part m data) = total_size m" "total_no (with_part m data) = total_no m"
  "mf_no (with_part m data) = data ! 0"
  by (simp_all add: with_part_def)

lemma data_frame:
  fixes sa :: byte
  assumes "j_ok s" "sizes_ok s" "length data = 8" "pgn_of canid = 0xEBFF" "ucast canid = sa"
  shows "\<exists>s'. J1939_msg_decode env canid port data dlc s = Some s' \<and> j_ok s' \<and> sizes_ok s'"
proof -
  define mf where "mf = dtc_buff s ! unat sa"
  have len: "length (mf_buff mf) = 1792" "length (dtc_buff s) = 256"
    using buff_length [OF assms(1)] assms(1) by (simp_all add: mf_def j_ok_def)
  have sz: "unat (total_size mf) \<le> 1029" using size_at [OF assms(1,2)] by (simp add: mf_def)
  show ?thesis
  proof (cases "data ! 0 \<le> total_no mf \<and> unat (data ! 0) = unat (mf_no mf) + 1")
    case False
    let ?s = "upd_mf sa mf_clear s"
    have "J1939_msg_decode env canid port data dlc s = Some ?s"
      using False assms(3-5) by (auto simp: J1939_msg_decode_def Let_def mf_def mf_clear_reset upd_mf_def)
    moreover have "j_ok ?s" "sizes_ok ?s"
      using upd_mf_ok [OF assms(1)] upd_mf_sizes [OF assms(2)] len by (simp_all add: mf_def mf_clear_def)
    ultimately show ?thesis by blast
  next
    case True
    define s1 where "s1 = upd_mf sa (\<lambda>m. with_part m data) s"
    define m where "m = dtc_buff s1 ! unat sa"
    have "unat (mf_no mf) < 255" using unat_u8_less [of "data ! 0"] True by simp
    then have s1: "j_ok s1" "sizes_ok s1"
      using upd_mf_ok [OF assms(1)] upd_mf_sizes [OF assms(2)] with_part_length [OF len(1) assms(3)] sz
      by (simp_all add: s1_def mf_def)
    define s2 where "s2 = J1939_dm1_pro env (codes port sa (take (unat (total_size m)) (mf_buff m))) s1"
    have "J1939_add_dm_data env port sa (mf_buff m) (unat (total_size m)) s1 = Some s2"
      using size_at [OF s1, of sa] buff_length [OF s1(1), of sa] by (simp add: add_dm_data s2_def m_def)
    moreover have s2_ok: "j_ok s2" "sizes_ok s2" using dm1_pro_ok s1 by (simp_all add: s2_def sizes_ok_def)
    moreover have "j_ok (upd_mf sa mf_clear s2)" "sizes_ok (upd_mf sa mf_clear s2)"
      using upd_mf_ok [OF s2_ok(1)] upd_mf_sizes [OF s2_ok(2)] buff_length [OF s2_ok(1)] by (simp_all add: mf_clear_def)
    ultimately show ?thesis
      using decode_data [OF assms(4,5,3), of s env port dlc] True s1 len
      by (simp add: Let_def mf_def flip: s1_def m_def)
  qed
qed

lemma decode_runs:
  assumes "j_ok s" "sizes_ok s" "frame_fits data dlc" "pgn_of canid = 0xECFF \<longrightarrow> unat (announced data) \<le> 1029"
  shows "\<exists>s'. J1939_msg_decode env canid port data dlc s = Some s' \<and> j_ok s' \<and> sizes_ok s'"
proof -
  have len: "length data = 8" "unat dlc \<le> 8" using assms(3) by (simp_all add: frame_fits_def word_le_nat_alt)
  consider "pgn_of canid = 0xFECA" | (rts) "pgn_of canid = 0xECFF" | (dt) "pgn_of canid = 0xEBFF"
    | (dm2) "pgn_of canid = 0xFECB"
    | "pgn_of canid \<notin> {0xFECA, 0xECFF, 0xEBFF, 0xFECB}" by blast
  then show ?thesis
  proof cases
    case 1
    then show ?thesis
      using add_dm_data [of "unat dlc" data env port "ucast canid" s] len dm1_pro_ok assms(1,2)
      by (simp add: J1939_msg_decode_def Let_def sizes_ok_def)
  next
    case rts
    then show ?thesis
      using assms len buff_length [OF assms(1)]
      by (auto simp: J1939_msg_decode_def Let_def announced_def intro!: upd_mf_ok upd_mf_sizes)
  next
    case dt
    then show ?thesis using data_frame [OF assms(1,2) len(1)] by blast
  next
    case dm2
    have "j_ok (s\<lparr>dm2_status := 0\<rparr>)" "sizes_ok (s\<lparr>dm2_status := 0\<rparr>)"
      using assms(1,2) by (simp_all add: j_ok_def sizes_ok_def)
    then have "j_ok (J1939_set_timer J1939_REQ_TIMER 0 (s\<lparr>dm2_status := 0\<rparr>))"
        "sizes_ok (J1939_set_timer J1939_REQ_TIMER 0 (s\<lparr>dm2_status := 0\<rparr>))"
      using set_timer_ok by (simp_all add: sizes_ok_def)
    then show ?thesis using dm2 by (simp add: J1939_msg_decode_def Let_def J1939_DM2_IDLE_def split: option.split)
  next
    case 5
    then show ?thesis using assms(1,2) by (simp add: J1939_msg_decode_def Let_def)
  qed
qed

section \<open>Reachable states\<close>

lemma scan_frame:
  "dtc_buff (J1939_vehi_fault_scan env s) = dtc_buff s" "dm1_used_num (J1939_vehi_fault_scan env s) = dm1_used_num s"
  "dm1_changed (J1939_vehi_fault_scan env s) = dm1_changed s" "j_timer_value (J1939_vehi_fault_scan env s) = j_timer_value s"
  "j_timer_switch (J1939_vehi_fault_scan env s) = j_timer_switch s" "dm2_status (J1939_vehi_fault_scan env s) = dm2_status s"
proof -
  have n: "dtc_buff (notify_until env e fs s) = dtc_buff s" "dm1_used_num (notify_until env e fs s) = dm1_used_num s"
    "dm1_changed (notify_until env e fs s) = dm1_changed s" "j_timer_value (notify_until env e fs s) = j_timer_value s"
    "j_timer_switch (notify_until env e fs s) = j_timer_switch s" "dm2_status (notify_until env e fs s) = dm2_status s"
    for e fs s by (induction fs arbitrary: s) (simp_all add: Let_def j_emit_def)
  have "dtc_buff (scan_loop env is s) = dtc_buff s \<and> dm1_used_num (scan_loop env is s) = dm1_used_num s \<and>
    dm1_changed (scan_loop env is s) = dm1_changed s \<and> j_timer_value (scan_loop env is s) = j_timer_value s \<and>
    j_timer_switch (scan_loop env is s) = j_timer_switch s \<and> dm2_status (scan_loop env is s) = dm2_status s" for "is" s
    by (induction "is" arbitrary: s) (simp_all add: Let_def n J1939_vehi_fault_end_def)
  then show
    "dtc_buff (J1939_vehi_fault_scan env s) = dtc_buff s" "dm1_used_num (J1939_vehi_fault_scan env s) = dm1_used_num s"
    "dm1_changed (J1939_vehi_fault_scan env s) = dm1_changed s" "j_timer_value (J1939_vehi_fault_scan env s) = j_timer_value s"
    "j_timer_switch (J1939_vehi_fault_scan env s) = j_timer_switch s" "dm2_status (J1939_vehi_fault_scan env s) = dm2_status s"
    by (simp_all add: J1939_vehi_fault_scan_def J1939_fault_save_def j_emit_def Let_def)
qed

lemma timeout_ok: "j_ok s \<Longrightarrow> sizes_ok s \<Longrightarrow> j_ok (J1939_timeout env i s) \<and> sizes_ok (J1939_timeout env i s)"
  using scan_reports(1) [of s env] scan_table [of s env]
  by (simp add: J1939_timeout_def j_ok_def sizes_ok_def scan_frame)

lemma register_ok:
  "j_ok s \<Longrightarrow> sizes_ok s \<Longrightarrow>
   j_ok (snd (J1939_dm1_register f s)) \<and> sizes_ok (snd (J1939_dm1_register f s))"
  by (auto simp: J1939_dm1_register_def j_ok_def sizes_ok_def J1939_DM1_MAX_REG_def take_Suc_conv_app_nth)

lemma request_ok:
  "j_ok s \<Longrightarrow> sizes_ok s \<Longrightarrow>
   j_ok (snd (J1939_dm2_request port da f s)) \<and> sizes_ok (snd (J1939_dm2_request port da f s))"
proof -
  assume s: "j_ok s" "sizes_ok s"
  let ?t = "s\<lparr>dm2_da := da, dm2_status := J1939_DM2_BUSY, dm2_func := f\<rparr>"
  have "j_ok (J1939_set_timer J1939_REQ_TIMER 1 ?t)" by (rule set_timer_ok) (use s(1) in \<open>simp add: j_ok_def\<close>)
  moreover have "sizes_ok (J1939_set_timer J1939_REQ_TIMER 1 ?t)" using s(2) by (simp add: sizes_ok_def)
  ultimately show ?thesis using s by (simp add: J1939_dm2_request_def J1939_request_def Let_def)
qed

inductive j_step :: "j1939 \<Rightarrow> j1939 \<Rightarrow> bool" where
  j_frame: "J1939_msg_decode env canid port data dlc s = Some s' \<Longrightarrow> frame_fits data dlc \<Longrightarrow>
     (pgn_of canid = 0xECFF \<Longrightarrow> unat (announced data) \<le> 1029) \<Longrightarrow> j_step s s'"
| j_timeout: "j_step s (J1939_timeout env i s)"
| j_register: "j_step s (snd (J1939_dm1_register f s))"
| j_request: "j_step s (snd (J1939_dm2_request port da f s))"
| j_save: "j_step s (J1939_fault_save s)"

inductive_cases j_stepE: "j_step s s'"

text \<open>The table restored is one that was saved, with at most one entry that runs for each fault.\<close>

inductive j_reach :: "j1939 \<Rightarrow> bool" where
  j_started: "J1939_init_outside 0 (snd (J1939_init_restore ret table (J1939_init_inside J1939_statics))) = (0, s) \<Longrightarrow>
     length table = 256 \<Longrightarrow> uniq table \<Longrightarrow> j_reach s"
| j_stepped: "j_reach s \<Longrightarrow> j_step s s' \<Longrightarrow> j_reach s'"

lemma j_step_ok: "j_step s s' \<Longrightarrow> j_ok s \<Longrightarrow> sizes_ok s \<Longrightarrow> j_ok s' \<and> sizes_ok s'"
proof (induction rule: j_step.induct)
  case (j_frame env canid port data dlc s s')
  then show ?case using decode_runs [of s data dlc canid env port] by auto
qed (simp_all add: timeout_ok register_ok request_ok J1939_fault_save_def)

lemma uniq_zero: "uniq (replicate n zero_fault)"
  by (simp add: uniq_def started_def zero_fault_def VF_START_def VF_NULL_def)

lemma j_reach_ok: "j_reach s \<Longrightarrow> j_ok s \<and> sizes_ok s"
proof (induction rule: j_reach.induct)
  case (j_started ret table s)
  then show ?case
    using uniq_zero [of 256]
    by (auto simp: J1939_init_outside_def J1939_init_restore_def J1939_init_inside_def J1939_statics_def
        VEHI_FAULT_TABLE_NUM_def j_emit_def j_ok_def sizes_ok_def zero_mf_def)
qed (use j_step_ok in blast)

section \<open>Long reports\<close>

lemma drop_low_byte [simp]: "drop_bit 8 (ucast (sa :: byte) :: u32) = 0"
  by (rule bit_word_eqI) (auto simp: bit_simps dest: bit_imp_le_length)

lemma take_low_byte:
  assumes "take_bit 8 x = 0"
  shows "ucast (x OR ucast (sa :: byte) :: u32) = sa"
proof (rule bit_word_eqI)
  fix n assume "n < LENGTH(8)"
  then have n: "n < 8" by simp
  then have "\<not> bit x n" using assms by (metis bit_0_eq bit_take_bit_iff bot_apply bot_bool_def)
  then show "bit (ucast (x OR ucast sa :: u32) :: byte) n = bit sa n" using n by (simp add: bit_simps)
qed

definition cm_id :: "byte \<Rightarrow> u32" where "cm_id sa = 0x9CECFF00 OR ucast sa"
definition dt_id :: "byte \<Rightarrow> u32" where "dt_id sa = 0x9CEBFF00 OR ucast sa"

lemma tp_ids:
  "pgn_of (cm_id sa) = 0xECFF" "pgn_of (dt_id sa) = 0xEBFF" "ucast (cm_id sa) = sa" "ucast (dt_id sa) = sa"
  "bit (cm_id sa) 31" "bit (dt_id sa) 31"
  by (simp_all add: cm_id_def dt_id_def take_low_byte bit_or_iff)

text \<open>The frames of the transport protocol for a message, its last frame filled up with \<open>0xff\<close>.\<close>

definition packets :: "byte list \<Rightarrow> nat" where
  "packets msg = (length msg + 6) div 7"

definition padded :: "byte list \<Rightarrow> byte list" where
  "padded msg = msg @ replicate (7 * packets msg - length msg) 0xff"

definition cm_frame :: "byte \<Rightarrow> byte \<Rightarrow> byte list \<Rightarrow> CAN_MSG" where
  "cm_frame port sa msg = \<lparr>can_type = 0x52, can_len = 8, can_port = port, MsgID = cm_id sa,
     can_data = [0x20, word_of_nat (length msg), word_of_nat (length msg div 256), word_of_nat (packets msg),
                 0xff, 0xCA, 0xFE, 0]\<rparr>"

definition dt_frame :: "byte \<Rightarrow> byte \<Rightarrow> byte list \<Rightarrow> nat \<Rightarrow> CAN_MSG" where
  "dt_frame port sa msg k = \<lparr>can_type = 0x52, can_len = 8, can_port = port, MsgID = dt_id sa,
     can_data = word_of_nat (k + 1) # take 7 (drop (7 * k) (padded msg))\<rparr>"

definition tp_frames :: "byte \<Rightarrow> byte \<Rightarrow> byte list \<Rightarrow> CAN_MSG list" where
  "tp_frames port sa msg = cm_frame port sa msg # map (dt_frame port sa msg) [0..<packets msg]"

lemma packets_bounds: "length msg \<le> 1029 \<Longrightarrow> packets msg \<le> 147 \<and> length msg \<le> 7 * packets msg"
  by (auto simp: packets_def)

lemma length_padded: "length msg \<le> 1029 \<Longrightarrow> length (padded msg) = 7 * packets msg"
  using packets_bounds [of msg] by (simp add: padded_def)

lemma announced_length:
  "push_bit 8 (ucast (word_of_nat (length msg div 256) :: byte)) OR ucast (word_of_nat (length msg) :: byte)
    = (word_of_nat (length msg) :: u16)"
proof (rule bit_word_eqI)
  fix n assume "n < LENGTH(16)"
  then have n: "n < 16" by simp
  have "256 * 2 ^ (n - 8) = (2 :: nat) ^ n" if "\<not> n < 8"
    using that power_add [of "2 :: nat" 8 "n - 8"] by simp
  then show "bit (push_bit 8 (ucast (word_of_nat (length msg div 256) :: byte)) OR ucast (word_of_nat (length msg) :: byte) :: u16) n
    = bit (word_of_nat (length msg) :: u16) n"
    using n by (cases "n < 8") (auto simp: bit_simps bit_nat_def div_mult2_eq [symmetric])
qed


lemma unat_small: "k < 256 \<Longrightarrow> unat (word_of_nat k :: byte) = k"
  by (simp add: unsigned_of_nat take_bit_nat_eq_self)

lemma can_msgs_append: "can_msgs env (ms @ ns) s = can_msgs env ms s \<bind> can_msgs env ns"
  by (induction ms arbitrary: s) (auto split: bind_splits)

lemma can_msgs_one: "can_msgs env [m] s = (if can_type m \<noteq> 0x54 \<and> bit (MsgID m) 31
    then J1939_msg_decode env (MsgID m) (can_port m) (can_data m) (can_len m) s else Some s)"
  by (simp split: bind_split)

text \<open>What has been collected of the message after \<open>k\<close> data frames.\<close>

definition collected :: "byte list \<Rightarrow> DTC_MF_T \<Rightarrow> nat \<Rightarrow> DTC_MF_T" where
  "collected msg m k = m\<lparr>total_size := word_of_nat (length msg), total_no := word_of_nat (packets msg),
     mf_no := word_of_nat k, mf_buff := take (7 * k) (padded msg) @ drop (7 * k) (mf_buff m)\<rparr>"

lemma with_part_collected:
  assumes "length msg \<le> 1029" "k < packets msg" "length (mf_buff m) = 1792"
  shows "with_part (collected msg m k) (word_of_nat (k + 1) # take 7 (drop (7 * k) (padded msg))) = collected msg m (k + 1)"
proof -
  have k: "k < 147" "7 * k + 7 \<le> length (padded msg)"
    using packets_bounds [OF assms(1)] length_padded [OF assms(1)] assms(2) by simp_all
  have "take (7 * k) (padded msg) @ take 7 (drop (7 * k) (padded msg)) = take (7 * k + 7) (padded msg)"
    by (simp add: take_add)
  then show ?thesis
    using k assms(3) by (simp add: with_part_def collected_def unat_small ac_simps)
qed

lemma cm_step:
  assumes "length (dtc_buff s) = 256" "length (mf_buff (dtc_buff s ! unat sa)) = 1792"
  shows "can_msgs env [cm_frame port sa msg] s = Some (upd_mf sa (\<lambda>m. collected msg m 0) s)"
proof -
  have "(\<lambda>m. m\<lparr>total_size := word_of_nat (length msg), total_no := word_of_nat (packets msg), mf_no := 0\<rparr>)
     = (\<lambda>m. collected msg m 0)"
    by (rule ext, rename_tac m, case_tac m) (simp add: collected_def)
  then show ?thesis
    using announced_length [of msg]
    by (simp add: can_msgs_one cm_frame_def tp_ids J1939_msg_decode_def Let_def del: can_msgs.simps)
qed

lemma dt_step:
  assumes "length msg \<le> 1029" "k < packets msg" "length (dtc_buff s) = 256" "length (mf_buff (dtc_buff s ! unat sa)) = 1792"
  shows "can_msgs env [dt_frame port sa msg k] (upd_mf sa (\<lambda>m. collected msg m k) s) =
    (if k + 1 = packets msg
     then J1939_add_dm_data env port sa (padded msg @ drop (7 * packets msg) (mf_buff (dtc_buff s ! unat sa))) (length msg)
            (upd_mf sa (\<lambda>m. collected msg m (k + 1)) s) \<bind> (\<lambda>s2. Some (upd_mf sa mf_clear s2))
     else Some (upd_mf sa (\<lambda>m. collected msg m (k + 1)) s))"
proof -
  define data where "data = word_of_nat (k + 1) # take 7 (drop (7 * k) (padded msg))"
  have p: "packets msg \<le> 147" "length (padded msg) = 7 * packets msg"
    using packets_bounds [OF assms(1)] length_padded [OF assms(1)] by simp_all
  have len: "length data = 8" using p assms(2) by (simp add: data_def)
  let ?s = "upd_mf sa (\<lambda>m. collected msg m k) s"
  have at: "dtc_buff ?s ! unat sa = collected msg (dtc_buff s ! unat sa) k" using assms(3) by simp
  have 1: "length (mf_buff (dtc_buff ?s ! unat sa)) = 1792"
    unfolding at using p assms(2,4) by (simp add: collected_def)
  have 2: "data ! 0 \<le> total_no (dtc_buff ?s ! unat sa)" "unat (data ! 0) = unat (mf_no (dtc_buff ?s ! unat sa)) + 1"
    unfolding at using p assms(2) unat_small [of "k + 1"] unat_small [of k] unat_small [of "packets msg"]
    by (simp_all add: collected_def data_def word_le_nat_alt)
  have part: "upd_mf sa (\<lambda>m. with_part m data) ?s = upd_mf sa (\<lambda>m. collected msg m (k + 1)) s"
    using with_part_collected [OF assms(1,2,4)] assms(3) unat_u8_less [of sa] by (simp add: upd_mf_def data_def)
  have eq: "data ! 0 = word_of_nat (packets msg) \<longleftrightarrow> k + 1 = packets msg"
  proof -
    have "k + 1 < 256" "packets msg < 256" using p assms(2) by simp_all
    then have "(word_of_nat (k + 1) :: byte) = word_of_nat (packets msg) \<longleftrightarrow> k + 1 = packets msg"
      using unat_small by metis
    then show ?thesis by (simp only: data_def nth_Cons_0)
  qed
  have n: "unat (word_of_nat (length msg) :: u16) = length msg"
    using assms(1) by (simp add: unsigned_of_nat take_bit_nat_eq_self)
  have dt: "dt_frame port sa msg k = \<lparr>can_type = 0x52, can_len = 8, can_port = port, MsgID = dt_id sa, can_data = data\<rparr>"
    by (simp only: dt_frame_def data_def)
  let ?t = "upd_mf sa (\<lambda>m. collected msg m (k + 1)) s"
  let ?m = "collected msg (dtc_buff s ! unat sa) (k + 1)"
  have "J1939_msg_decode env (dt_id sa) port data 8 ?s =
    (if data ! 0 = total_no ?m
     then J1939_add_dm_data env port sa (mf_buff ?m) (unat (total_size ?m)) ?t \<bind> (\<lambda>s2. Some (upd_mf sa mf_clear s2))
     else Some ?t)"
    using decode_data [OF tp_ids(2,4) len 1 _ 2, of env port 8] assms(3) unfolding part Let_def by simp
  moreover have "data ! 0 = total_no ?m \<longleftrightarrow> k + 1 = packets msg"
    "unat (total_size (collected msg m i)) = length msg" for m i
    using eq n by (simp_all add: collected_def)
  moreover have "mf_buff ?m = padded msg @ drop (7 * packets msg) (mf_buff (dtc_buff s ! unat sa))" if "k + 1 = packets msg"
    unfolding collected_def that using p(2) by simp
  ultimately show ?thesis
    using dt by (simp add: can_msgs_one tp_ids del: can_msgs.simps)
qed

lemma dt_steps:
  assumes "length msg \<le> 1029" "k < packets msg" "length (dtc_buff s) = 256" "length (mf_buff (dtc_buff s ! unat sa)) = 1792"
  shows "can_msgs env (map (dt_frame port sa msg) [0..<k]) (upd_mf sa (\<lambda>m. collected msg m 0) s) =
    Some (upd_mf sa (\<lambda>m. collected msg m k) s)"
  using assms(2)
proof (induction k)
  case (Suc k)
  then show ?case
    using dt_step [OF assms(1), of k s sa env port] assms(3,4) by (simp add: can_msgs_append)
qed simp

lemma long_report:
  assumes "j_ok s" "0 < length msg" "length msg \<le> 1029"
  shows "\<exists>b. can_msgs env (tp_frames port sa msg) s = Some ((J1939_dm1_pro env (codes port sa msg) s)\<lparr>dtc_buff := b\<rparr>)"
proof -
  have s: "length (dtc_buff s) = 256" "length (mf_buff (dtc_buff s ! unat sa)) = 1792"
    using assms(1) buff_length by (simp_all add: j_ok_def)
  define T where "T = packets msg - 1"
  have "7 \<le> length msg + 6" using assms(2) by linarith
  then have "0 < packets msg" by (simp add: packets_def div_greater_zero_iff del: One_nat_def)
  then have T: "packets msg = Suc T" by (simp add: T_def)
  let ?s = "upd_mf sa (\<lambda>m. collected msg m (T + 1)) s"
  let ?buff = "padded msg @ drop (7 * packets msg) (mf_buff (dtc_buff s ! unat sa))"
  have len: "length (padded msg) = 7 * packets msg" "length msg \<le> 7 * packets msg"
    using length_padded [OF assms(3)] packets_bounds [OF assms(3)] by simp_all
  have "J1939_add_dm_data env port sa ?buff (length msg) ?s = Some (J1939_dm1_pro env (codes port sa (take (length msg) ?buff)) ?s)"
    by (rule add_dm_data) (use assms(3) len in simp_all)
  moreover have "take (length msg) ?buff = msg" using len by (simp add: padded_def)
  ultimately have last: "can_msgs env [dt_frame port sa msg T] (upd_mf sa (\<lambda>m. collected msg m T) s) =
      Some (upd_mf sa mf_clear (J1939_dm1_pro env (codes port sa msg) ?s))"
    using dt_step [OF assms(3) _ s, of T env port] T by simp
  have "tp_frames port sa msg = [cm_frame port sa msg] @ map (dt_frame port sa msg) [0..<T] @ [dt_frame port sa msg T]"
    by (simp add: tp_frames_def T)
  then have "can_msgs env (tp_frames port sa msg) s =
      can_msgs env [cm_frame port sa msg] s \<bind> (\<lambda>s. can_msgs env (map (dt_frame port sa msg) [0..<T]) s
        \<bind> can_msgs env [dt_frame port sa msg T])"
    by (simp only: ext [OF can_msgs_append])
  then have "can_msgs env (tp_frames port sa msg) s = Some (upd_mf sa mf_clear (J1939_dm1_pro env (codes port sa msg) ?s))"
    using cm_step [OF s, of env port msg] dt_steps [OF assms(3) _ s, of T env port] last T
    by (simp del: can_msgs.simps)
  moreover have "\<exists>b. upd_mf sa mf_clear (J1939_dm1_pro env (codes port sa msg) ?s) =
      (J1939_dm1_pro env (codes port sa msg) s)\<lparr>dtc_buff := b\<rparr>"
    by (auto simp: upd_mf_def dm1_pro_buff)
  ultimately show ?thesis by auto
qed

section \<open>Failures\<close>

text \<open>A report of 500 trouble codes, announced to come in one packet.\<close>

definition flood :: "byte \<Rightarrow> CAN_MSG list" where
  "flood sa = [\<lparr>can_type = 0x52, can_len = 8, can_port = 0, MsgID = cm_id sa,
       can_data = [0x20, 0xD0, 0x07, 1, 0xff, 0xCA, 0xFE, 0]\<rparr>,
     \<lparr>can_type = 0x52, can_len = 8, can_port = 0, MsgID = dt_id sa, can_data = [1, 0, 0, 0, 0, 0, 0, 0]\<rparr>]"

lemma parse_dtcs_overflow: "i \<le> 256 \<Longrightarrow> 256 < i + n \<Longrightarrow> parse_dtcs port sa buff i n = None"
proof (induction n arbitrary: i)
  case (Suc n)
  then show ?case by (auto simp: bind_eq_None_conv)
qed simp

lemma flood_overflows:
  assumes "j_ok s"
  shows "can_msgs env (flood sa) s = None"
proof -
  have s: "length (dtc_buff s) = 256" "length (mf_buff (dtc_buff s ! unat sa)) = 1792"
    using assms buff_length by (simp_all add: j_ok_def)
  define s1 where "s1 = upd_mf sa (\<lambda>m. m\<lparr>total_size := 2000, total_no := 1, mf_no := 0\<rparr>) s"
  have 1: "J1939_msg_decode env (cm_id sa) 0 [0x20, 0xD0, 0x07, 1, 0xff, 0xCA, 0xFE, 0] 8 s = Some s1"
    by (simp add: J1939_msg_decode_def tp_ids Let_def s1_def)
  have "parse_dtcs port sa buff 0 499 = None" for port buff by (rule parse_dtcs_overflow) simp_all
  then have "J1939_add_dm_data env 0 sa buff 2000 t = None" for buff t
    by (simp add: J1939_add_dm_data_def)
  then have "J1939_msg_decode env (dt_id sa) 0 [1, 0, 0, 0, 0, 0, 0, 0] 8 s1 = None"
    using decode_data [OF tp_ids(2,4), of "[1, 0, 0, 0, 0, 0, 0, 0]" s1 sa env 0 8] s by (simp add: s1_def Let_def)
  then show ?thesis using 1 by (simp add: flood_def tp_ids)
qed

text \<open>A query of a unit stays open until some unit answers a query.\<close>

lemma busy_frame:
  assumes "J1939_msg_decode env canid port data dlc s = Some s'" "pgn_of canid \<noteq> 0xFECB"
  shows "dm2_status s' = dm2_status s"
proof -
  have "dm2_status s2 = dm2_status s1" if "J1939_add_dm_data env port sa buff n s1 = Some s2" for sa buff n s1 s2
    using that by (auto simp: J1939_add_dm_data_def bind_eq_Some_conv split: if_splits)
  then show ?thesis
    using assms by (auto simp: J1939_msg_decode_def Let_def bind_eq_Some_conv upd_mf_def split: if_splits option.splits)
qed

text \<open>Whatever the module does, but for the answer of a unit.\<close>

inductive unanswered :: "j1939 \<Rightarrow> j1939 \<Rightarrow> bool" where
  un_frame: "J1939_msg_decode env canid port data dlc s = Some s' \<Longrightarrow> pgn_of canid \<noteq> 0xFECB \<Longrightarrow> unanswered s s'"
| un_timeout: "unanswered s (J1939_timeout env i s)"
| un_register: "unanswered s (snd (J1939_dm1_register f s))"
| un_request: "unanswered s (snd (J1939_dm2_request port da f s))"
| un_save: "unanswered s (J1939_fault_save s)"

lemma unanswered_busy: "unanswered s s' \<Longrightarrow> dm2_status s = J1939_DM2_BUSY \<Longrightarrow> dm2_status s' = J1939_DM2_BUSY"
proof (induction rule: unanswered.induct)
  case (un_frame env canid port data dlc s s')
  then show ?case using busy_frame by simp
qed (auto simp: J1939_timeout_def scan_frame J1939_dm1_register_def J1939_dm2_request_def J1939_fault_save_def j_emit_def)

lemma still_busy:
  "unanswered\<^sup>*\<^sup>* s t \<Longrightarrow> dm2_status s = J1939_DM2_BUSY \<Longrightarrow> dm2_status t = J1939_DM2_BUSY"
  by (induction rule: rtranclp_induct) (auto dest: unanswered_busy)

lemma request_busy: "dm2_status (snd (J1939_dm2_request port da f s)) = J1939_DM2_BUSY"
  by (simp add: J1939_dm2_request_def J1939_request_def Let_def)

section \<open>A module on a bench\<close>

definition j_bench :: j1939 where
  "j_bench = snd (J1939_init_outside 0 (snd (J1939_init_restore 1 (replicate 256 zero_fault) (J1939_init_inside J1939_statics))))"

definition j_bench_env :: j_env where
  "j_bench_env = \<lparr>j_now = 1000, j_abstime = \<lparr>rtc_msec = 0, rtc_sec = 1, rtc_min = 2, rtc_hour = 3, rtc_mday = 4,
     rtc_mon = 5, rtc_week = 0, rtc_year = 2019\<rparr>, j_notify = \<lambda>_ _. 0\<rparr>"

lemma j_bench_reach: "j_reach j_bench"
  by (rule j_started [of 1 "replicate 256 zero_fault"])
    (simp_all add: j_bench_def J1939_init_outside_def uniq_zero)

lemma j_bench_table: "dtc_table j_bench = replicate 256 zero_fault"
  by (simp add: j_bench_def J1939_init_outside_def J1939_init_restore_def VEHI_FAULT_TABLE_NUM_def)

lemma j_bench_empty: "reports (dtc_table j_bench) p = None"
  unfolding j_bench_table reports_def
  by (simp add: first_index_None started_def zero_fault_def VF_START_def VF_NULL_def)

section \<open>The properties\<close>

text \<open>\<^bold>\<open>C21\<close>
  The table of faults is a map from the number of a fault to its last report: as long as no more than
  256 faults run, a report sets the failure mode and the time of each fault it names, in order, and
  leaves the others; the scan removes exactly the faults not reported for more than a minute.\<close>

theorem fault_table_refines_map:
  assumes "j_reach s" "card (dom (reports (dtc_table s)) \<union> spn ` set ds) \<le> 256"
  shows "reports (dtc_table (J1939_dm1_pro env ds s)) =
      fold (\<lambda>d m. m(spn d \<mapsto> (fmi d, j_now env))) ds (reports (dtc_table s)) \<and>
    reports (dtc_table (J1939_vehi_fault_scan env s)) =
      (\<lambda>p. case reports (dtc_table s) p of
         Some r \<Rightarrow> if j_now env - snd r \<le> 60000 then Some r else None | None \<Rightarrow> None)"
proof -
  have ok: "uniq (dtc_table s)" "length (dtc_table s) = 256" using j_reach_ok [OF assms(1)] by (simp_all add: j_ok_def)
  then show ?thesis
    using dm1_pro_reports [OF ok, of env ds] scan_reports(2) [OF ok, of env] assms(2)
    by (auto simp: keep_fresh_def [abs_def] fresh_def DTC_TIMEOUT_def fun_eq_iff split: option.split)
qed

theorem fault_table_refines_map_witness:
  "reports (dtc_table (J1939_dm1_pro j_bench_env [zero_dtc\<lparr>spn := 7, fmi := 2\<rparr>, zero_dtc\<lparr>spn := 7, fmi := 3\<rparr>] j_bench)) 7
     = Some (3, 1000)"
proof -
  have "dom (reports (dtc_table j_bench)) = {}" using j_bench_empty by (auto simp: dom_def)
  then show ?thesis
    using fault_table_refines_map [OF j_bench_reach, where
        ds = "[zero_dtc\<lparr>spn := 7, fmi := 2\<rparr>, zero_dtc\<lparr>spn := 7, fmi := 3\<rparr>]" and env = j_bench_env] j_bench_empty
    by (simp add: j_bench_env_def)
qed

text \<open>\<^bold>\<open>C33\<close>
  A report of up to 1029 bytes that comes through the transport protocol, its packets in order, has
  the effect of its trouble codes given to the table at once, whatever was collected before; only the
  buffers of the transport protocol differ.\<close>

theorem long_report_reassembled:
  assumes "j_reach s" "0 < length msg" "length msg \<le> 1029"
  shows "\<exists>b. can_msgs env (tp_frames port sa msg) s = Some ((J1939_dm1_pro env (codes port sa msg) s)\<lparr>dtc_buff := b\<rparr>)"
  using long_report [OF _ assms(2,3)] j_reach_ok [OF assms(1)] by blast

theorem long_report_reassembled_witness:
  "\<exists>b. can_msgs j_bench_env (tp_frames 0 0x17 [0, 0, 7, 0, 2, 1, 8, 0, 3, 1]) j_bench =
     Some ((J1939_dm1_pro j_bench_env [dtc_of 0 0x17 7 0 2 1, dtc_of 0 0x17 8 0 3 1] j_bench)\<lparr>dtc_buff := b\<rparr>)"
  using long_report_reassembled [OF j_bench_reach, where msg = "[0, 0, 7, 0, 2, 1, 8, 0, 3, 1]" and env = j_bench_env
    and port = 0 and sa = "0x17"]
  by (simp add: codes_def code_at_def upt_rec)

text \<open>In every reachable state each frame of eight bytes that announces no report of more than 1029 bytes
  is processed inside the arrays and leads to such a state again, in which no fault has two entries
  that run.\<close>

theorem vehicle_frames_safe:
  assumes "j_reach s" "length data = 8" "dlc \<le> 8" "pgn_of canid = 0xECFF \<longrightarrow> unat (announced data) \<le> 1029"
  shows "\<exists>s'. J1939_msg_decode env canid port data dlc s = Some s' \<and> j_reach s' \<and> uniq (dtc_table s')"
proof -
  have f: "frame_fits data dlc" using assms(2,3) by (simp add: frame_fits_def)
  obtain s' where "J1939_msg_decode env canid port data dlc s = Some s'" "j_ok s'"
    using decode_runs [OF _ _ f assms(4)] j_reach_ok [OF assms(1)] by blast
  moreover have "j_reach s'" using calculation(1) assms(4) f by (blast intro: j_stepped [OF assms(1)] j_frame)
  ultimately show ?thesis by (auto simp: j_ok_def)
qed

theorem vehicle_frames_safe_witness:
  "\<exists>s'. J1939_msg_decode j_bench_env 0x98FECA17 0 [0, 0, 7, 0, 2, 1, 0xff, 0xff] 8 j_bench = Some s' \<and> uniq (dtc_table s')"
  using vehicle_frames_safe [OF j_bench_reach, where data = "[0, 0, 7, 0, 2, 1, 0xff, 0xff]" and dlc = 8 and canid = "0x98FECA17"
    and env = j_bench_env and port = 0] by auto

text \<open>The size a sender announces is not checked: in every reachable state the two frames of \<^const>\<open>flood\<close>,
  from any sender, write outside the array of trouble codes.\<close>

theorem announced_size_overflows:
  assumes "j_reach s"
  shows "can_msgs env (flood sa) s = None"
  using flood_overflows j_reach_ok [OF assms] by blast

theorem announced_size_overflows_witness: "can_msgs j_bench_env (flood 0x17) j_bench = None"
  by (rule announced_size_overflows [OF j_bench_reach])

text \<open>
  After a query has been made, every later one is refused until the answer to a query comes: the
  expiry of the request timer does not end it.\<close>

theorem query_stays_open:
  assumes "unanswered\<^sup>*\<^sup>* (snd (J1939_dm2_request port da f s)) t"
  shows "J1939_dm2_request port' da' f' t = (1, t)"
  using still_busy [OF assms request_busy] by (simp add: J1939_dm2_request_def J1939_DM2_BUSY_def)

theorem query_stays_open_witness:
  "J1939_dm2_request 0 0x18 None (J1939_timeout j_bench_env J1939_REQ_TIMER (snd (J1939_dm2_request 0 0x17 None j_bench)))
   = (1, J1939_timeout j_bench_env J1939_REQ_TIMER (snd (J1939_dm2_request 0 0x17 None j_bench)))"
  by (rule query_stays_open [OF r_into_rtranclp [of unanswered, OF un_timeout]])

end
