(* ===== verification/File.thy ===== *)
theory File
  imports Prelude
begin

text \<open>
  Files: \<open>src/mid/file/file.c\<close> and the read and write loops of \<open>src/mid/dev_rw/dev_rw.c\<close>. A
  \<open>disk\<close> holds the contents of the regular files by path and \<open>hist\<close>, the contents it passed
  through before, so that a property can speak of every moment at which the power may fail: each
  byte a \<open>write\<close> puts down is such a moment, a \<open>rename\<close> is one.

  The results of the \<open>read\<close>, \<open>write\<close> and \<open>sendfile\<close> calls to come are the scripts \<open>d_read\<close> and
  \<open>d_write\<close>; where a script ends, the calls after it do all that is asked. The other system calls, the
  functions of \<open>dir.c\<close> and MD5 are read from \<open>io_env\<close>. A loop that does not end is \<^const>\<open>None\<close>.
\<close>

section \<open>Data\<close>

definition FILE_MAKE_FAILED :: int where "FILE_MAKE_FAILED = 0x3f020002"
definition FILE_STAT_FAILED :: int where "FILE_STAT_FAILED = 0x3f020003"
definition FILE_OPEN_FAILED :: int where "FILE_OPEN_FAILED = 0x3f020005"
definition FILE_SET_ATTR_FAILED :: int where "FILE_SET_ATTR_FAILED = 0x3f020006"
definition FILE_INVALID_FILE_PATH :: int where "FILE_INVALID_FILE_PATH = 0x3f020007"
definition FILE_COPY_FAILED :: int where "FILE_COPY_FAILED = 0x3f020008"
definition FILE_READ_FAILED :: int where "FILE_READ_FAILED = 0x3f020009"
definition DEV_RW_INVALID_PARAMETER :: int where "DEV_RW_INVALID_PARAMETER = 0x3f040001"
definition DEV_RW_READ_FAILED :: int where "DEV_RW_READ_FAILED = 0x3f040002"
definition COM_APP_MAX_PATH_LEN :: nat where "COM_APP_MAX_PATH_LEN = 256"
definition MD5_LENGTH :: nat where "MD5_LENGTH = 16"

lemmas file_codes = FILE_MAKE_FAILED_def FILE_STAT_FAILED_def FILE_OPEN_FAILED_def FILE_SET_ATTR_FAILED_def
  FILE_INVALID_FILE_PATH_def FILE_COPY_FAILED_def FILE_READ_FAILED_def DEV_RW_INVALID_PARAMETER_def
  DEV_RW_READ_FAILED_def

text \<open>A call moves at most so many bytes, is interrupted by a signal or fails.\<close>

datatype io = Moved nat | Intr | Fail

type_synonym files = "string \<rightharpoonup> byte list"

record disk =
  d_files :: files
  d_read :: "io list"
  d_write :: "io list"
  hist :: "files list"

text \<open>
  \<open>io_mkdir\<close>: the result of \<open>dir_make_path\<close>. \<open>io_creat\<close>, \<open>io_open\<close>: whether a file can be opened for
  writing and for reading. \<open>io_rename\<close>, \<open>io_unlink\<close>, \<open>io_chown\<close>: whether the call succeeds.
  \<open>io_dir_copy\<close>: the result of \<open>dir_copy\<close>, the states it passes and the files it leaves.
\<close>

record io_env =
  io_mkdir :: "string \<Rightarrow> int"
  io_creat :: "string \<Rightarrow> bool"
  io_open :: "string \<Rightarrow> bool"
  io_rename :: bool
  io_unlink :: "string \<Rightarrow> bool"
  io_chown :: "string \<Rightarrow> bool"
  io_dir_copy :: "string \<Rightarrow> string \<Rightarrow> files \<Rightarrow> int \<times> files list \<times> files"
  io_md5 :: "byte list \<Rightarrow> byte list"

definition set_files :: "files \<Rightarrow> disk \<Rightarrow> disk" where
  "set_files fs d = d\<lparr>d_files := fs, hist := hist d @ [d_files d]\<rparr>"

definition put :: "string \<Rightarrow> byte list \<Rightarrow> disk \<Rightarrow> disk" where
  "put path c d = set_files ((d_files d)(path \<mapsto> c)) d"

definition append_byte :: "string \<Rightarrow> byte \<Rightarrow> disk \<Rightarrow> disk" where
  "append_byte path b d = put path ((case d_files d path of None \<Rightarrow> [] | Some c \<Rightarrow> c) @ [b]) d"

definition append_bytes :: "string \<Rightarrow> byte list \<Rightarrow> disk \<Rightarrow> disk" where
  "append_bytes path bs d = fold (append_byte path) bs d"

section \<open>Reading and writing a descriptor\<close>

text \<open>
  The loop of \<open>dev_read\<close> on a file of which the bytes \<open>c\<close> are left: the result, how many bytes were
  put into the buffer and the script left. At the end of the file \<open>read\<close> returns 0, which the code
  takes for a timeout.
\<close>

partial_function (option) dev_read_loop ::
  "byte list \<Rightarrow> nat \<Rightarrow> nat \<Rightarrow> io list \<Rightarrow> (int \<times> nat \<times> io list) option"
where
  "dev_read_loop c len readcnt script =
     (if len \<le> readcnt then Some (0, readcnt, script)
      else case script of
        [] \<Rightarrow> dev_read_loop c len (readcnt + min (len - readcnt) (length c - readcnt)) []
      | Moved n # s \<Rightarrow> dev_read_loop c len (readcnt + min n (min (len - readcnt) (length c - readcnt))) s
      | Intr # s \<Rightarrow> dev_read_loop c len readcnt s
      | Fail # s \<Rightarrow> Some (DEV_RW_READ_FAILED, readcnt, s))"

text \<open>
  \<open>dev_read(fd, buf, len)\<close>, \<open>fd\<close> being the bytes left in an open file or \<^const>\<open>None\<close> for a negative
  number: the result, the bytes read and the descriptor and disk after it.
\<close>

definition dev_read ::
  "byte list option \<Rightarrow> nat \<Rightarrow> disk \<Rightarrow> (int \<times> byte list \<times> byte list option \<times> disk) option"
where
  "dev_read fd len d =
     (case fd of
        None \<Rightarrow> Some (DEV_RW_INVALID_PARAMETER, [], None, d)
      | Some c \<Rightarrow> do {
          (ret, n, script) \<leftarrow> dev_read_loop c len 0 (d_read d);
          Some (ret, take n c, Some (drop n c), d\<lparr>d_read := script\<rparr>) })"

fun dev_write_loop :: "string \<Rightarrow> byte list \<Rightarrow> io list \<Rightarrow> disk \<Rightarrow> int \<times> disk" where
  "dev_write_loop path data script d =
     (if data = [] then (0, d\<lparr>d_write := script\<rparr>)
      else case script of
        [] \<Rightarrow> (0, (append_bytes path data d)\<lparr>d_write := []\<rparr>)
      | Moved n # s \<Rightarrow> dev_write_loop path (drop n data) s (append_bytes path (take n data) d)
      | Intr # s \<Rightarrow> dev_write_loop path data s d
      | Fail # s \<Rightarrow> (DEV_RW_READ_FAILED, d\<lparr>d_write := s\<rparr>))"

declare dev_write_loop.simps [simp del]

text \<open>\<open>dev_write(fd, buf, len)\<close>, \<open>fd\<close> being the path of a file open at its end.\<close>

definition dev_write :: "string option \<Rightarrow> byte list \<Rightarrow> disk \<Rightarrow> int \<times> disk" where
  "dev_write fd buf d =
     (case fd of None \<Rightarrow> (DEV_RW_INVALID_PARAMETER, d) | Some path \<Rightarrow> dev_write_loop path buf (d_write d) d)"

section \<open>Files\<close>

definition file_exists :: "string \<Rightarrow> disk \<Rightarrow> bool" where
  "file_exists path d \<longleftrightarrow> d_files d path \<noteq> None"

text \<open>The \<open>int\<close> that \<open>file_size\<close> returns, as its 32 bits.\<close>

definition file_size :: "string \<Rightarrow> disk \<Rightarrow> u32" where
  "file_size path d = (case d_files d path of None \<Rightarrow> -1 | Some c \<Rightarrow> word_of_nat (length c))"

definition file_delete :: "io_env \<Rightarrow> string \<Rightarrow> disk \<Rightarrow> disk" where
  "file_delete env path d = (if io_unlink env path then set_files ((d_files d)(path := None)) d else d)"

definition file_rename :: "io_env \<Rightarrow> string \<Rightarrow> string \<Rightarrow> disk \<Rightarrow> disk" where
  "file_rename env old_path new_path d =
     (if io_rename env
      then (case d_files d old_path of
              None \<Rightarrow> d
            | Some c \<Rightarrow> set_files ((d_files d)(new_path \<mapsto> c, old_path := None)) d)
      else d)"

text \<open>\<open>snprintf(temp_path, sizeof(temp_path), "%s.new", path)\<close>.\<close>

definition temp_path :: "string \<Rightarrow> string" where
  "temp_path path = path @ ''.new''"

text \<open>\<open>open(path, O_WRONLY | O_TRUNC | O_CREAT, mode)\<close>.\<close>

definition open_trunc :: "io_env \<Rightarrow> string \<Rightarrow> disk \<Rightarrow> string option \<times> disk" where
  "open_trunc env path d = (if io_creat env path then (Some path, put path [] d) else (None, d))"

definition file_write_atomic :: "io_env \<Rightarrow> string \<Rightarrow> byte list \<Rightarrow> disk \<Rightarrow> int \<times> disk" where
  "file_write_atomic env path data d =
     (if COM_APP_MAX_PATH_LEN \<le> length (temp_path path) then (FILE_OPEN_FAILED, d)
      else let (fd, d1) = open_trunc env (temp_path path) d; (ret, d2) = dev_write fd data d1
           in if ret \<noteq> 0 then (ret, d2) else (ret, file_rename env (temp_path path) path d2))"

definition file_update_atomic :: "io_env \<Rightarrow> string \<Rightarrow> byte list \<Rightarrow> byte list \<Rightarrow> disk \<Rightarrow> int \<times> disk" where
  "file_update_atomic env path hdr data d =
     (if COM_APP_MAX_PATH_LEN \<le> length (temp_path path) then (FILE_OPEN_FAILED, d)
      else let (fd, d1) = open_trunc env (temp_path path) d; (ret, d2) = dev_write fd hdr d1
           in if ret \<noteq> 0 then (ret, d2)
              else let (ret, d3) = dev_write fd data d2
                   in if ret \<noteq> 0 then (ret, d3)
                      else let (ret, d4) = dev_write fd (io_md5 env (hdr @ data)) d3
                           in if ret \<noteq> 0 then (ret, d4)
                              else (ret, file_rename env (temp_path path) path d4))"

definition file_copy_attr :: "io_env \<Rightarrow> string \<Rightarrow> string \<Rightarrow> disk \<Rightarrow> int" where
  "file_copy_attr env src_path dst_path d =
     (if d_files d src_path = None then FILE_STAT_FAILED
      else if \<not> io_chown env dst_path then FILE_SET_ATTR_FAILED else 0)"

definition file_open_read :: "io_env \<Rightarrow> string \<Rightarrow> disk \<Rightarrow> byte list option" where
  "file_open_read env path d = (if io_open env path then d_files d path else None)"

text \<open>The loop of \<open>sendfile\<close>, \<open>c\<close> being what is left of the source; an interrupted call ends it too.\<close>

fun sendfile_loop :: "string \<Rightarrow> byte list \<Rightarrow> io list \<Rightarrow> disk \<Rightarrow> int \<times> disk" where
  "sendfile_loop dst c script d =
     (if c = [] then (0, d\<lparr>d_write := script\<rparr>)
      else case script of
        [] \<Rightarrow> (0, (append_bytes dst c d)\<lparr>d_write := []\<rparr>)
      | Moved n # s \<Rightarrow> sendfile_loop dst (drop n c) s (append_bytes dst (take n c) d)
      | Intr # s \<Rightarrow> (FILE_COPY_FAILED, d\<lparr>d_write := s\<rparr>)
      | Fail # s \<Rightarrow> (FILE_COPY_FAILED, d\<lparr>d_write := s\<rparr>))"

declare sendfile_loop.simps [simp del]

definition file_copy :: "io_env \<Rightarrow> string \<Rightarrow> string \<Rightarrow> disk \<Rightarrow> int \<times> disk" where
  "file_copy env src_path dst_path d =
     (case d_files d src_path of
        None \<Rightarrow> (FILE_STAT_FAILED, d)
      | Some c \<Rightarrow>
          if d_files d dst_path = None \<and> io_mkdir env dst_path \<noteq> 0 then (FILE_MAKE_FAILED, d)
          else if file_open_read env src_path d = None then (FILE_STAT_FAILED, d)
          else (case open_trunc env dst_path d of
                  (None, d1) \<Rightarrow> (FILE_STAT_FAILED, d1)
                | (Some _, d1) \<Rightarrow>
                    let ret = file_copy_attr env src_path dst_path d1
                    in if ret \<noteq> 0 then (ret, d1) else sendfile_loop dst_path c (d_write d1) d1))"

text \<open>\<open>file_read\<close> and \<open>file_read_size\<close>: the result, the bytes put into the buffer and the count.\<close>

definition file_read :: "io_env \<Rightarrow> string \<Rightarrow> u32 \<Rightarrow> disk \<Rightarrow> (int \<times> byte list \<times> u32 \<times> disk) option" where
  "file_read env path read_len d =
     (if d_files d path = None then Some (FILE_STAT_FAILED, [], read_len, d)
      else if sint (file_size path d) < 0 then Some (FILE_STAT_FAILED, [], read_len, d)
      else let size = (if read_len < file_size path d then read_len else file_size path d)
           in case file_open_read env path d of
                None \<Rightarrow> Some (FILE_OPEN_FAILED, [], read_len, d)
              | Some c \<Rightarrow> do {
                  (ret, data, fd, d1) \<leftarrow> dev_read (Some c) (unat size) d;
                  Some (ret, data, if ret \<noteq> 0 then read_len else size, d1) })"

definition file_read_size :: "io_env \<Rightarrow> string \<Rightarrow> nat \<Rightarrow> disk \<Rightarrow> (int \<times> byte list \<times> disk) option" where
  "file_read_size env path len d =
     (case file_open_read env path d of
        None \<Rightarrow> Some (FILE_OPEN_FAILED, [], d)
      | Some c \<Rightarrow> do { (ret, data, fd, d1) \<leftarrow> dev_read (Some c) len d; Some (ret, data, d1) })"

end
