(* ===== verification/Rds.thy ===== *)
theory Rds
  imports File
begin

text \<open>
  The reliable data store, \<open>src/mid/rds/rds.c\<close>: each type of record is kept in two files, the master and
  the backup copy, behind a header with the version and the length and before an MD5 digest of both.
  The mutex makes each operation run alone. The functions return \<^const>\<open>None\<close> where a loop would not
  end.
\<close>

section \<open>Data\<close>

definition RDS_INVALID_PARA :: int where "RDS_INVALID_PARA = 0x3f050001"
definition RDS_INVALID_TYPE :: int where "RDS_INVALID_TYPE = 0x3f050002"
definition RDS_FILE_NOT_EXIST :: int where "RDS_FILE_NOT_EXIST = 0x3f050003"
definition RDS_INVALID_FILE :: int where "RDS_INVALID_FILE = 0x3f050004"
definition RDS_OPEN_FILE_FAILED :: int where "RDS_OPEN_FILE_FAILED = 0x3f050005"

lemmas rds_codes = RDS_INVALID_PARA_def RDS_INVALID_TYPE_def RDS_FILE_NOT_EXIST_def RDS_INVALID_FILE_def
  RDS_OPEN_FILE_FAILED_def

definition COM_APP_VER_LEN :: nat where "COM_APP_VER_LEN = 32"
definition COM_APP_MAIN_VER :: string where "COM_APP_MAIN_VER = ''MPU_J303FTTRAD091[A_00]''"
definition COM_APP_CUR_DATA_DIR :: string where "COM_APP_CUR_DATA_DIR = ''/usrdata/dev/data/usrdata''"
definition COM_APP_CUR_CFG_DIR :: string where "COM_APP_CUR_CFG_DIR = ''/usrapp/current/data/cfg''"
definition COM_DATA_CUR_CFG_DIR :: string where "COM_DATA_CUR_CFG_DIR = ''/usrdata/current/data/cfg''"
definition RDS_MASTER_PATH :: string where "RDS_MASTER_PATH = ''/master''"
definition RDS_SLAVE_PATH :: string where "RDS_SLAVE_PATH = ''/slave''"

lemmas rds_paths = COM_APP_CUR_DATA_DIR_def COM_APP_CUR_CFG_DIR_def COM_DATA_CUR_CFG_DIR_def RDS_MASTER_PATH_def
  RDS_SLAVE_PATH_def

datatype RDS_DATA_TYPE = RDS_DATA_DEV_INFO | RDS_DATA_DISTANCE | RDS_DATA_UDS_DIAG | RDS_J1939_FAULT
  | RDS_SYS_CFG | RDS_ADAPTIVE_CFG | RDS_FOTON_REGSEQ

datatype RDS_BACKUP_ATTR = RDS_SINGLE | RDS_BACKUP

datatype RDS_PATH_TYPE = RDS_PATH_MASTER | RDS_PATH_BACKUP

record RDS_ITEM =
  rds_type :: nat
  path_name :: string
  area_path :: string
  backup_attr :: RDS_BACKUP_ATTR
  file_name :: string

fun type_no :: "RDS_DATA_TYPE \<Rightarrow> nat" where
  "type_no RDS_DATA_DEV_INFO = 0" | "type_no RDS_DATA_DISTANCE = 1" | "type_no RDS_DATA_UDS_DIAG = 2"
| "type_no RDS_J1939_FAULT = 3" | "type_no RDS_SYS_CFG = 4" | "type_no RDS_ADAPTIVE_CFG = 5"
| "type_no RDS_FOTON_REGSEQ = 6"

definition rds_item :: "RDS_DATA_TYPE \<Rightarrow> string \<Rightarrow> string \<Rightarrow> string \<Rightarrow> RDS_ITEM" where
  "rds_item t path area file =
     \<lparr>rds_type = type_no t, path_name = path, area_path = area, backup_attr = RDS_BACKUP, file_name = file\<rparr>"

definition rds_data_tbl :: "RDS_ITEM list" where
  "rds_data_tbl =
     [rds_item RDS_DATA_DEV_INFO COM_APP_CUR_DATA_DIR '''' ''dev_info.dat'',
      rds_item RDS_DATA_DISTANCE COM_APP_CUR_DATA_DIR '''' ''dev_distance.dat'',
      rds_item RDS_DATA_UDS_DIAG COM_APP_CUR_DATA_DIR '''' ''uds_diag.dat'',
      rds_item RDS_J1939_FAULT COM_APP_CUR_DATA_DIR '''' ''J1939_fault.dat'',
      rds_item RDS_SYS_CFG COM_APP_CUR_CFG_DIR COM_DATA_CUR_CFG_DIR ''sys_cfg.dat'',
      rds_item RDS_ADAPTIVE_CFG COM_APP_CUR_DATA_DIR '''' ''adp_cfg.dat'',
      rds_item RDS_FOTON_REGSEQ COM_APP_CUR_DATA_DIR '''' ''ft_regseq.dat'']"

text \<open>\<open>RDS_HDR\<close> as \<open>rds_write\<close> fills it, 36 bytes.\<close>

definition RDS_HDR :: "u32 \<Rightarrow> byte list" where
  "RDS_HDR len = (let v = map (of_char :: char \<Rightarrow> byte) COM_APP_MAIN_VER
     in v @ replicate (COM_APP_VER_LEN - length v) 0 @ le32 len)"

section \<open>Paths\<close>

fun index_from :: "nat \<Rightarrow> RDS_ITEM list \<Rightarrow> nat \<Rightarrow> nat option" where
  "index_from type [] i = None"
| "index_from type (x # xs) i = (if rds_type x = type then Some i else index_from type xs (Suc i))"

definition rds_get_index :: "nat \<Rightarrow> nat option" where
  "rds_get_index type = index_from type rds_data_tbl 0"

definition rds_build_single_path :: "nat \<Rightarrow> string" where
  "rds_build_single_path index = path_name (rds_data_tbl ! index) @ ''/'' @ file_name (rds_data_tbl ! index)"

definition rds_build_backup_path :: "nat \<Rightarrow> bool \<Rightarrow> string" where
  "rds_build_backup_path index is_backup =
     path_name (rds_data_tbl ! index) @ (if \<not> is_backup then RDS_MASTER_PATH else RDS_SLAVE_PATH) @ ''/'' @
     file_name (rds_data_tbl ! index)"

definition rds_get_full_path :: "nat \<Rightarrow> RDS_PATH_TYPE \<Rightarrow> string" where
  "rds_get_full_path index type =
     (if backup_attr (rds_data_tbl ! index) = RDS_SINGLE then rds_build_single_path index
      else if type = RDS_PATH_MASTER then rds_build_backup_path index False
      else rds_build_backup_path index True)"

section \<open>Writing\<close>

definition rds_write_raw :: "io_env \<Rightarrow> string \<Rightarrow> byte list \<Rightarrow> disk \<Rightarrow> int \<times> disk" where
  "rds_write_raw env path data d =
     (if \<not> file_exists path d \<and> io_mkdir env path \<noteq> 0 then (io_mkdir env path, d)
      else file_write_atomic env path data d)"

definition rds_write :: "io_env \<Rightarrow> string \<Rightarrow> byte list \<Rightarrow> disk \<Rightarrow> int \<times> disk" where
  "rds_write env path data d =
     (if \<not> file_exists path d \<and> io_mkdir env path \<noteq> 0 then (io_mkdir env path, d)
      else file_update_atomic env path (RDS_HDR (word_of_nat (length data))) data d)"

text \<open>\<open>data\<close> is \<^const>\<open>None\<close> for the NULL pointer, else the \<open>len\<close> bytes it points to.\<close>

definition rds_update_raw :: "io_env \<Rightarrow> nat \<Rightarrow> byte list option \<Rightarrow> disk \<Rightarrow> int \<times> disk" where
  "rds_update_raw env type data d =
     (if data = None \<or> data = Some [] then (RDS_INVALID_PARA, d)
      else case rds_get_index type of
        None \<Rightarrow> (RDS_INVALID_TYPE, d)
      | Some index \<Rightarrow> rds_write_raw env (rds_get_full_path index RDS_PATH_MASTER) (the data) d)"

definition copy_to_area :: "io_env \<Rightarrow> RDS_ITEM \<Rightarrow> int \<times> disk \<Rightarrow> int \<times> disk" where
  "copy_to_area env item r =
     (if length (area_path item) \<noteq> 0 then
        (let (ret, states, fs) = io_dir_copy env (path_name item) (area_path item) (d_files (snd r))
         in (ret, set_files fs ((snd r)\<lparr>hist := hist (snd r) @ states\<rparr>)))
      else r)"

definition rds_update_once :: "io_env \<Rightarrow> nat \<Rightarrow> byte list option \<Rightarrow> disk \<Rightarrow> int \<times> disk" where
  "rds_update_once env type data d =
     (if data = None \<or> data = Some [] then (RDS_INVALID_PARA, d)
      else case rds_get_index type of
        None \<Rightarrow> (RDS_INVALID_TYPE, d)
      | Some index \<Rightarrow>
          let master_path = rds_get_full_path index RDS_PATH_MASTER;
              (ret, d1) = rds_write env master_path (the data) d
          in if ret \<noteq> 0 then (ret, d1)
             else copy_to_area env (rds_data_tbl ! index)
               (if backup_attr (rds_data_tbl ! index) = RDS_BACKUP
                then file_copy env master_path (rds_get_full_path index RDS_PATH_BACKUP) d1
                else (ret, d1)))"

section \<open>Reading\<close>

text \<open>\<open>strncpy(ver, hdr.ver, COM_APP_VER_LEN)\<close> and the terminating zero after it.\<close>

definition copy_ver :: "byte list \<Rightarrow> byte list" where
  "copy_ver v = (let s = takeWhile (\<lambda>b. b \<noteq> 0) (take COM_APP_VER_LEN v)
     in (s @ replicate (COM_APP_VER_LEN - length s) 0)[COM_APP_VER_LEN - 1 := 0])"

text \<open>The caller's buffer, its size and then the length of the record, and the buffer of the version.\<close>

record rds_buf =
  rb_data :: "byte list"
  rb_len :: u32
  rb_ver :: "byte list option"

text \<open>The first bytes of the caller's buffer, overwritten.\<close>

definition fill :: "byte list \<Rightarrow> rds_buf \<Rightarrow> rds_buf" where
  "fill xs b = b\<lparr>rb_data := xs @ drop (length xs) (rb_data b)\<rparr>"

definition rds_read :: "io_env \<Rightarrow> string \<Rightarrow> rds_buf \<Rightarrow> disk \<Rightarrow> (int \<times> rds_buf \<times> disk) option" where
  "rds_read env path b d =
     (if \<not> file_exists path d then Some (RDS_FILE_NOT_EXIST, b, d)
      else if file_size path d \<le> 52 then Some (RDS_INVALID_FILE, b, d)
      else case file_open_read env path d of
        None \<Rightarrow> Some (RDS_OPEN_FILE_FAILED, b, d)
      | Some c \<Rightarrow> do {
          (ret, hdr, fd, d1) \<leftarrow> dev_read (Some c) 36 d;
          let hdr_len = get_le32 (drop 32 hdr);
          if ret \<noteq> 0 then Some (ret, b, d1)
          else if file_size path d \<noteq> 52 + hdr_len then Some (RDS_INVALID_FILE, b, d1)
          else if rb_len b < hdr_len then Some (RDS_INVALID_PARA, b, d1)
          else do {
            (ret, data, fd, d2) \<leftarrow> dev_read fd (unat hdr_len) d1;
            let b1 = fill data b;
            if ret \<noteq> 0 then Some (ret, b1, d2)
            else do {
              (ret, digest, fd, d3) \<leftarrow> dev_read fd MD5_LENGTH d2;
              if ret \<noteq> 0 then Some (ret, b1, d3)
              else if digest \<noteq> io_md5 env (hdr @ data) then Some (RDS_INVALID_FILE, b1, d3)
              else Some (0, b1\<lparr>rb_len := hdr_len, rb_ver := map_option (\<lambda>_. copy_ver hdr) (rb_ver b1)\<rparr>, d3) } } })"

text \<open>\<open>rds_get\<close> with \<open>data\<close> and \<open>len\<close> not NULL.\<close>

definition rds_get :: "io_env \<Rightarrow> nat \<Rightarrow> rds_buf \<Rightarrow> disk \<Rightarrow> (int \<times> rds_buf \<times> disk) option" where
  "rds_get env type b d =
     (case rds_get_index type of
        None \<Rightarrow> Some (RDS_INVALID_TYPE, b, d)
      | Some index \<Rightarrow>
          let master_path = rds_get_full_path index RDS_PATH_MASTER;
              backup_path = rds_get_full_path index RDS_PATH_BACKUP
          in do {
            (ret, b1, d1) \<leftarrow> rds_read env master_path b d;
            if ret = 0 then Some (0, b1, d1)
            else if backup_attr (rds_data_tbl ! index) \<noteq> RDS_BACKUP then Some (ret, b1, d1)
            else do {
              (ret, b2, d2) \<leftarrow> rds_read env backup_path b1 d1;
              if ret \<noteq> 0 then Some (ret, b2, d2)
              else Some (0, b2, snd (file_copy env backup_path master_path d2)) } })"

fun set_default_loop :: "io_env \<Rightarrow> nat list \<Rightarrow> disk \<Rightarrow> disk" where
  "set_default_loop env [] d = d"
| "set_default_loop env (i # is) d =
     (let d1 = file_delete env (rds_get_full_path i RDS_PATH_MASTER) d
      in set_default_loop env is
           (if backup_attr (rds_data_tbl ! i) = RDS_SINGLE then d1
            else file_delete env (rds_get_full_path i RDS_PATH_BACKUP) d1))"

definition rds_set_default :: "io_env \<Rightarrow> disk \<Rightarrow> disk" where
  "rds_set_default env d = set_default_loop env [0..<length rds_data_tbl] d"

end
