(* ===== verification/RdsProps.thy ===== *)
theory RdsProps
  imports Rds
begin

text \<open>
  Properties of the data store: the loops of \<open>dev_read\<close> and \<open>rds_get\<close> end, what is stored is read
  again, and a power failure at any moment of an update leaves the old or the new record.
\<close>

section \<open>Reading a descriptor\<close>

lemma dev_read_loop_ends:
  "len \<le> length c \<Longrightarrow> readcnt \<le> len \<Longrightarrow> \<exists>ret n s. dev_read_loop c len readcnt script = Some (ret, n, s) \<and>
     set s \<subseteq> set script \<and> n \<le> len \<and> (ret = 0 \<and> n = len \<or> ret = DEV_RW_READ_FAILED \<and> Fail \<in> set script)"
proof (induction script arbitrary: readcnt)
  case Nil
  show ?case
    using Nil by (subst dev_read_loop.simps) (simp, subst dev_read_loop.simps, simp)
next
  case (Cons x s)
  show ?case
  proof (cases "len \<le> readcnt")
    case True
    then show ?thesis using Cons.prems by (subst dev_read_loop.simps) simp
  next
    case False
    show ?thesis
    proof (cases x)
      case (Moved n)
      have "readcnt + min n (min (len - readcnt) (length c - readcnt)) \<le> len" using False by linarith
      from Cons.IH [OF Cons.prems(1) this] show ?thesis
        using False Moved by (subst dev_read_loop.simps) auto
    next
      case Intr
      then show ?thesis using Cons.IH [OF Cons.prems] False by (subst dev_read_loop.simps) auto
    next
      case Fail
      then show ?thesis using False by (subst dev_read_loop.simps) auto
    qed
  qed
qed

text \<open>At the end of the file the loop goes round for ever.\<close>

lemma dev_read_loop_at_end:
  assumes "dev_read_loop c len readcnt script = Some r" "length c < len" "readcnt \<le> length c" "Fail \<notin> set script"
  shows False
proof -
  have "readcnt \<le> length c \<longrightarrow> length c < len \<longrightarrow> Fail \<in> set script"
  proof (rule dev_read_loop.raw_induct [where P = "\<lambda>c len readcnt script r. readcnt \<le> length c \<longrightarrow> length c < len \<longrightarrow> Fail \<in> set script",
        OF _ assms(1)])
    fix f and c :: "byte list" and len readcnt script r
    assume IH: "\<And>c len readcnt script r. f c len readcnt script = Some r \<Longrightarrow>
        readcnt \<le> length c \<longrightarrow> length c < len \<longrightarrow> Fail \<in> set script"
      and ret: "(if len \<le> readcnt then Some (0, readcnt, script)
        else case script of
          [] \<Rightarrow> f c len (readcnt + min (len - readcnt) (length c - readcnt)) []
        | Moved n # s \<Rightarrow> f c len (readcnt + min n (min (len - readcnt) (length c - readcnt))) s
        | Intr # s \<Rightarrow> f c len readcnt s
        | Fail # s \<Rightarrow> Some (DEV_RW_READ_FAILED, readcnt, s)) = Some r"
    show "readcnt \<le> length c \<longrightarrow> length c < len \<longrightarrow> Fail \<in> set script"
    proof (intro impI)
      assume b: "readcnt \<le> length c" "length c < len"
      show "Fail \<in> set script"
      proof (cases script)
        case Nil
        then show ?thesis using IH [of c len "readcnt + min (len - readcnt) (length c - readcnt)" "[]" r] ret b by simp
      next
        case (Cons x s)
        then show ?thesis
          using IH [of c len _ s r] ret b by (cases x) auto
      qed
    qed
  qed
  then show False using assms by simp
qed

lemma dev_read_loop_iff:
  assumes "readcnt \<le> length c" "readcnt \<le> len"
  shows "dev_read_loop c len readcnt script \<noteq> None \<longleftrightarrow> len \<le> length c \<or> Fail \<in> set script"
proof (cases "len \<le> length c")
  case True
  then show ?thesis using dev_read_loop_ends [OF True assms(2), of script] by auto
next
  case False
  have "\<exists>r. dev_read_loop c len readcnt script = Some r" if "Fail \<in> set script"
    using that assms
  proof (induction script arbitrary: readcnt)
    case (Cons x s)
    show ?case
    proof (cases x)
      case (Moved n)
      have "readcnt + min n (min (len - readcnt) (length c - readcnt)) \<le> length c"
        "readcnt + min n (min (len - readcnt) (length c - readcnt)) \<le> len"
        using Cons.prems by linarith+
      then show ?thesis using Cons.IH Cons.prems(1) Moved by (subst dev_read_loop.simps) auto
    next
      case Intr
      then show ?thesis using Cons.IH [of readcnt] Cons.prems by (subst dev_read_loop.simps) auto
    next
      case Fail
      then show ?thesis by (subst dev_read_loop.simps) auto
    qed
  qed simp
  then show ?thesis using dev_read_loop_at_end [of c len readcnt script] False assms by auto
qed

text \<open>\<open>dev_read\<close> with enough bytes left.\<close>

lemma dev_read_enough:
  assumes "len \<le> length c"
  shows "\<exists>ret n s. dev_read (Some c) len d = Some (ret, take n c, Some (drop n c), d\<lparr>d_read := s\<rparr>) \<and>
    set s \<subseteq> set (d_read d) \<and> n \<le> len \<and> (ret = 0 \<and> n = len \<or> ret = DEV_RW_READ_FAILED \<and> Fail \<in> set (d_read d))"
proof -
  obtain ret n s where r: "dev_read_loop c len 0 (d_read d) = Some (ret, n, s)"
    and "set s \<subseteq> set (d_read d)" "n \<le> len" "ret = 0 \<and> n = len \<or> ret = DEV_RW_READ_FAILED \<and> Fail \<in> set (d_read d)"
    using dev_read_loop_ends [OF assms, of 0 "d_read d"] by auto
  then show ?thesis by (intro exI [of _ ret] exI [of _ n] exI [of _ s]) (simp add: dev_read_def)
qed

section \<open>What a file holds\<close>

text \<open>
  The record in the bytes of a file: the header with the length, the record and the digest of both,
  and no byte more.
\<close>

definition decode :: "(byte list \<Rightarrow> byte list) \<Rightarrow> byte list \<Rightarrow> byte list option" where
  "decode md5 c =
     (if 52 < length c \<and> 52 + unat (get_le32 (drop 32 c)) = length c \<and>
         md5 (take (length c - 16) c) = drop (length c - 16) c
      then Some (drop 36 (take (length c - 16) c)) else None)"

definition file_record :: "(byte list \<Rightarrow> byte list) \<Rightarrow> files \<Rightarrow> string \<Rightarrow> byte list option" where
  "file_record md5 fs path = Option.bind (fs path) (decode md5)"

text \<open>What the store holds for a type: the record of the master, or else that of the backup.\<close>

definition stored :: "(byte list \<Rightarrow> byte list) \<Rightarrow> files \<Rightarrow> nat \<Rightarrow> byte list option" where
  "stored md5 fs i =
     (case file_record md5 fs (rds_get_full_path i RDS_PATH_MASTER) of
        Some x \<Rightarrow> Some x
      | None \<Rightarrow> file_record md5 fs (rds_get_full_path i RDS_PATH_BACKUP))"

definition small :: "files \<Rightarrow> bool" where
  "small fs \<longleftrightarrow> (\<forall>p c. fs p = Some c \<longrightarrow> length c < 2 ^ 31)"

text \<open>The buffer after a record was read from the bytes of a file.\<close>

definition got :: "byte list \<Rightarrow> byte list \<Rightarrow> rds_buf \<Rightarrow> rds_buf" where
  "got c x b = (fill x b)\<lparr>rb_len := word_of_nat (length x), rb_ver := map_option (\<lambda>_. copy_ver (take 36 c)) (rb_ver b)\<rparr>"

lemma get_le32_take: "get_le32 (take 4 xs) = get_le32 xs"
  by (cases xs rule: get_le32.cases) simp_all

lemma drop_take_header: "get_le32 (drop 32 (take 36 c)) = get_le32 (drop 32 c)"
  using get_le32_take [of "drop 32 c"] by (simp add: drop_take)

lemma size_word: "length (c :: byte list) < 2 ^ 31 \<Longrightarrow> unat (word_of_nat (length c) :: u32) = length c"
  by (simp add: unat_of_nat take_bit_nat_eq_self)

lemma size_eq_iff:
  assumes "length (c :: byte list) < 2 ^ 31" "52 < length c"
  shows "(word_of_nat (length c) :: u32) = 52 + n \<longleftrightarrow> 52 + unat n = length c"
proof
  assume a: "(word_of_nat (length c) :: u32) = 52 + n"
  then have "n = word_of_nat (length c) - 52" by simp
  moreover have "unat ((word_of_nat (length c) :: u32) - 52) = length c - 52"
    using size_word [OF assms(1)] assms(2) by (subst unat_sub_le) (auto simp: word_le_nat_alt)
  ultimately show "52 + unat n = length c" using assms(2) by simp
next
  assume "52 + unat n = length c"
  then have "length c = 52 + unat n" by simp
  then show "(word_of_nat (length c) :: u32) = 52 + n" by simp
qed

section \<open>Reading a file of the store\<close>

text \<open>
  How a read of a file ends: it succeeds only with the record of the file, it leaves length and
  version alone if it fails, and it succeeds if there is a record that fits and no call fails.
\<close>

definition read_outcome :: "io_env \<Rightarrow> string \<Rightarrow> rds_buf \<Rightarrow> disk \<Rightarrow> int \<Rightarrow> rds_buf \<Rightarrow> bool" where
  "read_outcome env path b d ret b' \<longleftrightarrow>
     (ret = 0 \<longrightarrow> (\<exists>c x. d_files d path = Some c \<and> decode (io_md5 env) c = Some x \<and> length x \<le> unat (rb_len b) \<and>
        length c = 52 + length x \<and> b' = got c x b)) \<and>
     (ret \<noteq> 0 \<longrightarrow> rb_len b' = rb_len b \<and> rb_ver b' = rb_ver b) \<and>
     (\<forall>x. file_record (io_md5 env) (d_files d) path = Some x \<longrightarrow> length x \<le> unat (rb_len b) \<longrightarrow> io_open env path \<longrightarrow>
        Fail \<notin> set (d_read d) \<longrightarrow> ret = 0)"

lemma parts_of_file:
  assumes "length c = 52 + n"
  shows "take 36 c @ take n (drop 36 c) = take (length c - 16) c" "take 16 (drop (36 + n) c) = drop (length c - 16) c"
    "take n (drop 36 c) = drop 36 (take (length c - 16) c)"
proof -
  have l: "length c - 16 = 36 + n" using assms by simp
  show "take 36 c @ take n (drop 36 c) = take (length c - 16) c" by (simp only: l take_add)
  show "take 16 (drop (36 + n) c) = drop (length c - 16) c" using assms by (simp add: l)
  show "take n (drop 36 c) = drop 36 (take (length c - 16) c)" by (simp add: l drop_take)
qed

lemma decode_eq:
  assumes "52 < length c" "52 + unat (get_le32 (drop 32 c)) = length c"
  shows "decode md5 c = (if md5 (take (length c - 16) c) = drop (length c - 16) c
     then Some (take (unat (get_le32 (drop 32 c))) (drop 36 c)) else None)"
  by (subst parts_of_file(3) [OF assms(2) [symmetric]]) (use assms in \<open>simp add: decode_def\<close>)

lemma decode_length: "decode md5 c = Some x \<Longrightarrow> length c = 52 + length x"
  by (auto simp: decode_def split: if_splits)

lemma rds_read_body:
  assumes f: "d_files d path = Some c" and small: "length c < 2 ^ 31" and big: "52 < length c" and o: "io_open env path"
    and hdr: "dev_read (Some c) 36 d = Some (0, take 36 c, Some (drop 36 c), d\<lparr>d_read := s1\<rparr>)"
    and sub: "set s1 \<subseteq> set (d_read d)" and fits: "52 + unat (get_le32 (drop 32 c)) = length c" "get_le32 (drop 32 c) \<le> rb_len b"
  shows "\<exists>ret b' s. rds_read env path b d = Some (ret, b', d\<lparr>d_read := s\<rparr>) \<and> set s \<subseteq> set (d_read d) \<and>
    read_outcome env path b d ret b'"
    (is "\<exists>ret b' s. ?P ret b' s")
proof -
  let ?n = "get_le32 (drop 32 c)"
  have fe: "file_exists path d" and fs: "file_size path d = word_of_nat (length c)"
    using f by (simp_all add: file_exists_def file_size_def)
  have le: "(word_of_nat (length c) :: u32) \<le> 52 \<longleftrightarrow> length c \<le> 52"
    using size_word [OF small] by (simp add: word_le_nat_alt)
  have fo: "file_open_read env path d = Some c" using f o by (simp add: file_open_read_def)
  note r1 = rds_read_def fe fs le Let_def fo hdr drop_take_header size_eq_iff [OF small big]
  let ?x = "take (unat ?n) (drop 36 c)"
  have "unat ?n \<le> length (drop 36 c)" using fits(1) by simp
  from dev_read_enough [OF this, of "d\<lparr>d_read := s1\<rparr>"] obtain r2 n2 s2 where
    2: "dev_read (Some (drop 36 c)) (unat ?n) (d\<lparr>d_read := s1\<rparr>) =
         Some (r2, take n2 (drop 36 c), Some (drop n2 (drop 36 c)), d\<lparr>d_read := s2\<rparr>)"
      "set s2 \<subseteq> set s1" "r2 = 0 \<and> n2 = unat ?n \<or> r2 = DEV_RW_READ_FAILED \<and> Fail \<in> set s1"
    by auto
  show ?thesis
  proof (cases "r2 = 0")
    case False
    then have "?P r2 (fill (take n2 (drop 36 c)) b) s2"
      using sub 2 fits big by (auto simp: r1 read_outcome_def fill_def simp del: drop_drop)
    then show ?thesis by blast
  next
    case True
    then have n2: "n2 = unat ?n" using 2(3) by (simp add: DEV_RW_READ_FAILED_def)
    have "MD5_LENGTH \<le> length (drop (unat ?n) (drop 36 c))" using fits(1) by (simp add: MD5_LENGTH_def)
    from dev_read_enough [OF this, of "d\<lparr>d_read := s2\<rparr>"] obtain r3 n3 s3 where
      r3: "dev_read (Some (drop (unat ?n) (drop 36 c))) MD5_LENGTH (d\<lparr>d_read := s2\<rparr>) =
           Some (r3, take n3 (drop (unat ?n) (drop 36 c)), Some (drop n3 (drop (unat ?n) (drop 36 c))), d\<lparr>d_read := s3\<rparr>)"
        "set s3 \<subseteq> set s2" "r3 = 0 \<and> n3 = MD5_LENGTH \<or> r3 = DEV_RW_READ_FAILED \<and> Fail \<in> set s2"
      by auto
    note r2 = r1 2(1) n2 True r3(1)
    have lx: "length ?x = unat ?n" using fits(1) by simp
    then have g: "got c ?x b = (fill ?x b)\<lparr>rb_len := ?n, rb_ver := map_option (\<lambda>_. copy_ver (take 36 c)) (rb_ver (fill ?x b))\<rparr>"
      by (simp add: got_def fill_def)
    have nl: "(rb_len b < ?n) = False" using fits(2) by simp
    have rd: "rds_read env path b d = Some
      (if r3 \<noteq> 0 then (r3, fill ?x b, d\<lparr>d_read := s3\<rparr>)
       else if take n3 (drop (unat ?n) (drop 36 c)) \<noteq> io_md5 env (take 36 c @ ?x) then (RDS_INVALID_FILE, fill ?x b, d\<lparr>d_read := s3\<rparr>)
       else (0, got c ?x b, d\<lparr>d_read := s3\<rparr>))"
      using fits big by (simp add: r2 nl g del: drop_drop)
    have dc: "decode (io_md5 env) c = (if io_md5 env (take 36 c @ ?x) = take 16 (drop (36 + unat ?n) c) then Some ?x else None)"
      using decode_eq [OF big fits(1), of "io_md5 env"] parts_of_file(1,2) [OF fits(1) [symmetric]] by simp
    have fr: "file_record (io_md5 env) (d_files d) path = decode (io_md5 env) c" using f by (simp add: file_record_def)
    consider "r3 \<noteq> 0" | "r3 = 0" "take 16 (drop (36 + unat ?n) c) \<noteq> io_md5 env (take 36 c @ ?x)"
      | "r3 = 0" "take 16 (drop (36 + unat ?n) c) = io_md5 env (take 36 c @ ?x)" by blast
    then show ?thesis
    proof cases
      case 1
      then have "?P r3 (fill ?x b) s3"
        using sub 2(2) r3 by (auto simp: rd read_outcome_def fill_def)
      then show ?thesis by blast
    next
      case 2
      then have "?P RDS_INVALID_FILE (fill ?x b) s3"
        using sub \<open>set s2 \<subseteq> set s1\<close> r3 dc fr
        by (auto simp: rd read_outcome_def fill_def rds_codes MD5_LENGTH_def DEV_RW_READ_FAILED_def add.commute)
      then show ?thesis by blast
    next
      case 3
      then have n3: "n3 = MD5_LENGTH" using r3(3) by (simp add: DEV_RW_READ_FAILED_def)
      have rv: "rds_read env path b d = Some (0, got c ?x b, d\<lparr>d_read := s3\<rparr>)"
        using 3 n3 by (simp add: rd MD5_LENGTH_def add.commute)
      have dx: "decode (io_md5 env) c = Some ?x" using dc 3(2) by simp
      have "length ?x \<le> unat (rb_len b)" using lx nl by (simp add: word_less_nat_alt)
      then have "read_outcome env path b d 0 (got c ?x b)"
        unfolding read_outcome_def using f dx decode_length [OF dx] by blast
      then show ?thesis using rv sub \<open>set s2 \<subseteq> set s1\<close> r3(2) by blast
    qed
  qed
qed

lemma rds_read_outcome:
  assumes "small (d_files d)"
  shows "\<exists>ret b' s. rds_read env path b d = Some (ret, b', d\<lparr>d_read := s\<rparr>) \<and> set s \<subseteq> set (d_read d) \<and>
    read_outcome env path b d ret b'"
    (is "\<exists>ret b' s. ?P ret b' s")
proof (cases "d_files d path")
  case None
  then have "?P RDS_FILE_NOT_EXIST b (d_read d)"
    by (simp add: rds_read_def file_exists_def read_outcome_def file_record_def rds_codes)
  then show ?thesis by blast
next
  case (Some c)
  note f = Some
  then have c: "length c < 2 ^ 31" using assms by (simp add: small_def)
  have fe: "file_exists path d" and fs: "file_size path d = word_of_nat (length c)"
    using f by (simp_all add: file_exists_def file_size_def)
  have le: "(word_of_nat (length c) :: u32) \<le> 52 \<longleftrightarrow> length c \<le> 52"
    using size_word [OF c] by (simp add: word_le_nat_alt)
  let ?n = "get_le32 (drop 32 c)"
  note r = rds_read_def fe fs le Let_def
  consider "length c \<le> 52" | "52 < length c" "\<not> io_open env path" | "52 < length c" "io_open env path" by linarith
  then show ?thesis
  proof cases
    case 1
    then have "?P RDS_INVALID_FILE b (d_read d)"
      using f by (simp add: r read_outcome_def file_record_def decode_def rds_codes)
    then show ?thesis by blast
  next
    case 2
    then have "?P RDS_OPEN_FILE_FAILED b (d_read d)"
      by (simp add: r read_outcome_def file_open_read_def rds_codes)
    then show ?thesis by blast
  next
    case 3
    note big = 3(1) and oo = 3(2)
    from 3 have o: "file_open_read env path d = Some c" using f by (simp add: file_open_read_def)
    obtain r1 n1 s1 where 1: "dev_read (Some c) 36 d = Some (r1, take n1 c, Some (drop n1 c), d\<lparr>d_read := s1\<rparr>)"
      "set s1 \<subseteq> set (d_read d)" "r1 = 0 \<and> n1 = 36 \<or> r1 = DEV_RW_READ_FAILED \<and> Fail \<in> set (d_read d)"
      using dev_read_enough [of 36 c d] 3(1) by auto
    show ?thesis
    proof (cases "r1 = 0")
      case False
      then have "?P r1 b s1" using 1 3 by (simp add: r o read_outcome_def)
      then show ?thesis by blast
    next
      case True
      then have n1: "n1 = 36" using 1(3) by (simp add: DEV_RW_READ_FAILED_def)
      note r1 = r o 1(1) n1 True drop_take_header size_eq_iff [OF c 3(1)]
      consider "52 + unat ?n \<noteq> length c" | "52 + unat ?n = length c" "rb_len b < ?n" | "52 + unat ?n = length c" "?n \<le> rb_len b"
        using not_le by blast
      then show ?thesis
      proof cases
        case 1
        then have "?P RDS_INVALID_FILE b s1"
          using f \<open>set s1 \<subseteq> set (d_read d)\<close> 3(1)
          by (simp add: r1 read_outcome_def file_record_def decode_def rds_codes)
        then show ?thesis by blast
      next
        case 2
        then have "?P RDS_INVALID_PARA b s1"
          using f \<open>set s1 \<subseteq> set (d_read d)\<close> 3(1)
          by (auto simp: r1 read_outcome_def file_record_def rds_codes word_less_nat_alt dest!: decode_length)
        then show ?thesis by blast
      next
        case 3
        have hdr: "dev_read (Some c) 36 d = Some (0, take 36 c, Some (drop 36 c), d\<lparr>d_read := s1\<rparr>)"
          using 1(1) n1 True by simp
        from 3 show ?thesis by (intro rds_read_body [OF f c big oo hdr 1(2)])
      qed
    qed
  qed
qed

section \<open>Writing one file\<close>

text \<open>A run of the code in which every state, the last one included, differs from the first only at a path.\<close>

definition only_at :: "string \<Rightarrow> disk \<Rightarrow> disk \<Rightarrow> bool" where
  "only_at path d d' \<longleftrightarrow>
     (\<exists>xs. hist d' = hist d @ xs \<and> (\<forall>fs \<in> insert (d_files d') (set xs). \<forall>p. p \<noteq> path \<longrightarrow> fs p = d_files d p))"

lemma only_at_refl [simp]: "only_at path d d"
  by (simp add: only_at_def)

lemma only_at_scripts [simp]:
  "only_at path d (d'\<lparr>d_write := s\<rparr>) = only_at path d d'" "only_at path d (d'\<lparr>d_read := s\<rparr>) = only_at path d d'"
  by (simp_all add: only_at_def)

lemma only_at_trans: "only_at path d d' \<Longrightarrow> only_at path d' d'' \<Longrightarrow> only_at path d d''"
  unfolding only_at_def by (elim exE conjE) (intro exI conjI, simp, fastforce)

lemma only_at_put [simp]: "only_at path d (put path c d)"
  by (auto simp: only_at_def put_def set_files_def)

lemma only_at_append [simp]: "only_at path d (append_bytes path bs d)"
proof (induction bs arbitrary: d)
  case (Cons b bs)
  have "only_at path d (append_byte path b d)" by (simp add: append_byte_def)
  from only_at_trans [OF this Cons.IH] show ?case by (simp add: append_bytes_def)
qed (simp add: append_bytes_def)

lemma append_bytes_files:
  "d_files d path = Some c \<Longrightarrow> d_files (append_bytes path bs d) = (d_files d)(path \<mapsto> c @ bs)"
proof (induction bs arbitrary: c d)
  case (Cons b bs)
  have "d_files (append_byte path b d) path = Some (c @ [b])"
    using Cons.prems by (simp add: append_byte_def put_def set_files_def)
  from Cons.IH [OF this] show ?case
    using Cons.prems by (auto simp: append_bytes_def append_byte_def put_def set_files_def fun_eq_iff)
qed (simp add: append_bytes_def fun_upd_idem)

lemma append_bytes_script [simp]: "d_write (append_bytes path bs d) = d_write d" "d_read (append_bytes path bs d) = d_read d"
  by (induction bs arbitrary: d) (simp_all add: append_bytes_def append_byte_def put_def set_files_def)

lemma dev_write_loop_only: "only_at path d (snd (dev_write_loop path data script d))"
proof (induction path data script d rule: dev_write_loop.induct)
  case (1 path data script d)
  show ?case
    by (subst dev_write_loop.simps) (use 1 in \<open>auto split: list.splits io.splits intro: only_at_trans [OF only_at_append]\<close>)
qed

text \<open>A write that succeeds has put down all bytes, and it succeeds if no call fails.\<close>

lemma dev_write_loop_files:
  "d_files d path = Some c \<Longrightarrow> fst (dev_write_loop path data script d) = 0 \<Longrightarrow>
   d_files (snd (dev_write_loop path data script d)) = (d_files d)(path \<mapsto> c @ data)"
proof (induction path data script d arbitrary: c rule: dev_write_loop.induct)
  case (1 path data script d)
  show ?case
  proof (cases "data = []")
    case True
    then show ?thesis using 1(3) by (subst dev_write_loop.simps) (simp add: fun_upd_idem)
  next
    case False
    show ?thesis
    proof (cases script)
      case Nil
      then show ?thesis using 1(3) False by (subst dev_write_loop.simps) (simp add: append_bytes_files)
    next
      case (Cons x s)
      show ?thesis
      proof (cases x)
        case (Moved n)
        have "d_files (append_bytes path (take n data) d) path = Some (c @ take n data)"
          using 1(3) by (simp add: append_bytes_files)
        from 1(1) [OF False Cons Moved this] 1(3,4) show ?thesis
          using False Cons Moved by (auto simp: dev_write_loop.simps [of path data] append_bytes_files fun_eq_iff)
      next
        case Intr
        from 1(2) [OF False Cons Intr 1(3)] 1(4) show ?thesis
          using False Cons Intr by (simp add: dev_write_loop.simps [of path data])
      next
        case Fail
        then show ?thesis
          using 1(4) False Cons by (simp add: dev_write_loop.simps [of path data] DEV_RW_READ_FAILED_def)
      qed
    qed
  qed
qed

lemma dev_write_only: "only_at path d (snd (dev_write (Some path) buf d))"
  by (simp add: dev_write_def dev_write_loop_only)

lemma dev_write_files:
  "dev_write (Some path) buf d = (0, d') \<Longrightarrow> d_files d path = Some c \<Longrightarrow> d_files d' = (d_files d)(path \<mapsto> c @ buf)"
  using dev_write_loop_files [of d path c buf "d_write d"] by (simp add: dev_write_def)

lemma sendfile_loop_only: "only_at dst d (snd (sendfile_loop dst c script d))"
proof (induction dst c script d rule: sendfile_loop.induct)
  case (1 dst c script d)
  show ?case
    by (subst sendfile_loop.simps) (use 1 in \<open>auto split: list.splits io.splits intro: only_at_trans [OF only_at_append]\<close>)
qed

lemma sendfile_loop_files:
  "d_files d dst = Some c0 \<Longrightarrow> fst (sendfile_loop dst c script d) = 0 \<Longrightarrow>
   d_files (snd (sendfile_loop dst c script d)) = (d_files d)(dst \<mapsto> c0 @ c)"
proof (induction dst c script d arbitrary: c0 rule: sendfile_loop.induct)
  case (1 dst c script d)
  show ?case
  proof (cases "c = []")
    case True
    then show ?thesis using 1(2) by (subst sendfile_loop.simps) (simp add: fun_upd_idem)
  next
    case False
    show ?thesis
    proof (cases script)
      case Nil
      then show ?thesis using 1(2) False by (subst sendfile_loop.simps) (simp add: append_bytes_files)
    next
      case (Cons x s)
      show ?thesis
      proof (cases x)
        case (Moved n)
        have "d_files (append_bytes dst (take n c) d) dst = Some (c0 @ take n c)"
          using 1(2) by (simp add: append_bytes_files)
        from 1(1) [OF False Cons Moved this] 1(2,3) show ?thesis
          using False Cons Moved by (auto simp: sendfile_loop.simps [of dst c] append_bytes_files fun_eq_iff)
      qed (use 1(3) False Cons in \<open>simp_all add: sendfile_loop.simps [of dst c] FILE_COPY_FAILED_def\<close>)
    qed
  qed
qed

lemma file_copy_only: "only_at dst d (snd (file_copy env src dst d))"
proof (cases "d_files d src")
  case (Some c)
  have "only_at dst d (snd (sendfile_loop dst c (d_write d1) d1))" if "only_at dst d d1" for d1
    using only_at_trans [OF that sendfile_loop_only] .
  then show ?thesis
    using Some by (simp add: file_copy_def open_trunc_def Let_def)
qed (simp add: file_copy_def)

lemma file_copy_files:
  assumes "file_copy env src dst d = (0, d')" "src \<noteq> dst"
  shows "d_files d' = (d_files d)(dst := d_files d src)"
proof (cases "d_files d src")
  case (Some c)
  have "file_copy env src dst d = sendfile_loop dst c (d_write (put dst [] d)) (put dst [] d)"
    using assms Some by (auto simp: file_copy_def open_trunc_def Let_def file_codes split: if_splits)
  then have e: "sendfile_loop dst c (d_write (put dst [] d)) (put dst [] d) = (0, d')" using assms(1) by simp
  have "d_files (put dst [] d) dst = Some []" by (simp add: put_def set_files_def)
  from sendfile_loop_files [OF this, of c "d_write (put dst [] d)"] have "d_files d' = (d_files (put dst [] d))(dst \<mapsto> c)"
    by (simp add: e)
  then show ?thesis using Some by (auto simp: put_def set_files_def fun_eq_iff)
qed (use assms in \<open>simp add: file_copy_def FILE_STAT_FAILED_def\<close>)

section \<open>The paths of the store\<close>

text \<open>Every type has its own files, and none is the temporary file of another.\<close>

lemma index_less: "rds_get_index t = Some i \<longleftrightarrow> t < 7 \<and> i = t"
proof -
  have "t < 7 \<Longrightarrow> t = 0 \<or> t = 1 \<or> t = 2 \<or> t = 3 \<or> t = 4 \<or> t = 5 \<or> t = 6" by linarith
  then show ?thesis
    by (auto simp: rds_get_index_def rds_data_tbl_def rds_item_def split: if_splits)
qed

definition all_paths :: "string list" where
  "all_paths = concat (map (\<lambda>i. [rds_get_full_path i RDS_PATH_MASTER, rds_get_full_path i RDS_PATH_BACKUP,
     temp_path (rds_get_full_path i RDS_PATH_MASTER)]) [0..<7])"

lemma all_paths_distinct: "distinct all_paths"
  by code_simp

lemma path_in_all_paths:
  assumes "i < 7"
  shows "rds_get_full_path i RDS_PATH_MASTER = all_paths ! (3 * i)" "rds_get_full_path i RDS_PATH_BACKUP = all_paths ! (3 * i + 1)"
    "temp_path (rds_get_full_path i RDS_PATH_MASTER) = all_paths ! (3 * i + 2)"
proof -
  have "\<forall>i \<in> set [0..<7]. rds_get_full_path i RDS_PATH_MASTER = all_paths ! (3 * i) \<and>
      rds_get_full_path i RDS_PATH_BACKUP = all_paths ! (3 * i + 1) \<and>
      temp_path (rds_get_full_path i RDS_PATH_MASTER) = all_paths ! (3 * i + 2)"
    by code_simp
  moreover have "i \<in> set [0..<7]" using assms by simp
  ultimately show "rds_get_full_path i RDS_PATH_MASTER = all_paths ! (3 * i)"
    "rds_get_full_path i RDS_PATH_BACKUP = all_paths ! (3 * i + 1)"
    "temp_path (rds_get_full_path i RDS_PATH_MASTER) = all_paths ! (3 * i + 2)"
    by blast+
qed

lemma temp_in_all_paths: "i < 7 \<Longrightarrow> temp_path (all_paths ! (3 * i)) = all_paths ! (3 * i + 2)"
  using path_in_all_paths(1,3) [of i] by simp

lemma length_all_paths: "length all_paths = 21"
  by (simp add: all_paths_def upt_rec)

lemma path_eq [simp]:
  assumes "i < 7" "j < 7"
  shows "rds_get_full_path i RDS_PATH_MASTER = rds_get_full_path j RDS_PATH_MASTER \<longleftrightarrow> i = j"
    "rds_get_full_path i RDS_PATH_BACKUP = rds_get_full_path j RDS_PATH_BACKUP \<longleftrightarrow> i = j"
    "rds_get_full_path i RDS_PATH_MASTER \<noteq> rds_get_full_path j RDS_PATH_BACKUP"
    "rds_get_full_path i RDS_PATH_BACKUP \<noteq> rds_get_full_path j RDS_PATH_MASTER"
    "rds_get_full_path i RDS_PATH_MASTER \<noteq> temp_path (rds_get_full_path j RDS_PATH_MASTER)"
    "rds_get_full_path i RDS_PATH_BACKUP \<noteq> temp_path (rds_get_full_path j RDS_PATH_MASTER)"
  using assms
  by (simp_all add: path_in_all_paths(1,2) temp_in_all_paths nth_eq_iff_index_eq [OF all_paths_distinct] length_all_paths
      del: add_2_eq_Suc') presburger+

lemma path_length: "i < 7 \<Longrightarrow> length (temp_path (rds_get_full_path i RDS_PATH_MASTER)) < COM_APP_MAX_PATH_LEN"
proof -
  assume "i < 7"
  then have "i = 0 \<or> i = 1 \<or> i = 2 \<or> i = 3 \<or> i = 4 \<or> i = 5 \<or> i = 6" by linarith
  then show ?thesis by (elim disjE; simp; code_simp)
qed

section \<open>An update\<close>

text \<open>
  The bytes of a file with a record, as \<open>file_update_atomic\<close> puts them together, and the record that
  \<open>rds_read\<close> finds in them.
\<close>

definition record_image :: "(byte list \<Rightarrow> byte list) \<Rightarrow> byte list \<Rightarrow> byte list" where
  "record_image md5 x = (let h = RDS_HDR (word_of_nat (length x)) in h @ x @ md5 (h @ x))"

lemma length_RDS_HDR [simp]: "length (RDS_HDR n) = 36"
  by (simp add: RDS_HDR_def COM_APP_MAIN_VER_def COM_APP_VER_LEN_def Let_def)

lemma get_len_RDS_HDR [simp]: "get_le32 (drop 32 (RDS_HDR n) @ bs) = n"
  by (simp add: RDS_HDR_def COM_APP_MAIN_VER_def COM_APP_VER_LEN_def Let_def)

lemma decode_record_image:
  assumes "\<And>m. length (md5 m) = 16" "x \<noteq> []" "length x < 2 ^ 31"
  shows "decode md5 (record_image md5 x) = Some x"
proof -
  have "unat (word_of_nat (length x) :: u32) = length x" using assms(3) by (rule size_word)
  then show ?thesis
    using assms by (simp add: decode_def record_image_def Let_def)
qed

text \<open>
  What an update of one type does before it copies the master: every state differs only in the
  temporary file, and if it reports success this file took the place of the master, unless \<open>rename\<close>
  failed.
\<close>

definition replaced :: "io_env \<Rightarrow> string \<Rightarrow> byte list \<Rightarrow> disk \<Rightarrow> disk \<Rightarrow> bool" where
  "replaced env path c d d' \<longleftrightarrow>
     (\<exists>d1. only_at (temp_path path) d d1 \<and> d' = set_files ((d_files d1)(path \<mapsto> c, temp_path path := None)) d1)"

definition written :: "io_env \<Rightarrow> string \<Rightarrow> byte list \<Rightarrow> disk \<Rightarrow> int \<times> disk \<Rightarrow> bool" where
  "written env path c d r \<longleftrightarrow>
     (if fst r = 0 \<and> io_rename env then replaced env path c d (snd r) else only_at (temp_path path) d (snd r))"

lemma only_at_write:
  assumes "only_at path d d1" "dev_write (Some path) buf d1 = (ret, d2)"
  shows "only_at path d d2"
  using only_at_trans [OF assms(1) dev_write_only [of path d1 buf]] assms(2) by simp

lemma file_rename_written:
  assumes "only_at (temp_path path) d d1" "d_files d1 (temp_path path) = Some c"
  shows "written env path c d (0, file_rename env (temp_path path) path d1)"
  using assms by (auto simp: written_def replaced_def file_rename_def)

lemma file_update_atomic_written:
  "written env path (hdr @ data @ io_md5 env (hdr @ data)) d (file_update_atomic env path hdr data d)"
proof -
  let ?tp = "temp_path path"
  consider "COM_APP_MAX_PATH_LEN \<le> length ?tp" | "length ?tp < COM_APP_MAX_PATH_LEN" "\<not> io_creat env ?tp"
    | "length ?tp < COM_APP_MAX_PATH_LEN" "io_creat env ?tp" by linarith
  then show ?thesis
  proof cases
    case 3
    let ?d1 = "put ?tp [] d"
    obtain r2 d2 r3 d3 r4 d4 where w: "dev_write (Some ?tp) hdr ?d1 = (r2, d2)" "dev_write (Some ?tp) data d2 = (r3, d3)"
      "dev_write (Some ?tp) (io_md5 env (hdr @ data)) d3 = (r4, d4)"
      by (meson surj_pair)
    have o: "only_at ?tp d d2" "only_at ?tp d d3" "only_at ?tp d d4"
      using only_at_write [OF only_at_put w(1)] only_at_write [OF _ w(2)] only_at_write [OF _ w(3)] by blast+
    have "d_files ?d1 ?tp = Some []" by (simp add: put_def set_files_def)
    then have "d_files d4 ?tp = Some (hdr @ data @ io_md5 env (hdr @ data))" if "r2 = 0" "r3 = 0" "r4 = 0"
      using dev_write_files [of ?tp hdr ?d1 d2] dev_write_files [of ?tp data d2 d3]
        dev_write_files [of ?tp "io_md5 env (hdr @ data)" d3 d4] w that by simp
    then have "written env path (hdr @ data @ io_md5 env (hdr @ data)) d (0, file_rename env ?tp path d4)"
      if "r2 = 0" "r3 = 0" "r4 = 0" using that by (intro file_rename_written [OF o(3)]) auto
    moreover have "file_update_atomic env path hdr data d =
       (if r2 \<noteq> 0 then (r2, d2) else if r3 \<noteq> 0 then (r3, d3) else if r4 \<noteq> 0 then (r4, d4) else (0, file_rename env ?tp path d4))"
      using 3 w by (simp add: file_update_atomic_def open_trunc_def Let_def)
    ultimately show ?thesis using o by (cases "r2 = 0 \<and> r3 = 0 \<and> r4 = 0") (auto simp: written_def)
  qed (simp_all add: file_update_atomic_def open_trunc_def dev_write_def written_def file_codes)
qed

lemma rds_write_written: "written env path (record_image (io_md5 env) data) d (rds_write env path data d)"
  using file_update_atomic_written [of env path "RDS_HDR (word_of_nat (length data))" data d]
  by (simp add: rds_write_def record_image_def Let_def) (simp add: written_def)

section \<open>Every state an update passes\<close>

definition passes :: "(files \<Rightarrow> bool) \<Rightarrow> disk \<Rightarrow> disk \<Rightarrow> bool" where
  "passes Q d d' \<longleftrightarrow> (\<exists>xs. hist d' = hist d @ xs \<and> (\<forall>fs \<in> insert (d_files d') (set xs). Q fs))"

lemma passes_trans: "passes Q d d' \<Longrightarrow> passes Q d' d'' \<Longrightarrow> passes Q d d''"
  unfolding passes_def by (elim exE conjE) (intro exI conjI, simp, auto)

lemma passes_only_at: "only_at path d d' \<Longrightarrow> (\<And>fs. \<forall>p. p \<noteq> path \<longrightarrow> fs p = d_files d p \<Longrightarrow> Q fs) \<Longrightarrow> passes Q d d'"
  unfolding only_at_def passes_def by blast

lemma passes_set_files: "Q (d_files d) \<Longrightarrow> Q fs \<Longrightarrow> passes Q d (set_files fs d)"
  by (simp add: passes_def set_files_def)

text \<open>A state in which the record is the old or the new one and the other types are untouched.\<close>

definition old_or_new :: "(byte list \<Rightarrow> byte list) \<Rightarrow> nat \<Rightarrow> byte list \<Rightarrow> files \<Rightarrow> files \<Rightarrow> bool" where
  "old_or_new md5 i data fs0 fs \<longleftrightarrow>
     (stored md5 fs i = stored md5 fs0 i \<or> stored md5 fs i = Some data) \<and>
     (\<forall>j < 7. j \<noteq> i \<longrightarrow> stored md5 fs j = stored md5 fs0 j)"

lemma stored_cong:
  "fs (rds_get_full_path i RDS_PATH_MASTER) = fs' (rds_get_full_path i RDS_PATH_MASTER) \<Longrightarrow>
   fs (rds_get_full_path i RDS_PATH_BACKUP) = fs' (rds_get_full_path i RDS_PATH_BACKUP) \<Longrightarrow> stored md5 fs i = stored md5 fs' i"
  by (simp add: stored_def file_record_def cong: option.case_cong)

lemma stored_master: "file_record md5 fs (rds_get_full_path i RDS_PATH_MASTER) = Some x \<Longrightarrow> stored md5 fs i = Some x"
  by (simp add: stored_def)

lemma temp_write_keeps:
  assumes "i < 7" "\<forall>p. p \<noteq> temp_path (rds_get_full_path i RDS_PATH_MASTER) \<longrightarrow> fs p = fs0 p" "j < 7"
  shows "stored md5 fs j = stored md5 fs0 j"
  using assms by (intro stored_cong) simp_all

lemma update_once_eq:
  assumes "i < 7" "i \<noteq> 4" "data \<noteq> []" "rds_write env (rds_get_full_path i RDS_PATH_MASTER) data d = (ret, d1)"
  shows "rds_update_once env i (Some data) d =
    (if ret \<noteq> 0 then (ret, d1)
     else file_copy env (rds_get_full_path i RDS_PATH_MASTER) (rds_get_full_path i RDS_PATH_BACKUP) d1)"
proof -
  have "i = 0 \<or> i = 1 \<or> i = 2 \<or> i = 3 \<or> i = 5 \<or> i = 6" using assms(1,2) by linarith
  then have "area_path (rds_data_tbl ! i) = '''' \<and> backup_attr (rds_data_tbl ! i) = RDS_BACKUP"
    by (elim disjE; simp add: rds_data_tbl_def rds_item_def)
  moreover have "rds_get_index i = Some i" using assms(1) by (simp add: index_less)
  ultimately show ?thesis using assms by (simp add: rds_update_once_def copy_to_area_def Let_def)
qed

text \<open>
  The configuration, type 4, is also copied to an area of its own: \<open>dir_copy\<close> changes nothing outside the
  directory it copies to.
\<close>

definition copies_apart :: "io_env \<Rightarrow> bool" where
  "copies_apart env \<longleftrightarrow>
     (\<forall>src dst fs. \<forall>fs' \<in> insert (snd (snd (io_dir_copy env src dst fs))) (set (fst (snd (io_dir_copy env src dst fs)))).
        \<forall>p. take (length dst) p \<noteq> dst \<longrightarrow> fs' p = fs p)"

lemma area_apart: "j < 7 \<Longrightarrow> take (length COM_DATA_CUR_CFG_DIR) (rds_get_full_path j pt) \<noteq> COM_DATA_CUR_CFG_DIR"
proof -
  assume "j < 7"
  then have "j = 0 \<or> j = 1 \<or> j = 2 \<or> j = 3 \<or> j = 4 \<or> j = 5 \<or> j = 6" by linarith
  then show ?thesis
    by (cases pt; elim disjE;
        simp add: rds_get_full_path_def rds_data_tbl_def rds_item_def rds_build_backup_path_def rds_paths)
qed

lemma update_once_area:
  assumes "i < 7" "data \<noteq> []" "rds_write env (rds_get_full_path i RDS_PATH_MASTER) data d = (ret, d1)"
  shows "rds_update_once env i (Some data) d =
    (if ret \<noteq> 0 then (ret, d1)
     else copy_to_area env (rds_data_tbl ! i)
       (file_copy env (rds_get_full_path i RDS_PATH_MASTER) (rds_get_full_path i RDS_PATH_BACKUP) d1))"
proof -
  have "i = 0 \<or> i = 1 \<or> i = 2 \<or> i = 3 \<or> i = 4 \<or> i = 5 \<or> i = 6" using assms(1) by linarith
  then have "backup_attr (rds_data_tbl ! i) = RDS_BACKUP" by (elim disjE; simp add: rds_data_tbl_def rds_item_def)
  moreover have "rds_get_index i = Some i" using assms(1) by (simp add: index_less)
  ultimately show ?thesis using assms by (simp add: rds_update_once_def Let_def)
qed

lemma area_passes:
  assumes "i < 7" "i = 4 \<longrightarrow> copies_apart env" "passes (old_or_new md5 k data fs0) d (snd r)" "k < 7"
  shows "passes (old_or_new md5 k data fs0) d (snd (copy_to_area env (rds_data_tbl ! i) r))"
proof (cases "i = 4")
  case False
  then have "i = 0 \<or> i = 1 \<or> i = 2 \<or> i = 3 \<or> i = 5 \<or> i = 6" using assms(1) by linarith
  then have "area_path (rds_data_tbl ! i) = ''''" by (elim disjE; simp add: rds_data_tbl_def rds_item_def)
  then show ?thesis using assms(3) by (simp add: copy_to_area_def)
next
  case True
  let ?src = "path_name (rds_data_tbl ! 4)"
  have a: "area_path (rds_data_tbl ! 4) = COM_DATA_CUR_CFG_DIR" "COM_DATA_CUR_CFG_DIR \<noteq> []"
    by (simp_all add: rds_data_tbl_def rds_item_def rds_paths)
  obtain ret states fs where c: "io_dir_copy env ?src COM_DATA_CUR_CFG_DIR (d_files (snd r)) = (ret, states, fs)"
    by (metis prod_cases3)
  have q: "old_or_new md5 k data fs0 (d_files (snd r))" using assms(3) by (auto simp: passes_def)
  have "old_or_new md5 k data fs0 fs'" if "fs' \<in> insert fs (set states)" for fs'
  proof -
    have "fs' p = d_files (snd r) p" if "take (length COM_DATA_CUR_CFG_DIR) p \<noteq> COM_DATA_CUR_CFG_DIR" for p
      using assms(2) True \<open>fs' \<in> insert fs (set states)\<close> that c unfolding copies_apart_def by (metis fst_conv snd_conv)
    then have "stored md5 fs' j = stored md5 (d_files (snd r)) j" if "j < 7" for j
      using that area_apart by (intro stored_cong) auto
    then show ?thesis using q assms(4) by (simp add: old_or_new_def)
  qed
  then have "passes (old_or_new md5 k data fs0) (snd r) (set_files fs ((snd r)\<lparr>hist := hist (snd r) @ states\<rparr>))"
    using q by (auto simp: passes_def set_files_def)
  then have "passes (old_or_new md5 k data fs0) d (set_files fs ((snd r)\<lparr>hist := hist (snd r) @ states\<rparr>))"
    by (rule passes_trans [OF assms(3)])
  then show ?thesis using True a c by (simp add: copy_to_area_def)
qed

lemma update_passes:
  assumes i: "i < 7" "i = 4 \<longrightarrow> copies_apart env" and data: "data \<noteq> []" "length data < 2 ^ 31" and md5: "\<And>m. length (io_md5 env m) = 16"
    and rename: "io_rename env \<or> file_record (io_md5 env) (d_files d) (rds_get_full_path i RDS_PATH_MASTER) \<noteq> None"
  shows "passes (old_or_new (io_md5 env) i data (d_files d)) d (snd (rds_update_once env i (Some data) d))"
proof -
  let ?m = "rds_get_full_path i RDS_PATH_MASTER" and ?b = "rds_get_full_path i RDS_PATH_BACKUP"
  let ?Q = "old_or_new (io_md5 env) i data (d_files d)" and ?img = "record_image (io_md5 env) data"
  obtain ret d1 where w: "rds_write env ?m data d = (ret, d1)" by fastforce
  have wr: "written env ?m ?img d (ret, d1)" using rds_write_written [of env ?m data d] w by simp
  have temp: "passes ?Q d d'" if "only_at (temp_path ?m) d d'" for d'
    using i temp_write_keeps by (intro passes_only_at [OF that]) (auto simp: old_or_new_def)
  show ?thesis
  proof (cases "ret = 0")
    case False
    then show ?thesis using temp wr by (simp add: update_once_area [OF i(1) data(1) w] written_def)
  next
    case True
    have copy: "only_at ?b d1 (snd (file_copy env ?m ?b d1))" by (rule file_copy_only)
    show ?thesis
    proof (cases "io_rename env")
      case False
      then have o: "only_at (temp_path ?m) d d1" using wr by (simp add: written_def)
      obtain x where x: "file_record (io_md5 env) (d_files d) ?m = Some x" using rename False by auto
      have "?Q fs" if fs: "\<forall>p. p \<noteq> ?b \<longrightarrow> fs p = d_files d1 p" for fs
      proof -
        have d1: "\<forall>p. p \<noteq> temp_path ?m \<longrightarrow> d_files d1 p = d_files d p" using o by (auto simp: only_at_def)
        then have "fs ?m = d_files d ?m" using fs i by simp
        then have "stored (io_md5 env) fs i = Some x" "stored (io_md5 env) (d_files d) i = Some x"
          using x by (simp_all add: stored_def file_record_def)
        moreover have "stored (io_md5 env) fs j = stored (io_md5 env) (d_files d) j" if "j < 7" "j \<noteq> i" for j
          using fs d1 i that by (intro stored_cong) simp_all
        ultimately show ?thesis by (simp add: old_or_new_def)
      qed
      then have "passes ?Q d (snd (file_copy env ?m ?b d1))" using passes_trans [OF temp [OF o] passes_only_at [OF copy]] by blast
      from area_passes [OF i this i(1)] show ?thesis using True by (simp add: update_once_area [OF i(1) data(1) w])
    next
      case renames: True
      then obtain d0 where o: "only_at (temp_path ?m) d d0"
        and d1: "d1 = set_files ((d_files d0)(?m \<mapsto> ?img, temp_path ?m := None)) d0"
        using wr True by (auto simp: written_def replaced_def)
      have d0: "\<forall>p. p \<noteq> temp_path ?m \<longrightarrow> d_files d0 p = d_files d p" using o by (auto simp: only_at_def)
      have new: "?Q fs" if fs: "\<forall>p. p \<noteq> ?b \<longrightarrow> fs p = d_files d1 p" for fs
      proof -
        have "fs ?m = Some ?img" using fs d1 i by (simp add: set_files_def)
        then have "stored (io_md5 env) fs i = Some data"
          using decode_record_image [OF md5 data] by (intro stored_master) (simp add: file_record_def)
        moreover have "stored (io_md5 env) fs j = stored (io_md5 env) (d_files d) j" if "j < 7" "j \<noteq> i" for j
          using fs d0 d1 i that by (intro stored_cong) (simp_all add: set_files_def)
        ultimately show ?thesis by (simp add: old_or_new_def)
      qed
      have "?Q (d_files d0)" using temp [OF o] by (auto simp: passes_def)
      then have "passes ?Q d0 d1" using new [of "d_files d1"] unfolding d1 by (intro passes_set_files) (simp_all add: set_files_def)
      then have "passes ?Q d (snd (file_copy env ?m ?b d1))"
        using passes_trans [OF temp [OF o] passes_trans [OF _ passes_only_at [OF copy]]] new by blast
      from area_passes [OF i this i(1)] show ?thesis using True by (simp add: update_once_area [OF i(1) data(1) w])
    qed
  qed
qed

section \<open>A successful update\<close>

lemma update_files:
  assumes i: "i < 7" "i \<noteq> 4" and data: "data \<noteq> []" and up: "rds_update_once env i (Some data) d = (0, d')" "io_rename env"
  shows "\<forall>p. p \<noteq> rds_get_full_path i RDS_PATH_MASTER \<longrightarrow> p \<noteq> rds_get_full_path i RDS_PATH_BACKUP \<longrightarrow>
      p \<noteq> temp_path (rds_get_full_path i RDS_PATH_MASTER) \<longrightarrow> d_files d' p = d_files d p"
    "d_files d' (temp_path (rds_get_full_path i RDS_PATH_MASTER)) = None"
    "\<forall>pt. d_files d' (rds_get_full_path i pt) = Some (record_image (io_md5 env) data)"
proof -
  let ?m = "rds_get_full_path i RDS_PATH_MASTER" and ?b = "rds_get_full_path i RDS_PATH_BACKUP"
  let ?img = "record_image (io_md5 env) data"
  obtain ret d1 where w: "rds_write env ?m data d = (ret, d1)" by fastforce
  have ret: "ret = 0" and c: "file_copy env ?m ?b d1 = (0, d')"
    using up(1) by (simp_all add: update_once_eq [OF i data w] split: if_splits)
  obtain d0 where o: "only_at (temp_path ?m) d d0"
    and d1: "d1 = set_files ((d_files d0)(?m \<mapsto> ?img, temp_path ?m := None)) d0"
    using rds_write_written [of env ?m data d] w up(2) ret by (auto simp: written_def replaced_def)
  have d0: "\<forall>p. p \<noteq> temp_path ?m \<longrightarrow> d_files d0 p = d_files d p" using o by (auto simp: only_at_def)
  have d': "d_files d' = (d_files d1)(?b := d_files d1 ?m)" using file_copy_files [OF c] i by simp
  show "\<forall>p. p \<noteq> ?m \<longrightarrow> p \<noteq> ?b \<longrightarrow> p \<noteq> temp_path ?m \<longrightarrow> d_files d' p = d_files d p"
    using d0 by (simp add: d' d1 set_files_def)
  show "d_files d' (temp_path ?m) = None" using path_eq(6) [OF i(1) i(1)] by (simp add: d' d1 set_files_def)
  have "d_files d' ?m = Some ?img" "d_files d' ?b = Some ?img" using i by (simp_all add: d' d1 set_files_def)
  then show "\<forall>pt. d_files d' (rds_get_full_path i pt) = Some ?img" by (metis RDS_PATH_TYPE.exhaust)
qed

lemma length_record_image: "(\<And>m. length (md5 m) = 16) \<Longrightarrow> length (record_image md5 x) = 52 + length x"
  by (simp add: record_image_def Let_def)

lemma update_small:
  assumes "i < 7" "i \<noteq> 4" "data \<noteq> []" "rds_update_once env i (Some data) d = (0, d')" "io_rename env"
    and "small (d_files d)" "length data < 2 ^ 31 - 52" "\<And>m. length (io_md5 env m) = 16"
  shows "small (d_files d')"
  unfolding small_def
proof (intro allI impI)
  fix p c assume c: "d_files d' p = Some c"
  note f = update_files [OF assms(1-5)]
  consider "p = rds_get_full_path i RDS_PATH_MASTER" | "p = rds_get_full_path i RDS_PATH_BACKUP"
    | "p = temp_path (rds_get_full_path i RDS_PATH_MASTER)" | "d_files d' p = d_files d p"
    using f(1) by blast
  then show "length c < 2 ^ 31"
    using c f(2,3) assms(6,7) length_record_image [of "io_md5 env" data, OF assms(8)] by cases (auto simp: small_def)
qed

section \<open>Reading a type\<close>

lemma get_eq:
  assumes "i < 7"
  shows "rds_get env i b d = do {
    (ret, b1, d1) \<leftarrow> rds_read env (rds_get_full_path i RDS_PATH_MASTER) b d;
    if ret = 0 then Some (0, b1, d1)
    else do {
      (ret, b2, d2) \<leftarrow> rds_read env (rds_get_full_path i RDS_PATH_BACKUP) b1 d1;
      if ret \<noteq> 0 then Some (ret, b2, d2)
      else Some (0, b2, snd (file_copy env (rds_get_full_path i RDS_PATH_BACKUP) (rds_get_full_path i RDS_PATH_MASTER) d2)) } }"
proof -
  have "i = 0 \<or> i = 1 \<or> i = 2 \<or> i = 3 \<or> i = 4 \<or> i = 5 \<or> i = 6" using assms by linarith
  then have "backup_attr (rds_data_tbl ! i) = RDS_BACKUP" by (elim disjE; simp add: rds_data_tbl_def rds_item_def)
  moreover have "rds_get_index i = Some i" using assms by (simp add: index_less)
  ultimately show ?thesis
    by (cases "rds_read env (rds_get_full_path i RDS_PATH_MASTER) b d") (simp_all add: rds_get_def Let_def split_beta)
qed

lemma rds_get_some:
  assumes "small (d_files d)"
  shows "\<exists>r. rds_get env i b d = Some r"
proof (cases "i < 7")
  case True
  obtain r1 b1 s1 where 1: "rds_read env (rds_get_full_path i RDS_PATH_MASTER) b d = Some (r1, b1, d\<lparr>d_read := s1\<rparr>)"
    using rds_read_outcome [OF assms] by blast
  have "small (d_files (d\<lparr>d_read := s1\<rparr>))" using assms by simp
  from rds_read_outcome [OF this] obtain r2 b2 s2 where
    2: "rds_read env (rds_get_full_path i RDS_PATH_BACKUP) b1 (d\<lparr>d_read := s1\<rparr>) = Some (r2, b2, d\<lparr>d_read := s1\<rparr>\<lparr>d_read := s2\<rparr>)"
    by blast
  show ?thesis by (simp add: get_eq [OF True] 1 2)
next
  case False
  then have "rds_get_index i = None" using index_less by (cases "rds_get_index i") auto
  then show ?thesis by (simp add: rds_get_def)
qed

lemma got_fields [simp]:
  "rb_len (got c x b) = word_of_nat (length x)" "take (length x) (rb_data (got c x b)) = x"
  by (simp_all add: got_def fill_def)

text \<open>No call of the system fails.\<close>

definition io_fine :: "io_env \<Rightarrow> disk \<Rightarrow> bool" where
  "io_fine env d \<longleftrightarrow> (\<forall>p. io_open env p) \<and> (\<forall>p. io_creat env p) \<and> (\<forall>p. io_chown env p) \<and> (\<forall>p. io_mkdir env p = 0) \<and>
     Fail \<notin> set (d_read d) \<and> d_write d = []"

lemma file_copy_fine:
  assumes "io_fine env d" "d_files d src = Some c" "src \<noteq> dst"
  shows "\<exists>d'. file_copy env src dst d = (0, d') \<and> d_files d' = (d_files d)(dst \<mapsto> c)"
proof -
  have e: "file_copy env src dst d = sendfile_loop dst c [] (put dst [] d)"
    using assms by (simp add: file_copy_def open_trunc_def io_fine_def file_open_read_def file_copy_attr_def Let_def put_def set_files_def)
  moreover have "fst (sendfile_loop dst c [] (put dst [] d)) = 0" by (simp add: sendfile_loop.simps)
  ultimately have "file_copy env src dst d = (0, snd (file_copy env src dst d))" by (simp add: prod_eq_iff)
  then show ?thesis using file_copy_files [of env src dst d] assms(2,3) by metis
qed

lemma io_fine_read [simp]: "io_fine env d \<Longrightarrow> set s \<subseteq> set (d_read d) \<Longrightarrow> io_fine env (d\<lparr>d_read := s\<rparr>)"
  by (auto simp: io_fine_def)

lemma rds_get_outcome:
  assumes i: "i < 7" and small: "small (d_files d)" and fine: "io_fine env d"
    and fits: "\<And>pt x. file_record (io_md5 env) (d_files d) (rds_get_full_path i pt) = Some x \<Longrightarrow> length x \<le> unat (rb_len b)"
  shows "\<exists>ret b' d'. rds_get env i b d = Some (ret, b', d') \<and>
    (case stored (io_md5 env) (d_files d) i of
       None \<Rightarrow> ret \<noteq> 0 \<and> d_files d' = d_files d
     | Some x \<Rightarrow> ret = 0 \<and> rb_len b' = word_of_nat (length x) \<and> take (length x) (rb_data b') = x \<and>
         file_record (io_md5 env) (d_files d') (rds_get_full_path i RDS_PATH_MASTER) = Some x)"
proof -
  let ?m = "rds_get_full_path i RDS_PATH_MASTER" and ?b = "rds_get_full_path i RDS_PATH_BACKUP"
  obtain r1 b1 s1 where 1: "rds_read env ?m b d = Some (r1, b1, d\<lparr>d_read := s1\<rparr>)" "set s1 \<subseteq> set (d_read d)"
    "read_outcome env ?m b d r1 b1" using rds_read_outcome [OF small] by blast
  have op: "io_open env p" "Fail \<notin> set (d_read d)" for p using fine by (auto simp: io_fine_def)
  show ?thesis
  proof (cases "r1 = 0")
    case True
    then obtain c x where "d_files d ?m = Some c" "decode (io_md5 env) c = Some x" "b1 = got c x b"
      using 1(3) by (auto simp: read_outcome_def)
    then show ?thesis using 1(1) True by (simp add: get_eq [OF i] stored_def file_record_def)
  next
    case False
    have m: "file_record (io_md5 env) (d_files d) ?m = None"
      using False 1(3) fits op by (cases "file_record (io_md5 env) (d_files d) ?m") (auto simp: read_outcome_def)
    have b1: "rb_len b1 = rb_len b" using False 1(3) by (simp add: read_outcome_def)
    have "small (d_files (d\<lparr>d_read := s1\<rparr>))" using small by simp
    from rds_read_outcome [OF this] obtain r2 b2 s2 where 2: "rds_read env ?b b1 (d\<lparr>d_read := s1\<rparr>) = Some (r2, b2, d\<lparr>d_read := s2\<rparr>)"
      "set s2 \<subseteq> set s1" "read_outcome env ?b b1 (d\<lparr>d_read := s1\<rparr>) r2 b2" by fastforce
    have st: "stored (io_md5 env) (d_files d) i = file_record (io_md5 env) (d_files d) ?b" by (simp add: stored_def m)
    show ?thesis
    proof (cases "r2 = 0")
      case True
      then obtain c x where c: "d_files d ?b = Some c" "decode (io_md5 env) c = Some x" "b2 = got c x b1"
        using 2(3) by (auto simp: read_outcome_def)
      have "io_fine env (d\<lparr>d_read := s2\<rparr>)" using fine 1(2) 2(2) by simp
      from file_copy_fine [OF this, of ?b c ?m] obtain d' where
        "file_copy env ?b ?m (d\<lparr>d_read := s2\<rparr>) = (0, d')" "d_files d' = (d_files d)(?m \<mapsto> c)" using c(1) i by auto
      then show ?thesis using c True False by (simp add: get_eq [OF i] 1(1) 2(1) st file_record_def)
    next
      case r2: False
      have "file_record (io_md5 env) (d_files d) ?b = None"
        using r2 2(3) 1(2) fits op b1 by (cases "file_record (io_md5 env) (d_files d) ?b") (auto simp: read_outcome_def)
      then show ?thesis using r2 False by (simp add: get_eq [OF i] 1(1) 2(1) st)
    qed
  qed
qed

lemma update_then_get:
  assumes "i < 7" "i \<noteq> 4" "data \<noteq> []" "length data < 2 ^ 31 - 52" "\<And>m. length (io_md5 env m) = 16"
    and "small (d_files d)" "rds_update_once env i (Some data) d = (0, d')" "io_rename env"
    and "io_fine env d'" "length data \<le> unat (rb_len b)"
  shows "\<exists>b' d''. rds_get env i b d' = Some (0, b', d'') \<and> rb_len b' = word_of_nat (length data) \<and>
    take (length data) (rb_data b') = data"
proof -
  note f = update_files [OF assms(1-3,7,8)]
  have r: "file_record (io_md5 env) (d_files d') (rds_get_full_path i pt) = Some data" for pt
    using f(3) decode_record_image [OF assms(5,3)] assms(4) by (simp add: file_record_def)
  have "stored (io_md5 env) (d_files d') i = Some data" using r by (rule stored_master)
  then show ?thesis
    using rds_get_outcome [OF assms(1) update_small [OF assms(1-3,7,8,6,4,5)] assms(9), of b] r assms(10) by auto
qed

lemma dev_write_done: "d_write d = [] \<Longrightarrow> dev_write (Some p) bs d = (0, append_bytes p bs d)"
proof -
  assume w: "d_write d = []"
  then have "d\<lparr>d_write := []\<rparr> = d" "(append_bytes p bs d)\<lparr>d_write := []\<rparr> = append_bytes p bs d"
    using append_bytes_script(1) [of p bs d] by (cases d; simp; cases "append_bytes p bs d"; simp)+
  then show ?thesis using w by (simp add: dev_write_def dev_write_loop.simps append_bytes_def)
qed

lemma put_scripts: "d_write (put p c d) = d_write d" "d_read (put p c d) = d_read d"
  by (simp_all add: put_def set_files_def)

lemma lost_record:
  assumes i: "i < 7" "i \<noteq> 4" and data: "data \<noteq> []" and fine: "io_fine env d" "\<not> io_rename env"
    and master: "d_files d (rds_get_full_path i RDS_PATH_MASTER) = Some c" "decode (io_md5 env) c = None"
  shows "\<exists>d'. rds_update_once env i (Some data) d = (0, d') \<and> stored (io_md5 env) (d_files d') i = None"
proof -
  let ?m = "rds_get_full_path i RDS_PATH_MASTER" and ?b = "rds_get_full_path i RDS_PATH_BACKUP"
  have "fst (rds_write env ?m data d) = 0 \<and> io_fine env (snd (rds_write env ?m data d))"
    using fine path_length [OF i(1)] master(1)
    by (simp add: rds_write_def file_exists_def file_update_atomic_def open_trunc_def io_fine_def Let_def
        dev_write_done put_scripts file_rename_def)
  then obtain d1 where w: "rds_write env ?m data d = (0, d1)" and fine1: "io_fine env d1" by (metis prod.collapse)
  have o: "only_at (temp_path ?m) d d1" using rds_write_written [of env ?m data d] w fine(2) by (simp add: written_def)
  then have "\<forall>p. p \<noteq> temp_path ?m \<longrightarrow> d_files d1 p = d_files d p" by (auto simp: only_at_def)
  then have m1: "d_files d1 ?m = Some c" using master(1) i by simp
  obtain d' where "file_copy env ?m ?b d1 = (0, d')" "d_files d' = (d_files d1)(?b \<mapsto> c)"
    using file_copy_fine [OF fine1 m1, of ?b] i by auto
  then show ?thesis using master m1 i by (simp add: update_once_eq [OF i data w] stored_def file_record_def)
qed

section \<open>The properties\<close>


text \<open>A bench: a digest of sixteen equal bytes, no call fails, and nothing is stored.\<close>

definition bench_md5 :: "byte list \<Rightarrow> byte list" where
  "bench_md5 m = replicate 16 (sum_list m)"

definition bench_io :: io_env where
  "bench_io = \<lparr>io_mkdir = \<lambda>_. 0, io_creat = \<lambda>_. True, io_open = \<lambda>_. True, io_rename = True, io_unlink = \<lambda>_. True,
     io_chown = \<lambda>_. True, io_dir_copy = \<lambda>_ _ fs. (0, [], fs), io_md5 = bench_md5\<rparr>"

definition bench_disk :: disk where
  "bench_disk = \<lparr>d_files = \<lambda>_. None, d_read = [], d_write = [], hist = []\<rparr>"

lemma bench_io_simps [simp]: "io_md5 bench_io = bench_md5" "io_rename bench_io" "length (bench_md5 m) = 16"
  by (simp_all add: bench_io_def bench_md5_def)

lemma bench_fine: "d_read d = [] \<Longrightarrow> d_write d = [] \<Longrightarrow> io_fine bench_io d"
  by (simp add: io_fine_def bench_io_def)


text \<open>What an update has stored with success is what the next \<open>rds_get\<close> hands out, with its length.\<close>

theorem stored_record_read_back:
  assumes "i < 7" "i \<noteq> 4" "data \<noteq> []" "length data < 2 ^ 31 - 52" "\<And>m. length (io_md5 env m) = 16"
    and "small (d_files d)" "rds_update_once env i (Some data) d = (0, d')" "io_rename env"
    and "io_fine env d'" "length data \<le> unat (rb_len b)"
  shows "\<exists>b' d''. rds_get env i b d' = Some (0, b', d'') \<and> rb_len b' = word_of_nat (length data) \<and>
    take (length data) (rb_data b') = data"
  by (rule update_then_get [OF assms])

lemma bench_update:
  "\<exists>d'. rds_update_once bench_io 2 (Some [7]) bench_disk = (0, d') \<and> io_fine bench_io d'"
proof -
  let ?m = "rds_get_full_path 2 RDS_PATH_MASTER"
  obtain d1 where w: "rds_write bench_io ?m [7] bench_disk = (0, d1)" and s: "d_read d1 = []" "d_write d1 = []"
    using path_length [of 2]
    by (simp add: rds_write_def file_exists_def file_update_atomic_def open_trunc_def Let_def bench_io_def bench_disk_def
        dev_write_done put_scripts file_rename_def set_files_def append_bytes_files split: option.splits)
  have fine: "io_fine bench_io d1" using s by (rule bench_fine)
  obtain d0 where "d1 = set_files ((d_files d0)(?m \<mapsto> record_image bench_md5 [7], temp_path ?m := None)) d0"
    using rds_write_written [of bench_io ?m "[7]" bench_disk] w by (auto simp: written_def replaced_def)
  then have m: "d_files d1 ?m = Some (record_image bench_md5 [7])" by (simp add: set_files_def)
  have "file_copy bench_io ?m (rds_get_full_path 2 RDS_PATH_BACKUP) d1 =
      (0, append_bytes (rds_get_full_path 2 RDS_PATH_BACKUP) (record_image bench_md5 [7]) (put (rds_get_full_path 2 RDS_PATH_BACKUP) [] d1))"
    using m s
    by (simp add: file_copy_def open_trunc_def file_open_read_def file_copy_attr_def bench_io_def put_scripts
        sendfile_loop.simps record_image_def Let_def)
      (simp add: put_def set_files_def)
  then show ?thesis
    using s by (simp add: update_once_eq [OF _ _ _ w] bench_fine put_scripts)
qed

theorem stored_record_read_back_witness:
  "\<exists>d' b' d''. rds_update_once bench_io 2 (Some [7]) bench_disk = (0, d') \<and>
    rds_get bench_io 2 \<lparr>rb_data = [0, 0], rb_len = 2, rb_ver = None\<rparr> d' = Some (0, b', d'') \<and> rb_len b' = 1 \<and>
    take 1 (rb_data b') = [7]"
proof -
  obtain d' where d': "rds_update_once bench_io 2 (Some [7]) bench_disk = (0, d')" "io_fine bench_io d'"
    using bench_update by blast
  have "small (d_files bench_disk)" by (simp add: small_def bench_disk_def)
  then show ?thesis
    using stored_record_read_back [of 2 "[7]" bench_io bench_disk d' "\<lparr>rb_data = [0, 0], rb_len = 2, rb_ver = None\<rparr>"] d' by simp
qed

text \<open>\<^bold>\<open>C26\<close>
  Where no call fails and the buffer is large enough, \<open>rds_get\<close> hands out the record of the master
  or, if the master is missing or damaged, that of the backup; then the master holds the record again.
  It fails exactly if neither file holds a record.\<close>

theorem damaged_master_healed:
  assumes "i < 7" "small (d_files d)" "io_fine env d"
    and "\<And>pt x. file_record (io_md5 env) (d_files d) (rds_get_full_path i pt) = Some x \<Longrightarrow> length x \<le> unat (rb_len b)"
  shows "\<exists>ret b' d'. rds_get env i b d = Some (ret, b', d') \<and>
    (case stored (io_md5 env) (d_files d) i of
       None \<Rightarrow> ret \<noteq> 0 \<and> d_files d' = d_files d
     | Some x \<Rightarrow> ret = 0 \<and> rb_len b' = word_of_nat (length x) \<and> take (length x) (rb_data b') = x \<and>
         file_record (io_md5 env) (d_files d') (rds_get_full_path i RDS_PATH_MASTER) = Some x)"
  by (rule rds_get_outcome [OF assms])

definition bench_torn :: disk where
  "bench_torn = bench_disk\<lparr>d_files := [rds_get_full_path 3 RDS_PATH_MASTER \<mapsto> [1, 2, 3],
     rds_get_full_path 3 RDS_PATH_BACKUP \<mapsto> record_image bench_md5 [8, 9]]\<rparr>"

lemma bench_torn_records:
  "file_record bench_md5 (d_files bench_torn) (rds_get_full_path 3 pt) = (if pt = RDS_PATH_BACKUP then Some [8, 9] else None)"
proof -
  have "decode bench_md5 [1, 2, 3] = None" by (simp add: decode_def)
  moreover have "decode bench_md5 (record_image bench_md5 [8, 9]) = Some [8, 9]" by (rule decode_record_image) simp_all
  ultimately show ?thesis
    using path_eq(3) [of 3 3] by (cases pt) (simp_all add: bench_torn_def file_record_def)
qed

lemma bench_torn_small: "small (d_files bench_torn)"
  by (auto simp: small_def bench_torn_def bench_disk_def length_record_image split: if_splits)

theorem damaged_master_healed_witness:
  "\<exists>b' d'. rds_get bench_io 3 \<lparr>rb_data = [0, 0, 0], rb_len = 3, rb_ver = None\<rparr> bench_torn = Some (0, b', d') \<and>
     take 2 (rb_data b') = [8, 9] \<and> file_record bench_md5 (d_files d') (rds_get_full_path 3 RDS_PATH_MASTER) = Some [8, 9]"
proof -
  let ?b = "\<lparr>rb_data = [0, 0, 0], rb_len = 3, rb_ver = None\<rparr>"
  have "io_fine bench_io bench_torn" by (rule bench_fine) (simp_all add: bench_torn_def bench_disk_def)
  moreover have "length x \<le> unat (rb_len ?b)"
    if "file_record (io_md5 bench_io) (d_files bench_torn) (rds_get_full_path 3 pt) = Some x" for pt x
    using that by (auto simp: bench_torn_records split: if_splits)
  moreover have "stored (io_md5 bench_io) (d_files bench_torn) 3 = Some [8, 9]" by (simp add: stored_def bench_torn_records)
  ultimately show ?thesis
    using damaged_master_healed [of 3 bench_torn bench_io ?b] bench_torn_small by (auto simp: numeral_2_eq_2)
qed

text \<open>\<^bold>\<open>C34\<close>
  \<open>dev_read\<close> returns if and only if the bytes asked for are there or a call fails: at the end of a file
  its loop goes on for ever, as \<open>read\<close> returns 0 there, which the code takes for a timeout. The checks of
  the size keep \<open>rds_get\<close> from asking for more than a file holds, so it returns for any contents of the
  files, damaged ones included, and whatever the calls do.\<close>

theorem store_reads_end:
  assumes "small (d_files d)"
  shows "(dev_read (Some c) len d1 \<noteq> None \<longleftrightarrow> len \<le> length c \<or> Fail \<in> set (d_read d1)) \<and>
    (\<exists>ret b' d'. rds_get env i b d = Some (ret, b', d'))"
proof -
  have "dev_read (Some c) len d1 = None \<longleftrightarrow> dev_read_loop c len 0 (d_read d1) = None"
    by (cases "dev_read_loop c len 0 (d_read d1)") (auto simp: dev_read_def)
  then have "dev_read (Some c) len d1 \<noteq> None \<longleftrightarrow> len \<le> length c \<or> Fail \<in> set (d_read d1)"
    using dev_read_loop_iff [of 0 c len "d_read d1"] by simp
  then show ?thesis using rds_get_some [OF assms, of env i b] by auto
qed

theorem store_reads_end_witness:
  "dev_read (Some [1, 2]) 3 bench_torn = None \<and> dev_read (Some [1, 2]) 3 (bench_torn\<lparr>d_read := [Intr, Fail]\<rparr>) \<noteq> None \<and>
   (\<exists>ret b' d'. rds_get bench_io 3 \<lparr>rb_data = [0], rb_len = 1, rb_ver = None\<rparr> bench_torn = Some (ret, b', d'))"
proof -
  have "d_read bench_torn = []" by (simp add: bench_torn_def bench_disk_def)
  then show ?thesis
    using store_reads_end [OF bench_torn_small, of "[1, 2]" 3 bench_torn bench_io 3 "\<lparr>rb_data = [0], rb_len = 1, rb_ver = None\<rparr>"]
      store_reads_end [OF bench_torn_small, of "[1, 2]" 3 "bench_torn\<lparr>d_read := [Intr, Fail]\<rparr>" bench_io 3 "\<lparr>rb_data = [0], rb_len = 1, rb_ver = None\<rparr>"]
    by (simp del: not_None_eq)
qed

text \<open>\<open>file_rename\<close> has no result. If the master is damaged and \<open>rename\<close> fails, an update copies the damaged
  master over the backup and reports success, though then neither file holds a record: the old record is
  lost and the new one not stored.\<close>

theorem failed_rename_loses_record:
  assumes "i < 7" "i \<noteq> 4" "data \<noteq> []" "io_fine env d" "\<not> io_rename env"
    and "d_files d (rds_get_full_path i RDS_PATH_MASTER) = Some c" "decode (io_md5 env) c = None"
  shows "\<exists>d'. rds_update_once env i (Some data) d = (0, d') \<and> stored (io_md5 env) (d_files d') i = None"
  by (rule lost_record [OF assms])

theorem failed_rename_loses_record_witness:
  "stored bench_md5 (d_files bench_torn) 3 = Some [8, 9] \<and>
   (\<exists>d'. rds_update_once (bench_io\<lparr>io_rename := False\<rparr>) 3 (Some [7]) bench_torn = (0, d') \<and> stored bench_md5 (d_files d') 3 = None)"
proof -
  let ?e = "bench_io\<lparr>io_rename := False\<rparr>"
  have "io_fine bench_io bench_torn" by (rule bench_fine) (simp_all add: bench_torn_def bench_disk_def)
  then have "io_fine ?e bench_torn" by (simp add: io_fine_def)
  moreover have "d_files bench_torn (rds_get_full_path 3 RDS_PATH_MASTER) = Some [1, 2, 3]"
    using path_eq(3) [of 3 3] by (simp add: bench_torn_def)
  moreover have "decode bench_md5 [1, 2, 3] = None" by (simp add: decode_def)
  ultimately show ?thesis
    using failed_rename_loses_record [of 3 "[7]" ?e bench_torn "[1, 2, 3]"] by (simp add: stored_def bench_torn_records)
qed

end
