(* ===== verification/GbData.thy ===== *)
theory GbData
  imports J1939
begin

text \<open>
  The reports of the telematics protocol, \<open>src/app/interface/gb32960/gb32960_data.c\<close>: 2000 buffers that
  wander between four lists (free, real-time reports, delayed reports, reports sent but not yet
  acknowledged) and a ring of the records of the last 30 seconds, sent after a fault of level 3.

  A list is the list of the numbers of its buffers in \<open>gb_datamem\<close>, a ring position a number of
  \<open>gb_errmem\<close>; \<open>gp_data\<close> holds the \<open>len\<close> bytes in use. What \<open>gb_data_save_all\<close> writes into the \<open>i\<close>-th
  buffer is a parameter. A write behind a buffer, a NULL list, a buffer linked into a list while it is in
  another, and the endless loop of \<open>BIG ERROR\<close> are \<^const>\<open>None\<close>. Each function runs under its mutex and is
  one step.

  The heads of the four lists are zero until \<open>gb_data_clear_report\<close> makes them (\<open>gb_lists\<close>), and
  \<open>list_empty\<close> does not find a zero head empty. The functions that take a buffer out of a list are called
  on lists that are made only; \<open>lists_made\<close> in \<open>GbRuns\<close> shows it.
\<close>

section \<open>Data\<close>

definition GB_MAX_REPORT :: nat where "GB_MAX_REPORT = 2000"
definition GB_MAX_ERROR :: nat where "GB_MAX_ERROR = 120"
definition GB_RPTTYPE_REALTM :: u32 where "GB_RPTTYPE_REALTM = 2"
definition GB_RPTTYPE_DELAY :: u32 where "GB_RPTTYPE_DELAY = 3"

datatype gb_list = Realtm | Delay

record gb_pack_t =
  gp_data :: "byte list"
  gp_seq :: u32
  gp_type :: u32
  gp_list :: "gb_list option"

record gb_data =
  gb_datamem :: "gb_pack_t list"
  gb_errmem :: "gb_pack_t list"
  gb_free_lst :: "nat list"
  gb_realtm_lst :: "nat list"
  gb_delay_lst :: "nat list"
  gb_trans_lst :: "nat list"
  gb_errlst_head :: "nat option"
  gb_errlst_size :: nat
  gb_lists :: bool
  gb_groups :: "nat option"
  gb_warntrig :: int
  gb_pendflag :: int
  gb_emerg :: int
  gb_datintv :: u16
  gb_canact :: int
  gb_counter :: int
  gb_ticks :: int
  gb_times :: int
  gb_triger :: int

definition zero_pack :: gb_pack_t where
  "zero_pack = \<lparr>gp_data = [], gp_seq = 0, gp_type = 0, gp_list = None\<rparr>"

definition upd_pack :: "nat \<Rightarrow> (gb_pack_t \<Rightarrow> gb_pack_t) \<Rightarrow> gb_data \<Rightarrow> gb_data" where
  "upd_pack i f d = d\<lparr>gb_datamem := (gb_datamem d)[i := f (gb_datamem d ! i)]\<rparr>"

section \<open>The lists\<close>

text \<open>The search for a buffer in \<open>gb_data_save_realtm\<close> and \<open>gb_data_flush_error\<close>, taken out of its list.\<close>

definition take_buffer :: "gb_data \<Rightarrow> (nat \<times> gb_data) option" where
  "take_buffer d =
     (case gb_free_lst d of
        n # ns \<Rightarrow> Some (n, d\<lparr>gb_free_lst := ns\<rparr>)
      | [] \<Rightarrow> (case gb_delay_lst d of
          n # ns \<Rightarrow> Some (n, d\<lparr>gb_delay_lst := ns\<rparr>)
        | [] \<Rightarrow> (case gb_realtm_lst d of
            n # ns \<Rightarrow> Some (n, d\<lparr>gb_realtm_lst := ns\<rparr>)
          | [] \<Rightarrow> None)))"

fun save_realtm_loop :: "(nat \<Rightarrow> byte list) \<Rightarrow> nat list \<Rightarrow> gb_data \<Rightarrow> gb_data option" where
  "save_realtm_loop rpt [] d = Some d"
| "save_realtm_loop rpt (i # is) d =
     (case take_buffer d of
        None \<Rightarrow> None
      | Some (n, d1) \<Rightarrow>
          if 1024 < length (rpt i) then None
          else let d2 = upd_pack n (\<lambda>p. p\<lparr>gp_data := rpt i, gp_seq := word_of_nat (i + 1), gp_list := Some Realtm,
                          gp_type := GB_RPTTYPE_REALTM\<rparr>) d1
               in save_realtm_loop rpt is (d2\<lparr>gb_realtm_lst := gb_realtm_lst d2 @ [n]\<rparr>))"

definition gb_data_save_realtm :: "(nat \<Rightarrow> byte list) \<Rightarrow> nat \<Rightarrow> gb_data \<Rightarrow> gb_data option" where
  "gb_data_save_realtm rpt groups d = save_realtm_loop rpt [0..<groups] d"

definition err_next :: "gb_data \<Rightarrow> nat \<Rightarrow> nat" where
  "err_next d h = (h + 1) mod gb_errlst_size d"

definition err_prev :: "gb_data \<Rightarrow> nat \<Rightarrow> nat" where
  "err_prev d h = (h + gb_errlst_size d - 1) mod gb_errlst_size d"

fun save_error_loop :: "(nat \<Rightarrow> byte list) \<Rightarrow> nat list \<Rightarrow> gb_data \<Rightarrow> gb_data option" where
  "save_error_loop rpt [] d = Some d"
| "save_error_loop rpt (i # is) d =
     (case gb_errlst_head d of
        None \<Rightarrow> None
      | Some h \<Rightarrow>
          if 1024 < length (rpt i) then None
          else save_error_loop rpt is (d\<lparr>
            gb_errmem := (gb_errmem d)[h := (gb_errmem d ! h)\<lparr>gp_data := rpt i, gp_seq := word_of_nat (i + 1)\<rparr>],
            gb_errlst_head := Some (err_next d h)\<rparr>))"

definition gb_data_save_error :: "(nat \<Rightarrow> byte list) \<Rightarrow> nat \<Rightarrow> gb_data \<Rightarrow> gb_data option" where
  "gb_data_save_error rpt groups d = save_error_loop rpt [0..<groups] d"

text \<open>
  The loop of \<open>gb_data_flush_error\<close>, backwards from the newest record; \<open>tmplst\<close> is the list it builds. It
  ends, for each round empties a slot that was not empty.
\<close>

function flush_error_loop :: "nat list \<Rightarrow> nat \<Rightarrow> gb_data \<Rightarrow> (nat list \<times> gb_data) option" where
  "flush_error_loop tmplst h d =
     (if length (gb_errmem d) \<le> err_prev d h then None
      else if gp_data (gb_errmem d ! err_prev d h) = [] then Some (tmplst, d\<lparr>gb_errlst_head := Some h\<rparr>)
      else (case take_buffer d of
              None \<Rightarrow> None
            | Some (n, d1) \<Rightarrow>
                flush_error_loop (n # tmplst) (err_prev d h)
                  (d1\<lparr>gb_datamem := (gb_datamem d1)[n := (gb_errmem d ! err_prev d h)\<lparr>gp_list := Some Delay,
                        gp_type := GB_RPTTYPE_DELAY\<rparr>],
                      gb_errmem := (gb_errmem d)[err_prev d h := (gb_errmem d ! err_prev d h)\<lparr>gp_data := []\<rparr>]\<rparr>)))"
  by pat_completeness auto

definition full_slots :: "gb_pack_t list \<Rightarrow> nat" where
  "full_slots ps = length (filter (\<lambda>p. gp_data p \<noteq> []) ps)"

lemma full_slots_empty:
  "i < length ps \<Longrightarrow> gp_data (ps ! i) \<noteq> [] \<Longrightarrow> full_slots (ps[i := (ps ! i)\<lparr>gp_data := []\<rparr>]) < full_slots ps"
proof (induction ps arbitrary: i)
  case (Cons p ps)
  then show ?case by (cases i) (auto simp: full_slots_def)
qed simp

termination flush_error_loop
  by (relation "measure (\<lambda>(tmplst, h, d). full_slots (gb_errmem d))") (auto simp: full_slots_empty)

declare flush_error_loop.simps [simp del]

definition gb_data_flush_error :: "gb_data \<Rightarrow> gb_data option" where
  "gb_data_flush_error d =
     (case gb_errlst_head d of
        None \<Rightarrow> Some d
      | Some h \<Rightarrow> do { (tmplst, d1) \<leftarrow> flush_error_loop [] h d; Some (d1\<lparr>gb_delay_lst := gb_delay_lst d1 @ tmplst\<rparr>) })"

text \<open>
  \<open>list_insert_after(pack->list, &pack->link)\<close>. The buffer must not be linked already: \<open>prev\<close> and \<open>next\<close> of
  its node would be overwritten and the list it is in would be torn.
\<close>

definition linked :: "nat \<Rightarrow> gb_data \<Rightarrow> bool" where
  "linked n d \<longleftrightarrow> n \<in> set (gb_free_lst d @ gb_realtm_lst d @ gb_delay_lst d @ gb_trans_lst d)"

definition gb_data_put_back :: "nat \<Rightarrow> gb_data \<Rightarrow> gb_data option" where
  "gb_data_put_back n d =
     (if linked n d then None else case gp_list (gb_datamem d ! n) of
        None \<Rightarrow> None
      | Some Realtm \<Rightarrow> Some (d\<lparr>gb_realtm_lst := n # gb_realtm_lst d\<rparr>)
      | Some Delay \<Rightarrow> Some (d\<lparr>gb_delay_lst := n # gb_delay_lst d\<rparr>))"

fun flush_sending_loop :: "nat list \<Rightarrow> gb_data \<Rightarrow> gb_data option" where
  "flush_sending_loop [] d = Some d"
| "flush_sending_loop (n # ns) d = do { d1 \<leftarrow> gb_data_put_back n d; flush_sending_loop ns d1 }"

definition gb_data_flush_sending :: "gb_data \<Rightarrow> gb_data option" where
  "gb_data_flush_sending d = flush_sending_loop (rev (gb_trans_lst d)) (d\<lparr>gb_trans_lst := []\<rparr>)"

fun flush_realtm_loop :: "nat list \<Rightarrow> gb_data \<Rightarrow> gb_data" where
  "flush_realtm_loop [] d = d"
| "flush_realtm_loop (n # ns) d =
     flush_realtm_loop ns
       (let d1 = upd_pack n (\<lambda>p. p\<lparr>gp_list := Some Delay, gp_type := GB_RPTTYPE_DELAY\<rparr>) d
        in d1\<lparr>gb_delay_lst := gb_delay_lst d1 @ [n]\<rparr>)"

definition gb_data_flush_realtm :: "gb_data \<Rightarrow> gb_data" where
  "gb_data_flush_realtm d = flush_realtm_loop (gb_realtm_lst d) (d\<lparr>gb_realtm_lst := []\<rparr>)"

definition gb_data_clear_report :: "gb_data \<Rightarrow> gb_data" where
  "gb_data_clear_report d =
     d\<lparr>gb_realtm_lst := [], gb_delay_lst := [], gb_trans_lst := [], gb_free_lst := [0..<GB_MAX_REPORT],
       gb_lists := True\<rparr>"

definition gb_data_clear_error :: "gb_data \<Rightarrow> gb_data" where
  "gb_data_clear_error d =
     (case gb_errlst_head d of
        None \<Rightarrow> d
      | Some _ \<Rightarrow> d\<lparr>gb_errmem := map (\<lambda>p. p\<lparr>gp_data := []\<rparr>) (take (gb_errlst_size d) (gb_errmem d)) @
          drop (gb_errlst_size d) (gb_errmem d)\<rparr>)"

definition gb_data_put_send :: "nat \<Rightarrow> gb_data \<Rightarrow> gb_data option" where
  "gb_data_put_send n d = (if linked n d then None else Some (d\<lparr>gb_trans_lst := gb_trans_lst d @ [n]\<rparr>))"

definition gb_data_ack_pack :: "gb_data \<Rightarrow> gb_data" where
  "gb_data_ack_pack d =
     (case gb_trans_lst d of
        [] \<Rightarrow> d
      | n # ns \<Rightarrow> d\<lparr>gb_trans_lst := ns, gb_free_lst := gb_free_lst d @ [n]\<rparr>)"

definition gb_data_emergence :: "int \<Rightarrow> gb_data \<Rightarrow> gb_data" where
  "gb_data_emergence v d = d\<lparr>gb_emerg := v\<rparr>"

text \<open>The buffer is taken out of its list.\<close>

definition gb_data_get_pack :: "gb_data \<Rightarrow> nat option \<times> gb_data" where
  "gb_data_get_pack d =
     (case gb_realtm_lst d of
        n # ns \<Rightarrow> (Some n, d\<lparr>gb_realtm_lst := ns\<rparr>)
      | [] \<Rightarrow> if gb_delay_lst d = [] then (None, d)
              else if gb_emerg d \<noteq> 0 then (Some (last (gb_delay_lst d)), d\<lparr>gb_delay_lst := butlast (gb_delay_lst d)\<rparr>)
              else (Some (hd (gb_delay_lst d)), d\<lparr>gb_delay_lst := tl (gb_delay_lst d)\<rparr>))"

definition gb_data_nosending :: "gb_data \<Rightarrow> bool" where
  "gb_data_nosending d \<longleftrightarrow> gb_lists d \<and> gb_trans_lst d = []"

definition gb_data_noreport :: "gb_data \<Rightarrow> bool" where
  "gb_data_noreport d \<longleftrightarrow> gb_lists d \<and> gb_realtm_lst d = [] \<and> gb_delay_lst d = []"

definition gb_data_set_intv :: "u16 \<Rightarrow> gb_data \<Rightarrow> gb_data" where
  "gb_data_set_intv v d = d\<lparr>gb_datintv := v\<rparr>"

definition gb_data_set_pendflag :: "int \<Rightarrow> gb_data \<Rightarrow> gb_data" where
  "gb_data_set_pendflag v d = d\<lparr>gb_pendflag := v\<rparr>"

section \<open>The clock of the reports\<close>

text \<open>
  \<open>gb_data_periodic\<close> in three parts: the warning, the period that holds in this second, the reports.
  \<open>err\<close> and \<open>rpt\<close> are the contents saved in this second for the ring and for the reports.
\<close>

definition periodic_warn :: "gb_data \<Rightarrow> gb_data option" where
  "periodic_warn d =
     (if gb_warntrig d = 0 then Some d
      else if gb_pendflag d \<noteq> 0 then gb_data_flush_error (gb_data_flush_realtm (d\<lparr>gb_warntrig := 0, gb_times := 31\<rparr>))
      else Some (d\<lparr>gb_warntrig := 0, gb_times := 31, gb_triger := 1\<rparr>))"

definition periodic_period :: "(nat \<Rightarrow> byte list) \<Rightarrow> nat \<Rightarrow> int \<Rightarrow> gb_data \<Rightarrow> (int \<times> gb_data) option" where
  "periodic_period err groups intv d =
     (if gb_times d = 0 then do { d1 \<leftarrow> gb_data_save_error err groups d; Some (intv, d1) }
      else Some (if gb_times d - 1 = 0 then intv else 1, d\<lparr>gb_times := gb_times d - 1\<rparr>))"

definition periodic_report :: "(nat \<Rightarrow> byte list) \<Rightarrow> nat \<Rightarrow> int \<Rightarrow> gb_data \<Rightarrow> gb_data option" where
  "periodic_report rpt groups period d =
     (if period \<le> gb_ticks d then do {
        d1 \<leftarrow> gb_data_save_realtm rpt groups (d\<lparr>gb_ticks := 0\<rparr>);
        if gb_triger d1 \<noteq> 0 then gb_data_flush_error (d1\<lparr>gb_triger := 0\<rparr>) else Some d1 }
      else Some d)"

definition gb_data_periodic :: "(nat \<Rightarrow> byte list) \<Rightarrow> (nat \<Rightarrow> byte list) \<Rightarrow> nat \<Rightarrow> int \<Rightarrow> gb_data \<Rightarrow> gb_data option" where
  "gb_data_periodic err rpt groups intv d = do {
     d1 \<leftarrow> periodic_warn d;
     (period, d2) \<leftarrow> periodic_period err groups intv (d1\<lparr>gb_ticks := gb_ticks d1 + 1\<rparr>);
     periodic_report rpt groups period d2 }"

text \<open>The loop over the frames of \<open>CAN_EVENT_DATAIN\<close>; every hundredth tick of the bus is a second.\<close>

definition can_tick :: "(nat \<Rightarrow> byte list) \<Rightarrow> (nat \<Rightarrow> byte list) \<Rightarrow> nat \<Rightarrow> gb_data \<Rightarrow> gb_data option" where
  "can_tick err rpt groups d =
     (if gb_counter d + 1 = 100 then gb_data_periodic err rpt groups (uint (gb_datintv d)) (d\<lparr>gb_counter := 0\<rparr>)
      else Some (d\<lparr>gb_counter := gb_counter d + 1\<rparr>))"

fun can_datain :: "(nat \<Rightarrow> byte list) \<Rightarrow> (nat \<Rightarrow> byte list) \<Rightarrow> CAN_MSG list \<Rightarrow> gb_data \<Rightarrow> gb_data option" where
  "can_datain err rpt [] d = Some d"
| "can_datain err rpt (m # ms) d =
     (case gb_groups d of
        None \<Rightarrow> Some d
      | Some groups \<Rightarrow>
          if gb_canact d = 0 then Some d
          else do { d1 \<leftarrow> (if can_type m = 0x54 then can_tick err rpt groups d else Some d); can_datain err rpt ms d1 })"

datatype can_event = CAN_EVENT_ACTIVE | CAN_EVENT_SLEEP | CAN_EVENT_TIMEOUT | CAN_EVENT_WAKEUP | CAN_EVENT_DATAIN "CAN_MSG list"

fun gb_data_can_cb :: "(nat \<Rightarrow> byte list) \<Rightarrow> (nat \<Rightarrow> byte list) \<Rightarrow> can_event \<Rightarrow> gb_data \<Rightarrow> gb_data option" where
  "gb_data_can_cb err rpt CAN_EVENT_ACTIVE d = Some (d\<lparr>gb_canact := 1\<rparr>)"
| "gb_data_can_cb err rpt CAN_EVENT_SLEEP d = Some (gb_data_clear_error (d\<lparr>gb_canact := 0\<rparr>))"
| "gb_data_can_cb err rpt CAN_EVENT_TIMEOUT d = Some (gb_data_clear_error (d\<lparr>gb_canact := 0\<rparr>))"
| "gb_data_can_cb err rpt CAN_EVENT_WAKEUP d = Some d"
| "gb_data_can_cb err rpt (CAN_EVENT_DATAIN ms) d = can_datain err rpt ms d"

text \<open>
  \<open>DBC_EVENT_FINISHED\<close> with a description of the bus in which \<open>groups\<close> is \<open>GROUP_SIZE\<close>, at most 4: the ring
  is made anew, except for the length of its slot 0, and the reports are cleared.
\<close>

definition gb_data_dbc_finished :: "nat \<Rightarrow> gb_data \<Rightarrow> gb_data" where
  "gb_data_dbc_finished groups d =
     (let d1 = d\<lparr>gb_groups := Some groups, gb_warntrig := 0\<rparr>;
          d2 = (if 0 < groups then
                  d1\<lparr>gb_errlst_head := Some 0, gb_errlst_size := groups * 30,
                     gb_errmem := take 1 (gb_errmem d1) @
                       map (\<lambda>p. p\<lparr>gp_data := [], gp_type := GB_RPTTYPE_DELAY, gp_list := Some Delay\<rparr>)
                         (drop 1 (take (groups * 30) (gb_errmem d1))) @ drop (groups * 30) (gb_errmem d1)\<rparr>
                else d1\<lparr>gb_errlst_head := None\<rparr>)
      in gb_data_clear_report d2)"

text \<open>\<open>DBC_EVENT_UPDATE\<close> of a fault of level 3 that appears, and the shell's test of it.\<close>

definition gb_data_warn :: "gb_data \<Rightarrow> gb_data" where
  "gb_data_warn d = (if gb_groups d = None then d else d\<lparr>gb_warntrig := 1\<rparr>)"

text \<open>
  The statics at start, after \<open>INIT_PHASE_INSIDE\<close>; the lists are made when a description is loaded, or at
  the first login.
\<close>

definition gb_data_start :: "u16 \<Rightarrow> gb_data" where
  "gb_data_start intv = \<lparr>gb_datamem = replicate GB_MAX_REPORT zero_pack, gb_errmem = replicate GB_MAX_ERROR zero_pack,
     gb_free_lst = [], gb_realtm_lst = [], gb_delay_lst = [], gb_trans_lst = [], gb_errlst_head = None, gb_errlst_size = 0,
     gb_lists = False, gb_groups = None, gb_warntrig = 0, gb_pendflag = 0, gb_emerg = 0, gb_datintv = intv, gb_canact = 0, gb_counter = 0,
     gb_ticks = 0, gb_times = 0, gb_triger = 0\<rparr>"

end
