(* ===== verification/Sock.thy ===== *)
theory Sock
  imports Prelude
begin

text \<open>
  One socket of \<open>src/app/base/sock/sock.c\<close> as a client uses it. A socket of type \<open>SOCK_TYPE_SYNCTCP\<close>
  remembers the length of each message it has handed to TCP and calls the function given with the
  message when that many bytes have been acknowledged by the peer. The 40 entries for this are kept in
  three lists: \<open>sk_free\<close> and \<open>sk_back\<close> count the unused ones, \<open>sk_used\<close> holds for each message in
  order its length, whether a function is to be called and whether the entry belongs to the reserve.
  What the system calls return is a parameter of each function.
\<close>

definition SOCK_MAX_SYNC :: nat where "SOCK_MAX_SYNC = 40"
definition SOCK_ACK_TIMEOUT :: u64 where "SOCK_ACK_TIMEOUT = 15000"

datatype sock_stat_t = SOCK_STAT_UNUSED | SOCK_STAT_CLOSED | SOCK_STAT_OPENED | SOCK_STAT_INPROG

datatype sock_type_t = SOCK_TYPE_INVAL | SOCK_TYPE_TCP | SOCK_TYPE_UDP | SOCK_TYPE_SYNCTCP | SOCK_TYPE_MAX

record sync_t =
  sy_len :: int
  sy_sync :: bool
  sy_back :: bool

record sock_t =
  sk_type :: sock_type_t
  sk_stat :: sock_stat_t
  sk_sendtime :: u64
  sk_failtimes :: int
  sk_sendsz :: int
  sk_free :: nat
  sk_back :: nat
  sk_used :: "sync_t list"

definition sock_create :: "sock_type_t \<Rightarrow> sock_t \<Rightarrow> sock_t" where
  "sock_create type s = s\<lparr>sk_type := type, sk_stat := SOCK_STAT_CLOSED\<rparr>"

definition sock_cleanup :: "sock_t \<Rightarrow> sock_t" where
  "sock_cleanup s =
     (if sk_type s = SOCK_TYPE_SYNCTCP
      then s\<lparr>sk_sendsz := 0, sk_back := SOCK_MAX_SYNC div 10, sk_free := SOCK_MAX_SYNC - SOCK_MAX_SYNC div 10, sk_used := []\<rparr>
      else s)"

text \<open>\<open>thread_ok\<close>: the result of \<open>pthread_create\<close> is not negative.\<close>

definition sock_open :: "bool \<Rightarrow> sock_t \<Rightarrow> int \<times> sock_t" where
  "sock_open thread_ok s =
     (if sk_stat s \<noteq> SOCK_STAT_CLOSED then (-1, s)
      else if thread_ok then (0, (sock_cleanup s)\<lparr>sk_stat := SOCK_STAT_INPROG\<rparr>)
      else (-1, (sock_cleanup s)\<lparr>sk_stat := SOCK_STAT_CLOSED\<rparr>))"

text \<open>What the thread that connects does at its end.\<close>

definition sock_finish :: "sock_stat_t \<Rightarrow> sock_t \<Rightarrow> sock_t" where
  "sock_finish stat s =
     (let s1 = s\<lparr>sk_stat := stat\<rparr>;
          s2 = (if stat = SOCK_STAT_OPENED then s1\<lparr>sk_sendtime := 0, sk_failtimes := 0\<rparr> else s1)
      in if stat = SOCK_STAT_CLOSED then s2\<lparr>sk_failtimes := sk_failtimes s2 + 1\<rparr> else s2)"

definition sock_close :: "sock_t \<Rightarrow> sock_t" where
  "sock_close s = (if sk_stat s = SOCK_STAT_OPENED then s\<lparr>sk_stat := SOCK_STAT_CLOSED\<rparr> else s)"

definition sock_status :: "sock_t \<Rightarrow> sock_stat_t" where
  "sock_status s = sk_stat s"

text \<open>\<open>err\<close>: the pending error, or -1 if it cannot be asked for.\<close>

definition sock_error :: "int \<Rightarrow> sock_t \<Rightarrow> int" where
  "sock_error err s = (if sk_stat s = SOCK_STAT_UNUSED then -1 else err)"

text \<open>
  \<open>unacksz\<close>: the bytes TCP has not had acknowledged, \<^const>\<open>None\<close> if they cannot be asked for. The second
  result tells whether a function is called.
\<close>

definition sock_sync :: "int option \<Rightarrow> sock_t \<Rightarrow> int \<times> bool \<times> sock_t" where
  "sock_sync unacksz s =
     (if sk_stat s \<noteq> SOCK_STAT_OPENED then (-1, False, s)
      else if sk_type s \<noteq> SOCK_TYPE_SYNCTCP then (0, False, s)
      else case unacksz of
        None \<Rightarrow> (-1, False, s)
      | Some n \<Rightarrow> (case sk_used s of
          [] \<Rightarrow> (0, False, s)
        | e # es \<Rightarrow>
            if sy_len e \<le> sk_sendsz s - n then
              (0, sy_sync e, s\<lparr>sk_sendsz := sk_sendsz s - sy_len e, sk_used := es,
                 sk_back := sk_back s + (if sy_back e then 1 else 0),
                 sk_free := sk_free s + (if sy_back e then 0 else 1)\<rparr>)
            else (0, False, s)))"

definition sock_bufsz :: "int option \<Rightarrow> int option \<Rightarrow> sock_t \<Rightarrow> int" where
  "sock_bufsz buffsz unacksz s =
     (if sk_stat s \<noteq> SOCK_STAT_OPENED then -1
      else case buffsz of None \<Rightarrow> -1 | Some b \<Rightarrow> (case unacksz of None \<Rightarrow> -1 | Some n \<Rightarrow> b - n))"

text \<open>\<open>now\<close>: the time; \<open>all_sent\<close>: whether the loop of \<open>send\<close> handed all bytes over in time.\<close>

definition sock_send :: "u64 \<Rightarrow> bool \<Rightarrow> int \<Rightarrow> bool \<Rightarrow> sock_t \<Rightarrow> int \<times> sock_t" where
  "sock_send now all_sent len sync s =
     (if sk_stat s \<noteq> SOCK_STAT_OPENED then (-1, s)
      else if sk_type s = SOCK_TYPE_SYNCTCP \<and> sk_free s = 0 \<and> (sync \<or> sk_back s = 0) then
        (if SOCK_ACK_TIMEOUT < now - sk_sendtime s then -1 else 0, s)
      else if \<not> all_sent then (-1, s)
      else if sk_type s = SOCK_TYPE_SYNCTCP then
        (let back = \<not> sync \<and> 0 < sk_back s
         in (len, s\<lparr>sk_sendsz := sk_sendsz s + len, sk_used := sk_used s @ [\<lparr>sy_len = len, sy_sync = sync, sy_back = back\<rparr>],
               sk_back := sk_back s - (if back then 1 else 0), sk_free := sk_free s - (if back then 0 else 1),
               sk_sendtime := now\<rparr>))
      else (len, s\<lparr>sk_sendtime := now\<rparr>))"

text \<open>\<open>res\<close>: the result of \<open>recv\<close>, \<open>again\<close>: whether an error of it only means that nothing has come.\<close>

definition sock_recv :: "int \<Rightarrow> bool \<Rightarrow> sock_t \<Rightarrow> int" where
  "sock_recv res again s =
     (if sk_stat s \<noteq> SOCK_STAT_OPENED then -1
      else if res = 0 then -1
      else if res < 0 \<and> again then 0
      else res)"

section \<open>The entries\<close>

definition sock_ok :: "sock_t \<Rightarrow> bool" where
  "sock_ok s \<longleftrightarrow> sk_type s = SOCK_TYPE_SYNCTCP \<and>
     (sk_stat s = SOCK_STAT_OPENED \<or> sk_stat s = SOCK_STAT_INPROG \<longrightarrow>
        sk_sendsz s = sum_list (map sy_len (sk_used s)) \<and>
        sk_free s + length (filter (\<lambda>e. \<not> sy_back e) (sk_used s)) = 36 \<and>
        sk_back s + length (filter sy_back (sk_used s)) = 4)"

text \<open>The messages not yet acknowledged whose acknowledgement calls a function.\<close>

definition pending :: "sock_t \<Rightarrow> int list" where
  "pending s = map sy_len (filter sy_sync (sk_used s))"

lemma sock_send_ok:
  "sock_ok s \<Longrightarrow> sock_ok (snd (sock_send now all_sent len sync s))"
  by (auto simp: sock_ok_def sock_send_def Let_def)

lemma sock_sync_ok: "sock_ok s \<Longrightarrow> sock_ok (snd (snd (sock_sync n s)))"
  by (auto simp: sock_ok_def sock_sync_def split: option.splits list.splits)

lemma sock_open_ok: "sock_ok s \<Longrightarrow> sock_ok (snd (sock_open thread_ok s))"
  by (auto simp: sock_ok_def sock_open_def sock_cleanup_def SOCK_MAX_SYNC_def)

lemma sock_close_ok: "sock_ok s \<Longrightarrow> sock_ok (sock_close s)"
  by (auto simp: sock_ok_def sock_close_def)

lemma sock_finish_ok: "sock_ok s \<Longrightarrow> sk_stat s = SOCK_STAT_INPROG \<Longrightarrow> stat = SOCK_STAT_OPENED \<or> stat = SOCK_STAT_CLOSED \<Longrightarrow>
    sock_ok (sock_finish stat s)"
  by (auto simp: sock_ok_def sock_finish_def Let_def)

lemma pending_send:
  "fst (sock_send now all_sent len sync s) > 0 \<Longrightarrow> sk_type s = SOCK_TYPE_SYNCTCP \<Longrightarrow>
   pending (snd (sock_send now all_sent len sync s)) = pending s @ (if sync then [len] else [])"
  by (auto simp: sock_send_def pending_def Let_def split: if_splits)

lemma send_refused [simp]:
  "fst (sock_send now all_sent len sync s) \<le> 0 \<Longrightarrow> 0 < len \<Longrightarrow> snd (sock_send now all_sent len sync s) = s"
  by (auto simp: sock_send_def Let_def split: if_splits)

lemma pending_sync:
  "pending s = (if fst (snd (sock_sync n s)) then [hd (pending s)] else []) @ pending (snd (snd (sock_sync n s)))"
  by (auto simp: sock_sync_def pending_def split: option.splits list.splits)

section \<open>Messages whose acknowledgement is reported\<close>

text \<open>
  What a sender relies on: the reports of acknowledgement come once for each message that asked for one
  and in the order of the messages. \<open>queue\<close> are the sizes of those still to come.
\<close>

locale ack_source =
  fixes queue :: "'s \<Rightarrow> int list" and ok :: "'s \<Rightarrow> bool"
    and submit :: "'a \<Rightarrow> int \<Rightarrow> bool \<Rightarrow> 's \<Rightarrow> int \<times> 's" and poll :: "'b \<Rightarrow> 's \<Rightarrow> int \<times> bool \<times> 's"
  assumes submit_queue: "ok s \<Longrightarrow> 0 < fst (submit a len sync s) \<Longrightarrow>
        queue (snd (submit a len sync s)) = queue s @ (if sync then [len] else [])"
    and refuse_queue: "ok s \<Longrightarrow> 0 < len \<Longrightarrow> fst (submit a len sync s) \<le> 0 \<Longrightarrow> snd (submit a len sync s) = s"
    and poll_queue: "ok s \<Longrightarrow> queue s =
        (if fst (snd (poll b s)) then [hd (queue s)] else []) @ queue (snd (snd (poll b s)))"
begin

text \<open>
  A sender that keeps a list of what it has sent, and drops its first element at each report. \<open>ys\<close> are
  messages whose reports are still to come although the sender has forgotten them.
\<close>

lemma sent_matches:
  assumes "ok s" "queue s = ys @ map size_of xs" "0 < fst (submit a (size_of x) True s)"
  shows "queue (snd (submit a (size_of x) True s)) = ys @ map size_of (xs @ [x])"
  using submit_queue [OF assms(1,3)] assms(2) by simp

lemma acked_matches:
  assumes "ok s" "queue s = ys @ map size_of xs" "poll b s = (res, called, s')"
  shows "\<exists>ys'. (ys = [] \<longrightarrow> ys' = []) \<and> queue s' = ys' @ map size_of (if called then tl xs else xs)"
proof (cases called)
  case True
  then have q: "ys @ map size_of xs = hd (queue s) # queue s'" using poll_queue [OF assms(1), of b] assms(2,3) by simp
  show ?thesis
  proof (cases ys)
    case Nil
    then show ?thesis using q True by (cases xs) auto
  next
    case (Cons y zs)
    then have "queue s' = (zs @ map size_of (take 1 xs)) @ map size_of (tl xs)" using q by (cases xs) simp_all
    then show ?thesis using Cons True by (intro exI [of _ "zs @ map size_of (take 1 xs)"]) simp
  qed
qed (use poll_queue [OF assms(1), of b] assms(2,3) in \<open>intro exI [of _ ys], simp\<close>)

end

interpretation sync_sock: ack_source pending sock_ok "\<lambda>(now, all_sent). sock_send now all_sent" sock_sync
proof unfold_locales
  fix s a len sync b
  assume s: "sock_ok s"
  show "pending s = (if fst (snd (sock_sync b s)) then [hd (pending s)] else []) @ pending (snd (snd (sock_sync b s)))"
    by (rule pending_sync)
  show "pending (snd ((case a of (now, all_sent) \<Rightarrow> sock_send now all_sent) len sync s)) =
      pending s @ (if sync then [len] else [])"
    if "0 < fst ((case a of (now, all_sent) \<Rightarrow> sock_send now all_sent) len sync s)"
    using that s pending_send by (auto simp: sock_ok_def split: prod.splits)
  show "snd ((case a of (now, all_sent) \<Rightarrow> sock_send now all_sent) len sync s) = s"
    if "0 < len" "fst ((case a of (now, all_sent) \<Rightarrow> sock_send now all_sent) len sync s) \<le> 0"
    using that by (auto split: prod.splits)
qed

end
