(* ===== verification/GbProt.thy ===== *)
theory GbProt
  imports GbData Sock
begin

text \<open>
  The telematics protocol, \<open>src/app/interface/gb32960/gb32960_prot.c\<close>: the thread that connects to the
  server, logs in, sends the reports and logs out, with the reports of \<open>GbData\<close> and the socket of \<open>Sock\<close>.

  A round of the loop of \<open>gb_main\<close> is one message and then up to seven calls; each call has a
  \<open>gb_env\<close> of its own with what the clock, the socket and the other modules return in it. An access outside an array is \<^const>\<open>None\<close>. Characters are bytes.
\<close>

unbundle bit_operations_syntax

section \<open>Data\<close>

definition PROT_LOGIN :: int where "PROT_LOGIN = 1"
definition PROT_LOGOUT :: int where "PROT_LOGOUT = 4"
definition PROT_CALTIME :: int where "PROT_CALTIME = 8"
definition PROT_QUREY :: int where "PROT_QUREY = 0x80"
definition PROT_SETUP :: int where "PROT_SETUP = 0x81"
definition PROT_CONTRL :: int where "PROT_CONTRL = 0x82"
definition GB_SOCKET_RSVD :: u32 where "GB_SOCKET_RSVD = 1024"

record gb_stat_t =
  gs_online :: int
  gs_wait :: int
  gs_retry :: int
  gs_waittime :: u64
  gs_rcvbuf :: "byte list"
  gs_rcvlen :: nat
  gs_rcvstep :: int
  gs_datalen :: nat
  gs_login :: int
  gs_suspend :: int
  gs_caltime :: int
  gs_can :: int
  gs_network :: int
  gs_errtrig :: int

datatype gb_cfg_t =
    GB_CFG_ADDR "byte list" u16
  | GB_CFG_VIN "byte list"
  | GB_CFG_DATINTV u16
  | GB_CFG_REGINTV u16
  | GB_CFG_TIMEOUT u16

datatype gb_msg =
    NO_MSG | GB_MSG_CANON | GB_MSG_CANOFF | GB_MSG_SUSPEND | GB_MSG_RESUME | GB_MSG_ERRON | GB_MSG_ERROFF
  | GB_MSG_CONFIG gb_cfg_t | GB_MSG_NETWORK int | GB_MSG_STATUS
  | GB_PM_EMERGENCY | GB_PM_RUNNING | GB_PM_OFF

text \<open>
  The statics. \<open>g_conntime\<close> is the static \<open>time\<close> of \<open>gb_do_checksock\<close>, \<open>g_saved\<close> the values given to
  \<open>cfg_set_para\<close> for the login serial number, \<open>g_sent\<close> the messages handed to the socket.
\<close>

record gb =
  g_st :: gb_stat_t
  g_sock :: sock_t
  g_dat :: gb_data
  gb_vin :: "byte list"
  gb_url :: "byte list"
  gb_port :: u16
  gb_timeout :: u16
  gb_regintv :: u16
  gb_regdate :: u16
  gb_regseq :: u16
  gb_iccid :: "byte list"
  gb_battcode :: "byte list"
  gb_allow_sleep :: int
  g_conntime :: u64
  g_saved :: "u32 list"
  g_sent :: "byte list list"

text \<open>
  \<open>ev_now\<close> and \<open>ev_after\<close>: the clock, the second one read after a message has been sent; \<open>ev_recv\<close>: the
  result of \<open>recv\<close>, whether a negative one only means that nothing has come, and the array after it;
  \<open>ev_during\<close>: what other threads do to the reports while \<open>gb_do_report\<close> has one of them in its hands.
\<close>

record gb_env =
  ev_now :: u64
  ev_after :: u64
  ev_rtc :: RTCTIME
  ev_iccid :: "byte list"
  ev_thread :: bool
  ev_err :: int
  ev_unack :: "int option"
  ev_bufsz :: "int option"
  ev_allsent :: bool
  ev_recv :: "int \<times> bool \<times> byte list"
  ev_cfg :: "int \<times> int"
  ev_during :: "gb_data \<Rightarrow> gb_data option"

definition upd_st :: "(gb_stat_t \<Rightarrow> gb_stat_t) \<Rightarrow> gb \<Rightarrow> gb" where
  "upd_st f g = g\<lparr>g_st := f (g_st g)\<rparr>"

definition GB_SERVR_TIMEOUT :: "gb \<Rightarrow> u64" where
  "GB_SERVR_TIMEOUT g = 1000 * ucast (gb_timeout g)"

definition GB_LOGIN_INTV :: "gb \<Rightarrow> u64" where
  "GB_LOGIN_INTV g = 1000 * ucast (gb_regintv g)"

definition gb_reset :: "gb \<Rightarrow> gb" where
  "gb_reset g = upd_st (\<lambda>s. s\<lparr>gs_wait := 0, gs_online := 0, gs_retry := 0, gs_waittime := 0, gs_rcvstep := -1,
     gs_rcvlen := 0, gs_datalen := 0\<rparr>) (g\<lparr>g_sock := sock_close (g_sock g)\<rparr>)"

section \<open>Messages to the server\<close>

definition gb_checksum :: "byte list \<Rightarrow> byte" where
  "gb_checksum bs = fold (\<lambda>b cs. cs XOR b) bs 0"

definition gb_pack_head :: "byte \<Rightarrow> byte \<Rightarrow> gb \<Rightarrow> byte list" where
  "gb_pack_head type dir g = [0x23, 0x23, type, dir] @ take 17 (gb_vin g) @ [1]"

definition be16 :: "nat \<Rightarrow> byte list" where
  "be16 n = [word_of_nat (n div 256), word_of_nat n]"

definition gb_seal :: "byte list \<Rightarrow> byte list" where
  "gb_seal buf = buf @ [gb_checksum (drop 2 buf)]"

definition gb_pack_report :: "gb_pack_t \<Rightarrow> gb \<Rightarrow> byte list" where
  "gb_pack_report rpt g =
     gb_seal (gb_pack_head (ucast (gp_type rpt)) 0xfe g @ be16 (length (gp_data rpt)) @ gp_data rpt)"

definition gb_time :: "RTCTIME \<Rightarrow> byte list" where
  "gb_time t = [ucast (rtc_year t - 2000), rtc_mon t, rtc_mday t, rtc_hour t, rtc_min t, rtc_sec t]"

definition gb_reginf :: "gb \<Rightarrow> u32" where
  "gb_reginf g = push_bit 16 (ucast (gb_regdate g)) + ucast (gb_regseq g)"

definition gb_pack_login :: "gb_env \<Rightarrow> gb \<Rightarrow> byte list \<times> gb" where
  "gb_pack_login e g =
     (let today = word_of_nat (unat (rtc_mon (ev_rtc e)) * 100 + unat (rtc_mday (ev_rtc e)));
          g1 = (if unat (gb_regdate g) \<noteq> unat (rtc_mon (ev_rtc e)) * 100 + unat (rtc_mday (ev_rtc e)) then
                  let g1 = g\<lparr>gb_regdate := today, gb_regseq := 1\<rparr> in g1\<lparr>g_saved := g_saved g1 @ [gb_reginf g1]\<rparr>
                else g);
          g2 = g1\<lparr>gb_iccid := ev_iccid e\<rparr>;
          body = gb_time (ev_rtc e) @ be16 (unat (gb_regseq g2)) @ take 20 (gb_iccid g2) @ [1] @
            [word_of_nat (length (gb_battcode g2))] @ gb_battcode g2
      in (gb_seal (gb_pack_head 1 0xfe g2 @ be16 (length body) @ body), g2))"

definition gb_pack_logout :: "gb_env \<Rightarrow> gb \<Rightarrow> byte list" where
  "gb_pack_logout e g =
     (let tmp = (if gb_regseq g = 1 then 65531 else uint (gb_regseq g) - 1)
      in gb_seal (gb_pack_head 4 0xfe g @ [0, 8] @ gb_time (ev_rtc e) @ [word_of_int (tmp div 256), word_of_int tmp]))"

text \<open>\<open>sock_send\<close> of a message.\<close>

definition gb_sock_send :: "gb_env \<Rightarrow> byte list \<Rightarrow> bool \<Rightarrow> gb \<Rightarrow> int \<times> gb" where
  "gb_sock_send e buf sync g =
     (let (res, s) = sock_send (ev_now e) (ev_allsent e) (int (length buf)) sync (g_sock g)
      in (res, g\<lparr>g_sock := s, g_sent := g_sent g @ (if 0 < res then [buf] else [])\<rparr>))"

section \<open>The steps of a round\<close>

text \<open>The call of the function given with a message when \<open>sock_sync\<close> finds it acknowledged.\<close>

definition gb_sync :: "gb_env \<Rightarrow> gb \<Rightarrow> int \<times> gb" where
  "gb_sync e g =
     (let (res, called, s) = sock_sync (ev_unack e) (g_sock g);
          g1 = g\<lparr>g_sock := s\<rparr>
      in (res, if called then g1\<lparr>g_dat := gb_data_ack_pack (g_dat g1)\<rparr> else g1))"

definition gb_do_checksock :: "gb_env \<Rightarrow> gb \<Rightarrow> int \<times> gb" where
  "gb_do_checksock e g =
     (if gs_network (g_st g) = 0 \<or> gb_port g = 0 \<or> gb_url g = [] \<or> gb_allow_sleep g \<noteq> 0 then (-1, g)
      else if sock_status (g_sock g) = SOCK_STAT_CLOSED then
        (if gs_suspend (g_st g) = 0 \<and> \<not> gb_data_noreport (g_dat g) \<and>
            (g_conntime g = 0 \<or> GB_SERVR_TIMEOUT g < ev_now e - g_conntime g)
         then (-1, g\<lparr>g_sock := snd (sock_open (ev_thread e) (g_sock g)), g_conntime := ev_after e\<rparr>)
         else (-1, g))
      else if sock_status (g_sock g) = SOCK_STAT_OPENED then
        (if sock_error (ev_err e) (g_sock g) \<noteq> 0 then (-1, gb_reset g)
         else let (res, g1) = gb_sync e g in if res \<noteq> 0 then (-1, gb_reset g1) else (0, g1))
      else (-1, g))"

definition gb_do_wait :: "gb_env \<Rightarrow> gb \<Rightarrow> int \<times> gb" where
  "gb_do_wait e g =
     (if gs_wait (g_st g) = 0 then (0, g)
      else (-1,
        if GB_SERVR_TIMEOUT g < ev_now e - gs_waittime (g_st g) then
          (if gs_wait (g_st g) = PROT_LOGIN then gb_reset (upd_st (\<lambda>s. s\<lparr>gs_wait := 0\<rparr>) g)
           else let g1 = upd_st (\<lambda>s. s\<lparr>gs_retry := gs_retry s + 1\<rparr>) g
                in if 3 < gs_retry (g_st g1) then
                     gb_reset (if gs_wait (g_st g1) = PROT_LOGOUT
                               then upd_st (\<lambda>s. s\<lparr>gs_login := 0\<rparr>) (g1\<lparr>gb_allow_sleep := 1\<rparr>) else g1)
                   else if gs_wait (g_st g1) = PROT_LOGOUT then
                     (let (res, g2) = gb_sock_send e (gb_pack_logout e g1) False g1
                      in if res < 0 then gb_reset g2
                         else if res = 0 then g2
                         else upd_st (\<lambda>s. s\<lparr>gs_waittime := ev_after e\<rparr>) g2)
                   else g1)
        else g))"

definition gb_do_login :: "gb_env \<Rightarrow> gb \<Rightarrow> int \<times> gb" where
  "gb_do_login e g =
     (if gs_online (g_st g) \<noteq> 0 then (0, g)
      else (-1,
        if gs_waittime (g_st g) = 0 \<or> GB_LOGIN_INTV g < ev_now e - gs_waittime (g_st g) then
          (let (buf, g1) = gb_pack_login e g;
               (res, g2) = gb_sock_send e buf False g1
           in if res < 0 then gb_reset g2
              else if res = 0 then g2
              else upd_st (\<lambda>s. s\<lparr>gs_wait := PROT_LOGIN, gs_waittime := ev_after e\<rparr>) g2)
        else g))"

definition gb_do_suspend :: "gb \<Rightarrow> int \<times> gb" where
  "gb_do_suspend g =
     (if gs_suspend (g_st g) \<noteq> 0 \<and> gb_data_nosending (g_dat g) then (-1, gb_reset g) else (0, g))"

definition gb_do_logout :: "gb_env \<Rightarrow> gb \<Rightarrow> int \<times> gb" where
  "gb_do_logout e g =
     (if gs_can (g_st g) = 0 \<and> gb_data_nosending (g_dat g) then
        (-1, let (res, g1) = gb_sock_send e (gb_pack_logout e g) False g
             in if res < 0 then gb_reset g1
                else if res = 0 then g1
                else upd_st (\<lambda>s. s\<lparr>gs_wait := PROT_LOGOUT, gs_waittime := ev_after e\<rparr>) g1)
      else (0, g))"

text \<open>
  The report is out of every list from \<open>gb_data_get_pack\<close> until it is put back or put among those sent.
  The size of the array, 1280, and \<open>GB_SOCKET_RSVD\<close> are compared with the result of \<open>sock_bufsz\<close> as
  unsigned numbers.
\<close>

definition gb_do_report :: "gb_env \<Rightarrow> gb \<Rightarrow> (int \<times> gb) option" where
  "gb_do_report e g =
     (case gb_data_get_pack (g_dat g) of
        (None, _) \<Rightarrow> Some (0, g)
      | (Some n, d) \<Rightarrow>
          if 1280 + GB_SOCKET_RSVD \<le> word_of_int (sock_bufsz (ev_bufsz e) (ev_unack e) (g_sock g)) then do {
            d1 \<leftarrow> ev_during e d;
            let (res, g1) = gb_sock_send e (gb_pack_report (gb_datamem d ! n) g) True (g\<lparr>g_dat := d1\<rparr>);
            if res < 0 then do { d2 \<leftarrow> gb_data_put_back n (g_dat g1); Some (-1, gb_reset (g1\<lparr>g_dat := d2\<rparr>)) }
            else if res = 0 then do { d2 \<leftarrow> gb_data_put_back n (g_dat g1); Some (0, g1\<lparr>g_dat := d2\<rparr>) }
            else do { d2 \<leftarrow> gb_data_put_send n (g_dat g1); Some (0, g1\<lparr>g_dat := d2\<rparr>) } }
          else Some (0, g\<lparr>g_dat := d\<rparr>))"

section \<open>Messages from the server\<close>

text \<open>
  \<open>input\<close> is what is left of the array of the received bytes, \<open>len\<close> how many of them were received,
  \<open>rlen\<close> how many were read. The header is looked for one byte ahead, behind the received bytes too.
\<close>

definition head_seen :: "gb_stat_t \<Rightarrow> byte list \<Rightarrow> gb_stat_t option" where
  "head_seen s input =
     (case input of
        [] \<Rightarrow> None
      | x # rest \<Rightarrow>
          if x = 0x23 then
            (case rest of
               [] \<Rightarrow> None
             | y # _ \<Rightarrow> Some (if y = 0x23 then s\<lparr>gs_rcvlen := 0, gs_datalen := 0, gs_rcvstep := 0\<rparr> else s))
          else Some s)"

definition store_byte :: "byte \<Rightarrow> gb_stat_t \<Rightarrow> gb_stat_t option" where
  "store_byte x s =
     (if gs_rcvlen s < length (gs_rcvbuf s)
      then Some (s\<lparr>gs_rcvbuf := (gs_rcvbuf s)[gs_rcvlen s := x], gs_rcvlen := gs_rcvlen s + 1\<rparr>) else None)"

text \<open>The \<open>switch\<close>; the first result tells that the packet is complete.\<close>

definition rcv_step :: "byte \<Rightarrow> gb_stat_t \<Rightarrow> bool \<times> gb_stat_t" where
  "rcv_step x s =
     (if gs_rcvstep s = 0 then (False, if gs_rcvlen s = 22 then s\<lparr>gs_rcvstep := 1\<rparr> else s)
      else if gs_rcvstep s = 1 then
        (False, let s1 = s\<lparr>gs_datalen := gs_datalen s * 256 + unat x\<rparr>
                in if gs_rcvlen s1 = 24 then s1\<lparr>gs_rcvstep := 2\<rparr> else s1)
      else if gs_rcvstep s = 2 then (False, if gs_rcvlen s = 24 + gs_datalen s then s\<lparr>gs_rcvstep := 3\<rparr> else s)
      else if gs_rcvstep s = 3 then (True, s\<lparr>gs_rcvstep := -1\<rparr>)
      else (False, s\<lparr>gs_rcvlen := 0, gs_datalen := 0\<rparr>))"

fun gb_makeup_pack :: "gb_stat_t \<Rightarrow> byte list \<Rightarrow> nat \<Rightarrow> nat \<Rightarrow> (int \<times> nat \<times> gb_stat_t) option" where
  "gb_makeup_pack s input 0 rlen = Some (-1, rlen, s)"
| "gb_makeup_pack s input (Suc len) rlen = do {
     s1 \<leftarrow> head_seen s input;
     s2 \<leftarrow> store_byte (hd input) s1;
     let (complete, s3) = rcv_step (hd input) s2;
     if complete then Some (0, rlen + 1, s3) else gb_makeup_pack s3 (tl input) len (rlen + 1) }"

definition gb_handle_query :: "gb \<Rightarrow> byte list \<Rightarrow> nat \<Rightarrow> int" where
  "gb_handle_query g data len = 0"

definition gb_handle_setup :: "gb \<Rightarrow> byte list \<Rightarrow> nat \<Rightarrow> int" where
  "gb_handle_setup g data len = 0"

definition gb_handle_control :: "gb \<Rightarrow> byte list \<Rightarrow> nat \<Rightarrow> int" where
  "gb_handle_control g data len = 0"

definition gb_login_ack :: "byte \<Rightarrow> gb \<Rightarrow> (int \<times> gb) option" where
  "gb_login_ack ack g =
     (if gs_wait (g_st g) \<noteq> PROT_LOGIN then Some (0, g)
      else let g1 = upd_st (\<lambda>s. s\<lparr>gs_wait := 0\<rparr>) g
           in if ack \<noteq> 1 then Some (0, g1)
              else do {
                let g2 = upd_st (\<lambda>s. s\<lparr>gs_online := 1\<rparr>) g1;
                g3 \<leftarrow> (if gs_login (g_st g2) \<noteq> 0
                       then do { d \<leftarrow> gb_data_flush_sending (g_dat g2); Some (g2\<lparr>g_dat := gb_data_flush_realtm d\<rparr>) }
                       else Some (upd_st (\<lambda>s. s\<lparr>gs_login := 1\<rparr>)
                              (g2\<lparr>g_dat := gb_data_clear_error (gb_data_clear_report (g_dat g2))\<rparr>)));
                let g4 = g3\<lparr>gb_regseq := (if 65531 < gb_regseq g3 + 1 then 1 else gb_regseq g3 + 1)\<rparr>;
                Some (0, g4\<lparr>g_saved := g_saved g4 @ [gb_reginf g4]\<rparr>) })"

definition gb_logout_ack :: "byte \<Rightarrow> gb \<Rightarrow> int \<times> gb" where
  "gb_logout_ack ack g =
     (if gs_wait (g_st g) \<noteq> PROT_LOGOUT \<or> ack \<noteq> 1 then (0, g)
      else (-1, upd_st (\<lambda>s. s\<lparr>gs_login := 0\<rparr>) ((gb_reset g)\<lparr>gb_allow_sleep := 1\<rparr>)))"

definition gb_caltime_ack :: "byte \<Rightarrow> gb \<Rightarrow> int \<times> gb" where
  "gb_caltime_ack ack g =
     (if gs_wait (g_st g) \<noteq> PROT_CALTIME \<or> ack \<noteq> 1 then (0, g)
      else (0, upd_st (\<lambda>s. s\<lparr>gs_wait := 0, gs_caltime := 0\<rparr>) g))"

text \<open>The checks and the \<open>switch\<close> of a complete packet, in \<open>rcvbuf\<close>.\<close>

definition gb_packet :: "gb \<Rightarrow> (int \<times> gb) option" where
  "gb_packet g =
     (let s = g_st g; buf = gs_rcvbuf s; len = gs_rcvlen s;
          type = uint (buf ! 2); ack = buf ! 3; dlen = unat (buf ! 22) * 256 + unat (buf ! 23); data = drop 24 buf
      in if buf ! (len - 1) \<noteq> gb_checksum (take (len - 3) (drop 2 buf)) then Some (0, g)
         else if type = PROT_LOGIN then gb_login_ack ack g
         else if type = PROT_LOGOUT then Some (gb_logout_ack ack g)
         else if type = PROT_CALTIME then Some (gb_caltime_ack ack g)
         else if type = PROT_QUREY then Some (gb_handle_query g data dlen, g)
         else if type = PROT_SETUP then Some (gb_handle_setup g data dlen, g)
         else if type = PROT_CONTRL then Some (gb_handle_control g data dlen, g)
         else Some (0, g))"

lemma makeup_uselen: "gb_makeup_pack s input len rlen = Some (r, use, s') \<Longrightarrow> r = 0 \<Longrightarrow> rlen < use \<and> use \<le> rlen + len"
proof (induction len arbitrary: s input rlen)
  case (Suc len)
  then obtain s2 where **: "(let (complete, s3) = rcv_step (hd input) s2
      in if complete then Some (0, rlen + 1, s3) else gb_makeup_pack s3 (tl input) len (rlen + 1)) = Some (r, use, s')"
    by (auto simp only: gb_makeup_pack.simps bind_eq_Some_conv)
  obtain c s3 where "rcv_step (hd input) s2 = (c, s3)" by fastforce
  with ** have *: "if c then Some (0, rlen + 1, s3) = Some (r, use, s')
      else gb_makeup_pack s3 (tl input) len (rlen + 1) = Some (r, use, s')"
    by (simp split: if_splits)
  show ?case
  proof (cases c)
    case False
    then show ?thesis using * Suc.IH [of s3 "tl input" "rlen + 1"] Suc.prems(2) by simp
  qed (use * in auto)
qed simp

function receive_loop :: "byte list \<Rightarrow> nat \<Rightarrow> gb \<Rightarrow> (int \<times> gb) option" where
  "receive_loop input rlen g =
     (if rlen = 0 then Some (0, g)
      else case gb_makeup_pack (g_st g) input rlen 0 of
        None \<Rightarrow> None
      | Some (r, uselen, s) \<Rightarrow>
          if r \<noteq> 0 then Some (0, g\<lparr>g_st := s\<rparr>)
          else (case gb_packet (g\<lparr>g_st := s\<rparr>) of
                  None \<Rightarrow> None
                | Some (ret, g1) \<Rightarrow>
                    if ret \<noteq> 0 then Some (ret, g1) else receive_loop (drop uselen input) (rlen - uselen) g1))"
  by pat_completeness auto
termination receive_loop
  by (relation "measure (\<lambda>(input, rlen, g). rlen)") (auto dest!: makeup_uselen)

declare receive_loop.simps [simp del]

definition gb_do_receive :: "gb_env \<Rightarrow> gb \<Rightarrow> (int \<times> gb) option" where
  "gb_do_receive e g =
     (let (res, again, array) = ev_recv e; rlen = sock_recv res again (g_sock g)
      in if rlen < 0 then Some (-1, gb_reset g) else receive_loop array (nat rlen) g)"

section \<open>Configuration and messages\<close>

text \<open>
  \<open>ev_cfg\<close>: the results of the first and the second \<open>cfg_set_para\<close>; characters up to the end of a
  string.
\<close>

definition gb_do_config :: "gb_env \<Rightarrow> gb_cfg_t \<Rightarrow> gb \<Rightarrow> int \<times> gb" where
  "gb_do_config e cfg g =
     (case cfg of
        GB_CFG_ADDR url port \<Rightarrow>
          if fst (ev_cfg e) \<noteq> 0 \<or> snd (ev_cfg e) \<noteq> 0 then (-1, g) else (0, gb_reset (g\<lparr>gb_url := url, gb_port := port\<rparr>))
      | GB_CFG_VIN vin \<Rightarrow>
          if fst (ev_cfg e) \<noteq> 0 then (-1, g)
          else (0, gb_reset (g\<lparr>gb_vin := vin @ [0] @ drop (length vin + 1) (gb_vin g)\<rparr>))
      | GB_CFG_REGINTV v \<Rightarrow> if fst (ev_cfg e) \<noteq> 0 then (-1, g) else (0, g\<lparr>gb_regintv := v\<rparr>)
      | GB_CFG_TIMEOUT v \<Rightarrow> if fst (ev_cfg e) \<noteq> 0 then (-1, g) else (0, g\<lparr>gb_timeout := v\<rparr>)
      | GB_CFG_DATINTV v \<Rightarrow> if fst (ev_cfg e) \<noteq> 0 then (-1, g) else (0, g\<lparr>g_dat := gb_data_set_intv v (g_dat g)\<rparr>))"

definition gb_set_addr :: "byte list \<Rightarrow> u16 \<Rightarrow> gb_msg option" where
  "gb_set_addr url port = (if 255 < length url then None else Some (GB_MSG_CONFIG (GB_CFG_ADDR url port)))"

definition gb_set_vin :: "byte list \<Rightarrow> gb_msg option" where
  "gb_set_vin vin = (if length vin \<noteq> 17 then None else Some (GB_MSG_CONFIG (GB_CFG_VIN vin)))"

definition gb_set_datintv :: "u16 \<Rightarrow> gb_msg" where
  "gb_set_datintv v = GB_MSG_CONFIG (GB_CFG_DATINTV v)"

definition gb_set_regintv :: "u16 \<Rightarrow> gb_msg" where
  "gb_set_regintv v = GB_MSG_CONFIG (GB_CFG_REGINTV v)"

definition gb_set_timeout :: "u16 \<Rightarrow> gb_msg" where
  "gb_set_timeout v = GB_MSG_CONFIG (GB_CFG_TIMEOUT v)"

text \<open>The messages the callbacks of the bus and of the network send to the thread.\<close>

definition gb_can_callback :: "can_event \<Rightarrow> gb_msg option" where
  "gb_can_callback ev =
     (case ev of
        CAN_EVENT_ACTIVE \<Rightarrow> Some GB_MSG_CANON
      | CAN_EVENT_SLEEP \<Rightarrow> Some GB_MSG_CANOFF
      | CAN_EVENT_TIMEOUT \<Rightarrow> Some GB_MSG_CANOFF
      | CAN_EVENT_WAKEUP \<Rightarrow> None
      | CAN_EVENT_DATAIN _ \<Rightarrow> None)"

datatype nm_state_msg = NM_REG_MSG_CONNECTED | NM_REG_MSG_DISCONNECTED

definition gb_nm_callback :: "bool \<Rightarrow> nm_state_msg \<Rightarrow> gb_msg option" where
  "gb_nm_callback public_net nmmsg =
     (if \<not> public_net then None
      else Some (GB_MSG_NETWORK (case nmmsg of NM_REG_MSG_CONNECTED \<Rightarrow> 1 | NM_REG_MSG_DISCONNECTED \<Rightarrow> 0)))"

definition gb_message :: "gb_env \<Rightarrow> gb_msg \<Rightarrow> gb \<Rightarrow> gb" where
  "gb_message e msg g =
     (case msg of
        GB_MSG_NETWORK n \<Rightarrow> if gs_network (g_st g) \<noteq> n then upd_st (\<lambda>s. s\<lparr>gs_network := n\<rparr>) (gb_reset g) else g
      | GB_PM_EMERGENCY \<Rightarrow> g\<lparr>g_dat := gb_data_emergence 1 (g_dat g)\<rparr>
      | GB_PM_RUNNING \<Rightarrow> g\<lparr>g_dat := gb_data_emergence 0 (g_dat g)\<rparr>
      | GB_PM_OFF \<Rightarrow> g\<lparr>g_dat := gb_data_emergence 0 (g_dat g)\<rparr>
      | GB_MSG_CANON \<Rightarrow> upd_st (\<lambda>s. s\<lparr>gs_can := 1\<rparr>) (g\<lparr>gb_allow_sleep := 0\<rparr>)
      | GB_MSG_CANOFF \<Rightarrow>
          upd_st (\<lambda>s. s\<lparr>gs_can := 0\<rparr>) (g\<lparr>gb_allow_sleep := (if gs_online (g_st g) = 0 then 1 else 0)\<rparr>)
      | GB_MSG_SUSPEND \<Rightarrow> upd_st (\<lambda>s. s\<lparr>gs_suspend := 1\<rparr>) (g\<lparr>g_dat := gb_data_set_pendflag 1 (g_dat g)\<rparr>)
      | GB_MSG_RESUME \<Rightarrow> upd_st (\<lambda>s. s\<lparr>gs_suspend := 0\<rparr>) (g\<lparr>g_dat := gb_data_set_pendflag 0 (g_dat g)\<rparr>)
      | GB_MSG_ERRON \<Rightarrow> upd_st (\<lambda>s. s\<lparr>gs_errtrig := 1\<rparr>) g
      | GB_MSG_ERROFF \<Rightarrow> upd_st (\<lambda>s. s\<lparr>gs_errtrig := 0\<rparr>) g
      | GB_MSG_CONFIG cfg \<Rightarrow> snd (gb_do_config e cfg g)
      | GB_MSG_STATUS \<Rightarrow> g
      | NO_MSG \<Rightarrow> g)"

section \<open>A round of the loop\<close>

datatype gb_call = Checksock | Receive | Wait | Login | Suspend | Report | Logout

definition gb_call_step :: "gb_call \<Rightarrow> gb_env \<Rightarrow> gb \<Rightarrow> (int \<times> gb) option" where
  "gb_call_step c e g =
     (case c of
        Checksock \<Rightarrow> Some (gb_do_checksock e g)
      | Receive \<Rightarrow> gb_do_receive e g
      | Wait \<Rightarrow> Some (gb_do_wait e g)
      | Login \<Rightarrow> Some (gb_do_login e g)
      | Suspend \<Rightarrow> Some (gb_do_suspend g)
      | Report \<Rightarrow> gb_do_report e g
      | Logout \<Rightarrow> Some (gb_do_logout e g))"

text \<open>\<open>a() || b() || ...\<close>\<close>

fun gb_calls :: "(gb_call \<Rightarrow> gb_env) \<Rightarrow> gb_call list \<Rightarrow> gb \<Rightarrow> gb option" where
  "gb_calls es [] g = Some g"
| "gb_calls es (c # cs) g = do { (res, g1) \<leftarrow> gb_call_step c (es c) g; if res \<noteq> 0 then Some g1 else gb_calls es cs g1 }"

abbreviation round_calls :: "gb_call list" where
  "round_calls \<equiv> [Checksock, Receive, Wait, Login, Suspend, Report, Logout]"

definition gb_round :: "gb_env \<Rightarrow> gb_msg \<Rightarrow> (gb_call \<Rightarrow> gb_env) \<Rightarrow> gb \<Rightarrow> gb option" where
  "gb_round e msg es g = gb_calls es round_calls (gb_message e msg g)"

text \<open>A message of another module over the same socket.\<close>

definition gb32960_ServiceMsgSend :: "gb_env \<Rightarrow> byte list \<Rightarrow> gb \<Rightarrow> int \<times> gb" where
  "gb32960_ServiceMsgSend e msg g = (let (res, g1) = gb_sock_send e msg False g in (if res < 0 then -1 else res, g1))"

definition gb_allow_sleep_handler :: "gb \<Rightarrow> int" where
  "gb_allow_sleep_handler g = gb_allow_sleep g"

text \<open>
  The statics after \<open>gb_init\<close>, \<open>url\<close> to \<open>timeout\<close> being what is read from the configuration, and after
  the first lines of \<open>gb_main\<close>, which create the socket.
\<close>

definition gb_start :: "byte list \<Rightarrow> u16 \<Rightarrow> byte list \<Rightarrow> u16 \<Rightarrow> u32 \<Rightarrow> u16 \<Rightarrow> gb_data \<Rightarrow> sock_t \<Rightarrow> gb" where
  "gb_start url port vin regintv reginf timeout d s =
     \<lparr>g_st = \<lparr>gs_online = 0, gs_wait = 0, gs_retry = 0, gs_waittime = 0, gs_rcvbuf = replicate 1024 0, gs_rcvlen = 0,
               gs_rcvstep = 0, gs_datalen = 0, gs_login = 0, gs_suspend = 0, gs_caltime = 0, gs_can = 0,
               gs_network = 0, gs_errtrig = 0\<rparr>,
      g_sock = sock_create SOCK_TYPE_SYNCTCP s, g_dat = d, gb_vin = vin, gb_url = url, gb_port = port,
      gb_timeout = timeout, gb_regintv = regintv, gb_regdate = ucast (drop_bit 16 reginf), gb_regseq = ucast reginf,
      gb_iccid = replicate 21 0, gb_battcode = [], gb_allow_sleep = 1, g_conntime = 0, g_saved = [], g_sent = []\<rparr>"

end
