(* ===== verification/GbInv.thy ===== *)
theory GbInv
  imports GbProt "HOL-Library.Multiset"
begin

text \<open>
  What holds of the reports and of the telematics thread whatever happens: each buffer is in one list at
  most, the reports sent are those the socket still has to see acknowledged, in the same order, and the
  thread allows the system to sleep only while it is not logged in.
\<close>

section \<open>The lists of reports\<close>

definition movable :: "gb_data \<Rightarrow> nat list" where
  "movable d = gb_free_lst d @ gb_realtm_lst d @ gb_delay_lst d"

definition homed :: "gb_data \<Rightarrow> gb_list \<Rightarrow> nat list \<Rightarrow> bool" where
  "homed d l ns \<longleftrightarrow> (\<forall>n \<in> set ns. gp_list (gb_datamem d ! n) = Some l)"

text \<open>\<open>out\<close>: buffers that are in no list, and in the hands of one function.\<close>

definition lists_ok :: "nat list \<Rightarrow> gb_data \<Rightarrow> bool" where
  "lists_ok out d \<longleftrightarrow> length (gb_datamem d) = GB_MAX_REPORT \<and>
     distinct (out @ movable d @ gb_trans_lst d) \<and> set (out @ movable d @ gb_trans_lst d) \<subseteq> {..<GB_MAX_REPORT} \<and>
     homed d Realtm (gb_realtm_lst d) \<and> homed d Delay (gb_delay_lst d) \<and>
     (\<forall>n \<in> set (gb_trans_lst d). gp_list (gb_datamem d ! n) \<noteq> None) \<and>
     (gb_groups d = None \<longrightarrow> gb_realtm_lst d = [] \<and> gb_delay_lst d = [] \<and> gb_trans_lst d = [])"

text \<open>While a description is loaded the lists are made.\<close>

definition made :: "gb_data \<Rightarrow> bool" where
  "made d \<longleftrightarrow> gb_groups d = None \<or> gb_lists d"

text \<open>
  What the functions that make reports leave as it is; \<open>out\<close> and \<open>out'\<close> are the buffers such a function has
  in its hands, \<open>h\<close> those another function has.
\<close>

definition moves :: "nat list \<Rightarrow> nat list \<Rightarrow> gb_data \<Rightarrow> nat list \<Rightarrow> gb_data \<Rightarrow> bool" where
  "moves h out d out' d' \<longleftrightarrow> lists_ok (out' @ h) d' \<and>
     mset (out' @ movable d') = mset (out @ movable d) \<and> gb_trans_lst d' = gb_trans_lst d \<and>
     gb_groups d' = gb_groups d \<and> gb_lists d' = gb_lists d \<and>
     (\<forall>n. n \<notin> set (out @ movable d) \<longrightarrow> gb_datamem d' ! n = gb_datamem d ! n)"

lemma moves_refl: "lists_ok h d \<Longrightarrow> moves h [] d [] d"
  by (simp add: moves_def)

lemma moves_trans [trans]:
  assumes "moves h out d out' d'" "moves h out' d' out'' d''"
  shows "moves h out d out'' d''"
proof -
  have "set (out' @ movable d') = set (out @ movable d)" using assms(1) by (metis moves_def set_mset_mset)
  then show ?thesis using assms by (simp add: moves_def)
qed

lemma moves_same:
  assumes "lists_ok h d" "gb_datamem d' = gb_datamem d" "gb_free_lst d' = gb_free_lst d"
    "gb_realtm_lst d' = gb_realtm_lst d" "gb_delay_lst d' = gb_delay_lst d" "gb_trans_lst d' = gb_trans_lst d"
    "gb_groups d' = gb_groups d" "gb_lists d' = gb_lists d"
  shows "moves h [] d [] d'"
  using assms by (simp add: moves_def lists_ok_def movable_def homed_def)

lemma moves_take:
  assumes "lists_ok (out @ h) d" "take_buffer d = Some (n, d1)"
  shows "moves h out d (n # out) d1 \<and> n \<in> set (movable d) \<and> gb_errmem d1 = gb_errmem d \<and>
    gb_datamem d1 = gb_datamem d"
  using assms unfolding take_buffer_def
  by (auto simp: moves_def lists_ok_def movable_def homed_def split: list.splits)

text \<open>A buffer is written and put behind a list.\<close>

lemma homed_update:
  "n \<notin> set ns \<Longrightarrow> homed (d\<lparr>gb_datamem := (gb_datamem d)[n := p]\<rparr>) l ns = homed d l ns"
  unfolding homed_def by simp (metis nth_list_update_neq)

lemma moves_put_realtm:
  assumes "lists_ok (n # h) d" "gp_list p = Some Realtm" "gb_groups d \<noteq> None"
  shows "moves h [n] d [] (d\<lparr>gb_datamem := (gb_datamem d)[n := p], gb_realtm_lst := gb_realtm_lst d @ [n]\<rparr>)"
  using assms by (auto simp: moves_def lists_ok_def movable_def homed_def nth_list_update)

lemma moves_put_out:
  assumes "lists_ok (n # out @ h) d"
  shows "moves h (n # out) d (n # out) (d\<lparr>gb_datamem := (gb_datamem d)[n := p], gb_errmem := es\<rparr>)"
  using assms by (auto simp: moves_def lists_ok_def movable_def homed_def nth_list_update)

abbreviation saved_report :: "(nat \<Rightarrow> byte list) \<Rightarrow> nat \<Rightarrow> nat \<Rightarrow> gb_data \<Rightarrow> gb_data" where
  "saved_report rpt i n d \<equiv> d\<lparr>gb_datamem := (gb_datamem d)[n := (gb_datamem d ! n)\<lparr>gp_data := rpt i,
     gp_seq := word_of_nat (i + 1), gp_list := Some Realtm, gp_type := GB_RPTTYPE_REALTM\<rparr>],
     gb_realtm_lst := gb_realtm_lst d @ [n]\<rparr>"

lemma save_realtm_Cons:
  "save_realtm_loop rpt (i # is) d = Some d' \<longleftrightarrow>
     (\<exists>n d1. take_buffer d = Some (n, d1) \<and> length (rpt i) \<le> 1024 \<and> save_realtm_loop rpt is (saved_report rpt i n d1) = Some d')"
  by (auto simp: upd_pack_def Let_def split: option.splits if_splits)

lemma moves_saved_report:
  assumes "lists_ok h d" "take_buffer d = Some (n, d1)" "gb_groups d \<noteq> None"
  shows "moves h [] d [] (saved_report rpt i n d1)"
proof -
  have m: "moves h [] d [n] d1" using moves_take [of "[]"] assms(1,2) by simp
  then have "moves h [n] d1 [] (saved_report rpt i n d1)"
    using assms(3) by (intro moves_put_realtm) (simp_all add: moves_def)
  with m show ?thesis by (rule moves_trans)
qed

lemma moves_save_realtm_loop:
  "lists_ok h d \<Longrightarrow> gb_groups d \<noteq> None \<Longrightarrow> save_realtm_loop rpt is d = Some d' \<Longrightarrow> moves h [] d [] d'"
proof (induction "is" arbitrary: d)
  case (Cons i "is")
  then obtain n d1 where t: "take_buffer d = Some (n, d1)" and more: "save_realtm_loop rpt is (saved_report rpt i n d1) = Some d'"
    unfolding save_realtm_Cons by blast
  have m: "moves h [] d [] (saved_report rpt i n d1)" by (rule moves_saved_report [OF Cons.prems(1) t Cons.prems(2)])
  moreover have "moves h [] (saved_report rpt i n d1) [] d'"
    by (rule Cons.IH [OF _ _ more]) (use m Cons.prems(2) in \<open>simp_all add: moves_def\<close>)
  ultimately show ?case by (rule moves_trans)
qed (simp add: moves_refl)

abbreviation saved_error :: "(nat \<Rightarrow> byte list) \<Rightarrow> nat \<Rightarrow> nat \<Rightarrow> gb_data \<Rightarrow> gb_data" where
  "saved_error rpt i h d \<equiv> d\<lparr>gb_errmem := (gb_errmem d)[h := (gb_errmem d ! h)\<lparr>gp_data := rpt i,
     gp_seq := word_of_nat (i + 1)\<rparr>], gb_errlst_head := Some (err_next d h)\<rparr>"

lemma save_error_Cons:
  "save_error_loop rpt (i # is) d = Some d' \<longleftrightarrow>
     (\<exists>h. gb_errlst_head d = Some h \<and> length (rpt i) \<le> 1024 \<and> save_error_loop rpt is (saved_error rpt i h d) = Some d')"
  by (auto split: option.splits if_splits)

lemma moves_save_error_loop:
  "lists_ok h d \<Longrightarrow> save_error_loop rpt is d = Some d' \<Longrightarrow> moves h [] d [] d'"
proof (induction "is" arbitrary: d)
  case (Cons i "is")
  then obtain k where more: "save_error_loop rpt is (saved_error rpt i k d) = Some d'"
    unfolding save_error_Cons by blast
  have m: "moves h [] d [] (saved_error rpt i k d)" by (rule moves_same [OF Cons.prems(1)]) simp_all
  moreover have "moves h [] (saved_error rpt i k d) [] d'"
    by (rule Cons.IH [OF _ more]) (use m in \<open>simp add: moves_def\<close>)
  ultimately show ?case by (rule moves_trans)
qed (simp add: moves_refl)

lemma flush_out_of_ring: "length (gb_errmem d) \<le> err_prev d h \<Longrightarrow> flush_error_loop t h d = None"
  by (subst flush_error_loop.simps) simp

lemma flush_stop:
  "err_prev d h < length (gb_errmem d) \<Longrightarrow> gp_data (gb_errmem d ! err_prev d h) = [] \<Longrightarrow>
   flush_error_loop t h d = Some (t, d\<lparr>gb_errlst_head := Some h\<rparr>)"
  by (subst flush_error_loop.simps) simp

abbreviation flushed_slot :: "gb_data \<Rightarrow> nat \<Rightarrow> nat \<Rightarrow> gb_data \<Rightarrow> gb_data" where
  "flushed_slot d i n d1 \<equiv> d1\<lparr>gb_datamem := (gb_datamem d1)[n := (gb_errmem d ! i)\<lparr>gp_list := Some Delay,
     gp_type := GB_RPTTYPE_DELAY\<rparr>], gb_errmem := (gb_errmem d)[i := (gb_errmem d ! i)\<lparr>gp_data := []\<rparr>]\<rparr>"

lemma flush_round:
  "err_prev d h < length (gb_errmem d) \<Longrightarrow> gp_data (gb_errmem d ! err_prev d h) \<noteq> [] \<Longrightarrow>
   flush_error_loop t h d =
     (case take_buffer d of None \<Rightarrow> None | Some (n, d1) \<Rightarrow> flush_error_loop (n # t) (err_prev d h) (flushed_slot d (err_prev d h) n d1))"
  by (subst flush_error_loop.simps) simp

lemma moves_flush_error_loop:
  "lists_ok (tmplst @ h) d \<Longrightarrow> homed d Delay tmplst \<Longrightarrow> flush_error_loop tmplst i d = Some (ns, d') \<Longrightarrow>
   moves h tmplst d ns d' \<and> homed d' Delay ns"
proof (induction tmplst i d arbitrary: ns d' rule: flush_error_loop.induct)
  case (1 tmplst i d)
  let ?j = "err_prev d i"
  have j: "\<not> length (gb_errmem d) \<le> ?j" using 1(4) flush_out_of_ring by (metis option.distinct(1))
  show ?case
  proof (cases "gp_data (gb_errmem d ! ?j) = []")
    case True
    have "moves h tmplst d tmplst (d\<lparr>gb_errlst_head := Some i\<rparr>)"
      using 1(2) by (simp add: moves_def lists_ok_def movable_def homed_def)
    moreover have "ns = tmplst" "d' = d\<lparr>gb_errlst_head := Some i\<rparr>"
      using 1(4) True j flush_stop [of d i tmplst] by simp_all
    ultimately show ?thesis using 1(3) by (simp add: homed_def)
  next
    case False
    then obtain n d1 where t: "take_buffer d = Some (n, d1)"
      and more: "flush_error_loop (n # tmplst) ?j (flushed_slot d ?j n d1) = Some (ns, d')"
      using 1(4) j flush_round [of d i tmplst] by (simp split: option.splits prod.splits)
    let ?d2 = "flushed_slot d ?j n d1"
    note t' = moves_take [OF 1(2) t]
    have m: "moves h tmplst d (n # tmplst) d1" using t' by simp
    then have "moves h (n # tmplst) d1 (n # tmplst) ?d2"
      by (intro moves_put_out) (simp add: moves_def)
    with m have m2: "moves h tmplst d (n # tmplst) ?d2" by (rule moves_trans)
    have n: "n \<notin> set tmplst" "n < length (gb_datamem d1)" using m by (auto simp: moves_def lists_ok_def)
    have "homed d1 Delay tmplst" using 1(3) t' by (simp add: homed_def)
    then have "homed ?d2 Delay (n # tmplst)"
      using n homed_update [OF n(1), of d1 _ Delay] by (simp add: homed_def)
    moreover have "lists_ok ((n # tmplst) @ h) ?d2" using m2 by (simp only: moves_def append_Cons)
    ultimately have "moves h (n # tmplst) ?d2 ns d' \<and> homed d' Delay ns"
      using 1(1) [OF j False t refl _ _ more] by blast
    then show ?thesis using moves_trans [OF m2] by simp
  qed
qed

lemma moves_delay_behind:
  assumes "lists_ok (ns @ h) d" "homed d Delay ns" "gb_groups d \<noteq> None"
  shows "moves h ns d [] (d\<lparr>gb_delay_lst := gb_delay_lst d @ ns\<rparr>)"
  using assms by (auto simp: moves_def lists_ok_def movable_def homed_def)

lemma moves_flush_error:
  assumes "lists_ok h d" "gb_groups d \<noteq> None" "gb_data_flush_error d = Some d'"
  shows "moves h [] d [] d'"
proof (cases "gb_errlst_head d")
  case (Some k)
  then obtain ns d1 where f: "flush_error_loop [] k d = Some (ns, d1)" and d': "d' = d1\<lparr>gb_delay_lst := gb_delay_lst d1 @ ns\<rparr>"
    using assms(3) by (auto simp: gb_data_flush_error_def bind_eq_Some_conv)
  have m: "moves h [] d ns d1" "homed d1 Delay ns"
    using moves_flush_error_loop [OF _ _ f, of h] assms(1) by (simp_all add: homed_def)
  then have "moves h ns d1 [] d'"
    unfolding d' using assms(2) by (intro moves_delay_behind) (simp_all add: moves_def)
  with m(1) show ?thesis by (rule moves_trans)
qed (use assms in \<open>simp add: gb_data_flush_error_def moves_refl\<close>)

text \<open>\<open>flush_realtm_loop\<close> written without the loop.\<close>

lemma flush_realtm_lists:
  "gb_delay_lst (flush_realtm_loop ns d) = gb_delay_lst d @ ns \<and> gb_realtm_lst (flush_realtm_loop ns d) = gb_realtm_lst d \<and>
   gb_free_lst (flush_realtm_loop ns d) = gb_free_lst d \<and> gb_trans_lst (flush_realtm_loop ns d) = gb_trans_lst d \<and>
   gb_groups (flush_realtm_loop ns d) = gb_groups d \<and> gb_lists (flush_realtm_loop ns d) = gb_lists d \<and> gb_errmem (flush_realtm_loop ns d) = gb_errmem d \<and>
   length (gb_datamem (flush_realtm_loop ns d)) = length (gb_datamem d)"
  by (induction ns arbitrary: d) (simp_all add: upd_pack_def Let_def)

lemma flush_realtm_mem:
  "distinct ns \<Longrightarrow> set ns \<subseteq> {..<length (gb_datamem d)} \<Longrightarrow> gb_datamem (flush_realtm_loop ns d) ! n =
     (if n \<in> set ns then (gb_datamem d ! n)\<lparr>gp_list := Some Delay, gp_type := GB_RPTTYPE_DELAY\<rparr> else gb_datamem d ! n)"
  by (induction ns arbitrary: d) (auto simp: upd_pack_def Let_def nth_list_update)

lemma moves_flush_realtm:
  assumes "lists_ok h d"
  shows "moves h [] d [] (gb_data_flush_realtm d)"
proof -
  let ?ns = "gb_realtm_lst d" and ?d = "d\<lparr>gb_realtm_lst := []\<rparr>"
  have "distinct ?ns" "set ?ns \<subseteq> {..<length (gb_datamem ?d)}"
    using assms by (auto simp: lists_ok_def movable_def)
  then have "gb_datamem (flush_realtm_loop ?ns ?d) ! n = (if n \<in> set ?ns
      then (gb_datamem d ! n)\<lparr>gp_list := Some Delay, gp_type := GB_RPTTYPE_DELAY\<rparr> else gb_datamem d ! n)" for n
    using flush_realtm_mem [of ?ns ?d n] by simp
  then show ?thesis
    using assms unfolding gb_data_flush_realtm_def
    by (auto simp: moves_def lists_ok_def movable_def homed_def flush_realtm_lists)
qed

lemma moves_periodic_warn:
  assumes "lists_ok h d" "gb_groups d \<noteq> None" "periodic_warn d = Some d'"
  shows "moves h [] d [] d'"
proof (cases "gb_warntrig d \<noteq> 0 \<and> gb_pendflag d \<noteq> 0")
  case True
  let ?w = "d\<lparr>gb_warntrig := 0, gb_times := 31\<rparr>"
  have w: "moves h [] d [] ?w" by (rule moves_same [OF assms(1)]) simp_all
  then have f: "moves h [] ?w [] (gb_data_flush_realtm ?w)" by (intro moves_flush_realtm) (simp add: moves_def)
  then have "moves h [] (gb_data_flush_realtm ?w) [] d'"
    using True assms(2,3) by (intro moves_flush_error) (simp_all add: moves_def periodic_warn_def)
  with w f show ?thesis using moves_trans by blast
next
  case False
  show ?thesis
  proof (cases "gb_warntrig d = 0")
    case True
    then show ?thesis using assms(3) moves_refl [OF assms(1)] by (simp add: periodic_warn_def)
  next
    case warned: False
    have "moves h [] d [] (d\<lparr>gb_warntrig := 0, gb_times := 31, gb_triger := 1\<rparr>)"
      by (rule moves_same [OF assms(1)]) simp_all
    then show ?thesis using assms(3) False warned by (simp add: periodic_warn_def)
  qed
qed

lemma moves_periodic_period:
  assumes "lists_ok h d" "periodic_period err groups intv d = Some (period, d')"
  shows "moves h [] d [] d'"
proof (cases "gb_times d = 0")
  case True
  then have "save_error_loop err [0..<groups] d = Some d'"
    using assms(2) by (auto simp: periodic_period_def gb_data_save_error_def bind_eq_Some_conv)
  then show ?thesis by (rule moves_save_error_loop [OF assms(1)])
next
  case False
  then have "d' = d\<lparr>gb_times := gb_times d - 1\<rparr>" using assms(2) by (simp add: periodic_period_def)
  then show ?thesis by (simp add: moves_same [OF assms(1)])
qed

lemma moves_periodic_report:
  assumes "lists_ok h d" "gb_groups d \<noteq> None" "periodic_report rpt groups period d = Some d'"
  shows "moves h [] d [] d'"
proof (cases "period \<le> gb_ticks d")
  case True
  then obtain d1 where d1: "save_realtm_loop rpt [0..<groups] (d\<lparr>gb_ticks := 0\<rparr>) = Some d1"
    and last: "(if gb_triger d1 \<noteq> 0 then gb_data_flush_error (d1\<lparr>gb_triger := 0\<rparr>) else Some d1) = Some d'"
    using assms(3) by (auto simp: periodic_report_def gb_data_save_realtm_def bind_eq_Some_conv)
  have z: "moves h [] d [] (d\<lparr>gb_ticks := 0\<rparr>)" by (rule moves_same [OF assms(1)]) simp_all
  have "moves h [] (d\<lparr>gb_ticks := 0\<rparr>) [] d1"
    by (rule moves_save_realtm_loop [OF _ _ d1]) (use z assms(2) in \<open>simp_all add: moves_def\<close>)
  with z have m: "moves h [] d [] d1" by (rule moves_trans)
  show ?thesis
  proof (cases "gb_triger d1 \<noteq> 0")
    case True
    have u: "moves h [] d1 [] (d1\<lparr>gb_triger := 0\<rparr>)" using m by (intro moves_same) (simp_all add: moves_def)
    then have "moves h [] (d1\<lparr>gb_triger := 0\<rparr>) [] d'"
      by (intro moves_flush_error) (use True last m assms(2) in \<open>simp_all add: moves_def\<close>)
    with m u show ?thesis using moves_trans by blast
  qed (use last m in simp)
qed (use assms in \<open>simp add: periodic_report_def moves_refl\<close>)

lemma moves_periodic:
  assumes ok: "lists_ok h d" "gb_groups d \<noteq> None" and p: "gb_data_periodic err rpt groups intv d = Some d'"
  shows "moves h [] d [] d'"
proof -
  obtain d1 period d2 where d: "periodic_warn d = Some d1"
    "periodic_period err groups intv (d1\<lparr>gb_ticks := gb_ticks d1 + 1\<rparr>) = Some (period, d2)"
    "periodic_report rpt groups period d2 = Some d'"
    using p by (auto simp: gb_data_periodic_def bind_eq_Some_conv)
  have 1: "moves h [] d [] d1" by (rule moves_periodic_warn [OF ok d(1)])
  have t: "moves h [] d1 [] (d1\<lparr>gb_ticks := gb_ticks d1 + 1\<rparr>)"
    using 1 by (intro moves_same) (simp_all add: moves_def)
  then have "moves h [] (d1\<lparr>gb_ticks := gb_ticks d1 + 1\<rparr>) [] d2"
    using d(2) by (intro moves_periodic_period) (simp_all add: moves_def)
  with 1 t have 2: "moves h [] d [] d2" using moves_trans by blast
  then have "moves h [] d2 [] d'" using d(3) ok(2) by (intro moves_periodic_report) (simp_all add: moves_def)
  with 2 show ?thesis by (rule moves_trans)
qed

lemma moves_can_tick:
  assumes "lists_ok h d" "gb_groups d \<noteq> None" "can_tick err rpt groups d = Some d'"
  shows "moves h [] d [] d'"
proof (cases "gb_counter d + 1 = 100")
  case True
  have z: "moves h [] d [] (d\<lparr>gb_counter := 0\<rparr>)" by (rule moves_same [OF assms(1)]) simp_all
  then have "moves h [] (d\<lparr>gb_counter := 0\<rparr>) [] d'"
    using True assms(2,3) by (intro moves_periodic) (auto simp: moves_def can_tick_def)
  with z show ?thesis by (rule moves_trans)
next
  case False
  then have "d' = d\<lparr>gb_counter := gb_counter d + 1\<rparr>" using assms(3) by (simp add: can_tick_def)
  then show ?thesis by (simp add: moves_same [OF assms(1)])
qed

lemma moves_can_datain:
  "lists_ok h d \<Longrightarrow> can_datain err rpt ms d = Some d' \<Longrightarrow> moves h [] d [] d'"
proof (induction ms arbitrary: d)
  case (Cons m ms)
  show ?case
  proof (cases "gb_groups d = None \<or> gb_canact d = 0")
    case True
    then show ?thesis using Cons.prems by (auto simp: moves_refl split: option.splits)
  next
    case False
    then obtain groups where g: "gb_groups d = Some groups" by auto
    then obtain d1 where d1: "(if can_type m = 0x54 then can_tick err rpt groups d else Some d) = Some d1"
      and more: "can_datain err rpt ms d1 = Some d'"
      using Cons.prems(2) False by (auto simp: bind_eq_Some_conv)
    have "moves h [] d [] d1"
      using moves_can_tick [OF Cons.prems(1)] moves_refl [OF Cons.prems(1)] d1 g by (cases "can_type m = 0x54") auto
    moreover from this have "moves h [] d1 [] d'" by (intro Cons.IH [OF _ more]) (simp add: moves_def)
    ultimately show ?thesis by (rule moves_trans)
  qed
qed (simp add: moves_refl)

section \<open>The other threads\<close>

text \<open>
  What the bus does to the reports, a warning, and the first description of the bus that is loaded. A
  description that replaces another is \<open>data_reload\<close>, below.
\<close>

inductive data_event :: "gb_data \<Rightarrow> gb_data \<Rightarrow> bool" where
  can: "gb_data_can_cb err rpt ev d = Some d' \<Longrightarrow> data_event d d'"
| warn: "data_event d (gb_data_warn d)"
| load: "gb_groups d = None \<Longrightarrow> data_event d (gb_data_dbc_finished groups d)"

definition keeps :: "nat list \<Rightarrow> gb_data \<Rightarrow> gb_data \<Rightarrow> bool" where
  "keeps h d d' \<longleftrightarrow> lists_ok h d' \<and> gb_trans_lst d' = gb_trans_lst d \<and>
     (\<forall>n \<in> set (h @ gb_trans_lst d). gb_datamem d' ! n = gb_datamem d ! n) \<and> (gb_groups d \<noteq> None \<longrightarrow> gb_groups d' \<noteq> None) \<and>
     (gb_lists d \<longrightarrow> gb_lists d') \<and> (made d \<longrightarrow> made d')"

lemma keeps_moves: "lists_ok h d \<Longrightarrow> moves h [] d [] d' \<Longrightarrow> keeps h d d'"
  unfolding keeps_def moves_def lists_ok_def made_def by auto

lemma moves_clear_error: "lists_ok h d \<Longrightarrow> moves h [] d [] (gb_data_clear_error d)"
  by (rule moves_same) (simp_all add: gb_data_clear_error_def split: option.splits)

lemma moves_can_cb:
  assumes "lists_ok h d" "gb_data_can_cb err rpt ev d = Some d'"
  shows "moves h [] d [] d'"
proof (cases ev)
  case CAN_EVENT_ACTIVE
  have "moves h [] d [] (d\<lparr>gb_canact := 1\<rparr>)" by (rule moves_same [OF assms(1)]) simp_all
  then show ?thesis using assms(2) CAN_EVENT_ACTIVE by simp
next
  case CAN_EVENT_WAKEUP
  then show ?thesis using assms(2) moves_refl [OF assms(1)] by simp
next
  case (CAN_EVENT_DATAIN ms)
  then show ?thesis using assms moves_can_datain by simp
next
  have off: "moves h [] d [] (d\<lparr>gb_canact := 0\<rparr>)" by (rule moves_same [OF assms(1)]) simp_all
  then have "moves h [] (d\<lparr>gb_canact := 0\<rparr>) [] (gb_data_clear_error (d\<lparr>gb_canact := 0\<rparr>))"
    by (intro moves_clear_error) (simp add: moves_def)
  with off have cleared: "moves h [] d [] (gb_data_clear_error (d\<lparr>gb_canact := 0\<rparr>))" by (rule moves_trans)
  { case CAN_EVENT_SLEEP then show ?thesis using cleared assms(2) by simp }
  { case CAN_EVENT_TIMEOUT then show ?thesis using cleared assms(2) by simp }
qed

text \<open>\<open>gb_data_clear_report\<close> takes every buffer back.\<close>

lemma lists_ok_clear_report:
  "length (gb_datamem d) = GB_MAX_REPORT \<Longrightarrow> lists_ok [] (gb_data_clear_report d)"
  by (auto simp: lists_ok_def gb_data_clear_report_def movable_def homed_def)

lemma keeps_event:
  assumes "data_event d d'" "lists_ok h d" "gb_groups d = None \<longrightarrow> h = []"
  shows "keeps h d d'"
  using assms(1)
proof cases
  case can
  then show ?thesis using keeps_moves [OF assms(2) moves_can_cb [OF assms(2)]] by simp
next
  case warn
  have "moves h [] d [] (gb_data_warn d)" by (rule moves_same [OF assms(2)]) (simp_all add: gb_data_warn_def)
  then show ?thesis using warn keeps_moves [OF assms(2)] by simp
next
  case (load groups)
  let ?d = "gb_data_dbc_finished groups d"
  have mem: "gb_datamem ?d = gb_datamem d" "gb_trans_lst ?d = []" "gb_lists ?d"
    by (simp_all add: gb_data_dbc_finished_def gb_data_clear_report_def Let_def)
  moreover have "lists_ok [] ?d"
    unfolding gb_data_dbc_finished_def Let_def
    by (rule lists_ok_clear_report) (use assms(2) in \<open>simp add: lists_ok_def\<close>)
  ultimately show ?thesis using load assms(2,3) by (simp add: keeps_def lists_ok_def made_def)
qed

lemma keeps_events:
  "data_event\<^sup>*\<^sup>* d d' \<Longrightarrow> lists_ok h d \<Longrightarrow> gb_groups d = None \<longrightarrow> h = [] \<Longrightarrow> keeps h d d'"
proof (induction rule: rtranclp_induct)
  case (step d1 d2)
  then have k: "keeps h d d1" by blast
  then have "keeps h d1 d2" using keeps_event [OF step.hyps(2)] step.prems by (auto simp: keeps_def)
  with k show ?case by (auto simp: keeps_def)
qed (simp add: keeps_def)

section \<open>Another description of the bus\<close>

text \<open>
  A description that replaces another takes every buffer back, the reports on their way included. A
  buffer in the hands of \<open>gb_do_report\<close> is in a list then, and can be put in none any more.
\<close>

inductive data_reload :: "gb_data \<Rightarrow> gb_data \<Rightarrow> bool" where
  reload: "gb_groups d \<noteq> None \<Longrightarrow> data_reload d (gb_data_dbc_finished groups d)"

definition data_any :: "gb_data \<Rightarrow> gb_data \<Rightarrow> bool" where
  "data_any d d' \<longleftrightarrow> data_event d d' \<or> data_reload d d'"

lemma reload_ok:
  assumes "data_reload d d'" "lists_ok h d"
  shows "lists_ok [] d' \<and> gb_trans_lst d' = [] \<and> gb_lists d' \<and> gb_groups d' \<noteq> None \<and> (\<forall>n < GB_MAX_REPORT. linked n d')"
proof -
  obtain groups where d': "d' = gb_data_dbc_finished groups d" using assms(1) by (auto elim: data_reload.cases)
  have "lists_ok [] d'"
    unfolding d' gb_data_dbc_finished_def Let_def
    by (rule lists_ok_clear_report) (use assms(2) in \<open>simp add: lists_ok_def\<close>)
  then show ?thesis
    by (simp add: d' gb_data_dbc_finished_def gb_data_clear_report_def Let_def linked_def)
qed

lemma linked_kept:
  assumes "data_any d d'" "lists_ok [] d" "gb_groups d \<noteq> None" "linked n d" "n < GB_MAX_REPORT"
  shows "lists_ok [] d' \<and> gb_groups d' \<noteq> None \<and> linked n d'"
proof (cases "data_reload d d'")
  case True
  then show ?thesis using reload_ok [OF True assms(2)] assms(5) by blast
next
  case False
  then have ev: "data_event d d'" using assms(1) by (simp add: data_any_def)
  have "moves [] [] d [] d'" using ev
  proof cases
    case warn
    then show ?thesis by (simp add: moves_same [OF assms(2)] gb_data_warn_def)
  qed (use moves_can_cb [OF assms(2)] assms(3) in auto)
  then have m: "lists_ok [] d'" "mset (movable d') = mset (movable d)" "gb_trans_lst d' = gb_trans_lst d" "gb_groups d' = gb_groups d"
    by (simp_all add: moves_def)
  have "set (movable d') = set (movable d)" using m(2) by (metis set_mset_mset)
  then show ?thesis using m assms(3,4) by (auto simp: linked_def movable_def)
qed

text \<open>What the buffer in hand meets when the function that has it comes back.\<close>

lemma held_or_linked:
  assumes "data_any\<^sup>*\<^sup>* d d'" "lists_ok [n] d" "gb_groups d \<noteq> None"
  shows "keeps [n] d d' \<or> lists_ok [] d' \<and> gb_groups d' \<noteq> None \<and> linked n d'"
  using assms(1)
proof (induction rule: rtranclp_induct)
  case base
  then show ?case using assms(2) by (simp add: keeps_def)
next
  case (step d1 d2)
  have n: "n < GB_MAX_REPORT" using assms(2) by (simp add: lists_ok_def)
  from step.IH show ?case
  proof
    assume k: "keeps [n] d d1"
    then have l: "lists_ok [n] d1" "gb_groups d1 \<noteq> None" using assms(3) by (simp_all add: keeps_def)
    show ?thesis
    proof (cases "data_reload d1 d2")
      case True
      then show ?thesis using reload_ok [OF True l(1)] n by blast
    next
      case False
      then have "keeps [n] d1 d2" using keeps_event step.hyps(2) l by (auto simp: data_any_def)
      then show ?thesis using k by (auto simp: keeps_def)
    qed
  qed (use linked_kept [OF step.hyps(2)] n in blast)
qed

section \<open>The client's side of the lists\<close>

lemma get_pack_ok:
  assumes "lists_ok [] d" "gb_data_get_pack d = (Some n, d1)"
  shows "lists_ok [n] d1 \<and> gb_trans_lst d1 = gb_trans_lst d \<and> gb_datamem d1 = gb_datamem d \<and>
    gb_groups d1 \<noteq> None \<and> gb_groups d1 = gb_groups d \<and> gb_lists d1 = gb_lists d \<and> gp_list (gb_datamem d ! n) \<noteq> None"
proof (cases "gb_realtm_lst d")
  case (Cons m ms)
  then show ?thesis using assms by (auto simp: gb_data_get_pack_def lists_ok_def movable_def homed_def)
next
  case Nil
  show ?thesis
  proof (cases "gb_emerg d = 0")
    case True
    then show ?thesis using assms Nil
      by (cases "gb_delay_lst d") (auto simp: gb_data_get_pack_def lists_ok_def movable_def homed_def)
  next
    case False
    then obtain ms m where "gb_delay_lst d = ms @ [m]"
      using assms(2) Nil by (cases "gb_delay_lst d" rule: rev_cases) (auto simp: gb_data_get_pack_def)
    then show ?thesis using assms Nil False by (auto simp: gb_data_get_pack_def lists_ok_def movable_def homed_def)
  qed
qed

lemma not_linked: "lists_ok (n # h) d \<Longrightarrow> \<not> linked n d"
  by (auto simp: lists_ok_def movable_def linked_def)

lemma put_send_ok:
  assumes "lists_ok [n] d" "gp_list (gb_datamem d ! n) \<noteq> None" "gb_groups d \<noteq> None"
  shows "gb_data_put_send n d = Some (d\<lparr>gb_trans_lst := gb_trans_lst d @ [n]\<rparr>) \<and> lists_ok [] (d\<lparr>gb_trans_lst := gb_trans_lst d @ [n]\<rparr>)"
  using assms not_linked [OF assms(1)] by (auto simp: lists_ok_def movable_def homed_def gb_data_put_send_def)

lemma put_back_ok:
  assumes "lists_ok [n] d" "gp_list (gb_datamem d ! n) \<noteq> None" "gb_groups d \<noteq> None"
  obtains d' where "gb_data_put_back n d = Some d'" "lists_ok [] d'" "gb_trans_lst d' = gb_trans_lst d"
    "gb_datamem d' = gb_datamem d" "gb_groups d' = gb_groups d" "gb_lists d' = gb_lists d"
proof -
  note free = not_linked [OF assms(1)]
  obtain l where l: "gp_list (gb_datamem d ! n) = Some l" using assms(2) by auto
  show thesis
  proof (cases l)
    case Realtm
    show thesis
      by (rule that [of "d\<lparr>gb_realtm_lst := n # gb_realtm_lst d\<rparr>"])
         (use assms l Realtm free in \<open>auto simp: gb_data_put_back_def lists_ok_def movable_def homed_def\<close>)
  next
    case Delay
    show thesis
      by (rule that [of "d\<lparr>gb_delay_lst := n # gb_delay_lst d\<rparr>"])
         (use assms l Delay free in \<open>auto simp: gb_data_put_back_def lists_ok_def movable_def homed_def\<close>)
  qed
qed

lemma lost_ok: "lists_ok [n] d \<Longrightarrow> lists_ok [] d"
  by (simp add: lists_ok_def)

lemma ack_ok:
  assumes "lists_ok [] d"
  shows "lists_ok [] (gb_data_ack_pack d) \<and> gb_trans_lst (gb_data_ack_pack d) = tl (gb_trans_lst d) \<and>
    gb_datamem (gb_data_ack_pack d) = gb_datamem d \<and> gb_lists (gb_data_ack_pack d) = gb_lists d"
  using assms by (cases "gb_trans_lst d") (auto simp: gb_data_ack_pack_def lists_ok_def movable_def homed_def)

abbreviation home :: "gb_data \<Rightarrow> gb_list \<Rightarrow> nat \<Rightarrow> bool" where
  "home d l n \<equiv> gp_list (gb_datamem d ! n) = Some l"

lemma flush_sending_lists:
  "\<forall>n \<in> set ns. gp_list (gb_datamem d ! n) \<noteq> None \<and> \<not> linked n d \<Longrightarrow> distinct ns \<Longrightarrow>
   flush_sending_loop ns d = Some (d\<lparr>gb_realtm_lst := rev (filter (home d Realtm) ns) @ gb_realtm_lst d,
     gb_delay_lst := rev (filter (home d Delay) ns) @ gb_delay_lst d\<rparr>)"
proof (induction ns arbitrary: d)
  case (Cons n ns)
  then obtain l where l: "gp_list (gb_datamem d ! n) = Some l" by auto
  have n: "\<not> linked n d" "distinct ns" "n \<notin> set ns" using Cons.prems by simp_all
  show ?case
  proof (cases l)
    case Realtm
    have "\<forall>m \<in> set ns. gp_list (gb_datamem d ! m) \<noteq> None \<and> \<not> linked m (d\<lparr>gb_realtm_lst := n # gb_realtm_lst d\<rparr>)"
      using Cons.prems(1) n(3) by (auto simp: linked_def)
    then show ?thesis using Cons.IH [of "d\<lparr>gb_realtm_lst := n # gb_realtm_lst d\<rparr>"] n l Realtm by (simp add: gb_data_put_back_def)
  next
    case Delay
    have "\<forall>m \<in> set ns. gp_list (gb_datamem d ! m) \<noteq> None \<and> \<not> linked m (d\<lparr>gb_delay_lst := n # gb_delay_lst d\<rparr>)"
      using Cons.prems(1) n(3) by (auto simp: linked_def)
    then show ?thesis using Cons.IH [of "d\<lparr>gb_delay_lst := n # gb_delay_lst d\<rparr>"] n l Delay by (simp add: gb_data_put_back_def)
  qed
qed simp

lemma flush_sending_ok:
  assumes "lists_ok [] d"
  shows "gb_data_flush_sending d = Some (d\<lparr>gb_trans_lst := [],
    gb_realtm_lst := filter (home d Realtm) (gb_trans_lst d) @ gb_realtm_lst d,
    gb_delay_lst := filter (home d Delay) (gb_trans_lst d) @ gb_delay_lst d\<rparr>)"
  unfolding gb_data_flush_sending_def
  by (subst flush_sending_lists) (use assms in \<open>auto simp: lists_ok_def movable_def linked_def rev_filter\<close>)

lemma flush_sending_lists_ok:
  assumes "lists_ok [] d" "gb_data_flush_sending d = Some d'"
  shows "lists_ok [] d' \<and> gb_trans_lst d' = [] \<and> gb_datamem d' = gb_datamem d \<and> gb_groups d' = gb_groups d \<and>
    gb_lists d' = gb_lists d"
proof -
  have d': "d' = d\<lparr>gb_trans_lst := [], gb_realtm_lst := filter (home d Realtm) (gb_trans_lst d) @ gb_realtm_lst d,
      gb_delay_lst := filter (home d Delay) (gb_trans_lst d) @ gb_delay_lst d\<rparr>"
    using assms(2) flush_sending_ok [OF assms(1)] by simp
  show ?thesis unfolding d' using assms(1) by (auto simp: lists_ok_def movable_def homed_def)
qed

end
