(* ===== verification/GbRuns.thy ===== *)
theory GbRuns
  imports GbInv "HOL-Library.Sublist"
begin

text \<open>
  Runs of the telematics thread beside the threads of the bus and of the socket: a step relation at the
  grain of the calls of \<open>gb_main\<close>, and what holds in every state it reaches.
\<close>

section \<open>Runs\<close>

text \<open>
  A state is the calls left of the round and the data. The labels tell what a step is; \<open>Data\<close> is an event
  of the bus, \<open>Reload\<close> a description of the bus that replaces another, \<open>Finish\<close> the end of the thread that
  connects, \<open>Service\<close> a message of another module.
\<close>

datatype gb_act = Message gb_msg | Call gb_call | Data | Reload | Finish | Service

definition gb_env_ok :: "gb_env \<Rightarrow> bool" where
  "gb_env_ok e \<longleftrightarrow> (\<forall>d d'. ev_during e d = Some d' \<longrightarrow> data_any\<^sup>*\<^sup>* d d')"

inductive gb_step :: "gb_act \<Rightarrow> gb_call list \<times> gb \<Rightarrow> gb_call list \<times> gb \<Rightarrow> bool" where
  message: "gb_step (Message msg) ([], g) (round_calls, gb_message e msg g)"
| call: "gb_env_ok e \<Longrightarrow> gb_call_step c e g = Some (res, g') \<Longrightarrow>
    gb_step (Call c) (c # cs, g) (if res \<noteq> 0 then [] else cs, g')"
| data: "data_event (g_dat g) d \<Longrightarrow> gb_step Data (pc, g) (pc, g\<lparr>g_dat := d\<rparr>)"
| reload: "data_reload (g_dat g) d \<Longrightarrow> gb_step Reload (pc, g) (pc, g\<lparr>g_dat := d\<rparr>)"
| finish: "sk_stat (g_sock g) = SOCK_STAT_INPROG \<Longrightarrow> stat = SOCK_STAT_OPENED \<or> stat = SOCK_STAT_CLOSED \<Longrightarrow>
    gb_step Finish (pc, g) (pc, g\<lparr>g_sock := sock_finish stat (g_sock g)\<rparr>)"
| service: "gb_step Service (pc, g) (pc, snd (gb32960_ServiceMsgSend e msg g))"

inductive_cases gb_stepE: "gb_step a (pc, g) (pc', g')"

definition gb_any :: "gb_call list \<times> gb \<Rightarrow> gb_call list \<times> gb \<Rightarrow> bool" where
  "gb_any x y \<longleftrightarrow> (\<exists>a. gb_step a x y)"

definition plain_step :: "gb_call list \<times> gb \<Rightarrow> gb_call list \<times> gb \<Rightarrow> bool" where
  "plain_step x y \<longleftrightarrow> (\<exists>a. a \<noteq> Reload \<and> gb_step a x y)"

lemma plain_any: "plain_step\<^sup>*\<^sup>* x y \<Longrightarrow> gb_any\<^sup>*\<^sup>* x y"
  by (rule rtranclp_mono [THEN predicate2D]) (auto simp: plain_step_def gb_any_def)

text \<open>The states that are reached; the configuration and the state of the socket's memory at start are any.\<close>

definition gb_reach :: "gb_call list \<Rightarrow> gb \<Rightarrow> bool" where
  "gb_reach pc g \<longleftrightarrow> (\<exists>url port vin regintv reginf timeout intv s.
     gb_any\<^sup>*\<^sup>* ([], gb_start url port vin regintv reginf timeout (gb_data_start intv) s) (pc, g))"

text \<open>A round run without a break is a run.\<close>

lemma gb_calls_steps:
  "\<forall>c. gb_env_ok (es c) \<Longrightarrow> gb_calls es cs g = Some g' \<Longrightarrow> plain_step\<^sup>*\<^sup>* (cs, g) ([], g')"
proof (induction cs arbitrary: g)
  case (Cons c cs)
  then obtain res g1 where c: "gb_call_step c (es c) g = Some (res, g1)"
    and more: "(if res \<noteq> 0 then Some g1 else gb_calls es cs g1) = Some g'"
    by (auto simp: bind_eq_Some_conv)
  have s: "plain_step (c # cs, g) (if res \<noteq> 0 then [] else cs, g1)"
    unfolding plain_step_def using gb_step.call [OF _ c] Cons.prems(1) by blast
  show ?case
  proof (cases "res = 0")
    case True
    then have "plain_step\<^sup>*\<^sup>* (cs, g1) ([], g')" using more Cons.IH [OF Cons.prems(1)] by simp
    then show ?thesis using s True by (simp add: converse_rtranclp_into_rtranclp)
  qed (use s more in auto)
qed simp

lemma gb_round_steps:
  assumes "\<forall>c. gb_env_ok (es c)" "gb_round e msg es g = Some g'"
  shows "plain_step\<^sup>*\<^sup>* ([], g) ([], g')"
proof -
  have "plain_step ([], g) (round_calls, gb_message e msg g)" unfolding plain_step_def using gb_step.message by blast
  moreover have "plain_step\<^sup>*\<^sup>* (round_calls, gb_message e msg g) ([], g')"
    using gb_calls_steps [OF assms(1)] assms(2) by (simp add: gb_round_def)
  ultimately show ?thesis by (rule converse_rtranclp_into_rtranclp)
qed

section \<open>The reports and the socket\<close>

text \<open>The length of the message of a report.\<close>

definition report_len :: "gb \<Rightarrow> nat \<Rightarrow> int" where
  "report_len g n = int (length (gb_pack_report (gb_datamem (g_dat g) ! n) g))"

text \<open>
  The socket's record of the messages still to be acknowledged ends in the reports sent; if \<open>x\<close>, there is
  nothing before them. A description that is loaded while reports are on their way takes them back, but
  their messages stay in the record.
\<close>

definition matched :: "bool \<Rightarrow> gb \<Rightarrow> bool" where
  "matched x g \<longleftrightarrow> (\<exists>ys. (x \<longrightarrow> ys = []) \<and> pending (g_sock g) = ys @ map (report_len g) (gb_trans_lst (g_dat g)))"

definition link_ok :: "bool \<Rightarrow> gb \<Rightarrow> bool" where
  "link_ok x g \<longleftrightarrow> sock_ok (g_sock g) \<and> lists_ok [] (g_dat g) \<and> sk_stat (g_sock g) \<noteq> SOCK_STAT_UNUSED \<and>
     (gs_online (g_st g) \<noteq> 0 \<longrightarrow> sk_stat (g_sock g) = SOCK_STAT_OPENED \<and> gb_allow_sleep g = 0 \<and> gs_login (g_st g) \<noteq> 0 \<and>
        matched x g) \<and>
     (gs_online (g_st g) = 0 \<and> sk_stat (g_sock g) \<noteq> SOCK_STAT_CLOSED \<longrightarrow> pending (g_sock g) = []) \<and>
     (gs_wait (g_st g) = PROT_LOGIN \<longrightarrow> gs_online (g_st g) = 0) \<and>
     (gs_login (g_st g) = 0 \<or> gs_wait (g_st g) = PROT_LOGOUT \<longrightarrow> gb_trans_lst (g_dat g) = []) \<and>
     (gs_login (g_st g) \<noteq> 0 \<longrightarrow> gb_lists (g_dat g)) \<and> made (g_dat g)"

definition conn_ok :: "bool \<Rightarrow> gb \<Rightarrow> bool" where
  "conn_ok x g \<longleftrightarrow> link_ok x g \<and> sk_stat (g_sock g) = SOCK_STAT_OPENED \<and> gb_allow_sleep g = 0"

lemma link_reset: "link_ok x g \<Longrightarrow> link_ok x (gb_reset g)"
  by (auto simp: link_ok_def gb_reset_def upd_st_def sock_ok_def sock_close_def PROT_LOGIN_def PROT_LOGOUT_def)

lemma link_weaken: "link_ok x g \<Longrightarrow> (y \<longrightarrow> x) \<Longrightarrow> link_ok y g"
  unfolding link_ok_def matched_def by blast

lemma link_offline: "link_ok x g \<Longrightarrow> gs_online (g_st g) = 0 \<Longrightarrow> link_ok y g"
  unfolding link_ok_def by simp

lemma gb_reset_simps [simp]:
  "g_dat (gb_reset g) = g_dat g" "gb_allow_sleep (gb_reset g) = gb_allow_sleep g" "gb_vin (gb_reset g) = gb_vin g"
  "g_sock (gb_reset g) = sock_close (g_sock g)" "gs_online (g_st (gb_reset g)) = 0" "gs_wait (g_st (gb_reset g)) = 0"
  "g_sent (gb_reset g) = g_sent g" "gs_login (g_st (gb_reset g)) = gs_login (g_st g)"
  by (simp_all add: gb_reset_def upd_st_def)

lemma upd_st_simps [simp]:
  "g_st (upd_st f g) = f (g_st g)" "g_dat (upd_st f g) = g_dat g" "g_sock (upd_st f g) = g_sock g"
  "gb_allow_sleep (upd_st f g) = gb_allow_sleep g" "gb_vin (upd_st f g) = gb_vin g" "g_sent (upd_st f g) = g_sent g"
  "g_conntime (upd_st f g) = g_conntime g" "gb_port (upd_st f g) = gb_port g" "gb_url (upd_st f g) = gb_url g"
  by (simp_all add: upd_st_def)

lemma report_len_cong:
  "gb_datamem (g_dat g') ! n = gb_datamem (g_dat g) ! n \<Longrightarrow> gb_vin g' = gb_vin g \<Longrightarrow> report_len g' n = report_len g n"
  by (simp add: report_len_def gb_pack_report_def gb_pack_head_def)

text \<open>The invariant looks at a part of the state only.\<close>

lemma matched_cong:
  assumes "g_sock g' = g_sock g" "gb_vin g' = gb_vin g" "gb_trans_lst (g_dat g') = gb_trans_lst (g_dat g)"
    "\<forall>n \<in> set (gb_trans_lst (g_dat g)). gb_datamem (g_dat g') ! n = gb_datamem (g_dat g) ! n"
  shows "matched x g' = matched x g"
proof -
  have "map (report_len g') (gb_trans_lst (g_dat g)) = map (report_len g) (gb_trans_lst (g_dat g))"
    by (intro map_cong refl report_len_cong) (use assms(2,4) in auto)
  then show ?thesis unfolding matched_def assms(1,3) by (simp only:)
qed

lemma link_ok_cong:
  assumes "link_ok x g" "g_sock g' = g_sock g" "gb_vin g' = gb_vin g" "lists_ok [] (g_dat g')"
    "gs_online (g_st g') = gs_online (g_st g)"
    "gs_wait (g_st g') = gs_wait (g_st g) \<or> (gs_wait (g_st g') = PROT_LOGIN \<longrightarrow> gs_online (g_st g) = 0) \<and>
       (gs_wait (g_st g') = PROT_LOGOUT \<longrightarrow> gb_trans_lst (g_dat g) = [])"
    "gs_login (g_st g') = gs_login (g_st g)"
    "gb_allow_sleep g' = gb_allow_sleep g \<or> gs_online (g_st g) = 0" "gb_trans_lst (g_dat g') = gb_trans_lst (g_dat g)"
    "gb_lists (g_dat g) \<longrightarrow> gb_lists (g_dat g')" "made (g_dat g')"
    "\<forall>n \<in> set (gb_trans_lst (g_dat g)). gb_datamem (g_dat g') ! n = gb_datamem (g_dat g) ! n"
  shows "link_ok x g'"
proof -
  have m: "matched x g' = matched x g" by (rule matched_cong) (use assms in simp_all)
  have "gs_online (g_st g) = 0" if "gs_wait (g_st g') = PROT_LOGIN"
    using assms(1,6) that unfolding link_ok_def by auto
  moreover have "gb_allow_sleep g' = 0" if "gs_online (g_st g) \<noteq> 0" using assms(1,8) that unfolding link_ok_def by auto
  moreover have "gb_trans_lst (g_dat g) = []" if "gs_wait (g_st g') = PROT_LOGOUT"
    using assms(1,6) that unfolding link_ok_def by auto
  ultimately show ?thesis
    using assms(1,10,11) m unfolding link_ok_def by (simp add: assms(2,4,5,7,9))
qed

lemma link_data:
  assumes "link_ok x g" "keeps [] (g_dat g) d"
  shows "link_ok x (g\<lparr>g_dat := d\<rparr>)"
  by (rule link_ok_cong [OF assms(1)]) (use assms in \<open>simp_all add: keeps_def link_ok_def\<close>)

text \<open>After a reload the record may hold messages whose reports are forgotten.\<close>

lemma link_reload:
  assumes "link_ok x g" "data_reload (g_dat g) d"
  shows "link_ok False (g\<lparr>g_dat := d\<rparr>)"
proof -
  have l: "lists_ok [] (g_dat g)" using assms(1) by (simp add: link_ok_def)
  show ?thesis using assms(1) reload_ok [OF assms(2) l] unfolding link_ok_def by (simp add: matched_def made_def)
qed

lemma sock_send_keeps:
  "sk_stat (snd (sock_send now all_sent len sync s)) = sk_stat s" "sk_type (snd (sock_send now all_sent len sync s)) = sk_type s"
  by (auto simp: sock_send_def Let_def)

text \<open>A message that asks for no report of its acknowledgement.\<close>

lemma pending_plain: "sk_type s = SOCK_TYPE_SYNCTCP \<Longrightarrow> pending (snd (sock_send now all_sent len False s)) = pending s"
  by (auto simp: sock_send_def pending_def Let_def)

lemma link_plain_send:
  assumes "link_ok x g" "gb_sock_send e buf False g = (res, g')"
  shows "link_ok x g' \<and> g_st g' = g_st g \<and> g_dat g' = g_dat g \<and> gb_allow_sleep g' = gb_allow_sleep g \<and>
    sk_stat (g_sock g') = sk_stat (g_sock g) \<and> gb_vin g' = gb_vin g"
proof -
  obtain s where s: "sock_send (ev_now e) (ev_allsent e) (int (length buf)) False (g_sock g) = (res, s)"
    and g': "g' = g\<lparr>g_sock := s, g_sent := g_sent g @ (if 0 < res then [buf] else [])\<rparr>"
    using assms(2) by (auto simp: gb_sock_send_def split: prod.splits)
  have so: "sock_ok (g_sock g)" "sk_type (g_sock g) = SOCK_TYPE_SYNCTCP" using assms(1) by (simp_all add: link_ok_def sock_ok_def)
  have s_ok: "sock_ok s" "sk_stat s = sk_stat (g_sock g)" "pending s = pending (g_sock g)"
    using sock_send_ok [OF so(1), of "ev_now e" "ev_allsent e" "int (length buf)" False]
      sock_send_keeps(1) [of "ev_now e" "ev_allsent e" "int (length buf)" False "g_sock g"]
      pending_plain [OF so(2), of "ev_now e" "ev_allsent e" "int (length buf)"] s by simp_all
  have "report_len g' = report_len g" by (rule ext, rule report_len_cong) (simp_all add: g')
  then have m: "matched x g' = matched x g" by (simp add: matched_def g' s_ok(3))
  show ?thesis using assms(1) s_ok m unfolding link_ok_def by (simp add: g')
qed

lemma link_checksock:
  assumes "link_ok x g" "gb_do_checksock e g = (res, g')"
  shows "link_ok x g' \<and> (res = 0 \<longrightarrow> conn_ok x g')"
proof -
  consider (same) "res = -1" "g' = g"
    | (opens) "res = -1" "sk_stat (g_sock g) = SOCK_STAT_CLOSED"
        "g' = g\<lparr>g_sock := snd (sock_open (ev_thread e) (g_sock g)), g_conntime := ev_after e\<rparr>"
    | (broken) "res = -1" "g' = gb_reset g"
    | (synced) res1 g1 where "gb_sync e g = (res1, g1)" "sk_stat (g_sock g) = SOCK_STAT_OPENED" "gb_allow_sleep g = 0"
        "(res, g') = (if res1 \<noteq> 0 then (-1, gb_reset g1) else (0, g1))"
  proof (cases "gs_network (g_st g) = 0 \<or> gb_port g = 0 \<or> gb_url g = [] \<or> gb_allow_sleep g \<noteq> 0 \<or>
      sk_stat (g_sock g) \<noteq> SOCK_STAT_OPENED \<or> sock_error (ev_err e) (g_sock g) \<noteq> 0")
    case True
    then have "res = -1 \<and> (g' = g \<or> g' = gb_reset g \<or> sk_stat (g_sock g) = SOCK_STAT_CLOSED \<and>
        g' = g\<lparr>g_sock := snd (sock_open (ev_thread e) (g_sock g)), g_conntime := ev_after e\<rparr>)"
      using assms(2) unfolding gb_do_checksock_def sock_status_def by (elim disjE) (simp_all split: if_splits)
    then show thesis using same opens broken by blast
  next
    case False
    obtain res1 g1 where s: "gb_sync e g = (res1, g1)" by fastforce
    show thesis by (rule synced [OF s]) (use False s assms(2) in \<open>simp_all add: gb_do_checksock_def sock_status_def split: if_splits\<close>)
  qed
  then show ?thesis
  proof cases
    case same
    then show ?thesis using assms(1) by simp
  next
    case opens
    have off: "gs_online (g_st g) = 0" "sk_type (g_sock g) = SOCK_TYPE_SYNCTCP"
      using assms(1) opens(2) by (auto simp: link_ok_def sock_ok_def)
    let ?s = "snd (sock_open (ev_thread e) (g_sock g))"
    have "sock_ok ?s" "sk_stat ?s \<noteq> SOCK_STAT_UNUSED" "sk_stat ?s \<noteq> SOCK_STAT_CLOSED \<longrightarrow> pending ?s = []"
      using assms(1) opens(2) off(2) sock_open_ok [of "g_sock g" "ev_thread e"]
      by (simp_all add: link_ok_def) (simp_all add: sock_open_def sock_cleanup_def pending_def)
    then have "link_ok x g'" using assms(1) off(1) unfolding link_ok_def by (simp add: opens(3))
    then show ?thesis using opens(1) by simp
  next
    case broken
    then show ?thesis using link_reset [OF assms(1)] by simp
  next
    case synced
    obtain called s where s: "sock_sync (ev_unack e) (g_sock g) = (res1, called, s)"
      and g1: "g1 = (if called then g\<lparr>g_sock := s, g_dat := gb_data_ack_pack (g_dat g)\<rparr> else g\<lparr>g_sock := s\<rparr>)"
      using synced(1) by (auto simp: gb_sync_def Let_def split: prod.splits)
    have ok: "sock_ok (g_sock g)" "lists_ok [] (g_dat g)" using assms(1) by (simp_all add: link_ok_def)
    have s_ok: "sock_ok s" "sk_stat s = SOCK_STAT_OPENED"
      using sock_sync_ok [OF ok(1), of "ev_unack e"] s synced(2)
      by (simp, auto simp: sock_sync_def split: if_splits option.splits list.splits)
    have none: "\<not> called \<and> pending s = []" if "pending (g_sock g) = []"
      using pending_sync [of "g_sock g" "ev_unack e"] s that by (auto split: if_splits)
    have len: "report_len g1 = report_len g"
      by (rule ext, rule report_len_cong) (use ack_ok [OF ok(2)] in \<open>simp_all add: g1\<close>)
    have mem: "g_st g1 = g_st g" "gb_allow_sleep g1 = gb_allow_sleep g" "g_sock g1 = s" "lists_ok [] (g_dat g1)"
        "gb_trans_lst (g_dat g1) = (if called then tl (gb_trans_lst (g_dat g)) else gb_trans_lst (g_dat g))"
        "gb_lists (g_dat g1) = gb_lists (g_dat g)" "gb_groups (g_dat g1) = gb_groups (g_dat g)"
      using ack_ok [OF ok(2)] ok(2) by (simp_all add: g1 gb_data_ack_pack_def split: list.splits)
    have "link_ok x g1"
    proof (cases "gs_online (g_st g) = 0")
      case True
      then have "\<not> called" "pending s = []" using assms(1) synced(2) none by (simp_all add: link_ok_def)
      then show ?thesis using assms(1) s_ok True mem unfolding link_ok_def made_def by simp
    next
      case False
      then obtain ys where ys: "x \<longrightarrow> ys = []" "pending (g_sock g) = ys @ map (report_len g) (gb_trans_lst (g_dat g))"
        using assms(1) by (auto simp: link_ok_def matched_def)
      from sync_sock.acked_matches [OF ok(1) ys(2) s]
      have "matched x g1" unfolding matched_def len mem(3,5) using ys(1) by blast
      then show ?thesis using assms(1) s_ok False mem unfolding link_ok_def made_def by auto
    qed
    then show ?thesis using synced(3,4) s_ok(2) link_reset by (auto simp: conn_ok_def g1 split: if_splits)
  qed
qed


lemma link_upd:
  assumes "link_ok x g" "gs_online (f (g_st g)) = gs_online (g_st g)" "gs_wait (f (g_st g)) = gs_wait (g_st g) \<or> gs_wait (f (g_st g)) = 0"
    "gs_login (f (g_st g)) = gs_login (g_st g)"
  shows "link_ok x (upd_st f g)"
proof -
  have "lists_ok [] (g_dat g)" "made (g_dat g)" using assms(1) by (simp_all add: link_ok_def)
  then show ?thesis by (intro link_ok_cong [OF assms(1)]) (use assms(2-4) in \<open>auto simp: PROT_LOGIN_def PROT_LOGOUT_def\<close>)
qed

text \<open>Sending a message, with what follows from its result.\<close>

lemma link_send_then:
  assumes "link_ok x g" "gb_sock_send e buf False g = (res, g2)" "gs_wait (f (g_st g)) \<noteq> PROT_LOGIN \<or> gs_online (g_st g) = 0"
    "gs_wait (f (g_st g)) \<noteq> PROT_LOGOUT \<or> gb_trans_lst (g_dat g) = []"
    "gs_online (f (g_st g)) = gs_online (g_st g)" "gs_login (f (g_st g)) = gs_login (g_st g)"
  shows "link_ok x (if res < 0 then gb_reset g2 else if res = 0 then g2 else upd_st f g2)"
proof -
  note s = link_plain_send [OF assms(1,2)]
  have g2: "link_ok x g2" "g_st g2 = g_st g" "g_dat g2 = g_dat g" using s by simp_all
  then have l: "lists_ok [] (g_dat g)" "made (g_dat g)" unfolding link_ok_def by simp_all
  have w: "(gs_wait (f (g_st g)) = PROT_LOGIN \<longrightarrow> gs_online (g_st g) = 0) \<and>
      (gs_wait (f (g_st g)) = PROT_LOGOUT \<longrightarrow> gb_trans_lst (g_dat g) = [])"
    using assms(3,4) by blast
  have "link_ok x (upd_st f g2)" by (rule link_ok_cong [OF g2(1)]) (simp_all add: g2 l w assms(5,6))
  then show ?thesis using s link_reset by simp
qed

lemma link_login_pack:
  assumes "link_ok x g" "gs_online (g_st g) = 0" "gb_pack_login e g = (buf, g1)"
  shows "link_ok x g1 \<and> g_st g1 = g_st g \<and> g_sock g1 = g_sock g \<and> gb_allow_sleep g1 = gb_allow_sleep g \<and> g_dat g1 = g_dat g"
proof -
  have same: "g_st g1 = g_st g" "g_sock g1 = g_sock g" "gb_allow_sleep g1 = gb_allow_sleep g" "g_dat g1 = g_dat g" "gb_vin g1 = gb_vin g"
    using assms(3) by (auto simp: gb_pack_login_def Let_def)
  then have "link_ok x g1" by (intro link_ok_cong [OF assms(1)]) (use assms(1) in \<open>auto simp: link_ok_def\<close>)
  with same show ?thesis by simp
qed

text \<open>A logout ends the session; no report is on its way then.\<close>

lemma link_logged_out:
  assumes "link_ok x g" "gs_wait (g_st g) = PROT_LOGOUT"
  shows "link_ok x (gb_reset (upd_st (\<lambda>s. s\<lparr>gs_login := 0\<rparr>) (g\<lparr>gb_allow_sleep := 1\<rparr>)))"
    "link_ok x (upd_st (\<lambda>s. s\<lparr>gs_login := 0\<rparr>) ((gb_reset g)\<lparr>gb_allow_sleep := 1\<rparr>))"
  using link_reset [OF assms(1)] assms unfolding link_ok_def by (auto simp: PROT_LOGIN_def PROT_LOGOUT_def)

lemma link_wait:
  assumes "conn_ok x g" "gb_do_wait e g = (res, g')"
  shows "link_ok x g' \<and> (res = 0 \<longrightarrow> conn_ok x g' \<and> g' = g \<and> gs_wait (g_st g) = 0)"
proof (cases "gs_wait (g_st g) = 0 \<or> \<not> GB_SERVR_TIMEOUT g < ev_now e - gs_waittime (g_st g)")
  case True
  then show ?thesis using assms by (cases "gs_wait (g_st g) = 0") (auto simp: gb_do_wait_def conn_ok_def)
next
  case False
  have ok: "link_ok x g" using assms(1) by (simp add: conn_ok_def)
  have res: "res = -1" using assms(2) False by (simp add: gb_do_wait_def)
  let ?g1 = "upd_st (\<lambda>s. s\<lparr>gs_retry := gs_retry s + 1\<rparr>) g"
  have ok1: "link_ok x ?g1" by (rule link_upd [OF ok]) simp_all
  have "link_ok x g'"
  proof (cases "gs_wait (g_st g) = PROT_LOGIN")
    case True
    then have "g' = gb_reset (upd_st (\<lambda>s. s\<lparr>gs_wait := 0\<rparr>) g)" using assms(2) False by (simp add: gb_do_wait_def)
    moreover have "link_ok x (upd_st (\<lambda>s. s\<lparr>gs_wait := 0\<rparr>) g)" by (rule link_upd [OF ok]) (simp_all add: PROT_LOGIN_def)
    ultimately show ?thesis using link_reset by simp
  next
    case notlogin: False
    show ?thesis
    proof (cases "3 < gs_retry (g_st g) + 1")
      case True
      have "gs_wait (g_st ?g1) = PROT_LOGOUT \<Longrightarrow>
          link_ok x (gb_reset (upd_st (\<lambda>s. s\<lparr>gs_login := 0\<rparr>) (?g1\<lparr>gb_allow_sleep := 1\<rparr>)))"
        by (rule link_logged_out(1) [OF ok1])
      then show ?thesis using assms(2) False notlogin True link_reset [OF ok1]
        by (simp add: gb_do_wait_def Let_def split: if_splits)
    next
      case again: False
      obtain r g2 where s: "gb_sock_send e (gb_pack_logout e ?g1) False ?g1 = (r, g2)" by fastforce
      have "link_ok x (if r < 0 then gb_reset g2 else if r = 0 then g2 else upd_st (\<lambda>s. s\<lparr>gs_waittime := ev_after e\<rparr>) g2)"
        by (rule link_send_then [OF ok1 s]) (use notlogin ok1 in \<open>auto simp: link_ok_def\<close>)
      then show ?thesis using assms(2) False notlogin again s ok1
        by (simp add: gb_do_wait_def Let_def split: if_splits)
    qed
  qed
  with res show ?thesis by simp
qed

lemma link_login:
  assumes "conn_ok x g" "gb_do_login e g = (res, g')"
  shows "link_ok x g' \<and> (res = 0 \<longrightarrow> conn_ok x g' \<and> gs_online (g_st g') \<noteq> 0 \<and> g' = g)"
proof (cases "gs_online (g_st g) \<noteq> 0 \<or> \<not> (gs_waittime (g_st g) = 0 \<or> GB_LOGIN_INTV g < ev_now e - gs_waittime (g_st g))")
  case True
  then show ?thesis using assms by (cases "gs_online (g_st g) = 0") (auto simp: gb_do_login_def conn_ok_def)
next
  case False
  obtain buf g1 where p: "gb_pack_login e g = (buf, g1)" by fastforce
  obtain r g2 where s: "gb_sock_send e buf False g1 = (r, g2)" by fastforce
  have ok: "link_ok x g1" "g_st g1 = g_st g" using link_login_pack [where x = x, OF _ _ p] assms(1) False by (simp_all add: conn_ok_def)
  have "link_ok x (if r < 0 then gb_reset g2 else if r = 0 then g2
      else upd_st (\<lambda>s. s\<lparr>gs_wait := PROT_LOGIN, gs_waittime := ev_after e\<rparr>) g2)"
    by (rule link_send_then [OF ok(1) s]) (use False ok(2) in \<open>simp_all add: PROT_LOGIN_def PROT_LOGOUT_def\<close>)
  then show ?thesis using assms(2) False p s by (auto simp: gb_do_login_def Let_def split: if_splits)
qed

lemma link_suspend:
  assumes "conn_ok x g" "gb_do_suspend g = (res, g')"
  shows "link_ok x g' \<and> (res = 0 \<longrightarrow> g' = g)"
  using assms link_reset by (auto simp: gb_do_suspend_def conn_ok_def split: if_splits)

lemma link_logout:
  assumes "conn_ok x g" "gs_online (g_st g) \<noteq> 0" "gb_do_logout e g = (res, g')"
  shows "link_ok x g'"
proof (cases "gs_can (g_st g) = 0 \<and> gb_data_nosending (g_dat g)")
  case True
  obtain r g1 where s: "gb_sock_send e (gb_pack_logout e g) False g = (r, g1)" by fastforce
  have "link_ok x (if r < 0 then gb_reset g1 else if r = 0 then g1
      else upd_st (\<lambda>s. s\<lparr>gs_wait := PROT_LOGOUT, gs_waittime := ev_after e\<rparr>) g1)"
    by (rule link_send_then [OF _ s]) (use assms(1) True in \<open>simp_all add: conn_ok_def gb_data_nosending_def PROT_LOGIN_def PROT_LOGOUT_def\<close>)
  then show ?thesis using assms(3) True s by (auto simp: gb_do_logout_def)
qed (use assms in \<open>auto simp: gb_do_logout_def conn_ok_def\<close>)

lemma pack_report_nonempty [simp]: "gb_pack_report p g \<noteq> []"
  by (simp add: gb_pack_report_def gb_seal_def)

text \<open>The report is put back, after other threads have run.\<close>

lemma link_put_back:
  assumes "link_ok x g" "keeps [n] (g_dat g) d" "gp_list (gb_datamem d ! n) \<noteq> None" "gb_groups d \<noteq> None"
    "gb_data_put_back n d = Some d2"
  shows "link_ok x (g\<lparr>g_dat := d2\<rparr>)"
proof -
  obtain d' where "gb_data_put_back n d = Some d'" "lists_ok [] d'" "gb_trans_lst d' = gb_trans_lst d"
    "gb_datamem d' = gb_datamem d" "gb_lists d' = gb_lists d" "gb_groups d' = gb_groups d"
    by (rule put_back_ok [OF _ assms(3,4)]) (use assms(2) in \<open>simp_all add: keeps_def\<close>)
  then show ?thesis using assms(1,2,5)
    by (intro link_ok_cong [OF assms(1)]) (simp_all add: keeps_def link_ok_def made_def)
qed

lemma link_put_send:
  assumes "link_ok x g" "gs_online (g_st g) \<noteq> 0" "gs_wait (g_st g) = 0" "keeps [n] (g_dat g) d" "gp_list (gb_datamem d ! n) \<noteq> None"
    "gb_groups d \<noteq> None" "sock_send now all_sent (report_len g n) True (g_sock g) = (r, s)" "0 < r" "gb_data_put_send n d = Some d2"
  shows "link_ok x (g\<lparr>g_sock := s, g_sent := y, g_dat := d2\<rparr>)"
proof -
  have l: "lists_ok [n] d" using assms(4) by (simp add: keeps_def)
  have d2: "d2 = d\<lparr>gb_trans_lst := gb_trans_lst d @ [n]\<rparr>" "lists_ok [] d2"
    using put_send_ok [OF l assms(5,6)] assms(9) by simp_all
  let ?g = "g\<lparr>g_sock := s, g_sent := y, g_dat := d2\<rparr>"
  obtain ys where ok: "sock_ok (g_sock g)" "pending (g_sock g) = ys @ map (report_len g) (gb_trans_lst (g_dat g))" "x \<longrightarrow> ys = []"
      "sk_stat (g_sock g) = SOCK_STAT_OPENED"
    using assms(1,2) by (auto simp: link_ok_def matched_def)
  have "pending s = ys @ map (report_len g) (gb_trans_lst (g_dat g) @ [n])"
    using sync_sock.sent_matches [OF ok(1,2), of "(now, all_sent)" n] assms(7,8) by simp
  also have "map (report_len g) (gb_trans_lst (g_dat g) @ [n]) = map (report_len ?g) (gb_trans_lst (g_dat g) @ [n])"
    by (intro map_cong refl report_len_cong) (use assms(4) in \<open>auto simp: keeps_def d2(1)\<close>)
  finally have p: "matched x ?g"
    using assms(4) ok(3) by (auto simp: matched_def d2(1) keeps_def)
  have "sock_ok s" "sk_stat s = SOCK_STAT_OPENED"
    using sock_send_ok [OF ok(1), of now all_sent "report_len g n" True] ok(4) assms(7)
      sock_send_keeps(1) [of now all_sent "report_len g n" True "g_sock g"] by simp_all
  then show ?thesis using p d2(2) assms(1-4) unfolding link_ok_def
    by (simp add: PROT_LOGIN_def PROT_LOGOUT_def) (simp add: d2(1) keeps_def made_def)
qed

text \<open>
  What \<open>gb_do_report\<close> does when it returns: nothing, the loss of a report that does not fit, or a report
  that is sent or put back. If a description was loaded meanwhile it does not return.
\<close>

lemma report_cases:
  assumes "lists_ok [] (g_dat g)" "gb_env_ok e" "gb_do_report e g = Some (res, g')"
  obtains (idle) "res = 0" "g' = g"
  | (lost) n d where "gb_data_get_pack (g_dat g) = (Some n, d)" "res = 0" "g' = g\<lparr>g_dat := d\<rparr>"
  | (sent) n d d2 r s y where "keeps [n] (g_dat g) d" "gp_list (gb_datamem d ! n) \<noteq> None" "gb_groups d \<noteq> None"
      "sock_send (ev_now e) (ev_allsent e) (report_len g n) True (g_sock g) = (r, s)" "0 < r"
      "gb_data_put_send n d = Some d2" "res = 0" "g' = g\<lparr>g_sock := s, g_sent := y, g_dat := d2\<rparr>"
  | (undone) n d d2 where "keeps [n] (g_dat g) d" "gp_list (gb_datamem d ! n) \<noteq> None" "gb_groups d \<noteq> None"
      "gb_data_put_back n d = Some d2" "res = 0 \<and> g' = g\<lparr>g_dat := d2\<rparr> \<or> res = -1 \<and> g' = gb_reset (g\<lparr>g_dat := d2\<rparr>)"
proof -
  obtain x d where get: "gb_data_get_pack (g_dat g) = (x, d)" by fastforce
  show thesis
  proof (cases x)
    case None
    then show thesis using assms get idle by (simp add: gb_do_report_def)
  next
    case (Some n)
    note out = get_pack_ok [OF assms(1) get [unfolded Some]]
    show thesis
    proof (cases "1280 + GB_SOCKET_RSVD \<le> word_of_int (sock_bufsz (ev_bufsz e) (ev_unack e) (g_sock g))")
      case False
      then have "res = 0" "g' = g\<lparr>g_dat := d\<rparr>" using assms(3) get Some by (simp_all add: gb_do_report_def)
      then show thesis using lost get Some by blast
    next
      case True
      let ?buf = "gb_pack_report (gb_datamem d ! n) g"
      obtain d1 r s where during: "ev_during e d = Some d1"
        and send: "sock_send (ev_now e) (ev_allsent e) (int (length ?buf)) True (g_sock g) = (r, s)"
        using assms(3) get Some True by (auto simp: gb_do_report_def bind_eq_Some_conv) (metis surj_pair)
      have len: "int (length ?buf) = report_len g n" using out by (simp add: report_len_def)
      let ?g1 = "g\<lparr>g_dat := d1, g_sock := s, g_sent := g_sent g @ (if 0 < r then [?buf] else [])\<rparr>"
      have step: "(if r < 0 then do { d2 \<leftarrow> gb_data_put_back n d1; Some (-1, gb_reset (?g1\<lparr>g_dat := d2\<rparr>)) }
            else if r = 0 then do { d2 \<leftarrow> gb_data_put_back n d1; Some (0, ?g1\<lparr>g_dat := d2\<rparr>) }
            else do { d2 \<leftarrow> gb_data_put_send n d1; Some (0, ?g1\<lparr>g_dat := d2\<rparr>) }) = Some (res, g')"
        using assms(3) get Some True during send
        by (simp add: gb_do_report_def gb_sock_send_def cong: if_cong)
      have "\<not> linked n d1" using step by (auto simp: gb_data_put_back_def gb_data_put_send_def split: if_splits)
      moreover have "data_any\<^sup>*\<^sup>* d d1" using assms(2) during by (simp add: gb_env_ok_def)
      ultimately have k1: "keeps [n] d d1" using held_or_linked [of d d1 n] out by blast
      then have k: "keeps [n] (g_dat g) d1" using out by (auto simp: keeps_def made_def)
      have home: "gp_list (gb_datamem d1 ! n) \<noteq> None" "gb_groups d1 \<noteq> None"
        using k1 out by (auto simp: keeps_def)
      show thesis
      proof (cases "0 < r")
        case True
        then obtain d2 where "gb_data_put_send n d1 = Some d2" "res = 0"
            "g' = g\<lparr>g_sock := s, g_sent := g_sent g @ [?buf], g_dat := d2\<rparr>"
          using step by (auto simp: bind_eq_Some_conv)
        then show thesis using sent [OF k home _ True] send len by metis
      next
        case False
        then have s: "s = g_sock g" using send send_refused [of "ev_now e" "ev_allsent e" "int (length ?buf)" True "g_sock g"]
          by simp
        then have g1: "?g1\<lparr>g_dat := d2\<rparr> = g\<lparr>g_dat := d2\<rparr>" for d2 using False by simp
        obtain d2 where "gb_data_put_back n d1 = Some d2"
          "(res, g') = (if r < 0 then (-1, gb_reset (g\<lparr>g_dat := d2\<rparr>)) else (0, g\<lparr>g_dat := d2\<rparr>))"
          using step False unfolding g1 by (auto simp: bind_eq_Some_conv split: if_splits)
        then show thesis using undone [OF k home] by (auto split: if_splits)
      qed
    qed
  qed
qed

lemma link_report:
  assumes "conn_ok x g" "gs_online (g_st g) \<noteq> 0" "gs_wait (g_st g) = 0" "gb_env_ok e" "gb_do_report e g = Some (res, g')"
  shows "link_ok x g' \<and> (res = 0 \<longrightarrow> conn_ok x g' \<and> g_st g' = g_st g)"
proof -
  have ok: "link_ok x g" "sk_stat (g_sock g) = SOCK_STAT_OPENED" "gb_allow_sleep g = 0" "lists_ok [] (g_dat g)"
    using assms(1) by (simp_all add: conn_ok_def link_ok_def)
  from ok(4) assms(4,5) show ?thesis
  proof (cases rule: report_cases)
    case idle
    then show ?thesis using assms(1) by (simp add: conn_ok_def)
  next
    case (lost n d)
    note out = get_pack_ok [OF ok(4) lost(1)]
    have "link_ok x (g\<lparr>g_dat := d\<rparr>)"
      by (rule link_ok_cong [OF ok(1)]) (use out lost_ok [of n d] ok(1) in \<open>auto simp: link_ok_def made_def\<close>)
    then show ?thesis using lost ok by (simp add: conn_ok_def)
  next
    case (sent n d d2 r s y)
    have "sk_stat s = SOCK_STAT_OPENED"
      using sent(4) sock_send_keeps(1) [of "ev_now e" "ev_allsent e" "report_len g n" True "g_sock g"] ok(2) by simp
    then show ?thesis using link_put_send [OF ok(1) assms(2,3) sent(1-6)] sent(7,8) ok(3) by (simp add: conn_ok_def)
  next
    case (undone n d d2)
    note link_put_back [OF ok(1) undone(1-4)]
    then show ?thesis using undone(5) link_reset ok by (auto simp: conn_ok_def)
  qed
qed

section \<open>Packets and messages\<close>

text \<open>The receiver touches its own fields only.\<close>

definition rcv_frame :: "gb_stat_t \<Rightarrow> gb_stat_t \<Rightarrow> bool" where
  "rcv_frame s s' \<longleftrightarrow> gs_online s' = gs_online s \<and> gs_wait s' = gs_wait s \<and> gs_can s' = gs_can s \<and>
     gs_login s' = gs_login s \<and> gs_suspend s' = gs_suspend s \<and> gs_network s' = gs_network s \<and> gs_retry s' = gs_retry s \<and>
     gs_waittime s' = gs_waittime s \<and> gs_caltime s' = gs_caltime s"

lemma rcv_frame_trans: "rcv_frame s s' \<Longrightarrow> rcv_frame s' s'' \<Longrightarrow> rcv_frame s s''"
  by (simp add: rcv_frame_def)

lemma head_seen_frame: "head_seen s input = Some s' \<Longrightarrow> rcv_frame s s'"
  by (auto simp: head_seen_def rcv_frame_def split: list.splits if_splits)

lemma store_byte_frame: "store_byte x s = Some s' \<Longrightarrow> rcv_frame s s'"
  by (auto simp: store_byte_def rcv_frame_def split: if_splits)

lemma rcv_step_frame: "rcv_frame s (snd (rcv_step x s))"
  by (simp add: rcv_step_def rcv_frame_def Let_def)

lemma makeup_frame: "gb_makeup_pack s input len rlen = Some (r, u, s') \<Longrightarrow> rcv_frame s s'"
proof (induction len arbitrary: s input rlen)
  case (Suc len)
  then obtain s1 s2 where h: "head_seen s input = Some s1" "store_byte (hd input) s1 = Some s2"
    and **: "(let (complete, s3) = rcv_step (hd input) s2
      in if complete then Some (0, rlen + 1, s3) else gb_makeup_pack s3 (tl input) len (rlen + 1)) = Some (r, u, s')"
    by (auto simp only: gb_makeup_pack.simps bind_eq_Some_conv)
  obtain c s3 where c: "rcv_step (hd input) s2 = (c, s3)" by fastforce
  have "rcv_frame s s3"
    using head_seen_frame [OF h(1)] store_byte_frame [OF h(2)] rcv_step_frame [of s2 "hd input"] c
    by (metis rcv_frame_trans snd_conv)
  then show ?case using ** c Suc.IH rcv_frame_trans by (cases c) auto
qed (simp add: rcv_frame_def)

lemma link_frame:
  assumes "link_ok x g" "rcv_frame (g_st g) s"
  shows "link_ok x (g\<lparr>g_st := s\<rparr>)"
  by (rule link_ok_cong [OF assms(1)]) (use assms in \<open>simp_all add: rcv_frame_def link_ok_def\<close>)

lemma link_login_ack:
  assumes "conn_ok x g" "gb_login_ack ack g = Some (res, g')"
  shows "conn_ok x g' \<and> res = 0"
proof (cases "gs_wait (g_st g) = PROT_LOGIN \<and> ack = 1")
  case False
  let ?g1 = "upd_st (\<lambda>s. s\<lparr>gs_wait := 0\<rparr>) g"
  have "res = 0 \<and> (g' = g \<or> g' = ?g1)" using assms(2) False by (auto simp: gb_login_ack_def split: if_splits)
  moreover have "conn_ok x ?g1" using assms(1) link_upd [of x g "\<lambda>s. s\<lparr>gs_wait := 0\<rparr>"] by (simp add: conn_ok_def PROT_LOGIN_def)
  ultimately show ?thesis using assms(1) by auto
next
  case True
  have ok: "lists_ok [] (g_dat g)" "sk_stat (g_sock g) = SOCK_STAT_OPENED" "gb_allow_sleep g = 0" "sock_ok (g_sock g)"
      "pending (g_sock g) = []" "gs_login (g_st g) \<noteq> 0 \<longrightarrow> gb_lists (g_dat g)"
    using assms(1) True by (auto simp: conn_ok_def link_ok_def)
  obtain d where d: "lists_ok [] d" "gb_trans_lst d = []" "gb_lists d" and g': "res = 0" "g_dat g' = d" "g_sock g' = g_sock g"
      "gb_allow_sleep g' = gb_allow_sleep g" "gs_online (g_st g') = 1" "gs_wait (g_st g') = 0" "gs_login (g_st g') \<noteq> 0"
  proof (cases "gs_login (g_st g) = 0")
    case fresh: True
    let ?d = "gb_data_clear_error (gb_data_clear_report (g_dat g))"
    have c: "lists_ok [] (gb_data_clear_report (g_dat g))"
      using ok(1) by (intro lists_ok_clear_report) (simp add: lists_ok_def)
    have d: "lists_ok [] ?d" "gb_trans_lst ?d = []" "gb_lists ?d"
      using moves_clear_error [OF c] by (simp_all add: moves_def) (simp_all add: gb_data_clear_report_def)
    show thesis
      by (rule that [OF d]) (use assms(2) True fresh in \<open>auto simp: gb_login_ack_def Let_def\<close>)
  next
    case again: False
    obtain d1 where d1: "gb_data_flush_sending (g_dat g) = Some d1"
      using flush_sending_ok [OF ok(1)] by simp
    note f = flush_sending_lists_ok [OF ok(1) d1]
    have d: "lists_ok [] (gb_data_flush_realtm d1)" "gb_trans_lst (gb_data_flush_realtm d1) = []"
        "gb_lists (gb_data_flush_realtm d1)"
      using moves_flush_realtm [of "[]" d1] f ok(6) again by (simp_all add: moves_def)
    show thesis
      by (rule that [OF d]) (use assms(2) True again d1 in \<open>auto simp: gb_login_ack_def Let_def\<close>)
  qed
  then show ?thesis using ok by (simp add: conn_ok_def link_ok_def matched_def made_def PROT_LOGIN_def PROT_LOGOUT_def)
qed

lemma link_logout_ack:
  assumes "conn_ok x g" "gb_logout_ack ack g = (res, g')"
  shows "link_ok x g' \<and> (res = 0 \<longrightarrow> conn_ok x g')"
proof (cases "gs_wait (g_st g) \<noteq> PROT_LOGOUT \<or> ack \<noteq> 1")
  case True
  then show ?thesis using assms by (auto simp: gb_logout_ack_def conn_ok_def)
next
  case False
  then have "link_ok x (upd_st (\<lambda>s. s\<lparr>gs_login := 0\<rparr>) ((gb_reset g)\<lparr>gb_allow_sleep := 1\<rparr>))"
    using assms(1) by (intro link_logged_out(2)) (simp_all add: conn_ok_def)
  then show ?thesis using assms(2) False by (auto simp: gb_logout_ack_def)
qed

lemma link_caltime_ack:
  assumes "conn_ok x g" "gb_caltime_ack ack g = (res, g')"
  shows "conn_ok x g' \<and> res = 0"
proof -
  have "link_ok x (upd_st (\<lambda>s. s\<lparr>gs_wait := 0, gs_caltime := 0\<rparr>) g)"
    by (rule link_upd) (use assms(1) in \<open>simp_all add: conn_ok_def PROT_LOGIN_def\<close>)
  then show ?thesis using assms by (auto simp: gb_caltime_ack_def conn_ok_def split: if_splits)
qed

lemma link_packet:
  assumes "conn_ok x g" "gb_packet g = Some (res, g')"
  shows "link_ok x g' \<and> (res = 0 \<longrightarrow> conn_ok x g')"
proof -
  let ?ack = "gs_rcvbuf (g_st g) ! 3"
  have "gb_login_ack ?ack g = Some (res, g') \<or> gb_logout_ack ?ack g = (res, g') \<or> gb_caltime_ack ?ack g = (res, g') \<or>
      res = 0 \<and> g' = g"
    using assms(2)
    by (simp add: gb_packet_def Let_def gb_handle_query_def gb_handle_setup_def gb_handle_control_def split: if_splits)
  then show ?thesis
    using link_login_ack [OF assms(1)] link_logout_ack [OF assms(1)] link_caltime_ack [OF assms(1)] assms(1)
    by (fastforce simp: conn_ok_def)
qed


lemma link_receive_loop:
  "conn_ok x g \<Longrightarrow> receive_loop input rlen g = Some (res, g') \<Longrightarrow> link_ok x g' \<and> (res = 0 \<longrightarrow> conn_ok x g')"
proof (induction input rlen g rule: receive_loop.induct)
  case (1 input rlen g)
  show ?case
  proof (cases "rlen = 0")
    case True
    then show ?thesis using 1(2,3) by (subst (asm) receive_loop.simps) (simp add: conn_ok_def)
  next
    case False
    obtain r u s where m: "gb_makeup_pack (g_st g) input rlen 0 = Some (r, u, s)"
      using 1(3) False by (subst (asm) receive_loop.simps) (auto split: option.splits)
    let ?g1 = "g\<lparr>g_st := s\<rparr>"
    have ok: "conn_ok x ?g1" using 1(2) link_frame [OF _ makeup_frame [OF m]] by (simp add: conn_ok_def)
    show ?thesis
    proof (cases "r = 0")
      case incomplete: False
      then have "res = 0 \<and> g' = ?g1" using 1(3) False m by (subst (asm) receive_loop.simps) simp
      then show ?thesis using ok by (simp add: conn_ok_def)
    next
      case complete: True
      obtain ret g2 where p: "gb_packet ?g1 = Some (ret, g2)"
        using 1(3) False m complete by (subst (asm) receive_loop.simps) (auto split: option.splits)
      have rest: "(if ret \<noteq> 0 then Some (ret, g2) else receive_loop (drop u input) (rlen - u) g2) = Some (res, g')"
        using 1(3) False m complete p by (subst (asm) receive_loop.simps) simp
      note ok2 = link_packet [OF ok p]
      show ?thesis
      proof (cases "ret = 0")
        case True
        then have "receive_loop (drop u input) (rlen - u) g2 = Some (res, g')" "conn_ok x g2" using rest ok2 by simp_all
        then show ?thesis using 1(1) [OF False m refl refl _ p refl] complete True by blast
      qed (use rest ok2 in auto)
    qed
  qed
qed

lemma link_receive:
  assumes "conn_ok x g" "gb_do_receive e g = Some (res, g')"
  shows "link_ok x g' \<and> (res = 0 \<longrightarrow> conn_ok x g')"
proof -
  obtain r again array where r: "ev_recv e = (r, again, array)" by (metis prod_cases3)
  show ?thesis
  proof (cases "sock_recv r again (g_sock g) < 0")
    case True
    then have "res = -1" "g' = gb_reset g" using assms(2) r by (simp_all add: gb_do_receive_def)
    then show ?thesis using assms(1) link_reset by (simp add: conn_ok_def)
  next
    case False
    then have "receive_loop array (nat (sock_recv r again (g_sock g))) g = Some (res, g')"
      using assms(2) r by (simp add: gb_do_receive_def)
    then show ?thesis by (rule link_receive_loop [OF assms(1)])
  qed
qed

lemma link_config:
  assumes "link_ok x g"
  shows "link_ok x (snd (gb_do_config e cfg g))"
proof -
  have r: "link_ok x (gb_reset (g\<lparr>gb_url := url, gb_port := port\<rparr>))" for url port
    by (rule link_reset, rule link_ok_cong [OF assms]) (use assms in \<open>simp_all add: link_ok_def\<close>)
  have v: "link_ok x (gb_reset (g\<lparr>gb_vin := vin\<rparr>))" for vin
  proof -
    have "link_ok x (gb_reset g)" by (rule link_reset [OF assms])
    then show ?thesis unfolding link_ok_def by (simp add: PROT_LOGIN_def PROT_LOGOUT_def)
  qed
  have p: "link_ok x (g\<lparr>gb_regintv := v\<rparr>)" "link_ok x (g\<lparr>gb_timeout := v\<rparr>)" for v
    by (rule link_ok_cong [OF assms]; use assms in \<open>simp add: link_ok_def\<close>)+
  have d: "link_ok x (g\<lparr>g_dat := gb_data_set_intv v (g_dat g)\<rparr>)" for v
    by (rule link_ok_cong [OF assms])
       (use assms in \<open>simp_all add: link_ok_def gb_data_set_intv_def lists_ok_def movable_def homed_def made_def\<close>)
  show ?thesis using r v p d assms by (cases cfg) (simp_all add: gb_do_config_def)
qed

lemma link_message:
  assumes "link_ok x g"
  shows "link_ok x (gb_message e msg g)"
proof -
  have d: "link_ok x (g\<lparr>g_dat := gb_data_emergence v (g_dat g)\<rparr>)" "link_ok x (g\<lparr>g_dat := gb_data_set_pendflag v (g_dat g)\<rparr>)" for v
    by (rule link_ok_cong [OF assms];
        use assms in \<open>simp add: link_ok_def gb_data_emergence_def gb_data_set_pendflag_def lists_ok_def movable_def homed_def made_def\<close>)+
  have u: "link_ok x (upd_st f y)" if "link_ok x y" "gs_online (f (g_st y)) = gs_online (g_st y)" "gs_wait (f (g_st y)) = gs_wait (g_st y)"
      "gs_login (f (g_st y)) = gs_login (g_st y)"
    for f y by (rule link_upd) (simp_all add: that)
  have a: "link_ok x (g\<lparr>gb_allow_sleep := v\<rparr>)" if "v = 0 \<or> gs_online (g_st g) = 0" for v
    using assms that matched_cong [of "g\<lparr>gb_allow_sleep := v\<rparr>" g x] unfolding link_ok_def by auto
  show ?thesis
  proof (cases msg)
    case GB_MSG_CANOFF
    then show ?thesis using u [OF a] by (simp add: gb_message_def)
  next
    case (GB_MSG_CONFIG cfg)
    then show ?thesis using link_config [OF assms] by (simp add: gb_message_def)
  qed (simp_all add: gb_message_def u a d assms link_reset)
qed

section \<open>What holds in every reachable state\<close>

text \<open>
  Between the calls: past the first call of a round the socket is open and sleep is not allowed, past
  third no answer is awaited, and past the fourth the unit is logged in.
\<close>

definition gb_inv :: "bool \<Rightarrow> gb_call list \<Rightarrow> gb \<Rightarrow> bool" where
  "gb_inv x pc g \<longleftrightarrow> link_ok x g \<and> suffix pc round_calls \<and> (pc \<noteq> [] \<and> pc \<noteq> round_calls \<longrightarrow> conn_ok x g) \<and>
     (pc \<noteq> [] \<and> suffix pc [Login, Suspend, Report, Logout] \<longrightarrow> gs_wait (g_st g) = 0) \<and>
     (pc \<noteq> [] \<and> suffix pc [Suspend, Report, Logout] \<longrightarrow> gs_online (g_st g) \<noteq> 0)"

lemma suffix_round_calls:
  "suffix pc round_calls \<longleftrightarrow> pc \<in> {[], [Logout], [Report, Logout], [Suspend, Report, Logout], [Login, Suspend, Report, Logout],
     [Wait, Login, Suspend, Report, Logout], [Receive, Wait, Login, Suspend, Report, Logout], round_calls}"
  by (auto simp: suffix_Cons)

lemma inv_call:
  assumes "gb_inv x (c # cs) g" "gb_env_ok e" "gb_call_step c e g = Some (res, g')"
  shows "gb_inv x (if res \<noteq> 0 then [] else cs) g'"
proof -
  have l: "link_ok x g" and conn: "c \<noteq> Checksock \<Longrightarrow> conn_ok x g"
    and waits: "c \<in> {Login, Suspend, Report, Logout} \<Longrightarrow> gs_wait (g_st g) = 0"
    and online: "c \<in> {Suspend, Report, Logout} \<Longrightarrow> gs_online (g_st g) \<noteq> 0"
    using assms(1) by (auto simp: gb_inv_def suffix_round_calls suffix_Cons)
  have cs: "suffix (c # cs) round_calls" using assms(1) by (simp add: gb_inv_def)
  have goal: "link_ok x g' \<and> (res = 0 \<and> c \<noteq> Logout \<longrightarrow> conn_ok x g') \<and>
      (res = 0 \<and> c \<in> {Wait, Login, Suspend, Report} \<longrightarrow> gs_wait (g_st g') = 0) \<and>
      (res = 0 \<and> c \<in> {Login, Suspend, Report} \<longrightarrow> gs_online (g_st g') \<noteq> 0)"
  proof (cases c)
    case Checksock
    then show ?thesis using link_checksock [OF l] assms(3) by (simp add: gb_call_step_def)
  next
    case Receive
    then show ?thesis using link_receive [OF conn] assms(3) by (simp add: gb_call_step_def)
  next
    case Wait
    then show ?thesis using link_wait [OF conn] assms(3) by (auto simp: gb_call_step_def)
  next
    case Login
    then show ?thesis using link_login [OF conn] waits assms(3) by (auto simp: gb_call_step_def)
  next
    case Suspend
    then show ?thesis using link_suspend [OF conn] conn waits online assms(3) by (auto simp: gb_call_step_def)
  next
    case Report
    then show ?thesis using link_report [OF conn online waits assms(2)] online waits assms(3) by (auto simp: gb_call_step_def)
  next
    case Logout
    then show ?thesis using link_logout [OF conn online] assms(3) by (simp add: gb_call_step_def)
  qed
  show ?thesis
    using goal cs by (auto simp: gb_inv_def suffix_round_calls suffix_Cons)
qed

lemma inv_link: "gb_inv x pc g \<Longrightarrow> link_ok x g" by (simp add: gb_inv_def)

lemma inv_upd:
  assumes "gb_inv x pc g" "link_ok y g'" "g_st g' = g_st g" "sk_stat (g_sock g') = sk_stat (g_sock g)"
    "gb_allow_sleep g' = gb_allow_sleep g"
  shows "gb_inv y pc g'"
  using assms by (auto simp: gb_inv_def conn_ok_def)


lemma inv_step:
  assumes "gb_step a (pc, g) (pc', g')" "gb_inv x pc g"
  shows "gb_inv (x \<and> a \<noteq> Reload) pc' g'"
  using assms(1)
proof cases
  case (message msg e)
  then show ?thesis using link_message [OF inv_link [OF assms(2)]] by (simp add: gb_inv_def suffix_Cons)
next
  case (call e c res cs)
  then show ?thesis using inv_call [of x c cs g e res g'] assms(2) by simp
next
  case (data d)
  have "keeps [] (g_dat g) d"
    by (rule keeps_event [OF data(4)]) (use assms(2) in \<open>simp_all add: gb_inv_def link_ok_def\<close>)
  then have "link_ok x g'" using data link_data [OF inv_link [OF assms(2)]] by simp
  then show ?thesis using data inv_upd [OF assms(2)] by simp
next
  case (reload d)
  then have "link_ok False g'" using link_reload [OF inv_link [OF assms(2)]] by simp
  then show ?thesis using reload inv_upd [OF assms(2)] by simp
next
  case (finish stat)
  have l: "link_ok x g" by (rule inv_link [OF assms(2)])
  then have off: "gs_online (g_st g) = 0" using finish(4) by (auto simp: link_ok_def)
  have "sock_ok (sock_finish stat (g_sock g))" using l finish(4,5) by (intro sock_finish_ok) (simp_all add: link_ok_def)
  moreover have "pending (sock_finish stat (g_sock g)) = []" "sk_stat (sock_finish stat (g_sock g)) \<noteq> SOCK_STAT_UNUSED"
    using l off finish(4,5) by (auto simp: link_ok_def sock_finish_def Let_def pending_def)
  ultimately have "link_ok x g'" using l off finish unfolding link_ok_def by simp
  moreover have "pc = [] \<or> pc = round_calls" using assms(2) finish(4) by (auto simp: gb_inv_def conn_ok_def)
  ultimately show ?thesis using finish by (auto simp: gb_inv_def suffix_Cons)
next
  case (service e msg)
  obtain res g1 where s: "gb_sock_send e msg False g = (res, g1)" by fastforce
  then have g': "g' = g1" using service by (simp add: gb32960_ServiceMsgSend_def)
  note link_plain_send [OF inv_link [OF assms(2)] s]
  then show ?thesis using g' service inv_upd [OF assms(2)] by simp
qed

lemma inv_start: "gb_inv x [] (gb_start url port vin regintv reginf timeout (gb_data_start intv) s)"
  by (simp add: gb_inv_def link_ok_def gb_start_def sock_create_def sock_ok_def gb_data_start_def lists_ok_def movable_def
      homed_def made_def PROT_LOGIN_def PROT_LOGOUT_def)

lemma inv_weaken: "gb_inv x pc g \<Longrightarrow> (y \<longrightarrow> x) \<Longrightarrow> gb_inv y pc g"
  using link_weaken unfolding gb_inv_def conn_ok_def by blast

lemma inv_steps: "gb_any\<^sup>*\<^sup>* x y \<Longrightarrow> gb_inv False (fst x) (snd x) \<Longrightarrow> gb_inv False (fst y) (snd y)"
proof (induction rule: rtranclp_induct)
  case (step y z)
  then show ?case using inv_step [of _ "fst y" "snd y" "fst z" "snd z" False] by (auto simp: gb_any_def)
qed simp

lemma inv_plain_steps: "plain_step\<^sup>*\<^sup>* x y \<Longrightarrow> gb_inv True (fst x) (snd x) \<Longrightarrow> gb_inv True (fst y) (snd y)"
proof (induction rule: rtranclp_induct)
  case (step y z)
  then obtain a where "a \<noteq> Reload" "gb_step a (fst y, snd y) (fst z, snd z)" by (auto simp: plain_step_def)
  then show ?case using inv_step [of a "fst y" "snd y" "fst z" "snd z" True] step by simp
qed simp

lemma reach_inv: "gb_reach pc g \<Longrightarrow> gb_inv False pc g"
  using inv_steps inv_start unfolding gb_reach_def by fastforce

text \<open>
  A run without a reload from a state in which the unit is not logged in: the record of the socket is
  that of the reports sent.
\<close>

definition run_without_reload :: "gb_call list \<Rightarrow> gb \<Rightarrow> bool" where
  "run_without_reload pc g \<longleftrightarrow> (\<exists>pc0 g0. gb_reach pc0 g0 \<and> gs_online (g_st g0) = 0 \<and> plain_step\<^sup>*\<^sup>* (pc0, g0) (pc, g))"

lemma offline_inv: "gb_inv x pc g \<Longrightarrow> gs_online (g_st g) = 0 \<Longrightarrow> gb_inv y pc g"
  using link_offline unfolding gb_inv_def conn_ok_def by blast

lemma plain_inv: "run_without_reload pc g \<Longrightarrow> gb_inv True pc g"
  unfolding run_without_reload_def using inv_plain_steps reach_inv offline_inv by fastforce

text \<open>The lists are made wherever a buffer is taken out of one of them.\<close>

lemma lists_made:
  assumes "gb_reach pc g" "gs_login (g_st g) \<noteq> 0 \<or> gb_groups (g_dat g) \<noteq> None \<or> hd pc = Report \<and> pc \<noteq> [] \<or> gb_trans_lst (g_dat g) \<noteq> []"
  shows "gb_lists (g_dat g)"
proof -
  have i: "gb_inv False pc g" by (rule reach_inv [OF assms(1)])
  then have "link_ok False g" by (simp add: gb_inv_def)
  then have l: "gs_login (g_st g) \<noteq> 0 \<longrightarrow> gb_lists (g_dat g)" "gs_online (g_st g) \<noteq> 0 \<longrightarrow> gs_login (g_st g) \<noteq> 0"
      "gb_groups (g_dat g) = None \<or> gb_lists (g_dat g)" "gs_login (g_st g) = 0 \<longrightarrow> gb_trans_lst (g_dat g) = []"
    by (simp_all add: link_ok_def made_def)
  have pc: "suffix pc round_calls" "pc \<noteq> [] \<and> suffix pc [Suspend, Report, Logout] \<longrightarrow> gs_online (g_st g) \<noteq> 0"
    using i by (simp_all add: gb_inv_def)
  have "pc = [Report, Logout]" if "pc \<noteq> []" "hd pc = Report" using pc(1) that by (auto simp: suffix_round_calls)
  then have "pc \<noteq> [] \<and> hd pc = Report \<longrightarrow> gs_online (g_st g) \<noteq> 0" using pc(2) by (auto simp: suffix_Cons)
  then show ?thesis using assms(2) l by argo
qed

lemma reach_step: "gb_reach pc g \<Longrightarrow> gb_any (pc, g) (pc', g') \<Longrightarrow> gb_reach pc' g'"
  unfolding gb_reach_def by (meson rtranclp.rtrancl_into_rtrancl)

lemma reach_plain: "gb_reach pc g \<Longrightarrow> plain_step\<^sup>*\<^sup>* (pc, g) (pc', g') \<Longrightarrow> gb_reach pc' g'"
  unfolding gb_reach_def using plain_any by (meson rtranclp_trans)

lemma run_reach: "run_without_reload pc g \<Longrightarrow> gb_reach pc g"
  unfolding run_without_reload_def using reach_plain by blast

lemma run_plain: "run_without_reload pc g \<Longrightarrow> plain_step\<^sup>*\<^sup>* (pc, g) (pc', g') \<Longrightarrow> run_without_reload pc' g'"
  unfolding run_without_reload_def by (meson rtranclp_trans)

end
