(* ===== verification/GbFrame.thy ===== *)
theory GbFrame
  imports GbProt
begin

text \<open>
  The receiver of \<open>gb_makeup_pack\<close>: a packet of the server is recognised whatever the pieces it comes in,
  as long as no piece ends in the header character; the packets it cannot hold.
\<close>

section \<open>The packets of the server\<close>

text \<open>A packet with \<open>n\<close> bytes of data that has the header only at its start.\<close>

definition server_packet :: "byte list \<Rightarrow> nat \<Rightarrow> bool" where
  "server_packet p n \<longleftrightarrow> length p = 25 + n \<and> 1 \<le> n \<and> n \<le> 999 \<and> p ! 0 = 0x23 \<and> p ! 1 = 0x23 \<and>
     unat (p ! 22) * 256 + unat (p ! 23) = n \<and> (\<forall>i \<in> {1..<24 + n}. p ! i = 0x23 \<longrightarrow> p ! (i + 1) \<noteq> 0x23)"

text \<open>The receiver after the first \<open>k\<close> bytes.\<close>

definition rcv_at :: "byte list \<Rightarrow> nat \<Rightarrow> nat \<Rightarrow> gb_stat_t \<Rightarrow> bool" where
  "rcv_at p n k s \<longleftrightarrow> length (gs_rcvbuf s) = 1024 \<and>
     (0 < k \<longrightarrow> gs_rcvlen s = k \<and> take k (gs_rcvbuf s) = take k p \<and>
        gs_datalen s = (if k \<le> 22 then 0 else if k = 23 then unat (p ! 22) else n) \<and>
        gs_rcvstep s = (if k < 22 then 0 else if k < 24 then 1 else if k < 24 + n then 2 else 3))"

lemma take_store:
  "take k xs = take k p \<Longrightarrow> k < length xs \<Longrightarrow> k < length p \<Longrightarrow> take (Suc k) (xs[k := p ! k]) = take (Suc k) p"
  by (simp add: take_Suc_conv_app_nth)

text \<open>One byte, where no header begins, or the first one.\<close>

abbreviation rcv_start :: "nat \<Rightarrow> gb_stat_t \<Rightarrow> gb_stat_t" where
  "rcv_start k s \<equiv> (if k = 0 then s\<lparr>gs_rcvlen := 0, gs_datalen := 0, gs_rcvstep := 0\<rparr> else s)"

lemma rcv_store:
  assumes "server_packet p n" "rcv_at p n k s" "k < 25 + n"
  obtains s2 where "store_byte (p ! k) (rcv_start k s) = Some s2" "length (gs_rcvbuf s2) = 1024" "gs_rcvlen s2 = k + 1"
    "take (k + 1) (gs_rcvbuf s2) = take (k + 1) p"
    "gs_rcvstep s2 = (if k < 22 then 0 else if k < 24 then 1 else if k < 24 + n then 2 else 3)"
    "gs_datalen s2 = (if k \<le> 22 then 0 else if k = 23 then unat (p ! 22) else n)"
proof -
  let ?s1 = "rcv_start k s"
  let ?s2 = "?s1\<lparr>gs_rcvbuf := (gs_rcvbuf s)[k := p ! k], gs_rcvlen := k + 1\<rparr>"
  have p: "length p = 25 + n" "n \<le> 999" using assms(1) by (simp_all add: server_packet_def)
  show thesis
  proof (rule that [of ?s2])
    show "store_byte (p ! k) ?s1 = Some ?s2"
      using assms(2,3) p by (cases "k = 0") (simp_all add: rcv_at_def store_byte_def)
    show "take (k + 1) (gs_rcvbuf ?s2) = take (k + 1) p"
      using assms(2,3) p take_store [of k "gs_rcvbuf s" p] by (cases "k = 0") (simp_all add: rcv_at_def)
  qed (use assms(2) in \<open>cases "k = 0"; simp add: rcv_at_def\<close>)+
qed

lemma rcv_byte:
  assumes "server_packet p n" "rcv_at p n k s" "k < 25 + n"
  obtains s2 s3 where "store_byte (p ! k) (rcv_start k s) = Some s2" "rcv_step (p ! k) s2 = (k = 24 + n, s3)"
    "gs_rcvlen s3 = k + 1" "take (k + 1) (gs_rcvbuf s3) = take (k + 1) p" "length (gs_rcvbuf s3) = 1024"
    "k < 24 + n \<longrightarrow> rcv_at p n (k + 1) s3"
proof -
  have p: "1 \<le> n" "unat (p ! 22) * 256 + unat (p ! 23) = n" using assms(1) by (simp_all add: server_packet_def)
  obtain s2 where s2: "store_byte (p ! k) (rcv_start k s) = Some s2" "length (gs_rcvbuf s2) = 1024" "gs_rcvlen s2 = k + 1"
    "take (k + 1) (gs_rcvbuf s2) = take (k + 1) p"
    "gs_rcvstep s2 = (if k < 22 then 0 else if k < 24 then 1 else if k < 24 + n then 2 else 3)"
    "gs_datalen s2 = (if k \<le> 22 then 0 else if k = 23 then unat (p ! 22) else n)"
    by (rule rcv_store [OF assms])
  consider "k < 21" | "k = 21" | "k = 22" | "k = 23" | "24 \<le> k" "k < 23 + n" | "k = 23 + n" | "k = 24 + n"
    using assms(3) by linarith
  then show thesis
  proof cases
    case 7
    show thesis by (rule that [OF s2(1), of "snd (rcv_step (p ! k) s2)"]) (use 7 s2 p in \<open>simp_all add: rcv_step_def\<close>)
  qed (rule that [OF s2(1), of "snd (rcv_step (p ! k) s2)"]; use s2 p in \<open>simp add: rcv_step_def rcv_at_def\<close>)+
qed

section \<open>Packets in pieces\<close>

text \<open>The next \<open>m\<close> bytes of the packet, with anything behind them in the array.\<close>

lemma rcv_head:
  assumes "server_packet p n" "k < 24 + n" "rest ! 0 = p ! (k + 1)" "rest \<noteq> []"
  shows "head_seen s (p ! k # rest) = Some (rcv_start k s)"
proof (cases "p ! k = 0x23")
  case True
  then have "k = 0 \<or> rest ! 0 \<noteq> 0x23" using assms(1-3) by (cases "k = 0") (auto simp: server_packet_def)
  moreover have "k = 0 \<longrightarrow> rest ! 0 = 0x23" using assms(1,3) by (simp add: server_packet_def)
  ultimately show ?thesis using True assms(4) by (cases rest) (auto simp: head_seen_def)
next
  case False
  then have "k \<noteq> 0" using assms(1) by (metis server_packet_def)
  then show ?thesis using False by (simp add: head_seen_def)
qed

lemma rcv_piece:
  assumes p: "server_packet p n"
  shows "rcv_at p n k s \<Longrightarrow> 0 < m \<Longrightarrow> k + m \<le> 25 + n \<Longrightarrow> p ! (k + m - 1) \<noteq> 0x23 \<Longrightarrow>
    \<exists>s'. gb_makeup_pack s (take m (drop k p) @ junk) m r = Some (if k + m = 25 + n then 0 else -1, r + m, s') \<and>
      length (gs_rcvbuf s') = 1024 \<and> gs_rcvlen s' = k + m \<and> take (k + m) (gs_rcvbuf s') = take (k + m) p \<and>
      (k + m < 25 + n \<longrightarrow> rcv_at p n (k + m) s')"
proof (induction m arbitrary: k s r)
  case (Suc m)
  have len: "length p = 25 + n" using p by (simp add: server_packet_def)
  have piece: "take (Suc m) (drop k p) @ junk = p ! k # (take m (drop (k + 1) p) @ junk)"
    using Suc.prems(3) len by (simp add: Cons_nth_drop_Suc [symmetric])
  have head: "head_seen s (p ! k # (take m (drop (k + 1) p) @ junk)) = Some (rcv_start k s)"
  proof (cases "m = 0")
    case True
    then have "p ! k \<noteq> 0x23" using Suc.prems(4) by simp
    moreover from this have "k \<noteq> 0" using p by (metis server_packet_def)
    ultimately show ?thesis by (simp add: head_seen_def)
  next
    case False
    then show ?thesis using Suc.prems(3) len by (intro rcv_head [OF p]) (auto simp: nth_append)
  qed
  obtain s2 s3 where b: "store_byte (p ! k) (rcv_start k s) = Some s2" "rcv_step (p ! k) s2 = (k = 24 + n, s3)"
    "gs_rcvlen s3 = k + 1" "take (k + 1) (gs_rcvbuf s3) = take (k + 1) p" "length (gs_rcvbuf s3) = 1024"
    "k < 24 + n \<longrightarrow> rcv_at p n (k + 1) s3"
    by (rule rcv_byte [OF p Suc.prems(1)]) (use Suc.prems(3) in auto)
  have unfold: "gb_makeup_pack s (take (Suc m) (drop k p) @ junk) (Suc m) r =
      (if k = 24 + n then Some (0, r + 1, s3) else gb_makeup_pack s3 (take m (drop (k + 1) p) @ junk) m (r + 1))"
    unfolding piece using head b(1,2) by simp
  show ?case
  proof (cases "m = 0")
    case True
    then show ?thesis unfolding unfold using b Suc.prems(3) by auto
  next
    case False
    then have "k < 24 + n" using Suc.prems(3) by simp
    then show ?thesis unfolding unfold using Suc.IH [of "k + 1" s3 "r + 1"] b(6) False Suc.prems(3,4) by simp
  qed
qed simp

text \<open>The calls for the pieces of a packet, each with what is behind it in the array of \<open>gb_do_receive\<close>.\<close>

fun deliver :: "gb_stat_t \<Rightarrow> (byte list \<times> byte list) list \<Rightarrow> (int list \<times> gb_stat_t) option" where
  "deliver s [] = Some ([], s)"
| "deliver s ((c, junk) # cs) = do {
     (r, used, s1) \<leftarrow> gb_makeup_pack s (c @ junk) (length c) 0;
     (rs, s2) \<leftarrow> deliver s1 cs;
     Some (r # rs, s2) }"

lemma deliver_pieces:
  assumes p: "server_packet p n"
  shows "rcv_at p n k s \<Longrightarrow> concat (map fst cs) = drop k p \<Longrightarrow> k < 25 + n \<Longrightarrow> \<forall>(c, junk) \<in> set cs. c \<noteq> [] \<and> last c \<noteq> 0x23 \<Longrightarrow>
    \<exists>s'. deliver s cs = Some (replicate (length cs - 1) (-1) @ [0], s') \<and> gs_rcvlen s' = length p \<and>
      take (length p) (gs_rcvbuf s') = p \<and> length (gs_rcvbuf s') = 1024"
proof (induction cs arbitrary: k s)
  case Nil
  then show ?case using p by (simp add: server_packet_def)
next
  case (Cons cj cs)
  obtain c junk where cj: "cj = (c, junk)" by fastforce
  have len: "length p = 25 + n" using p by (simp add: server_packet_def)
  have split: "c @ concat (map fst cs) = drop k p" using Cons.prems(2) cj by simp
  then have c: "c = take (length c) (drop k p)" "concat (map fst cs) = drop (k + length c) p"
    by (metis append_eq_conv_conj, metis append_eq_conv_conj drop_drop add.commute)
  have bounds: "0 < length c" "k + length c \<le> 25 + n"
  proof -
    show "0 < length c" using Cons.prems(4) cj by simp
    have "length c \<le> length (drop k p)" unfolding split [symmetric] by simp
    then show "k + length c \<le> 25 + n" using len Cons.prems(3) by simp
  qed
  have "c ! i = take (length c) (drop k p) ! i" for i using c(1) by metis
  then have "last c = p ! (k + (length c - 1))" using bounds len by (simp add: last_conv_nth)
  moreover have "k + (length c - 1) = k + length c - 1" using bounds(1) by arith
  ultimately have "last c = p ! (k + length c - 1)" by simp
  then have lastc: "p ! (k + length c - 1) \<noteq> 0x23" using Cons.prems(4) cj by auto
  obtain s' where s': "gb_makeup_pack s (c @ junk) (length c) 0 = Some (if k + length c = 25 + n then 0 else -1, length c, s')"
      "length (gs_rcvbuf s') = 1024" "gs_rcvlen s' = k + length c" "take (k + length c) (gs_rcvbuf s') = take (k + length c) p"
      "k + length c < 25 + n \<longrightarrow> rcv_at p n (k + length c) s'"
    using rcv_piece [OF p Cons.prems(1) bounds lastc, of junk 0] c(1) by auto
  show ?case
  proof (cases "k + length c = 25 + n")
    case True
    then have "concat (map fst cs) = []" using c(2) len by simp
    then have "cs = []" using Cons.prems(4) by (cases cs) auto
    then show ?thesis using s' True cj len by simp
  next
    case False
    then have "k + length c < 25 + n" using bounds(2) by simp
    moreover from this have "cs \<noteq> []" using c(2) len by auto
    ultimately show ?thesis
      using Cons.IH [of "k + length c" s'] c(2) s'(1,5) False Cons.prems(4) cj
      by (cases cs) auto
  qed
qed


section \<open>Packets that do not fit\<close>

lemma long_data:
  "length (gs_rcvbuf s) = 1024 \<Longrightarrow> 24 \<le> gs_rcvlen s \<Longrightarrow> gs_rcvlen s \<le> 1024 \<Longrightarrow> gs_datalen s = 0 \<or> 1000 \<le> gs_datalen s \<Longrightarrow>
   gs_rcvstep s = 2 \<or> gs_rcvstep s = 3 \<and> gs_rcvlen s = 1024 \<Longrightarrow> m = 1025 - gs_rcvlen s \<Longrightarrow>
   m \<le> length input \<Longrightarrow> 0x23 \<notin> set (take m input) \<Longrightarrow> gb_makeup_pack s input m r = None"
proof (induction m arbitrary: s input r)
  case (Suc m)
  then obtain x xs where input: "input = x # xs" by (cases input) auto
  then have head: "head_seen s input = Some s" using Suc.prems(8) by (auto simp: head_seen_def)
  show ?case
  proof (cases "gs_rcvlen s = 1024")
    case True
    then show ?thesis using head Suc.prems(1) by (simp add: store_byte_def)
  next
    case False
    let ?s2 = "s\<lparr>gs_rcvbuf := (gs_rcvbuf s)[gs_rcvlen s := x], gs_rcvlen := gs_rcvlen s + 1\<rparr>"
    obtain s3 where s3: "rcv_step x ?s2 = (False, s3)" "gs_rcvlen s3 = gs_rcvlen s + 1" "length (gs_rcvbuf s3) = 1024"
        "gs_datalen s3 = gs_datalen s" "gs_rcvstep s3 = 2 \<or> gs_rcvstep s3 = 3 \<and> gs_rcvlen s3 = 1024"
      using Suc.prems(1-5) False by (auto simp: rcv_step_def)
    have clean: "0x23 \<notin> set (take m xs)" "m \<le> length xs" using Suc.prems(7,8) input by simp_all
    have "gb_makeup_pack s3 xs m (r + 1) = None"
      by (rule Suc.IH) (use s3 Suc.prems(1-6) False clean in auto)
    then show ?thesis using head s3(1) Suc.prems(1,3) False input by (simp add: store_byte_def)
  qed
qed simp

text \<open>A packet that announces no data, or 1000 bytes and more, is written beyond the end of the receive
  buffer: once its head has been read, 1001 further bytes without the header character overflow the
  1024 bytes of \<open>rcvbuf\<close>.\<close>

theorem odd_length_overflows:
  assumes "length (gs_rcvbuf s) = 1024" "gs_rcvlen s = 24" "gs_rcvstep s = 2" "gs_datalen s = 0 \<or> 1000 \<le> gs_datalen s"
    "1001 \<le> length input" "0x23 \<notin> set (take 1001 input)"
  shows "gb_makeup_pack s input 1001 r = None"
  by (rule long_data) (use assms in simp_all)


text \<open>A packet for the witnesses: the answer to a login.\<close>

definition login_answer :: "byte list" where
  "login_answer = [0x23, 0x23, 1, 1, 0x41, 0x41, 0x41, 0x41, 0x41, 0x41, 0x41, 0x41, 0x41, 0x41, 0x41, 0x41, 0x41, 0x41, 0x41, 0x41,
     0x41, 1, 0, 1, 7, 0x46]"

lemma login_answer_packet: "server_packet login_answer 1"
proof -
  have "login_answer ! (i + 1) \<noteq> 0x23" if "i \<in> {1..<25}" for i
  proof -
    have "i \<in> set [1..<25]" using that by simp
    then show ?thesis by (simp add: login_answer_def upt_rec numeral_eq_Suc; elim disjE; simp)
  qed
  then show ?thesis by (simp add: server_packet_def login_answer_def numeral_eq_Suc)
qed

lemma login_answer_last: "last login_answer \<noteq> 0x23"
  by (simp add: login_answer_def)

text \<open>The receiver at start.\<close>

abbreviation fresh_receiver :: gb_stat_t where
  "fresh_receiver \<equiv> \<lparr>gs_online = 0, gs_wait = 0, gs_retry = 0, gs_waittime = 0, gs_rcvbuf = replicate (Suc 1023) 0, gs_rcvlen = 0,
     gs_rcvstep = 0, gs_datalen = 0, gs_login = 0, gs_suspend = 0, gs_caltime = 0, gs_can = 0, gs_network = 0, gs_errtrig = 0\<rparr>"


theorem odd_length_overflows_witness:
  "gb_makeup_pack (fresh_receiver\<lparr>gs_rcvlen := 24, gs_rcvstep := 2\<rparr>) (replicate 1001 0) 1001 0 = None"
  by (rule odd_length_overflows) (simp_all only: gb_stat_t.simps length_replicate take_replicate set_replicate_conv_if, simp_all)

end
