(* ===== verification/GbBench.thy ===== *)
theory GbBench
  imports GbRuns GbFrame
begin

text \<open>
  A short run, for the witnesses: the bus wakes up, the unit connects and logs in, a report is made and
  sent. It shows that the states the properties speak of are reached.
\<close>

definition bench_env :: gb_env where
  "bench_env = \<lparr>ev_now = 1, ev_after = 1, ev_rtc = \<lparr>rtc_msec = 0, rtc_sec = 0, rtc_min = 0, rtc_hour = 0, rtc_mday = 1,
     rtc_mon = 1, rtc_week = 0, rtc_year = 2020\<rparr>, ev_iccid = [], ev_thread = True, ev_err = 0, ev_unack = Some 0,
     ev_bufsz = Some 5000, ev_allsent = True, ev_recv = (-1, True, []), ev_cfg = (0, 0), ev_during = Some\<rparr>"

definition answer_env :: gb_env where
  "answer_env = bench_env\<lparr>ev_recv := (26, False, login_answer)\<rparr>"

lemma bench_env_ok: "gb_env_ok bench_env" "gb_env_ok answer_env"
  by (simp_all add: gb_env_ok_def bench_env_def answer_env_def)

definition bench_sock :: sock_t where
  "bench_sock = \<lparr>sk_type = SOCK_TYPE_SYNCTCP, sk_stat = SOCK_STAT_CLOSED, sk_sendtime = 0, sk_failtimes = 0, sk_sendsz = 0,
     sk_free = 0, sk_back = 0, sk_used = []\<rparr>"

section \<open>A report is made\<close>

definition bench_tick :: CAN_MSG where
  "bench_tick = \<lparr>can_type = 0x54, can_len = 0, can_port = 0, MsgID = 0, can_data = []\<rparr>"

lemma ticks:
  "gb_groups d = Some groups \<Longrightarrow> gb_canact d = 1 \<Longrightarrow> gb_counter d + int k < 100 \<Longrightarrow>
   can_datain err rpt (replicate k bench_tick @ ms) d = can_datain err rpt ms (d\<lparr>gb_counter := gb_counter d + int k\<rparr>)"
proof (induction k arbitrary: d)
  case (Suc k)
  then show ?case using Suc.IH [of "d\<lparr>gb_counter := gb_counter d + 1\<rparr>"]
    by (simp add: bench_tick_def can_tick_def add.commute add.left_commute)
qed simp

text \<open>A second passes on the bus: with a period of one second a report is saved.\<close>

lemma second_passes:
  assumes "gb_groups d = Some 1" "gb_canact d = 1" "gb_counter d = 0" "gb_warntrig d = 0" "gb_times d = 0" "gb_triger d = 0"
    "gb_ticks d = 0" "gb_datintv d = 1" "gb_errlst_head d = Some h" "gb_free_lst d = n # ns"
  shows "\<exists>d'. data_event d d' \<and> gb_realtm_lst d' = gb_realtm_lst d @ [n] \<and> gb_free_lst d' = ns \<and>
    gb_delay_lst d' = gb_delay_lst d \<and> gb_trans_lst d' = gb_trans_lst d \<and> gb_emerg d' = gb_emerg d \<and>
    gb_groups d' = Some 1 \<and> gb_canact d' = 1 \<and> gb_counter d' = 0 \<and> gb_warntrig d' = 0 \<and> gb_times d' = 0 \<and>
    gb_triger d' = 0 \<and> gb_ticks d' = 0 \<and> gb_datintv d' = 1 \<and> gb_errlst_head d' \<noteq> None \<and> gb_lists d' = gb_lists d"
proof -
  let ?ms = "replicate 99 bench_tick @ [bench_tick]"
  let ?B = "can_datain (\<lambda>_. [1]) (\<lambda>_. [2]) [bench_tick] (d\<lparr>gb_counter := gb_counter d + int 99\<rparr>)"
  have A: "can_datain (\<lambda>_. [1]) (\<lambda>_. [2]) ?ms d = can_datain (\<lambda>_. [1]) (\<lambda>_. [2]) [bench_tick] (d\<lparr>gb_counter := gb_counter d + int 99\<rparr>)"
    by (rule ticks) (use assms in simp_all)
  have "?B \<noteq> None \<and> (\<forall>d'. ?B = Some d' \<longrightarrow> gb_realtm_lst d' = gb_realtm_lst d @ [n] \<and> gb_free_lst d' = ns \<and>
    gb_delay_lst d' = gb_delay_lst d \<and> gb_trans_lst d' = gb_trans_lst d \<and> gb_emerg d' = gb_emerg d \<and>
    gb_groups d' = Some 1 \<and> gb_canact d' = 1 \<and> gb_counter d' = 0 \<and> gb_warntrig d' = 0 \<and> gb_times d' = 0 \<and>
    gb_triger d' = 0 \<and> gb_ticks d' = 0 \<and> gb_datintv d' = 1 \<and> gb_errlst_head d' \<noteq> None \<and> gb_lists d' = gb_lists d)"
    using assms
    by (simp add: bench_tick_def can_tick_def gb_data_periodic_def periodic_warn_def periodic_period_def periodic_report_def
        gb_data_save_error_def gb_data_save_realtm_def take_buffer_def upd_pack_def Let_def)
  then obtain d' where d': "?B = Some d'" and P: "gb_realtm_lst d' = gb_realtm_lst d @ [n] \<and> gb_free_lst d' = ns \<and>
    gb_delay_lst d' = gb_delay_lst d \<and> gb_trans_lst d' = gb_trans_lst d \<and> gb_emerg d' = gb_emerg d \<and>
    gb_groups d' = Some 1 \<and> gb_canact d' = 1 \<and> gb_counter d' = 0 \<and> gb_warntrig d' = 0 \<and> gb_times d' = 0 \<and>
    gb_triger d' = 0 \<and> gb_ticks d' = 0 \<and> gb_datintv d' = 1 \<and> gb_errlst_head d' \<noteq> None \<and> gb_lists d' = gb_lists d"
    by blast
  have "data_event d d'"
    by (rule data_event.can [of "\<lambda>_. [1]" "\<lambda>_. [2]" "CAN_EVENT_DATAIN ?ms"]) (simp only: gb_data_can_cb.simps A d')
  with P show ?thesis by blast
qed

section \<open>The connection\<close>

definition bench_start :: "gb_data \<Rightarrow> gb" where
  "bench_start d = gb_start [0x61] 1 [] 10 0 5 d bench_sock"

text \<open>What the rounds need of a state: connected, and nothing waits in the receiver or the socket's list.\<close>

definition connected :: "gb \<Rightarrow> bool" where
  "connected g \<longleftrightarrow> sk_stat (g_sock g) = SOCK_STAT_OPENED \<and> sk_type (g_sock g) = SOCK_TYPE_SYNCTCP \<and> sk_free (g_sock g) = 36 \<and>
     gs_suspend (g_st g) = 0 \<and> gs_can (g_st g) = 1 \<and> gs_network (g_st g) = 1 \<and> gb_port g = 1 \<and> gb_url g = [0x61] \<and>
     gb_allow_sleep g = 0 \<and> gs_waittime (g_st g) \<in> {0, 1} \<and> length (gs_rcvbuf (g_st g)) = 1024"

lemma idle_receive: "sk_stat (g_sock g) = SOCK_STAT_OPENED \<Longrightarrow> gb_do_receive bench_env g = Some (0, g)"
  by (simp add: gb_do_receive_def bench_env_def sock_recv_def receive_loop.simps)

lemma bench_steps:
  "gb_round e msg (\<lambda>_. bench_env) g = Some g' \<Longrightarrow> plain_step\<^sup>*\<^sup>* ([], g) ([], g')"
  "gb_round e msg (\<lambda>_. answer_env) g = Some g' \<Longrightarrow> plain_step\<^sup>*\<^sup>* ([], g) ([], g')"
  using gb_round_steps [of "\<lambda>_. bench_env"] gb_round_steps [of "\<lambda>_. answer_env"] bench_env_ok by auto

lemma bench_connects:
  assumes "\<not> gb_data_noreport d"
  shows "\<exists>g. plain_step\<^sup>*\<^sup>* ([], bench_start d) ([], g) \<and> connected g \<and> g_dat g = d \<and> sk_used (g_sock g) = [] \<and>
    sk_sendsz (g_sock g) = 0 \<and> sk_back (g_sock g) = 4 \<and> gs_online (g_st g) = 0 \<and> gs_wait (g_st g) = 0 \<and> gs_waittime (g_st g) = 0 \<and> gs_login (g_st g) = 0"
proof -
  let ?g1 = "upd_st (\<lambda>s. s\<lparr>gs_network := 1\<rparr>) (gb_reset (bench_start d))"
  let ?g2 = "(upd_st (\<lambda>s. s\<lparr>gs_can := 1\<rparr>) (?g1\<lparr>gb_allow_sleep := 0\<rparr>))"
  let ?g3 = "?g2\<lparr>g_sock := snd (sock_open True (g_sock ?g2)), g_conntime := 1\<rparr>"
  let ?g4 = "?g3\<lparr>g_sock := sock_finish SOCK_STAT_OPENED (g_sock ?g3)\<rparr>"
  have "gb_round bench_env (GB_MSG_NETWORK 1) (\<lambda>_. bench_env) (bench_start d) = Some ?g1"
    by (simp add: gb_round_def gb_call_step_def gb_do_checksock_def gb_message_def bench_start_def gb_start_def)
  then have 1: "plain_step\<^sup>*\<^sup>* ([], bench_start d) ([], ?g1)" by (rule bench_steps)
  have "gb_round bench_env GB_MSG_CANON (\<lambda>_. bench_env) ?g1 = Some ?g3"
    using assms
    by (simp add: gb_round_def gb_call_step_def gb_do_checksock_def gb_message_def bench_start_def gb_start_def bench_sock_def
        sock_status_def sock_create_def sock_close_def bench_env_def gb_reset_def upd_st_def)
  then have 2: "plain_step\<^sup>*\<^sup>* ([], ?g1) ([], ?g3)" by (rule bench_steps)
  have "sk_stat (g_sock ?g3) = SOCK_STAT_INPROG"
    by (simp add: bench_start_def gb_start_def bench_sock_def sock_create_def sock_close_def sock_open_def sock_cleanup_def)
  then have "plain_step ([], ?g3) ([], ?g4)" unfolding plain_step_def using gb_step.finish by blast
  with 1 2 have r: "plain_step\<^sup>*\<^sup>* ([], bench_start d) ([], ?g4)" by (meson rtranclp.rtrancl_into_rtrancl rtranclp_trans)
  show ?thesis
    by (intro exI [of _ ?g4] conjI r)
       (simp_all add: connected_def bench_start_def gb_start_def bench_sock_def sock_create_def sock_close_def sock_open_def
         sock_cleanup_def sock_finish_def SOCK_MAX_SYNC_def gb_reset_def upd_st_def Let_def)
qed

text \<open>The login is sent.\<close>

lemma bench_logs_in:
  assumes "connected g" "sk_used (g_sock g) = []" "sk_sendsz (g_sock g) = 0" "sk_back (g_sock g) = 4"
    "gs_online (g_st g) = 0" "gs_wait (g_st g) = 0" "gs_waittime (g_st g) = 0"
  shows "\<exists>g' n. plain_step\<^sup>*\<^sup>* ([], g) ([], g') \<and> connected g' \<and> g_dat g' = g_dat g \<and>
    sk_used (g_sock g') = [\<lparr>sy_len = n, sy_sync = False, sy_back = True\<rparr>] \<and> sk_sendsz (g_sock g') = n \<and>
    gs_online (g_st g') = 0 \<and> gs_wait (g_st g') = PROT_LOGIN \<and> gs_login (g_st g') = gs_login (g_st g)"
proof -
  obtain buf g1 where p: "gb_pack_login bench_env g = (buf, g1)" by fastforce
  have same: "g_st g1 = g_st g" "g_sock g1 = g_sock g" "gb_allow_sleep g1 = gb_allow_sleep g" "g_dat g1 = g_dat g"
      "gb_port g1 = gb_port g" "gb_url g1 = gb_url g" "buf \<noteq> []"
    using p by (auto simp: gb_pack_login_def Let_def gb_seal_def)
  let ?s = "(g_sock g)\<lparr>sk_sendsz := int (length buf), sk_used := [\<lparr>sy_len = int (length buf), sy_sync = False, sy_back = True\<rparr>],
    sk_back := 3, sk_sendtime := 1\<rparr>"
  let ?g' = "upd_st (\<lambda>s. s\<lparr>gs_wait := PROT_LOGIN, gs_waittime := 1\<rparr>) (g1\<lparr>g_sock := ?s, g_sent := g_sent g1 @ [buf]\<rparr>)"
  have send: "gb_sock_send bench_env buf False g1 = (int (length buf), g1\<lparr>g_sock := ?s, g_sent := g_sent g1 @ [buf]\<rparr>)"
    using assms(1-4) same by (simp add: gb_sock_send_def sock_send_def connected_def bench_env_def)
  have sync: "gb_sync bench_env g = (0, g)"
    using assms(1,2) by (simp add: gb_sync_def sock_sync_def connected_def bench_env_def)
  have "gb_do_checksock bench_env g = (0, g)"
    using assms(1) sync by (simp add: gb_do_checksock_def connected_def sock_status_def sock_error_def, simp add: bench_env_def)
  moreover have "gb_do_receive bench_env g = Some (0, g)" using assms(1) by (intro idle_receive) (simp add: connected_def)
  moreover have "gb_do_wait bench_env g = (0, g)" using assms(6) by (simp add: gb_do_wait_def)
  moreover have "gb_do_login bench_env g = (-1, ?g')"
    using assms(5,7) p send same(7) by (simp add: gb_do_login_def) (simp add: bench_env_def)
  ultimately have "gb_round bench_env NO_MSG (\<lambda>_. bench_env) g = Some ?g'"
    by (simp add: gb_round_def gb_message_def gb_call_step_def)
  then have "plain_step\<^sup>*\<^sup>* ([], g) ([], ?g')" by (rule bench_steps)
  then show ?thesis
    by (intro exI [of _ ?g'] exI [of _ "int (length buf)"] conjI) (use assms same in \<open>simp_all add: connected_def upd_st_def\<close>)
qed


text \<open>The server answers; the next report is sent.\<close>

lemma answer_packet:
  assumes "length (gs_rcvbuf (g_st g)) = 1024"
  shows "\<exists>s'. gb_makeup_pack (g_st g) login_answer 26 0 = Some (0, 26, s') \<and> rcv_frame (g_st g) s' \<and>
    gb_packet (g\<lparr>g_st := s'\<rparr>) = gb_login_ack 1 (g\<lparr>g_st := s'\<rparr>) \<and> length (gs_rcvbuf s') = 1024"
proof -
  have len: "length login_answer = 26" by (simp add: login_answer_def)
  have "rcv_at login_answer 1 0 (g_st g)" using assms by (simp add: rcv_at_def)
  then obtain s' where s': "gb_makeup_pack (g_st g) (take 26 (drop 0 login_answer) @ []) 26 0 = Some (0, 26, s')"
      "gs_rcvlen s' = 26" "take 26 (gs_rcvbuf s') = take 26 login_answer" "length (gs_rcvbuf s') = 1024"
    using rcv_piece [OF login_answer_packet, of 0 "g_st g" 26 "[]" 0] by (auto simp: login_answer_def)
  obtain rest where buf: "gs_rcvbuf s' = login_answer @ rest"
    using s'(3) len append_take_drop_id [of 26 "gs_rcvbuf s'"] by (metis take_all_iff le_refl)
  have "gb_packet (g\<lparr>g_st := s'\<rparr>) = gb_login_ack 1 (g\<lparr>g_st := s'\<rparr>)"
    unfolding gb_packet_def Let_def by (simp add: s'(2) buf login_answer_def gb_checksum_def PROT_LOGIN_def)
  then show ?thesis using s' makeup_frame len by auto
qed

lemma bench_answered:
  assumes "connected g" "sk_used (g_sock g) = [\<lparr>sy_len = n, sy_sync = False, sy_back = True\<rparr>]" "sk_sendsz (g_sock g) = n"
    "gs_online (g_st g) = 0" "gs_wait (g_st g) = PROT_LOGIN" "gs_login (g_st g) = 0"
  shows "\<exists>g'. plain_step\<^sup>*\<^sup>* ([], g) ([], g') \<and> connected g' \<and> g_dat g' = gb_data_clear_error (gb_data_clear_report (g_dat g)) \<and>
    sk_used (g_sock g') = [] \<and> sk_sendsz (g_sock g') = 0 \<and> gs_online (g_st g') = 1 \<and> gs_wait (g_st g') = 0"
proof -
  let ?g1 = "g\<lparr>g_sock := (g_sock g)\<lparr>sk_sendsz := 0, sk_used := [], sk_back := sk_back (g_sock g) + 1\<rparr>\<rparr>"
  have "gb_sync answer_env g = (0, ?g1)"
    using assms(1-3) by (simp add: gb_sync_def sock_sync_def connected_def answer_env_def bench_env_def)
  then have check: "gb_do_checksock answer_env g = (0, ?g1)"
    using assms(1) by (simp add: gb_do_checksock_def connected_def sock_status_def sock_error_def answer_env_def bench_env_def)
  obtain s' where s': "gb_makeup_pack (g_st ?g1) login_answer 26 0 = Some (0, 26, s')" "rcv_frame (g_st ?g1) s'"
      "gb_packet (?g1\<lparr>g_st := s'\<rparr>) = gb_login_ack 1 (?g1\<lparr>g_st := s'\<rparr>)" "length (gs_rcvbuf s') = 1024"
    using answer_packet [of ?g1] assms(1) by (auto simp: connected_def)
  obtain g2 where g2: "gb_login_ack 1 (?g1\<lparr>g_st := s'\<rparr>) = Some (0, g2)" "g_sock g2 = g_sock ?g1"
      "g_dat g2 = gb_data_clear_error (gb_data_clear_report (g_dat g))" "g_st g2 = s'\<lparr>gs_wait := 0, gs_online := 1, gs_login := 1\<rparr>"
      "gb_port g2 = gb_port g" "gb_url g2 = gb_url g" "gb_allow_sleep g2 = gb_allow_sleep g"
    using s'(2) assms(5,6) by (simp add: gb_login_ack_def rcv_frame_def upd_st_def Let_def)
  have "receive_loop login_answer 26 ?g1 = Some (0, g2)"
    using s' g2(1) by (simp add: receive_loop.simps [of _ 26] receive_loop.simps [of _ 0])
  then have receive: "gb_do_receive answer_env ?g1 = Some (0, g2)"
    using assms(1) by (simp add: gb_do_receive_def answer_env_def bench_env_def sock_recv_def connected_def)
  have "gb_data_get_pack (g_dat g2) = (None, g_dat g2)"
    by (simp add: g2(3) gb_data_clear_error_def gb_data_clear_report_def gb_data_get_pack_def split: option.splits)
  then have report: "gb_do_report answer_env g2 = Some (0, g2)" by (simp add: gb_do_report_def)
  have "gb_round answer_env NO_MSG (\<lambda>_. answer_env) g = Some g2"
    using check receive report g2(4) s'(2) assms(1)
    by (simp add: gb_round_def gb_message_def gb_call_step_def gb_do_wait_def gb_do_login_def gb_do_suspend_def gb_do_logout_def
        rcv_frame_def connected_def)
  then have "plain_step\<^sup>*\<^sup>* ([], g) ([], g2)" by (rule bench_steps)
  then show ?thesis
    by (intro exI [of _ g2] conjI) (use assms(1) g2 s'(2,4) in \<open>simp_all add: connected_def rcv_frame_def\<close>)
qed

text \<open>The oldest report of the run is on its way and nothing else waits.\<close>

definition sent_one :: "nat \<Rightarrow> gb \<Rightarrow> bool" where
  "sent_one n g \<longleftrightarrow> gb_trans_lst (g_dat g) = [n] \<and> gb_data_noreport (g_dat g) \<and> sk_stat (g_sock g) = SOCK_STAT_OPENED \<and>
     sk_type (g_sock g) = SOCK_TYPE_SYNCTCP \<and> sk_free (g_sock g) = 35 \<and> gs_network (g_st g) = 1 \<and> gs_wait (g_st g) = 0 \<and>
     gs_suspend (g_st g) = 0 \<and> gb_port g = 1 \<and> gb_url g = [0x61] \<and> gb_allow_sleep g = 0 \<and> gs_online (g_st g) = 1 \<and>
     sk_used (g_sock g) = [\<lparr>sy_len = sk_sendsz (g_sock g), sy_sync = True, sy_back = False\<rparr>]"

lemma bench_sends:
  assumes "connected g" "sk_used (g_sock g) = []" "sk_sendsz (g_sock g) = 0" "gs_online (g_st g) = 1" "gs_wait (g_st g) = 0"
    "gb_realtm_lst (g_dat g) = [n]" "gb_trans_lst (g_dat g) = []" "gb_delay_lst (g_dat g) = []"
    "n \<notin> set (gb_free_lst (g_dat g))" "gb_lists (g_dat g)"
  shows "\<exists>g'. plain_step\<^sup>*\<^sup>* ([], g) ([], g') \<and> sent_one n g'"
proof -
  let ?d = "(g_dat g)\<lparr>gb_realtm_lst := []\<rparr>" and ?buf = "gb_pack_report (gb_datamem (g_dat g) ! n) g"
  let ?s = "(g_sock g)\<lparr>sk_sendsz := int (length ?buf), sk_used := [\<lparr>sy_len = int (length ?buf), sy_sync = True, sy_back = False\<rparr>],
    sk_free := 35, sk_sendtime := 1\<rparr>"
  let ?g' = "g\<lparr>g_dat := ?d\<lparr>gb_trans_lst := [n]\<rparr>, g_sock := ?s, g_sent := g_sent g @ [?buf]\<rparr>"
  have "gb_sync bench_env g = (0, g)"
    using assms(1,2) by (simp add: gb_sync_def sock_sync_def connected_def bench_env_def)
  then have check: "gb_do_checksock bench_env g = (0, g)"
    using assms(1) by (simp add: gb_do_checksock_def connected_def sock_status_def sock_error_def, simp add: bench_env_def)
  have receive: "gb_do_receive bench_env g = Some (0, g)" using assms(1) by (intro idle_receive) (simp add: connected_def)
  have get: "gb_data_get_pack (g_dat g) = (Some n, ?d)" using assms(6) by (simp add: gb_data_get_pack_def)
  have "gb_data_put_send n ?d = Some (?d\<lparr>gb_trans_lst := [n]\<rparr>)"
    using assms(7-9) by (simp add: gb_data_put_send_def linked_def)
  then have "gb_do_report bench_env g = Some (0, ?g')"
    using assms(1-3) get
    by (simp add: gb_do_report_def gb_sock_send_def sock_send_def sock_bufsz_def connected_def bench_env_def GB_SOCKET_RSVD_def)
  then have "gb_round bench_env NO_MSG (\<lambda>_. bench_env) g = Some ?g'"
    using check receive assms(1,4,5)
    by (simp add: gb_round_def gb_message_def gb_call_step_def gb_do_wait_def gb_do_login_def gb_do_suspend_def gb_do_logout_def
        connected_def)
  then have "plain_step\<^sup>*\<^sup>* ([], g) ([], ?g')" by (rule bench_steps)
  then show ?thesis
    by (intro exI [of _ ?g'] conjI) (use assms in \<open>simp_all add: sent_one_def connected_def gb_data_put_send_def gb_data_noreport_def\<close>)
qed


section \<open>The whole run\<close>

lemma bench_data: "data_event d d' \<Longrightarrow> plain_step ([], bench_start d) ([], bench_start d')"
  unfolding plain_step_def using gb_step.data [of "bench_start d" d' "[]"] by (auto simp: bench_start_def gb_start_def)

lemma free_list: "[0..<GB_MAX_REPORT] = 0 # [1..<GB_MAX_REPORT]"
proof -
  have "0 < GB_MAX_REPORT" by (simp add: GB_MAX_REPORT_def)
  then show ?thesis by (simp only: upt_conv_Cons One_nat_def)
qed

lemma bench_report_sent: "\<exists>g. gb_reach [] g \<and> run_without_reload [] g \<and> sent_one 0 g"
proof -
  let ?d0 = "gb_data_start 1"
  let ?d1 = "gb_data_dbc_finished 1 ?d0"
  let ?d2 = "?d1\<lparr>gb_canact := 1\<rparr>"
  have e1: "data_event ?d0 ?d1" by (rule data_event.load) (simp add: gb_data_start_def)
  have e2: "data_event ?d1 ?d2" by (rule data_event.can [of "\<lambda>_. []" "\<lambda>_. []" CAN_EVENT_ACTIVE]) simp
  obtain d3 where d3: "data_event ?d2 d3" "gb_realtm_lst d3 = [0]" "gb_groups d3 = Some 1" "gb_canact d3 = 1" "gb_counter d3 = 0"
      "gb_warntrig d3 = 0" "gb_times d3 = 0" "gb_triger d3 = 0" "gb_ticks d3 = 0" "gb_datintv d3 = 1" "gb_errlst_head d3 \<noteq> None"
  proof -
    have r: "gb_realtm_lst ?d2 = []"
      and pre: "gb_groups ?d2 = Some 1" "gb_canact ?d2 = 1" "gb_counter ?d2 = 0" "gb_warntrig ?d2 = 0" "gb_times ?d2 = 0"
        "gb_triger ?d2 = 0" "gb_ticks ?d2 = 0" "gb_datintv ?d2 = 1" "gb_errlst_head ?d2 = Some 0"
        "gb_free_lst ?d2 = 0 # [1..<GB_MAX_REPORT]"
      by (simp_all only: gb_data_dbc_finished_def gb_data_clear_report_def Let_def gb_data_start_def gb_data.simps free_list) simp_all
    show thesis using second_passes [OF pre] that unfolding r append_Nil by blast
  qed
  have "plain_step\<^sup>*\<^sup>* ([], bench_start ?d0) ([], bench_start d3)"
    by (rule rtranclp_trans [OF rtranclp_trans]) (rule r_into_rtranclp, rule bench_data, (rule e1 e2 d3(1)))+
  moreover obtain g1 where g1: "plain_step\<^sup>*\<^sup>* ([], bench_start d3) ([], g1)" "connected g1" "g_dat g1 = d3"
      "sk_used (g_sock g1) = []" "sk_sendsz (g_sock g1) = 0" "sk_back (g_sock g1) = 4" "gs_online (g_st g1) = 0"
      "gs_wait (g_st g1) = 0" "gs_waittime (g_st g1) = 0" "gs_login (g_st g1) = 0"
    using bench_connects [of d3] d3(2) by (auto simp: gb_data_noreport_def)
  moreover obtain g2 n where g2: "plain_step\<^sup>*\<^sup>* ([], g1) ([], g2)" "connected g2" "g_dat g2 = d3"
      "sk_used (g_sock g2) = [\<lparr>sy_len = n, sy_sync = False, sy_back = True\<rparr>]" "sk_sendsz (g_sock g2) = n"
      "gs_online (g_st g2) = 0" "gs_wait (g_st g2) = PROT_LOGIN" "gs_login (g_st g2) = 0"
    using bench_logs_in [OF g1(2,4-9)] g1(3,10) by auto
  moreover obtain g3 where g3: "plain_step\<^sup>*\<^sup>* ([], g2) ([], g3)" "connected g3"
      "g_dat g3 = gb_data_clear_error (gb_data_clear_report d3)"
      "sk_used (g_sock g3) = []" "sk_sendsz (g_sock g3) = 0" "gs_online (g_st g3) = 1" "gs_wait (g_st g3) = 0"
    using bench_answered [OF g2(2,4-8)] g2(3) by auto
  moreover obtain h where "gb_errlst_head d3 = Some h" using d3(11) by auto
  then obtain d4 where d4: "data_event (g_dat g3) d4" "gb_realtm_lst d4 = [0]" "gb_trans_lst d4 = []" "gb_delay_lst d4 = []"
      "gb_free_lst d4 = [1..<GB_MAX_REPORT]" "gb_lists d4"
  proof -
    assume h: "gb_errlst_head d3 = Some h"
    have r: "gb_realtm_lst (g_dat g3) = []" "gb_trans_lst (g_dat g3) = []" "gb_delay_lst (g_dat g3) = []" "gb_lists (g_dat g3)"
      and pre: "gb_groups (g_dat g3) = Some 1" "gb_canact (g_dat g3) = 1" "gb_counter (g_dat g3) = 0"
        "gb_warntrig (g_dat g3) = 0" "gb_times (g_dat g3) = 0" "gb_triger (g_dat g3) = 0" "gb_ticks (g_dat g3) = 0"
        "gb_datintv (g_dat g3) = 1" "gb_errlst_head (g_dat g3) = Some h" "gb_free_lst (g_dat g3) = 0 # [1..<GB_MAX_REPORT]"
      using h d3(2-10) by (simp_all add: g3(3) gb_data_clear_error_def gb_data_clear_report_def free_list)
    show thesis using second_passes [OF pre] that r(4) unfolding r(1-3) append_Nil by auto
  qed
  moreover have "plain_step ([], g3) ([], g3\<lparr>g_dat := d4\<rparr>)" unfolding plain_step_def using gb_step.data [OF d4(1)] by blast
  ultimately have r: "plain_step\<^sup>*\<^sup>* ([], bench_start ?d0) ([], g3\<lparr>g_dat := d4\<rparr>)"
    by (meson rtranclp.rtrancl_into_rtrancl rtranclp_trans)
  have c: "connected (g3\<lparr>g_dat := d4\<rparr>)" using g3(2) by (simp add: connected_def)
  obtain g5 where g5: "plain_step\<^sup>*\<^sup>* ([], g3\<lparr>g_dat := d4\<rparr>) ([], g5)" "sent_one 0 g5"
    using bench_sends [OF c] g3(4-7) d4(2-6) by auto
  have start: "gb_reach [] (bench_start ?d0)" "gs_online (g_st (bench_start ?d0)) = 0"
    unfolding gb_reach_def bench_start_def by (blast, simp add: gb_start_def)
  then have "run_without_reload [] g5" unfolding run_without_reload_def using rtranclp_trans [OF r g5(1)] by blast
  then show ?thesis using run_reach g5(2) by blast
qed

text \<open>In the next round the report is found acknowledged.\<close>

lemma sent_one_synced:
  assumes "sent_one n g"
  shows "\<exists>g'. gb_do_checksock bench_env g = (0, g') \<and> gb_trans_lst (g_dat g') = [] \<and> gb_data_noreport (g_dat g') \<and>
    sk_stat (g_sock g') = SOCK_STAT_OPENED \<and> sk_type (g_sock g') = SOCK_TYPE_SYNCTCP \<and> sk_free (g_sock g') = 36 \<and>
    sk_used (g_sock g') = [] \<and> g_st g' = g_st g \<and> gb_port g' = 1 \<and> gb_url g' = [0x61] \<and> gb_allow_sleep g' = 0"
proof -
  obtain g' where g': "gb_sync bench_env g = (0, g')" "gb_trans_lst (g_dat g') = []" "gb_data_noreport (g_dat g')"
      "sk_stat (g_sock g') = SOCK_STAT_OPENED" "sk_type (g_sock g') = SOCK_TYPE_SYNCTCP" "sk_free (g_sock g') = 36"
      "sk_used (g_sock g') = []" "g_st g' = g_st g" "gb_port g' = 1" "gb_url g' = [0x61]" "gb_allow_sleep g' = 0"
    using assms by (simp add: sent_one_def gb_sync_def sock_sync_def bench_env_def gb_data_ack_pack_def gb_data_noreport_def)
  then have "gb_do_checksock bench_env g = (0, g')"
    using assms by (simp add: sent_one_def gb_do_checksock_def sock_status_def sock_error_def) (simp add: bench_env_def)
  then show ?thesis using g' by blast
qed

lemma bench_message: "gb_reach [] g \<Longrightarrow> gb_reach round_calls (gb_message bench_env msg g)"
  by (rule reach_step) (auto simp: gb_any_def intro: gb_step.message)

lemma bench_report_acked:
  "\<exists>g g'. run_without_reload round_calls g \<and> gs_online (g_st g) = 1 \<and> gb_do_checksock bench_env g = (0, g') \<and>
     gb_trans_lst (g_dat g) = [0] \<and> gb_trans_lst (g_dat g') = []"
proof -
  obtain g where g: "run_without_reload [] g" "sent_one 0 g" using bench_report_sent by blast
  have "plain_step ([], g) (round_calls, gb_message bench_env NO_MSG g)"
    unfolding plain_step_def using gb_step.message by blast
  then have "run_without_reload round_calls g" using run_plain [OF g(1)] by (simp add: gb_message_def r_into_rtranclp)
  then show ?thesis using g sent_one_synced [OF g(2)] by (auto simp: sent_one_def)
qed

text \<open>The bus goes down: the unit logs out, and the bus comes up again before the answer.\<close>

lemma bench_bus_down:
  "\<exists>g. gb_reach round_calls g \<and> gs_online (g_st g) = 1 \<and> gs_can (g_st g) = 0 \<and> gs_network (g_st g) = 1 \<and> gb_port g = 1 \<and>
     gb_url g = [0x61] \<and> gb_data_noreport (g_dat g)"
proof -
  obtain g where g: "gb_reach [] g" "sent_one 0 g" using bench_report_sent by blast
  show ?thesis
    by (intro exI [of _ "gb_message bench_env GB_MSG_CANOFF g"] conjI bench_message [OF g(1)])
       (use g(2) in \<open>simp_all add: gb_message_def sent_one_def upd_st_def\<close>)
qed

lemma bench_sync:
  assumes "sk_stat (g_sock g) = SOCK_STAT_OPENED" "sk_type (g_sock g) = SOCK_TYPE_SYNCTCP"
  shows "\<exists>g'. gb_sync bench_env g = (0, g') \<and> g_st g' = g_st g"
  using assms by (cases "sk_used (g_sock g)") (simp_all add: gb_sync_def sock_sync_def bench_env_def Let_def)

lemma bench_logging_out:
  "\<exists>g. gb_reach (tl round_calls) g \<and> gs_wait (g_st g) = PROT_LOGOUT \<and> gs_can (g_st g) = 1"
proof -
  obtain g where g: "gb_reach [] g" "sent_one 0 g" using bench_report_sent by blast
  let ?m = "gb_message bench_env GB_MSG_CANOFF g"
  have m: "sent_one 0 ?m" "gs_can (g_st ?m) = 0" using g(2) by (simp_all add: gb_message_def sent_one_def upd_st_def)
  obtain g1 where g1: "gb_do_checksock bench_env ?m = (0, g1)" "gb_trans_lst (g_dat g1) = []" "gb_data_noreport (g_dat g1)"
      "sk_stat (g_sock g1) = SOCK_STAT_OPENED" "sk_type (g_sock g1) = SOCK_TYPE_SYNCTCP" "sk_free (g_sock g1) = 36"
      "sk_used (g_sock g1) = []" "g_st g1 = g_st ?m" "gb_port g1 = 1" "gb_url g1 = [0x61]" "gb_allow_sleep g1 = 0"
    using sent_one_synced [OF m(1)] by blast
  let ?buf = "gb_pack_logout bench_env g1"
  have "?buf \<noteq> []" by (simp add: gb_pack_logout_def gb_seal_def Let_def)
  then obtain g2 where g2: "gb_sock_send bench_env ?buf False g1 = (int (length ?buf), g2)" "0 < int (length ?buf)"
      "sk_stat (g_sock g2) = SOCK_STAT_OPENED" "sk_type (g_sock g2) = SOCK_TYPE_SYNCTCP" "g_st g2 = g_st g1" "g_dat g2 = g_dat g1"
      "gb_port g2 = 1" "gb_url g2 = [0x61]" "sy_sync (hd (sk_used (g_sock g2))) = False" "sk_used (g_sock g2) \<noteq> []"
    using g1 by (simp add: gb_sock_send_def sock_send_def Let_def bench_env_def)
  let ?g3 = "upd_st (\<lambda>s. s\<lparr>gs_wait := PROT_LOGOUT, gs_waittime := 1\<rparr>) g2"
  have "gb_data_get_pack (g_dat g1) = (None, g_dat g1)" using g1(3) by (simp add: gb_data_noreport_def gb_data_get_pack_def)
  moreover have "gb_do_logout bench_env g1 = (-1, ?g3)"
    using g1(2,3,8) m g2(1,2) by (simp add: gb_do_logout_def gb_data_nosending_def gb_data_noreport_def) (simp add: bench_env_def)
  ultimately have "gb_round bench_env GB_MSG_CANOFF (\<lambda>_. bench_env) g = Some ?g3"
    using g1 m idle_receive
    by (simp add: gb_round_def gb_call_step_def gb_do_wait_def gb_do_login_def gb_do_suspend_def gb_do_report_def sent_one_def)
  then have "gb_reach [] ?g3" using bench_steps reach_plain [OF g(1)] by blast
  then have r: "gb_reach round_calls (gb_message bench_env GB_MSG_CANON ?g3)" by (rule bench_message)
  let ?g4 = "gb_message bench_env GB_MSG_CANON ?g3"
  obtain g5 where g5: "gb_sync bench_env ?g4 = (0, g5)" "g_st g5 = g_st ?g4"
    using bench_sync [of ?g4] g2(3,4) by (auto simp: gb_message_def)
  then have "gb_do_checksock bench_env ?g4 = (0, g5)"
    using g2 m g1(8)
    by (simp add: gb_do_checksock_def gb_message_def sock_status_def sock_error_def sent_one_def upd_st_def) (simp add: bench_env_def)
  then have "gb_any (round_calls, ?g4) (tl round_calls, g5)"
    unfolding gb_any_def
    using gb_step.call [OF bench_env_ok(1), of Checksock ?g4 0 g5 "tl round_calls"] by (auto simp: gb_call_step_def)
  then have "gb_reach (tl round_calls) g5" using reach_step [OF r] by blast
  then show ?thesis using g5(2) by (intro exI [of _ g5]) (simp add: gb_message_def)
qed

end
