(* ===== verification/GbProps.thy ===== *)
theory GbProps
  imports GbBench Sleep
begin

text \<open>
  The properties of the telematics client: no report is dropped before the server has it, the bus going
  silent in an unlucky moment, the messages of the server, and power management waiting for the logout.
\<close>

section \<open>Reports are kept until they are acknowledged\<close>

lemma acked_report:
  assumes "link_ok True g" "gb_do_checksock e g = (res, g')" "gb_trans_lst (g_dat g') \<noteq> gb_trans_lst (g_dat g)"
  shows "\<exists>n k. gb_trans_lst (g_dat g) = n # gb_trans_lst (g_dat g') \<and> gb_free_lst (g_dat g') = gb_free_lst (g_dat g) @ [n] \<and>
     ev_unack e = Some k \<and> report_len g n \<le> sk_sendsz (g_sock g) - k"
proof -
  obtain r called s where s: "sock_sync (ev_unack e) (g_sock g) = (r, called, s)" by (metis prod_cases3)
  have dat: "g_dat g' = g_dat g \<or> called \<and> g_dat g' = gb_data_ack_pack (g_dat g)"
    using assms(2) s by (auto simp: gb_do_checksock_def gb_sync_def Let_def split: if_splits)
  then have called: "called" "g_dat g' = gb_data_ack_pack (g_dat g)" using assms(3) by auto
  obtain k x xs where k: "ev_unack e = Some k" "sk_used (g_sock g) = x # xs" "sy_sync x" "sy_len x \<le> sk_sendsz (g_sock g) - k"
      "sk_stat (g_sock g) = SOCK_STAT_OPENED"
    using s called(1) by (auto simp: sock_sync_def split: if_splits option.splits list.splits)
  then have p: "pending (g_sock g) = sy_len x # map sy_len (filter sy_sync xs)" by (simp add: pending_def)
  moreover have "gs_online (g_st g) \<noteq> 0 \<longrightarrow> matched True g" "gs_online (g_st g) = 0 \<longrightarrow> pending (g_sock g) = []"
    using assms(1) k(5) by (simp_all add: link_ok_def)
  ultimately have "map (report_len g) (gb_trans_lst (g_dat g)) = sy_len x # map sy_len (filter sy_sync xs)"
    by (auto simp: matched_def)
  then obtain n ns where n: "gb_trans_lst (g_dat g) = n # ns" "report_len g n = sy_len x" by auto
  then show ?thesis using called(2) k by (simp add: gb_data_ack_pack_def)
qed

text \<open>A login after a broken connection, seen from the lists.\<close>

lemma relogin_lists:
  assumes "lists_ok [] (g_dat g)" "gs_wait (g_st g) = PROT_LOGIN" "gs_login (g_st g) \<noteq> 0"
  shows "\<exists>g'. gb_login_ack 1 g = Some (0, g') \<and> gs_online (g_st g') = 1 \<and>
     gb_trans_lst (g_dat g') = [] \<and> gb_realtm_lst (g_dat g') = [] \<and> gb_free_lst (g_dat g') = gb_free_lst (g_dat g) \<and>
     gb_delay_lst (g_dat g') = filter (home (g_dat g) Delay) (gb_trans_lst (g_dat g)) @ gb_delay_lst (g_dat g) @
       filter (home (g_dat g) Realtm) (gb_trans_lst (g_dat g)) @ gb_realtm_lst (g_dat g) \<and>
     (\<forall>n. gp_data (gb_datamem (g_dat g') ! n) = gp_data (gb_datamem (g_dat g) ! n))"
proof -
  let ?d = "g_dat g"
  obtain d1 where d1: "gb_data_flush_sending ?d = Some d1" "gb_trans_lst d1 = []" "gb_free_lst d1 = gb_free_lst ?d"
      "gb_realtm_lst d1 = filter (home ?d Realtm) (gb_trans_lst ?d) @ gb_realtm_lst ?d"
      "gb_delay_lst d1 = filter (home ?d Delay) (gb_trans_lst ?d) @ gb_delay_lst ?d" "gb_datamem d1 = gb_datamem ?d"
    using flush_sending_ok [OF assms(1)] by simp
  have "lists_ok [] d1" using flush_sending_lists_ok [OF assms(1) d1(1)] by simp
  then have "gp_data (gb_datamem (gb_data_flush_realtm d1) ! n) = gp_data (gb_datamem ?d ! n)" for n
    using flush_realtm_mem [of "gb_realtm_lst d1" "d1\<lparr>gb_realtm_lst := []\<rparr>" n] d1(6)
    by (auto simp: gb_data_flush_realtm_def lists_ok_def movable_def)
  then show ?thesis
    using assms(2,3) d1 flush_realtm_lists [of "gb_realtm_lst d1" "d1\<lparr>gb_realtm_lst := []\<rparr>"]
    by (simp add: gb_login_ack_def Let_def gb_data_flush_realtm_def)
qed

text \<open>
  What a received packet does to the reports: nothing, or it accepts a login, and the reports sent are
  delayed reports afterwards. After a login none is accepted again in the same call.
\<close>

definition put_off :: "gb \<Rightarrow> gb \<Rightarrow> bool" where
  "put_off g g' \<longleftrightarrow> (\<forall>n \<in> set (gb_trans_lst (g_dat g)). n \<in> set (gb_delay_lst (g_dat g')) \<and>
     gp_data (gb_datamem (g_dat g') ! n) = gp_data (gb_datamem (g_dat g) ! n))"

lemma packet_reports:
  assumes "link_ok x g" "gb_packet g = Some (res, g')"
  shows "g_dat g' = g_dat g \<and> (gs_wait (g_st g') = gs_wait (g_st g) \<or> gs_wait (g_st g') = 0) \<or>
    gs_wait (g_st g) = PROT_LOGIN \<and> put_off g g' \<and> gs_wait (g_st g') = 0"
proof -
  let ?ack = "gs_rcvbuf (g_st g) ! 3"
  consider (login) "gb_login_ack ?ack g = Some (res, g')" | (logout) "gb_logout_ack ?ack g = (res, g')"
    | (caltime) "gb_caltime_ack ?ack g = (res, g')" | (same) "g' = g"
    using assms(2)
    by (simp add: gb_packet_def Let_def gb_handle_query_def gb_handle_setup_def gb_handle_control_def split: if_splits)
  then show ?thesis
  proof cases
    case login
    show ?thesis
    proof (cases "gs_wait (g_st g) = PROT_LOGIN \<and> ?ack = 1")
      case False
      then show ?thesis using login by (auto simp: gb_login_ack_def split: if_splits)
    next
      case True
      have l: "lists_ok [] (g_dat g)" "gs_login (g_st g) = 0 \<longrightarrow> gb_trans_lst (g_dat g) = []"
        using assms(1) by (simp_all add: link_ok_def)
      have w: "gs_wait (g_st g') = 0"
        using login True by (auto simp: gb_login_ack_def Let_def bind_eq_Some_conv split: if_splits)
      moreover have "put_off g g'"
      proof (cases "gs_login (g_st g) = 0")
        case True
        then show ?thesis using l(2) by (simp add: put_off_def)
      next
        case again: False
        obtain g1 where g1: "gb_login_ack 1 g = Some (0, g1)"
            "gb_delay_lst (g_dat g1) = filter (home (g_dat g) Delay) (gb_trans_lst (g_dat g)) @ gb_delay_lst (g_dat g) @
              filter (home (g_dat g) Realtm) (gb_trans_lst (g_dat g)) @ gb_realtm_lst (g_dat g)"
            "\<forall>n. gp_data (gb_datamem (g_dat g1) ! n) = gp_data (gb_datamem (g_dat g) ! n)"
          using relogin_lists [OF l(1) _ again] True by blast
        have "home (g_dat g) Realtm n \<or> home (g_dat g) Delay n" if "n \<in> set (gb_trans_lst (g_dat g))" for n
          using l(1) that unfolding lists_ok_def by (metis gb_list.exhaust option.exhaust)
        then have "put_off g g1" using g1(2,3) by (auto simp: put_off_def)
        moreover have "g1 = g'" using g1(1) login True by simp
        ultimately show ?thesis by simp
      qed
      ultimately show ?thesis using True by simp
    qed
  qed (auto simp: gb_logout_ack_def gb_caltime_ack_def split: if_splits)
qed

lemma receive_loop_reports:
  "conn_ok x g \<Longrightarrow> receive_loop input rlen g = Some (res, g') \<Longrightarrow>
   g_dat g' = g_dat g \<or> gs_wait (g_st g) = PROT_LOGIN \<and> put_off g g'"
proof (induction input rlen g rule: receive_loop.induct)
  case (1 input rlen g)
  show ?case
  proof (cases "rlen = 0")
    case True
    then show ?thesis using 1(3) by (subst (asm) receive_loop.simps) simp
  next
    case False
    obtain r u s where m: "gb_makeup_pack (g_st g) input rlen 0 = Some (r, u, s)"
      using 1(3) False by (subst (asm) receive_loop.simps) (auto split: option.splits)
    let ?g1 = "g\<lparr>g_st := s\<rparr>"
    have ok: "conn_ok x ?g1" using 1(2) link_frame [OF _ makeup_frame [OF m]] by (simp add: conn_ok_def)
    have w: "gs_wait (g_st ?g1) = gs_wait (g_st g)" using makeup_frame [OF m] by (simp add: rcv_frame_def)
    show ?thesis
    proof (cases "r = 0")
      case incomplete: False
      then show ?thesis using 1(3) False m by (subst (asm) receive_loop.simps) auto
    next
      case complete: True
      obtain ret g2 where p: "gb_packet ?g1 = Some (ret, g2)"
        using 1(3) False m complete by (subst (asm) receive_loop.simps) (auto split: option.splits)
      have rest: "(if ret \<noteq> 0 then Some (ret, g2) else receive_loop (drop u input) (rlen - u) g2) = Some (res, g')"
        using 1(3) False m complete p by (subst (asm) receive_loop.simps) simp
      have "link_ok x ?g1" using ok by (simp add: conn_ok_def)
      from packet_reports [OF this p] w
      have step: "g_dat g2 = g_dat g \<and> (gs_wait (g_st g2) = gs_wait (g_st g) \<or> gs_wait (g_st g2) = 0) \<or>
          gs_wait (g_st g) = PROT_LOGIN \<and> put_off g g2 \<and> gs_wait (g_st g2) = 0"
        by (auto simp: put_off_def)
      show ?thesis
      proof (cases "ret = 0")
        case True
        have "conn_ok x g2" using link_packet [OF ok p] True by simp
        then have "g_dat g' = g_dat g2 \<or> gs_wait (g_st g2) = PROT_LOGIN \<and> put_off g2 g'"
          using 1(1) [OF False m refl refl _ p refl] complete True rest by simp
        then show ?thesis using step by (auto simp: put_off_def PROT_LOGIN_def)
      qed (use rest step in auto)
    qed
  qed
qed

lemma receive_reports:
  assumes "conn_ok x g" "gb_do_receive e g = Some (res, g')"
  shows "g_dat g' = g_dat g \<or> gs_wait (g_st g) = PROT_LOGIN \<and> put_off g g'"
proof -
  obtain r again array where r: "ev_recv e = (r, again, array)" by (metis prod_cases3)
  show ?thesis
  proof (cases "sock_recv r again (g_sock g) < 0")
    case True
    then show ?thesis using assms(2) r by (auto simp: gb_do_receive_def)
  next
    case False
    then have "receive_loop array (nat (sock_recv r again (g_sock g))) g = Some (res, g')"
      using assms(2) r by (simp add: gb_do_receive_def)
    then show ?thesis by (rule receive_loop_reports [OF assms(1)])
  qed
qed

lemma report_sent_list:
  assumes "lists_ok [] (g_dat g)" "gb_env_ok e" "gb_do_report e g = Some (res, g')"
  shows "set (gb_trans_lst (g_dat g)) \<subseteq> set (gb_trans_lst (g_dat g'))"
  using assms
proof (cases rule: report_cases)
  case (lost n d)
  then show ?thesis using get_pack_ok [OF assms(1) lost(1)] by simp
next
  case (sent n d d2 r s y)
  then show ?thesis by (auto simp: gb_data_put_send_def keeps_def split: if_splits)
next
  case (undone n d d2)
  then have "gb_trans_lst d2 = gb_trans_lst (g_dat g)"
    by (auto simp: gb_data_put_back_def keeps_def split: if_splits option.splits gb_list.splits)
  then show ?thesis using undone(5) by auto
qed simp

lemma sock_send_dat: "gb_sock_send e buf sync g = (res, g') \<Longrightarrow> g_dat g' = g_dat g"
  by (auto simp: gb_sock_send_def split: prod.splits)

lemma quiet_calls:
  "g_dat (snd (gb_do_wait e g)) = g_dat g" "g_dat (snd (gb_do_login e g)) = g_dat g"
  "g_dat (snd (gb_do_suspend g)) = g_dat g" "g_dat (snd (gb_do_logout e g)) = g_dat g"
  by (auto simp: gb_do_wait_def gb_do_login_def gb_do_suspend_def gb_do_logout_def gb_pack_login_def Let_def
      dest!: sock_send_dat split: prod.splits)





text \<open>
  A description that is loaded while a report is on its way: the list of the reports sent is empty
  afterwards and the record of the socket is not.
\<close>

theorem reload_forgets_reports:
  assumes "gb_reach pc g" "gs_online (g_st g) \<noteq> 0" "gb_trans_lst (g_dat g) \<noteq> []" "gb_step Reload (pc, g) (pc', g')"
  shows "gb_trans_lst (g_dat g') = [] \<and> pending (g_sock g') \<noteq> [] \<and> set (gb_trans_lst (g_dat g)) \<subseteq> set (gb_free_lst (g_dat g'))"
proof -
  have l: "link_ok False g" using reach_inv [OF assms(1)] by (simp add: gb_inv_def)
  obtain d where d: "data_reload (g_dat g) d" "g' = g\<lparr>g_dat := d\<rparr>" using assms(4) by (auto elim: gb_step.cases)
  have ok: "lists_ok [] (g_dat g)" "matched False g" using l assms(2) by (simp_all add: link_ok_def)
  then have "set (gb_trans_lst (g_dat g)) \<subseteq> {..<GB_MAX_REPORT}" "pending (g_sock g) \<noteq> []"
    using assms(3) by (auto simp: lists_ok_def matched_def)
  moreover have "gb_free_lst d = [0..<GB_MAX_REPORT]"
    using d(1) by (auto elim!: data_reload.cases simp: gb_data_dbc_finished_def gb_data_clear_report_def Let_def)
  ultimately show ?thesis using reload_ok [OF d(1) ok(1)] d(2) by (simp add: atLeast0LessThan)
qed

section \<open>A new connection\<close>

text \<open>\<^bold>\<open>C14\<close>
  When the unit logs in again after a broken connection, no report is lost: the reports sent and not
  acknowledged, the delayed ones and the real-time ones are all delayed reports afterwards, first the
  unacknowledged and waiting delayed ones, then the unacknowledged and waiting real-time ones, each in
  their old order, with their contents, and the free buffers stay free.\<close>

theorem reports_survive_reconnect:
  assumes "lists_ok [] (g_dat g)" "gs_wait (g_st g) = PROT_LOGIN" "gs_login (g_st g) \<noteq> 0"
  shows "\<exists>g'. gb_login_ack 1 g = Some (0, g') \<and> gs_online (g_st g') = 1 \<and>
     gb_trans_lst (g_dat g') = [] \<and> gb_realtm_lst (g_dat g') = [] \<and> gb_free_lst (g_dat g') = gb_free_lst (g_dat g) \<and>
     gb_delay_lst (g_dat g') = filter (home (g_dat g) Delay) (gb_trans_lst (g_dat g)) @ gb_delay_lst (g_dat g) @
       filter (home (g_dat g) Realtm) (gb_trans_lst (g_dat g)) @ gb_realtm_lst (g_dat g) \<and>
     (\<forall>n. gp_data (gb_datamem (g_dat g') ! n) = gp_data (gb_datamem (g_dat g) ! n))"
  by (rule relogin_lists [OF assms])

definition bench_lists :: gb_data where
  "bench_lists = (gb_data_start 1)\<lparr>gb_datamem := replicate GB_MAX_REPORT (zero_pack\<lparr>gp_list := Some Realtm\<rparr>),
     gb_groups := Some 1, gb_trans_lst := [0], gb_realtm_lst := [1, 2]\<rparr>"

lemma bench_lists_ok: "lists_ok [] bench_lists"
  by (simp add: lists_ok_def movable_def homed_def bench_lists_def gb_data_start_def)
     (simp add: GB_MAX_REPORT_def nth_replicate)

theorem reports_survive_reconnect_witness:
  "\<exists>g'. gb_login_ack 1 (upd_st (\<lambda>s. s\<lparr>gs_wait := PROT_LOGIN, gs_login := 1\<rparr>) (bench_start bench_lists)) = Some (0, g') \<and>
     gb_trans_lst (g_dat g') = [] \<and> gb_realtm_lst (g_dat g') = [] \<and> gb_delay_lst (g_dat g') = [0, 1, 2]"
proof -
  let ?g = "upd_st (\<lambda>s. s\<lparr>gs_wait := PROT_LOGIN, gs_login := 1\<rparr>) (bench_start bench_lists)"
  have d: "g_dat ?g = bench_lists" by (simp add: bench_start_def gb_start_def)
  have h: "home bench_lists Realtm 0"
    by (simp add: bench_lists_def gb_data_start_def GB_MAX_REPORT_def)
  have l: "gb_trans_lst bench_lists = [0]" "gb_realtm_lst bench_lists = [1, 2]" "gb_delay_lst bench_lists = []"
    by (simp_all add: bench_lists_def gb_data_start_def)
  show ?thesis
    using reports_survive_reconnect [of ?g, unfolded d, OF bench_lists_ok] h l by auto
qed

section \<open>A report that does not fit\<close>

lemma lost_report:
  assumes "lists_ok [] (g_dat g)" "gb_data_get_pack (g_dat g) = (Some n, d)"
    "sock_bufsz (ev_bufsz e) (ev_unack e) (g_sock g) = b" "0 \<le> b" "b < 2304"
  shows "gb_do_report e g = Some (0, g\<lparr>g_dat := d\<rparr>)"
proof -
  have "(word_of_int b :: u32) < 2304" using assms(4,5) by (simp add: word_less_def uint_word_of_int take_bit_eq_mod)
  then have "\<not> 1280 + GB_SOCKET_RSVD \<le> (word_of_int b :: u32)" by (simp add: GB_SOCKET_RSVD_def)
  then show ?thesis using assms(2,3) by (simp add: gb_do_report_def)
qed

text \<open>A report is lost when the socket has less than 2304 bytes of room: the call that should send it takes
  it out of its list, sends nothing, and leaves it in no list; whatever the bus does afterwards, its
  buffer is used for nothing again, until the lists are made anew.\<close>

theorem report_lost_when_no_room:
  assumes "lists_ok [] (g_dat g)" "gb_data_get_pack (g_dat g) = (Some n, d)"
    "sock_bufsz (ev_bufsz e) (ev_unack e) (g_sock g) = b" "0 \<le> b" "b < 2304" "data_event\<^sup>*\<^sup>* d d'"
  shows "gb_do_report e g = Some (0, g\<lparr>g_dat := d\<rparr>) \<and>
     n \<in> set (gb_realtm_lst (g_dat g)) \<union> set (gb_delay_lst (g_dat g)) \<and>
     n \<notin> set (gb_free_lst d' @ gb_realtm_lst d' @ gb_delay_lst d' @ gb_trans_lst d') \<and>
     gb_datamem d' ! n = gb_datamem (g_dat g) ! n"
proof -
  note out = get_pack_ok [OF assms(1,2)]
  have "n \<in> set (gb_realtm_lst (g_dat g)) \<union> set (gb_delay_lst (g_dat g))"
    using assms(2) by (auto simp: gb_data_get_pack_def split: list.splits if_splits)
  moreover have "keeps [n] d d'" by (rule keeps_events [OF assms(6)]) (use out in auto)
  then have k: "lists_ok [n] d'" "gb_datamem d' ! n = gb_datamem (g_dat g) ! n" using out by (simp_all add: keeps_def)
  ultimately show ?thesis
    using lost_report [OF assms(1-5)] not_linked [OF k(1)] k(2) unfolding linked_def by blast
qed


theorem report_lost_when_no_room_witness:
  "\<exists>d. gb_do_report (bench_env\<lparr>ev_bufsz := Some 100\<rparr>)
      ((bench_start bench_lists)\<lparr>g_sock := bench_sock\<lparr>sk_stat := SOCK_STAT_OPENED\<rparr>\<rparr>) =
    Some (0, ((bench_start d)\<lparr>g_sock := bench_sock\<lparr>sk_stat := SOCK_STAT_OPENED\<rparr>\<rparr>)) \<and>
    1 \<in> set (gb_realtm_lst bench_lists) \<and> 1 \<notin> set (gb_free_lst d @ gb_realtm_lst d @ gb_delay_lst d @ gb_trans_lst d)"
proof -
  let ?e = "bench_env\<lparr>ev_bufsz := Some 100\<rparr>" and ?g = "(bench_start bench_lists)\<lparr>g_sock := bench_sock\<lparr>sk_stat := SOCK_STAT_OPENED\<rparr>\<rparr>"
  let ?d = "bench_lists\<lparr>gb_realtm_lst := [2]\<rparr>"
  have dat: "g_dat ?g = bench_lists" by (simp add: bench_start_def gb_start_def)
  have get: "gb_data_get_pack (g_dat ?g) = (Some 1, ?d)"
    unfolding dat by (simp add: gb_data_get_pack_def bench_lists_def)
  have sz: "sock_bufsz (ev_bufsz ?e) (ev_unack ?e) (g_sock ?g) = 100" by (simp add: sock_bufsz_def bench_env_def)
  have ok: "lists_ok [] (g_dat ?g)" unfolding dat by (rule bench_lists_ok)
  note lost = report_lost_when_no_room [OF ok get sz _ _ rtranclp.rtrancl_refl]
  have "?g\<lparr>g_dat := ?d\<rparr> = (bench_start ?d)\<lparr>g_sock := bench_sock\<lparr>sk_stat := SOCK_STAT_OPENED\<rparr>\<rparr>"
    by (simp add: bench_start_def gb_start_def)
  then show ?thesis using lost by (intro exI [of _ ?d]) (simp add: dat bench_lists_def)
qed

section \<open>Sleep\<close>

text \<open>The telematics client as a module of power management.\<close>

lemma logged_in_awake: "gb_reach pc g \<Longrightarrow> gs_online (g_st g) \<noteq> 0 \<Longrightarrow> gb_allow_sleep_handler g = 0"
  using reach_inv by (auto simp: gb_inv_def link_ok_def gb_allow_sleep_handler_def)

interpretation gb_votes: sleep_voter "\<lambda>i x. gb_allow_sleep_handler (snd x)" "\<lambda>x. gb_reach (fst x) (snd x) \<and> gs_online (g_st (snd x)) \<noteq> 0"
  by unfold_locales (use logged_in_awake in auto)

text \<open>\<^bold>\<open>C8\<close>
  With the telematics client registered at power management, the system goes to sleep only while the
  client is not logged in at the server, whatever the two modules, the bus and the socket did before.\<close>

theorem sleeps_only_logged_out:
  assumes "pm_reach p" "pm_step env p p'" "pm_state p \<noteq> PM_ST_SLEEP" "pm_state p' = PM_ST_SLEEP" "registered h p"
    "gb_reach pc g" "env_handler env h PM_MSG_SLEEP = gb_allow_sleep_handler g"
  shows "gs_online (g_st g) = 0"
  using gb_votes.sleeps_when_idle [OF assms(1-5), of "(pc, g)"] assms(6,7) by auto

lemma bench_idle_reached: "gb_reach [] (bench_start (gb_data_start 1))"
  unfolding gb_reach_def bench_start_def by blast

theorem sleeps_only_logged_out_witness:
  "\<exists>p p'. pm_reach p \<and> pm_step idle_env p p' \<and> pm_state p = PM_ST_MCK_SLEEP \<and> pm_state p' = PM_ST_SLEEP \<and>
     env_handler idle_env 0 PM_MSG_SLEEP = gb_allow_sleep_handler (bench_start (gb_data_start 1)) \<and>
     gs_online (g_st (bench_start (gb_data_start 1))) = 0"
proof -
  let ?p = "bench_in PM_ST_MCK_SLEEP PM_MSG_SLEEP PM_EVT_SLEEP_REQ"
  have "registered 0 ?p" by (simp add: registered_def bench_in_def enter_emits) (simp add: pm_emit_def bench_table)
  moreover have "env_handler idle_env 0 PM_MSG_SLEEP = gb_allow_sleep_handler (bench_start (gb_data_start 1))"
    by (simp add: idle_env_def bench_start_def gb_start_def gb_allow_sleep_handler_def)
  moreover have "pm_state ?p = PM_ST_MCK_SLEEP" by (simp add: bench_in_fields)
  ultimately show ?thesis
    using sleeps_only_logged_out [OF bench_falls_asleep _ asleep_state _ bench_idle_reached, of 0] bench_falls_asleep asleep_state
    by (intro exI [of _ ?p] exI conjI) (auto simp only: PM_STATE.distinct)
qed

section \<open>The ignition and the logout\<close>

text \<open>
  Runs without a message of the bus coming up or going down, from a state in which the socket is closed
  and the unit is not logged in.
\<close>

definition no_can :: "gb_act \<Rightarrow> bool" where
  "no_can a \<longleftrightarrow> a \<noteq> Message GB_MSG_CANON \<and> a \<noteq> Message GB_MSG_CANOFF"

definition quiet_step :: "gb_call list \<times> gb \<Rightarrow> gb_call list \<times> gb \<Rightarrow> bool" where
  "quiet_step x y \<longleftrightarrow> (\<exists>a. no_can a \<and> gb_step a x y)"

definition parked :: "gb \<Rightarrow> gb_call list \<times> gb \<Rightarrow> bool" where
  "parked g0 x \<longleftrightarrow> (fst x = [] \<or> fst x = round_calls) \<and> sk_stat (g_sock (snd x)) = SOCK_STAT_CLOSED \<and>
     gs_online (g_st (snd x)) = 0 \<and> gb_allow_sleep (snd x) = gb_allow_sleep g0 \<and> gs_can (g_st (snd x)) = gs_can (g_st g0) \<and>
     g_sent (snd x) = g_sent g0"

lemma parked_reset: "parked g0 (pc, g) \<Longrightarrow> parked g0 (pc, gb_reset g)"
  by (simp add: parked_def gb_reset_def upd_st_def sock_close_def)

lemma parked_message:
  assumes "parked g0 ([], g)" "no_can (Message msg)"
  shows "parked g0 (round_calls, gb_message e msg g)"
proof -
  have r: "parked g0 (round_calls, g)" using assms(1) by (simp add: parked_def)
  show ?thesis
  proof (cases msg)
    case (GB_MSG_CONFIG cfg)
    then show ?thesis using r
      by (cases cfg) (simp_all add: gb_message_def gb_do_config_def parked_def gb_reset_def upd_st_def sock_close_def)
  qed (use r parked_reset [OF r] assms(2) in \<open>simp_all add: gb_message_def parked_def upd_st_def no_can_def\<close>)
qed

lemma parked_service: "parked g0 (pc, g) \<Longrightarrow> snd (gb32960_ServiceMsgSend e msg g) = g"
  by (simp add: parked_def gb32960_ServiceMsgSend_def gb_sock_send_def sock_send_def)

text \<open>A step keeps a parked state as long as the check of the socket does not open it.\<close>

lemma parked_step:
  assumes "gb_step a (pc, g) (pc', g')" "no_can a" "parked g0 (pc, g)"
    "gb_allow_sleep g0 \<noteq> 0 \<or> gb_data_noreport (g_dat g)"
  shows "parked g0 (pc', g')"
  using assms(1)
proof cases
  case (message msg e)
  then show ?thesis using parked_message assms(2,3) by simp
next
  case (call e c res cs)
  then have "c = Checksock" using assms(3) by (auto simp: parked_def)
  moreover have "gb_do_checksock e g = (-1, g)"
    using assms(3,4) by (auto simp: gb_do_checksock_def parked_def sock_status_def)
  ultimately show ?thesis using call assms(3) by (auto simp: gb_call_step_def parked_def)
next
  case (service e msg)
  then show ?thesis using parked_service assms(3) by simp
qed (use assms(3) in \<open>auto simp: parked_def\<close>)

lemma parked_steps:
  assumes "quiet_step\<^sup>*\<^sup>* x y" "parked g0 x" "gb_allow_sleep g0 \<noteq> 0"
  shows "parked g0 y"
  using assms(1)
proof (induction rule: rtranclp_induct)
  case (step y z)
  then show ?case using parked_step [of _ "fst y" "snd y" "fst z" "snd z" g0] assms(3) by (auto simp: quiet_step_def)
qed (rule assms(2))

text \<open>When the bus comes up while the unit waits for the answer to its logout, the unit does not come back:
  the answer closes the connection and allows the system to sleep although the bus is up, and from then
  on, until the bus goes down or up once more, nothing is sent whatever reports are made, and sleep
  stays allowed.\<close>

theorem ignition_during_logout_ignored:
  assumes "gb_reach (Receive # pc) g" "gs_wait (g_st g) = PROT_LOGOUT" "gs_can (g_st g) = 1"
    "gb_logout_ack 1 g = (res, g1)" "quiet_step\<^sup>*\<^sup>* ([], g1) (pc', g')"
  shows "res = -1 \<and> gs_can (g_st g') = 1 \<and> gb_allow_sleep_handler g' = 1 \<and> gs_online (g_st g') = 0 \<and> g_sent g' = g_sent g"
proof -
  have "sk_stat (g_sock g) = SOCK_STAT_OPENED"
    using reach_inv [OF assms(1)] by (simp add: gb_inv_def conn_ok_def)
  then have g1: "res = -1" "parked g1 ([], g1)" "gb_allow_sleep g1 = 1" "gs_can (g_st g1) = 1" "g_sent g1 = g_sent g"
    using assms(2-4) by (auto simp: gb_logout_ack_def parked_def gb_reset_def upd_st_def sock_close_def)
  then have "parked g1 (pc', g')" using parked_steps [OF assms(5)] by simp
  then show ?thesis using g1 by (simp add: parked_def gb_allow_sleep_handler_def)
qed

theorem ignition_during_logout_ignored_witness:
  "\<exists>g g1. gb_reach (tl round_calls) g \<and> gs_can (g_st g) = 1 \<and> gb_logout_ack 1 g = (-1, g1) \<and> gb_allow_sleep_handler g1 = 1"
proof -
  obtain g where g: "gb_reach (tl round_calls) g" "gs_wait (g_st g) = PROT_LOGOUT" "gs_can (g_st g) = 1"
    using bench_logging_out by blast
  obtain res g1 where a: "gb_logout_ack 1 g = (res, g1)" by fastforce
  have "gb_reach (Receive # tl (tl round_calls)) g" using g(1) by simp
  from ignition_during_logout_ignored [OF this g(2,3) a rtranclp.rtrancl_refl] show ?thesis using g a by auto
qed

text \<open>Runs in which moreover no report is made.\<close>

definition silent_step :: "gb_call list \<times> gb \<Rightarrow> gb_call list \<times> gb \<Rightarrow> bool" where
  "silent_step x y \<longleftrightarrow> quiet_step x y \<and> gb_data_noreport (g_dat (snd y))"

lemma parked_silent:
  assumes "silent_step\<^sup>*\<^sup>* x y" "parked g0 x" "gb_data_noreport (g_dat (snd x))"
  shows "parked g0 y \<and> gb_data_noreport (g_dat (snd y))"
  using assms(1)
proof (induction rule: rtranclp_induct)
  case (step y z)
  then show ?case using parked_step [of _ "fst y" "snd y" "fst z" "snd z" g0] by (auto simp: silent_step_def quiet_step_def)
qed (use assms(2,3) in simp)

text \<open>When the connection breaks after the bus went down and before the server has answered the logout, and
  no report is left to be sent, the unit keeps the system awake: it never connects again to log out,
  and power management does not go to sleep, until the bus comes up or goes down again or a report is
  made.\<close>

theorem broken_logout_keeps_awake:
  assumes "gb_reach (Checksock # pc) g" "gs_online (g_st g) \<noteq> 0" "gs_can (g_st g) = 0" "gb_data_noreport (g_dat g)"
    "gs_network (g_st g) \<noteq> 0" "gb_port g \<noteq> 0" "gb_url g \<noteq> []" "ev_err e \<noteq> 0"
    "silent_step\<^sup>*\<^sup>* ([], snd (gb_do_checksock e g)) (pc', g')"
    "pm_reach p" "pm_step env p p'" "pm_state p \<noteq> PM_ST_SLEEP" "registered h p"
    "env_handler env h PM_MSG_SLEEP = gb_allow_sleep_handler g'"
  shows "pm_state p' \<noteq> PM_ST_SLEEP \<and> gs_online (g_st g') = 0 \<and> g_sent g' = g_sent g"
proof -
  have g: "sk_stat (g_sock g) = SOCK_STAT_OPENED" "gb_allow_sleep g = 0"
    using reach_inv [OF assms(1)] assms(2) by (auto simp: gb_inv_def link_ok_def)
  then have c: "gb_do_checksock e g = (-1, gb_reset g)"
    using assms(5-8) by (simp add: gb_do_checksock_def sock_status_def sock_error_def)
  have "parked g ([], gb_reset g)" using g by (simp add: parked_def sock_close_def gb_reset_def upd_st_def)
  then have p: "parked g (pc', g')"
    using parked_silent [OF assms(9)] assms(4) unfolding c by simp
  then have "env_handler env h PM_MSG_SLEEP = 0" using assms(14) g by (simp add: parked_def gb_allow_sleep_handler_def)
  moreover have "env_handler env h PM_MSG_SLEEP = 1" if "pm_state p' = PM_ST_SLEEP"
    using sleep_entry [OF assms(10-12) that] assms(13) by (auto simp: registered_def all_ready_def)
  ultimately show ?thesis using p by (auto simp: parked_def)
qed


theorem broken_logout_keeps_awake_witness:
  "\<exists>g p p'. gb_reach round_calls g \<and> gs_online (g_st g) = 1 \<and> pm_reach p \<and>
     pm_step (idle_env\<lparr>env_handler := \<lambda>_ _. 0\<rparr>) p p' \<and> pm_state p = PM_ST_NORMAL \<and> pm_state p' \<noteq> PM_ST_SLEEP \<and>
     gb_allow_sleep_handler (snd (gb_do_checksock (bench_env\<lparr>ev_err := 1\<rparr>) g)) = 0"
proof -
  let ?e = "bench_env\<lparr>ev_err := 1\<rparr>" and ?env = "idle_env\<lparr>env_handler := \<lambda>_ _. 0\<rparr>"
  let ?p' = "bench_in PM_ST_MCK_SLEEP PM_MSG_SLEEP PM_EVT_SLEEP_REQ"
  obtain g where g: "gb_reach round_calls g" "gs_online (g_st g) = 1" "gs_can (g_st g) = 0" "gs_network (g_st g) = 1"
      "gb_port g = 1" "gb_url g = [0x61]" "gb_data_noreport (g_dat g)"
    using bench_bus_down by blast
  let ?g' = "snd (gb_do_checksock ?e g)"
  have "sk_stat (g_sock g) = SOCK_STAT_OPENED" "gb_allow_sleep g = 0"
    using reach_inv [OF g(1)] g(2) by (auto simp: gb_inv_def link_ok_def)
  then have "gb_do_checksock ?e g = (-1, gb_reset g)" and awake: "gb_allow_sleep_handler (gb_reset g) = 0"
    using g by (simp_all add: gb_do_checksock_def sock_status_def sock_error_def gb_allow_sleep_handler_def)
  then have v: "env_handler ?env 0 PM_MSG_SLEEP = gb_allow_sleep_handler ?g'" by simp
  have st: "pm_step ?env bench ?p'" by (rule bench_in_step) (simp_all add: fun_eq_iff pm_st_s0e6_def)
  have "pm_state ?p' \<noteq> PM_ST_SLEEP \<and> gs_online (g_st ?g') = 0 \<and> g_sent ?g' = g_sent g"
    by (rule broken_logout_keeps_awake [OF _ _ g(3,7) _ _ _ _ rtranclp.rtrancl_refl bench_reach st _ _ v])
       (use g in \<open>simp_all add: bench_fields registered_def bench_table\<close>)
  then show ?thesis using g(1,2) bench_reach st v by (intro exI [of _ g] exI [of _ bench] exI [of _ ?p']) (simp add: bench_fields)
qed

section \<open>The messages of a session\<close>

lemma head_length: "17 \<le> length (gb_vin g) \<Longrightarrow> length (gb_pack_head type dir g) = 22"
  by (simp add: gb_pack_head_def)

lemma login_serial:
  assumes "17 \<le> length (gb_vin g)" "gb_pack_login e g = (buf, g1)"
  shows "take 2 (drop 30 buf) = be16 (unat (gb_regseq g1)) \<and> gb_vin g1 = gb_vin g"
proof -
  obtain y where y: "buf = gb_seal (gb_pack_head 1 0xfe g1 @ be16 (length (gb_time (ev_rtc e) @ be16 (unat (gb_regseq g1)) @ y)) @
      gb_time (ev_rtc e) @ be16 (unat (gb_regseq g1)) @ y)" and vin: "gb_vin g1 = gb_vin g"
  proof (rule that)
    show "buf = gb_seal (gb_pack_head 1 0xfe g1 @ be16 (length (gb_time (ev_rtc e) @ be16 (unat (gb_regseq g1)) @
        (take 20 (gb_iccid g1) @ [1, word_of_nat (length (gb_battcode g1))] @ gb_battcode g1))) @
        gb_time (ev_rtc e) @ be16 (unat (gb_regseq g1)) @
        (take 20 (gb_iccid g1) @ [1, word_of_nat (length (gb_battcode g1))] @ gb_battcode g1))" "gb_vin g1 = gb_vin g"
      using assms(2) by (auto simp: gb_pack_login_def Let_def)
  qed
  let ?h = "gb_pack_head 1 0xfe g1 @ be16 (length (gb_time (ev_rtc e) @ be16 (unat (gb_regseq g1)) @ y)) @ gb_time (ev_rtc e)"
  have "length ?h = 30" using head_length [of g1] vin assms(1) by (simp add: be16_def gb_time_def)
  moreover obtain z where "buf = ?h @ be16 (unat (gb_regseq g1)) @ z"
    unfolding y gb_seal_def by simp
  ultimately have "drop 30 buf = be16 (unat (gb_regseq g1)) @ z" by (metis append_eq_conv_conj)
  then show ?thesis using vin by (simp add: be16_def)
qed

lemma logout_serial:
  assumes "17 \<le> length (gb_vin g)" "1 \<le> n" "n \<le> 65531" "gb_regseq g = (if n = 65531 then 1 else word_of_nat (n + 1))"
  shows "take 2 (drop 30 (gb_pack_logout e g)) = be16 n"
proof -
  let ?tmp = "if gb_regseq g = 1 then 65531 else uint (gb_regseq g) - 1"
  have tmp: "?tmp = int n"
  proof (cases "n = 65531")
    case False
    have "unat (word_of_nat (n + 1) :: u16) = n + 1" unfolding unat_of_nat
      by (rule mod_less) (use assms(3) in simp)
    then have "unat (gb_regseq g) = n + 1" using assms(4) False by simp
    then have "uint (gb_regseq g) = int n + 1" by (metis of_nat_Suc Suc_eq_plus1 add.commute uint_nat)
    moreover from this have "gb_regseq g \<noteq> 1" using assms(2) by auto
    ultimately show ?thesis by simp
  qed (use assms(4) in simp)
  let ?h = "gb_pack_head 4 0xfe g @ [0, 8] @ gb_time (ev_rtc e)"
  have "gb_pack_logout e g = ?h @ [word_of_int (int n div 256), word_of_int (int n), gb_checksum (drop 2 (?h @
      [word_of_int (int n div 256), word_of_int (int n)]))]"
    unfolding gb_pack_logout_def Let_def tmp by (simp add: gb_seal_def)
  moreover have "length ?h = 30" using head_length [OF assms(1)] by (simp add: gb_time_def)
  ultimately have "drop 30 (gb_pack_logout e g) = [word_of_int (int n div 256), word_of_int (int n), gb_checksum (drop 2 (?h @
      [word_of_int (int n div 256), word_of_int (int n)]))]"
    by (metis append_eq_conv_conj)
  moreover have "int n div 256 = int (n div 256)" by (simp add: zdiv_int)
  ultimately show ?thesis by (simp add: be16_def)
qed

text \<open>A logout carries the serial number of the login it ends: after a login with a serial number from 1 to
  65531 has been accepted, the bytes of the serial number in the logout are those of the login, also
  where the number starts again at 1.\<close>

theorem logout_names_its_login:
  assumes "17 \<le> length (gb_vin g)" "gb_pack_login e g = (buf, g1)" "1 \<le> gb_regseq g1" "gb_regseq g1 \<le> 65531"
    "gb_regseq g2 = gb_regseq g1" "gb_vin g2 = gb_vin g1" "gs_wait (g_st g2) = PROT_LOGIN" "gb_login_ack 1 g2 = Some (0, g3)"
  shows "take 2 (drop 30 (gb_pack_logout e' g3)) = take 2 (drop 30 buf)"
proof -
  define n where "n = unat (gb_regseq g1)"
  have n: "1 \<le> n" "n \<le> 65531" using assms(3,4) by (simp_all add: n_def word_le_nat_alt)
  have seq: "gb_regseq g1 = word_of_nat n" by (simp add: n_def)
  have g3: "gb_vin g3 = gb_vin g2" "gb_regseq g3 = (if 65531 < gb_regseq g2 + 1 then 1 else gb_regseq g2 + 1)"
    using assms(7,8)
    by (cases "gs_login (g_st g2) = 0"; auto simp: gb_login_ack_def Let_def upd_st_def bind_eq_Some_conv simp del: if_split)+
  have "unat (gb_regseq g2 + 1) = n + 1" using n assms(5) by (simp add: n_def unat_word_ariths)
  then have "65531 < gb_regseq g2 + 1 \<longleftrightarrow> n = 65531" using n by (simp add: word_less_nat_alt) arith
  then have "gb_regseq g3 = (if n = 65531 then 1 else word_of_nat (n + 1))"
    using g3(2) assms(5) seq by simp
  then show ?thesis
    using logout_serial [of g3 n] login_serial [OF assms(1,2)] n g3(1) assms(1,6) by (simp add: n_def)
qed

theorem logout_names_its_login_witness:
  "\<exists>g3. gb_login_ack 1 (upd_st (\<lambda>s. s\<lparr>gs_wait := PROT_LOGIN\<rparr>)
      (snd (gb_pack_login bench_env ((bench_start (gb_data_start 1))\<lparr>gb_vin := replicate 18 0x41\<rparr>)))) = Some (0, g3) \<and>
    take 2 (drop 30 (gb_pack_logout bench_env g3)) =
    take 2 (drop 30 (fst (gb_pack_login bench_env ((bench_start (gb_data_start 1))\<lparr>gb_vin := replicate 18 0x41\<rparr>))))"
proof -
  let ?g = "(bench_start (gb_data_start 1))\<lparr>gb_vin := replicate 18 0x41\<rparr>"
  obtain buf g1 where p: "gb_pack_login bench_env ?g = (buf, g1)" by fastforce
  have g1: "gb_regseq g1 = 1" "gs_login (g_st g1) = 0"
    using p by (auto simp: gb_pack_login_def Let_def bench_start_def gb_start_def bench_env_def)
  let ?g2 = "upd_st (\<lambda>s. s\<lparr>gs_wait := PROT_LOGIN\<rparr>) g1"
  obtain g3 where g3: "gb_login_ack 1 ?g2 = Some (0, g3)" using g1(2) by (simp add: gb_login_ack_def Let_def)
  have "take 2 (drop 30 (gb_pack_logout bench_env g3)) = take 2 (drop 30 buf)"
    by (rule logout_names_its_login [OF _ p _ _ _ _ _ g3]) (use g1 in \<open>simp_all add: upd_st_def\<close>)
  then show ?thesis using p g3 by simp
qed

section \<open>A logout without an answer\<close>

definition timed_out :: "gb_env \<Rightarrow> u64 \<Rightarrow> gb \<Rightarrow> bool" where
  "timed_out e since g \<longleftrightarrow> GB_SERVR_TIMEOUT g < ev_now e - since"

definition wait_step :: "gb_env \<Rightarrow> gb \<Rightarrow> gb" where
  "wait_step e g = snd (gb_do_wait e g)"

text \<open>The logout is sent once more.\<close>

lemma logout_again:
  assumes "gs_wait (g_st g) = PROT_LOGOUT" "gs_retry (g_st g) = k" "k < 3" "timed_out e (gs_waittime (g_st g)) g"
    "sk_stat (g_sock g) = SOCK_STAT_OPENED" "sk_type (g_sock g) = SOCK_TYPE_SYNCTCP" "sk_free (g_sock g) = Suc n" "ev_allsent e"
  shows "gs_wait (g_st (wait_step e g)) = PROT_LOGOUT \<and> gs_retry (g_st (wait_step e g)) = k + 1 \<and>
    gs_waittime (g_st (wait_step e g)) = ev_after e \<and> sk_stat (g_sock (wait_step e g)) = SOCK_STAT_OPENED \<and>
    sk_type (g_sock (wait_step e g)) = SOCK_TYPE_SYNCTCP \<and> n \<le> sk_free (g_sock (wait_step e g)) \<and>
    g_sent (wait_step e g) = g_sent g @ [gb_pack_logout e g] \<and> gb_timeout (wait_step e g) = gb_timeout g \<and>
    (\<forall>e'. gb_pack_logout e' (wait_step e g) = gb_pack_logout e' g)"
proof -
  let ?g1 = "upd_st (\<lambda>s. s\<lparr>gs_retry := gs_retry s + 1\<rparr>) g" and ?buf = "gb_pack_logout e g"
  have buf: "gb_pack_logout e ?g1 = ?buf" "?buf \<noteq> []"
    by (simp_all add: gb_pack_logout_def gb_pack_head_def upd_st_def gb_seal_def Let_def)
  obtain s where s: "sock_send (ev_now e) (ev_allsent e) (int (length ?buf)) False (g_sock g) = (int (length ?buf), s)"
      "sk_stat s = SOCK_STAT_OPENED" "sk_type s = SOCK_TYPE_SYNCTCP" "n \<le> sk_free s"
    using assms(5-8) by (auto simp: sock_send_def Let_def)
  let ?g2 = "?g1\<lparr>g_sock := s, g_sent := g_sent g @ [?buf]\<rparr>"
  have "gb_sock_send e ?buf False ?g1 = (int (length ?buf), ?g2)" using s(1) buf(2) by (simp add: gb_sock_send_def)
  then have "wait_step e g = upd_st (\<lambda>s. s\<lparr>gs_waittime := ev_after e\<rparr>) ?g2"
    using assms(1-4) buf
    by (simp add: wait_step_def gb_do_wait_def timed_out_def PROT_LOGIN_def PROT_LOGOUT_def Let_def)
  then show ?thesis using s assms(1,2) by (simp add: upd_st_def gb_pack_logout_def gb_pack_head_def)
qed

lemma logout_given_up:
  assumes "gs_wait (g_st g) = PROT_LOGOUT" "gs_retry (g_st g) = 3" "timed_out e (gs_waittime (g_st g)) g"
    "sk_stat (g_sock g) = SOCK_STAT_OPENED"
  shows "sk_stat (g_sock (wait_step e g)) = SOCK_STAT_CLOSED \<and> gs_online (g_st (wait_step e g)) = 0 \<and>
    gs_login (g_st (wait_step e g)) = 0 \<and> gb_allow_sleep (wait_step e g) = 1 \<and> g_sent (wait_step e g) = g_sent g"
proof -
  have "wait_step e g = gb_reset (upd_st (\<lambda>s. s\<lparr>gs_login := 0\<rparr>) ((upd_st (\<lambda>s. s\<lparr>gs_retry := gs_retry s + 1\<rparr>) g)\<lparr>gb_allow_sleep := 1\<rparr>))"
    using assms(1-3) by (simp add: wait_step_def gb_do_wait_def timed_out_def PROT_LOGIN_def PROT_LOGOUT_def Let_def)
  then show ?thesis using assms(4) by (simp add: gb_reset_def upd_st_def sock_close_def)
qed

text \<open>\<^bold>\<open>C27\<close>
  A logout that gets no answer is sent three times more and then given up: at the fourth time-out the
  connection is closed and the system may sleep, with the same effect as an answer. So a server that
  stays silent does not keep the system awake.\<close>

theorem silent_server_lets_sleep:
  assumes "gs_wait (g_st g) = PROT_LOGOUT" "gs_retry (g_st g) = 0" "sk_stat (g_sock g) = SOCK_STAT_OPENED"
    "sk_type (g_sock g) = SOCK_TYPE_SYNCTCP" "3 \<le> sk_free (g_sock g)" "ev_allsent e1 \<and> ev_allsent e2 \<and> ev_allsent e3"
    "timed_out e1 (gs_waittime (g_st g)) g" "timed_out e2 (ev_after e1) g" "timed_out e3 (ev_after e2) g" "timed_out e4 (ev_after e3) g"
    "g' = wait_step e4 (wait_step e3 (wait_step e2 (wait_step e1 g)))"
  shows "g_sent g' = g_sent g @ [gb_pack_logout e1 g, gb_pack_logout e2 g, gb_pack_logout e3 g] \<and>
     sk_stat (g_sock g') = SOCK_STAT_CLOSED \<and> gs_online (g_st g') = 0 \<and> gs_login (g_st g') = 0 \<and> gb_allow_sleep_handler g' = 1"
proof -
  let ?g1 = "wait_step e1 g"
  let ?g2 = "wait_step e2 ?g1"
  let ?g3 = "wait_step e3 ?g2"
  obtain n where n: "sk_free (g_sock g) = Suc n" "2 \<le> n" using assms(5) by (cases "sk_free (g_sock g)") auto
  note 1 = logout_again [OF assms(1,2) _ assms(7,3,4) n(1)]
  have a1: "gs_wait (g_st ?g1) = PROT_LOGOUT" "gs_retry (g_st ?g1) = 1" "timed_out e2 (gs_waittime (g_st ?g1)) ?g1"
    "sk_stat (g_sock ?g1) = SOCK_STAT_OPENED" "sk_type (g_sock ?g1) = SOCK_TYPE_SYNCTCP" "2 \<le> sk_free (g_sock ?g1)"
    using 1 assms(6,8) n(2) by (auto simp: timed_out_def GB_SERVR_TIMEOUT_def)
  obtain m where m: "sk_free (g_sock ?g1) = Suc m" "1 \<le> m" using a1(6) by (cases "sk_free (g_sock ?g1)") auto
  note 2 = logout_again [OF a1(1,2) _ a1(3-5) m(1)]
  have a2: "gs_wait (g_st ?g2) = PROT_LOGOUT" "gs_retry (g_st ?g2) = 2" "timed_out e3 (gs_waittime (g_st ?g2)) ?g2"
    "sk_stat (g_sock ?g2) = SOCK_STAT_OPENED" "sk_type (g_sock ?g2) = SOCK_TYPE_SYNCTCP" "1 \<le> sk_free (g_sock ?g2)"
    using 1 2 assms(6,9) m(2) by (auto simp: timed_out_def GB_SERVR_TIMEOUT_def)
  obtain l where l: "sk_free (g_sock ?g2) = Suc l" using a2(6) by (cases "sk_free (g_sock ?g2)") auto
  note 3 = logout_again [OF a2(1,2) _ a2(3-5) l]
  have a3: "gs_wait (g_st ?g3) = PROT_LOGOUT" "gs_retry (g_st ?g3) = 3" "timed_out e4 (gs_waittime (g_st ?g3)) ?g3"
    "sk_stat (g_sock ?g3) = SOCK_STAT_OPENED"
    "g_sent ?g3 = g_sent g @ [gb_pack_logout e1 g, gb_pack_logout e2 g, gb_pack_logout e3 g]"
    using 1 2 3 assms(6,10) by (auto simp: timed_out_def GB_SERVR_TIMEOUT_def)
  then show ?thesis using logout_given_up [OF a3(1-4)] assms(11) by (simp add: gb_allow_sleep_handler_def)
qed

theorem silent_server_lets_sleep_witness:
  "\<exists>g g'. gs_wait (g_st g) = PROT_LOGOUT \<and> g' = wait_step (bench_env\<lparr>ev_now := 30000\<rparr>) (wait_step (bench_env\<lparr>ev_now := 30000\<rparr>)
      (wait_step (bench_env\<lparr>ev_now := 30000\<rparr>) (wait_step (bench_env\<lparr>ev_now := 30000\<rparr>) g))) \<and> gb_allow_sleep_handler g' = 1"
proof -
  let ?e = "bench_env\<lparr>ev_now := 30000\<rparr>"
  let ?g = "upd_st (\<lambda>s. s\<lparr>gs_wait := PROT_LOGOUT\<rparr>) ((bench_start (gb_data_start 1))\<lparr>g_sock := bench_sock\<lparr>sk_stat := SOCK_STAT_OPENED,
    sk_free := 36\<rparr>\<rparr>)"
  have g: "gs_wait (g_st ?g) = PROT_LOGOUT" "gs_retry (g_st ?g) = 0" "sk_stat (g_sock ?g) = SOCK_STAT_OPENED"
    "sk_type (g_sock ?g) = SOCK_TYPE_SYNCTCP" "3 \<le> sk_free (g_sock ?g)" "ev_allsent ?e \<and> ev_allsent ?e \<and> ev_allsent ?e"
    "timed_out ?e (gs_waittime (g_st ?g)) ?g" "timed_out ?e (ev_after ?e) ?g"
    by (simp_all add: bench_start_def gb_start_def bench_sock_def bench_env_def timed_out_def GB_SERVR_TIMEOUT_def upd_st_def)
  show ?thesis
    using silent_server_lets_sleep [OF g g(8) g(8) refl] g(1) by blast
qed

end
