(* ===== verification/GbHist.thy ===== *)
theory GbHist
  imports GbInv
begin

text \<open>
  The records of the last 30 seconds: \<open>gb_data_flush_error\<close> walks backwards through the ring and makes
  delayed reports of them, the oldest first.
\<close>

text \<open>The slot that is \<open>i\<close> places behind the head.\<close>

definition slot :: "nat \<Rightarrow> nat \<Rightarrow> nat \<Rightarrow> nat" where
  "slot sz h i = (h + 2 * sz - i) mod sz"

lemma slot_prev: "gb_errlst_size d = sz \<Longrightarrow> 0 < sz \<Longrightarrow> i \<le> sz \<Longrightarrow> err_prev d (slot sz h i) = slot sz h (Suc i)"
proof -
  assume a: "gb_errlst_size d = sz" "0 < sz" "i \<le> sz"
  have "err_prev d (slot sz h i) = ((h + 2 * sz - i) mod sz + (sz - 1)) mod sz" using a by (simp add: err_prev_def slot_def)
  also have "\<dots> = (h + 2 * sz - i + (sz - 1)) mod sz" by (rule mod_add_left_eq)
  also have "h + 2 * sz - i + (sz - 1) = (h + 2 * sz - Suc i) + sz" using a by simp
  finally show ?thesis by (simp add: slot_def)
qed

lemma slot_less: "0 < sz \<Longrightarrow> slot sz h i < sz"
  by (simp add: slot_def)

lemma slot_inj: "i \<in> {1..sz} \<Longrightarrow> j \<in> {1..sz} \<Longrightarrow> slot sz h i = slot sz h j \<longleftrightarrow> i = j"
proof -
  have *: "i = j" if "i \<in> {1..sz}" "j \<in> {1..sz}" "slot sz h i = slot sz h j" "i \<le> j" for i j
  proof -
    have "(h + 2 * sz - i - (h + 2 * sz - j)) mod sz = 0"
      using that(3) mod_eq_dvd_iff_nat [of "h + 2 * sz - j" "h + 2 * sz - i" sz] that(1,2,4) by (auto simp: slot_def)
    then have "(j - i) mod sz = 0" using that(1,2,4) by simp
    then show ?thesis using that(1,2,4) by (simp add: mod_less)
  qed
  assume "i \<in> {1..sz}" "j \<in> {1..sz}"
  then show ?thesis using * [of i j] * [of j i] by (cases "i \<le> j") auto
qed

lemma slot_wraps: "0 < sz \<Longrightarrow> slot sz h (Suc sz) = slot sz h 1"
proof -
  assume "0 < sz"
  then have "h + 2 * sz - 1 = (h + 2 * sz - Suc sz) + sz" by simp
  then show ?thesis by (simp add: slot_def)
qed

text \<open>The walk after \<open>i\<close> slots, from the data \<open>d\<close>.\<close>

definition walked :: "gb_data \<Rightarrow> nat \<Rightarrow> nat \<Rightarrow> gb_data \<Rightarrow> bool" where
  "walked d h i d' \<longleftrightarrow> gb_errlst_size d' = gb_errlst_size d \<and> length (gb_errmem d') = length (gb_errmem d) \<and>
     length (gb_datamem d') = length (gb_datamem d) \<and> gb_free_lst d' = drop i (gb_free_lst d) \<and>
     gb_delay_lst d' = gb_delay_lst d \<and> gb_realtm_lst d' = gb_realtm_lst d \<and> gb_trans_lst d' = gb_trans_lst d \<and>
     (\<forall>j < gb_errlst_size d. gp_data (gb_errmem d' ! slot (gb_errlst_size d) h (Suc j)) =
        (if j < i then [] else gp_data (gb_errmem d ! slot (gb_errlst_size d) h (Suc j)))) \<and>
     (\<forall>j < i. gp_data (gb_datamem d' ! (gb_free_lst d ! j)) = gp_data (gb_errmem d ! slot (gb_errlst_size d) h (Suc j)))"

definition ring_ok :: "gb_data \<Rightarrow> bool" where
  "ring_ok d \<longleftrightarrow> 0 < gb_errlst_size d \<and> gb_errlst_size d \<le> length (gb_errmem d) \<and> gb_errlst_size d \<le> length (gb_free_lst d) \<and>
     lists_ok [] d"

lemma walk_step:
  assumes ok: "ring_ok d" and w: "walked d h i d'" and i: "i < gb_errlst_size d"
    and full: "gp_data (gb_errmem d ! slot (gb_errlst_size d) h (Suc i)) \<noteq> []"
  shows "\<exists>d''. flush_error_loop t (slot (gb_errlst_size d) h i) d' =
      flush_error_loop (gb_free_lst d ! i # t) (slot (gb_errlst_size d) h (Suc i)) d'' \<and> walked d h (Suc i) d''"
proof -
  let ?s = "gb_errlst_size d" and ?n = "gb_free_lst d ! i"
  let ?k = "slot ?s h (Suc i)"
  have sz: "0 < ?s" "?s \<le> length (gb_errmem d)" "?s \<le> length (gb_free_lst d)" and l: "lists_ok [] d"
    using ok by (simp_all add: ring_ok_def)
  have prev: "err_prev d' (slot ?s h i) = ?k" using w i sz(1) by (intro slot_prev) (simp_all add: walked_def)
  have k: "?k < length (gb_errmem d')" using w slot_less [OF sz(1)] sz(2) by (auto simp: walked_def intro: less_le_trans)
  have data: "gp_data (gb_errmem d' ! ?k) = gp_data (gb_errmem d ! ?k)" using w i by (simp add: walked_def)
  let ?d1 = "d'\<lparr>gb_free_lst := drop (Suc i) (gb_free_lst d)\<rparr>"
  let ?d2 = "flushed_slot d' ?k ?n ?d1"
  have "drop i (gb_free_lst d) = ?n # drop (Suc i) (gb_free_lst d)" using i sz(3) by (simp add: Cons_nth_drop_Suc)
  then have "take_buffer d' = Some (?n, ?d1)" using w by (simp add: take_buffer_def walked_def)
  then have step: "flush_error_loop t (slot ?s h i) d' = flush_error_loop (?n # t) ?k ?d2"
    using flush_round [of d' "slot ?s h i" t] prev k data full by simp
  have free: "distinct (gb_free_lst d)" "?n < length (gb_datamem d)"
  proof -
    have "?n \<in> set (gb_free_lst d)" using i sz(3) by simp
    then show "distinct (gb_free_lst d)" "?n < length (gb_datamem d)" using l by (auto simp: lists_ok_def movable_def)
  qed
  have "walked d h (Suc i) ?d2"
    unfolding walked_def
  proof (intro conjI allI impI)
    fix j assume "j < gb_errlst_size d"
    then show "gp_data (gb_errmem ?d2 ! slot ?s h (Suc j)) = (if j < Suc i then [] else gp_data (gb_errmem d ! slot ?s h (Suc j)))"
      using w k i slot_inj [of "Suc j" ?s "Suc i" h] by (auto simp: walked_def nth_list_update)
  next
    fix j assume j: "j < Suc i"
    then have "gb_free_lst d ! j = ?n \<longleftrightarrow> j = i" using free(1) i sz(3) by (simp add: nth_eq_iff_index_eq)
    then show "gp_data (gb_datamem ?d2 ! (gb_free_lst d ! j)) = gp_data (gb_errmem d ! slot ?s h (Suc j))"
      using w j free(2) data by (auto simp: walked_def nth_list_update less_Suc_eq)
  qed (use w in \<open>simp_all add: walked_def\<close>)
  with step show ?thesis by blast
qed

lemma walk:
  assumes ok: "ring_ok d" and k: "k \<le> gb_errlst_size d"
    and full: "\<forall>j < k. gp_data (gb_errmem d ! slot (gb_errlst_size d) h (Suc j)) \<noteq> []"
  shows "i \<le> k \<Longrightarrow> walked d h i d' \<Longrightarrow>
    \<exists>d''. flush_error_loop (rev (take i (gb_free_lst d))) (slot (gb_errlst_size d) h i) d' =
      flush_error_loop (rev (take k (gb_free_lst d))) (slot (gb_errlst_size d) h k) d'' \<and> walked d h k d''"
proof (induction "k - i" arbitrary: i d')
  case (Suc m)
  then have i: "i < k" by simp
  obtain d1 where d1: "flush_error_loop (rev (take i (gb_free_lst d))) (slot (gb_errlst_size d) h i) d' =
      flush_error_loop (gb_free_lst d ! i # rev (take i (gb_free_lst d))) (slot (gb_errlst_size d) h (Suc i)) d1" "walked d h (Suc i) d1"
    using walk_step [OF ok Suc.prems(2), of "rev (take i (gb_free_lst d))"] i k full by auto
  have "gb_free_lst d ! i # rev (take i (gb_free_lst d)) = rev (take (Suc i) (gb_free_lst d))"
    using i k ok by (simp add: ring_ok_def take_Suc_conv_app_nth)
  then show ?case using Suc.hyps(1) [of "Suc i" d1] Suc.hyps(2) i d1 by simp
qed auto

text \<open>The records of the ring, the newest first, up to the first empty slot.\<close>

definition history :: "gb_data \<Rightarrow> nat \<Rightarrow> byte list list" where
  "history d h = takeWhile (\<lambda>x. x \<noteq> [])
     (map (\<lambda>j. gp_data (gb_errmem d ! slot (gb_errlst_size d) h (Suc j))) [0..<gb_errlst_size d])"

lemma history_flushed:
  assumes ok: "ring_ok d" and h: "gb_errlst_head d = Some h" "h < gb_errlst_size d"
  shows "\<exists>d' ns. gb_data_flush_error d = Some d' \<and> ns = rev (take (length (history d h)) (gb_free_lst d)) \<and>
    gb_delay_lst d' = gb_delay_lst d @ ns \<and> map (\<lambda>n. gp_data (gb_datamem d' ! n)) ns = rev (history d h) \<and>
    (\<exists>h'. gb_errlst_head d' = Some h' \<and> history d' h' = [])"
proof -
  let ?s = "gb_errlst_size d" and ?f = "\<lambda>j. gp_data (gb_errmem d ! slot (gb_errlst_size d) h (Suc j))"
  define k where "k = length (history d h)"
  have sz: "0 < ?s" "?s \<le> length (gb_errmem d)" "?s \<le> length (gb_free_lst d)" using ok by (simp_all add: ring_ok_def)
  have k: "k \<le> ?s" using length_takeWhile_le [of "\<lambda>x. x \<noteq> []" "map ?f [0..<?s]"] by (simp add: k_def history_def)
  have hist: "history d h = map ?f [0..<k]"
    using takeWhile_eq_take [of "\<lambda>x. x \<noteq> []" "map ?f [0..<?s]"] k by (simp add: k_def history_def take_map)
  have full: "\<forall>j < k. ?f j \<noteq> []"
    using hist by (metis (mono_tags, lifting) history_def set_takeWhileD in_set_conv_nth k_def nth_map_upt add.left_neutral
        diff_zero)
  have stop: "?f k = []" if "k < ?s"
    using nth_length_takeWhile [of "\<lambda>x. x \<noteq> []" "map ?f [0..<?s]"] that by (simp add: k_def history_def)
  have "walked d h 0 d" by (simp add: walked_def)
  moreover have "slot ?s h 0 = h" using h(2) by (simp add: slot_def)
  ultimately obtain d1 where d1: "flush_error_loop [] h d = flush_error_loop (rev (take k (gb_free_lst d))) (slot ?s h k) d1"
      "walked d h k d1"
    using walk [OF ok k full, of 0 d] by auto
  have prev: "err_prev d1 (slot ?s h k) = slot ?s h (Suc k)"
    using d1(2) sz(1) k by (intro slot_prev) (simp_all add: walked_def)
  have empty: "gp_data (gb_errmem d1 ! slot ?s h (Suc k)) = []"
  proof (cases "k < ?s")
    case True
    then show ?thesis using d1(2) stop by (simp add: walked_def)
  next
    case False
    then have "k = ?s" using k by simp
    moreover have "slot ?s h (Suc ?s) = slot ?s h (Suc 0)" using slot_wraps [OF sz(1)] by simp
    ultimately show ?thesis using d1(2) sz(1) unfolding walked_def by (metis (no_types, lifting))
  qed
  have "slot ?s h (Suc k) < length (gb_errmem d1)"
    using d1(2) slot_less [OF sz(1)] sz(2) by (auto simp: walked_def intro: less_le_trans)
  then have f: "flush_error_loop [] h d = Some (rev (take k (gb_free_lst d)), d1\<lparr>gb_errlst_head := Some (slot ?s h k)\<rparr>)"
    unfolding d1(1) using flush_stop [of d1 "slot ?s h k"] prev empty by simp
  let ?ns = "rev (take k (gb_free_lst d))"
  let ?d' = "d1\<lparr>gb_errlst_head := Some (slot ?s h k), gb_delay_lst := gb_delay_lst d1 @ ?ns\<rparr>"
  have r: "gb_data_flush_error d = Some ?d'" using f h(1) by (simp add: gb_data_flush_error_def)
  have "map (\<lambda>n. gp_data (gb_datamem d1 ! n)) (take k (gb_free_lst d)) = map ?f [0..<k]"
    by (rule nth_equalityI) (use d1(2) k sz(3) in \<open>simp_all add: walked_def\<close>)
  then have "map (\<lambda>n. gp_data (gb_datamem d1 ! n)) ?ns = rev (history d h)" unfolding rev_map [symmetric] hist by simp
  then have "map (\<lambda>n. gp_data (gb_datamem ?d' ! n)) ?ns = rev (history d h)" by simp
  moreover have "history ?d' (slot ?s h k) = []"
  proof -
    have "slot ?s (slot ?s h k) (Suc 0) = slot ?s h (Suc k)"
    proof -
      have "slot ?s (slot ?s h k) (Suc 0) = err_prev d1 (slot ?s h k)"
      proof -
        have "slot ?s h k + 2 * ?s - Suc 0 = (slot ?s h k + ?s - 1) + ?s" using sz(1) by simp
        then show ?thesis using d1(2) by (simp add: err_prev_def slot_def [of _ "slot ?s h k"] walked_def)
      qed
      then show ?thesis using prev by simp
    qed
    then have "gp_data (gb_errmem ?d' ! slot (gb_errlst_size ?d') (slot ?s h k) (Suc 0)) = []"
      using empty d1(2) by (simp add: walked_def)
    then show ?thesis using sz(1) d1(2) by (simp add: history_def walked_def upt_conv_Cons)
  qed
  moreover have "gb_delay_lst ?d' = gb_delay_lst d @ ?ns" using d1(2) by (simp add: walked_def)
  ultimately show ?thesis using r unfolding k_def by (intro exI [of _ ?d'] exI [of _ ?ns]) (simp add: k_def)
qed

text \<open>\<^bold>\<open>C23\<close>
  The records kept for a fault of level 3 are reported completely and in order: when there are as many
  free buffers as the ring has slots, each record from the newest back to the first empty slot gets a
  buffer, the buffers come behind the delayed reports with the oldest record first, no waiting report
  is given up for them, and the ring is empty afterwards. The loop returns even if no slot was empty.\<close>

theorem history_sent_oldest_first:
  assumes "ring_ok d" "gb_errlst_head d = Some h" "h < gb_errlst_size d"
  shows "\<exists>d' ns. gb_data_flush_error d = Some d' \<and> ns = rev (take (length (history d h)) (gb_free_lst d)) \<and>
    gb_delay_lst d' = gb_delay_lst d @ ns \<and> map (\<lambda>n. gp_data (gb_datamem d' ! n)) ns = rev (history d h) \<and>
    (\<exists>h'. gb_errlst_head d' = Some h' \<and> history d' h' = [])"
  by (rule history_flushed [OF assms])

definition bench_ring :: gb_data where
  "bench_ring = (gb_data_start 1)\<lparr>gb_free_lst := [5, 6, 7], gb_errlst_head := Some 0, gb_errlst_size := 3,
     gb_errmem := [zero_pack, zero_pack\<lparr>gp_data := [10]\<rparr>, zero_pack\<lparr>gp_data := [20]\<rparr>]\<rparr>"

theorem history_sent_oldest_first_witness:
  "\<exists>d'. gb_data_flush_error bench_ring = Some d' \<and> gb_delay_lst d' = [6, 5] \<and>
     map (\<lambda>n. gp_data (gb_datamem d' ! n)) [6, 5] = [[10], [20]]"
proof -
  have ok: "ring_ok bench_ring"
    by (simp add: ring_ok_def bench_ring_def gb_data_start_def lists_ok_def movable_def homed_def)
       (simp add: GB_MAX_REPORT_def)
  have "history bench_ring 0 = [[20], [10]]"
  proof -
    have u: "[0..<3] = [0, 1, 2::nat]" by (simp add: upt_rec)
    have "map (\<lambda>j. gp_data (gb_errmem bench_ring ! slot 3 0 (Suc j))) [0, 1, 2] = [[20], [10], []]"
      by (simp add: bench_ring_def slot_def zero_pack_def)
    moreover have "gb_errlst_size bench_ring = 3" by (simp add: bench_ring_def)
    ultimately show ?thesis by (simp only: history_def u) simp
  qed
  then show ?thesis
    using history_sent_oldest_first [OF ok, of 0] by (auto simp: bench_ring_def gb_data_start_def)
qed

end
