(* ===== verification/Items.thy ===== *)
theory Items
  imports Prelude
begin

text \<open>
  Items of fixed size in one buffer: the store behind the configuration and the status of the box. The
  contract of the store, and the arithmetic of the places both compute from the sizes of their items.
\<close>

section \<open>The contract\<close>

text \<open>
  \<open>get\<close> reads an item, \<open>put\<close> overwrites it with what a payload \<open>x\<close> that \<open>fits\<close> carries. What is put is read
  back and no other item changes, so a run of puts leaves each item at the last value put.
\<close>

locale item_store =
  fixes ids :: "'i set" and fits :: "'i \<Rightarrow> 'x \<Rightarrow> bool" and ok :: "'s \<Rightarrow> bool"
    and get :: "'s \<Rightarrow> 'i \<Rightarrow> 'v" and put :: "'i \<Rightarrow> 'x \<Rightarrow> 's \<Rightarrow> 's" and stored_as :: "'x \<Rightarrow> 'v"
  assumes put_ok: "ok s \<Longrightarrow> i \<in> ids \<Longrightarrow> fits i x \<Longrightarrow> ok (put i x s)"
    and get_put: "ok s \<Longrightarrow> i \<in> ids \<Longrightarrow> fits i x \<Longrightarrow> get (put i x s) i = stored_as x"
    and get_put_other: "ok s \<Longrightarrow> i \<in> ids \<Longrightarrow> fits i x \<Longrightarrow> j \<in> ids \<Longrightarrow> j \<noteq> i \<Longrightarrow> get (put i x s) j = get s j"
begin

lemma run_ok:
  "ok s \<Longrightarrow> \<forall>(i, x) \<in> set ps. i \<in> ids \<and> fits i x \<Longrightarrow> ok (fold (\<lambda>(i, x). put i x) ps s)"
  by (induction ps arbitrary: s) (auto simp: put_ok)

lemma run_get:
  "ok s \<Longrightarrow> \<forall>(i, x) \<in> set ps. i \<in> ids \<and> fits i x \<Longrightarrow> j \<in> ids \<Longrightarrow>
   get (fold (\<lambda>(i, x). put i x) ps s) j = (case map_of (rev ps) j of None \<Rightarrow> get s j | Some x \<Rightarrow> stored_as x)"
proof (induction ps rule: rev_induct)
  case (snoc p ps)
  obtain i x where p: "p = (i, x)" by (cases p)
  have ok: "ok (fold (\<lambda>(i, x). put i x) ps s)" using snoc.prems by (intro run_ok) auto
  show ?case
    using snoc ok p by (cases "j = i") (auto simp: get_put get_put_other)
qed simp

lemma run_get_other:
  "ok s \<Longrightarrow> \<forall>(i, x) \<in> set ps. i \<in> ids \<and> fits i x \<Longrightarrow> j \<in> ids \<Longrightarrow> j \<notin> fst ` set ps \<Longrightarrow>
   get (fold (\<lambda>(i, x). put i x) ps s) j = get s j"
  using run_get [of s ps j] map_of_eq_None_iff [of "rev ps" j] by simp

end

section \<open>Places\<close>

text \<open>The offset and the length of each item, one item behind the other.\<close>

fun places :: "nat \<Rightarrow> nat list \<Rightarrow> (nat \<times> nat) list" where
  "places off [] = []"
| "places off (n # ns) = (off, n) # places (off + n) ns"

lemma length_places [simp]: "length (places off ns) = length ns"
  by (induction ns arbitrary: off) auto

lemma places_nth: "i < length ns \<Longrightarrow> places off ns ! i = (off + sum_list (take i ns), ns ! i)"
proof (induction ns arbitrary: off i)
  case (Cons n ns)
  then show ?case by (cases i) auto
qed simp

lemma places_end:
  fixes ns :: "nat list"
  assumes "i < length ns"
  shows "sum_list (take i ns) + ns ! i \<le> sum_list ns"
proof -
  have "sum_list (take i ns) + ns ! i = sum_list (take (Suc i) ns)" using assms by (simp add: take_Suc_conv_app_nth)
  also have "\<dots> \<le> sum_list ns" using append_take_drop_id [of "Suc i" ns] sum_list_append [of "take (Suc i) ns" "drop (Suc i) ns"] by simp
  finally show ?thesis .
qed

lemma places_apart:
  fixes ns :: "nat list"
  assumes "i < j" "j < length ns"
  shows "sum_list (take i ns) + ns ! i \<le> sum_list (take j ns)"
proof -
  have "take (Suc i) ns = take (Suc i) (take j ns)" using assms by (simp add: min_def)
  then have "sum_list (take (Suc i) ns) \<le> sum_list (take j ns)"
    using append_take_drop_id [of "Suc i" "take j ns"] sum_list_append [of "take (Suc i) (take j ns)" "drop (Suc i) (take j ns)"] by simp
  then show ?thesis using assms by (simp add: take_Suc_conv_app_nth)
qed

text \<open>The bytes at a place after a copy to it or beside it.\<close>

definition place_of :: "byte list \<Rightarrow> nat \<times> nat \<Rightarrow> byte list" where
  "place_of buf p = take (snd p) (drop (fst p) buf)"

lemma place_same: "off + length x \<le> length buf \<Longrightarrow> place_of (take off buf @ x @ drop (off + length x) buf) (off, length x) = x"
  by (simp add: place_of_def)

lemma place_other:
  assumes "off + length x \<le> length buf" "o' + n' \<le> length buf" "o' + n' \<le> off \<or> off + length x \<le> o'"
  shows "place_of (take off buf @ x @ drop (off + length x) buf) (o', n') = place_of buf (o', n')"
  using assms by (intro nth_equalityI) (auto simp: place_of_def nth_append)

end
