(* ===== verification/Cfg.thy ===== *)
theory Cfg
  imports Items Rds
begin

text \<open>
  The configuration: \<open>src/app/base/cfg/cfg_para.c\<close> with the table of \<open>cfg_para_def.h\<close>. The items lie one
  behind the other in a buffer of 5 KiB that is one record of the data store. \<open>cfg\<close> holds the statics of
  the file and the disk, \<open>cf_calls\<close> the calls of the registered callbacks. A callback is a number; what it
  returns is \<open>ce_cb\<close>. The display names of the members, which only the dump uses, are left out.
\<close>

section \<open>Data\<close>

definition CFG_INVALID_PARAMETER :: int where "CFG_INVALID_PARAMETER = 0x02000001"
definition CFG_TABLE_OVERFLOW :: int where "CFG_TABLE_OVERFLOW = 0x02000002"
definition CFG_TABLE_UPDATE_PARA_FAILED :: int where "CFG_TABLE_UPDATE_PARA_FAILED = 0x02000003"
definition CFG_CHECK_CFG_TABLE_FAILED :: int where "CFG_CHECK_CFG_TABLE_FAILED = 0x02000005"
definition CFG_PARA_OVERFLOW :: int where "CFG_PARA_OVERFLOW = 0x02000006"

lemmas cfg_codes = CFG_INVALID_PARAMETER_def CFG_TABLE_OVERFLOW_def CFG_TABLE_UPDATE_PARA_FAILED_def
  CFG_CHECK_CFG_TABLE_FAILED_def CFG_PARA_OVERFLOW_def

definition CFG_MAX_REG_ITEM_NUM :: nat where "CFG_MAX_REG_ITEM_NUM = 128"
definition CFG_PARA_MAX_MEMBER_CNT :: nat where "CFG_PARA_MAX_MEMBER_CNT = 6"
definition CFG_MAX_PARA_LEN :: nat where "CFG_MAX_PARA_LEN = 512"
definition CFG_PARA_BUF_LEN :: nat where "CFG_PARA_BUF_LEN = 5 * 1024"

lemmas cfg_sizes = CFG_MAX_REG_ITEM_NUM_def CFG_PARA_MAX_MEMBER_CNT_def CFG_MAX_PARA_LEN_def CFG_PARA_BUF_LEN_def

datatype CFG_DATA_TYPE = CFG_DATA_UINT | CFG_DATA_USHORT | CFG_DATA_UCHAR | CFG_DATA_STRING | CFG_DATA_DOUBLE
  | CFG_DATA_INVALID

record CFG_ITEM_TYPE =
  ct_type :: CFG_DATA_TYPE
  ct_len :: nat

record CFG_ITEM_INFO =
  ci_itemid :: nat
  ci_len :: nat
  ci_offset :: nat
  ci_member :: "CFG_ITEM_TYPE list"

text \<open>An entry of the table as the macros write it, its last member the invalid one.\<close>

definition cfg_item :: "nat \<Rightarrow> (CFG_DATA_TYPE \<times> nat) list \<Rightarrow> CFG_ITEM_INFO" where
  "cfg_item iid ms = \<lparr>ci_itemid = iid, ci_len = 0, ci_offset = 0,
     ci_member = map (\<lambda>(t, n). \<lparr>ct_type = t, ct_len = n\<rparr>) ms @ [\<lparr>ct_type = CFG_DATA_INVALID, ct_len = 0\<rparr>]\<rparr>"

text \<open>The numbers of the items.\<close>

definition CFG_ITEM_SN_NUM :: nat where "CFG_ITEM_SN_NUM = 0"
definition CFG_ITEM_DEV_NUM :: nat where "CFG_ITEM_DEV_NUM = 1"
definition CFG_ITEM_SLEEP_MODE :: nat where "CFG_ITEM_SLEEP_MODE = 2"
definition CFG_ITEM_LOCAL_APN :: nat where "CFG_ITEM_LOCAL_APN = 3"
definition CFG_ITEM_LOC_APN_AUTH :: nat where "CFG_ITEM_LOC_APN_AUTH = 4"
definition CFG_ITEM_WAN_APN :: nat where "CFG_ITEM_WAN_APN = 5"
definition CFG_ITEM_WAN_APN_AUTH :: nat where "CFG_ITEM_WAN_APN_AUTH = 6"
definition CFG_ITEM_DBC_PATH :: nat where "CFG_ITEM_DBC_PATH = 7"
definition CFG_ITEM_WIFI_SET :: nat where "CFG_ITEM_WIFI_SET = 8"
definition CFG_ITEM_DCOM_SET :: nat where "CFG_ITEM_DCOM_SET = 9"
definition CFG_ITEM_NET_TYPE :: nat where "CFG_ITEM_NET_TYPE = 10"
definition CFG_ITEM_WIFI_MAXASSOC :: nat where "CFG_ITEM_WIFI_MAXASSOC = 11"
definition CFG_ITEM_WIFI_SSID :: nat where "CFG_ITEM_WIFI_SSID = 12"
definition CFG_ITEM_WIFI_KEY :: nat where "CFG_ITEM_WIFI_KEY = 13"
definition CFG_ITEM_ICALL :: nat where "CFG_ITEM_ICALL = 14"
definition CFG_ITEM_BCALL :: nat where "CFG_ITEM_BCALL = 15"
definition CFG_ITEM_WHITE_LIST :: nat where "CFG_ITEM_WHITE_LIST = 16"
definition CFG_ITEM_SLEEP_TIME :: nat where "CFG_ITEM_SLEEP_TIME = 17"
definition CFG_ITEM_DSLEEP_TIME :: nat where "CFG_ITEM_DSLEEP_TIME = 18"
definition CFG_ITEM_VTD :: nat where "CFG_ITEM_VTD = 19"
definition CFG_ITEM_ACC_THS :: nat where "CFG_ITEM_ACC_THS = 20"
definition CFG_ITEM_ICALL_F :: nat where "CFG_ITEM_ICALL_F = 21"
definition CFG_ITEM_BCALL_F :: nat where "CFG_ITEM_BCALL_F = 22"
definition CFG_ITEM_ECALL_F :: nat where "CFG_ITEM_ECALL_F = 23"
definition CFG_ITEM_CAN_DEFAULT_BAUD_0 :: nat where "CFG_ITEM_CAN_DEFAULT_BAUD_0 = 24"
definition CFG_ITEM_CAN_DEFAULT_BAUD_1 :: nat where "CFG_ITEM_CAN_DEFAULT_BAUD_1 = 25"
definition CFG_ITEM_CAN_DEFAULT_BAUD_2 :: nat where "CFG_ITEM_CAN_DEFAULT_BAUD_2 = 26"
definition CFG_ITEM_CAN_DEFAULT_BAUD_3 :: nat where "CFG_ITEM_CAN_DEFAULT_BAUD_3 = 27"
definition CFG_ITEM_CAN_DEFAULT_BAUD_4 :: nat where "CFG_ITEM_CAN_DEFAULT_BAUD_4 = 28"
definition CFG_ITEM_LOG_ENABLE :: nat where "CFG_ITEM_LOG_ENABLE = 29"
definition CFG_ITEM_RTC_WAKEUP_TIME :: nat where "CFG_ITEM_RTC_WAKEUP_TIME = 30"
definition CFG_ITEM_BAT_TYPE :: nat where "CFG_ITEM_BAT_TYPE = 31"
definition CFG_ITEM_GB32960_VIN :: nat where "CFG_ITEM_GB32960_VIN = 32"
definition CFG_ITEM_GB32960_URL :: nat where "CFG_ITEM_GB32960_URL = 33"
definition CFG_ITEM_GB32960_PORT :: nat where "CFG_ITEM_GB32960_PORT = 34"
definition CFG_ITEM_GB32960_INTERVAL :: nat where "CFG_ITEM_GB32960_INTERVAL = 35"
definition CFG_ITEM_GB32960_REGINTV :: nat where "CFG_ITEM_GB32960_REGINTV = 36"
definition CFG_ITEM_GB32960_TIMEOUT :: nat where "CFG_ITEM_GB32960_TIMEOUT = 37"
definition CFG_ITEM_GB32960_REGSEQ :: nat where "CFG_ITEM_GB32960_REGSEQ = 38"
definition CFG_ITEM_DSU_AUTHKEY :: nat where "CFG_ITEM_DSU_AUTHKEY = 39"
definition CFG_ITEM_DSU_CANLOG_TIME :: nat where "CFG_ITEM_DSU_CANLOG_TIME = 40"
definition CFG_ITEM_DSU_CANLOG_MODE :: nat where "CFG_ITEM_DSU_CANLOG_MODE = 41"
definition CFG_ITEM_DSU_SDHZ :: nat where "CFG_ITEM_DSU_SDHZ = 42"
definition CFG_ITEM_DSU_HOURFILE :: nat where "CFG_ITEM_DSU_HOURFILE = 43"
definition CFG_ITEM_DSU_LOOPFILE :: nat where "CFG_ITEM_DSU_LOOPFILE = 44"
definition CFG_ITEM_FOTON_VIN :: nat where "CFG_ITEM_FOTON_VIN = 45"
definition CFG_ITEM_FOTON_URL :: nat where "CFG_ITEM_FOTON_URL = 46"
definition CFG_ITEM_FOTON_PORT :: nat where "CFG_ITEM_FOTON_PORT = 47"
definition CFG_ITEM_FOTON_INTERVAL :: nat where "CFG_ITEM_FOTON_INTERVAL = 48"
definition CFG_ITEM_FOTON_REGINTV :: nat where "CFG_ITEM_FOTON_REGINTV = 49"
definition CFG_ITEM_FOTON_TIMEOUT :: nat where "CFG_ITEM_FOTON_TIMEOUT = 50"
definition CFG_ITEM_FT_UDS_REPAIR_SHOP_CODE :: nat where "CFG_ITEM_FT_UDS_REPAIR_SHOP_CODE = 51"
definition CFG_ITEM_FT_UDS_AVN_SERIAL_NUMBER :: nat where "CFG_ITEM_FT_UDS_AVN_SERIAL_NUMBER = 52"
definition CFG_ITEM_FT_UDS_VEHICLE_TYPE :: nat where "CFG_ITEM_FT_UDS_VEHICLE_TYPE = 53"
definition CFG_ITEM_CAN2_AUTO_BAUD :: nat where "CFG_ITEM_CAN2_AUTO_BAUD = 54"
definition CFG_ITEM_FT_UDS_POWER :: nat where "CFG_ITEM_FT_UDS_POWER = 55"
definition CFG_ITEM_FUELCELL :: nat where "CFG_ITEM_FUELCELL = 56"
definition CFG_ITEM_PART_NUM :: nat where "CFG_ITEM_PART_NUM = 57"
definition CFG_ITEM_FT_UDS_HW :: nat where "CFG_ITEM_FT_UDS_HW = 58"
definition CFG_ITEM_INTEST_HW :: nat where "CFG_ITEM_INTEST_HW = 59"
definition CFG_ITEM_FT_HBINTV :: nat where "CFG_ITEM_FT_HBINTV = 60"
definition CFG_ITEM_FT_REGISTER :: nat where "CFG_ITEM_FT_REGISTER = 61"
definition CFG_ITEM_FT_TID :: nat where "CFG_ITEM_FT_TID = 62"
definition CFG_ITEM_FT_SIM :: nat where "CFG_ITEM_FT_SIM = 63"
definition CFG_ITEM_FT_DTN :: nat where "CFG_ITEM_FT_DTN = 64"
definition CFG_ITEM_FT_DEV_TYPE :: nat where "CFG_ITEM_FT_DEV_TYPE = 65"
definition CFG_ITEM_FT_DEV_SN :: nat where "CFG_ITEM_FT_DEV_SN = 66"
definition CFG_ITEM_FT_TYPE :: nat where "CFG_ITEM_FT_TYPE = 67"
definition CFG_ITEM_FT_PORT :: nat where "CFG_ITEM_FT_PORT = 68"
definition CFG_ITEM_FTTSP_VIN :: nat where "CFG_ITEM_FTTSP_VIN = 69"
definition CFG_ITEM_FTTSP_URL :: nat where "CFG_ITEM_FTTSP_URL = 70"
definition CFG_ITEM_FTTSP_PORT :: nat where "CFG_ITEM_FTTSP_PORT = 71"
definition CFG_ITEM_FTTSP_INTERVAL :: nat where "CFG_ITEM_FTTSP_INTERVAL = 72"
definition CFG_ITEM_FTTSP_TUKEY :: nat where "CFG_ITEM_FTTSP_TUKEY = 73"
definition CFG_ITEM_ID_MAX :: nat where "CFG_ITEM_ID_MAX = 74"

lemmas cfg_ids = CFG_ITEM_SN_NUM_def CFG_ITEM_DEV_NUM_def CFG_ITEM_SLEEP_MODE_def CFG_ITEM_LOCAL_APN_def
  CFG_ITEM_LOC_APN_AUTH_def CFG_ITEM_WAN_APN_def CFG_ITEM_WAN_APN_AUTH_def CFG_ITEM_DBC_PATH_def
  CFG_ITEM_WIFI_SET_def CFG_ITEM_DCOM_SET_def CFG_ITEM_NET_TYPE_def CFG_ITEM_WIFI_MAXASSOC_def
  CFG_ITEM_WIFI_SSID_def CFG_ITEM_WIFI_KEY_def CFG_ITEM_ICALL_def CFG_ITEM_BCALL_def CFG_ITEM_WHITE_LIST_def
  CFG_ITEM_SLEEP_TIME_def CFG_ITEM_DSLEEP_TIME_def CFG_ITEM_VTD_def CFG_ITEM_ACC_THS_def CFG_ITEM_ICALL_F_def
  CFG_ITEM_BCALL_F_def CFG_ITEM_ECALL_F_def CFG_ITEM_CAN_DEFAULT_BAUD_0_def CFG_ITEM_CAN_DEFAULT_BAUD_1_def
  CFG_ITEM_CAN_DEFAULT_BAUD_2_def CFG_ITEM_CAN_DEFAULT_BAUD_3_def CFG_ITEM_CAN_DEFAULT_BAUD_4_def
  CFG_ITEM_LOG_ENABLE_def CFG_ITEM_RTC_WAKEUP_TIME_def CFG_ITEM_BAT_TYPE_def CFG_ITEM_GB32960_VIN_def
  CFG_ITEM_GB32960_URL_def CFG_ITEM_GB32960_PORT_def CFG_ITEM_GB32960_INTERVAL_def CFG_ITEM_GB32960_REGINTV_def
  CFG_ITEM_GB32960_TIMEOUT_def CFG_ITEM_GB32960_REGSEQ_def CFG_ITEM_DSU_AUTHKEY_def CFG_ITEM_DSU_CANLOG_TIME_def
  CFG_ITEM_DSU_CANLOG_MODE_def CFG_ITEM_DSU_SDHZ_def CFG_ITEM_DSU_HOURFILE_def CFG_ITEM_DSU_LOOPFILE_def
  CFG_ITEM_FOTON_VIN_def CFG_ITEM_FOTON_URL_def CFG_ITEM_FOTON_PORT_def CFG_ITEM_FOTON_INTERVAL_def
  CFG_ITEM_FOTON_REGINTV_def CFG_ITEM_FOTON_TIMEOUT_def CFG_ITEM_FT_UDS_REPAIR_SHOP_CODE_def
  CFG_ITEM_FT_UDS_AVN_SERIAL_NUMBER_def CFG_ITEM_FT_UDS_VEHICLE_TYPE_def CFG_ITEM_CAN2_AUTO_BAUD_def
  CFG_ITEM_FT_UDS_POWER_def CFG_ITEM_FUELCELL_def CFG_ITEM_PART_NUM_def CFG_ITEM_FT_UDS_HW_def
  CFG_ITEM_INTEST_HW_def CFG_ITEM_FT_HBINTV_def CFG_ITEM_FT_REGISTER_def CFG_ITEM_FT_TID_def
  CFG_ITEM_FT_SIM_def CFG_ITEM_FT_DTN_def CFG_ITEM_FT_DEV_TYPE_def CFG_ITEM_FT_DEV_SN_def CFG_ITEM_FT_TYPE_def
  CFG_ITEM_FT_PORT_def CFG_ITEM_FTTSP_VIN_def CFG_ITEM_FTTSP_URL_def CFG_ITEM_FTTSP_PORT_def
  CFG_ITEM_FTTSP_INTERVAL_def CFG_ITEM_FTTSP_TUKEY_def CFG_ITEM_ID_MAX_def

definition cfg_table :: "CFG_ITEM_INFO list" where
  "cfg_table =
     [cfg_item CFG_ITEM_SN_NUM [(CFG_DATA_UINT, 4)],
      cfg_item CFG_ITEM_DEV_NUM [(CFG_DATA_UINT, 4)],
      cfg_item CFG_ITEM_SLEEP_MODE [(CFG_DATA_UCHAR, 1)],
      cfg_item CFG_ITEM_LOCAL_APN [(CFG_DATA_STRING, 32)],
      cfg_item CFG_ITEM_LOC_APN_AUTH [(CFG_DATA_STRING, 32), (CFG_DATA_STRING, 32)],
      cfg_item CFG_ITEM_WAN_APN [(CFG_DATA_STRING, 32)],
      cfg_item CFG_ITEM_WAN_APN_AUTH [(CFG_DATA_STRING, 32), (CFG_DATA_STRING, 32)],
      cfg_item CFG_ITEM_DBC_PATH [(CFG_DATA_STRING, 256)],
      cfg_item CFG_ITEM_WIFI_SET [(CFG_DATA_UCHAR, 1)],
      cfg_item CFG_ITEM_DCOM_SET [(CFG_DATA_UCHAR, 1)],
      cfg_item CFG_ITEM_NET_TYPE [(CFG_DATA_UCHAR, 1)],
      cfg_item CFG_ITEM_WIFI_MAXASSOC [(CFG_DATA_UCHAR, 1)],
      cfg_item CFG_ITEM_WIFI_SSID [(CFG_DATA_STRING, 32)],
      cfg_item CFG_ITEM_WIFI_KEY [(CFG_DATA_STRING, 32)],
      cfg_item CFG_ITEM_ICALL [(CFG_DATA_STRING, 32)],
      cfg_item CFG_ITEM_BCALL [(CFG_DATA_STRING, 32)],
      cfg_item CFG_ITEM_WHITE_LIST [(CFG_DATA_STRING, 512)],
      cfg_item CFG_ITEM_SLEEP_TIME [(CFG_DATA_UINT, 4)],
      cfg_item CFG_ITEM_DSLEEP_TIME [(CFG_DATA_UINT, 4)],
      cfg_item CFG_ITEM_VTD [(CFG_DATA_UCHAR, 1)],
      cfg_item CFG_ITEM_ACC_THS [(CFG_DATA_USHORT, 2)],
      cfg_item CFG_ITEM_ICALL_F [(CFG_DATA_UCHAR, 1)],
      cfg_item CFG_ITEM_BCALL_F [(CFG_DATA_UCHAR, 1)],
      cfg_item CFG_ITEM_ECALL_F [(CFG_DATA_UCHAR, 1)],
      cfg_item CFG_ITEM_CAN_DEFAULT_BAUD_0 [(CFG_DATA_USHORT, 2)],
      cfg_item CFG_ITEM_CAN_DEFAULT_BAUD_1 [(CFG_DATA_USHORT, 2)],
      cfg_item CFG_ITEM_CAN_DEFAULT_BAUD_2 [(CFG_DATA_USHORT, 2)],
      cfg_item CFG_ITEM_CAN_DEFAULT_BAUD_3 [(CFG_DATA_USHORT, 2)],
      cfg_item CFG_ITEM_CAN_DEFAULT_BAUD_4 [(CFG_DATA_USHORT, 2)],
      cfg_item CFG_ITEM_LOG_ENABLE [(CFG_DATA_UCHAR, 1)],
      cfg_item CFG_ITEM_RTC_WAKEUP_TIME [(CFG_DATA_UINT, 4)],
      cfg_item CFG_ITEM_BAT_TYPE [(CFG_DATA_UCHAR, 1)],
      cfg_item CFG_ITEM_GB32960_VIN [(CFG_DATA_STRING, 18)],
      cfg_item CFG_ITEM_GB32960_URL [(CFG_DATA_STRING, 256)],
      cfg_item CFG_ITEM_GB32960_PORT [(CFG_DATA_USHORT, 2)],
      cfg_item CFG_ITEM_GB32960_INTERVAL [(CFG_DATA_USHORT, 2)],
      cfg_item CFG_ITEM_GB32960_REGINTV [(CFG_DATA_USHORT, 2)],
      cfg_item CFG_ITEM_GB32960_TIMEOUT [(CFG_DATA_USHORT, 2)],
      cfg_item CFG_ITEM_GB32960_REGSEQ [(CFG_DATA_UINT, 4)],
      cfg_item CFG_ITEM_DSU_AUTHKEY [(CFG_DATA_STRING, 256)],
      cfg_item CFG_ITEM_DSU_CANLOG_TIME [(CFG_DATA_USHORT, 2)],
      cfg_item CFG_ITEM_DSU_CANLOG_MODE [(CFG_DATA_UCHAR, 1)],
      cfg_item CFG_ITEM_DSU_SDHZ [(CFG_DATA_UCHAR, 1)],
      cfg_item CFG_ITEM_DSU_HOURFILE [(CFG_DATA_UCHAR, 1)],
      cfg_item CFG_ITEM_DSU_LOOPFILE [(CFG_DATA_UCHAR, 1)],
      cfg_item CFG_ITEM_FOTON_VIN [(CFG_DATA_STRING, 18)],
      cfg_item CFG_ITEM_FOTON_URL [(CFG_DATA_STRING, 256)],
      cfg_item CFG_ITEM_FOTON_PORT [(CFG_DATA_USHORT, 2)],
      cfg_item CFG_ITEM_FOTON_INTERVAL [(CFG_DATA_USHORT, 2)],
      cfg_item CFG_ITEM_FOTON_REGINTV [(CFG_DATA_USHORT, 2)],
      cfg_item CFG_ITEM_FOTON_TIMEOUT [(CFG_DATA_USHORT, 2)],
      cfg_item CFG_ITEM_FT_UDS_REPAIR_SHOP_CODE [(CFG_DATA_STRING, 10)],
      cfg_item CFG_ITEM_FT_UDS_AVN_SERIAL_NUMBER [(CFG_DATA_STRING, 16)],
      cfg_item CFG_ITEM_FT_UDS_VEHICLE_TYPE [(CFG_DATA_UCHAR, 1)],
      cfg_item CFG_ITEM_CAN2_AUTO_BAUD [(CFG_DATA_USHORT, 2)],
      cfg_item CFG_ITEM_FT_UDS_POWER [(CFG_DATA_UCHAR, 1)],
      cfg_item CFG_ITEM_FUELCELL [(CFG_DATA_UCHAR, 1)],
      cfg_item CFG_ITEM_PART_NUM [(CFG_DATA_STRING, 14)],
      cfg_item CFG_ITEM_FT_UDS_HW [(CFG_DATA_STRING, 14)],
      cfg_item CFG_ITEM_INTEST_HW [(CFG_DATA_STRING, 32)],
      cfg_item CFG_ITEM_FT_HBINTV [(CFG_DATA_USHORT, 2)],
      cfg_item CFG_ITEM_FT_REGISTER [(CFG_DATA_UCHAR, 1)],
      cfg_item CFG_ITEM_FT_TID [(CFG_DATA_STRING, 7)],
      cfg_item CFG_ITEM_FT_SIM [(CFG_DATA_STRING, 13)],
      cfg_item CFG_ITEM_FT_DTN [(CFG_DATA_STRING, 29)],
      cfg_item CFG_ITEM_FT_DEV_TYPE [(CFG_DATA_STRING, 10)],
      cfg_item CFG_ITEM_FT_DEV_SN [(CFG_DATA_STRING, 13)],
      cfg_item CFG_ITEM_FT_TYPE [(CFG_DATA_UCHAR, 1)],
      cfg_item CFG_ITEM_FT_PORT [(CFG_DATA_UCHAR, 1)],
      cfg_item CFG_ITEM_FTTSP_VIN [(CFG_DATA_STRING, 18)],
      cfg_item CFG_ITEM_FTTSP_URL [(CFG_DATA_STRING, 256)],
      cfg_item CFG_ITEM_FTTSP_PORT [(CFG_DATA_USHORT, 2)],
      cfg_item CFG_ITEM_FTTSP_INTERVAL [(CFG_DATA_USHORT, 2)],
      cfg_item CFG_ITEM_FTTSP_TUKEY [(CFG_DATA_STRING, 17)]]"

text \<open>\<open>CFG_REG_ITEM\<close> is the pair of an item and a callback.\<close>

record cfg =
  cf_buf :: "byte list"
  cf_table :: "CFG_ITEM_INFO list"
  cf_regtbl :: "(nat \<times> nat) list"
  cf_status :: bool
  cf_disk :: disk
  cf_calls :: "(nat \<times> nat \<times> byte list \<times> byte list) list"

text \<open>
  \<open>ce_behind\<close>: what can be read in memory behind the object whose bytes are passed for an item. \<open>ce_slack\<close>: how many bytes
  behind a local array the compiler leaves unused.
\<close>

record cfg_env =
  ce_io :: io_env
  ce_cb :: "nat \<Rightarrow> nat \<Rightarrow> byte list \<Rightarrow> byte list \<Rightarrow> int"
  ce_behind :: "nat \<Rightarrow> byte list"
  ce_slack :: nat

section \<open>The table\<close>

definition cfg_para_check :: "CFG_DATA_TYPE \<Rightarrow> nat \<Rightarrow> int" where
  "cfg_para_check type len =
     (case type of
        CFG_DATA_UINT \<Rightarrow> (if len \<noteq> 4 then CFG_INVALID_PARAMETER else 0)
      | CFG_DATA_USHORT \<Rightarrow> (if len \<noteq> 2 then CFG_INVALID_PARAMETER else 0)
      | CFG_DATA_UCHAR \<Rightarrow> (if len \<noteq> 1 then CFG_INVALID_PARAMETER else 0)
      | CFG_DATA_DOUBLE \<Rightarrow> (if len \<noteq> 8 then CFG_INVALID_PARAMETER else 0)
      | CFG_DATA_STRING \<Rightarrow> (if len \<le> 1 then CFG_INVALID_PARAMETER else 0)
      | CFG_DATA_INVALID \<Rightarrow> CFG_INVALID_PARAMETER)"

text \<open>The inner loop of \<open>cfg_init_para\<close>: the size of an item, \<^const>\<open>None\<close> if a member fails the check.\<close>

fun cfg_members_size :: "CFG_ITEM_TYPE list \<Rightarrow> nat \<Rightarrow> nat option" where
  "cfg_members_size [] n = Some n"
| "cfg_members_size (m # ms) n =
     (if ct_type m \<noteq> CFG_DATA_INVALID
      then if cfg_para_check (ct_type m) (ct_len m) \<noteq> 0 then None else cfg_members_size ms (n + ct_len m)
      else Some n)"

fun cfg_init_loop :: "nat \<Rightarrow> CFG_ITEM_INFO list \<Rightarrow> int \<times> CFG_ITEM_INFO list" where
  "cfg_init_loop off [] = (0, [])"
| "cfg_init_loop off (it # its) =
     (case cfg_members_size (take CFG_PARA_MAX_MEMBER_CNT (ci_member it)) 0 of
        None \<Rightarrow> (CFG_CHECK_CFG_TABLE_FAILED, it # its)
      | Some n \<Rightarrow> let (ret, rest) = cfg_init_loop (off + n) its in (ret, it\<lparr>ci_offset := off, ci_len := n\<rparr> # rest))"

definition cfg_init_para :: "cfg \<Rightarrow> int \<times> cfg" where
  "cfg_init_para c =
     (let (ret, t) = cfg_init_loop 0 (cf_table c);
          c1 = c\<lparr>cf_buf := replicate CFG_PARA_BUF_LEN 0, cf_regtbl := [], cf_table := t\<rparr>
      in if ret \<noteq> 0 then (ret, c1)
         else if CFG_PARA_BUF_LEN < ci_offset (last t) + ci_len (last t) then (CFG_PARA_OVERFLOW, c1)
         else (0, c1))"

section \<open>Reading, registering, notifying\<close>

text \<open>\<open>ptr\<close>: neither pointer is NULL; \<open>len\<close> the size of the caller's buffer, then that of the item.\<close>

definition cfg_get_para :: "nat \<Rightarrow> bool \<Rightarrow> nat \<Rightarrow> cfg \<Rightarrow> (int \<times> byte list \<times> nat) option" where
  "cfg_get_para iid ptr len c =
     (if CFG_ITEM_ID_MAX \<le> iid \<or> \<not> ptr then Some (CFG_INVALID_PARAMETER, [], len)
      else do {
        it \<leftarrow> byte_at (cf_table c) iid;
        if len < ci_len it then Some (CFG_INVALID_PARAMETER, [], len)
        else do { data \<leftarrow> subarray (cf_buf c) (ci_offset it) (ci_len it); Some (0, data, ci_len it) } })"

definition cfg_register :: "nat \<Rightarrow> nat option \<Rightarrow> cfg \<Rightarrow> int \<times> cfg" where
  "cfg_register iid onchanged c =
     (case onchanged of
        None \<Rightarrow> (CFG_INVALID_PARAMETER, c)
      | Some cb \<Rightarrow>
          if CFG_MAX_REG_ITEM_NUM \<le> length (cf_regtbl c) then (CFG_TABLE_OVERFLOW, c)
          else (0, c\<lparr>cf_regtbl := cf_regtbl c @ [(iid, cb)]\<rparr>))"

fun cfg_notify_loop :: "(nat \<times> nat) list \<Rightarrow> nat \<Rightarrow> byte list \<Rightarrow> nat \<Rightarrow> cfg \<Rightarrow> (int \<times> cfg) option" where
  "cfg_notify_loop [] iid old para_len c = Some (0, c)"
| "cfg_notify_loop (r # rs) iid old para_len c =
     (if fst r = iid then do {
        (ret, new, new_len) \<leftarrow> cfg_get_para iid True CFG_MAX_PARA_LEN c;
        if ret \<noteq> 0 \<or> new_len \<noteq> para_len then Some (ret, c)
        else cfg_notify_loop rs iid old para_len (c\<lparr>cf_calls := cf_calls c @ [(snd r, iid, old, new)]\<rparr>) }
      else cfg_notify_loop rs iid old para_len c)"

definition cfg_notify_changed :: "nat \<Rightarrow> byte list \<Rightarrow> nat \<Rightarrow> cfg \<Rightarrow> (int \<times> cfg) option" where
  "cfg_notify_changed iid old para_len c = cfg_notify_loop (cf_regtbl c) iid old para_len c"

section \<open>Setting\<close>

text \<open>\<open>data\<close>: the readable bytes from the pointer on, \<^const>\<open>None\<close> for NULL.\<close>

definition cfg_set_para_im :: "nat \<Rightarrow> byte list option \<Rightarrow> nat \<Rightarrow> cfg \<Rightarrow> (int \<times> cfg) option" where
  "cfg_set_para_im iid data len c =
     (if CFG_ITEM_ID_MAX \<le> iid \<or> data = None then Some (CFG_INVALID_PARAMETER, c)
      else do {
        it \<leftarrow> byte_at (cf_table c) iid;
        if len \<noteq> ci_len it then Some (CFG_INVALID_PARAMETER, c)
        else do { buf \<leftarrow> blit (cf_buf c) (ci_offset it) (the data) len; Some (0, c\<lparr>cf_buf := buf\<rparr>) } })"

definition cfg_save_para :: "cfg_env \<Rightarrow> cfg \<Rightarrow> int \<times> cfg" where
  "cfg_save_para env c =
     (let (ret, d) = rds_update_once (ce_io env) (type_no RDS_SYS_CFG) (Some (cf_buf c)) (cf_disk c)
      in (ret, c\<lparr>cf_disk := d\<rparr>))"

definition cfg_set_by_id :: "cfg_env \<Rightarrow> nat \<Rightarrow> byte list option \<Rightarrow> nat \<Rightarrow> bool \<Rightarrow> cfg \<Rightarrow> (int \<times> cfg) option" where
  "cfg_set_by_id env iid data len silent c =
     (if CFG_ITEM_ID_MAX \<le> iid then Some (CFG_INVALID_PARAMETER, c)
      else do {
        (ret, old, paralen) \<leftarrow> cfg_get_para iid True CFG_MAX_PARA_LEN c;
        if ret \<noteq> 0 \<or> paralen \<noteq> len then Some (CFG_INVALID_PARAMETER, c)
        else do {
          (ret, c1) \<leftarrow> cfg_set_para_im iid data len c;
          if ret \<noteq> 0 then Some (CFG_TABLE_UPDATE_PARA_FAILED, c1)
          else if \<not> silent then do {
            (ret, c2) \<leftarrow> cfg_notify_changed iid old len (snd (cfg_save_para env c1));
            Some (0, c2) }
          else Some (0, c1) } })"

definition cfg_set_para :: "cfg_env \<Rightarrow> nat \<Rightarrow> byte list option \<Rightarrow> nat \<Rightarrow> cfg \<Rightarrow> (int \<times> cfg) option" where
  "cfg_set_para env iid data len c = cfg_set_by_id env iid data len False c"

section \<open>Defaults\<close>

text \<open>A string literal, and \<open>n\<close> bytes read from the beginning of an object that is passed for the item \<open>iid\<close>,
  as far as they can be read.\<close>

definition cstr :: "string \<Rightarrow> byte list" where
  "cstr s = map of_char s @ [0]"

definition bytes_from :: "cfg_env \<Rightarrow> nat \<Rightarrow> byte list \<Rightarrow> nat \<Rightarrow> byte list option" where
  "bytes_from env iid obj n = Some (take n (obj @ ce_behind env iid))"

text \<open>A local array of \<open>n\<close> zeros and \<open>strcpy\<close> to it.\<close>

definition zeros :: "nat \<Rightarrow> byte list option" where
  "zeros n = Some (replicate n 0)"

definition strcpy_to :: "cfg_env \<Rightarrow> nat \<Rightarrow> string \<Rightarrow> byte list option" where
  "strcpy_to env n s =
     (if length s + 1 \<le> n + ce_slack env then Some (take n (cstr s @ replicate n 0)) else None)"

definition short :: "u16 \<Rightarrow> byte list option" where
  "short w = Some (put_u16 w)"

definition uint :: "u32 \<Rightarrow> byte list option" where
  "uint w = Some (le32 w)"

definition uchar :: "byte \<Rightarrow> byte list option" where
  "uchar b = Some [b]"

text \<open>
  The calls of \<open>cfg_set_default_para\<close> in their order: item, data and length. \<^const>\<open>None\<close> is a copy that
  goes past the padding of its array.
\<close>

definition cfg_defaults :: "cfg_env \<Rightarrow> (nat \<times> byte list option \<times> nat) list" where
  "cfg_defaults env =
     [(CFG_ITEM_CAN_DEFAULT_BAUD_0, short 0, 2),
      (CFG_ITEM_CAN_DEFAULT_BAUD_1, short 0, 2),
      (CFG_ITEM_CAN_DEFAULT_BAUD_2, short 0, 2),
      (CFG_ITEM_CAN_DEFAULT_BAUD_3, short 0, 2),
      (CFG_ITEM_CAN_DEFAULT_BAUD_4, short 0, 2),
      (CFG_ITEM_FT_UDS_VEHICLE_TYPE, uchar 0xff, 1),
      (CFG_ITEM_FT_UDS_POWER, uchar 12, 1),
      (CFG_ITEM_DBC_PATH, bytes_from env CFG_ITEM_DBC_PATH [0] 256, 256),
      (CFG_ITEM_SLEEP_MODE, uchar 3, 1),
      (CFG_ITEM_WAN_APN, bytes_from env CFG_ITEM_WAN_APN (cstr ''ctnet'') 32, 32),
      (CFG_ITEM_WAN_APN_AUTH, zeros 64, 64),
      (CFG_ITEM_LOCAL_APN, bytes_from env CFG_ITEM_LOCAL_APN (cstr '''') 32, 32),
      (CFG_ITEM_LOC_APN_AUTH, zeros 64, 64),
      (CFG_ITEM_WIFI_SET, uchar 0, 1),
      (CFG_ITEM_DCOM_SET, uchar 1, 1),
      (CFG_ITEM_NET_TYPE, uchar 0, 1),
      (CFG_ITEM_WIFI_MAXASSOC, uchar 8, 1),
      (CFG_ITEM_WIFI_SSID, bytes_from env CFG_ITEM_WIFI_SSID (cstr ''foton_tbox'') 32, 32),
      (CFG_ITEM_WIFI_KEY, bytes_from env CFG_ITEM_WIFI_KEY (cstr ''12345678'') 32, 32),
      (CFG_ITEM_ICALL, bytes_from env CFG_ITEM_ICALL (cstr ''95190738'') 32, 32),
      (CFG_ITEM_BCALL, bytes_from env CFG_ITEM_BCALL (cstr ''95190737'') 32, 32),
      (CFG_ITEM_WHITE_LIST, bytes_from env CFG_ITEM_WHITE_LIST (cstr ''95190737;95190738;01080287000;'') 512, 512),
      (CFG_ITEM_DSU_AUTHKEY, strcpy_to env 256 ''intestadmin'', 256),
      (CFG_ITEM_DSU_CANLOG_TIME, short 30, 2),
      (CFG_ITEM_DSU_CANLOG_MODE, uchar 0, 1),
      (CFG_ITEM_DSU_SDHZ, uchar 1, 1),
      (CFG_ITEM_DSU_HOURFILE, uchar 3, 1),
      (CFG_ITEM_DSU_LOOPFILE, uchar 1, 1),
      (CFG_ITEM_GB32960_VIN, bytes_from env CFG_ITEM_GB32960_VIN (cstr ''00000000000000000'') 18, 18),
      (CFG_ITEM_GB32960_URL, zeros 256, 256),
      (CFG_ITEM_GB32960_PORT, short 0, 2),
      (CFG_ITEM_GB32960_REGINTV, short 0, 2),
      (CFG_ITEM_GB32960_INTERVAL, short 10, 2),
      (CFG_ITEM_GB32960_TIMEOUT, short 5, 2),
      (CFG_ITEM_GB32960_REGSEQ, uint 0, 4),
      (CFG_ITEM_FOTON_VIN, bytes_from env CFG_ITEM_FOTON_VIN (cstr ''00000000000000000'') 18, 18),
      (CFG_ITEM_FOTON_URL, bytes_from env CFG_ITEM_FOTON_URL (cstr ''211.94.119.48'') 256, 256),
      (CFG_ITEM_FOTON_PORT, short 39091, 2),
      (CFG_ITEM_FOTON_REGINTV, short 30, 2),
      (CFG_ITEM_FT_HBINTV, short 10, 2),
      (CFG_ITEM_FOTON_INTERVAL, short 10, 2),
      (CFG_ITEM_FOTON_TIMEOUT, short 5, 2),
      (CFG_ITEM_FT_HBINTV, short 15, 2),
      (CFG_ITEM_SLEEP_TIME, uint (7 * 24 * 60), 4),
      (CFG_ITEM_DSLEEP_TIME, uint (14 * 24 * 60), 4),
      (CFG_ITEM_VTD, uchar 0, 1),
      (CFG_ITEM_ICALL_F, uchar 0, 1),
      (CFG_ITEM_BCALL_F, uchar 0, 1),
      (CFG_ITEM_ECALL_F, uchar 0, 1),
      (CFG_ITEM_LOG_ENABLE, uchar 0, 1),
      (CFG_ITEM_RTC_WAKEUP_TIME, uint 0, 4),
      (CFG_ITEM_BAT_TYPE, uchar 2, 1),
      (CFG_ITEM_FT_UDS_REPAIR_SHOP_CODE, zeros 10, 10),
      (CFG_ITEM_FT_UDS_AVN_SERIAL_NUMBER, zeros 16, 16),
      (CFG_ITEM_FUELCELL, uchar 0, 1),
      (CFG_ITEM_PART_NUM, strcpy_to env 14 ''H4794010002A0'', 14),
      (CFG_ITEM_FT_UDS_HW, strcpy_to env 14 ''H4HA0002180814'', 14),
      (CFG_ITEM_FT_DEV_TYPE, strcpy_to env 10 ''YLA02'', 10),
      (CFG_ITEM_FT_PORT, uchar 0, 1),
      (CFG_ITEM_FT_REGISTER, uchar 0, 1)]"

fun cfg_set_all :: "cfg_env \<Rightarrow> bool \<Rightarrow> (nat \<times> byte list option \<times> nat) list \<Rightarrow> cfg \<Rightarrow> cfg option" where
  "cfg_set_all env type [] c = Some c"
| "cfg_set_all env type ((iid, data, len) # ds) c =
     (case data of
        None \<Rightarrow> None
      | Some x \<Rightarrow> do { (ret, c1) \<leftarrow> cfg_set_by_id env iid (Some x) len type c; cfg_set_all env type ds c1 })"

definition cfg_set_default_para :: "cfg_env \<Rightarrow> bool \<Rightarrow> cfg \<Rightarrow> (int \<times> cfg) option" where
  "cfg_set_default_para env type c = do { c1 \<leftarrow> cfg_set_all env type (cfg_defaults env) c; Some (0, c1) }"

definition cfg_upgrade_new_para :: "cfg_env \<Rightarrow> cfg \<Rightarrow> (int \<times> cfg) option" where
  "cfg_upgrade_new_para env c = do {
     (ret, c1) \<leftarrow> cfg_set_by_id env CFG_ITEM_FTTSP_TUKEY
       (Some [0x0a, 0x0b, 0x0c, 0x0d, 0x0e, 0x0f, 0x09, 0x08, 0x07, 0x06, 0x05, 0x04, 0x03, 0x02, 0x01, 0x00, 0x00]) 17 True c;
     Some (0, c1) }"

section \<open>Start\<close>

text \<open>The string at a pointer, up to its terminating zero.\<close>

definition c_string :: "byte list \<Rightarrow> byte list" where
  "c_string xs = takeWhile (\<lambda>b. b \<noteq> 0) xs"

text \<open>\<open>ver\<close>: what the local array of 32 bytes holds before \<open>rds_get\<close>; a failing \<open>rds_get\<close> leaves it.\<close>

definition cfg_restore_para :: "cfg_env \<Rightarrow> byte list \<Rightarrow> cfg \<Rightarrow> (int \<times> cfg) option" where
  "cfg_restore_para env ver c = do {
     (ret, b, d) \<leftarrow> rds_get (ce_io env) (type_no RDS_SYS_CFG)
       \<lparr>rb_data = cf_buf c, rb_len = word_of_nat CFG_PARA_BUF_LEN, rb_ver = Some ver\<rparr> (cf_disk c);
     let c1 = c\<lparr>cf_buf := rb_data b, cf_disk := d\<rparr>;
     c2 \<leftarrow> (if ret \<noteq> 0 then do {
               (ret', c2) \<leftarrow> cfg_set_default_para env True c1;
               Some ((snd (cfg_save_para env c2))\<lparr>cf_status := False\<rparr>) }
             else Some c1);
     if c_string (the (rb_ver b)) \<noteq> map of_char COM_APP_MAIN_VER
     then do { (ret', c3) \<leftarrow> cfg_upgrade_new_para env c2; Some (0, c3) }
     else Some (0, c2) }"

definition cfg_get_para_status :: "cfg \<Rightarrow> bool" where
  "cfg_get_para_status c = cf_status c"

text \<open>The command \<open>setdefault\<close>: the records are deleted and the application is killed.\<close>

definition cfg_set_default :: "cfg_env \<Rightarrow> cfg \<Rightarrow> int \<times> cfg" where
  "cfg_set_default env c = (0, c\<lparr>cf_disk := rds_set_default (ce_io env) (cf_disk c)\<rparr>)"

definition cfg_init :: "cfg_env \<Rightarrow> byte list \<Rightarrow> INIT_PHASE \<Rightarrow> cfg \<Rightarrow> (int \<times> cfg) option" where
  "cfg_init env ver phase c =
     (case phase of
        INIT_PHASE_INSIDE \<Rightarrow> Some (0, snd (cfg_init_para c))
      | INIT_PHASE_RESTORE \<Rightarrow> do { (ret, c1) \<leftarrow> cfg_restore_para env ver c; Some (0, c1) }
      | INIT_PHASE_OUTSIDE \<Rightarrow> Some (0, c))"

end
