(* ===== verification/CfgProps.thy ===== *)
theory CfgProps
  imports Cfg RdsProps
begin

text \<open>
  The configuration keeps each item apart, hands out what was set, tells the registered modules of every
  change, and finds its settings again at the next start. What it does when the store fails or is
  damaged is stated as it is.
\<close>

section \<open>The layout\<close>

text \<open>The sizes of the 74 items, in the order of their numbers.\<close>

definition cfg_lens :: "nat list" where
  "cfg_lens =
     [4, 4, 1, 32, 64, 32, 64, 256, 1, 1, 1, 1, 32, 32, 32, 32, 512, 4, 4, 1, 2, 1, 1,
      1, 2, 2, 2, 2, 2, 1, 4, 1, 18, 256, 2, 2, 2, 2, 4, 256, 2, 1, 1, 1, 1, 18, 256, 2,
      2, 2, 2, 10, 16, 1, 2, 1, 1, 14, 14, 32, 2, 1, 7, 13, 29, 10, 13, 1, 1, 18, 256, 2,
      2, 17]"

lemma length_cfg_lens [simp]: "length cfg_lens = 74"
  by (simp add: cfg_lens_def)

lemma cfg_lens_small: "\<forall>n \<in> set cfg_lens. 0 < n \<and> n \<le> CFG_MAX_PARA_LEN"
  by (simp add: cfg_lens_def cfg_sizes)

lemma cfg_lens_nth: "i < 74 \<Longrightarrow> 0 < cfg_lens ! i \<and> cfg_lens ! i \<le> CFG_MAX_PARA_LEN"
  using cfg_lens_small by simp

lemma sum_cfg_lens: "sum_list cfg_lens = 2424"
  by (simp add: cfg_lens_def)

lemma cfg_init_loop_places:
  "list_all2 (\<lambda>it n. cfg_members_size (take CFG_PARA_MAX_MEMBER_CNT (ci_member it)) 0 = Some n) its ns \<Longrightarrow>
   cfg_init_loop off its = (0, map2 (\<lambda>it p. it\<lparr>ci_offset := fst p, ci_len := snd p\<rparr>) its (places off ns))"
  by (induction its ns arbitrary: off rule: list_all2_induct) auto

lemma cfg_table_sizes:
  "list_all2 (\<lambda>it n. cfg_members_size (take CFG_PARA_MAX_MEMBER_CNT (ci_member it)) 0 = Some n) cfg_table cfg_lens"
  by (simp add: cfg_table_def cfg_lens_def cfg_item_def cfg_sizes cfg_para_check_def)

lemma length_cfg_table: "length cfg_table = 74"
  using list_all2_lengthD [OF cfg_table_sizes] by simp

lemma cfg_table_ids: "map ci_itemid cfg_table = [0..<CFG_ITEM_ID_MAX]"
  by (simp add: cfg_table_def cfg_item_def cfg_ids upt_rec)

definition cfg_laid_out :: "CFG_ITEM_INFO list" where
  "cfg_laid_out = map2 (\<lambda>it p. it\<lparr>ci_offset := fst p, ci_len := snd p\<rparr>) cfg_table (places 0 cfg_lens)"

lemma cfg_init_table: "cfg_init_loop 0 cfg_table = (0, cfg_laid_out)"
  by (simp add: cfg_laid_out_def cfg_init_loop_places [OF cfg_table_sizes])

lemma length_laid_out [simp]: "length cfg_laid_out = 74"
  by (simp add: cfg_laid_out_def length_cfg_table)

definition cfg_off :: "nat \<Rightarrow> nat" where
  "cfg_off i = sum_list (take i cfg_lens)"

lemma laid_out_nth:
  "i < 74 \<Longrightarrow> ci_len (cfg_laid_out ! i) = cfg_lens ! i \<and> ci_offset (cfg_laid_out ! i) = cfg_off i"
  by (simp add: cfg_laid_out_def length_cfg_table places_nth cfg_off_def)

lemma cfg_off_end: "i < 74 \<Longrightarrow> cfg_off i + cfg_lens ! i \<le> CFG_PARA_BUF_LEN"
  using places_end [of i cfg_lens] sum_cfg_lens by (simp add: cfg_off_def cfg_sizes)

lemma cfg_off_apart: "i < 74 \<Longrightarrow> j < 74 \<Longrightarrow> i \<noteq> j \<Longrightarrow> cfg_off j + cfg_lens ! j \<le> cfg_off i \<or> cfg_off i + cfg_lens ! i \<le> cfg_off j"
  using places_apart [of i j cfg_lens] places_apart [of j i cfg_lens] by (cases "i < j") (auto simp: cfg_off_def)

section \<open>One call\<close>

definition cfg_ok :: "cfg \<Rightarrow> bool" where
  "cfg_ok c \<longleftrightarrow> cf_table c = cfg_laid_out \<and> length (cf_buf c) = CFG_PARA_BUF_LEN"

definition cfg_val :: "cfg \<Rightarrow> nat \<Rightarrow> byte list" where
  "cfg_val c i = place_of (cf_buf c) (cfg_off i, cfg_lens ! i)"

lemma cfg_ok_init: "cf_table c = cfg_table \<Longrightarrow> \<exists>c'. cfg_init_para c = (0, c') \<and> cfg_ok c' \<and> cf_regtbl c' = [] \<and>
    cf_disk c' = cf_disk c \<and> cf_status c' = cf_status c \<and> cf_calls c' = cf_calls c"
  using cfg_off_end [of 73] laid_out_nth [of 73] last_conv_nth [of cfg_laid_out]
  by (simp add: cfg_init_para_def cfg_init_table Let_def cfg_ok_def) (metis length_laid_out list.size(3) zero_neq_numeral not_le)

lemma cfg_ok_fields [simp]:
  "cfg_ok (c\<lparr>cf_disk := d\<rparr>) = cfg_ok c" "cfg_ok (c\<lparr>cf_calls := cs\<rparr>) = cfg_ok c" "cfg_ok (c\<lparr>cf_status := st\<rparr>) = cfg_ok c"
  "cfg_val (c\<lparr>cf_disk := d\<rparr>) = cfg_val c" "cfg_val (c\<lparr>cf_calls := cs\<rparr>) = cfg_val c" "cfg_val (c\<lparr>cf_status := st\<rparr>) = cfg_val c"
  by (simp_all add: cfg_ok_def cfg_val_def fun_eq_iff)

lemma length_cfg_val: "cfg_ok c \<Longrightarrow> i < 74 \<Longrightarrow> length (cfg_val c i) = cfg_lens ! i"
  using cfg_off_end [of i] by (simp add: cfg_val_def place_of_def cfg_ok_def)

lemma cfg_get_eq:
  assumes "cfg_ok c" "i < 74"
  shows "cfg_get_para i True n c =
    Some (if n < cfg_lens ! i then (CFG_INVALID_PARAMETER, [], n) else (0, cfg_val c i, cfg_lens ! i))"
  using assms cfg_off_end [OF assms(2)] laid_out_nth [OF assms(2)]
  by (simp add: cfg_get_para_def cfg_ok_def cfg_val_def place_of_def CFG_ITEM_ID_MAX_def)

text \<open>The buffer after an item was written.\<close>

definition cfg_put :: "nat \<Rightarrow> byte list \<Rightarrow> byte list \<Rightarrow> byte list" where
  "cfg_put i x buf = take (cfg_off i) buf @ x @ drop (cfg_off i + length x) buf"

lemma cfg_put_ok:
  assumes "cfg_ok c" "i < 74" "length x = cfg_lens ! i"
  shows "cfg_ok (c\<lparr>cf_buf := cfg_put i x (cf_buf c)\<rparr>)"
  using assms cfg_off_end [of i] by (simp add: cfg_ok_def cfg_put_def)

lemma cfg_put_val:
  assumes "cfg_ok c" "i < 74" "length x = cfg_lens ! i" "j < 74"
  shows "cfg_val (c\<lparr>cf_buf := cfg_put i x (cf_buf c)\<rparr>) j = (if j = i then x else cfg_val c j)"
proof (cases "j = i")
  case True
  then show ?thesis
    using place_same [of "cfg_off i" x "cf_buf c"] cfg_off_end [of i] assms by (simp add: cfg_val_def cfg_put_def cfg_ok_def)
next
  case False
  then show ?thesis
    using place_other [of "cfg_off i" x "cf_buf c" "cfg_off j" "cfg_lens ! j"] cfg_off_end [of i] cfg_off_end [of j]
      cfg_off_apart [of i j] assms by (simp add: cfg_val_def cfg_put_def cfg_ok_def)
qed

lemma cfg_set_im_eq:
  assumes "cfg_ok c" "i < 74" "cfg_lens ! i \<le> length x"
  shows "cfg_set_para_im i (Some x) (cfg_lens ! i) c =
    Some (0, c\<lparr>cf_buf := cfg_put i (take (cfg_lens ! i) x) (cf_buf c)\<rparr>)"
  using assms cfg_off_end [OF assms(2)] laid_out_nth [OF assms(2)]
  by (simp add: cfg_set_para_im_def cfg_ok_def cfg_put_def CFG_ITEM_ID_MAX_def min_def)

text \<open>The calls of a change, in the order of registration.\<close>

definition cfg_told :: "cfg \<Rightarrow> nat \<Rightarrow> byte list \<Rightarrow> byte list \<Rightarrow> (nat \<times> nat \<times> byte list \<times> byte list) list" where
  "cfg_told c i old new = map (\<lambda>r. (snd r, i, old, new)) (filter (\<lambda>r. fst r = i) (cf_regtbl c))"

lemma cfg_notify_eq:
  assumes "cfg_ok c" "i < 74"
  shows "cfg_notify_loop rs i old (cfg_lens ! i) c =
    Some (0, c\<lparr>cf_calls := cf_calls c @ map (\<lambda>r. (snd r, i, old, cfg_val c i)) (filter (\<lambda>r. fst r = i) rs)\<rparr>)"
  using assms
proof (induction rs arbitrary: c)
  case (Cons r rs)
  then show ?case using cfg_lens_nth [of i] by (simp add: cfg_get_eq)
qed simp

definition cfg_after_set :: "cfg_env \<Rightarrow> nat \<Rightarrow> byte list \<Rightarrow> bool \<Rightarrow> cfg \<Rightarrow> cfg" where
  "cfg_after_set env i x silent c =
     (let buf = cfg_put i x (cf_buf c)
      in if silent then c\<lparr>cf_buf := buf\<rparr>
         else c\<lparr>cf_buf := buf, cf_disk := snd (rds_update_once (ce_io env) (type_no RDS_SYS_CFG) (Some buf) (cf_disk c)),
                cf_calls := cf_calls c @ cfg_told c i (cfg_val c i) x\<rparr>)"

lemma cfg_set_eq:
  assumes "cfg_ok c" "i < 74" "cfg_lens ! i \<le> length x"
  shows "cfg_set_by_id env i (Some x) (cfg_lens ! i) silent c =
    Some (0, cfg_after_set env i (take (cfg_lens ! i) x) silent c)"
proof -
  let ?x = "take (cfg_lens ! i) x"
  let ?c1 = "c\<lparr>cf_buf := cfg_put i ?x (cf_buf c)\<rparr>"
  have ok: "cfg_ok ?c1" and v: "cfg_val ?c1 i = ?x"
    using cfg_put_ok [of c i ?x] cfg_put_val [of c i ?x i] assms by (simp_all add: min_def)
  let ?c2 = "snd (cfg_save_para env ?c1)"
  have c2: "?c2 = ?c1\<lparr>cf_disk := snd (rds_update_once (ce_io env) (type_no RDS_SYS_CFG) (Some (cf_buf ?c1)) (cf_disk c))\<rparr>"
    by (simp add: cfg_save_para_def split_beta)
  have n: "cfg_notify_changed i (cfg_val c i) (cfg_lens ! i) ?c2 =
      Some (0, ?c2\<lparr>cf_calls := cf_calls c @ cfg_told c i (cfg_val c i) ?x\<rparr>)"
    using cfg_notify_eq [of ?c2 i "cf_regtbl c" "cfg_val c i"] ok v assms(2)
    by (simp add: cfg_notify_changed_def c2 cfg_told_def)
  have a: "cfg_after_set env i ?x False c = ?c2\<lparr>cf_calls := cf_calls c @ cfg_told c i (cfg_val c i) ?x\<rparr>"
    by (simp add: cfg_after_set_def c2 Let_def)
  show ?thesis
    using cfg_lens_nth [OF assms(2)] assms(2) n
    by (cases silent; simp add: cfg_set_by_id_def cfg_get_eq [OF assms(1,2)] cfg_set_im_eq [OF assms] CFG_ITEM_ID_MAX_def a;
        simp add: cfg_after_set_def Let_def)
qed

lemma cfg_set_refused:
  assumes "cfg_ok c" "74 \<le> i \<or> data = None \<or> n \<noteq> cfg_lens ! i"
  shows "\<exists>ret. ret \<noteq> 0 \<and> cfg_set_by_id env i data n silent c = Some (ret, c)"
proof (cases "i < 74")
  case True
  then show ?thesis
    using assms cfg_lens_nth [OF True]
    by (cases "n = cfg_lens ! i")
      (simp_all add: cfg_set_by_id_def cfg_get_eq cfg_set_para_im_def CFG_ITEM_ID_MAX_def cfg_codes)
qed (simp add: cfg_set_by_id_def CFG_ITEM_ID_MAX_def cfg_codes)

lemma cfg_after_fields [simp]:
  "cf_buf (cfg_after_set env i x silent c) = cfg_put i x (cf_buf c)"
  "cf_table (cfg_after_set env i x silent c) = cf_table c"
  "cf_regtbl (cfg_after_set env i x silent c) = cf_regtbl c"
  "cf_status (cfg_after_set env i x silent c) = cf_status c"
  by (simp_all add: cfg_after_set_def Let_def)

lemma cfg_ok_cong: "cf_table c = cf_table c' \<Longrightarrow> cf_buf c = cf_buf c' \<Longrightarrow> cfg_ok c = cfg_ok c'"
  by (simp add: cfg_ok_def)

lemma cfg_val_cong: "cf_buf c = cf_buf c' \<Longrightarrow> cfg_val c = cfg_val c'"
  by (simp add: cfg_val_def fun_eq_iff)

lemma cfg_after_ok: "cfg_ok c \<Longrightarrow> i < 74 \<Longrightarrow> length x = cfg_lens ! i \<Longrightarrow> cfg_ok (cfg_after_set env i x silent c)"
  using cfg_put_ok [of c i x] cfg_ok_cong [of "cfg_after_set env i x silent c" "c\<lparr>cf_buf := cfg_put i x (cf_buf c)\<rparr>"] by simp

lemma cfg_after_val:
  "cfg_ok c \<Longrightarrow> i < 74 \<Longrightarrow> length x = cfg_lens ! i \<Longrightarrow> j < 74 \<Longrightarrow>
   cfg_val (cfg_after_set env i x silent c) j = (if j = i then x else cfg_val c j)"
  using cfg_put_val [of c i x j] cfg_val_cong [of "cfg_after_set env i x silent c" "c\<lparr>cf_buf := cfg_put i x (cf_buf c)\<rparr>"] by simp

text \<open>A change is the environment of the call, whether it is silent and the bytes.\<close>

interpretation cfg_items: item_store "{..<74}" "\<lambda>i (env, silent, x). length x = cfg_lens ! i" cfg_ok cfg_val
  "\<lambda>i (env, silent, x). cfg_after_set env i x silent" "\<lambda>(env, silent, x). x"
  by unfold_locales (auto simp: cfg_after_ok cfg_after_val)

section \<open>Runs of calls\<close>

type_synonym cfg_call = "nat \<times> byte list option \<times> nat \<times> bool"

fun cfg_sets :: "cfg_env \<Rightarrow> cfg_call list \<Rightarrow> cfg \<Rightarrow> cfg option" where
  "cfg_sets env [] c = Some c"
| "cfg_sets env ((i, data, n, silent) # cs) c = do { (ret, c1) \<leftarrow> cfg_set_by_id env i data n silent c; cfg_sets env cs c1 }"

text \<open>The pointer of a call is NULL or \<open>n\<close> bytes can be read from it.\<close>

fun readable :: "cfg_call \<Rightarrow> bool" where
  "readable (i, data, n, silent) = (case data of None \<Rightarrow> True | Some x \<Rightarrow> n \<le> length x)"

text \<open>The changes of the calls that are accepted: the item exists and has the size given.\<close>

fun accepted :: "cfg_env \<Rightarrow> cfg_call list \<Rightarrow> (nat \<times> cfg_env \<times> bool \<times> byte list) list" where
  "accepted env [] = []"
| "accepted env ((i, data, n, silent) # cs) =
     (if i < CFG_ITEM_ID_MAX \<and> data \<noteq> None \<and> n = cfg_lens ! i
      then (i, env, silent, take n (the data)) # accepted env cs else accepted env cs)"

lemma accepted_fit:
  "\<forall>call \<in> set calls. readable call \<Longrightarrow> \<forall>(i, env, silent, x) \<in> set (accepted env calls). i < 74 \<and> length x = cfg_lens ! i"
  by (induction calls rule: accepted.induct) (auto simp: CFG_ITEM_ID_MAX_def split: option.splits)

lemma cfg_sets_eq:
  "cfg_ok c \<Longrightarrow> \<forall>call \<in> set calls. readable call \<Longrightarrow>
   cfg_sets env calls c = Some (fold (\<lambda>(i, p). (\<lambda>(env, silent, x). cfg_after_set env i x silent) p) (accepted env calls) c)"
proof (induction calls arbitrary: c rule: accepted.induct)
  case (2 e i data n silent cs)
  show ?case
  proof (cases "i < 74 \<and> data \<noteq> None \<and> n = cfg_lens ! i")
    case True
    then obtain x where x: "data = Some x" "cfg_lens ! i \<le> length x" using 2(4) by auto
    have "cfg_ok (cfg_after_set e i (take n x) silent c)"
      using 2(3) True x by (intro cfg_after_ok) auto
    then show ?thesis using 2 True x cfg_set_eq [OF 2(3), of i x e silent] by (auto simp: CFG_ITEM_ID_MAX_def)
  next
    case False
    then obtain ret where "cfg_set_by_id e i data n silent c = Some (ret, c)"
      using cfg_set_refused [OF 2(3), of i data n e silent] by auto
    then show ?thesis using 2 False by (auto simp: CFG_ITEM_ID_MAX_def)
  qed
qed simp

lemma cfg_reads:
  assumes "cfg_ok c" "\<forall>call \<in> set calls. readable call"
  shows "\<exists>c'. cfg_sets env calls c = Some c' \<and> cfg_ok c' \<and>
    (\<forall>j < 74. cfg_val c' j = (case map_of (rev (accepted env calls)) j of None \<Rightarrow> cfg_val c j | Some (e, s, x) \<Rightarrow> x))"
proof -
  note f = accepted_fit [OF assms(2), of env]
  have "\<forall>(i, p) \<in> set (accepted env calls). i \<in> {..<74} \<and> (\<lambda>(env, silent, x). length x = cfg_lens ! i) p"
    using f by fastforce
  then show ?thesis
    using cfg_items.run_ok [OF assms(1), of "accepted env calls"] cfg_items.run_get [OF assms(1), of "accepted env calls"]
    by (simp add: cfg_sets_eq [OF assms] case_prod_unfold split: option.split)
qed

lemma cfg_set_silent: "cfg_set_by_id env i data n True c = Some (ret, c') \<Longrightarrow> cf_disk c' = cf_disk c"
  by (auto simp: cfg_set_by_id_def cfg_set_para_im_def bind_eq_Some_conv split: if_splits prod.splits)

lemma cfg_sets_silent:
  "\<forall>(i, data, n, silent) \<in> set calls. silent \<Longrightarrow> cfg_sets env calls c = Some c' \<Longrightarrow> cf_disk c' = cf_disk c"
proof (induction calls arbitrary: c)
  case (Cons call calls)
  obtain i data n where call: "call = (i, data, n, True)" using Cons.prems(1) by (cases call) auto
  then obtain ret c1 where "cfg_set_by_id env i data n True c = Some (ret, c1)" "cfg_sets env calls c1 = Some c'"
    using Cons.prems(2) by (auto simp: bind_eq_Some_conv)
  then show ?case using Cons.IH [of c1] Cons.prems(1) cfg_set_silent by fastforce
qed simp

section \<open>The record of the store\<close>

abbreviation cfg_master :: string where
  "cfg_master \<equiv> rds_get_full_path 4 RDS_PATH_MASTER"

abbreviation cfg_backup :: string where
  "cfg_backup \<equiv> rds_get_full_path 4 RDS_PATH_BACKUP"

lemma cfg_rds_item: "rds_data_tbl ! 4 = rds_item RDS_SYS_CFG COM_APP_CUR_CFG_DIR COM_DATA_CUR_CFG_DIR ''sys_cfg.dat''"
  by (simp add: rds_data_tbl_def)

lemma cfg_master_apart: "take (length COM_DATA_CUR_CFG_DIR) cfg_master \<noteq> COM_DATA_CUR_CFG_DIR"
  by (simp add: rds_get_full_path_def cfg_rds_item rds_item_def rds_build_backup_path_def rds_paths)

lemma cfg_update_eq:
  assumes "x \<noteq> []" "rds_write env cfg_master x d = (ret, d1)"
  shows "rds_update_once env 4 (Some x) d =
    (if ret \<noteq> 0 then (ret, d1)
     else let r = file_copy env cfg_master cfg_backup d1;
              (ret, states, fs) = io_dir_copy env COM_APP_CUR_CFG_DIR COM_DATA_CUR_CFG_DIR (d_files (snd r))
          in (ret, set_files fs ((snd r)\<lparr>hist := hist (snd r) @ states\<rparr>)))"
proof -
  have "rds_get_index 4 = Some 4" by (simp add: index_less)
  moreover have "COM_DATA_CUR_CFG_DIR \<noteq> []" by (simp add: rds_paths)
  ultimately show ?thesis
    using assms by (simp add: rds_update_once_def Let_def cfg_rds_item rds_item_def copy_to_area_def)
qed

text \<open>The master after an update that reports success: new, or untouched where \<open>rename\<close> has failed.\<close>

lemma cfg_update_master:
  assumes "rds_update_once env 4 (Some x) d = (0, d')" "x \<noteq> []" "copies_apart env"
  shows "d_files d' cfg_master = (if io_rename env then Some (record_image (io_md5 env) x) else d_files d cfg_master)"
proof -
  obtain ret d1 where w: "rds_write env cfg_master x d = (ret, d1)" by fastforce
  note u = cfg_update_eq [OF assms(2) w]
  have ret: "ret = 0" using assms(1) by (auto simp: u split: if_splits)
  have "d_files d1 cfg_master = (if io_rename env then Some (record_image (io_md5 env) x) else d_files d cfg_master)"
    using rds_write_written [of env cfg_master x d] w ret path_eq(5) [of 4 4]
    by (auto simp: written_def replaced_def set_files_def only_at_def)
  moreover have "d_files (snd (file_copy env cfg_master cfg_backup d1)) cfg_master = d_files d1 cfg_master"
    using file_copy_only [of cfg_backup d1 env cfg_master] path_eq(3) [of 4 4] by (auto simp: only_at_def)
  moreover have "d_files d' cfg_master = d_files (snd (file_copy env cfg_master cfg_backup d1)) cfg_master"
  proof -
    let ?f = "snd (file_copy env cfg_master cfg_backup d1)"
    have "d_files d' = snd (snd (io_dir_copy env COM_APP_CUR_CFG_DIR COM_DATA_CUR_CFG_DIR (d_files ?f)))"
      using assms(1) ret by (auto simp: u split_beta Let_def set_files_def)
    then show ?thesis using assms(3) cfg_master_apart unfolding copies_apart_def by simp
  qed
  ultimately show ?thesis by simp
qed

lemma c_string_image: "c_string (copy_ver (take 36 (record_image md5 x))) = map of_char COM_APP_MAIN_VER"
  by (simp add: record_image_def Let_def RDS_HDR_def COM_APP_MAIN_VER_def COM_APP_VER_LEN_def copy_ver_def c_string_def)
    (simp add: eval_nat_numeral)

text \<open>Reading the record of the configuration from a master in order.\<close>

lemma cfg_read_back:
  assumes "d_files d cfg_master = Some (record_image (io_md5 env) x)" "small (d_files d)" "io_fine env d"
    "\<And>m. length (io_md5 env m) = 16" "length x = CFG_PARA_BUF_LEN" "length (rb_data b) = CFG_PARA_BUF_LEN" "rb_len b = 5120"
    "rb_ver b = Some ver"
  shows "\<exists>b' d'. rds_get env 4 b d = Some (0, b', d') \<and> rb_data b' = x \<and> d_files d' = d_files d \<and>
    c_string (the (rb_ver b')) = map of_char COM_APP_MAIN_VER"
proof -
  let ?c = "record_image (io_md5 env) x"
  have x: "x \<noteq> []" "length x < 2 ^ 31" using assms(5) by (auto simp: cfg_sizes)
  have d: "decode (io_md5 env) ?c = Some x" by (rule decode_record_image [OF assms(4) x])
  obtain ret b' s where r: "rds_read env cfg_master b d = Some (ret, b', d\<lparr>d_read := s\<rparr>)" "read_outcome env cfg_master b d ret b'"
    using rds_read_outcome [OF assms(2)] by blast
  have "ret = 0" using r(2) d assms(1,3,5,7) by (auto simp: read_outcome_def file_record_def io_fine_def cfg_sizes)
  then have "b' = got ?c x b" using r(2) assms(1) d by (auto simp: read_outcome_def)
  then show ?thesis
    using r(1) \<open>ret = 0\<close> c_string_image [of "io_md5 env" x] assms(5,6,8) by (simp add: get_eq got_def fill_def cfg_sizes)
qed

section \<open>Defaults\<close>

definition default_ids :: "nat set" where
  "default_ids = fst ` set (cfg_defaults \<lparr>ce_io = undefined, ce_cb = undefined, ce_behind = undefined, ce_slack = 0\<rparr>)"

lemma default_ids: "fst ` set (cfg_defaults env) = default_ids"
  by (simp add: default_ids_def cfg_defaults_def)

lemma cfg_set_all_none: "(i, None, n) \<in> set ds \<Longrightarrow> cfg_set_all env type ds c = None"
proof (induction ds arbitrary: c)
  case (Cons d ds)
  obtain j data m where d: "d = (j, data, m)" by (cases d)
  show ?case
  proof (cases data)
    case (Some x)
    then show ?thesis
      using Cons d by (cases "cfg_set_by_id env j (Some x) m type c") auto
  qed (simp add: d)
qed simp

lemma cfg_set_all_eq:
  assumes "\<forall>(i, data, n) \<in> set ds. i < 74 \<and> n = cfg_lens ! i \<and> (\<exists>x. data = Some x \<and> n \<le> length x)"
  shows "cfg_set_all env type ds c = cfg_sets env (map (\<lambda>(i, data, n). (i, data, n, type)) ds) c"
  using assms
proof (induction ds arbitrary: c)
  case (Cons d ds)
  obtain i x n where d: "d = (i, Some x, n)" using Cons.prems by (cases d) auto
  have "cfg_set_all env type ds c = cfg_sets env (map (\<lambda>(i, data, n). (i, data, n, type)) ds) c" for c
    using Cons.prems by (intro Cons.IH) simp
  then show ?case by (cases "cfg_set_by_id env i (Some x) n type c") (auto simp: d)
qed simp

text \<open>
  The objects the defaults are read from that are shorter than their item: a variable of one byte and eight
  string literals. Item, size of the object and bytes read.
\<close>

definition over_reads :: "(nat \<times> nat \<times> nat) list" where
  "over_reads = [(CFG_ITEM_DBC_PATH, 1, 256), (CFG_ITEM_WAN_APN, 6, 32), (CFG_ITEM_LOCAL_APN, 1, 32), (CFG_ITEM_WIFI_SSID, 11, 32),
     (CFG_ITEM_WIFI_KEY, 9, 32), (CFG_ITEM_ICALL, 9, 32), (CFG_ITEM_BCALL, 9, 32), (CFG_ITEM_WHITE_LIST, 31, 512),
     (CFG_ITEM_FOTON_URL, 14, 256)]"

definition over_reads_ok :: "cfg_env \<Rightarrow> bool" where
  "over_reads_ok env \<longleftrightarrow> (\<forall>(i, have, n) \<in> set over_reads. n \<le> have + length (ce_behind env i))"

lemmas default_bytes = bytes_from_def strcpy_to_def zeros_def short_def uint_def uchar_def cstr_def

lemma cfg_defaults_lens: "\<forall>(i, data, n) \<in> set (cfg_defaults env). i < 74 \<and> n = cfg_lens ! i"
  by (simp add: cfg_defaults_def cfg_ids cfg_lens_def)

lemma cfg_defaults_readable:
  "(\<forall>(i, data, n) \<in> set (cfg_defaults env). \<exists>x. data = Some x \<and> n \<le> length x) \<longleftrightarrow> 1 \<le> ce_slack env \<and> over_reads_ok env"
  by (simp add: cfg_defaults_def over_reads_ok_def over_reads_def default_bytes)

lemma cfg_defaults_fit:
  assumes "1 \<le> ce_slack env" "over_reads_ok env"
  shows "\<forall>(i, data, n) \<in> set (cfg_defaults env). i < 74 \<and> n = cfg_lens ! i \<and> (\<exists>x. data = Some x \<and> n \<le> length x)"
  using cfg_defaults_lens [of env] cfg_defaults_readable [of env] assms by fastforce

text \<open>One object that cannot be read is enough.\<close>

lemma cfg_set_short:
  assumes "cfg_ok c" "i < 74" "length x < cfg_lens ! i"
  shows "cfg_set_by_id env i (Some x) (cfg_lens ! i) silent c = None"
proof -
  have "cfg_set_para_im i (Some x) (cfg_lens ! i) c = None"
    using assms laid_out_nth [OF assms(2)] by (simp add: cfg_set_para_im_def cfg_ok_def CFG_ITEM_ID_MAX_def blit_def)
  then show ?thesis using assms(1,2) cfg_lens_nth [OF assms(2)] by (simp add: cfg_set_by_id_def cfg_get_eq CFG_ITEM_ID_MAX_def)
qed

lemma cfg_set_all_short:
  "cfg_ok c \<Longrightarrow> \<forall>(i, data, n) \<in> set ds. i < 74 \<and> n = cfg_lens ! i \<Longrightarrow>
   \<not> (\<forall>(i, data, n) \<in> set ds. \<exists>x. data = Some x \<and> n \<le> length x) \<Longrightarrow> cfg_set_all env type ds c = None"
proof (induction ds arbitrary: c)
  case (Cons d ds)
  obtain i data n where d: "d = (i, data, n)" by (cases d)
  have i: "i < 74" "n = cfg_lens ! i" using Cons.prems(2) d by auto
  show ?case
  proof (cases "\<exists>x. data = Some x \<and> n \<le> length x")
    case True
    then obtain x where x: "data = Some x" "n \<le> length x" by blast
    have "cfg_ok (cfg_after_set env i (take n x) type c)"
      using x i by (intro cfg_after_ok [OF Cons.prems(1)]) auto
    moreover have "cfg_set_by_id env i (Some x) n type c = Some (0, cfg_after_set env i (take n x) type c)"
      using cfg_set_eq [OF Cons.prems(1) i(1), of x env type] x i(2) by simp
    ultimately show ?thesis using Cons.IH Cons.prems(2,3) d x by auto
  next
    case False
    then show ?thesis using cfg_set_short [OF Cons.prems(1) i(1)] i(2) d by (cases data) auto
  qed
qed simp

lemma cfg_defaults_run:
  assumes "cfg_ok c" "1 \<le> ce_slack env" "over_reads_ok env"
  shows "\<exists>c'. cfg_set_default_para env type c = Some (0, c') \<and> cfg_ok c' \<and>
    (\<forall>j < 74. j \<notin> default_ids \<longrightarrow> cfg_val c' j = cfg_val c j) \<and>
    (type \<longrightarrow> cf_disk c' = cf_disk c)"
proof -
  let ?calls = "map (\<lambda>(i, data, n). (i, data, n, type)) (cfg_defaults env)"
  note fit = cfg_defaults_fit [OF assms(2,3)]
  have "\<forall>call \<in> set ?calls. readable call" using fit by fastforce
  from cfg_reads [OF assms(1) this, of env] obtain c' where c': "cfg_sets env ?calls c = Some c'" "cfg_ok c'"
    "\<forall>j < 74. cfg_val c' j = (case map_of (rev (accepted env ?calls)) j of None \<Rightarrow> cfg_val c j | Some (e, s, x) \<Rightarrow> x)" by blast
  have "fst ` set (accepted env calls) \<subseteq> fst ` set calls" for calls by (induction calls rule: accepted.induct) auto
  from this [of ?calls] have "j \<notin> fst ` set (rev (accepted env ?calls))" if "j \<notin> default_ids" for j
    using that default_ids [of env] by (auto simp: image_image split_beta)
  then have "map_of (rev (accepted env ?calls)) j = None" if "j \<notin> default_ids" for j
    using that map_of_eq_None_iff by metis
  moreover have "cf_disk c' = cf_disk c" if type
    by (rule cfg_sets_silent [OF _ c'(1)]) (use that in auto)
  ultimately show ?thesis using c' by (auto simp: cfg_set_default_para_def cfg_set_all_eq [OF fit])
qed


text \<open>A bench: the program has just started, nothing is stored, no call fails, zeros lie behind every object.\<close>

definition bench_cfg_env :: cfg_env where
  "bench_cfg_env = \<lparr>ce_io = bench_io, ce_cb = \<lambda>_ _ _ _. 0, ce_behind = \<lambda>_. replicate 512 0, ce_slack = 2\<rparr>"

definition bench_cfg0 :: "disk \<Rightarrow> cfg" where
  "bench_cfg0 d = \<lparr>cf_buf = [], cf_table = cfg_table, cf_regtbl = [], cf_status = True, cf_disk = d, cf_calls = []\<rparr>"

definition bench_cfg :: "disk \<Rightarrow> cfg" where
  "bench_cfg d = snd (cfg_init_para (bench_cfg0 d))"

lemma bench_cfg_ok: "cfg_ok (bench_cfg d)" "cf_disk (bench_cfg d) = d" "cf_regtbl (bench_cfg d) = []" "cf_calls (bench_cfg d) = []"
  using cfg_ok_init [of "bench_cfg0 d"] by (auto simp: bench_cfg_def bench_cfg0_def)

section \<open>Properties\<close>

text \<open>\<^bold>\<open>C5\<close>
  The configuration refines a map from items to values. After the start and any calls that set items,
  refused ones among them (no such item, a NULL pointer, a wrong length), reading an item yields the bytes
  of the last accepted call for it, or zeros if there was none, and a buffer that is too small is refused.\<close>

theorem cfg_store_refines_map:
  assumes "cf_table c = cfg_table" "\<forall>call \<in> set calls. readable call"
  shows "\<exists>c'. cfg_sets env calls (snd (cfg_init_para c)) = Some c' \<and>
    (\<forall>j < CFG_ITEM_ID_MAX. \<forall>len. cfg_get_para j True len c' =
      (let v = (case map_of (rev (accepted env calls)) j of None \<Rightarrow> replicate (cfg_lens ! j) 0 | Some (e, s, x) \<Rightarrow> x)
       in Some (if len < cfg_lens ! j then (CFG_INVALID_PARAMETER, [], len) else (0, v, cfg_lens ! j))))"
proof -
  obtain c0 where c0: "cfg_init_para c = (0, c0)" "cfg_ok c0" using cfg_ok_init [OF assms(1)] by blast
  have "cf_buf c0 = replicate CFG_PARA_BUF_LEN 0" using c0(1) by (auto simp: cfg_init_para_def split_beta Let_def split: if_splits)
  then have z: "cfg_val c0 j = replicate (cfg_lens ! j) 0" if "j < 74" for j
    using cfg_off_end [OF that] by (simp add: cfg_val_def place_of_def min_def)
  from cfg_reads [OF c0(2) assms(2), of env] obtain c' where "cfg_sets env calls c0 = Some c'" "cfg_ok c'"
    "\<forall>j < 74. cfg_val c' j = (case map_of (rev (accepted env calls)) j of None \<Rightarrow> cfg_val c0 j | Some (e, s, x) \<Rightarrow> x)" by blast
  then show ?thesis using c0(1) z by (auto simp: cfg_get_eq CFG_ITEM_ID_MAX_def Let_def split: option.split)
qed

theorem cfg_store_refines_map_witness:
  "\<exists>c'. cfg_sets bench_cfg_env [(0, Some [1, 2, 3, 4], 4, True), (0, None, 4, True), (1, Some [9], 1, False)] (bench_cfg bench_disk) = Some c' \<and>
    cfg_get_para CFG_ITEM_SN_NUM True 4 c' = Some (0, [1, 2, 3, 4], 4) \<and> cfg_get_para CFG_ITEM_DEV_NUM True 4 c' = Some (0, [0, 0, 0, 0], 4)"
proof -
  let ?calls = "[(0, Some [1, 2, 3, 4], 4, True), (0, None, 4, True), (1, Some [9], 1, False)] :: cfg_call list"
  have "cf_table (bench_cfg0 bench_disk) = cfg_table" by (simp add: bench_cfg0_def)
  from cfg_store_refines_map [OF this, of ?calls bench_cfg_env] show ?thesis
    by (auto simp: bench_cfg_def cfg_ids cfg_lens_def Let_def eval_nat_numeral)
qed

text \<open>A change that is not silent is told to every callback registered for its item, once each, in the order of
  registration, with the old and the new bytes; when they are called the new bytes can be read.\<close>

theorem cfg_change_told:
  assumes "cfg_ok c" "i < CFG_ITEM_ID_MAX" "n = cfg_lens ! i" "n \<le> length x"
  shows "\<exists>c' old. cfg_get_para i True n c = Some (0, old, n) \<and> cfg_set_para env i (Some x) n c = Some (0, c') \<and>
    cf_calls c' = cf_calls c @ map (\<lambda>r. (snd r, i, old, take n x)) (filter (\<lambda>r. fst r = i) (cf_regtbl c)) \<and>
    cfg_get_para i True n c' = Some (0, take n x, n)"
proof -
  have i: "i < 74" using assms(2) by (simp add: CFG_ITEM_ID_MAX_def)
  have l: "length (take n x) = cfg_lens ! i" using assms(3,4) by simp
  show ?thesis
    using assms(1,3,4) i cfg_after_ok [OF assms(1) i l, of env False] cfg_after_val [OF assms(1) i l i, of env False]
    by (simp add: cfg_set_para_def cfg_set_eq cfg_get_eq) (simp add: cfg_after_set_def cfg_told_def Let_def)
qed

theorem cfg_change_told_witness:
  "\<exists>c' old. cfg_set_para bench_cfg_env 2 (Some [5]) 1 ((bench_cfg bench_disk)\<lparr>cf_regtbl := [(2, 7), (3, 8), (2, 9)]\<rparr>) = Some (0, c') \<and>
    cf_calls c' = [(7, 2, old, [5]), (9, 2, old, [5])]"
proof -
  let ?c = "(bench_cfg bench_disk)\<lparr>cf_regtbl := [(2, 7), (3, 8), (2, 9)]\<rparr>"
  have "cfg_ok ?c" using bench_cfg_ok(1) [of bench_disk] by (simp add: cfg_ok_def)
  from cfg_change_told [OF this, of 2 1 "[5]" bench_cfg_env] show ?thesis
    using bench_cfg_ok(4) [of bench_disk] by (auto simp: CFG_ITEM_ID_MAX_def cfg_lens_def)
qed



lemma bench_cfg_update:
  assumes "length x = CFG_PARA_BUF_LEN"
  shows "\<exists>d'. rds_update_once bench_io 4 (Some x) bench_disk = (0, d') \<and> io_fine bench_io d' \<and> small (d_files d')"
proof -
  let ?img = "record_image bench_md5 x"
  obtain d1 where w: "rds_write bench_io cfg_master x bench_disk = (0, d1)" and s: "d_read d1 = []" "d_write d1 = []"
    using path_length [of 4]
    by (simp add: rds_write_def file_exists_def file_update_atomic_def open_trunc_def Let_def bench_io_def bench_disk_def
        dev_write_done put_scripts file_rename_def set_files_def append_bytes_files split: option.splits)
  obtain d0 where d0: "only_at (temp_path cfg_master) bench_disk d0"
    and d1: "d1 = set_files ((d_files d0)(cfg_master \<mapsto> ?img, temp_path cfg_master := None)) d0"
    using rds_write_written [of bench_io cfg_master x bench_disk] w by (auto simp: written_def replaced_def)
  have m: "d_files d1 cfg_master = Some ?img" by (simp add: d1 set_files_def)
  have o: "p \<noteq> cfg_master \<Longrightarrow> d_files d1 p = None" for p
    using d0 by (auto simp: d1 set_files_def only_at_def bench_disk_def)
  let ?d2 = "append_bytes cfg_backup ?img (put cfg_backup [] d1)"
  have ne: "?img \<noteq> []" by (simp add: record_image_def Let_def flip: length_greater_0_conv)
  have u: "?d2\<lparr>d_write := []\<rparr> = ?d2" using append_bytes_script(1) [of cfg_backup ?img "put cfg_backup [] d1"] s(2)
    by (cases ?d2) (simp add: put_scripts)
  have "file_copy bench_io cfg_master cfg_backup d1 = (0, ?d2)"
    using m s ne u
    by (simp add: file_copy_def open_trunc_def file_open_read_def file_copy_attr_def bench_io_def put_scripts
        sendfile_loop.simps) (simp add: put_def set_files_def)?
  moreover have "x \<noteq> []" using assms by (auto simp: cfg_sizes)
  ultimately have "rds_update_once bench_io 4 (Some x) bench_disk = (0, set_files (d_files ?d2) ?d2)"
    by (simp add: cfg_update_eq [OF _ w] Let_def) (simp add: bench_io_def)
  moreover have "io_fine bench_io (set_files (d_files ?d2) ?d2)"
    using s by (intro bench_fine) (simp_all add: set_files_def put_scripts put_def)
  moreover have "small (d_files (set_files (d_files ?d2) ?d2))"
  proof -
    have "length ?img < 2 ^ 31" using length_record_image [of bench_md5 x] assms by (simp add: cfg_sizes)
    moreover have "length c < 2 ^ 31" if "d_files d1 p = Some c" for p c
      using that m o [of p] \<open>length ?img < 2 ^ 31\<close> by (cases "p = cfg_master") auto
    ultimately show ?thesis by (auto simp: small_def set_files_def append_bytes_files put_def split: if_splits)
  qed
  ultimately show ?thesis by blast
qed


lemma bench_copies_apart: "copies_apart bench_io"
  by (simp add: copies_apart_def bench_io_def)





section \<open>A damaged record\<close>

lemma rds_read_damaged:
  assumes f: "d_files d path = Some f" and n: "length f = 52 + unat n" "unat n < 2 ^ 31 - 52" "0 < unat n"
    and h: "get_le32 (drop 32 f) = n" and bad: "decode (io_md5 env) f = None" and fine: "io_fine env d" and fits: "n \<le> rb_len b"
  shows "\<exists>ret s. ret \<noteq> 0 \<and> set s \<subseteq> set (d_read d) \<and>
    rds_read env path b d = Some (ret, fill (take (unat n) (drop 36 f)) b, d\<lparr>d_read := s\<rparr>)"
proof -
  have small: "length f < 2 ^ 31" and big: "52 < length f" using n by simp_all
  have op: "io_open env path" "Fail \<notin> set (d_read d)" using fine by (auto simp: io_fine_def)
  have fe: "file_exists path d" and fs: "file_size path d = word_of_nat (length f)"
    using f by (simp_all add: file_exists_def file_size_def)
  have le: "(word_of_nat (length f) :: u32) \<le> 52 \<longleftrightarrow> length f \<le> 52"
    using size_word [OF small] by (simp add: word_le_nat_alt)
  have fo: "file_open_read env path d = Some f" using f op by (simp add: file_open_read_def)
  have "36 \<le> length f" "unat n \<le> length (drop 36 f)" "MD5_LENGTH \<le> length (drop (unat n) (drop 36 f))"
    using n(1) by (simp_all add: MD5_LENGTH_def)
  note e = dev_read_enough [OF this(1), of d] dev_read_enough [OF this(2)] dev_read_enough [OF this(3)]
  obtain s1 where 1: "dev_read (Some f) 36 d = Some (0, take 36 f, Some (drop 36 f), d\<lparr>d_read := s1\<rparr>)" "set s1 \<subseteq> set (d_read d)"
    using e(1) op by auto
  obtain s2 where 2: "dev_read (Some (drop 36 f)) (unat n) (d\<lparr>d_read := s1\<rparr>) =
      Some (0, take (unat n) (drop 36 f), Some (drop (unat n) (drop 36 f)), d\<lparr>d_read := s2\<rparr>)" "set s2 \<subseteq> set s1"
    using e(2) [of "d\<lparr>d_read := s1\<rparr>"] op 1(2) by auto
  obtain s3 where 3: "dev_read (Some (drop (unat n) (drop 36 f))) MD5_LENGTH (d\<lparr>d_read := s2\<rparr>) =
      Some (0, take MD5_LENGTH (drop (unat n) (drop 36 f)), Some (drop MD5_LENGTH (drop (unat n) (drop 36 f))), d\<lparr>d_read := s3\<rparr>)"
      "set s3 \<subseteq> set s2"
    using e(3) [of "d\<lparr>d_read := s2\<rparr>"] op 1(2) 2(2) by auto
  have fit: "52 + unat (get_le32 (drop 32 f)) = length f" using n(1) h by simp
  have "io_md5 env (take 36 f @ take (unat n) (drop 36 f)) \<noteq> take 16 (drop (36 + unat n) f)"
    using decode_eq [OF big fit, of "io_md5 env"] parts_of_file(1,2) [OF n(1)] bad by (auto split: if_splits)
  then have md5: "take MD5_LENGTH (drop (unat n) (drop 36 f)) \<noteq> io_md5 env (take 36 f @ take (unat n) (drop 36 f))"
    by (simp add: MD5_LENGTH_def add.commute)
  have "rds_read env path b d = Some (RDS_INVALID_FILE, fill (take (unat n) (drop 36 f)) b, d\<lparr>d_read := s3\<rparr>)"
    using md5 fits [THEN leD] big fit h
    by (simp add: rds_read_def fe fs le Let_def fo 1(1) 2(1) 3(1) drop_take_header size_eq_iff [OF small big] fill_def
        del: drop_drop)
  then show ?thesis using 1(2) 2(2) 3(2) by (intro exI [of _ RDS_INVALID_FILE] exI [of _ s3]) (auto simp: rds_codes)
qed

text \<open>\<^bold>\<open>C38\<close>
  If the master of the configuration is missing and the backup has a wrong digest, the start reads the bytes
  of the backup into the buffer all the same, sets the defaults over them and stores the result: the record it
  stores, which has a right digest when the store succeeds, keeps the bytes of the damaged file for every item
  that has no default. So do the settings the program runs with, apart from the Tu key, which the start
  sets when the version read before differs. That there is memory for the defaults is assumed.\<close>

theorem damaged_settings_kept:
  assumes "cfg_ok c" "d_files (cf_disk c) cfg_master = None" "d_files (cf_disk c) cfg_backup = Some f"
    and "length f = 52 + CFG_PARA_BUF_LEN" "get_le32 (drop 32 f) = word_of_nat CFG_PARA_BUF_LEN"
    and "decode (io_md5 (ce_io env)) f = None" "io_fine (ce_io env) (cf_disk c)" "copies_apart (ce_io env)"
    and "1 \<le> ce_slack env" "over_reads_ok env" "\<And>m. length (io_md5 (ce_io env) m) = 16"
  shows "\<exists>c' ret buf d. cfg_restore_para env ver c = Some (0, c') \<and> \<not> cfg_get_para_status c' \<and>
    d_files d = d_files (cf_disk c) \<and> rds_update_once (ce_io env) (type_no RDS_SYS_CFG) (Some buf) d = (ret, cf_disk c') \<and>
    (ret = 0 \<and> io_rename (ce_io env) \<longrightarrow> stored (io_md5 (ce_io env)) (d_files (cf_disk c')) (type_no RDS_SYS_CFG) = Some buf) \<and>
    (\<forall>j < CFG_ITEM_ID_MAX. j \<notin> default_ids \<longrightarrow>
       place_of buf (cfg_off j, cfg_lens ! j) = place_of (drop 36 f) (cfg_off j, cfg_lens ! j) \<and>
       (j \<noteq> CFG_ITEM_FTTSP_TUKEY \<or> c_string ver = map of_char COM_APP_MAIN_VER \<longrightarrow>
        cfg_get_para j True (cfg_lens ! j) c' = Some (0, place_of (drop 36 f) (cfg_off j, cfg_lens ! j), cfg_lens ! j)))"
proof -
  let ?env = "ce_io env" and ?x = "take 5120 (drop 36 f)"
  let ?b = "\<lparr>rb_data = cf_buf c, rb_len = word_of_nat CFG_PARA_BUF_LEN, rb_ver = Some ver\<rparr>"
  have len: "length (cf_buf c) = 5120" "length ?x = 5120" using assms(1,4) by (simp_all add: cfg_ok_def cfg_sizes)
  obtain ret s where r: "ret \<noteq> 0" "rds_read ?env cfg_backup ?b (cf_disk c) = Some (ret, fill ?x ?b, (cf_disk c)\<lparr>d_read := s\<rparr>)"
    using rds_read_damaged [OF assms(3), of 5120 ?env ?b] assms(4-7) by (auto simp: cfg_sizes)
  have "rds_read ?env cfg_master ?b (cf_disk c) = Some (RDS_FILE_NOT_EXIST, ?b, cf_disk c)"
    using assms(2) by (simp add: rds_read_def file_exists_def)
  then have g: "rds_get ?env 4 ?b (cf_disk c) = Some (ret, fill ?x ?b, (cf_disk c)\<lparr>d_read := s\<rparr>)"
    using r by (simp add: get_eq rds_codes)
  let ?c1 = "c\<lparr>cf_buf := ?x, cf_disk := (cf_disk c)\<lparr>d_read := s\<rparr>\<rparr>"
  have fx: "rb_data (fill ?x ?b) = ?x" using len by (simp add: fill_def)
  have ok1: "cfg_ok ?c1" using assms(1) len by (simp add: cfg_ok_def cfg_sizes)
  obtain c2 where c2: "cfg_set_default_para env True ?c1 = Some (0, c2)" "cfg_ok c2"
    "\<forall>j < 74. j \<notin> default_ids \<longrightarrow> cfg_val c2 j = cfg_val ?c1 j" "cf_disk c2 = (cf_disk c)\<lparr>d_read := s\<rparr>"
    using cfg_defaults_run [OF ok1 assms(9,10), of True] by auto
  obtain ret' d' where u: "rds_update_once ?env 4 (Some (cf_buf c2)) (cf_disk c2) = (ret', d')" by fastforce
  let ?c3 = "c2\<lparr>cf_disk := d', cf_status := False\<rparr>"
  have c3: "(snd (cfg_save_para env c2))\<lparr>cf_status := False\<rparr> = ?c3" using u by (simp add: cfg_save_para_def split_beta)
  have ne: "cf_buf c2 \<noteq> []" "length (cf_buf c2) < 2 ^ 31" using c2(2) by (auto simp: cfg_ok_def cfg_sizes)
  have st: "stored (io_md5 ?env) (d_files d') 4 = Some (cf_buf c2)" if "ret' = 0" "io_rename ?env"
    using cfg_update_master [OF u [unfolded that(1)] ne(1) assms(8)] that(2) decode_record_image [OF assms(11) ne]
    by (intro stored_master) (simp add: file_record_def)
  have v: "cfg_val c2 j = place_of (drop 36 f) (cfg_off j, cfg_lens ! j)" if "j < 74" "j \<notin> default_ids" for j
    using c2(3) that cfg_off_end [OF that(1)] by (simp add: cfg_val_def place_of_def cfg_sizes drop_take min_def)
  have "\<exists>c'. cfg_restore_para env ver c = Some (0, c') \<and> cfg_ok c' \<and> \<not> cf_status c' \<and> cf_disk c' = d' \<and>
      (\<forall>j < 74. j \<noteq> CFG_ITEM_FTTSP_TUKEY \<or> c_string ver = map of_char COM_APP_MAIN_VER \<longrightarrow> cfg_val c' j = cfg_val c2 j)"
  proof (cases "c_string ver = map of_char COM_APP_MAIN_VER")
    case True
    then have "cfg_restore_para env ver c = Some (0, ?c3)"
      using g r(1) c2(1) by (simp add: cfg_restore_para_def fx Let_def c3) (simp add: fill_def)
    then show ?thesis using c2(2) by (intro exI [of _ ?c3]) simp
  next
    case False
    let ?k = "[0x0a, 0x0b, 0x0c, 0x0d, 0x0e, 0x0f, 0x09, 0x08, 0x07, 0x06, 0x05, 0x04, 0x03, 0x02, 0x01, 0x00, 0x00] :: byte list"
    let ?c4 = "cfg_after_set env CFG_ITEM_FTTSP_TUKEY ?k True ?c3"
    have l: "cfg_lens ! CFG_ITEM_FTTSP_TUKEY = 17" "CFG_ITEM_FTTSP_TUKEY < 74" by (simp_all add: cfg_lens_def cfg_ids)
    have ok3: "cfg_ok ?c3" using c2(2) by simp
    have k: "length ?k = cfg_lens ! CFG_ITEM_FTTSP_TUKEY" using l by simp
    have "cfg_upgrade_new_para env ?c3 = Some (0, ?c4)"
      using cfg_set_eq [OF ok3 l(2), of ?k env True] k l(1) by (simp add: cfg_upgrade_new_para_def)
    then have "cfg_restore_para env ver c = Some (0, ?c4)"
      using g r(1) c2(1) False by (simp add: cfg_restore_para_def fx Let_def c3) (simp add: fill_def)
    moreover have "cf_disk ?c4 = d'" by (simp add: cfg_after_set_def)
    ultimately show ?thesis
      using cfg_after_ok [OF ok3 l(2) k] cfg_after_val [OF ok3 l(2) k] False by (intro exI [of _ ?c4]) simp
  qed
  then obtain c' where c': "cfg_restore_para env ver c = Some (0, c')" "cfg_ok c'" "\<not> cf_status c'" "cf_disk c' = d'"
    "\<forall>j < 74. j \<noteq> CFG_ITEM_FTTSP_TUKEY \<or> c_string ver = map of_char COM_APP_MAIN_VER \<longrightarrow> cfg_val c' j = cfg_val c2 j" by blast
  show ?thesis
    using c' v u c2(4) st by (intro exI [of _ c'] exI [of _ ret'] exI [of _ "cf_buf c2"] exI [of _ "cf_disk c2"])
      (simp add: cfg_get_para_status_def CFG_ITEM_ID_MAX_def cfg_get_eq flip: cfg_val_def)
qed


definition bench_bad :: "byte list" where
  "bench_bad = (let h = RDS_HDR 5120 @ replicate 5120 7 in h @ map (\<lambda>b. b + 1) (bench_md5 h))"

definition bench_bad_disk :: disk where
  "bench_bad_disk = bench_disk\<lparr>d_files := [cfg_backup \<mapsto> bench_bad]\<rparr>"

lemma bench_bad:
  "length bench_bad = 52 + CFG_PARA_BUF_LEN" "get_le32 (drop 32 bench_bad) = word_of_nat CFG_PARA_BUF_LEN"
  "decode bench_md5 bench_bad = None" "drop 36 bench_bad = replicate 5120 7 @ drop 5156 bench_bad"
  by (simp_all add: bench_bad_def Let_def decode_def cfg_sizes) (simp add: bench_md5_def eval_nat_numeral)

theorem damaged_settings_kept_witness:
  "\<exists>c'. cfg_restore_para bench_cfg_env [] (bench_cfg bench_bad_disk) = Some (0, c') \<and> \<not> cfg_get_para_status c' \<and>
    cfg_get_para CFG_ITEM_SN_NUM True 4 c' = Some (0, [7, 7, 7, 7], 4)"
proof -
  let ?c = "bench_cfg bench_bad_disk"
  have f: "d_files (cf_disk ?c) cfg_backup = Some bench_bad" "d_files (cf_disk ?c) cfg_master = None"
    using path_eq(3) [of 4 4] by (simp_all add: bench_cfg_ok bench_bad_disk_def)
  have n: "CFG_ITEM_SN_NUM \<notin> default_ids" by (simp add: default_ids_def cfg_defaults_def cfg_ids)
  have v: "place_of (drop 36 bench_bad) (cfg_off 0, 4) = [7, 7, 7, 7]"
    unfolding bench_bad(4) place_of_def by (simp add: cfg_off_def) (simp add: eval_nat_numeral)
  have l: "cfg_lens ! 0 = 4" by (simp add: cfg_lens_def)
  have "over_reads_ok bench_cfg_env" by (simp add: over_reads_ok_def over_reads_def bench_cfg_env_def)
  moreover have "io_fine (ce_io bench_cfg_env) (cf_disk ?c)"
    by (simp add: bench_cfg_ok bench_cfg_env_def bench_fine bench_bad_disk_def bench_disk_def)
  ultimately have "\<exists>c'. cfg_restore_para bench_cfg_env [] (bench_cfg bench_bad_disk) = Some (0, c') \<and> \<not> cfg_get_para_status c' \<and>
      (\<forall>j < 74. j \<notin> default_ids \<longrightarrow> j \<noteq> 73 \<longrightarrow>
        cfg_get_para j True (cfg_lens ! j) c' = Some (0, place_of (drop 36 bench_bad) (cfg_off j, cfg_lens ! j), cfg_lens ! j))"
    using damaged_settings_kept [OF bench_cfg_ok(1) f(2,1) bench_bad(1,2), of bench_cfg_env "[]"] bench_bad(3) bench_copies_apart
    by (simp add: bench_cfg_env_def CFG_ITEM_ID_MAX_def CFG_ITEM_FTTSP_TUKEY_def) metis
  then show ?thesis using n v l by (fastforce simp: CFG_ITEM_SN_NUM_def)
qed

end
