(* ===== verification/Status.thy ===== *)
theory Status
  imports Items ScomTl
begin

text \<open>
  The status of the box: \<open>src/app/base/dev/status/status.c\<close> with the table of \<open>status_def.h\<close>, and its
  exchange with the MCU in \<open>status_sync.c\<close>. A status is unknown until it is set for the first time; the
  registered callbacks hear of a change of value, not of a repetition. \<open>st\<close> holds the statics of the file;
  \<open>st_eff\<close> the calls of callbacks and the frames for the MCU, which every call of \<open>st_set\<close> sends.
\<close>

section \<open>Data\<close>

definition DEV_INVALID_PARA :: int where "DEV_INVALID_PARA = 0x03000001"
definition DEV_CHECK_ITEM_FAILED :: int where "DEV_CHECK_ITEM_FAILED = 0x0300000c"
definition DEV_PARA_OVERFLOW :: int where "DEV_PARA_OVERFLOW = 0x0300000e"
definition DEV_ST_TABLE_OVERFLOW :: int where "DEV_ST_TABLE_OVERFLOW = 0x0300000f"
definition DEV_ST_UNKNOWN :: int where "DEV_ST_UNKNOWN = 0x03000013"

lemmas st_codes = DEV_INVALID_PARA_def DEV_CHECK_ITEM_FAILED_def DEV_PARA_OVERFLOW_def DEV_ST_TABLE_OVERFLOW_def
  DEV_ST_UNKNOWN_def

definition ST_ITEM_MAX_MEMBER_CNT :: nat where "ST_ITEM_MAX_MEMBER_CNT = 6"
definition ST_ITEM_BUF_LEN :: nat where "ST_ITEM_BUF_LEN = 1024"
definition ST_MAX_REG_ITEM_NUM :: nat where "ST_MAX_REG_ITEM_NUM = 32"
definition ST_MAX_STATUS_LEN :: nat where "ST_MAX_STATUS_LEN = 32"

lemmas st_sizes = ST_ITEM_MAX_MEMBER_CNT_def ST_ITEM_BUF_LEN_def ST_MAX_REG_ITEM_NUM_def ST_MAX_STATUS_LEN_def

datatype ST_DATA_TYPE = ST_DATA_UINT | ST_DATA_INT | ST_DATA_USHORT | ST_DATA_UCHAR | ST_DATA_STRING | ST_DATA_DOUBLE
  | ST_DATA_INVALID

record ST_ITEM_TYPE =
  sm_type :: ST_DATA_TYPE
  sm_len :: nat

record ST_ITEM_INFO =
  si_itemid :: nat
  si_len :: nat
  si_offset :: nat
  si_valid :: bool
  si_member :: "ST_ITEM_TYPE list"

definition st_item :: "nat \<Rightarrow> (ST_DATA_TYPE \<times> nat) list \<Rightarrow> ST_ITEM_INFO" where
  "st_item i ms = \<lparr>si_itemid = i, si_len = 0, si_offset = 0, si_valid = False,
     si_member = map (\<lambda>(t, n). \<lparr>sm_type = t, sm_len = n\<rparr>) ms @ [\<lparr>sm_type = ST_DATA_INVALID, sm_len = 0\<rparr>]\<rparr>"

text \<open>The numbers of the items.\<close>

definition ST_ITEM_POW_VOLTAGE :: nat where "ST_ITEM_POW_VOLTAGE = 0"
definition ST_ITEM_KL15_SIG :: nat where "ST_ITEM_KL15_SIG = 1"
definition ST_ITEM_KL75_SIG :: nat where "ST_ITEM_KL75_SIG = 2"
definition ST_ITEM_BCALL_SIG :: nat where "ST_ITEM_BCALL_SIG = 3"
definition ST_ITEM_ICALL_SIG :: nat where "ST_ITEM_ICALL_SIG = 4"
definition ST_ITEM_ECALL_SIG :: nat where "ST_ITEM_ECALL_SIG = 5"
definition ST_ITEM_SLOW_CHG_SIG :: nat where "ST_ITEM_SLOW_CHG_SIG = 6"
definition ST_ITEM_QUICK_CHG_SIG :: nat where "ST_ITEM_QUICK_CHG_SIG = 7"
definition ST_ITEM_BCALL :: nat where "ST_ITEM_BCALL = 8"
definition ST_ITEM_ICALL :: nat where "ST_ITEM_ICALL = 9"
definition ST_ITEM_ECALL :: nat where "ST_ITEM_ECALL = 10"
definition ST_ITEM_WAKEUP_SRC :: nat where "ST_ITEM_WAKEUP_SRC = 11"
definition ST_ITEM_PM_MODE :: nat where "ST_ITEM_PM_MODE = 12"
definition ST_ITEM_SRS_SIG :: nat where "ST_ITEM_SRS_SIG = 13"
definition ST_ITEM_RBT_CNT :: nat where "ST_ITEM_RBT_CNT = 14"
definition ST_ITEM_TSP_COMM :: nat where "ST_ITEM_TSP_COMM = 15"
definition ST_ITEM_BAT_VOL :: nat where "ST_ITEM_BAT_VOL = 16"
definition ST_ITEM_BAT_TEMP :: nat where "ST_ITEM_BAT_TEMP = 17"
definition ST_ITEM_BAT_RST :: nat where "ST_ITEM_BAT_RST = 18"
definition ST_ITEM_BAT_STATUS :: nat where "ST_ITEM_BAT_STATUS = 19"
definition ST_ITEM_APP_SLEEP :: nat where "ST_ITEM_APP_SLEEP = 20"
definition ST_ITEM_CAN1_STATUS :: nat where "ST_ITEM_CAN1_STATUS = 21"
definition ST_ITEM_CAN2_STATUS :: nat where "ST_ITEM_CAN2_STATUS = 22"
definition ST_ITEM_CAN3_STATUS :: nat where "ST_ITEM_CAN3_STATUS = 23"
definition ST_ITEM_CAN4_STATUS :: nat where "ST_ITEM_CAN4_STATUS = 24"
definition ST_ITEM_UPG_STATUS :: nat where "ST_ITEM_UPG_STATUS = 25"
definition ST_ITEM_ID_MAX :: nat where "ST_ITEM_ID_MAX = 26"

lemmas st_ids = ST_ITEM_POW_VOLTAGE_def ST_ITEM_KL15_SIG_def ST_ITEM_KL75_SIG_def ST_ITEM_BCALL_SIG_def
  ST_ITEM_ICALL_SIG_def ST_ITEM_ECALL_SIG_def ST_ITEM_SLOW_CHG_SIG_def ST_ITEM_QUICK_CHG_SIG_def
  ST_ITEM_BCALL_def ST_ITEM_ICALL_def ST_ITEM_ECALL_def ST_ITEM_WAKEUP_SRC_def ST_ITEM_PM_MODE_def
  ST_ITEM_SRS_SIG_def ST_ITEM_RBT_CNT_def ST_ITEM_TSP_COMM_def ST_ITEM_BAT_VOL_def ST_ITEM_BAT_TEMP_def
  ST_ITEM_BAT_RST_def ST_ITEM_BAT_STATUS_def ST_ITEM_APP_SLEEP_def ST_ITEM_CAN1_STATUS_def ST_ITEM_CAN2_STATUS_def
  ST_ITEM_CAN3_STATUS_def ST_ITEM_CAN4_STATUS_def ST_ITEM_UPG_STATUS_def ST_ITEM_ID_MAX_def

definition st_table :: "ST_ITEM_INFO list" where
  "st_table =
     [st_item ST_ITEM_POW_VOLTAGE [(ST_DATA_USHORT, 2)],
      st_item ST_ITEM_KL15_SIG [(ST_DATA_UCHAR, 1)],
      st_item ST_ITEM_KL75_SIG [(ST_DATA_UCHAR, 1)],
      st_item ST_ITEM_BCALL_SIG [(ST_DATA_UCHAR, 1)],
      st_item ST_ITEM_ICALL_SIG [(ST_DATA_UCHAR, 1)],
      st_item ST_ITEM_ECALL_SIG [(ST_DATA_UCHAR, 1)],
      st_item ST_ITEM_SLOW_CHG_SIG [(ST_DATA_UCHAR, 1)],
      st_item ST_ITEM_QUICK_CHG_SIG [(ST_DATA_UCHAR, 1)],
      st_item ST_ITEM_BCALL [(ST_DATA_UCHAR, 1)],
      st_item ST_ITEM_ICALL [(ST_DATA_UCHAR, 1)],
      st_item ST_ITEM_ECALL [(ST_DATA_UCHAR, 1)],
      st_item ST_ITEM_WAKEUP_SRC [(ST_DATA_USHORT, 2)],
      st_item ST_ITEM_PM_MODE [(ST_DATA_UCHAR, 1)],
      st_item ST_ITEM_SRS_SIG [(ST_DATA_UCHAR, 1)],
      st_item ST_ITEM_RBT_CNT [(ST_DATA_UINT, 4)],
      st_item ST_ITEM_TSP_COMM [(ST_DATA_UCHAR, 1)],
      st_item ST_ITEM_BAT_VOL [(ST_DATA_USHORT, 2)],
      st_item ST_ITEM_BAT_TEMP [(ST_DATA_INT, 4)],
      st_item ST_ITEM_BAT_RST [(ST_DATA_UINT, 4)],
      st_item ST_ITEM_BAT_STATUS [(ST_DATA_UCHAR, 1)],
      st_item ST_ITEM_APP_SLEEP [(ST_DATA_UCHAR, 1)],
      st_item ST_ITEM_CAN1_STATUS [(ST_DATA_UCHAR, 1)],
      st_item ST_ITEM_CAN2_STATUS [(ST_DATA_UCHAR, 1)],
      st_item ST_ITEM_CAN3_STATUS [(ST_DATA_UCHAR, 1)],
      st_item ST_ITEM_CAN4_STATUS [(ST_DATA_UCHAR, 1)],
      st_item ST_ITEM_UPG_STATUS [(ST_DATA_UCHAR, 1)]]"

datatype st_effect = StChanged nat nat "byte list" "byte list" | StFrame byte "byte list"

record st =
  st_buf :: "byte list"
  st_tbl :: "ST_ITEM_INFO list"
  st_regtbl :: "(nat \<times> nat) list"
  st_eff :: "st_effect list"

text \<open>
  \<open>se_busy\<close>: \<open>at_is_call_busy\<close>. \<open>se_fault\<close>: the six bytes of \<open>DIAG_MPU_FAULT\<close> that \<open>flt_sync_to_mcu\<close> collects.
\<close>

record st_env =
  se_busy :: "byte \<Rightarrow> byte"
  se_fault :: "byte list"

section \<open>The table\<close>

definition st_para_check :: "ST_DATA_TYPE \<Rightarrow> nat \<Rightarrow> int" where
  "st_para_check type len =
     (case type of
        ST_DATA_UINT \<Rightarrow> (if len \<noteq> 4 then DEV_INVALID_PARA else 0)
      | ST_DATA_INT \<Rightarrow> (if len \<noteq> 4 then DEV_INVALID_PARA else 0)
      | ST_DATA_USHORT \<Rightarrow> (if len \<noteq> 2 then DEV_INVALID_PARA else 0)
      | ST_DATA_UCHAR \<Rightarrow> (if len \<noteq> 1 then DEV_INVALID_PARA else 0)
      | ST_DATA_DOUBLE \<Rightarrow> (if len \<noteq> 8 then DEV_INVALID_PARA else 0)
      | ST_DATA_STRING \<Rightarrow> (if len \<le> 1 then DEV_INVALID_PARA else 0)
      | ST_DATA_INVALID \<Rightarrow> DEV_INVALID_PARA)"

fun st_members_size :: "ST_ITEM_TYPE list \<Rightarrow> nat \<Rightarrow> nat option" where
  "st_members_size [] n = Some n"
| "st_members_size (m # ms) n =
     (if sm_type m \<noteq> ST_DATA_INVALID
      then if st_para_check (sm_type m) (sm_len m) \<noteq> 0 then None else st_members_size ms (n + sm_len m)
      else Some n)"

fun st_init_loop :: "nat \<Rightarrow> ST_ITEM_INFO list \<Rightarrow> int \<times> ST_ITEM_INFO list" where
  "st_init_loop off [] = (0, [])"
| "st_init_loop off (it # its) =
     (case st_members_size (take ST_ITEM_MAX_MEMBER_CNT (si_member it)) 0 of
        None \<Rightarrow> (DEV_CHECK_ITEM_FAILED, it # its)
      | Some n \<Rightarrow> let (ret, rest) = st_init_loop (off + n) its in (ret, it\<lparr>si_offset := off, si_len := n\<rparr> # rest))"

definition st_init :: "st \<Rightarrow> int \<times> st" where
  "st_init s =
     (let (ret, t) = st_init_loop 0 (st_tbl s);
          s1 = s\<lparr>st_buf := replicate ST_ITEM_BUF_LEN 0, st_regtbl := [], st_tbl := t\<rparr>
      in if ret \<noteq> 0 then (ret, s1)
         else if ST_ITEM_BUF_LEN < si_offset (last t) + si_len (last t) then (DEV_PARA_OVERFLOW, s1)
         else (0, s1))"

section \<open>Operations\<close>

definition st_register :: "nat \<Rightarrow> nat option \<Rightarrow> st \<Rightarrow> int \<times> st" where
  "st_register i onchanged s =
     (case onchanged of
        None \<Rightarrow> (DEV_INVALID_PARA, s)
      | Some cb \<Rightarrow>
          if ST_MAX_REG_ITEM_NUM \<le> length (st_regtbl s) then (DEV_ST_TABLE_OVERFLOW, s)
          else (0, s\<lparr>st_regtbl := st_regtbl s @ [(i, cb)]\<rparr>))"

text \<open>The result, the bytes put into the caller's buffer, and the length.\<close>

definition st_get :: "nat \<Rightarrow> bool \<Rightarrow> nat \<Rightarrow> st \<Rightarrow> (int \<times> byte list \<times> nat) option" where
  "st_get i ptr len s =
     (if ST_ITEM_ID_MAX \<le> i \<or> \<not> ptr then Some (DEV_INVALID_PARA, [], len)
      else do {
        it \<leftarrow> byte_at (st_tbl s) i;
        if len < si_len it then Some (DEV_INVALID_PARA, [], len)
        else if \<not> si_valid it then Some (DEV_ST_UNKNOWN, [], si_len it)
        else do { data \<leftarrow> subarray (st_buf s) (si_offset it) (si_len it); Some (0, data, si_len it) } })"

fun st_notify_loop :: "(nat \<times> nat) list \<Rightarrow> nat \<Rightarrow> byte list \<Rightarrow> nat \<Rightarrow> st \<Rightarrow> (int \<times> st) option" where
  "st_notify_loop [] i old para_len s = Some (0, s)"
| "st_notify_loop (r # rs) i old para_len s =
     (if fst r = i then do {
        (ret, new, new_len) \<leftarrow> st_get i True ST_MAX_STATUS_LEN s;
        if ret \<noteq> 0 \<or> new_len \<noteq> para_len then Some (ret, s)
        else st_notify_loop rs i old para_len (s\<lparr>st_eff := st_eff s @ [StChanged (snd r) i old new]\<rparr>) }
      else st_notify_loop rs i old para_len s)"

definition st_notify_changed :: "nat \<Rightarrow> byte list \<Rightarrow> nat \<Rightarrow> st \<Rightarrow> (int \<times> st) option" where
  "st_notify_changed i old para_len s = st_notify_loop (st_regtbl s) i old para_len s"

section \<open>The MCU\<close>

definition SCOM_TL_CMD_MPU_STATUS_SYN :: byte where "SCOM_TL_CMD_MPU_STATUS_SYN = 0x39"
definition SCOM_TL_CMD_MPU_FAULT_SYN :: byte where "SCOM_TL_CMD_MPU_FAULT_SYN = 0x3a"

text \<open>A field of \<open>STATUS_MPU\<close>, which is zero unless the status is known.\<close>

definition st_call_field :: "st_env \<Rightarrow> nat \<Rightarrow> st \<Rightarrow> byte list option" where
  "st_call_field env i s = do { (ret, data, len) \<leftarrow> st_get i True 1 s; Some (if ret = 0 then map (se_busy env) data else [0]) }"

definition st_plain_field :: "nat \<Rightarrow> st \<Rightarrow> byte list option" where
  "st_plain_field i s = do { (ret, data, len) \<leftarrow> st_get i True 1 s; Some (if ret = 0 then data else [0]) }"

definition st_sync_to_mcu :: "st_env \<Rightarrow> st \<Rightarrow> byte list option" where
  "st_sync_to_mcu env s = do {
     ecall \<leftarrow> st_call_field env ST_ITEM_ECALL s;
     bcall \<leftarrow> st_call_field env ST_ITEM_BCALL s;
     icall \<leftarrow> st_call_field env ST_ITEM_ICALL s;
     app \<leftarrow> st_plain_field ST_ITEM_APP_SLEEP s;
     upg \<leftarrow> st_plain_field ST_ITEM_UPG_STATUS s;
     Some (ecall @ bcall @ icall @ app @ upg) }"

definition dev_sync_timeout :: "st_env \<Rightarrow> st \<Rightarrow> st option" where
  "dev_sync_timeout env s = do {
     mpu \<leftarrow> st_sync_to_mcu env s;
     Some (s\<lparr>st_eff := st_eff s @ [StFrame SCOM_TL_CMD_MPU_FAULT_SYN (se_fault env), StFrame SCOM_TL_CMD_MPU_STATUS_SYN mpu]\<rparr>) }"

section \<open>Setting\<close>

text \<open>\<open>oldpara\<close> is zeros where the status is unknown; \<open>data\<close> are the readable bytes at the pointer.\<close>

definition st_set :: "st_env \<Rightarrow> nat \<Rightarrow> byte list \<Rightarrow> nat \<Rightarrow> st \<Rightarrow> (int \<times> st) option" where
  "st_set env i data len s =
     (if ST_ITEM_ID_MAX \<le> i then Some (DEV_INVALID_PARA, s)
      else do {
        (ret, known, paralen) \<leftarrow> st_get i True ST_MAX_STATUS_LEN s;
        let old = known @ replicate (ST_MAX_STATUS_LEN - length known) 0;
        if ret \<noteq> 0 \<and> ret \<noteq> DEV_ST_UNKNOWN \<or> paralen \<noteq> len then Some (DEV_INVALID_PARA, s)
        else do {
          x \<leftarrow> subarray data 0 len;
          s1 \<leftarrow> (if ret = DEV_ST_UNKNOWN \<or> x \<noteq> take len old then do {
                   it \<leftarrow> byte_at (st_tbl s) i;
                   buf \<leftarrow> blit (st_buf s) (si_offset it) data len;
                   (ret', s') \<leftarrow> st_notify_changed i (take len old) len
                     (s\<lparr>st_buf := buf, st_tbl := (st_tbl s)[i := it\<lparr>si_valid := True\<rparr>]\<rparr>);
                   Some s' }
                 else Some s);
          s2 \<leftarrow> dev_sync_timeout env s1;
          Some (0, s2) } })"

text \<open>The fields of \<open>STATUS_MCU\<close> in the order they are set: item, offset and length.\<close>

definition st_mcu_fields :: "(nat \<times> nat \<times> nat) list" where
  "st_mcu_fields =
     [(ST_ITEM_POW_VOLTAGE, 0, 2), (ST_ITEM_SLOW_CHG_SIG, 2, 1), (ST_ITEM_KL15_SIG, 3, 1), (ST_ITEM_KL75_SIG, 4, 1),
      (ST_ITEM_QUICK_CHG_SIG, 5, 1), (ST_ITEM_WAKEUP_SRC, 6, 2), (ST_ITEM_ICALL_SIG, 8, 1), (ST_ITEM_BCALL_SIG, 9, 1),
      (ST_ITEM_ECALL_SIG, 10, 1), (ST_ITEM_PM_MODE, 11, 1), (ST_ITEM_SRS_SIG, 12, 1), (ST_ITEM_RBT_CNT, 13, 4),
      (ST_ITEM_BAT_VOL, 17, 2), (ST_ITEM_BAT_TEMP, 19, 4), (ST_ITEM_BAT_RST, 23, 4), (ST_ITEM_BAT_STATUS, 27, 1),
      (ST_ITEM_CAN1_STATUS, 28, 1), (ST_ITEM_CAN2_STATUS, 29, 1), (ST_ITEM_CAN3_STATUS, 30, 1), (ST_ITEM_CAN4_STATUS, 31, 1)]"

definition STATUS_MCU_LEN :: nat where "STATUS_MCU_LEN = 32"

fun st_set_fields :: "st_env \<Rightarrow> byte list \<Rightarrow> (nat \<times> nat \<times> nat) list \<Rightarrow> st \<Rightarrow> st option" where
  "st_set_fields env data [] s = Some s"
| "st_set_fields env data ((i, off, len) # fs) s = do {
     (ret, s1) \<leftarrow> st_set env i (drop off data) len s;
     st_set_fields env data fs s1 }"

definition st_sync_from_mcu :: "st_env \<Rightarrow> byte list option \<Rightarrow> nat \<Rightarrow> st \<Rightarrow> st option" where
  "st_sync_from_mcu env data len s =
     (case data of
        None \<Rightarrow> Some s
      | Some d \<Rightarrow> if STATUS_MCU_LEN \<noteq> len then Some s else st_set_fields env d st_mcu_fields s)"

end
