(* ===== verification/StatusProps.thy ===== *)
theory StatusProps
  imports Status
begin

text \<open>
  The status of the box is a map from items to their last value, with no entry until the first one; the
  registered modules hear of each change once, and the MCU is sent the state after every call.
\<close>

section \<open>The layout\<close>

text \<open>The sizes of the 26 items, in the order of their numbers.\<close>

definition st_lens :: "nat list" where
  "st_lens = [2, 1, 1, 1, 1, 1, 1, 1, 1, 1, 1, 2, 1, 1, 4, 1, 2, 4, 4, 1, 1, 1, 1, 1, 1, 1]"

lemma length_st_lens [simp]: "length st_lens = 26"
  by (simp add: st_lens_def)

lemma st_lens_small: "\<forall>n \<in> set st_lens. 0 < n \<and> n \<le> 4"
  by (simp add: st_lens_def)

lemma st_lens_nth: "i < 26 \<Longrightarrow> 0 < st_lens ! i \<and> st_lens ! i \<le> 4"
  using st_lens_small by simp

lemma sum_st_lens: "sum_list st_lens = 38"
  by (simp add: st_lens_def)

lemma st_init_loop_places:
  "list_all2 (\<lambda>it n. st_members_size (take ST_ITEM_MAX_MEMBER_CNT (si_member it)) 0 = Some n) its ns \<Longrightarrow>
   st_init_loop off its = (0, map2 (\<lambda>it p. it\<lparr>si_offset := fst p, si_len := snd p\<rparr>) its (places off ns))"
  by (induction its ns arbitrary: off rule: list_all2_induct) auto

lemma st_table_sizes:
  "list_all2 (\<lambda>it n. st_members_size (take ST_ITEM_MAX_MEMBER_CNT (si_member it)) 0 = Some n) st_table st_lens"
  by (simp add: st_table_def st_lens_def st_item_def st_sizes st_para_check_def)

lemma length_st_table: "length st_table = 26"
  using list_all2_lengthD [OF st_table_sizes] by simp

lemma st_table_ids: "map si_itemid st_table = [0..<ST_ITEM_ID_MAX]"
  by (simp add: st_table_def st_item_def st_ids upt_rec)

lemma st_table_unknown: "\<forall>it \<in> set st_table. \<not> si_valid it"
  by (simp add: st_table_def st_item_def)

definition st_off :: "nat \<Rightarrow> nat" where
  "st_off i = sum_list (take i st_lens)"

lemma st_off_end: "i < 26 \<Longrightarrow> st_off i + st_lens ! i \<le> ST_ITEM_BUF_LEN"
  using places_end [of i st_lens] sum_st_lens by (simp add: st_off_def st_sizes)

lemma st_off_apart: "i < 26 \<Longrightarrow> j < 26 \<Longrightarrow> i \<noteq> j \<Longrightarrow> st_off j + st_lens ! j \<le> st_off i \<or> st_off i + st_lens ! i \<le> st_off j"
  using places_apart [of i j st_lens] places_apart [of j i st_lens] by (cases "i < j") (auto simp: st_off_def)

section \<open>One call\<close>

text \<open>The table is laid out, whatever items are known.\<close>

definition st_ok :: "st \<Rightarrow> bool" where
  "st_ok s \<longleftrightarrow> length (st_tbl s) = 26 \<and> length (st_buf s) = ST_ITEM_BUF_LEN \<and>
     (\<forall>i < 26. si_len (st_tbl s ! i) = st_lens ! i \<and> si_offset (st_tbl s ! i) = st_off i)"

definition st_val :: "st \<Rightarrow> nat \<Rightarrow> byte list option" where
  "st_val s i = (if si_valid (st_tbl s ! i) then Some (place_of (st_buf s) (st_off i, st_lens ! i)) else None)"

lemma st_ok_fields [simp]:
  "st_ok (s\<lparr>st_eff := es\<rparr>) = st_ok s" "st_val (s\<lparr>st_eff := es\<rparr>) = st_val s" "st_ok (s\<lparr>st_regtbl := rs\<rparr>) = st_ok s"
  "st_val (s\<lparr>st_regtbl := rs\<rparr>) = st_val s"
  by (simp_all add: st_ok_def st_val_def fun_eq_iff)

lemma st_ok_init:
  assumes "st_tbl s = st_table"
  shows "\<exists>s'. st_init s = (0, s') \<and> st_ok s' \<and> st_regtbl s' = [] \<and> st_eff s' = st_eff s \<and> (\<forall>i < 26. st_val s' i = None)"
proof -
  define t where "t = map2 (\<lambda>it p. it\<lparr>si_offset := fst p, si_len := snd p\<rparr>) st_table (places 0 st_lens)"
  have i: "st_init_loop 0 st_table = (0, t)" by (simp add: t_def st_init_loop_places [OF st_table_sizes])
  have l: "length t = 26" by (simp add: t_def length_st_table)
  have n: "si_len (t ! i) = st_lens ! i \<and> si_offset (t ! i) = st_off i \<and> \<not> si_valid (t ! i)" if "i < 26" for i
    using that st_table_unknown by (simp add: t_def length_st_table places_nth st_off_def)
  have "last t = t ! 25" using l by (cases t rule: rev_cases) (auto simp: nth_append)
  then show ?thesis
    using i l n assms st_off_end [of 25] by (simp add: st_init_def Let_def st_ok_def st_val_def)
qed

lemma length_st_val: "st_ok s \<Longrightarrow> i < 26 \<Longrightarrow> st_val s i = Some x \<Longrightarrow> length x = st_lens ! i"
  using st_off_end [of i] by (auto simp: st_val_def place_of_def st_ok_def split: if_splits)

lemma st_get_eq:
  assumes "st_ok s" "i < 26"
  shows "st_get i True n s =
    Some (if n < st_lens ! i then (DEV_INVALID_PARA, [], n)
          else case st_val s i of None \<Rightarrow> (DEV_ST_UNKNOWN, [], st_lens ! i) | Some x \<Rightarrow> (0, x, st_lens ! i))"
  using assms st_off_end [OF assms(2)] by (simp add: st_get_def st_ok_def st_val_def place_of_def ST_ITEM_ID_MAX_def)

text \<open>The fields sent to the MCU, whose sizes are all one byte.\<close>

definition st_byte :: "st \<Rightarrow> (byte \<Rightarrow> byte) \<Rightarrow> nat \<Rightarrow> byte list" where
  "st_byte s f i = (case st_val s i of None \<Rightarrow> [0] | Some x \<Rightarrow> map f x)"

definition st_mpu :: "st_env \<Rightarrow> st \<Rightarrow> byte list" where
  "st_mpu env s = concat [st_byte s (se_busy env) ST_ITEM_ECALL, st_byte s (se_busy env) ST_ITEM_BCALL,
     st_byte s (se_busy env) ST_ITEM_ICALL, st_byte s (\<lambda>b. b) ST_ITEM_APP_SLEEP, st_byte s (\<lambda>b. b) ST_ITEM_UPG_STATUS]"

definition st_frames :: "st_env \<Rightarrow> st \<Rightarrow> st_effect list" where
  "st_frames env s = [StFrame SCOM_TL_CMD_MPU_FAULT_SYN (se_fault env), StFrame SCOM_TL_CMD_MPU_STATUS_SYN (st_mpu env s)]"

lemma st_sync_eq: "st_ok s \<Longrightarrow> st_sync_to_mcu env s = Some (st_mpu env s)"
  by (simp add: st_sync_to_mcu_def st_call_field_def st_plain_field_def st_get_eq st_ids st_lens_def st_mpu_def
      st_byte_def DEV_ST_UNKNOWN_def split: option.split)

lemma st_timeout_eq: "st_ok s \<Longrightarrow> dev_sync_timeout env s = Some (s\<lparr>st_eff := st_eff s @ st_frames env s\<rparr>)"
  by (simp add: dev_sync_timeout_def st_sync_eq st_frames_def)

definition st_put :: "nat \<Rightarrow> byte list \<Rightarrow> st \<Rightarrow> st" where
  "st_put i x s = s\<lparr>st_buf := take (st_off i) (st_buf s) @ x @ drop (st_off i + length x) (st_buf s),
                    st_tbl := (st_tbl s)[i := (st_tbl s ! i)\<lparr>si_valid := True\<rparr>]\<rparr>"

lemma st_put_ok:
  assumes "st_ok s" "i < 26" "length x = st_lens ! i"
  shows "st_ok (st_put i x s)"
  using assms st_off_end [of i] by (auto simp: st_ok_def st_put_def nth_list_update)

lemma st_put_val:
  assumes "st_ok s" "i < 26" "length x = st_lens ! i" "j < 26"
  shows "st_val (st_put i x s) j = (if j = i then Some x else st_val s j)"
proof (cases "j = i")
  case True
  then show ?thesis
    using place_same [of "st_off i" x "st_buf s"] st_off_end [of i] assms by (simp add: st_val_def st_put_def st_ok_def)
next
  case False
  then show ?thesis
    using place_other [of "st_off i" x "st_buf s" "st_off j" "st_lens ! j"] st_off_end [of i] st_off_end [of j]
      st_off_apart [of i j] assms by (simp add: st_val_def st_put_def st_ok_def)
qed

text \<open>The calls of a change, in the order of registration.\<close>

definition st_told :: "st \<Rightarrow> nat \<Rightarrow> byte list \<Rightarrow> byte list \<Rightarrow> st_effect list" where
  "st_told s i old new = map (\<lambda>r. StChanged (snd r) i old new) (filter (\<lambda>r. fst r = i) (st_regtbl s))"

lemma st_notify_eq:
  assumes "st_ok s" "i < 26" "st_val s i = Some x"
  shows "st_notify_loop rs i old (st_lens ! i) s =
    Some (0, s\<lparr>st_eff := st_eff s @ map (\<lambda>r. StChanged (snd r) i old x) (filter (\<lambda>r. fst r = i) rs)\<rparr>)"
  using assms
proof (induction rs arbitrary: s)
  case (Cons r rs)
  then show ?case using st_lens_nth [of i] by (simp add: st_get_eq st_sizes)
qed simp

definition st_old :: "st \<Rightarrow> nat \<Rightarrow> byte list" where
  "st_old s i = (case st_val s i of None \<Rightarrow> replicate (st_lens ! i) 0 | Some x \<Rightarrow> x)"

definition st_changed :: "nat \<Rightarrow> byte list \<Rightarrow> st \<Rightarrow> st" where
  "st_changed i x s =
     (if st_val s i = Some x then s
      else (st_put i x s)\<lparr>st_eff := st_eff s @ st_told s i (st_old s i) x\<rparr>)"

definition st_after_set :: "st_env \<Rightarrow> nat \<Rightarrow> byte list \<Rightarrow> st \<Rightarrow> st" where
  "st_after_set env i x s = (let s1 = st_changed i x s in s1\<lparr>st_eff := st_eff s1 @ st_frames env s1\<rparr>)"

lemma st_changed_ok: "st_ok s \<Longrightarrow> i < 26 \<Longrightarrow> length x = st_lens ! i \<Longrightarrow> st_ok (st_changed i x s)"
  by (simp add: st_changed_def st_put_ok)

lemma st_changed_val:
  "st_ok s \<Longrightarrow> i < 26 \<Longrightarrow> length x = st_lens ! i \<Longrightarrow> j < 26 \<Longrightarrow> st_val (st_changed i x s) j = (if j = i then Some x else st_val s j)"
  by (simp add: st_changed_def st_put_val)

lemma st_changed_eq:
  assumes "st_ok s" "i < 26" "st_lens ! i \<le> length x"
  shows "(if st_val s i = None \<or> take (st_lens ! i) x \<noteq> st_old s i
      then do {
        it \<leftarrow> byte_at (st_tbl s) i;
        buf \<leftarrow> blit (st_buf s) (si_offset it) x (st_lens ! i);
        (ret', s') \<leftarrow> st_notify_changed i (st_old s i) (st_lens ! i)
          (s\<lparr>st_buf := buf, st_tbl := (st_tbl s)[i := it\<lparr>si_valid := True\<rparr>]\<rparr>);
        Some s' }
      else Some s) = Some (st_changed i (take (st_lens ! i) x) s)"
proof -
  let ?x = "take (st_lens ! i) x"
  have p: "st_ok (st_put i ?x s)" and v: "st_val (st_put i ?x s) i = Some ?x"
    using st_put_ok [of s i ?x] st_put_val [of s i ?x i] assms by (simp_all add: min_def)
  have put: "st_put i ?x s = s\<lparr>st_buf := take (st_off i) (st_buf s) @ ?x @ drop (st_off i + st_lens ! i) (st_buf s),
      st_tbl := (st_tbl s)[i := (st_tbl s ! i)\<lparr>si_valid := True\<rparr>]\<rparr>"
    using assms(3) by (simp add: st_put_def min_def)
  have "st_regtbl (st_put i ?x s) = st_regtbl s" "st_eff (st_put i ?x s) = st_eff s" by (simp_all add: st_put_def)
  then show ?thesis
    using assms(1,2) st_off_end [OF assms(2)] assms(3) st_notify_eq [OF p assms(2) v, of "st_regtbl s" "st_old s i"]
    by (simp add: st_ok_def put [symmetric] st_notify_changed_def st_changed_def st_told_def st_old_def split: option.split)
qed

lemma st_set_eq:
  assumes "st_ok s" "i < 26" "st_lens ! i \<le> length x"
  shows "st_set env i x (st_lens ! i) s = Some (0, st_after_set env i (take (st_lens ! i) x) s)"
proof -
  let ?x = "take (st_lens ! i) x"
  have ok: "st_ok (st_changed i ?x s)" using assms by (intro st_changed_ok) auto
  have g: "st_get i True ST_MAX_STATUS_LEN s =
      Some (case st_val s i of None \<Rightarrow> (DEV_ST_UNKNOWN, [], st_lens ! i) | Some x \<Rightarrow> (0, x, st_lens ! i))"
    using st_get_eq [OF assms(1,2), of ST_MAX_STATUS_LEN] st_lens_nth [OF assms(2)] by (simp add: st_sizes)
  have old: "take (st_lens ! i) ((case st_val s i of None \<Rightarrow> [] | Some x \<Rightarrow> x) @
      replicate (ST_MAX_STATUS_LEN - length (case st_val s i of None \<Rightarrow> [] | Some x \<Rightarrow> x)) 0) = st_old s i"
    using st_lens_nth [OF assms(2)] length_st_val [OF assms(1,2)]
    by (auto simp: st_old_def st_sizes split: option.split)
  note c = st_changed_eq [OF assms]
  show ?thesis
  proof (cases "st_val s i = Some ?x")
    case True
    then show ?thesis
      using g c old assms ok
      by (simp add: st_set_def ST_ITEM_ID_MAX_def Let_def st_timeout_eq st_after_set_def DEV_ST_UNKNOWN_def st_changed_def st_old_def)
  next
    case False
    then have b: "st_val s i = None \<or> ?x \<noteq> st_old s i" by (auto simp: st_old_def split: option.splits)
    show ?thesis
      using g old assms ok c [unfolded if_P [OF b]] b
      by (cases "st_val s i")
        (simp_all add: st_set_def ST_ITEM_ID_MAX_def Let_def st_timeout_eq st_after_set_def DEV_ST_UNKNOWN_def del: bind_assoc)
  qed
qed

lemma st_set_refused:
  assumes "st_ok s" "26 \<le> i \<or> n \<noteq> st_lens ! i"
  shows "st_set env i x n s = Some (DEV_INVALID_PARA, s)"
proof (cases "i < 26")
  case True
  then show ?thesis
    using assms st_lens_nth [OF True]
    by (simp add: st_set_def st_get_eq ST_ITEM_ID_MAX_def st_sizes Let_def split: option.split)
qed (simp add: st_set_def ST_ITEM_ID_MAX_def)

lemma st_after_ok: "st_ok s \<Longrightarrow> i < 26 \<Longrightarrow> length x = st_lens ! i \<Longrightarrow> st_ok (st_after_set env i x s)"
  by (simp add: st_after_set_def Let_def st_changed_ok)

lemma st_after_val:
  "st_ok s \<Longrightarrow> i < 26 \<Longrightarrow> length x = st_lens ! i \<Longrightarrow> j < 26 \<Longrightarrow> st_val (st_after_set env i x s) j = (if j = i then Some x else st_val s j)"
  by (simp add: st_after_set_def Let_def st_changed_val)

interpretation st_items: item_store "{..<26}" "\<lambda>i (env, x). length x = st_lens ! i" st_ok st_val
  "\<lambda>i (env, x). st_after_set env i x" "\<lambda>(env, x). Some x"
  by unfold_locales (auto simp: st_after_ok st_after_val)

section \<open>Runs of calls\<close>

type_synonym st_call = "nat \<times> byte list \<times> nat"

fun st_sets :: "st_env \<Rightarrow> st_call list \<Rightarrow> st \<Rightarrow> st option" where
  "st_sets env [] s = Some s"
| "st_sets env ((i, data, n) # cs) s = do { (ret, s1) \<leftarrow> st_set env i data n s; st_sets env cs s1 }"

text \<open>The calls that are accepted, with the bytes they set.\<close>

fun st_accepted :: "st_env \<Rightarrow> st_call list \<Rightarrow> (nat \<times> st_env \<times> byte list) list" where
  "st_accepted env [] = []"
| "st_accepted env ((i, data, n) # cs) =
     (if i < ST_ITEM_ID_MAX \<and> n = st_lens ! i then (i, env, take n data) # st_accepted env cs else st_accepted env cs)"

abbreviation st_run :: "(nat \<times> st_env \<times> byte list) list \<Rightarrow> st \<Rightarrow> st" where
  "st_run \<equiv> fold (\<lambda>(i, p). (\<lambda>(env, x). st_after_set env i x) p)"

lemma st_accepted_fit:
  "\<forall>(i, x, n) \<in> set calls. n \<le> length x \<Longrightarrow>
   \<forall>(i, p) \<in> set (st_accepted env calls). i \<in> {..<26} \<and> (\<lambda>(env, x). length x = st_lens ! i) p"
  by (induction calls rule: st_accepted.induct) (auto simp: ST_ITEM_ID_MAX_def)

lemma st_sets_eq:
  "st_ok s \<Longrightarrow> \<forall>(i, x, n) \<in> set calls. n \<le> length x \<Longrightarrow> st_sets env calls s = Some (st_run (st_accepted env calls) s)"
proof (induction calls arbitrary: s rule: st_accepted.induct)
  case (2 e i data n cs)
  show ?case
  proof (cases "i < 26 \<and> n = st_lens ! i")
    case True
    have "st_ok (st_after_set e i (take n data) s)" using 2(3,4) True by (intro st_after_ok) auto
    then show ?thesis using 2 True st_set_eq [OF 2(3), of i data e] by (auto simp: ST_ITEM_ID_MAX_def)
  next
    case False
    then show ?thesis using 2 st_set_refused [OF 2(3), of i n e data] by (auto simp: ST_ITEM_ID_MAX_def)
  qed
qed simp

section \<open>A map from items to values\<close>

fun st_spec :: "(nat \<Rightarrow> byte list option) \<Rightarrow> st_call list \<Rightarrow> nat \<Rightarrow> byte list option" where
  "st_spec m [] = m"
| "st_spec m ((i, x, n) # cs) = st_spec (if i < ST_ITEM_ID_MAX \<and> n = st_lens ! i then m(i \<mapsto> take n x) else m) cs"

lemma st_spec_accepted:
  "st_spec m calls i = (case map_of (rev (st_accepted env calls)) i of None \<Rightarrow> m i | Some (e, x) \<Rightarrow> Some x)"
  by (induction calls arbitrary: m rule: st_accepted.induct) (auto simp: map_add_def split: option.splits)

lemma st_run_frames:
  "ps \<noteq> [] \<Longrightarrow> \<forall>(i, p) \<in> set ps. fst p = env \<Longrightarrow> \<exists>es. st_eff (st_run ps s) = es @ st_frames env (st_run ps s)"
  by (cases ps rule: rev_cases) (auto simp: st_after_set_def Let_def st_frames_def st_mpu_def st_byte_def case_prod_unfold)

lemma st_accepted_env: "\<forall>(i, p) \<in> set (st_accepted env calls). fst p = env"
  by (induction calls rule: st_accepted.induct) auto

lemma st_sets_val:
  assumes "st_ok s" "\<forall>(i, x, n) \<in> set calls. n \<le> length x" "i < 26"
  shows "\<exists>s'. st_sets env calls s = Some s' \<and> st_ok s' \<and> s' = st_run (st_accepted env calls) s \<and>
    st_val s' i = st_spec (st_val s) calls i"
  using st_items.run_ok [OF assms(1) st_accepted_fit [OF assms(2), of env]] assms(3)
    st_items.run_get [OF assms(1) st_accepted_fit [OF assms(2), of env], of i]
  by (auto simp: st_sets_eq [OF assms(1,2)] st_spec_accepted [of _ _ _ env] case_prod_unfold split: option.split)

lemma st_spec_cong: "m i = m' i \<Longrightarrow> st_spec m calls i = st_spec m' calls i"
  by (simp add: st_spec_accepted [of _ _ _ undefined] split: option.split)

text \<open>\<^bold>\<open>C11\<close>
  The status table is a map. After the start, whatever calls of \<open>st_set\<close> follow, a reader with room for an
  item is handed the bytes of the last accepted call for it, or is told that the status is unknown; calls for
  items that do not exist or with another size change nothing. After an accepted call the last two frames for
  the MCU carry the faults and the state that holds then.\<close>

theorem status_is_map:
  assumes "st_tbl s = st_table" "\<forall>(i, x, n) \<in> set calls. n \<le> length x"
  shows "\<exists>s1 s2. st_init s = (0, s1) \<and> st_sets env calls s1 = Some s2 \<and>
    (\<forall>i n. i < ST_ITEM_ID_MAX \<and> st_lens ! i \<le> n \<longrightarrow>
      st_get i True n s2 = Some (case st_spec (\<lambda>i. None) calls i of
        None \<Rightarrow> (DEV_ST_UNKNOWN, [], st_lens ! i) | Some x \<Rightarrow> (0, x, st_lens ! i))) \<and>
    (st_accepted env calls \<noteq> [] \<longrightarrow> (\<exists>es. st_eff s2 = es @ st_frames env s2))"
proof -
  obtain s1 where s1: "st_init s = (0, s1)" "st_ok s1" "\<forall>i < 26. st_val s1 i = None"
    using st_ok_init [OF assms(1)] by auto
  let ?s2 = "st_run (st_accepted env calls) s1"
  have s2: "st_sets env calls s1 = Some ?s2" "st_ok ?s2"
    using st_sets_val [OF s1(2) assms(2), of 0 env] by auto
  have v: "st_val ?s2 i = st_spec (\<lambda>i. None) calls i" if "i < 26" for i
    using st_sets_val [OF s1(2) assms(2) that, of env] st_spec_cong [of "st_val s1" i "\<lambda>i. None"] s1(3) that by auto
  show ?thesis
    using s1(1) s2 st_get_eq [OF s2(2)] v st_run_frames [OF _ st_accepted_env, of env calls s1]
    by (intro exI [of _ s1] exI [of _ ?s2]) (auto simp: ST_ITEM_ID_MAX_def)
qed

text \<open>A bench: no calls in progress, no faults.\<close>

definition st_bench_env :: st_env where
  "st_bench_env = \<lparr>se_busy = (\<lambda>b. 0), se_fault = [0, 0, 0, 0, 0, 0]\<rparr>"

definition st_bench :: st where
  "st_bench = \<lparr>st_buf = [], st_tbl = st_table, st_regtbl = [], st_eff = []\<rparr>"

theorem status_is_map_witness:
  "\<exists>s1 s2. st_init st_bench = (0, s1) \<and>
    st_sets st_bench_env [(12, [3], 1), (12, [0], 1), (13, [1, 1], 2), (99, [], 0)] s1 = Some s2 \<and>
    st_get 12 True 1 s2 = Some (0, [0], 1) \<and> st_get 13 True 1 s2 = Some (DEV_ST_UNKNOWN, [], 1)"
  using status_is_map [of st_bench "[(12, [3], 1), (12, [0], 1), (13, [1, 1], 2), (99, [], 0)]" st_bench_env]
  by (auto simp: st_bench_def ST_ITEM_ID_MAX_def st_lens_def)

section \<open>What the registered modules hear\<close>

text \<open>The old and the new bytes of the calls of one callback for one item.\<close>

fun st_heard :: "nat \<Rightarrow> nat \<Rightarrow> st_effect list \<Rightarrow> (byte list \<times> byte list) list" where
  "st_heard cb i [] = []"
| "st_heard cb i (StChanged c j old new # es) = (if c = cb \<and> j = i then (old, new) # st_heard cb i es else st_heard cb i es)"
| "st_heard cb i (StFrame c d # es) = st_heard cb i es"

lemma st_heard_append [simp]: "st_heard cb i (es @ fs) = st_heard cb i es @ st_heard cb i fs"
  by (induction es rule: st_heard.induct) auto

lemma st_heard_frames [simp]: "st_heard cb i (st_frames env s) = []"
  by (simp add: st_frames_def)

lemma st_heard_told:
  "st_heard cb i (map (\<lambda>r. StChanged (snd r) j old new) (filter (\<lambda>r. fst r = j) rs)) =
   (if i = j then map (\<lambda>r. (old, new)) (filter (\<lambda>r. r = (i, cb)) rs) else [])"
  by (induction rs) auto

text \<open>The bytes given for an item.\<close>

definition st_given :: "nat \<Rightarrow> st_call list \<Rightarrow> byte list list" where
  "st_given i calls = map (\<lambda>(j, x, n). take n x) (filter (\<lambda>(j, x, n). j = i \<and> n = st_lens ! i) calls)"

lemma st_given_accepted: "i < 26 \<Longrightarrow> map (\<lambda>p. snd (snd p)) (filter (\<lambda>p. fst p = i) (st_accepted env calls)) = st_given i calls"
  by (induction calls rule: st_accepted.induct) (auto simp: st_given_def ST_ITEM_ID_MAX_def)

lemma zip_shift_snoc: "zip (z # ws @ [x]) (ws @ [x]) = zip (z # ws) ws @ [(last (z # ws), x)]"
  by (induction ws arbitrary: z) auto

lemma remdups_adj_snoc: "remdups_adj (vs @ [x]) = (if vs \<noteq> [] \<and> last vs = x then remdups_adj vs else remdups_adj vs @ [x])"
  by (cases vs rule: rev_cases) (auto simp: remdups_adj_append_two)

lemma st_run_reg: "st_regtbl (st_run ps s) = st_regtbl s"
  by (induction ps arbitrary: s) (auto simp: st_after_set_def Let_def st_changed_def st_put_def)

lemma st_heard_set:
  "st_heard cb i (st_eff (st_after_set e j x s)) =
   st_heard cb i (st_eff s) @ (if st_val s j = Some x then [] else st_heard cb i (st_told s j (st_old s j) x))"
  by (simp add: st_after_set_def Let_def st_changed_def)

lemma st_run_heard:
  assumes "st_ok s" "i < 26" "st_val s i = None" "st_heard cb i (st_eff s) = []" "filter (\<lambda>r. r = (i, cb)) (st_regtbl s) = [(i, cb)]"
    "\<forall>(j, p) \<in> set ps. j \<in> {..<26} \<and> (\<lambda>(env, x). length x = st_lens ! j) p"
  defines "vs \<equiv> map (\<lambda>p. snd (snd p)) (filter (\<lambda>p. fst p = i) ps)"
  shows "st_val (st_run ps s) i = (if vs = [] then None else Some (last vs)) \<and>
    st_heard cb i (st_eff (st_run ps s)) = zip (replicate (st_lens ! i) 0 # remdups_adj vs) (remdups_adj vs)"
  using assms(6) unfolding vs_def
proof (induction ps rule: rev_induct)
  case (snoc q ps)
  obtain j e x where q: "q = (j, e, x)" by (cases q)
  let ?vs = "map (\<lambda>p. snd (snd p)) (filter (\<lambda>p. fst p = i) ps)" and ?s = "st_run ps s"
  have ok: "st_ok ?s" using snoc.prems assms(1) by (intro st_items.run_ok) auto
  have j: "j < 26" "length x = st_lens ! j" using snoc.prems q by auto
  have v: "st_val ?s i = (if ?vs = [] then None else Some (last ?vs))"
    and h: "st_heard cb i (st_eff ?s) = zip (replicate (st_lens ! i) 0 # remdups_adj ?vs) (remdups_adj ?vs)"
    using snoc by auto
  have t: "st_heard cb i (st_told ?s j old x) = (if i = j then [(old, x)] else [])" for old
    using assms(5) by (cases "i = j") (auto simp: st_told_def st_heard_told st_run_reg)
  have old: "st_old ?s i = last (replicate (st_lens ! i) 0 # remdups_adj ?vs)"
    using v by (simp add: st_old_def last_remdups_adj)
  have val: "st_val (st_after_set e j x ?s) i = (if i = j then Some x else st_val ?s i)"
    using st_after_val [OF ok j assms(2)] by simp
  show ?case
  proof (cases "j = i")
    case False
    then show ?thesis using v h t val q by (simp add: st_heard_set)
  next
    case True
    then show ?thesis
      using v h t [of "st_old ?s i"] val q old
      by (auto simp: st_heard_set remdups_adj_snoc zip_shift_snoc)
  qed
qed (use assms in simp)

text \<open>\<^bold>\<open>C16\<close>
  A module that registered for an item hears of every change and of nothing else: the values it is told are
  the values set with adjacent repetitions removed, each with the one told before it as the old value, and
  zeros before the first.\<close>

theorem status_change_told:
  assumes "st_ok s" "i < ST_ITEM_ID_MAX" "st_val s i = None" "filter (\<lambda>r. r = (i, cb)) (st_regtbl s) = [(i, cb)]"
    "st_heard cb i (st_eff s) = []" "\<forall>(i, x, n) \<in> set calls. n \<le> length x"
  shows "\<exists>s'. st_sets env calls s = Some s' \<and>
    (let vs = remdups_adj (st_given i calls) in st_heard cb i (st_eff s') = zip (replicate (st_lens ! i) 0 # vs) vs)"
proof -
  have i: "i < 26" using assms(2) by (simp add: ST_ITEM_ID_MAX_def)
  show ?thesis
    using st_run_heard [OF assms(1) i assms(3,5,4) st_accepted_fit [OF assms(6), of env]]
    by (simp add: st_sets_eq [OF assms(1,6)] st_given_accepted [OF i] Let_def)
qed

text \<open>A module that registered for the mode of the power management.\<close>

definition st_bench_reg :: st where
  "st_bench_reg = snd (st_register 12 (Some 7) (snd (st_init st_bench)))"

lemma st_bench_reg_ok: "st_ok st_bench_reg \<and> st_val st_bench_reg 12 = None \<and> st_regtbl st_bench_reg = [(12, 7)] \<and> st_eff st_bench_reg = []"
  using st_ok_init [of st_bench] by (auto simp: st_bench_reg_def st_bench_def st_register_def st_sizes)

theorem status_change_told_witness:
  "\<exists>s'. st_sets st_bench_env [(12, [3], 1), (12, [3], 1), (1, [1], 1), (12, [0], 1)] st_bench_reg = Some s' \<and>
    st_heard 7 12 (st_eff s') = [([0], [3]), ([3], [0])]"
  using status_change_told [of st_bench_reg 12 7 "[(12, [3], 1), (12, [3], 1), (1, [1], 1), (12, [0], 1)]" st_bench_env] st_bench_reg_ok
  by (simp add: ST_ITEM_ID_MAX_def st_lens_def st_given_def)

section \<open>The state of the MCU\<close>

lemma st_set_fields_sets:
  "st_set_fields env d fs s = st_sets env (map (\<lambda>(i, off, n). (i, drop off d, n)) fs) s"
proof (induction fs arbitrary: s)
  case (Cons f fs)
  obtain i off n where f: "f = (i, off, n)" by (cases f)
  show ?case by (cases "st_set env i (drop off d) n s") (auto simp: f Cons)
qed simp

lemma st_mcu_fields_sizes: "\<forall>(i, off, n) \<in> set st_mcu_fields. i < 26 \<and> n = st_lens ! i"
  by (simp add: st_mcu_fields_def st_ids st_lens_def)

lemma st_mcu_fields_distinct: "distinct (map fst st_mcu_fields)"
  by (simp add: st_mcu_fields_def st_ids)

lemma st_mcu_fields_places: "map snd st_mcu_fields = places 0 (map (snd \<circ> snd) st_mcu_fields)"
  by (simp add: st_mcu_fields_def)

lemma st_mcu_fields_end: "\<forall>(i, off, n) \<in> set st_mcu_fields. off + n \<le> STATUS_MCU_LEN"
  by (simp add: st_mcu_fields_def STATUS_MCU_LEN_def)

lemma st_mcu_fields_sum: "sum_list (map (snd \<circ> snd) st_mcu_fields) = STATUS_MCU_LEN"
  by (simp add: st_mcu_fields_def STATUS_MCU_LEN_def)

lemma st_mcu_others: "\<forall>i \<in> {8, 9, 10, 15, 20, 25}. i < 26 \<and> i \<notin> fst ` set st_mcu_fields"
  by (simp add: st_mcu_fields_def st_ids)

lemma st_mcu_accepted:
  "\<forall>(i, off, n) \<in> set fs. i < 26 \<and> n = st_lens ! i \<Longrightarrow>
   st_accepted env (map (\<lambda>(i, off, n). (i, drop off d, n)) fs) = map (\<lambda>(i, off, n). (i, env, take n (drop off d))) fs"
  by (induction fs) (auto simp: ST_ITEM_ID_MAX_def)

lemma concat_places: "off + sum_list ns \<le> length d \<Longrightarrow> concat (map (place_of d) (places off ns)) = take (sum_list ns) (drop off d)"
  by (induction ns arbitrary: off) (auto simp: place_of_def take_add add.commute)

lemma st_mcu_tiles: "STATUS_MCU_LEN \<le> length (d :: byte list) \<Longrightarrow> concat (map (\<lambda>(i, off, n). take n (drop off d)) st_mcu_fields) = take STATUS_MCU_LEN d"
proof -
  assume l: "STATUS_MCU_LEN \<le> length d"
  have "map (\<lambda>(i, off, n). take n (drop off d)) st_mcu_fields = map (place_of d) (map snd st_mcu_fields)"
    by (simp add: place_of_def case_prod_unfold)
  then show ?thesis
    using concat_places [of 0 "map (snd \<circ> snd) st_mcu_fields" d] l
    by (simp only: st_mcu_fields_places [symmetric] st_mcu_fields_sum) simp
qed

text \<open>A status message of the MCU sets twenty items, whose bytes in the order of the message are the message
  itself; the six items the MCU does not know (calls, backend, sleep and upgrade) keep their values. A message
  of another length changes nothing.\<close>

theorem mcu_state_taken_over:
  assumes "st_ok s" "n \<le> length d"
  shows "\<exists>s'. st_sync_from_mcu env (Some d) n s = Some s' \<and> (n \<noteq> STATUS_MCU_LEN \<longrightarrow> s' = s) \<and>
    (n = STATUS_MCU_LEN \<longrightarrow>
      concat (map (\<lambda>(i, off, n). the (st_val s' i)) st_mcu_fields) = take STATUS_MCU_LEN d \<and>
      (\<forall>(i, off, n) \<in> set st_mcu_fields. st_val s' i = Some (take n (drop off d))) \<and>
      (\<forall>i \<in> {8, 9, 10, 15, 20, 25}. st_val s' i = st_val s i))"
proof (cases "n = STATUS_MCU_LEN")
  case True
  let ?calls = "map (\<lambda>(i, off, n). (i, drop off d, n)) st_mcu_fields"
  have fit: "\<forall>(i, x, n) \<in> set ?calls. n \<le> length x"
    using st_mcu_fields_end assms(2) True by (auto simp: le_diff_conv2 add.commute)
  let ?acc = "map (\<lambda>(i, off, n). (i, env, take n (drop off d))) st_mcu_fields"
  let ?s = "st_run ?acc s"
  note acc = st_mcu_accepted [OF st_mcu_fields_sizes, of env d]
  have run: "st_sync_from_mcu env (Some d) n s = Some ?s"
    using True st_sets_eq [OF assms(1) fit, of env] acc by (simp add: st_sync_from_mcu_def st_set_fields_sets)
  note get = st_items.run_get [OF assms(1) st_accepted_fit [OF fit, of env], unfolded acc]
  have dist: "distinct (map fst (rev ?acc))"
    using st_mcu_fields_distinct by (simp add: rev_map [symmetric] case_prod_unfold comp_def)
  have v: "st_val ?s i = Some (take m (drop off d))" if "(i, off, m) \<in> set st_mcu_fields" for i off m
  proof -
    have "(i, env, take m (drop off d)) \<in> set (rev ?acc)" using that by force
    then have "map_of (rev ?acc) i = Some (env, take m (drop off d))" using dist by (simp add: map_of_is_SomeI)
    then show ?thesis using get [of i] that st_mcu_fields_sizes by auto
  qed
  have o: "st_val ?s i = st_val s i" if "i \<in> {8, 9, 10, 15, 20, 25}" for i
  proof -
    have "i \<notin> fst ` set ?acc" "i < 26" using that st_mcu_others by (auto simp: image_image case_prod_unfold)
    then show ?thesis
      using st_items.run_get_other [OF assms(1) st_accepted_fit [OF fit, of env], unfolded acc, of i] by simp
  qed
  have v': "\<forall>(i, off, n) \<in> set st_mcu_fields. st_val ?s i = Some (take n (drop off d))" using v by blast
  then have m: "map (\<lambda>(i, off, n). the (st_val ?s i)) st_mcu_fields = map (\<lambda>(i, off, n). take n (drop off d)) st_mcu_fields"
    by (intro map_cong) (auto simp: case_prod_unfold)
  have c: "concat (map (\<lambda>(i, off, n). the (st_val ?s i)) st_mcu_fields) = take STATUS_MCU_LEN d"
    unfolding m using assms(2) True by (intro st_mcu_tiles) simp
  have o': "\<forall>i \<in> {8, 9, 10, 15, 20, 25}. st_val ?s i = st_val s i" using o by blast
  show ?thesis
    by (rule exI [of _ ?s]) (use run True v' o' c in simp)
next
  case False
  then show ?thesis by (simp add: st_sync_from_mcu_def)
qed

theorem mcu_state_taken_over_witness:
  "\<exists>s'. st_sync_from_mcu st_bench_env (Some (map of_nat [0..<32])) 32 st_bench_reg = Some s' \<and>
    (\<forall>(i, off, n) \<in> set st_mcu_fields. st_val s' i = Some (take n (drop off (map of_nat [0..<32]))))"
  using mcu_state_taken_over [of st_bench_reg 32 "map of_nat [0..<32]" st_bench_env] st_bench_reg_ok
  by (auto simp: STATUS_MCU_LEN_def)

end
