(* ===== verification/ScomMain.thy ===== *)
theory ScomMain
  imports StatusProps Sleep
begin

text \<open>
  The thread of the link to the MCU: the device of \<open>src/app/base/scom/scom_dev.c\<close> and the loop of
  \<open>scom_main.c\<close> around the framing and the transport layer. \<open>scom\<close> holds the statics of both files;
  \<open>sc_opened\<close> are the descriptors of the device the process holds, \<open>sc_eff\<close> what the loop does outside.
  The mutex of the device changes nothing in one thread and is left out.
\<close>

section \<open>Data\<close>

definition SCOM_MSG_ID_TIMER_NAME_RESEND :: u32 where "SCOM_MSG_ID_TIMER_NAME_RESEND = 0x0b00"
definition SCOM_MSG_ID_TIMER_HEARTER :: u32 where "SCOM_MSG_ID_TIMER_HEARTER = 0x0b01"
definition SCOM_MSG_ID_TIMER_OPEN :: u32 where "SCOM_MSG_ID_TIMER_OPEN = 0x0b02"
definition SCOM_MSG_ID_TIMER_CLOSE_SPI :: u32 where "SCOM_MSG_ID_TIMER_CLOSE_SPI = 0x0b03"
definition SCOM_HEARTER_INTERVAL :: nat where "SCOM_HEARTER_INTERVAL = 7000"
definition SCOM_OPEN_INTERVAL :: nat where "SCOM_OPEN_INTERVAL = 50"
definition SCOM_DELAY_CLOSE_SCOM_INTERVAL :: nat where "SCOM_DELAY_CLOSE_SCOM_INTERVAL = 3000"
definition SCOM_OPEN_FAILED :: int where "SCOM_OPEN_FAILED = 0x0b000002"
definition SCOM_TL_CMD_HEARTBEAT :: byte where "SCOM_TL_CMD_HEARTBEAT = 0x0e"
definition SCOM_MSGBUF_LEN :: nat where "SCOM_MSGBUF_LEN = 2 * TCOM_MAX_MSG_LEN"

lemmas scom_msg_ids = SCOM_MSG_ID_TIMER_NAME_RESEND_def SCOM_MSG_ID_TIMER_HEARTER_def SCOM_MSG_ID_TIMER_OPEN_def
  SCOM_MSG_ID_TIMER_CLOSE_SPI_def PM_MSG_SLEEP_def PM_MSG_OFF_def PM_MSG_EMERGENCY_def PM_MSG_RUNNING_def
  MPU_MID_MID_PWDG_def

datatype scom_timer = OpenTimer | HeartTimer | CloseTimer

datatype scom_event_out = TimerStart scom_timer nat bool | TimerStop scom_timer | Fed | Link scom_effect

record scom =
  scom_spifd :: int
  scom_dev_fd :: int
  scom_heart_count :: nat
  scom_is_ready_sleep :: byte
  scom_version :: "byte list"
  scom_dec :: decoder
  scom_link :: scom_tl
  sc_opened :: "int list"
  sc_eff :: "scom_event_out list"

definition scom_emit :: "scom_event_out \<Rightarrow> scom \<Rightarrow> scom" where
  "scom_emit e s = s\<lparr>sc_eff := sc_eff s @ [e]\<rparr>"

section \<open>The device\<close>

text \<open>\<open>fd\<close> is what \<open>open\<close> returns; the callers pass \<open>&scom_spifd\<close>.\<close>

definition scom_dev_open :: "int \<Rightarrow> scom \<Rightarrow> int \<times> scom" where
  "scom_dev_open fd s =
     (let s1 = s\<lparr>scom_dev_fd := fd\<rparr>
      in if fd < 0 then (SCOM_OPEN_FAILED, s1)
         else (0, s1\<lparr>sc_opened := sc_opened s @ [fd], scom_spifd := fd\<rparr>))"

definition scom_dev_close :: "scom \<Rightarrow> scom" where
  "scom_dev_close s = s\<lparr>sc_opened := filter (\<lambda>fd. fd \<noteq> scom_dev_fd s) (sc_opened s), scom_dev_fd := -1\<rparr>"

text \<open>\<open>read\<close> with room for \<open>len\<close> bytes: \<open>avail\<close> are the bytes that wait, none if it fails.\<close>

definition scom_dev_recv :: "byte list \<Rightarrow> nat \<Rightarrow> byte list" where
  "scom_dev_recv avail len = take len avail"

definition scom_open_or_retry :: "int \<Rightarrow> scom \<Rightarrow> scom" where
  "scom_open_or_retry fd s =
     (let (ret, s1) = scom_dev_open fd s
      in if ret \<noteq> 0 then scom_emit (TimerStart OpenTimer SCOM_OPEN_INTERVAL False) s1 else s1)"

section \<open>Start\<close>

definition scom_sleep_available :: "u32 \<Rightarrow> scom \<Rightarrow> int" where
  "scom_sleep_available msgid s =
     (if msgid = PM_MSG_SLEEP \<or> msgid = PM_MSG_OFF then int (unat (scom_is_ready_sleep s)) else 1)"

definition scom_forward_msg :: "u16 \<Rightarrow> u32 \<Rightarrow> byte list option \<Rightarrow> u32 \<Rightarrow> int \<Rightarrow> tcom \<Rightarrow> (int \<times> tcom) option" where
  "scom_forward_msg receiver msg_id msg len wr tc =
     tcom_send_msg tc (Some \<lparr>msg_sender = MPU_MID_SCOM, msg_receiver = receiver, msg_msgid = msg_id, msg_msglen = len\<rparr>) msg wr"

text \<open>
  The returns of the timers, of \<open>open\<close> and of the upgrade module, whose version fills the 32 bytes it is given.
\<close>

record scom_init_env =
  si_tl_timer :: int
  si_open_timer :: int
  si_heart_timer :: int
  si_close_timer :: int
  si_fd :: int
  si_ver :: "int \<times> byte list"
  si_mcu :: bool

definition scom_effects :: "'a scom_result \<Rightarrow> scom \<Rightarrow> ('a \<times> scom) option" where
  "scom_effects r s = do { (x, l, es) \<leftarrow> r; Some (x, s\<lparr>scom_link := l, sc_eff := sc_eff s @ map Link es\<rparr>) }"

definition scom_init :: "INIT_PHASE \<Rightarrow> scom_init_env \<Rightarrow> scom \<Rightarrow> (int \<times> scom) option" where
  "scom_init phase env s = do {
     (ret, s1) \<leftarrow> scom_effects (scom_tl_init phase (si_tl_timer env) (scom_link s)) s;
     if ret \<noteq> 0 then Some (ret, s1)
     else (case phase of
         INIT_PHASE_INSIDE \<Rightarrow> Some (0, s1)
       | INIT_PHASE_RESTORE \<Rightarrow> Some (0, s1)
       | INIT_PHASE_OUTSIDE \<Rightarrow>
           if si_open_timer env \<noteq> 0 then Some (si_open_timer env, s1)
           else let s2 = scom_open_or_retry (si_fd env) s1
           in if si_heart_timer env \<noteq> 0 then Some (si_heart_timer env, s2)
           else let s3 = scom_emit (TimerStart HeartTimer SCOM_HEARTER_INTERVAL True) s2
           in if si_close_timer env \<noteq> 0 then Some (si_close_timer env, s3)
           else Some (0, s3\<lparr>scom_link := scom_tl_reg_tx_fun (scom_link s3),
                  scom_version := (if fst (si_ver env) \<noteq> 0 \<or> \<not> si_mcu env then replicate 32 0 else take 32 (snd (si_ver env)))\<rparr>)) }"

section \<open>The loop\<close>

text \<open>
  One pass: what \<open>open\<close> would return in the restart and in a handler, the bytes that wait at the device if it is
  readable, the number of the message that is received if any, the food of the watchdog and the status table.
\<close>

record scom_in =
  in_fd1 :: int
  in_fd2 :: int
  in_spi :: "byte list option"
  in_msg :: "u32 option"
  in_food :: u32
  in_status :: st

text \<open>The mode read from the status is one of listen, sleep, deep sleep and off.\<close>

definition scom_timeout_proc :: "st \<Rightarrow> scom \<Rightarrow> scom option" where
  "scom_timeout_proc status s = do {
     (ret, mode, len) \<leftarrow> st_get ST_ITEM_PM_MODE True 1 status;
     if ret \<noteq> 0 then Some s
     else if mode \<in> {[2], [3], [4], [5]}
     then Some ((if 0 \<le> scom_spifd s then (scom_dev_close s)\<lparr>scom_spifd := -1\<rparr> else s)\<lparr>scom_is_ready_sleep := 1\<rparr>)
     else Some s }"

definition scom_restart :: "int \<Rightarrow> scom \<Rightarrow> scom" where
  "scom_restart fd s =
     (if 10 \<le> scom_heart_count s
      then scom_open_or_retry fd (scom_dev_close (s\<lparr>scom_spifd := -1, scom_heart_count := 0\<rparr>)) else s)"

fun scom_deliver :: "delivery list \<Rightarrow> scom \<Rightarrow> scom option" where
  "scom_deliver [] s = Some s"
| "scom_deliver ((msg, len) # ds) s = do {
     (u, s1) \<leftarrow> scom_effects (scom_tl_msg_proc msg (nat len) (scom_link s)) s;
     scom_deliver ds s1 }"

definition scom_recv :: "byte list \<Rightarrow> scom \<Rightarrow> scom option" where
  "scom_recv avail s =
     (let s1 = (if SCOM_MSGBUF_LEN \<le> dec_w (scom_dec s) then s\<lparr>scom_dec := (scom_dec s)\<lparr>dec_r := 0, dec_w := 0\<rparr>\<rparr> else s);
          bytes = scom_dev_recv avail (SCOM_MSGBUF_LEN - dec_w (scom_dec s1))
      in if bytes = [] then Some s1
         else do {
           (out, d) \<leftarrow> dec_feed (scom_dec s1) bytes;
           scom_deliver out (s1\<lparr>scom_heart_count := 0, scom_dec := d\<rparr>) })"

definition scom_wake :: "int \<Rightarrow> scom \<Rightarrow> scom" where
  "scom_wake fd s =
     (let s1 = scom_emit (TimerStop CloseTimer) (s\<lparr>scom_is_ready_sleep := 0\<rparr>)
      in if scom_spifd s1 < 0 then scom_open_or_retry fd s1 else s1)"

definition scom_msg :: "scom_in \<Rightarrow> u32 \<Rightarrow> scom \<Rightarrow> scom option" where
  "scom_msg inp msgid s =
     (if msgid = PM_MSG_SLEEP \<or> msgid = PM_MSG_OFF
      then Some (scom_emit (TimerStart CloseTimer SCOM_DELAY_CLOSE_SCOM_INTERVAL False) s)
      else if msgid = PM_MSG_EMERGENCY then Some (scom_wake (in_fd2 inp) s)
      else if msgid = PM_MSG_RUNNING then Some (scom_wake (in_fd2 inp) s)
      else if msgid = MPU_MID_MID_PWDG then Some (scom_emit Fed s)
      else if msgid = SCOM_MSG_ID_TIMER_HEARTER then
        map_option snd (scom_effects
          (scom_tl_send_msg SCOM_TL_CMD_HEARTBEAT (Some (le32 (in_food inp) @ scom_version s)) (scom_link s))
          (s\<lparr>scom_heart_count := scom_heart_count s + 1\<rparr>))
      else if msgid = SCOM_MSG_ID_TIMER_OPEN
      then Some (if scom_is_ready_sleep s = 0 then scom_open_or_retry (in_fd2 inp) s else s)
      else if msgid = SCOM_MSG_ID_TIMER_NAME_RESEND
      then map_option snd (scom_effects (scom_tl_timeout_proc (scom_link s)) s)
      else if msgid = SCOM_MSG_ID_TIMER_CLOSE_SPI then scom_timeout_proc (in_status inp) s
      else Some s)"

text \<open>
  \<open>select\<close> reports the device only if its descriptor was valid before; \<open>Ready\<close> is a positive return of it,
  \<open>Idle\<close> a timeout or a signal, \<open>Failed\<close> another error, which ends the thread.
\<close>

datatype scom_sel = Ready scom_in | Idle int | Failed int

definition scom_ready :: "scom_in \<Rightarrow> scom \<Rightarrow> scom option" where
  "scom_ready inp s = do {
     s1 \<leftarrow> (case in_spi inp of None \<Rightarrow> Some s | Some avail \<Rightarrow> if 0 \<le> scom_spifd s then scom_recv avail s else Some s);
     (case in_msg inp of None \<Rightarrow> Some s1 | Some m \<Rightarrow> scom_msg inp m s1) }"

fun scom_main :: "scom_sel list \<Rightarrow> scom \<Rightarrow> scom option" where
  "scom_main [] s = Some s"
| "scom_main (Ready inp # es) s = do { s1 \<leftarrow> scom_ready inp (scom_restart (in_fd1 inp) s); scom_main es s1 }"
| "scom_main (Idle fd # es) s = scom_main es (scom_restart fd s)"
| "scom_main (Failed fd # es) s = Some (scom_restart fd s)"

end
