(* ===== verification/ScomProps.thy ===== *)
theory ScomProps
  imports ScomMain
begin

text \<open>
  The thread of the link to the MCU holds one descriptor of its device unless a late retry opens a second
  one, keeps the device closed while the box prepares to sleep for fewer than ten heartbeats, and reopens a
  silent one.
\<close>

section \<open>The device\<close>

definition one_fd :: "scom \<Rightarrow> bool" where
  "one_fd s \<longleftrightarrow> (0 \<le> scom_spifd s \<and> scom_dev_fd s = scom_spifd s \<and> sc_opened s = [scom_spifd s]) \<or>
     (scom_spifd s = -1 \<and> scom_dev_fd s < 0 \<and> sc_opened s = [])"

text \<open>The part of the state the messages of the link do not change.\<close>

definition port :: "scom \<Rightarrow> int \<times> int \<times> int list \<times> byte \<times> byte list" where
  "port s = (scom_spifd s, scom_dev_fd s, sc_opened s, scom_is_ready_sleep s, scom_version s)"

lemma port_one_fd: "port s = port s' \<Longrightarrow> one_fd s = one_fd s'"
  by (simp add: port_def one_fd_def)

lemma effects_port: "scom_effects r s = Some (x, s') \<Longrightarrow> port s' = port s \<and> scom_heart_count s' = scom_heart_count s"
  by (auto simp: scom_effects_def port_def bind_eq_Some_conv)

lemma deliver_port: "scom_deliver ds s = Some s' \<Longrightarrow> port s' = port s \<and> scom_heart_count s' = scom_heart_count s"
proof (induction ds arbitrary: s)
  case (Cons d ds)
  obtain msg len where d: "d = (msg, len)" by (cases d)
  obtain u s1 where s1: "scom_effects (scom_tl_msg_proc msg (nat len) (scom_link s)) s = Some (u, s1)" "scom_deliver ds s1 = Some s'"
    using Cons.prems d by (auto simp: bind_eq_Some_conv)
  then show ?case using Cons.IH [OF s1(2)] effects_port [OF s1(1)] by simp
qed simp

lemma recv_port: "scom_recv avail s = Some s' \<Longrightarrow> port s' = port s \<and> scom_heart_count s' \<le> scom_heart_count s"
  by (auto simp: scom_recv_def Let_def bind_eq_Some_conv port_def split: if_splits dest!: deliver_port)

lemma timeout_shape:
  "scom_timeout_proc status s = Some s' \<Longrightarrow>
   s' = s \<or> s' = (if 0 \<le> scom_spifd s then (scom_dev_close s)\<lparr>scom_spifd := -1\<rparr> else s)\<lparr>scom_is_ready_sleep := 1\<rparr>"
  by (auto simp: scom_timeout_proc_def bind_eq_Some_conv split: if_splits)

lemma one_fd_fields [simp]:
  "one_fd (s\<lparr>scom_is_ready_sleep := b\<rparr>) = one_fd s" "one_fd (s\<lparr>scom_heart_count := n\<rparr>) = one_fd s"
  "one_fd (scom_emit e s) = one_fd s"
  by (simp_all add: one_fd_def scom_emit_def)

lemma one_fd_closed: "one_fd s \<Longrightarrow> one_fd ((scom_dev_close s)\<lparr>scom_spifd := -1\<rparr>)"
  by (auto simp: one_fd_def scom_dev_close_def)

lemma one_fd_open: "one_fd s \<Longrightarrow> scom_spifd s < 0 \<Longrightarrow> one_fd (scom_open_or_retry fd s)"
  by (auto simp: one_fd_def scom_open_or_retry_def scom_dev_open_def scom_emit_def SCOM_OPEN_FAILED_def Let_def)

lemma restart_closes: "scom_dev_close (s\<lparr>scom_spifd := -1, scom_heart_count := 0\<rparr>) = (scom_dev_close s)\<lparr>scom_spifd := -1, scom_heart_count := 0\<rparr>"
  by (simp add: scom_dev_close_def)

lemma one_fd_restart: "one_fd s \<Longrightarrow> one_fd (scom_restart fd s)"
  using one_fd_closed [of s] one_fd_open [of "(scom_dev_close s)\<lparr>scom_spifd := -1, scom_heart_count := 0\<rparr>" fd]
  by (simp add: scom_restart_def restart_closes one_fd_def)

lemma one_fd_wake: "one_fd s \<Longrightarrow> one_fd (scom_wake fd s)"
  by (simp add: scom_wake_def Let_def one_fd_open)

lemma one_fd_msg:
  assumes "scom_msg inp m s = Some s'" "one_fd s" "m = SCOM_MSG_ID_TIMER_OPEN \<longrightarrow> scom_spifd s < 0"
  shows "one_fd s'"
  using assms one_fd_wake one_fd_open one_fd_closed [of s]
  by (auto simp: scom_msg_def split: if_splits dest!: effects_port timeout_shape port_one_fd)

text \<open>A pass: the bytes of the device first, then the message.\<close>

lemma ready_split:
  assumes "scom_ready inp s = Some s'"
  shows "\<exists>s1. port s1 = port s \<and> scom_heart_count s1 \<le> scom_heart_count s \<and> (in_spi inp = None \<longrightarrow> s1 = s) \<and>
    (case in_msg inp of None \<Rightarrow> s1 = s' | Some m \<Rightarrow> scom_msg inp m s1 = Some s')"
proof -
  obtain s1 where s1: "(case in_spi inp of None \<Rightarrow> Some s | Some avail \<Rightarrow> if 0 \<le> scom_spifd s then scom_recv avail s else Some s) = Some s1"
    "(case in_msg inp of None \<Rightarrow> Some s1 | Some m \<Rightarrow> scom_msg inp m s1) = Some s'"
    using assms by (auto simp: scom_ready_def bind_eq_Some_conv)
  have "port s1 = port s \<and> scom_heart_count s1 \<le> scom_heart_count s \<and> (in_spi inp = None \<longrightarrow> s1 = s)"
    using s1(1) recv_port by (auto split: option.splits if_splits)
  then show ?thesis using s1(2) by (auto split: option.splits)
qed

lemma one_fd_ready:
  assumes "scom_ready inp s = Some s'" "one_fd s" "in_msg inp = Some SCOM_MSG_ID_TIMER_OPEN \<longrightarrow> scom_spifd s < 0"
  shows "one_fd s'"
proof -
  obtain s1 where s1: "port s1 = port s" "(case in_msg inp of None \<Rightarrow> s1 = s' | Some m \<Rightarrow> scom_msg inp m s1 = Some s')"
    using ready_split [OF assms(1)] by auto
  have "one_fd s1" "scom_spifd s1 = scom_spifd s" using s1(1) assms(2) port_one_fd [OF s1(1)] by (auto simp: port_def)
  then show ?thesis using s1(2) assms(3) one_fd_msg by (auto split: option.splits)
qed

text \<open>In a run a retry is late if its timer expires while the device is open.\<close>

fun no_late_retry :: "scom_sel list \<Rightarrow> scom \<Rightarrow> bool" where
  "no_late_retry [] s = True"
| "no_late_retry (Ready inp # es) s =
     (let s0 = scom_restart (in_fd1 inp) s
      in (in_msg inp = Some SCOM_MSG_ID_TIMER_OPEN \<longrightarrow> scom_spifd s0 < 0) \<and>
         (case scom_ready inp s0 of None \<Rightarrow> True | Some s1 \<Rightarrow> no_late_retry es s1))"
| "no_late_retry (Idle fd # es) s = no_late_retry es (scom_restart fd s)"
| "no_late_retry (Failed fd # es) s = True"

lemma one_fd_main: "scom_main es s = Some s' \<Longrightarrow> one_fd s \<Longrightarrow> no_late_retry es s \<Longrightarrow> one_fd s'"
proof (induction es s rule: scom_main.induct)
  case (2 inp es s)
  then show ?case using one_fd_restart [of s] one_fd_ready by (fastforce simp: bind_eq_Some_conv Let_def)
qed (auto simp: one_fd_restart)

text \<open>A bench: the link after the start, with the device at descriptor \<open>fd\<close> or closed if that is negative.\<close>

definition scom_bench :: "int \<Rightarrow> byte \<Rightarrow> scom" where
  "scom_bench fd b =
     \<lparr>scom_spifd = fd, scom_dev_fd = fd, scom_heart_count = 0, scom_is_ready_sleep = b, scom_version = replicate 32 0,
      scom_dec = dec_init (replicate SCOM_MSGBUF_LEN 0), scom_link = scom_tl_init_inside demo_server,
      sc_opened = (if fd < 0 then [] else [fd]), sc_eff = []\<rparr>"

definition scom_msg_in :: "u32 \<Rightarrow> int \<Rightarrow> scom_in" where
  "scom_msg_in m fd = \<lparr>in_fd1 = -1, in_fd2 = fd, in_spi = None, in_msg = Some m, in_food = 0, in_status = st_bench_reg\<rparr>"

lemma scom_bench_one: "one_fd (scom_bench (-1) b)" "0 \<le> fd \<Longrightarrow> one_fd (scom_bench fd b)"
  by (simp_all add: one_fd_def scom_bench_def)

text \<open>The thread holds at most one descriptor of the SPI device, and it is the one it reads, writes and waits
  for, through any sequence of restarts, closings for sleep, wake-ups and retries, as long as no retry
  timer expires while the device is open.\<close>

theorem scom_one_descriptor:
  assumes "scom_main es s = Some s'" "one_fd s" "no_late_retry es s"
  shows "(0 \<le> scom_spifd s' \<and> scom_dev_fd s' = scom_spifd s' \<and> sc_opened s' = [scom_spifd s']) \<or>
    (scom_spifd s' = -1 \<and> scom_dev_fd s' < 0 \<and> sc_opened s' = [])"
  using one_fd_main [OF assms] by (simp add: one_fd_def)

theorem scom_one_descriptor_witness:
  "\<exists>s'. scom_main [Ready (scom_msg_in PM_MSG_RUNNING (-1)), Ready (scom_msg_in SCOM_MSG_ID_TIMER_OPEN 5),
      Ready (scom_msg_in PM_MSG_RUNNING 6)] (scom_bench (-1) 1) = Some s' \<and>
    scom_spifd s' = 5 \<and> scom_dev_fd s' = 5 \<and> sc_opened s' = [5]"
proof -
  let ?es = "[Ready (scom_msg_in PM_MSG_RUNNING (-1)), Ready (scom_msg_in SCOM_MSG_ID_TIMER_OPEN 5), Ready (scom_msg_in PM_MSG_RUNNING 6)]"
  have run: "\<exists>s'. scom_main ?es (scom_bench (-1) 1) = Some s' \<and> scom_spifd s' = 5 \<and> no_late_retry ?es (scom_bench (-1) 1)"
    by (simp add: scom_msg_in_def scom_bench_def scom_ready_def scom_msg_def scom_msg_ids scom_wake_def scom_emit_def
        scom_open_or_retry_def scom_dev_open_def scom_restart_def SCOM_OPEN_FAILED_def Let_def)
  then obtain s' where s': "scom_main ?es (scom_bench (-1) 1) = Some s'" "scom_spifd s' = 5" "no_late_retry ?es (scom_bench (-1) 1)"
    by blast
  show ?thesis using scom_one_descriptor [OF s'(1) scom_bench_one(1) s'(3)] s' by auto
qed

section \<open>A late retry\<close>

text \<open>A descriptor that is open and is not the one of the device.\<close>

definition leaked :: "int \<Rightarrow> scom \<Rightarrow> bool" where
  "leaked fd s \<longleftrightarrow> 0 \<le> fd \<and> fd \<in> set (sc_opened s) \<and> scom_dev_fd s \<noteq> fd"

lemma leaked_port: "port s = port s' \<Longrightarrow> leaked fd s = leaked fd s'"
  by (simp add: port_def leaked_def)

lemma leaked_fields [simp]:
  "leaked fd (s\<lparr>scom_is_ready_sleep := b\<rparr>) = leaked fd s" "leaked fd (s\<lparr>scom_heart_count := n\<rparr>) = leaked fd s"
  "leaked fd (s\<lparr>scom_spifd := i\<rparr>) = leaked fd s" "leaked fd (scom_emit e s) = leaked fd s"
  by (simp_all add: leaked_def scom_emit_def)

lemma leaked_close: "leaked fd s \<Longrightarrow> leaked fd (scom_dev_close s)"
  by (simp add: leaked_def scom_dev_close_def)

lemma leaked_open: "leaked fd s \<Longrightarrow> fd' \<noteq> fd \<Longrightarrow> leaked fd (scom_open_or_retry fd' s)"
  by (simp add: leaked_def scom_open_or_retry_def scom_dev_open_def scom_emit_def Let_def)

lemma leaked_restart: "leaked fd s \<Longrightarrow> fd' \<noteq> fd \<Longrightarrow> leaked fd (scom_restart fd' s)"
  by (simp add: scom_restart_def leaked_open leaked_close)

lemma leaked_wake: "leaked fd s \<Longrightarrow> fd' \<noteq> fd \<Longrightarrow> leaked fd (scom_wake fd' s)"
  by (simp add: scom_wake_def Let_def leaked_open)

lemma leaked_msg: "scom_msg inp m s = Some s' \<Longrightarrow> leaked fd s \<Longrightarrow> in_fd2 inp \<noteq> fd \<Longrightarrow> leaked fd s'"
  using leaked_wake leaked_open leaked_close [of fd s]
  by (auto simp: scom_msg_def split: if_splits dest!: effects_port timeout_shape leaked_port)

lemma leaked_ready:
  assumes "scom_ready inp s = Some s'" "leaked fd s" "in_fd2 inp \<noteq> fd"
  shows "leaked fd s'"
proof -
  obtain s1 where s1: "port s1 = port s" "(case in_msg inp of None \<Rightarrow> s1 = s' | Some m \<Rightarrow> scom_msg inp m s1 = Some s')"
    using ready_split [OF assms(1)] by auto
  then have "leaked fd s1" using assms(2) leaked_port [OF s1(1)] by simp
  then show ?thesis using s1(2) assms(3) leaked_msg by (auto split: option.splits)
qed

text \<open>What \<open>open\<close> may return in a run.\<close>

fun opens :: "scom_sel list \<Rightarrow> int set" where
  "opens [] = {}"
| "opens (Ready inp # es) = insert (in_fd1 inp) (insert (in_fd2 inp) (opens es))"
| "opens (Idle fd # es) = insert fd (opens es)"
| "opens (Failed fd # es) = insert fd (opens es)"

lemma leaked_main: "scom_main es s = Some s' \<Longrightarrow> leaked fd s \<Longrightarrow> fd \<notin> opens es \<Longrightarrow> leaked fd s'"
proof (induction es s rule: scom_main.induct)
  case (2 inp es s)
  then show ?case using leaked_restart [of fd s "in_fd1 inp"] leaked_ready by (fastforce simp: bind_eq_Some_conv)
qed (auto simp: leaked_restart)

text \<open>\<^bold>\<open>C39\<close>
  A retry timer that is running when the device is opened by another message is not stopped. When it
  expires the device is opened a second time and the first descriptor is lost: nothing the thread does
  later closes it (\<open>open\<close> does not return a descriptor that is in use).\<close>

theorem late_retry_leaks:
  assumes "one_fd s" "scom_spifd s < 0" "scom_heart_count s < 10" "0 \<le> fd1" "0 \<le> fd2" "fd1 \<noteq> fd2"
  shows "\<exists>s1. scom_main [Ready (scom_msg_in PM_MSG_RUNNING (-1)), Ready (scom_msg_in PM_MSG_RUNNING fd1),
      Ready (scom_msg_in SCOM_MSG_ID_TIMER_OPEN fd2)] s = Some s1 \<and>
    sc_opened s1 = [fd1, fd2] \<and> scom_spifd s1 = fd2 \<and>
    (\<forall>es s2. scom_main es s1 = Some s2 \<and> fd1 \<notin> opens es \<longrightarrow> fd1 \<in> set (sc_opened s2) \<and> scom_dev_fd s2 \<noteq> fd1)"
proof -
  let ?es = "[Ready (scom_msg_in PM_MSG_RUNNING (-1)), Ready (scom_msg_in PM_MSG_RUNNING fd1), Ready (scom_msg_in SCOM_MSG_ID_TIMER_OPEN fd2)]"
  have "\<exists>s1. scom_main ?es s = Some s1 \<and> sc_opened s1 = [fd1, fd2] \<and> scom_spifd s1 = fd2 \<and> leaked fd1 s1"
    using assms by (simp add: scom_msg_in_def scom_ready_def scom_msg_def scom_msg_ids scom_wake_def scom_emit_def one_fd_def
        scom_open_or_retry_def scom_dev_open_def scom_restart_def SCOM_OPEN_FAILED_def Let_def leaked_def)
  then obtain s1 where s1: "scom_main ?es s = Some s1" "sc_opened s1 = [fd1, fd2]" "scom_spifd s1 = fd2" "leaked fd1 s1" by blast
  have "fd1 \<in> set (sc_opened s2) \<and> scom_dev_fd s2 \<noteq> fd1" if "scom_main es s1 = Some s2" "fd1 \<notin> opens es" for es s2
    using leaked_main [OF that(1) s1(4) that(2)] by (simp add: leaked_def)
  then show ?thesis using s1 by blast
qed

theorem late_retry_leaks_witness:
  "\<exists>s1. scom_main [Ready (scom_msg_in PM_MSG_RUNNING (-1)), Ready (scom_msg_in PM_MSG_RUNNING 5),
      Ready (scom_msg_in SCOM_MSG_ID_TIMER_OPEN 6)] (scom_bench (-1) 0) = Some s1 \<and> sc_opened s1 = [5, 6]"
  using late_retry_leaks [of "scom_bench (-1) 0" 5 6] scom_bench_one(1) by (auto simp: scom_bench_def)

section \<open>Sleep and the heartbeat\<close>

interpretation scom_votes: sleep_voter scom_sleep_available "\<lambda>s. scom_is_ready_sleep s \<noteq> 1"
proof unfold_locales
  fix s :: scom assume "scom_is_ready_sleep s \<noteq> 1"
  then have "uint (scom_is_ready_sleep s) \<noteq> 1" by (metis uint_1 word_uint_eq_iff)
  then show "scom_sleep_available PM_MSG_SLEEP s \<noteq> 1" "scom_sleep_available PM_MSG_OFF s \<noteq> 1"
    by (simp_all add: scom_sleep_available_def)
qed

text \<open>The device is closed and the module has agreed to sleep.\<close>

definition parked_link :: "scom \<Rightarrow> bool" where
  "parked_link s \<longleftrightarrow> scom_spifd s < 0 \<and> sc_opened s = [] \<and> scom_is_ready_sleep s = 1"

definition beats :: "scom_sel list \<Rightarrow> nat" where
  "beats es = length (filter (\<lambda>e. \<exists>inp. e = Ready inp \<and> in_msg inp = Some SCOM_MSG_ID_TIMER_HEARTER) es)"

definition wakes :: "scom_sel \<Rightarrow> bool" where
  "wakes e \<longleftrightarrow> (\<exists>inp. e = Ready inp \<and> in_msg inp \<in> {Some PM_MSG_RUNNING, Some PM_MSG_EMERGENCY})"

lemma parked_msg:
  assumes "scom_msg inp m s = Some s'" "parked_link s" "m \<noteq> PM_MSG_RUNNING" "m \<noteq> PM_MSG_EMERGENCY"
  shows "parked_link s' \<and> scom_heart_count s' = scom_heart_count s + (if m = SCOM_MSG_ID_TIMER_HEARTER then 1 else 0)"
proof (cases "m = SCOM_MSG_ID_TIMER_HEARTER")
  case True
  then show ?thesis
    using assms by (auto simp: scom_msg_def scom_msg_ids parked_link_def port_def dest!: effects_port)
next
  case False
  then show ?thesis
    using assms by (auto simp: scom_msg_def parked_link_def port_def scom_emit_def split: if_splits dest!: effects_port timeout_shape)
qed

lemma parked_ready:
  assumes "scom_ready inp s = Some s'" "parked_link s" "\<not> wakes (Ready inp)"
  shows "parked_link s' \<and> scom_heart_count s' \<le> scom_heart_count s + beats [Ready inp]"
proof -
  obtain s1 where s1: "port s1 = port s" "scom_heart_count s1 \<le> scom_heart_count s"
    "(case in_msg inp of None \<Rightarrow> s1 = s' | Some m \<Rightarrow> scom_msg inp m s1 = Some s')"
    using ready_split [OF assms(1)] by auto
  have "parked_link s1" using assms(2) s1(1) by (simp add: parked_link_def port_def)
  then show ?thesis using s1(2,3) assms(3) parked_msg [of inp _ s1 s'] by (fastforce simp: wakes_def beats_def split: option.splits)
qed

lemma beats_Cons: "beats (e # es) = beats [e] + beats es"
  by (simp add: beats_def)

lemma parked_main:
  "scom_main es s = Some s' \<Longrightarrow> parked_link s \<Longrightarrow> scom_heart_count s + beats es < 10 \<Longrightarrow> \<forall>e \<in> set es. \<not> wakes e \<Longrightarrow> parked_link s'"
proof (induction es arbitrary: s)
  case (Cons e es)
  have r: "scom_restart fd s = s" for fd using Cons.prems(3) by (simp add: scom_restart_def)
  show ?case
  proof (cases e)
    case (Ready inp)
    obtain s1 where s1: "scom_ready inp s = Some s1" "scom_main es s1 = Some s'"
      using Cons.prems(1) Ready by (auto simp: r bind_eq_Some_conv)
    have p: "parked_link s1 \<and> scom_heart_count s1 \<le> scom_heart_count s + beats [e]"
      using parked_ready [OF s1(1) Cons.prems(2)] Cons.prems(4) Ready by auto
    show ?thesis
      using Cons.IH [OF s1(2)] p Cons.prems(3,4) beats_Cons [of e es] by auto
  qed (use Cons in \<open>auto simp: r beats_def\<close>)
qed simp

text \<open>Once the link has closed its device and agreed to sleep it stays closed, and the agreement stands, through
  every message but those that announce running or emergency, for as long as fewer than ten heartbeats pass:
  neither a retry timer nor a second order to sleep opens it.\<close>

theorem link_stays_closed:
  assumes "scom_main es s = Some s'" "scom_spifd s < 0" "sc_opened s = []" "scom_is_ready_sleep s = 1"
    "scom_heart_count s + beats es < 10" "\<forall>e \<in> set es. \<not> wakes e"
  shows "scom_spifd s' < 0 \<and> sc_opened s' = [] \<and> scom_sleep_available PM_MSG_SLEEP s' = 1"
proof -
  have "parked_link s'" using parked_main [OF assms(1) _ assms(5,6)] assms(2-4) by (simp add: parked_link_def)
  then show ?thesis by (simp add: parked_link_def scom_sleep_available_def)
qed

theorem link_stays_closed_witness:
  "\<exists>s'. scom_main [Ready (scom_msg_in SCOM_MSG_ID_TIMER_OPEN 5), Idle 4, Ready (scom_msg_in PM_MSG_SLEEP 5)] (scom_bench (-1) 1) = Some s' \<and>
    scom_spifd s' < 0"
proof -
  let ?es = "[Ready (scom_msg_in SCOM_MSG_ID_TIMER_OPEN 5), Idle 4, Ready (scom_msg_in PM_MSG_SLEEP 5)]"
  have "\<exists>s'. scom_main ?es (scom_bench (-1) 1) = Some s'"
    by (simp add: scom_msg_in_def scom_bench_def scom_ready_def scom_msg_def scom_msg_ids scom_restart_def)
  then obtain s' where s': "scom_main ?es (scom_bench (-1) 1) = Some s'" by blast
  show ?thesis
    using link_stays_closed [OF s'] s' by (simp add: scom_bench_def beats_def scom_msg_in_def wakes_def scom_msg_ids)
qed

text \<open>A heartbeat when the peer is silent.\<close>

definition beat_in :: "scom_in \<Rightarrow> bool" where
  "beat_in inp \<longleftrightarrow> in_spi inp = None \<and> in_msg inp = Some SCOM_MSG_ID_TIMER_HEARTER"

lemma beat_ready:
  assumes "beat_in inp" "length (scom_version s) \<le> 32"
  shows "\<exists>es. scom_ready inp s = Some (s\<lparr>scom_heart_count := scom_heart_count s + 1, sc_eff := es\<rparr>)"
proof -
  have "length (opt_bytes (Some (le32 (in_food inp) @ scom_version s))) \<le> SCOM_TL_FRAME_LEN"
    using assms(2) by (simp add: SCOM_TL_FRAME_LEN_def)
  then show ?thesis
    using assms(1) scom_tl_send_msg_fits by (simp add: beat_in_def scom_ready_def scom_msg_def scom_msg_ids scom_effects_def) blast
qed

lemma beats_run:
  "length (scom_version s) \<le> 32 \<Longrightarrow> scom_heart_count s + length inps \<le> 10 \<Longrightarrow> \<forall>inp \<in> set inps. beat_in inp \<Longrightarrow>
   \<exists>es. scom_main (map Ready inps) s = Some (s\<lparr>scom_heart_count := scom_heart_count s + length inps, sc_eff := es\<rparr>)"
proof (induction inps arbitrary: s)
  case (Cons inp inps)
  have r: "scom_restart fd s = s" for fd using Cons.prems(2) by (simp add: scom_restart_def)
  obtain es where e: "scom_ready inp s = Some (s\<lparr>scom_heart_count := scom_heart_count s + 1, sc_eff := es\<rparr>)"
    using beat_ready [of inp s] Cons.prems by auto
  show ?case
    using Cons.IH [of "s\<lparr>scom_heart_count := scom_heart_count s + 1, sc_eff := es\<rparr>"] Cons.prems by (simp add: r e)
next
  case Nil
  then show ?case by (intro exI [of _ "sc_eff s"]) simp
qed

lemma scom_main_append:
  "\<forall>e \<in> set es. \<forall>fd. e \<noteq> Failed fd \<Longrightarrow> scom_main (es @ fs) s = do { s1 \<leftarrow> scom_main es s; scom_main fs s1 }"
proof (induction es arbitrary: s)
  case (Cons e es)
  show ?case
  proof (cases e)
    case (Ready inp)
    then show ?thesis using Cons by (cases "scom_ready inp (scom_restart (in_fd1 inp) s)") auto
  qed (use Cons in auto)
qed simp

text \<open>\<^bold>\<open>C29\<close>
  When ten heartbeats have passed without a byte from the MCU, the next turn of the loop closes the device
  and opens it again, or starts the retry timer if that fails. The loop does not ask whether the module has
  agreed to sleep: a link that was closed for sleep is opened, while the module still votes for sleep.\<close>

theorem silent_link_reopened:
  assumes "one_fd s" "length (scom_version s) \<le> 32" "\<forall>inp \<in> set inps. beat_in inp" "scom_heart_count s + length inps = 10"
  shows "\<exists>s'. scom_main (map Ready inps @ [Idle fd]) s = Some s' \<and> scom_heart_count s' = 0 \<and>
    (if 0 \<le> fd then scom_spifd s' = fd \<and> sc_opened s' = [fd]
     else scom_spifd s' = -1 \<and> sc_opened s' = [] \<and> last (sc_eff s') = TimerStart OpenTimer SCOM_OPEN_INTERVAL False) \<and>
    (\<forall>i. scom_sleep_available i s' = scom_sleep_available i s)"
proof -
  obtain es where run: "scom_main (map Ready inps) s = Some (s\<lparr>scom_heart_count := 10, sc_eff := es\<rparr>)"
    using beats_run [OF assms(2) _ assms(3)] assms(4) by auto
  have "scom_main (map Ready inps @ [Idle fd]) s = Some (scom_restart fd (s\<lparr>scom_heart_count := 10, sc_eff := es\<rparr>))"
    using scom_main_append [of "map Ready inps" "[Idle fd]" s] run by auto
  then show ?thesis
    using assms(1) by (auto simp: scom_restart_def scom_open_or_retry_def scom_dev_open_def scom_dev_close_def one_fd_def
        scom_emit_def SCOM_OPEN_FAILED_def Let_def scom_sleep_available_def)
qed

theorem silent_link_reopened_witness:
  "\<exists>s'. scom_main (map Ready (replicate 10 (scom_msg_in SCOM_MSG_ID_TIMER_HEARTER 0)) @ [Idle 5]) (scom_bench (-1) 1) = Some s' \<and>
    sc_opened s' = [5] \<and> scom_sleep_available PM_MSG_SLEEP s' = 1"
proof -
  have "scom_sleep_available PM_MSG_SLEEP (scom_bench (-1) 1) = 1" "scom_heart_count (scom_bench (-1) 1) = 0"
    "length (scom_version (scom_bench (-1) 1)) = 32" "beat_in (scom_msg_in SCOM_MSG_ID_TIMER_HEARTER 0)"
    by (simp_all add: scom_bench_def scom_sleep_available_def beat_in_def scom_msg_in_def)
  then show ?thesis
    using silent_link_reopened [of "scom_bench (-1) 1" "replicate 10 (scom_msg_in SCOM_MSG_ID_TIMER_HEARTER 0)" 5] scom_bench_one(1)
    by auto
qed

section \<open>Asleep with the link closed\<close>

text \<open>No turn of the loop finds ten heartbeats unanswered while the module agrees to sleep.\<close>

fun heard_in_time :: "scom_sel list \<Rightarrow> scom \<Rightarrow> bool" where
  "heard_in_time [] s = True"
| "heard_in_time (e # es) s =
     ((scom_is_ready_sleep s = 1 \<longrightarrow> scom_heart_count s < 10) \<and>
      (case scom_main [e] s of None \<Rightarrow> True | Some s1 \<Rightarrow> heard_in_time es s1))"

definition closed_if_ready :: "scom \<Rightarrow> bool" where
  "closed_if_ready s \<longleftrightarrow> (scom_is_ready_sleep s = 1 \<longrightarrow> scom_spifd s < 0)"

lemma open_or_retry_flag: "scom_is_ready_sleep (scom_open_or_retry fd s) = scom_is_ready_sleep s"
  by (simp add: scom_open_or_retry_def scom_dev_open_def scom_emit_def Let_def)

lemma closed_restart:
  "closed_if_ready s \<Longrightarrow> scom_is_ready_sleep s = 1 \<longrightarrow> scom_heart_count s < 10 \<Longrightarrow> closed_if_ready (scom_restart fd s)"
  by (auto simp: closed_if_ready_def scom_restart_def open_or_retry_flag scom_dev_close_def)

lemma closed_msg: "scom_msg inp m s = Some s' \<Longrightarrow> closed_if_ready s \<Longrightarrow> closed_if_ready s'"
  by (auto simp: scom_msg_def closed_if_ready_def scom_wake_def Let_def open_or_retry_flag scom_emit_def port_def
      split: if_splits dest!: effects_port timeout_shape)

lemma closed_ready:
  assumes "scom_ready inp s = Some s'" "closed_if_ready s"
  shows "closed_if_ready s'"
proof -
  obtain s1 where s1: "port s1 = port s" "(case in_msg inp of None \<Rightarrow> s1 = s' | Some m \<Rightarrow> scom_msg inp m s1 = Some s')"
    using ready_split [OF assms(1)] by auto
  have "closed_if_ready s1" using s1(1) assms(2) by (simp add: closed_if_ready_def port_def)
  then show ?thesis using s1(2) closed_msg by (auto split: option.splits)
qed

lemma closed_main: "scom_main es s = Some s' \<Longrightarrow> closed_if_ready s \<Longrightarrow> heard_in_time es s \<Longrightarrow> closed_if_ready s'"
proof (induction es s rule: scom_main.induct)
  case (2 inp es s)
  then show ?case using closed_restart [of s "in_fd1 inp"] closed_ready by (fastforce simp: bind_eq_Some_conv)
qed (auto simp: closed_restart)

text \<open>\<^bold>\<open>C6\<close>
  With the link's handler registered at power management the box goes to sleep only with the link's device
  closed and no descriptor of it left open, whatever the thread and power management did before, provided
  that no retry was late and that no turn found ten heartbeats unanswered after the agreement to sleep.\<close>

theorem sleeps_with_link_closed:
  assumes "scom_main es s = Some s'" "one_fd s" "scom_is_ready_sleep s = 0" "no_late_retry es s" "heard_in_time es s"
    "pm_reach p" "pm_step env p p'" "pm_state p \<noteq> PM_ST_SLEEP" "pm_state p' = PM_ST_SLEEP" "registered h p"
    "env_handler env h PM_MSG_SLEEP = scom_sleep_available PM_MSG_SLEEP s'"
  shows "scom_spifd s' = -1 \<and> sc_opened s' = []"
proof -
  have "scom_is_ready_sleep s' = 1" using scom_votes.sleeps_when_idle [OF assms(6-11)] by simp
  moreover have "closed_if_ready s'" using closed_main [OF assms(1) _ assms(5)] assms(3) by (simp add: closed_if_ready_def)
  ultimately show ?thesis using one_fd_main [OF assms(1,2,4)] by (auto simp: closed_if_ready_def one_fd_def)
qed

text \<open>The status table after the MCU asked for sleep.\<close>

definition st_asleep :: st where
  "st_asleep = st_after_set st_bench_env ST_ITEM_PM_MODE [3] st_bench_reg"

lemma st_asleep_mode: "st_get ST_ITEM_PM_MODE True 1 st_asleep = Some (0, [3], 1)"
proof -
  have "st_ok st_asleep" "st_val st_asleep 12 = Some [3]"
    using st_bench_reg_ok st_after_ok [of st_bench_reg 12 "[3]" st_bench_env] st_after_val [of st_bench_reg 12 "[3]" 12 st_bench_env]
    by (simp_all add: st_asleep_def st_ids st_lens_def)
  then show ?thesis by (simp add: st_get_eq st_ids st_lens_def)
qed

lemma st_asleep_closes:
  "scom_timeout_proc st_asleep s =
   Some ((if 0 \<le> scom_spifd s then (scom_dev_close s)\<lparr>scom_spifd := -1\<rparr> else s)\<lparr>scom_is_ready_sleep := 1\<rparr>)"
  unfolding scom_timeout_proc_def st_asleep_mode by simp

theorem sleeps_with_link_closed_witness:
  "\<exists>s' p p'. scom_main [Ready ((scom_msg_in SCOM_MSG_ID_TIMER_CLOSE_SPI 0)\<lparr>in_status := st_asleep\<rparr>)] (scom_bench 5 0) = Some s' \<and>
    pm_reach p \<and> pm_step idle_env p p' \<and> pm_state p = PM_ST_MCK_SLEEP \<and> pm_state p' = PM_ST_SLEEP \<and> sc_opened s' = []"
proof -
  let ?es = "[Ready ((scom_msg_in SCOM_MSG_ID_TIMER_CLOSE_SPI 0)\<lparr>in_status := st_asleep\<rparr>)]"
  let ?p = "bench_in PM_ST_MCK_SLEEP PM_MSG_SLEEP PM_EVT_SLEEP_REQ"
  obtain s' where s': "scom_main ?es (scom_bench 5 0) = Some s'" "scom_is_ready_sleep s' = 1"
    by (simp add: scom_msg_in_def scom_bench_def scom_ready_def scom_msg_def scom_msg_ids scom_restart_def
        st_asleep_closes scom_dev_close_def)
  have "no_late_retry ?es (scom_bench 5 0)" "heard_in_time ?es (scom_bench 5 0)"
    by (simp_all add: scom_msg_in_def scom_msg_ids Let_def scom_bench_def scom_restart_def del: scom_main.simps split: option.split)
  moreover have "registered 0 ?p" by (simp add: registered_def bench_in_def enter_emits) (simp add: pm_emit_def bench_table)
  moreover have "env_handler idle_env 0 PM_MSG_SLEEP = scom_sleep_available PM_MSG_SLEEP s'"
    using s'(2) by (simp add: idle_env_def scom_sleep_available_def)
  moreover have "pm_state ?p = PM_ST_MCK_SLEEP" by (simp add: bench_in_fields)
  moreover have "scom_is_ready_sleep (scom_bench 5 0) = 0" by (simp add: scom_bench_def)
  ultimately show ?thesis
    using sleeps_with_link_closed [OF s'(1) scom_bench_one(2) _ _ _ bench_falls_asleep _ asleep_state, of 0] s'(1)
      bench_falls_asleep asleep_state
    by (intro exI [of _ s'] exI [of _ ?p] exI conjI) (auto simp only: PM_STATE.distinct order_refl zero_le_numeral)
qed

end
