(* ===== verification/Pwdg.thy ===== *)
theory Pwdg
  imports ScomProps
begin

text \<open>
  The software watchdog, \<open>src/mid/pwdg/pwdg.c\<close>: the link thread asks every module for a sign of life, each
  answer sets the bit of the module, and the next heartbeat to the MCU carries the word and clears it.
\<close>

section \<open>Definitions\<close>

definition mid_filter_table :: "u16 list" where
  "mid_filter_table = [0x0100, 0x0700, 0x0b00, 0x1000, 0x1200, 0x1300]"

definition pwdg_clear :: u32 where
  "pwdg_clear = fold (\<lambda>m food. food OR push_bit (nat (mid_to_index m)) 1) mid_filter_table (push_bit MPU_APP_MID_COUNT (- 1))"

text \<open>The results of creating and starting the timer are given.\<close>

definition pwdg_init :: "int \<Rightarrow> int \<Rightarrow> int \<times> u32" where
  "pwdg_init create start = (if create \<noteq> 0 then create else if start \<noteq> 0 then start else 0, pwdg_clear)"

definition MPU_MIN_MID :: u16 where "MPU_MIN_MID = 0x0100"

definition pwdg_feed :: "u16 \<Rightarrow> u32 \<Rightarrow> u32" where
  "pwdg_feed mid food =
     (if mid < MPU_MIN_MID \<or> MPU_MAX_MID < mid then food else food OR push_bit (nat (mid_to_index mid)) 1)"

definition pwdg_food :: "u32 \<Rightarrow> u32 \<times> u32" where
  "pwdg_food food = (food, pwdg_clear)"

definition index_to_mid :: "nat \<Rightarrow> u16" where
  "index_to_mid i = push_bit 8 (word_of_nat (i + 1)) AND MAIN_MID_MASK"

definition pwdg_ask :: "u16 \<Rightarrow> u16 \<Rightarrow> TCOM_MSG_HEADER" where
  "pwdg_ask mid receiver = \<lparr>msg_sender = mid, msg_receiver = receiver, msg_msgid = MPU_MID_MID_PWDG, msg_msglen = 0\<rparr>"

text \<open>\<open>wr i\<close> is the result of the write to the pipe for module \<open>i\<close>.\<close>

fun pwdg_timeout_loop :: "(nat \<Rightarrow> int) \<Rightarrow> u16 \<Rightarrow> nat list \<Rightarrow> tcom \<Rightarrow> (int \<times> tcom) option" where
  "pwdg_timeout_loop wr mid [] tc = Some (0, tc)"
| "pwdg_timeout_loop wr mid (i # is) tc =
     (if index_to_mid i \<in> set mid_filter_table then pwdg_timeout_loop wr mid is tc
      else do {
        (ret, tc1) \<leftarrow> tcom_send_msg tc (Some (pwdg_ask mid (index_to_mid i))) None (wr i);
        if ret \<noteq> 0 then Some (ret, tc1) else pwdg_timeout_loop wr mid is tc1 })"

definition pwdg_timeout :: "(nat \<Rightarrow> int) \<Rightarrow> u16 \<Rightarrow> tcom \<Rightarrow> (int \<times> tcom) option" where
  "pwdg_timeout wr mid tc = pwdg_timeout_loop wr mid [0..<MPU_APP_MID_COUNT] tc"

section \<open>The word of signs of life\<close>

text \<open>The modules that are not asked: they count as alive.\<close>

definition unwatched :: "nat set" where
  "unwatched = {0, 6, 10, 15, 17, 18}"

lemma filter_indices: "map (\<lambda>m. nat (mid_to_index m)) mid_filter_table = [0, 6, 10, 15, 17, 18]"
  by (simp add: mid_filter_table_def mid_to_index_no mid_no_def)

lemma bit_fold_or:
  "bit (fold (\<lambda>m food. food OR push_bit (f m) 1) ms w) i \<longleftrightarrow> bit w i \<or> i < 32 \<and> i \<in> f ` set ms" for w :: u32
  by (induction ms arbitrary: w) (auto simp: bit_simps)

lemma bit_clear: "bit pwdg_clear i \<longleftrightarrow> i < 32 \<and> (20 \<le> i \<or> i \<in> unwatched)"
proof -
  have "(\<lambda>m. nat (mid_to_index m)) ` set mid_filter_table = unwatched"
    using arg_cong [OF filter_indices, of set] by (simp add: unwatched_def)
  moreover have "bit (push_bit 20 (- 1 :: u32)) i \<longleftrightarrow> 20 \<le> i \<and> i < 32"
    by (auto simp: bit_simps)
  ultimately show ?thesis unfolding pwdg_clear_def bit_fold_or MPU_APP_MID_COUNT_def by (auto simp: unwatched_def)
qed

definition fed :: "u16 list \<Rightarrow> nat \<Rightarrow> bool" where
  "fed ms i \<longleftrightarrow> (\<exists>m \<in> set ms. MPU_MIN_MID \<le> m \<and> m \<le> MPU_MAX_MID \<and> mid_to_index m = int i)"

lemma valid_mid_index:
  assumes "MPU_MIN_MID \<le> m" "m \<le> MPU_MAX_MID"
  shows "0 \<le> mid_to_index m \<and> mid_to_index m < 20"
proof -
  have "256 \<le> unat m" "unat m \<le> 5120" using assms by (simp_all add: MPU_MIN_MID_def MPU_MAX_MID_def word_le_nat_alt)
  then have "1 \<le> mid_no m" "mid_no m \<le> 20" by (simp_all add: mid_no_def)
  then show ?thesis by (simp add: mid_to_index_no)
qed

lemma bit_feed:
  "bit (pwdg_feed m w) i \<longleftrightarrow> bit w i \<or> MPU_MIN_MID \<le> m \<and> m \<le> MPU_MAX_MID \<and> mid_to_index m = int i"
  using valid_mid_index [of m] by (auto simp: pwdg_feed_def bit_simps not_less)

lemma bit_feeds: "bit (fold pwdg_feed ms w) i \<longleftrightarrow> bit w i \<or> fed ms i"
  by (induction ms arbitrary: w) (auto simp: bit_feed fed_def)

text \<open>The word is all ones when every module that is watched was fed.\<close>

definition all_alive :: "u16 list \<Rightarrow> bool" where
  "all_alive ms \<longleftrightarrow> (\<forall>i < MPU_APP_MID_COUNT. i \<notin> unwatched \<longrightarrow> fed ms i)"

lemma all_ones: "fold pwdg_feed ms pwdg_clear = -1 \<longleftrightarrow> all_alive ms"
proof -
  have "fold pwdg_feed ms pwdg_clear = -1 \<longleftrightarrow> (\<forall>i < 32. bit (fold pwdg_feed ms pwdg_clear) i)"
    by (auto simp: bit_eq_iff bit_simps)
  also have "\<dots> \<longleftrightarrow> all_alive ms"
    (is "?l \<longleftrightarrow> ?r")
  proof
    assume ?l
    then have l: "20 \<le> i \<or> i \<in> unwatched \<or> fed ms i" if "i < 32" for i using that by (auto simp: bit_feeds bit_clear)
    show ?r
      unfolding all_alive_def MPU_APP_MID_COUNT_def
    proof (intro allI impI)
      fix i :: nat assume i: "i < 20" "i \<notin> unwatched"
      then have "i < 32" by simp
      then show "fed ms i" using l [of i] i by auto
    qed
  next
    assume ?r
    then show ?l unfolding bit_feeds bit_clear all_alive_def MPU_APP_MID_COUNT_def by (metis not_le)
  qed
  finally show ?thesis .
qed

lemma le32_ones: "le32 w = [255, 255, 255, 255] \<longleftrightarrow> w = -1"
proof
  assume "le32 w = [255, 255, 255, 255]"
  moreover have "(255 :: byte) = -1" by simp
  ultimately have b: "(ucast w :: byte) = -1" "(ucast (drop_bit 8 w) :: byte) = -1" "(ucast (drop_bit 16 w) :: byte) = -1"
    "(ucast (drop_bit 24 w) :: byte) = -1"
    unfolding le32_def by (metis list.inject)+
  show "w = -1"
  proof (rule bit_word_eqI)
    fix n assume n: "n < LENGTH(32)"
    consider "n < 8" | "8 \<le> n" "n < 16" | "16 \<le> n" "n < 24" | "24 \<le> n" "n < 32" using n by fastforce
    then show "bit w n = bit (-1 :: u32) n"
    proof cases
      case 1
      then show ?thesis using arg_cong [OF b(1), of "\<lambda>x. bit x n"] by (simp add: bit_simps)
    next
      case 2
      then show ?thesis using arg_cong [OF b(2), of "\<lambda>x. bit x (n - 8)"] by (simp add: bit_simps less_diff_conv2)
    next
      case 3
      then have "n - 16 < 8" by simp
      then show ?thesis using 3 arg_cong [OF b(3), of "\<lambda>x. bit x (n - 16)"] by (simp add: bit_simps)
    next
      case 4
      then have "n - 24 < 8" by simp
      then show ?thesis using 4 arg_cong [OF b(4), of "\<lambda>x. bit x (n - 24)"] by (simp add: bit_simps)
    qed
  qed
next
  have "le32 (-1) = [255, 255, 255, 255]" by code_simp
  then show "w = -1 \<Longrightarrow> le32 w = [255, 255, 255, 255]" by simp
qed

section \<open>Asking and telling\<close>

lemma index_to_mid_valid: "\<forall>i \<in> set [0..<20]. hdr_valid (pwdg_ask MPU_MID_SCOM (index_to_mid i))"
  by code_simp

lemma index_to_mid_filter: "\<forall>i \<in> set [0..<20]. index_to_mid i \<in> set mid_filter_table \<longleftrightarrow> i \<in> unwatched"
  unfolding unwatched_def by code_simp

lemma ask_sent:
  assumes "i < 20" "length tc = 20"
  shows "tcom_send_msg tc (Some (pwdg_ask MPU_MID_SCOM (index_to_mid i))) None w =
    Some (w, if w = 0 then tc[6 := (tc ! 6)\<lparr>tc_pipe := tc_pipe (tc ! 6) @ [pwdg_ask MPU_MID_SCOM (index_to_mid i)]\<rparr>] else tc)"
proof -
  have "hdr_valid (pwdg_ask MPU_MID_SCOM (index_to_mid i))" using index_to_mid_valid assms(1) by simp
  then have "tcom_send_msg tc (Some (pwdg_ask MPU_MID_SCOM (index_to_mid i))) None w =
      tcom_forward tc (pwdg_ask MPU_MID_SCOM (index_to_mid i)) MPU_MID_TCOM [] w"
    by (auto simp: tcom_send_msg_def hdr_valid_def not_less pwdg_ask_def)
  then show ?thesis using assms(2) by (simp add: tcom_forward_def tcom_index pwdg_ask_def Let_def)
qed

lemma timeout_loop:
  "\<forall>i \<in> set is. i < 20 \<Longrightarrow> length tc = 20 \<Longrightarrow>
   \<exists>ret. pwdg_timeout_loop wr MPU_MID_SCOM is tc = Some (ret, tc[6 := (tc ! 6)\<lparr>tc_pipe := tc_pipe (tc ! 6) @
       map (\<lambda>i. pwdg_ask MPU_MID_SCOM (index_to_mid i)) (takeWhile (\<lambda>i. wr i = 0) (filter (\<lambda>i. i \<notin> unwatched) is))\<rparr>]) \<and>
     (ret = 0 \<longleftrightarrow> (\<forall>i \<in> set is. i \<notin> unwatched \<longrightarrow> wr i = 0))"
proof (induction "is" arbitrary: tc)
  case (Cons i "is")
  have f: "index_to_mid i \<in> set mid_filter_table \<longleftrightarrow> i \<in> unwatched" using index_to_mid_filter Cons.prems(1) by simp
  show ?case
  proof (cases "i \<in> unwatched \<or> wr i \<noteq> 0")
    case True
    then show ?thesis using Cons f by (auto simp: ask_sent)
  next
    case False
    let ?tc = "tc[6 := (tc ! 6)\<lparr>tc_pipe := tc_pipe (tc ! 6) @ [pwdg_ask MPU_MID_SCOM (index_to_mid i)]\<rparr>]"
    obtain ret where "pwdg_timeout_loop wr MPU_MID_SCOM is ?tc = Some (ret, ?tc[6 := (?tc ! 6)\<lparr>tc_pipe := tc_pipe (?tc ! 6) @
        map (\<lambda>i. pwdg_ask MPU_MID_SCOM (index_to_mid i)) (takeWhile (\<lambda>i. wr i = 0) (filter (\<lambda>i. i \<notin> unwatched) is))\<rparr>])"
      "ret = 0 \<longleftrightarrow> (\<forall>i \<in> set is. i \<notin> unwatched \<longrightarrow> wr i = 0)"
      using Cons.IH [of ?tc] Cons.prems by auto
    then show ?thesis using False f Cons.prems by (simp add: ask_sent)
  qed
qed simp

text \<open>When the watchdog's timer expires an empty message goes to each of the fourteen modules that are watched,
  in the order of their numbers; the first write that fails ends the round, so the modules behind it are
  not asked and cannot answer.\<close>

theorem watchdog_asks:
  assumes "length tc = 20"
  shows "\<exists>ret. pwdg_timeout wr MPU_MID_SCOM tc = Some (ret, tc[6 := (tc ! 6)\<lparr>tc_pipe := tc_pipe (tc ! 6) @
       map (\<lambda>i. pwdg_ask MPU_MID_SCOM (index_to_mid i))
         (takeWhile (\<lambda>i. wr i = 0) [1, 2, 3, 4, 5, 7, 8, 9, 11, 12, 13, 14, 16, 19])\<rparr>]) \<and>
     (ret = 0 \<longleftrightarrow> (\<forall>i \<in> {1, 2, 3, 4, 5, 7, 8, 9, 11, 12, 13, 14, 16, 19}. wr i = 0))"
proof -
  have w: "filter (\<lambda>i. i \<notin> unwatched) [0..<20] = [1, 2, 3, 4, 5, 7, 8, 9, 11, 12, 13, 14, 16, 19]"
    by (simp add: unwatched_def upt_rec)
  have "(\<forall>i \<in> set [0..<20]. i \<notin> unwatched \<longrightarrow> wr i = 0) \<longleftrightarrow> (\<forall>i \<in> set (filter (\<lambda>i. i \<notin> unwatched) [0..<20]). wr i = 0)"
    by auto
  then have "(\<forall>i \<in> set [0..<20]. i \<notin> unwatched \<longrightarrow> wr i = 0) \<longleftrightarrow> (\<forall>i \<in> {1, 2, 3, 4, 5, 7, 8, 9, 11, 12, 13, 14, 16, 19}. wr i = 0)"
    unfolding w by simp
  then show ?thesis
    using timeout_loop [of "[0..<20]" tc wr] assms w by (simp add: pwdg_timeout_def MPU_APP_MID_COUNT_def)
qed

theorem watchdog_asks_witness:
  "\<exists>ret. pwdg_timeout (\<lambda>i. if i = 3 then -1 else 0) MPU_MID_SCOM (sys_tc sys_init) = Some (ret,
     (sys_tc sys_init)[6 := (sys_tc sys_init ! 6)\<lparr>tc_pipe := map (\<lambda>i. pwdg_ask MPU_MID_SCOM (index_to_mid i)) [1, 2]\<rparr>]) \<and> ret \<noteq> 0"
  using watchdog_asks [of "sys_tc sys_init" "\<lambda>i. if i = 3 then -1 else 0"]
  by (simp add: sys_init_def MPU_APP_MID_COUNT_def)

text \<open>\<^bold>\<open>C25\<close>
  The heartbeat tells the MCU who is alive: its first four bytes are the signs of life since the heartbeat
  before, and they are all ones if and only if every watched module has given one.\<close>

theorem heartbeat_tells_alive:
  assumes "scom_tl_tx_fun (scom_link s)" "length (scom_version s) \<le> 32"
    "pwdg_food food0 = (sent, food1)" "pwdg_food (fold pwdg_feed ms food1) = (in_food inp, food2)"
  shows "\<exists>s' bytes. scom_msg inp SCOM_MSG_ID_TIMER_HEARTER s = Some s' \<and> length bytes = 4 \<and>
    sc_eff s' = sc_eff s @ [Link (Tx (tl_frame SCOM_TL_CMD_HEARTBEAT SCOM_TL_SINGLE_FRAME 0 (bytes @ scom_version s)))] \<and>
    (\<forall>i < 20. bit (in_food inp) i \<longleftrightarrow> i \<in> unwatched \<or> fed ms i) \<and> (bytes = [255, 255, 255, 255] \<longleftrightarrow> all_alive ms)"
proof -
  have f: "in_food inp = fold pwdg_feed ms pwdg_clear" using assms(3,4) by (simp add: pwdg_food_def)
  have "length (opt_bytes (Some (le32 (in_food inp) @ scom_version s))) \<le> SCOM_TL_FRAME_LEN"
    using assms(2) by (simp add: SCOM_TL_FRAME_LEN_def)
  note send = scom_tl_send_msg_fits [OF this, of SCOM_TL_CMD_HEARTBEAT "scom_link s"]
  have b: "\<forall>i < 20. bit (in_food inp) i \<longleftrightarrow> i \<in> unwatched \<or> fed ms i" by (auto simp: f bit_feeds bit_clear)
  show ?thesis
    using send assms(1) b le32_ones all_ones
    by (intro exI [of _ "s\<lparr>scom_heart_count := scom_heart_count s + 1, sc_eff := sc_eff s @ [Link (Tx (tl_frame SCOM_TL_CMD_HEARTBEAT
        SCOM_TL_SINGLE_FRAME 0 (le32 (in_food inp) @ scom_version s)))]\<rparr>"] exI [of _ "le32 (in_food inp)"])
      (simp add: scom_msg_def scom_msg_ids scom_effects_def transmit_def f)
qed

theorem heartbeat_tells_alive_witness:
  "\<exists>s' bytes. scom_msg ((scom_msg_in SCOM_MSG_ID_TIMER_HEARTER 0)\<lparr>in_food := fold pwdg_feed [0x0200, 0x0300] pwdg_clear\<rparr>)
      SCOM_MSG_ID_TIMER_HEARTER ((scom_bench 5 0)\<lparr>scom_link := scom_tl_reg_tx_fun (scom_link (scom_bench 5 0))\<rparr>) = Some s' \<and>
    sc_eff s' = [Link (Tx (tl_frame SCOM_TL_CMD_HEARTBEAT SCOM_TL_SINGLE_FRAME 0 (bytes @ replicate 32 0)))] \<and>
    bytes \<noteq> [255, 255, 255, 255]"
proof -
  have "\<not> fed [0x0200, 0x0300] 3" by (simp add: fed_def mid_to_index_no mid_no_def)
  then have "\<not> all_alive [0x0200, 0x0300]" by (simp add: all_alive_def unwatched_def MPU_APP_MID_COUNT_def) (intro exI [of _ 3], simp)
  then show ?thesis
    using heartbeat_tells_alive [of "(scom_bench 5 0)\<lparr>scom_link := scom_tl_reg_tx_fun (scom_link (scom_bench 5 0))\<rparr>" 0 0 pwdg_clear
        "[0x0200, 0x0300]" "(scom_msg_in SCOM_MSG_ID_TIMER_HEARTER 0)\<lparr>in_food := fold pwdg_feed [0x0200, 0x0300] pwdg_clear\<rparr>" pwdg_clear]
    by (auto simp: pwdg_food_def scom_tl_reg_tx_fun_def scom_bench_def)
qed

end
