(* ===== verification/Can.thy ===== *)
theory Can
  imports GbProps Cfg
begin

text \<open>
  The thread of the vehicle bus, \<open>src/app/base/can/can_main.c\<close> with the baud rate of the second port of
  \<open>can_adp.c\<close>: it reads frames from the driver, cuts them at the time stamps, hands them to the registered
  callbacks, and tells them when the bus is active, silent, asleep and awake. \<open>can\<close> holds the statics and
  the state of the loop, \<open>cn_eff\<close> what happens outside. The parser of the description of the bus
  (\<open>can_dbc.c\<close>) is a parameter: what \<open>dbc_load_file\<close> returns and the baud rates it finds.
\<close>

section \<open>Data\<close>

definition CAN_MAX_CALLBACK :: nat where "CAN_MAX_CALLBACK = 16"
definition CAN_BUS_TIMEOUT :: nat where "CAN_BUS_TIMEOUT = 120000"
definition CAN_MAX_RAWSIZE :: nat where "CAN_MAX_RAWSIZE = 10"
definition CAN_MAX_PORT :: nat where "CAN_MAX_PORT = 5"
definition CAN_MAX_READ :: nat where "CAN_MAX_READ = 4096"

lemmas can_sizes = CAN_MAX_CALLBACK_def CAN_BUS_TIMEOUT_def CAN_MAX_RAWSIZE_def CAN_MAX_PORT_def CAN_MAX_READ_def

definition SCOM_TL_CHN_CAN :: byte where "SCOM_TL_CHN_CAN = 5"
definition SCOM_TL_CMD_CAN_BAUD :: byte where "SCOM_TL_CMD_CAN_BAUD = 0x50"
definition SCOM_TL_CMD_CAN_DEFAULT_BAUD :: byte where "SCOM_TL_CMD_CAN_DEFAULT_BAUD = 0x51"
definition SCOM_TL_CMD_CAN_AUTO_BAUD :: byte where "SCOM_TL_CMD_CAN_AUTO_BAUD = 0x53"
definition SCOM_TL_CMD_CAN_FILER_CANID :: byte where "SCOM_TL_CMD_CAN_FILER_CANID = 0x54"

lemmas can_cmds = SCOM_TL_CHN_CAN_def SCOM_TL_CMD_CAN_BAUD_def SCOM_TL_CMD_CAN_DEFAULT_BAUD_def SCOM_TL_CMD_CAN_AUTO_BAUD_def
  SCOM_TL_CMD_CAN_FILER_CANID_def

text \<open>The messages of the thread with the part of the union they carry; \<open>CAN_PM\<close> is one of power management.\<close>

datatype can_mail = CAN_MSG_TIMEOUT | CAN_MSG_TAGEMU | CAN_MSG_SETDBC "byte list" | CAN_MSG_SET_BAUD u16 u16
  | CAN_MSG_SET_DEFAULT_BAUD u16 u16 | CAN_MSG_STAT | CAN_MSG_SYNC_BAUD "u16 list" | CAN_MSG_SYNC_DEFAULT_BAUD "u16 list"
  | CAN_MSG_STOP | CAN_MSG_RUN | CAN_PM u32 | CAN_PWDG

text \<open>A frame is read with the time at which it was received.\<close>

record CAN_FRAME = CAN_MSG +
  can_uptime :: u32

text \<open>\<open>CanTold ev t\<close> is the call of every callback, the parser's first, with the time for \<open>CAN_EVENT_TIMEOUT\<close>.\<close>

datatype can_effect = CanTold can_event u32 | CanTimer bool | CanPost can_mail | CanSend byte "byte list" | CanFilter u16 "byte list" | CanFed

record can =
  cn_canfd :: int
  cn_sleep :: bool
  cn_active :: bool
  cn_rawpos :: "nat list"
  cn_rawmsg :: "CAN_FRAME list list"
  cn_uptime :: u32
  cn_stop :: bool
  can_cb_lst :: "nat list"
  can_baud :: "u16 list"
  can_default_baud :: "u16 list"
  can_sleep :: int
  can_basetime :: u32
  can_port_uptime :: "u32 list"
  can_sum :: u32
  auto_baud :: u16
  cn_cfg :: cfg
  cn_eff :: "can_effect list"

text \<open>
  One pass: the message if one was received, what \<open>open\<close> and \<open>read\<close> return, the time, the result of
  sending a message to the thread itself, the parser and the environment of the configuration.
\<close>

record can_env =
  ce_mail :: "can_mail option"
  ce_open :: int
  ce_frames :: "CAN_FRAME list"
  ce_now :: u32
  ce_sent :: int
  ce_dbc :: "byte list \<Rightarrow> int \<times> u16 list"
  ce_cfg :: cfg_env

definition zero_frame :: CAN_FRAME where
  "zero_frame = \<lparr>can_type = 0, can_len = 0, can_port = 0, MsgID = 0, can_data = replicate 8 0, can_uptime = 0\<rparr>"

definition no_rawmsg :: "CAN_FRAME list list" where
  "no_rawmsg = replicate CAN_MAX_PORT (replicate CAN_MAX_RAWSIZE zero_frame)"

definition can_emit :: "can_effect \<Rightarrow> can \<Rightarrow> can" where
  "can_emit e s = s\<lparr>cn_eff := cn_eff s @ [e]\<rparr>"

section \<open>Events of the bus\<close>

definition can_do_callback :: "can_event \<Rightarrow> u32 \<Rightarrow> can \<Rightarrow> can" where
  "can_do_callback event arg1 s = can_emit (CanTold event arg1) s"

definition can_do_timeout :: "can \<Rightarrow> can" where
  "can_do_timeout s =
     (let s1 = (if cn_active s then s\<lparr>cn_active := False, cn_rawmsg := no_rawmsg\<rparr> else s)
      in if \<not> cn_sleep s1 then can_do_callback CAN_EVENT_TIMEOUT (cn_uptime s1) s1 else s1)"

definition can_do_sleep :: "can \<Rightarrow> can" where
  "can_do_sleep s =
     (if \<not> cn_sleep s then
        let s1 = (if cn_active s then (can_emit (CanTimer False) s)\<lparr>cn_active := False, cn_rawmsg := no_rawmsg\<rparr> else s);
            s2 = (if 0 \<le> cn_canfd s1 then s1\<lparr>cn_canfd := -1\<rparr> else s1)
        in (can_do_callback CAN_EVENT_SLEEP 0 s2)\<lparr>cn_sleep := True, can_sleep := 1\<rparr>
      else s)"

definition can_do_wakeup :: "can \<Rightarrow> can" where
  "can_do_wakeup s =
     (if cn_sleep s then (can_do_callback CAN_EVENT_WAKEUP 0 s)\<lparr>cn_sleep := False, can_sleep := 0\<rparr> else s)"

section \<open>Frames\<close>

text \<open>Frames of type C from a port that exists are kept in the ring of the port; the result counts them.\<close>

fun can_putraw_loop :: "u32 \<Rightarrow> CAN_FRAME list \<Rightarrow> nat \<Rightarrow> can \<Rightarrow> (nat \<times> can) option" where
  "can_putraw_loop uptime [] rawcnt s = Some (rawcnt, s)"
| "can_putraw_loop uptime (msg # ms) rawcnt s =
     (if can_type msg \<noteq> 0x43 then can_putraw_loop uptime ms rawcnt s
      else if can_port msg < 1 \<or> word_of_nat CAN_MAX_PORT < can_port msg then can_putraw_loop uptime ms rawcnt s
      else do {
        let p = unat (can_port msg) - 1;
        pos \<leftarrow> byte_at (cn_rawpos s) p;
        ring \<leftarrow> byte_at (cn_rawmsg s) p;
        old \<leftarrow> byte_at ring pos;
        can_putraw_loop uptime ms (rawcnt + 1)
          (s\<lparr>cn_rawmsg := (cn_rawmsg s)[p := ring[pos := msg]], cn_rawpos := (cn_rawpos s)[p := (pos + 1) mod CAN_MAX_RAWSIZE],
             can_sum := can_sum s + 1, can_port_uptime := (can_port_uptime s)[p := uptime]\<rparr>) })"

definition can_putraw :: "u32 \<Rightarrow> CAN_FRAME list \<Rightarrow> can \<Rightarrow> (nat \<times> can) option" where
  "can_putraw now msglst s = can_putraw_loop now msglst 0 s"

definition frame_of :: "CAN_FRAME \<Rightarrow> CAN_MSG" where
  "frame_of f = CAN_MSG.truncate f"

text \<open>
  The loop over a block: \<open>part\<close> are the frames from \<open>first\<close> on. A frame of type T carries the time of day in its
  first four bytes and ends a part; with \<open>stop\<close> it is handed over alone.
\<close>

fun can_chunk_loop :: "CAN_FRAME list \<Rightarrow> CAN_FRAME list \<Rightarrow> can \<Rightarrow> CAN_FRAME list \<times> can" where
  "can_chunk_loop part [] s = (part, s)"
| "can_chunk_loop part (msg # ms) s =
     (if can_type msg = 0x54 then
        let s1 = s\<lparr>can_basetime := get_le32 (can_data msg), cn_uptime := can_uptime msg\<rparr>;
            s2 = can_do_callback (CAN_EVENT_DATAIN (map frame_of (if cn_stop s1 then [msg] else part @ [msg]))) 0 s1
        in can_chunk_loop [] ms s2
      else can_chunk_loop (part @ [msg]) ms s)"

definition can_note_active :: "u32 \<Rightarrow> CAN_FRAME list \<Rightarrow> can \<Rightarrow> can option" where
  "can_note_active now msglst s =
     (if cn_stop s then Some s
      else do {
        (rawcnt, s1) \<leftarrow> can_putraw now msglst s;
        Some (if 0 < rawcnt then
          let s2 = can_emit (CanTimer True) s1
          in if \<not> cn_active s2 then can_do_callback CAN_EVENT_ACTIVE 0 (s2\<lparr>cn_active := True\<rparr>) else s2
        else s1) })"

definition can_do_datain :: "u32 \<Rightarrow> CAN_FRAME list \<Rightarrow> can \<Rightarrow> can option" where
  "can_do_datain now msglst s = do {
     s1 \<leftarrow> can_note_active now msglst s;
     let (part, s2) = can_chunk_loop [] msglst s1;
     Some (if \<not> cn_stop s2 \<and> part \<noteq> []
           then can_do_callback (CAN_EVENT_DATAIN (map frame_of part)) 0 (s2\<lparr>cn_uptime := can_uptime (last part)\<rparr>)
           else s2) }"

definition can_do_receive :: "can_env \<Rightarrow> can \<Rightarrow> can option" where
  "can_do_receive env s =
     (let msglst = take CAN_MAX_READ (ce_frames env);
          read = (\<lambda>s. if msglst = [] then Some s else can_do_datain (ce_now env) msglst s)
      in if cn_canfd s < 0 then
           let s1 = s\<lparr>cn_canfd := ce_open env\<rparr>
           in if ce_open env < 0 then Some s1 else read (can_emit (CanTimer True) s1)
         else read s)"

section \<open>Baud rates\<close>

text \<open>Baud rates are \<open>short\<close>; -1 is a port that is not used. The thread is sent the request as a message.\<close>

definition can_set_baud :: "int \<Rightarrow> int \<Rightarrow> u16 \<Rightarrow> can \<Rightarrow> int \<times> can" where
  "can_set_baud sent port baud s =
     (if port < 0 \<or> int CAN_MAX_PORT \<le> port \<or> baud <s 0 then (-1, s)
      else if sent \<noteq> 0 then (-2, s) else (0, can_emit (CanPost (CAN_MSG_SET_BAUD (word_of_int port) baud)) s))"

definition can_set_default_baud :: "int \<Rightarrow> int \<Rightarrow> u16 \<Rightarrow> can \<Rightarrow> int \<times> can" where
  "can_set_default_baud sent port baud s =
     (if port < 0 \<or> int CAN_MAX_PORT \<le> port \<or> baud <s 0 then (-1, s)
      else if sent \<noteq> 0 then (-2, s) else (0, can_emit (CanPost (CAN_MSG_SET_DEFAULT_BAUD (word_of_int port) baud)) s))"

definition can_get_baud :: "int \<Rightarrow> can \<Rightarrow> u16 option" where
  "can_get_baud port s = (if port < 0 \<or> int CAN_MAX_PORT \<le> port then Some (-1) else byte_at (can_baud s) (nat port))"

definition can_get_uptime :: "int \<Rightarrow> can \<Rightarrow> u32 option" where
  "can_get_uptime port s = (if port < 0 \<or> int CAN_MAX_PORT \<le> port then Some 0 else byte_at (can_port_uptime s) (nat port))"

definition can_time_ready :: "can \<Rightarrow> bool" where
  "can_time_ready s \<longleftrightarrow> can_basetime s \<noteq> 0xffffffff"

definition can_baud_reset :: "can \<Rightarrow> can" where
  "can_baud_reset s = s\<lparr>can_default_baud := replicate CAN_MAX_PORT 0, can_baud := replicate CAN_MAX_PORT (-1)\<rparr>"

definition can_set_dbc :: "int \<Rightarrow> byte list \<Rightarrow> can \<Rightarrow> int \<times> can" where
  "can_set_dbc sent fpath s = (if sent \<noteq> 0 then (-2, s) else (0, can_emit (CanPost (CAN_MSG_SETDBC fpath)) s))"

definition can_register_callback :: "nat \<Rightarrow> can \<Rightarrow> int \<times> can" where
  "can_register_callback cb s =
     (if CAN_MAX_CALLBACK \<le> length (can_cb_lst s) then (-1, s) else (0, s\<lparr>can_cb_lst := can_cb_lst s @ [cb]\<rparr>))"

text \<open>The loop over the ports after a description was loaded; \<open>sent\<close> as above.\<close>

fun can_dbc_bauds :: "int \<Rightarrow> nat list \<Rightarrow> u16 list \<Rightarrow> can \<Rightarrow> can option" where
  "can_dbc_bauds sent [] baud s = Some s"
| "can_dbc_bauds sent (i # is) baud s = do {
     b \<leftarrow> byte_at baud i;
     let new = (if 0 \<le>s b then b else 0);
     let s1 = s\<lparr>can_baud := (can_baud s)[i := if 0 \<le>s b then b else -1]\<rparr>;
     d \<leftarrow> byte_at (can_default_baud s1) i;
     can_dbc_bauds sent is baud
       (if d \<noteq> new then snd (can_set_default_baud sent (int i) new (s1\<lparr>can_default_baud := (can_default_baud s1)[i := new]\<rparr>))
        else s1) }"

definition can_do_change_dbc :: "can_env \<Rightarrow> byte list \<Rightarrow> can \<Rightarrow> can option" where
  "can_do_change_dbc env fpath s =
     (let (ret, baud) = ce_dbc env fpath in if ret \<noteq> 0 then Some s else can_dbc_bauds (ce_sent env) [0..<CAN_MAX_PORT] baud s)"

section \<open>Messages of the MCU\<close>

definition shorts :: "u16 list \<Rightarrow> byte list" where
  "shorts ws = concat (map put_u16 ws)"

fun get_shorts :: "byte list \<Rightarrow> nat \<Rightarrow> nat \<Rightarrow> u16 list option" where
  "get_shorts msg off 0 = Some []"
| "get_shorts msg off (Suc n) = do { w \<leftarrow> get_u16 msg off; ws \<leftarrow> get_shorts msg (off + 2) n; Some (w # ws) }"

definition can_sync_autobaud_from_mcu :: "can_env \<Rightarrow> u16 \<Rightarrow> can \<Rightarrow> can option" where
  "can_sync_autobaud_from_mcu env baud s =
     (if auto_baud s \<noteq> baud then do {
        (ret, c) \<leftarrow> cfg_set_para (ce_cfg env) CFG_ITEM_CAN2_AUTO_BAUD (Some (put_u16 baud)) 2 (cn_cfg s);
        Some (s\<lparr>auto_baud := baud, cn_cfg := c\<rparr>) }
      else Some s)"

text \<open>\<open>msg\<close> are the bytes behind the pointer, \<open>len\<close> of them the message; the bodies are read without a look at \<open>len\<close>.\<close>

definition can_scom_msg_proc :: "can_env \<Rightarrow> byte list \<Rightarrow> nat \<Rightarrow> can \<Rightarrow> (int \<times> can) option" where
  "can_scom_msg_proc env msg len s =
     (if len < SCOM_TL_HDR_SIZE then Some (-1, s)
      else do {
        t \<leftarrow> byte_at msg 0;
        if drop_bit 4 (t AND 0xf0) \<noteq> SCOM_TL_CHN_CAN then Some (-1, s)
        else if t = SCOM_TL_CMD_CAN_BAUD then do {
          l \<leftarrow> get_shorts msg SCOM_TL_HDR_SIZE CAN_MAX_PORT; Some (0, can_emit (CanPost (CAN_MSG_SYNC_BAUD l)) s) }
        else if t = SCOM_TL_CMD_CAN_DEFAULT_BAUD then do {
          l \<leftarrow> get_shorts msg SCOM_TL_HDR_SIZE CAN_MAX_PORT; Some (0, can_emit (CanPost (CAN_MSG_SYNC_DEFAULT_BAUD l)) s) }
        else if t = SCOM_TL_CMD_CAN_AUTO_BAUD then do {
          w \<leftarrow> get_u16 msg SCOM_TL_HDR_SIZE; s1 \<leftarrow> can_sync_autobaud_from_mcu env w s; Some (0, s1) }
        else if t = SCOM_TL_CMD_CAN_FILER_CANID then do {
          fno \<leftarrow> get_u16 msg 2; Some (0, can_emit (CanFilter fno (drop SCOM_TL_HDR_SIZE msg)) s) }
        else Some (0, s) })"

section \<open>The thread\<close>

definition can_init_inside :: "can \<Rightarrow> can" where
  "can_init_inside s = s\<lparr>can_cb_lst := [], can_sleep := 0, can_basetime := 0xffffffff, can_baud := replicate CAN_MAX_PORT (-1)\<rparr>"

text \<open>A rate that cannot be read stays as it is. The result, an OR of those of the registrations, is left out.\<close>

definition can_init_baud :: "nat \<Rightarrow> u16 \<Rightarrow> cfg \<Rightarrow> u16 option" where
  "can_init_baud i old c = do {
     (ret, data, len) \<leftarrow> cfg_get_para i True 2 c;
     if ret = 0 then get_u16 data 0 else Some old }"

fun can_init_bauds :: "(nat \<times> u16) list \<Rightarrow> cfg \<Rightarrow> u16 list option" where
  "can_init_bauds [] c = Some []"
| "can_init_bauds ((i, old) # is) c = do { w \<leftarrow> can_init_baud i old c; ws \<leftarrow> can_init_bauds is c; Some (w # ws) }"

definition can_init_outside :: "can \<Rightarrow> can option" where
  "can_init_outside s = do {
     ws \<leftarrow> can_init_bauds (zip [CFG_ITEM_CAN_DEFAULT_BAUD_0, CFG_ITEM_CAN_DEFAULT_BAUD_1, CFG_ITEM_CAN_DEFAULT_BAUD_2,
       CFG_ITEM_CAN_DEFAULT_BAUD_3, CFG_ITEM_CAN_DEFAULT_BAUD_4] (can_default_baud s)) (cn_cfg s);
     w \<leftarrow> can_init_baud CFG_ITEM_CAN2_AUTO_BAUD (auto_baud s) (cn_cfg s);
     Some (s\<lparr>can_default_baud := ws, auto_baud := w\<rparr>) }"

definition can_main_init :: "can \<Rightarrow> can" where
  "can_main_init s = s\<lparr>cn_canfd := -1, cn_sleep := False, cn_active := False, cn_rawpos := replicate CAN_MAX_PORT 0,
     cn_rawmsg := no_rawmsg, cn_uptime := 0, cn_stop := False\<rparr>"

definition can_sleep_handler :: "u32 \<Rightarrow> can \<Rightarrow> int" where
  "can_sleep_handler i s = can_sleep s"

definition can_handle :: "can_env \<Rightarrow> can_mail \<Rightarrow> can \<Rightarrow> can option" where
  "can_handle env m s =
     (case m of
        CAN_MSG_SYNC_BAUD l \<Rightarrow>
          Some (if can_baud s \<noteq> l then can_emit (CanSend SCOM_TL_CMD_CAN_BAUD (shorts (can_baud s))) s else s)
      | CAN_MSG_SYNC_DEFAULT_BAUD l \<Rightarrow>
          Some (if can_default_baud s \<noteq> l then can_emit (CanSend SCOM_TL_CMD_CAN_DEFAULT_BAUD (shorts (can_default_baud s))) s else s)
      | CAN_MSG_SET_BAUD port baud \<Rightarrow> do {
          old \<leftarrow> byte_at (can_baud s) (unat port); Some (s\<lparr>can_baud := (can_baud s)[unat port := baud]\<rparr>) }
      | CAN_MSG_SET_DEFAULT_BAUD port baud \<Rightarrow> do {
          old \<leftarrow> byte_at (can_default_baud s) (unat port);
          (ret, c) \<leftarrow> cfg_set_para (ce_cfg env) (CFG_ITEM_CAN_DEFAULT_BAUD_0 + unat port) (Some (put_u16 baud)) 2 (cn_cfg s);
          Some (s\<lparr>can_default_baud := (can_default_baud s)[unat port := baud], cn_cfg := c\<rparr>) }
      | CAN_PM m \<Rightarrow>
          Some (if m = PM_MSG_SLEEP \<or> m = PM_MSG_EMERGENCY \<or> m = PM_MSG_OFF then can_do_sleep s
                else if m = PM_MSG_RUNNING then can_do_wakeup s else s)
      | CAN_MSG_TIMEOUT \<Rightarrow> Some (can_do_timeout s)
      | CAN_MSG_SETDBC path \<Rightarrow> can_do_change_dbc env path s
      | CAN_MSG_STAT \<Rightarrow> Some s
      | CAN_MSG_STOP \<Rightarrow> Some (s\<lparr>cn_stop := True\<rparr>)
      | CAN_MSG_RUN \<Rightarrow> Some (s\<lparr>cn_stop := False\<rparr>)
      | CAN_PWDG \<Rightarrow> Some (can_emit CanFed s)
      | CAN_MSG_TAGEMU \<Rightarrow> Some s)"

definition can_pass :: "can_env \<Rightarrow> can \<Rightarrow> can option" where
  "can_pass env s = do {
     s1 \<leftarrow> (case ce_mail env of None \<Rightarrow> Some s | Some m \<Rightarrow> can_handle env m s);
     if \<not> cn_sleep s1 then can_do_receive env s1 else Some s1 }"

fun can_main :: "can_env list \<Rightarrow> can \<Rightarrow> can option" where
  "can_main [] s = Some s"
| "can_main (e # es) s = do { s1 \<leftarrow> can_pass e s; can_main es s1 }"

end
