(* ===== verification/CanProps.thy ===== *)
theory CanProps
  imports Can CfgProps
begin

text \<open>
  Every frame that is read reaches the callbacks once and in order, cut at the time stamps; the events they
  are told follow one state machine; and the system sleeps only when the bus thread is asleep, its device
  closed and the callbacks told.
\<close>

section \<open>Parts of a block\<close>

definition is_stamp :: "CAN_MSG \<Rightarrow> bool" where
  "is_stamp m \<longleftrightarrow> can_type m = 0x54"

lemma can_type_frame_of [simp]: "can_type (frame_of f) = can_type f"
  by (simp add: frame_of_def CAN_MSG.truncate_def)

text \<open>The frames told in a log, in the order of the calls.\<close>

fun told_parts :: "can_effect list \<Rightarrow> CAN_MSG list list" where
  "told_parts [] = []"
| "told_parts (CanTold (CAN_EVENT_DATAIN ms) t # es) = ms # told_parts es"
| "told_parts (e # es) = told_parts es"

lemma told_parts_append [simp]: "told_parts (es @ fs) = told_parts es @ told_parts fs"
  by (induction es rule: told_parts.induct) auto

text \<open>A part is not empty and only its last frame can be a time stamp.\<close>

definition part_ok :: "CAN_MSG list \<Rightarrow> bool" where
  "part_ok p \<longleftrightarrow> p \<noteq> [] \<and> (\<forall>m \<in> set (butlast p). \<not> is_stamp m)"

lemma chunk_loop:
  assumes "can_chunk_loop part ms s = (rest, s')" "\<forall>m \<in> set part. can_type m \<noteq> 0x54" "\<not> cn_stop s"
  shows "\<exists>ps. told_parts (cn_eff s') = told_parts (cn_eff s) @ ps \<and> concat ps @ map frame_of rest = map frame_of (part @ ms) \<and>
    (\<forall>p \<in> set ps. part_ok p) \<and> (\<forall>m \<in> set rest. can_type m \<noteq> 0x54) \<and> \<not> cn_stop s'"
  using assms
proof (induction part ms s arbitrary: rest s' rule: can_chunk_loop.induct)
  case (2 part msg ms s)
  show ?case
  proof (cases "can_type msg = 0x54")
    case True
    let ?s2 = "can_do_callback (CAN_EVENT_DATAIN (map frame_of (part @ [msg]))) 0
      (s\<lparr>can_basetime := get_le32 (can_data msg), cn_uptime := can_uptime msg\<rparr>)"
    have r: "can_chunk_loop [] ms ?s2 = (rest, s')" using 2(3,5) True by (simp add: Let_def)
    have st: "\<not> cn_stop ?s2" using 2(5) by (simp add: can_do_callback_def can_emit_def)
    obtain ps where ps: "told_parts (cn_eff s') = told_parts (cn_eff ?s2) @ ps" "concat ps @ map frame_of rest = map frame_of ms"
      "\<forall>p \<in> set ps. part_ok p" "\<forall>m \<in> set rest. can_type m \<noteq> 0x54" "\<not> cn_stop s'"
      using 2(1) [OF True refl refl, of rest s'] r st 2(5) True by (auto simp: Let_def)
    have "part_ok (map frame_of (part @ [msg]))" using 2(4) by (auto simp: part_ok_def is_stamp_def)
    then show ?thesis
      using ps by (intro exI [of _ "map frame_of (part @ [msg]) # ps"]) (simp add: can_do_callback_def can_emit_def)
  next
    case False
    then show ?thesis using 2(2) [OF False, of rest s'] 2(3-5) by auto
  qed
qed (auto simp: part_ok_def)

lemma putraw_keeps:
  "can_putraw_loop t ms n s = Some (n', s') \<Longrightarrow> cn_eff s' = cn_eff s \<and> cn_stop s' = cn_stop s \<and> cn_active s' = cn_active s \<and>
     cn_sleep s' = cn_sleep s \<and> cn_canfd s' = cn_canfd s \<and> can_sleep s' = can_sleep s \<and> can_cb_lst s' = can_cb_lst s"
proof (induction t ms n s rule: can_putraw_loop.induct)
  case (2 t m ms n s)
  then show ?case by (auto simp: Let_def bind_eq_Some_conv split: if_splits)
qed auto

section \<open>The events as a state machine\<close>

datatype bus = Silent | Active | Asleep

fun bus_next :: "bus \<Rightarrow> can_event \<Rightarrow> bus option" where
  "bus_next Silent CAN_EVENT_ACTIVE = Some Active"
| "bus_next Silent CAN_EVENT_TIMEOUT = Some Silent"
| "bus_next Silent CAN_EVENT_SLEEP = Some Asleep"
| "bus_next Silent (CAN_EVENT_DATAIN ms) = Some Silent"
| "bus_next Active CAN_EVENT_TIMEOUT = Some Silent"
| "bus_next Active CAN_EVENT_SLEEP = Some Asleep"
| "bus_next Active (CAN_EVENT_DATAIN ms) = Some Active"
| "bus_next Asleep CAN_EVENT_WAKEUP = Some Silent"
| "bus_next b e = None"

fun bus_run :: "bus \<Rightarrow> can_event list \<Rightarrow> bus option" where
  "bus_run b [] = Some b"
| "bus_run b (e # es) = do { b1 \<leftarrow> bus_next b e; bus_run b1 es }"

lemma bus_run_append [simp]: "bus_run b (es @ fs) = do { b1 \<leftarrow> bus_run b es; bus_run b1 fs }"
proof (induction es arbitrary: b)
  case (Cons e es)
  then show ?case by (cases "bus_next b e") auto
qed simp

fun can_events :: "can_effect list \<Rightarrow> can_event list" where
  "can_events [] = []"
| "can_events (CanTold ev t # es) = ev # can_events es"
| "can_events (e # es) = can_events es"

lemma can_events_append [simp]: "can_events (es @ fs) = can_events es @ can_events fs"
  by (induction es rule: can_events.induct) auto

definition bus_of :: "can \<Rightarrow> bus" where
  "bus_of s = (if cn_sleep s then Asleep else if cn_active s then Active else Silent)"

definition bus_ok :: "can \<Rightarrow> bool" where
  "bus_ok s \<longleftrightarrow> bus_run Silent (can_events (cn_eff s)) = Some (bus_of s) \<and> (cn_sleep s \<longrightarrow> cn_canfd s < 0 \<and> \<not> cn_active s) \<and>
     can_sleep s = (if cn_sleep s then 1 else 0)"

text \<open>The part of the state the machine depends on.\<close>

definition bus_part :: "can \<Rightarrow> can_event list \<times> bool \<times> bool \<times> int \<times> int" where
  "bus_part s = (can_events (cn_eff s), cn_sleep s, cn_active s, cn_canfd s, can_sleep s)"

lemma bus_ok_cong: "bus_part s = bus_part s' \<Longrightarrow> bus_ok s = bus_ok s'"
  by (simp add: bus_part_def bus_ok_def bus_of_def)

lemma emit_part [simp]:
  "bus_part (can_emit (CanTimer b) s) = bus_part s" "bus_part (can_emit (CanPost m) s) = bus_part s"
  "bus_part (can_emit (CanSend c d) s) = bus_part s" "bus_part (can_emit CanFed s) = bus_part s"
  by (simp_all add: bus_part_def can_emit_def)

lemma bus_timeout: "bus_ok s \<Longrightarrow> bus_ok (can_do_timeout s)"
  by (auto simp: bus_ok_def can_do_timeout_def can_do_callback_def can_emit_def bus_of_def Let_def)

lemma bus_sleep: "bus_ok s \<Longrightarrow> bus_ok (can_do_sleep s) \<and> cn_sleep (can_do_sleep s)"
  by (auto simp: bus_ok_def can_do_sleep_def can_do_callback_def can_emit_def bus_of_def Let_def)

lemma bus_wakeup: "bus_ok s \<Longrightarrow> bus_ok (can_do_wakeup s)"
  by (auto simp: bus_ok_def can_do_wakeup_def can_do_callback_def can_emit_def bus_of_def)

lemma bus_datain_told: "bus_ok s \<Longrightarrow> \<not> cn_sleep s \<Longrightarrow> bus_ok (can_do_callback (CAN_EVENT_DATAIN ms) t s)"
  by (auto simp: bus_ok_def can_do_callback_def can_emit_def bus_of_def)

lemma bus_chunk: "can_chunk_loop part ms s = (rest, s') \<Longrightarrow> bus_ok s \<Longrightarrow> \<not> cn_sleep s \<Longrightarrow> bus_ok s' \<and> \<not> cn_sleep s'"
proof (induction part ms s arbitrary: rest s' rule: can_chunk_loop.induct)
  case (2 part msg ms s)
  show ?case
  proof (cases "can_type msg = 0x54")
    case True
    let ?s1 = "s\<lparr>can_basetime := get_le32 (can_data msg), cn_uptime := can_uptime msg\<rparr>"
    have "bus_ok ?s1" using 2(4) bus_ok_cong [of ?s1 s] by (simp add: bus_part_def)
    then show ?thesis
      using 2(1) [OF True refl refl, of rest s'] 2(3,5) True bus_datain_told [of ?s1]
      by (simp add: Let_def) (simp add: can_do_callback_def can_emit_def)
  next
    case False
    then show ?thesis using 2(2) [OF False, of rest s'] 2(3-5) by auto
  qed
qed auto

lemma putraw_part: "can_putraw t ms s = Some (n, s') \<Longrightarrow> bus_part s' = bus_part s"
  using putraw_keeps by (auto simp: can_putraw_def bus_part_def)

lemma bus_activate: "bus_ok s \<Longrightarrow> \<not> cn_sleep s \<Longrightarrow> \<not> cn_active s \<Longrightarrow>
   bus_ok (can_do_callback CAN_EVENT_ACTIVE t (s\<lparr>cn_active := True\<rparr>)) \<and> \<not> cn_sleep (can_do_callback CAN_EVENT_ACTIVE t (s\<lparr>cn_active := True\<rparr>))"
  by (auto simp: bus_ok_def can_do_callback_def can_emit_def bus_of_def)

lemma bus_note:
  assumes "can_note_active t ms s = Some s1" "bus_ok s" "\<not> cn_sleep s"
  shows "bus_ok s1 \<and> \<not> cn_sleep s1"
proof (cases "cn_stop s")
  case False
  then obtain n s2 where p: "can_putraw t ms s = Some (n, s2)" using assms(1) by (auto simp: can_note_active_def bind_eq_Some_conv)
  let ?s3 = "can_emit (CanTimer True) s2"
  have b: "bus_ok s2" "\<not> cn_sleep s2" using putraw_part [OF p] assms(2,3) bus_ok_cong [of s2 s] by (auto simp: bus_part_def)
  have b3: "bus_ok ?s3" using b bus_ok_cong [of ?s3 s2] by simp
  moreover have "\<not> cn_sleep ?s3" using b by (simp add: can_emit_def)
  ultimately show ?thesis
    using assms(1) False p b bus_activate [of ?s3] by (auto simp: can_note_active_def Let_def split: if_splits)
qed (use assms in \<open>auto simp: can_note_active_def\<close>)

lemma datain_split:
  assumes "can_do_datain t ms s = Some s'"
  shows "\<exists>s1 part s2. can_note_active t ms s = Some s1 \<and> can_chunk_loop [] ms s1 = (part, s2) \<and>
    s' = (if \<not> cn_stop s2 \<and> part \<noteq> []
           then can_do_callback (CAN_EVENT_DATAIN (map frame_of part)) 0 (s2\<lparr>cn_uptime := can_uptime (last part)\<rparr>) else s2)"
proof -
  obtain s1 where s1: "can_note_active t ms s = Some s1" using assms by (auto simp: can_do_datain_def bind_eq_Some_conv)
  obtain part s2 where c: "can_chunk_loop [] ms s1 = (part, s2)" by fastforce
  show ?thesis
    by (intro exI [of _ s1] exI [of _ part] exI [of _ s2] conjI s1 c) (use assms in \<open>simp add: can_do_datain_def s1 c\<close>)
qed

lemma bus_datain:
  assumes "can_do_datain t ms s = Some s'" "bus_ok s" "\<not> cn_sleep s"
  shows "bus_ok s' \<and> \<not> cn_sleep s'"
proof -
  obtain s1 part s2 where s1: "can_note_active t ms s = Some s1" and c: "can_chunk_loop [] ms s1 = (part, s2)"
    and r: "s' = (if \<not> cn_stop s2 \<and> part \<noteq> []
           then can_do_callback (CAN_EVENT_DATAIN (map frame_of part)) 0 (s2\<lparr>cn_uptime := can_uptime (last part)\<rparr>) else s2)"
    using datain_split [OF assms(1)] by blast
  have b2: "bus_ok s2" "\<not> cn_sleep s2" using bus_chunk [OF c] bus_note [OF s1 assms(2,3)] by auto
  let ?s3 = "s2\<lparr>cn_uptime := can_uptime (last part)\<rparr>"
  have "bus_ok ?s3" "\<not> cn_sleep ?s3" using b2 bus_ok_cong [of ?s3 s2] by (auto simp: bus_part_def)
  then show ?thesis using r b2 bus_datain_told [of ?s3] by (auto simp: can_do_callback_def can_emit_def)
qed

lemma bus_receive:
  assumes "can_do_receive env s = Some s'" "bus_ok s" "\<not> cn_sleep s"
  shows "bus_ok s' \<and> \<not> cn_sleep s'"
proof -
  let ?s1 = "s\<lparr>cn_canfd := ce_open env\<rparr>"
  have o: "bus_ok ?s1" using assms(2,3) by (simp add: bus_ok_def bus_of_def)
  then have t: "bus_ok (can_emit (CanTimer True) ?s1)" using bus_ok_cong [of "can_emit (CanTimer True) ?s1" ?s1] by simp
  show ?thesis
    using assms o t bus_datain
    by (auto simp: can_do_receive_def Let_def can_emit_def split: if_splits)
qed

section \<open>Every pass returns\<close>

definition can_shape :: "can \<Rightarrow> bool" where
  "can_shape s \<longleftrightarrow> length (cn_rawpos s) = 5 \<and> (\<forall>p < 5. cn_rawpos s ! p < 10) \<and> length (cn_rawmsg s) = 5 \<and>
     (\<forall>p < 5. length (cn_rawmsg s ! p) = 10) \<and> length (can_baud s) = 5 \<and> length (can_default_baud s) = 5 \<and>
     length (can_port_uptime s) = 5 \<and> cfg_ok (cn_cfg s)"

text \<open>The ports in the messages of the thread are those \<open>can_set_baud\<close> accepts; a description has a rate for each port.\<close>

fun mail_ok :: "can_mail \<Rightarrow> bool" where
  "mail_ok (CAN_MSG_SET_BAUD port baud) = (unat port < CAN_MAX_PORT)"
| "mail_ok (CAN_MSG_SET_DEFAULT_BAUD port baud) = (unat port < CAN_MAX_PORT)"
| "mail_ok m = True"

definition can_env_ok :: "can_env \<Rightarrow> bool" where
  "can_env_ok env \<longleftrightarrow> (\<forall>m. ce_mail env = Some m \<longrightarrow> mail_ok m) \<and> (\<forall>path. length (snd (ce_dbc env path)) = CAN_MAX_PORT)"

lemma set_baud_mail: "can_set_baud sent port baud s = (0, s') \<Longrightarrow> \<exists>m. s' = can_emit (CanPost m) s \<and> mail_ok m"
  by (cases port) (auto simp: can_set_baud_def can_sizes unat_of_nat split: if_splits intro!: exI)

lemma shape_no_rawmsg: "length no_rawmsg = 5" "\<forall>p < 5. length (no_rawmsg ! p) = 10"
  by (simp_all add: no_rawmsg_def can_sizes)

lemma shape_emit [simp]: "can_shape (can_emit e s) = can_shape s"
  by (simp add: can_shape_def can_emit_def)

lemma putraw_total:
  "can_shape s \<Longrightarrow> \<exists>n' s'. can_putraw_loop t ms n s = Some (n', s') \<and> can_shape s'"
proof (induction ms arbitrary: n s)
  case (Cons m ms)
  show ?case
  proof (cases "can_type m \<noteq> 0x43 \<or> can_port m < 1 \<or> word_of_nat CAN_MAX_PORT < can_port m")
    case True
    then show ?thesis using Cons by auto
  next
    case False
    then have "can_port m \<le> 5" "can_port m \<noteq> 0" by (auto simp: can_sizes not_less)
    then have "unat (can_port m) \<le> 5" "unat (can_port m) \<noteq> 0" by (simp_all add: word_le_nat_alt unat_eq_0)
    then have p: "unat (can_port m) - 1 < 5" by linarith
    have l: "unat (can_port m) - 1 < length (cn_rawpos s)" "unat (can_port m) - 1 < length (cn_rawmsg s)"
      "cn_rawpos s ! (unat (can_port m) - 1) < length (cn_rawmsg s ! (unat (can_port m) - 1))"
      using Cons.prems p by (auto simp: can_shape_def)
    have sh: "can_shape (s\<lparr>cn_rawmsg := (cn_rawmsg s)[unat (can_port m) - 1 := (cn_rawmsg s ! (unat (can_port m) - 1))[cn_rawpos s ! (unat (can_port m) - 1) := m]],
        cn_rawpos := (cn_rawpos s)[unat (can_port m) - 1 := (cn_rawpos s ! (unat (can_port m) - 1) + 1) mod CAN_MAX_RAWSIZE],
        can_sum := can_sum s + 1, can_port_uptime := (can_port_uptime s)[unat (can_port m) - 1 := t]\<rparr>)"
      using Cons.prems l by (simp add: can_shape_def can_sizes nth_list_update)
    show ?thesis using False l Cons.IH [OF sh, of "n + 1"] by (simp add: Let_def)
  qed
qed auto

lemma shape_callback [simp]: "can_shape (can_do_callback ev t s) = can_shape s"
  by (simp add: can_do_callback_def)

lemma shape_fields [simp]:
  "can_shape (s\<lparr>cn_active := b\<rparr>) = can_shape s" "can_shape (s\<lparr>cn_sleep := b\<rparr>) = can_shape s" "can_shape (s\<lparr>can_sleep := i\<rparr>) = can_shape s"
  "can_shape (s\<lparr>cn_canfd := i\<rparr>) = can_shape s" "can_shape (s\<lparr>cn_uptime := w\<rparr>) = can_shape s" "can_shape (s\<lparr>cn_stop := b\<rparr>) = can_shape s"
  "can_shape (s\<lparr>can_basetime := w\<rparr>) = can_shape s"
  by (simp_all add: can_shape_def)

lemma shape_chunk: "can_chunk_loop part ms s = (rest, s') \<Longrightarrow> can_shape s \<Longrightarrow> can_shape s'"
  by (induction part ms s arbitrary: rest s' rule: can_chunk_loop.induct) (auto simp: Let_def split: if_splits)

lemma note_total: "can_shape s \<Longrightarrow> \<exists>s1. can_note_active t ms s = Some s1 \<and> can_shape s1"
  using putraw_total [of s t ms 0] by (auto simp: can_note_active_def can_putraw_def Let_def)

lemma datain_total:
  assumes "can_shape s"
  shows "\<exists>s'. can_do_datain t ms s = Some s' \<and> can_shape s'"
proof -
  obtain s1 where s1: "can_note_active t ms s = Some s1" "can_shape s1" using note_total [OF assms] by blast
  obtain part s2 where c: "can_chunk_loop [] ms s1 = (part, s2)" by fastforce
  show ?thesis using s1(1) c shape_chunk [OF c s1(2)] by (simp add: can_do_datain_def)
qed

lemma receive_total: "can_shape s \<Longrightarrow> \<exists>s'. can_do_receive env s = Some s' \<and> can_shape s'"
  using datain_total by (simp add: can_do_receive_def Let_def)

lemma shape_events: "can_shape s \<Longrightarrow> can_shape (can_do_timeout s) \<and> can_shape (can_do_sleep s) \<and> can_shape (can_do_wakeup s)"
proof -
  assume s: "can_shape s"
  then have "can_shape (s\<lparr>cn_active := False, cn_rawmsg := no_rawmsg\<rparr>)"
    "can_shape ((can_emit (CanTimer False) s)\<lparr>cn_active := False, cn_rawmsg := no_rawmsg\<rparr>)"
    using shape_no_rawmsg by (simp_all add: can_shape_def can_emit_def)
  then show ?thesis using s by (simp add: can_do_timeout_def can_do_sleep_def can_do_wakeup_def Let_def)
qed

lemma set_default_baud_keeps:
  "can_shape (snd (can_set_default_baud sent port w s)) = can_shape s"
  "bus_part (snd (can_set_default_baud sent port w s)) = bus_part s"
  by (simp_all add: can_set_default_baud_def)

lemma dbc_bauds_total:
  "can_shape s \<Longrightarrow> length baud = 5 \<Longrightarrow> \<forall>i \<in> set is. i < 5 \<Longrightarrow>
   \<exists>s'. can_dbc_bauds sent is baud s = Some s' \<and> can_shape s' \<and> (bus_ok s \<longrightarrow> bus_ok s')"
proof (induction "is" arbitrary: s)
  case (Cons i "is")
  let ?new = "if 0 \<le>s baud ! i then baud ! i else 0"
  let ?s1 = "s\<lparr>can_baud := (can_baud s)[i := if 0 \<le>s baud ! i then baud ! i else -1]\<rparr>"
  let ?s2 = "?s1\<lparr>can_default_baud := (can_default_baud ?s1)[i := ?new]\<rparr>"
  let ?s3 = "if can_default_baud ?s1 ! i \<noteq> ?new then snd (can_set_default_baud sent (int i) ?new ?s2) else ?s1"
  have i: "i < length baud" "i < length (can_default_baud ?s1)" using Cons.prems by (auto simp: can_shape_def)
  have step: "can_dbc_bauds sent (i # is) baud s = can_dbc_bauds sent is baud ?s3"
    using i by (simp only: can_dbc_bauds.simps byte_at_in_bounds bind.simps Let_def)
  have sh: "can_shape ?s1" "can_shape ?s2" using Cons.prems(1) by (simp_all add: can_shape_def)
  have "can_shape ?s3" by (simp only: set_default_baud_keeps(1) sh split: if_split) simp
  moreover have "bus_part ?s3 = bus_part s"
    by (simp only: set_default_baud_keeps(2) split: if_split) (simp add: bus_part_def)
  ultimately show ?case unfolding step using Cons.IH [of ?s3] Cons.prems(2,3) bus_ok_cong [of ?s3 s] by auto
qed auto

lemma cfg_default_lens: "p < 5 \<Longrightarrow> CFG_ITEM_CAN_DEFAULT_BAUD_0 + p < 74 \<and> cfg_lens ! (CFG_ITEM_CAN_DEFAULT_BAUD_0 + p) = 2"
proof -
  have "\<forall>p \<in> set [0..<5]. CFG_ITEM_CAN_DEFAULT_BAUD_0 + p < 74 \<and> cfg_lens ! (CFG_ITEM_CAN_DEFAULT_BAUD_0 + p) = 2"
    by (simp add: cfg_ids cfg_lens_def upt_rec)
  then show "p < 5 \<Longrightarrow> ?thesis" by simp
qed

lemma set_default_cfg:
  assumes "cfg_ok c" "p < 5"
  shows "cfg_set_para env (CFG_ITEM_CAN_DEFAULT_BAUD_0 + p) (Some (put_u16 w)) 2 c =
    Some (0, cfg_after_set env (CFG_ITEM_CAN_DEFAULT_BAUD_0 + p) (put_u16 w) False c) \<and>
    cfg_ok (cfg_after_set env (CFG_ITEM_CAN_DEFAULT_BAUD_0 + p) (put_u16 w) False c)"
proof -
  note d = cfg_default_lens [OF assms(2)]
  have "cfg_lens ! (CFG_ITEM_CAN_DEFAULT_BAUD_0 + p) \<le> length (put_u16 w)" using d by simp
  then show ?thesis
    using cfg_set_eq [OF assms(1), of "CFG_ITEM_CAN_DEFAULT_BAUD_0 + p" "put_u16 w" env False]
      cfg_after_ok [OF assms(1), of "CFG_ITEM_CAN_DEFAULT_BAUD_0 + p" "put_u16 w" env False] d
    by (simp add: cfg_set_para_def)
qed

text \<open>Each message leaves the shape and the machine in order; a message that does not move the machine keeps its part.\<close>

lemma handle_total:
  assumes "can_shape s" "mail_ok m" "can_env_ok env"
  shows "\<exists>s'. can_handle env m s = Some s' \<and> can_shape s' \<and> (bus_ok s \<longrightarrow> bus_ok s')"
proof (cases m)
  case (CAN_MSG_SETDBC path)
  obtain ret baud where b: "ce_dbc env path = (ret, baud)" by fastforce
  then have "length baud = 5" using assms(3) by (metis can_env_ok_def can_sizes(4) snd_conv)
  then show ?thesis
    using CAN_MSG_SETDBC b assms(1) dbc_bauds_total [OF assms(1), of baud "[0..<CAN_MAX_PORT]" "ce_sent env"]
    by (simp add: can_handle_def can_do_change_dbc_def can_sizes)
next
  case (CAN_MSG_SET_BAUD port baud)
  let ?s = "s\<lparr>can_baud := (can_baud s)[unat port := baud]\<rparr>"
  have "bus_part ?s = bus_part s" by (simp add: bus_part_def)
  then show ?thesis using CAN_MSG_SET_BAUD assms bus_ok_cong [of ?s s] by (simp add: can_handle_def can_shape_def can_sizes)
next
  case (CAN_MSG_SET_DEFAULT_BAUD port baud)
  have p: "unat port < 5" using assms(2) CAN_MSG_SET_DEFAULT_BAUD by (simp add: can_sizes)
  have c: "cfg_ok (cn_cfg s)" using assms(1) by (simp add: can_shape_def)
  let ?s = "s\<lparr>can_default_baud := (can_default_baud s)[unat port := baud],
    cn_cfg := cfg_after_set (ce_cfg env) (CFG_ITEM_CAN_DEFAULT_BAUD_0 + unat port) (put_u16 baud) False (cn_cfg s)\<rparr>"
  have "bus_part ?s = bus_part s" by (simp add: bus_part_def)
  then show ?thesis
    using CAN_MSG_SET_DEFAULT_BAUD assms(1) p set_default_cfg [OF c p] bus_ok_cong [of ?s s]
    by (simp add: can_handle_def can_shape_def)
next
  case (CAN_PM i)
  then show ?thesis using assms(1) shape_events bus_sleep bus_wakeup by (simp add: can_handle_def)
next
  case CAN_MSG_TIMEOUT
  then show ?thesis using assms(1) shape_events bus_timeout by (simp add: can_handle_def)
next
  case (CAN_MSG_SYNC_BAUD l)
  then show ?thesis using assms(1) bus_ok_cong [of "can_emit (CanSend SCOM_TL_CMD_CAN_BAUD (shorts (can_baud s))) s" s]
    by (simp add: can_handle_def)
next
  case (CAN_MSG_SYNC_DEFAULT_BAUD l)
  then show ?thesis using assms(1) bus_ok_cong [of "can_emit (CanSend SCOM_TL_CMD_CAN_DEFAULT_BAUD (shorts (can_default_baud s))) s" s]
    by (simp add: can_handle_def)
next
  case CAN_PWDG
  then show ?thesis using assms(1) bus_ok_cong [of "can_emit CanFed s" s] by (simp add: can_handle_def)
next
  case CAN_MSG_STOP
  then show ?thesis using assms(1) bus_ok_cong [of "s\<lparr>cn_stop := True\<rparr>" s] by (simp add: can_handle_def) (simp add: bus_part_def)
next
  case CAN_MSG_RUN
  then show ?thesis using assms(1) bus_ok_cong [of "s\<lparr>cn_stop := False\<rparr>" s] by (simp add: can_handle_def) (simp add: bus_part_def)
qed (use assms in \<open>simp_all add: can_handle_def\<close>)

lemma pass_total:
  assumes "can_shape s" "can_env_ok env"
  shows "\<exists>s'. can_pass env s = Some s' \<and> can_shape s' \<and> (bus_ok s \<longrightarrow> bus_ok s')"
proof -
  obtain s1 where s1: "(case ce_mail env of None \<Rightarrow> Some s | Some m \<Rightarrow> can_handle env m s) = Some s1" "can_shape s1" "bus_ok s \<longrightarrow> bus_ok s1"
    using handle_total [OF assms(1) _ assms(2)] assms by (cases "ce_mail env") (auto simp: can_env_ok_def)
  obtain s2 where s2: "can_do_receive env s1 = Some s2" "can_shape s2" using receive_total [OF s1(2)] by blast
  have eq: "can_pass env s = (if \<not> cn_sleep s1 then can_do_receive env s1 else Some s1)"
    unfolding can_pass_def s1(1) by simp
  show ?thesis using s1 s2 bus_receive [OF s2(1)] by (cases "cn_sleep s1") (auto simp: eq)
qed

lemma main_total:
  "can_shape s \<Longrightarrow> \<forall>e \<in> set es. can_env_ok e \<Longrightarrow> \<exists>s'. can_main es s = Some s' \<and> can_shape s' \<and> (bus_ok s \<longrightarrow> bus_ok s')"
proof (induction es arbitrary: s)
  case (Cons e es)
  obtain s1 where s1: "can_pass e s = Some s1" "can_shape s1" "bus_ok s \<longrightarrow> bus_ok s1"
    using pass_total [of s e] Cons.prems by auto
  then show ?case using Cons.IH [OF s1(2)] Cons.prems by auto
qed simp

section \<open>Properties\<close>

text \<open>A bench: the thread after its start, the configuration laid out.\<close>

definition can_bench :: can where
  "can_bench = can_main_init (can_init_inside \<lparr>cn_canfd = 0, cn_sleep = False, cn_active = False, cn_rawpos = [], cn_rawmsg = [],
     cn_uptime = 0, cn_stop = False, can_cb_lst = [], can_baud = [], can_default_baud = replicate 5 0, can_sleep = 0,
     can_basetime = 0, can_port_uptime = replicate 5 0, can_sum = 0, auto_baud = 0, cn_cfg = bench_cfg bench_disk, cn_eff = []\<rparr>)"

definition can_bench_env :: "can_mail option \<Rightarrow> CAN_FRAME list \<Rightarrow> can_env" where
  "can_bench_env m fs = \<lparr>ce_mail = m, ce_open = 3, ce_frames = fs, ce_now = 0, ce_sent = 0, ce_dbc = (\<lambda>p. (0, replicate 5 0)),
     ce_cfg = bench_cfg_env\<rparr>"

lemma can_bench_shape: "can_shape can_bench" "bus_ok can_bench" "cn_eff can_bench = []"
  using bench_cfg_ok shape_no_rawmsg
  by (simp_all add: can_bench_def can_main_init_def can_init_inside_def can_shape_def bus_ok_def bus_of_def can_sizes)

lemma can_bench_env_ok: "can_env_ok (can_bench_env m fs) \<longleftrightarrow> (\<forall>x. m = Some x \<longrightarrow> mail_ok x)"
  by (simp add: can_env_ok_def can_bench_env_def can_sizes)

text \<open>\<^bold>\<open>C19\<close>
  The thread of the bus never leaves its arrays and its passes return, for any messages and frames, and
  the callbacks are told events in the order of one state machine: activity is announced once and frames
  of an active bus come after it, silence and sleep end it, and asleep only the wake-up is told. The
  machine's state is the state of the thread, whose device is closed while it sleeps.\<close>

theorem bus_events_machine:
  assumes "can_shape s" "cn_eff s = []" "\<not> cn_sleep s" "\<not> cn_active s" "can_sleep s = 0" "\<forall>e \<in> set es. can_env_ok e"
  shows "\<exists>s'. can_main es s = Some s' \<and>
    bus_run Silent (can_events (cn_eff s')) = Some (if cn_sleep s' then Asleep else if cn_active s' then Active else Silent) \<and>
    (cn_sleep s' \<longrightarrow> cn_canfd s' < 0 \<and> \<not> cn_active s') \<and> can_sleep_handler PM_MSG_SLEEP s' = (if cn_sleep s' then 1 else 0)"
proof -
  have "bus_ok s" using assms by (simp add: bus_ok_def bus_of_def)
  then obtain s' where "can_main es s = Some s'" "bus_ok s'" using main_total [OF assms(1,6)] by blast
  then show ?thesis by (auto simp: bus_ok_def bus_of_def can_sleep_handler_def)
qed

text \<open>A frame of data of port 1 and a time stamp.\<close>

definition data_frame :: CAN_FRAME where
  "data_frame = zero_frame\<lparr>can_type := 0x43, can_port := 1\<rparr>"

definition stamp_frame :: CAN_FRAME where
  "stamp_frame = zero_frame\<lparr>can_type := 0x54\<rparr>"

lemma bench_run: "\<exists>s'. can_main [can_bench_env None fs, can_bench_env (Some (CAN_PM PM_MSG_SLEEP)) []] can_bench = Some s' \<and> cn_sleep s'"
proof -
  have "can_env_ok (can_bench_env None fs)" by (simp add: can_bench_env_ok)
  then obtain s1 where s1: "can_pass (can_bench_env None fs) can_bench = Some s1" using pass_total [OF can_bench_shape(1)] by blast
  have "cn_sleep (can_do_sleep s1)" by (simp add: can_do_sleep_def Let_def)
  then have "can_pass (can_bench_env (Some (CAN_PM PM_MSG_SLEEP)) []) s1 = Some (can_do_sleep s1)"
    by (simp add: can_pass_def can_bench_env_def can_handle_def)
  then show ?thesis using s1 \<open>cn_sleep (can_do_sleep s1)\<close> by simp
qed

theorem bus_events_machine_witness:
  "\<exists>s'. can_main [can_bench_env None [data_frame, stamp_frame], can_bench_env (Some (CAN_PM PM_MSG_SLEEP)) []] can_bench = Some s' \<and>
    bus_run Silent (can_events (cn_eff s')) = Some Asleep \<and> cn_canfd s' < 0"
proof -
  let ?es = "[can_bench_env None [data_frame, stamp_frame], can_bench_env (Some (CAN_PM PM_MSG_SLEEP)) []]"
  have "\<forall>e \<in> set ?es. can_env_ok e" by (simp add: can_bench_env_ok)
  moreover have "\<not> cn_sleep can_bench" "\<not> cn_active can_bench" "can_sleep can_bench = 0"
    by (simp_all add: can_bench_def can_main_init_def can_init_inside_def)
  ultimately obtain s' where "can_main ?es can_bench = Some s'"
    "bus_run Silent (can_events (cn_eff s')) = Some (if cn_sleep s' then Asleep else if cn_active s' then Active else Silent)"
    "cn_sleep s' \<longrightarrow> cn_canfd s' < 0 \<and> \<not> cn_active s'"
    using bus_events_machine [OF can_bench_shape(1,3), of ?es] by blast
  moreover obtain t where "can_main ?es can_bench = Some t" "cn_sleep t" using bench_run by blast
  ultimately show ?thesis by (intro exI [of _ s'] conjI) simp_all
qed

lemma chunk_loop_stopped:
  "can_chunk_loop part ms s = (rest, s') \<Longrightarrow> cn_stop s \<Longrightarrow>
   told_parts (cn_eff s') = told_parts (cn_eff s) @ map (\<lambda>m. [frame_of m]) (filter (\<lambda>m. can_type m = 0x54) ms) \<and> cn_stop s'"
proof (induction part ms s arbitrary: rest s' rule: can_chunk_loop.induct)
  case (2 part msg ms s)
  show ?case
  proof (cases "can_type msg = 0x54")
    case True
    then show ?thesis
      using 2(1) [OF True refl refl, of rest s'] 2(3,4) by (simp add: Let_def) (simp add: can_do_callback_def can_emit_def)
  next
    case False
    then show ?thesis using 2(2) [OF False, of rest s'] 2(3,4) by auto
  qed
qed auto

lemma note_told:
  assumes "can_note_active t ms s = Some s1"
  shows "told_parts (cn_eff s1) = told_parts (cn_eff s) \<and> cn_stop s1 = cn_stop s"
proof (cases "cn_stop s")
  case False
  then obtain n s2 where p: "can_putraw t ms s = Some (n, s2)" using assms by (auto simp: can_note_active_def bind_eq_Some_conv)
  then have "cn_eff s2 = cn_eff s \<and> cn_stop s2 = cn_stop s" using putraw_keeps by (auto simp: can_putraw_def)
  then show ?thesis
    using assms False p by (auto simp: can_note_active_def Let_def can_do_callback_def can_emit_def split: if_splits)
qed (use assms in \<open>auto simp: can_note_active_def\<close>)

text \<open>\<^bold>\<open>C18\<close>
  A block of frames that is read reaches the callbacks whole: the parts handed over, joined in the order of
  the calls, are the frames of the block, each part holds at least one frame, and a time stamp only as its
  last. While the reception is switched off, only the time stamps are handed over, one by one.\<close>

theorem frames_told_in_order:
  assumes "can_shape s"
  shows "\<exists>s' ps. can_do_datain t ms s = Some s' \<and> told_parts (cn_eff s') = told_parts (cn_eff s) @ ps \<and>
    (if cn_stop s then ps = map (\<lambda>m. [frame_of m]) (filter (\<lambda>m. can_type m = 0x54) ms)
     else concat ps = map frame_of ms \<and> (\<forall>p \<in> set ps. p \<noteq> [] \<and> (\<forall>m \<in> set (butlast p). can_type m \<noteq> 0x54)))"
proof -
  obtain s' where s': "can_do_datain t ms s = Some s'" using datain_total [OF assms] by blast
  obtain s1 part s2 where s1: "can_note_active t ms s = Some s1" and c: "can_chunk_loop [] ms s1 = (part, s2)"
    and r: "s' = (if \<not> cn_stop s2 \<and> part \<noteq> []
           then can_do_callback (CAN_EVENT_DATAIN (map frame_of part)) 0 (s2\<lparr>cn_uptime := can_uptime (last part)\<rparr>) else s2)"
    using datain_split [OF s'] by blast
  note n = note_told [OF s1]
  show ?thesis
  proof (cases "cn_stop s")
    case True
    then show ?thesis using chunk_loop_stopped [OF c] n r s' by auto
  next
    case False
    then obtain ps where ps: "told_parts (cn_eff s2) = told_parts (cn_eff s) @ ps" "concat ps @ map frame_of part = map frame_of ms"
      "\<forall>p \<in> set ps. part_ok p" "\<forall>m \<in> set part. can_type m \<noteq> 0x54" "\<not> cn_stop s2"
      using chunk_loop [OF c] n by auto
    have last: "part \<noteq> [] \<Longrightarrow> part_ok (map frame_of part)"
      using ps(4) by (auto simp: part_ok_def is_stamp_def dest!: in_set_butlastD)
    have ok: "\<forall>p \<in> set ps. p \<noteq> [] \<and> (\<forall>m \<in> set (butlast p). can_type m \<noteq> 0x54)"
      using ps(3) by (simp add: part_ok_def is_stamp_def)
    show ?thesis
    proof (cases "part = []")
      case True
      then show ?thesis using False s' r ps ok by (intro exI [of _ s'] exI [of _ ps]) simp
    next
      case part: False
      then show ?thesis
        using False s' r ps ok last
        by (intro exI [of _ s'] exI [of _ "ps @ [map frame_of part]"])
          (auto simp: can_do_callback_def can_emit_def part_ok_def is_stamp_def)
    qed
  qed
qed

theorem frames_told_in_order_witness:
  "\<exists>s' ps. can_do_datain 0 [data_frame, stamp_frame, data_frame] can_bench = Some s' \<and>
    concat ps = [frame_of data_frame, frame_of stamp_frame, frame_of data_frame] \<and> told_parts (cn_eff s') = ps"
  using frames_told_in_order [OF can_bench_shape(1), of 0 "[data_frame, stamp_frame, data_frame]"] can_bench_shape(3)
  by (auto simp: can_bench_def can_main_init_def)

section \<open>Asleep with the bus closed\<close>

interpretation can_votes: sleep_voter can_sleep_handler "\<lambda>s. bus_ok s \<and> \<not> cn_sleep s"
  by unfold_locales (simp_all add: can_sleep_handler_def bus_ok_def)

lemma asleep_last: "bus_run Silent es = Some Asleep \<Longrightarrow> \<exists>fs. es = fs @ [CAN_EVENT_SLEEP]"
proof (cases es rule: rev_cases)
  case (snoc fs e)
  assume "bus_run Silent es = Some Asleep"
  then obtain b where b: "bus_next b e = Some Asleep" using snoc by (auto simp: bind_eq_Some_conv)
  then have "e = CAN_EVENT_SLEEP" by (cases b; cases e) auto
  then show ?thesis using snoc by blast
qed simp

text \<open>\<^bold>\<open>C9\<close>
  With the bus thread's handler registered at power management the system goes to sleep only when the
  thread sleeps: its device is closed, the last event every callback was told is the sleep of the bus, and
  so the last message of the bus to the telematics client is that the bus is down.\<close>

theorem sleeps_with_bus_closed:
  assumes "can_shape s" "cn_eff s = []" "\<not> cn_sleep s" "\<not> cn_active s" "can_sleep s = 0" "\<forall>e \<in> set es. can_env_ok e"
    "can_main es s = Some s'" "pm_reach p" "pm_step env p p'" "pm_state p \<noteq> PM_ST_SLEEP" "pm_state p' = PM_ST_SLEEP"
    "registered h p" "env_handler env h PM_MSG_SLEEP = can_sleep_handler PM_MSG_SLEEP s'"
  shows "cn_canfd s' < 0 \<and> \<not> cn_active s' \<and> (\<exists>fs. can_events (cn_eff s') = fs @ [CAN_EVENT_SLEEP]) \<and>
    last (List.map_filter gb_can_callback (can_events (cn_eff s'))) = GB_MSG_CANOFF"
proof -
  have "bus_ok s" using assms by (simp add: bus_ok_def bus_of_def)
  then have b: "bus_ok s'" using main_total [OF assms(1,6)] assms(7) by auto
  have "cn_sleep s'" using can_votes.sleeps_when_idle [OF assms(8-13)] b by blast
  then have m: "bus_run Silent (can_events (cn_eff s')) = Some Asleep" "cn_canfd s' < 0" "\<not> cn_active s'"
    using b by (auto simp: bus_ok_def bus_of_def)
  then obtain fs where "can_events (cn_eff s') = fs @ [CAN_EVENT_SLEEP]" using asleep_last by blast
  then show ?thesis using m by (auto simp: List.map_filter_def gb_can_callback_def)
qed

theorem sleeps_with_bus_closed_witness:
  "\<exists>s' p p'. can_main [can_bench_env None [data_frame, stamp_frame], can_bench_env (Some (CAN_PM PM_MSG_SLEEP)) []] can_bench = Some s' \<and>
    pm_reach p \<and> pm_step idle_env p p' \<and> pm_state p = PM_ST_MCK_SLEEP \<and> pm_state p' = PM_ST_SLEEP \<and> cn_canfd s' < 0"
proof -
  let ?es = "[can_bench_env None [data_frame, stamp_frame], can_bench_env (Some (CAN_PM PM_MSG_SLEEP)) []]"
  let ?p = "bench_in PM_ST_MCK_SLEEP PM_MSG_SLEEP PM_EVT_SLEEP_REQ"
  obtain s' where s': "can_main ?es can_bench = Some s'" "cn_sleep s'" using bench_run by blast
  have e: "\<forall>e \<in> set ?es. can_env_ok e" by (simp add: can_bench_env_ok)
  have i: "\<not> cn_sleep can_bench" "\<not> cn_active can_bench" "can_sleep can_bench = 0"
    by (simp_all add: can_bench_def can_main_init_def can_init_inside_def)
  have "bus_ok s'" using main_total [OF can_bench_shape(1) e] can_bench_shape(2) s'(1) by auto
  then have v: "env_handler idle_env 0 PM_MSG_SLEEP = can_sleep_handler PM_MSG_SLEEP s'"
    using s'(2) by (simp add: idle_env_def can_sleep_handler_def bus_ok_def)
  have r: "registered 0 ?p" by (simp add: registered_def bench_in_def enter_emits) (simp add: pm_emit_def bench_table)
  have st: "pm_state ?p = PM_ST_MCK_SLEEP" by (simp add: bench_in_fields)
  then show ?thesis
    using sleeps_with_bus_closed [OF can_bench_shape(1,3) i e s'(1) bench_falls_asleep _ asleep_state r v] s'(1)
      bench_falls_asleep asleep_state
    by (intro exI [of _ s'] exI [of _ ?p] exI conjI) (auto simp only: PM_STATE.distinct)
qed

end
