(* ===== verification/Nm.thy ===== *)
theory Nm
  imports GbProps Cfg
begin

text \<open>
  The network manager, \<open>src/app/base/nm\<close>: \<open>nm_dial.c\<close> calls the private and the public network through the
  modem's library and tells the other modules when they come and go, \<open>nm_diag.c\<close> watches over both, and
  \<open>nm_main.c\<close> is the loop. \<open>nm\<close> holds the statics; \<open>nm_eff\<close> what happens outside. The library of the modem
  (\<open>dsi_*\<close>), the shell behind \<open>ds_system_call\<close>, the callbacks and the timers answer as \<open>nm_env\<close> says.
\<close>

section \<open>Data\<close>

text \<open>\<open>NET_TYPE\<close> is an index into the table of networks.\<close>

definition NM_PRIVATE_NET :: nat where "NM_PRIVATE_NET = 0"
definition NM_PUBLIC_NET :: nat where "NM_PUBLIC_NET = 1"
definition NM_NET_TYPE_NUM :: nat where "NM_NET_TYPE_NUM = 2"
definition NM_MAX_REG_TBL :: nat where "NM_MAX_REG_TBL = 6"
definition NM_MAX_DIAL_TIMES :: nat where "NM_MAX_DIAL_TIMES = 6"
definition NM_RECALL_INTERVAL :: nat where "NM_RECALL_INTERVAL = 5000"
definition NM_DIAG_INTERVAL :: nat where "NM_DIAG_INTERVAL = 30000"
definition NM_MAX_DIAG_TIMES :: nat where "NM_MAX_DIAG_TIMES = 3"
definition NM_MAX_OTA_LINK_DIAG_INTERVAL :: u64 where "NM_MAX_OTA_LINK_DIAG_INTERVAL = 5 * 60 * 1000"
definition NM_MAX_DIAL_LINK_DIAG_INTERVAL :: u64 where "NM_MAX_DIAL_LINK_DIAG_INTERVAL = 30 * 60 * 1000"
definition NM_MAX_REG_OTA_TBL :: nat where "NM_MAX_REG_OTA_TBL = 6"

lemmas nm_types = NM_PRIVATE_NET_def NM_PUBLIC_NET_def NM_NET_TYPE_NUM_def
lemmas nm_sizes = NM_MAX_REG_TBL_def NM_MAX_DIAL_TIMES_def NM_RECALL_INTERVAL_def NM_DIAG_INTERVAL_def NM_MAX_DIAG_TIMES_def
  NM_MAX_OTA_LINK_DIAG_INTERVAL_def NM_MAX_DIAL_LINK_DIAG_INTERVAL_def NM_MAX_REG_OTA_TBL_def

definition NM_INVALID_PARA :: int where "NM_INVALID_PARA = 0x05000001"
definition NM_STATUS_INVALID :: int where "NM_STATUS_INVALID = 0x05000002"
definition NM_APN_INVALID :: int where "NM_APN_INVALID = 0x05000005"
definition NM_SEND_MSG_FAILED :: int where "NM_SEND_MSG_FAILED = 0x05000008"
definition NM_TABLE_OVERFLOW :: int where "NM_TABLE_OVERFLOW = 0x0500000a"

lemmas nm_errors = NM_INVALID_PARA_def NM_STATUS_INVALID_def NM_APN_INVALID_def NM_SEND_MSG_FAILED_def NM_TABLE_OVERFLOW_def

datatype NM_NET_STATE = NM_NET_NOT_INITED | NM_NET_INITING | NM_NET_INITED | NM_NET_CONNECTING | NM_NET_CONNECTED
  | NM_NET_DISCONNECTED

datatype NET_STATUS_TYPE = NM_NET_NORMAL | NM_NET_OTA_LINK_FAULT | NM_NET_DIAL_LINK_FAULT

text \<open>Values of enumerations of the modem's library; \<open>DSI_OTHER\<close> are those the code does not name.\<close>

datatype dsi_ip_family = DSI_IP_FAMILY_V4 | DSI_IP_FAMILY_V6 | DSI_OTHER
datatype dsi_auth_pref = DSI_AUTH_PREF_PAP_CHAP_NOT_ALLOWED | DSI_AUTH_PREF_CHAP_ONLY_ALLOWED

text \<open>Addresses are the four bytes of \<open>s_addr\<close>; the name of the interface is the text without its zeros.\<close>

record NM_NET_ITEM =
  ni_handle :: "nat option"
  ni_state :: NM_NET_STATE
  wait_cnt :: nat
  cdma_index :: int
  umts_index :: int
  ip_type :: dsi_ip_family
  ni_apn :: "byte list"
  ni_user :: "byte list"
  ni_pwd :: "byte list"
  ni_interface :: "byte list"
  auth_pref :: dsi_auth_pref
  ip_addr :: "byte list"
  gw_addr :: "byte list"
  pri_dns_addr :: "byte list"
  sec_dns_addr :: "byte list"

text \<open>The command lines, with the addresses and the interface that are printed into them.\<close>

datatype nm_cmd = DelDefault | AddDefault "byte list" "byte list" | AddRoute "byte list" "byte list" "byte list"
  | FlushNat | Masquerade "byte list" | NameServer "byte list" | MoreNameServer "byte list" | NameServer8888

datatype dsi_param = TechUnknown | UmtsProfile int | CdmaProfile int | IpVersion4 | ApnName "byte list" | UserName "byte list"
  | Password "byte list" | AuthPref dsi_auth_pref

text \<open>\<open>NmTimer\<close> is a start of the recall timer with its result, \<open>NmTold cb type st\<close> a call of a callback.\<close>

datatype nm_effect = NmTimer int | DsiInit nat | DsiGet "nat option" | DsiParam nat dsi_param | DsiStart nat nat | DsiStop nat
  | DsiRel nat | NmSys nm_cmd | NmTold nat nat nm_state_msg | NmFed | NmCfun int | NmRestart4G

record nm =
  nm_item :: "NM_NET_ITEM list"
  cur_type :: nat
  init_state :: NM_NET_STATE
  nm_tbl :: "(nat \<times> nat) list"
  nm_armed :: bool
  diag_status :: NET_STATUS_TYPE
  diag_start :: u64
  diag_times :: nat
  nm_diag_tbl :: "nat list"
  nm_eff :: "nm_effect list"

text \<open>
  The addresses \<open>dsi_get_ip_addr\<close> reports: \<open>None\<close> for one that is not valid, that of the interface with whether
  its family is \<open>AF_INET\<close>.
\<close>

record dsi_addr_info =
  iface_addr_s :: "(bool \<times> byte list) option"
  gtwy_addr_s :: "byte list option"
  dnsp_addr_s :: "byte list option"
  dnss_addr_s :: "byte list option"

text \<open>
  What a pass of the loop meets. Results of repeated calls are functions of the number of effects before the
  call: timers, handles, calls of the library and the shell, callbacks.
\<close>

record nm_env =
  ne_tm :: "nat \<Rightarrow> int"
  ne_handle :: "nat \<Rightarrow> nat option"
  ne_call :: "nat \<Rightarrow> int"
  ne_told :: "nat \<Rightarrow> int"
  ne_name :: "byte list option"
  ne_addr :: "int + dsi_addr_info"
  ne_cfg :: cfg
  ne_now :: u64
  ne_sim :: int
  ne_cfun :: int
  ne_ota :: "nat \<Rightarrow> bool"

definition nm_emit :: "nm_effect \<Rightarrow> nm \<Rightarrow> nm" where
  "nm_emit e s = s\<lparr>nm_eff := nm_eff s @ [e]\<rparr>"

definition set_item :: "nat \<Rightarrow> (NM_NET_ITEM \<Rightarrow> NM_NET_ITEM) \<Rightarrow> nm \<Rightarrow> nm" where
  "set_item type f s = s\<lparr>nm_item := (nm_item s)[type := f (nm_item s ! type)]\<rparr>"

text \<open>\<open>strdup\<close> and \<open>strlen\<close> of an array: without a zero in it they read behind it.\<close>

definition c_text :: "byte list \<Rightarrow> byte list option" where
  "c_text xs = (if 0 \<in> set xs then Some (c_string xs) else None)"

definition has_text :: "byte list \<Rightarrow> bool option" where
  "has_text xs = do { b \<leftarrow> byte_at xs 0; Some (b \<noteq> 0) }"

definition nm_tm_start :: "nm_env \<Rightarrow> nm \<Rightarrow> int \<times> nm" where
  "nm_tm_start env s =
     (let ret = ne_tm env (length (nm_eff s))
      in (ret, nm_emit (NmTimer ret) (if ret = 0 then s\<lparr>nm_armed := True\<rparr> else s)))"

section \<open>Telling the other modules\<close>

fun nm_notify_loop :: "nm_env \<Rightarrow> nat \<Rightarrow> nm_state_msg \<Rightarrow> (nat \<times> nat) list \<Rightarrow> nm \<Rightarrow> int \<times> nm" where
  "nm_notify_loop env type status [] s = (0, s)"
| "nm_notify_loop env type status ((t, cb) # rs) s =
     (if t = type then
        let ret = ne_told env (length (nm_eff s)); s1 = nm_emit (NmTold cb type status) s
        in if ret \<noteq> 0 then (NM_SEND_MSG_FAILED, s1) else nm_notify_loop env type status rs s1
      else nm_notify_loop env type status rs s)"

definition nm_notify_changed :: "nm_env \<Rightarrow> nat \<Rightarrow> nm_state_msg \<Rightarrow> nm \<Rightarrow> int \<times> nm" where
  "nm_notify_changed env type status s = nm_notify_loop env type status (nm_tbl s) s"

definition nm_reg_status_changed :: "nat \<Rightarrow> nat option \<Rightarrow> nm \<Rightarrow> int \<times> nm" where
  "nm_reg_status_changed type callback s =
     (case callback of
        None \<Rightarrow> (NM_INVALID_PARA, s)
      | Some cb \<Rightarrow>
          if NM_MAX_REG_TBL \<le> length (nm_tbl s) then (NM_TABLE_OVERFLOW, s) else (0, s\<lparr>nm_tbl := nm_tbl s @ [(type, cb)]\<rparr>))"

section \<open>Commands to the system\<close>

text \<open>A command is tried three times.\<close>

fun nm_sys_loop :: "nm_env \<Rightarrow> nm_cmd \<Rightarrow> nat \<Rightarrow> nm \<Rightarrow> nm" where
  "nm_sys_loop env cmd 0 s = s"
| "nm_sys_loop env cmd (Suc n) s =
     (if ne_call env (length (nm_eff s)) \<noteq> 0 then nm_sys_loop env cmd n (nm_emit (NmSys cmd) s) else nm_emit (NmSys cmd) s)"

definition nm_sys_call :: "nm_env \<Rightarrow> nm_cmd \<Rightarrow> nm \<Rightarrow> nm" where
  "nm_sys_call env cmd s = nm_sys_loop env cmd 3 s"

definition no_addr :: "byte list" where "no_addr = replicate 4 0"

definition nm_dial_add_default_route :: "nm_env \<Rightarrow> nat \<Rightarrow> nm \<Rightarrow> nm option" where
  "nm_dial_add_default_route env type s = do {
     it \<leftarrow> byte_at (nm_item s) type;
     Some (nm_sys_call env (AddDefault (gw_addr it) (ni_interface it)) (nm_sys_call env DelDefault s)) }"

definition nm_dial_del_default_route :: "nm_env \<Rightarrow> nm \<Rightarrow> nm" where
  "nm_dial_del_default_route env s = nm_sys_call env DelDefault s"

definition nm_dial_add_dns_route :: "nm_env \<Rightarrow> NM_NET_ITEM \<Rightarrow> nm \<Rightarrow> nm" where
  "nm_dial_add_dns_route env it s =
     (if pri_dns_addr it \<noteq> no_addr then
        let s1 = nm_sys_call env (AddRoute (pri_dns_addr it) (gw_addr it) (ni_interface it)) s
        in if sec_dns_addr it \<noteq> no_addr then nm_sys_call env (AddRoute (sec_dns_addr it) (gw_addr it) (ni_interface it)) s1 else s1
      else s)"

definition nm_dial_set_iptable :: "nm_env \<Rightarrow> byte list \<Rightarrow> nm \<Rightarrow> nm" where
  "nm_dial_set_iptable env iface s = nm_sys_call env (Masquerade iface) (nm_sys_call env FlushNat s)"

definition nm_dial_set_dns :: "nm_env \<Rightarrow> NM_NET_ITEM \<Rightarrow> nm \<Rightarrow> nm" where
  "nm_dial_set_dns env it s =
     (if pri_dns_addr it \<noteq> no_addr then
        let s1 = nm_sys_call env (NameServer (pri_dns_addr it)) s
        in if sec_dns_addr it \<noteq> no_addr then nm_sys_call env (MoreNameServer (sec_dns_addr it)) s1 else s1
      else nm_sys_call env NameServer8888 s)"

section \<open>Calls\<close>

definition nm_dial_para_set :: "nat \<Rightarrow> nat \<Rightarrow> nm \<Rightarrow> nm option" where
  "nm_dial_para_set type h s = do {
     it \<leftarrow> byte_at (nm_item s) type;
     apn \<leftarrow> c_text (ni_apn it);
     user \<leftarrow> c_text (ni_user it);
     pwd \<leftarrow> c_text (ni_pwd it);
     let auth = (if user \<noteq> [] \<and> pwd \<noteq> [] then DSI_AUTH_PREF_CHAP_ONLY_ALLOWED else auth_pref it);
     Some (fold nm_emit (map (DsiParam h) [TechUnknown, UmtsProfile (umts_index it), CdmaProfile (cdma_index it), IpVersion4,
         ApnName apn, UserName user, Password pwd, AuthPref auth]) (set_item type (auth_pref_update (\<lambda>_. auth)) s)) }"

definition nm_drop_handle :: "nat \<Rightarrow> nm \<Rightarrow> nm option" where
  "nm_drop_handle type s = do {
     it \<leftarrow> byte_at (nm_item s) type;
     Some (case ni_handle it of
         None \<Rightarrow> s
       | Some h \<Rightarrow> set_item type (ni_handle_update (\<lambda>_. None))
           (nm_emit (DsiRel h) (if ni_state it = NM_NET_CONNECTED then nm_emit (DsiStop h) s else s))) }"

text \<open>The end of a connection, as in \<open>nm_dial_stop\<close> and in \<open>nm_dial_disconnected\<close>.\<close>

definition nm_set_disconnected :: "nm_env \<Rightarrow> nat \<Rightarrow> nm \<Rightarrow> nm option" where
  "nm_set_disconnected env type s = do {
     it \<leftarrow> byte_at (nm_item s) type;
     let s1 = set_item type (ni_state_update (\<lambda>_. NM_NET_DISCONNECTED)) s;
     Some (if ni_state it = NM_NET_CONNECTED then snd (nm_notify_changed env type NM_REG_MSG_DISCONNECTED s1) else s1) }"

definition nm_dial_stop :: "nm_env \<Rightarrow> nat \<Rightarrow> nm \<Rightarrow> nm option" where
  "nm_dial_stop env type s = do { s1 \<leftarrow> nm_drop_handle type s; nm_set_disconnected env type s1 }"

definition nm_start_call :: "nm_env \<Rightarrow> nat \<Rightarrow> nm \<Rightarrow> nm option" where
  "nm_start_call env type s =
     (let h = ne_handle env (length (nm_eff s)); s1 = set_item type (ni_handle_update (\<lambda>_. h)) (nm_emit (DsiGet h) s)
      in case h of
           None \<Rightarrow> Some s1
         | Some h \<Rightarrow> do {
             s2 \<leftarrow> nm_dial_para_set type h s1;
             let ret = ne_call env (length (nm_eff s2));
             let s3 = nm_emit (DsiStart type h) s2;
             Some (if ret \<noteq> 0 then s3 else (set_item type (ni_state_update (\<lambda>_. NM_NET_CONNECTING)) s3)\<lparr>cur_type := type\<rparr>) })"

definition nm_dial_call :: "nm_env \<Rightarrow> nat \<Rightarrow> nm \<Rightarrow> nm option" where
  "nm_dial_call env type s =
     (let (ret, s1) = nm_tm_start env s
      in if ret \<noteq> 0 then Some s1
         else do {
           it \<leftarrow> byte_at (nm_item s1) type;
           apn \<leftarrow> has_text (ni_apn it);
           let s2 = set_item type (wait_cnt_update (\<lambda>_. 0)) s1;
           if \<not> apn \<or> init_state s2 \<noteq> NM_NET_INITED then Some s2
           else if ni_handle it \<noteq> None then nm_dial_stop env type s2
           else nm_start_call env type s2 })"

definition nm_dial_restart :: "nm_env \<Rightarrow> nm \<Rightarrow> nm option" where
  "nm_dial_restart env s =
     (let (ret, s1) = nm_tm_start env s
      in if ret \<noteq> 0 then Some s1
         else do {
           s2 \<leftarrow> nm_dial_stop env NM_PRIVATE_NET s1;
           s3 \<leftarrow> nm_dial_stop env NM_PUBLIC_NET s2;
           Some (s3\<lparr>cur_type := NM_NET_TYPE_NUM\<rparr>) })"

fun first_with_apn :: "nat list \<Rightarrow> nm \<Rightarrow> nat option" where
  "first_with_apn [] s = Some NM_NET_TYPE_NUM"
| "first_with_apn (t # ts) s = do {
     it \<leftarrow> byte_at (nm_item s) t; apn \<leftarrow> has_text (ni_apn it); if apn then Some t else first_with_apn ts s }"

definition nm_dial_all_net :: "nm_env \<Rightarrow> nm \<Rightarrow> (int \<times> nm) option" where
  "nm_dial_all_net env s = do {
     type \<leftarrow> first_with_apn [0..<NM_NET_TYPE_NUM] s;
     if NM_NET_TYPE_NUM \<le> type then Some (NM_APN_INVALID, s)
     else if init_state s = NM_NET_NOT_INITED then
       let ret = ne_call env (length (nm_eff s)); s1 = nm_emit (DsiInit type) (s\<lparr>init_state := NM_NET_INITING\<rparr>)
       in Some (if ret \<noteq> 0 then nm_tm_start env (s1\<lparr>init_state := NM_NET_NOT_INITED\<rparr>) else (ret, s1))
     else if init_state s = NM_NET_INITING then Some (nm_tm_start env s)
     else do { s1 \<leftarrow> nm_dial_call env type s; Some (0, s1) } }"

text \<open>
  \<open>nm_dial_get_next_dial_net\<close> visits the networks behind \<open>type\<close> in a circle and \<open>type\<close> last; \<open>NM_NET_TYPE_NUM\<close>
  stands for none.
\<close>

fun next_dial :: "nat list \<Rightarrow> nm \<Rightarrow> nat option" where
  "next_dial [] s = Some NM_NET_TYPE_NUM"
| "next_dial (t # ts) s = do {
     it \<leftarrow> byte_at (nm_item s) t;
     apn \<leftarrow> has_text (ni_apn it);
     if ni_state it \<noteq> NM_NET_CONNECTED \<and> apn then Some t else next_dial ts s }"

definition nm_dial_get_next_dial_net :: "nat \<Rightarrow> nm \<Rightarrow> nat option" where
  "nm_dial_get_next_dial_net type s =
     (let t = (if NM_NET_TYPE_NUM \<le> type then NM_PRIVATE_NET else type)
      in next_dial (map (\<lambda>k. (t + k) mod NM_NET_TYPE_NUM) [1..<NM_NET_TYPE_NUM] @ [t]) s)"

definition nm_dial_next :: "nm_env \<Rightarrow> nat \<Rightarrow> nm \<Rightarrow> nm option" where
  "nm_dial_next env type s = do {
     next \<leftarrow> nm_dial_get_next_dial_net type s;
     if next < NM_NET_TYPE_NUM then nm_dial_call env next s else Some (s\<lparr>cur_type := NM_NET_TYPE_NUM\<rparr>) }"

section \<open>Messages of the modem\<close>

text \<open>The name of an interface that cannot be read is \<open>rmnet0\<close>.\<close>

definition ipv4 :: "byte list option \<Rightarrow> byte list" where
  "ipv4 a = (case a of None \<Rightarrow> no_addr | Some b \<Rightarrow> take 4 b)"

definition nm_dial_addrs :: "byte list \<Rightarrow> dsi_addr_info option \<Rightarrow> NM_NET_ITEM \<Rightarrow> NM_NET_ITEM" where
  "nm_dial_addrs iface info it = it\<lparr>ni_interface := iface,
     ip_addr := (case info of Some i \<Rightarrow> (case iface_addr_s i of Some (inet, a) \<Rightarrow> if inet then take 4 a else no_addr | None \<Rightarrow> no_addr)
       | None \<Rightarrow> no_addr),
     gw_addr := ipv4 (Option.bind info gtwy_addr_s), pri_dns_addr := ipv4 (Option.bind info dnsp_addr_s),
     sec_dns_addr := ipv4 (Option.bind info dnss_addr_s)\<rparr>"

definition nm_dial_get_conf :: "nm_env \<Rightarrow> nat \<Rightarrow> nm \<Rightarrow> (int \<times> nm) option" where
  "nm_dial_get_conf env type s =
     (let iface = (case ne_name env of Some n \<Rightarrow> n | None \<Rightarrow> map of_char ''rmnet0'')
      in case ne_addr env of
           Inl ret \<Rightarrow> Some (ret, set_item type (nm_dial_addrs iface None) s)
         | Inr info \<Rightarrow> do {
             pub \<leftarrow> byte_at (nm_item s) NM_PUBLIC_NET;
             two \<leftarrow> has_text (ni_apn pub);
             let s1 = set_item type (nm_dial_addrs iface (Some info)) s;
             if type = NM_PUBLIC_NET \<or> type = NM_PRIVATE_NET \<and> \<not> two then do {
               (ret, data, len) \<leftarrow> cfg_get_para CFG_ITEM_DCOM_SET True 1 (ne_cfg env);
               dcom \<leftarrow> (if ret \<noteq> 0 then Some 1 else byte_at data 0);
               s2 \<leftarrow> (if dcom \<noteq> 0 then nm_dial_add_default_route env type s1 else Some s1);
               it \<leftarrow> byte_at (nm_item s2) type;
               Some (0, nm_dial_add_dns_route env it (nm_dial_set_dns env it (nm_dial_set_iptable env iface s2))) }
             else Some (0, s1) })"

definition nm_dial_wds_connected :: "nat \<Rightarrow> dsi_ip_family option \<Rightarrow> nm \<Rightarrow> nm" where
  "nm_dial_wds_connected type ip s = (case ip of None \<Rightarrow> s | Some f \<Rightarrow> set_item type (ip_type_update (\<lambda>_. f)) s)"

definition nm_set_connected :: "nm_env \<Rightarrow> nat \<Rightarrow> nm \<Rightarrow> nm option" where
  "nm_set_connected env type s =
     nm_dial_next env type
       (snd (nm_notify_changed env type NM_REG_MSG_CONNECTED (set_item type (ni_state_update (\<lambda>_. NM_NET_CONNECTED)) s)))"

definition nm_dial_connected :: "nm_env \<Rightarrow> nat \<Rightarrow> nm \<Rightarrow> nm option" where
  "nm_dial_connected env type s = do {
     it \<leftarrow> byte_at (nm_item s) type;
     if ni_state it \<noteq> NM_NET_CONNECTING then Some s
     else case ip_type it of
       DSI_IP_FAMILY_V4 \<Rightarrow> do {
         (ret, s1) \<leftarrow> nm_dial_get_conf env type s;
         if ret \<noteq> 0 then nm_dial_call env type s1 else nm_set_connected env type s1 }
     | DSI_IP_FAMILY_V6 \<Rightarrow> nm_dial_call env type s
     | DSI_OTHER \<Rightarrow> nm_set_connected env type s }"

definition nm_dial_disconnected :: "nm_env \<Rightarrow> nat \<Rightarrow> nm \<Rightarrow> nm option" where
  "nm_dial_disconnected env type s =
     (if init_state s = NM_NET_NOT_INITED then map_option snd (nm_dial_all_net env s)
      else do { s1 \<leftarrow> nm_set_disconnected env type s; Some (snd (nm_tm_start env s1)) })"

definition nm_dial_init_msg_proc :: "nm_env \<Rightarrow> nat \<Rightarrow> nm \<Rightarrow> nm option" where
  "nm_dial_init_msg_proc env type s = do {
     let s1 = s\<lparr>init_state := NM_NET_INITED\<rparr>;
     it \<leftarrow> byte_at (nm_item s1) type;
     apn \<leftarrow> has_text (ni_apn it);
     if apn then nm_dial_call env type s1 else nm_dial_next env type s1 }"

datatype dsi_net_evt = DSI_EVT_WDS_CONNECTED | DSI_EVT_NET_IS_CONN | DSI_EVT_NET_NO_NET | DSI_EVT_OTHER

definition nm_dial_status_msg_proc :: "nm_env \<Rightarrow> nat \<Rightarrow> dsi_net_evt \<Rightarrow> dsi_ip_family option \<Rightarrow> nm \<Rightarrow> nm option" where
  "nm_dial_status_msg_proc env type evt ip s =
     (case evt of
        DSI_EVT_WDS_CONNECTED \<Rightarrow> Some (nm_dial_wds_connected type ip s)
      | DSI_EVT_NET_IS_CONN \<Rightarrow> nm_dial_connected env type s
      | DSI_EVT_NET_NO_NET \<Rightarrow> nm_dial_disconnected env type s
      | DSI_EVT_OTHER \<Rightarrow> Some s)"

section \<open>Settings\<close>

text \<open>The user and the password are copied without the zero behind them, and only if neither is empty.\<close>

definition nm_set_auth :: "byte list \<Rightarrow> NM_NET_ITEM \<Rightarrow> NM_NET_ITEM option" where
  "nm_set_auth auth it = do {
     u \<leftarrow> has_text (take 32 auth);
     p \<leftarrow> has_text (drop 32 auth);
     if u \<and> p then do {
       user \<leftarrow> c_text (take 32 auth);
       pwd \<leftarrow> c_text (drop 32 auth);
       u' \<leftarrow> blit (ni_user it) 0 user (length user);
       p' \<leftarrow> blit (ni_pwd it) 0 pwd (length pwd);
       Some (it\<lparr>ni_user := u', ni_pwd := p'\<rparr>) }
     else Some it }"

text \<open>Both settings of the private network; \<open>Inl\<close> is the error of a setting that cannot be read.\<close>

definition nm_read_auth :: "cfg \<Rightarrow> nm \<Rightarrow> (int \<times> nm) option" where
  "nm_read_auth c s = do {
     (ret, auth, len) \<leftarrow> cfg_get_para CFG_ITEM_LOC_APN_AUTH True 64 c;
     if ret \<noteq> 0 then Some (ret, s)
     else do {
       it \<leftarrow> byte_at (nm_item s) NM_PRIVATE_NET;
       it' \<leftarrow> nm_set_auth auth it;
       Some (0, set_item NM_PRIVATE_NET (\<lambda>_. it') s) } }"

definition nm_read_apn :: "cfg \<Rightarrow> nat \<Rightarrow> nat \<Rightarrow> nm \<Rightarrow> (int \<times> nm) option" where
  "nm_read_apn c item type s = do {
     (ret, apn, len) \<leftarrow> cfg_get_para item True 32 c;
     if ret \<noteq> 0 then Some (ret, s)
     else do {
       it \<leftarrow> byte_at (nm_item s) type;
       apn' \<leftarrow> blit (ni_apn it) 0 apn (length apn);
       Some (0, set_item type (ni_apn_update (\<lambda>_. apn')) s) } }"

definition nm_dial_loc_net_proc :: "nm_env \<Rightarrow> nm \<Rightarrow> nm option" where
  "nm_dial_loc_net_proc env s = do {
     (ret, s1) \<leftarrow> nm_read_auth (ne_cfg env) s;
     if ret \<noteq> 0 then Some s1
     else do {
       (ret, s2) \<leftarrow> nm_read_apn (ne_cfg env) CFG_ITEM_LOCAL_APN NM_PRIVATE_NET s1;
       if ret \<noteq> 0 then Some s2 else nm_dial_restart env s2 } }"

definition nm_dial_wan_net_proc :: "nm_env \<Rightarrow> nm \<Rightarrow> nm option" where
  "nm_dial_wan_net_proc env s = do {
     (ret, s1) \<leftarrow> nm_read_apn (ne_cfg env) CFG_ITEM_WAN_APN NM_PUBLIC_NET s;
     if ret \<noteq> 0 then Some s1 else nm_dial_restart env s1 }"

definition nm_set_dcom :: "nm_env \<Rightarrow> byte \<Rightarrow> nm \<Rightarrow> (int \<times> nm) option" where
  "nm_set_dcom env action s =
     (if action = 0 then Some (0, nm_dial_del_default_route env s)
      else do { s1 \<leftarrow> nm_dial_add_default_route env NM_PUBLIC_NET s; Some (0, s1) })"

definition nm_get_dcom :: "cfg \<Rightarrow> (int \<times> byte list) option" where
  "nm_get_dcom c = do { (ret, data, len) \<leftarrow> cfg_get_para CFG_ITEM_DCOM_SET True 1 c; Some (ret, data) }"

section \<open>The loop\<close>

definition nm_dial_timer_msg_proc :: "nm_env \<Rightarrow> nm \<Rightarrow> nm option" where
  "nm_dial_timer_msg_proc env s =
     (if init_state s = NM_NET_NOT_INITED then map_option snd (nm_dial_all_net env s)
      else if cur_type s < NM_NET_TYPE_NUM then do {
        let s1 = snd (nm_tm_start env s);
        it \<leftarrow> byte_at (nm_item s1) (cur_type s1);
        if ni_state it = NM_NET_CONNECTING \<and> wait_cnt it < NM_MAX_DIAL_TIMES
        then Some (set_item (cur_type s1) (wait_cnt_update (\<lambda>n. n + 1)) s1)
        else if ni_state it = NM_NET_CONNECTING then do {
          s2 \<leftarrow> nm_dial_stop env (cur_type s1) s1;
          Some (set_item (cur_type s2) (ni_state_update (\<lambda>_. NM_NET_DISCONNECTED)) s2) }
        else nm_dial_next env (cur_type s1) s1 }
      else nm_dial_next env (cur_type s) s)"

text \<open>The messages of the thread; \<open>NmRecall\<close> comes from the recall timer, which then no longer runs.\<close>

datatype nm_msg = NmInited nat | NmStatus nat dsi_net_evt "dsi_ip_family option" | NmRecall | NmAuthChanged | NmLocalApnChanged
  | NmWanApnChanged | NmDcomChanged byte | NmDiag | NmPwdg

definition nm_dial_msg_proc :: "nm_env \<Rightarrow> nm_msg \<Rightarrow> nm \<Rightarrow> nm option" where
  "nm_dial_msg_proc env m s =
     (case m of
        NmInited type \<Rightarrow> nm_dial_init_msg_proc env type s
      | NmStatus type evt ip \<Rightarrow> nm_dial_status_msg_proc env type evt ip s
      | NmRecall \<Rightarrow> nm_dial_timer_msg_proc env (s\<lparr>nm_armed := False\<rparr>)
      | NmAuthChanged \<Rightarrow> nm_dial_loc_net_proc env s
      | NmLocalApnChanged \<Rightarrow> nm_dial_loc_net_proc env s
      | NmWanApnChanged \<Rightarrow> nm_dial_wan_net_proc env s
      | NmDcomChanged a \<Rightarrow> map_option snd (nm_set_dcom env a s)
      | _ \<Rightarrow> Some s)"

text \<open>
  The callbacks of the configuration post a message to the thread; the second component is what is sent.
\<close>

definition nm_dcom_changed :: "int \<Rightarrow> nat \<Rightarrow> byte list \<Rightarrow> (int \<times> nm_msg option) option" where
  "nm_dcom_changed sent iid new_para =
     (if iid \<noteq> CFG_ITEM_DCOM_SET then Some (NM_INVALID_PARA, None)
      else do { dcom \<leftarrow> byte_at new_para 0;
        Some (if sent \<noteq> 0 then (NM_SEND_MSG_FAILED, None) else (0, Some (NmDcomChanged dcom))) })"

definition nm_apn_changed :: "nat \<Rightarrow> nm_msg \<Rightarrow> int \<Rightarrow> nat \<Rightarrow> byte list \<Rightarrow> byte list \<Rightarrow> (int \<times> nm_msg option) option" where
  "nm_apn_changed item msg sent iid old_para new_para =
     (if iid \<noteq> item then Some (NM_INVALID_PARA, None)
      else do {
        old \<leftarrow> c_text old_para;
        new \<leftarrow> c_text new_para;
        Some (if old = new then (0, None) else if sent \<noteq> 0 then (NM_SEND_MSG_FAILED, None) else (0, Some msg)) })"

definition nm_loc_apn_changed :: "int \<Rightarrow> nat \<Rightarrow> byte list \<Rightarrow> byte list \<Rightarrow> (int \<times> nm_msg option) option" where
  "nm_loc_apn_changed = nm_apn_changed CFG_ITEM_LOCAL_APN NmLocalApnChanged"

definition nm_wan_apn_changed :: "int \<Rightarrow> nat \<Rightarrow> byte list \<Rightarrow> byte list \<Rightarrow> (int \<times> nm_msg option) option" where
  "nm_wan_apn_changed = nm_apn_changed CFG_ITEM_WAN_APN NmWanApnChanged"

definition nm_loc_auth_changed :: "int \<Rightarrow> nat \<Rightarrow> nat \<Rightarrow> int \<times> nm_msg option" where
  "nm_loc_auth_changed sent iid len =
     (if iid \<noteq> CFG_ITEM_LOC_APN_AUTH \<or> len \<noteq> 64 then (NM_INVALID_PARA, None)
      else if sent \<noteq> 0 then (NM_SEND_MSG_FAILED, None) else (0, Some NmAuthChanged))"

section \<open>Watching over the networks\<close>

definition nm_get_net_status :: "nat \<Rightarrow> nm \<Rightarrow> bool option" where
  "nm_get_net_status type s = do { it \<leftarrow> byte_at (nm_item s) type; Some (ni_state it = NM_NET_CONNECTED) }"

definition nm_net_is_apn_valid :: "nat \<Rightarrow> nm \<Rightarrow> bool option" where
  "nm_net_is_apn_valid type s = do { it \<leftarrow> byte_at (nm_item s) type; has_text (ni_apn it) }"

definition nm_bind :: "int \<Rightarrow> int \<Rightarrow> nat \<Rightarrow> nm \<Rightarrow> (int \<times> byte list option) option" where
  "nm_bind sockopt sockfd type s =
     (if NM_NET_TYPE_NUM \<le> type \<or> sockfd < 0 then Some (NM_INVALID_PARA, None)
      else do {
        it \<leftarrow> byte_at (nm_item s) type;
        Some (if ni_state it = NM_NET_CONNECTED
              then (if sockopt < 0 then sockopt else 0, Some (ni_interface it)) else (NM_STATUS_INVALID, None)) })"

text \<open>The loops of \<open>nm_diag_chk_dial_link\<close>: the counter runs over the networks, the calls name the private one.\<close>

fun chk_loop :: "(nat \<Rightarrow> nm \<Rightarrow> bool option) \<Rightarrow> nat list \<Rightarrow> nm \<Rightarrow> bool option" where
  "chk_loop f [] s = Some False"
| "chk_loop f (i # is) s = do { b \<leftarrow> f NM_PRIVATE_NET s; if b then Some True else chk_loop f is s }"

definition nm_diag_chk_dial_link :: "nm \<Rightarrow> bool option" where
  "nm_diag_chk_dial_link s = do {
     used \<leftarrow> chk_loop nm_net_is_apn_valid [0..<NM_NET_TYPE_NUM] s;
     if \<not> used then Some True else chk_loop nm_get_net_status [0..<NM_NET_TYPE_NUM] s }"

definition nm_diag_chk_ota_link :: "nm_env \<Rightarrow> nm \<Rightarrow> bool" where
  "nm_diag_chk_ota_link env s \<longleftrightarrow> nm_diag_tbl s = [] \<or> (\<exists>cb \<in> set (nm_diag_tbl s). ne_ota env cb)"

definition nm_register_get_ota_status :: "nat option \<Rightarrow> nm \<Rightarrow> int \<times> nm" where
  "nm_register_get_ota_status callback s =
     (case callback of
        None \<Rightarrow> (NM_INVALID_PARA, s)
      | Some cb \<Rightarrow>
          if NM_MAX_REG_OTA_TBL \<le> length (nm_diag_tbl s) then (NM_TABLE_OVERFLOW, s)
          else (0, s\<lparr>nm_diag_tbl := nm_diag_tbl s @ [cb]\<rparr>))"

definition nm_diag_classify :: "nm_env \<Rightarrow> nm \<Rightarrow> nm option" where
  "nm_diag_classify env s = do {
     dial \<leftarrow> nm_diag_chk_dial_link s;
     let fault = (\<lambda>st. s\<lparr>diag_status := st, diag_start := ne_now env, diag_times := 0\<rparr>);
     Some (
       if \<not> dial then
         if diag_status s = NM_NET_NORMAL then fault NM_NET_DIAL_LINK_FAULT
         else if diag_status s = NM_NET_OTA_LINK_FAULT \<and> 0 < diag_times s \<and> NM_MAX_OTA_LINK_DIAG_INTERVAL < ne_now env - diag_start s
         then fault NM_NET_DIAL_LINK_FAULT else s
       else if \<not> nm_diag_chk_ota_link env s then
         if diag_status s \<noteq> NM_NET_OTA_LINK_FAULT then fault NM_NET_OTA_LINK_FAULT else s
       else s\<lparr>diag_status := NM_NET_NORMAL, diag_start := 0, diag_times := 0\<rparr>) }"

definition nm_diag_network :: "nm_env \<Rightarrow> nm \<Rightarrow> nm option" where
  "nm_diag_network env s =
     (if ne_sim env \<noteq> 1 then Some s
      else do {
        s1 \<leftarrow> nm_diag_classify env s;
        let waited = ne_now env - diag_start s1;
        if diag_status s1 = NM_NET_DIAL_LINK_FAULT then Some (
          if NM_MAX_DIAL_LINK_DIAG_INTERVAL < waited \<and> diag_times s1 < NM_MAX_DIAG_TIMES then
            if ne_cfun env = 1 then nm_emit (NmCfun 4) s1
            else (nm_emit (NmCfun 1) s1)\<lparr>diag_start := ne_now env, diag_times := diag_times s1 + 1\<rparr>
          else if NM_MAX_DIAL_LINK_DIAG_INTERVAL < waited \<and> NM_MAX_DIAG_TIMES \<le> diag_times s1
          then (nm_emit NmRestart4G s1)\<lparr>diag_times := 0\<rparr> else s1)
        else if diag_status s1 = NM_NET_OTA_LINK_FAULT \<and> NM_MAX_OTA_LINK_DIAG_INTERVAL < waited \<and> diag_times s1 < NM_MAX_DIAG_TIMES
        then do {
          s2 \<leftarrow> nm_dial_restart env s1;
          Some (s2\<lparr>diag_start := ne_now env, diag_times := diag_times s2 + 1\<rparr>) }
        else Some s1 })"

definition nm_handle :: "nm_env \<Rightarrow> nm_msg \<Rightarrow> nm \<Rightarrow> nm option" where
  "nm_handle env m s =
     (if m = NmPwdg then Some (nm_emit NmFed s)
      else if m = NmDiag then nm_diag_network env s
      else nm_dial_msg_proc env m s)"

fun nm_loop :: "(nm_env \<times> nm_msg) list \<Rightarrow> nm \<Rightarrow> nm option" where
  "nm_loop [] s = Some s"
| "nm_loop ((env, m) # ms) s = do { s1 \<leftarrow> nm_handle env m s; nm_loop ms s1 }"

definition nm_main :: "nm_env \<Rightarrow> (nm_env \<times> nm_msg) list \<Rightarrow> nm \<Rightarrow> nm option" where
  "nm_main env ms s = do { (ret, s1) \<leftarrow> nm_dial_all_net env s; nm_loop ms s1 }"

section \<open>Start\<close>

text \<open>\<open>ip0\<close> is the family whose number in the modem's library is 0.\<close>

definition nm_dial_init_inside :: "dsi_ip_family \<Rightarrow> nm \<Rightarrow> nm" where
  "nm_dial_init_inside ip0 s = s\<lparr>nm_tbl := [], cur_type := 0, init_state := NM_NET_NOT_INITED,
     nm_item := replicate NM_NET_TYPE_NUM \<lparr>ni_handle = None, ni_state = NM_NET_DISCONNECTED, wait_cnt = 0, cdma_index = 1,
       umts_index = 1, ip_type = ip0, ni_apn = replicate 32 0, ni_user = replicate 32 0, ni_pwd = replicate 32 0,
       ni_interface = [], auth_pref = DSI_AUTH_PREF_PAP_CHAP_NOT_ALLOWED, ip_addr = no_addr, gw_addr = no_addr,
       pri_dns_addr = no_addr, sec_dns_addr = no_addr\<rparr>\<rparr>"

definition nm_diag_init_inside :: "nm \<Rightarrow> nm" where
  "nm_diag_init_inside s = s\<lparr>nm_diag_tbl := [], diag_status := NM_NET_NORMAL, diag_start := 0, diag_times := 0\<rparr>"

text \<open>Numbers of the callbacks of the configuration.\<close>

definition cb_loc_auth :: nat where "cb_loc_auth = 50"
definition cb_loc_apn :: nat where "cb_loc_apn = 51"
definition cb_wan_apn :: nat where "cb_wan_apn = 52"
definition cb_dcom :: nat where "cb_dcom = 53"

definition nm_dial_init_loc :: "cfg \<Rightarrow> nm \<Rightarrow> (int \<times> cfg \<times> nm) option" where
  "nm_dial_init_loc c s = do {
     (ret, s1) \<leftarrow> nm_read_auth c (set_item NM_PRIVATE_NET (ni_state_update (\<lambda>_. NM_NET_DISCONNECTED)) s);
     if ret \<noteq> 0 then Some (ret, c, s1)
     else let (ret, c1) = cfg_register CFG_ITEM_LOC_APN_AUTH (Some cb_loc_auth) c
     in if ret \<noteq> 0 then Some (ret, c1, s1)
     else do {
       (ret, s2) \<leftarrow> nm_read_apn c1 CFG_ITEM_LOCAL_APN NM_PRIVATE_NET s1;
       if ret \<noteq> 0 then Some (ret, c1, s2)
       else let (ret, c2) = cfg_register CFG_ITEM_LOCAL_APN (Some cb_loc_apn) c1 in Some (ret, c2, s2) } }"

definition nm_dial_init_wan :: "cfg \<Rightarrow> nm \<Rightarrow> (int \<times> cfg \<times> nm) option" where
  "nm_dial_init_wan c s = do {
     (ret, s1) \<leftarrow> nm_read_apn c CFG_ITEM_WAN_APN NM_PUBLIC_NET (set_item NM_PUBLIC_NET (ni_state_update (\<lambda>_. NM_NET_DISCONNECTED)) s);
     if ret \<noteq> 0 then Some (ret, c, s1)
     else let (ret, c1) = cfg_register CFG_ITEM_WAN_APN (Some cb_wan_apn) c in Some (ret, c1, s1) }"

text \<open>\<open>create\<close> is the result of creating the recall timer. The results of both networks are joined with \<open>|=\<close>.\<close>

definition nm_dial_init_outside :: "int \<Rightarrow> cfg \<Rightarrow> nm \<Rightarrow> (int \<times> cfg \<times> nm) option" where
  "nm_dial_init_outside create c s = do {
     (ret, c1, s1) \<leftarrow> nm_dial_init_loc c s;
     (ret', c2, s2) \<leftarrow> nm_dial_init_wan c1 s1;
     if ret \<noteq> 0 \<or> ret' \<noteq> 0 then Some (or ret ret', c2, s2)
     else let (ret, c3) = cfg_register CFG_ITEM_DCOM_SET (Some cb_dcom) c2
     in if ret \<noteq> 0 then Some (ret, c3, s2) else Some (create, c3, s2) }"

end
