(* ===== verification/NmInv.thy ===== *)
theory NmInv
  imports Nm CfgProps
begin

text \<open>
  What the functions of the network manager do: its state keeps its shape, the contract \<open>nm_kept\<close> of what every
  message keeps, its two instances (what the modules hear with the handles that are held, and a library that
  never starts), and how far a network is from being dialled.
\<close>

section \<open>The shape of the state\<close>

definition item_shape :: "NM_NET_ITEM \<Rightarrow> bool" where
  "item_shape it \<longleftrightarrow> length (ni_apn it) = 32 \<and> 0 \<in> set (ni_apn it) \<and> length (ni_user it) = 32 \<and> ni_user it ! 31 = 0 \<and>
     length (ni_pwd it) = 32 \<and> ni_pwd it ! 31 = 0"

definition nm_shape :: "nm \<Rightarrow> bool" where
  "nm_shape s \<longleftrightarrow> length (nm_item s) = 2 \<and> (\<forall>t < 2. item_shape (nm_item s ! t))"

text \<open>The texts of the configuration end with a zero.\<close>

definition nm_cfg_ok :: "cfg \<Rightarrow> bool" where
  "nm_cfg_ok c \<longleftrightarrow> cfg_ok c \<and> 0 \<in> set (cfg_val c CFG_ITEM_LOCAL_APN) \<and> 0 \<in> set (cfg_val c CFG_ITEM_WAN_APN) \<and>
     0 \<in> set (take 32 (cfg_val c CFG_ITEM_LOC_APN_AUTH)) \<and> 0 \<in> set (drop 32 (cfg_val c CFG_ITEM_LOC_APN_AUTH))"

lemma nm_shape_nth: "nm_shape s \<Longrightarrow> t < 2 \<Longrightarrow> t < length (nm_item s) \<and> item_shape (nm_item s ! t)"
  by (simp add: nm_shape_def)

lemma c_text_some: "0 \<in> set xs \<Longrightarrow> c_text xs = Some (c_string xs)"
  by (simp add: c_text_def)

lemma has_text_some: "xs \<noteq> [] \<Longrightarrow> has_text xs = Some (xs ! 0 \<noteq> 0)"
  by (simp add: has_text_def)

lemma item_texts:
  assumes "item_shape it"
  shows "c_text (ni_apn it) = Some (c_string (ni_apn it))" "c_text (ni_user it) = Some (c_string (ni_user it))"
    "c_text (ni_pwd it) = Some (c_string (ni_pwd it))" "has_text (ni_apn it) = Some (ni_apn it ! 0 \<noteq> 0)"
proof -
  have "0 \<in> set (ni_user it)" "0 \<in> set (ni_pwd it)" "ni_apn it \<noteq> []"
    using assms nth_mem [of 31 "ni_user it"] nth_mem [of 31 "ni_pwd it"] by (auto simp: item_shape_def)
  then show "c_text (ni_apn it) = Some (c_string (ni_apn it))" "c_text (ni_user it) = Some (c_string (ni_user it))"
    "c_text (ni_pwd it) = Some (c_string (ni_pwd it))" "has_text (ni_apn it) = Some (ni_apn it ! 0 \<noteq> 0)"
    using assms by (simp_all add: item_shape_def c_text_some has_text_some)
qed

lemma set_item_fields [simp]:
  "nm_tbl (set_item t f s) = nm_tbl s" "init_state (set_item t f s) = init_state s" "nm_eff (set_item t f s) = nm_eff s"
  "cur_type (set_item t f s) = cur_type s" "nm_armed (set_item t f s) = nm_armed s" "diag_status (set_item t f s) = diag_status s"
  "length (nm_item (set_item t f s)) = length (nm_item s)"
  by (simp_all add: set_item_def)

lemma set_item_nth: "u < length (nm_item s) \<Longrightarrow> nm_item (set_item t f s) ! u = (if u = t then f (nm_item s ! t) else nm_item s ! u)"
  by (simp add: set_item_def nth_list_update)

lemma emit_fields [simp]:
  "nm_tbl (nm_emit e s) = nm_tbl s" "init_state (nm_emit e s) = init_state s" "nm_eff (nm_emit e s) = nm_eff s @ [e]"
  "cur_type (nm_emit e s) = cur_type s" "nm_armed (nm_emit e s) = nm_armed s" "diag_status (nm_emit e s) = diag_status s"
  "nm_item (nm_emit e s) = nm_item s"
  by (simp_all add: nm_emit_def)

lemma shape_set_item: "nm_shape s \<Longrightarrow> (t < 2 \<Longrightarrow> item_shape (f (nm_item s ! t))) \<Longrightarrow> nm_shape (set_item t f s)"
  by (auto simp: nm_shape_def set_item_nth)

lemma shape_cong: "nm_item s' = nm_item s \<Longrightarrow> nm_shape s' = nm_shape s"
  by (simp add: nm_shape_def)

section \<open>What a step may leave alone\<close>

text \<open>The effects the properties speak of.\<close>

fun nm_rel :: "nm_effect \<Rightarrow> bool" where
  "nm_rel (DsiInit t) = True"
| "nm_rel (DsiGet h) = True"
| "nm_rel (DsiStart t h) = True"
| "nm_rel (DsiRel h) = True"
| "nm_rel (NmTold cb t st) = True"
| "nm_rel e = False"

definition nm_core :: "nm \<Rightarrow> (nat option \<times> NM_NET_STATE) list \<times> (nat \<times> nat) list \<times> NM_NET_STATE \<times> nm_effect list" where
  "nm_core s = (map (\<lambda>it. (ni_handle it, ni_state it)) (nm_item s), nm_tbl s, init_state s, filter nm_rel (nm_eff s))"

text \<open>\<open>nm_same\<close> relates states that differ only in what the properties do not speak of.\<close>

definition nm_same :: "nm \<Rightarrow> nm \<Rightarrow> bool" where
  "nm_same s s' \<longleftrightarrow> (nm_shape s \<longrightarrow> nm_shape s') \<and> nm_core s' = nm_core s"

lemma same_refl [simp]: "nm_same s s"
  by (simp add: nm_same_def)

lemma same_trans [trans]: "nm_same s s1 \<Longrightarrow> nm_same s1 s2 \<Longrightarrow> nm_same s s2"
  by (simp add: nm_same_def)

lemma same_emit: "\<not> nm_rel e \<Longrightarrow> nm_same s (nm_emit e s)"
  by (simp add: nm_same_def nm_core_def nm_shape_def)

lemma same_fields:
  "nm_same s (s\<lparr>cur_type := c\<rparr>)" "nm_same s (s\<lparr>nm_armed := b\<rparr>)" "nm_same s (s\<lparr>diag_start := w, diag_times := n\<rparr>)"
  "nm_same s (s\<lparr>diag_status := st, diag_start := w, diag_times := n\<rparr>)" "nm_same s (s\<lparr>diag_times := n\<rparr>)"
  by (simp_all add: nm_same_def nm_core_def nm_shape_def)

lemma same_set_item:
  assumes "t < length (nm_item s) \<Longrightarrow> ni_handle (f (nm_item s ! t)) = ni_handle (nm_item s ! t) \<and> ni_state (f (nm_item s ! t)) = ni_state (nm_item s ! t) \<and>
    (item_shape (nm_item s ! t) \<longrightarrow> item_shape (f (nm_item s ! t)))"
  shows "nm_same s (set_item t f s)"
proof -
  have "map (\<lambda>it. (ni_handle it, ni_state it)) (nm_item (set_item t f s)) = map (\<lambda>it. (ni_handle it, ni_state it)) (nm_item s)"
    using assms by (intro nth_equalityI) (auto simp: set_item_nth)
  moreover have "nm_shape s \<longrightarrow> nm_shape (set_item t f s)"
    using assms by (auto simp: nm_shape_def set_item_nth)
  ultimately show ?thesis by (simp add: nm_same_def nm_core_def)
qed

lemma same_tm_start: "nm_same s (snd (nm_tm_start env s))"
proof -
  have "nm_same s (if ne_tm env (length (nm_eff s)) = 0 then s\<lparr>nm_armed := True\<rparr> else s)" by (simp add: same_fields)
  then show ?thesis unfolding nm_tm_start_def Let_def snd_conv by (rule same_trans) (simp add: same_emit)
qed

lemma same_sys_loop: "nm_same s (nm_sys_loop env cmd n s)"
proof (induction n arbitrary: s)
  case (Suc n)
  then show ?case using same_emit [of "NmSys cmd" s] by (auto intro: same_trans)
qed simp

lemma same_sys: "nm_same s (nm_sys_call env cmd s)"
  by (simp add: nm_sys_call_def same_sys_loop)

lemmas nm_cmds = nm_dial_add_default_route_def nm_dial_del_default_route_def nm_dial_add_dns_route_def nm_dial_set_iptable_def
  nm_dial_set_dns_def

lemma same_cmds:
  "nm_same s (nm_dial_del_default_route env s)" "nm_same s (nm_dial_add_dns_route env it s)" "nm_same s (nm_dial_set_dns env it s)"
  "nm_same s (nm_dial_set_iptable env iface s)"
  by (auto simp: nm_cmds Let_def intro: same_sys same_trans)

lemma sys_loop_item [simp]: "nm_item (nm_sys_loop env cmd n s) = nm_item s"
  by (induction n arbitrary: s) auto

lemma sys_item [simp]: "nm_item (nm_sys_call env cmd s) = nm_item s"
  by (simp add: nm_sys_call_def)

lemma default_route:
  "t < length (nm_item s) \<Longrightarrow> \<exists>s'. nm_dial_add_default_route env t s = Some s' \<and> nm_same s s' \<and> nm_item s' = nm_item s"
  by (auto simp: nm_cmds intro: same_sys same_trans)

lemma same_emits: "\<forall>e \<in> set es. \<not> nm_rel e \<Longrightarrow> nm_same s (fold nm_emit es s)"
proof (induction es arbitrary: s)
  case (Cons e es)
  then have "nm_same (nm_emit e s) (fold nm_emit es (nm_emit e s))" "nm_same s (nm_emit e s)" by (auto intro: same_emit)
  then show ?case by (simp add: same_trans)
qed simp

lemma para_set:
  assumes "nm_shape s" "t < 2"
  shows "\<exists>s'. nm_dial_para_set t h s = Some s' \<and> nm_same s s'"
proof -
  note it = nm_shape_nth [OF assms]
  let ?auth = "if c_string (ni_user (nm_item s ! t)) \<noteq> [] \<and> c_string (ni_pwd (nm_item s ! t)) \<noteq> []
    then DSI_AUTH_PREF_CHAP_ONLY_ALLOWED else auth_pref (nm_item s ! t)"
  let ?s1 = "set_item t (auth_pref_update (\<lambda>_. ?auth)) s"
  let ?es = "map (DsiParam h) [TechUnknown, UmtsProfile (umts_index (nm_item s ! t)), CdmaProfile (cdma_index (nm_item s ! t)), IpVersion4,
    ApnName (c_string (ni_apn (nm_item s ! t))), UserName (c_string (ni_user (nm_item s ! t))), Password (c_string (ni_pwd (nm_item s ! t))),
    AuthPref ?auth]"
  have "nm_dial_para_set t h s = Some (fold nm_emit ?es ?s1)"
    using it item_texts [of "nm_item s ! t"] by (simp add: nm_dial_para_set_def Let_def)
  moreover have "nm_same s ?s1" by (rule same_set_item) (simp add: item_shape_def)
  then have "nm_same s (fold nm_emit ?es ?s1)" by (rule same_trans) (rule same_emits, simp)
  ultimately show ?thesis by blast
qed

lemma addrs_keep [simp]:
  "ni_handle (nm_dial_addrs iface info it) = ni_handle it" "ni_state (nm_dial_addrs iface info it) = ni_state it"
  "item_shape (nm_dial_addrs iface info it) = item_shape it"
  by (simp_all add: nm_dial_addrs_def item_shape_def)

lemma cfg_lens_nm: "cfg_lens ! CFG_ITEM_DCOM_SET = 1" "cfg_lens ! CFG_ITEM_LOCAL_APN = 32" "cfg_lens ! CFG_ITEM_WAN_APN = 32"
  "cfg_lens ! CFG_ITEM_LOC_APN_AUTH = 64" "CFG_ITEM_DCOM_SET < 74" "CFG_ITEM_LOCAL_APN < 74" "CFG_ITEM_WAN_APN < 74"
  "CFG_ITEM_LOC_APN_AUTH < 74"
  by (simp_all add: cfg_lens_def CFG_ITEM_DCOM_SET_def CFG_ITEM_LOCAL_APN_def CFG_ITEM_WAN_APN_def CFG_ITEM_LOC_APN_AUTH_def)

lemma nm_cfg_gets:
  assumes "nm_cfg_ok c"
  shows "cfg_get_para CFG_ITEM_DCOM_SET True 1 c = Some (0, cfg_val c CFG_ITEM_DCOM_SET, 1)"
    "cfg_get_para CFG_ITEM_LOCAL_APN True 32 c = Some (0, cfg_val c CFG_ITEM_LOCAL_APN, 32)"
    "cfg_get_para CFG_ITEM_WAN_APN True 32 c = Some (0, cfg_val c CFG_ITEM_WAN_APN, 32)"
    "cfg_get_para CFG_ITEM_LOC_APN_AUTH True 64 c = Some (0, cfg_val c CFG_ITEM_LOC_APN_AUTH, 64)"
  using assms cfg_get_eq [of c] cfg_lens_nm by (simp_all add: nm_cfg_ok_def)

lemma nm_cfg_lengths:
  assumes "nm_cfg_ok c"
  shows "length (cfg_val c CFG_ITEM_DCOM_SET) = 1" "length (cfg_val c CFG_ITEM_LOCAL_APN) = 32"
    "length (cfg_val c CFG_ITEM_WAN_APN) = 32" "length (cfg_val c CFG_ITEM_LOC_APN_AUTH) = 64"
  using assms length_cfg_val [of c] cfg_lens_nm by (simp_all add: nm_cfg_ok_def)

lemma get_conf:
  assumes "nm_shape s" "t < 2" "nm_cfg_ok (ne_cfg env)"
  shows "\<exists>ret s'. nm_dial_get_conf env t s = Some (ret, s') \<and> nm_same s s'"
proof -
  let ?iface = "case ne_name env of Some n \<Rightarrow> n | None \<Rightarrow> map of_char ''rmnet0''"
  have a: "nm_same s (set_item t (nm_dial_addrs ?iface info) s)" for info by (rule same_set_item) simp
  show ?thesis
  proof (cases "ne_addr env")
    case (Inl ret)
    then show ?thesis using a [of None] by (auto simp: nm_dial_get_conf_def)
  next
    case (Inr info)
    let ?s1 = "set_item t (nm_dial_addrs ?iface (Some info)) s"
    have p: "byte_at (nm_item s) NM_PUBLIC_NET = Some (nm_item s ! 1)" "item_shape (nm_item s ! 1)"
      using nm_shape_nth [OF assms(1), of 1] by (simp_all add: nm_types)
    have l: "t < length (nm_item ?s1)" using nm_shape_nth [OF assms(1,2)] by simp
    obtain s2 where s2: "nm_dial_add_default_route env t ?s1 = Some s2" "nm_same ?s1 s2" "nm_item s2 = nm_item ?s1"
      using default_route [OF l] by blast
    let ?dcom = "cfg_val (ne_cfg env) CFG_ITEM_DCOM_SET ! 0"
    obtain s4 where s4: "(if ?dcom \<noteq> 0 then nm_dial_add_default_route env t ?s1 else Some ?s1) = Some s4" "nm_same s s4"
      "nm_item s4 = nm_item ?s1"
      using s2 a [of "Some info"] same_trans by (cases "?dcom \<noteq> 0") auto
    have fin: "nm_same s4 (nm_dial_add_dns_route env it (nm_dial_set_dns env it (nm_dial_set_iptable env ?iface s4)))" for it
      by (rule same_trans [OF same_trans]) (rule same_cmds)+
    have d: "byte_at (cfg_val (ne_cfg env) CFG_ITEM_DCOM_SET) 0 = Some ?dcom" using nm_cfg_lengths [OF assms(3)] by simp
    have i: "byte_at (nm_item s4) t = Some (nm_item s4 ! t)" using l s4(3) by simp
    note g = nm_cfg_gets(1) [OF assms(3)] and h = item_texts(4) [OF p(2)]
    show ?thesis
    proof (cases "t = NM_PUBLIC_NET \<or> t = NM_PRIVATE_NET \<and> \<not> (ni_apn (nm_item s ! 1) ! 0 \<noteq> 0)")
      case True
      then have "nm_dial_get_conf env t s = Some (0, nm_dial_add_dns_route env (nm_item s4 ! t)
          (nm_dial_set_dns env (nm_item s4 ! t) (nm_dial_set_iptable env ?iface s4)))"
        by (simp only: nm_dial_get_conf_def Inr sum.case Let_def p(1) h g d i s4(1) bind.simps if_True prod.case simp_thms if_False)
      then show ?thesis using same_trans [OF s4(2) fin] by blast
    next
      case False
      then have "nm_dial_get_conf env t s = Some (0, ?s1)"
        by (simp only: nm_dial_get_conf_def Inr sum.case Let_def p(1) h bind.simps if_False)
      then show ?thesis using a by blast
    qed
  qed
qed

lemma text_short: "0 \<in> set xs \<Longrightarrow> length (c_string xs) < length xs"
  unfolding c_string_def by (induction xs) auto

lemma set_auth:
  assumes "item_shape it" "length auth = 64" "0 \<in> set (take 32 auth)" "0 \<in> set (drop 32 auth)"
  shows "nm_set_auth auth it = Some (if auth ! 0 \<noteq> 0 \<and> auth ! 32 \<noteq> 0
    then it\<lparr>ni_user := c_string (take 32 auth) @ drop (length (c_string (take 32 auth))) (ni_user it),
            ni_pwd := c_string (drop 32 auth) @ drop (length (c_string (drop 32 auth))) (ni_pwd it)\<rparr> else it)"
proof -
  have l: "length (c_string (take 32 auth)) < 32" "length (c_string (drop 32 auth)) < 32"
    using text_short [OF assms(3)] text_short [OF assms(4)] assms(2) by simp_all
  have h: "has_text (take 32 auth) = Some (auth ! 0 \<noteq> 0)" "has_text (drop 32 auth) = Some (auth ! 32 \<noteq> 0)"
    using assms(2) by (auto simp: has_text_def)
  show ?thesis
    using assms(1) l by (simp add: nm_set_auth_def h c_text_some [OF assms(3)] c_text_some [OF assms(4)] item_shape_def)
qed

lemma auth_shape:
  assumes "item_shape it" "length u < 32" "length p < 32"
  shows "item_shape (it\<lparr>ni_user := u @ drop (length u) (ni_user it), ni_pwd := p @ drop (length p) (ni_pwd it)\<rparr>)"
  using assms by (simp add: item_shape_def nth_append)

lemma read_auth:
  assumes "nm_shape s" "nm_cfg_ok c"
  shows "\<exists>s'. nm_read_auth c s = Some (0, s') \<and> nm_same s s'"
proof -
  let ?auth = "cfg_val c CFG_ITEM_LOC_APN_AUTH" and ?it = "nm_item s ! 0"
  have z: "length ?auth = 64" "0 \<in> set (take 32 ?auth)" "0 \<in> set (drop 32 ?auth)"
    using assms(2) nm_cfg_lengths [OF assms(2)] by (simp_all add: nm_cfg_ok_def)
  note it = nm_shape_nth [OF assms(1), of 0]
  have l: "length (c_string (take 32 ?auth)) < 32" "length (c_string (drop 32 ?auth)) < 32"
    using text_short [OF z(2)] text_short [OF z(3)] z(1) by simp_all
  obtain it' where it': "nm_set_auth ?auth ?it = Some it'" "item_shape it'" "ni_handle it' = ni_handle ?it" "ni_state it' = ni_state ?it"
    using set_auth [OF _ z, of ?it] it auth_shape [of ?it, OF _ l] by (cases "?auth ! 0 \<noteq> 0 \<and> ?auth ! 32 \<noteq> 0") auto
  have "nm_same s (set_item 0 (\<lambda>_. it') s)" by (rule same_set_item) (simp add: it')
  then show ?thesis using it it'(1) nm_cfg_gets [OF assms(2)] by (simp add: nm_read_auth_def nm_types)
qed

lemma read_apn:
  assumes "nm_shape s" "nm_cfg_ok c" "item = CFG_ITEM_LOCAL_APN \<or> item = CFG_ITEM_WAN_APN" "t < 2"
  shows "\<exists>s'. nm_read_apn c item t s = Some (0, s') \<and> nm_same s s'"
proof -
  have z: "length (cfg_val c item) = 32" "0 \<in> set (cfg_val c item)"
    using assms(2,3) nm_cfg_lengths [OF assms(2)] by (auto simp: nm_cfg_ok_def)
  have g: "cfg_get_para item True 32 c = Some (0, cfg_val c item, 32)" using assms(3) nm_cfg_gets [OF assms(2)] by auto
  note it = nm_shape_nth [OF assms(1,4)]
  have "length (ni_apn (nm_item s ! t)) = 32" using it by (simp add: item_shape_def)
  then have b: "blit (ni_apn (nm_item s ! t)) 0 (cfg_val c item) 32 = Some (cfg_val c item)" using z by simp
  have "nm_same s (set_item t (ni_apn_update (\<lambda>_. cfg_val c item)) s)"
    by (rule same_set_item) (simp add: item_shape_def z)
  then show ?thesis using g b it z by (simp add: nm_read_apn_def)
qed

text \<open>A network that is to be dialled.\<close>

definition wanted :: "nm \<Rightarrow> nat \<Rightarrow> bool" where
  "wanted s t \<longleftrightarrow> ni_state (nm_item s ! t) \<noteq> NM_NET_CONNECTED \<and> ni_apn (nm_item s ! t) ! 0 \<noteq> 0"

lemma next_net:
  assumes "nm_shape s"
  shows "nm_dial_get_next_dial_net t s = Some
    (if t = 0 \<or> 2 \<le> t then (if wanted s 1 then 1 else if wanted s 0 then 0 else 2)
     else (if wanted s 0 then 0 else if wanted s 1 then 1 else 2))"
proof -
  note i = nm_shape_nth [OF assms, of 0] nm_shape_nth [OF assms, of 1]
  have h: "has_text (ni_apn (nm_item s ! 0)) = Some (ni_apn (nm_item s ! 0) ! 0 \<noteq> 0)"
    "has_text (ni_apn (nm_item s ! 1)) = Some (ni_apn (nm_item s ! 1) ! 0 \<noteq> 0)" using i item_texts(4) by auto
  have l: "map (\<lambda>k. ((if 2 \<le> t then 0 else t) + k) mod 2) [1..<2] @ [if 2 \<le> t then 0 else t] = (if t = 0 \<or> 2 \<le> t then [1, 0] else [0, 1])"
  proof (cases "t = 1")
    case False
    then have "t = 0 \<or> 2 \<le> t" by linarith
    then show ?thesis by (auto simp: upt_rec)
  qed (simp add: upt_rec)
  show ?thesis
    unfolding nm_dial_get_next_dial_net_def nm_types Let_def l using i h by (simp add: wanted_def nm_types)
qed

lemma first_apn:
  assumes "nm_shape s"
  shows "\<exists>t \<le> 2. first_with_apn [0..<NM_NET_TYPE_NUM] s = Some t"
proof -
  note i = nm_shape_nth [OF assms, of 0] nm_shape_nth [OF assms, of 1]
  have h: "has_text (ni_apn (nm_item s ! 0)) = Some (ni_apn (nm_item s ! 0) ! 0 \<noteq> 0)"
    "has_text (ni_apn (nm_item s ! 1)) = Some (ni_apn (nm_item s ! 1) ! 0 \<noteq> 0)" using i item_texts(4) by auto
  show ?thesis using i h by (simp add: nm_types upt_rec)
qed

lemma notify_eq: "\<exists>es. snd (nm_notify_loop env t st rs s) = s\<lparr>nm_eff := nm_eff s @ es\<rparr>"
proof (induction env t st rs s rule: nm_notify_loop.induct)
  case (2 env t st u cb rs s)
  show ?case
  proof (cases "u = t \<and> ne_told env (length (nm_eff s)) = 0")
    case True
    then obtain es where "snd (nm_notify_loop env t st rs (nm_emit (NmTold cb t st) s)) = (nm_emit (NmTold cb t st) s)\<lparr>nm_eff := nm_eff (nm_emit (NmTold cb t st) s) @ es\<rparr>"
      using 2(1) by auto
    then show ?thesis using True by (auto simp: nm_emit_def Let_def)
  next
    case False
    then show ?thesis using 2(2) by (cases "u = t") (auto simp: Let_def nm_emit_def)
  qed
qed (auto intro: exI [of _ "[]"])

lemma notify_fields [simp]:
  "nm_item (snd (nm_notify_changed env t st s)) = nm_item s" "nm_tbl (snd (nm_notify_changed env t st s)) = nm_tbl s"
  "init_state (snd (nm_notify_changed env t st s)) = init_state s" "cur_type (snd (nm_notify_changed env t st s)) = cur_type s"
  "nm_armed (snd (nm_notify_changed env t st s)) = nm_armed s"
  using notify_eq [of env t st "nm_tbl s" s] by (auto simp: nm_notify_changed_def)

lemma stop_result:
  assumes "nm_dial_stop env t s = Some s'"
  shows "cur_type s' = cur_type s \<and> init_state s' = init_state s \<and> nm_armed s' = nm_armed s \<and> nm_tbl s' = nm_tbl s \<and>
    length (nm_item s') = length (nm_item s) \<and> t < length (nm_item s) \<and>
    (\<forall>u < length (nm_item s). nm_item s' ! u = (if u = t then (nm_item s ! t)\<lparr>ni_handle := None, ni_state := NM_NET_DISCONNECTED\<rparr> else nm_item s ! u))"
proof -
  have t: "t < length (nm_item s)" using assms by (auto simp: nm_dial_stop_def nm_drop_handle_def bind_eq_Some_conv)
  then show ?thesis
    using assms by (auto simp: nm_dial_stop_def nm_drop_handle_def nm_set_disconnected_def set_item_nth Let_def split: option.splits if_splits)
qed

lemma chk_dial:
  assumes "nm_shape s"
  shows "nm_diag_chk_dial_link s = Some (ni_apn (nm_item s ! 0) ! 0 = 0 \<or> ni_state (nm_item s ! 0) = NM_NET_CONNECTED)"
proof -
  note i = nm_shape_nth [OF assms, of 0]
  have v: "nm_net_is_apn_valid 0 s = Some (ni_apn (nm_item s ! 0) ! 0 \<noteq> 0)" "nm_get_net_status 0 s = Some (ni_state (nm_item s ! 0) = NM_NET_CONNECTED)"
    using i item_texts(4) by (simp_all add: nm_net_is_apn_valid_def nm_get_net_status_def)
  have "[0..<2] = [0, 1::nat]" by (simp add: upt_rec)
  then show ?thesis by (simp add: nm_diag_chk_dial_link_def nm_types v)
qed

text \<open>Messages of the modem name one of the two networks.\<close>

definition nm_input_ok :: "nm_env \<Rightarrow> nm_msg \<Rightarrow> bool" where
  "nm_input_ok env m \<longleftrightarrow> nm_cfg_ok (ne_cfg env) \<and> (\<forall>t. m = NmInited t \<longrightarrow> t < 2) \<and> (\<forall>t e i. m = NmStatus t e i \<longrightarrow> t < 2)"

section \<open>What every step keeps\<close>

text \<open>
  The contract of the calls of the network manager: a predicate on its state that holds for states of the right
  shape, does not look behind \<open>nm_core\<close>, and is kept by the five changes of the connection (end, hang-up, call,
  success, start of the library) is kept by every message.
\<close>

locale nm_kept =
  fixes P :: "nm \<Rightarrow> bool" and E :: "nm_env \<Rightarrow> bool" and M :: "nm_msg \<Rightarrow> bool"
  assumes shape: "P s \<Longrightarrow> nm_shape s"
    and same: "P s \<Longrightarrow> nm_same s s' \<Longrightarrow> P s'"
    and disconnected: "P s \<Longrightarrow> E env \<Longrightarrow> t < 2 \<Longrightarrow> \<exists>s'. nm_set_disconnected env t s = Some s' \<and> P s'"
    and stop: "P s \<Longrightarrow> E env \<Longrightarrow> t < 2 \<Longrightarrow> \<exists>s'. nm_dial_stop env t s = Some s' \<and> P s'"
    and start: "P s \<Longrightarrow> E env \<Longrightarrow> t < 2 \<Longrightarrow> ni_handle (nm_item s ! t) = None \<Longrightarrow> init_state s = NM_NET_INITED \<Longrightarrow>
      \<exists>s'. nm_start_call env t s = Some s' \<and> P s'"
    and connected: "P s \<Longrightarrow> E env \<Longrightarrow> t < 2 \<Longrightarrow> ni_state (nm_item s ! t) = NM_NET_CONNECTING \<Longrightarrow>
      P (snd (nm_notify_changed env t NM_REG_MSG_CONNECTED (set_item t (ni_state_update (\<lambda>_. NM_NET_CONNECTED)) s)))"
    and library: "P s \<Longrightarrow> init_state s = NM_NET_NOT_INITED \<Longrightarrow> x = NM_NET_INITING \<or> x = NM_NET_NOT_INITED \<Longrightarrow>
      P ((nm_emit (DsiInit t) s)\<lparr>init_state := x\<rparr>)"
    and inited: "P s \<Longrightarrow> M (NmInited t) \<Longrightarrow> P (s\<lparr>init_state := NM_NET_INITED\<rparr>)"
begin

lemma tm: "P s \<Longrightarrow> P (snd (nm_tm_start env s))"
  by (rule same [OF _ same_tm_start])

lemma call:
  assumes "P s" "E env" "t < 2"
  shows "\<exists>s'. nm_dial_call env t s = Some s' \<and> P s'"
proof -
  obtain ret s1 where s1: "nm_tm_start env s = (ret, s1)" by fastforce
  then have p1: "P s1" using tm [OF assms(1), of env] by simp
  let ?s2 = "set_item t (wait_cnt_update (\<lambda>_. 0)) s1"
  have p2: "P ?s2" by (rule same [OF p1]) (rule same_set_item, simp add: item_shape_def)
  note it = nm_shape_nth [OF shape [OF p1] assms(3)]
  have h: "ni_handle (nm_item ?s2 ! t) = ni_handle (nm_item s1 ! t)" using it by (simp add: set_item_nth)
  show ?thesis
    using s1 p1 p2 it item_texts(4) stop [OF p2 assms(2,3)] start [OF p2 assms(2,3)] h
    by (auto simp: nm_dial_call_def Let_def)
qed

lemma restart: "P s \<Longrightarrow> E env \<Longrightarrow> \<exists>s'. nm_dial_restart env s = Some s' \<and> P s'"
proof -
  assume a: "P s" "E env"
  obtain ret s1 where s1: "nm_tm_start env s = (ret, s1)" by fastforce
  then have p1: "P s1" using tm [OF a(1), of env] by simp
  obtain s2 where s2: "nm_dial_stop env 0 s1 = Some s2" "P s2" using stop [OF p1 a(2), of 0] by auto
  obtain s3 where s3: "nm_dial_stop env 1 s2 = Some s3" "P s3" using stop [OF s2(2) a(2), of 1] by auto
  have "P (s3\<lparr>cur_type := 2\<rparr>)" by (rule same [OF s3(2)]) (rule same_fields)
  then show ?thesis using s1 p1 s2 s3 by (auto simp: nm_dial_restart_def nm_types)
qed

lemma next_call: "P s \<Longrightarrow> E env \<Longrightarrow> \<exists>s'. nm_dial_next env t s = Some s' \<and> P s'"
  using next_net [OF shape, of s t] call [of s env] same [OF _ same_fields(1)]
  by (auto simp: nm_dial_next_def nm_types)

lemma all_net:
  assumes "P s" "E env"
  shows "\<exists>r. nm_dial_all_net env s = Some r \<and> P (snd r)"
proof -
  obtain t where t: "t \<le> 2" "first_with_apn [0..<NM_NET_TYPE_NUM] s = Some t" using first_apn [OF shape [OF assms(1)]] by blast
  show ?thesis
  proof (cases "init_state s = NM_NET_NOT_INITED")
    case True
    have eq: "(nm_emit (DsiInit t) (s\<lparr>init_state := NM_NET_INITING\<rparr>)) = (nm_emit (DsiInit t) s)\<lparr>init_state := NM_NET_INITING\<rparr>"
      "(nm_emit (DsiInit t) (s\<lparr>init_state := NM_NET_INITING\<rparr>))\<lparr>init_state := NM_NET_NOT_INITED\<rparr> = (nm_emit (DsiInit t) s)\<lparr>init_state := NM_NET_NOT_INITED\<rparr>"
      by (simp_all add: nm_emit_def)
    show ?thesis
      using t assms True library [OF assms(1) True] tm by (auto simp: nm_dial_all_net_def Let_def eq simp del: split_paired_Ex)
  next
    case False
    then show ?thesis
      using t assms tm call [OF assms, of t] by (auto simp: nm_dial_all_net_def nm_types simp del: split_paired_Ex)
  qed
qed

lemma set_connected:
  assumes "P s" "E env" "t < 2" "ni_state (nm_item s ! t) = NM_NET_CONNECTING"
  shows "\<exists>s'. nm_set_connected env t s = Some s' \<and> P s'"
  unfolding nm_set_connected_def by (rule next_call [OF connected [OF assms] assms(2)])

lemma conn_msg:
  assumes "P s" "E env" "t < 2" "nm_cfg_ok (ne_cfg env)"
  shows "\<exists>s'. nm_dial_connected env t s = Some s' \<and> P s'"
proof (cases "ni_state (nm_item s ! t) = NM_NET_CONNECTING")
  case True
  obtain ret s1 where s1: "nm_dial_get_conf env t s = Some (ret, s1)" "nm_same s s1"
    using get_conf [OF shape [OF assms(1)] assms(3,4)] by blast
  have p1: "P s1" by (rule same [OF assms(1) s1(2)])
  note it = nm_shape_nth [OF shape [OF assms(1)] assms(3)] and it1 = nm_shape_nth [OF shape [OF p1] assms(3)]
  have "map (\<lambda>it. (ni_handle it, ni_state it)) (nm_item s1) ! t = map (\<lambda>it. (ni_handle it, ni_state it)) (nm_item s) ! t"
    using s1(2) by (simp add: nm_same_def nm_core_def)
  then have "ni_state (nm_item s1 ! t) = NM_NET_CONNECTING" using True it it1 by simp
  then show ?thesis
    using s1(1) it True call [OF p1 assms(2,3)] call [OF assms(1-3)] set_connected [OF p1 assms(2,3)] set_connected [OF assms(1-3)]
    by (cases "ip_type (nm_item s ! t)") (auto simp: nm_dial_connected_def)
qed (use assms nm_shape_nth [OF shape [OF assms(1)] assms(3)] in \<open>simp add: nm_dial_connected_def\<close>)

lemma disc_msg:
  assumes "P s" "E env" "t < 2"
  shows "\<exists>s'. nm_dial_disconnected env t s = Some s' \<and> P s'"
  using all_net [OF assms(1,2)] disconnected [OF assms] tm by (auto simp: nm_dial_disconnected_def)

lemma init_msg:
  assumes "P s" "E env" "t < 2" "M (NmInited t)"
  shows "\<exists>s'. nm_dial_init_msg_proc env t s = Some s' \<and> P s'"
proof -
  have p: "P (s\<lparr>init_state := NM_NET_INITED\<rparr>)" by (rule inited [OF assms(1,4)])
  show ?thesis
    using nm_shape_nth [OF shape [OF assms(1)] assms(3)] item_texts(4) call [OF p assms(2,3)] next_call [OF p assms(2)]
    by (auto simp: nm_dial_init_msg_proc_def Let_def)
qed

lemma settings_msg:
  assumes "P s" "E env" "nm_cfg_ok (ne_cfg env)"
  shows "\<exists>s'. nm_dial_loc_net_proc env s = Some s' \<and> P s'" "\<exists>s'. nm_dial_wan_net_proc env s = Some s' \<and> P s'"
proof -
  obtain s1 where s1: "nm_read_auth (ne_cfg env) s = Some (0, s1)" "nm_same s s1" using read_auth [OF shape [OF assms(1)] assms(3)] by blast
  have p1: "P s1" by (rule same [OF assms(1) s1(2)])
  obtain s2 where s2: "nm_read_apn (ne_cfg env) CFG_ITEM_LOCAL_APN 0 s1 = Some (0, s2)" "nm_same s1 s2"
    using read_apn [OF shape [OF p1] assms(3), of CFG_ITEM_LOCAL_APN 0] by auto
  have p2: "P s2" by (rule same [OF p1 s2(2)])
  show "\<exists>s'. nm_dial_loc_net_proc env s = Some s' \<and> P s'"
    using s1(1) s2(1) restart [OF p2 assms(2)] by (simp add: nm_dial_loc_net_proc_def nm_types)
  obtain s3 where s3: "nm_read_apn (ne_cfg env) CFG_ITEM_WAN_APN 1 s = Some (0, s3)" "nm_same s s3"
    using read_apn [OF shape [OF assms(1)] assms(3), of CFG_ITEM_WAN_APN 1] by auto
  have p3: "P s3" by (rule same [OF assms(1) s3(2)])
  show "\<exists>s'. nm_dial_wan_net_proc env s = Some s' \<and> P s'"
    using s3(1) restart [OF p3 assms(2)] by (simp add: nm_dial_wan_net_proc_def nm_types)
qed

lemma timer_msg:
  assumes "P s" "E env"
  shows "\<exists>s'. nm_dial_timer_msg_proc env s = Some s' \<and> P s'"
proof -
  let ?s1 = "snd (nm_tm_start env s)"
  have p1: "P ?s1" by (rule tm [OF assms(1)])
  have cur: "cur_type ?s1 = cur_type s" by (simp add: nm_tm_start_def Let_def)
  show ?thesis
  proof (cases "init_state s = NM_NET_NOT_INITED \<or> \<not> cur_type s < 2")
    case True
    then show ?thesis
      using all_net [OF assms] next_call [OF assms] by (auto simp: nm_dial_timer_msg_proc_def nm_types)
  next
    case False
    note it = nm_shape_nth [OF shape [OF p1], of "cur_type s"]
    have w: "P (set_item (cur_type s) (wait_cnt_update (\<lambda>n. n + 1)) ?s1)"
      by (rule same [OF p1]) (rule same_set_item, simp add: item_shape_def)
    obtain s2 where s2: "nm_dial_stop env (cur_type s) ?s1 = Some s2" "P s2" using stop [OF p1 assms(2)] False by auto
    have d: "cur_type s2 = cur_type s" "ni_state (nm_item s2 ! cur_type s) = NM_NET_DISCONNECTED"
      using stop_result [OF s2(1)] cur by auto
    have "P (set_item (cur_type s) (ni_state_update (\<lambda>_. NM_NET_DISCONNECTED)) s2)"
      by (rule same [OF s2(2)]) (rule same_set_item, simp add: item_shape_def d(2))
    then show ?thesis
      using False it cur w s2(1) d(1) next_call [OF p1 assms(2)] by (auto simp: nm_dial_timer_msg_proc_def nm_types Let_def)
  qed
qed

lemma diag_msg:
  assumes "P s" "E env"
  shows "\<exists>s'. nm_diag_network env s = Some s' \<and> P s'"
proof -
  obtain dial where d: "nm_diag_chk_dial_link s = Some dial"
    using chk_dial [OF shape [OF assms(1)]] by blast
  obtain s1 where s1: "nm_diag_classify env s = Some s1" "nm_same s s1"
    using d same_fields(4) by (auto simp: nm_diag_classify_def Let_def)
  have p1: "P s1" by (rule same [OF assms(1) s1(2)])
  have e: "P (nm_emit (NmCfun n) s1)" "P (nm_emit NmRestart4G s1)" for n
    by (rule same [OF p1], rule same_emit, simp)+
  obtain s2 where s2: "nm_dial_restart env s1 = Some s2" "P s2" using restart [OF p1 assms(2)] by blast
  show ?thesis
    using assms(1) s1(1) p1 s2 e same [OF e(1) same_fields(3)] same [OF e(2) same_fields(5)] same [OF s2(2) same_fields(3)]
    by (simp add: nm_diag_network_def Let_def)
qed

text \<open>Messages for which every step is defined; the types in those of the modem are the two networks.\<close>

lemma message:
  assumes "P s" "E env" "nm_cfg_ok (ne_cfg env)" "M m" "\<forall>t. m = NmInited t \<longrightarrow> t < 2" "\<forall>t e i. m = NmStatus t e i \<longrightarrow> t < 2"
  shows "\<exists>s'. nm_handle env m s = Some s' \<and> P s'"
proof (cases m)
  case (NmInited t)
  then show ?thesis using assms init_msg by (simp add: nm_handle_def nm_dial_msg_proc_def)
next
  case (NmStatus t evt ip)
  have "P (nm_dial_wds_connected t ip s)"
    by (cases ip) (auto simp: nm_dial_wds_connected_def item_shape_def intro!: same [OF assms(1)] same_set_item assms(1))
  then show ?thesis
    using NmStatus assms conn_msg disc_msg by (cases evt) (simp_all add: nm_handle_def nm_dial_msg_proc_def nm_dial_status_msg_proc_def)
next
  case NmRecall
  then show ?thesis
    using timer_msg [OF same [OF assms(1) same_fields(2)] assms(2)] by (simp add: nm_handle_def nm_dial_msg_proc_def)
next
  case (NmDcomChanged a)
  have "1 < length (nm_item s)" using nm_shape_nth [OF shape [OF assms(1)], of 1] by simp
  then obtain s1 where "nm_dial_add_default_route env 1 s = Some s1" "P s1"
    using default_route [of 1 s env] same [OF assms(1)] by blast
  then show ?thesis
    using NmDcomChanged same [OF assms(1) same_cmds(1)] by (simp add: nm_handle_def nm_dial_msg_proc_def nm_set_dcom_def nm_types)
next
  case NmPwdg
  then show ?thesis using same [OF assms(1) same_emit [of NmFed]] by (simp add: nm_handle_def)
next
  case NmDiag
  then show ?thesis using diag_msg assms by (simp add: nm_handle_def)
qed (use settings_msg [OF assms(1-3)] in \<open>simp_all add: nm_handle_def nm_dial_msg_proc_def\<close>)

lemma run:
  "P s \<Longrightarrow> \<forall>(env, m) \<in> set ms. E env \<and> M m \<and> nm_input_ok env m \<Longrightarrow> \<exists>s'. nm_loop ms s = Some s' \<and> P s'"
proof (induction ms arbitrary: s)
  case (Cons em ms)
  obtain env m where em: "em = (env, m)" by fastforce
  obtain s1 where s1: "nm_handle env m s = Some s1" "P s1"
    using message [of s env m] Cons.prems em by (auto simp: nm_input_ok_def)
  then show ?case using Cons.IH [OF s1(2)] Cons.prems(2) em by auto
qed simp

lemma main:
  assumes "P s" "E env" "\<forall>(env, m) \<in> set ms. E env \<and> M m \<and> nm_input_ok env m"
  shows "\<exists>s'. nm_main env ms s = Some s' \<and> P s'"
proof -
  obtain ret s1 where "nm_dial_all_net env s = Some (ret, s1)" "P s1" using all_net [OF assms(1,2)] by auto
  then show ?thesis using run [OF _ assms(3)] by (simp add: nm_main_def)
qed

end

section \<open>What the modules hear, and the handles\<close>

text \<open>The calls of a callback for a network, and the order they must come in.\<close>

fun heard :: "nat \<Rightarrow> nat \<Rightarrow> nm_effect list \<Rightarrow> nm_state_msg list" where
  "heard t cb [] = []"
| "heard t cb (NmTold c u st # es) = (if c = cb \<and> u = t then st # heard t cb es else heard t cb es)"
| "heard t cb (e # es) = heard t cb es"

fun link_run :: "bool \<Rightarrow> nm_state_msg list \<Rightarrow> bool option" where
  "link_run up [] = Some up"
| "link_run False (NM_REG_MSG_CONNECTED # ms) = link_run True ms"
| "link_run True (NM_REG_MSG_DISCONNECTED # ms) = link_run False ms"
| "link_run up (m # ms) = None"

definition gets :: "nat \<Rightarrow> nm_effect list \<Rightarrow> nat" where
  "gets h es = length (filter (\<lambda>e. e = DsiGet (Some h)) es)"

definition rels :: "nat \<Rightarrow> nm_effect list \<Rightarrow> nat" where
  "rels h es = length (filter (\<lambda>e. e = DsiRel h) es)"

lemma heard_append [simp]: "heard t cb (es @ fs) = heard t cb es @ heard t cb fs"
  by (induction t cb es rule: heard.induct) auto

lemma heard_rel [simp]: "heard t cb (filter nm_rel es) = heard t cb es"
  by (induction t cb es rule: heard.induct) auto

lemma link_run_append: "link_run up (ms @ ns) = Option.bind (link_run up ms) (\<lambda>u. link_run u ns)"
  by (induction up ms rule: link_run.induct) auto

lemma counts_append [simp]: "gets h (es @ fs) = gets h es + gets h fs" "rels h (es @ fs) = rels h es + rels h fs"
  by (simp_all add: gets_def rels_def)

lemma counts_rel [simp]: "gets h (filter nm_rel es) = gets h es" "rels h (filter nm_rel es) = rels h es"
proof -
  have "filter (\<lambda>e. e = DsiGet (Some h)) (filter nm_rel es) = filter (\<lambda>e. e = DsiGet (Some h)) es"
    "filter (\<lambda>e. e = DsiRel h) (filter nm_rel es) = filter (\<lambda>e. e = DsiRel h) es"
    by (auto simp: filter_filter intro!: filter_cong)
  then show "gets h (filter nm_rel es) = gets h es" "rels h (filter nm_rel es) = rels h es" by (simp_all add: gets_def rels_def)
qed

lemma counts_simps [simp]: "gets h [] = 0" "rels h [] = 0" "gets h [NmTold c t st] = 0" "rels h [NmTold c t st] = 0"
  "gets h [DsiRel g] = 0" "rels h [DsiRel g] = (if g = h then 1 else 0)" "rels h [DsiGet x] = 0"
  "gets h [DsiGet x] = (if x = Some h then 1 else 0)" "gets h [DsiStart t g] = 0" "rels h [DsiStart t g] = 0"
  by (simp_all add: gets_def rels_def)

text \<open>
  The calls of \<open>nm_notify_changed\<close>: those of the registrations for the network up to the first that fails. All
  are called if none fails; the first is called in any case.
\<close>

definition tolds :: "nat \<Rightarrow> nm_state_msg \<Rightarrow> (nat \<times> nat) list \<Rightarrow> nm_effect list" where
  "tolds t st rs = map (\<lambda>(u, cb). NmTold cb t st) (filter (\<lambda>(u, cb). u = t) rs)"

definition told_ok :: "nm_env \<Rightarrow> bool" where
  "told_ok env \<longleftrightarrow> (\<forall>n. ne_told env n = 0)"

definition firsts :: "(nat \<times> nat) list \<Rightarrow> (nat \<times> nat) set" where
  "firsts rs = {(t, cb). find (\<lambda>(u, c). u = t) rs = Some (t, cb)}"

lemma notify_told:
  "\<exists>k. snd (nm_notify_loop env t st rs s) = s\<lparr>nm_eff := nm_eff s @ tolds t st (take k rs)\<rparr> \<and> (told_ok env \<longrightarrow> take k rs = rs) \<and>
     (\<forall>cb. find (\<lambda>(u, c). u = t) rs = Some (t, cb) \<longrightarrow> (t, cb) \<in> set (take k rs))"
proof (induction env t st rs s rule: nm_notify_loop.induct)
  case (2 env t st u cb rs s)
  let ?s1 = "nm_emit (NmTold cb t st) s"
  show ?case
  proof (cases "u = t")
    case True
    show ?thesis
    proof (cases "ne_told env (length (nm_eff s)) = 0")
      case ok: True
      have "\<exists>k. snd (nm_notify_loop env t st rs ?s1) = ?s1\<lparr>nm_eff := nm_eff ?s1 @ tolds t st (take k rs)\<rparr> \<and>
          (told_ok env \<longrightarrow> take k rs = rs)"
        using 2(1) [of "ne_told env (length (nm_eff s))" ?s1] True ok by auto
      then obtain k where k: "snd (nm_notify_loop env t st rs ?s1) = ?s1\<lparr>nm_eff := nm_eff ?s1 @ tolds t st (take k rs)\<rparr>"
          "told_ok env \<longrightarrow> take k rs = rs"
        by blast
      show ?thesis by (rule exI [of _ "Suc k"]) (use True ok k in \<open>simp add: Let_def tolds_def nm_emit_def\<close>)
    next
      case False
      then have "\<not> told_ok env" by (auto simp: told_ok_def)
      then show ?thesis by (intro exI [of _ 1]) (use True False in \<open>simp add: Let_def tolds_def nm_emit_def\<close>)
    qed
  next
    case False
    then obtain k where k: "snd (nm_notify_loop env t st rs s) = s\<lparr>nm_eff := nm_eff s @ tolds t st (take k rs)\<rparr>"
        "told_ok env \<longrightarrow> take k rs = rs" "\<forall>cb. find (\<lambda>(u, c). u = t) rs = Some (t, cb) \<longrightarrow> (t, cb) \<in> set (take k rs)"
      using 2(2) by auto
    show ?thesis by (rule exI [of _ "Suc k"]) (use False k in \<open>simp add: tolds_def\<close>)
  qed
qed (simp add: tolds_def)

lemma heard_tolds:
  "distinct rs \<Longrightarrow> heard u cb (tolds t st rs) = (if u = t \<and> (u, cb) \<in> set rs then [st] else [])"
proof (induction rs)
  case (Cons r rs)
  then show ?case by (cases r) (auto simp: tolds_def)
qed (simp add: tolds_def)

lemma tolds_counts: "gets h (tolds t st rs) = 0" "rels h (tolds t st rs) = 0"
  by (auto simp: tolds_def gets_def rels_def filter_empty_conv)

definition tells :: "nm_env \<Rightarrow> nat \<Rightarrow> nm_state_msg \<Rightarrow> nm \<Rightarrow> nm_effect list" where
  "tells env t st s = drop (length (nm_eff s)) (nm_eff (snd (nm_notify_changed env t st s)))"

lemma tells_eff: "snd (nm_notify_changed env t st s) = s\<lparr>nm_eff := nm_eff s @ tells env t st s\<rparr>"
  using notify_eq [of env t st "nm_tbl s" s] by (auto simp: tells_def nm_notify_changed_def)

lemma tells_prefix:
  "\<exists>k. tells env t st s = tolds t st (take k (nm_tbl s)) \<and> (told_ok env \<longrightarrow> take k (nm_tbl s) = nm_tbl s) \<and>
     (\<forall>cb. find (\<lambda>(u, c). u = t) (nm_tbl s) = Some (t, cb) \<longrightarrow> (t, cb) \<in> set (take k (nm_tbl s)))"
proof -
  obtain k where k: "snd (nm_notify_loop env t st (nm_tbl s) s) = s\<lparr>nm_eff := nm_eff s @ tolds t st (take k (nm_tbl s))\<rparr>"
      "told_ok env \<longrightarrow> take k (nm_tbl s) = nm_tbl s"
      "\<forall>cb. find (\<lambda>(u, c). u = t) (nm_tbl s) = Some (t, cb) \<longrightarrow> (t, cb) \<in> set (take k (nm_tbl s))"
    using notify_told [of env t st "nm_tbl s" s] by blast
  have "tells env t st s = tolds t st (take k (nm_tbl s))" by (simp add: tells_def nm_notify_changed_def k(1))
  with k(2,3) show ?thesis by blast
qed

lemma tells_counts [simp]: "gets h (tells env t st s) = 0" "rels h (tells env t st s) = 0"
  using tells_prefix [of env t st s] tolds_counts by metis+

text \<open>The registrations \<open>A\<close> whose callbacks are called whenever their network changes.\<close>

definition hears :: "(nat \<times> nat) set \<Rightarrow> (nat \<times> nat) list \<Rightarrow> nm_env \<Rightarrow> bool" where
  "hears A rs env \<longleftrightarrow> A \<subseteq> firsts rs \<or> told_ok env"

lemma tells_heard:
  assumes "hears A (nm_tbl s) env" "distinct (nm_tbl s)" "A \<subseteq> set (nm_tbl s)" "(u, cb) \<in> A"
  shows "heard u cb (tells env t st s) = (if u = t then [st] else [])"
proof -
  obtain k where k: "tells env t st s = tolds t st (take k (nm_tbl s))" "told_ok env \<longrightarrow> take k (nm_tbl s) = nm_tbl s"
      "\<forall>cb. find (\<lambda>(u, c). u = t) (nm_tbl s) = Some (t, cb) \<longrightarrow> (t, cb) \<in> set (take k (nm_tbl s))"
    using tells_prefix [of env t st s] by blast
  have "(u, cb) \<in> set (take k (nm_tbl s))" if "u = t"
  proof (cases "told_ok env")
    case True
    then show ?thesis using k(2) assms(3,4) by auto
  next
    case False
    then have "(u, cb) \<in> firsts (nm_tbl s)" using assms(1,4) by (auto simp: hears_def)
    then show ?thesis using k(3) that by (simp add: firsts_def)
  qed
  then show ?thesis using k(1) heard_tolds [OF distinct_take [OF assms(2)]] by auto
qed

text \<open>The invariant over \<open>nm_core\<close>: the modem's handles, and what the callbacks of \<open>A\<close> have heard.\<close>

definition links_ok :: "(nat \<times> nat) set \<Rightarrow> (nat option \<times> NM_NET_STATE) list \<Rightarrow> (nat \<times> nat) list \<Rightarrow> nm_effect list \<Rightarrow> bool" where
  "links_ok A xs rs es \<longleftrightarrow> distinct rs \<and> A \<subseteq> set rs \<and>
     (\<forall>t < length xs. snd (xs ! t) \<in> {NM_NET_CONNECTING, NM_NET_CONNECTED, NM_NET_DISCONNECTED} \<and>
       (snd (xs ! t) \<noteq> NM_NET_DISCONNECTED \<longrightarrow> fst (xs ! t) \<noteq> None)) \<and>
     (\<forall>h. gets h es = rels h es + length (filter (\<lambda>x. fst x = Some h) xs)) \<and>
     (\<forall>(t, cb) \<in> A. t < length xs \<longrightarrow> link_run False (heard t cb es) = Some (snd (xs ! t) = NM_NET_CONNECTED))"

definition nm_inv :: "(nat \<times> nat) set \<Rightarrow> nm \<Rightarrow> bool" where
  "nm_inv A s \<longleftrightarrow> nm_shape s \<and> links_ok A (map (\<lambda>it. (ni_handle it, ni_state it)) (nm_item s)) (nm_tbl s) (nm_eff s)"

lemma links_rel: "links_ok A xs rs (filter nm_rel es) = links_ok A xs rs es"
  by (simp add: links_ok_def)

lemma inv_same: "nm_inv A s \<Longrightarrow> nm_same s s' \<Longrightarrow> nm_inv A s'"
proof -
  assume a: "nm_inv A s" "nm_same s s'"
  then have c: "nm_core s' = nm_core s" "nm_shape s'" by (auto simp: nm_inv_def nm_same_def)
  have "links_ok A (map (\<lambda>it. (ni_handle it, ni_state it)) (nm_item s)) (nm_tbl s) (filter nm_rel (nm_eff s))"
    using a(1) by (simp add: nm_inv_def links_rel)
  then have "links_ok A (map (\<lambda>it. (ni_handle it, ni_state it)) (nm_item s')) (nm_tbl s') (filter nm_rel (nm_eff s'))"
    using c(1) by (simp add: nm_core_def)
  then show ?thesis using c(2) by (simp add: nm_inv_def links_rel)
qed

lemma held_update:
  assumes "t < length xs"
  shows "length (filter (\<lambda>x. fst x = Some h) (xs[t := y])) + (if fst (xs ! t) = Some h then 1 else 0) =
    length (filter (\<lambda>x. fst x = Some h) xs) + (if fst y = Some h then 1 else 0)"
proof -
  have xs: "xs = take t xs @ xs ! t # drop (Suc t) xs" using assms by (rule id_take_nth_drop)
  have "xs[t := y] = take t xs @ y # drop (Suc t) xs" using assms by (rule upd_conv_take_nth_drop)
  then show ?thesis using arg_cong [OF xs, of "\<lambda>l. length (filter (\<lambda>x. fst x = Some h) l)"] by simp
qed

text \<open>One change of a network: its new handle and state, with the calls that belong to it.\<close>

lemma links_change:
  assumes l: "links_ok A xs rs es" and t: "t < length xs"
    and st: "st \<in> {NM_NET_CONNECTING, NM_NET_CONNECTED, NM_NET_DISCONNECTED}" "st \<noteq> NM_NET_DISCONNECTED \<Longrightarrow> h' \<noteq> None"
    and g: "\<And>h. gets h fs + (if fst (xs ! t) = Some h then 1 else 0) = rels h fs + (if h' = Some h then 1 else 0)"
    and hr: "\<And>u cb. (u, cb) \<in> A \<Longrightarrow> u < length xs \<Longrightarrow>
      heard u cb fs = (if u = t \<and> (snd (xs ! t) = NM_NET_CONNECTED) \<noteq> (st = NM_NET_CONNECTED)
        then [if st = NM_NET_CONNECTED then NM_REG_MSG_CONNECTED else NM_REG_MSG_DISCONNECTED] else [])"
  shows "links_ok A (xs[t := (h', st)]) rs (es @ fs)"
proof -
  have "gets h es + gets h fs = rels h es + rels h fs + length (filter (\<lambda>x. fst x = Some h) (xs[t := (h', st)]))" for h
  proof -
    have "gets h es = rels h es + length (filter (\<lambda>x. fst x = Some h) xs)" using l by (simp add: links_ok_def)
    then show ?thesis using held_update [OF t, of h "(h', st)"] g [of h] by simp
  qed
  moreover have "link_run False (heard u cb (es @ fs)) = Some (snd (xs[t := (h', st)] ! u) = NM_NET_CONNECTED)"
    if u: "(u, cb) \<in> A" "u < length xs" for u cb
  proof -
    have "link_run False (heard u cb es) = Some (snd (xs ! u) = NM_NET_CONNECTED)" using l u by (auto simp: links_ok_def)
    then show ?thesis using hr [OF u] t by (auto simp: link_run_append nth_list_update)
  qed
  ultimately show ?thesis using l st t by (auto simp: links_ok_def nth_list_update)
qed

lemma inv_change:
  assumes "nm_inv A s" "t < 2" "item_shape (f (nm_item s ! t))" "nm_item s' = (nm_item s)[t := f (nm_item s ! t)]"
    "nm_tbl s' = nm_tbl s" "nm_eff s' = nm_eff s @ fs"
    "ni_state (f (nm_item s ! t)) \<in> {NM_NET_CONNECTING, NM_NET_CONNECTED, NM_NET_DISCONNECTED}"
    "ni_state (f (nm_item s ! t)) \<noteq> NM_NET_DISCONNECTED \<Longrightarrow> ni_handle (f (nm_item s ! t)) \<noteq> None"
    "\<And>h. gets h fs + (if ni_handle (nm_item s ! t) = Some h then 1 else 0) = rels h fs + (if ni_handle (f (nm_item s ! t)) = Some h then 1 else 0)"
    "\<And>u cb. (u, cb) \<in> A \<Longrightarrow> u < 2 \<Longrightarrow>
      heard u cb fs = (if u = t \<and> (ni_state (nm_item s ! t) = NM_NET_CONNECTED) \<noteq> (ni_state (f (nm_item s ! t)) = NM_NET_CONNECTED)
        then [if ni_state (f (nm_item s ! t)) = NM_NET_CONNECTED then NM_REG_MSG_CONNECTED else NM_REG_MSG_DISCONNECTED] else [])"
  shows "nm_inv A s'"
proof -
  have l: "length (nm_item s) = 2" using assms(1) by (simp add: nm_inv_def nm_shape_def)
  let ?xs = "map (\<lambda>it. (ni_handle it, ni_state it)) (nm_item s)"
  have n: "?xs ! t = (ni_handle (nm_item s ! t), ni_state (nm_item s ! t))" using assms(2) l by simp
  have "links_ok A (?xs[t := (ni_handle (f (nm_item s ! t)), ni_state (f (nm_item s ! t)))]) (nm_tbl s) (nm_eff s @ fs)"
  proof (rule links_change)
    show "links_ok A ?xs (nm_tbl s) (nm_eff s)" using assms(1) by (simp add: nm_inv_def)
    show "t < length ?xs" using assms(2) l by simp
  qed (use assms(7-10) n l in auto)
  moreover have "nm_shape s'"
    using assms(1-4) by (auto simp: nm_inv_def nm_shape_def nth_list_update)
  ultimately show ?thesis using assms(4-6) by (simp add: nm_inv_def map_update)
qed

lemma inv_nth: "nm_inv A s \<Longrightarrow> t < 2 \<Longrightarrow> t < length (nm_item s) \<and> item_shape (nm_item s ! t) \<and>
    ni_state (nm_item s ! t) \<in> {NM_NET_CONNECTING, NM_NET_CONNECTED, NM_NET_DISCONNECTED} \<and>
    (ni_state (nm_item s ! t) \<noteq> NM_NET_DISCONNECTED \<longrightarrow> ni_handle (nm_item s ! t) \<noteq> None) \<and> distinct (nm_tbl s) \<and> A \<subseteq> set (nm_tbl s)"
  using nm_shape_nth [of s t] by (auto simp: nm_inv_def links_ok_def)

lemma inv_disconnected:
  assumes "nm_inv A s" "hears A (nm_tbl s) env" "t < 2"
  shows "\<exists>s'. nm_set_disconnected env t s = Some s' \<and> nm_inv A s' \<and> nm_tbl s' = nm_tbl s"
proof -
  note i = inv_nth [OF assms(1,3)]
  let ?f = "ni_state_update (\<lambda>_. NM_NET_DISCONNECTED)"
  let ?fs = "if ni_state (nm_item s ! t) = NM_NET_CONNECTED then tells env t NM_REG_MSG_DISCONNECTED (set_item t ?f s) else []"
  let ?s' = "(set_item t ?f s)\<lparr>nm_eff := nm_eff s @ ?fs\<rparr>"
  have "nm_set_disconnected env t s = Some ?s'"
    using i by (simp add: nm_set_disconnected_def Let_def tells_eff)
  moreover note h = tells_heard [of A "set_item t ?f s" env]
  moreover have "nm_inv A ?s'"
    by (rule inv_change [of A s t ?f _ ?fs]) (use assms i h in \<open>auto simp: item_shape_def set_item_def\<close>)
  moreover have "nm_tbl ?s' = nm_tbl s" by simp
  ultimately show ?thesis by blast
qed

lemma inv_stop:
  assumes "nm_inv A s" "hears A (nm_tbl s) env" "t < 2"
  shows "\<exists>s'. nm_dial_stop env t s = Some s' \<and> nm_inv A s' \<and> nm_tbl s' = nm_tbl s"
proof -
  note i = inv_nth [OF assms(1,3)]
  let ?f = "\<lambda>it. it\<lparr>ni_handle := None, ni_state := NM_NET_DISCONNECTED\<rparr>"
  let ?gs = "case ni_handle (nm_item s ! t) of None \<Rightarrow> [] | Some h \<Rightarrow> (if ni_state (nm_item s ! t) = NM_NET_CONNECTED then [DsiStop h] else []) @ [DsiRel h]"
  let ?g = "ni_state_update (\<lambda>_. NM_NET_DISCONNECTED)"
  define d where "d = (case ni_handle (nm_item s ! t) of None \<Rightarrow> s
       | Some h \<Rightarrow> set_item t (ni_handle_update (\<lambda>_. None))
           (nm_emit (DsiRel h) (if ni_state (nm_item s ! t) = NM_NET_CONNECTED then nm_emit (DsiStop h) s else s)))"
  let ?fs = "?gs @ (if ni_state (nm_item s ! t) = NM_NET_CONNECTED then tells env t NM_REG_MSG_DISCONNECTED (set_item t ?g d) else [])"
  let ?s' = "(set_item t ?f s)\<lparr>nm_eff := nm_eff s @ ?fs\<rparr>"
  have dr: "nm_drop_handle t s = Some d" using i by (simp add: nm_drop_handle_def d_def)
  have dd: "t < length (nm_item d)" "ni_state (nm_item d ! t) = ni_state (nm_item s ! t)" "nm_tbl d = nm_tbl s"
    using i by (auto simp: d_def set_item_nth split: option.splits)
  have hn: "ni_handle (nm_item s ! t) = None \<Longrightarrow>
      (nm_item s ! t)\<lparr>ni_handle := None, ni_state := NM_NET_DISCONNECTED\<rparr> = (nm_item s ! t)\<lparr>ni_state := NM_NET_DISCONNECTED\<rparr>"
    by (cases "nm_item s ! t") simp
  have sd: "set_item t ?g d = (set_item t ?f s)\<lparr>nm_eff := nm_eff s @ ?gs\<rparr>"
    using i by (cases "ni_handle (nm_item s ! t)") (auto simp: d_def set_item_def nm_emit_def hn)
  have ed: "nm_eff d = nm_eff s @ ?gs" using arg_cong [OF sd, of nm_eff] by simp
  have "nm_set_disconnected env t d = Some (if ni_state (nm_item s ! t) = NM_NET_CONNECTED
      then (set_item t ?g d)\<lparr>nm_eff := nm_eff (set_item t ?g d) @ tells env t NM_REG_MSG_DISCONNECTED (set_item t ?g d)\<rparr>
      else set_item t ?g d)"
    using dd(1,2) by (simp add: nm_set_disconnected_def Let_def tells_eff)
  then have eq: "nm_dial_stop env t s = Some ?s'"
    using dr ed by (simp add: nm_dial_stop_def) (simp add: sd)
  have th: "heard u cb (tells env t NM_REG_MSG_DISCONNECTED (set_item t ?g d)) = (if u = t then [NM_REG_MSG_DISCONNECTED] else [])"
    if "(u, cb) \<in> A" for u cb
    by (rule tells_heard [OF _ _ _ that]) (use assms(2) i dd(3) in simp_all)
  have c: "gets h ?gs = 0" "rels h ?gs = (if ni_handle (nm_item s ! t) = Some h then 1 else 0)" "heard u cb ?gs = []" for h u cb
    by (simp_all add: gets_def rels_def split: option.split)
  have "nm_inv A ?s'"
  proof (rule inv_change [of A s t ?f _ ?fs])
    show "gets h ?fs + (if ni_handle (nm_item s ! t) = Some h then 1 else 0) = rels h ?fs + (if ni_handle (?f (nm_item s ! t)) = Some h then 1 else 0)" for h
      unfolding counts_append c by simp
    show "heard u cb ?fs = (if u = t \<and> (ni_state (nm_item s ! t) = NM_NET_CONNECTED) \<noteq> (ni_state (?f (nm_item s ! t)) = NM_NET_CONNECTED)
        then [if ni_state (?f (nm_item s ! t)) = NM_NET_CONNECTED then NM_REG_MSG_CONNECTED else NM_REG_MSG_DISCONNECTED] else [])"
      if "(u, cb) \<in> A" "u < 2" for u cb
      unfolding heard_append c using i th [OF that(1)] by (cases "u = t") auto
  qed (use assms i in \<open>auto simp: item_shape_def set_item_def\<close>)
  moreover have "nm_tbl ?s' = nm_tbl s" by simp
  ultimately show ?thesis using eq by blast
qed

lemma inv_started_call:
  assumes "nm_inv A s" "hears A (nm_tbl s) env" "t < 2" "ni_handle (nm_item s ! t) = None"
  shows "\<exists>s'. nm_start_call env t s = Some s' \<and> nm_inv A s' \<and> nm_tbl s' = nm_tbl s"
proof -
  note i = inv_nth [OF assms(1,3)]
  then have d: "ni_state (nm_item s ! t) = NM_NET_DISCONNECTED" using assms(4) by blast
  let ?h = "ne_handle env (length (nm_eff s))"
  let ?f = "ni_handle_update (\<lambda>_. ?h)"
  let ?s1 = "set_item t ?f (nm_emit (DsiGet ?h) s)"
  have p1: "nm_inv A ?s1"
    by (rule inv_change [of A s t ?f _ "[DsiGet ?h]"]) (use assms i d in \<open>auto simp: item_shape_def set_item_def\<close>)
  show ?thesis
  proof (cases ?h)
    case None
    then show ?thesis using p1 by (simp add: nm_start_call_def Let_def)
  next
    case (Some h)
    obtain s2 where s2: "nm_dial_para_set t h ?s1 = Some s2" "nm_same ?s1 s2"
      using para_set [of ?s1 t h] p1 assms(3) by (auto simp: nm_inv_def)
    have p2: "nm_inv A s2" by (rule inv_same [OF p1 s2(2)])
    note i2 = inv_nth [OF p2 assms(3)]
    have "map (\<lambda>it. (ni_handle it, ni_state it)) (nm_item s2) ! t = map (\<lambda>it. (ni_handle it, ni_state it)) (nm_item ?s1) ! t"
      using s2(2) by (simp add: nm_same_def nm_core_def)
    then have h2: "ni_handle (nm_item s2 ! t) = Some h" "ni_state (nm_item s2 ! t) = NM_NET_DISCONNECTED"
      using i i2 Some d by (simp_all add: set_item_nth)
    let ?s3 = "nm_emit (DsiStart t h) s2"
    have p3: "nm_inv A ?s3"
      by (rule inv_change [of A s2 t "\<lambda>it. it" _ "[DsiStart t h]"]) (use p2 assms i2 h2 in auto)
    let ?g = "ni_state_update (\<lambda>_. NM_NET_CONNECTING)"
    have p4: "nm_inv A ((set_item t ?g ?s3)\<lparr>cur_type := t\<rparr>)"
      by (rule inv_change [of A ?s3 t ?g _ "[]"]) (use p3 assms i2 h2 in \<open>auto simp: item_shape_def set_item_def\<close>)
    have "nm_tbl s2 = nm_tbl s" using s2(2) by (simp add: nm_same_def nm_core_def)
    then show ?thesis using Some s2(1) p3 p4 by (simp add: nm_start_call_def Let_def)
  qed
qed

interpretation nm_links: nm_kept "\<lambda>s. nm_inv A s \<and> nm_tbl s = rs" "hears A rs" "\<lambda>m. True" for A rs
proof (unfold_locales, goal_cases)
  case (1 s)
  then show ?case by (simp add: nm_inv_def)
next
  case (2 s s')
  then show ?case using inv_same by (auto simp: nm_same_def nm_core_def)
next
  case (6 s env t)
  note i = inv_nth [OF conjunct1 [OF 6(1)] 6(3)]
  let ?f = "ni_state_update (\<lambda>_. NM_NET_CONNECTED)"
  have "nm_inv A (snd (nm_notify_changed env t NM_REG_MSG_CONNECTED (set_item t ?f s)))"
    by (rule inv_change [of A s t ?f _ "tells env t NM_REG_MSG_CONNECTED (set_item t ?f s)"])
      (use 6 i tells_heard [of A "set_item t ?f s" env] in \<open>auto simp: tells_eff item_shape_def set_item_def\<close>)
  then show ?case using 6(1) by simp
next
  case (7 s x t)
  then show ?case by (auto simp: nm_inv_def nm_shape_def links_ok_def gets_def rels_def)
next
  case (8 s t)
  then show ?case by (auto simp: nm_inv_def nm_shape_def)
next
  case (3 s env t)
  then show ?case using inv_disconnected by blast
next
  case (4 s env t)
  then show ?case using inv_stop by blast
next
  case (5 s env t)
  then show ?case using inv_started_call by blast
qed

section \<open>A library that never says it is ready\<close>

fun is_call :: "nm_effect \<Rightarrow> bool" where
  "is_call (DsiInit t) = True"
| "is_call (DsiStart t h) = True"
| "is_call e = False"

definition calls_made :: "nm_effect list \<Rightarrow> nm_effect list" where
  "calls_made es = filter is_call es"

lemma calls_append [simp]: "calls_made (es @ fs) = calls_made es @ calls_made fs"
  by (simp add: calls_made_def)

lemma calls_rel [simp]: "calls_made (filter nm_rel es) = calls_made es"
proof -
  have "is_call e \<Longrightarrow> nm_rel e" for e by (cases e) auto
  then show ?thesis by (auto simp: calls_made_def filter_filter intro!: filter_cong)
qed

lemma notify_calls: "calls_made (nm_eff (snd (nm_notify_loop env t st rs s))) = calls_made (nm_eff s)"
  by (induction env t st rs s rule: nm_notify_loop.induct) (auto simp: Let_def calls_made_def)

lemma notify_changed_calls [simp]: "calls_made (nm_eff (snd (nm_notify_changed env t st s))) = calls_made (nm_eff s)"
  by (simp add: nm_notify_changed_def notify_calls)

definition waiting :: "nm_effect list \<Rightarrow> nm \<Rightarrow> bool" where
  "waiting cs s \<longleftrightarrow> nm_shape s \<and> init_state s = NM_NET_INITING \<and> calls_made (nm_eff s) = cs"

lemma waiting_state: "waiting cs s \<Longrightarrow> waiting cs (set_item t (ni_state_update (\<lambda>_. st)) s)"
  by (auto simp: waiting_def item_shape_def nm_shape_def set_item_nth)

lemma waiting_notify: "waiting cs s \<Longrightarrow> waiting cs (snd (nm_notify_changed env t st s))"
  by (simp add: waiting_def nm_shape_def)

lemma waiting_disconnected: "waiting cs s \<Longrightarrow> t < 2 \<Longrightarrow> \<exists>s'. nm_set_disconnected env t s = Some s' \<and> waiting cs s'"
  using nm_shape_nth [of s t] waiting_state waiting_notify by (simp add: nm_set_disconnected_def Let_def waiting_def)

interpretation nm_waiting: nm_kept "waiting cs" "\<lambda>env. True" "\<lambda>m. \<forall>t. m \<noteq> NmInited t" for cs
proof (unfold_locales, goal_cases)
  case (1 s)
  then show ?case by (simp add: waiting_def)
next
  case (2 s s')
  then have "calls_made (filter nm_rel (nm_eff s')) = calls_made (filter nm_rel (nm_eff s))" "init_state s' = init_state s" "nm_shape s'"
    by (auto simp: nm_same_def nm_core_def waiting_def)
  then show ?case using 2 by (simp add: waiting_def)
next
  case (3 s env t)
  then show ?case using waiting_disconnected by blast
next
  case (4 s env t)
  obtain s1 where s1: "nm_drop_handle t s = Some s1" "waiting cs s1"
    using nm_shape_nth [of s t] 4 by (auto simp: waiting_def nm_drop_handle_def calls_made_def item_shape_def nm_shape_def set_item_nth split: option.splits)
  then show ?case using waiting_disconnected [OF s1(2) 4(3)] by (simp add: nm_dial_stop_def)
next
  case (6 s env t)
  then show ?case
    using waiting_state waiting_notify by blast
qed (auto simp: waiting_def)

section \<open>The recall timer\<close>

lemma emits_fields [simp]:
  "nm_item (fold nm_emit es s) = nm_item s" "cur_type (fold nm_emit es s) = cur_type s" "init_state (fold nm_emit es s) = init_state s"
  "nm_armed (fold nm_emit es s) = nm_armed s"
  by (induction es arbitrary: s) auto

lemma para_set_result:
  assumes "nm_dial_para_set t h s = Some s'"
  shows "cur_type s' = cur_type s \<and> init_state s' = init_state s \<and> nm_armed s' = nm_armed s \<and>
    (\<exists>a. nm_item s' = (nm_item s)[t := (nm_item s ! t)\<lparr>auth_pref := a\<rparr>])"
  using assms by (auto simp: nm_dial_para_set_def bind_eq_Some_conv Let_def set_item_def)

definition modem_ok :: "nm_env \<Rightarrow> bool" where
  "modem_ok env \<longleftrightarrow> (\<forall>n. ne_tm env n = 0 \<and> ne_handle env n \<noteq> None \<and> ne_call env n = 0)"

lemma start_result:
  assumes "nm_shape s" "modem_ok env" "t < 2"
  shows "\<exists>s'. nm_start_call env t s = Some s' \<and> nm_shape s' \<and> cur_type s' = t \<and> init_state s' = init_state s \<and> nm_armed s' = nm_armed s \<and>
    (\<forall>u < 2. u \<noteq> t \<longrightarrow> nm_item s' ! u = nm_item s ! u) \<and> ni_state (nm_item s' ! t) = NM_NET_CONNECTING \<and>
    ni_apn (nm_item s' ! t) = ni_apn (nm_item s ! t) \<and> wait_cnt (nm_item s' ! t) = wait_cnt (nm_item s ! t)"
proof -
  obtain h where h: "ne_handle env (length (nm_eff s)) = Some h" using assms(2) by (auto simp: modem_ok_def)
  let ?s1 = "set_item t (ni_handle_update (\<lambda>_. Some h)) (nm_emit (DsiGet (Some h)) s)"
  have sh: "nm_shape ?s1" using assms(1,3) by (auto simp: nm_shape_def set_item_nth item_shape_def)
  obtain s2 where s2: "nm_dial_para_set t h ?s1 = Some s2" "nm_same ?s1 s2" using para_set [OF sh assms(3)] by blast
  have l: "length (nm_item s) = 2" using assms(1) by (simp add: nm_shape_def)
  obtain a where r: "cur_type s2 = cur_type s" "init_state s2 = init_state s" "nm_armed s2 = nm_armed s"
    "nm_item s2 = (nm_item s)[t := (nm_item s ! t)\<lparr>ni_handle := Some h, auth_pref := a\<rparr>]"
    using para_set_result [OF s2(1)] assms(3) l by (auto simp: set_item_def)
  let ?s' = "(set_item t (ni_state_update (\<lambda>_. NM_NET_CONNECTING)) (nm_emit (DsiStart t h) s2))\<lparr>cur_type := t\<rparr>"
  have "nm_start_call env t s = Some ?s'" using h s2(1) assms(2) by (simp add: nm_start_call_def Let_def modem_ok_def)
  moreover have "nm_shape s2" using sh s2(2) by (simp add: nm_same_def)
  then have "nm_shape ?s'" by (auto simp: nm_shape_def set_item_nth item_shape_def)
  ultimately show ?thesis
    using r assms(3) l by (intro exI [of _ ?s']) (auto simp: set_item_nth)
qed

text \<open>A call of a network that is not up: it is dialled, or hung up first if it still has a handle.\<close>

lemma call_result:
  assumes "nm_shape s" "init_state s = NM_NET_INITED" "modem_ok env" "t < 2" "wanted s t"
  shows "\<exists>s'. nm_dial_call env t s = Some s' \<and> nm_shape s' \<and> init_state s' = NM_NET_INITED \<and>
    (\<forall>u < 2. u \<noteq> t \<longrightarrow> nm_item s' ! u = nm_item s ! u) \<and> ni_apn (nm_item s' ! t) = ni_apn (nm_item s ! t) \<and>
    (if ni_handle (nm_item s ! t) = None
     then cur_type s' = t \<and> ni_state (nm_item s' ! t) = NM_NET_CONNECTING \<and> wait_cnt (nm_item s' ! t) = 0
     else cur_type s' = cur_type s \<and> ni_state (nm_item s' ! t) = NM_NET_DISCONNECTED \<and> ni_handle (nm_item s' ! t) = None)"
proof -
  have l: "length (nm_item s) = 2" using assms(1) by (simp add: nm_shape_def)
  note i = nm_shape_nth [OF assms(1,4)]
  let ?s1 = "nm_emit (NmTimer 0) (s\<lparr>nm_armed := True\<rparr>)"
  let ?s2 = "set_item t (wait_cnt_update (\<lambda>_. 0)) ?s1"
  have tm: "nm_tm_start env s = (0, ?s1)" using assms(3) by (simp add: nm_tm_start_def modem_ok_def)
  have sh: "nm_shape ?s2" using assms(1) by (auto simp: nm_shape_def set_item_nth item_shape_def)
  have eq: "nm_dial_call env t s = (if ni_handle (nm_item s ! t) \<noteq> None then nm_dial_stop env t ?s2 else nm_start_call env t ?s2)"
    using tm i item_texts(4) [of "nm_item s ! t"] assms(2,5) by (simp add: nm_dial_call_def Let_def wanted_def)
  show ?thesis
  proof (cases "ni_handle (nm_item s ! t)")
    case None
    then show ?thesis
      using start_result [OF sh assms(3,4)] eq assms(2,4) l by (auto simp: set_item_nth)
  next
    case (Some h)
    have "t < length (nm_item ?s2)" using l assms(4) by simp
    then obtain s' where s': "nm_dial_stop env t ?s2 = Some s'"
      by (auto simp: nm_dial_stop_def nm_drop_handle_def nm_set_disconnected_def Let_def split: option.splits)
    note r = stop_result [OF s']
    have "nm_shape s'" using r sh l by (auto simp: nm_shape_def item_shape_def)
    then show ?thesis using eq s' r Some assms(2,4) l by (auto simp: set_item_nth)
  qed
qed

definition next_of :: "nat \<Rightarrow> nm \<Rightarrow> nat" where
  "next_of c s = (if c = 0 \<or> 2 \<le> c then (if wanted s 1 then 1 else if wanted s 0 then 0 else 2)
     else (if wanted s 0 then 0 else if wanted s 1 then 1 else 2))"

lemma next_of_cong: "nm_item s' = nm_item s \<Longrightarrow> next_of c s' = next_of c s"
  by (simp add: next_of_def wanted_def)

lemma next_of_cases: "wanted s t \<Longrightarrow> t < 2 \<Longrightarrow> next_of c s = t \<or> next_of c s = 1 - t \<and> wanted s (1 - t)"
  by (auto simp: less_2_cases_iff next_of_def)

lemma next_of_other: "wanted s t \<Longrightarrow> t < 2 \<Longrightarrow> next_of (1 - t) s = t"
  by (auto simp: less_2_cases_iff next_of_def)

text \<open>How many expiries of the timer it takes at most until network \<open>t\<close> is dialled.\<close>

definition holds :: "nm \<Rightarrow> nat \<Rightarrow> nat" where
  "holds s x = (if ni_handle (nm_item s ! x) = None then 0 else 1)"

definition dial_left :: "nat \<Rightarrow> nm \<Rightarrow> nat" where
  "dial_left t s =
     (if cur_type s = 1 - t \<and> ni_state (nm_item s ! (1 - t)) = NM_NET_CONNECTING
      then (6 - wait_cnt (nm_item s ! (1 - t))) + 2 + holds s t
      else if next_of (cur_type s) s = t then 1 + holds s t else 9 + holds s (1 - t) + holds s t)"

lemma dial_left_bound: "dial_left t s \<le> 11"
  using diff_le_self [of 6 "wait_cnt (nm_item s ! (1 - t))"] by (auto simp: dial_left_def holds_def)

text \<open>A network that waits for its turn.\<close>

definition in_turn :: "nat \<Rightarrow> nm \<Rightarrow> bool" where
  "in_turn t s \<longleftrightarrow> nm_shape s \<and> init_state s = NM_NET_INITED \<and> wanted s t \<and> ni_state (nm_item s ! t) \<noteq> NM_NET_CONNECTING"

lemma next_tick:
  assumes "in_turn t s" "modem_ok env" "t < 2" "\<not> (cur_type s < 2 \<and> ni_state (nm_item s ! cur_type s) = NM_NET_CONNECTING)"
  shows "\<exists>s'. nm_dial_next env (cur_type s) s = Some s' \<and> nm_shape s' \<and> init_state s' = NM_NET_INITED \<and>
    (ni_state (nm_item s' ! t) = NM_NET_CONNECTING \<or> in_turn t s' \<and> dial_left t s' < dial_left t s)"
proof -
  have sh: "nm_shape s" "init_state s = NM_NET_INITED" "wanted s t" using assms(1) by (simp_all add: in_turn_def)
  let ?u = "1 - t"
  have u: "?u < 2" "?u \<noteq> t" using assms(3) by (auto simp: less_2_cases_iff)
  have eq: "nm_dial_next env (cur_type s) s = nm_dial_call env (next_of (cur_type s) s) s"
    using next_net [OF sh(1), of "cur_type s"] next_of_cases [OF sh(3) assms(3), of "cur_type s"] assms(3) u
    by (auto simp: nm_dial_next_def next_of_def nm_types)
  have nc: "\<not> (cur_type s = ?u \<and> ni_state (nm_item s ! ?u) = NM_NET_CONNECTING)" using assms(4) u by auto
  consider "next_of (cur_type s) s = t" | "next_of (cur_type s) s = ?u" "wanted s ?u" "next_of (cur_type s) s \<noteq> t"
    using next_of_cases [OF sh(3) assms(3)] u by metis
  then show ?thesis
  proof cases
    case 1
    obtain s' where s': "nm_dial_call env t s = Some s'" "nm_shape s'" "init_state s' = NM_NET_INITED"
      "nm_item s' ! ?u = nm_item s ! ?u" "ni_apn (nm_item s' ! t) = ni_apn (nm_item s ! t)"
      "if ni_handle (nm_item s ! t) = None then ni_state (nm_item s' ! t) = NM_NET_CONNECTING
       else cur_type s' = cur_type s \<and> ni_state (nm_item s' ! t) = NM_NET_DISCONNECTED \<and> ni_handle (nm_item s' ! t) = None"
      using call_result [OF sh(1,2) assms(2,3) sh(3)] u by (auto split: if_splits)
    show ?thesis
    proof (cases "ni_handle (nm_item s ! t)")
      case None
      then show ?thesis using 1 eq s' by auto
    next
      case (Some h)
      then have r: "cur_type s' = cur_type s" "ni_state (nm_item s' ! t) = NM_NET_DISCONNECTED" "ni_handle (nm_item s' ! t) = None"
        using s'(6) by auto
      have w: "wanted s' t" "wanted s' ?u = wanted s ?u" using r s'(4,5) sh(3) by (simp_all add: wanted_def)
      then have "next_of (cur_type s) s' = t" using 1 sh(3) assms(3) by (cases "t = 0") (auto simp: next_of_def split: if_splits)
      then have "dial_left t s' < dial_left t s" using nc r s'(4) 1 Some by (simp add: dial_left_def holds_def)
      moreover have "in_turn t s'" using s'(2,3) w(1) r(2) by (simp add: in_turn_def)
      ultimately show ?thesis using 1 eq s' by auto
    qed
  next
    case 2
    obtain s' where s': "nm_dial_call env ?u s = Some s'" "nm_shape s'" "init_state s' = NM_NET_INITED"
      "nm_item s' ! t = nm_item s ! t" "ni_apn (nm_item s' ! ?u) = ni_apn (nm_item s ! ?u)"
      "if ni_handle (nm_item s ! ?u) = None then cur_type s' = ?u \<and> ni_state (nm_item s' ! ?u) = NM_NET_CONNECTING \<and> wait_cnt (nm_item s' ! ?u) = 0
       else cur_type s' = cur_type s \<and> ni_state (nm_item s' ! ?u) = NM_NET_DISCONNECTED \<and> ni_handle (nm_item s' ! ?u) = None"
      using call_result [OF sh(1,2) assms(2) u(1) 2(2)] assms(3) u(2) by (auto split: if_splits)
    have t': "in_turn t s'" using assms(1) s'(2-4) by (simp add: in_turn_def wanted_def)
    have h: "holds s' t = holds s t" using s'(4) by (simp add: holds_def)
    have dl: "dial_left t s = 9 + holds s ?u + holds s t" unfolding dial_left_def if_not_P [OF nc] if_not_P [OF 2(3)] ..
    have "dial_left t s' < dial_left t s"
    proof (cases "ni_handle (nm_item s ! ?u)")
      case None
      then have "dial_left t s' = 8 + holds s t" using s'(6) h by (simp add: dial_left_def)
      moreover have "dial_left t s = 9 + 0 + holds s t" unfolding dl using None by (simp add: holds_def)
      ultimately show ?thesis by simp
    next
      case (Some h')
      then have r: "cur_type s' = cur_type s" "ni_state (nm_item s' ! ?u) = NM_NET_DISCONNECTED" "ni_handle (nm_item s' ! ?u) = None"
        using s'(6) by auto
      have hu: "holds s' ?u = 0" using r(3) by (simp add: holds_def)
      have "dial_left t s = 9 + 1 + holds s t" unfolding dl using Some by (simp add: holds_def)
      moreover have "dial_left t s' \<le> 9 + holds s t" using r h hu by (simp add: dial_left_def)
      ultimately show ?thesis by simp
    qed
    then show ?thesis using 2 eq s' t' by auto
  qed
qed

lemma tick:
  assumes "in_turn t s" "modem_ok env" "t < 2"
  shows "\<exists>s'. nm_handle env NmRecall s = Some s' \<and> nm_shape s' \<and> init_state s' = NM_NET_INITED \<and>
    (ni_state (nm_item s' ! t) = NM_NET_CONNECTING \<or> in_turn t s' \<and> dial_left t s' < dial_left t s)"
proof -
  have sh: "nm_shape s" "init_state s = NM_NET_INITED" "wanted s t" "ni_state (nm_item s ! t) \<noteq> NM_NET_CONNECTING"
    using assms(1) by (simp_all add: in_turn_def)
  have l: "length (nm_item s) = 2" using sh(1) by (simp add: nm_shape_def)
  let ?u = "1 - t"
  let ?s0 = "s\<lparr>nm_armed := False\<rparr>"
  let ?s1 = "nm_emit (NmTimer 0) (?s0\<lparr>nm_armed := True\<rparr>)"
  have tm: "nm_tm_start env ?s0 = (0, ?s1)" using assms(2) by (simp add: nm_tm_start_def modem_ok_def)
  have u: "?u < 2" "?u \<noteq> t" using assms(3) by (auto simp: less_2_cases_iff)
  have t0: "in_turn t ?s0" "in_turn t ?s1" "dial_left t ?s0 = dial_left t s" "dial_left t ?s1 = dial_left t s"
    using assms(1) next_of_cong [of ?s0 s] next_of_cong [of ?s1 s]
    by (simp_all add: in_turn_def wanted_def nm_shape_def dial_left_def holds_def)
  have eq: "nm_handle env NmRecall s = nm_dial_timer_msg_proc env ?s0" by (simp add: nm_handle_def nm_dial_msg_proc_def)
  show ?thesis
  proof (cases "cur_type s < 2 \<and> ni_state (nm_item s ! cur_type s) = NM_NET_CONNECTING")
    case True
    then have c: "cur_type s = ?u" "ni_state (nm_item s ! ?u) = NM_NET_CONNECTING"
      using sh(4) assms(3) by (auto simp: less_2_cases_iff)
    have cu: "cur_type s < 2" using True by simp
    show ?thesis
    proof (cases "wait_cnt (nm_item s ! ?u) < 6")
      case w: True
      let ?s' = "set_item ?u (wait_cnt_update (\<lambda>n. n + 1)) ?s1"
      have i: "nm_item ?s' ! ?u = (nm_item s ! ?u)\<lparr>wait_cnt := wait_cnt (nm_item s ! ?u) + 1\<rparr>" "nm_item ?s' ! t = nm_item s ! t"
        using l u assms(3) by (simp_all add: set_item_nth)
      have "nm_dial_timer_msg_proc env ?s0 = Some ?s'"
        using sh(2) tm c cu w u l by (simp add: nm_dial_timer_msg_proc_def nm_types NM_MAX_DIAL_TIMES_def Let_def)
      moreover have "nm_shape ?s'" using sh(1) by (auto simp: nm_shape_def set_item_nth item_shape_def)
      moreover have "dial_left t ?s' < dial_left t s" using c w i by (simp add: dial_left_def holds_def)
      ultimately show ?thesis using eq sh i by (auto simp: in_turn_def wanted_def)
    next
      case w: False
      have "?u < length (nm_item ?s1)" using u l by simp
      then obtain s2 where s2: "nm_dial_stop env ?u ?s1 = Some s2"
        by (auto simp: nm_dial_stop_def nm_drop_handle_def nm_set_disconnected_def Let_def split: option.splits)
      note r = stop_result [OF s2]
      let ?s' = "set_item ?u (ni_state_update (\<lambda>_. NM_NET_DISCONNECTED)) s2"
      have rc: "cur_type s2 = ?u" "init_state s2 = NM_NET_INITED" "length (nm_item s2) = 2" using r c(1) sh(2) l by auto
      have i: "ni_state (nm_item ?s' ! ?u) = NM_NET_DISCONNECTED" "nm_item ?s' ! t = nm_item s ! t"
        using r u assms(3) l rc(3) by (auto simp: set_item_nth)
      have "nm_dial_timer_msg_proc env ?s0 = Some ?s'"
        using sh(2) tm c cu w u l s2 rc(1) by (simp add: nm_dial_timer_msg_proc_def nm_types NM_MAX_DIAL_TIMES_def Let_def)
      moreover have sh': "nm_shape ?s'"
        using r sh(1) l rc(3) by (auto simp: nm_shape_def set_item_nth item_shape_def)
      moreover have t': "in_turn t ?s'" using sh' i(2) sh rc(2) by (simp add: in_turn_def wanted_def)
      moreover have "next_of ?u ?s' = t" using t' assms(3) next_of_other [of ?s' t] by (simp add: in_turn_def)
      then have "dial_left t ?s' < dial_left t s" using c w i rc(1) by (simp add: dial_left_def holds_def)
      ultimately show ?thesis using eq rc(2) by auto
    qed
  next
    case False
    show ?thesis
    proof (cases "cur_type s < 2")
      case True
      then have "nm_dial_timer_msg_proc env ?s0 = nm_dial_next env (cur_type ?s1) ?s1"
        using sh(2) tm False l by (auto simp: nm_dial_timer_msg_proc_def nm_types Let_def)
      then show ?thesis using next_tick [OF t0(2) assms(2,3)] False eq t0(4) by simp
    next
      case 2: False
      then have "nm_dial_timer_msg_proc env ?s0 = nm_dial_next env (cur_type ?s0) ?s0"
        using sh(2) by (simp add: nm_dial_timer_msg_proc_def nm_types)
      then show ?thesis using next_tick [OF t0(1) assms(2,3)] 2 eq t0(3) by simp
    qed
  qed
qed

lemma dial_ticks:
  "in_turn t s \<Longrightarrow> t < 2 \<Longrightarrow> \<forall>env \<in> set es. modem_ok env \<Longrightarrow> dial_left t s \<le> length es \<Longrightarrow>
   \<exists>k \<le> dial_left t s. \<exists>s'. nm_loop (map (\<lambda>env. (env, NmRecall)) (take k es)) s = Some s' \<and> ni_state (nm_item s' ! t) = NM_NET_CONNECTING"
proof (induction es arbitrary: s)
  case Nil
  then show ?case by (simp add: dial_left_def split: if_splits)
next
  case (Cons env es)
  obtain s1 where s1: "nm_handle env NmRecall s = Some s1"
    "ni_state (nm_item s1 ! t) = NM_NET_CONNECTING \<or> in_turn t s1 \<and> dial_left t s1 < dial_left t s"
    using tick [OF Cons.prems(1) _ Cons.prems(2), of env] Cons.prems(3) by auto
  show ?case
  proof (cases "ni_state (nm_item s1 ! t) = NM_NET_CONNECTING")
    case True
    have "1 \<le> dial_left t s" by (simp add: dial_left_def)
    then show ?thesis using True s1(1) by (intro exI [of _ 1]) simp
  next
    case False
    then have "in_turn t s1" "dial_left t s1 < dial_left t s" using s1(2) by auto
    then obtain k s' where "k \<le> dial_left t s1" "nm_loop (map (\<lambda>env. (env, NmRecall)) (take k es)) s1 = Some s'"
      "ni_state (nm_item s' ! t) = NM_NET_CONNECTING"
      using Cons.IH [of s1] Cons.prems by auto
    then show ?thesis using s1(1) \<open>dial_left t s1 < dial_left t s\<close> by (intro exI [of _ "Suc k"]) simp
  qed
qed

end
