(* ===== verification/NmProps.thy ===== *)
theory NmProps
  imports NmInv
begin

text \<open>
  The modules that registered hear of a network as it comes and goes, no handle of the modem's library is
  lost, a network that is down is always dialled again once the library has started; and what goes wrong
  when it has not, when the settings become shorter, and when the private network is not used.
\<close>

section \<open>The timer runs while a network is wanted\<close>

definition alarm_ok :: "nm \<Rightarrow> bool" where
  "alarm_ok s \<longleftrightarrow> nm_armed s \<or> (\<forall>t < 2. \<not> wanted s t)"

definition tm_ok :: "nm_env \<Rightarrow> bool" where
  "tm_ok env \<longleftrightarrow> (\<forall>n. ne_tm env n = 0)"

lemma tm_armed: "tm_ok env \<Longrightarrow> fst (nm_tm_start env s) = 0 \<and> nm_armed (snd (nm_tm_start env s)) \<and>
    nm_item (snd (nm_tm_start env s)) = nm_item s \<and> init_state (snd (nm_tm_start env s)) = init_state s \<and>
    cur_type (snd (nm_tm_start env s)) = cur_type s"
  by (simp add: nm_tm_start_def tm_ok_def Let_def)

lemma start_armed: "nm_start_call env t s = Some s' \<Longrightarrow> nm_armed s' = nm_armed s \<and> init_state s' = init_state s"
  using para_set_result by (fastforce simp: nm_start_call_def Let_def bind_eq_Some_conv split: option.splits if_splits)

lemma call_armed: "nm_dial_call env t s = Some s' \<Longrightarrow> tm_ok env \<Longrightarrow> nm_armed s' \<and> init_state s' = init_state s"
  using tm_armed [of env s] stop_result start_armed
  by (auto simp: nm_dial_call_def Let_def bind_eq_Some_conv split: prod.splits if_splits)

lemma next_alarm:
  assumes "nm_dial_next env t s = Some s'" "nm_shape s" "tm_ok env"
  shows "alarm_ok s' \<and> init_state s' = init_state s"
proof (cases "next_of t s < 2")
  case True
  then show ?thesis
    using assms next_net [OF assms(2), of t] call_armed [of env _ s s'] by (auto simp: nm_dial_next_def next_of_def nm_types alarm_ok_def)
next
  case False
  have "\<forall>u < 2. \<not> wanted s u" using False by (auto simp: next_of_def less_2_cases_iff split: if_splits)
  then show ?thesis
    using False assms(1) next_net [OF assms(2), of t] by (auto simp: nm_dial_next_def next_of_def nm_types alarm_ok_def wanted_def split: if_splits)
qed

lemma restart_armed: "nm_dial_restart env s = Some s' \<Longrightarrow> tm_ok env \<Longrightarrow> nm_armed s' \<and> init_state s' = init_state s"
  using tm_armed [of env s] stop_result by (fastforce simp: nm_dial_restart_def Let_def bind_eq_Some_conv split: prod.splits)

lemma same_armed:
  "nm_armed (nm_sys_call env cmd s) = nm_armed s" "init_state (nm_sys_call env cmd s) = init_state s"
proof -
  have "nm_armed (nm_sys_loop env cmd n s) = nm_armed s \<and> init_state (nm_sys_loop env cmd n s) = init_state s" for n
    by (induction n arbitrary: s) auto
  then show "nm_armed (nm_sys_call env cmd s) = nm_armed s" "init_state (nm_sys_call env cmd s) = init_state s"
    by (simp_all add: nm_sys_call_def)
qed

lemma all_net_waits: "nm_dial_all_net env s = Some (ret, s') \<Longrightarrow> init_state s = NM_NET_NOT_INITED \<Longrightarrow> init_state s' \<noteq> NM_NET_INITED"
  by (auto simp: nm_dial_all_net_def Let_def nm_tm_start_def bind_eq_Some_conv split: if_splits)

lemma connected_alarm:
  assumes "nm_set_connected env t s = Some s'" "nm_shape s" "tm_ok env"
  shows "alarm_ok s' \<and> init_state s' = init_state s"
proof -
  let ?s1 = "snd (nm_notify_changed env t NM_REG_MSG_CONNECTED (set_item t (ni_state_update (\<lambda>_. NM_NET_CONNECTED)) s))"
  have "nm_shape ?s1" using assms(2) by (auto simp: nm_shape_def set_item_nth item_shape_def)
  then show ?thesis using next_alarm [of env t ?s1 s'] assms(1,3) by (simp add: nm_set_connected_def)
qed

lemma conn_alarm:
  assumes "nm_dial_connected env t s = Some s'" "nm_shape s" "tm_ok env" "nm_cfg_ok (ne_cfg env)" "t < 2"
    "init_state s = NM_NET_INITED \<longrightarrow> alarm_ok s"
  shows "init_state s' = NM_NET_INITED \<longrightarrow> alarm_ok s'"
proof (cases "ni_state (nm_item s ! t) = NM_NET_CONNECTING")
  case True
  note i = nm_shape_nth [OF assms(2,5)]
  obtain ret s1 where s1: "nm_dial_get_conf env t s = Some (ret, s1)" "nm_same s s1" using get_conf [OF assms(2,5,4)] by blast
  have sh: "nm_shape s1" using s1(2) assms(2) by (simp add: nm_same_def)
  show ?thesis
    using assms(1,2,3) i True s1(1) call_armed [of env t _ s'] connected_alarm [of env t _ s'] sh
    by (cases "ip_type (nm_item s ! t)") (auto simp: nm_dial_connected_def alarm_ok_def split: if_splits)
next
  case False
  then show ?thesis using assms nm_shape_nth [OF assms(2,5)] by (simp add: nm_dial_connected_def)
qed

lemma classify_fields: "nm_diag_classify env s = Some s1 \<Longrightarrow> nm_armed s1 = nm_armed s \<and> nm_item s1 = nm_item s \<and> init_state s1 = init_state s"
  by (auto simp: nm_diag_classify_def Let_def bind_eq_Some_conv split: if_splits)

lemma alarm_cong: "nm_armed s' = nm_armed s \<Longrightarrow> nm_item s' = nm_item s \<Longrightarrow> alarm_ok s' = alarm_ok s"
  by (simp add: alarm_ok_def wanted_def)

lemma diag_alarm:
  assumes "nm_diag_network env s = Some s'" "tm_ok env" "init_state s = NM_NET_INITED \<longrightarrow> alarm_ok s"
  shows "init_state s' = NM_NET_INITED \<longrightarrow> alarm_ok s'"
proof (cases "ne_sim env \<noteq> 1")
  case False
  then obtain s1 where s1: "nm_diag_classify env s = Some s1" using assms(1) by (auto simp: nm_diag_network_def bind_eq_Some_conv)
  note c = classify_fields [OF s1]
  then have a: "init_state s1 = NM_NET_INITED \<longrightarrow> alarm_ok s1" using assms(3) alarm_cong [of s1 s] by simp
  have "nm_armed s' = nm_armed s1 \<and> nm_item s' = nm_item s1 \<and> init_state s' = init_state s1 \<or>
    (\<exists>s2. nm_dial_restart env s1 = Some s2 \<and> nm_armed s' = nm_armed s2)"
    using assms(1) False s1 by (auto simp: nm_diag_network_def Let_def bind_eq_Some_conv split: if_splits)
  then show ?thesis
    using a alarm_cong [of s' s1] restart_armed [of env s1] assms(2) by (auto simp: alarm_ok_def)
qed (use assms in \<open>simp add: nm_diag_network_def\<close>)

lemma timer_alarm:
  assumes "nm_dial_timer_msg_proc env s = Some s'" "nm_shape s" "tm_ok env"
  shows "init_state s' = NM_NET_INITED \<longrightarrow> alarm_ok s'"
proof -
  note t = tm_armed [OF assms(3), of s]
  let ?s1 = "snd (nm_tm_start env s)"
  have sh: "nm_shape ?s1" using t assms(2) by (simp add: nm_shape_def)
  consider "init_state s = NM_NET_NOT_INITED" | "init_state s \<noteq> NM_NET_NOT_INITED" "\<not> cur_type s < 2"
    | "init_state s \<noteq> NM_NET_NOT_INITED" "cur_type s < 2" by blast
  then show ?thesis
  proof cases
    case 1
    then show ?thesis using assms(1) all_net_waits by (auto simp: nm_dial_timer_msg_proc_def)
  next
    case 2
    then show ?thesis using assms next_alarm by (auto simp: nm_dial_timer_msg_proc_def nm_types)
  next
    case 3
    then show ?thesis
      using assms(1,3) t next_alarm [of env "cur_type s" ?s1 s'] sh stop_result [of env "cur_type s" ?s1]
      by (auto simp: nm_dial_timer_msg_proc_def nm_types Let_def bind_eq_Some_conv alarm_ok_def split: if_splits)
  qed
qed

lemma settings_alarm:
  assumes "nm_dial_loc_net_proc env s = Some s'" "nm_shape s" "tm_ok env" "nm_cfg_ok (ne_cfg env)"
  shows "alarm_ok s'"
proof -
  obtain s1 where s1: "nm_read_auth (ne_cfg env) s = Some (0, s1)" "nm_same s s1" using read_auth [OF assms(2,4)] by blast
  have "nm_shape s1" using s1(2) assms(2) by (simp add: nm_same_def)
  then obtain s2 where "nm_read_apn (ne_cfg env) CFG_ITEM_LOCAL_APN 0 s1 = Some (0, s2)"
    using read_apn [OF _ assms(4), of s1 CFG_ITEM_LOCAL_APN 0] by auto
  then show ?thesis using assms(1,3) s1(1) restart_armed [of env s2 s'] by (simp add: nm_dial_loc_net_proc_def nm_types alarm_ok_def)
qed

lemma alarm_message:
  assumes "nm_handle env m s = Some s'" "nm_shape s" "tm_ok env" "nm_input_ok env m" "init_state s = NM_NET_INITED \<longrightarrow> alarm_ok s"
  shows "init_state s' = NM_NET_INITED \<longrightarrow> alarm_ok s'"
proof -
  have c: "nm_cfg_ok (ne_cfg env)" using assms(4) by (simp add: nm_input_ok_def)
  show ?thesis
  proof (cases m)
    case (NmInited t)
    have "nm_shape (s\<lparr>init_state := NM_NET_INITED\<rparr>)" using assms(2) by (simp add: nm_shape_def)
    then show ?thesis
      using assms(1,3) NmInited call_armed [of env t _ s'] next_alarm [of env t _ s']
      by (auto simp: nm_handle_def nm_dial_msg_proc_def nm_dial_init_msg_proc_def Let_def bind_eq_Some_conv alarm_ok_def split: if_splits)
  next
    case (NmStatus t evt ip)
    have t: "t < 2" using assms(4) NmStatus by (simp add: nm_input_ok_def)
    show ?thesis
    proof (cases evt)
      case DSI_EVT_WDS_CONNECTED
      have "wanted (set_item t (ip_type_update (\<lambda>_. f)) s) u = wanted s u" if "u < 2" for f u
        using assms(2) that by (simp add: wanted_def set_item_nth nm_shape_def)
      then have "alarm_ok (set_item t (ip_type_update (\<lambda>_. f)) s) = alarm_ok s" for f by (simp add: alarm_ok_def)
      then show ?thesis
        using assms(1,5) NmStatus DSI_EVT_WDS_CONNECTED
        by (cases ip) (auto simp: nm_handle_def nm_dial_msg_proc_def nm_dial_status_msg_proc_def nm_dial_wds_connected_def)
    next
      case DSI_EVT_NET_IS_CONN
      then show ?thesis
        using assms NmStatus conn_alarm [OF _ assms(2,3) c t] by (simp add: nm_handle_def nm_dial_msg_proc_def nm_dial_status_msg_proc_def)
    next
      case DSI_EVT_NET_NO_NET
      then show ?thesis
        using assms(1,3) NmStatus all_net_waits tm_armed
        by (auto simp: nm_handle_def nm_dial_msg_proc_def nm_dial_status_msg_proc_def nm_dial_disconnected_def bind_eq_Some_conv alarm_ok_def
            split: if_splits)
    next
      case DSI_EVT_OTHER
      then show ?thesis using assms(1,5) NmStatus by (simp add: nm_handle_def nm_dial_msg_proc_def nm_dial_status_msg_proc_def)
    qed
  next
    case NmRecall
    then show ?thesis
      using assms(1-3) timer_alarm [of env "s\<lparr>nm_armed := False\<rparr>" s'] by (simp add: nm_handle_def nm_dial_msg_proc_def nm_shape_def)
  next
    case (NmDcomChanged a)
    then show ?thesis
      using assms(1,5) alarm_cong [of s' s] same_armed
      by (auto simp: nm_handle_def nm_dial_msg_proc_def nm_set_dcom_def nm_cmds bind_eq_Some_conv split: if_splits)
  next
    case NmDiag
    then show ?thesis using assms(1,3,5) diag_alarm by (simp add: nm_handle_def)
  next
    case NmPwdg
    then show ?thesis using assms(1,5) alarm_cong [of s' s] by (auto simp: nm_handle_def)
  next
    case NmWanApnChanged
    obtain s1 where "nm_read_apn (ne_cfg env) CFG_ITEM_WAN_APN NM_PUBLIC_NET s = Some (0, s1)"
      using read_apn [OF assms(2) c, of CFG_ITEM_WAN_APN 1] by (auto simp: nm_types)
    then show ?thesis
      using assms(1,3) NmWanApnChanged restart_armed [of env s1 s']
      by (simp add: nm_handle_def nm_dial_msg_proc_def nm_dial_wan_net_proc_def alarm_ok_def)
  next
    case NmAuthChanged
    then show ?thesis using settings_alarm [OF _ assms(2,3) c] assms(1) by (simp add: nm_handle_def nm_dial_msg_proc_def)
  next
    case NmLocalApnChanged
    then show ?thesis using settings_alarm [OF _ assms(2,3) c] assms(1) by (simp add: nm_handle_def nm_dial_msg_proc_def)
  qed
qed

lemma alarm_run:
  "nm_inv {} s \<Longrightarrow> init_state s = NM_NET_INITED \<longrightarrow> alarm_ok s \<Longrightarrow>
   \<forall>(env, m) \<in> set ms. tm_ok env \<and> nm_input_ok env m \<Longrightarrow>
   \<exists>s'. nm_loop ms s = Some s' \<and> nm_inv {} s' \<and> (init_state s' = NM_NET_INITED \<longrightarrow> alarm_ok s')"
proof (induction ms arbitrary: s)
  case (Cons em ms)
  obtain env m where em: "em = (env, m)" by fastforce
  obtain s1 where s1: "nm_handle env m s = Some s1" "nm_inv {} s1"
    using nm_links.message [of "{}" s "nm_tbl s" env m] Cons.prems em by (auto simp: nm_input_ok_def hears_def)
  have "nm_shape s" using Cons.prems(1) by (simp add: nm_inv_def)
  then have "init_state s1 = NM_NET_INITED \<longrightarrow> alarm_ok s1" using alarm_message [OF s1(1)] Cons.prems(2,3) em by auto
  then show ?case using Cons.IH [OF s1(2)] s1(1) Cons.prems(3) em by auto
qed simp

section \<open>Properties\<close>

text \<open>The state in which the thread starts, the private and the public network not yet called.\<close>

definition nm_started :: "nm \<Rightarrow> bool" where
  "nm_started s \<longleftrightarrow> nm_shape s \<and> nm_eff s = [] \<and> distinct (nm_tbl s) \<and>
     (\<forall>t < 2. ni_handle (nm_item s ! t) = None \<and> ni_state (nm_item s ! t) = NM_NET_DISCONNECTED)"

lemma started_inv:
  assumes "nm_started s" "A \<subseteq> set (nm_tbl s)"
  shows "nm_inv A s"
proof -
  have l: "length (nm_item s) = 2" "\<forall>t < 2. ni_handle (nm_item s ! t) = None \<and> ni_state (nm_item s ! t) = NM_NET_DISCONNECTED"
    using assms(1) by (simp_all add: nm_started_def nm_shape_def)
  then have "\<forall>it \<in> set (nm_item s). ni_handle it = None" by (auto simp: in_set_conv_nth)
  then have "filter (\<lambda>x. fst x = Some h) (map (\<lambda>it. (ni_handle it, ni_state it)) (nm_item s)) = []" for h
    by (simp add: filter_empty_conv)
  then show ?thesis using assms l by (auto simp: nm_inv_def links_ok_def nm_started_def gets_def rels_def)
qed

text \<open>A bench: one callback for the public network, whose name is \<open>a\<close>; a modem that answers.\<close>

definition nm_bench :: nm where
  "nm_bench = set_item 1 (ni_apn_update (\<lambda>_. 97 # replicate 31 0)) (snd (nm_reg_status_changed NM_PUBLIC_NET (Some 7)
     (nm_diag_init_inside (nm_dial_init_inside DSI_IP_FAMILY_V4 \<lparr>nm_item = [], cur_type = 0, init_state = NM_NET_INITED, nm_tbl = [],
       nm_armed = False, diag_status = NM_NET_NORMAL, diag_start = 0, diag_times = 0, nm_diag_tbl = [], nm_eff = []\<rparr>))))"

definition nm_bench_env :: nm_env where
  "nm_bench_env = \<lparr>ne_tm = (\<lambda>n. 0), ne_handle = (\<lambda>n. Some 3), ne_call = (\<lambda>n. 0), ne_told = (\<lambda>n. 0), ne_name = None,
     ne_addr = Inr \<lparr>iface_addr_s = Some (True, [10, 0, 0, 2]), gtwy_addr_s = Some [10, 0, 0, 1], dnsp_addr_s = None, dnss_addr_s = None\<rparr>,
     ne_cfg = bench_cfg bench_disk, ne_now = 0, ne_sim = 1, ne_cfun = 1, ne_ota = (\<lambda>cb. True)\<rparr>"

lemma nm_bench_fields: "length (nm_item nm_bench) = 2" "nm_eff nm_bench = []" "nm_tbl nm_bench = [(1, 7)]" "cur_type nm_bench = 0"
  "init_state nm_bench = NM_NET_NOT_INITED" "ni_apn (nm_item nm_bench ! 1) = 97 # replicate 31 0" "ni_apn (nm_item nm_bench ! 0) = replicate 32 0"
  "t < 2 \<Longrightarrow> ni_handle (nm_item nm_bench ! t) = None \<and> ni_state (nm_item nm_bench ! t) = NM_NET_DISCONNECTED \<and>
    ni_user (nm_item nm_bench ! t) = replicate 32 0 \<and> ni_pwd (nm_item nm_bench ! t) = replicate 32 0"
  by (auto simp: nm_bench_def nm_dial_init_inside_def nm_diag_init_inside_def nm_reg_status_changed_def nm_types nm_sizes set_item_def
      nth_list_update less_2_cases_iff)

lemma nm_bench_started: "nm_started nm_bench"
  using nm_bench_fields by (auto simp: nm_started_def nm_shape_def item_shape_def less_2_cases_iff)

lemma bench_cfg_zero: "i < 74 \<Longrightarrow> cfg_val (bench_cfg d) i = replicate (cfg_lens ! i) 0"
  using cfg_off_end [of i] by (simp add: cfg_val_def place_of_def bench_cfg_def cfg_init_para_def Let_def bench_cfg0_def split: prod.split)

lemma nm_bench_env_ok: "nm_cfg_ok (ne_cfg nm_bench_env)" "told_ok nm_bench_env" "tm_ok nm_bench_env" "modem_ok nm_bench_env"
  using bench_cfg_ok(1) [of bench_disk] cfg_lens_nm bench_cfg_zero
  by (simp_all add: nm_cfg_ok_def nm_bench_env_def told_ok_def tm_ok_def modem_ok_def)

lemma link_run_last: "link_run False ms = Some up \<Longrightarrow> if ms = [] then \<not> up else last ms = (if up then NM_REG_MSG_CONNECTED else NM_REG_MSG_DISCONNECTED)"
proof (cases ms rule: rev_cases)
  case (snoc ns m)
  assume "link_run False ms = Some up"
  then obtain u where "link_run u [m] = Some up" using snoc by (auto simp: link_run_append bind_eq_Some_conv)
  then show ?thesis using snoc by (cases u; cases m) auto
qed simp

text \<open>The callbacks that can rely on being called: all of them if none ever fails, and the first of each network.\<close>

definition reliable :: "nm_env \<Rightarrow> (nm_env \<times> nm_msg) list \<Rightarrow> nm \<Rightarrow> (nat \<times> nat) set" where
  "reliable env ms s = (if \<forall>e \<in> insert env (fst ` set ms). told_ok e then set (nm_tbl s) else firsts (nm_tbl s))"

lemma firsts_registered: "firsts rs \<subseteq> set rs"
  by (auto simp: firsts_def find_Some_iff) (metis nth_mem)

lemma reliable_hears:
  "reliable env ms s \<subseteq> set (nm_tbl s)" "\<forall>e \<in> insert env (fst ` set ms). hears (reliable env ms s) (nm_tbl s) e"
  using firsts_registered by (auto simp: reliable_def hears_def)





text \<open>\<^bold>\<open>C35\<close>
  When the modem's library has accepted the start and its message that it is ready does not arrive, no network is
  ever called and the library never started again, whatever other messages come: there is no timer that
  looks after it.\<close>

theorem lost_ready_message:
  assumes "nm_started s" "init_state s = NM_NET_NOT_INITED" "\<exists>t < 2. ni_apn (nm_item s ! t) ! 0 \<noteq> 0" "ne_call env 0 = 0"
    "\<forall>(env, m) \<in> set ms. nm_input_ok env m \<and> (\<forall>t. m \<noteq> NmInited t)"
  shows "\<exists>s' t. nm_main env ms s = Some s' \<and> init_state s' = NM_NET_INITING \<and> calls_made (nm_eff s') = [DsiInit t]"
proof -
  have sh: "nm_shape s" "nm_eff s = []" using assms(1) by (simp_all add: nm_started_def)
  note i = nm_shape_nth [OF sh(1), of 0] nm_shape_nth [OF sh(1), of 1]
  have u: "[0..<2] = [0, 1::nat]" by (simp add: upt_rec)
  have "has_text (ni_apn (nm_item s ! 0)) = Some (ni_apn (nm_item s ! 0) ! 0 \<noteq> 0)"
    "has_text (ni_apn (nm_item s ! 1)) = Some (ni_apn (nm_item s ! 1) ! 0 \<noteq> 0)" using i item_texts(4) by auto
  then have "first_with_apn [0..<NM_NET_TYPE_NUM] s = Some (if ni_apn (nm_item s ! 0) ! 0 \<noteq> 0 then 0 else if ni_apn (nm_item s ! 1) ! 0 \<noteq> 0 then 1 else 2)"
    using i by (simp add: nm_types u)
  then obtain t where t: "first_with_apn [0..<NM_NET_TYPE_NUM] s = Some t" "t < 2"
    using assms(3) by (auto simp: less_2_cases_iff)
  let ?s1 = "nm_emit (DsiInit t) (s\<lparr>init_state := NM_NET_INITING\<rparr>)"
  have a: "nm_dial_all_net env s = Some (0, ?s1)" using t assms(2,4) sh(2) by (simp add: nm_dial_all_net_def nm_types Let_def)
  have "waiting [DsiInit t] ?s1" using sh by (simp add: waiting_def nm_shape_def calls_made_def)
  moreover have "\<forall>(env, m) \<in> set ms. True \<and> (\<forall>t. m \<noteq> NmInited t) \<and> nm_input_ok env m" using assms(5) by auto
  ultimately obtain s' where "nm_loop ms ?s1 = Some s'" "waiting [DsiInit t] s'" using nm_waiting.run by blast
  then show ?thesis using a by (auto simp: nm_main_def waiting_def)
qed

theorem lost_ready_message_witness:
  "\<exists>s' t. nm_main nm_bench_env [(nm_bench_env, NmRecall), (nm_bench_env, NmWanApnChanged), (nm_bench_env, NmRecall)] nm_bench = Some s' \<and>
     calls_made (nm_eff s') = [DsiInit t]"
proof -
  have "\<exists>t < 2. ni_apn (nm_item nm_bench ! t) ! 0 \<noteq> 0" using nm_bench_fields by (intro exI [of _ 1]) simp
  moreover have "\<forall>(env, m) \<in> set [(nm_bench_env, NmRecall), (nm_bench_env, NmWanApnChanged), (nm_bench_env, NmRecall)].
      nm_input_ok env m \<and> (\<forall>t. m \<noteq> NmInited t)" using nm_bench_env_ok by (simp add: nm_input_ok_def)
  moreover have "ne_call nm_bench_env 0 = 0" by (simp add: nm_bench_env_def)
  ultimately show ?thesis using lost_ready_message [OF nm_bench_started nm_bench_fields(5)] by blast
qed

lemma notify_diag [simp]: "diag_status (snd (nm_notify_loop env t st rs s)) = diag_status s"
  by (induction env t st rs s rule: nm_notify_loop.induct) (simp_all add: Let_def)

lemma drop_diag: "nm_drop_handle t s = Some s' \<Longrightarrow> diag_status s' = diag_status s"
  by (auto simp: nm_drop_handle_def bind_eq_Some_conv split: option.splits)

lemma stop_diag: "nm_dial_stop env t s = Some s' \<Longrightarrow> diag_status s' = diag_status s"
  by (auto simp: nm_dial_stop_def nm_set_disconnected_def nm_notify_changed_def Let_def bind_eq_Some_conv dest!: drop_diag split: if_splits)

lemma restart_diag:
  assumes "nm_dial_restart env s = Some s'"
  shows "diag_status s' = diag_status s"
proof -
  obtain ret s1 where t: "nm_tm_start env s = (ret, s1)" by force
  then have d: "diag_status s1 = diag_status s" by (auto simp: nm_tm_start_def Let_def split: if_splits)
  show ?thesis
    using assms d by (cases "ret = 0") (auto simp: nm_dial_restart_def t bind_eq_Some_conv dest!: stop_diag)
qed

text \<open>Without a private network nothing looks after the public one, up or down.\<close>

lemma public_network_unwatched:
  assumes "nm_shape s" "ni_apn (nm_item s ! NM_PRIVATE_NET) ! 0 = 0" "ne_sim env = 1" "nm_diag_network env s = Some s'"
  shows "diag_status s' \<noteq> NM_NET_DIAL_LINK_FAULT"
proof -
  obtain s1 where s1: "nm_diag_classify env s = Some s1" using assms(3,4) by (auto simp: nm_diag_network_def bind_eq_Some_conv)
  then have c: "diag_status s1 \<noteq> NM_NET_DIAL_LINK_FAULT"
    using chk_dial [OF assms(1)] assms(2) by (auto simp: nm_diag_classify_def Let_def nm_types split: if_splits)
  then show ?thesis using assms(3,4) s1 restart_diag by (fastforce simp: nm_diag_network_def Let_def bind_eq_Some_conv split: if_splits)
qed

text \<open>\<^bold>\<open>C37\<close>
  New credentials of the private network are written over the old ones without their terminating zero: the next
  call passes the new user name with the end of a longer old one behind it, and credentials that are
  cleared go on being used.\<close>

theorem old_user_shows_through:
  assumes "nm_shape s" "nm_cfg_ok c"
  shows "\<exists>s' s''. nm_read_auth c s = Some (0, s') \<and> nm_dial_para_set NM_PRIVATE_NET h s' = Some s'' \<and>
    DsiParam h (UserName (let auth = cfg_val c CFG_ITEM_LOC_APN_AUTH; new = c_string (take 32 auth); old = ni_user (nm_item s ! NM_PRIVATE_NET)
      in if auth ! 0 \<noteq> 0 \<and> auth ! 32 \<noteq> 0 then new @ c_string (drop (length new) old) else c_string old)) \<in> set (nm_eff s'')"
proof -
  let ?auth = "cfg_val c CFG_ITEM_LOC_APN_AUTH" and ?it = "nm_item s ! 0"
  have z: "length ?auth = 64" "0 \<in> set (take 32 ?auth)" "0 \<in> set (drop 32 ?auth)"
    using assms(2) nm_cfg_lengths [OF assms(2)] by (simp_all add: nm_cfg_ok_def)
  note it = nm_shape_nth [OF assms(1), of 0]
  obtain it' where it': "nm_set_auth ?auth ?it = Some it'" "it' = (if ?auth ! 0 \<noteq> 0 \<and> ?auth ! 32 \<noteq> 0
    then ?it\<lparr>ni_user := c_string (take 32 ?auth) @ drop (length (c_string (take 32 ?auth))) (ni_user ?it),
            ni_pwd := c_string (drop 32 ?auth) @ drop (length (c_string (drop 32 ?auth))) (ni_pwd ?it)\<rparr> else ?it)"
    using set_auth [OF _ z, of ?it] it by simp
  let ?s1 = "set_item 0 (\<lambda>_. it') s"
  have r: "nm_read_auth c s = Some (0, ?s1)" using it it'(1) nm_cfg_gets [OF assms(2)] by (simp add: nm_read_auth_def nm_types)
  have sh: "nm_shape ?s1" using read_auth [OF assms] r assms(1) by (auto simp: nm_same_def)
  obtain s'' where s'': "nm_dial_para_set 0 h ?s1 = Some s''" using para_set [OF sh, of 0 h] by auto
  have n: "nm_item ?s1 ! 0 = it'" using it by (simp add: set_item_nth)
  have i': "item_shape it'" using nm_shape_nth [OF sh, of 0] n by simp
  have "DsiParam h (UserName (c_string (ni_user it'))) \<in> set (nm_eff s'')"
    using s'' n it item_texts [OF i'] by (auto simp: nm_dial_para_set_def Let_def)
  moreover have "c_string (c_string xs @ ys) = c_string xs @ c_string ys" for xs ys
    by (induction xs) (auto simp: c_string_def)
  ultimately have "DsiParam h (UserName (if ?auth ! 0 \<noteq> 0 \<and> ?auth ! 32 \<noteq> 0
      then c_string (take 32 ?auth) @ c_string (drop (length (c_string (take 32 ?auth))) (ni_user ?it)) else c_string (ni_user ?it))) \<in> set (nm_eff s'')"
    using it'(2) by (auto split: if_splits)
  then show ?thesis using r s'' by (auto simp: nm_types Let_def)
qed

text \<open>The user \<open>alice\<close> with her password \<open>x\<close>, replaced by \<open>bob\<close> with the same.\<close>

definition text32 :: "string \<Rightarrow> byte list" where
  "text32 s = map of_char s @ replicate (32 - length s) 0"

theorem old_user_shows_through_witness:
  "\<exists>c s'' s'. nm_read_auth c (set_item 0 (\<lambda>it. it\<lparr>ni_user := text32 ''alice'', ni_pwd := text32 ''x''\<rparr>) nm_bench) = Some (0, s') \<and>
     nm_dial_para_set NM_PRIVATE_NET 3 s' = Some s'' \<and> DsiParam 3 (UserName (map of_char ''bobce'')) \<in> set (nm_eff s'')"
proof -
  let ?s = "set_item 0 (\<lambda>it. it\<lparr>ni_user := text32 ''alice'', ni_pwd := text32 ''x''\<rparr>) nm_bench"
  let ?x = "text32 ''bob'' @ text32 ''x''"
  let ?b = "bench_cfg bench_disk"
  let ?c = "?b\<lparr>cf_buf := cfg_put CFG_ITEM_LOC_APN_AUTH ?x (cf_buf ?b)\<rparr>"
  have b: "nm_cfg_ok ?b" "cfg_ok ?b" using nm_bench_env_ok(1) by (simp_all add: nm_bench_env_def nm_cfg_ok_def)
  have l: "length ?x = cfg_lens ! CFG_ITEM_LOC_APN_AUTH" by (simp add: text32_def cfg_lens_nm)
  note v = cfg_put_val [OF b(2) cfg_lens_nm(8) l]
  have bob: "take 32 ?x = 98 # 111 # 98 # replicate 29 0" "drop 32 ?x = 120 # replicate 31 0" "?x ! 0 = 98" "?x ! 32 = 120"
    by (simp_all add: text32_def nth_append)
  have c: "nm_cfg_ok ?c"
    using b(1) cfg_put_ok [OF b(2) cfg_lens_nm(8) l] v cfg_lens_nm bob
    by (simp add: nm_cfg_ok_def CFG_ITEM_LOCAL_APN_def CFG_ITEM_WAN_APN_def CFG_ITEM_LOC_APN_AUTH_def)
  have al: "text32 ''alice'' = 97 # 108 # 105 # 99 # 101 # replicate 27 0" "text32 ''x'' = 120 # replicate 31 0" by (simp_all add: text32_def)
  have sh: "nm_shape ?s"
    using nm_bench_started by (auto simp: nm_started_def nm_shape_def set_item_nth item_shape_def al nth_Cons')
  have u: "ni_user (nm_item ?s ! NM_PRIVATE_NET) = text32 ''alice''" using nm_bench_fields(1) by (simp add: set_item_nth nm_types)
  have x: "cfg_val ?c CFG_ITEM_LOC_APN_AUTH = ?x" using v cfg_lens_nm by simp
  have e: "(let auth = cfg_val ?c CFG_ITEM_LOC_APN_AUTH; new = c_string (take 32 auth); old = ni_user (nm_item ?s ! NM_PRIVATE_NET)
      in if auth ! 0 \<noteq> 0 \<and> auth ! 32 \<noteq> 0 then new @ c_string (drop (length new) old) else c_string old) = map of_char ''bobce''"
    unfolding x u Let_def bob by (simp add: al(1) c_string_def)
  show ?thesis using old_user_shows_through [OF sh c, of 3] unfolding e by blast
qed

end
